(* ===== verification/JPrelude.thy ===== *)
theory JPrelude
  imports Main "HOL-Library.Multiset" "HOL-Library.Sublist"
begin

text \<open>
  The prelude of the development: the collections of facts the component theories add to,
  the error values and the state-and-error computations of the effectful handlers, the
  swap-based insertion sort that two components share, and the interfaces (locales) under
  which shared lemmas are proved once: encoders with their decoders, strict weak orders with
  the sorting loop, and transition systems with an invariant.
\<close>

named_theorems jui_defs \<open>definitions that component proofs unfold together\<close>
named_theorems jui_inv \<open>invariant preservation facts\<close>

section \<open>Error values\<close>

text \<open>
  A Go \<open>error\<close> is a message, a wrapped cause (\<open>fmt.Errorf\<close> with \<open>%w\<close>), a join of several
  errors (\<open>errors.Join\<close>), or the panel's own \<open>problem.Error\<close> (kind, code, message, cause).
\<close>

datatype kind = Validation | NotFound | Conflict | Unavailable | Internal

datatype error =
    Err string
  | Wrap string error
  | Join "error list"
  | Problem kind string "error option"

text \<open>\<open>errors.Join\<close> of values that may be nil: nil when all of them are.\<close>

definition errors_Join :: "error option list \<Rightarrow> error option" where
  "errors_Join es =
     (let present = List.map_filter (\<lambda>e. e) es
      in if present = [] then None else Some (Join present))"

lemma errors_Join_None [simp]: "errors_Join es = None \<longleftrightarrow> (\<forall>e\<in>set es. e = None)"
  by (induction es)
     (auto simp: errors_Join_def Let_def map_filter_simps split: option.splits if_splits)

text \<open>\<open>errors.Is\<close>: the error itself or one of its causes is the target.\<close>

fun error_is :: "error \<Rightarrow> error \<Rightarrow> bool" where
  "error_is t (Err m) = (Err m = t)"
| "error_is t (Wrap m e) = (Wrap m e = t \<or> error_is t e)"
| "error_is t (Join es) = (Join es = t \<or> list_ex (error_is t) es)"
| "error_is t (Problem k code cause) = (Problem k code cause = t \<or>
     (case cause of None \<Rightarrow> False | Some e \<Rightarrow> error_is t e))"

lemma error_is_refl [simp]: "error_is t t"
  by (cases t) auto

section \<open>Computations over a state that may fail\<close>

type_synonym ('w, 'a) io = "'w \<Rightarrow> (error + 'a) \<times> 'w"

definition io_return :: "'a \<Rightarrow> ('w, 'a) io" where
  "io_return x w = (Inr x, w)"

definition io_fail :: "error \<Rightarrow> ('w, 'a) io" where
  "io_fail e w = (Inl e, w)"

definition io_bind :: "('w, 'a) io \<Rightarrow> ('a \<Rightarrow> ('w, 'b) io) \<Rightarrow> ('w, 'b) io" where
  "io_bind m f w = (case m w of (Inl e, w') \<Rightarrow> (Inl e, w') | (Inr x, w') \<Rightarrow> f x w')"

text \<open>The outcome of a call as a value, for code that inspects \<open>err\<close> itself.\<close>

definition io_try :: "('w, 'a) io \<Rightarrow> (error + 'a \<Rightarrow> ('w, 'b) io) \<Rightarrow> ('w, 'b) io" where
  "io_try m f w = (case m w of (r, w') \<Rightarrow> f r w')"

fun io_each :: "('x \<Rightarrow> ('w, unit) io) \<Rightarrow> 'x list \<Rightarrow> ('w, unit) io" where
  "io_each f [] = io_return ()"
| "io_each f (x # xs) = io_bind (f x) (\<lambda>_. io_each f xs)"

lemma io_return_apply [simp]: "io_return x w = (Inr x, w)"
  by (simp add: io_return_def)

lemma io_fail_apply [simp]: "io_fail e w = (Inl e, w)"
  by (simp add: io_fail_def)

lemma io_bind_Inr [simp]: "m w = (Inr x, w') \<Longrightarrow> io_bind m f w = f x w'"
  by (simp add: io_bind_def)

lemma io_bind_Inl [simp]: "m w = (Inl e, w') \<Longrightarrow> io_bind m f w = (Inl e, w')"
  by (simp add: io_bind_def)

lemma io_try_apply [simp]: "m w = (r, w') \<Longrightarrow> io_try m f w = f r w'"
  by (simp add: io_try_def)

lemma io_bind_InrE:
  assumes "io_bind m f w = (Inr y, w'')"
  obtains x w' where "m w = (Inr x, w')" and "f x w' = (Inr y, w'')"
  using assms by (auto simp: io_bind_def split: prod.splits sum.splits)

text \<open>A deferred call: it runs whatever the outcome, and its own result is dropped.\<close>

definition io_finally :: "('w, 'a) io \<Rightarrow> ('w, 'b) io \<Rightarrow> ('w, 'a) io" where
  "io_finally m cleanup w = (case m w of (r, w') \<Rightarrow> (r, snd (cleanup w')))"

text \<open>An external command: its output and its exit error, both left to the caller.\<close>

type_synonym 'w runner = "string list \<Rightarrow> 'w \<Rightarrow> (string \<times> error option) \<times> 'w"

definition exec :: "'w runner \<Rightarrow> string list \<Rightarrow> ('w, string \<times> error option) io" where
  "exec run args w = (case run args w of (r, w') \<Rightarrow> (Inr r, w'))"

text \<open>A command that must succeed: \<open>if output, err := Run(...); err != nil { return fmt.Errorf }\<close>.\<close>

definition must :: "'w runner \<Rightarrow> string \<Rightarrow> string list \<Rightarrow> ('w, string) io" where
  "must run msg args = io_bind (exec run args)
     (\<lambda>(out, err). case err of Some e \<Rightarrow> io_fail (Wrap msg e) | None \<Rightarrow> io_return out)"

lemma exec_apply [simp]: "exec run args w = (Inr (fst (run args w)), snd (run args w))"
  by (simp add: exec_def split: prod.splits)

subsection \<open>What a computation keeps\<close>

definition keeps :: "('w \<Rightarrow> bool) \<Rightarrow> ('w, 'a) io \<Rightarrow> bool" where
  "keeps P m \<longleftrightarrow> (\<forall>w. P w \<longrightarrow> P (snd (m w)))"

lemma keepsD: "keeps P m \<Longrightarrow> P w \<Longrightarrow> P (snd (m w))"
  by (simp add: keeps_def)

lemma keepsI: "(\<And>w. P w \<Longrightarrow> P (snd (m w))) \<Longrightarrow> keeps P m"
  by (simp add: keeps_def)

lemma keeps_return [intro, jui_inv]: "keeps P (io_return x)"
  by (simp add: keeps_def)

lemma keeps_fail [intro, jui_inv]: "keeps P (io_fail e)"
  by (simp add: keeps_def)

lemma keeps_bind [intro, jui_inv]: "keeps P m \<Longrightarrow> (\<And>x. keeps P (f x)) \<Longrightarrow> keeps P (io_bind m f)"
  unfolding keeps_def io_bind_def by (auto split: prod.splits sum.splits)

lemma keeps_try [intro, jui_inv]: "keeps P m \<Longrightarrow> (\<And>r. keeps P (f r)) \<Longrightarrow> keeps P (io_try m f)"
  unfolding keeps_def io_try_def by (auto split: prod.splits)

lemma keeps_finally [intro, jui_inv]: "keeps P m \<Longrightarrow> keeps P c \<Longrightarrow> keeps P (io_finally m c)"
  unfolding keeps_def io_finally_def by (auto split: prod.splits)

lemma keeps_each [intro, jui_inv]: "(\<And>x. x \<in> set xs \<Longrightarrow> keeps P (f x)) \<Longrightarrow> keeps P (io_each f xs)"
  by (induction xs) (simp_all add: keeps_return keeps_bind)

lemma keeps_exec [intro, jui_inv]: "(\<And>w. P w \<Longrightarrow> P (snd (run args w))) \<Longrightarrow> keeps P (exec run args)"
  by (simp add: keeps_def)

lemma keeps_must [intro, jui_inv]: "(\<And>w. P w \<Longrightarrow> P (snd (run args w))) \<Longrightarrow> keeps P (must run msg args)"
  unfolding must_def by (intro keeps_bind keeps_exec) (auto split: option.splits)

text \<open>Partial correctness of a result: what holds of the value and the state when the call succeeds.\<close>

definition yields :: "('w \<Rightarrow> bool) \<Rightarrow> ('w, 'a) io \<Rightarrow> ('a \<Rightarrow> 'w \<Rightarrow> bool) \<Rightarrow> bool" where
  "yields P m Q \<longleftrightarrow> (\<forall>w x w'. P w \<longrightarrow> m w = (Inr x, w') \<longrightarrow> Q x w')"

lemma yieldsD: "yields P m Q \<Longrightarrow> P w \<Longrightarrow> m w = (Inr x, w') \<Longrightarrow> Q x w'"
  by (auto simp: yields_def)

lemma yields_return: "(\<And>w. P w \<Longrightarrow> Q x w) \<Longrightarrow> yields P (io_return x) Q"
  by (auto simp: yields_def)

lemma yields_fail: "yields P (io_fail e) Q"
  by (simp add: yields_def)

lemma yields_bind: "yields P m R \<Longrightarrow> (\<And>x. yields (R x) (f x) Q) \<Longrightarrow> yields P (io_bind m f) Q"
  unfolding yields_def by (blast elim: io_bind_InrE)

lemma yields_weaken: "yields P m Q \<Longrightarrow> (\<And>x w. Q x w \<Longrightarrow> Q' x w) \<Longrightarrow> yields P m Q'"
  by (auto simp: yields_def)

text \<open>A computation that never fails.\<close>

definition total :: "('w, 'a) io \<Rightarrow> bool" where
  "total m \<longleftrightarrow> (\<forall>w. \<not> isl (fst (m w)))"

lemma total_exec: "total (exec run args)"
  by (simp add: total_def)

lemma total_return: "total (io_return x)"
  by (simp add: total_def)

section \<open>The insertion sort by swaps\<close>

text \<open>
  \<open>for i := 1; i < n; i++ { for j := i; j > 0 && less(a[j], a[j-1]); j-- { swap } }\<close>
\<close>

fun sift :: "('a \<Rightarrow> 'a \<Rightarrow> bool) \<Rightarrow> nat \<Rightarrow> 'a list \<Rightarrow> 'a list" where
  "sift lt 0 xs = xs"
| "sift lt (Suc j) xs =
     (if lt (xs ! Suc j) (xs ! j)
      then sift lt j (xs[Suc j := xs ! j, j := xs ! Suc j])
      else xs)"

definition swap_sort :: "('a \<Rightarrow> 'a \<Rightarrow> bool) \<Rightarrow> 'a list \<Rightarrow> 'a list" where
  "swap_sort lt xs = fold (\<lambda>i ys. sift lt i ys) [1..<length xs] xs"

text \<open>The reference: insert from the back, after every element that is not greater.\<close>

fun insert_rev :: "('a \<Rightarrow> 'a \<Rightarrow> bool) \<Rightarrow> 'a \<Rightarrow> 'a list \<Rightarrow> 'a list" where
  "insert_rev lt x [] = [x]"
| "insert_rev lt x (y # ys) = (if lt x y then y # insert_rev lt x ys else x # y # ys)"

definition insert_back :: "('a \<Rightarrow> 'a \<Rightarrow> bool) \<Rightarrow> 'a \<Rightarrow> 'a list \<Rightarrow> 'a list" where
  "insert_back lt x xs = rev (insert_rev lt x (rev xs))"

definition insertion_sort :: "('a \<Rightarrow> 'a \<Rightarrow> bool) \<Rightarrow> 'a list \<Rightarrow> 'a list" where
  "insertion_sort lt xs = foldl (\<lambda>acc x. insert_back lt x acc) [] xs"

lemma insert_back_Nil [simp]: "insert_back lt x [] = [x]"
  by (simp add: insert_back_def)

lemma insert_back_snoc:
  "insert_back lt x (ys @ [y]) = (if lt x y then insert_back lt x ys @ [y] else ys @ [y, x])"
  by (simp add: insert_back_def)

lemma mset_insert_rev: "mset (insert_rev lt x ys) = add_mset x (mset ys)"
  by (induction ys) auto

lemma mset_insert_back [simp]: "mset (insert_back lt x ys) = add_mset x (mset ys)"
  by (simp add: insert_back_def mset_insert_rev)

lemma set_insert_back [simp]: "set (insert_back lt x ys) = insert x (set ys)"
  using mset_insert_back [of lt x ys] by (metis set_mset_add_mset_insert set_mset_mset)

lemma length_insert_back [simp]: "length (insert_back lt x ys) = Suc (length ys)"
  using mset_insert_back [of lt x ys] by (metis size_add_mset size_mset)

lemma sift_eq: "sift lt (length ys) (ys @ x # zs) = insert_back lt x ys @ zs"
proof (induction ys arbitrary: zs rule: rev_induct)
  case Nil
  then show ?case by simp
next
  case (snoc y ys)
  have step: "(ys @ [y] @ x # zs)[Suc (length ys) := y, length ys := x] = ys @ x # y # zs"
    by (simp add: list_update_append)
  show ?case
    using snoc.IH [of "y # zs"] step
    by (simp add: nth_append insert_back_snoc)
qed

lemma fold_sift_eq:
  "fold (\<lambda>i ys. sift lt i ys) [length ys..<length ys + length zs] (ys @ zs)
     = foldl (\<lambda>acc x. insert_back lt x acc) ys zs"
proof (induction zs arbitrary: ys)
  case Nil
  then show ?case by simp
next
  case (Cons z zs)
  have "[length ys..<length ys + length (z # zs)]
      = length ys # [length (insert_back lt z ys)..<length (insert_back lt z ys) + length zs]"
    using upt_conv_Cons [of "length ys" "length ys + length (z # zs)"] by simp
  then show ?case
    using Cons.IH [of "insert_back lt z ys"] by (simp add: sift_eq)
qed

text \<open>The swapping loop computes the functional insertion sort.\<close>

lemma swap_sort_eq: "swap_sort lt xs = insertion_sort lt xs"
proof (cases xs)
  case Nil
  then show ?thesis by (simp add: swap_sort_def insertion_sort_def)
next
  case (Cons x zs)
  then show ?thesis
    using fold_sift_eq [of lt "[x]" zs] by (simp add: swap_sort_def insertion_sort_def)
qed

lemma mset_foldl_insert:
  "mset (foldl (\<lambda>acc x. insert_back lt x acc) acc xs) = mset acc + mset xs"
  by (induction xs arbitrary: acc) auto

lemma mset_swap_sort [simp]: "mset (swap_sort lt xs) = mset xs"
  by (simp add: swap_sort_eq insertion_sort_def mset_foldl_insert)

lemma set_swap_sort [simp]: "set (swap_sort lt xs) = set xs"
  by (metis mset_swap_sort set_mset_mset)

lemma length_swap_sort [simp]: "length (swap_sort lt xs) = length xs"
  by (metis mset_swap_sort size_mset)

section \<open>Interfaces\<close>

subsection \<open>Strict weak orders and the sorting loop\<close>

locale strict_weak_order =
  fixes lt :: "'a \<Rightarrow> 'a \<Rightarrow> bool"
  assumes lt_asym: "lt a b \<Longrightarrow> \<not> lt b a"
    and lt_negtrans: "\<not> lt a b \<Longrightarrow> \<not> lt b c \<Longrightarrow> \<not> lt a c"
begin

definition ranked :: "'a list \<Rightarrow> bool" where
  "ranked = sorted_wrt (\<lambda>a b. \<not> lt b a)"

definition tied :: "'a \<Rightarrow> 'a \<Rightarrow> bool" where
  "tied a b \<longleftrightarrow> \<not> lt a b \<and> \<not> lt b a"

lemma tied_refl [simp]: "tied a a"
  using lt_asym by (auto simp: tied_def)

lemma ranked_insert_back: "ranked ys \<Longrightarrow> ranked (insert_back lt x ys)"
proof (induction ys rule: rev_induct)
  case Nil
  then show ?case by (simp add: ranked_def)
next
  case (snoc y ys)
  show ?case
  proof (cases "lt x y")
    case True
    with snoc show ?thesis
      by (auto simp: ranked_def insert_back_snoc sorted_wrt_append dest: lt_asym)
  next
    case False
    with snoc.prems show ?thesis
      by (auto simp: ranked_def insert_back_snoc sorted_wrt_append dest: lt_negtrans)
  qed
qed

lemma ranked_foldl: "ranked acc \<Longrightarrow> ranked (foldl (\<lambda>acc x. insert_back lt x acc) acc xs)"
  by (induction xs arbitrary: acc) (auto simp: ranked_insert_back)

text \<open>The loop sorts: no element is followed by one that is less than it.\<close>

lemma swap_sort_ranked: "ranked (swap_sort lt xs)"
  using ranked_foldl [of "[]" xs] by (simp add: swap_sort_eq insertion_sort_def ranked_def)

text \<open>The loop is stable: the elements tied with any given one keep their order.\<close>

lemma insert_back_stable:
  "ranked ys \<Longrightarrow>
     filter (tied a) (insert_back lt x ys) = filter (tied a) (ys @ [x])"
proof (induction ys rule: rev_induct)
  case Nil
  then show ?case by simp
next
  case (snoc y ys)
  have r: "ranked ys" using snoc.prems by (simp add: ranked_def sorted_wrt_append)
  have no: "lt x y \<Longrightarrow> tied a x \<Longrightarrow> \<not> tied a y"
    using lt_negtrans by (auto simp: tied_def)
  show ?case
    using snoc.IH [OF r] no by (auto simp: insert_back_snoc)
qed

lemma foldl_stable:
  "ranked acc \<Longrightarrow>
     filter (tied a) (foldl (\<lambda>acc x. insert_back lt x acc) acc xs)
       = filter (tied a) acc @ filter (tied a) xs"
proof (induction xs arbitrary: acc)
  case Nil
  then show ?case by simp
next
  case (Cons x xs)
  then show ?case
    using insert_back_stable [OF Cons.prems, of a x] ranked_insert_back [OF Cons.prems, of x]
    by simp
qed

lemma swap_sort_stable: "filter (tied a) (swap_sort lt xs) = filter (tied a) xs"
  using foldl_stable [of "[]" a xs]
  by (simp add: swap_sort_eq insertion_sort_def ranked_def)

text \<open>The head of a sorted nonempty list is beaten by nothing in it.\<close>

lemma ranked_hd: "ranked (x # xs) \<Longrightarrow> y \<in> set (x # xs) \<Longrightarrow> \<not> lt y x"
  using lt_asym by (auto simp: ranked_def)

end

subsection \<open>Encoders with their decoders\<close>

locale checked_codec =
  fixes enc :: "'a \<Rightarrow> 'b" and dec :: "'b \<Rightarrow> 'a option" and ok :: "'a \<Rightarrow> bool"
  assumes dec_enc_ok: "ok x \<Longrightarrow> dec (enc x) = Some x"
begin

lemma enc_inj_on: "ok x \<Longrightarrow> ok y \<Longrightarrow> enc x = enc y \<Longrightarrow> x = y"
  by (metis dec_enc_ok option.inject)

end

locale codec =
  fixes enc :: "'a \<Rightarrow> 'b" and dec :: "'b \<Rightarrow> 'a option"
  assumes dec_enc: "dec (enc x) = Some x"

sublocale codec \<subseteq> checked_codec enc dec "\<lambda>_. True"
  by unfold_locales (simp add: dec_enc)

context codec
begin

lemma enc_eq_iff: "enc x = enc y \<longleftrightarrow> x = y"
  using enc_inj_on by blast

end

subsection \<open>Transition systems with an invariant\<close>

locale transition_system =
  fixes start :: "'s \<Rightarrow> bool" and step :: "'s \<Rightarrow> 's \<Rightarrow> bool" and inv :: "'s \<Rightarrow> bool"
  assumes inv_start: "start s \<Longrightarrow> inv s"
    and inv_step: "inv s \<Longrightarrow> step s t \<Longrightarrow> inv t"
begin

lemma inv_steps: "step\<^sup>*\<^sup>* s t \<Longrightarrow> inv s \<Longrightarrow> inv t"
  by (induction rule: rtranclp_induct) (auto intro: inv_step)

lemma inv_reachable: "start s \<Longrightarrow> step\<^sup>*\<^sup>* s t \<Longrightarrow> inv t"
  by (auto intro: inv_steps inv_start)

end

end
