(* ===== verification/GoText.thy ===== *)
theory GoText
  imports JPrelude "HOL-Library.Char_ord" "HOL-Library.List_Lexorder" "HOL-Library.Code_Target_Nat"
begin

text \<open>
  The part of Go's \<open>strings\<close>, \<open>strconv\<close> and \<open>bufio\<close> packages that the panel uses, on byte
  strings. Case mapping and white space are those of the ASCII bytes; a byte of a multi-byte
  character is left as it is. \<open>strconv.ParseInt\<close> and \<open>Atoi\<close> keep the 64-bit limits and the
  clamped value that Go returns together with a range error.
\<close>

section \<open>Characters\<close>

abbreviation byte :: "char \<Rightarrow> nat" where
  "byte c \<equiv> of_char c"

definition is_space :: "char \<Rightarrow> bool" where
  "is_space c \<longleftrightarrow> byte c = 32 \<or> (9 \<le> byte c \<and> byte c \<le> 13)"

definition is_digit :: "char \<Rightarrow> bool" where
  "is_digit c \<longleftrightarrow> 48 \<le> byte c \<and> byte c \<le> 57"

definition is_lower :: "char \<Rightarrow> bool" where
  "is_lower c \<longleftrightarrow> 97 \<le> byte c \<and> byte c \<le> 122"

definition is_upper :: "char \<Rightarrow> bool" where
  "is_upper c \<longleftrightarrow> 65 \<le> byte c \<and> byte c \<le> 90"

definition is_alnum :: "char \<Rightarrow> bool" where
  "is_alnum c \<longleftrightarrow> is_lower c \<or> is_upper c \<or> is_digit c"

definition NL :: char where "NL = CHR 0x0A"
definition CR :: char where "CR = CHR 0x0D"
definition TAB :: char where "TAB = CHR 0x09"
definition DQ :: char where "DQ = CHR 0x22"
definition SQ :: char where "SQ = CHR 0x27"

definition lower_char :: "char \<Rightarrow> char" where
  "lower_char c = (if is_upper c then char_of (byte c + 32) else c)"

definition upper_char :: "char \<Rightarrow> char" where
  "upper_char c = (if is_lower c then char_of (byte c - 32) else c)"

lemma is_upper_upper_char [simp]: "\<not> is_lower (upper_char c)"
  by (auto simp: upper_char_def is_lower_def)

lemma not_upper_lower_char [simp]: "\<not> is_upper (lower_char c)"
  by (auto simp: lower_char_def is_upper_def)

section \<open>The strings package\<close>

definition to_lower :: "string \<Rightarrow> string" where "to_lower = map lower_char"
definition to_upper :: "string \<Rightarrow> string" where "to_upper = map upper_char"

definition equal_fold :: "string \<Rightarrow> string \<Rightarrow> bool" where
  "equal_fold a b \<longleftrightarrow> to_lower a = to_lower b"

definition has_prefix :: "string \<Rightarrow> string \<Rightarrow> bool" where
  "has_prefix s p \<longleftrightarrow> take (length p) s = p"

definition has_suffix :: "string \<Rightarrow> string \<Rightarrow> bool" where
  "has_suffix s p \<longleftrightarrow> has_prefix (rev s) (rev p)"

definition trim_prefix :: "string \<Rightarrow> string \<Rightarrow> string" where
  "trim_prefix s p = (if has_prefix s p then drop (length p) s else s)"

definition trim_suffix :: "string \<Rightarrow> string \<Rightarrow> string" where
  "trim_suffix s p = (if has_suffix s p then take (length s - length p) s else s)"

definition trim_left :: "(char \<Rightarrow> bool) \<Rightarrow> string \<Rightarrow> string" where
  "trim_left P s = dropWhile P s"

definition trim_right :: "(char \<Rightarrow> bool) \<Rightarrow> string \<Rightarrow> string" where
  "trim_right P s = rev (dropWhile P (rev s))"

definition trim_both :: "(char \<Rightarrow> bool) \<Rightarrow> string \<Rightarrow> string" where
  "trim_both P s = trim_right P (trim_left P s)"

definition trim_space :: "string \<Rightarrow> string" where
  "trim_space = trim_both is_space"

fun index_of :: "string \<Rightarrow> string \<Rightarrow> nat option" where
  "index_of [] sub = (if sub = [] then Some 0 else None)"
| "index_of (c # s) sub =
     (if has_prefix (c # s) sub then Some 0 else map_option Suc (index_of s sub))"

definition contains :: "string \<Rightarrow> string \<Rightarrow> bool" where
  "contains s sub \<longleftrightarrow> index_of s sub \<noteq> None"

fun index_byte :: "string \<Rightarrow> char \<Rightarrow> nat option" where
  "index_byte [] c = None"
| "index_byte (x # s) c = (if x = c then Some 0 else map_option Suc (index_byte s c))"

definition last_index_byte :: "string \<Rightarrow> char \<Rightarrow> nat option" where
  "last_index_byte s c = map_option (\<lambda>i. length s - 1 - i) (index_byte (rev s) c)"

text \<open>\<open>strings.Cut\<close> at one character: before, after, found.\<close>

definition cut :: "string \<Rightarrow> char \<Rightarrow> string \<times> string \<times> bool" where
  "cut s c = (case index_byte s c of
      None \<Rightarrow> (s, [], False)
    | Some i \<Rightarrow> (take i s, drop (Suc i) s, True))"

fun split_by :: "(char \<Rightarrow> bool) \<Rightarrow> string \<Rightarrow> string list" where
  "split_by P [] = [[]]"
| "split_by P (x # xs) =
     (if P x then [] # split_by P xs
      else (case split_by P xs of [] \<Rightarrow> [[x]] | w # ws \<Rightarrow> (x # w) # ws))"

definition split_char :: "char \<Rightarrow> string \<Rightarrow> string list" where
  "split_char c = split_by (\<lambda>x. x = c)"

definition str_fields :: "string \<Rightarrow> string list" where
  "str_fields s = filter (\<lambda>w. w \<noteq> []) (split_by is_space s)"

fun join :: "string \<Rightarrow> string list \<Rightarrow> string" where
  "join sep [] = []"
| "join sep [w] = w"
| "join sep (w # ws) = w @ sep @ join sep ws"

lemma split_by_nonempty [simp]: "split_by P s \<noteq> []"
  by (induction s) (auto split: list.splits)

lemma concat_split_by: "concat (split_by P s) = filter (\<lambda>x. \<not> P x) s"
  by (induction s) (auto split: list.splits)

lemma split_by_pieces: "w \<in> set (split_by P s) \<Longrightarrow> c \<in> set w \<Longrightarrow> \<not> P c \<and> c \<in> set s"
proof -
  assume "w \<in> set (split_by P s)" and "c \<in> set w"
  then have "c \<in> set (concat (split_by P s))" by auto
  then show ?thesis by (simp add: concat_split_by)
qed

lemma join_Cons: "ws \<noteq> [] \<Longrightarrow> join sep (w # ws) = w @ sep @ join sep ws"
  by (cases ws) auto

lemma join_split_char: "join [c] (split_char c s) = s"
proof (induction s)
  case Nil
  then show ?case by (simp add: split_char_def)
next
  case (Cons x s)
  have ne: "split_char c s \<noteq> []" by (simp add: split_char_def)
  show ?case
  proof (cases "x = c")
    case True
    with Cons.IH ne show ?thesis by (simp add: split_char_def join_Cons)
  next
    case False
    obtain w ws where w: "split_char c s = w # ws" using ne by (cases "split_char c s") auto
    then have "join [c] ((x # w) # ws) = x # join [c] (w # ws)" by (cases ws) auto
    with w False Cons.IH show ?thesis by (simp add: split_char_def)
  qed
qed

lemma split_by_all: "\<forall>x\<in>set w. \<not> P x \<Longrightarrow> split_by P w = [w]"
  by (induction w) auto

lemma split_by_append: "P c \<Longrightarrow> \<forall>x\<in>set w. \<not> P x \<Longrightarrow> split_by P (w @ c # s) = w # split_by P s"
  by (induction w) auto

text \<open>Splitting undoes joining when no piece holds the separator.\<close>

lemma split_join:
  "ws \<noteq> [] \<Longrightarrow> \<forall>w\<in>set ws. c \<notin> set w \<Longrightarrow> split_char c (join [c] ws) = ws"
proof (induction ws)
  case Nil
  then show ?case by simp
next
  case (Cons w ws)
  have wc: "\<forall>x\<in>set w. x \<noteq> c" using Cons.prems by auto
  show ?case
  proof (cases "ws = []")
    case True
    with wc show ?thesis by (simp add: split_char_def split_by_all)
  next
    case False
    with wc Cons.prems Cons.IH show ?thesis
      by (simp add: join_Cons split_char_def split_by_append)
  qed
qed

lemma str_fields_nonempty: "w \<in> set (str_fields s) \<Longrightarrow> w \<noteq> []"
  by (simp add: str_fields_def)

lemma str_fields_no_space: "w \<in> set (str_fields s) \<Longrightarrow> c \<in> set w \<Longrightarrow> \<not> is_space c"
  using split_by_pieces by (auto simp: str_fields_def)

lemma has_prefix_append [simp]: "has_prefix (p @ s) p"
  by (simp add: has_prefix_def)

lemma has_prefix_iff: "has_prefix s p \<longleftrightarrow> (\<exists>r. s = p @ r)"
  by (metis append_take_drop_id has_prefix_append has_prefix_def)

lemma has_suffix_iff: "has_suffix s p \<longleftrightarrow> (\<exists>r. s = r @ p)"
  by (metis has_prefix_iff has_suffix_def rev_append rev_rev_ident)

lemma contains_Cons: "contains (c # s) sub \<longleftrightarrow> has_prefix (c # s) sub \<or> contains s sub"
  by (simp add: contains_def)

lemma contains_iff: "contains s sub \<longleftrightarrow> (\<exists>a b. s = a @ sub @ b)"
proof (induction s)
  case Nil
  then show ?case by (auto simp: contains_def)
next
  case (Cons c s)
  have "(\<exists>a b. c # s = a @ sub @ b) \<longleftrightarrow> has_prefix (c # s) sub \<or> (\<exists>a b. s = a @ sub @ b)"
    by (auto simp: has_prefix_iff Cons_eq_append_conv)
  then show ?case using Cons.IH by (simp add: contains_Cons)
qed

lemma index_of_Some:
  "index_of s sub = Some i \<Longrightarrow> \<exists>a b. s = a @ sub @ b \<and> length a = i"
proof (induction s arbitrary: i)
  case Nil
  then show ?case by (simp split: if_splits)
next
  case (Cons c s)
  show ?case
  proof (cases "has_prefix (c # s) sub")
    case True
    with Cons.prems show ?thesis by (auto simp: has_prefix_iff)
  next
    case False
    with Cons.prems obtain j where "index_of s sub = Some j" and "i = Suc j" by auto
    with Cons.IH obtain a b where "s = a @ sub @ b" "length a = j" by blast
    with \<open>i = Suc j\<close> have "c # s = (c # a) @ sub @ b \<and> length (c # a) = i" by simp
    then show ?thesis by blast
  qed
qed

lemma index_byte_Some:
  "index_byte s c = Some i \<Longrightarrow>
     s = take i s @ c # drop (Suc i) s \<and> i < length s \<and> c \<notin> set (take i s)"
  by (induction s arbitrary: i) (auto split: if_splits)

lemma index_byte_None: "index_byte s c = None \<longleftrightarrow> c \<notin> set s"
  by (induction s) auto

lemma index_byte_append: "c \<notin> set a \<Longrightarrow> index_byte (a @ c # b) c = Some (length a)"
  by (induction a) auto

lemma cut_append: "c \<notin> set a \<Longrightarrow> cut (a @ c # b) c = (a, b, True)"
  by (simp add: cut_def index_byte_append)

lemma dropWhile_noop: "\<forall>c\<in>set s. \<not> P c \<Longrightarrow> dropWhile P s = s"
  by (induction s) auto

lemma trim_both_noop: "\<forall>c\<in>set s. \<not> P c \<Longrightarrow> trim_both P s = s"
  by (simp add: trim_both_def trim_left_def trim_right_def dropWhile_noop)

lemma trim_space_noop: "\<forall>c\<in>set s. \<not> is_space c \<Longrightarrow> trim_space s = s"
  by (simp add: trim_space_def trim_both_noop)

lemma trim_both_ends:
  "trim_both P s \<noteq> [] \<Longrightarrow> \<not> P (hd (trim_both P s)) \<and> \<not> P (last (trim_both P s))"
proof -
  assume ne: "trim_both P s \<noteq> []"
  let ?l = "dropWhile P s"
  have nl: "dropWhile P (rev ?l) \<noteq> []"
    using ne by (simp add: trim_both_def trim_right_def trim_left_def)
  have last: "\<not> P (last (trim_both P s))"
    using hd_dropWhile [OF nl] by (simp add: trim_both_def trim_right_def trim_left_def last_rev)
  have "?l \<noteq> []" using nl by (metis dropWhile.simps(1) rev.simps(1))
  obtain k where k: "dropWhile P (rev ?l) = drop k (rev ?l)"
    using dropWhile_eq_drop by blast
  have "rev (drop k (rev ?l)) = take (length ?l - k) ?l" by (simp add: rev_drop)
  then have "hd (trim_both P s) = hd ?l"
    using ne k nl
    by (simp add: trim_both_def trim_right_def trim_left_def)
  then show ?thesis using hd_dropWhile [OF \<open>?l \<noteq> []\<close>] last by simp
qed

lemma trim_space_ends:
  "trim_space s \<noteq> [] \<Longrightarrow> \<not> is_space (hd (trim_space s)) \<and> \<not> is_space (last (trim_space s))"
  using trim_both_ends [of is_space s] by (simp add: trim_space_def)

section \<open>Line scanning\<close>

text \<open>
  \<open>bufio.Scanner\<close> with \<open>ScanLines\<close>: lines without their newline and one trailing carriage
  return, no token for an empty last line. Scanning stops with an error at the first line whose
  bytes fill the buffer (\<open>limit\<close>) before a newline is seen.
\<close>

definition drop_cr :: "string \<Rightarrow> string" where
  "drop_cr s = (if s \<noteq> [] \<and> last s = CR then butlast s else s)"

definition raw_lines :: "string \<Rightarrow> string list" where
  "raw_lines s = (let ls = split_char NL s in if last ls = [] then butlast ls else ls)"

definition scan_lines :: "nat \<Rightarrow> string \<Rightarrow> string list \<times> bool" where
  "scan_lines limit s =
     (let ls = raw_lines s; good = takeWhile (\<lambda>l. length l < limit) ls
      in (map drop_cr good, length good < length ls))"

section \<open>Numbers\<close>

definition digit_char :: "nat \<Rightarrow> char" where
  "digit_char d = char_of (48 + d)"

fun nat_dec :: "nat \<Rightarrow> string" where
  "nat_dec n = (if n < 10 then [digit_char n] else nat_dec (n div 10) @ [digit_char (n mod 10)])"

declare nat_dec.simps [simp del]

definition itoa :: "int \<Rightarrow> string" where
  "itoa n = (if n < 0 then CHR ''-'' # nat_dec (nat (- n)) else nat_dec (nat n))"

datatype num_error = ErrSyntax | ErrRange

text \<open>The loop of \<open>strconv.ParseUint\<close> at base 10 and 64 bits.\<close>

fun parse_uint :: "nat \<Rightarrow> string \<Rightarrow> num_error + nat" where
  "parse_uint acc [] = Inr acc"
| "parse_uint acc (c # cs) =
     (if \<not> is_digit c then Inl ErrSyntax
      else let acc' = acc * 10 + (byte c - 48)
           in if 2 ^ 64 \<le> acc' then Inl ErrRange else parse_uint acc' cs)"

definition parse_int :: "string \<Rightarrow> int \<times> num_error option" where
  "parse_int s =
     (if s = [] then (0, Some ErrSyntax)
      else
        let neg = (hd s = CHR ''-'');
            ds = (if hd s = CHR ''+'' \<or> neg then tl s else s)
        in if ds = [] then (0, Some ErrSyntax)
           else (case parse_uint 0 ds of
               Inl ErrSyntax \<Rightarrow> (0, Some ErrSyntax)
             | Inl ErrRange \<Rightarrow>
                 if neg then (- (2 ^ 63), Some ErrRange) else (2 ^ 63 - 1, Some ErrRange)
             | Inr n \<Rightarrow>
                 if \<not> neg \<and> 2 ^ 63 \<le> n then (2 ^ 63 - 1, Some ErrRange)
                 else if neg \<and> 2 ^ 63 < n then (- (2 ^ 63), Some ErrRange)
                 else if neg then (- int n, None) else (int n, None)))"

text \<open>\<open>strconv.Atoi\<close> on a 64-bit machine.\<close>

definition atoi :: "string \<Rightarrow> int \<times> num_error option" where
  "atoi = parse_int"

definition atoi_opt :: "string \<Rightarrow> int option" where
  "atoi_opt s = (case atoi s of (n, None) \<Rightarrow> Some n | _ \<Rightarrow> None)"

lemma byte_digit_char: "d < 10 \<Longrightarrow> byte (digit_char d) = 48 + d"
  by (simp add: digit_char_def)

lemma is_digit_digit_char [simp]: "d < 10 \<Longrightarrow> is_digit (digit_char d)"
  by (simp add: is_digit_def byte_digit_char)

lemma nat_dec_digits: "c \<in> set (nat_dec n) \<Longrightarrow> is_digit c"
proof (induction n arbitrary: c rule: nat_dec.induct)
  case (1 n)
  then show ?case
    by (cases "n < 10") (auto simp: nat_dec.simps [of n])
qed

lemma nat_dec_nonempty [simp]: "nat_dec n \<noteq> []"
  by (simp add: nat_dec.simps [of n])

lemma itoa_nonempty [simp]: "itoa n \<noteq> []"
  by (simp add: itoa_def)

lemma parse_uint_digit_snoc:
  "parse_uint acc ds = Inr m \<Longrightarrow> d < 10 \<Longrightarrow> m * 10 + d < 2 ^ 64 \<Longrightarrow>
     parse_uint acc (ds @ [digit_char d]) = Inr (m * 10 + d)"
proof (induction acc ds rule: parse_uint.induct)
  case (1 acc)
  then show ?case by (simp add: byte_digit_char)
next
  case (2 acc c cs)
  then show ?case by (simp add: Let_def split: if_splits)
qed

lemma parse_uint_nat_dec: "n < 2 ^ 64 \<Longrightarrow> parse_uint 0 (nat_dec n) = Inr n"
proof (induction n rule: nat_dec.induct)
  case (1 n)
  show ?case
  proof (cases "n < 10")
    case True
    then show ?thesis by (simp add: nat_dec.simps [of n] byte_digit_char)
  next
    case False
    have "n div 10 < 2 ^ 64" using "1.prems" by simp
    with False "1.IH" have hi: "parse_uint 0 (nat_dec (n div 10)) = Inr (n div 10)" by blast
    have d: "n mod 10 < 10" and m: "n div 10 * 10 + n mod 10 < 2 ^ 64" using "1.prems" by simp_all
    from parse_uint_digit_snoc [OF hi d m] False show ?thesis by (simp add: nat_dec.simps [of n])
  qed
qed

definition int64 :: "int \<Rightarrow> bool" where
  "int64 n \<longleftrightarrow> - (2 ^ 63) \<le> n \<and> n < 2 ^ 63"

lemma hd_nat_dec: "is_digit (hd (nat_dec n))"
  by (meson hd_in_set nat_dec_digits nat_dec_nonempty)

lemma not_digit_sign [simp]: "\<not> is_digit (CHR ''-'')" "\<not> is_digit (CHR ''+'')"
  by (simp_all add: is_digit_def)

lemma atoi_itoa: "int64 n \<Longrightarrow> atoi (itoa n) = (n, None)"
proof -
  assume n: "int64 n"
  have h: "hd (nat_dec m) \<noteq> CHR ''-'' \<and> hd (nat_dec m) \<noteq> CHR ''+''" for m
    using hd_nat_dec [of m] by auto
  show ?thesis
  proof (cases "n < 0")
    case True
    have "nat (- n) < 2 ^ 64" using n True by (simp add: int64_def nat_less_iff)
    then have "parse_uint 0 (nat_dec (nat (- n))) = Inr (nat (- n))" by (rule parse_uint_nat_dec)
    with True n show ?thesis by (auto simp: atoi_def itoa_def parse_int_def int64_def)
  next
    case False
    have "nat n < 2 ^ 64" using n False by (simp add: int64_def nat_less_iff)
    then have "parse_uint 0 (nat_dec (nat n)) = Inr (nat n)" by (rule parse_uint_nat_dec)
    with False n h [of "nat n"] show ?thesis
      by (auto simp: atoi_def itoa_def parse_int_def int64_def Let_def)
  qed
qed

interpretation decimal: checked_codec itoa atoi_opt int64
  by unfold_locales (simp add: atoi_opt_def atoi_itoa)

lemma parse_uint_range: "parse_uint acc s = Inr n \<Longrightarrow> acc < 2 ^ 64 \<Longrightarrow> n < 2 ^ 64"
  by (induction acc s rule: parse_uint.induct) (auto simp: Let_def split: if_splits)

text \<open>Whatever the input, the number \<open>ParseInt\<close> returns is a 64-bit one.\<close>

lemma parse_int_int64: "int64 (fst (parse_int s))"
  using parse_uint_range
  by (auto simp: parse_int_def int64_def Let_def split: sum.splits num_error.splits)

lemma itoa_no_space: "c \<in> set (itoa n) \<Longrightarrow> \<not> is_space c"
proof -
  assume "c \<in> set (itoa n)"
  then have "c = CHR ''-'' \<or> is_digit c"
    using nat_dec_digits by (auto simp: itoa_def split: if_splits)
  then show ?thesis by (auto simp: is_digit_def is_space_def)
qed

lemma index_of_skip:
  "c \<notin> set pre \<Longrightarrow> index_of (pre @ s) (c # needle) = map_option ((+) (length pre)) (index_of s (c # needle))"
proof (induction pre)
  case (Cons x pre)
  then show ?case by (auto simp: has_prefix_def option.map_comp comp_def)
qed (cases "index_of s (c # needle)", simp_all)

lemma index_of_absent: "c \<notin> set s \<Longrightarrow> index_of s (c # needle) = None"
  by (induction s) (auto simp: has_prefix_def)

lemma itoa_inj: "int64 m \<Longrightarrow> int64 n \<Longrightarrow> itoa m = itoa n \<longleftrightarrow> m = n"
  using decimal.enc_inj_on by blast

section \<open>Bytes from numbers\<close>

definition byte_of :: "nat \<Rightarrow> char" where
  "byte_of n = char_of n"

lemma byte_byte_of [simp]: "byte (byte_of n) = n mod 256"
  by (simp add: byte_of_def)

lemma byte_of_byte [simp]: "byte_of (byte c) = c"
  by (simp add: byte_of_def)

lemma byte_eq: "byte c = n \<Longrightarrow> c = byte_of n"
  using byte_of_byte by metis

section \<open>The text of an error\<close>

text \<open>The text of an error, as \<open>err.Error()\<close> gives it.\<close>

fun error_text :: "error \<Rightarrow> string" where
  "error_text (Err m) = m"
| "error_text (Wrap m e) = m @ '': '' @ error_text e"
| "error_text (Join es) = join [NL] (map error_text es)"
| "error_text (Problem k code cause) = code"

end
