(* ===== verification/GoEncoding.thy ===== *)
theory GoEncoding
  imports GoText
begin

text \<open>
  The encoders of Go's \<open>encoding/base64\<close>, \<open>encoding/hex\<close> and \<open>net/url\<close> packages that the panel
  uses, on byte strings, each with its decoder, and the proofs that they are inverse: base64
  with padding (\<open>StdEncoding\<close>) and without (\<open>RawStdEncoding\<close>, \<open>RawURLEncoding\<close>), percent
  escaping of a path segment and of a query component, and \<open>url.Values.Encode\<close>.
\<close>

section \<open>Base64\<close>

definition std_alphabet :: string where
  "std_alphabet = ''ABCDEFGHIJKLMNOPQRSTUVWXYZabcdefghijklmnopqrstuvwxyz0123456789+/''"

definition url_alphabet :: string where
  "url_alphabet = ''ABCDEFGHIJKLMNOPQRSTUVWXYZabcdefghijklmnopqrstuvwxyz0123456789-_''"

text \<open>Bytes to 6-bit values: three bytes give four values, the rest two or three.\<close>

fun sextets :: "nat list \<Rightarrow> nat list" where
  "sextets [] = []"
| "sextets [a] = [a div 4, (a mod 4) * 16]"
| "sextets [a, b] = [a div 4, (a mod 4) * 16 + b div 16, (b mod 16) * 4]"
| "sextets (a # b # c # r) =
     a div 4 # ((a mod 4) * 16 + b div 16) # ((b mod 16) * 4 + c div 64) # (c mod 64) # sextets r"

text \<open>The decoder ignores the unused low bits of the last value, as Go's non-strict one does.\<close>

fun octets :: "nat list \<Rightarrow> nat list option" where
  "octets [] = Some []"
| "octets [w] = None"
| "octets [w, x] = Some [w * 4 + x div 16]"
| "octets [w, x, y] = Some [w * 4 + x div 16, (x mod 16) * 16 + y div 4]"
| "octets (w # x # y # z # r) =
     map_option (\<lambda>bs. (w * 4 + x div 16) # ((x mod 16) * 16 + y div 4) # ((y mod 4) * 64 + z) # bs)
       (octets r)"

definition b64_pad :: "nat \<Rightarrow> string" where
  "b64_pad n = replicate ((4 - n mod 4) mod 4) (CHR ''='')"

definition b64_encode_raw :: "string \<Rightarrow> string \<Rightarrow> string" where
  "b64_encode_raw alphabet s = map (\<lambda>i. alphabet ! i) (sextets (map byte s))"

definition b64_encode :: "string \<Rightarrow> string \<Rightarrow> string" where
  "b64_encode alphabet s =
     (let e = b64_encode_raw alphabet s in e @ b64_pad (length e))"

definition strip_newlines :: "string \<Rightarrow> string" where
  "strip_newlines = filter (\<lambda>c. c \<noteq> NL \<and> c \<noteq> CR)"

fun all_some :: "'a option list \<Rightarrow> 'a list option" where
  "all_some [] = Some []"
| "all_some (None # xs) = None"
| "all_some (Some x # xs) = map_option (Cons x) (all_some xs)"

definition b64_values :: "string \<Rightarrow> string \<Rightarrow> string option" where
  "b64_values alphabet s =
     Option.bind (all_some (map (index_byte alphabet) s))
       (\<lambda>vs. map_option (map char_of) (octets vs))"

definition b64_decode_raw :: "string \<Rightarrow> string \<Rightarrow> string option" where
  "b64_decode_raw alphabet s = b64_values alphabet (strip_newlines s)"

text \<open>
  With padding the length is a multiple of four and at most two \<open>=\<close> stand at the end; an
  unpadded remainder is an error.
\<close>

definition b64_decode :: "string \<Rightarrow> string \<Rightarrow> string option" where
  "b64_decode alphabet s =
     (let t = strip_newlines s; body = trim_right (\<lambda>c. c = CHR ''='') t
      in if length t mod 4 = 0 \<and> length t - length body \<le> 2
         then b64_values alphabet body else None)"

definition std_encode :: "string \<Rightarrow> string" where "std_encode = b64_encode std_alphabet"
definition std_decode :: "string \<Rightarrow> string option" where "std_decode = b64_decode std_alphabet"
definition raw_std_encode :: "string \<Rightarrow> string" where
  "raw_std_encode = b64_encode_raw std_alphabet"
definition raw_std_decode :: "string \<Rightarrow> string option" where
  "raw_std_decode = b64_decode_raw std_alphabet"
definition raw_url_encode :: "string \<Rightarrow> string" where
  "raw_url_encode = b64_encode_raw url_alphabet"
definition raw_url_decode :: "string \<Rightarrow> string option" where
  "raw_url_decode = b64_decode_raw url_alphabet"

lemma sextets_bound: "\<forall>b\<in>set bs. b < 256 \<Longrightarrow> v \<in> set (sextets bs) \<Longrightarrow> v < 64"
  by (induction bs rule: sextets.induct) auto

lemma octets_sextets: "\<forall>b\<in>set bs. b < 256 \<Longrightarrow> octets (sextets bs) = Some bs"
proof (induction bs rule: sextets.induct)
  case (4 a b c r)
  then have c: "c < 256" "b < 256" and IH: "octets (sextets r) = Some r" by auto
  have "((b mod 16) * 4 + c div 64) div 4 = b mod 16" using c by simp
  moreover have "((a mod 4) * 16 + b div 16) mod 16 * 16 + b mod 16 = b" using c by simp
  moreover have "((b mod 16) * 4 + c div 64) mod 4 * 64 + c mod 64 = c" using c by simp
  ultimately show ?case using IH c by simp
qed auto

lemma length_sextets: "length (sextets bs) mod 4 \<noteq> 1"
  by (induction bs rule: sextets.induct) auto

lemma all_some_map_Some: "all_some (map Some xs) = Some xs"
  by (induction xs) auto

text \<open>What the two alphabets have in common: 64 distinct characters, no newline, no \<open>=\<close>.\<close>

definition good_alphabet :: "string \<Rightarrow> bool" where
  "good_alphabet a \<longleftrightarrow> length a = 64 \<and> CHR ''='' \<notin> set a \<and> NL \<notin> set a \<and> CR \<notin> set a \<and>
     list_all (\<lambda>i. index_byte a (a ! i) = Some i) [0..<64]"

lemma good_std_alphabet: "good_alphabet std_alphabet"
  by (simp add: good_alphabet_def std_alphabet_def NL_def CR_def upt_rec)

lemma good_url_alphabet: "good_alphabet url_alphabet"
  by (simp add: good_alphabet_def url_alphabet_def NL_def CR_def upt_rec)

lemma good_alphabet_index: "good_alphabet a \<Longrightarrow> i < 64 \<Longrightarrow> index_byte a (a ! i) = Some i"
  by (simp add: good_alphabet_def list_all_iff)

lemma b64_encode_raw_chars:
  "good_alphabet a \<Longrightarrow> c \<in> set (b64_encode_raw a s) \<Longrightarrow> c \<in> set a"
proof -
  assume a: "good_alphabet a" and c: "c \<in> set (b64_encode_raw a s)"
  then obtain v where "c = a ! v" "v \<in> set (sextets (map byte s))"
    by (auto simp: b64_encode_raw_def)
  moreover have "v < 64" by (rule sextets_bound [OF _ calculation(2)]) auto
  ultimately show ?thesis using a by (simp add: good_alphabet_def)
qed

lemma b64_values_encode:
  assumes "good_alphabet a"
  shows "b64_values a (b64_encode_raw a s) = Some s"
proof -
  let ?vs = "sextets (map byte s)"
  have b: "\<forall>b\<in>set (map byte s). b < 256" by auto
  have "\<forall>v\<in>set ?vs. index_byte a (a ! v) = Some v"
    using good_alphabet_index [OF assms] sextets_bound [OF b] by blast
  then have "map (index_byte a) (b64_encode_raw a s) = map Some ?vs"
    by (simp add: b64_encode_raw_def)
  then have "all_some (map (index_byte a) (b64_encode_raw a s)) = Some ?vs"
    by (simp add: all_some_map_Some)
  then show ?thesis
    using octets_sextets [OF b] by (simp add: b64_values_def comp_def)
qed

lemma strip_newlines_encode:
  assumes "good_alphabet a"
  shows "strip_newlines (b64_encode_raw a s @ b64_pad n) = b64_encode_raw a s @ b64_pad n"
proof -
  have "c \<noteq> NL \<and> c \<noteq> CR" if "c \<in> set (b64_encode_raw a s @ b64_pad n)" for c
    using that b64_encode_raw_chars [OF assms] assms
    by (auto simp: good_alphabet_def b64_pad_def NL_def CR_def)
  then show ?thesis unfolding strip_newlines_def by (intro filter_True) blast
qed

lemma b64_raw_roundtrip:
  assumes "good_alphabet a" shows "b64_decode_raw a (b64_encode_raw a s) = Some s"
  using strip_newlines_encode [OF assms, of s 0] b64_values_encode [OF assms]
  by (simp add: b64_decode_raw_def b64_pad_def)

lemma dropWhile_replicate: "P x \<Longrightarrow> dropWhile P (replicate n x @ ys) = dropWhile P ys"
  by (induction n) auto

lemma pad_mod4:
  fixes m :: nat
  assumes "m mod 4 \<noteq> 1"
  shows "(4 - m mod 4) mod 4 \<le> 2 \<and> (m + (4 - m mod 4) mod 4) mod 4 = 0"
proof -
  have "m mod 4 = 0 \<or> m mod 4 = 2 \<or> m mod 4 = 3" using assms by linarith
  then show ?thesis
  proof (elim disjE)
    assume "m mod 4 = 2"
    moreover from this have "(m + 2) mod 4 = 0" by presburger
    ultimately show ?thesis by simp
  next
    assume "m mod 4 = 3"
    moreover from this have "(m + 1) mod 4 = 0" by presburger
    ultimately show ?thesis by simp
  qed simp
qed

lemma trim_right_pad:
  assumes "CHR ''='' \<notin> set e"
  shows "trim_right (\<lambda>c. c = CHR ''='') (e @ replicate n (CHR ''='')) = e"
proof -
  have "dropWhile (\<lambda>c. c = CHR ''='') (rev (e @ replicate n (CHR ''='')))
      = dropWhile (\<lambda>c. c = CHR ''='') (rev e)"
    by (simp add: dropWhile_replicate)
  also have "\<dots> = rev e" using assms by (intro dropWhile_noop) auto
  finally show ?thesis by (simp add: trim_right_def)
qed

lemma b64_roundtrip:
  assumes "good_alphabet a" shows "b64_decode a (b64_encode a s) = Some s"
proof -
  let ?e = "b64_encode_raw a s"
  let ?k = "(4 - length ?e mod 4) mod 4"
  have noeq: "CHR ''='' \<notin> set ?e"
    using b64_encode_raw_chars [OF assms] assms by (auto simp: good_alphabet_def)
  have len: "length ?e mod 4 \<noteq> 1"
    using length_sextets by (simp add: b64_encode_raw_def)
  have k: "?k \<le> 2" and l: "(length ?e + ?k) mod 4 = 0" using pad_mod4 [OF len] by simp_all
  show ?thesis
    using strip_newlines_encode [OF assms, of s "length ?e"] trim_right_pad [OF noeq, of ?k] k l
      b64_values_encode [OF assms, of s]
    by (simp add: b64_decode_def b64_encode_def Let_def b64_pad_def)
qed

interpretation std64: codec std_encode std_decode
  by unfold_locales (simp add: std_encode_def std_decode_def b64_roundtrip good_std_alphabet)

interpretation rawstd64: codec raw_std_encode raw_std_decode
  by unfold_locales
     (simp add: raw_std_encode_def raw_std_decode_def b64_raw_roundtrip good_std_alphabet)

interpretation rawurl64: codec raw_url_encode raw_url_decode
  by unfold_locales
     (simp add: raw_url_encode_def raw_url_decode_def b64_raw_roundtrip good_url_alphabet)

lemma length_octets: "octets vs = Some bs \<Longrightarrow> length bs = length vs * 3 div 4"
  by (induction vs arbitrary: bs rule: octets.induct) auto

section \<open>Percent escaping\<close>

definition hex_digit :: "nat \<Rightarrow> char" where
  "hex_digit n = ''0123456789ABCDEF'' ! n"

definition unhex :: "char \<Rightarrow> nat option" where
  "unhex c =
     (if is_digit c then Some (byte c - 48)
      else if 97 \<le> byte c \<and> byte c \<le> 102 then Some (byte c - 87)
      else if 65 \<le> byte c \<and> byte c \<le> 70 then Some (byte c - 55)
      else None)"

lemma unhex_hex_digit: "n < 16 \<Longrightarrow> unhex (hex_digit n) = Some n"
proof -
  assume "n < 16"
  then have "n \<in> set [0..<16]" by simp
  moreover have "\<forall>n\<in>set [0..<16]. unhex (hex_digit n) = Some n"
    by (simp add: upt_rec unhex_def hex_digit_def is_digit_def)
  ultimately show ?thesis by blast
qed

text \<open>\<open>shouldEscape\<close> of \<open>net/url\<close> in the modes \<open>encodePathSegment\<close> and \<open>encodeQueryComponent\<close>.\<close>

definition unreserved :: "char \<Rightarrow> bool" where
  "unreserved c \<longleftrightarrow> is_alnum c \<or> c \<in> set ''-_.~''"

definition path_safe :: "char \<Rightarrow> bool" where
  "path_safe c \<longleftrightarrow> unreserved c \<or> c \<in> set ''$&+:=@''"

fun escape :: "(char \<Rightarrow> bool) \<Rightarrow> bool \<Rightarrow> string \<Rightarrow> string" where
  "escape safe form [] = []"
| "escape safe form (c # s) =
     (if form \<and> c = CHR '' '' then CHR ''+'' # escape safe form s
      else if safe c then c # escape safe form s
      else CHR ''%'' # hex_digit (byte c div 16) # hex_digit (byte c mod 16) # escape safe form s)"

fun unescape :: "bool \<Rightarrow> string \<Rightarrow> string option" where
  "unescape form [] = Some []"
| "unescape form (c # s) =
     (if c = CHR ''%'' then
        (case s of
           h # l # r \<Rightarrow>
             (case (unhex h, unhex l) of
                (Some a, Some b) \<Rightarrow> map_option (Cons (char_of (a * 16 + b))) (unescape form r)
              | _ \<Rightarrow> None)
         | _ \<Rightarrow> None)
      else if form \<and> c = CHR ''+'' then map_option (Cons (CHR '' '')) (unescape form s)
      else map_option (Cons c) (unescape form s))"

definition path_escape :: "string \<Rightarrow> string" where "path_escape = escape path_safe False"
definition path_unescape :: "string \<Rightarrow> string option" where "path_unescape = unescape False"
definition query_escape :: "string \<Rightarrow> string" where "query_escape = escape unreserved True"
definition query_unescape :: "string \<Rightarrow> string option" where "query_unescape = unescape True"

lemma byte_div16: "byte c div 16 < 16"
  by (simp add: div_less_iff_less_mult)

lemma unescape_escape:
  assumes "\<And>c. safe c \<Longrightarrow> c \<noteq> CHR ''%'' \<and> (form \<longrightarrow> c \<noteq> CHR ''+'')"
  shows "unescape form (escape safe form s) = Some s"
proof (induction s)
  case Nil
  then show ?case by simp
next
  case (Cons c s)
  have "unhex (hex_digit (byte c div 16)) = Some (byte c div 16)"
    by (rule unhex_hex_digit) (rule byte_div16)
  moreover have "unhex (hex_digit (byte c mod 16)) = Some (byte c mod 16)"
    by (rule unhex_hex_digit) simp
  moreover have "char_of (byte c div 16 * 16 + byte c mod 16) = c" by simp
  ultimately show ?case using Cons.IH assms [of c] by auto
qed

lemma unreserved_percent [simp]: "\<not> unreserved (CHR ''%'')" "\<not> unreserved (CHR ''+'')"
  by (simp_all add: unreserved_def is_alnum_def is_lower_def is_upper_def is_digit_def)

interpretation path_seg: codec path_escape path_unescape
  by unfold_locales
     (unfold path_escape_def path_unescape_def, rule unescape_escape, auto simp: path_safe_def)

interpretation query_comp: codec query_escape query_unescape
  by unfold_locales
     (unfold query_escape_def query_unescape_def, rule unescape_escape, auto)

lemma hex_digit_alnum: "n < 16 \<Longrightarrow> is_alnum (hex_digit n)"
proof -
  assume "n < 16"
  then have "n \<in> set [0..<16]" by simp
  moreover have "\<forall>n\<in>set [0..<16]. is_alnum (hex_digit n)"
    by (simp add: upt_rec hex_digit_def is_alnum_def is_digit_def is_upper_def is_lower_def)
  ultimately show ?thesis by blast
qed

text \<open>What an escaped text can hold: safe characters, the two signs, and hex digits.\<close>

lemma escape_chars:
  "c \<in> set (escape safe form s) \<Longrightarrow> safe c \<or> c = CHR ''%'' \<or> (form \<and> c = CHR ''+'') \<or> is_alnum c"
proof (induction s)
  case Nil
  then show ?case by simp
next
  case (Cons x s)
  have "is_alnum (hex_digit (byte x div 16))" "is_alnum (hex_digit (byte x mod 16))"
    by (rule hex_digit_alnum, simp add: byte_div16)+
  with Cons show ?case by (auto split: if_splits)
qed

section \<open>Query strings\<close>

text \<open>
  \<open>url.Values.Encode\<close>: the pairs in the order of their keys. A value map built by \<open>Set\<close> holds
  one value per key, so it is a list of pairs with distinct keys.
\<close>

type_synonym query = "(string \<times> string) list"

definition query_set :: "string \<Rightarrow> string \<Rightarrow> query \<Rightarrow> query" where
  "query_set k v q = (if k \<in> fst ` set q then map (\<lambda>p. if fst p = k then (k, v) else p) q
                      else q @ [(k, v)])"

definition encode_pair :: "string \<times> string \<Rightarrow> string" where
  "encode_pair p = query_escape (fst p) @ ''='' @ query_escape (snd p)"

definition query_encode :: "query \<Rightarrow> string" where
  "query_encode q = join ''&'' (map encode_pair (sort_key fst q))"

definition decode_pair :: "string \<Rightarrow> (string \<times> string) option" where
  "decode_pair w = (case cut w (CHR ''='') of (k, v, _) \<Rightarrow>
     Option.bind (query_unescape k) (\<lambda>k'. map_option (Pair k') (query_unescape v)))"

text \<open>\<open>url.ParseQuery\<close> on a text without semicolons.\<close>

definition query_decode :: "string \<Rightarrow> query option" where
  "query_decode s =
     all_some (map decode_pair (filter (\<lambda>w. w \<noteq> []) (split_char (CHR ''&'') s)))"

lemma query_escape_chars:
  "c \<in> set (query_escape s) \<Longrightarrow> c \<noteq> CHR ''='' \<and> c \<noteq> CHR ''&'' \<and> c \<noteq> CHR ''#'' \<and> c \<noteq> CHR ''?''"
proof -
  assume "c \<in> set (query_escape s)"
  then have "unreserved c \<or> c = CHR ''%'' \<or> c = CHR ''+'' \<or> is_alnum c"
    unfolding query_escape_def using escape_chars by blast
  then show ?thesis
    by (auto simp: unreserved_def is_alnum_def is_lower_def is_upper_def is_digit_def)
qed

lemma decode_encode_pair: "decode_pair (encode_pair p) = Some p"
proof -
  have "CHR ''='' \<notin> set (query_escape (fst p))" using query_escape_chars by blast
  then show ?thesis
    by (simp add: decode_pair_def encode_pair_def cut_append query_comp.dec_enc)
qed

lemma query_roundtrip: "query_decode (query_encode q) = Some (sort_key fst q)"
proof (cases "q = []")
  case True
  then show ?thesis by (simp add: query_decode_def query_encode_def split_char_def)
next
  case False
  let ?ws = "map encode_pair (sort_key fst q)"
  have sq: "set (sort_key fst q) = set q" by simp
  have ne: "?ws \<noteq> []" using False by (metis Nil_is_map_conv set_empty sq)
  have "CHR ''&'' \<notin> set w" if "w \<in> set ?ws" for w
    using that by (auto simp: encode_pair_def dest: query_escape_chars)
  then have split: "split_char (CHR ''&'') (query_encode q) = ?ws"
    using split_join [OF ne] by (simp add: query_encode_def)
  have "filter (\<lambda>w. w \<noteq> []) ?ws = ?ws" by (auto simp: encode_pair_def filter_id_conv)
  moreover have "map decode_pair ?ws = map Some (sort_key fst q)"
    by (simp add: decode_encode_pair)
  ultimately show ?thesis
    by (simp add: query_decode_def split all_some_map_Some del: map_map)
qed

lemma query_encode_chars:
  "c \<in> set (query_encode q) \<Longrightarrow> c \<noteq> CHR ''#'' \<and> c \<noteq> CHR ''?''"
proof -
  have j: "c \<in> set (join ''&'' ws) \<Longrightarrow> c = CHR ''&'' \<or> (\<exists>w\<in>set ws. c \<in> set w)" for ws
    by (induction "''&''" ws rule: join.induct) auto
  assume "c \<in> set (query_encode q)"
  with j [of "map encode_pair (sort_key fst q)"] query_escape_chars show ?thesis
    by (fastforce simp: query_encode_def encode_pair_def)
qed

section \<open>Host and port\<close>

text \<open>\<open>net.JoinHostPort\<close>.\<close>

definition join_host_port :: "string \<Rightarrow> string \<Rightarrow> string" where
  "join_host_port host port =
     (if CHR '':'' \<in> set host then ''['' @ host @ '']:'' @ port else host @ '':'' @ port)"

end
