(* ===== verification/GoNet.thy ===== *)
theory GoNet
  imports GoEncoding
begin

text \<open>
  \<open>net.ParseIP\<close> and the address classes of Go's \<open>net\<close> package. An address is the list of its
  sixteen bytes; an IPv4 address is kept in its IPv4-mapped form, as \<open>ParseIP\<close> returns it.
\<close>

type_synonym ip = "nat list"

definition v4_prefix :: "nat list" where
  "v4_prefix = replicate 10 0 @ [255, 255]"

definition ip_to4 :: "ip \<Rightarrow> (nat list) option" where
  "ip_to4 a = (if length a = 16 \<and> take 12 a = v4_prefix then Some (drop 12 a) else None)"

text \<open>One decimal field: digits, at most 255, no leading zero.\<close>

definition dec_value :: "string \<Rightarrow> nat" where
  "dec_value s = foldl (\<lambda>acc c. acc * 10 + (byte c - 48)) 0 s"

definition parse_octet :: "string \<Rightarrow> nat option" where
  "parse_octet s =
     (if s \<noteq> [] \<and> list_all is_digit s \<and> (hd s = CHR ''0'' \<longrightarrow> length s = 1) \<and> dec_value s \<le> 255
      then Some (dec_value s) else None)"

definition parse_ipv4_fields :: "string \<Rightarrow> (nat list) option" where
  "parse_ipv4_fields s =
     (let parts = split_char (CHR ''.'') s
      in if length parts = 4 then all_some (map parse_octet parts) else None)"

definition parse_ipv4 :: "string \<Rightarrow> ip option" where
  "parse_ipv4 s = map_option (\<lambda>b. v4_prefix @ b) (parse_ipv4_fields s)"

definition hex_value :: "string \<Rightarrow> nat" where
  "hex_value s = foldl (\<lambda>acc c. acc * 16 + (case unhex c of Some d \<Rightarrow> d | None \<Rightarrow> 0)) 0 s"

definition is_hex :: "char \<Rightarrow> bool" where
  "is_hex c \<longleftrightarrow> unhex c \<noteq> None"

text \<open>
  The loop of \<open>netip.parseIPv6\<close>: the bytes read so far, where the \<open>::\<close> stood, the text left.
  Each round reads one group of hex digits, or a trailing IPv4 address, so at most eight rounds
  are taken. The result is the bytes, the place of the \<open>::\<close> and the text that was not read.
\<close>

fun ipv6_groups :: "nat \<Rightarrow> nat list \<Rightarrow> nat option \<Rightarrow> string
    \<Rightarrow> (nat list \<times> nat option \<times> string) option" where
  "ipv6_groups 0 bs ell s = Some (bs, ell, s)"
| "ipv6_groups (Suc n) bs ell s =
     (let ds = takeWhile is_hex s; r = dropWhile is_hex s; v = hex_value ds
      in if ds = [] \<or> 4 < length ds then None
         else if r \<noteq> [] \<and> hd r = CHR ''.'' then
           (if ell = None \<and> length bs \<noteq> 12 \<or> 12 < length bs then None
            else map_option (\<lambda>q. (bs @ q, ell, [])) (parse_ipv4_fields s))
         else
           let bs' = bs @ [v div 256, v mod 256]
           in case r of
                [] \<Rightarrow> Some (bs', ell, [])
              | [c] \<Rightarrow> None
              | c # d # r' \<Rightarrow>
                  if c \<noteq> CHR '':'' then None
                  else if d = CHR '':'' then
                    (if ell \<noteq> None then None
                     else if r' = [] then Some (bs', Some (length bs'), [])
                     else ipv6_groups n bs' (Some (length bs')) r')
                  else ipv6_groups n bs' ell (d # r'))"

definition parse_ipv6 :: "string \<Rightarrow> ip option" where
  "parse_ipv6 s =
     (if has_prefix s ''::'' \<and> length s = 2 then Some (replicate 16 0)
      else
        let ell = (if has_prefix s ''::'' then Some 0 else None);
            t = (if has_prefix s ''::'' then drop 2 s else s)
        in case ipv6_groups 8 [] ell t of
             None \<Rightarrow> None
           | Some (bs, e, rest) \<Rightarrow>
               if rest \<noteq> [] then None
               else if length bs < 16 then
                 (case e of None \<Rightarrow> None
                  | Some k \<Rightarrow> Some (take k bs @ replicate (16 - length bs) 0 @ drop k bs))
               else if e \<noteq> None then None else Some bs)"

text \<open>
  \<open>net.ParseIP\<close>: the first of \<open>.\<close>, \<open>:\<close>, \<open>%\<close> decides the family; an address with a zone is refused.
\<close>

definition parse_ip :: "string \<Rightarrow> ip option" where
  "parse_ip s =
     (case dropWhile (\<lambda>c. c \<notin> set ''.:%'') s of
        [] \<Rightarrow> None
      | c # _ \<Rightarrow>
          if c = CHR ''.'' then parse_ipv4 s
          else if c = CHR '':'' then (if CHR ''%'' \<in> set s then None else parse_ipv6 s)
          else None)"

definition is_ipv4 :: "string \<Rightarrow> bool" where
  "is_ipv4 s \<longleftrightarrow> (case parse_ip s of None \<Rightarrow> False | Some a \<Rightarrow> ip_to4 a \<noteq> None)"

section \<open>Address classes\<close>

definition ip_unspecified :: "ip \<Rightarrow> bool" where
  "ip_unspecified a \<longleftrightarrow> a = v4_prefix @ [0, 0, 0, 0] \<or> a = replicate 16 0"

definition ip_loopback :: "ip \<Rightarrow> bool" where
  "ip_loopback a \<longleftrightarrow> (case ip_to4 a of Some b \<Rightarrow> b ! 0 = 127 | None \<Rightarrow> a = replicate 15 0 @ [1])"

definition ip_private :: "ip \<Rightarrow> bool" where
  "ip_private a \<longleftrightarrow> (case ip_to4 a of
      Some b \<Rightarrow> b ! 0 = 10 \<or> (b ! 0 = 172 \<and> b ! 1 div 16 = 1) \<or> (b ! 0 = 192 \<and> b ! 1 = 168)
    | None \<Rightarrow> length a = 16 \<and> a ! 0 div 2 = 126)"

definition ip_link_local_unicast :: "ip \<Rightarrow> bool" where
  "ip_link_local_unicast a \<longleftrightarrow> (case ip_to4 a of
      Some b \<Rightarrow> b ! 0 = 169 \<and> b ! 1 = 254
    | None \<Rightarrow> length a = 16 \<and> a ! 0 = 254 \<and> a ! 1 div 64 = 2)"

definition ip_link_local_multicast :: "ip \<Rightarrow> bool" where
  "ip_link_local_multicast a \<longleftrightarrow> (case ip_to4 a of
      Some b \<Rightarrow> b ! 0 = 224 \<and> b ! 1 = 0 \<and> b ! 2 = 0
    | None \<Rightarrow> length a = 16 \<and> a ! 0 = 255 \<and> a ! 1 mod 16 = 2)"

definition ip_multicast :: "ip \<Rightarrow> bool" where
  "ip_multicast a \<longleftrightarrow> (case ip_to4 a of
      Some b \<Rightarrow> b ! 0 div 16 = 14
    | None \<Rightarrow> length a = 16 \<and> a ! 0 = 255)"

section \<open>Facts\<close>

lemma all_some_iff: "all_some xs = Some ys \<longleftrightarrow> xs = map Some ys"
  by (induction xs arbitrary: ys rule: all_some.induct) auto

lemma all_some_length: "all_some xs = Some ys \<Longrightarrow> length ys = length xs"
  by (simp add: all_some_iff)

lemma all_some_map_set: "all_some (map f xs) = Some ys \<Longrightarrow> x \<in> set xs \<Longrightarrow> f x \<noteq> None"
  by (induction xs arbitrary: ys) (auto simp: all_some_iff)

lemma all_some_map_value:
  "all_some (map f xs) = Some ys \<Longrightarrow> y \<in> set ys \<Longrightarrow> \<exists>x\<in>set xs. f x = Some y"
  unfolding all_some_iff by (metis imageE imageI list.set_map)

lemma parse_octet_bound: "parse_octet s = Some v \<Longrightarrow> v \<le> 255"
  by (auto simp: parse_octet_def split: if_splits)

lemma parse_ipv4_fields_length: "parse_ipv4_fields s = Some b \<Longrightarrow> length b = 4"
  by (auto simp: parse_ipv4_fields_def Let_def split: if_splits dest: all_some_length)

lemma parse_ipv4_fields_bound: "parse_ipv4_fields s = Some b \<Longrightarrow> v \<in> set b \<Longrightarrow> v \<le> 255"
  by (auto simp: parse_ipv4_fields_def Let_def split: if_splits
      dest!: all_some_map_value intro: parse_octet_bound)

lemma parse_ipv4_bytes:
  "parse_ipv4 s = Some a \<Longrightarrow> length a = 16 \<and> (\<forall>v\<in>set a. v \<le> 255) \<and> take 12 a = v4_prefix"
  using parse_ipv4_fields_length parse_ipv4_fields_bound
  by (auto simp: parse_ipv4_def v4_prefix_def)

lemma foldl_dec_snoc: "dec_value (s @ [digit_char d]) = dec_value s * 10 + d" if "d < 10"
  using that by (simp add: dec_value_def byte_digit_char)

lemma dec_value_nat_dec: "dec_value (nat_dec n) = n"
proof (induction n rule: nat_dec.induct)
  case (1 n)
  show ?case
  proof (cases "n < 10")
    case True
    then show ?thesis by (simp add: nat_dec.simps [of n] dec_value_def byte_digit_char)
  next
    case False
    then have "dec_value (nat_dec n) = dec_value (nat_dec (n div 10)) * 10 + n mod 10"
      by (simp add: nat_dec.simps [of n] foldl_dec_snoc)
    with False "1.IH" show ?thesis by simp
  qed
qed

lemma nat_dec_leading: "hd (nat_dec n) = CHR ''0'' \<Longrightarrow> n = 0"
proof (induction n rule: nat_dec.induct)
  case (1 n)
  show ?case
  proof (cases "n < 10")
    case True
    with "1.prems" have "byte (digit_char n) = byte (CHR ''0'')"
      by (simp add: nat_dec.simps [of n])
    with True show ?thesis by (simp add: byte_digit_char)
  next
    case False
    then have "hd (nat_dec n) = hd (nat_dec (n div 10))"
      by (simp add: nat_dec.simps [of n])
    with False "1.prems" "1.IH" have "n div 10 = 0" by simp
    with False show ?thesis by simp
  qed
qed

lemma parse_octet_nat_dec: "n \<le> 255 \<Longrightarrow> parse_octet (nat_dec n) = Some n"
proof -
  assume n: "n \<le> 255"
  have "list_all is_digit (nat_dec n)" using nat_dec_digits by (auto simp: list_all_iff)
  moreover have "hd (nat_dec n) = CHR ''0'' \<Longrightarrow> length (nat_dec n) = 1"
    using nat_dec_leading by (fastforce simp: nat_dec.simps [of 0])
  ultimately show ?thesis using n by (simp add: parse_octet_def dec_value_nat_dec)
qed

text \<open>A dotted quad in the usual form is read back.\<close>

definition dotted :: "nat list \<Rightarrow> string" where
  "dotted bs = join ''.'' (map nat_dec bs)"

lemma nat_dec_no_sep: "c \<in> set ''.:%'' \<Longrightarrow> c \<notin> set (nat_dec n)"
  using nat_dec_digits [of c n] by (auto simp: is_digit_def)

lemma parse_ipv4_fields_dotted:
  assumes "length bs = 4" and "\<forall>b\<in>set bs. b \<le> 255"
  shows "parse_ipv4_fields (dotted bs) = Some bs"
proof -
  have ne: "map nat_dec bs \<noteq> []" using assms by auto
  have "split_char (CHR ''.'') (dotted bs) = map nat_dec bs"
    unfolding dotted_def using split_join [OF ne] nat_dec_no_sep [of "CHR ''.''"] by auto
  moreover have "map parse_octet (map nat_dec bs) = map Some bs"
    using assms by (simp add: parse_octet_nat_dec)
  ultimately show ?thesis
    using assms by (simp add: parse_ipv4_fields_def all_some_map_Some del: map_map)
qed

lemma parse_ip_dotted:
  assumes "length bs = 4" and "\<forall>b\<in>set bs. b \<le> 255"
  shows "parse_ip (dotted bs) = Some (v4_prefix @ bs)"
proof -
  obtain b bs' where b: "bs = b # bs'" and ne: "map nat_dec bs' \<noteq> []"
    using assms by (cases bs; cases "tl bs") auto
  have d: "dotted bs = nat_dec b @ CHR ''.'' # join ''.'' (map nat_dec bs')"
    using join_Cons [OF ne] by (simp add: dotted_def b)
  have "\<forall>c\<in>set (nat_dec b). c \<notin> set ''.:%''" using nat_dec_no_sep by blast
  then have "dropWhile (\<lambda>c. c \<notin> set ''.:%'') (dotted bs)
      = CHR ''.'' # join ''.'' (map nat_dec bs')"
    unfolding d by (subst dropWhile_append2) auto
  then show ?thesis
    using parse_ipv4_fields_dotted [OF assms] by (simp add: parse_ip_def parse_ipv4_def)
qed

lemma is_ipv4_dotted:
  "length bs = 4 \<Longrightarrow> \<forall>b\<in>set bs. b \<le> 255 \<Longrightarrow> is_ipv4 (dotted bs)"
  by (simp add: is_ipv4_def parse_ip_dotted ip_to4_def v4_prefix_def)

text \<open>Every character of an address text that parses as IPv4 is a digit or a dot or part of IPv6.\<close>

lemma parse_ipv4_chars: "parse_ipv4_fields s = Some b \<Longrightarrow> c \<in> set s \<Longrightarrow> is_digit c \<or> c = CHR ''.''"
proof -
  assume p: "parse_ipv4_fields s = Some b" and c: "c \<in> set s"
  have all: "\<forall>w\<in>set (split_char (CHR ''.'') s). list_all is_digit w"
  proof
    fix w assume w: "w \<in> set (split_char (CHR ''.'') s)"
    have "all_some (map parse_octet (split_char (CHR ''.'') s)) = Some b"
      using p by (simp add: parse_ipv4_fields_def Let_def split: if_splits)
    then have "parse_octet w \<noteq> None"
      using w by (rule all_some_map_set)
    then show "list_all is_digit w" by (auto simp: parse_octet_def split: if_splits)
  qed
  show ?thesis
  proof (cases "c = CHR ''.''")
    case False
    with c have "c \<in> set (concat (split_char (CHR ''.'') s))"
      by (simp add: split_char_def concat_split_by)
    with all show ?thesis by (auto simp: list_all_iff)
  qed simp
qed

definition ip_char :: "char \<Rightarrow> bool" where
  "ip_char c \<longleftrightarrow> is_hex c \<or> c = CHR '':'' \<or> c = CHR ''.''"

lemma is_hex_digit: "is_digit c \<Longrightarrow> is_hex c"
  by (simp add: is_hex_def unhex_def)

lemma parse_ipv4_ip_chars: "parse_ipv4_fields s = Some b \<Longrightarrow> c \<in> set s \<Longrightarrow> ip_char c"
  using parse_ipv4_chars is_hex_digit by (auto simp: ip_char_def)

lemma ipv6_groups_chars:
  "ipv6_groups n bs ell s = Some (bs', ell', rest) \<Longrightarrow> c \<in> set s \<Longrightarrow> c \<in> set rest \<or> ip_char c"
proof (induction n bs ell s rule: ipv6_groups.induct)
  case (1 bs ell s)
  then show ?case by simp
next
  case (2 n bs ell s)
  note pr = "2.prems"(1)
  let ?r = "dropWhile is_hex s"
  have split: "c \<in> set (takeWhile is_hex s) \<or> c \<in> set ?r"
    using "2.prems"(2) by (metis Un_iff set_append takeWhile_dropWhile_id)
  show ?case
  proof (cases "c \<in> set (takeWhile is_hex s)")
    case True
    then show ?thesis by (auto simp: ip_char_def dest: set_takeWhileD)
  next
    case False
    then have c: "c \<in> set ?r" using split by blast
    note p = pr [unfolded ipv6_groups.simps Let_def]
    show ?thesis
    proof (cases "?r \<noteq> [] \<and> hd ?r = CHR ''.''")
      case True
      then obtain q where "parse_ipv4_fields s = Some q"
        using p by (auto split: if_splits)
      then show ?thesis using parse_ipv4_ip_chars "2.prems"(2) by blast
    next
      case noip: False
      then obtain d r' where r: "?r = CHR '':'' # d # r'"
        using p c by (auto split: if_splits list.splits)
      show ?thesis
      proof (cases "d = CHR '':''")
        case True
        show ?thesis
        proof (cases "r' = []")
          case True
          then show ?thesis using c r \<open>d = CHR '':''\<close> by (auto simp: ip_char_def)
        next
          case rne: False
          then have "c \<in> set r' \<Longrightarrow> c \<in> set rest \<or> ip_char c"
            using 2(1) [OF refl refl refl _ _ refl r] p noip r True by (auto split: if_splits)
          then show ?thesis using c r True by (auto simp: ip_char_def)
        qed
      next
        case False
        then have "c \<in> set (d # r') \<Longrightarrow> c \<in> set rest \<or> ip_char c"
          using 2(2) [OF refl refl refl _ _ refl r] p noip r by (auto split: if_splits)
        then show ?thesis using c r by (auto simp: ip_char_def)
      qed
    qed
  qed
qed

text \<open>An address text holds hex digits, colons and dots only: no space, newline or shell sign.\<close>

lemma parse_ip_chars: "parse_ip s = Some a \<Longrightarrow> c \<in> set s \<Longrightarrow> ip_char c"
proof -
  assume p: "parse_ip s = Some a" and c: "c \<in> set s"
  consider (v4) "parse_ipv4 s = Some a" | (v6) "parse_ipv6 s = Some a"
    using p by (auto simp: parse_ip_def split: list.splits if_splits)
  then show ?thesis
  proof cases
    case v4
    then show ?thesis using parse_ipv4_ip_chars c by (auto simp: parse_ipv4_def)
  next
    case v6
    let ?t = "if has_prefix s ''::'' then drop 2 s else s"
    have t: "c \<in> set ?t \<or> ip_char c"
      using c by (auto simp: has_prefix_iff ip_char_def)
    show ?thesis
    proof (cases "has_prefix s ''::'' \<and> length s = 2")
      case True
      then show ?thesis using t by (auto split: if_splits)
    next
      case False
      then obtain bs e where
        "ipv6_groups 8 [] (if has_prefix s ''::'' then Some 0 else None) ?t = Some (bs, e, [])"
        using v6 by (auto simp: parse_ipv6_def Let_def split: if_splits option.splits)
      then show ?thesis using ipv6_groups_chars t by fastforce
    qed
  qed
qed

lemma ip_char_plain: "ip_char c \<Longrightarrow> c \<noteq> NL \<and> \<not> is_space c"
  by (auto simp: ip_char_def is_hex_def unhex_def is_digit_def is_space_def NL_def split: if_splits)

lemma is_ipv4_chars: "is_ipv4 s \<Longrightarrow> c \<in> set s \<Longrightarrow> ip_char c"
  using parse_ip_chars by (auto simp: is_ipv4_def split: option.splits)

section \<open>Host and port\<close>

text \<open>\<open>net.SplitHostPort\<close>: the last colon separates the port, brackets protect the colons of a host.\<close>

definition split_host_port :: "string \<Rightarrow> (string \<times> string) option" where
  "split_host_port s = (case last_index_byte s CHR '':'' of
      None \<Rightarrow> None
    | Some i \<Rightarrow>
        if hd s = CHR ''['' then
          (case index_byte s CHR '']'' of
             None \<Rightarrow> None
           | Some e \<Rightarrow>
               if e + 1 \<noteq> i \<or> CHR ''['' \<in> set (drop 1 s) \<or> CHR '']'' \<in> set (drop (e + 1) s) then None
               else Some (take (e - 1) (drop 1 s), drop (i + 1) s))
        else if CHR '':'' \<in> set (take i s) \<or> CHR ''['' \<in> set s \<or> CHR '']'' \<in> set s then None
        else Some (take i s, drop (i + 1) s))"

lemma last_index_byte_append: "c \<notin> set b \<Longrightarrow> last_index_byte (a @ c # b) c = Some (length a)"
  by (simp add: last_index_byte_def index_byte_append)

lemma split_host_port_join:
  assumes "set host \<inter> {CHR '':'', CHR ''['', CHR '']''} = {}" and "set portn \<inter> {CHR '':'', CHR ''['', CHR '']''} = {}"
  shows "split_host_port (host @ '':'' @ portn) = Some (host, portn)"
proof -
  have l: "last_index_byte (host @ CHR '':'' # portn) CHR '':'' = Some (length host)"
    using assms(2) by (simp add: last_index_byte_append)
  have "hd (host @ CHR '':'' # portn) \<noteq> CHR ''[''" using assms(1) by (cases host) auto
  then show ?thesis using assms by (auto simp: split_host_port_def l)
qed

end
