(* ===== verification/AuthLimiter.thy ===== *)
theory AuthLimiter
  imports GoNet "HOL-Library.AList"
begin

text \<open>
  The login limiter of \<open>internal/auth/service.go\<close>: the failure times kept per source address,
  the attempts in flight per source, the global count of attempts in flight, and the sweep
  counter. Times are nanoseconds; the mutex makes each operation one step. The transition
  system interleaves any number of concurrent logins and keeps, beside the limiter, the log of
  the failures that really happened, so that the limit can be stated about logins.
\<close>

section \<open>State and operations\<close>

definition failureWindow :: int where "failureWindow = 15 * 60 * 1000000000"
definition maxFailureSources :: nat where "maxFailureSources = 4096"
definition maxActiveLogins :: nat where "maxActiveLogins = 4"
definition sweepInterval :: nat where "sweepInterval = 64"

record limiter =
  fails :: "(string \<times> int list) list"
  busy :: "(string \<times> nat) list"
  sweeps :: nat
  active :: nat

definition new_limiter :: limiter where
  "new_limiter = \<lparr>fails = [], busy = [], sweeps = 0, active = 0\<rparr>"

text \<open>Reading a Go map: the zero value for an absent key.\<close>

definition failures_of :: "limiter \<Rightarrow> string \<Rightarrow> int list" where
  "failures_of s src = (case map_of (fails s) src of None \<Rightarrow> [] | Some ts \<Rightarrow> ts)"

definition busy_of :: "limiter \<Rightarrow> string \<Rightarrow> nat" where
  "busy_of s src = (case map_of (busy s) src of None \<Rightarrow> 0 | Some n \<Rightarrow> n)"

definition prune :: "string \<Rightarrow> int \<Rightarrow> limiter \<Rightarrow> int list \<times> limiter" where
  "prune src now s =
     (let cutoff = now - failureWindow;
          recent = filter (\<lambda>attempt. cutoff < attempt) (failures_of s src)
      in (recent,
          if recent = [] then s\<lparr>fails := AList.delete src (fails s)\<rparr>
          else s\<lparr>fails := AList.update src recent (fails s)\<rparr>))"

definition pruneAll :: "int \<Rightarrow> limiter \<Rightarrow> limiter" where
  "pruneAll now s = fold (\<lambda>src st. snd (prune src now st)) (map fst (fails s)) s"

definition Limited :: "string \<Rightarrow> int \<Rightarrow> limiter \<Rightarrow> bool \<times> limiter" where
  "Limited src now s =
     (case prune src now s of (recent, s') \<Rightarrow> (5 \<le> length recent + busy_of s' src, s'))"

text \<open>
  The head of \<open>reserveAttempt\<close>: count the call (a \<open>uint64\<close>, so it wraps) and drop every old
  failure on each 64th call or when the table is full.
\<close>

definition swept :: "int \<Rightarrow> limiter \<Rightarrow> limiter" where
  "swept now s =
     (let s1 = s\<lparr>sweeps := Suc (sweeps s) mod 2 ^ 64\<rparr>
      in if sweeps s1 mod sweepInterval = 0 \<or> maxFailureSources \<le> length (fails s1)
         then pruneAll now s1 else s1)"

definition reserveAttempt :: "string \<Rightarrow> int \<Rightarrow> limiter \<Rightarrow> bool \<times> limiter" where
  "reserveAttempt src now s =
     (case prune src now (swept now s) of (recent, s3) \<Rightarrow>
           if 5 \<le> length recent + busy_of s3 src \<or> maxActiveLogins \<le> active s3 then (False, s3)
           else if map_of (fails s3) src = None \<and> map_of (busy s3) src = None \<and>
                   maxFailureSources \<le> length (fails s3) + length (busy s3)
           then (False, s3)
           else (True, s3\<lparr>busy := AList.update src (Suc (busy_of s3 src)) (busy s3),
                          active := Suc (active s3)\<rparr>))"

text \<open>The \<open>outcome\<close> codes of \<open>Login\<close>: 0 an internal error, 1 bad credentials, 2 success.\<close>

datatype outcome = Errored | Rejected | Accepted

text \<open>The head of \<open>finishAttempt\<close>: the attempt leaves the two counters.\<close>

definition released :: "string \<Rightarrow> limiter \<Rightarrow> limiter" where
  "released src s =
     (let s1 = (if 1 < busy_of s src
                then s\<lparr>busy := AList.update src (busy_of s src - 1) (busy s)\<rparr>
                else s\<lparr>busy := AList.delete src (busy s)\<rparr>)
      in if 0 < active s1 then s1\<lparr>active := active s1 - 1\<rparr> else s1)"

definition finishAttempt :: "string \<Rightarrow> outcome \<Rightarrow> int \<Rightarrow> limiter \<Rightarrow> limiter" where
  "finishAttempt src out now s =
     (let s2 = released src s
      in case out of
           Rejected \<Rightarrow>
             (case prune src now s2 of (recent, s3) \<Rightarrow>
                if recent \<noteq> [] \<or> length (fails s3) < maxFailureSources
                then s3\<lparr>fails := AList.update src (recent @ [now]) (fails s3)\<rparr> else s3)
         | Accepted \<Rightarrow> s2\<lparr>fails := AList.delete src (fails s2)\<rparr>
         | Errored \<Rightarrow> s2)"

section \<open>The limiter as two maps\<close>

definition keys_ok :: "limiter \<Rightarrow> bool" where
  "keys_ok s \<longleftrightarrow> distinct (map fst (fails s)) \<and> distinct (map fst (busy s)) \<and>
     (\<forall>p\<in>set (fails s). snd p \<noteq> []) \<and> (\<forall>p\<in>set (busy s). 0 < snd p)"

definition sources :: "limiter \<Rightarrow> string set" where
  "sources s = fst ` set (fails s) \<union> fst ` set (busy s)"

definition recent_at :: "int \<Rightarrow> int list \<Rightarrow> int list" where
  "recent_at now = filter (\<lambda>t. now - failureWindow < t)"

lemma length_recent_at_le: "length (recent_at now ts) \<le> length ts"
  by (simp add: recent_at_def)

lemma recent_at_mono: "now \<le> now' \<Longrightarrow> recent_at now' (recent_at now ts) = recent_at now' ts"
  by (auto simp: recent_at_def intro!: filter_cong)

lemma failures_of_update [simp]:
  "failures_of (s\<lparr>fails := AList.update src ts (fails s)\<rparr>) x
     = (if x = src then ts else failures_of s x)"
  by (simp add: failures_of_def update_conv')

lemma failures_of_delete [simp]:
  "failures_of (s\<lparr>fails := AList.delete src (fails s)\<rparr>) x
     = (if x = src then [] else failures_of s x)"
  by (simp add: failures_of_def delete_conv')

lemma failures_of_frame [simp]:
  "failures_of (s\<lparr>busy := b\<rparr>) x = failures_of s x"
  "failures_of (s\<lparr>active := a\<rparr>) x = failures_of s x"
  "failures_of (s\<lparr>sweeps := n\<rparr>) x = failures_of s x"
  by (simp_all add: failures_of_def)

lemma busy_of_update [simp]:
  "busy_of (s\<lparr>busy := AList.update src n (busy s)\<rparr>) x = (if x = src then n else busy_of s x)"
  by (simp add: busy_of_def update_conv')

lemma busy_of_delete [simp]:
  "busy_of (s\<lparr>busy := AList.delete src (busy s)\<rparr>) x = (if x = src then 0 else busy_of s x)"
  by (simp add: busy_of_def delete_conv')

lemma busy_of_frame [simp]:
  "busy_of (s\<lparr>fails := f\<rparr>) x = busy_of s x"
  "busy_of (s\<lparr>active := a\<rparr>) x = busy_of s x"
  "busy_of (s\<lparr>sweeps := n\<rparr>) x = busy_of s x"
  by (simp_all add: busy_of_def)

lemma busy_of_active_update [simp]:
  "busy_of (s\<lparr>busy := b, active := a\<rparr>) x = busy_of (s\<lparr>busy := b\<rparr>) x"
  by (simp add: busy_of_def)

lemma set_AList_delete: "set (AList.delete k al) = {p \<in> set al. fst p \<noteq> k}"
  by (induction al) auto

lemma set_AList_update:
  "distinct (map fst al) \<Longrightarrow> set (AList.update k v al) = insert (k, v) {p \<in> set al. fst p \<noteq> k}"
  by (induction al) (auto simp: image_iff split: if_splits)

lemma fst_update: "fst ` set (AList.update k v al) = insert k (fst ` set al)"
  by (simp add: dom_update)

lemma fst_delete: "fst ` set (AList.delete k al) = fst ` set al - {k}"
  by (auto simp: set_AList_delete)

lemma map_of_None_fst: "map_of al k = None \<longleftrightarrow> k \<notin> fst ` set al"
  by (rule map_of_eq_None_iff)

text \<open>What pruning one source does to the view of the limiter.\<close>

lemma prune_recent: "fst (prune src now s) = recent_at now (failures_of s src)"
  by (simp add: prune_def Let_def recent_at_def)

lemma prune_failures:
  "failures_of (snd (prune src now s)) x
     = (if x = src then recent_at now (failures_of s src) else failures_of s x)"
  by (simp add: prune_def Let_def recent_at_def)

lemma prune_frame [simp]:
  "busy (snd (prune src now s)) = busy s"
  "active (snd (prune src now s)) = active s"
  "sweeps (snd (prune src now s)) = sweeps s"
  by (simp_all add: prune_def Let_def)

lemma prune_busy_of [simp]: "busy_of (snd (prune src now s)) x = busy_of s x"
  by (simp add: busy_of_def)

lemma failures_of_nonempty: "failures_of s src \<noteq> [] \<Longrightarrow> src \<in> fst ` set (fails s)"
  by (force simp: failures_of_def split: option.splits dest!: map_of_SomeD)

lemma prune_fails_fst: "fst ` set (fails (snd (prune src now s))) \<subseteq> fst ` set (fails s)"
proof -
  have "filter (\<lambda>t. now - failureWindow < t) (failures_of s src) \<noteq> [] \<Longrightarrow> failures_of s src \<noteq> []"
    by auto
  then show ?thesis
    using failures_of_nonempty [of s src]
    by (auto simp: prune_def Let_def fst_update fst_delete)
qed

lemma prune_keys_ok [jui_inv]: "keys_ok s \<Longrightarrow> keys_ok (snd (prune src now s))"
  by (auto simp: prune_def Let_def keys_ok_def distinct_update distinct_delete
      set_AList_update set_AList_delete)

text \<open>Any sequence of prunings at one time.\<close>

lemma fold_prune:
  fixes srcs :: "string list" and now :: int
  defines "p \<equiv> \<lambda>s. fold (\<lambda>src st. snd (prune src now st)) srcs s"
  shows "failures_of (p s) x
           = (if x \<in> set srcs then recent_at now (failures_of s x) else failures_of s x)"
    and "busy (p s) = busy s" and "active (p s) = active s" and "sweeps (p s) = sweeps s"
    and "fst ` set (fails (p s)) \<subseteq> fst ` set (fails s)" and "keys_ok s \<Longrightarrow> keys_ok (p s)"
  unfolding p_def
proof (induction srcs arbitrary: s)
  case (Cons a srcs)
  { case 1 show ?case
      using Cons.IH(1) [of "snd (prune a now s)"] by (auto simp: prune_failures recent_at_mono) }
  { case 2 show ?case using Cons.IH(2) [of "snd (prune a now s)"] by simp }
  { case 3 show ?case using Cons.IH(3) [of "snd (prune a now s)"] by simp }
  { case 4 show ?case using Cons.IH(4) [of "snd (prune a now s)"] by simp }
  { case 5 show ?case
      using Cons.IH(5) [of "snd (prune a now s)"] prune_fails_fst [of a now s] by auto }
  { case 6 then show ?case using Cons.IH(6) [of "snd (prune a now s)"] prune_keys_ok by simp }
qed auto

lemma pruneAll_failures: "failures_of (pruneAll now s) x = recent_at now (failures_of s x)"
proof (cases "x \<in> fst ` set (fails s)")
  case True
  then show ?thesis
    using fold_prune(1) [of now "map fst (fails s)" s x] by (simp add: pruneAll_def)
next
  case False
  then have "failures_of s x = []" using failures_of_nonempty by blast
  then show ?thesis
    using False fold_prune(1) [of now "map fst (fails s)" s x]
    by (simp add: pruneAll_def recent_at_def)
qed

lemma pruneAll_frame [simp]:
  "busy (pruneAll now s) = busy s" "active (pruneAll now s) = active s"
  "sweeps (pruneAll now s) = sweeps s"
  by (simp_all add: pruneAll_def fold_prune)

lemma pruneAll_fst: "fst ` set (fails (pruneAll now s)) \<subseteq> fst ` set (fails s)"
  unfolding pruneAll_def by (rule fold_prune(5))

lemma pruneAll_keys_ok [jui_inv]: "keys_ok s \<Longrightarrow> keys_ok (pruneAll now s)"
  unfolding pruneAll_def by (rule fold_prune(6))

section \<open>Invariants of the operations\<close>

lemma swept_frame [simp]: "busy (swept now s) = busy s" "active (swept now s) = active s"
  by (simp_all add: swept_def Let_def)

lemma swept_fst: "fst ` set (fails (swept now s)) \<subseteq> fst ` set (fails s)"
  using pruneAll_fst [of now "s\<lparr>sweeps := Suc (sweeps s) mod 2 ^ 64\<rparr>"]
  by (auto simp: swept_def Let_def)

lemma swept_recent: "recent_at now (failures_of (swept now s) x) = recent_at now (failures_of s x)"
  by (simp add: swept_def Let_def pruneAll_failures recent_at_mono)

lemma swept_le: "length (failures_of (swept now s) x) \<le> length (failures_of s x)"
  by (simp add: swept_def Let_def pruneAll_failures length_recent_at_le)

lemma keys_ok_frame [simp]:
  "keys_ok (s\<lparr>sweeps := n\<rparr>) = keys_ok s" "keys_ok (s\<lparr>active := a\<rparr>) = keys_ok s"
  by (simp_all add: keys_ok_def)

lemma swept_keys_ok [jui_inv]: "keys_ok s \<Longrightarrow> keys_ok (swept now s)"
  by (simp add: swept_def Let_def pruneAll_keys_ok)

text \<open>\<open>reserveAttempt\<close> in terms of \<open>swept\<close> and one pruning.\<close>

definition pruned :: "string \<Rightarrow> int \<Rightarrow> limiter \<Rightarrow> limiter" where
  "pruned src now s = snd (prune src now (swept now s))"

lemma reserveAttempt_eq:
  "reserveAttempt src now s =
     (let s3 = pruned src now s in
      if 5 \<le> length (recent_at now (failures_of s src)) + busy_of s src
         \<or> maxActiveLogins \<le> active s then (False, s3)
      else if map_of (fails s3) src = None \<and> map_of (busy s) src = None \<and>
              maxFailureSources \<le> length (fails s3) + length (busy s)
      then (False, s3)
      else (True, s3\<lparr>busy := AList.update src (Suc (busy_of s src)) (busy s),
                     active := Suc (active s)\<rparr>))"
proof -
  have f: "fst (prune src now (swept now s)) = recent_at now (failures_of s src)"
    by (simp add: prune_recent swept_recent)
  have b: "busy_of (swept now s) src = busy_of s src" by (simp add: busy_of_def)
  show ?thesis
    by (simp add: reserveAttempt_def Let_def pruned_def case_prod_beta f b)
qed

lemma pruned_frame [simp]:
  "busy (pruned src now s) = busy s" "active (pruned src now s) = active s"
  "busy_of (pruned src now s) x = busy_of s x"
  by (simp_all add: pruned_def busy_of_def)

lemma pruned_keys_ok [jui_inv]: "keys_ok s \<Longrightarrow> keys_ok (pruned src now s)"
  by (simp add: pruned_def prune_keys_ok swept_keys_ok)

lemma pruned_fst: "fst ` set (fails (pruned src now s)) \<subseteq> fst ` set (fails s)"
  using prune_fails_fst [of src now "swept now s"] swept_fst [of now s]
  by (auto simp: pruned_def)

lemma pruned_recent: "recent_at now (failures_of (pruned src now s) x) = recent_at now (failures_of s x)"
  by (simp add: pruned_def prune_failures recent_at_mono swept_recent)

lemma pruned_le: "length (failures_of (pruned src now s) x) \<le> length (failures_of s x)"
proof (cases "x = src")
  case True
  then show ?thesis
    by (simp add: pruned_def prune_failures swept_recent length_recent_at_le)
next
  case False
  then show ?thesis by (simp add: pruned_def prune_failures swept_le)
qed

section \<open>Concurrent logins\<close>

text \<open>
  A state of the running panel: the limiter, the sources of the logins between their
  \<open>reserveAttempt\<close> and their \<open>finishAttempt\<close>, the clock, and the log of rejected logins since
  the source's last success.
\<close>

record panel =
  lim :: limiter
  inflight :: "string list"
  clock :: int
  rejected :: "(string \<times> int) list"

definition log_outcome :: "string \<Rightarrow> outcome \<Rightarrow> int \<Rightarrow> (string \<times> int) list \<Rightarrow> (string \<times> int) list" where
  "log_outcome src out now log = (case out of
      Rejected \<Rightarrow> log @ [(src, now)]
    | Accepted \<Rightarrow> filter (\<lambda>p. fst p \<noteq> src) log
    | Errored \<Rightarrow> log)"

definition log_of :: "(string \<times> int) list \<Rightarrow> string \<Rightarrow> int list" where
  "log_of log src = map snd (filter (\<lambda>p. fst p = src) log)"

inductive login_step :: "panel \<Rightarrow> panel \<Rightarrow> bool" where
  tick: "clock w \<le> t \<Longrightarrow> login_step w (w\<lparr>clock := t\<rparr>)"
| granted: "reserveAttempt src (clock w) (lim w) = (True, l) \<Longrightarrow>
     login_step w (w\<lparr>lim := l, inflight := src # inflight w\<rparr>)"
| denied: "reserveAttempt src (clock w) (lim w) = (False, l) \<Longrightarrow> login_step w (w\<lparr>lim := l\<rparr>)"
| asked: "Limited src (clock w) (lim w) = (b, l) \<Longrightarrow> login_step w (w\<lparr>lim := l\<rparr>)"
| finished: "src \<in> set (inflight w) \<Longrightarrow>
     login_step w (w\<lparr>lim := finishAttempt src out (clock w) (lim w),
                     inflight := remove1 src (inflight w),
                     rejected := log_outcome src out (clock w) (rejected w)\<rparr>)"

definition panel_start :: "panel \<Rightarrow> bool" where
  "panel_start w \<longleftrightarrow> lim w = new_limiter \<and> inflight w = [] \<and> rejected w = []"

definition limiter_ok :: "limiter \<Rightarrow> bool" where
  "limiter_ok s \<longleftrightarrow> keys_ok s \<and> active s \<le> maxActiveLogins \<and>
     (\<forall>x. length (failures_of s x) + busy_of s x \<le> 5) \<and> card (sources s) \<le> maxFailureSources"

definition panel_ok :: "panel \<Rightarrow> bool" where
  "panel_ok w \<longleftrightarrow> limiter_ok (lim w) \<and>
     (\<forall>x. busy_of (lim w) x = count_list (inflight w) x) \<and>
     active (lim w) = length (inflight w) \<and>
     (\<forall>x. recent_at (clock w) (failures_of (lim w) x) = recent_at (clock w) (log_of (rejected w) x))"

lemma sources_finite [simp]: "finite (sources s)"
  by (simp add: sources_def)

lemma limiter_ok_shrink:
  assumes "limiter_ok s" and "keys_ok s'" and "active s' \<le> active s"
    and "\<And>x. length (failures_of s' x) + busy_of s' x \<le> length (failures_of s x) + busy_of s x"
    and "sources s' \<subseteq> sources s"
  shows "limiter_ok s'"
proof -
  have "card (sources s') \<le> card (sources s)" using assms(5) by (simp add: card_mono)
  moreover have "length (failures_of s' x) + busy_of s' x \<le> 5" for x
    using assms(1) order_trans [OF assms(4) [of x]] by (simp add: limiter_ok_def)
  ultimately show ?thesis using assms(1-3) by (simp add: limiter_ok_def)
qed

lemma sources_pruned: "sources (pruned src now s) \<subseteq> sources s"
  using pruned_fst [of src now s] by (auto simp: sources_def)

lemma limiter_ok_keys: "limiter_ok s \<Longrightarrow> keys_ok s"
  by (simp add: limiter_ok_def)

lemma pruned_ok [jui_inv]: "limiter_ok s \<Longrightarrow> limiter_ok (pruned src now s)"
  by (rule limiter_ok_shrink, assumption)
     (simp_all add: pruned_keys_ok limiter_ok_keys pruned_le sources_pruned)

lemma sources_prune: "sources (snd (prune src now s)) \<subseteq> sources s"
  using prune_fails_fst [of src now s] by (auto simp: sources_def)

lemma prune_ok [jui_inv]: "limiter_ok s \<Longrightarrow> limiter_ok (snd (prune src now s))"
  by (rule limiter_ok_shrink, assumption)
     (simp_all add: prune_keys_ok limiter_ok_keys prune_failures length_recent_at_le sources_prune)

lemma pruned_failures_self: "failures_of (pruned src now s) src = recent_at now (failures_of s src)"
  by (simp add: pruned_def prune_failures swept_recent)

lemma reserveAttempt_granted:
  assumes "reserveAttempt src now s = (True, s')"
  shows "length (recent_at now (failures_of s src)) + busy_of s src < 5"
    and "active s < maxActiveLogins"
    and "src \<in> sources (pruned src now s) \<or>
         length (fails (pruned src now s)) + length (busy s) < maxFailureSources"
    and "s' = (pruned src now s)\<lparr>busy := AList.update src (Suc (busy_of s src)) (busy s),
               active := Suc (active s)\<rparr>"
  using assms by (auto simp: reserveAttempt_eq Let_def sources_def map_of_eq_None_iff split: if_splits)

lemma reserveAttempt_denied: "reserveAttempt src now s = (False, s') \<Longrightarrow> s' = pruned src now s"
  by (auto simp: reserveAttempt_eq Let_def split: if_splits)

lemma card_sources_le: "card (sources s) \<le> length (fails s) + length (busy s)"
proof -
  have "card (sources s) \<le> card (fst ` set (fails s)) + card (fst ` set (busy s))"
    unfolding sources_def by (rule card_Un_le)
  also have "\<dots> \<le> card (set (fails s)) + card (set (busy s))"
    by (intro add_mono card_image_le) simp_all
  also have "\<dots> \<le> length (fails s) + length (busy s)"
    by (intro add_mono card_length)
  finally show ?thesis .
qed

lemma granted_ok [jui_inv]:
  assumes "limiter_ok s" and "reserveAttempt src now s = (True, s')"
  shows "limiter_ok s'"
proof -
  note g = reserveAttempt_granted [OF assms(2)]
  let ?p = "pruned src now s"
  have p: "limiter_ok ?p" using assms(1) by (rule pruned_ok)
  have src: "sources s' = insert src (sources ?p)"
    by (auto simp: sources_def g(4) fst_update)
  have "card (insert src (sources ?p)) \<le> maxFailureSources"
    using g(3) p card_sources_le [of ?p]
    by (auto simp: limiter_ok_def insert_absorb card_insert_if)
  moreover have "keys_ok s'"
    using p by (auto simp: limiter_ok_def keys_ok_def g(4) distinct_update set_AList_update)
  moreover have "length (failures_of s' x) + busy_of s' x \<le> 5" for x
    using p g(1) by (auto simp: limiter_ok_def g(4) pruned_failures_self busy_of_def update_conv')
  ultimately show ?thesis using src g(2,4) by (simp add: limiter_ok_def)
qed

lemma released_view:
  "fails (released src s) = fails s"
  "failures_of (released src s) x = failures_of s x"
  "active (released src s) = active s - 1"
  "busy_of (released src s) x = (if x = src then busy_of s src - 1 else busy_of s x)"
  "sources (released src s) \<subseteq> sources s \<union> {src}"
  by (auto simp: released_def Let_def sources_def fst_update fst_delete failures_of_def busy_of_def
      update_conv' delete_conv')

lemma released_keys_ok: "keys_ok s \<Longrightarrow> keys_ok (released src s)"
  by (auto simp: released_def Let_def keys_ok_def distinct_update distinct_delete
      set_AList_update set_AList_delete)

lemma busy_source: "0 < busy_of s src \<Longrightarrow> src \<in> sources s"
  by (force simp: busy_of_def sources_def split: option.splits dest!: map_of_SomeD)

lemma released_ok [jui_inv]:
  assumes "limiter_ok s" and "0 < busy_of s src"
  shows "limiter_ok (released src s)"
proof -
  have "sources (released src s) \<subseteq> sources s"
    using released_view(5) [of src s] busy_source [OF assms(2)] by auto
  then show ?thesis
    by (intro limiter_ok_shrink [OF assms(1)])
       (simp_all add: released_view released_keys_ok limiter_ok_keys [OF assms(1)])
qed

lemma finishAttempt_Rejected:
  "finishAttempt src Rejected now s =
     (let s3 = snd (prune src now (released src s)); recent = recent_at now (failures_of s src)
      in if recent \<noteq> [] \<or> length (fails s3) < maxFailureSources
         then s3\<lparr>fails := AList.update src (recent @ [now]) (fails s3)\<rparr> else s3)"
  by (simp add: finishAttempt_def Let_def case_prod_beta prune_recent released_view)

lemma finishAttempt_Accepted:
  "finishAttempt src Accepted now s
     = (released src s)\<lparr>fails := AList.delete src (fails (released src s))\<rparr>"
  by (simp add: finishAttempt_def Let_def)

lemma finishAttempt_Errored: "finishAttempt src Errored now s = released src s"
  by (simp add: finishAttempt_def Let_def)

lemmas finish_simps = finishAttempt_Rejected finishAttempt_Accepted finishAttempt_Errored Let_def
lemmas released_views = released_view(2,3,4)

text \<open>The table has room for the failing source, so the guard of \<open>finishAttempt\<close> never drops it.\<close>

lemma finish_has_room:
  fixes now :: int
  assumes ok: "limiter_ok s" and b: "0 < busy_of s src"
  defines "s3 \<equiv> snd (prune src now (released src s))"
  shows "recent_at now (failures_of s src) \<noteq> [] \<or> length (fails s3) < maxFailureSources"
proof (rule disjCI)
  assume "\<not> length (fails s3) < maxFailureSources"
  have k: "keys_ok s3" unfolding s3_def using ok
    by (intro prune_keys_ok released_keys_ok limiter_ok_keys)
  have "fst ` set (fails s3) \<subseteq> sources s"
    using prune_fails_fst [of src now "released src s"]
    by (auto simp: s3_def sources_def released_view)
  moreover have "card (fst ` set (fails s3)) = length (fails s3)"
    using k by (metis distinct_card keys_ok_def length_map set_map)
  moreover have "card (sources s) \<le> maxFailureSources" using ok by (simp add: limiter_ok_def)
  ultimately have "fst ` set (fails s3) = sources s"
    using \<open>\<not> length (fails s3) < maxFailureSources\<close>
    by (intro card_seteq) auto
  then have "src \<in> fst ` set (fails s3)" using busy_source [OF b] by simp
  moreover have "src \<notin> fst ` set (fails s3)" if "recent_at now (failures_of s src) = []"
    using that by (auto simp: s3_def prune_def Let_def released_view recent_at_def fst_delete
        set_AList_delete)
  ultimately show "recent_at now (failures_of s src) \<noteq> []" by blast
qed

lemma finishAttempt_failures:
  assumes "limiter_ok s" and "0 < busy_of s src"
  shows "failures_of (finishAttempt src out now s) x =
     (if x = src
      then (case out of Rejected \<Rightarrow> recent_at now (failures_of s src) @ [now]
                      | Accepted \<Rightarrow> [] | Errored \<Rightarrow> failures_of s src)
      else failures_of s x)"
  using finish_has_room [OF assms, of now]
  by (cases out)
     (auto simp: finish_simps prune_failures released_views)

lemma finishAttempt_busy:
  "busy (finishAttempt src out now s) = busy (released src s)"
  "active (finishAttempt src out now s) = active s - 1"
  "busy_of (finishAttempt src out now s) x = (if x = src then busy_of s src - 1 else busy_of s x)"
  by (cases out; simp add: finish_simps released_views)+

lemma keys_ok_update_fails:
  "keys_ok s \<Longrightarrow> ts \<noteq> [] \<Longrightarrow> keys_ok (s\<lparr>fails := AList.update src ts (fails s)\<rparr>)"
  "keys_ok s \<Longrightarrow> keys_ok (s\<lparr>fails := AList.delete src (fails s)\<rparr>)"
  by (auto simp: keys_ok_def distinct_update distinct_delete set_AList_update set_AList_delete)

lemma finishAttempt_keys_ok: "keys_ok s \<Longrightarrow> keys_ok (finishAttempt src out now s)"
  by (cases out)
     (simp_all add: finish_simps keys_ok_update_fails prune_keys_ok released_keys_ok)

lemma sources_fails_update:
  "sources (s\<lparr>fails := AList.update src ts (fails s)\<rparr>) = insert src (sources s)"
  "sources (s\<lparr>fails := AList.delete src (fails s)\<rparr>) \<subseteq> sources s"
  by (auto simp: sources_def fst_update fst_delete)

lemma finishAttempt_sources:
  assumes "0 < busy_of s src"
  shows "sources (finishAttempt src out now s) \<subseteq> sources s"
proof -
  have r: "sources (released src s) \<subseteq> sources s" and src: "src \<in> sources s"
    using released_view(5) [of src s] busy_source [OF assms] by auto
  have p: "sources (snd (prune src now (released src s))) \<subseteq> sources s"
    using sources_prune r by blast
  show ?thesis
    using r p src sources_fails_update(2) [of src "released src s"]
    by (cases out) (auto simp: finish_simps sources_fails_update(1))
qed

lemma finishAttempt_ok [jui_inv]:
  assumes "limiter_ok s" and "0 < busy_of s src"
  shows "limiter_ok (finishAttempt src out now s)"
proof (rule limiter_ok_shrink [OF assms(1)])
  fix x
  show "length (failures_of (finishAttempt src out now s) x) + busy_of (finishAttempt src out now s) x
      \<le> length (failures_of s x) + busy_of s x"
    using assms(2) length_recent_at_le [of now "failures_of s src"]
    by (cases out) (auto simp: finishAttempt_failures [OF assms] finishAttempt_busy)
qed (simp_all add: finishAttempt_keys_ok limiter_ok_keys [OF assms(1)] finishAttempt_busy
      finishAttempt_sources [OF assms(2)])

section \<open>The whole system keeps the limit\<close>

lemma limiter_ok_new: "limiter_ok new_limiter"
  by (simp add: limiter_ok_def new_limiter_def keys_ok_def failures_of_def busy_of_def sources_def)

lemma panel_ok_start: "panel_start w \<Longrightarrow> panel_ok w"
  using limiter_ok_new
  by (simp add: panel_start_def panel_ok_def busy_of_def failures_of_def new_limiter_def
      log_of_def recent_at_def)

lemma Limited_snd: "Limited src now s = (b, s') \<Longrightarrow> s' = snd (prune src now s)"
  by (auto simp: Limited_def split: prod.splits)

lemma log_of_outcome:
  "log_of (log_outcome src out now log) x =
     (if x = src then (case out of Rejected \<Rightarrow> log_of log src @ [now] | Accepted \<Rightarrow> []
                                 | Errored \<Rightarrow> log_of log src)
      else log_of log x)"
proof -
  have "filter (\<lambda>p. fst p = x \<and> fst p \<noteq> src) log = (if x = src then [] else filter (\<lambda>p. fst p = x) log)"
    by (auto simp: filter_empty_conv intro!: filter_cong)
  then show ?thesis by (cases out) (auto simp: log_outcome_def log_of_def conj_commute)
qed

lemma recent_at_prune:
  "recent_at now (failures_of (snd (prune src now s)) x) = recent_at now (failures_of s x)"
  by (simp add: prune_failures recent_at_mono)

lemma recent_at_append: "recent_at now (xs @ ys) = recent_at now xs @ recent_at now ys"
  by (simp add: recent_at_def)

lemma recent_at_now: "recent_at now [now] = [now]"
  by (simp add: recent_at_def failureWindow_def)

lemma count_remove1: "x \<in> set xs \<Longrightarrow> count_list (remove1 x xs) y = count_list xs y - (if y = x then 1 else 0)"
  by (induction xs) auto

lemma panel_ok_step:
  assumes ok: "panel_ok w" and "login_step w w'"
  shows "panel_ok w'"
  using assms(2)
proof cases
  case (tick t)
  then have "recent_at t (failures_of (lim w) x) = recent_at t (log_of (rejected w) x)" for x
    using recent_at_mono [OF tick(2)] ok by (metis panel_ok_def)
  with tick ok show ?thesis by (simp add: panel_ok_def)
next
  case (granted src l)
  note g = reserveAttempt_granted(4) [OF granted(2)]
  have "busy_of l x = (if x = src then Suc (busy_of (lim w) src) else busy_of (lim w) x)" for x
    by (simp add: g busy_of_def update_conv')
  moreover have "recent_at (clock w) (failures_of l x) = recent_at (clock w) (failures_of (lim w) x)" for x
    by (simp add: g pruned_recent)
  moreover have "limiter_ok l" using granted_ok [OF _ granted(2)] ok by (simp add: panel_ok_def)
  ultimately show ?thesis using granted ok by (simp add: panel_ok_def) (simp add: g)
next
  case (denied src l)
  then show ?thesis
    using ok by (auto simp: panel_ok_def pruned_ok pruned_recent dest!: reserveAttempt_denied)
next
  case (asked src b l)
  then show ?thesis
    using ok by (auto simp: panel_ok_def prune_ok recent_at_prune busy_of_def dest!: Limited_snd)
next
  case (finished src out)
  have b: "0 < busy_of (lim w) src"
    using finished ok by (simp add: panel_ok_def neq0_conv [symmetric] count_list_0_iff del: neq0_conv)
  have l: "limiter_ok (lim w)" using ok by (simp add: panel_ok_def)
  let ?s = "finishAttempt src out (clock w) (lim w)"
  have "recent_at (clock w) (failures_of ?s x)
      = recent_at (clock w) (log_of (log_outcome src out (clock w) (rejected w)) x)" for x
    using ok by (cases out) (simp_all add: panel_ok_def finishAttempt_failures [OF l b] log_of_outcome
        recent_at_append recent_at_now recent_at_mono)
  with finished ok show ?thesis
    by (simp add: panel_ok_def finishAttempt_ok [OF l b] finishAttempt_busy count_remove1
        length_remove1)
qed

interpretation logins: transition_system panel_start login_step panel_ok
  by unfold_locales (blast intro: panel_ok_start panel_ok_step)+

text \<open>C24: However many logins run at once, in every reachable state a source address has at most
  five rejected logins of the last fifteen minutes and attempts in flight together (rejections
  before its last success aside), and at most four password checks run at a time.\<close>

theorem login_limit:
  assumes "panel_start w0" and "login_step\<^sup>*\<^sup>* w0 w"
  shows "length (filter (\<lambda>t. clock w - failureWindow < t) (log_of (rejected w) src))
           + count_list (inflight w) src \<le> 5
         \<and> length (inflight w) \<le> maxActiveLogins"
proof -
  have ok: "panel_ok w" using assms by (rule logins.inv_reachable)
  have le: "length (recent_at (clock w) (failures_of (lim w) src)) \<le> length (failures_of (lim w) src)"
    by (rule length_recent_at_le)
  have "length (failures_of (lim w) src) + busy_of (lim w) src \<le> 5"
    using ok unfolding panel_ok_def limiter_ok_def by blast
  moreover have "recent_at (clock w) (failures_of (lim w) src)
      = recent_at (clock w) (log_of (rejected w) src)" "busy_of (lim w) src = count_list (inflight w) src"
    using ok by (simp_all add: panel_ok_def)
  ultimately have
    "length (recent_at (clock w) (log_of (rejected w) src)) + count_list (inflight w) src \<le> 5"
    using le by simp
  then show ?thesis using ok by (simp add: panel_ok_def limiter_ok_def recent_at_def)
qed

definition demo_start :: panel where
  "demo_start = \<lparr>lim = new_limiter, inflight = [], clock = 1000, rejected = []\<rparr>"

definition demo_limiter :: limiter where
  "demo_limiter = \<lparr>fails = [(''10.0.0.1'', [1000])], busy = [], sweeps = 1, active = 0\<rparr>"

lemma demo_run:
  "login_step\<^sup>*\<^sup>* demo_start
     \<lparr>lim = demo_limiter, inflight = [], clock = 1000, rejected = [(''10.0.0.1'', 1000)]\<rparr>"
proof -
  let ?l = "\<lparr>fails = [], busy = [(''10.0.0.1'', 1)], sweeps = 1, active = 1\<rparr>"
  let ?w = "\<lparr>lim = ?l, inflight = [''10.0.0.1''], clock = 1000, rejected = []\<rparr>"
  have "reserveAttempt ''10.0.0.1'' 1000 new_limiter = (True, ?l)"
    by (simp add: reserveAttempt_def swept_def prune_def new_limiter_def failures_of_def busy_of_def
        sweepInterval_def maxFailureSources_def maxActiveLogins_def Let_def)
  then have 1: "login_step demo_start ?w"
    using login_step.granted [of "''10.0.0.1''" demo_start ?l] by (simp add: demo_start_def)
  have "finishAttempt ''10.0.0.1'' Rejected 1000 ?l = demo_limiter"
    by (simp add: finishAttempt_def released_def prune_def failures_of_def busy_of_def
        maxFailureSources_def demo_limiter_def Let_def)
  then have "login_step ?w
      \<lparr>lim = demo_limiter, inflight = [], clock = 1000, rejected = [(''10.0.0.1'', 1000)]\<rparr>"
    using login_step.finished [of "''10.0.0.1''" ?w Rejected] by (simp add: log_outcome_def)
  with 1 show ?thesis by (meson converse_rtranclp_into_rtranclp r_into_rtranclp)
qed

lemma demo_panel_start: "panel_start demo_start"
  by (simp add: panel_start_def demo_start_def)

theorem login_limit_witness:
  "\<exists>w. login_step\<^sup>*\<^sup>* demo_start w \<and> log_of (rejected w) ''10.0.0.1'' = [1000] \<and>
     length (filter (\<lambda>t. clock w - failureWindow < t) (log_of (rejected w) ''10.0.0.1''))
       + count_list (inflight w) ''10.0.0.1'' \<le> 5"
  using demo_run login_limit [OF demo_panel_start demo_run, of "''10.0.0.1''"]
  by (intro exI conjI) (assumption, simp add: log_of_def, blast)

text \<open>In every reachable state the failure table holds at most 4096 sources, each with a
  nonempty list, and a rejected login is always recorded: the capacity guard of
  \<open>finishAttempt\<close> never discards the failure of an attempt that was admitted.\<close>

theorem failure_always_recorded:
  assumes "panel_start w0" and "login_step\<^sup>*\<^sup>* w0 w" and "src \<in> set (inflight w)"
  shows "last (failures_of (finishAttempt src Rejected (clock w) (lim w)) src) = clock w
         \<and> length (fails (finishAttempt src Rejected (clock w) (lim w))) \<le> maxFailureSources"
proof -
  have ok: "panel_ok w" using assms(1,2) by (rule logins.inv_reachable)
  then have l: "limiter_ok (lim w)" by (simp add: panel_ok_def)
  have b: "0 < busy_of (lim w) src"
    using ok assms(3) by (simp add: panel_ok_def neq0_conv [symmetric] count_list_0_iff del: neq0_conv)
  let ?s = "finishAttempt src Rejected (clock w) (lim w)"
  have s: "limiter_ok ?s" using l b by (rule finishAttempt_ok)
  have "length (fails ?s) = card (fst ` set (fails ?s))"
    using limiter_ok_keys [OF s] by (metis distinct_card keys_ok_def length_map set_map)
  also have "\<dots> \<le> card (sources ?s)" by (rule card_mono) (auto simp: sources_def)
  also have "\<dots> \<le> maxFailureSources" using s by (simp add: limiter_ok_def)
  finally show ?thesis by (simp add: finishAttempt_failures [OF l b])
qed

theorem failure_always_recorded_witness:
  "\<exists>w. login_step\<^sup>*\<^sup>* demo_start w \<and> inflight w = [''10.0.0.1''] \<and>
     last (failures_of (finishAttempt ''10.0.0.1'' Rejected (clock w) (lim w)) ''10.0.0.1'') = clock w"
proof -
  let ?l = "\<lparr>fails = [], busy = [(''10.0.0.1'', 1)], sweeps = 1, active = 1\<rparr>"
  let ?w = "\<lparr>lim = ?l, inflight = [''10.0.0.1''], clock = 1000, rejected = []\<rparr>"
  have "reserveAttempt ''10.0.0.1'' 1000 new_limiter = (True, ?l)"
    by (simp add: reserveAttempt_def swept_def prune_def new_limiter_def failures_of_def busy_of_def
        sweepInterval_def maxFailureSources_def maxActiveLogins_def Let_def)
  then have r: "login_step\<^sup>*\<^sup>* demo_start ?w"
    using login_step.granted [of "''10.0.0.1''" demo_start ?l]
    by (simp add: demo_start_def r_into_rtranclp)
  have "''10.0.0.1'' \<in> set (inflight ?w)" by simp
  from failure_always_recorded [OF demo_panel_start r this] r show ?thesis by fastforce
qed

end
