(* ===== verification/JModel.thy ===== *)
theory JModel
  imports GoNet "HOL-Library.AList"
begin

text \<open>
  The data of \<open>internal/model/model.go\<close>: nodes, outbounds, clients, VPNGate candidates and
  exits, sessions and users, with the protocol names and the predicates on them; and the values
  of \<open>map[string]any\<close>, which is how settings, credentials and generated documents are held.
  Times are seconds since the epoch, an absent \<open>*time.Time\<close> or \<open>*int64\<close> is \<open>None\<close>.
\<close>

section \<open>Dynamic values\<close>

datatype json =
    JNull
  | JBool bool
  | JInt int
  | JStr string
  | JList "json list"
  | JObj "(string \<times> json) list"

type_synonym obj = "(string \<times> json) list"

text \<open>\<open>m[key] = value\<close> and the reads \<open>m[key].(string)\<close> with the zero value on failure.\<close>

definition obj_set :: "string \<Rightarrow> json \<Rightarrow> obj \<Rightarrow> obj" where
  "obj_set k v o' = AList.update k v o'"

definition obj_string :: "obj \<Rightarrow> string \<Rightarrow> string" where
  "obj_string o' k = (case map_of o' k of Some (JStr s) \<Rightarrow> s | _ \<Rightarrow> [])"

text \<open>Reading \<open>m[key]\<close> as \<open>any\<close>: nil, printed as JSON null, for an absent key.\<close>

definition obj_any :: "obj \<Rightarrow> string \<Rightarrow> json" where
  "obj_any o' k = (case map_of o' k of Some v \<Rightarrow> v | None \<Rightarrow> JNull)"

lemma map_of_obj_set [simp]: "map_of (obj_set k v ob) = (map_of ob)(k \<mapsto> v)"
  by (simp add: obj_set_def update_conv')

lemma obj_string_set [simp]:
  "obj_string (obj_set k (JStr s) ob) k' = (if k' = k then s else obj_string ob k')"
  by (simp add: obj_string_def)

section \<open>Records\<close>

record node =
  node_id :: int
  node_name :: string
  protocol :: string
  listen :: string
  port :: int
  node_enabled :: bool
  public_host_override :: string
  node_outbound :: "int option"
  settings :: obj
  secret :: obj
  node_status :: string
  node_created :: int
  node_updated :: int

record outbound =
  out_id :: int
  out_name :: string
  out_type :: string
  out_server :: string
  out_port :: int
  out_enabled :: bool
  out_username :: string
  out_password :: string
  out_managed :: string
  out_status :: string
  out_observed :: string
  out_country :: string
  out_asn :: string
  out_error :: string
  out_checked :: "int option"
  out_created :: int
  out_updated :: int

record candidate =
  host_name :: string
  cand_ip :: string
  score :: int
  ping :: int
  speed :: int
  country_long :: string
  country_short :: string
  num_sessions :: int
  uptime :: int
  openvpn_config :: string
  fetched_at :: int

record vpn_exit =
  exit_id :: int
  exit_outbound :: int
  slot :: int
  exit_name :: string
  exit_country :: string
  exit_host :: string
  exit_ip :: string
  remote_protocol :: string
  remote_port :: int
  namespace :: string
  local_address :: string
  local_port :: int
  exit_status :: string
  exit_observed :: string
  exit_error :: string
  failure_policy :: string
  permanent :: bool
  expires_at :: "int option"
  exit_checked :: "int option"
  exit_created :: int
  exit_updated :: int

record client =
  client_id :: int
  client_node :: int
  client_user :: int
  client_name :: string
  client_enabled :: bool
  credential :: obj
  client_created :: int

record session =
  token_hash :: string
  csrf_token :: string
  session_expires :: int

record user =
  user_id :: int
  user_name :: string
  sub_token_hash :: string
  sub_token_enc :: string

section \<open>Protocols and ports\<close>

definition OutboundSOCKS5 :: string where "OutboundSOCKS5 = ''socks5''"
definition OutboundHTTP :: string where "OutboundHTTP = ''http''"

definition SupportedOutbound :: "string \<Rightarrow> bool" where
  "SupportedOutbound t \<longleftrightarrow> t = OutboundSOCKS5 \<or> t = OutboundHTTP"

definition ProtocolVLESSReality :: string where "ProtocolVLESSReality = ''vless_reality''"
definition ProtocolVLESSH2Reality :: string where "ProtocolVLESSH2Reality = ''vless_h2_reality''"
definition ProtocolVLESSGRPCReality :: string where
  "ProtocolVLESSGRPCReality = ''vless_grpc_reality''"
definition ProtocolVLESSWSTLS :: string where "ProtocolVLESSWSTLS = ''vless_ws_tls''"
definition ProtocolVLESSArgo :: string where "ProtocolVLESSArgo = ''vless_argo''"
definition ProtocolTrojanTLS :: string where "ProtocolTrojanTLS = ''trojan_tls''"
definition ProtocolHysteria2 :: string where "ProtocolHysteria2 = ''hysteria2''"
definition ProtocolTUIC :: string where "ProtocolTUIC = ''tuic''"
definition ProtocolAnyTLS :: string where "ProtocolAnyTLS = ''anytls''"
definition ProtocolAnyTLSReality :: string where "ProtocolAnyTLSReality = ''anytls_reality''"
definition ProtocolSOCKS5 :: string where "ProtocolSOCKS5 = ''socks5''"

lemmas protocol_defs =
  ProtocolVLESSReality_def ProtocolVLESSH2Reality_def ProtocolVLESSGRPCReality_def
  ProtocolVLESSWSTLS_def ProtocolVLESSArgo_def ProtocolTrojanTLS_def ProtocolHysteria2_def
  ProtocolTUIC_def ProtocolAnyTLS_def ProtocolAnyTLSReality_def ProtocolSOCKS5_def

definition SupportedProtocol :: "string \<Rightarrow> bool" where
  "SupportedProtocol p \<longleftrightarrow> p \<in> set [ProtocolVLESSReality, ProtocolVLESSGRPCReality,
     ProtocolVLESSWSTLS, ProtocolVLESSArgo, ProtocolTrojanTLS, ProtocolHysteria2,
     ProtocolTUIC, ProtocolAnyTLS, ProtocolAnyTLSReality]"

definition CloudflareHTTPSPort :: "int \<Rightarrow> bool" where
  "CloudflareHTTPSPort p \<longleftrightarrow> p \<in> set [443, 2053, 2083, 2087, 2096, 8443]"

definition CloudflareHTTPSPorts :: "int list" where
  "CloudflareHTTPSPorts = [8443, 2053, 2083, 2087, 2096, 443]"

text \<open>The list that is offered holds exactly the ports the predicate accepts.\<close>

lemma CloudflareHTTPSPorts_exact: "p \<in> set CloudflareHTTPSPorts \<longleftrightarrow> CloudflareHTTPSPort p"
  by (auto simp: CloudflareHTTPSPort_def CloudflareHTTPSPorts_def)

section \<open>The panel's error values\<close>

text \<open>\<open>problem.New\<close> builds the error, \<open>problem.As\<close> finds the first one in a chain of causes.\<close>

definition problem_New :: "kind \<Rightarrow> string \<Rightarrow> error option \<Rightarrow> error" where
  "problem_New k code cause = Problem k code cause"

fun problem_As :: "error \<Rightarrow> (kind \<times> string) option"
  and problem_As_list :: "error list \<Rightarrow> (kind \<times> string) option" where
  "problem_As (Problem k code cause) = Some (k, code)"
| "problem_As (Wrap m e) = problem_As e"
| "problem_As (Join es) = problem_As_list es"
| "problem_As (Err m) = None"
| "problem_As_list [] = None"
| "problem_As_list (e # es) = (case problem_As e of None \<Rightarrow> problem_As_list es | Some p \<Rightarrow> Some p)"

lemma problem_As_New [simp]: "problem_As (problem_New k code cause) = Some (k, code)"
  by (simp add: problem_New_def)

lemma problem_As_list_append:
  "problem_As_list (xs @ ys) =
     (case problem_As_list xs of None \<Rightarrow> problem_As_list ys | Some p \<Rightarrow> Some p)"
  by (induction xs) (auto split: option.splits)

end
