(* ===== verification/VpnSanitize.thy ===== *)
theory VpnSanitize
  imports JModel
begin

text \<open>
  \<open>internal/vpngate/sanitize.go\<close>: a volunteer's OpenVPN configuration is read line by line,
  refused on any directive that is not allowlisted, and written back with a fixed endpoint and
  a fixed set of closing directives. The reader's state is the lines written so far, the
  transport of the last \<open>proto\<close>, the \<open>remote\<close> endpoints seen, and the inline block that is open.
\<close>

section \<open>The sanitizer\<close>

record remote =
  rem_protocol :: string
  rem_ip :: string
  rem_port :: int

definition forbiddenDirectives :: "string list" where
  "forbiddenDirectives =
    [''script-security'', ''up'', ''down'', ''route-up'',
     ''route-pre-down'', ''plugin'', ''management'',
     ''client-connect'', ''client-disconnect'', ''learn-address'',
     ''daemon'', ''log'', ''log-append'', ''writepid'',
     ''chroot'', ''cd'', ''config'', ''setenv'']"

definition allowedDirectives :: "string list" where
  "allowedDirectives =
    [''client'', ''dev'', ''dev-type'', ''proto'',
     ''resolv-retry'', ''nobind'', ''persist-key'', ''persist-tun'',
     ''cipher'', ''data-ciphers'', ''data-ciphers-fallback'',
     ''auth'', ''auth-nocache'', ''remote-cert-tls'',
     ''tls-client'', ''tls-version-min'', ''key-direction'',
     ''verb'', ''mute'', ''ping'', ''ping-restart'',
     ''connect-retry'', ''connect-timeout'']"

definition allowedBlocks :: "string list" where
  "allowedBlocks = [''ca'', ''cert'', ''key'', ''tls-auth'', ''tls-crypt'']"

definition normalizeProto :: "string \<Rightarrow> string" where
  "normalizeProto v =
     (let l = to_lower v
      in if l \<in> set [''udp'', ''udp4''] then ''udp''
         else if l \<in> set [''tcp'', ''tcp4'', ''tcp-client''] then ''tcp-client''
         else [])"

definition prefer_remote :: "remote \<Rightarrow> remote \<Rightarrow> bool" where
  "prefer_remote selected r \<longleftrightarrow> rem_protocol r = ''udp'' \<and>
     (rem_protocol selected \<noteq> ''udp'' \<or> (rem_port r < 2000 \<and> 2000 \<le> rem_port selected))"

definition chooseRemote :: "remote list \<Rightarrow> remote" where
  "chooseRemote rs = foldl (\<lambda>selected r. if prefer_remote selected r then r else selected) (hd rs) rs"

record san =
  written :: "string list"
  proto :: string
  remotes :: "remote list"
  block :: string

definition san_start :: san where
  "san_start = \<lparr>written = [], proto = [], remotes = [], block = []\<rparr>"

text \<open>One directive line, outside every inline block.\<close>

definition san_directive :: "string \<Rightarrow> string list \<Rightarrow> san \<Rightarrow> error + san" where
  "san_directive expectedIP fs s =
     (let directive = to_lower (hd fs)
      in if directive \<in> set forbiddenDirectives then Inl (Err ''directive is forbidden'')
         else if directive = ''remote'' then
           (if length fs < 3 then Inl (Err ''remote directive is incomplete'')
            else case atoi (fs ! 2) of (p, e) \<Rightarrow>
              if e \<noteq> None \<or> p < 1 \<or> p > 65535 then Inl (Err ''remote port is invalid'')
              else let remoteProtocol = (if 4 \<le> length fs then normalizeProto (fs ! 3) else proto s)
                   in Inr (s\<lparr>remotes := remotes s @
                        [\<lparr>rem_protocol = remoteProtocol, rem_ip = expectedIP, rem_port = p\<rparr>]\<rparr>))
         else if directive = ''proto'' then
           (if length fs \<noteq> 2 then Inl (Err ''proto directive is invalid'')
            else if normalizeProto (fs ! 1) = []
            then Inl (Err ''only UDP or TCP transports are allowed'')
            else Inr (s\<lparr>proto := normalizeProto (fs ! 1)\<rparr>))
         else if directive \<notin> set allowedDirectives then Inl (Err ''directive is not allowlisted'')
         else if directive = ''dev'' \<and> (length fs \<noteq> 2 \<or> fs ! 1 \<noteq> ''tun'')
         then Inl (Err ''configuration must use dev tun'')
         else Inr (s\<lparr>written := written s @ [join '' '' fs]\<rparr>))"

text \<open>One scanned line.\<close>

definition san_line :: "string \<Rightarrow> string \<Rightarrow> san \<Rightarrow> error + san" where
  "san_line expectedIP text s =
     (let line = trim_space text
      in if line = [] \<or> has_prefix line ''#'' \<or> has_prefix line '';'' then Inr s
         else if block s \<noteq> [] then
           (let s' = s\<lparr>written := written s @ [line]\<rparr>
            in Inr (if equal_fold line (''</'' @ block s @ ''>'') then s'\<lparr>block := []\<rparr> else s'))
         else if has_prefix line ''<'' \<and> has_suffix line ''>'' then
           (let name = trim_suffix (trim_prefix (to_lower line) ''<'') ''>''
            in if has_prefix name ''/'' \<or> name \<notin> set allowedBlocks
               then Inl (Err ''block is not allowed'')
               else Inr (s\<lparr>block := name, written := written s @ [''<'' @ name @ ''>'']\<rparr>))
         else
           (let fs = str_fields line in if fs = [] then Inr s else san_directive expectedIP fs s))"

fun san_lines :: "string \<Rightarrow> string list \<Rightarrow> san \<Rightarrow> error + san" where
  "san_lines ip [] s = Inr s"
| "san_lines ip (l # ls) s =
     (case san_line ip l s of Inl e \<Rightarrow> Inl e | Inr s' \<Rightarrow> san_lines ip ls s')"

definition default_protocol :: "string \<Rightarrow> remote \<Rightarrow> remote" where
  "default_protocol p r =
     (let r1 = (if rem_protocol r = [] then r\<lparr>rem_protocol := p\<rparr> else r)
      in if rem_protocol r1 = [] then r1\<lparr>rem_protocol := ''udp''\<rparr> else r1)"

definition trailer :: "remote \<Rightarrow> string list" where
  "trailer r =
    [''proto '' @ rem_protocol r,
     ''remote '' @ rem_ip r @ '' '' @ itoa (rem_port r),
     ''route-nopull'',
     ''redirect-gateway def1'',
     ''pull-filter ignore '' @ [DQ] @ ''dhcp-option'' @ [DQ],
     ''pull-filter ignore '' @ [DQ] @ ''route'' @ [DQ],
     ''auth-nocache'',
     ''verb 3'']"

definition scanner_limit :: nat where "scanner_limit = 2 * 2 ^ 20"

definition SanitizeOpenVPN :: "string \<Rightarrow> string \<Rightarrow> error + (string \<times> remote)" where
  "SanitizeOpenVPN raw expectedIP =
     (if \<not> is_ipv4 expectedIP then Inl (Err ''expected endpoint must be an IPv4 address'')
      else case scan_lines scanner_limit raw of (ls, failed) \<Rightarrow>
        (case san_lines expectedIP ls san_start of
           Inl e \<Rightarrow> Inl e
         | Inr s \<Rightarrow>
             if failed then Inl (Err ''bufio.Scanner: token too long'')
             else if block s \<noteq> [] then Inl (Err ''block is not closed'')
             else if remotes s = [] then Inl (Err ''configuration has no remote endpoint'')
             else let selected = chooseRemote (map (default_protocol (proto s)) (remotes s))
                  in Inr (join [NL] (written s @ trailer selected) @ [NL], selected)))"

section \<open>Choosing the endpoint\<close>

lemma choose_fold_mem:
  "foldl (\<lambda>sel r. if prefer_remote sel r then r else sel) a rs \<in> insert a (set rs)"
  by (induction rs arbitrary: a) (auto split: if_splits)

lemma chooseRemote_mem: "rs \<noteq> [] \<Longrightarrow> chooseRemote rs \<in> set rs"
  using choose_fold_mem [of "hd rs" rs] by (auto simp: chooseRemote_def)

text \<open>How good an endpoint is: UDP below port 2000, then UDP, then the rest.\<close>

definition remote_rank :: "remote \<Rightarrow> nat" where
  "remote_rank r = (if rem_protocol r = ''udp'' then (if rem_port r < 2000 then 2 else 1) else 0)"

lemma prefer_remote_rank: "prefer_remote a b \<longleftrightarrow> remote_rank a < remote_rank b"
  by (auto simp: prefer_remote_def remote_rank_def)

lemma choose_fold_rank:
  "r \<in> insert a (set rs) \<Longrightarrow>
     remote_rank r \<le> remote_rank (foldl (\<lambda>sel r. if prefer_remote sel r then r else sel) a rs)"
proof (induction rs arbitrary: a r)
  case Nil
  then show ?case by simp
next
  case (Cons x rs)
  let ?a = "if prefer_remote a x then x else a"
  have "remote_rank a \<le> remote_rank ?a" "remote_rank x \<le> remote_rank ?a"
    by (auto simp: prefer_remote_rank)
  then show ?case
    using Cons.IH [of ?a ?a] Cons.IH [of r ?a] Cons.prems by auto
qed

lemma chooseRemote_best: "r \<in> set rs \<Longrightarrow> remote_rank r \<le> remote_rank (chooseRemote rs)"
  using choose_fold_rank [of r "hd rs" rs] by (simp add: chooseRemote_def)

section \<open>The reader's invariant\<close>

lemma normalizeProto_range: "normalizeProto v \<in> {[], ''udp'', ''tcp-client''}"
  by (simp add: normalizeProto_def Let_def)

text \<open>
  A text is safe from an open block on when each line outside the blocks is an allowlisted
  directive (\<open>dev\<close> being \<open>dev tun\<close>, \<open>proto\<close> and \<open>remote\<close> left out) or opens an allowed block.
  \<open>safe_from\<close> reads the lines and returns the block that is open at the end.
\<close>

definition safe_directive :: "string \<Rightarrow> bool" where
  "safe_directive line \<longleftrightarrow> str_fields line \<noteq> [] \<and>
     (let d = to_lower (hd (str_fields line)) in
      d \<in> set allowedDirectives \<and> d \<notin> set forbiddenDirectives \<and> d \<noteq> ''proto'' \<and> d \<noteq> ''remote'' \<and>
      (d = ''dev'' \<longrightarrow> tl (str_fields line) = [''tun'']))"

fun safe_from :: "string \<Rightarrow> string list \<Rightarrow> string option" where
  "safe_from b [] = Some b"
| "safe_from b (l # ls) =
     (if b \<noteq> [] then safe_from (if equal_fold l (''</'' @ b @ ''>'') then [] else b) ls
      else if safe_directive l then safe_from [] ls
      else if \<exists>n\<in>set allowedBlocks. l = ''<'' @ n @ ''>'' then safe_from (tl (butlast l)) ls
      else None)"

lemma safe_from_append:
  "safe_from b (xs @ ys) = (case safe_from b xs of None \<Rightarrow> None | Some b' \<Rightarrow> safe_from b' ys)"
  by (induction b xs rule: safe_from.induct) auto

lemma split_by_join:
  assumes "ws \<noteq> []" and "\<forall>w\<in>set ws. \<forall>c\<in>set w. \<not> is_space c"
  shows "split_by is_space (join '' '' ws) = ws"
  using assms
proof (induction ws)
  case Nil
  then show ?case by simp
next
  case (Cons w ws)
  have sp: "is_space (CHR '' '')" by (simp add: is_space_def)
  show ?case
  proof (cases "ws = []")
    case True
    with Cons.prems show ?thesis by (simp add: split_by_all)
  next
    case False
    with Cons show ?thesis by (simp add: join_Cons split_by_append sp)
  qed
qed

text \<open>The fields of a line that was joined from fields are those fields.\<close>

lemma str_fields_join_fields: "str_fields s \<noteq> [] \<Longrightarrow> str_fields (join '' '' (str_fields s)) = str_fields s"
proof -
  assume ne: "str_fields s \<noteq> []"
  have "split_by is_space (join '' '' (str_fields s)) = str_fields s"
    using split_by_join [OF ne] str_fields_no_space by blast
  then have "str_fields (join '' '' (str_fields s)) = filter (\<lambda>w. w \<noteq> []) (str_fields s)"
    by (simp only: str_fields_def [of "join '' '' (str_fields s)"])
  also have "\<dots> = str_fields s" using str_fields_nonempty by (intro filter_True) blast
  finally show ?thesis .
qed

lemma safe_directive_joined:
  assumes "str_fields s \<noteq> []" and "to_lower (hd (str_fields s)) \<in> set allowedDirectives"
    and "to_lower (hd (str_fields s)) \<notin> set forbiddenDirectives"
    and "to_lower (hd (str_fields s)) \<noteq> ''proto''" and "to_lower (hd (str_fields s)) \<noteq> ''remote''"
    and "to_lower (hd (str_fields s)) = ''dev'' \<Longrightarrow> length (str_fields s) = 2 \<and> str_fields s ! 1 = ''tun''"
  shows "safe_directive (join '' '' (str_fields s))"
proof -
  have "tl (str_fields s) = [''tun'']" if "to_lower (hd (str_fields s)) = ''dev''"
    using assms(6) [OF that]
    by (metis One_nat_def length_0_conv length_Suc_conv list.sel(3) nth_Cons_0 nth_Cons_Suc numeral_2_eq_2)
  then show ?thesis
    unfolding safe_directive_def Let_def str_fields_join_fields [OF assms(1)]
    using assms(1-5) by blast
qed

definition block_known :: "san \<Rightarrow> bool" where
  "block_known s \<longleftrightarrow> block s = [] \<or> block s \<in> set allowedBlocks"

definition remotes_ok :: "string \<Rightarrow> san \<Rightarrow> bool" where
  "remotes_ok ip s \<longleftrightarrow> proto s \<in> {[], ''udp'', ''tcp-client''} \<and>
     (\<forall>r\<in>set (remotes s). rem_ip r = ip \<and> 1 \<le> rem_port r \<and> rem_port r \<le> 65535 \<and>
        rem_protocol r \<in> {[], ''udp'', ''tcp-client''})"

definition san_ok :: "string \<Rightarrow> san \<Rightarrow> bool" where
  "san_ok ip s \<longleftrightarrow> safe_from [] (written s) = Some (block s) \<and> block_known s \<and> remotes_ok ip s \<and>
     (\<forall>l\<in>set (written s). NL \<notin> set l)"

lemma set_trim_space: "set (trim_space s) \<subseteq> set s"
proof
  fix c assume "c \<in> set (trim_space s)"
  then have "c \<in> set (dropWhile is_space s)"
    unfolding trim_space_def trim_both_def trim_right_def trim_left_def
    by (metis set_dropWhileD set_rev)
  then show "c \<in> set s" by (rule set_dropWhileD)
qed

lemma NL_space: "is_space NL"
  by (simp add: NL_def is_space_def)

lemma NL_not_joined: "NL \<notin> set (join '' '' (str_fields s))"
proof -
  have "c \<in> set (join '' '' ws) \<Longrightarrow> c = CHR '' '' \<or> (\<exists>w\<in>set ws. c \<in> set w)" for c ws
    by (induction "'' ''" ws rule: join.induct) auto
  moreover have "NL \<noteq> CHR '' ''" by (simp add: NL_def)
  ultimately show ?thesis using str_fields_no_space NL_space by blast
qed

lemma no_safe_tags: "list_all (\<lambda>n. \<not> safe_directive (''<'' @ n @ ''>'')) allowedBlocks"
  by code_simp

lemma not_safe_directive_tag: "n \<in> set allowedBlocks \<Longrightarrow> \<not> safe_directive (''<'' @ n @ ''>'')"
  using no_safe_tags by (simp add: list_all_iff)

lemma allowedBlocks_plain: "n \<in> set allowedBlocks \<Longrightarrow> NL \<notin> set n \<and> n \<noteq> []"
  by (auto simp: allowedBlocks_def NL_def)

lemma san_ok_start: "san_ok ip san_start"
  by (simp add: san_ok_def san_start_def block_known_def remotes_ok_def)

lemma san_directive_ok:
  assumes ok: "san_ok ip s" and b: "block s = []" and ne: "str_fields line \<noteq> []"
    and r: "san_directive ip (str_fields line) s = Inr s'"
  shows "san_ok ip s'"
proof -
  let ?fs = "str_fields line" and ?d = "to_lower (hd (str_fields line))"
  have nf: "?d \<notin> set forbiddenDirectives" using r by (auto simp: san_directive_def Let_def)
  consider (remote) "?d = ''remote''" | (proto) "?d = ''proto''" | (other) "?d \<noteq> ''remote''" "?d \<noteq> ''proto''"
    by blast
  then show ?thesis
  proof cases
    case remote
    then obtain q p where "s' = s\<lparr>remotes := remotes s @ [\<lparr>rem_protocol = q, rem_ip = ip, rem_port = p\<rparr>]\<rparr>"
      and "1 \<le> p" "p \<le> 65535" and "q = proto s \<or> (\<exists>v. q = normalizeProto v)"
      using r nf by (fastforce simp: san_directive_def Let_def split: if_splits prod.splits)
    then show ?thesis using ok normalizeProto_range
      by (auto simp: san_ok_def remotes_ok_def block_known_def)
  next
    case proto
    then have "s' = s\<lparr>proto := normalizeProto (?fs ! 1)\<rparr>"
      using r nf by (auto simp: san_directive_def Let_def split: if_splits)
    then show ?thesis using ok normalizeProto_range [of "?fs ! 1"]
      by (simp add: san_ok_def remotes_ok_def block_known_def)
  next
    case other
    have al: "?d \<in> set allowedDirectives" and dv: "?d = ''dev'' \<Longrightarrow> length ?fs = 2 \<and> ?fs ! 1 = ''tun''"
      and s': "s' = s\<lparr>written := written s @ [join '' '' ?fs]\<rparr>"
      using r other nf by (auto simp: san_directive_def Let_def split: if_splits)
    have "safe_directive (join '' '' ?fs)"
      by (rule safe_directive_joined) (use ne al nf other dv in auto)
    then show ?thesis
      using ok b NL_not_joined [of line]
      by (auto simp: s' san_ok_def safe_from_append block_known_def remotes_ok_def)
  qed
qed

lemma san_line_ok:
  assumes ok: "san_ok ip s" and r: "san_line ip text s = Inr s'" and nl: "NL \<notin> set text"
  shows "san_ok ip s'"
proof -
  let ?l = "trim_space text"
  have nl': "NL \<notin> set ?l" using nl set_trim_space by blast
  consider (skip) "?l = [] \<or> has_prefix ?l ''#'' \<or> has_prefix ?l '';''"
    | (inside) "\<not> (?l = [] \<or> has_prefix ?l ''#'' \<or> has_prefix ?l '';'')" "block s \<noteq> []"
    | (opens) "\<not> (?l = [] \<or> has_prefix ?l ''#'' \<or> has_prefix ?l '';'')" "block s = []"
        "has_prefix ?l ''<'' \<and> has_suffix ?l ''>''"
    | (directive) "\<not> (?l = [] \<or> has_prefix ?l ''#'' \<or> has_prefix ?l '';'')" "block s = []"
        "\<not> (has_prefix ?l ''<'' \<and> has_suffix ?l ''>'')"
    by blast
  then show ?thesis
  proof cases
    case skip
    then show ?thesis using r ok by (auto simp: san_line_def Let_def)
  next
    case inside
    let ?s = "s\<lparr>written := written s @ [?l]\<rparr>"
    have "s' = (if equal_fold ?l (''</'' @ block s @ ''>'') then ?s\<lparr>block := []\<rparr> else ?s)"
      using r inside by (simp add: san_line_def Let_def)
    then show ?thesis using ok nl' inside(2)
      by (cases "equal_fold ?l (''</'' @ block s @ ''>'')")
         (simp_all add: san_ok_def safe_from_append block_known_def remotes_ok_def)
  next
    case opens
    let ?n = "trim_suffix (trim_prefix (to_lower ?l) ''<'') ''>''"
    have n: "?n \<in> set allowedBlocks"
      and s': "s' = s\<lparr>block := ?n, written := written s @ [''<'' @ ?n @ ''>'']\<rparr>"
      using r opens by (auto simp: san_line_def Let_def split: if_splits)
    have "safe_from [] [''<'' @ ?n @ ''>''] = Some ?n"
      using n not_safe_directive_tag [OF n] by (auto simp: butlast_append)
    then show ?thesis
      using ok opens(2) n allowedBlocks_plain [OF n]
      by (auto simp: s' san_ok_def safe_from_append block_known_def remotes_ok_def NL_def)
  next
    case directive
    then show ?thesis
      using r ok by (auto simp: san_line_def Let_def split: if_splits intro: san_directive_ok)
  qed
qed

lemma san_lines_ok:
  "san_ok ip s \<Longrightarrow> san_lines ip ls s = Inr s' \<Longrightarrow> \<forall>l\<in>set ls. NL \<notin> set l \<Longrightarrow> san_ok ip s'"
  by (induction ip ls s rule: san_lines.induct) (auto split: sum.splits intro: san_line_ok)

lemma scan_lines_no_NL: "scan_lines k s = (ls, b) \<Longrightarrow> l \<in> set ls \<Longrightarrow> NL \<notin> set l"
proof -
  assume a: "scan_lines k s = (ls, b)" and l: "l \<in> set ls"
  then obtain w where w: "w \<in> set (raw_lines s)" "l = drop_cr w"
    by (auto simp: scan_lines_def Let_def dest!: set_takeWhileD)
  then have "w \<in> set (split_char NL s)"
    by (auto simp: raw_lines_def Let_def split: if_splits dest: in_set_butlastD)
  then have "NL \<notin> set w" using split_by_pieces by (fastforce simp: split_char_def)
  then show ?thesis using w(2) by (auto simp: drop_cr_def dest: in_set_butlastD split: if_splits)
qed

section \<open>What an accepted configuration is\<close>

lemma itoa_NL: "NL \<notin> set (itoa n)"
  using itoa_no_space NL_space by blast

lemma trailer_plain:
  assumes "rem_protocol r \<in> {''udp'', ''tcp-client''}" and "NL \<notin> set (rem_ip r)"
  shows "\<forall>l\<in>set (trailer r). NL \<notin> set l"
  using assms itoa_NL [of "rem_port r"] by (auto simp: trailer_def NL_def DQ_def)

lemma raw_lines_join:
  assumes "ls \<noteq> []" and "\<forall>l\<in>set ls. NL \<notin> set l"
  shows "raw_lines (join [NL] ls @ [NL]) = ls"
proof -
  have eq: "join [NL] ls @ [NL] = join [NL] (ls @ [[]])"
    using assms(1)
  proof (induction ls)
    case (Cons l ls)
    then show ?case by (cases "ls = []") (simp_all add: join_Cons)
  qed simp
  have "split_char NL (join [NL] (ls @ [[]])) = ls @ [[]]"
    by (rule split_join) (use assms in auto)
  then show ?thesis by (simp add: raw_lines_def eq)
qed

text \<open>The accepted runs: the final reader state and what it implies.\<close>

lemma SanitizeOpenVPN_accepted:
  assumes "SanitizeOpenVPN raw ip = Inr (text, sel)"
  obtains s where "san_ok ip s" and "block s = []" and "remotes s \<noteq> []" and "is_ipv4 ip"
    and "san_lines ip (fst (scan_lines scanner_limit raw)) san_start = Inr s"
    and "sel = chooseRemote (map (default_protocol (proto s)) (remotes s))"
    and "text = join [NL] (written s @ trailer sel) @ [NL]"
proof -
  obtain ls b where ls: "scan_lines scanner_limit raw = (ls, b)" by fastforce
  obtain s where s: "san_lines ip ls san_start = Inr s" and rest: "block s = []" "remotes s \<noteq> []"
    "is_ipv4 ip" "sel = chooseRemote (map (default_protocol (proto s)) (remotes s))"
    "text = join [NL] (written s @ trailer sel) @ [NL]"
    using assms ls by (auto simp: SanitizeOpenVPN_def Let_def split: if_splits sum.splits)
  have "san_ok ip s"
    using san_lines_ok [OF san_ok_start s] scan_lines_no_NL [OF ls] by blast
  with s rest ls that show ?thesis by simp
qed

lemma default_protocol_ok:
  assumes "remotes_ok ip s" and "r \<in> set (remotes s)"
  defines "r' \<equiv> default_protocol (proto s) r"
  shows "rem_protocol r' \<in> {''udp'', ''tcp-client''} \<and> rem_ip r' = ip \<and>
    1 \<le> rem_port r' \<and> rem_port r' \<le> 65535"
proof -
  have "rem_ip r' = ip \<and> 1 \<le> rem_port r' \<and> rem_port r' \<le> 65535"
    using assms by (simp add: remotes_ok_def default_protocol_def Let_def)
  moreover have "proto s \<in> {[], ''udp'', ''tcp-client''}" "rem_protocol r \<in> {[], ''udp'', ''tcp-client''}"
    using assms by (simp_all add: remotes_ok_def)
  ultimately show ?thesis by (auto simp: r'_def default_protocol_def Let_def)
qed

text \<open>C25: Whatever a volunteer server publishes, an accepted configuration consists of its body and
  the fixed closing directives: outside well-nested inline blocks of an allowed kind every body line
  is an allowlisted directive, none is forbidden, \<open>dev\<close> is \<open>dev tun\<close>, and \<open>proto\<close> and \<open>remote\<close>
  occur only in the closing lines, where the endpoint is the expected address.\<close>

theorem sanitized_is_safe:
  assumes "SanitizeOpenVPN raw ip = Inr (text, sel)"
  shows "\<exists>body. raw_lines text = body @ trailer sel \<and> safe_from [] body = Some [] \<and>
     rem_ip sel = ip \<and> 1 \<le> rem_port sel \<and> rem_port sel \<le> 65535 \<and>
     rem_protocol sel \<in> {''udp'', ''tcp-client''}"
proof -
  from assms obtain s where ok: "san_ok ip s" "block s = []" "remotes s \<noteq> []" "is_ipv4 ip"
    and sel: "sel = chooseRemote (map (default_protocol (proto s)) (remotes s))"
    and out_eq: "text = join [NL] (written s @ trailer sel) @ [NL]"
    by (rule SanitizeOpenVPN_accepted)
  have "sel \<in> set (map (default_protocol (proto s)) (remotes s))"
    unfolding sel by (rule chooseRemote_mem) (simp add: ok)
  then have s: "rem_protocol sel \<in> {''udp'', ''tcp-client''} \<and> rem_ip sel = ip \<and>
    1 \<le> rem_port sel \<and> rem_port sel \<le> 65535"
    using ok(1) default_protocol_ok by (auto simp: san_ok_def)
  have "NL \<notin> set ip" using is_ipv4_chars [OF ok(4)] ip_char_plain by blast
  then have "\<forall>l\<in>set (trailer sel). NL \<notin> set l" using trailer_plain s by blast
  then have "raw_lines text = written s @ trailer sel"
    unfolding out_eq using ok(1) by (intro raw_lines_join) (auto simp: san_ok_def trailer_def)
  then show ?thesis using ok(1,2) s by (auto simp: san_ok_def)
qed

text \<open>Of the endpoints a configuration names, the one chosen has the best rank: a UDP endpoint
  below port 2000 when there is one, else a UDP endpoint when there is one.\<close>

theorem sanitized_endpoint_best:
  assumes "SanitizeOpenVPN raw ip = Inr (text, sel)"
    and "san_lines ip (fst (scan_lines scanner_limit raw)) san_start = Inr s" and "r \<in> set (remotes s)"
  shows "remote_rank (default_protocol (proto s) r) \<le> remote_rank sel"
proof -
  from assms(1) obtain s' where "san_lines ip (fst (scan_lines scanner_limit raw)) san_start = Inr s'"
    and "sel = chooseRemote (map (default_protocol (proto s')) (remotes s'))"
    by (rule SanitizeOpenVPN_accepted)
  with assms show ?thesis by (simp add: chooseRemote_best)
qed

section \<open>A concrete configuration\<close>

definition demo_config :: string where
  "demo_config = join [NL]
    [''client'', ''dev tun'', ''proto tcp'', ''remote vpn.example 443'', ''remote vpn.example 1194 udp'',
     ''<ca>'', ''AAAA'', ''</ca>'']"

definition demo_remote :: remote where
  "demo_remote = \<lparr>rem_protocol = ''udp'', rem_ip = ''1.2.3.4'', rem_port = 1194\<rparr>"

definition demo_text :: string where
  "demo_text = join [NL]
    ([''client'', ''dev tun'', ''<ca>'', ''AAAA'', ''</ca>''] @ trailer demo_remote) @ [NL]"

lemma demo_ip: "is_ipv4 ''1.2.3.4''"
  by code_simp

lemma demo_scan:
  "scan_lines scanner_limit demo_config =
     ([''client'', ''dev tun'', ''proto tcp'', ''remote vpn.example 443'',
       ''remote vpn.example 1194 udp'', ''<ca>'', ''AAAA'', ''</ca>''], False)"
  by code_simp

lemma demo_lines:
  "san_lines ''1.2.3.4'' (fst (scan_lines scanner_limit demo_config)) san_start =
     Inr \<lparr>written = [''client'', ''dev tun'', ''<ca>'', ''AAAA'', ''</ca>''], proto = ''tcp-client'',
        remotes = [\<lparr>rem_protocol = ''tcp-client'', rem_ip = ''1.2.3.4'', rem_port = 443\<rparr>, demo_remote],
        block = []\<rparr>"
  unfolding demo_scan fst_conv by code_simp

lemma demo_accepted: "SanitizeOpenVPN demo_config ''1.2.3.4'' = Inr (demo_text, demo_remote)"
  using demo_lines
  by (simp add: SanitizeOpenVPN_def demo_ip demo_scan demo_text_def chooseRemote_def
      default_protocol_def prefer_remote_def demo_remote_def Let_def)

theorem sanitized_is_safe_witness:
  "\<exists>body. raw_lines demo_text = body @ trailer demo_remote \<and> safe_from [] body = Some []"
  using sanitized_is_safe [OF demo_accepted] by blast

theorem sanitized_endpoint_best_witness:
  "remote_rank \<lparr>rem_protocol = ''tcp-client'', rem_ip = ''1.2.3.4'', rem_port = 443\<rparr>
     \<le> remote_rank demo_remote"
  using sanitized_endpoint_best [OF demo_accepted demo_lines,
      of "\<lparr>rem_protocol = ''tcp-client'', rem_ip = ''1.2.3.4'', rem_port = 443\<rparr>"]
  by (simp add: default_protocol_def Let_def)

text \<open>
  The end of an inline block is recognised only when a whole line equals the closing tag. A line
  that merely starts with it leaves the block open, and the lines after it are copied without any
  directive check.
\<close>

definition smuggling_config :: string where
  "smuggling_config = join [NL]
    [''client'', ''dev tun'', ''remote vpn.example 1194 udp'',
     ''<ca>'', ''AAAA'', ''</ca>x'', ''plugin /tmp/p.so'', ''</ca>'']"

lemma smuggling_scan:
  "scan_lines scanner_limit smuggling_config =
     ([''client'', ''dev tun'', ''remote vpn.example 1194 udp'',
     ''<ca>'', ''AAAA'', ''</ca>x'', ''plugin /tmp/p.so'', ''</ca>''], False)"
  by code_simp

lemma smuggling_lines:
  "san_lines ''1.2.3.4'' (fst (scan_lines scanner_limit smuggling_config)) san_start =
     Inr \<lparr>written = [''client'', ''dev tun'', ''<ca>'', ''AAAA'', ''</ca>x'', ''plugin /tmp/p.so'', ''</ca>''],
        proto = [], remotes = [demo_remote], block = []\<rparr>"
  unfolding smuggling_scan fst_conv by code_simp

text \<open>A line that only begins with the closing tag does not end an inline block: a configuration
  with the forbidden directive \<open>plugin\<close> after the line \<open></ca>x\<close> is accepted, and both lines are
  copied to the output.\<close>

theorem block_end_needs_whole_line:
  "SanitizeOpenVPN smuggling_config ''1.2.3.4'' =
     Inr (join [NL] ([''client'', ''dev tun'', ''<ca>'', ''AAAA'', ''</ca>x'', ''plugin /tmp/p.so'', ''</ca>'']
            @ trailer demo_remote) @ [NL], demo_remote)"
  using smuggling_lines
  by (simp add: SanitizeOpenVPN_def demo_ip smuggling_scan chooseRemote_def
      default_protocol_def prefer_remote_def demo_remote_def Let_def)

end
