(* ===== verification/VpnCatalog.thy ===== *)
theory VpnCatalog
  imports JModel
begin

text \<open>
  \<open>internal/vpngate/catalog.go\<close> and the address test of \<open>inspect.go\<close>: the redirect policy of the
  catalog client, the mirror directory, the CSV catalog, and the ranking and filtering of the
  candidates. What the XML tokenizer, the CSV reader, \<open>url.Parse\<close>, the HTTP client and the probes
  deliver is the input of these definitions, as lists in the order in which it arrives: where the
  code reads results of concurrent workers from a channel, any order may arrive.
\<close>

section \<open>Public addresses\<close>

definition isPublicIP :: "string \<Rightarrow> bool" where
  "isPublicIP v = (case parse_ip (trim_space v) of
      None \<Rightarrow> False
    | Some a \<Rightarrow> \<not> (ip_unspecified a \<or> ip_loopback a \<or> ip_private a \<or>
        ip_link_local_unicast a \<or> ip_link_local_multicast a \<or> ip_multicast a))"

section \<open>URLs\<close>

record url =
  scheme :: string
  has_user :: bool
  host_name_part :: string
  port_part :: string
  path :: string
  raw_query :: string
  force_query :: bool
  fragment :: string

definition url_host :: "url \<Rightarrow> string" where
  "url_host u = (if port_part u = [] then host_name_part u
                 else host_name_part u @ '':'' @ port_part u)"

text \<open>\<open>URL.String\<close> of a URL with a host and a plain path.\<close>

definition url_string :: "url \<Rightarrow> string" where
  "url_string u = scheme u @ ''://'' @ url_host u @ path u
     @ (if force_query u \<or> raw_query u \<noteq> [] then ''?'' @ raw_query u else [])
     @ (if fragment u \<noteq> [] then ''#'' @ fragment u else [])"

text \<open>The redirect policy: \<open>via\<close> is the chain of requests so far, oldest first.\<close>

definition catalogRedirect :: "url \<Rightarrow> url list \<Rightarrow> error option" where
  "catalogRedirect request via =
     (if 5 \<le> length via then Some (Err ''too many VPNGate redirects'')
      else let origin = hd via
        in if has_user request \<or> (scheme request \<noteq> ''http'' \<and> scheme request \<noteq> ''https'')
           then Some (Err ''unsafe VPNGate redirect'')
           else if url_host request \<noteq> url_host origin \<or>
                   (scheme origin = ''https'' \<and> scheme request \<noteq> ''https'')
           then Some (Err ''cross-host or downgrade VPNGate redirect rejected'')
           else None)"

section \<open>The mirror directory\<close>

text \<open>The tokens of the directory page: start elements with their attributes, anything else, a
  tokenizer error. The end of the list is the end of the input.\<close>

datatype xml_token = StartElement string "(string \<times> string) list" | OtherToken | TokenError

definition usable_mirror :: "url \<Rightarrow> bool" where
  "usable_mirror u \<longleftrightarrow>
     (scheme u = ''http'' \<or> scheme u = ''https'') \<and> \<not> has_user u \<and> path u = ''/en/'' \<and>
     raw_query u = [] \<and> fragment u = [] \<and>
     is_ipv4 (host_name_part u) \<and> isPublicIP (host_name_part u) \<and>
     (port_part u \<noteq> [] \<longrightarrow>
        (case atoi (port_part u) of (n, e) \<Rightarrow> e = None \<and> 1 \<le> n \<and> n \<le> 65535))"

definition mirror_attr :: "(string \<Rightarrow> url option) \<Rightarrow> string \<times> string \<Rightarrow> string list \<Rightarrow> string list" where
  "mirror_attr parse_url a mirrors =
     (if \<not> equal_fold (fst a) ''href'' then mirrors
      else case parse_url (snd a) of
        None \<Rightarrow> mirrors
      | Some u \<Rightarrow>
          if \<not> usable_mirror u then mirrors
          else let address = url_string (u\<lparr>path := ''/api/iphone/''\<rparr>)
               in if address \<in> set mirrors then mirrors else mirrors @ [address])"

fun mirror_loop :: "(string \<Rightarrow> url option) \<Rightarrow> xml_token list \<Rightarrow> string list \<Rightarrow> error + string list" where
  "mirror_loop parse_url [] mirrors = Inr mirrors"
| "mirror_loop parse_url (TokenError # ts) mirrors = Inl (Err ''parse mirror directory'')"
| "mirror_loop parse_url (OtherToken # ts) mirrors = mirror_loop parse_url ts mirrors"
| "mirror_loop parse_url (StartElement name attrs # ts) mirrors =
     (if \<not> equal_fold name ''a'' then mirror_loop parse_url ts mirrors
      else let mirrors' = fold (mirror_attr parse_url) attrs mirrors
           in if 32 \<le> length mirrors' then Inr mirrors' else mirror_loop parse_url ts mirrors')"

definition parseMirrorList :: "(string \<Rightarrow> url option) \<Rightarrow> xml_token list \<Rightarrow> error + string list" where
  "parseMirrorList parse_url ts = (case mirror_loop parse_url ts [] of
      Inl e \<Rightarrow> Inl e
    | Inr mirrors \<Rightarrow>
        if mirrors = [] then Inl (Err ''official directory contains no usable mirrors'')
        else Inr mirrors)"

section \<open>Ranking\<close>

definition max_int :: int where "max_int = 2 ^ 63 - 1"

definition better :: "candidate \<Rightarrow> candidate \<Rightarrow> bool" where
  "better left right =
     (if score left \<noteq> score right then score left > score right
      else if speed left \<noteq> speed right then speed left > speed right
      else
        let leftPing = (if ping left \<le> 0 then max_int else ping left);
            rightPing = (if ping right \<le> 0 then max_int else ping right)
        in if leftPing \<noteq> rightPing then leftPing < rightPing
           else num_sessions left < num_sessions right)"

definition sortCandidates :: "candidate list \<Rightarrow> candidate list" where
  "sortCandidates = swap_sort better"

definition FilterAndRank :: "candidate list \<Rightarrow> string \<Rightarrow> string list \<Rightarrow> candidate list" where
  "FilterAndRank cands filter_country excluded =
     (let country = to_upper (trim_space filter_country)
      in sortCandidates
           (filter (\<lambda>c. \<not> (country \<noteq> [] \<and> country_short c \<noteq> country) \<and> host_name c \<notin> set excluded)
             cands))"

text \<open>The ranking as one key, larger first.\<close>

definition rank_key :: "candidate \<Rightarrow> int \<times> int \<times> int \<times> int" where
  "rank_key c = (- score c, - speed c, if ping c \<le> 0 then max_int else ping c, num_sessions c)"

fun lex4 :: "int \<times> int \<times> int \<times> int \<Rightarrow> int \<times> int \<times> int \<times> int \<Rightarrow> bool" where
  "lex4 (a, b, c, d) (a', b', c', d') \<longleftrightarrow>
     a < a' \<or> (a = a' \<and> (b < b' \<or> (b = b' \<and> (c < c' \<or> (c = c' \<and> d < d')))))"

lemma better_lex4: "better a b \<longleftrightarrow> lex4 (rank_key a) (rank_key b)"
  by (auto simp: better_def rank_key_def Let_def)

lemma lex4_asym: "lex4 x y \<Longrightarrow> \<not> lex4 y x"
  by (cases x; cases y) auto

lemma lex4_negtrans: "\<not> lex4 x y \<Longrightarrow> \<not> lex4 y z \<Longrightarrow> \<not> lex4 x z"
  by (cases x; cases y; cases z) (auto simp: not_less)

interpretation ranking: strict_weak_order better
  by unfold_locales (auto simp: better_lex4 dest: lex4_asym lex4_negtrans)

section \<open>The CSV catalog\<close>

text \<open>\<open>strings.TrimPrefix\<close> of the byte order mark, in UTF-8.\<close>

definition BOM :: string where "BOM = [CHR 0xEF, CHR 0xBB, CHR 0xBF]"

definition parseInt64 :: "string \<Rightarrow> int" where
  "parseInt64 v = fst (parse_int (trim_space v))"

definition max_config :: nat where "max_config = 2 * 2 ^ 20"

definition csv_candidate :: "int \<Rightarrow> string list \<Rightarrow> candidate option" where
  "csv_candidate fetchedAt rec =
     (let r0 = trim_prefix (hd rec) BOM in
      if has_prefix r0 ''#'' \<or> r0 = ''*'' then None
      else if length rec < 15 then None
      else
        let ip = trim_space (rec ! 1); country = to_upper (trim_space (rec ! 6)) in
        if \<not> is_ipv4 ip \<or> length country \<noteq> 2 then None
        else case std_decode (trim_space (rec ! 14)) of
          None \<Rightarrow> None
        | Some cfg \<Rightarrow>
            if length cfg = 0 \<or> max_config < length cfg then None
            else let host = trim_space r0
                 in if host = [] then None
                    else Some \<lparr>host_name = host, cand_ip = ip, score = parseInt64 (rec ! 2),
                      ping = parseInt64 (rec ! 3), speed = parseInt64 (rec ! 4),
                      country_long = trim_space (rec ! 5), country_short = country,
                      num_sessions = parseInt64 (rec ! 7), uptime = parseInt64 (rec ! 8),
                      openvpn_config = cfg, fetched_at = fetchedAt\<rparr>)"

text \<open>The reader delivers records until its end, or an error (\<open>None\<close>).\<close>

fun csv_loop :: "int \<Rightarrow> string list option list \<Rightarrow> candidate list \<Rightarrow> error + candidate list" where
  "csv_loop t [] cs = Inr cs"
| "csv_loop t (None # rs) cs = Inl (Err ''parse VPNGate CSV'')"
| "csv_loop t (Some rec # rs) cs =
     (if rec = [] then csv_loop t rs cs
      else case csv_candidate t rec of
        None \<Rightarrow> csv_loop t rs cs
      | Some c \<Rightarrow>
          if 1024 < length (cs @ [c]) then Inl (Err ''VPNGate catalog exceeds candidate limit'')
          else csv_loop t rs (cs @ [c]))"

definition ParseCSV :: "int \<Rightarrow> string list option list \<Rightarrow> error + candidate list" where
  "ParseCSV t rs = (case csv_loop t rs [] of
      Inl e \<Rightarrow> Inl e
    | Inr cs \<Rightarrow>
        if cs = [] then Inl (Err ''VPNGate catalog contains no usable OpenVPN candidates'') else Inr cs)"

text \<open>\<open>fetchURL\<close>: what the client answered, then the body through the reader.\<close>

record response =
  status_code :: int
  content_type :: string
  rows :: "string list option list"

definition fetchURL :: "(string \<Rightarrow> error + response) \<Rightarrow> int \<Rightarrow> string \<Rightarrow> error + candidate list" where
  "fetchURL http now u = (case http u of
      Inl e \<Rightarrow> Inl (Wrap ''fetch VPNGate catalog'' e)
    | Inr r \<Rightarrow>
        if status_code r \<noteq> 200 then Inl (Err ''fetch VPNGate catalog: HTTP status'')
        else if has_prefix (to_lower (content_type r)) ''text/html''
        then Inl (Err ''VPNGate returned HTML instead of CSV'')
        else ParseCSV now (rows r))"

section \<open>Probing and fetching\<close>

text \<open>
  \<open>filterReachable\<close>: \<open>probe\<close> is the configured check (or none), \<open>arrival\<close> the candidates in the
  order in which the workers' results arrive, \<open>parent\<close> the error of the caller's context.
\<close>

definition filterReachable ::
    "(candidate \<Rightarrow> error option) option \<Rightarrow> error option \<Rightarrow> candidate list \<Rightarrow> candidate list
      \<Rightarrow> error + candidate list" where
  "filterReachable probe parent arrival candidates = (case probe of
      None \<Rightarrow> Inr candidates
    | Some p \<Rightarrow>
        let reachable = filter (\<lambda>c. p c = None) arrival
        in case parent of
             Some e \<Rightarrow> Inl e
           | None \<Rightarrow>
               if reachable = [] then Inl (Err ''VPNGate catalog contains no reachable candidates'')
               else Inr (sortCandidates reachable))"

record fetcher =
  primary_url :: string
  mirror_urls :: "string list"
  probe_fn :: "(candidate \<Rightarrow> error option) option"

definition fetch_order :: "fetcher \<Rightarrow> string list" where
  "fetch_order f = primary_url f # filter (\<lambda>m. m \<noteq> primary_url f) (mirror_urls f)"

text \<open>One catalog: fetch it, then keep what answers. \<open>arrive\<close> is the scheduler's order of results.\<close>

definition try_catalog ::
    "fetcher \<Rightarrow> (string \<Rightarrow> error + candidate list) \<Rightarrow> (candidate list \<Rightarrow> candidate list)
      \<Rightarrow> error option \<Rightarrow> string \<Rightarrow> error + candidate list" where
  "try_catalog f fetch arrive ctx u = (case fetch u of
      Inl e \<Rightarrow> Inl e
    | Inr cs \<Rightarrow> filterReachable (probe_fn f) ctx (arrive cs) cs)"

fun race :: "(string \<Rightarrow> error + candidate list) \<Rightarrow> string list \<Rightarrow> error list \<Rightarrow> error + candidate list" where
  "race attempt [] failures = Inl (Join failures)"
| "race attempt (u # us) failures = (case attempt u of
      Inr cs \<Rightarrow> Inr cs
    | Inl e \<Rightarrow> race attempt us (failures @ [Wrap u e]))"

text \<open>
  \<open>Fetch\<close>: the primary first; when it fails, the mirrors in the order \<open>finish\<close> in which their
  fetches complete. The result of the first one that passes is taken.
\<close>

definition Fetch ::
    "fetcher \<Rightarrow> (string \<Rightarrow> error + candidate list) \<Rightarrow> (candidate list \<Rightarrow> candidate list)
      \<Rightarrow> error option \<Rightarrow> error option \<Rightarrow> string list \<Rightarrow> error + candidate list" where
  "Fetch f fetch arrive ctx mirrorCtx finish =
     (case try_catalog f fetch arrive ctx (hd (fetch_order f)) of
        Inr cs \<Rightarrow> Inr cs
      | Inl e \<Rightarrow>
          let failures = [Wrap (hd (fetch_order f)) e]
          in if length (fetch_order f) = 1 then Inl (Join failures)
             else race (try_catalog f fetch arrive mirrorCtx) finish failures)"

text \<open>\<open>RefreshMirrors\<close>: a failure of any kind leaves the list of mirrors as it was.\<close>

definition RefreshMirrors ::
    "(string \<Rightarrow> url option) \<Rightarrow> error + (int \<times> xml_token list) \<Rightarrow> fetcher \<Rightarrow> error option \<times> fetcher" where
  "RefreshMirrors parse_url answer f = (case answer of
      Inl e \<Rightarrow> (Some e, f)
    | Inr (status, ts) \<Rightarrow>
        if status \<noteq> 200 then (Some (Err ''mirror directory HTTP status''), f)
        else (case parseMirrorList parse_url ts of
            Inl e \<Rightarrow> (Some e, f)
          | Inr ms \<Rightarrow> (None, f\<lparr>mirror_urls := ms\<rparr>)))"

section \<open>Ranking is a stable sort of the eligible candidates\<close>

definition eligible :: "string \<Rightarrow> string list \<Rightarrow> candidate \<Rightarrow> bool" where
  "eligible country excluded c \<longleftrightarrow>
     (to_upper (trim_space country) = [] \<or> country_short c = to_upper (trim_space country)) \<and>
     host_name c \<notin> set excluded"

lemma FilterAndRank_eligible:
  "FilterAndRank cs country excluded = swap_sort better (filter (eligible country excluded) cs)"
proof -
  have "(\<lambda>c. \<not> (to_upper (trim_space country) \<noteq> [] \<and> country_short c \<noteq> to_upper (trim_space country))
          \<and> host_name c \<notin> set excluded) = eligible country excluded"
    by (auto simp: eligible_def fun_eq_iff)
  then show ?thesis by (simp add: FilterAndRank_def sortCandidates_def)
qed

text \<open>C32: Ranking returns exactly the candidates of the asked country whose host is not excluded,
  each as often as it was given, none followed by a better one, and candidates that tie keep the
  order in which they came.\<close>

theorem FilterAndRank_correct:
  "mset (FilterAndRank cs country excluded) = mset (filter (eligible country excluded) cs) \<and>
   ranking.ranked (FilterAndRank cs country excluded) \<and>
   filter (ranking.tied c) (FilterAndRank cs country excluded)
     = filter (ranking.tied c) (filter (eligible country excluded) cs)"
  by (simp add: FilterAndRank_eligible ranking.swap_sort_ranked ranking.swap_sort_stable)

lemma FilterAndRank_set:
  "c \<in> set (FilterAndRank cs country excluded) \<longleftrightarrow>
     c \<in> set cs \<and> host_name c \<notin> set excluded \<and>
     (to_upper (trim_space country) = [] \<or> country_short c = to_upper (trim_space country))"
  by (auto simp: FilterAndRank_def sortCandidates_def Let_def)

lemma FilterAndRank_ranked: "ranking.ranked (FilterAndRank cs country excluded)"
  by (simp add: FilterAndRank_def sortCandidates_def Let_def ranking.swap_sort_ranked)

section \<open>The order of arrival does not matter\<close>

lemma filterReachable_Inr:
  assumes "filterReachable (Some p) None arrival cs = Inr rs" and "mset arrival = mset cs"
  shows "mset rs = mset (filter (\<lambda>c. p c = None) cs) \<and> ranking.ranked rs \<and> rs \<noteq> []"
proof -
  have ne: "filter (\<lambda>c. p c = None) arrival \<noteq> []"
    and rs: "rs = swap_sort better (filter (\<lambda>c. p c = None) arrival)"
    using assms(1) by (auto simp: filterReachable_def sortCandidates_def Let_def split: if_splits)
  have "mset rs = mset (filter (\<lambda>c. p c = None) cs)"
    using assms(2) by (simp add: rs)
  moreover have "rs \<noteq> []" using ne by (metis length_0_conv length_swap_sort rs)
  ultimately show ?thesis using ranking.swap_sort_ranked by (simp add: rs)
qed

text \<open>In whatever order the probe workers deliver their results, the reachable catalog is a
  ranking of exactly the candidates that answered, and it fails only when none did.\<close>

theorem filterReachable_any_order:
  assumes "mset arrival = mset cs"
  shows "case filterReachable (Some p) None arrival cs of
      Inr rs \<Rightarrow> mset rs = mset (filter (\<lambda>c. p c = None) cs) \<and> ranking.ranked rs \<and> rs \<noteq> []
    | Inl e \<Rightarrow> \<forall>c\<in>set cs. p c \<noteq> None"
proof (cases "filterReachable (Some p) None arrival cs")
  case (Inl e)
  then have "filter (\<lambda>c. p c = None) arrival = []"
    by (auto simp: filterReachable_def Let_def split: if_splits)
  moreover have "set arrival = set cs" using assms by (rule mset_eq_setD)
  ultimately show ?thesis using Inl by (auto simp: filter_empty_conv)
next
  case (Inr rs)
  with assms show ?thesis by (simp add: filterReachable_Inr)
qed

definition demo_candidate :: "string \<Rightarrow> int \<Rightarrow> candidate" where
  "demo_candidate h s = \<lparr>host_name = h, cand_ip = ''1.2.3.4'', score = s, ping = 10, speed = 1,
     country_long = ''Japan'', country_short = ''JP'', num_sessions = 0, uptime = 0,
     openvpn_config = ''x'', fetched_at = 0\<rparr>"

definition demo_probe :: "candidate \<Rightarrow> error option" where
  "demo_probe c = (if host_name c = ''b'' then Some (Err ''silent'') else None)"

lemma demo_filter:
  "filterReachable (Some demo_probe) None
     [demo_candidate ''c'' 7, demo_candidate ''b'' 9, demo_candidate ''a'' 8]
     [demo_candidate ''a'' 8, demo_candidate ''b'' 9, demo_candidate ''c'' 7]
   = Inr [demo_candidate ''a'' 8, demo_candidate ''c'' 7]"
  by code_simp

theorem filterReachable_any_order_witness:
  "mset [demo_candidate ''a'' 8, demo_candidate ''c'' 7]
     = mset (filter (\<lambda>c. demo_probe c = None)
         [demo_candidate ''a'' 8, demo_candidate ''b'' 9, demo_candidate ''c'' 7])"
proof -
  have m: "mset [demo_candidate ''c'' 7, demo_candidate ''b'' 9, demo_candidate ''a'' 8]
      = mset [demo_candidate ''a'' 8, demo_candidate ''b'' 9, demo_candidate ''c'' 7]" by simp
  show ?thesis using filterReachable_any_order [OF m, of demo_probe] by (simp only: demo_filter sum.case)
qed

section \<open>What a fetch returns\<close>

lemma try_catalog_Inr:
  assumes "try_catalog f fetch arrive None u = Inr rs" and "probe_fn f = Some p"
    and "\<And>cs. mset (arrive cs) = mset cs"
  shows "\<exists>cs. fetch u = Inr cs \<and> mset rs = mset (filter (\<lambda>c. p c = None) cs) \<and>
     ranking.ranked rs \<and> rs \<noteq> []"
proof -
  obtain cs where cs: "fetch u = Inr cs" "filterReachable (Some p) None (arrive cs) cs = Inr rs"
    using assms(1,2) by (auto simp: try_catalog_def split: sum.splits)
  with filterReachable_Inr [OF cs(2) assms(3)] show ?thesis by blast
qed

lemma race_Inr: "race attempt us fs = Inr rs \<Longrightarrow> \<exists>u\<in>set us. attempt u = Inr rs"
  by (induction attempt us fs rule: race.induct) (auto split: sum.splits)

lemma race_fails: "race attempt us fs = Inl e \<Longrightarrow> u \<in> set us \<Longrightarrow> \<exists>e'. attempt u = Inl e'"
  by (induction attempt us fs rule: race.induct) (auto split: sum.splits)

text \<open>A catalog that \<open>Fetch\<close> returns is the ranking of the candidates that answered, from the
  primary or, only when the primary failed, from a configured mirror; and \<open>Fetch\<close> fails only when
  every configured source failed, in whatever order the mirrors finish.\<close>

theorem Fetch_correct:
  fixes fetch :: "string \<Rightarrow> error + candidate list" and arrive :: "candidate list \<Rightarrow> candidate list"
  assumes probe: "probe_fn f = Some p" and perm: "\<And>cs. mset (arrive cs) = mset cs"
    and finish: "mset finish = mset (tl (fetch_order f))"
  defines "attempt \<equiv> try_catalog f fetch arrive None"
  shows "case Fetch f fetch arrive None None finish of
      Inr rs \<Rightarrow> (\<exists>u cs. u \<in> set (fetch_order f) \<and> fetch u = Inr cs \<and>
                 mset rs = mset (filter (\<lambda>c. p c = None) cs) \<and> ranking.ranked rs \<and> rs \<noteq> [] \<and>
                 (u \<noteq> primary_url f \<longrightarrow> (\<exists>e. attempt (primary_url f) = Inl e)))
    | Inl e \<Rightarrow> \<forall>u\<in>set (fetch_order f). \<exists>e'. attempt u = Inl e'"
proof -
  have hd: "hd (fetch_order f) = primary_url f" and ne: "fetch_order f \<noteq> []"
    by (simp_all add: fetch_order_def)
  have fin: "set finish = set (tl (fetch_order f))" using finish by (rule mset_eq_setD)
  have all: "set (fetch_order f) = insert (primary_url f) (set finish)"
    by (simp add: fin fetch_order_def)
  note src = try_catalog_Inr [OF _ probe perm]
  show ?thesis
  proof (cases "attempt (primary_url f)")
    case (Inr rs)
    then have F: "Fetch f fetch arrive None None finish = Inr rs"
      by (simp add: Fetch_def hd attempt_def)
    obtain cs where "fetch (primary_url f) = Inr cs" "mset rs = mset (filter (\<lambda>c. p c = None) cs)"
      "ranking.ranked rs" "rs \<noteq> []"
      using src Inr unfolding attempt_def by blast
    then show ?thesis unfolding F sum.case using all by blast
  next
    case (Inl e)
    show ?thesis
    proof (cases "length (fetch_order f) = 1")
      case True
      then have "set finish = {}" by (simp add: fin fetch_order_def)
      moreover have "Fetch f fetch arrive None None finish = Inl (Join [Wrap (primary_url f) e])"
        using Inl True by (simp add: Fetch_def hd attempt_def)
      ultimately show ?thesis using Inl all by simp
    next
      case False
      then have F: "Fetch f fetch arrive None None finish = race attempt finish [Wrap (primary_url f) e]"
        using Inl by (simp add: Fetch_def hd attempt_def)
      show ?thesis
      proof (cases "race attempt finish [Wrap (primary_url f) e]")
        case rl: (Inl e')
        then show ?thesis using Inl all race_fails [OF rl] by (auto simp: F)
      next
        case rr: (Inr rs)
        then obtain u where u: "u \<in> set finish" "attempt u = Inr rs" using race_Inr by blast
        then obtain cs where "fetch u = Inr cs" "mset rs = mset (filter (\<lambda>c. p c = None) cs)"
          "ranking.ranked rs" "rs \<noteq> []"
          using src unfolding attempt_def by blast
        then show ?thesis unfolding F rr sum.case using u(1) all Inl by blast
      qed
    qed
  qed
qed

definition demo_fetcher :: fetcher where
  "demo_fetcher = \<lparr>primary_url = ''P'', mirror_urls = [''M'', ''P''], probe_fn = Some demo_probe\<rparr>"

definition demo_fetch :: "string \<Rightarrow> error + candidate list" where
  "demo_fetch u = (if u = ''P'' then Inl (Err ''timeout'')
                   else Inr [demo_candidate ''b'' 9, demo_candidate ''c'' 7])"

theorem Fetch_correct_witness:
  "Fetch demo_fetcher demo_fetch rev None None [''M''] = Inr [demo_candidate ''c'' 7] \<and>
   (\<exists>u cs. u \<in> set (fetch_order demo_fetcher) \<and> demo_fetch u = Inr cs \<and>
     mset [demo_candidate ''c'' 7] = mset (filter (\<lambda>c. demo_probe c = None) cs))"
proof -
  have 1: "probe_fn demo_fetcher = Some demo_probe" by (simp add: demo_fetcher_def)
  have 2: "mset (rev cs) = mset cs" for cs :: "candidate list" by simp
  have 3: "mset [''M''] = mset (tl (fetch_order demo_fetcher))"
    by (simp add: fetch_order_def demo_fetcher_def)
  have F: "Fetch demo_fetcher demo_fetch rev None None [''M''] = Inr [demo_candidate ''c'' 7]"
    by code_simp
  show ?thesis using Fetch_correct [OF 1 2 3, of demo_fetch] by (simp only: F sum.case) blast
qed

section \<open>What the parsers let through\<close>

definition catalog_entry_ok :: "int \<Rightarrow> candidate \<Rightarrow> bool" where
  "catalog_entry_ok t c \<longleftrightarrow> is_ipv4 (cand_ip c) \<and> length (country_short c) = 2 \<and>
     host_name c \<noteq> [] \<and> openvpn_config c \<noteq> [] \<and> length (openvpn_config c) \<le> max_config \<and>
     fetched_at c = t \<and> int64 (score c) \<and> int64 (ping c) \<and> int64 (speed c) \<and>
     int64 (num_sessions c) \<and> int64 (uptime c)"

lemma parseInt64_int64 [simp]: "int64 (parseInt64 v)"
  by (simp add: parseInt64_def parse_int_int64)

lemma csv_candidate_ok: "csv_candidate t rec = Some c \<Longrightarrow> catalog_entry_ok t c"
  by (auto simp: csv_candidate_def catalog_entry_ok_def Let_def split: if_splits option.splits)

lemma csv_loop_ok:
  "csv_loop t rs cs = Inr out \<Longrightarrow> \<forall>c\<in>set cs. catalog_entry_ok t c \<Longrightarrow> length cs \<le> 1024 \<Longrightarrow>
     (\<forall>c\<in>set out. catalog_entry_ok t c) \<and> length out \<le> 1024"
  by (induction t rs cs rule: csv_loop.induct)
     (auto split: if_splits option.splits dest: csv_candidate_ok)

text \<open>Whatever a catalog server sends, the parsed catalog has between one and 1024 entries, each
  with an IPv4 address, a two-byte country, a host name, a configuration of at most 2 MiB, and
  numbers that fit in 64 bits.\<close>

theorem ParseCSV_sound:
  "case ParseCSV t rs of
     Inr cs \<Rightarrow> cs \<noteq> [] \<and> length cs \<le> 1024 \<and> list_all (catalog_entry_ok t) cs
   | Inl e \<Rightarrow> True"
  using csv_loop_ok [of t rs "[]"]
  by (auto simp: ParseCSV_def list_all_iff split: sum.splits)

text \<open>A mirror address: the catalog path on a usable host.\<close>

definition mirror_address :: "string \<Rightarrow> bool" where
  "mirror_address m \<longleftrightarrow> (\<exists>u. usable_mirror u \<and> m = url_string (u\<lparr>path := ''/api/iphone/''\<rparr>))"

definition mirrors_ok :: "string list \<Rightarrow> bool" where
  "mirrors_ok ms \<longleftrightarrow> distinct ms \<and> (\<forall>m\<in>set ms. mirror_address m)"

lemma mirror_attr_inv: "mirrors_ok ms \<Longrightarrow> mirrors_ok (mirror_attr pu a ms)"
  unfolding mirror_attr_def
  by (split if_split option.split, simp add: Let_def)+
     (auto simp: mirrors_ok_def mirror_address_def)

lemma mirror_attrs_inv: "mirrors_ok ms \<Longrightarrow> mirrors_ok (fold (mirror_attr pu) as ms)"
  by (induction "as" arbitrary: ms) (simp_all add: mirror_attr_inv)

lemma mirror_loop_inv: "mirror_loop pu ts ms = Inr out \<Longrightarrow> mirrors_ok ms \<Longrightarrow> mirrors_ok out"
  by (induction pu ts ms rule: mirror_loop.induct)
     (auto simp: Let_def mirror_attrs_inv split: if_splits)

text \<open>Whatever the directory page holds, a refresh of the mirrors leaves either the old list and
  an error, or a nonempty list of distinct catalog addresses whose hosts are public IPv4 literals.\<close>

theorem RefreshMirrors_safe:
  "case RefreshMirrors pu answer f of
     (Some e, f') \<Rightarrow> f' = f
   | (None, f') \<Rightarrow> primary_url f' = primary_url f \<and> mirror_urls f' \<noteq> [] \<and> distinct (mirror_urls f') \<and>
       (\<forall>m\<in>set (mirror_urls f'). \<exists>u. is_ipv4 (host_name_part u) \<and> isPublicIP (host_name_part u) \<and>
          \<not> has_user u \<and> m = url_string (u\<lparr>path := ''/api/iphone/''\<rparr>))"
proof (cases "RefreshMirrors pu answer f")
  case (Pair err f')
  show ?thesis
  proof (cases err)
    case (Some e)
    then show ?thesis using Pair
      by (auto simp: RefreshMirrors_def split: sum.splits prod.splits if_splits)
  next
    case None
    then obtain ts ms where ms: "mirror_loop pu ts [] = Inr ms" "ms \<noteq> []" "f' = f\<lparr>mirror_urls := ms\<rparr>"
      using Pair by (auto simp: RefreshMirrors_def parseMirrorList_def split: sum.splits prod.splits if_splits)
    have "mirrors_ok ms" using mirror_loop_inv [OF ms(1)] by (simp add: mirrors_ok_def)
    then have "distinct ms" and "\<forall>m\<in>set ms. \<exists>u. is_ipv4 (host_name_part u) \<and>
        isPublicIP (host_name_part u) \<and> \<not> has_user u \<and> m = url_string (u\<lparr>path := ''/api/iphone/''\<rparr>)"
      unfolding mirrors_ok_def mirror_address_def usable_mirror_def by blast+
    then show ?thesis using None ms(2,3) Pair by simp
  qed
qed

text \<open>A chain of accepted redirects.\<close>

fun redirect_chain :: "url list \<Rightarrow> url list \<Rightarrow> bool" where
  "redirect_chain via [] = True"
| "redirect_chain via (r # rs) = (catalogRedirect r via = None \<and> redirect_chain (via @ [r]) rs)"

text \<open>A request that is redirected any number of times, each redirect accepted by the policy, is
  redirected at most four times more than it had been, never leaves the host of the first request,
  never carries user information, and never leaves HTTPS once it started there.\<close>

theorem redirects_stay_on_origin:
  assumes "via \<noteq> []" and "redirect_chain via rs"
  shows "list_all (\<lambda>r. url_host r = url_host (hd via) \<and> \<not> has_user r \<and>
           (scheme (hd via) = ''https'' \<longrightarrow> scheme r = ''https'')) rs
         \<and> (rs = [] \<or> length via + length rs \<le> 5)"
  using assms
proof (induction via rs rule: redirect_chain.induct)
  case (2 via x rs)
  have x: "url_host x = url_host (hd via) \<and> \<not> has_user x \<and>
      (scheme (hd via) = ''https'' \<longrightarrow> scheme x = ''https'')" and len: "length via < 5"
    using 2(3) by (auto simp: catalogRedirect_def Let_def split: if_splits)
  have hd: "hd (via @ [x]) = hd via" using 2(2) by simp
  have "redirect_chain (via @ [x]) rs" using 2(3) by simp
  then show ?case using 2(1) x len hd by (cases "rs = []") auto
qed simp

definition demo_url :: "string \<Rightarrow> url" where
  "demo_url p = \<lparr>scheme = ''https'', has_user = False, host_name_part = ''www.vpngate.net'',
     port_part = [], path = p, raw_query = [], force_query = False, fragment = []\<rparr>"

theorem redirects_stay_on_origin_witness:
  "list_all (\<lambda>r. url_host r = ''www.vpngate.net'' \<and> scheme r = ''https'')
     [demo_url ''/a'', demo_url ''/b'']"
proof -
  have "redirect_chain [demo_url ''/''] [demo_url ''/a'', demo_url ''/b'']" by code_simp
  from redirects_stay_on_origin [OF _ this] show ?thesis
    by (simp add: demo_url_def url_host_def)
qed

end
