(* ===== verification/GoFiles.thy ===== *)
theory GoFiles
  imports GoText
begin

text \<open>
  The file operations of Go's \<open>os\<close> package that the panel uses, over a file system in which any
  call may fail. A world has the contents of the files, an oracle that tells which call fails, the
  number of bytes a failing write leaves behind, a counter of calls, and the random suffixes
  \<open>os.CreateTemp\<close> draws. A component that has more state extends the record. A rename is atomic;
  permissions and directories are not kept, so those calls only may fail.
\<close>

section \<open>Paths\<close>

text \<open>The lexical operations of \<open>path/filepath\<close>: \<open>Clean\<close>, \<open>Join\<close> and \<open>Dir\<close>.\<close>

fun clean_parts :: "bool \<Rightarrow> string list \<Rightarrow> string list \<Rightarrow> string list" where
  "clean_parts rooted acc [] = rev acc"
| "clean_parts rooted acc (p # ps) =
     (if p = [] \<or> p = ''.'' then clean_parts rooted acc ps
      else if p = ''..'' then
        (if acc \<noteq> [] \<and> hd acc \<noteq> ''..'' then clean_parts rooted (tl acc) ps
         else if rooted then clean_parts rooted acc ps
         else clean_parts rooted (p # acc) ps)
      else clean_parts rooted (p # acc) ps)"

definition path_clean :: "string \<Rightarrow> string" where
  "path_clean s =
     (let rooted = has_prefix s ''/'';
          body = join ''/'' (clean_parts rooted [] (split_char CHR ''/'' s))
      in if rooted then CHR ''/'' # body else if body = [] then ''.'' else body)"

definition path_join :: "string \<Rightarrow> string \<Rightarrow> string" where
  "path_join dir name =
     (if dir = [] \<and> name = [] then [] else if dir = [] then path_clean name
      else if name = [] then path_clean dir else path_clean (dir @ ''/'' @ name))"

definition path_dir :: "string \<Rightarrow> string" where
  "path_dir p = (case last_index_byte p CHR ''/'' of
      None \<Rightarrow> path_clean [] | Some i \<Rightarrow> path_clean (take (Suc i) p))"

section \<open>The file system\<close>

record fs =
  files :: "string \<Rightarrow> string option"
  faulty :: "nat \<Rightarrow> bool"
  torn :: "nat \<Rightarrow> nat"
  calls :: nat
  random :: "string list"

definition ErrNotExist :: error where "ErrNotExist = Err ''file does not exist''"
definition ErrIO :: error where "ErrIO = Err ''input/output error''"

definition ticked :: "'a fs_scheme \<Rightarrow> 'a fs_scheme" where
  "ticked w = w\<lparr>calls := Suc (calls w)\<rparr>"

definition attempt :: "('a fs_scheme, 'b) io \<Rightarrow> ('a fs_scheme, 'b) io" where
  "attempt m w = (if faulty w (calls w) then (Inl ErrIO, ticked w) else m (ticked w))"

text \<open>\<open>Chmod\<close>, \<open>Sync\<close>, \<open>Close\<close>, \<open>MkdirAll\<close>: they succeed or fail.\<close>

definition fs_nop :: "('a fs_scheme, unit) io" where
  "fs_nop = attempt (io_return ())"

definition fs_read :: "string \<Rightarrow> ('a fs_scheme, string) io" where
  "fs_read p = attempt (\<lambda>w. case files w p of None \<Rightarrow> (Inl ErrNotExist, w) | Some c \<Rightarrow> (Inr c, w))"

definition put_file :: "string \<Rightarrow> string option \<Rightarrow> 'a fs_scheme \<Rightarrow> 'a fs_scheme" where
  "put_file p c w = w\<lparr>files := (files w)(p := c)\<rparr>"

text \<open>A write appends to what the handle's file holds; a failing one may leave part of it.\<close>

definition fs_write :: "string \<Rightarrow> string \<Rightarrow> ('a fs_scheme, unit) io" where
  "fs_write p c w =
     (let old = (case files w p of None \<Rightarrow> [] | Some o' \<Rightarrow> o')
      in if faulty w (calls w)
         then (Inl ErrIO, put_file p (Some (old @ take (torn w (calls w)) c)) (ticked w))
         else (Inr (), put_file p (Some (old @ c)) (ticked w)))"

definition fs_remove :: "string \<Rightarrow> ('a fs_scheme, unit) io" where
  "fs_remove p = attempt (\<lambda>w. case files w p of
      None \<Rightarrow> (Inl ErrNotExist, w) | Some c \<Rightarrow> (Inr (), put_file p None w))"

definition fs_rename :: "string \<Rightarrow> string \<Rightarrow> ('a fs_scheme, unit) io" where
  "fs_rename a b = attempt (\<lambda>w. case files w a of
      None \<Rightarrow> (Inl ErrNotExist, w)
    | Some c \<Rightarrow> (Inr (), put_file b (Some c) (put_file a None w)))"

text \<open>\<open>os.CreateTemp\<close> tries random names until one is free.\<close>

fun first_free :: "(string \<Rightarrow> string option) \<Rightarrow> string \<Rightarrow> string list \<Rightarrow> (string \<times> string list) option" where
  "first_free fl stem [] = None"
| "first_free fl stem (r # rs) =
     (if fl (stem @ r) = None then Some (stem @ r, rs) else first_free fl stem rs)"

definition fs_create_temp :: "string \<Rightarrow> ('a fs_scheme, string) io" where
  "fs_create_temp stem = attempt (\<lambda>w. case first_free (files w) stem (random w) of
      None \<Rightarrow> (Inl (Err ''file exists''), w)
    | Some (p, rs) \<Rightarrow> (Inr p, put_file p (Some []) (w\<lparr>random := rs\<rparr>)))"

text \<open>\<open>os.WriteFile\<close> opens and truncates, writes, closes; \<open>os.RemoveAll\<close> deletes a tree or fails.\<close>

definition fs_truncate :: "string \<Rightarrow> ('a fs_scheme, unit) io" where
  "fs_truncate p = attempt (\<lambda>w. (Inr (), put_file p (Some []) w))"

definition fs_write_file :: "string \<Rightarrow> string \<Rightarrow> ('a fs_scheme, unit) io" where
  "fs_write_file p c = io_bind (fs_truncate p) (\<lambda>_. io_bind (fs_write p c) (\<lambda>_. fs_nop))"

definition in_tree :: "string \<Rightarrow> string \<Rightarrow> bool" where
  "in_tree dir q \<longleftrightarrow> q = dir \<or> has_prefix q (dir @ ''/'')"

definition fs_remove_all :: "string \<Rightarrow> ('a fs_scheme, unit) io" where
  "fs_remove_all dir = attempt (\<lambda>w. (Inr (), w\<lparr>files := (\<lambda>q. if in_tree dir q then None else files w q)\<rparr>))"

text \<open>Write beside the target with the suffix \<open>.tmp\<close>, set the mode, rename.\<close>

definition fs_swap :: "string \<Rightarrow> string \<Rightarrow> ('a fs_scheme, unit) io" where
  "fs_swap p c = io_bind (fs_write_file (p @ ''.tmp'') c) (\<lambda>_. io_bind fs_nop (\<lambda>_. fs_rename (p @ ''.tmp'') p))"

section \<open>What the calls do to the files\<close>

lemma files_ticked [simp]: "files (ticked w) = files w" "faulty (ticked w) = faulty w"
  by (simp_all add: ticked_def)

lemma files_put [simp]: "files (put_file p c w) = (files w)(p := c)"
  by (simp add: put_file_def)

lemma fs_nop_files [simp]: "files (snd (fs_nop w)) = files w"
  by (simp add: fs_nop_def attempt_def)

lemma fs_read_files [simp]: "files (snd (fs_read p w)) = files w"
  by (simp add: fs_read_def attempt_def split: option.split)

lemma fs_read_Inr: "fs_read p w = (Inr c, w') \<Longrightarrow> files w p = Some c \<and> files w' = files w"
  by (auto simp: fs_read_def attempt_def split: if_splits option.splits)

lemma fs_write_other: "q \<noteq> p \<Longrightarrow> files (snd (fs_write p c w)) q = files w q"
  by (simp add: fs_write_def Let_def)

lemma fs_write_Inr: "fs_write p c w = (Inr u, w') \<Longrightarrow>
   files w' = (files w)(p \<mapsto> (case files w p of None \<Rightarrow> [] | Some old \<Rightarrow> old) @ c)"
  by (auto simp: fs_write_def Let_def split: if_splits)

lemma fs_remove_other: "q \<noteq> p \<Longrightarrow> files (snd (fs_remove p w)) q = files w q"
  by (simp add: fs_remove_def attempt_def split: option.split)

lemma fs_remove_Inr: "fs_remove p w = (Inr u, w') \<Longrightarrow> files w' = (files w)(p := None)"
  by (auto simp: fs_remove_def attempt_def split: if_splits option.splits)

lemma fs_remove_cases: "files (snd (fs_remove p w)) = files w \<or> files (snd (fs_remove p w)) = (files w)(p := None)"
  by (auto simp: fs_remove_def attempt_def split: option.split)

lemma fs_rename_Inl: "fs_rename a b w = (Inl e, w') \<Longrightarrow> files w' = files w"
  by (auto simp: fs_rename_def attempt_def split: if_splits option.splits)

lemma fs_rename_Inr: "fs_rename a b w = (Inr u, w') \<Longrightarrow>
   \<exists>c. files w a = Some c \<and> files w' = (files w)(a := None, b \<mapsto> c)"
  by (auto simp: fs_rename_def attempt_def split: if_splits option.splits)

lemma first_free_Some: "first_free fl stem rs = Some (p, rs') \<Longrightarrow> fl p = None \<and> has_prefix p stem"
  by (induction rs) (auto split: if_splits)

lemma fs_create_temp_Inl: "fs_create_temp stem w = (Inl e, w') \<Longrightarrow> files w' = files w"
  by (auto simp: fs_create_temp_def attempt_def split: if_splits option.splits)

lemma fs_create_temp_Inr: "fs_create_temp stem w = (Inr p, w') \<Longrightarrow>
   files w p = None \<and> has_prefix p stem \<and> files w' = (files w)(p \<mapsto> [])"
  by (auto simp: fs_create_temp_def attempt_def dest: first_free_Some split: if_splits option.splits)

section \<open>Replacing a file\<close>

text \<open>
  The pattern of every replacement: write a new temporary file, and only when each call succeeded
  rename it over the target; a deferred removal deletes what is left of the temporary file. The
  directory call comes first, and the calls between creation and write differ per place.
\<close>

definition put_temp :: "string \<Rightarrow> string \<Rightarrow> string \<Rightarrow> ('a fs_scheme, unit) io" where
  "put_temp tmp target content =
     io_bind fs_nop (\<lambda>_.
     io_bind (fs_write tmp content) (\<lambda>_.
     io_bind fs_nop (\<lambda>_.
     io_bind fs_nop (\<lambda>_.
     fs_rename tmp target))))"

definition replace_file :: "string \<Rightarrow> string \<Rightarrow> string \<Rightarrow> ('a fs_scheme, unit) io" where
  "replace_file stem target content =
     io_bind fs_nop (\<lambda>_.
     io_bind (fs_create_temp stem) (\<lambda>tmp.
     io_finally (put_temp tmp target content) (fs_remove tmp)))"

lemma put_temp_Inr:
  assumes "put_temp tmp target content w = (Inr u, w')" and "files w tmp = Some []" and "tmp \<noteq> target"
  shows "files w' = (files w)(tmp := None, target \<mapsto> content)"
proof -
  obtain w1 w2 w3 w4 where s: "fs_nop w = (Inr (), w1)" "fs_write tmp content w1 = (Inr (), w2)"
    "fs_nop w2 = (Inr (), w3)" "fs_nop w3 = (Inr (), w4)" "fs_rename tmp target w4 = (Inr (), w')"
    using assms(1) unfolding put_temp_def by (auto elim!: io_bind_InrE)
  have f: "files w1 = files w" "files w3 = files w2" "files w4 = files w3"
    using s by (metis fs_nop_files snd_conv)+
  then have "files w2 = (files w)(tmp \<mapsto> content)" using fs_write_Inr [OF s(2)] assms(2) by simp
  with f fs_rename_Inr [OF s(5)] show ?thesis by auto
qed

lemma put_temp_Inl:
  assumes "put_temp tmp target content w = (Inl e, w')"
  shows "q \<noteq> tmp \<Longrightarrow> files w' q = files w q"
proof -
  have n: "files (snd (fs_nop v)) = files v" for v :: "'a fs_scheme" by simp
  assume q: "q \<noteq> tmp"
  obtain r1 w1 where s1: "fs_nop w = (r1, w1)" by (cases "fs_nop w")
  obtain r2 w2 where s2: "fs_write tmp content w1 = (r2, w2)" by (cases "fs_write tmp content w1")
  obtain r3 w3 where s3: "fs_nop w2 = (r3, w3)" by (cases "fs_nop w2")
  obtain r4 w4 where s4: "fs_nop w3 = (r4, w4)" by (cases "fs_nop w3")
  obtain r5 w5 where s5: "fs_rename tmp target w4 = (r5, w5)" by (cases "fs_rename tmp target w4")
  have f: "files w1 = files w" "files w3 = files w2" "files w4 = files w3"
    using s1 s3 s4 n by (metis snd_conv)+
  have f2: "files w2 q = files w q" using fs_write_other [OF q, of content w1] s2 f by simp
  have "w' \<in> {w1, w2, w3, w4, w5}" and "w' = w5 \<Longrightarrow> r5 = Inl e \<or> w' \<in> {w1, w2, w3, w4}"
    using assms s1 s2 s3 s4 s5 unfolding put_temp_def io_bind_def
    by (auto split: sum.splits)
  moreover have "r5 = Inl e \<Longrightarrow> files w5 = files w4" using fs_rename_Inl s5 by blast
  ultimately show ?thesis using f f2 by auto
qed

text \<open>
  Whatever call fails, the target holds its old content or the whole new one, the new one exactly
  when the replacement reports success, and no file but the target and one temporary file, which
  did not exist before, is touched.
\<close>

lemma replace_file_Inr:
  assumes "replace_file stem target content w = (Inr u, w')" and "\<not> has_prefix target stem"
  shows "files w' target = Some content \<and> (\<forall>q. q \<noteq> target \<longrightarrow> files w' q = files w q)"
proof -
  obtain w1 tmp w2 w3 where s: "fs_nop w = (Inr (), w1)" "fs_create_temp stem w1 = (Inr tmp, w2)"
    "put_temp tmp target content w2 = (Inr (), w3)" "w' = snd (fs_remove tmp w3)"
    using assms(1) unfolding replace_file_def io_finally_def
    by (auto elim!: io_bind_InrE split: prod.splits)
  have w1: "files w1 = files w" using s(1) by (metis fs_nop_files snd_conv)
  note t = fs_create_temp_Inr [OF s(2)]
  have ne: "tmp \<noteq> target" using t assms(2) by blast
  have w3: "files w3 = (files w)(tmp := None, target \<mapsto> content)"
    using put_temp_Inr [OF s(3)] t ne w1 by simp
  have "files w' = files w3 \<or> files w' = (files w3)(tmp := None)" using fs_remove_cases s(4) by blast
  then show ?thesis using w3 ne t w1 by auto
qed

lemma replace_file_Inl:
  assumes "replace_file stem target content w = (Inl e, w')"
  shows "\<exists>tmp. \<forall>q. files w' q = files w q \<or> (q = tmp \<and> files w q = None \<and> has_prefix q stem)"
proof -
  obtain r1 w1 where s1: "fs_nop w = (r1, w1)" by (cases "fs_nop w")
  have w1: "files w1 = files w" using s1 by (metis fs_nop_files snd_conv)
  obtain r2 w2 where s2: "fs_create_temp stem w1 = (r2, w2)" by (cases "fs_create_temp stem w1")
  consider "r1 = Inl e" "w' = w1" | "r2 = Inl e" "w' = w2"
    | tmp w3 where "r2 = Inr tmp" "put_temp tmp target content w2 = (Inl e, w3)" "w' = snd (fs_remove tmp w3)"
    using assms s1 s2 unfolding replace_file_def io_finally_def io_bind_def
    by (auto split: sum.splits prod.splits)
  then show ?thesis
  proof cases
    case 1
    then show ?thesis using w1 by auto
  next
    case 2
    then show ?thesis using w1 fs_create_temp_Inl s2 by metis
  next
    case (3 tmp w3)
    note t = fs_create_temp_Inr [of stem w1 tmp w2]
    have "files w' q = files w q" if q: "q \<noteq> tmp" for q
      using put_temp_Inl [OF 3(2) q] fs_remove_other [OF q, of w3] t s2 3 w1 q by simp
    then show ?thesis using t s2 3 w1 by (metis)
  qed
qed

section \<open>Replacing through a fixed temporary name\<close>

lemma fs_truncate_Inr: "fs_truncate p w = (Inr u, w') \<Longrightarrow> files w' = (files w)(p \<mapsto> [])"
  by (auto simp: fs_truncate_def attempt_def split: if_splits)

lemma fs_truncate_other: "q \<noteq> p \<Longrightarrow> files (snd (fs_truncate p w)) q = files w q"
  by (simp add: fs_truncate_def attempt_def)

lemma fs_write_file_Inr:
  assumes "fs_write_file p c w = (Inr u, w')"
  shows "files w' = (files w)(p \<mapsto> c)"
proof -
  obtain w1 w2 where s: "fs_truncate p w = (Inr (), w1)" "fs_write p c w1 = (Inr (), w2)" "fs_nop w2 = (Inr u, w')"
    using assms unfolding fs_write_file_def by (auto elim!: io_bind_InrE)
  have "files w' = files w2" using fs_nop_files [of w2] s(3) by simp
  then show ?thesis using fs_truncate_Inr [OF s(1)] fs_write_Inr [OF s(2)] by simp
qed

lemma fs_write_file_other:
  assumes "q \<noteq> p"
  shows "files (snd (fs_write_file p c w)) q = files w q"
proof -
  obtain r1 w1 where s1: "fs_truncate p w = (r1, w1)" by (cases "fs_truncate p w")
  obtain r2 w2 where s2: "fs_write p c w1 = (r2, w2)" by (cases "fs_write p c w1")
  have "files w1 q = files w q" "files w2 q = files w1 q"
    using fs_truncate_other [OF assms, of w] fs_write_other [OF assms, of c w1] s1 s2 by simp_all
  then show ?thesis by (cases r1; cases r2) (simp_all add: fs_write_file_def io_bind_def s1 s2)
qed

lemma fs_swap_Inr:
  assumes "fs_swap p c w = (Inr u, w')"
  shows "files w' = (files w)(p @ ''.tmp'' := None, p \<mapsto> c)"
proof -
  obtain w1 w2 where s: "fs_write_file (p @ ''.tmp'') c w = (Inr (), w1)" "fs_nop w1 = (Inr (), w2)"
    "fs_rename (p @ ''.tmp'') p w2 = (Inr u, w')"
    using assms unfolding fs_swap_def by (auto elim!: io_bind_InrE)
  have "files w2 = (files w)(p @ ''.tmp'' \<mapsto> c)"
    using fs_write_file_Inr [OF s(1)] fs_nop_files [of w1] s(2) by simp
  then show ?thesis using fs_rename_Inr [OF s(3)] by auto
qed

lemma fs_swap_other:
  assumes "q \<noteq> p @ ''.tmp''" and "q \<noteq> p \<or> isl (fst (fs_swap p c w))"
  shows "files (snd (fs_swap p c w)) q = files w q"
proof -
  obtain r1 w1 where s1: "fs_write_file (p @ ''.tmp'') c w = (r1, w1)" by (cases "fs_write_file (p @ ''.tmp'') c w")
  obtain r2 w2 where s2: "fs_nop w1 = (r2, w2)" by (cases "fs_nop w1")
  obtain r3 w3 where s3: "fs_rename (p @ ''.tmp'') p w2 = (r3, w3)" by (cases "fs_rename (p @ ''.tmp'') p w2")
  have f1: "files w1 q = files w q" using fs_write_file_other [OF assms(1), of c w] s1 by simp
  have f2: "files w2 = files w1" using fs_nop_files [of w1] s2 by simp
  have f3: "isl r3 \<Longrightarrow> files w3 = files w2" using s3 fs_rename_Inl by (cases r3) auto
  have f4: "\<not> isl r3 \<Longrightarrow> q \<noteq> p \<Longrightarrow> files w3 q = files w2 q"
    using fs_rename_Inr [of "p @ ''.tmp''" p w2 _ w3] s3 assms(1) by (cases r3) auto
  show ?thesis
    using f1 f2 f3 f4 assms(2) by (cases r1; cases r2; cases r3) (auto simp: fs_swap_def io_bind_def s1 s2 s3)
qed

end
