(* ===== verification/ConfigFile.thy ===== *)
theory ConfigFile
  imports JModel GoFiles
begin

text \<open>
  \<open>internal/config/config.go\<close>: the environment file, the precedence of process environment, file
  and default, the bounded integers, and \<open>Load\<close> and \<open>Reload\<close> of the configuration. The process
  environment is a function to strings (empty when unset), the content of the file \<open>None\<close> when it
  cannot be opened. Durations are seconds.
\<close>

section \<open>The environment file\<close>

definition allowed_names :: "string list" where
  "allowed_names = [''JUI_LISTEN_ADDRESS'', ''JUI_TLS_CERTIFICATE_PATH'', ''JUI_TLS_KEY_PATH'',
     ''JUI_DATA_DIR'', ''JUI_CONFIG_DIR'', ''JUI_SINGBOX_BINARY'', ''JUI_ENGINE_MODE'',
     ''JUI_VPNGATE_MAX_EXITS'', ''JUI_NODE_START_PORT'']"

definition unquote :: "string \<Rightarrow> string" where
  "unquote raw =
     (if 2 \<le> length raw \<and>
         ((hd raw = DQ \<and> last raw = DQ) \<or> (hd raw = SQ \<and> last raw = SQ))
      then butlast (tl raw) else raw)"

definition env_line :: "string \<Rightarrow> (string \<rightharpoonup> string) \<Rightarrow> (string \<rightharpoonup> string)" where
  "env_line text0 values =
     (let line = trim_space text0
      in if line = [] \<or> has_prefix line ''#'' then values
         else case cut line CHR ''='' of (name0, raw0, found) \<Rightarrow>
           let name = trim_space name0
           in if \<not> found \<or> name \<notin> set allowed_names then values
              else values(name \<mapsto> unquote (trim_space raw0)))"

definition default_token_limit :: nat where "default_token_limit = 64 * 1024"

definition readEnvironmentFile :: "string option \<Rightarrow> (string \<rightharpoonup> string)" where
  "readEnvironmentFile file = (case file of
      None \<Rightarrow> Map.empty
    | Some content \<Rightarrow>
        fold env_line (fst (scan_lines default_token_limit content)) Map.empty)"

definition file_value :: "(string \<rightharpoonup> string) \<Rightarrow> string \<Rightarrow> string" where
  "file_value m name = (case m name of None \<Rightarrow> [] | Some v \<Rightarrow> v)"

definition env_value :: "(string \<Rightarrow> string) \<Rightarrow> string \<Rightarrow> string \<Rightarrow> (string \<rightharpoonup> string) \<Rightarrow> string" where
  "env_value getenv name fallback m =
     (if getenv name \<noteq> [] then getenv name
      else if file_value m name \<noteq> [] then file_value m name else fallback)"

definition fileValue :: "string \<Rightarrow> string \<Rightarrow> (string \<rightharpoonup> string) \<Rightarrow> string" where
  "fileValue name fallback m =
     (if file_value m name \<noteq> [] then file_value m name else fallback)"

section \<open>Bounded integers\<close>

text \<open>The accumulator stays below ten times the bound, so the machine integer never wraps.\<close>

fun bounded_loop :: "int \<Rightarrow> int \<Rightarrow> string \<Rightarrow> int option" where
  "bounded_loop maximum v [] = Some v"
| "bounded_loop maximum v (c # cs) =
     (if \<not> is_digit c then None
      else let v' = v * 10 + (int (byte c) - 48)
           in if maximum < v' then None else bounded_loop maximum v' cs)"

definition boundedInt :: "string \<Rightarrow> int \<Rightarrow> int \<Rightarrow> int \<Rightarrow> int" where
  "boundedInt raw fallback minimum maximum =
     (case bounded_loop maximum 0 (trim_space raw) of
        None \<Rightarrow> fallback
      | Some v \<Rightarrow> if v < minimum \<or> maximum < v then fallback else v)"

section \<open>The configuration\<close>

record config =
  ListenAddress :: string
  TLSCertificate :: string
  TLSPrivateKey :: string
  DataDir :: string
  ConfigDir :: string
  DatabasePath :: string
  SecretKeyPath :: string
  SingBoxBinary :: string
  SingBoxConfig :: string
  SessionTTL :: int
  MockEngine :: bool
  VPNGateMaxExits :: int
  NodeStartPort :: int

definition LoadFromFile :: "(string \<Rightarrow> string) \<Rightarrow> string option \<Rightarrow> config" where
  "LoadFromFile getenv file =
     (let m = readEnvironmentFile file;
          val = (\<lambda>name fallback. env_value getenv name fallback m);
          dataDir = val ''JUI_DATA_DIR'' ''/var/lib/j-ui'';
          configDir = val ''JUI_CONFIG_DIR'' ''/etc/j-ui''
      in \<lparr>ListenAddress = val ''JUI_LISTEN_ADDRESS'' ''0.0.0.0:8443'',
          TLSCertificate = val ''JUI_TLS_CERTIFICATE_PATH'' [],
          TLSPrivateKey = val ''JUI_TLS_KEY_PATH'' [],
          DataDir = dataDir, ConfigDir = configDir,
          DatabasePath = path_join dataDir ''j-ui.db'',
          SecretKeyPath = path_join configDir ''secret.key'',
          SingBoxBinary = val ''JUI_SINGBOX_BINARY'' ''/usr/local/lib/j-ui/sing-box'',
          SingBoxConfig = path_join configDir ''sing-box.json'',
          SessionTTL = 12 * 3600,
          MockEngine = (val ''JUI_ENGINE_MODE'' [] = ''mock''),
          VPNGateMaxExits = boundedInt (val ''JUI_VPNGATE_MAX_EXITS'' ''5'') 5 1 5,
          NodeStartPort = boundedInt (val ''JUI_NODE_START_PORT'' ''8881'') 8881 1 65535\<rparr>)"

definition ReloadFromFile :: "string option \<Rightarrow> config \<Rightarrow> config" where
  "ReloadFromFile file fallback =
     (let m = readEnvironmentFile file;
          dataDir = fileValue ''JUI_DATA_DIR'' (DataDir fallback) m;
          configDir = fileValue ''JUI_CONFIG_DIR'' (ConfigDir fallback) m;
          mode = fileValue ''JUI_ENGINE_MODE'' [] m;
          mockEngine = (if m ''JUI_ENGINE_MODE'' \<noteq> None then mode = ''mock'' else MockEngine fallback);
          nodeStartPort = (if NodeStartPort fallback < 1 \<or> NodeStartPort fallback > 65535
                           then 8881 else NodeStartPort fallback)
      in \<lparr>ListenAddress = fileValue ''JUI_LISTEN_ADDRESS'' (ListenAddress fallback) m,
          TLSCertificate = fileValue ''JUI_TLS_CERTIFICATE_PATH'' (TLSCertificate fallback) m,
          TLSPrivateKey = fileValue ''JUI_TLS_KEY_PATH'' (TLSPrivateKey fallback) m,
          DataDir = dataDir, ConfigDir = configDir,
          DatabasePath = path_join dataDir ''j-ui.db'',
          SecretKeyPath = path_join configDir ''secret.key'',
          SingBoxBinary = fileValue ''JUI_SINGBOX_BINARY'' (SingBoxBinary fallback) m,
          SingBoxConfig = path_join configDir ''sing-box.json'',
          SessionTTL = SessionTTL fallback,
          MockEngine = mockEngine,
          VPNGateMaxExits =
            boundedInt (fileValue ''JUI_VPNGATE_MAX_EXITS'' ''5'' m) (VPNGateMaxExits fallback) 1 5,
          NodeStartPort =
            boundedInt (fileValue ''JUI_NODE_START_PORT'' ''8881'' m) nodeStartPort 1 65535\<rparr>)"

section \<open>Bounded integers are exact\<close>

definition decimal_value :: "string \<Rightarrow> int" where
  "decimal_value = foldl (\<lambda>v c. v * 10 + (int (byte c) - 48)) 0"

lemma digit_value_nonneg: "is_digit c \<Longrightarrow> 0 \<le> int (byte c) - 48"
  by (simp add: is_digit_def)

lemma foldl_digits_mono:
  "0 \<le> v \<Longrightarrow> list_all is_digit cs \<Longrightarrow> v \<le> foldl (\<lambda>v c. v * 10 + (int (byte c) - 48)) v cs"
proof (induction cs arbitrary: v)
  case (Cons c cs)
  have "v \<le> v * 10 + (int (byte c) - 48)" using Cons.prems digit_value_nonneg [of c] by simp
  moreover have "v * 10 + (int (byte c) - 48)
      \<le> foldl (\<lambda>v c. v * 10 + (int (byte c) - 48)) (v * 10 + (int (byte c) - 48)) cs"
    using Cons.prems digit_value_nonneg [of c] by (intro Cons.IH) simp_all
  ultimately show ?case by simp
qed simp

lemma bounded_loop_eq:
  "0 \<le> v \<Longrightarrow> v \<le> hi \<Longrightarrow> bounded_loop hi v cs =
     (let r = foldl (\<lambda>v c. v * 10 + (int (byte c) - 48)) v cs
      in if list_all is_digit cs \<and> r \<le> hi then Some r else None)"
proof (induction cs arbitrary: v)
  case (Cons c cs)
  show ?case
  proof (cases "is_digit c \<and> v * 10 + (int (byte c) - 48) \<le> hi")
    case True
    then show ?thesis
      using Cons digit_value_nonneg [of c] by (simp add: Let_def)
  next
    case False
    then have "\<not> (list_all is_digit (c # cs) \<and>
        foldl (\<lambda>v c. v * 10 + (int (byte c) - 48)) v (c # cs) \<le> hi)"
      using foldl_digits_mono [of "v * 10 + (int (byte c) - 48)" cs] Cons.prems
        digit_value_nonneg [of c] by fastforce
    with False show ?thesis by (auto simp: Let_def)
  qed
qed (simp add: Let_def)

text \<open>The bounded integer is the decimal value of the trimmed text when the text has only digits
  and the value is in range, and the fallback in every other case, empty and overlong text included.\<close>

theorem boundedInt_exact:
  assumes "1 \<le> lo" and "lo \<le> hi"
  shows "boundedInt raw fb lo hi =
    (if list_all is_digit (trim_space raw) \<and> lo \<le> decimal_value (trim_space raw) \<and>
        decimal_value (trim_space raw) \<le> hi
     then decimal_value (trim_space raw) else fb)"
  using assms bounded_loop_eq [of 0 hi "trim_space raw"]
  by (auto simp: boundedInt_def decimal_value_def Let_def)

theorem boundedInt_exact_witness:
  "boundedInt '' 443 '' 8881 1 65535 = 443 \<and> boundedInt ''65536'' 8881 1 65535 = 8881"
proof -
  have "1 \<le> (1::int)" "(1::int) \<le> 65535" by simp_all
  note ex = boundedInt_exact [OF this]
  have 1: "trim_space '' 443 '' = ''443''" "trim_space ''65536'' = ''65536''" by code_simp+
  have 2: "list_all is_digit ''443''" "decimal_value ''443'' = 443" "decimal_value ''65536'' = 65536"
    by code_simp+
  show ?thesis by (simp only: ex 1 2) simp
qed

lemma boundedInt_range: "lo \<le> fb \<Longrightarrow> fb \<le> hi \<Longrightarrow> lo \<le> boundedInt raw fb lo hi \<and> boundedInt raw fb lo hi \<le> hi"
  by (auto simp: boundedInt_def split: option.splits)

section \<open>The file is data\<close>

lemma env_line_names: "dom (env_line l m) \<subseteq> dom m \<union> set allowed_names"
  by (auto simp: env_line_def Let_def split: prod.splits if_splits)

lemma env_lines_names: "dom (fold env_line ls m) \<subseteq> dom m \<union> set allowed_names"
proof (induction ls arbitrary: m)
  case (Cons l ls)
  then show ?case using env_line_names [of l m] by fastforce
qed simp

text \<open>Whatever the file holds, only the nine known names get a value, and the configuration
  loaded from it has a start port of 1-65535 and one to five exits.\<close>

theorem LoadFromFile_wellformed:
  "dom (readEnvironmentFile file) \<subseteq> set allowed_names \<and>
   NodeStartPort (LoadFromFile getenv file) \<in> {1..65535} \<and>
   VPNGateMaxExits (LoadFromFile getenv file) \<in> {1..5}"
  using env_lines_names [of _ Map.empty] boundedInt_range [of 1 8881 65535] boundedInt_range [of 1 5 5]
  by (auto simp: readEnvironmentFile_def LoadFromFile_def Let_def split: option.splits)

text \<open>A restored file governs the service, whatever environment the restoring process had.\<close>

text \<open>Reloading a restored file never yields a start port outside 1-65535, even over a fallback
  that has one, and an engine mode given in the file decides over the fallback.\<close>

theorem ReloadFromFile_wellformed:
  "NodeStartPort (ReloadFromFile file fb) \<in> {1..65535} \<and>
   MockEngine (ReloadFromFile file fb) =
     (case readEnvironmentFile file ''JUI_ENGINE_MODE'' of
        None \<Rightarrow> MockEngine fb | Some mode \<Rightarrow> mode = ''mock'')"
  using boundedInt_range [of 1 _ 65535]
  by (auto simp: ReloadFromFile_def Let_def fileValue_def file_value_def split: option.splits)

text \<open>
  An installation that never set the two numbers: the file is silent, and reloading it gives the
  shipped defaults, not the fallback that is passed.
\<close>

lemma reload_ignores_fallback:
  "NodeStartPort (ReloadFromFile None fb) = 8881 \<and> VPNGateMaxExits (ReloadFromFile None fb) = 5"
proof -
  have "boundedInt ''8881'' p 1 65535 = 8881" "boundedInt ''5'' q 1 5 = 5" for p q
    by (simp_all add: boundedInt_def trim_space_def trim_both_def trim_left_def trim_right_def is_space_def is_digit_def)
  then show ?thesis
    by (simp add: ReloadFromFile_def readEnvironmentFile_def fileValue_def file_value_def Let_def)
qed

end
