(* ===== verification/GoJson.thy ===== *)
theory GoJson
  imports JModel
begin

text \<open>
  \<open>encoding/json\<close> as the panel uses it: the encoder with its escapes, and a decoder for documents
  whose numbers are integers. Text is bytes: bytes of 128 and more are passed through, as the
  encoder does for valid UTF-8. Objects are printed in the order of their members, which is the
  order of the fields for a struct; a map is sorted by key first (\<open>sort_obj\<close>).
\<close>

section \<open>Encoding\<close>

definition BS :: char where "BS = CHR 0x5C"

definition hex_pair :: "char \<Rightarrow> string" where
  "hex_pair c = [lower_char (hex_digit (byte c div 16)), lower_char (hex_digit (byte c mod 16))]"

definition json_escape :: "char \<Rightarrow> string" where
  "json_escape c =
     (if c = DQ then [BS, DQ] else if c = BS then [BS, BS]
      else if c = NL then [BS, CHR ''n''] else if c = CR then [BS, CHR ''r'']
      else if c = TAB then [BS, CHR ''t'']
      else if c = CHR 0x08 then [BS, CHR ''b''] else if c = CHR 0x0C then [BS, CHR ''f'']
      else if byte c < 32 \<or> c = CHR ''<'' \<or> c = CHR ''>'' \<or> c = CHR ''&''
      then BS # ''u00'' @ hex_pair c
      else [c])"

definition json_string :: "string \<Rightarrow> string" where
  "json_string s = DQ # concat (map json_escape s) @ [DQ]"

text \<open>The layout is a parameter: the white space at a nesting depth, and the one after a colon.\<close>

fun json_fmt :: "(nat \<Rightarrow> string) \<Rightarrow> string \<Rightarrow> nat \<Rightarrow> json \<Rightarrow> string" where
  "json_fmt nl sp d JNull = ''null''"
| "json_fmt nl sp d (JBool b) = (if b then ''true'' else ''false'')"
| "json_fmt nl sp d (JInt n) = itoa n"
| "json_fmt nl sp d (JStr s) = json_string s"
| "json_fmt nl sp d (JList vs) =
     (if vs = [] then ''[]''
      else ''['' @ nl (Suc d) @ join (CHR '','' # nl (Suc d)) (map (json_fmt nl sp (Suc d)) vs) @ nl d @ '']'')"
| "json_fmt nl sp d (JObj kvs) =
     (if kvs = [] then [CHR 0x7B, CHR 0x7D]
      else CHR 0x7B # nl (Suc d) @
        join (CHR '','' # nl (Suc d))
          (map (\<lambda>(k, v). json_string k @ '':'' @ sp @ json_fmt nl sp (Suc d) v) kvs) @
        nl d @ [CHR 0x7D])"

text \<open>\<open>json.Marshal\<close> and \<open>json.MarshalIndent\<close> with two blanks.\<close>

definition json_print :: "json \<Rightarrow> string" where
  "json_print = json_fmt (\<lambda>_. []) [] 0"

definition indent_line :: "nat \<Rightarrow> string" where
  "indent_line d = NL # replicate (2 * d) CHR '' ''"

definition json_indent :: "json \<Rightarrow> string" where
  "json_indent = json_fmt indent_line '' '' 0"

definition sort_obj :: "obj \<Rightarrow> obj" where
  "sort_obj = sort_key fst"

text \<open>A document built from maps: every object is sorted by key.\<close>

fun json_sorted :: "json \<Rightarrow> json" where
  "json_sorted (JList vs) = JList (map json_sorted vs)"
| "json_sorted (JObj kvs) = JObj (sort_obj (map (\<lambda>(k, v). (k, json_sorted v)) kvs))"
| "json_sorted v = v"

section \<open>Decoding\<close>

definition skip_ws :: "string \<Rightarrow> string" where
  "skip_ws = dropWhile (\<lambda>c. c = CHR '' '' \<or> c = TAB \<or> c = NL \<or> c = CR)"

definition utf8 :: "nat \<Rightarrow> string" where
  "utf8 n =
     (if n < 128 then [char_of n]
      else if n < 2048 then [char_of (192 + n div 64), char_of (128 + n mod 64)]
      else [char_of (224 + n div 4096), char_of (128 + n div 64 mod 64), char_of (128 + n mod 64)])"

definition unescape_char :: "char \<Rightarrow> char option" where
  "unescape_char c =
     (if c = DQ \<or> c = BS \<or> c = CHR ''/'' then Some c
      else if c = CHR ''n'' then Some NL else if c = CHR ''r'' then Some CR
      else if c = CHR ''t'' then Some TAB else if c = CHR ''b'' then Some (CHR 0x08)
      else if c = CHR ''f'' then Some (CHR 0x0C) else None)"

text \<open>The body of a string, after its opening quote, up to and with the closing one.\<close>

function parse_string :: "string \<Rightarrow> (string \<times> string) option" where
  "parse_string s = (case s of
      [] \<Rightarrow> None
    | c # r \<Rightarrow>
        if c = DQ then Some ([], r)
        else if byte c < 32 then None
        else if c \<noteq> BS then map_option (apfst (Cons c)) (parse_string r)
        else (case r of
            [] \<Rightarrow> None
          | e # r1 \<Rightarrow>
              if e = CHR ''u'' then
                (case r1 of
                    w # x # y # z # r2 \<Rightarrow>
                      (case all_some (map unhex [w, x, y, z]) of
                         Some [a, b, c, d] \<Rightarrow>
                           map_option (apfst (append (utf8 (a * 4096 + b * 256 + c * 16 + d))))
                             (parse_string r2)
                       | _ \<Rightarrow> None)
                  | _ \<Rightarrow> None)
              else (case unescape_char e of
                  Some v \<Rightarrow> map_option (apfst (Cons v)) (parse_string r1)
                | None \<Rightarrow> None)))"
  by pat_completeness auto
termination by (relation "measure length") auto

declare parse_string.simps [simp del]

definition parse_number :: "string \<Rightarrow> (json \<times> string) option" where
  "parse_number s =
     (let tok = takeWhile (\<lambda>c. is_digit c \<or> c = CHR ''-'' \<or> c = CHR ''+'' \<or> c = CHR ''.''
                   \<or> c = CHR ''e'' \<or> c = CHR ''E'') s
      in if has_prefix tok ''+'' then None
         else case atoi_opt tok of None \<Rightarrow> None | Some n \<Rightarrow> Some (JInt n, drop (length tok) s))"

text \<open>White space, then one punctuation mark.\<close>

definition expect :: "char \<Rightarrow> string \<Rightarrow> string option" where
  "expect c s = (case skip_ws s of [] \<Rightarrow> None | x # r \<Rightarrow> if x = c then Some r else None)"

fun parse_value :: "nat \<Rightarrow> string \<Rightarrow> (json \<times> string) option"
  and parse_elements :: "nat \<Rightarrow> string \<Rightarrow> (json list \<times> string) option"
  and parse_members :: "nat \<Rightarrow> string \<Rightarrow> (obj \<times> string) option" where
  "parse_value 0 s = None"
| "parse_value (Suc k) s = (case skip_ws s of
      [] \<Rightarrow> None
    | c # r \<Rightarrow>
        if c = DQ then map_option (apfst JStr) (parse_string r)
        else if c = CHR ''['' then
          (case expect CHR 0x5D r of
             Some r' \<Rightarrow> Some (JList [], r')
           | None \<Rightarrow> map_option (apfst JList) (parse_elements k r))
        else if c = CHR 0x7B then
          (case expect CHR 0x7D r of
             Some r' \<Rightarrow> Some (JObj [], r')
           | None \<Rightarrow> map_option (apfst JObj) (parse_members k r))
        else if has_prefix (c # r) ''null'' then Some (JNull, drop 4 (c # r))
        else if has_prefix (c # r) ''true'' then Some (JBool True, drop 4 (c # r))
        else if has_prefix (c # r) ''false'' then Some (JBool False, drop 5 (c # r))
        else parse_number (c # r))"
| "parse_elements 0 s = None"
| "parse_elements (Suc k) s = (case parse_value k s of
      None \<Rightarrow> None
    | Some (v, r) \<Rightarrow> (case expect CHR 0x5D r of
          Some r' \<Rightarrow> Some ([v], r')
        | None \<Rightarrow> (case expect CHR '','' r of
              Some r' \<Rightarrow> map_option (apfst (Cons v)) (parse_elements k r')
            | None \<Rightarrow> None)))"
| "parse_members 0 s = None"
| "parse_members (Suc k) s = (case Option.bind (expect DQ s) parse_string of
      None \<Rightarrow> None
    | Some (key, r1) \<Rightarrow> (case Option.bind (expect CHR '':'' r1) (parse_value k) of
          None \<Rightarrow> None
        | Some (v, r2) \<Rightarrow> (case expect CHR 0x7D r2 of
              Some r3 \<Rightarrow> Some ([(key, v)], r3)
            | None \<Rightarrow> (case expect CHR '','' r2 of
                  Some r3 \<Rightarrow> map_option (apfst (Cons (key, v))) (parse_members k r3)
                | None \<Rightarrow> None))))"

text \<open>The fuel is the length of the document: every nested call consumes a character.\<close>

definition json_parse :: "string \<Rightarrow> json option" where
  "json_parse s = (case parse_value (2 * length s) s of
      Some (v, r) \<Rightarrow> if skip_ws r = [] then Some v else None
    | None \<Rightarrow> None)"

text \<open>A member of a struct: names match without regard to case, the last one counts.\<close>

definition json_member :: "obj \<Rightarrow> string \<Rightarrow> json" where
  "json_member ob name = (case find (\<lambda>(k, v). equal_fold k name) (rev ob) of
      Some (k, v) \<Rightarrow> v | None \<Rightarrow> JNull)"

text \<open>A member decoded into a Go string or int field; null leaves the zero value.\<close>

definition field_string :: "obj \<Rightarrow> string \<Rightarrow> error + string" where
  "field_string ob name = (case json_member ob name of
      JStr s \<Rightarrow> Inr s | JNull \<Rightarrow> Inr [] | _ \<Rightarrow> Inl (Err ''json: cannot unmarshal into string''))"

definition field_int :: "obj \<Rightarrow> string \<Rightarrow> error + int" where
  "field_int ob name = (case json_member ob name of
      JInt n \<Rightarrow> Inr n | JNull \<Rightarrow> Inr 0 | _ \<Rightarrow> Inl (Err ''json: cannot unmarshal into int''))"

section \<open>What is printed is parsed back\<close>

lemma unhex_lower: "n < 16 \<Longrightarrow> unhex (lower_char (hex_digit n)) = Some n"
proof -
  have "list_all (\<lambda>n. unhex (lower_char (hex_digit n)) = Some n) [0..<16]" by code_simp
  then show "n < 16 \<Longrightarrow> unhex (lower_char (hex_digit n)) = Some n" by (simp add: list_all_iff)
qed

lemma parse_string_end: "parse_string (DQ # rest) = Some ([], rest)"
  by (simp add: parse_string.simps [of "DQ # rest"])

lemma parse_string_plain:
  "\<lbrakk>c \<noteq> DQ; c \<noteq> BS; 32 \<le> byte c\<rbrakk> \<Longrightarrow>
     parse_string (c # r) = map_option (apfst (Cons c)) (parse_string r)"
  by (simp add: parse_string.simps [of "c # r"])

lemma parse_string_escaped:
  "unescape_char e = Some v \<Longrightarrow>
     parse_string (BS # e # r) = map_option (apfst (Cons v)) (parse_string r)"
proof -
  assume a: "unescape_char e = Some v"
  then have "e \<noteq> CHR ''u''" by (auto simp: unescape_char_def DQ_def BS_def)
  moreover have "BS \<noteq> DQ" "32 \<le> byte BS" by (simp_all add: BS_def DQ_def)
  ultimately show ?thesis using a by (simp add: parse_string.simps [of "BS # e # r"])
qed

lemma parse_string_hex:
  "c \<in> {CHR ''<'', CHR ''>'', CHR ''&''} \<or> byte c < 32 \<Longrightarrow>
     parse_string (BS # ''u00'' @ hex_pair c @ r) = map_option (apfst (Cons c)) (parse_string r)"
proof -
  assume c: "c \<in> {CHR ''<'', CHR ''>'', CHR ''&''} \<or> byte c < 32"
  then have lt: "byte c < 128" by auto
  have "unhex (CHR ''0'') = Some 0" by code_simp
  moreover have "unhex (lower_char (hex_digit (byte c div 16))) = Some (byte c div 16)"
    "unhex (lower_char (hex_digit (byte c mod 16))) = Some (byte c mod 16)"
    using lt by (auto intro!: unhex_lower)
  moreover have "utf8 (byte c div 16 * 16 + byte c mod 16) = [c]"
    using lt by (simp add: utf8_def)
  moreover have "append [c] = Cons c" by (simp add: fun_eq_iff)
  moreover have "BS \<noteq> DQ" "32 \<le> byte BS" by (simp_all add: BS_def DQ_def)
  ultimately show ?thesis by (simp add: parse_string.simps [of "BS # _"] hex_pair_def)
qed

lemma parse_string_char:
  "parse_string (json_escape c @ r) = map_option (apfst (Cons c)) (parse_string r)"
proof -
  have e: "unescape_char DQ = Some DQ" "unescape_char BS = Some BS" "unescape_char CHR ''n'' = Some NL"
    "unescape_char CHR ''r'' = Some CR" "unescape_char CHR ''t'' = Some TAB"
    "unescape_char CHR ''b'' = Some (CHR 0x08)" "unescape_char CHR ''f'' = Some (CHR 0x0C)"
    by code_simp+
  show ?thesis
    using parse_string_hex [of c r] parse_string_plain [of c r]
    by (auto simp: json_escape_def parse_string_escaped e)
qed

lemma parse_string_print:
  "parse_string (concat (map json_escape s) @ DQ # rest) = Some (s, rest)"
  by (induction s) (simp_all add: parse_string_end parse_string_char)

text \<open>Documents whose integers fit the decoder, and texts that end a number.\<close>

fun json_ok :: "json \<Rightarrow> bool" where
  "json_ok (JInt n) = int64 n"
| "json_ok (JList vs) = list_all json_ok vs"
| "json_ok (JObj kvs) = list_all (\<lambda>(k, v). json_ok v) kvs"
| "json_ok v = True"

definition is_ws :: "char \<Rightarrow> bool" where
  "is_ws c \<longleftrightarrow> c = CHR '' '' \<or> c = TAB \<or> c = NL \<or> c = CR"

definition delimited :: "string \<Rightarrow> bool" where
  "delimited r \<longleftrightarrow> r = [] \<or> is_ws (hd r) \<or> hd r \<in> {CHR '','', CHR 0x5D, CHR 0x7D}"

fun weight :: "json \<Rightarrow> nat" where
  "weight (JList vs) = 1 + sum_list (map (\<lambda>v. 1 + weight v) vs)"
| "weight (JObj kvs) = 1 + sum_list (map (\<lambda>(k, v). 1 + weight v) kvs)"
| "weight v = 1"

lemma itoa_chars: "c \<in> set (itoa n) \<Longrightarrow> is_digit c \<or> c = CHR ''-''"
  using nat_dec_digits by (auto simp: itoa_def split: if_splits)

lemma hd_itoa: "is_digit (hd (itoa n)) \<or> hd (itoa n) = CHR ''-''"
  using itoa_chars by (metis hd_in_set itoa_nonempty)

lemma parse_number_itoa:
  assumes "int64 n" and "delimited r"
  shows "parse_number (itoa n @ r) = Some (JInt n, r)"
proof -
  let ?P = "\<lambda>c. is_digit c \<or> c = CHR ''-'' \<or> c = CHR ''+'' \<or> c = CHR ''.'' \<or> c = CHR ''e'' \<or> c = CHR ''E''"
  have "\<forall>c\<in>set (itoa n). ?P c" using itoa_chars by blast
  moreover have "takeWhile ?P r = []"
    using assms(2) by (cases r) (auto simp: delimited_def is_digit_def is_ws_def TAB_def NL_def CR_def)
  ultimately have tok: "takeWhile ?P (itoa n @ r) = itoa n" by (simp add: takeWhile_append2)
  have plus: "\<not> has_prefix (itoa n) ''+''"
  proof
    assume "has_prefix (itoa n) ''+''"
    then have "CHR ''+'' \<in> set (itoa n)" by (auto simp: has_prefix_iff)
    then show False using itoa_chars [of "CHR ''+''" n] by simp
  qed
  have "atoi_opt (itoa n) = Some n" using decimal.dec_enc_ok [OF assms(1)] .
  then show ?thesis by (simp add: parse_number_def tok plus Let_def)
qed

text \<open>The first character of a printed value.\<close>

lemma json_fmt_hd:
  "\<exists>c r. json_fmt nl sp d v = c # r \<and> \<not> is_ws c \<and> c \<noteq> CHR 0x5D \<and> c \<noteq> CHR 0x7D"
proof (cases v)
  case (JInt n)
  obtain c r where c: "itoa n = c # r" using itoa_nonempty [of n] by (cases "itoa n") auto
  then have "is_digit c \<or> c = CHR ''-''" using hd_itoa [of n] by simp
  then show ?thesis using JInt c by (auto simp: is_digit_def is_ws_def TAB_def NL_def CR_def)
next
  case (JBool b)
  then show ?thesis by (cases b) (auto simp: is_ws_def TAB_def NL_def CR_def)
qed (auto simp: json_string_def DQ_def is_ws_def TAB_def NL_def CR_def)

lemma skip_ws_is_ws: "skip_ws = dropWhile is_ws"
  by (simp add: skip_ws_def is_ws_def [abs_def])

lemma skip_ws_cons: "\<not> is_ws c \<Longrightarrow> skip_ws (c # r) = c # r"
  by (simp add: skip_ws_is_ws)

lemma skip_ws_append [simp]: "\<forall>c\<in>set w. is_ws c \<Longrightarrow> skip_ws (w @ r) = skip_ws r"
  by (simp add: skip_ws_is_ws dropWhile_append2)

lemma not_ws [simp]:
  "\<not> is_ws CHR 0x5D" "\<not> is_ws CHR 0x7D" "\<not> is_ws CHR '',''" "\<not> is_ws CHR '':''" "\<not> is_ws DQ"
  "\<not> is_ws CHR ''[''" "\<not> is_ws CHR 0x7B"
  by (simp_all add: is_ws_def DQ_def TAB_def NL_def CR_def)

lemma expect_cons: "\<not> is_ws x \<Longrightarrow> expect c (x # r) = (if x = c then Some r else None)"
  by (simp add: expect_def skip_ws_cons)

lemma expect_append [simp]: "\<forall>c\<in>set w. is_ws c \<Longrightarrow> expect x (w @ r) = expect x r"
  by (simp add: expect_def)

lemma marks_differ [simp]: "DQ \<noteq> CHR 0x5D" "DQ \<noteq> CHR 0x7D" "DQ \<noteq> CHR '',''" "DQ \<noteq> CHR '':''"
  "DQ \<noteq> CHR ''[''" "DQ \<noteq> CHR 0x7B" "CHR ''['' \<noteq> DQ" "CHR 0x7B \<noteq> DQ"
  by (simp_all add: DQ_def)

lemma parse_value_ws: "\<forall>c\<in>set w. is_ws c \<Longrightarrow> parse_value k (w @ r) = parse_value k r"
  by (cases k) simp_all

lemma parse_elements_ws: "\<forall>c\<in>set w. is_ws c \<Longrightarrow> parse_elements k (w @ r) = parse_elements k r"
  by (cases k) (simp_all add: parse_value_ws)

lemma parse_members_ws: "\<forall>c\<in>set w. is_ws c \<Longrightarrow> parse_members k (w @ r) = parse_members k r"
  by (cases k) simp_all

lemma number_first:
  "is_digit c \<or> c = CHR ''-'' \<Longrightarrow>
     c \<notin> {DQ, CHR ''['', CHR 0x7B, CHR ''n'', CHR ''t'', CHR ''f''} \<and> \<not> is_ws c"
  by (auto simp: is_digit_def is_ws_def DQ_def TAB_def NL_def CR_def)

text \<open>Every layout whose separators are white space is read back.\<close>

locale json_layout =
  fixes nl :: "nat \<Rightarrow> string" and sp :: string
  assumes nl_ws: "\<forall>c\<in>set (nl d). is_ws c" and sp_ws: "\<forall>c\<in>set sp. is_ws c"
begin

definition reads_back :: "json \<Rightarrow> bool" where
  "reads_back v \<longleftrightarrow> (\<forall>k d rest. weight v \<le> k \<longrightarrow> delimited rest \<longrightarrow>
     parse_value k (json_fmt nl sp d v @ rest) = Some (v, rest))"

lemma reads_backD:
  "reads_back v \<Longrightarrow> weight v \<le> k \<Longrightarrow> delimited rest \<Longrightarrow>
     parse_value k (json_fmt nl sp d v @ rest) = Some (v, rest)"
  by (simp add: reads_back_def)

lemma delimited_marks [simp]:
  "delimited (CHR 0x5D # r)" "delimited (CHR 0x7D # r)" "delimited (CHR '','' # r)" "delimited []"
  by (simp_all add: delimited_def)

lemma delimited_nl [simp]:
  "delimited (nl d @ CHR 0x5D # r)" "delimited (nl d @ CHR 0x7D # r)"
  using nl_ws [of d] by (cases "nl d"; simp add: delimited_def)+

lemma expect_nl [simp]: "expect x (nl d @ r) = expect x r"
  using nl_ws by simp

lemma parse_elements_print:
  "vs \<noteq> [] \<Longrightarrow> \<forall>v\<in>set vs. reads_back v \<Longrightarrow> sum_list (map (\<lambda>v. 1 + weight v) vs) \<le> k \<Longrightarrow>
     parse_elements k (join (CHR '','' # nl (Suc d)) (map (json_fmt nl sp (Suc d)) vs) @ nl d @ CHR 0x5D # rest)
       = Some (vs, rest)"
proof (induction vs arbitrary: k)
  case (Cons v vs)
  then obtain j where k: "k = Suc j" by (cases k) auto
  show ?case
  proof (cases "vs = []")
    case True
    then show ?thesis using Cons.prems by (simp add: k reads_backD expect_cons)
  next
    case False
    let ?tail = "join (CHR '','' # nl (Suc d)) (map (json_fmt nl sp (Suc d)) vs) @ nl d @ CHR 0x5D # rest"
    have "parse_elements j ?tail = Some (vs, rest)"
      using Cons.prems False by (intro Cons.IH) (simp_all add: k)
    moreover have "parse_value j (json_fmt nl sp (Suc d) v @ CHR '','' # nl (Suc d) @ ?tail)
        = Some (v, CHR '','' # nl (Suc d) @ ?tail)"
      using Cons.prems by (intro reads_backD) (simp_all add: k)
    ultimately show ?thesis
      using False nl_ws by (simp add: k join_Cons expect_cons parse_elements_ws)
  qed
qed simp

definition print_member :: "nat \<Rightarrow> string \<times> json \<Rightarrow> string" where
  "print_member d = (\<lambda>(k, v). json_string k @ '':'' @ sp @ json_fmt nl sp d v)"

lemma parse_members_head:
  assumes "reads_back v" and "weight v \<le> j" and "delimited r"
  shows "parse_members (Suc j) (print_member d (key, v) @ r)
      = (case expect CHR 0x7D r of
            Some r3 \<Rightarrow> Some ([(key, v)], r3)
          | None \<Rightarrow> (case expect CHR '','' r of
                Some r3 \<Rightarrow> map_option (apfst (Cons (key, v))) (parse_members j r3)
              | None \<Rightarrow> None))"
proof -
  have "print_member d (key, v) @ r
      = DQ # concat (map json_escape key) @ DQ # CHR '':'' # sp @ json_fmt nl sp d v @ r"
    by (simp add: print_member_def json_string_def)
  then show ?thesis
    using sp_ws by (simp add: parse_string_print reads_backD [OF assms] expect_cons parse_value_ws)
qed

lemma parse_members_print:
  "kvs \<noteq> [] \<Longrightarrow> \<forall>(k, v)\<in>set kvs. reads_back v \<Longrightarrow>
     sum_list (map (\<lambda>(k, v). 1 + weight v) kvs) \<le> j \<Longrightarrow>
     parse_members j (join (CHR '','' # nl (Suc d)) (map (print_member (Suc d)) kvs) @ nl d @ CHR 0x7D # rest)
       = Some (kvs, rest)"
proof (induction kvs arbitrary: j)
  case (Cons p kvs)
  obtain key v where p: "p = (key, v)" by (cases p)
  obtain i where j: "j = Suc i" using Cons.prems(3) by (cases j) (auto simp: p)
  show ?case
  proof (cases "kvs = []")
    case True
    then show ?thesis using Cons.prems by (simp add: j p parse_members_head expect_cons del: parse_members.simps)
  next
    case False
    have "parse_members i (join (CHR '','' # nl (Suc d)) (map (print_member (Suc d)) kvs) @ nl d @ CHR 0x7D # rest)
        = Some (kvs, rest)"
      using Cons.prems False by (intro Cons.IH) (simp_all add: j p)
    then show ?thesis using False Cons.prems nl_ws
      by (simp add: j p join_Cons parse_members_head expect_cons parse_members_ws del: parse_members.simps)
  qed
qed simp

lemma elements_hd:
  "vs \<noteq> [] \<Longrightarrow> expect CHR 0x5D (join sep (map (json_fmt nl sp d) vs) @ r) = None"
proof (cases vs)
  case (Cons v us)
  obtain c r where "json_fmt nl sp d v = c # r" "\<not> is_ws c" "c \<noteq> CHR 0x5D"
    using json_fmt_hd by blast
  then show ?thesis using Cons by (cases us) (auto simp: expect_cons)
qed simp

lemma members_hd:
  "kvs \<noteq> [] \<Longrightarrow> expect CHR 0x7D (join sep (map (print_member d) kvs) @ r) = None"
proof (cases kvs)
  case (Cons p ps)
  then show ?thesis
    by (cases ps) (auto simp: print_member_def json_string_def expect_cons split: prod.splits)
qed simp

lemma reads_back_int: "int64 n \<Longrightarrow> reads_back (JInt n)"
  unfolding reads_back_def
proof (intro allI impI)
  fix k d rest assume n: "int64 n" and k: "weight (JInt n) \<le> k" and r: "delimited rest"
  obtain j where j: "k = Suc j" using k by (cases k) auto
  obtain c cs where c: "itoa n = c # cs" using itoa_nonempty [of n] by (cases "itoa n") auto
  have f: "c \<notin> {DQ, CHR ''['', CHR 0x7B, CHR ''n'', CHR ''t'', CHR ''f''} \<and> \<not> is_ws c"
    using hd_itoa [of n] c by (intro number_first) simp
  have "parse_number (c # cs @ rest) = Some (JInt n, rest)"
    using parse_number_itoa [OF n r] c by simp
  then show "parse_value k (json_fmt nl sp d (JInt n) @ rest) = Some (JInt n, rest)"
    using f by (simp add: j c has_prefix_def skip_ws_cons)
qed

lemma reads_back_list: "\<forall>v\<in>set vs. reads_back v \<Longrightarrow> reads_back (JList vs)"
  unfolding reads_back_def [of "JList vs"]
proof (intro allI impI)
  fix k d rest assume vs: "\<forall>v\<in>set vs. reads_back v" and k: "weight (JList vs) \<le> k"
  obtain j where j: "k = Suc j" using k by (cases k) auto
  show "parse_value k (json_fmt nl sp d (JList vs) @ rest) = Some (JList vs, rest)"
  proof (cases "vs = []")
    case True
    then show ?thesis by (simp add: j skip_ws_cons expect_cons)
  next
    case False
    have "parse_elements j (join (CHR '','' # nl (Suc d)) (map (json_fmt nl sp (Suc d)) vs) @ nl d @ CHR 0x5D # rest)
        = Some (vs, rest)"
      using vs k False by (intro parse_elements_print) (simp_all add: j)
    then show ?thesis using False nl_ws elements_hd [OF False]
      by (simp add: j skip_ws_cons parse_elements_ws)
  qed
qed

lemma reads_back_obj: "\<forall>(k, v)\<in>set kvs. reads_back v \<Longrightarrow> reads_back (JObj kvs)"
  unfolding reads_back_def [of "JObj kvs"]
proof (intro allI impI)
  fix k d rest assume kvs: "\<forall>(k, v)\<in>set kvs. reads_back v" and k: "weight (JObj kvs) \<le> k"
  obtain j where j: "k = Suc j" using k by (cases k) auto
  show "parse_value k (json_fmt nl sp d (JObj kvs) @ rest) = Some (JObj kvs, rest)"
  proof (cases "kvs = []")
    case True
    then show ?thesis by (simp add: j skip_ws_cons expect_cons)
  next
    case False
    have pm: "json_fmt nl sp d (JObj kvs) = CHR 0x7B # nl (Suc d) @
        join (CHR '','' # nl (Suc d)) (map (print_member (Suc d)) kvs) @ nl d @ [CHR 0x7D]"
      using False by (simp add: print_member_def)
    have "parse_members j (join (CHR '','' # nl (Suc d)) (map (print_member (Suc d)) kvs) @ nl d @ CHR 0x7D # rest)
        = Some (kvs, rest)"
      using kvs k False by (intro parse_members_print) (simp_all add: j)
    then show ?thesis using nl_ws members_hd [OF False]
      by (simp add: j pm skip_ws_cons parse_members_ws del: json_fmt.simps)
  qed
qed

lemma json_ok_reads_back: "json_ok v \<Longrightarrow> reads_back v"
proof (induction v)
  case (JStr s)
  have "parse_value (Suc j) (json_string s @ rest) = Some (JStr s, rest)" for j rest
    using parse_string_print [of s rest] by (simp add: json_string_def skip_ws_cons)
  then show ?case unfolding reads_back_def
    by (auto simp del: parse_value.simps dest!: Suc_le_D)
next
  case (JBool b)
  show ?case unfolding reads_back_def
    by (cases b) (auto simp: DQ_def TAB_def NL_def CR_def is_ws_def skip_ws_is_ws has_prefix_def dest!: Suc_le_D)
next
  case JNull
  show ?case unfolding reads_back_def
    by (auto simp: DQ_def TAB_def NL_def CR_def is_ws_def skip_ws_is_ws has_prefix_def dest!: Suc_le_D)
next
  case (JInt n)
  then show ?case by (simp add: reads_back_int)
next
  case (JList vs)
  then show ?case by (intro reads_back_list) (auto simp: list_all_iff)
next
  case (JObj kvs)
  then show ?case by (intro reads_back_obj) (fastforce simp: list_all_iff)
qed

lemma weight_le: "weight v \<le> 2 * length (json_fmt nl sp d v)"
proof (induction v arbitrary: d)
  case (JInt n)
  then show ?case using itoa_nonempty [of n] by (cases "itoa n") auto
next
  case (JList vs)
  have "sum_list (map (\<lambda>v. 1 + weight v) vs) \<le> 1 + 2 * length (join (CHR '','' # w) (map (json_fmt nl sp e) vs))"
    if "\<And>v d. v \<in> set vs \<Longrightarrow> weight v \<le> 2 * length (json_fmt nl sp d v)" for vs e w
    using that
  proof (induction vs)
    case (Cons v vs)
    have "weight v \<le> 2 * length (json_fmt nl sp e v)" using Cons.prems by simp
    moreover have "sum_list (map (\<lambda>v. 1 + weight v) vs) \<le> 1 + 2 * length (join (CHR '','' # w) (map (json_fmt nl sp e) vs))"
      using Cons by simp
    ultimately show ?case by (cases "vs = []") (auto simp: join_Cons)
  qed simp
  from this [of vs "nl (Suc d)" "Suc d"] JList show ?case by (cases "vs = []") force+
next
  case (JObj kvs)
  have "sum_list (map (\<lambda>(k, v). 1 + weight v) kvs) \<le> 1 + 2 * length (join (CHR '','' # w) (map (print_member e) kvs))"
    if "\<And>k v d. (k, v) \<in> set kvs \<Longrightarrow> weight v \<le> 2 * length (json_fmt nl sp d v)" for kvs e w
    using that
  proof (induction kvs)
    case (Cons p kvs)
    obtain k v where p: "p = (k, v)" by (cases p)
    have "weight v \<le> 2 * length (json_fmt nl sp e v)" using Cons.prems [of k v] by (simp add: p)
    moreover have "sum_list (map (\<lambda>(k, v). 1 + weight v) kvs) \<le> 1 + 2 * length (join (CHR '','' # w) (map (print_member e) kvs))"
      by (rule Cons.IH) (use Cons.prems in auto)
    ultimately show ?case by (cases "kvs = []") (auto simp: join_Cons p print_member_def)
  qed simp
  from this [of kvs "nl (Suc d)" "Suc d"] JObj show ?case
    by (cases "kvs = []") (fastforce simp: print_member_def)+
qed (simp_all add: json_string_def)

lemma roundtrip: "json_ok v \<Longrightarrow> json_parse (json_fmt nl sp d v) = Some v"
  using reads_backD [OF json_ok_reads_back weight_le, of v "[]" d]
  by (simp add: json_parse_def skip_ws_def)

end

interpretation compact: json_layout "\<lambda>_. []" "[]"
  by unfold_locales simp_all

interpretation indented: json_layout indent_line "'' ''"
  by unfold_locales (auto simp: indent_line_def is_ws_def)

text \<open>Every document whose integers are 64-bit ones is decoded to itself, compact or indented.\<close>

lemma json_roundtrip: "json_ok v \<Longrightarrow> json_parse (json_print v) = Some v"
  unfolding json_print_def by (rule compact.roundtrip)

lemma json_indent_roundtrip: "json_ok v \<Longrightarrow> json_parse (json_indent v) = Some v"
  unfolding json_indent_def by (rule indented.roundtrip)

interpretation json_text: checked_codec json_print json_parse json_ok
  by unfold_locales (rule json_roundtrip)

section \<open>Objects sorted by key\<close>

lemma map_of_reorder:
  "distinct (map fst xs) \<Longrightarrow> distinct (map fst ys) \<Longrightarrow> set xs = set ys \<Longrightarrow> map_of xs = map_of ys"
  by (simp add: map_of_inject_set)

lemma json_member_exact:
  assumes "distinct (map fst ob)" and "\<forall>k\<in>fst ` set ob. equal_fold k name \<longleftrightarrow> k = name"
  shows "json_member ob name = obj_any ob name"
proof -
  have f: "find (\<lambda>(k, v). equal_fold k name) xs = map_option (Pair name) (map_of xs name)"
    if "\<forall>k\<in>fst ` set xs. equal_fold k name \<longleftrightarrow> k = name" for xs :: obj
    using that by (induction xs) auto
  have "map_of (rev ob) = map_of ob"
    using assms(1) by (intro map_of_reorder) (simp_all add: rev_map [symmetric])
  then show ?thesis
    using f [of "rev ob"] assms(2) by (cases "map_of ob name") (simp_all add: json_member_def obj_any_def)
qed

lemma distinct_sort_obj: "distinct (map fst ob) \<Longrightarrow> distinct (map fst (sort_obj ob))"
  unfolding sort_obj_def
  by (metis distinct_sort distinct_map mset_eq_imp_distinct_iff mset_map mset_sort)

lemma json_ok_sorted: "json_ok (json_sorted v) = json_ok v"
proof (induction v)
  case (JObj kvs)
  have "json_ok (json_sorted (JObj kvs)) = list_all (\<lambda>(k, v). json_ok (json_sorted v)) kvs"
    by (auto simp: list_all_iff sort_obj_def)
  also have "\<dots> = list_all (\<lambda>(k, v). json_ok v) kvs"
    using JObj by (intro list.pred_cong) (auto simp: prod.case_eq_if)
  finally show ?case by simp
qed (auto simp: list_all_iff)

definition sorted_map :: "obj \<Rightarrow> obj" where
  "sorted_map ob = sort_obj (map (\<lambda>(k, v). (k, json_sorted v)) ob)"

lemma json_sorted_obj: "json_sorted (JObj ob) = JObj (sorted_map ob)"
  by (simp add: sorted_map_def)

lemma keys_sorted_map: "set (map fst (sorted_map ob)) = set (map fst ob)"
  by (force simp: sorted_map_def sort_obj_def image_iff)

lemma distinct_sorted_map: "distinct (map fst ob) \<Longrightarrow> distinct (map fst (sorted_map ob))"
  unfolding sorted_map_def by (rule distinct_sort_obj) (simp add: prod.case_eq_if comp_def)

end
