(* ===== verification/Firewall.thy ===== *)
theory Firewall
  imports GoJson GoFiles ConfigFile
begin

text \<open>
  \<open>internal/firewall/firewall.go\<close>: the three firewall backends behind one manager (firewalld, UFW,
  nftables), which rules the panel owns, and the state file of the management port. External commands are a
  parameter (\<open>run\<close>), as is the search for a program (\<open>look\<close>); every command line the code builds
  is built here. The output of \<open>nft -j\<close> and the state file are JSON text.
\<close>

section \<open>Data\<close>

definition Owned :: string where "Owned = ''owned''"
definition Borrowed :: string where "Borrowed = ''borrowed''"
definition BackendUnknown :: string where "BackendUnknown = ''unknown''"
definition BackendFirewalld :: string where "BackendFirewalld = ''firewalld''"
definition BackendUFW :: string where "BackendUFW = ''ufw''"
definition BackendNFTables :: string where "BackendNFTables = ''nftables''"

lemmas backend_defs =
  BackendUnknown_def BackendFirewalld_def BackendUFW_def BackendNFTables_def Owned_def Borrowed_def

record fw_result =
  Ownership :: string
  Backend :: string

record management_state =
  ms_protocol :: string
  ms_port :: int
  ms_ownership :: string
  ms_backend :: string

record nft_chain =
  ch_family :: string
  ch_table :: string
  ch_name :: string
  ch_hook :: string
  ch_policy :: string

record nft_rule =
  ru_family :: string
  ru_table :: string
  ru_chain :: string
  ru_handle :: int
  ru_comment :: string

type_synonym nft_object = "nft_chain option \<times> nft_rule option"
type_synonym chain_ref = "string \<times> string \<times> string"

record 'w manager =
  mgr_backend :: "('w, string) io"
  mgr_ensure :: "string \<Rightarrow> int \<Rightarrow> ('w, fw_result) io"
  mgr_close :: "string \<Rightarrow> int \<Rightarrow> string \<Rightarrow> ('w, unit) io"

section \<open>Rules and references\<close>

definition validateRule :: "string \<Rightarrow> int \<Rightarrow> error option" where
  "validateRule proto portn =
     (if proto \<noteq> ''tcp'' \<and> proto \<noteq> ''udp'' then Some (Err ''unsupported firewall protocol'')
      else if portn < 1 \<or> portn > 65535 then Some (Err ''firewall port is outside 1-65535'')
      else None)"

definition ruleMarker :: "string \<Rightarrow> int \<Rightarrow> string" where
  "ruleMarker proto portn = ''jui-'' @ proto @ ''-'' @ itoa portn"

definition validNFTIdentifier :: "string \<Rightarrow> bool" where
  "validNFTIdentifier v \<longleftrightarrow> v \<noteq> [] \<and>
     list_all (\<lambda>c. is_lower c \<or> is_upper c \<or> is_digit c \<or> c = CHR ''_'' \<or> c = CHR ''-'' \<or> c = CHR ''.'') v"

definition validNFTReference :: "string \<Rightarrow> string \<Rightarrow> string \<Rightarrow> bool" where
  "validNFTReference family table chain \<longleftrightarrow>
     (family = ''inet'' \<or> family = ''ip'' \<or> family = ''ip6'') \<and>
     validNFTIdentifier table \<and> validNFTIdentifier chain"

section \<open>The management state file\<close>

definition encode_state :: "management_state \<Rightarrow> string" where
  "encode_state s = json_print (JObj [(''protocol'', JStr (ms_protocol s)),
     (''port'', JInt (ms_port s)), (''ownership'', JStr (ms_ownership s)),
     (''backend'', JStr (ms_backend s))])"

definition decode_state :: "string \<Rightarrow> error + management_state" where
  "decode_state text0 = (case json_parse text0 of
      Some (JObj ob) \<Rightarrow>
        (case (field_string ob ''protocol'', field_int ob ''port'',
               field_string ob ''ownership'', field_string ob ''backend'') of
           (Inr p, Inr n, Inr o', Inr b) \<Rightarrow>
             Inr \<lparr>ms_protocol = p, ms_port = n, ms_ownership = o', ms_backend = b\<rparr>
         | _ \<Rightarrow> Inl (Err ''json: cannot unmarshal''))
    | Some JNull \<Rightarrow> Inr \<lparr>ms_protocol = [], ms_port = 0, ms_ownership = [], ms_backend = []\<rparr>
    | _ \<Rightarrow> Inl (Err ''json: invalid document''))"

definition valid_state :: "management_state \<Rightarrow> bool" where
  "valid_state s \<longleftrightarrow> \<not> (ms_protocol s \<noteq> ''tcp'' \<or> ms_port s < 1 \<or> ms_port s > 65535 \<or>
     (ms_ownership s \<noteq> Owned \<and> ms_ownership s \<noteq> Borrowed))"

definition LoadManagementState :: "string \<Rightarrow> ('a fs_scheme, management_state) io" where
  "LoadManagementState p = io_bind (fs_read p) (\<lambda>content.
     case decode_state content of
       Inl e \<Rightarrow> io_fail (Wrap ''decode management firewall state'' e)
     | Inr s \<Rightarrow> if valid_state s then io_return s
               else io_fail (Err ''invalid management firewall state''))"

definition writeManagementState :: "string \<Rightarrow> management_state \<Rightarrow> ('a fs_scheme, unit) io" where
  "writeManagementState p s =
     replace_file (path_join (path_dir p) ''.management-firewall-'') p (encode_state s)"

text \<open>The state to record: a rule the panel owned for this port before stays owned.\<close>

definition recorded_state :: "error + management_state \<Rightarrow> int \<Rightarrow> fw_result \<Rightarrow> management_state" where
  "recorded_state previous portn result =
     (let owned = (case previous of Inl e \<Rightarrow> False
                   | Inr s \<Rightarrow> ms_port s = portn \<and> ms_ownership s = Owned)
      in \<lparr>ms_protocol = ''tcp'', ms_port = portn,
          ms_ownership = (if owned then Owned else Ownership result), ms_backend = Backend result\<rparr>)"

definition EnsureManagement ::
    "'a fs_scheme manager \<Rightarrow> string \<Rightarrow> int \<Rightarrow> ('a fs_scheme, fw_result) io" where
  "EnsureManagement manager statePath portn =
     io_bind (mgr_ensure manager ''tcp'' portn) (\<lambda>result.
     io_try (LoadManagementState statePath) (\<lambda>previous.
       io_try (writeManagementState statePath (recorded_state previous portn result)) (\<lambda>written.
            case written of
              Inr _ \<Rightarrow> io_return result
            | Inl e \<Rightarrow>
                if Ownership result = Owned
                then io_try (mgr_close manager ''tcp'' portn (Backend result)) (\<lambda>_. io_fail e)
                else io_fail e)))"

definition CloseManagement :: "'a fs_scheme manager \<Rightarrow> string \<Rightarrow> ('a fs_scheme, unit) io" where
  "CloseManagement manager statePath =
     io_try (LoadManagementState statePath) (\<lambda>loaded.
       case loaded of
         Inl e \<Rightarrow> if e = ErrNotExist then io_return () else io_fail e
       | Inr s \<Rightarrow>
           if ms_ownership s = Owned
           then io_bind (mgr_close manager (ms_protocol s) (ms_port s) (ms_backend s))
                  (\<lambda>_. fs_remove statePath)
           else fs_remove statePath)"

section \<open>Finding the backend\<close>

definition fw_firewalld :: "'w runner \<Rightarrow> (string \<Rightarrow> bool) \<Rightarrow> ('w, bool) io" where
  "fw_firewalld run look =
     (if \<not> look ''firewall-cmd'' then io_return False
      else io_bind (exec run [''systemctl'', ''is-active'', ''--quiet'', ''firewalld''])
             (\<lambda>(out, err). io_return (err = None)))"

definition fw_ufw :: "'w runner \<Rightarrow> (string \<Rightarrow> bool) \<Rightarrow> ('w, bool) io" where
  "fw_ufw run look =
     (if \<not> look ''ufw'' then io_return False
      else io_bind (exec run [''ufw'', ''status''])
             (\<lambda>(out, err). io_return (err = None \<and> contains out ''Status: active'')))"

definition no_backend :: error where
  "no_backend = Err ''no active firewalld, UFW, or nftables command is available''"

definition System_Backend :: "'w runner \<Rightarrow> (string \<Rightarrow> bool) \<Rightarrow> ('w, string) io" where
  "System_Backend run look =
     io_bind (fw_firewalld run look) (\<lambda>f.
       if f then io_return BackendFirewalld
       else io_bind (fw_ufw run look) (\<lambda>u.
         if u then io_return BackendUFW
         else if \<not> look ''nft'' then io_fail no_backend
         else io_return BackendNFTables))"

section \<open>firewalld\<close>

definition containsField :: "string \<Rightarrow> string \<Rightarrow> bool" where
  "containsField out wanted \<longleftrightarrow> wanted \<in> set (str_fields out)"

definition port_spec :: "string \<Rightarrow> int \<Rightarrow> string" where
  "port_spec proto portn = itoa portn @ ''/'' @ proto"

definition permanent_cmd :: "string list \<Rightarrow> string list" where
  "permanent_cmd args = [''firewall-cmd'', ''--permanent''] @ args"

text \<open>Query, and add when the query fails; whether something was changed.\<close>

definition query_or_add :: "'w runner \<Rightarrow> string \<Rightarrow> string \<Rightarrow> string \<Rightarrow> bool \<Rightarrow> ('w, bool) io" where
  "query_or_add run msg query add changed =
     io_bind (exec run (permanent_cmd [''--policy=jui'', query])) (\<lambda>(out, err).
       if err = None then io_return changed
       else io_bind (must run msg (permanent_cmd [''--policy=jui'', add])) (\<lambda>_. io_return True))"

definition firewalldEnsure :: "'w runner \<Rightarrow> string \<Rightarrow> int \<Rightarrow> ('w, fw_result) io" where
  "firewalldEnsure run proto portn =
     io_bind (must run ''inspect firewalld policies'' (permanent_cmd [''--get-policies''])) (\<lambda>out.
     io_bind (if containsField out ''jui'' then io_return False
              else io_bind (must run ''create J-UI firewalld policy''
                             (permanent_cmd [''--new-policy=jui''])) (\<lambda>_. io_return True)) (\<lambda>c1.
     io_bind (query_or_add run ''configure J-UI firewalld policy zone''
                ''--query-ingress-zone=ANY'' ''--add-ingress-zone=ANY'' c1) (\<lambda>c2.
     io_bind (query_or_add run ''configure J-UI firewalld policy zone''
                ''--query-egress-zone=HOST'' ''--add-egress-zone=HOST'' c2) (\<lambda>c3.
     io_bind (query_or_add run ''add J-UI firewalld policy port''
                (''--query-port='' @ port_spec proto portn)
                (''--add-port='' @ port_spec proto portn) c3) (\<lambda>changed.
     io_bind (if changed
              then io_bind (must run ''reload firewalld'' [''firewall-cmd'', ''--reload''])
                     (\<lambda>_. io_return ())
              else io_return ()) (\<lambda>_.
     io_return \<lparr>Ownership = Owned, Backend = BackendFirewalld\<rparr>))))))"

definition firewalldClose :: "'w runner \<Rightarrow> string \<Rightarrow> int \<Rightarrow> ('w, unit) io" where
  "firewalldClose run proto portn =
     io_bind (must run ''inspect firewalld policies'' (permanent_cmd [''--get-policies''])) (\<lambda>out.
       if \<not> containsField out ''jui'' then io_return ()
       else io_bind (exec run (permanent_cmd [''--policy=jui'', ''--query-port='' @ port_spec proto portn]))
         (\<lambda>(_, err).
           if err \<noteq> None then io_return ()
           else io_bind (must run ''remove J-UI firewalld policy port''
                  (permanent_cmd [''--policy=jui'', ''--remove-port='' @ port_spec proto portn])) (\<lambda>_.
                io_bind (must run ''reload firewalld'' [''firewall-cmd'', ''--reload''])
                  (\<lambda>_. io_return ()))))"

section \<open>UFW\<close>

definition ufwLineHasMarker :: "string \<Rightarrow> string \<Rightarrow> bool" where
  "ufwLineHasMarker line marker =
     (let needle = ''# '' @ marker
      in case index_of line needle of
           None \<Rightarrow> False
         | Some index \<Rightarrow>
             let after = drop (index + length needle) line
             in after = [] \<or> hd after = CHR '' '' \<or> hd after = TAB)"

definition ufwOutputHasMarker :: "string \<Rightarrow> string \<Rightarrow> bool" where
  "ufwOutputHasMarker out marker = list_ex (\<lambda>l. ufwLineHasMarker l marker) (split_char NL out)"

text \<open>The loop of \<open>ufwBorrowedRule\<close>: the flags are matched, IPv4 allow, IPv6 allow.\<close>

fun borrowed_loop :: "string \<Rightarrow> string \<Rightarrow> string list \<Rightarrow> bool \<times> bool \<times> bool \<Rightarrow> bool \<times> bool" where
  "borrowed_loop spec allp [] (matched, v4, v6) = (matched, v4 \<and> v6)"
| "borrowed_loop spec allp (line # ls) (matched, v4, v6) =
     (let ipv6 = contains line ''(v6)'';
          flds = filter (\<lambda>f. f \<noteq> ''(v6)'') (str_fields (trim_space line))
      in if flds = [] \<or> (hd flds \<noteq> spec \<and> hd flds \<noteq> allp)
         then borrowed_loop spec allp ls (matched, v4, v6)
         else if length flds < 3 \<or> flds ! 1 \<noteq> ''ALLOW'' then (True, False)
         else let sourceIndex = (if flds ! 2 = ''IN'' then 3 else 2)
           in if length flds \<le> sourceIndex \<or> flds ! sourceIndex \<noteq> ''Anywhere'' then (True, False)
              else if ipv6 then borrowed_loop spec allp ls (True, v4, True)
              else borrowed_loop spec allp ls (True, True, v6))"

definition ufwBorrowedRule :: "string \<Rightarrow> string \<Rightarrow> int \<Rightarrow> bool \<times> bool" where
  "ufwBorrowedRule out proto portn =
     borrowed_loop (port_spec proto portn) (itoa portn) (split_char NL out) (False, False, False)"

definition ufwEnsure :: "'w runner \<Rightarrow> string \<Rightarrow> int \<Rightarrow> ('w, fw_result) io" where
  "ufwEnsure run proto portn =
     (let marker = ruleMarker proto portn
      in io_bind (must run ''inspect UFW rules'' [''ufw'', ''status'']) (\<lambda>out.
           if ufwOutputHasMarker out marker
           then io_return \<lparr>Ownership = Owned, Backend = BackendUFW\<rparr>
           else case ufwBorrowedRule out proto portn of (matched, safelyBorrowed) \<Rightarrow>
             if safelyBorrowed then io_return \<lparr>Ownership = Borrowed, Backend = BackendUFW\<rparr>
             else if matched
             then io_fail (Err ''existing UFW rules do not provide an unambiguous global allow'')
             else io_bind (must run ''add owned UFW rule''
                    [''ufw'', ''allow'', port_spec proto portn, ''comment'', marker])
                    (\<lambda>_. io_return \<lparr>Ownership = Owned, Backend = BackendUFW\<rparr>)))"

fun ufw_numbers :: "string \<Rightarrow> string list \<Rightarrow> error + int list" where
  "ufw_numbers marker [] = Inr []"
| "ufw_numbers marker (line # ls) =
     (if \<not> ufwLineHasMarker line marker then ufw_numbers marker ls
      else case (index_byte line CHR ''['', index_byte line CHR 0x5D) of
          (Some openBracket, Some closeBracket) \<Rightarrow>
            if closeBracket \<le> openBracket then Inl (Err ''parse owned UFW rule number from line'')
            else (case atoi (trim_space (drop (Suc openBracket) (take closeBracket line))) of
                (n, None) \<Rightarrow> (case ufw_numbers marker ls of Inl e \<Rightarrow> Inl e | Inr ns \<Rightarrow> Inr (n # ns))
              | (_, Some _) \<Rightarrow> Inl (Err ''parse owned UFW rule number''))
        | _ \<Rightarrow> Inl (Err ''parse owned UFW rule number from line''))"

definition delete_number :: "'w runner \<Rightarrow> int \<Rightarrow> ('w, unit) io" where
  "delete_number run n =
     io_bind (must run ''remove owned UFW rule'' [''ufw'', ''--force'', ''delete'', itoa n])
       (\<lambda>_. io_return ())"

definition ufwClose :: "'w runner \<Rightarrow> string \<Rightarrow> int \<Rightarrow> ('w, unit) io" where
  "ufwClose run proto portn =
     io_bind (must run ''inspect numbered UFW rules'' [''ufw'', ''status'', ''numbered'']) (\<lambda>out.
       if contains (to_lower out) ''status: inactive''
       then io_fail (Err ''cannot safely remove an owned UFW rule while UFW is inactive'')
       else case ufw_numbers (ruleMarker proto portn) (split_char NL out) of
           Inl e \<Rightarrow> io_fail e
         | Inr numbers \<Rightarrow> io_each (delete_number run) (rev (sort numbers)))"

section \<open>nftables\<close>

definition decode_chain :: "json \<Rightarrow> error + nft_chain option" where
  "decode_chain j = (case j of
      JNull \<Rightarrow> Inr None
    | JObj ob \<Rightarrow>
        (case (field_string ob ''family'', field_string ob ''table'', field_string ob ''name'',
               field_string ob ''hook'', field_string ob ''policy'') of
           (Inr f, Inr t, Inr n, Inr h, Inr p) \<Rightarrow>
             Inr (Some \<lparr>ch_family = f, ch_table = t, ch_name = n, ch_hook = h, ch_policy = p\<rparr>)
         | _ \<Rightarrow> Inl (Err ''json: cannot unmarshal chain''))
    | _ \<Rightarrow> Inl (Err ''json: cannot unmarshal chain''))"

definition decode_rule :: "json \<Rightarrow> error + nft_rule option" where
  "decode_rule j = (case j of
      JNull \<Rightarrow> Inr None
    | JObj ob \<Rightarrow>
        (case (field_string ob ''family'', field_string ob ''table'', field_string ob ''chain'',
               field_int ob ''handle'', field_string ob ''comment'') of
           (Inr f, Inr t, Inr c, Inr h, Inr m) \<Rightarrow>
             Inr (Some \<lparr>ru_family = f, ru_table = t, ru_chain = c, ru_handle = h, ru_comment = m\<rparr>)
         | _ \<Rightarrow> Inl (Err ''json: cannot unmarshal rule''))
    | _ \<Rightarrow> Inl (Err ''json: cannot unmarshal rule''))"

fun decode_objects :: "json list \<Rightarrow> error + nft_object list" where
  "decode_objects [] = Inr []"
| "decode_objects (j # js) = (case (case j of JNull \<Rightarrow> Some [] | JObj ob \<Rightarrow> Some ob | _ \<Rightarrow> None) of
      None \<Rightarrow> Inl (Err ''json: cannot unmarshal object'')
    | Some ob \<Rightarrow>
        (case (decode_chain (json_member ob ''chain''), decode_rule (json_member ob ''rule''),
               decode_objects js) of
           (Inr c, Inr r, Inr os) \<Rightarrow> Inr ((c, r) # os)
         | _ \<Rightarrow> Inl (Err ''json: cannot unmarshal object'')))"

definition decode_ruleset :: "string \<Rightarrow> error + nft_object list" where
  "decode_ruleset text0 = (case json_parse text0 of
      Some (JObj ob) \<Rightarrow> (case json_member ob ''nftables'' of
          JList js \<Rightarrow> decode_objects js
        | JNull \<Rightarrow> Inr []
        | _ \<Rightarrow> Inl (Err ''json: cannot unmarshal nftables''))
    | Some JNull \<Rightarrow> Inr []
    | _ \<Rightarrow> Inl (Err ''json: invalid document''))"

definition read_ruleset :: "'w runner \<Rightarrow> ('w, nft_object list) io" where
  "read_ruleset run =
     io_bind (must run ''inspect nftables ruleset'' [''nft'', ''-j'', ''-a'', ''list'', ''ruleset''])
       (\<lambda>out. case decode_ruleset out of
          Inl e \<Rightarrow> io_fail (Wrap ''decode nftables ruleset'' e) | Inr rs \<Rightarrow> io_return rs)"

definition drop_chain :: "nft_object \<Rightarrow> chain_ref option" where
  "drop_chain ob = (case fst ob of
      Some c \<Rightarrow>
        if ch_hook c = ''input'' \<and> ch_policy c = ''drop'' \<and>
           validNFTReference (ch_family c) (ch_table c) (ch_name c)
        then Some (ch_family c, ch_table c, ch_name c) else None
    | None \<Rightarrow> None)"

definition marked_chain :: "string \<Rightarrow> nft_object \<Rightarrow> chain_ref option" where
  "marked_chain marker ob = (case snd ob of
      Some r \<Rightarrow> if ru_comment r = marker then Some (ru_family r, ru_table r, ru_chain r) else None
    | None \<Rightarrow> None)"

definition chain_key :: "chain_ref \<Rightarrow> string" where
  "chain_key = (\<lambda>(f, t, c). f @ ''/'' @ t @ ''/'' @ c)"

definition nftDropInputChains :: "nft_object list \<Rightarrow> string \<Rightarrow> chain_ref list \<times> chain_ref list" where
  "nftDropInputChains obs marker =
     (sort_key chain_key (List.map_filter drop_chain obs), List.map_filter (marked_chain marker) obs)"

fun insert_args :: "string \<Rightarrow> int \<Rightarrow> chain_ref list \<Rightarrow> chain_ref list \<Rightarrow> string list \<Rightarrow> string list" where
  "insert_args proto portn existing [] args = args"
| "insert_args proto portn existing ((f, t, c) # cs) args =
     (if (f, t, c) \<in> set existing then insert_args proto portn existing cs args
      else insert_args proto portn existing cs
        ((if args \<noteq> [] then args @ ['';''] else args) @
         [''insert'', ''rule'', f, t, c, proto, ''dport'', itoa portn, ''accept'', ''comment'',
          ruleMarker proto portn]))"

definition nftEnsure :: "'w runner \<Rightarrow> (string \<Rightarrow> bool) \<Rightarrow> string \<Rightarrow> int \<Rightarrow> ('w, fw_result) io" where
  "nftEnsure run look proto portn =
     (if \<not> look ''nft'' then io_fail no_backend
      else
        let marker = ruleMarker proto portn; owned = \<lparr>Ownership = Owned, Backend = BackendNFTables\<rparr>
        in io_bind (read_ruleset run) (\<lambda>ruleset.
          case nftDropInputChains ruleset marker of (dropChains, existing) \<Rightarrow>
            if dropChains \<noteq> [] then
              let args = insert_args proto portn existing dropChains []
              in if args = [] then io_return owned
                 else io_bind (must run ''insert nftables rule into policy-drop input chain'' (''nft'' # args))
                        (\<lambda>_. io_return owned)
            else
              io_bind (exec run [''nft'', ''list'', ''table'', ''inet'', ''jui'']) (\<lambda>(_, e1).
              io_bind (if e1 = None then io_return []
                       else must run ''create nftables table'' [''nft'', ''add'', ''table'', ''inet'', ''jui'']) (\<lambda>_.
              io_bind (exec run [''nft'', ''list'', ''chain'', ''inet'', ''jui'', ''input'']) (\<lambda>(_, e2).
              io_bind (if e2 = None then io_return []
                       else must run ''create nftables chain''
                         [''nft'', ''add'', ''chain'', ''inet'', ''jui'', ''input'', [CHR 0x7B], ''type'',
                          ''filter'', ''hook'', ''input'', ''priority'', ''-5'', '';'', [CHR 0x7D]]) (\<lambda>_.
              io_bind (must run ''inspect nftables chain''
                         [''nft'', ''list'', ''chain'', ''inet'', ''jui'', ''input'']) (\<lambda>out.
                if contains out (''comment '' @ [DQ] @ marker @ [DQ]) then io_return owned
                else io_bind (must run ''add nftables rule''
                       [''nft'', ''add'', ''rule'', ''inet'', ''jui'', ''input'', proto, ''dport'',
                        itoa portn, ''accept'', ''comment'', marker])
                     (\<lambda>_. io_return owned))))))))"

fun delete_args :: "string \<Rightarrow> nft_object list \<Rightarrow> string list \<Rightarrow> error + string list" where
  "delete_args marker [] args = Inr args"
| "delete_args marker (ob # obs) args = (case snd ob of
      None \<Rightarrow> delete_args marker obs args
    | Some r \<Rightarrow>
        if ru_comment r \<noteq> marker \<or> ru_handle r < 1 then delete_args marker obs args
        else if \<not> validNFTReference (ru_family r) (ru_table r) (ru_chain r)
        then Inl (Err ''invalid nftables rule reference'')
        else delete_args marker obs
          ((if args \<noteq> [] then args @ ['';''] else args) @
           [''delete'', ''rule'', ru_family r, ru_table r, ru_chain r, ''handle'', itoa (ru_handle r)]))"

definition nftClose :: "'w runner \<Rightarrow> (string \<Rightarrow> bool) \<Rightarrow> string \<Rightarrow> int \<Rightarrow> ('w, unit) io" where
  "nftClose run look proto portn =
     (if \<not> look ''nft'' then io_fail no_backend
      else io_bind (read_ruleset run) (\<lambda>ruleset.
        case delete_args (ruleMarker proto portn) ruleset [] of
          Inl e \<Rightarrow> io_fail e
        | Inr args \<Rightarrow>
            if args = [] then io_return ()
            else io_bind (must run ''delete owned nftables rules'' (''nft'' # args)) (\<lambda>_. io_return ())))"

section \<open>The system's manager and the mock\<close>

definition System_Ensure :: "'w runner \<Rightarrow> (string \<Rightarrow> bool) \<Rightarrow> string \<Rightarrow> int \<Rightarrow> ('w, fw_result) io" where
  "System_Ensure run look proto portn = (case validateRule proto portn of
      Some e \<Rightarrow> io_fail e
    | None \<Rightarrow> io_bind (System_Backend run look) (\<lambda>backend.
        if backend = BackendFirewalld then firewalldEnsure run proto portn
        else if backend = BackendUFW then ufwEnsure run proto portn
        else nftEnsure run look proto portn))"

definition System_Close ::
    "'w runner \<Rightarrow> (string \<Rightarrow> bool) \<Rightarrow> string \<Rightarrow> int \<Rightarrow> string \<Rightarrow> ('w, unit) io" where
  "System_Close run look proto portn backend = (case validateRule proto portn of
      Some e \<Rightarrow> io_fail e
    | None \<Rightarrow>
        if backend = BackendFirewalld then
          (if \<not> look ''firewall-cmd''
           then io_fail (Err ''cannot remove owned firewalld rule while firewall-cmd is unavailable'')
           else firewalldClose run proto portn)
        else if backend = BackendUFW then
          (if \<not> look ''ufw''
           then io_fail (Err ''cannot remove owned UFW rule while ufw is unavailable'')
           else ufwClose run proto portn)
        else if backend = BackendNFTables then nftClose run look proto portn
        else if backend = [] \<or> backend = BackendUnknown then
          io_bind (fw_firewalld run look) (\<lambda>f.
            if f then firewalldClose run proto portn
            else io_bind (fw_ufw run look) (\<lambda>u.
              if u then ufwClose run proto portn else nftClose run look proto portn))
        else io_fail (Err ''unsupported recorded firewall backend''))"

definition System :: "'w runner \<Rightarrow> (string \<Rightarrow> bool) \<Rightarrow> 'w manager" where
  "System run look = \<lparr>mgr_backend = System_Backend run look, mgr_ensure = System_Ensure run look,
     mgr_close = System_Close run look\<rparr>"

definition Mock :: "'w manager" where
  "Mock = \<lparr>mgr_backend = io_return BackendNFTables,
     mgr_ensure = (\<lambda>_ _. io_return \<lparr>Ownership = Owned, Backend = BackendNFTables\<rparr>),
     mgr_close = (\<lambda>_ _ _. io_return ())\<rparr>"

section \<open>Markers\<close>

lemma ruleMarker_chars: "c \<in> set (ruleMarker proto n) \<Longrightarrow> proto \<in> {''tcp'', ''udp''} \<Longrightarrow>
   is_digit c \<or> c \<in> set ''jui-tcpd''"
  using itoa_chars [of c n] by (auto simp: ruleMarker_def)

lemma validateRule_None [simp]:
  "validateRule proto n = None \<longleftrightarrow> proto \<in> {''tcp'', ''udp''} \<and> 1 \<le> n \<and> n \<le> 65535"
  by (auto simp: validateRule_def)

lemma ruleMarker_inj:
  assumes "validateRule p m = None" and "validateRule q n = None"
  shows "ruleMarker p m = ruleMarker q n \<longleftrightarrow> p = q \<and> m = n"
proof -
  have "int64 m" "int64 n" using assms by (auto simp: int64_def)
  then show ?thesis using assms by (auto simp: ruleMarker_def itoa_inj)
qed

lemma marker_line:
  assumes "CHR ''#'' \<notin> set pre" and "\<forall>c\<in>set m. c \<noteq> CHR ''#'' \<and> \<not> is_space c"
  shows "ufwLineHasMarker (pre @ ''# '' @ m) m' \<longleftrightarrow>
    (\<exists>after. m = m' @ after \<and> (after = [] \<or> hd after = CHR '' '' \<or> hd after = TAB))"
proof -
  have "index_of (CHR '' '' # m) (CHR ''#'' # CHR '' '' # m') = None"
    using assms(2) by (intro index_of_absent) auto
  moreover have "has_prefix (CHR ''#'' # CHR '' '' # m) (CHR ''#'' # CHR '' '' # m') \<longleftrightarrow> has_prefix m m'"
    by (simp add: has_prefix_def)
  ultimately have "index_of (''# '' @ m) (''# '' @ m') = (if has_prefix m m' then Some 0 else None)"
    by (simp only: append_Cons append_Nil index_of.simps option.map if_True if_False split: if_split)
  then have "index_of (pre @ ''# '' @ m) (''# '' @ m') = (if has_prefix m m' then Some (length pre) else None)"
    using index_of_skip [of "CHR ''#''" pre "''# '' @ m" "'' '' @ m'"] assms(1) by simp
  then show ?thesis by (auto simp: ufwLineHasMarker_def has_prefix_iff)
qed

text \<open>A UFW line that carries the comment of one of the panel's rules is recognised as the
  marker of that rule and of no other: the marker of port 80 is not found in the one of 8080.\<close>

theorem marker_recognises_own_rule:
  assumes "validateRule p m = None" and "validateRule q n = None" and "CHR ''#'' \<notin> set pre"
  shows "ufwLineHasMarker (pre @ ''# '' @ ruleMarker p m) (ruleMarker q n) \<longleftrightarrow> p = q \<and> m = n"
proof -
  have c: "\<forall>c\<in>set (ruleMarker p m). c \<noteq> CHR ''#'' \<and> \<not> is_space c"
  proof
    fix c assume "c \<in> set (ruleMarker p m)"
    then have "is_digit c \<or> c \<in> set ''jui-tcpd''" using ruleMarker_chars assms(1) by simp
    then show "c \<noteq> CHR ''#'' \<and> \<not> is_space c" by (auto simp: is_digit_def is_space_def)
  qed
  have nosp: "after = []" if "ruleMarker p m = ruleMarker q n @ after"
      "after = [] \<or> hd after = CHR '' '' \<or> hd after = TAB" for after
  proof (rule ccontr)
    assume ne: "after \<noteq> []"
    have "set after \<subseteq> set (ruleMarker p m)" unfolding that(1) by simp
    then have "\<not> is_space (hd after)" using c hd_in_set [OF ne] by blast
    then show False using that(2) ne by (auto simp: is_space_def TAB_def)
  qed
  show ?thesis
    using marker_line [OF assms(3) c, of "ruleMarker q n"] nosp ruleMarker_inj [OF assms(1,2)]
    by (metis append_Nil2)
qed

theorem marker_recognises_own_rule_witness:
  "\<not> ufwLineHasMarker (''8080/tcp ALLOW IN Anywhere '' @ ''# '' @ ruleMarker ''tcp'' 8080) (ruleMarker ''tcp'' 80)"
proof -
  have "CHR ''#'' \<notin> set ''8080/tcp ALLOW IN Anywhere ''" by simp
  from marker_recognises_own_rule [OF _ _ this, of "''tcp''" 8080 "''tcp''" 80] show ?thesis by simp
qed

section \<open>Removing numbered rules\<close>

text \<open>Positions of the marked rules, counted from one.\<close>

fun marked_positions :: "('a \<Rightarrow> bool) \<Rightarrow> nat \<Rightarrow> 'a list \<Rightarrow> nat list" where
  "marked_positions P i [] = []"
| "marked_positions P i (x # xs) = (if P x then i # marked_positions P (Suc i) xs else marked_positions P (Suc i) xs)"

definition drop_nth :: "nat \<Rightarrow> 'a list \<Rightarrow> 'a list" where
  "drop_nth n xs = take (n - 1) xs @ drop n xs"

lemma marked_positions_bounds: "n \<in> set (marked_positions P i xs) \<Longrightarrow> i \<le> n \<and> n < i + length xs"
  by (induction xs arbitrary: i) (fastforce split: if_splits)+

lemma marked_positions_sorted: "sorted (marked_positions P i xs)"
proof (induction xs arbitrary: i)
  case (Cons x xs)
  then show ?case using marked_positions_bounds [of _ P "Suc i" xs] by (fastforce dest: Suc_leD)
qed simp

lemma foldr_drop_marked:
  "foldr drop_nth (marked_positions P (Suc (length ps)) xs) (ps @ xs) = ps @ filter (\<lambda>x. \<not> P x) xs"
proof (induction xs arbitrary: ps)
  case (Cons x xs)
  have "drop_nth (Suc (length ps)) (ps @ x # ys) = ps @ ys" for ys by (simp add: drop_nth_def)
  then show ?case using Cons.IH [of "ps @ [x]"] by simp
qed simp

text \<open>The documented behaviour of \<open>ufw status numbered\<close> and \<open>ufw --force delete n\<close>, for the list of
  rules a world has.\<close>

definition listing_line :: "nat \<Rightarrow> string \<Rightarrow> string" where
  "listing_line n rule = ''['' @ (if n < 10 then '' '' else []) @ nat_dec n @ ''] '' @ rule"

fun listing_lines :: "nat \<Rightarrow> string list \<Rightarrow> string list" where
  "listing_lines n [] = []"
| "listing_lines n (r # rs) = listing_line n r # listing_lines (Suc n) rs"

definition ufw_listing :: "string list \<Rightarrow> string" where
  "ufw_listing rs = join [NL] ([''Status: active'', [],
     ''     To                         Action      From'',
     ''     --                         ------      ----''] @ listing_lines 1 rs @ [[], []])"

definition ufw_documented :: "'w runner \<Rightarrow> ('w \<Rightarrow> string list) \<Rightarrow> bool" where
  "ufw_documented run rules \<longleftrightarrow>
     (\<forall>w. \<exists>w'. run [''ufw'', ''status'', ''numbered''] w = ((ufw_listing (rules w), None), w') \<and>
            rules w' = rules w) \<and>
     (\<forall>w n. 1 \<le> n \<and> n \<le> length (rules w) \<and> n < 2 ^ 63 \<longrightarrow>
        (\<exists>out w'. run [''ufw'', ''--force'', ''delete'', itoa (int n)] w = ((out, None), w') \<and>
            rules w' = drop_nth n (rules w)))"

lemma ufw_documented_delete:
  "ufw_documented run rules \<Longrightarrow> 1 \<le> n \<Longrightarrow> n \<le> length (rules w) \<Longrightarrow> n < 2 ^ 63 \<Longrightarrow>
     \<exists>out w'. run [''ufw'', ''--force'', ''delete'', itoa (int n)] w = ((out, None), w') \<and>
       rules w' = drop_nth n (rules w)"
  unfolding ufw_documented_def by blast

lemma nat_dec_plain: "c \<in> set (nat_dec n) \<Longrightarrow> c \<notin> {CHR ''#'', CHR ''['', CHR 0x5D, NL} \<and> \<not> is_space c"
  using nat_dec_digits [of c n] by (auto simp: is_digit_def is_space_def NL_def)

lemma hasMarker_skip:
  "CHR ''#'' \<notin> set pre \<Longrightarrow> ufwLineHasMarker (pre @ line) m = ufwLineHasMarker line m"
  by (simp add: ufwLineHasMarker_def index_of_skip add.assoc split: option.split)

lemma listing_line_marker: "ufwLineHasMarker (listing_line n r) m = ufwLineHasMarker r m"
proof -
  have "listing_line n r = (''['' @ (if n < 10 then '' '' else []) @ nat_dec n @ ''] '') @ r"
    by (simp add: listing_line_def)
  moreover have "CHR ''#'' \<notin> set (''['' @ (if n < 10 then '' '' else []) @ nat_dec n @ ''] '')"
    using nat_dec_plain [of "CHR ''#''" n] by auto
  ultimately show ?thesis using hasMarker_skip by metis
qed

lemma trim_space_pad: "\<forall>c\<in>set s. \<not> is_space c \<Longrightarrow> trim_space (CHR '' '' # s) = s"
  using trim_space_noop [of s] by (simp add: trim_space_def trim_both_def trim_left_def is_space_def)

lemma listing_line_number:
  "index_byte (listing_line n r) CHR ''['' = Some 0"
  "\<exists>k. index_byte (listing_line n r) CHR 0x5D = Some (Suc k) \<and>
     trim_space (drop 1 (take (Suc k) (listing_line n r))) = nat_dec n"
proof -
  let ?pad = "(if n < 10 then '' '' else []) @ nat_dec n"
  have l: "listing_line n r = ''['' @ ?pad @ CHR 0x5D # CHR '' '' # r" by (simp add: listing_line_def)
  show "index_byte (listing_line n r) CHR ''['' = Some 0" by (simp add: l)
  have "CHR 0x5D \<notin> set ?pad" using nat_dec_plain [of "CHR 0x5D" n] by auto
  then have "index_byte (listing_line n r) CHR 0x5D = Some (Suc (length ?pad))"
    using index_byte_append [of "CHR 0x5D" "''['' @ ?pad" "CHR '' '' # r"] by (simp add: l)
  moreover have "drop 1 (take (Suc (length ?pad)) (listing_line n r)) = ?pad" by (simp add: l)
  moreover have "trim_space ?pad = nat_dec n"
    using nat_dec_plain trim_space_pad [of "nat_dec n"] trim_space_noop [of "nat_dec n"] by auto
  ultimately show "\<exists>k. index_byte (listing_line n r) CHR 0x5D = Some (Suc k) \<and>
     trim_space (drop 1 (take (Suc k) (listing_line n r))) = nat_dec n" by metis
qed

lemma atoi_nat_dec: "n < 2 ^ 63 \<Longrightarrow> atoi (nat_dec n) = (int n, None)"
  using atoi_itoa [of "int n"] by (simp add: itoa_def int64_def)

lemma ufw_numbers_listing:
  "n + length rs < 2 ^ 63 \<Longrightarrow>
   ufw_numbers m (listing_lines n rs @ tail) =
     (case ufw_numbers m tail of Inl e \<Rightarrow> Inl e
      | Inr ns \<Rightarrow> Inr (map int (marked_positions (\<lambda>r. ufwLineHasMarker r m) n rs) @ ns))"
proof (induction rs arbitrary: n)
  case (Cons r rs)
  note IH = Cons.IH [of "Suc n"]
  have lt: "n < 2 ^ 63" using Cons.prems by simp
  obtain k where k: "index_byte (listing_line n r) CHR 0x5D = Some (Suc k)"
    "trim_space (drop 1 (take (Suc k) (listing_line n r))) = nat_dec n"
    using listing_line_number(2) by blast
  show ?case
    using IH Cons.prems k listing_line_number(1) [of n r] atoi_nat_dec [OF lt]
    by (simp add: listing_line_marker split: sum.split)
qed (simp split: sum.split)

lemma io_each_append: "io_each f (xs @ ys) = io_bind (io_each f xs) (\<lambda>_. io_each f ys)"
proof (induction xs)
  case (Cons x xs)
  then show ?case by (auto simp: fun_eq_iff io_bind_def split: prod.splits sum.splits)
qed (simp add: fun_eq_iff io_bind_def)

lemma delete_marked:
  assumes "ufw_documented run rules"
  shows "rules w = ps @ xs \<Longrightarrow> length ps + length xs < 2 ^ 63 \<Longrightarrow>
    \<exists>w'. io_each (delete_number run) (map int (rev (marked_positions P (Suc (length ps)) xs))) w = (Inr (), w') \<and>
      rules w' = ps @ filter (\<lambda>x. \<not> P x) xs"
proof (induction xs arbitrary: ps w)
  case (Cons x xs)
  obtain w1 where w1: "io_each (delete_number run)
      (map int (rev (marked_positions P (Suc (Suc (length ps))) xs))) w = (Inr (), w1)"
    "rules w1 = ps @ x # filter (\<lambda>x. \<not> P x) xs"
    using Cons.IH [of w "ps @ [x]"] Cons.prems by auto
  show ?case
  proof (cases "P x")
    case True
    obtain out w' where d: "run [''ufw'', ''--force'', ''delete'', itoa (int (Suc (length ps)))] w1 = ((out, None), w')"
      "rules w' = drop_nth (Suc (length ps)) (rules w1)"
      using ufw_documented_delete [OF assms, of "Suc (length ps)" w1] w1(2) Cons.prems(2) by auto
    then have del: "delete_number run (int (Suc (length ps))) w1 = (Inr (), w')"
      by (simp only: delete_number_def must_def io_bind_def exec_def) simp
    have "rules w' = ps @ filter (\<lambda>x. \<not> P x) (x # xs)"
      using d(2) w1(2) True by (simp add: drop_nth_def)
    moreover have "io_each (delete_number run)
        (map int (rev (marked_positions P (Suc (length ps)) (x # xs)))) w = (Inr (), w')"
      using True w1(1) del by (simp only: marked_positions.simps if_True rev.simps map_append
          io_each_append io_bind_Inr list.map io_each.simps io_return_apply)
    ultimately show ?thesis by blast
  qed (use w1 in simp)
qed simp

lemma listing_lines_set: "l \<in> set (listing_lines n rs) \<Longrightarrow> \<exists>k r. r \<in> set rs \<and> l = listing_line k r"
proof (induction rs arbitrary: n)
  case (Cons r rs)
  then show ?case by (cases "l = listing_line n r") (auto, blast+)
qed simp

lemma listing_lines_NL:
  assumes "\<forall>r\<in>set rs. NL \<notin> set r" and "l \<in> set (listing_lines n rs)"
  shows "NL \<notin> set l"
proof -
  obtain k r where "r \<in> set rs" "l = listing_line k r" using assms(2) listing_lines_set by blast
  then show ?thesis using assms(1) nat_dec_plain [of NL k] by (auto simp: listing_line_def NL_def)
qed

definition listing_head :: "string list" where
  "listing_head = [''Status: active'', [],
     ''     To                         Action      From'',
     ''     --                         ------      ----'']"

lemma listing_head_plain: "\<forall>l\<in>set listing_head. CHR ''#'' \<notin> set l \<and> NL \<notin> set l"
proof -
  have "list_all (\<lambda>l. CHR ''#'' \<notin> set l \<and> NL \<notin> set l) listing_head" by code_simp
  then show ?thesis by (simp add: list_all_iff)
qed

lemma split_listing:
  assumes "\<forall>r\<in>set rs. NL \<notin> set r"
  shows "split_char NL (ufw_listing rs) = listing_head @ listing_lines 1 rs @ [[], []]"
proof -
  have "ufw_listing rs = join [NL] (listing_head @ listing_lines 1 rs @ [[], []])"
    by (simp add: ufw_listing_def listing_head_def)
  moreover have "\<forall>l\<in>set (listing_head @ listing_lines 1 rs @ [[], []]). NL \<notin> set l"
    using listing_lines_NL [OF assms] listing_head_plain by auto
  ultimately show ?thesis using split_join [of "listing_head @ listing_lines 1 rs @ [[], []]" NL] by simp
qed

lemma no_marker: "CHR ''#'' \<notin> set l \<Longrightarrow> \<not> ufwLineHasMarker l m"
  using index_of_absent [of "CHR ''#''" l "'' '' @ m"] by (simp add: ufwLineHasMarker_def)

lemma ufw_numbers_unmarked:
  "\<forall>l\<in>set ls. CHR ''#'' \<notin> set l \<Longrightarrow> ufw_numbers m (ls @ tail) = ufw_numbers m tail"
  by (induction ls) (simp_all add: no_marker)

lemma sorted_map_int: "sorted ns \<Longrightarrow> sorted (map int ns)"
  by (simp add: sorted_wrt_map)

text \<open>C28: On a UFW that lists and deletes its rules by number as documented, closing a port removes
  exactly the rules that carry the panel's marker of that port, keeps every other rule, and
  succeeds: deleting from the highest number down never deletes a rule that moved.\<close>

theorem ufwClose_exact:
  assumes doc: "ufw_documented run rules"
    and plain: "\<forall>r\<in>set (rules w). NL \<notin> set r"
    and active: "\<not> contains (to_lower (ufw_listing (rules w))) ''status: inactive''"
    and count: "length (rules w) < 2 ^ 62"
  shows "\<exists>w'. ufwClose run proto n w = (Inr (), w') \<and>
     rules w' = filter (\<lambda>r. \<not> ufwLineHasMarker r (ruleMarker proto n)) (rules w)"
proof -
  let ?m = "ruleMarker proto n" and ?pos = "marked_positions (\<lambda>r. ufwLineHasMarker r (ruleMarker proto n)) 1 (rules w)"
  obtain w1 where w1: "run [''ufw'', ''status'', ''numbered''] w = ((ufw_listing (rules w), None), w1)"
    "rules w1 = rules w" using doc unfolding ufw_documented_def by blast
  have "ufw_numbers ?m (listing_lines 1 (rules w) @ [[], []]) = Inr (map int ?pos)"
    using count ufw_numbers_listing [of 1 "rules w" ?m "[[], []]"] by (simp add: no_marker)
  then have nums: "ufw_numbers ?m (split_char NL (ufw_listing (rules w))) = Inr (map int ?pos)"
    using ufw_numbers_unmarked [of listing_head ?m] listing_head_plain by (simp add: split_listing [OF plain])
  have "rev (sort (map int ?pos)) = map int (rev ?pos)"
    by (simp only: sorted_sort_id [OF sorted_map_int [OF marked_positions_sorted]] rev_map)
  then have "ufwClose run proto n w = io_each (delete_number run) (map int (rev ?pos)) w1"
    using w1(1) nums active by (simp add: ufwClose_def must_def io_bind_def)
  moreover obtain w2 where "io_each (delete_number run) (map int (rev ?pos)) w1 = (Inr (), w2)"
    "rules w2 = filter (\<lambda>r. \<not> ufwLineHasMarker r ?m) (rules w)"
    using delete_marked [OF doc, of w1 "[]" "rules w"] w1(2) count by auto
  ultimately show ?thesis by auto
qed

definition demo_ufw :: "string list runner" where
  "demo_ufw args rs =
     (if args = [''ufw'', ''status'', ''numbered''] then ((ufw_listing rs, None), rs)
      else (([], None), (case atoi_opt (last args) of Some k \<Rightarrow> drop_nth (nat k) rs | None \<Rightarrow> rs)))"

lemma demo_ufw_documented: "ufw_documented demo_ufw (\<lambda>rs. rs)"
  unfolding ufw_documented_def demo_ufw_def
  using decimal.dec_enc_ok by (auto simp: int64_def)

theorem ufwClose_exact_witness:
  "\<exists>w'. ufwClose demo_ufw ''tcp'' 80
      [''22/tcp ALLOW IN Anywhere'', ''80/tcp ALLOW IN Anywhere # jui-tcp-80'',
       ''8080/tcp ALLOW IN Anywhere # jui-tcp-8080''] = (Inr (), w') \<and>
   w' = [''22/tcp ALLOW IN Anywhere'', ''8080/tcp ALLOW IN Anywhere # jui-tcp-8080'']"
proof -
  let ?rs = "[''22/tcp ALLOW IN Anywhere'', ''80/tcp ALLOW IN Anywhere # jui-tcp-80'',
       ''8080/tcp ALLOW IN Anywhere # jui-tcp-8080'']"
  have 1: "\<forall>r\<in>set ?rs. NL \<notin> set r" by (simp add: NL_def)
  have 2: "\<not> contains (to_lower (ufw_listing ?rs)) ''status: inactive''" by code_simp
  have 3: "filter (\<lambda>r. \<not> ufwLineHasMarker r (ruleMarker ''tcp'' 80)) ?rs
      = [''22/tcp ALLOW IN Anywhere'', ''8080/tcp ALLOW IN Anywhere # jui-tcp-8080'']" by code_simp
  from ufwClose_exact [OF demo_ufw_documented, of ?rs "''tcp''" 80, OF 1 2] show ?thesis by (simp only: 3) simp
qed

section \<open>Borrowed rules\<close>

definition rule_fields :: "string \<Rightarrow> string list" where
  "rule_fields line = filter (\<lambda>f. f \<noteq> ''(v6)'') (str_fields (trim_space line))"

definition names_port :: "string \<Rightarrow> int \<Rightarrow> string \<Rightarrow> bool" where
  "names_port proto n line \<longleftrightarrow> rule_fields line \<noteq> [] \<and>
     (hd (rule_fields line) = port_spec proto n \<or> hd (rule_fields line) = itoa n)"

definition global_allow :: "string \<Rightarrow> bool" where
  "global_allow line \<longleftrightarrow> (\<exists>f rest. rule_fields line = f # ''ALLOW'' # ''Anywhere'' # rest \<or>
     rule_fields line = f # ''ALLOW'' # ''IN'' # ''Anywhere'' # rest)"

lemma list_at_2: "3 \<le> length xs \<Longrightarrow> \<exists>a b c rest. xs = a # b # c # rest"
  by (cases xs; cases "tl xs"; cases "tl (tl xs)") auto

lemma borrowed_step:
  "borrowed_loop (port_spec proto n) (itoa n) (line # ls) (m, v4, v6) =
     (if \<not> names_port proto n line then borrowed_loop (port_spec proto n) (itoa n) ls (m, v4, v6)
      else if \<not> global_allow line then (True, False)
      else borrowed_loop (port_spec proto n) (itoa n) ls
             (True, v4 \<or> \<not> contains line ''(v6)'', v6 \<or> contains line ''(v6)''))"
proof -
  let ?f = "rule_fields line"
  have np: "names_port proto n line \<longleftrightarrow> \<not> (?f = [] \<or> (hd ?f \<noteq> port_spec proto n \<and> hd ?f \<noteq> itoa n))"
    by (auto simp: names_port_def)
  have ga: "global_allow line \<longleftrightarrow> \<not> (length ?f < 3 \<or> ?f ! 1 \<noteq> ''ALLOW'') \<and>
      \<not> (length ?f \<le> (if ?f ! 2 = ''IN'' then 3 else 2) \<or> ?f ! (if ?f ! 2 = ''IN'' then 3 else 2) \<noteq> ''Anywhere'')"
  proof (cases "3 \<le> length ?f")
    case True
    then obtain a b c rest where f: "?f = a # b # c # rest" using list_at_2 by blast
    show ?thesis by (cases rest) (auto simp: global_allow_def f)
  next
    case False
    then show ?thesis by (auto simp: global_allow_def)
  qed
  show ?thesis
    by (simp only: borrowed_loop.simps Let_def rule_fields_def [symmetric] np ga) auto
qed

lemma borrowed_loop_spec:
  "borrowed_loop (port_spec proto n) (itoa n) ls (m, v4, v6) =
     (m \<or> list_ex (names_port proto n) ls,
      list_all (\<lambda>l. names_port proto n l \<longrightarrow> global_allow l) ls \<and>
      (v4 \<or> list_ex (\<lambda>l. names_port proto n l \<and> \<not> contains l ''(v6)'') ls) \<and>
      (v6 \<or> list_ex (\<lambda>l. names_port proto n l \<and> contains l ''(v6)'') ls))"
proof (induction ls arbitrary: m v4 v6)
  case (Cons l ls)
  then show ?case by (simp add: borrowed_step del: borrowed_loop.simps(2), blast?)
qed simp

text \<open>A rule is borrowed exactly when every UFW line about the port, with or without the
  protocol, allows it from anywhere, and there is such a line for IPv4 and one for IPv6.\<close>

theorem ufwBorrowedRule_exact:
  "ufwBorrowedRule out proto n =
     (\<exists>l\<in>set (split_char NL out). names_port proto n l,
      (\<forall>l\<in>set (split_char NL out). names_port proto n l \<longrightarrow> global_allow l) \<and>
      (\<exists>l\<in>set (split_char NL out). names_port proto n l \<and> \<not> contains l ''(v6)'') \<and>
      (\<exists>l\<in>set (split_char NL out). names_port proto n l \<and> contains l ''(v6)''))"
  by (simp add: ufwBorrowedRule_def borrowed_loop_spec list_ex_iff list_all_iff)

definition demo_ufw_status :: string where
  "demo_ufw_status = join [NL] [''Status: active'', ''443/tcp ALLOW Anywhere'', ''443/tcp (v6) ALLOW Anywhere (v6)'']"

theorem ufwBorrowedRule_exact_witness:
  "ufwBorrowedRule demo_ufw_status ''tcp'' 443 = (True, True) \<and>
   (\<exists>l\<in>set (split_char NL demo_ufw_status). names_port ''tcp'' 443 l \<and> contains l ''(v6)'')"
proof -
  have "ufwBorrowedRule demo_ufw_status ''tcp'' 443 = (True, True)" by code_simp
  then show ?thesis using ufwBorrowedRule_exact [of demo_ufw_status "''tcp''" 443] by auto
qed

section \<open>firewalld: the permanent configuration and the running one\<close>

text \<open>
  The documented behaviour of \<open>firewall-cmd\<close>: \<open>perm\<close> and \<open>live\<close> are the items of the panel's policy in
  the permanent and in the running configuration. Queries read the permanent one, an addition or
  removal changes it when it succeeds, and a reload that succeeds copies it to the running one.
\<close>

definition untouched :: "('w \<Rightarrow> string set) \<Rightarrow> ('w \<Rightarrow> string set) \<Rightarrow> 'w \<Rightarrow> 'w \<Rightarrow> bool" where
  "untouched perm live w w' \<longleftrightarrow> perm w' = perm w \<and> live w' = live w"

definition changes_perm ::
    "'w runner \<Rightarrow> ('w \<Rightarrow> string set) \<Rightarrow> ('w \<Rightarrow> string set) \<Rightarrow> string list \<Rightarrow> (string set \<Rightarrow> string set) \<Rightarrow> bool" where
  "changes_perm run perm live args f \<longleftrightarrow>
     (\<forall>w out e w'. run (permanent_cmd args) w = ((out, e), w') \<longrightarrow>
        live w' = live w \<and> perm w' = (if e = None then f (perm w) else perm w))"

definition reload_documented :: "'w runner \<Rightarrow> ('w \<Rightarrow> string set) \<Rightarrow> ('w \<Rightarrow> string set) \<Rightarrow> bool" where
  "reload_documented run perm live \<longleftrightarrow>
     (\<forall>w out e w'. run [''firewall-cmd'', ''--reload''] w = ((out, e), w') \<longrightarrow>
        perm w' = perm w \<and> live w' = (if e = None then perm w else live w))"

definition firewalld_documented :: "'w runner \<Rightarrow> ('w \<Rightarrow> string set) \<Rightarrow> ('w \<Rightarrow> string set) \<Rightarrow> bool" where
  "firewalld_documented run perm live \<longleftrightarrow>
     (\<forall>w out e w'. run (permanent_cmd [''--get-policies'']) w = ((out, e), w') \<longrightarrow>
        untouched perm live w w' \<and> (e = None \<longrightarrow> (containsField out ''jui'' \<longleftrightarrow> ''new-policy=jui'' \<in> perm w))) \<and>
     (\<forall>item w out e w'. run (permanent_cmd [''--policy=jui'', ''--query-'' @ item]) w = ((out, e), w') \<longrightarrow>
        untouched perm live w w' \<and> (e = None \<longleftrightarrow> item \<in> perm w)) \<and>
     changes_perm run perm live [''--new-policy=jui''] (insert ''new-policy=jui'') \<and>
     (\<forall>item. changes_perm run perm live [''--policy=jui'', ''--add-'' @ item] (insert item)) \<and>
     (\<forall>item. changes_perm run perm live [''--policy=jui'', ''--remove-'' @ item] (\<lambda>s. s - {item})) \<and>
     reload_documented run perm live"

definition policy_items :: "string \<Rightarrow> int \<Rightarrow> string set" where
  "policy_items proto n = {''new-policy=jui'', ''ingress-zone=ANY'', ''egress-zone=HOST'', ''port='' @ port_spec proto n}"

lemma must_Inr: "must run msg args w = (Inr out, w') \<Longrightarrow> run args w = ((out, None), w')"
  by (cases "run args w") (auto simp: must_def io_bind_def exec_def split: prod.splits option.splits)

lemma must_ok: "run args w = ((out, None), w') \<Longrightarrow> must run msg args w = (Inr out, w')"
  by (simp add: must_def io_bind_def exec_def)

lemma documented_policies:
  "firewalld_documented run perm live \<Longrightarrow> run (permanent_cmd [''--get-policies'']) w = ((out, e), w') \<Longrightarrow>
     untouched perm live w w' \<and> (e = None \<longrightarrow> (containsField out ''jui'' \<longleftrightarrow> ''new-policy=jui'' \<in> perm w))"
  unfolding firewalld_documented_def by (elim conjE) blast

lemma documented_query:
  "firewalld_documented run perm live \<Longrightarrow>
     run (permanent_cmd [''--policy=jui'', ''--query-'' @ item]) w = ((out, e), w') \<Longrightarrow>
     untouched perm live w w' \<and> (e = None \<longleftrightarrow> item \<in> perm w)"
  unfolding firewalld_documented_def by (elim conjE) blast

lemma changes_permD:
  "changes_perm run perm live args f \<Longrightarrow> run (permanent_cmd args) w = ((out, e), w') \<Longrightarrow>
     live w' = live w \<and> perm w' = (if e = None then f (perm w) else perm w)"
  unfolding changes_perm_def by (elim allE impE)

lemma documented_changes:
  assumes "firewalld_documented run perm live"
  shows "changes_perm run perm live [''--new-policy=jui''] (insert ''new-policy=jui'')"
    and "changes_perm run perm live [''--policy=jui'', ''--add-'' @ item] (insert item)"
    and "changes_perm run perm live [''--policy=jui'', ''--remove-'' @ item] (\<lambda>s. s - {item})"
  using assms unfolding firewalld_documented_def by blast+

lemma documented_reload_all: "firewalld_documented run perm live \<Longrightarrow> reload_documented run perm live"
  unfolding firewalld_documented_def by blast

lemma documented_reload:
  "reload_documented run perm live \<Longrightarrow> run [''firewall-cmd'', ''--reload''] w = ((out, e), w') \<Longrightarrow>
     perm w' = perm w \<and> live w' = (if e = None then perm w else live w)"
  unfolding reload_documented_def by (elim allE impE)

text \<open>One query-or-add: the item is in the permanent configuration afterwards, and the flag is
  raised whenever the configuration changed.\<close>

lemma query_or_add_Inr:
  assumes doc: "firewalld_documented run perm live"
    and q: "query_or_add run msg (''--query-'' @ item) (''--add-'' @ item) changed w = (Inr c, w')"
  shows "perm w' = insert item (perm w) \<and> live w' = live w \<and> (c \<longleftrightarrow> changed \<or> item \<notin> perm w)"
proof -
  obtain out e w1 where r: "run (permanent_cmd [''--policy=jui'', ''--query-'' @ item]) w = ((out, e), w1)"
    by (metis prod.collapse)
  then have u: "untouched perm live w w1" and e: "e = None \<longleftrightarrow> item \<in> perm w"
    using documented_query [OF doc] by blast+
  show ?thesis
  proof (cases "e = None")
    case True
    then have "c = changed" "w' = w1" using q r by (auto simp: query_or_add_def io_bind_def exec_def)
    then show ?thesis using True u e by (auto simp: untouched_def)
  next
    case False
    then obtain out' where a: "must run msg (permanent_cmd [''--policy=jui'', ''--add-'' @ item]) w1 = (Inr out', w')" "c"
      using q r unfolding query_or_add_def
      by (auto simp: io_bind_def exec_def split: prod.splits sum.splits)
    have "live w' = live w1 \<and> perm w' = insert item (perm w1)"
      using changes_permD [OF documented_changes(2) [OF doc] must_Inr [OF a(1)]] by simp
    with u \<open>c\<close> False e show ?thesis by (simp add: untouched_def)
  qed
qed

lemma firewalldEnsure_steps:
  assumes doc: "firewalld_documented run perm live"
    and run: "firewalldEnsure run proto n w = (Inr r, w')"
  obtains w1 changed where "live w1 = live w" "perm w1 = policy_items proto n \<union> perm w"
    "changed \<longleftrightarrow> \<not> policy_items proto n \<subseteq> perm w" "r = \<lparr>Ownership = Owned, Backend = BackendFirewalld\<rparr>"
    "(if changed then io_bind (must run ''reload firewalld'' [''firewall-cmd'', ''--reload''])
        (\<lambda>_. io_return ()) else io_return ()) w1 = (Inr (), w')"
proof -
  obtain out wa c1 wb c2 wc c3 wd c4 we where
    a: "must run ''inspect firewalld policies'' (permanent_cmd [''--get-policies'']) w = (Inr out, wa)" and
    b: "(if containsField out ''jui'' then io_return False
         else io_bind (must run ''create J-UI firewalld policy'' (permanent_cmd [''--new-policy=jui'']))
                (\<lambda>_. io_return True)) wa = (Inr c1, wb)" and
    c: "query_or_add run ''configure J-UI firewalld policy zone''
          ''--query-ingress-zone=ANY'' ''--add-ingress-zone=ANY'' c1 wb = (Inr c2, wc)" and
    d: "query_or_add run ''configure J-UI firewalld policy zone''
          ''--query-egress-zone=HOST'' ''--add-egress-zone=HOST'' c2 wc = (Inr c3, wd)" and
    e1: "query_or_add run ''add J-UI firewalld policy port''
          (''--query-port='' @ port_spec proto n) (''--add-port='' @ port_spec proto n) c3 wd = (Inr c4, we)" and
    e2: "(if c4 then io_bind (must run ''reload firewalld'' [''firewall-cmd'', ''--reload''])
        (\<lambda>_. io_return ()) else io_return ()) we = (Inr (), w')" and
    e3: "r = \<lparr>Ownership = Owned, Backend = BackendFirewalld\<rparr>"
    using run unfolding firewalldEnsure_def by (elim io_bind_InrE) auto
  have pa: "untouched perm live w wa \<and> (containsField out ''jui'' \<longleftrightarrow> ''new-policy=jui'' \<in> perm w)"
    using documented_policies [OF doc must_Inr [OF a]] by simp
  have pb: "perm wb = insert ''new-policy=jui'' (perm wa) \<and> live wb = live wa \<and> (c1 \<longleftrightarrow> ''new-policy=jui'' \<notin> perm wa)"
  proof (cases "containsField out ''jui''")
    case True
    then show ?thesis using b pa by (auto simp: untouched_def)
  next
    case False
    then obtain o' where m: "must run ''create J-UI firewalld policy'' (permanent_cmd [''--new-policy=jui'']) wa = (Inr o', wb)" "c1"
      using b by (auto elim!: io_bind_InrE)
    then show ?thesis
      using changes_permD [OF documented_changes(1) [OF doc] must_Inr [OF m(1)]] False pa
      by (simp add: untouched_def)
  qed
  note qa = query_or_add_Inr [OF doc, of _ "''ingress-zone=ANY''" c1 wb c2 wc]
    and qb = query_or_add_Inr [OF doc, of _ "''egress-zone=HOST''" c2 wc c3 wd]
    and qc = query_or_add_Inr [OF doc, of _ "''port='' @ port_spec proto n" c3 wd c4 we]
  have pc: "perm wc = insert ''ingress-zone=ANY'' (perm wb) \<and> live wc = live wb \<and> (c2 \<longleftrightarrow> c1 \<or> ''ingress-zone=ANY'' \<notin> perm wb)"
    by (rule qa [of "''configure J-UI firewalld policy zone''"]) (simp add: c)
  have pd: "perm wd = insert ''egress-zone=HOST'' (perm wc) \<and> live wd = live wc \<and> (c3 \<longleftrightarrow> c2 \<or> ''egress-zone=HOST'' \<notin> perm wc)"
    by (rule qb [of "''configure J-UI firewalld policy zone''"]) (simp add: d)
  have pe: "perm we = insert (''port='' @ port_spec proto n) (perm wd) \<and> live we = live wd \<and> (c4 \<longleftrightarrow> c3 \<or> ''port='' @ port_spec proto n \<notin> perm wd)"
    by (rule qc [of "''add J-UI firewalld policy port''"]) (use e1 in simp)
  have "perm we = policy_items proto n \<union> perm w" using pa pb pc pd pe by (auto simp: policy_items_def untouched_def)
  moreover have "live we = live w" using pa pb pc pd pe by (simp add: untouched_def)
  moreover have "c4 \<longleftrightarrow> \<not> policy_items proto n \<subseteq> perm w"
    using pa pb pc pd pe by (auto simp: policy_items_def untouched_def)
  ultimately show thesis using e2 e3 that by blast
qed

text \<open>When the running firewalld configuration agrees with the permanent one, a port that
  \<open>firewalldEnsure\<close> reports open is open: policy, zones and port are in the running configuration.\<close>

theorem firewalldEnsure_opens:
  assumes "firewalld_documented run perm live" and "live w = perm w"
    and "firewalldEnsure run proto n w = (Inr r, w')"
  shows "Ownership r = Owned \<and> policy_items proto n \<subseteq> live w' \<and> live w' = perm w'"
proof -
  obtain w1 changed where s: "live w1 = live w" "perm w1 = policy_items proto n \<union> perm w"
    "changed \<longleftrightarrow> \<not> policy_items proto n \<subseteq> perm w" "r = \<lparr>Ownership = Owned, Backend = BackendFirewalld\<rparr>"
    "(if changed then io_bind (must run ''reload firewalld'' [''firewall-cmd'', ''--reload''])
        (\<lambda>_. io_return ()) else io_return ()) w1 = (Inr (), w')"
    using firewalldEnsure_steps [OF assms(1,3)] by blast
  have "live w' = perm w1 \<and> perm w' = perm w1"
  proof (cases changed)
    case True
    then obtain out where m: "must run ''reload firewalld'' [''firewall-cmd'', ''--reload''] w1 = (Inr out, w')"
      using s(5) by (auto elim!: io_bind_InrE)
    then show ?thesis
      using documented_reload [OF documented_reload_all [OF assms(1)] must_Inr [OF m]] by simp
  next
    case False
    then have "perm w1 = perm w" "w' = w1" using s(2,3,5) by auto
    then show ?thesis using s(1) assms(2) by simp
  qed
  then show ?thesis using s(2,4) by simp
qed

text \<open>When the permanent configuration already has the policy, its zones and the port, but the
  running one does not, as a failed reload leaves it, \<open>firewalldEnsure\<close> reports the port open
  without reloading, and the running configuration stays as it was.\<close>

theorem firewalldEnsure_skips_reload:
  assumes "firewalld_documented run perm live" and "policy_items proto n \<subseteq> perm w"
    and "firewalldEnsure run proto n w = (Inr r, w')"
  shows "Ownership r = Owned \<and> live w' = live w"
proof -
  obtain w1 changed where s: "live w1 = live w" "perm w1 = policy_items proto n \<union> perm w"
    "changed \<longleftrightarrow> \<not> policy_items proto n \<subseteq> perm w" "r = \<lparr>Ownership = Owned, Backend = BackendFirewalld\<rparr>"
    "(if changed then io_bind (must run ''reload firewalld'' [''firewall-cmd'', ''--reload''])
        (\<lambda>_. io_return ()) else io_return ()) w1 = (Inr (), w')"
    using firewalldEnsure_steps [OF assms(1,3)] by blast
  have "\<not> changed" using s(3) assms(2) by simp
  then show ?thesis using s by simp
qed

text \<open>A firewalld with its two configurations, and a number of reloads that will fail.\<close>

record fwd =
  fwd_perm :: "string list"
  fwd_live :: "string list"
  fwd_bad_reloads :: nat

definition demo_fwd :: "fwd runner" where
  "demo_fwd args w =
     (let last' = last args; err = Err ''exit status 1''
      in if args = [''firewall-cmd'', ''--reload''] then
           (if 0 < fwd_bad_reloads w
            then (([], Some err), w\<lparr>fwd_bad_reloads := fwd_bad_reloads w - 1\<rparr>)
            else (([], None), w\<lparr>fwd_live := fwd_perm w\<rparr>))
         else if last' = ''--get-policies'' then
           ((if ''new-policy=jui'' \<in> set (fwd_perm w) then ''jui'' else [], None), w)
         else if last' = ''--new-policy=jui'' then (([], None), w\<lparr>fwd_perm := ''new-policy=jui'' # fwd_perm w\<rparr>)
         else if has_prefix last' ''--query-'' then
           (([], if drop 8 last' \<in> set (fwd_perm w) then None else Some err), w)
         else if has_prefix last' ''--add-'' then (([], None), w\<lparr>fwd_perm := drop 6 last' # fwd_perm w\<rparr>)
         else if has_prefix last' ''--remove-'' then (([], None), w\<lparr>fwd_perm := removeAll (drop 9 last') (fwd_perm w)\<rparr>)
         else (([], Some err), w))"

lemma demo_fwd_documented:
  "firewalld_documented demo_fwd (\<lambda>w. set (fwd_perm w)) (\<lambda>w. set (fwd_live w))"
  unfolding firewalld_documented_def changes_perm_def reload_documented_def untouched_def
  by (intro conjI allI impI)
     (auto simp: demo_fwd_def permanent_cmd_def Let_def has_prefix_def containsField_def
       str_fields_def is_space_def split: if_splits)

definition demo_fwd_start :: fwd where
  "demo_fwd_start = \<lparr>fwd_perm = [], fwd_live = [], fwd_bad_reloads = 1\<rparr>"

definition demo_fwd_half :: fwd where
  "demo_fwd_half = \<lparr>fwd_perm = [''port=443/tcp'', ''egress-zone=HOST'', ''ingress-zone=ANY'', ''new-policy=jui''],
     fwd_live = [], fwd_bad_reloads = 0\<rparr>"

theorem firewalldEnsure_opens_witness:
  "Ownership (projr (fst (firewalldEnsure demo_fwd ''tcp'' 443 (demo_fwd_start\<lparr>fwd_bad_reloads := 0\<rparr>)))) = Owned"
proof -
  have r: "firewalldEnsure demo_fwd ''tcp'' 443 (demo_fwd_start\<lparr>fwd_bad_reloads := 0\<rparr>)
      = (Inr \<lparr>Ownership = Owned, Backend = BackendFirewalld\<rparr>, demo_fwd_half\<lparr>fwd_live := fwd_perm demo_fwd_half\<rparr>)"
    by code_simp
  have l: "set (fwd_live (demo_fwd_start\<lparr>fwd_bad_reloads := 0\<rparr>)) = set (fwd_perm (demo_fwd_start\<lparr>fwd_bad_reloads := 0\<rparr>))"
    by (simp add: demo_fwd_start_def)
  from firewalldEnsure_opens [OF demo_fwd_documented l r] show ?thesis by (simp only: r fst_conv sum.sel)
qed

theorem firewalldEnsure_skips_reload_witness:
  "(\<exists>e. firewalldEnsure demo_fwd ''tcp'' 443 demo_fwd_start = (Inl e, demo_fwd_half)) \<and>
   (\<exists>r w'. firewalldEnsure demo_fwd ''tcp'' 443 demo_fwd_half = (Inr r, w') \<and>
      Ownership r = Owned \<and> ''port=443/tcp'' \<notin> set (fwd_live w'))"
proof -
  have f: "firewalldEnsure demo_fwd ''tcp'' 443 demo_fwd_start
      = (Inl (Wrap ''reload firewalld'' (Err ''exit status 1'')), demo_fwd_half)" by code_simp
  have r: "firewalldEnsure demo_fwd ''tcp'' 443 demo_fwd_half
      = (Inr \<lparr>Ownership = Owned, Backend = BackendFirewalld\<rparr>, demo_fwd_half)" by code_simp
  have p: "policy_items ''tcp'' 443 \<subseteq> set (fwd_perm demo_fwd_half)"
  proof -
    have "port_spec ''tcp'' 443 = ''443/tcp''" by code_simp
    then show ?thesis by (simp add: policy_items_def demo_fwd_half_def)
  qed
  have "set (fwd_live demo_fwd_half) = {}" by (simp add: demo_fwd_half_def)
  with firewalldEnsure_skips_reload [OF demo_fwd_documented p r] f r show ?thesis by auto
qed

section \<open>nftables commands\<close>

fun with_semicolons :: "string list list \<Rightarrow> string list" where
  "with_semicolons [] = []"
| "with_semicolons [c] = c"
| "with_semicolons (c # cs) = c @ '';'' # with_semicolons cs"

lemma with_semicolons_Nil: "\<forall>c\<in>set cs. c \<noteq> [] \<Longrightarrow> with_semicolons cs = [] \<longleftrightarrow> cs = []"
  by (cases cs rule: with_semicolons.cases) auto

lemma with_semicolons_snoc:
  "\<forall>c\<in>set cs. c \<noteq> [] \<Longrightarrow> with_semicolons (cs @ [c]) =
     (if with_semicolons cs \<noteq> [] then with_semicolons cs @ ['';''] else with_semicolons cs) @ c"
proof (induction cs rule: with_semicolons.induct)
  case (2 d)
  then show ?case by simp
next
  case (3 d e cs)
  then show ?case using with_semicolons_Nil [of "e # cs"] by simp
qed simp

definition delete_cmd :: "nft_rule \<Rightarrow> string list" where
  "delete_cmd r = [''delete'', ''rule'', ru_family r, ru_table r, ru_chain r, ''handle'', itoa (ru_handle r)]"

definition insert_cmd :: "string \<Rightarrow> int \<Rightarrow> chain_ref \<Rightarrow> string list" where
  "insert_cmd proto n = (\<lambda>(f, t, c). [''insert'', ''rule'', f, t, c, proto, ''dport'', itoa n,
     ''accept'', ''comment'', ruleMarker proto n])"

definition owned_rules :: "string \<Rightarrow> nft_object list \<Rightarrow> nft_rule list" where
  "owned_rules marker obs =
     filter (\<lambda>r. ru_comment r = marker \<and> 1 \<le> ru_handle r) (List.map_filter snd obs)"

definition valid_ref :: "nft_rule \<Rightarrow> bool" where
  "valid_ref r = validNFTReference (ru_family r) (ru_table r) (ru_chain r)"

lemma map_filter_Cons: "List.map_filter f (x # xs) = (case f x of None \<Rightarrow> List.map_filter f xs | Some y \<Rightarrow> y # List.map_filter f xs)"
  by (simp add: map_filter_simps split: option.split)

lemma delete_args_gen:
  "\<forall>c\<in>set cs. c \<noteq> [] \<Longrightarrow> delete_args marker obs (with_semicolons cs) =
     (if list_all valid_ref (owned_rules marker obs)
      then Inr (with_semicolons (cs @ map delete_cmd (owned_rules marker obs)))
      else Inl (Err ''invalid nftables rule reference''))"
proof (induction obs arbitrary: cs)
  case Nil
  then show ?case by (simp add: owned_rules_def map_filter_simps)
next
  case (Cons ob obs)
  show ?case
  proof (cases "snd ob")
    case None
    then show ?thesis using Cons by (simp add: owned_rules_def map_filter_Cons)
  next
    case (Some r)
    show ?thesis
    proof (cases "ru_comment r = marker \<and> 1 \<le> ru_handle r \<and> valid_ref r")
      case True
      have "delete_args marker (ob # obs) (with_semicolons cs)
          = delete_args marker obs (with_semicolons (cs @ [delete_cmd r]))"
        using True Some with_semicolons_snoc [OF Cons.prems, of "delete_cmd r"]
        by (simp add: delete_cmd_def valid_ref_def)
      also have "\<dots> = (if list_all valid_ref (owned_rules marker obs)
          then Inr (with_semicolons ((cs @ [delete_cmd r]) @ map delete_cmd (owned_rules marker obs)))
          else Inl (Err ''invalid nftables rule reference''))"
        using Cons.prems by (intro Cons.IH) (auto simp: delete_cmd_def)
      finally show ?thesis using True Some by (simp add: owned_rules_def map_filter_Cons)
    next
      case False
      then show ?thesis using Cons Some by (auto simp: owned_rules_def map_filter_Cons valid_ref_def)
    qed
  qed
qed

text \<open>Closing a port on nftables issues one command with one deletion for every rule that carries
  exactly the panel's comment for that port, whatever its table, none for any other rule, and no
  command at all when there is none; a reference that is not a plain identifier stops it first.\<close>

theorem nftClose_deletes_owned:
  assumes "look ''nft''" and "read_ruleset run w = (Inr obs, w1)"
  shows "nftClose run look proto n w =
    (let owned = owned_rules (ruleMarker proto n) obs
     in if \<not> list_all valid_ref owned then (Inl (Err ''invalid nftables rule reference''), w1)
        else if owned = [] then (Inr (), w1)
        else io_bind (must run ''delete owned nftables rules'' (''nft'' # with_semicolons (map delete_cmd owned)))
               (\<lambda>_. io_return ()) w1)"
proof -
  have ne: "with_semicolons (map delete_cmd rs) = [] \<longleftrightarrow> rs = []" for rs
    using with_semicolons_Nil [of "map delete_cmd rs"] by (simp add: delete_cmd_def)
  show ?thesis
    using assms delete_args_gen [of "[]" "ruleMarker proto n" obs]
    by (simp add: nftClose_def Let_def ne)
qed

definition demo_ruleset :: string where
  "demo_ruleset = json_print (JObj [(''nftables'', JList [
     JObj [(''chain'', JObj [(''family'', JStr ''inet''), (''table'', JStr ''filter''), (''name'', JStr ''input''),
        (''hook'', JStr ''input''), (''policy'', JStr ''drop'')])],
     JObj [(''rule'', JObj [(''family'', JStr ''inet''), (''table'', JStr ''filter''), (''chain'', JStr ''input''),
        (''handle'', JInt 7), (''comment'', JStr ''jui-tcp-443'')])],
     JObj [(''rule'', JObj [(''family'', JStr ''inet''), (''table'', JStr ''filter''), (''chain'', JStr ''input''),
        (''handle'', JInt 9), (''comment'', JStr ''jui-tcp-4430'')])]])])"

definition demo_nft :: "string list list runner" where
  "demo_nft args log = ((if args = [''nft'', ''-j'', ''-a'', ''list'', ''ruleset''] then demo_ruleset else [], None),
     log @ [args])"

definition demo_objects :: "nft_object list" where
  "demo_objects =
     [(Some \<lparr>ch_family = ''inet'', ch_table = ''filter'', ch_name = ''input'', ch_hook = ''input'', ch_policy = ''drop''\<rparr>, None),
      (None, Some \<lparr>ru_family = ''inet'', ru_table = ''filter'', ru_chain = ''input'', ru_handle = 7, ru_comment = ''jui-tcp-443''\<rparr>),
      (None, Some \<lparr>ru_family = ''inet'', ru_table = ''filter'', ru_chain = ''input'', ru_handle = 9, ru_comment = ''jui-tcp-4430''\<rparr>)]"

lemma demo_read: "read_ruleset demo_nft [] = (Inr demo_objects, [[''nft'', ''-j'', ''-a'', ''list'', ''ruleset'']])"
  by code_simp

theorem nftClose_deletes_owned_witness:
  "nftClose demo_nft (\<lambda>_. True) ''tcp'' 443 [] =
     (Inr (), [[''nft'', ''-j'', ''-a'', ''list'', ''ruleset''],
       [''nft'', ''delete'', ''rule'', ''inet'', ''filter'', ''input'', ''handle'', ''7'']])"
proof -
  have o: "owned_rules (ruleMarker ''tcp'' 443) demo_objects
      = [\<lparr>ru_family = ''inet'', ru_table = ''filter'', ru_chain = ''input'', ru_handle = 7, ru_comment = ''jui-tcp-443''\<rparr>]"
    "list_all valid_ref (owned_rules (ruleMarker ''tcp'' 443) demo_objects)" by code_simp+
  have i: "itoa 7 = ''7''" by code_simp
  from nftClose_deletes_owned [OF _ demo_read, of "\<lambda>_. True" "''tcp''" 443] show ?thesis
    using o(2) unfolding o(1)
    by (simp add: Let_def delete_cmd_def i must_def io_bind_def exec_def demo_nft_def)
qed

lemma insert_cmd_nonempty: "insert_cmd proto n c \<noteq> []"
  by (simp add: insert_cmd_def split: prod.split)

lemma insert_args_gen:
  "\<forall>c\<in>set cmds. c \<noteq> [] \<Longrightarrow> insert_args proto n existing cs (with_semicolons cmds) =
     with_semicolons (cmds @ map (insert_cmd proto n) (filter (\<lambda>c. c \<notin> set existing) cs))"
proof (induction cs arbitrary: cmds)
  case (Cons c cs)
  obtain f t d where c: "c = (f, t, d)" by (cases c)
  show ?case
  proof (cases "c \<in> set existing")
    case False
    then have "insert_args proto n existing (c # cs) (with_semicolons cmds)
        = insert_args proto n existing cs (with_semicolons (cmds @ [insert_cmd proto n c]))"
      using with_semicolons_snoc [OF Cons.prems, of "insert_cmd proto n c"] by (simp add: c insert_cmd_def)
    also have "\<dots> = with_semicolons ((cmds @ [insert_cmd proto n c]) @
        map (insert_cmd proto n) (filter (\<lambda>c. c \<notin> set existing) cs))"
      using Cons.prems by (intro Cons.IH) (auto simp: c insert_cmd_def)
    finally show ?thesis using False by simp
  qed (use Cons c in simp)
qed simp

text \<open>The chains that drop by default and lack the panel's rule.\<close>

definition missing_chains :: "string \<Rightarrow> nft_object list \<Rightarrow> chain_ref list" where
  "missing_chains marker obs =
     filter (\<lambda>c. c \<notin> set (List.map_filter (marked_chain marker) obs))
       (sort_key chain_key (List.map_filter drop_chain obs))"

text \<open>On a ruleset with input chains that drop by default, opening a port inserts one accept rule
  into each of them that lacks the panel's rule, all in one command, and runs nothing when none
  does; the panel's own table is not used then.\<close>

theorem nftEnsure_covers_drop_chains:
  assumes "look ''nft''" and "read_ruleset run w = (Inr obs, w1)"
    and "List.map_filter drop_chain obs \<noteq> []"
  shows "nftEnsure run look proto n w =
    (let missing = missing_chains (ruleMarker proto n) obs;
         owned = \<lparr>Ownership = Owned, Backend = BackendNFTables\<rparr>
     in if missing = [] then (Inr owned, w1)
        else io_bind (must run ''insert nftables rule into policy-drop input chain''
               (''nft'' # with_semicolons (map (insert_cmd proto n) missing))) (\<lambda>_. io_return owned) w1)"
proof -
  have ne: "with_semicolons (map (insert_cmd proto n) cs) = [] \<longleftrightarrow> cs = []" for cs
    using with_semicolons_Nil [of "map (insert_cmd proto n) cs"] by (simp add: insert_cmd_nonempty)
  have "sort_key chain_key (List.map_filter drop_chain obs) \<noteq> []"
    using assms(3) by (metis length_0_conv length_sort)
  then show ?thesis
    using assms insert_args_gen [of "[]" proto n]
    by (simp add: nftEnsure_def nftDropInputChains_def missing_chains_def Let_def ne)
qed

theorem nftEnsure_covers_drop_chains_witness:
  "snd (nftEnsure demo_nft (\<lambda>_. True) ''udp'' 53 []) =
     [[''nft'', ''-j'', ''-a'', ''list'', ''ruleset''],
      [''nft'', ''insert'', ''rule'', ''inet'', ''filter'', ''input'', ''udp'', ''dport'', ''53'', ''accept'',
       ''comment'', ''jui-udp-53'']]"
proof -
  have m: "missing_chains (ruleMarker ''udp'' 53) demo_objects = [(''inet'', ''filter'', ''input'')]" by code_simp
  have d: "List.map_filter drop_chain demo_objects \<noteq> []" by code_simp
  have i: "itoa 53 = ''53''" "ruleMarker ''udp'' 53 = ''jui-udp-53''" by code_simp+
  from nftEnsure_covers_drop_chains [OF _ demo_read d, of "\<lambda>_. True" "''udp''" 53] show ?thesis
    unfolding m by (simp add: Let_def insert_cmd_def i must_def io_bind_def exec_def demo_nft_def)
qed

section \<open>The management port\<close>

lemma decode_encode_state: "int64 (ms_port s) \<Longrightarrow> decode_state (encode_state s) = Inr s"
proof -
  assume p: "int64 (ms_port s)"
  have "json_parse (encode_state s) = Some (JObj [(''protocol'', JStr (ms_protocol s)),
     (''port'', JInt (ms_port s)), (''ownership'', JStr (ms_ownership s)), (''backend'', JStr (ms_backend s))])"
    unfolding encode_state_def using p by (intro json_roundtrip) simp
  moreover have "\<not> equal_fold ''backend'' ''protocol''" "\<not> equal_fold ''ownership'' ''protocol''"
    "\<not> equal_fold ''port'' ''protocol''" "equal_fold ''protocol'' ''protocol''"
    "\<not> equal_fold ''backend'' ''port''" "\<not> equal_fold ''ownership'' ''port''" "equal_fold ''port'' ''port''"
    "\<not> equal_fold ''backend'' ''ownership''" "equal_fold ''ownership'' ''ownership''"
    "equal_fold ''backend'' ''backend''" by code_simp+
  ultimately show ?thesis
    by (simp add: decode_state_def field_string_def field_int_def json_member_def)
qed

definition decode_state_opt :: "string \<Rightarrow> management_state option" where
  "decode_state_opt c = (case decode_state c of Inl _ \<Rightarrow> None | Inr s \<Rightarrow> Some s)"

interpretation management_file: checked_codec encode_state decode_state_opt "\<lambda>s. int64 (ms_port s)"
  by unfold_locales (simp add: decode_state_opt_def decode_encode_state)

lemma EnsureManagement_Inr:
  assumes e: "EnsureManagement mgr path n w = (Inr r, w')"
  shows "\<exists>w1 w2 prev. mgr_ensure mgr ''tcp'' n w = (Inr r, w1) \<and> LoadManagementState path w1 = (prev, w2) \<and>
    writeManagementState path (recorded_state prev n r) w2 = (Inr (), w')"
proof -
  obtain r1 w1 where 1: "mgr_ensure mgr ''tcp'' n w = (r1, w1)" by (cases "mgr_ensure mgr ''tcp'' n w")
  obtain prev w2 where 2: "LoadManagementState path w1 = (prev, w2)" by (cases "LoadManagementState path w1")
  from e 1 obtain r0 where r0: "r1 = Inr r0" by (cases r1) (auto simp: EnsureManagement_def io_bind_def)
  define s where "s = recorded_state prev n r0"
  obtain wr w3 where 3: "writeManagementState path s w2 = (wr, w3)" by (cases "writeManagementState path s w2")
  have eq: "EnsureManagement mgr path n w = (case wr of
      Inr _ \<Rightarrow> io_return r0
    | Inl e \<Rightarrow> if Ownership r0 = Owned then io_try (mgr_close mgr ''tcp'' n (Backend r0)) (\<lambda>_. io_fail e)
              else io_fail e) w3"
    using 1 2 3 r0 unfolding s_def EnsureManagement_def io_bind_def io_try_def Let_def by simp
  have "wr = Inr () \<and> r0 = r \<and> w3 = w'"
    using e unfolding eq by (cases wr) (auto simp: io_try_def split: if_splits prod.splits)
  with 1 2 3 r0 s_def show ?thesis by auto
qed

text \<open>What the state file relies on: a manager reports one of the backends its own \<open>Close\<close> knows, and one
  of the two kinds of ownership.\<close>

definition known_backends :: "string set" where
  "known_backends = {BackendFirewalld, BackendUFW, BackendNFTables}"

locale firewall_manager =
  fixes mgr :: "'a fs_scheme manager"
  assumes ensure_known: "mgr_ensure mgr p n w = (Inr r, w') \<Longrightarrow>
    Backend r \<in> known_backends \<and> Ownership r \<in> {Owned, Borrowed}"
begin

lemma state_file_valid:
  assumes "EnsureManagement mgr path n w = (Inr r, w')" and "1 \<le> n" "n \<le> 65535"
    and "\<not> has_prefix path (path_join (path_dir path) ''.management-firewall-'')"
  shows "\<exists>s. files w' path = Some (encode_state s) \<and> decode_state (encode_state s) = Inr s \<and>
     valid_state s \<and> ms_port s = n \<and> ms_backend s = Backend r \<and> ms_backend s \<in> known_backends \<and>
     (Ownership r = Owned \<longrightarrow> ms_ownership s = Owned)"
proof -
  obtain w1 w2 prev where m: "mgr_ensure mgr ''tcp'' n w = (Inr r, w1)" and
    wr: "writeManagementState path (recorded_state prev n r) w2 = (Inr (), w')"
    using EnsureManagement_Inr [OF assms(1)] by blast
  define s where s: "s = recorded_state prev n r"
  have k: "Backend r \<in> known_backends" "Ownership r \<in> {Owned, Borrowed}" using ensure_known [OF m] by simp_all
  have "files w' path = Some (encode_state s)"
    using replace_file_Inr wr assms(4) unfolding writeManagementState_def s by blast
  moreover have "valid_state s" using k assms(2,3) by (auto simp: s recorded_state_def Let_def valid_state_def)
  moreover have "decode_state (encode_state s) = Inr s"
    using assms(2,3) by (intro decode_encode_state) (simp add: s recorded_state_def Let_def int64_def)
  ultimately show ?thesis using k by (auto simp: s recorded_state_def Let_def)
qed

end

lemma firewalldEnsure_result: "firewalldEnsure run p n w = (Inr r, w') \<Longrightarrow> r = \<lparr>Ownership = Owned, Backend = BackendFirewalld\<rparr>"
  unfolding firewalldEnsure_def by (elim io_bind_InrE) simp

lemma ufwEnsure_result:
  "ufwEnsure run p n w = (Inr r, w') \<Longrightarrow> Backend r = BackendUFW \<and> Ownership r \<in> {Owned, Borrowed}"
  unfolding ufwEnsure_def Let_def
  by (elim io_bind_InrE) (auto elim!: io_bind_InrE split: if_splits prod.splits)

lemma nftEnsure_result:
  "nftEnsure run look p n w = (Inr r, w') \<Longrightarrow> r = \<lparr>Ownership = Owned, Backend = BackendNFTables\<rparr>"
  unfolding nftEnsure_def Let_def
  by (auto elim!: io_bind_InrE split: if_splits prod.splits)

interpretation system_manager: firewall_manager "System run look" for run look
proof
  fix p n w r w'
  assume "mgr_ensure (System run look) p n w = (Inr r, w')"
  then consider v where "firewalldEnsure run p n v = (Inr r, w')" | v where "ufwEnsure run p n v = (Inr r, w')"
    | v where "nftEnsure run look p n v = (Inr r, w')"
    by (auto simp: System_def System_Ensure_def elim!: io_bind_InrE split: option.splits if_splits)
  then show "Backend r \<in> known_backends \<and> Ownership r \<in> {Owned, Borrowed}"
    by cases (auto simp: known_backends_def dest: firewalldEnsure_result ufwEnsure_result nftEnsure_result)
qed

interpretation mock_manager: firewall_manager Mock
  by unfold_locales (simp add: Mock_def known_backends_def)

text \<open>A host with an active UFW and no rule, and a file system without faults.\<close>

definition demo_fs :: fs where
  "demo_fs = \<lparr>files = (\<lambda>_. None), faulty = (\<lambda>_. False), torn = (\<lambda>_. 0), calls = 0, random = [''1'', ''2'']\<rparr>"

definition demo_fs_ufw :: "fs runner" where
  "demo_fs_ufw args w = ((''Status: active'', None), w)"

definition demo_fs_after :: fs where
  "demo_fs_after = snd (EnsureManagement (System demo_fs_ufw (\<lambda>n. n = ''ufw'')) ''/var/lib/j-ui/fw.json'' 8443 demo_fs)"

text \<open>After the management port is opened by the system's manager, the state file holds exactly a
  valid state of that port, with a backend that closing recognises, and owned when the rule is.\<close>

theorem management_state_written:
  assumes "EnsureManagement (System run look) path n w = (Inr r, w')"
    and "\<not> has_prefix path (path_join (path_dir path) ''.management-firewall-'')"
  shows "\<exists>s. files w' path = Some (encode_state s) \<and> decode_state (encode_state s) = Inr s \<and>
     valid_state s \<and> ms_port s = n \<and> ms_backend s \<in> known_backends \<and>
     (Ownership r = Owned \<longrightarrow> ms_ownership s = Owned)"
proof -
  obtain w1 where "mgr_ensure (System run look) ''tcp'' n w = (Inr r, w1)"
    using EnsureManagement_Inr [OF assms(1)] by blast
  then have "validateRule ''tcp'' n = None"
    by (auto simp: System_def System_Ensure_def split: option.splits)
  then have "1 \<le> n" "n \<le> 65535" by simp_all
  from system_manager.state_file_valid [OF assms(1) this assms(2)] show ?thesis by blast
qed

theorem management_state_written_witness:
  "files (snd (EnsureManagement (System demo_fs_ufw (\<lambda>n. n = ''ufw'')) ''/var/lib/j-ui/fw.json'' 8443 demo_fs)) ''/var/lib/j-ui/fw.json''
   \<noteq> None"
proof -
  have "fst (EnsureManagement (System demo_fs_ufw (\<lambda>n. n = ''ufw'')) ''/var/lib/j-ui/fw.json'' 8443 demo_fs)
      = Inr \<lparr>Ownership = Owned, Backend = BackendUFW\<rparr>" by code_simp
  then have e: "EnsureManagement (System demo_fs_ufw (\<lambda>n. n = ''ufw'')) ''/var/lib/j-ui/fw.json'' 8443 demo_fs
      = (Inr \<lparr>Ownership = Owned, Backend = BackendUFW\<rparr>, demo_fs_after)"
    by (simp add: demo_fs_after_def prod_eq_iff)
  have "\<not> has_prefix ''/var/lib/j-ui/fw.json'' (path_join (path_dir ''/var/lib/j-ui/fw.json'') ''.management-firewall-'')"
    by code_simp
  from management_state_written [OF e this] show ?thesis by (auto simp: e)
qed

text \<open>A management rule the panel owned stays recorded as owned when the port is ensured again,
  even when this time the firewall's rule looks borrowed.\<close>

theorem management_ownership_kept:
  assumes "mgr_ensure mgr ''tcp'' n w = (Inr r, w1)" and "LoadManagementState path w1 = (Inr s, w2)"
    and "ms_port s = n" and "ms_ownership s = Owned"
    and "EnsureManagement mgr path n w = (Inr r', w')"
    and "\<not> has_prefix path (path_join (path_dir path) ''.management-firewall-'')"
  shows "files w' path = Some (encode_state
     \<lparr>ms_protocol = ''tcp'', ms_port = n, ms_ownership = Owned, ms_backend = Backend r\<rparr>)"
proof -
  have "writeManagementState path
     \<lparr>ms_protocol = ''tcp'', ms_port = n, ms_ownership = Owned, ms_backend = Backend r\<rparr> w2 = (Inr (), w')"
    using EnsureManagement_Inr [OF assms(5)] assms(1-4) by (auto simp: recorded_state_def)
  then show ?thesis using replace_file_Inr assms(6) unfolding writeManagementState_def by blast
qed

definition demo_path :: string where "demo_path = ''/d/fw.json''"

definition demo_state :: "string \<Rightarrow> management_state" where
  "demo_state o' = \<lparr>ms_protocol = ''tcp'', ms_port = 8443, ms_ownership = o', ms_backend = BackendUFW\<rparr>"

definition demo_fs_with :: "string \<Rightarrow> fs" where
  "demo_fs_with o' = demo_fs\<lparr>files := (\<lambda>p. if p = demo_path then Some (encode_state (demo_state o')) else None)\<rparr>"

definition borrowing_manager :: "fs manager" where
  "borrowing_manager = \<lparr>mgr_backend = io_return BackendUFW,
     mgr_ensure = (\<lambda>_ _. io_return \<lparr>Ownership = Borrowed, Backend = BackendUFW\<rparr>),
     mgr_close = (\<lambda>_ _ _. io_fail ErrIO)\<rparr>"

lemma pair_fst: "fst p = x \<Longrightarrow> p = (x, snd p)"
  by auto

theorem management_ownership_kept_witness:
  "files (snd (EnsureManagement borrowing_manager demo_path 8443 (demo_fs_with Owned))) demo_path
     = Some (encode_state (demo_state Owned))"
proof -
  have e: "mgr_ensure borrowing_manager ''tcp'' 8443 (demo_fs_with Owned)
      = (Inr \<lparr>Ownership = Borrowed, Backend = BackendUFW\<rparr>, demo_fs_with Owned)"
    by (simp add: borrowing_manager_def)
  have "fst (LoadManagementState demo_path (demo_fs_with Owned)) = Inr (demo_state Owned)" by code_simp
  note l = pair_fst [OF this]
  have "fst (EnsureManagement borrowing_manager demo_path 8443 (demo_fs_with Owned))
      = Inr \<lparr>Ownership = Borrowed, Backend = BackendUFW\<rparr>" by code_simp
  note r = pair_fst [OF this]
  have p: "\<not> has_prefix demo_path (path_join (path_dir demo_path) ''.management-firewall-'')" by code_simp
  show ?thesis
    using management_ownership_kept [OF e l _ _ r p] by (simp add: demo_state_def)
qed

text \<open>A management rule recorded as borrowed is never removed: closing deletes the state file and
  nothing else, whatever the firewall manager would do.\<close>

theorem borrowed_rule_never_closed:
  assumes "LoadManagementState path w = (Inr s, w1)" and "ms_ownership s = Borrowed"
  shows "CloseManagement mgr path w = fs_remove path w1"
  using assms by (simp add: CloseManagement_def io_try_def Owned_def Borrowed_def)

theorem borrowed_rule_never_closed_witness:
  "fst (CloseManagement borrowing_manager demo_path (demo_fs_with Borrowed)) = Inr ()"
proof -
  have "fst (LoadManagementState demo_path (demo_fs_with Borrowed)) = Inr (demo_state Borrowed)" by code_simp
  note l = pair_fst [OF this]
  have "fst (fs_remove demo_path (snd (LoadManagementState demo_path (demo_fs_with Borrowed)))) = Inr ()" by code_simp
  then show ?thesis
    using borrowed_rule_never_closed [OF l, of borrowing_manager] by (simp add: demo_state_def)
qed

end
