(* ===== verification/Subscription.thy ===== *)
theory Subscription
  imports GoJson
begin

text \<open>
  \<open>internal/subscription/service.go\<close>: the share links of every protocol, the Mihomo (Clash) and
  sing-box documents, and the rendering and preview of a subscription. The store is a record of its
  operations, the sealer, the random source, the hash and the YAML encoder are parameters. Documents
  built from maps are objects in the order in which the code sets their keys; the encoders sort them.
  The fragment and the query of a link are cut off as \<open>url.Parse\<close> does; its user information and host are
  kept as text, which is what \<open>URL.String\<close> reproduces for the identifiers the panel generates.
\<close>

section \<open>Names, ports and fields\<close>

type_synonym item = "node \<times> client \<times> string"

text \<open>A blank, a middle dot (two bytes in UTF-8), a blank.\<close>

definition DOT :: string where "DOT = [CHR '' '', CHR 0xC2, CHR 0xB7, CHR '' '']"

definition displayName :: "node \<Rightarrow> client \<Rightarrow> string" where
  "displayName n c =
     (let clientName = trim_space (client_name c)
      in if clientName = [] \<or> equal_fold clientName ''default'' then node_name n
         else node_name n @ DOT @ clientName)"

definition exportPort :: "node \<Rightarrow> int" where
  "exportPort n = (if protocol n = ProtocolVLESSArgo then 443 else port n)"

definition setting :: "node \<Rightarrow> string \<Rightarrow> string" where
  "setting n key = obj_string (settings n) key"

definition credential_of :: "client \<Rightarrow> string \<Rightarrow> string" where
  "credential_of c key = obj_string (credential c) key"

section \<open>Share links\<close>

definition reality_protocols :: "string list" where
  "reality_protocols = [ProtocolVLESSReality, ProtocolVLESSH2Reality, ProtocolVLESSGRPCReality]"

definition websocket_protocols :: "string list" where
  "websocket_protocols = [ProtocolVLESSWSTLS, ProtocolVLESSArgo]"

definition anytls_protocols :: "string list" where
  "anytls_protocols = [ProtocolAnyTLS, ProtocolAnyTLSReality]"

lemma protocol_classes [simp]:
  
  "ProtocolTrojanTLS \<notin> set reality_protocols" "ProtocolTrojanTLS \<notin> set websocket_protocols"
  "ProtocolHysteria2 \<notin> set reality_protocols" "ProtocolHysteria2 \<notin> set websocket_protocols"
  "ProtocolTUIC \<notin> set reality_protocols" "ProtocolTUIC \<notin> set websocket_protocols"
  "ProtocolSOCKS5 \<notin> set reality_protocols" "ProtocolSOCKS5 \<notin> set websocket_protocols"
  "ProtocolAnyTLS \<notin> set reality_protocols" "ProtocolAnyTLS \<notin> set websocket_protocols"
  "ProtocolAnyTLSReality \<notin> set reality_protocols" "ProtocolAnyTLSReality \<notin> set websocket_protocols"
  "ProtocolTrojanTLS \<notin> set anytls_protocols"
  "ProtocolHysteria2 \<notin> set anytls_protocols" "ProtocolTUIC \<notin> set anytls_protocols"
  "ProtocolSOCKS5 \<notin> set anytls_protocols" "ProtocolTrojanTLS \<noteq> ProtocolHysteria2"
  "ProtocolTrojanTLS \<noteq> ProtocolTUIC" "ProtocolTrojanTLS \<noteq> ProtocolSOCKS5"
  "ProtocolTrojanTLS \<noteq> ProtocolAnyTLS" "ProtocolTrojanTLS \<noteq> ProtocolAnyTLSReality"
  "ProtocolHysteria2 \<noteq> ProtocolTrojanTLS" "ProtocolHysteria2 \<noteq> ProtocolTUIC"
  "ProtocolHysteria2 \<noteq> ProtocolSOCKS5" "ProtocolHysteria2 \<noteq> ProtocolAnyTLS"
  "ProtocolHysteria2 \<noteq> ProtocolAnyTLSReality" "ProtocolTUIC \<noteq> ProtocolTrojanTLS"
  "ProtocolTUIC \<noteq> ProtocolHysteria2" "ProtocolTUIC \<noteq> ProtocolSOCKS5"
  "ProtocolTUIC \<noteq> ProtocolAnyTLS" "ProtocolTUIC \<noteq> ProtocolAnyTLSReality"
  "ProtocolSOCKS5 \<noteq> ProtocolTrojanTLS" "ProtocolSOCKS5 \<noteq> ProtocolHysteria2"
  "ProtocolSOCKS5 \<noteq> ProtocolTUIC" "ProtocolSOCKS5 \<noteq> ProtocolAnyTLS"
  "ProtocolSOCKS5 \<noteq> ProtocolAnyTLSReality" "ProtocolAnyTLS \<noteq> ProtocolTrojanTLS"
  "ProtocolAnyTLS \<noteq> ProtocolHysteria2" "ProtocolAnyTLS \<noteq> ProtocolTUIC"
  "ProtocolAnyTLS \<noteq> ProtocolSOCKS5" "ProtocolAnyTLS \<noteq> ProtocolAnyTLSReality"
  "ProtocolAnyTLSReality \<noteq> ProtocolTrojanTLS"
  "ProtocolAnyTLSReality \<noteq> ProtocolHysteria2" "ProtocolAnyTLSReality \<noteq> ProtocolTUIC"
  "ProtocolAnyTLSReality \<noteq> ProtocolSOCKS5" "ProtocolAnyTLSReality \<noteq> ProtocolAnyTLS"
  by code_simp+

text \<open>The scheme, the user information and the parameters (\<open>None\<close> for a link without a query).\<close>

definition uri_parts :: "node \<Rightarrow> client \<Rightarrow> (string \<times> string \<times> query option) option" where
  "uri_parts n c =
     (let p = protocol n; set' = (\<lambda>k key q. query_set k (setting n key) q)
      in if p \<in> set reality_protocols then
           let q0 = query_set ''fp'' ''chrome'' (set' ''sni'' ''server_name''
                      (query_set ''security'' ''reality'' (query_set ''encryption'' ''none'' [])));
               q1 = set' ''sid'' ''short_id'' (set' ''pbk'' ''public_key'' q0);
               q2 = (if p = ProtocolVLESSH2Reality
                     then set' ''path'' ''transport_path'' (query_set ''type'' ''http'' q1)
                     else if p = ProtocolVLESSGRPCReality
                     then set' ''serviceName'' ''service_name'' (query_set ''type'' ''grpc'' q1)
                     else query_set ''flow'' (credential_of c ''flow'') (query_set ''type'' ''tcp'' q1))
           in Some (''vless'', credential_of c ''uuid'', Some q2)
         else if p \<in> set websocket_protocols then
           Some (''vless'', credential_of c ''uuid'',
             Some (set' ''path'' ''ws_path'' (query_set ''type'' ''ws'' (set' ''host'' ''server_name''
               (set' ''sni'' ''server_name'' (query_set ''security'' ''tls'' (query_set ''encryption'' ''none'' [])))))))
         else if p = ProtocolTrojanTLS then
           Some (''trojan'', path_escape (credential_of c ''password''),
             Some (set' ''sni'' ''server_name'' (query_set ''security'' ''tls'' [])))
         else if p = ProtocolHysteria2 then
           Some (''hysteria2'', path_escape (credential_of c ''password''), Some (set' ''sni'' ''server_name'' []))
         else if p = ProtocolTUIC then
           Some (''tuic'', path_escape (credential_of c ''uuid'') @ '':'' @ path_escape (credential_of c ''password''),
             Some (query_set ''udp_relay_mode'' ''native'' (query_set ''congestion_control'' ''cubic''
               (query_set ''alpn'' ''h3'' (set' ''sni'' ''server_name'' [])))))
         else if p \<in> set anytls_protocols then
           let q0 = set' ''sni'' ''server_name'' [];
               q1 = (if p = ProtocolAnyTLSReality
                     then set' ''sid'' ''short_id'' (set' ''pbk'' ''public_key''
                            (query_set ''fp'' ''chrome'' (query_set ''security'' ''reality'' q0)))
                     else q0)
           in Some (''anytls'', path_escape (credential_of c ''password''), Some q1)
         else if p = ProtocolSOCKS5 then
           Some (''socks'', path_escape (credential_of c ''username'') @ '':'' @ path_escape (credential_of c ''password''), None)
         else None)"

definition link_text :: "string \<Rightarrow> string \<Rightarrow> string \<Rightarrow> string option \<Rightarrow> string \<Rightarrow> string" where
  "link_text schemename userinfo endpoint q frag =
     schemename @ ''://'' @ userinfo @ ''@'' @ endpoint @
     (case q of None \<Rightarrow> [] | Some t \<Rightarrow> ''?'' @ t) @ ''#'' @ frag"

definition URI :: "node \<Rightarrow> client \<Rightarrow> string \<Rightarrow> error + string" where
  "URI n c host =
     (if host = [] then Inl (Err ''host is required'')
      else case uri_parts n c of
        None \<Rightarrow> Inl (Err ''unsupported protocol'')
      | Some (schemename, userinfo, q) \<Rightarrow>
          Inr (link_text schemename userinfo (join_host_port host (itoa (exportPort n)))
                 (map_option query_encode q) (path_escape (displayName n c))))"

text \<open>A link taken apart: \<open>#\<close> first, then \<open>?\<close>, then the scheme and the user information.\<close>

definition parse_link :: "string \<Rightarrow> (string \<times> string \<times> string \<times> string option \<times> string) option" where
  "parse_link s =
     (case cut s CHR ''#'' of (u, frag, _) \<Rightarrow>
      case cut u CHR ''?'' of (u', q, hasq) \<Rightarrow>
        (case index_of u' ''://'' of
           None \<Rightarrow> None
         | Some i \<Rightarrow>
             let rest = drop (i + 3) u'
             in (case last_index_byte rest CHR ''@'' of
                   None \<Rightarrow> None
                 | Some k \<Rightarrow> Some (take i u', take k rest, drop (Suc k) rest, if hasq then Some q else None, frag))))"

definition URIForProfile :: "node \<Rightarrow> client \<Rightarrow> string \<Rightarrow> string \<Rightarrow> error + string" where
  "URIForProfile n c host profile = (case URI n c host of
      Inl e \<Rightarrow> Inl e
    | Inr link \<Rightarrow>
        if profile \<noteq> ''v2rayn'' \<or> protocol n \<noteq> ProtocolVLESSH2Reality then Inr link
        else (case parse_link link of
            Some (schemename, userinfo, endpoint, Some q, frag) \<Rightarrow>
              (case query_decode q of
                 Some qs \<Rightarrow> Inr (link_text schemename userinfo endpoint
                   (Some (query_encode (query_set ''path'' (setting n ''transport_path'')
                      (query_set ''host'' (setting n ''server_name'')
                        (query_set ''headerType'' ''http'' (query_set ''type'' ''raw'' qs)))))) frag)
               | None \<Rightarrow> Inl (Err ''invalid URI''))
          | _ \<Rightarrow> Inl (Err ''invalid URI'')))"

definition supportsURIProfile :: "string \<Rightarrow> string \<Rightarrow> bool" where
  "supportsURIProfile profile p \<longleftrightarrow> profile \<noteq> ''shadowrocket'' \<or> p \<noteq> ProtocolAnyTLSReality"

fun uri_links :: "string \<Rightarrow> item list \<Rightarrow> string list" where
  "uri_links profile [] = []"
| "uri_links profile ((n, c, host) # its) =
     (if \<not> supportsURIProfile profile (protocol n) then uri_links profile its
      else case URIForProfile n c host profile of
          Inr link \<Rightarrow> link # uri_links profile its
        | Inl e \<Rightarrow> uri_links profile its)"

definition renderURIList :: "item list \<Rightarrow> string \<Rightarrow> string" where
  "renderURIList its profile = std_encode (join [NL] (uri_links profile its))"

section \<open>The sing-box document\<close>

definition singBoxOutboundType :: "string \<Rightarrow> string" where
  "singBoxOutboundType p =
     (if p \<in> set reality_protocols \<or> p \<in> set websocket_protocols then ''vless''
      else if p = ProtocolAnyTLSReality then ''anytls''
      else if p = ProtocolTrojanTLS then ''trojan''
      else if p = ProtocolSOCKS5 then ''socks''
      else p)"

definition tls_obj :: "node \<Rightarrow> obj" where
  "tls_obj n = [(''enabled'', JBool True), (''server_name'', JStr (setting n ''server_name''))]"

definition reality_tls :: "node \<Rightarrow> obj" where
  "reality_tls n = obj_set ''reality'' (JObj [(''enabled'', JBool True),
        (''public_key'', JStr (setting n ''public_key'')), (''short_id'', JStr (setting n ''short_id''))])
      (obj_set ''utls'' (JObj [(''enabled'', JBool True), (''fingerprint'', JStr ''chrome'')]) (tls_obj n))"

definition singBoxOutbound :: "node \<Rightarrow> client \<Rightarrow> string \<Rightarrow> string \<Rightarrow> error + obj" where
  "singBoxOutbound n c host tag =
     (if host = [] then Inl (Err ''host is required'')
      else
        let p = protocol n; cred = (\<lambda>k. JStr (credential_of c k));
            base = [(''type'', JStr (singBoxOutboundType p)), (''tag'', JStr tag),
                    (''server'', JStr host), (''server_port'', JInt (exportPort n))]
        in if p \<in> set reality_protocols then
             let b1 = obj_set ''uuid'' (cred ''uuid'') base;
                 b2 = (if p = ProtocolVLESSReality then obj_set ''flow'' (cred ''flow'') b1 else b1);
                 b3 = obj_set ''tls'' (JObj (reality_tls n)) b2;
                 b4 = (if p = ProtocolVLESSH2Reality
                       then obj_set ''transport'' (JObj [(''type'', JStr ''http''),
                              (''path'', JStr (setting n ''transport_path''))]) b3 else b3)
             in Inr (if p = ProtocolVLESSGRPCReality
                     then obj_set ''transport'' (JObj [(''type'', JStr ''grpc''),
                            (''service_name'', JStr (setting n ''service_name''))]) b4 else b4)
           else if p \<in> set websocket_protocols then
             Inr (obj_set ''transport'' (JObj [(''type'', JStr ''ws''), (''path'', JStr (setting n ''ws_path'')),
                    (''headers'', JObj [(''Host'', JStr (setting n ''server_name''))])])
                 (obj_set ''tls'' (JObj (tls_obj n)) (obj_set ''uuid'' (cred ''uuid'') base)))
           else if p = ProtocolTrojanTLS \<or> p = ProtocolHysteria2 then
             Inr (obj_set ''tls'' (JObj (tls_obj n)) (obj_set ''password'' (cred ''password'') base))
           else if p = ProtocolTUIC then
             Inr (obj_set ''tls'' (JObj (obj_set ''alpn'' (JList [JStr ''h3'']) (tls_obj n)))
                 (obj_set ''congestion_control'' (JStr ''cubic'')
                 (obj_set ''password'' (cred ''password'') (obj_set ''uuid'' (cred ''uuid'') base))))
           else if p \<in> set anytls_protocols then
             Inr (obj_set ''tls'' (JObj (if p = ProtocolAnyTLSReality then reality_tls n else tls_obj n))
                 (obj_set ''password'' (cred ''password'') base))
           else if p = ProtocolSOCKS5 then
             Inr (obj_set ''password'' (cred ''password'') (obj_set ''username'' (cred ''username'')
                 (obj_set ''version'' (JStr ''5'') base)))
           else Inl (Err ''unsupported protocol''))"

definition item_tag :: "nat \<Rightarrow> node \<Rightarrow> client \<Rightarrow> string" where
  "item_tag index n c =
     (if node_id n = 0 \<or> client_id c = 0 then ''node-'' @ nat_dec (Suc index)
      else ''node-'' @ itoa (node_id n) @ ''-'' @ itoa (client_id c))"

fun sing_loop :: "nat \<Rightarrow> item list \<Rightarrow> json list \<times> string list \<Rightarrow> json list \<times> string list" where
  "sing_loop index [] acc = acc"
| "sing_loop index ((n, c, host) # its) (outs, tags) =
     (case singBoxOutbound n c host (item_tag index n c) of
        Inl e \<Rightarrow> sing_loop (Suc index) its (outs, tags)
      | Inr ob \<Rightarrow> sing_loop (Suc index) its (outs @ [JObj ob], tags @ [item_tag index n c]))"

definition SingBox_doc :: "item list \<Rightarrow> json" where
  "SingBox_doc its =
     (case sing_loop 0 its ([], []) of (outs, tags) \<Rightarrow>
       let direct = JObj [(''type'', JStr ''direct''), (''tag'', JStr ''direct'')];
           selector = JObj [(''type'', JStr ''selector''), (''tag'', JStr ''proxy''),
             (''outbounds'', JList (map JStr tags)), (''default'', JStr (hd tags))];
           final = (if tags \<noteq> [] then ''proxy'' else ''direct'')
       in JObj [(''log'', JObj [(''level'', JStr ''info''), (''timestamp'', JBool True)]),
           (''inbounds'', JList [JObj [(''type'', JStr ''mixed''), (''tag'', JStr ''mixed-in''),
              (''listen'', JStr ''127.0.0.1''), (''listen_port'', JInt 2080)]]),
           (''outbounds'', JList (outs @ [direct] @ (if tags \<noteq> [] then [selector] else []))),
           (''route'', JObj [(''final'', JStr final)])])"

definition SingBox :: "item list \<Rightarrow> string" where
  "SingBox its = json_indent (json_sorted (SingBox_doc its))"

section \<open>The Mihomo document\<close>

definition supportsClash :: "string \<Rightarrow> bool" where
  "supportsClash p \<longleftrightarrow> p \<noteq> ProtocolAnyTLSReality"

definition clashProxy :: "node \<Rightarrow> client \<Rightarrow> string \<Rightarrow> string \<Rightarrow> error + obj" where
  "clashProxy n c host name =
     (let p = protocol n; cred = (\<lambda>k. JStr (credential_of c k)); opt = (\<lambda>k. JStr (setting n k));
          base = [(''name'', JStr name), (''server'', JStr host), (''port'', JInt (exportPort n))]
      in if p \<in> set reality_protocols then
           let b1 = obj_set ''servername'' (opt ''server_name'') (obj_set ''tls'' (JBool True)
                 (obj_set ''network'' (JStr ''tcp'') (obj_set ''uuid'' (cred ''uuid'')
                 (obj_set ''type'' (JStr ''vless'') base))));
               b2 = (if p = ProtocolVLESSReality then obj_set ''flow'' (cred ''flow'') b1
                     else if p = ProtocolVLESSH2Reality
                     then obj_set ''h2-opts'' (JObj [(''path'', opt ''transport_path'')])
                            (obj_set ''network'' (JStr ''h2'') b1)
                     else obj_set ''grpc-opts'' (JObj [(''grpc-service-name'', opt ''service_name'')])
                            (obj_set ''network'' (JStr ''grpc'') b1))
           in Inr (obj_set ''reality-opts'' (JObj [(''public-key'', opt ''public_key''), (''short-id'', opt ''short_id'')])
                 (obj_set ''client-fingerprint'' (JStr ''chrome'') b2))
         else if p \<in> set websocket_protocols then
           Inr (obj_set ''ws-opts'' (JObj [(''path'', opt ''ws_path''), (''headers'', JObj [(''Host'', opt ''server_name'')])])
               (obj_set ''servername'' (opt ''server_name'') (obj_set ''tls'' (JBool True)
               (obj_set ''network'' (JStr ''ws'') (obj_set ''uuid'' (cred ''uuid'')
               (obj_set ''type'' (JStr ''vless'') base))))))
         else if p = ProtocolTrojanTLS then
           Inr (obj_set ''sni'' (opt ''server_name'') (obj_set ''tls'' (JBool True)
               (obj_set ''password'' (cred ''password'') (obj_set ''type'' (JStr ''trojan'') base))))
         else if p = ProtocolHysteria2 then
           Inr (obj_set ''sni'' (opt ''server_name'') (obj_set ''password'' (cred ''password'')
               (obj_set ''type'' (JStr ''hysteria2'') base)))
         else if p = ProtocolTUIC then
           Inr (obj_set ''udp-relay-mode'' (JStr ''native'') (obj_set ''congestion-controller'' (JStr ''cubic'')
               (obj_set ''alpn'' (JList [JStr ''h3'']) (obj_set ''sni'' (opt ''server_name'')
               (obj_set ''password'' (cred ''password'') (obj_set ''uuid'' (cred ''uuid'')
               (obj_set ''type'' (JStr ''tuic'') base)))))))
         else if p = ProtocolAnyTLS then
           Inr (obj_set ''sni'' (opt ''server_name'') (obj_set ''tls'' (JBool True)
               (obj_set ''password'' (cred ''password'') (obj_set ''type'' (JStr ''anytls'') base))))
         else if p = ProtocolAnyTLSReality then Inl (Err ''AnyTLS with Reality is not supported by Mihomo'')
         else if p = ProtocolSOCKS5 then
           Inr (obj_set ''password'' (cred ''password'') (obj_set ''username'' (cred ''username'')
               (obj_set ''type'' (JStr ''socks5'') base)))
         else Inl (Err ''unsupported protocol''))"

definition name_count :: "item list \<Rightarrow> string \<Rightarrow> nat" where
  "name_count its name =
     length (filter (\<lambda>(n, c, host). supportsClash (protocol n) \<and> displayName n c = name) its)"

definition clash_name :: "item list \<Rightarrow> nat \<Rightarrow> node \<Rightarrow> client \<Rightarrow> string" where
  "clash_name its index n c =
     (let name = displayName n c
      in if 1 < name_count its name then
           (if node_id n \<noteq> 0 \<and> client_id c \<noteq> 0
            then name @ DOT @ ''n'' @ itoa (node_id n) @ ''-c'' @ itoa (client_id c)
            else name @ DOT @ ''#'' @ nat_dec (Suc index))
         else name)"

fun clash_loop :: "item list \<Rightarrow> nat \<Rightarrow> item list \<Rightarrow> json list \<times> string list \<Rightarrow> json list \<times> string list" where
  "clash_loop all index [] acc = acc"
| "clash_loop all index ((n, c, host) # its) (proxies, names) =
     (if \<not> supportsClash (protocol n) then clash_loop all (Suc index) its (proxies, names)
      else case clashProxy n c host (clash_name all index n c) of
          Inl e \<Rightarrow> clash_loop all (Suc index) its (proxies, names)
        | Inr proxy \<Rightarrow>
            clash_loop all (Suc index) its (proxies @ [JObj proxy], names @ [obj_string proxy ''name'']))"

definition Clash_doc :: "item list \<Rightarrow> json" where
  "Clash_doc its =
     (case clash_loop its 0 its ([], []) of (proxies, names) \<Rightarrow>
       let autoNames = (if names = [] then [''DIRECT''] else names)
       in JObj [(''mixed-port'', JInt 7890), (''mode'', JStr ''rule''), (''proxies'', JList proxies),
           (''proxy-groups'', JList [
              JObj [(''name'', JStr ''PROXY''), (''type'', JStr ''select''), (''proxies'', JList (map JStr (''AUTO'' # names)))],
              JObj [(''name'', JStr ''AUTO''), (''type'', JStr ''url-test''),
                (''url'', JStr ''https://www.gstatic.com/generate_204''), (''interval'', JInt 300),
                (''proxies'', JList (map JStr autoNames))]]),
           (''rules'', JList [JStr ''MATCH,PROXY''])])"

definition Clash :: "(json \<Rightarrow> error + string) \<Rightarrow> item list \<Rightarrow> error + string" where
  "Clash yaml its = yaml (json_sorted (Clash_doc its))"

section \<open>The service\<close>

record 'w sub_store =
  st_token :: "('w, string) io"
  st_reset :: "string \<Rightarrow> string \<Rightarrow> ('w, unit) io"
  st_node :: "int \<Rightarrow> ('w, node) io"
  st_setting :: "string \<Rightarrow> ('w, string) io"
  st_clients :: "int \<Rightarrow> ('w, client list) io"
  st_nodes :: "('w, node list) io"
  st_user :: "string \<Rightarrow> ('w, user) io"

definition ResetToken ::
    "'w sub_store \<Rightarrow> ('w, string) io \<Rightarrow> (string \<Rightarrow> ('w, string) io) \<Rightarrow> (string \<Rightarrow> string) \<Rightarrow> ('w, string) io" where
  "ResetToken st random_token seal hash =
     io_bind random_token (\<lambda>token.
     io_bind (seal token) (\<lambda>encrypted.
     io_bind (st_reset st (hash token) encrypted) (\<lambda>_. io_return token)))"

definition host_for :: "node \<Rightarrow> string \<Rightarrow> string" where
  "host_for n publicHost = (if public_host_override n = [] then publicHost else public_host_override n)"

definition of_result :: "error + 'a \<Rightarrow> ('w, 'a) io" where
  "of_result r = (case r of Inl e \<Rightarrow> io_fail e | Inr x \<Rightarrow> io_return x)"

definition NodeURI :: "'w sub_store \<Rightarrow> int \<Rightarrow> ('w, string) io" where
  "NodeURI st nodeID =
     io_bind (st_node st nodeID) (\<lambda>n.
     io_bind (st_setting st ''public_host'') (\<lambda>publicHost.
     io_bind (st_clients st nodeID) (\<lambda>cs.
       case find client_enabled cs of
         Some c \<Rightarrow> of_result (URI n c (host_for n publicHost))
       | None \<Rightarrow> io_fail (problem_New Conflict ''no_enabled_client'' None))))"

definition ErrNoRows :: error where "ErrNoRows = Err ''sql: no rows in result set''"

definition ClientURI :: "'w sub_store \<Rightarrow> int \<Rightarrow> int \<Rightarrow> ('w, string) io" where
  "ClientURI st nodeID clientID =
     io_bind (st_node st nodeID) (\<lambda>n.
     io_bind (st_setting st ''public_host'') (\<lambda>publicHost.
     io_bind (st_clients st nodeID) (\<lambda>cs.
       case find (\<lambda>c. client_id c = clientID) cs of
         Some c \<Rightarrow> of_result (URI n c (host_for n publicHost))
       | None \<Rightarrow> io_fail (problem_New NotFound ''not_found'' (Some ErrNoRows)))))"

fun items_loop :: "'w sub_store \<Rightarrow> int \<Rightarrow> string \<Rightarrow> node list \<Rightarrow> item list \<Rightarrow> ('w, item list) io" where
  "items_loop st userID publicHost [] its = io_return its"
| "items_loop st userID publicHost (n # ns) its =
     (if \<not> node_enabled n then items_loop st userID publicHost ns its
      else io_bind (st_clients st (node_id n)) (\<lambda>cs.
        items_loop st userID publicHost ns
          (its @ map (\<lambda>c. (n, c, host_for n publicHost))
             (filter (\<lambda>c. client_enabled c \<and> client_user c = userID) cs))))"

definition subscription_items :: "'w sub_store \<Rightarrow> int \<Rightarrow> string \<Rightarrow> ('w, item list) io" where
  "subscription_items st userID publicHost =
     io_bind (st_nodes st) (\<lambda>ns. items_loop st userID publicHost ns [])"

definition Render ::
    "'w sub_store \<Rightarrow> (string \<Rightarrow> string) \<Rightarrow> (json \<Rightarrow> error + string) \<Rightarrow> string \<Rightarrow> string \<Rightarrow> ('w, string \<times> string) io" where
  "Render st hash yaml token format =
     io_bind (st_user st (hash token)) (\<lambda>u.
     io_try (st_setting st ''public_host'') (\<lambda>r.
       let required = (\<lambda>cause. io_fail (problem_New Conflict ''public_host_required'' cause))
       in case r of
            Inl e \<Rightarrow> required (Some e)
          | Inr publicHost \<Rightarrow>
              if publicHost = [] then required None
              else io_bind (subscription_items st (user_id u) publicHost) (\<lambda>its.
                if format \<in> set [[], ''base64'', ''v2rayn'', ''shadowrocket'']
                then io_return (renderURIList its format, ''text/plain; charset=utf-8'')
                else if format = ''clash''
                then io_bind (of_result (Clash yaml its)) (\<lambda>b. io_return (b, ''application/yaml; charset=utf-8''))
                else if format = ''singbox''
                then io_return (SingBox its, ''application/json; charset=utf-8'')
                else io_fail (problem_New Validation ''unsupported_format'' None))))"

record preview =
  pv_format :: string
  pv_valid :: bool
  pv_items :: nat
  pv_content :: string

fun count_uris :: "string list \<Rightarrow> nat \<Rightarrow> error + nat" where
  "count_uris [] k = Inr k"
| "count_uris (line # ls) k =
     (if trim_space line = [] then count_uris ls k
      else case parse_link line of
          Some (schemename, userinfo, endpoint, q, frag) \<Rightarrow>
            if schemename = [] \<or> endpoint = [] then Inl (Err ''validate node URI: invalid URI'')
            else count_uris ls (Suc k)
        | None \<Rightarrow> Inl (Err ''validate node URI: invalid URI''))"

definition outbound_tag :: "json \<Rightarrow> error + string" where
  "outbound_tag j = (case j of
      JNull \<Rightarrow> Inr []
    | JObj ob \<Rightarrow> (case json_member ob ''tag'' of JStr s \<Rightarrow> Inr s | JNull \<Rightarrow> Inr [] | _ \<Rightarrow> Inl (Err ''validate sing-box JSON''))
    | _ \<Rightarrow> Inl (Err ''validate sing-box JSON''))"

fun count_tags :: "json list \<Rightarrow> nat \<Rightarrow> error + nat" where
  "count_tags [] k = Inr k"
| "count_tags (j # js) k = (case outbound_tag j of
      Inl e \<Rightarrow> Inl e
    | Inr t \<Rightarrow> count_tags js (if has_prefix t ''node-'' then Suc k else k))"

definition singbox_items :: "string \<Rightarrow> error + nat" where
  "singbox_items body = (case json_parse body of
      Some (JObj ob) \<Rightarrow> (case json_member ob ''outbounds'' of
          JList js \<Rightarrow> count_tags js 0
        | JNull \<Rightarrow> Inr 0
        | _ \<Rightarrow> Inl (Err ''validate sing-box JSON''))
    | Some JNull \<Rightarrow> Inr 0
    | _ \<Rightarrow> Inl (Err ''validate sing-box JSON''))"

definition Preview ::
    "'w sub_store \<Rightarrow> (string \<Rightarrow> string) \<Rightarrow> (json \<Rightarrow> error + string) \<Rightarrow> (string \<Rightarrow> error + nat) \<Rightarrow>
      string \<Rightarrow> ('w, preview) io" where
  "Preview st hash yaml yaml_proxies format0 =
     (let format = (if format0 = [] then ''base64'' else format0)
      in io_bind (st_token st) (\<lambda>token.
         io_bind (Render st hash yaml token format) (\<lambda>(body, ctype).
           let result = (\<lambda>k content. \<lparr>pv_format = format, pv_valid = True, pv_items = k, pv_content = content\<rparr>)
           in if format \<in> set [''base64'', ''v2rayn'', ''shadowrocket''] then
                (case std_decode body of
                   None \<Rightarrow> io_fail (Err ''validate base64 subscription'')
                 | Some content \<Rightarrow> (case count_uris (split_char NL content) 0 of
                       Inl e \<Rightarrow> io_fail e | Inr k \<Rightarrow> io_return (result k content)))
              else if format = ''clash'' then
                (case yaml_proxies body of
                   Inl e \<Rightarrow> io_fail (Wrap ''validate Mihomo YAML'' e) | Inr k \<Rightarrow> io_return (result k body))
              else if format = ''singbox'' then
                (case singbox_items body of
                   Inl e \<Rightarrow> io_fail (Wrap ''validate sing-box JSON'' e) | Inr k \<Rightarrow> io_return (result k body))
              else io_fail (problem_New Validation ''unsupported_format'' None))))"

section \<open>Links are read back\<close>

lemma cut_none: "c \<notin> set s \<Longrightarrow> cut s c = (s, [], False)"
  by (simp add: cut_def index_byte_None [symmetric])

lemma parse_link_text:
  assumes "CHR '':'' \<notin> set schemename"
    and "\<forall>ch\<in>set (schemename @ userinfo @ endpoint). ch \<noteq> CHR ''#'' \<and> ch \<noteq> CHR ''?''"
    and "CHR ''@'' \<notin> set endpoint" and "\<forall>t. q = Some t \<longrightarrow> CHR ''#'' \<notin> set t"
  shows "parse_link (link_text schemename userinfo endpoint q frag)
    = Some (schemename, userinfo, endpoint, q, frag)"
proof -
  let ?u = "schemename @ ''://'' @ userinfo @ ''@'' @ endpoint"
  let ?t = "case q of None \<Rightarrow> [] | Some t \<Rightarrow> ''?'' @ t"
  have u: "CHR ''#'' \<notin> set ?u" "CHR ''?'' \<notin> set ?u" using assms(2) by auto
  have "CHR ''#'' \<notin> set (?u @ ?t)" using u(1) assms(4) by (auto split: option.splits)
  then have 1: "cut (link_text schemename userinfo endpoint q frag) CHR ''#'' = (?u @ ?t, frag, True)"
    using cut_append [of "CHR ''#''" "?u @ ?t" frag] by (simp add: link_text_def)
  have 2: "cut (?u @ ?t) CHR ''?'' = (?u, (case q of None \<Rightarrow> [] | Some t \<Rightarrow> t), q \<noteq> None)"
    using u(2) cut_append [of "CHR ''?''" ?u] cut_none [of "CHR ''?''" ?u] by (cases q) simp_all
  have 3: "index_of ?u ''://'' = Some (length schemename)"
    using index_of_skip [OF assms(1), of "''://'' @ userinfo @ ''@'' @ endpoint" "''//''"]
    by (simp add: has_prefix_def)
  have 4: "last_index_byte (userinfo @ CHR ''@'' # endpoint) CHR ''@'' = Some (length userinfo)"
    using assms(3) by (rule last_index_byte_append)
  show ?thesis
    by (simp only: parse_link_def 1 2 3 4 prod.case option.case Let_def)
       (cases q; simp add: 4)
qed

lemma path_escape_chars:
  "c \<in> set (path_escape s) \<Longrightarrow> c \<noteq> CHR ''#'' \<and> c \<noteq> CHR ''?'' \<and> c \<noteq> CHR ''/'' \<and> c \<noteq> NL"
proof -
  assume "c \<in> set (path_escape s)"
  then have "path_safe c \<or> c = CHR ''%'' \<or> is_alnum c"
    unfolding path_escape_def using escape_chars by blast
  then show ?thesis
    by (auto simp: path_safe_def unreserved_def is_alnum_def is_lower_def is_upper_def is_digit_def NL_def)
qed

text \<open>Text that stands in a link unescaped.\<close>

definition link_marks :: string where "link_marks = ''#?/@%''"

definition plain_char :: "char \<Rightarrow> bool" where
  "plain_char c \<longleftrightarrow> c \<notin> set link_marks \<and> c \<noteq> NL"

definition plain :: "string \<Rightarrow> bool" where
  "plain s \<longleftrightarrow> (\<forall>c\<in>set s. plain_char c)"

lemma unescape_append:
  "unescape f a = Some a' \<Longrightarrow> unescape f (a @ b) = map_option (append a') (unescape f b)"
proof (induction a arbitrary: a' rule: length_induct)
  case (1 a)
  show ?case
  proof (cases a)
    case Nil
    then show ?thesis using 1(2) by (cases "unescape f b") simp_all
  next
    case (Cons c s)
    show ?thesis
    proof (cases "c = CHR ''%''")
      case True
      then obtain h l r where s: "s = h # l # r" using 1(2) Cons by (auto split: list.splits)
      obtain x y r' where x: "unhex h = Some x" "unhex l = Some y" "unescape f r = Some r'"
        "a' = char_of (x * 16 + y) # r'"
        using 1(2) True Cons s by (auto split: option.splits)
      have "unescape f (r @ b) = map_option (append r') (unescape f b)" using 1(1) x(3) Cons s by simp
      then show ?thesis using s x(1,2,4) True Cons by (cases "unescape f b") auto
    next
      case False
      then obtain r' where r: "unescape f s = Some r'" "a' = (if f \<and> c = CHR ''+'' then CHR '' '' else c) # r'"
        using 1(2) Cons by (auto split: if_splits)
      have "unescape f (s @ b) = map_option (append r') (unescape f b)" using 1(1) r(1) Cons by simp
      then show ?thesis using r(2) False Cons by (cases "unescape f b") auto
    qed
  qed
qed

lemma unescape_plain: "plain s \<Longrightarrow> path_unescape s = Some s"
  unfolding path_unescape_def by (induction s) (auto simp: plain_def plain_char_def link_marks_def)

lemma plain_append [simp]: "plain (a @ b) \<longleftrightarrow> plain a \<and> plain b"
  by (auto simp: plain_def)

lemma plain_Cons [simp]: "plain (c # s) \<longleftrightarrow> plain_char c \<and> plain s"
  by (auto simp: plain_def)

lemma plain_Nil [simp]: "plain []"
  by (simp add: plain_def)

lemma plain_marks [simp]: "plain_char CHR '':''" "plain_char CHR ''[''" "plain_char CHR 0x5D"
  by (simp_all add: plain_char_def link_marks_def NL_def)

lemma marks_not_digits: "c \<in> set link_marks \<Longrightarrow> \<not> is_digit c \<and> c \<noteq> CHR ''-''"
proof -
  have "list_all (\<lambda>c. \<not> is_digit c \<and> c \<noteq> CHR ''-'') link_marks" by code_simp
  then show "c \<in> set link_marks \<Longrightarrow> ?thesis" unfolding list_all_iff by (rule bspec)
qed

lemma plain_itoa: "plain (itoa n)"
  unfolding plain_def
proof
  fix c assume "c \<in> set (itoa n)"
  then have "is_digit c \<or> c = CHR ''-''" by (rule itoa_chars)
  moreover have "\<not> is_digit NL \<and> NL \<noteq> CHR ''-''" by code_simp
  ultimately show "plain_char c" using marks_not_digits [of c] unfolding plain_char_def by metis
qed

lemma plain_join_host_port: "plain host \<Longrightarrow> plain (join_host_port host (itoa n))"
  using plain_itoa [of n] by (simp add: join_host_port_def)

text \<open>What a client reads: scheme, unescaped user information, endpoint, parameters, name.\<close>

definition read_link :: "string \<Rightarrow> (string \<times> string \<times> string \<times> query \<times> string) option" where
  "read_link s = (case parse_link s of
      None \<Rightarrow> None
    | Some (schemename, userinfo, endpoint, q, frag) \<Rightarrow>
        (case (path_unescape userinfo, (case q of None \<Rightarrow> Some [] | Some t \<Rightarrow> query_decode t), path_unescape frag) of
           (Some u, Some params, Some name) \<Rightarrow> Some (schemename, u, endpoint, params, name)
         | _ \<Rightarrow> None))"

definition vless_protocols :: "string list" where
  "vless_protocols = reality_protocols @ websocket_protocols"

definition link_scheme :: "string \<Rightarrow> string" where
  "link_scheme p = (if p \<in> set reality_protocols then ''vless'' else if p \<in> set websocket_protocols then ''vless''
     else if p = ProtocolTrojanTLS then ''trojan'' else if p = ProtocolHysteria2 then ''hysteria2''
     else if p = ProtocolTUIC then ''tuic'' else if p \<in> set anytls_protocols then ''anytls'' else ''socks'')"

definition link_user :: "node \<Rightarrow> client \<Rightarrow> string" where
  "link_user n c =
     (let p = protocol n; cred = credential_of c
      in if p \<in> set reality_protocols \<or> p \<in> set websocket_protocols then cred ''uuid''
         else if p = ProtocolTrojanTLS \<or> p = ProtocolHysteria2 then cred ''password''
         else if p = ProtocolTUIC then cred ''uuid'' @ '':'' @ cred ''password''
         else if p \<in> set anytls_protocols then cred ''password''
         else cred ''username'' @ '':'' @ cred ''password'')"

text \<open>The parameters a client of each protocol needs, by the names its links use, written down apart from the exporter.\<close>

definition link_params :: "node \<Rightarrow> client \<Rightarrow> query" where
  "link_params n c =
     (let p = protocol n; sni = (''sni'', setting n ''server_name'');
          reality = [(''security'', ''reality''), (''fp'', ''chrome''), (''pbk'', setting n ''public_key''), (''sid'', setting n ''short_id'')]
      in if p = ProtocolVLESSReality
         then reality @ [sni, (''encryption'', ''none''), (''type'', ''tcp''), (''flow'', credential_of c ''flow'')]
         else if p = ProtocolVLESSH2Reality
         then reality @ [sni, (''encryption'', ''none''), (''type'', ''http''), (''path'', setting n ''transport_path'')]
         else if p = ProtocolVLESSGRPCReality
         then reality @ [sni, (''encryption'', ''none''), (''type'', ''grpc''), (''serviceName'', setting n ''service_name'')]
         else if p = ProtocolVLESSWSTLS \<or> p = ProtocolVLESSArgo
         then [sni, (''encryption'', ''none''), (''security'', ''tls''), (''type'', ''ws''),
           (''host'', setting n ''server_name''), (''path'', setting n ''ws_path'')]
         else if p = ProtocolTrojanTLS then [sni, (''security'', ''tls'')]
         else if p = ProtocolTUIC
         then [sni, (''alpn'', ''h3''), (''congestion_control'', ''cubic''), (''udp_relay_mode'', ''native'')]
         else if p = ProtocolAnyTLSReality then reality @ [sni]
         else if p = ProtocolHysteria2 \<or> p = ProtocolAnyTLS then [sni]
         else [])"

text \<open>The host and, for the VLESS links, the identifier need no escaping.\<close>

definition link_ready :: "node \<Rightarrow> client \<Rightarrow> string \<Rightarrow> bool" where
  "link_ready n c host \<longleftrightarrow> plain host \<and>
     (protocol n \<in> set reality_protocols \<or> protocol n \<in> set websocket_protocols \<longrightarrow>
        plain (credential_of c ''uuid''))"

lemma path_unescape_escape [simp]: "path_unescape (path_escape s) = Some s"
  by (rule path_seg.dec_enc)

lemma path_unescape_pair [simp]:
  "path_unescape (path_escape a @ CHR '':'' # path_escape b) = Some (a @ CHR '':'' # b)"
proof -
  have "path_unescape (CHR '':'' # path_escape b) = Some (CHR '':'' # b)"
    using path_seg.dec_enc [of b] by (simp add: path_unescape_def)
  then show ?thesis
    using unescape_append [of False "path_escape a" a] path_seg.dec_enc [of a] by (simp add: path_unescape_def)
qed

definition info_text :: "string \<Rightarrow> bool" where
  "info_text s \<longleftrightarrow> CHR ''#'' \<notin> set s \<and> CHR ''?'' \<notin> set s \<and> NL \<notin> set s"

lemma info_text_escape [simp]: "info_text (path_escape s)"
  using path_escape_chars by (auto simp: info_text_def)

lemma info_text_colon [simp]: "info_text (CHR '':'' # b) \<longleftrightarrow> info_text b"
  by (auto simp: info_text_def NL_def)

lemma info_text_append [simp]: "info_text (a @ b) \<longleftrightarrow> info_text a \<and> info_text b"
  by (auto simp: info_text_def)

lemma info_text_plain: "plain s \<Longrightarrow> info_text s"
  by (auto simp: info_text_def plain_def plain_char_def link_marks_def)

lemma link_scheme_text: "info_text (link_scheme p) \<and> CHR '':'' \<notin> set (link_scheme p) \<and> link_scheme p \<noteq> []"
  by (auto simp: link_scheme_def info_text_def NL_def)

lemma uri_parts_scheme: "uri_parts n c = Some (schemename, userinfo, q) \<Longrightarrow> schemename = link_scheme (protocol n)"
  by (auto simp: uri_parts_def link_scheme_def Let_def split: if_splits)

lemma sort_key_distinct:
  assumes "mset xs = mset ys \<and> distinct (map f ys)"
  shows "sort_key f xs = sort_key f ys"
proof (rule map_sorted_distinct_set_unique [of f])
  have m: "mset (map f xs) = mset (map f ys)" using assms by simp
  have e: "set xs = set ys" by (rule mset_eq_setD) (use assms in simp)
  then have "distinct (map f xs)" using assms mset_eq_imp_distinct_iff [OF m] by simp
  moreover have d: "distinct (map f (sort_key f zs)) \<longleftrightarrow> distinct (map f zs)" for zs
    by (rule mset_eq_imp_distinct_iff) simp
  ultimately show "distinct (map f (sort_key f xs))" "distinct (map f (sort_key f ys))"
    using assms by (simp_all only: d)
  show "inj_on f (set (sort_key f xs) \<union> set (sort_key f ys))" using assms e by (simp add: distinct_map)
  show "set (sort_key f xs) = set (sort_key f ys)" using e by simp
qed simp_all

lemma uri_parts_params:
  assumes "uri_parts n c = Some (schemename, userinfo, q)"
  shows "sort_key fst (case q of Some ps \<Rightarrow> ps | None \<Rightarrow> []) = sort_key fst (link_params n c)"
proof -
  note d = uri_parts_def link_params_def query_set_def protocol_defs reality_protocols_def websocket_protocols_def
    anytls_protocols_def Let_def
  let ?ps = "case q of Some ps \<Rightarrow> ps | None \<Rightarrow> []"
  have "mset ?ps = mset (link_params n c) \<and> distinct (map fst (link_params n c))"
    using assms by (auto simp: d split: if_splits)
  then show ?thesis by (blast intro: sort_key_distinct)
qed

lemma uri_parts_user:
  assumes "uri_parts n c = Some (schemename, userinfo, q)" and "link_ready n c host"
  shows "path_unescape userinfo = Some (link_user n c) \<and> info_text userinfo"
proof -
  have v: "path_unescape (credential_of c ''uuid'') = Some (credential_of c ''uuid'')" "info_text (credential_of c ''uuid'')"
    if "protocol n \<in> set reality_protocols \<or> protocol n \<in> set websocket_protocols"
    using that assms(2) by (auto simp: link_ready_def unescape_plain info_text_plain)
  show ?thesis
    using assms(1) v
    by (auto simp: uri_parts_def link_user_def Let_def split: if_splits)
qed

lemma URI_text:
  assumes "URI n c host = Inr link" and "link_ready n c host"
  obtains userinfo q where "uri_parts n c = Some (link_scheme (protocol n), userinfo, q)"
    "link = link_text (link_scheme (protocol n)) userinfo (join_host_port host (itoa (exportPort n)))
       (map_option query_encode q) (path_escape (displayName n c))"
    "parse_link link = Some (link_scheme (protocol n), userinfo, join_host_port host (itoa (exportPort n)),
       map_option query_encode q, path_escape (displayName n c))"
proof -
  obtain sch userinfo q where u: "uri_parts n c = Some (sch, userinfo, q)"
    using assms(1) by (auto simp: URI_def split: if_splits option.splits)
  then have sch: "sch = link_scheme (protocol n)" by (rule uri_parts_scheme)
  have link: "link = link_text sch userinfo (join_host_port host (itoa (exportPort n)))
       (map_option query_encode q) (path_escape (displayName n c))"
    using assms(1) u by (auto simp: URI_def split: if_splits)
  have pl: "plain (join_host_port host (itoa (exportPort n)))"
    using assms(2) by (simp add: link_ready_def plain_join_host_port)
  have ok: "info_text (sch @ userinfo @ join_host_port host (itoa (exportPort n)))"
    using uri_parts_user [OF u assms(2)] link_scheme_text info_text_plain [OF pl] by (simp add: sch)
  have "parse_link link = Some (sch, userinfo, join_host_port host (itoa (exportPort n)),
       map_option query_encode q, path_escape (displayName n c))"
    unfolding link
  proof (rule parse_link_text)
    show "CHR '':'' \<notin> set sch" using link_scheme_text by (simp add: sch)
    show "\<forall>ch\<in>set (sch @ userinfo @ join_host_port host (itoa (exportPort n))). ch \<noteq> CHR ''#'' \<and> ch \<noteq> CHR ''?''"
      using ok by (auto simp: info_text_def)
    show "CHR ''@'' \<notin> set (join_host_port host (itoa (exportPort n)))"
      using pl by (auto simp: plain_def plain_char_def link_marks_def)
    show "\<forall>t. map_option query_encode q = Some t \<longrightarrow> CHR ''#'' \<notin> set t" using query_encode_chars by auto
  qed
  with u link sch that show thesis by blast
qed

text \<open>C30: Whatever the names, credentials and settings of a node and its client hold, a client that
  takes the exported link apart reads back exactly the credential, the endpoint, the display name and the
  parameters of its protocol, each with the value of its setting: nothing in them can change or add a parameter.\<close>

theorem URI_read_back:
  assumes "URI n c host = Inr link" and "link_ready n c host"
  shows "read_link link = Some (link_scheme (protocol n), link_user n c,
     join_host_port host (itoa (exportPort n)), sort_key fst (link_params n c), displayName n c)"
proof -
  obtain userinfo q where u: "uri_parts n c = Some (link_scheme (protocol n), userinfo, q)"
    and p: "parse_link link = Some (link_scheme (protocol n), userinfo, join_host_port host (itoa (exportPort n)),
       map_option query_encode q, path_escape (displayName n c))"
    using URI_text [OF assms] by blast
  show ?thesis
    using uri_parts_user [OF u assms(2)]
      uri_parts_params [OF u]
    by (cases q) (simp_all add: read_link_def p query_roundtrip)
qed

definition demo_node :: "int \<Rightarrow> string \<Rightarrow> string \<Rightarrow> node" where
  "demo_node i name p = \<lparr>node_id = i, node_name = name, protocol = p, listen = ''::'', port = 8443,
     node_enabled = True, public_host_override = [], node_outbound = None,
     settings = [(''server_name'', JStr ''www.example.com''), (''public_key'', JStr ''k&x=1'')],
     secret = [], node_status = [], node_created = 0, node_updated = 0\<rparr>"

definition demo_client :: "int \<Rightarrow> string \<Rightarrow> client" where
  "demo_client i name = \<lparr>client_id = i, client_node = 1, client_user = 1, client_name = name,
     client_enabled = True, credential = [(''uuid'', JStr ''0b1e''), (''password'', JStr ''p@ss/w?rd#1'')],
     client_created = 0\<rparr>"

theorem URI_read_back_witness:
  "\<exists>link. URI (demo_node 1 ''a#b'' ProtocolTrojanTLS) (demo_client 2 ''x?y'') ''vpn.example.com'' = Inr link \<and>
     read_link link = Some (''trojan'', ''p@ss/w?rd#1'', ''vpn.example.com:8443'',
       [(''security'', ''tls''), (''sni'', ''www.example.com'')], ''a#b'' @ DOT @ ''x?y'')"
proof -
  let ?n = "demo_node 1 ''a#b'' ProtocolTrojanTLS" and ?c = "demo_client 2 ''x?y''"
  obtain link where l: "URI ?n ?c ''vpn.example.com'' = Inr link"
    by (cases "URI ?n ?c ''vpn.example.com''")
       (simp_all add: URI_def uri_parts_def demo_node_def protocol_defs reality_protocols_def websocket_protocols_def)
  have r: "link_ready ?n ?c ''vpn.example.com''"
    by (simp add: link_ready_def plain_char_def link_marks_def NL_def demo_node_def protocol_defs reality_protocols_def websocket_protocols_def)
  have "link_scheme (protocol ?n) = ''trojan''" "link_user ?n ?c = ''p@ss/w?rd#1''"
    "join_host_port ''vpn.example.com'' (itoa (exportPort ?n)) = ''vpn.example.com:8443''"
    "sort_key fst (link_params ?n ?c) = [(''security'', ''tls''), (''sni'', ''www.example.com'')]"
    "displayName ?n ?c = ''a#b'' @ DOT @ ''x?y''" by code_simp+
  then show ?thesis using URI_read_back [OF l r] l by simp
qed

section \<open>The base64 subscription\<close>

definition item_ready :: "item \<Rightarrow> bool" where
  "item_ready = (\<lambda>(n, c, host). link_ready n c host)"

definition good_link :: "string \<Rightarrow> bool" where
  "good_link link \<longleftrightarrow> NL \<notin> set link \<and> (\<exists>sch ui ep q frag. parse_link link = Some (sch, ui, ep, q, frag) \<and>
     sch \<noteq> [] \<and> ep \<noteq> [])"

lemma query_encode_NL: "NL \<notin> set (query_encode q)"
proof
  assume "NL \<in> set (query_encode q)"
  moreover have "NL \<notin> set (query_escape s)" for s
  proof
    assume "NL \<in> set (query_escape s)"
    then have "unreserved NL \<or> NL = CHR ''%'' \<or> NL = CHR ''+'' \<or> is_alnum NL"
      unfolding query_escape_def using escape_chars by blast
    then show False
      by (simp add: NL_def unreserved_def is_alnum_def is_lower_def is_upper_def is_digit_def)
  qed
  moreover have "NL \<in> set (join ''&'' ws) \<Longrightarrow> \<exists>w\<in>set ws. NL \<in> set w" for ws
    by (induction "''&''" ws rule: join.induct) (auto simp: NL_def)
  ultimately show False
    unfolding query_encode_def by (fastforce simp: encode_pair_def NL_def)
qed

lemma link_text_NL:
  "NL \<notin> set sch \<Longrightarrow> NL \<notin> set ui \<Longrightarrow> NL \<notin> set ep \<Longrightarrow> \<forall>t. q = Some t \<longrightarrow> NL \<notin> set t \<Longrightarrow> NL \<notin> set frag \<Longrightarrow>
     NL \<notin> set (link_text sch ui ep q frag)"
  by (auto simp: link_text_def NL_def split: option.splits)

lemma URIForProfile_good:
  assumes "URIForProfile n c host profile = Inr link" and "link_ready n c host"
  shows "good_link link"
proof -
  obtain link0 where l0: "URI n c host = Inr link0"
    using assms(1) by (cases "URI n c host") (auto simp: URIForProfile_def)
  let ?ep = "join_host_port host (itoa (exportPort n))" and ?frag = "path_escape (displayName n c)"
  obtain ui q where u: "uri_parts n c = Some (link_scheme (protocol n), ui, q)"
    and lt: "link0 = link_text (link_scheme (protocol n)) ui ?ep (map_option query_encode q) ?frag"
    and p: "parse_link link0 = Some (link_scheme (protocol n), ui, ?ep, map_option query_encode q, ?frag)"
    using URI_text [OF l0 assms(2)] by blast
  note ui = uri_parts_user [OF u assms(2)]
  have ep: "plain ?ep" using assms(2) by (simp add: link_ready_def plain_join_host_port)
  have epn: "?ep \<noteq> []" by (simp add: join_host_port_def)
  have nls: "NL \<notin> set (link_scheme (protocol n))" "NL \<notin> set ui" "NL \<notin> set ?ep" "NL \<notin> set ?frag"
    using link_scheme_text ui info_text_plain [OF ep] path_escape_chars by (auto simp: info_text_def)
  have "info_text (link_scheme (protocol n) @ ui @ ?ep)"
    using link_scheme_text ui info_text_plain [OF ep] by simp
  then have text_ok: "\<forall>ch\<in>set (link_scheme (protocol n) @ ui @ ?ep). ch \<noteq> CHR ''#'' \<and> ch \<noteq> CHR ''?''"
    unfolding info_text_def by blast
  have ep_at: "CHR ''@'' \<notin> set ?ep" using ep by (auto simp: plain_def plain_char_def link_marks_def)
  have good: "good_link (link_text (link_scheme (protocol n)) ui ?ep t ?frag)"
    if "\<forall>x. t = Some x \<longrightarrow> CHR ''#'' \<notin> set x \<and> NL \<notin> set x" for t
  proof -
    have "parse_link (link_text (link_scheme (protocol n)) ui ?ep t ?frag)
        = Some (link_scheme (protocol n), ui, ?ep, t, ?frag)"
      using text_ok ep_at that by (intro parse_link_text) (auto simp: link_scheme_text)
    moreover have "NL \<notin> set (link_text (link_scheme (protocol n)) ui ?ep t ?frag)"
      using nls that by (intro link_text_NL) auto
    ultimately show ?thesis using link_scheme_text epn by (auto simp: good_link_def)
  qed
  have qe: "CHR ''#'' \<notin> set (query_encode x) \<and> NL \<notin> set (query_encode x)" for x
    using query_encode_chars query_encode_NL by blast
  show ?thesis
  proof (cases "profile \<noteq> ''v2rayn'' \<or> protocol n \<noteq> ProtocolVLESSH2Reality")
    case True
    then have "link = link0" using assms(1) l0 by (simp add: URIForProfile_def)
    then show ?thesis using lt good [of "map_option query_encode q"] qe by auto
  next
    case False
    then obtain x where "link = link_text (link_scheme (protocol n)) ui ?ep (Some (query_encode x)) ?frag"
      using assms(1) l0 p by (auto simp: URIForProfile_def split: option.splits)
    then show ?thesis using good qe by auto
  qed
qed

lemma uri_links_good: "list_all item_ready its \<Longrightarrow> list_all good_link (uri_links profile its)"
  by (induction profile its rule: uri_links.induct)
     (auto simp: item_ready_def dest: URIForProfile_good split: sum.splits)

lemma trim_space_empty: "trim_space l = [] \<Longrightarrow> \<forall>c\<in>set l. is_space c"
proof -
  assume "trim_space l = []"
  then have all: "\<forall>c\<in>set (dropWhile is_space l). is_space c"
    by (simp add: trim_space_def trim_both_def trim_left_def trim_right_def dropWhile_eq_Nil_conv)
  have "dropWhile is_space l = []"
    using all hd_dropWhile [of is_space l] by (meson hd_in_set)
  then show ?thesis by (simp add: dropWhile_eq_Nil_conv)
qed

lemma good_link_nonblank: "good_link l \<Longrightarrow> trim_space l \<noteq> []"
proof
  assume g: "good_link l" and t: "trim_space l = []"
  have sp: "\<forall>c\<in>set l. is_space c" using t by (rule trim_space_empty)
  obtain sch ui ep q frag where p: "parse_link l = Some (sch, ui, ep, q, frag)" using g by (auto simp: good_link_def)
  have "CHR '':'' \<in> set l"
  proof -
    obtain i where i: "index_of (fst (cut (fst (cut l CHR ''#'')) CHR ''?'')) ''://'' = Some i"
      using p by (auto simp: parse_link_def Let_def split: prod.splits option.splits)
    have "CHR '':'' \<in> set (fst (cut (fst (cut l CHR ''#'')) CHR ''?''))"
      using index_of_Some [OF i] by auto
    moreover have "set (fst (cut s c)) \<subseteq> set s" for s c
      by (auto simp: cut_def dest: in_set_takeD split: option.splits)
    ultimately show ?thesis by blast
  qed
  with sp have "is_space CHR '':''" by blast
  then show False by (simp add: is_space_def)
qed

lemma count_good_links: "list_all good_link ls \<Longrightarrow> count_uris ls k = Inr (k + length ls)"
proof (induction ls arbitrary: k)
  case (Cons l ls)
  then have g: "good_link l" and r: "count_uris ls (Suc k) = Inr (Suc k + length ls)" by simp_all
  obtain sch ui ep q frag where p: "parse_link l = Some (sch, ui, ep, q, frag)" "sch \<noteq> []" "ep \<noteq> []"
    using g by (auto simp: good_link_def)
  show ?case using r p good_link_nonblank [OF g] by simp
qed simp

text \<open>The preview of a base64 subscription never rejects what the panel rendered: the body decodes
  to the links, and the preview counts exactly the exported ones.\<close>

theorem preview_counts_links:
  assumes "list_all item_ready its"
  shows "\<exists>content. std_decode (renderURIList its profile) = Some content \<and>
     count_uris (split_char NL content) 0 = Inr (length (uri_links profile its))"
proof -
  let ?ls = "uri_links profile its"
  have d: "std_decode (renderURIList its profile) = Some (join [NL] ?ls)"
    using std64.dec_enc by (simp add: renderURIList_def)
  have good: "list_all good_link ?ls" using assms by (rule uri_links_good)
  have "count_uris (split_char NL (join [NL] ?ls)) 0 = Inr (length ?ls)"
  proof (cases "?ls = []")
    case True
    then show ?thesis by (simp add: split_char_def trim_space_def trim_both_def trim_left_def trim_right_def)
  next
    case False
    have "\<forall>w\<in>set ?ls. NL \<notin> set w" using good by (auto simp: list_all_iff good_link_def)
    then have "split_char NL (join [NL] ?ls) = ?ls" using split_join [OF False] by blast
    then show ?thesis using count_good_links [OF good, of 0] by simp
  qed
  with d show ?thesis by blast
qed

definition demo_items :: "item list" where
  "demo_items = [(demo_node 1 ''a'' ProtocolTrojanTLS, demo_client 1 [], ''h''),
     (demo_node 2 ''b'' ProtocolAnyTLSReality, demo_client 2 [], ''h'')]"

theorem preview_counts_links_witness:
  "(\<exists>content. std_decode (renderURIList demo_items ''shadowrocket'') = Some content \<and>
     count_uris (split_char NL content) 0 = Inr 1)"
proof -
  have r: "list_all item_ready demo_items"
    by (simp add: demo_items_def item_ready_def link_ready_def plain_char_def link_marks_def NL_def demo_node_def)
  have "length (uri_links ''shadowrocket'' demo_items) = 1" by code_simp
  with preview_counts_links [OF r, of "''shadowrocket''"] show ?thesis by simp
qed

section \<open>Which items a subscription has\<close>

lemma items_loop_pure:
  assumes "\<And>i. st_clients st i w = (Inr (cs i), w)"
  shows "items_loop st userID publicHost ns acc w =
    (Inr (acc @ [(n, c, host_for n publicHost). n \<leftarrow> ns, node_enabled n, c \<leftarrow> cs (node_id n),
                  client_enabled c \<and> client_user c = userID]), w)"
proof (induction ns arbitrary: acc)
  case (Cons n ns)
  have "map f (filter P xs) = concat (map (\<lambda>c. if P c then [f c] else []) xs)" for f :: "client \<Rightarrow> item" and P xs
    by (induction xs) simp_all
  then show ?case using Cons assms by (simp add: io_bind_def)
qed simp

text \<open>A user's subscription has exactly the enabled clients of that user on the enabled nodes, in
  the order of the store, each with the node's own host when it has one.\<close>

theorem subscription_items_exact:
  assumes "st_nodes st w = (Inr ns, w)" and "\<And>i. st_clients st i w = (Inr (cs i), w)"
  shows "subscription_items st userID publicHost w =
    (Inr [(n, c, host_for n publicHost). n \<leftarrow> ns, node_enabled n, c \<leftarrow> cs (node_id n),
           client_enabled c \<and> client_user c = userID], w)"
  using items_loop_pure [OF assms(2), where acc = "[]"] assms(1)
  by (simp add: subscription_items_def io_bind_def)

definition demo_sub_store :: "unit sub_store" where
  "demo_sub_store = \<lparr>st_token = io_return ''t'', st_reset = (\<lambda>_ _. io_return ()),
     st_node = (\<lambda>_. io_fail ErrNoRows), st_setting = (\<lambda>_. io_return ''h''),
     st_clients = (\<lambda>i. io_return [demo_client (10 * i) [], (demo_client (10 * i + 1) [])\<lparr>client_user := 2\<rparr>]),
     st_nodes = io_return [demo_node 1 ''a'' ProtocolTrojanTLS, (demo_node 2 ''b'' ProtocolTUIC)\<lparr>node_enabled := False\<rparr>],
     st_user = (\<lambda>_. io_fail ErrNoRows)\<rparr>"

theorem subscription_items_exact_witness:
  "fst (subscription_items demo_sub_store 1 ''h'' ()) = Inr [(demo_node 1 ''a'' ProtocolTrojanTLS, demo_client 10 [], ''h'')]"
proof -
  have 1: "st_nodes demo_sub_store () = (Inr [demo_node 1 ''a'' ProtocolTrojanTLS,
      (demo_node 2 ''b'' ProtocolTUIC)\<lparr>node_enabled := False\<rparr>], ())"
    by (simp add: demo_sub_store_def)
  have 2: "st_clients demo_sub_store i () = (Inr [demo_client (10 * i) [],
      (demo_client (10 * i + 1) [])\<lparr>client_user := 2\<rparr>], ())" for i
    by (simp add: demo_sub_store_def)
  show ?thesis
    using subscription_items_exact [OF 1 2, of 1 "''h''"]
    by (simp add: demo_node_def demo_client_def host_for_def)
qed

section \<open>The sing-box document\<close>

definition sing_keys :: "string list" where
  "sing_keys = [''type'', ''tag'', ''server'', ''server_port'', ''uuid'', ''flow'', ''tls'', ''transport'',
     ''password'', ''congestion_control'', ''version'', ''username'']"

lemma obj_set_keys: "fst ` set (obj_set k v ob) = insert k (fst ` set ob)"
  unfolding obj_set_def by (induction ob) auto

lemma obj_set_distinct: "distinct (map fst ob) \<Longrightarrow> distinct (map fst (obj_set k v ob))"
  unfolding obj_set_def by (rule AList.distinct_update)

lemma obj_set_ok: "json_ok v \<Longrightarrow> json_ok (JObj ob) \<Longrightarrow> json_ok (JObj (obj_set k v ob))"
  unfolding obj_set_def by (induction ob) auto

text \<open>An outbound with the tag it was given, under keys of the fixed list.\<close>

definition sing_ob :: "string \<Rightarrow> obj \<Rightarrow> bool" where
  "sing_ob tag ob \<longleftrightarrow> map_of ob ''tag'' = Some (JStr tag) \<and> distinct (map fst ob) \<and>
     fst ` set ob \<subseteq> set sing_keys \<and> json_ok (JObj ob)"

lemma sing_ob_set:
  "sing_ob tag ob \<Longrightarrow> k \<in> set sing_keys \<Longrightarrow> k \<noteq> ''tag'' \<Longrightarrow> json_ok v \<Longrightarrow> sing_ob tag (obj_set k v ob)"
  unfolding sing_ob_def
  by (intro conjI obj_set_distinct obj_set_ok) (simp_all add: obj_set_keys)

lemma sing_ob_base:
  "int64 p \<Longrightarrow> sing_ob tag [(''type'', JStr t), (''tag'', JStr tag), (''server'', JStr host), (''server_port'', JInt p)]"
  by (simp add: sing_ob_def sing_keys_def)

lemma tls_ok: "json_ok (JObj (tls_obj n))" "json_ok (JObj (reality_tls n))"
  "json_ok (JObj (obj_set ''alpn'' (JList [JStr ''h3'']) (tls_obj n)))"
  by (simp_all add: tls_obj_def reality_tls_def obj_set_def)

lemma sing_keys_mem [simp]:
  "''uuid'' \<in> set sing_keys" "''flow'' \<in> set sing_keys" "''tls'' \<in> set sing_keys" "''transport'' \<in> set sing_keys"
  "''password'' \<in> set sing_keys" "''congestion_control'' \<in> set sing_keys" "''version'' \<in> set sing_keys"
  "''username'' \<in> set sing_keys"
  by (simp_all add: sing_keys_def)

lemma singBoxOutbound_ob:
  assumes "singBoxOutbound n c host tag = Inr ob" and "int64 (exportPort n)"
  shows "sing_ob tag ob"
  using assms(1) sing_ob_base [OF assms(2), of tag "singBoxOutboundType (protocol n)" host] tls_ok
  unfolding singBoxOutbound_def Let_def
  by (auto split: if_splits intro!: sing_ob_set)

lemma sorted_member:
  assumes "distinct (map fst ob)" and "\<forall>k\<in>fst ` set ob. equal_fold k name \<longleftrightarrow> k = name"
    and "map_of ob name = Some v"
  shows "json_member (sort_obj (map (\<lambda>(k, v). (k, json_sorted v)) ob)) name = json_sorted v"
proof -
  let ?ob = "map (\<lambda>(k, v). (k, json_sorted v)) ob"
  have k: "map fst ?ob = map fst ob" by (simp add: prod.case_eq_if comp_def)
  have d: "distinct (map fst ?ob)" using assms(1) by (simp only: k)
  have "set (sort_obj ?ob) = set ?ob" by (simp add: sort_obj_def)
  then have m: "map_of (sort_obj ?ob) = map_of ?ob"
    using d distinct_sort_obj by (intro map_of_reorder)
  have "\<forall>k\<in>fst ` set (sort_obj ?ob). equal_fold k name \<longleftrightarrow> k = name"
    using assms(2) by (auto simp: sort_obj_def)
  then have "json_member (sort_obj ?ob) name = obj_any ?ob name"
    using json_member_exact [OF distinct_sort_obj [OF d]] m by (simp add: obj_any_def)
  also have "\<dots> = json_sorted v"
    using assms(3) map_of_map [of "\<lambda>v. json_sorted v" ob] by (simp add: obj_any_def map_of_map)
  finally show ?thesis .
qed

lemma outbound_tag_sorted: "sing_ob tag ob \<Longrightarrow> outbound_tag (json_sorted (JObj ob)) = Inr tag"
proof -
  assume s: "sing_ob tag ob"
  have "list_all (\<lambda>k. equal_fold k ''tag'' \<longleftrightarrow> k = ''tag'') sing_keys" by code_simp
  then have "\<forall>k\<in>fst ` set ob. equal_fold k ''tag'' \<longleftrightarrow> k = ''tag''"
    using s unfolding sing_ob_def list_all_iff by blast
  then have "json_member (sort_obj (map (\<lambda>(k, v). (k, json_sorted v)) ob)) ''tag'' = json_sorted (JStr tag)"
    using s unfolding sing_ob_def by (intro sorted_member) blast+
  then show ?thesis by (simp add: outbound_tag_def)
qed

text \<open>The tags of a document, with the objects that carry them.\<close>

fun sing_tags :: "nat \<Rightarrow> item list \<Rightarrow> string list" where
  "sing_tags index [] = []"
| "sing_tags index ((n, c, host) # its) =
     (case singBoxOutbound n c host (item_tag index n c) of
        Inl e \<Rightarrow> sing_tags (Suc index) its
      | Inr ob \<Rightarrow> item_tag index n c # sing_tags (Suc index) its)"

definition item_port_ok :: "item \<Rightarrow> bool" where
  "item_port_ok = (\<lambda>(n, c, host). int64 (exportPort n))"

lemma sing_loop_eq:
  "list_all item_port_ok its \<Longrightarrow>
   \<exists>obs. sing_loop index its (outs, tags) = (outs @ map JObj obs, tags @ sing_tags index its) \<and>
     list_all2 sing_ob (sing_tags index its) obs"
proof (induction index its arbitrary: outs tags rule: sing_tags.induct)
  case (2 index n c host its)
  show ?case
  proof (cases "singBoxOutbound n c host (item_tag index n c)")
    case (Inl e)
    then show ?thesis using 2 by simp
  next
    case (Inr ob)
    have "int64 (exportPort n)" using 2(3) by (simp add: item_port_ok_def)
    then have ob: "sing_ob (item_tag index n c) ob" using singBoxOutbound_ob [OF Inr] by blast
    obtain obs where obs: "sing_loop (Suc index) its (outs @ [JObj ob], tags @ [item_tag index n c])
        = ((outs @ [JObj ob]) @ map JObj obs, (tags @ [item_tag index n c]) @ sing_tags (Suc index) its)"
      "list_all2 sing_ob (sing_tags (Suc index) its) obs"
      using 2(2) [OF Inr, of "outs @ [JObj ob]" "tags @ [item_tag index n c]"] 2(3) by auto
    then show ?thesis using Inr ob by (intro exI [of _ "ob # obs"]) simp
  qed
qed simp

lemma item_tag_node: "has_prefix (item_tag index n c) ''node-''"
  by (simp add: item_tag_def has_prefix_def)

lemma sing_tags_node: "t \<in> set (sing_tags index its) \<Longrightarrow> has_prefix t ''node-''"
  by (induction index its rule: sing_tags.induct) (auto simp: item_tag_node split: sum.splits)

lemma count_tags_obs:
  "list_all2 sing_ob tags obs \<Longrightarrow> \<forall>t\<in>set tags. has_prefix t ''node-'' \<Longrightarrow>
     count_tags (map (\<lambda>ob. json_sorted (JObj ob)) obs @ rest) k = count_tags rest (k + length tags)"
proof (induction tags obs arbitrary: k rule: list_all2_induct)
  case (Cons t ts ob obs)
  then show ?case using outbound_tag_sorted [of t ob] by (simp del: json_sorted.simps)
qed simp

lemma list_all2_json_ok: "list_all2 sing_ob tags obs \<Longrightarrow> list_all (\<lambda>ob. json_ok (JObj ob)) obs"
  by (induction tags obs rule: list_all2_induct) (simp_all add: sing_ob_def)

text \<open>The sing-box document the panel renders parses back, and its preview counts exactly the
  items that were exported: the tags of the nodes, not the direct outbound and not the selector.\<close>

theorem singbox_preview_counts:
  assumes "list_all item_port_ok its"
  shows "singbox_items (SingBox its) = Inr (length (sing_tags 0 its))"
proof -
  let ?tags = "sing_tags 0 its"
  obtain obs where obs: "sing_loop 0 its ([], []) = (map JObj obs, ?tags)" "list_all2 sing_ob ?tags obs"
    using sing_loop_eq [OF assms, of 0 "[]" "[]"] by auto
  define extra where "extra = [JObj [(''type'', JStr ''direct''), (''tag'', JStr ''direct'')]] @
     (if ?tags \<noteq> [] then [JObj [(''type'', JStr ''selector''), (''tag'', JStr ''proxy''),
             (''outbounds'', JList (map JStr ?tags)), (''default'', JStr (hd ?tags))]] else [])"
  define log where "log = JObj [(''level'', JStr ''info''), (''timestamp'', JBool True)]"
  define inb where "inb = JList [JObj [(''type'', JStr ''mixed''), (''tag'', JStr ''mixed-in''),
              (''listen'', JStr ''127.0.0.1''), (''listen_port'', JInt 2080)]]"
  define route where "route = JObj [(''final'', JStr (if ?tags \<noteq> [] then ''proxy'' else ''direct''))]"
  let ?ob = "[(''log'', log), (''inbounds'', inb), (''outbounds'', JList (map JObj obs @ extra)), (''route'', route)]"
  have doc: "SingBox_doc its = JObj ?ob"
    by (simp add: SingBox_doc_def obs(1) extra_def log_def inb_def route_def Let_def)
  have "json_ok (JObj ?ob)"
    using list_all2_json_ok [OF obs(2)]
    by (auto simp: extra_def log_def inb_def route_def list_all_iff int64_def)
  then have p: "json_parse (SingBox its) = Some (json_sorted (JObj ?ob))"
    unfolding SingBox_def doc by (intro json_indent_roundtrip) (simp only: json_ok_sorted)
  have "list_all (\<lambda>k. equal_fold k ''outbounds'' \<longleftrightarrow> k = ''outbounds'') (map fst ?ob)" by code_simp
  then have "json_member (sort_obj (map (\<lambda>(k, v). (k, json_sorted v)) ?ob)) ''outbounds''
      = json_sorted (JList (map JObj obs @ extra))"
    by (intro sorted_member) (simp_all add: list_all_iff)
  then have "singbox_items (SingBox its)
      = count_tags (map (\<lambda>ob. json_sorted (JObj ob)) obs @ map json_sorted extra) 0"
    using p by (simp add: singbox_items_def comp_def)
  also have "\<dots> = count_tags (map json_sorted extra) (length ?tags)"
    using count_tags_obs [OF obs(2), of "map json_sorted extra" 0] sing_tags_node by simp
  also have "\<dots> = Inr (length ?tags)"
  proof -
    have s1: "outbound_tag (json_sorted (JObj [(''type'', JStr ''direct''), (''tag'', JStr ''direct'')])) = Inr ''direct''"
      by code_simp
    have s2: "outbound_tag (json_sorted (JObj [(''type'', JStr ''selector''), (''tag'', JStr ''proxy''),
             (''outbounds'', JList vs), (''default'', JStr d)])) = Inr ''proxy''" for vs d
    proof -
      let ?s = "[(''type'', JStr ''selector''), (''tag'', JStr ''proxy''), (''outbounds'', JList vs), (''default'', JStr d)]"
      have "list_all (\<lambda>k. equal_fold k ''tag'' \<longleftrightarrow> k = ''tag'') (map fst ?s)" by code_simp
      then have "json_member (sort_obj (map (\<lambda>(k, v). (k, json_sorted v)) ?s)) ''tag'' = json_sorted (JStr ''proxy'')"
        by (intro sorted_member) (simp_all add: list_all_iff)
      then show ?thesis by (simp only: outbound_tag_def json_sorted.simps json.case)
    qed
    show ?thesis using s1 s2 by (simp add: extra_def has_prefix_def del: json_sorted.simps)
  qed
  finally show ?thesis .
qed

theorem singbox_preview_counts_witness: "singbox_items (SingBox demo_items) = Inr 2"
proof -
  have "list_all item_port_ok demo_items"
    by (simp add: demo_items_def item_port_ok_def exportPort_def demo_node_def int64_def)
  moreover have "length (sing_tags 0 demo_items) = 2" by code_simp
  ultimately show ?thesis using singbox_preview_counts [of demo_items] by simp
qed

lemma sing_tags_item:
  "t \<in> set (sing_tags index its) \<Longrightarrow> \<exists>n c host j. (n, c, host) \<in> set its \<and> t = item_tag j n c"
proof (induction its arbitrary: index)
  case (Cons it its)
  obtain n c host where it: "it = (n, c, host)" by (cases it)
  have "t = item_tag index n c \<or> t \<in> set (sing_tags (Suc index) its)"
    using Cons.prems by (auto simp: it split: sum.splits)
  then show ?case
  proof
    assume "t \<in> set (sing_tags (Suc index) its)"
    then show ?thesis using Cons.IH by (meson list.set_intros(2))
  qed (use it in auto)
qed simp

lemma cut_unique:
  fixes a b :: string
  assumes "ch \<notin> set a" and "ch \<notin> set b" and "a @ ch # x = b @ ch # y"
  shows "a = b \<and> x = y"
proof -
  have "(a, x, True) = (b, y, True)"
    using cut_append [OF assms(1), of x] cut_append [OF assms(2), of y] unfolding assms(3) by simp
  then show ?thesis by simp
qed

lemma itoa_no_dash: "0 < k \<Longrightarrow> CHR ''-'' \<notin> set (itoa k)"
  using nat_dec_digits [of "CHR ''-''" "nat k"] by (auto simp: itoa_def)

definition stored_item :: "node \<Rightarrow> client \<Rightarrow> bool" where
  "stored_item n c \<longleftrightarrow> 0 < node_id n \<and> int64 (node_id n) \<and> 0 < client_id c \<and> int64 (client_id c)"

lemma item_tag_inj:
  assumes "stored_item n c" and "stored_item n' c'" and "item_tag i n c = item_tag j n' c'"
  shows "node_id n = node_id n' \<and> client_id c = client_id c'"
proof -
  have "itoa (node_id n) @ CHR ''-'' # itoa (client_id c) = itoa (node_id n') @ CHR ''-'' # itoa (client_id c')"
    using assms by (simp add: item_tag_def stored_item_def)
  from cut_unique [OF _ _ this]
  have "itoa (node_id n) = itoa (node_id n') \<and> itoa (client_id c) = itoa (client_id c')"
    using assms(1,2) itoa_no_dash by (simp add: stored_item_def)
  then show ?thesis using assms(1,2) by (simp add: stored_item_def itoa_inj)
qed

text \<open>In a sing-box document whose items are distinct pairs of stored nodes and clients, the tags
  are distinct, so the selector's choices name exactly one outbound each.\<close>

theorem singbox_tags_distinct:
  assumes "distinct (map (\<lambda>(n, c, host). (node_id n, client_id c)) its)"
    and "\<forall>(n, c, host)\<in>set its. stored_item n c"
  shows "distinct (sing_tags index its)"
proof -
  show ?thesis
    using assms
  proof (induction index its rule: sing_tags.induct)
    case (2 index n c host its)
    have "item_tag index n c \<notin> set (sing_tags (Suc index) its)"
    proof
      assume "item_tag index n c \<in> set (sing_tags (Suc index) its)"
      then obtain n' c' h' j where m: "(n', c', h') \<in> set its" "item_tag index n c = item_tag j n' c'"
        using sing_tags_item by blast
      have "node_id n = node_id n' \<and> client_id c = client_id c'"
        using 2(4) m(1) item_tag_inj [OF _ _ m(2)] by auto
      then show False using 2(3) m(1) by force
    qed
    moreover have "distinct (sing_tags (Suc index) its)"
      using 2 by (cases "singBoxOutbound n c host (item_tag index n c)") auto
    ultimately show ?case by (simp split: sum.split)
  qed simp
qed

theorem singbox_tags_distinct_witness: "distinct (sing_tags 0 demo_items) \<and> length (sing_tags 0 demo_items) = 2"
proof -
  have "distinct (map (\<lambda>(n, c, host). (node_id n, client_id c)) demo_items)"
    "\<forall>(n, c, host)\<in>set demo_items. stored_item n c"
    by (simp_all add: stored_item_def demo_items_def demo_node_def demo_client_def int64_def)
  from singbox_tags_distinct [OF this, of 0] show ?thesis by (simp, code_simp)
qed

section \<open>Names in the Mihomo document\<close>

fun clash_names :: "item list \<Rightarrow> nat \<Rightarrow> item list \<Rightarrow> string list" where
  "clash_names all index [] = []"
| "clash_names all index ((n, c, host) # its) =
     (if supportsClash (protocol n) \<and> (\<exists>p. clashProxy n c host (clash_name all index n c) = Inr p)
      then clash_name all index n c # clash_names all (Suc index) its
      else clash_names all (Suc index) its)"

definition clash_duplicates :: "item list" where
  "clash_duplicates = [(demo_node 1 ''A'' ProtocolTrojanTLS, demo_client 1 [], ''h''),
     (demo_node 2 ''A'' ProtocolTrojanTLS, demo_client 2 [], ''h''),
     (demo_node 3 ''A'' ProtocolTrojanTLS, demo_client 3 ''n1-c1'', ''h'')]"

text \<open>The suffix that tells equal names apart can itself produce an equal name: with two nodes named
  alike and a third whose client is named as the suffix, the Mihomo document has two proxies of one
  name.\<close>

theorem clash_suffix_collision:
  "snd (clash_loop clash_duplicates 0 clash_duplicates ([], []))
     = [''A'' @ DOT @ ''n1-c1'', ''A'' @ DOT @ ''n2-c2'', ''A'' @ DOT @ ''n1-c1'']"
  by code_simp

end
