(* ===== verification/SingBoxConfig.thy ===== *)
theory SingBoxConfig
  imports GoJson
begin

text \<open>
  \<open>internal/engine/singbox/config.go\<close>: the configuration generated for sing-box, with its inbounds, the
  outbounds that nodes need, and the routing rules, the AI routing included. The document is an
  object in the order in which the code sets the keys; printing sorts it. The embedded rule set is a
  parameter (\<open>builtin\<close>). The exit of a connection under the generated rules is a definition of its own,
  the first route rule that matches, as sing-box documents it.
\<close>

section \<open>Data\<close>

type_synonym node_item = "node \<times> client list"

record ai_rule =
  ai_domain :: "string list option"
  ai_suffix :: "string list option"
  ai_regex :: "string list option"

record ai_domains =
  ai_version :: int
  ai_rules :: "ai_rule list"

record ai_routing =
  InboundIDs :: "int list"
  Base :: "ai_domains option"
  Server :: string
  Port :: int
  UUID :: string
  ServerName :: string
  PublicKey :: string
  ShortID :: string
  Flow :: string
  Include :: "string list"
  Exclude :: "string list"

section \<open>Fields of a node\<close>

definition stringSetting :: "node \<Rightarrow> string \<Rightarrow> string" where
  "stringSetting n key = obj_string (settings n) key"

definition intSetting :: "node \<Rightarrow> string \<Rightarrow> int \<Rightarrow> int" where
  "intSetting n key fallback = (case map_of (settings n) key of Some (JInt v) \<Rightarrow> v | _ \<Rightarrow> fallback)"

definition stringSecret :: "node \<Rightarrow> string \<Rightarrow> string" where
  "stringSecret n key = obj_string (secret n) key"

definition activeClients :: "client list \<Rightarrow> client list" where
  "activeClients cs = filter client_enabled cs"

definition vlessUsers :: "client list \<Rightarrow> json list" where
  "vlessUsers = map (\<lambda>c.
     let user = [(''name'', JStr (client_name c)), (''uuid'', obj_any (credential c) ''uuid'')]
     in JObj (case map_of (credential c) ''flow'' of
          Some flow \<Rightarrow> if flow \<noteq> JStr [] then obj_set ''flow'' flow user else user
        | None \<Rightarrow> user))"

definition passwordUsers :: "client list \<Rightarrow> json list" where
  "passwordUsers = map (\<lambda>c. JObj [(''name'', JStr (client_name c)),
     (''password'', obj_any (credential c) ''password'')])"

definition tuicUsers :: "client list \<Rightarrow> json list" where
  "tuicUsers = map (\<lambda>c. JObj [(''name'', JStr (client_name c)),
     (''uuid'', obj_any (credential c) ''uuid''), (''password'', obj_any (credential c) ''password'')])"

definition socksUsers :: "client list \<Rightarrow> json list" where
  "socksUsers = map (\<lambda>c. JObj [(''username'', obj_any (credential c) ''username''),
     (''password'', obj_any (credential c) ''password'')])"

definition realityTLS :: "node \<Rightarrow> obj" where
  "realityTLS n = [(''enabled'', JBool True), (''server_name'', JStr (stringSetting n ''server_name'')),
     (''reality'', JObj [(''enabled'', JBool True),
        (''handshake'', JObj [(''server'', JStr (stringSetting n ''handshake_server'')),
           (''server_port'', JInt (intSetting n ''handshake_port'' 443))]),
        (''private_key'', JStr (stringSecret n ''private_key'')),
        (''short_id'', JList [JStr (stringSetting n ''short_id'')])])]"

definition fileTLS :: "node \<Rightarrow> obj" where
  "fileTLS n = [(''enabled'', JBool True), (''server_name'', JStr (stringSetting n ''server_name'')),
     (''certificate_path'', JStr (stringSetting n ''certificate_path'')),
     (''key_path'', JStr (stringSetting n ''key_path''))]"

section \<open>Inbounds\<close>

definition singBoxType :: "string \<Rightarrow> string" where
  "singBoxType p =
     (if p \<in> set [ProtocolVLESSReality, ProtocolVLESSH2Reality, ProtocolVLESSGRPCReality,
                   ProtocolVLESSWSTLS, ProtocolVLESSArgo] then ''vless''
      else if p = ProtocolTrojanTLS then ''trojan''
      else if p = ProtocolAnyTLSReality then ''anytls''
      else if p = ProtocolSOCKS5 then ''socks'' else p)"

definition node_tag :: "int \<Rightarrow> string" where
  "node_tag i = ''node-'' @ itoa i"

definition out_tag :: "int \<Rightarrow> string" where
  "out_tag i = ''outbound-'' @ itoa i"

definition inbound :: "node \<Rightarrow> client list \<Rightarrow> error + obj" where
  "inbound n cs =
     (let p = protocol n; active = activeClients cs;
          base = [(''type'', JStr (singBoxType p)), (''tag'', JStr (node_tag (node_id n))),
                  (''listen'', JStr (listen n)), (''listen_port'', JInt (port n))];
          with_users = (\<lambda>us. obj_set ''users'' (JList us) base)
      in if p \<in> set [ProtocolVLESSReality, ProtocolVLESSH2Reality, ProtocolVLESSGRPCReality] then
           let b1 = obj_set ''tls'' (JObj (realityTLS n)) (with_users (vlessUsers active));
               b2 = (if p = ProtocolVLESSH2Reality
                     then obj_set ''transport'' (JObj [(''type'', JStr ''http''),
                            (''path'', JStr (stringSetting n ''transport_path''))]) b1 else b1)
           in Inr (if p = ProtocolVLESSGRPCReality
                   then obj_set ''transport'' (JObj [(''type'', JStr ''grpc''),
                          (''service_name'', JStr (stringSetting n ''service_name''))]) b2 else b2)
         else if p = ProtocolVLESSWSTLS then
           Inr (obj_set ''transport'' (JObj [(''type'', JStr ''ws''), (''path'', JStr (stringSetting n ''ws_path''))])
               (obj_set ''tls'' (JObj (fileTLS n)) (with_users (vlessUsers active))))
         else if p = ProtocolVLESSArgo then
           Inr (obj_set ''transport'' (JObj [(''type'', JStr ''ws''), (''path'', JStr (stringSetting n ''ws_path''))])
               (with_users (vlessUsers active)))
         else if p = ProtocolTrojanTLS \<or> p = ProtocolHysteria2 \<or> p = ProtocolAnyTLS then
           Inr (obj_set ''tls'' (JObj (fileTLS n)) (with_users (passwordUsers active)))
         else if p = ProtocolTUIC then
           Inr (obj_set ''tls'' (JObj (obj_set ''alpn'' (JList [JStr ''h3'']) (fileTLS n)))
               (obj_set ''zero_rtt_handshake'' (JBool False) (obj_set ''congestion_control'' (JStr ''cubic'')
               (with_users (tuicUsers active)))))
         else if p = ProtocolAnyTLSReality then
           Inr (obj_set ''tls'' (JObj (realityTLS n)) (with_users (passwordUsers active)))
         else if p = ProtocolSOCKS5 then Inr (with_users (socksUsers active))
         else Inl (Err ''unsupported protocol''))"

section \<open>Outbounds\<close>

definition outboundType :: "string \<Rightarrow> string" where
  "outboundType v = (if v = OutboundSOCKS5 then ''socks'' else v)"

definition required :: "node_item list \<Rightarrow> int \<Rightarrow> bool" where
  "required its i \<longleftrightarrow> list_ex (\<lambda>(n, cs). node_enabled n \<and> node_outbound n = Some i) its"

text \<open>The map \<open>available\<close>: the last configured outbound of an id.\<close>

definition available :: "outbound list \<Rightarrow> int \<Rightarrow> outbound option" where
  "available configured i = find (\<lambda>ob. out_id ob = i) (rev configured)"

definition out_entry :: "outbound \<Rightarrow> obj" where
  "out_entry ob =
     (let e0 = [(''type'', JStr (outboundType (out_type ob))), (''tag'', JStr (out_tag (out_id ob))),
                (''server'', JStr (out_server ob)), (''server_port'', JInt (out_port ob))];
          e1 = (if out_username ob \<noteq> [] then obj_set ''username'' (JStr (out_username ob)) e0 else e0);
          e2 = (if out_password ob \<noteq> [] then obj_set ''password'' (JStr (out_password ob)) e1 else e1)
      in if out_type ob = OutboundSOCKS5 then obj_set ''version'' (JStr ''5'') e2 else e2)"

definition used_outbounds :: "node_item list \<Rightarrow> outbound list \<Rightarrow> outbound list" where
  "used_outbounds its configured = filter (\<lambda>ob. out_enabled ob \<and> required its (out_id ob)) configured"

section \<open>Routing rules\<close>

definition eligible_native :: "node_item list \<Rightarrow> int \<Rightarrow> bool" where
  "eligible_native its i \<longleftrightarrow>
     list_ex (\<lambda>(n, cs). node_enabled n \<and> node_outbound n = None \<and> node_id n = i) its"

fun ai_tags :: "node_item list \<Rightarrow> int list \<Rightarrow> int list \<Rightarrow> error + string list" where
  "ai_tags its seen [] = Inr []"
| "ai_tags its seen (i # is) =
     (if \<not> eligible_native its i \<or> i \<in> set seen
      then Inl (Err ''AI routing requires distinct enabled native inbounds'')
      else case ai_tags its (i # seen) is of Inl e \<Rightarrow> Inl e | Inr tags \<Rightarrow> Inr (node_tag i # tags))"

definition ai_outbound :: "ai_routing \<Rightarrow> obj" where
  "ai_outbound ai = [(''type'', JStr ''vless''), (''tag'', JStr ''ai-japan''), (''server'', JStr (Server ai)),
     (''server_port'', JInt (Port ai)), (''uuid'', JStr (UUID ai)), (''flow'', JStr (Flow ai)),
     (''tls'', JObj [(''enabled'', JBool True), (''server_name'', JStr (ServerName ai)),
        (''utls'', JObj [(''enabled'', JBool True), (''fingerprint'', JStr ''chrome'')]),
        (''reality'', JObj [(''enabled'', JBool True), (''public_key'', JStr (PublicKey ai)),
           (''short_id'', JStr (ShortID ai))])])]"

definition strings :: "string list \<Rightarrow> json" where
  "strings ss = JList (map JStr ss)"

definition strings_opt :: "string list option \<Rightarrow> json" where
  "strings_opt s = (case s of None \<Rightarrow> JNull | Some ss \<Rightarrow> strings ss)"

definition sniff_rule :: "string list \<Rightarrow> obj" where
  "sniff_rule tags = [(''inbound'', strings tags), (''action'', JStr ''sniff''),
     (''sniffer'', strings [''http'', ''tls'', ''quic''])]"

definition suffix_rule :: "string list \<Rightarrow> string list \<Rightarrow> string \<Rightarrow> obj" where
  "suffix_rule tags domains exit = [(''inbound'', strings tags), (''domain_suffix'', strings domains),
     (''action'', JStr ''route''), (''outbound'', JStr exit)]"

definition list_rule :: "string list \<Rightarrow> ai_rule \<Rightarrow> obj" where
  "list_rule tags r = [(''inbound'', strings tags), (''domain'', strings_opt (ai_domain r)),
     (''domain_suffix'', strings_opt (ai_suffix r)), (''domain_regex'', strings_opt (ai_regex r)),
     (''action'', JStr ''route''), (''outbound'', JStr ''ai-japan'')]"

definition ai_part :: "error + ai_domains \<Rightarrow> node_item list \<Rightarrow> ai_routing \<Rightarrow> error + obj list" where
  "ai_part builtin its ai = (case ai_tags its [] (InboundIDs ai) of
      Inl e \<Rightarrow> Inl e
    | Inr tags \<Rightarrow>
        (case (case Base ai of Some b \<Rightarrow> Inr b | None \<Rightarrow> builtin) of
           Inl e \<Rightarrow> Inl (Err ''load AI domain snapshot'')
         | Inr base \<Rightarrow>
             (case ai_rules base of
                [r] \<Rightarrow> Inr (if tags = [] then []
                  else [sniff_rule tags] @
                    (if Exclude ai \<noteq> [] then [suffix_rule tags (Exclude ai) ''native''] else []) @
                    (if Include ai \<noteq> [] then [suffix_rule tags (Include ai) ''ai-japan''] else []) @
                    [list_rule tags r])
              | _ \<Rightarrow> Inl (Err ''load AI domain snapshot''))))"

definition node_rule :: "int \<Rightarrow> int \<Rightarrow> obj" where
  "node_rule i ob = [(''inbound'', strings [node_tag i]), (''action'', JStr ''route''),
     (''outbound'', JStr (out_tag ob))]"

fun node_part :: "outbound list \<Rightarrow> node_item list \<Rightarrow> obj list \<Rightarrow> obj list \<Rightarrow> error + obj list \<times> obj list" where
  "node_part configured [] rules inbounds = Inr (rules, inbounds)"
| "node_part configured ((n, cs) # its) rules inbounds =
     (if \<not> node_enabled n then node_part configured its rules inbounds
      else
        let with_rule = (case node_outbound n of
              None \<Rightarrow> Inr rules
            | Some i \<Rightarrow> (case available configured i of
                  None \<Rightarrow> Inl (Err ''outbound does not exist'')
                | Some ob \<Rightarrow> if \<not> out_enabled ob then Inl (Err ''outbound is disabled'')
                            else Inr (rules @ [node_rule (node_id n) (out_id ob)])))
        in case with_rule of
             Inl e \<Rightarrow> Inl e
           | Inr rules' \<Rightarrow>
               (case inbound n cs of
                  Inl e \<Rightarrow> Inl (Wrap ''node'' e)
                | Inr ib \<Rightarrow> node_part configured its rules' (inbounds @ [ib])))"

section \<open>The document\<close>

definition direct_outbound :: obj where
  "direct_outbound = [(''type'', JStr ''direct''), (''tag'', JStr ''native'')]"

definition generate_parts ::
    "error + ai_domains \<Rightarrow> node_item list \<Rightarrow> outbound list \<Rightarrow> ai_routing option \<Rightarrow>
      error + (obj list \<times> obj list \<times> obj list)" where
  "generate_parts builtin its configured ai =
     (let outs = direct_outbound # map out_entry (used_outbounds its configured) @
                 (case ai of None \<Rightarrow> [] | Some a \<Rightarrow> [ai_outbound a])
      in case (case ai of None \<Rightarrow> Inr [] | Some a \<Rightarrow> ai_part builtin its a) of
           Inl e \<Rightarrow> Inl e
         | Inr rules0 \<Rightarrow>
             (case node_part configured its rules0 [] of
                Inl e \<Rightarrow> Inl e
              | Inr (rules, inbounds) \<Rightarrow> Inr (inbounds, outs, rules)))"

definition generate_doc ::
    "error + ai_domains \<Rightarrow> node_item list \<Rightarrow> outbound list \<Rightarrow> bool \<Rightarrow> ai_routing option \<Rightarrow> error + json" where
  "generate_doc builtin its configured routing ai =
     (case generate_parts builtin its configured ai of
        Inl e \<Rightarrow> Inl e
      | Inr (inbounds, outs, rules) \<Rightarrow>
          Inr (JObj ([(''log'', JObj [(''level'', JStr ''info''), (''timestamp'', JBool True)]),
                 (''inbounds'', JList (map JObj inbounds))] @
               (if routing then [(''outbounds'', JList (map JObj outs)),
                  (''route'', JObj [(''rules'', JList (map JObj rules)), (''final'', JStr ''native'')])] else []))))"

definition generate ::
    "error + ai_domains \<Rightarrow> node_item list \<Rightarrow> outbound list \<Rightarrow> bool \<Rightarrow> ai_routing option \<Rightarrow> error + string" where
  "generate builtin its configured routing ai =
     map_sum (\<lambda>e. e) (\<lambda>d. json_indent (json_sorted d)) (generate_doc builtin its configured routing ai)"

definition Generate :: "error + ai_domains \<Rightarrow> node_item list \<Rightarrow> error + string" where
  "Generate builtin its = generate builtin its [] False None"

definition GenerateWithOutbounds :: "error + ai_domains \<Rightarrow> node_item list \<Rightarrow> outbound list \<Rightarrow> error + string" where
  "GenerateWithOutbounds builtin its configured = generate builtin its configured True None"

definition GenerateWithAIRouting ::
    "error + ai_domains \<Rightarrow> node_item list \<Rightarrow> outbound list \<Rightarrow> ai_routing option \<Rightarrow> error + string" where
  "GenerateWithAIRouting builtin its configured ai = generate builtin its configured True ai"

section \<open>The exit of a connection\<close>

text \<open>
  A rule with an inbound list applies to those inbounds only. A rule with domain fields also needs
  the domain to hit them, which \<open>hits\<close> decides; a rule without them matches every connection.
\<close>

definition rule_domains :: "obj \<Rightarrow> bool" where
  "rule_domains r \<longleftrightarrow> list_ex (\<lambda>(k, v). k \<in> set [''domain'', ''domain_suffix'', ''domain_regex'']) r"

definition rule_matches :: "(obj \<Rightarrow> bool) \<Rightarrow> string \<Rightarrow> obj \<Rightarrow> bool" where
  "rule_matches hits tag r \<longleftrightarrow>
     (case map_of r ''inbound'' of Some (JList ts) \<Rightarrow> JStr tag \<in> set ts | _ \<Rightarrow> False) \<and>
     map_of r ''action'' = Some (JStr ''route'') \<and> (rule_domains r \<longrightarrow> hits r)"

definition exit_of :: "obj list \<Rightarrow> (obj \<Rightarrow> bool) \<Rightarrow> string \<Rightarrow> string" where
  "exit_of rules hits tag = (case find (rule_matches hits tag) rules of
      Some r \<Rightarrow> obj_string r ''outbound'' | None \<Rightarrow> ''native'')"

section \<open>Routing is closed and isolating\<close>

lemma node_tag_inj: "int64 i \<Longrightarrow> int64 j \<Longrightarrow> node_tag i = node_tag j \<longleftrightarrow> i = j"
  by (simp add: node_tag_def itoa_inj)

definition enabled_items :: "node_item list \<Rightarrow> node_item list" where
  "enabled_items its = filter (\<lambda>(n, cs). node_enabled n) its"

definition item_rules :: "outbound list \<Rightarrow> node_item list \<Rightarrow> obj list" where
  "item_rules configured its =
     [node_rule (node_id n) i. (n, cs) \<leftarrow> enabled_items its, i \<leftarrow> (case node_outbound n of None \<Rightarrow> [] | Some i \<Rightarrow> [i])]"

lemma available_id: "available configured i = Some ob \<Longrightarrow> out_id ob = i \<and> ob \<in> set configured"
  unfolding available_def by (auto simp: find_Some_iff) (metis length_rev nth_mem set_rev)

lemma node_part_Inr:
  "node_part configured its rules inbounds = Inr (rules', inbounds') \<Longrightarrow>
     rules' = rules @ item_rules configured its \<and>
     (\<exists>ibs. inbounds' = inbounds @ ibs \<and> list_all2 (\<lambda>(n, cs) ib. inbound n cs = Inr ib) (enabled_items its) ibs) \<and>
     (\<forall>(n, cs)\<in>set (enabled_items its). \<forall>i. node_outbound n = Some i \<longrightarrow>
        (\<exists>ob. available configured i = Some ob \<and> out_enabled ob))"
proof (induction configured its rules inbounds rule: node_part.induct)
  case (1 configured rules inbounds)
  then show ?case by (simp add: enabled_items_def item_rules_def)
next
  case (2 configured n cs its rules inbounds)
  show ?case
  proof (cases "node_enabled n")
    case False
    then show ?thesis using 2 by (simp add: enabled_items_def item_rules_def)
  next
    case True
    obtain ib where ib: "inbound n cs = Inr ib"
      using 2(3) True by (auto simp: Let_def split: sum.splits)
    show ?thesis
    proof (cases "node_outbound n")
      case None
      then show ?thesis using 2(2) [OF _ refl, of rules ib] 2(3) True ib
        by (fastforce simp: enabled_items_def item_rules_def Let_def)
    next
      case (Some i)
      obtain ob where ob: "available configured i = Some ob" "out_enabled ob"
        using 2(3) True Some by (auto simp: Let_def split: option.splits if_splits)
      then show ?thesis
        using 2(2) [OF _ refl, of "rules @ [node_rule (node_id n) (out_id ob)]" ib] 2(3) True ib Some available_id [OF ob(1)]
        by (fastforce simp: enabled_items_def item_rules_def Let_def)
    qed
  qed
qed

text \<open>The AI rules, given the tags.\<close>

definition ai_rules_for :: "ai_routing \<Rightarrow> ai_rule \<Rightarrow> string list \<Rightarrow> obj list" where
  "ai_rules_for ai r tags = (if tags = [] then []
     else [sniff_rule tags] @
       (if Exclude ai \<noteq> [] then [suffix_rule tags (Exclude ai) ''native''] else []) @
       (if Include ai \<noteq> [] then [suffix_rule tags (Include ai) ''ai-japan''] else []) @
       [list_rule tags r])"

lemma ai_tags_Inr:
  "ai_tags its seen is = Inr tags \<Longrightarrow> tags = map node_tag is \<and> (\<forall>i\<in>set is. eligible_native its i)"
proof (induction "is" arbitrary: seen tags)
  case (Cons i "is")
  then obtain ts where "ai_tags its (i # seen) is = Inr ts" "tags = node_tag i # ts" "eligible_native its i"
    by (auto split: if_splits sum.splits)
  then show ?case using Cons.IH by simp
qed simp

text \<open>The rules before those of the nodes: none, or the ones of the AI routing over native nodes.\<close>

definition ai_head :: "node_item list \<Rightarrow> ai_routing option \<Rightarrow> obj list \<Rightarrow> bool" where
  "ai_head its ai rules0 \<longleftrightarrow> (ai = None \<and> rules0 = []) \<or>
     (\<exists>a r. ai = Some a \<and> rules0 = ai_rules_for a r (map node_tag (InboundIDs a)) \<and>
        (\<forall>i\<in>set (InboundIDs a). eligible_native its i))"

definition outbounds_usable :: "node_item list \<Rightarrow> outbound list \<Rightarrow> bool" where
  "outbounds_usable its configured \<longleftrightarrow>
     (\<forall>(n, cs)\<in>set (enabled_items its). \<forall>i. node_outbound n = Some i \<longrightarrow>
       (\<exists>ob. available configured i = Some ob \<and> out_enabled ob))"

definition inbounds_built :: "node_item list \<Rightarrow> obj list \<Rightarrow> bool" where
  "inbounds_built its inbounds \<longleftrightarrow>
     list_all2 (\<lambda>(n, cs) ib. inbound n cs = Inr ib) (enabled_items its) inbounds"

lemma ai_part_Inr:
  assumes "ai_part builtin its ai = Inr rules"
  obtains r where "rules = ai_rules_for ai r (map node_tag (InboundIDs ai))"
    "\<forall>i\<in>set (InboundIDs ai). eligible_native its i"
proof -
  obtain tags where t: "ai_tags its [] (InboundIDs ai) = Inr tags"
    using assms by (auto simp: ai_part_def split: sum.splits)
  obtain r where "rules = ai_rules_for ai r tags"
    using assms t by (auto simp: ai_part_def ai_rules_for_def split: sum.splits list.splits option.splits)
  with ai_tags_Inr [OF t] that show thesis by blast
qed

lemma find_mem: "find P xs = Some x \<Longrightarrow> x \<in> set xs \<and> P x"
  by (induction xs) (auto split: if_splits)

lemma find_append: "find P (xs @ ys) = (case find P xs of None \<Rightarrow> find P ys | Some x \<Rightarrow> Some x)"
  by (induction xs) auto

lemma strings_mem [simp]: "JStr t \<in> JStr ` set ts \<longleftrightarrow> t \<in> set ts"
  by auto

lemma matches_sniff [simp]: "\<not> rule_matches hits tag (sniff_rule tags)"
  by (simp add: rule_matches_def sniff_rule_def)

lemma matches_suffix [simp]:
  "rule_matches hits tag (suffix_rule tags ds e) \<longleftrightarrow> tag \<in> set tags \<and> hits (suffix_rule tags ds e)"
  by (simp add: rule_matches_def suffix_rule_def strings_def rule_domains_def)

lemma matches_list [simp]: "rule_matches hits tag (list_rule tags r) \<longleftrightarrow> tag \<in> set tags \<and> hits (list_rule tags r)"
  by (simp add: rule_matches_def list_rule_def strings_def rule_domains_def)

lemma matches_node [simp]: "rule_matches hits tag (node_rule i ob) \<longleftrightarrow> tag = node_tag i"
  by (auto simp: rule_matches_def node_rule_def strings_def rule_domains_def)

lemma rule_exit [simp]:
  "obj_string (suffix_rule tags ds e) ''outbound'' = e"
  "obj_string (list_rule tags r) ''outbound'' = ''ai-japan''"
  "obj_string (node_rule i ob) ''outbound'' = out_tag ob"
  by (simp_all add: suffix_rule_def list_rule_def node_rule_def obj_string_def)

lemma ai_rules_skip: "tag \<notin> set tags \<Longrightarrow> find (rule_matches hits tag) (ai_rules_for ai r tags) = None"
  by (auto simp: ai_rules_for_def)

lemma item_rules_mem:
  "x \<in> set (item_rules configured its) \<Longrightarrow>
     \<exists>n cs i. (n, cs) \<in> set (enabled_items its) \<and> node_outbound n = Some i \<and> x = node_rule (node_id n) i"
proof -
  have c: "set (case v of None \<Rightarrow> [] | Some i \<Rightarrow> [i]) = set_option v" for v :: "int option"
    by (cases v) auto
  assume "x \<in> set (item_rules configured its)"
  then show ?thesis by (auto simp: item_rules_def c)
qed

lemma item_rules_find:
  assumes "distinct (map (\<lambda>(n, cs). node_id n) (enabled_items its))"
    and "\<forall>(n, cs)\<in>set (enabled_items its). int64 (node_id n)" and "(n, cs) \<in> set (enabled_items its)"
  shows "find (rule_matches hits (node_tag (node_id n))) (item_rules configured its)
    = map_option (node_rule (node_id n)) (node_outbound n)"
proof -
  have "find (rule_matches hits (node_tag (node_id n)))
      [node_rule (node_id m) i. (m, ds) \<leftarrow> xs, i \<leftarrow> (case node_outbound m of None \<Rightarrow> [] | Some i \<Rightarrow> [i])]
    = (if (n, cs) \<in> set xs then map_option (node_rule (node_id n)) (node_outbound n) else None)"
    if "distinct (map (\<lambda>(n, cs). node_id n) xs)" "\<forall>(m, ds)\<in>set xs. int64 (node_id m)" "int64 (node_id n)"
      "(n, cs) \<notin> set xs \<longrightarrow> node_id n \<notin> (\<lambda>(n, cs). node_id n) ` set xs" for xs
    using that
  proof (induction xs)
    case (Cons x xs)
    obtain m ds where x: "x = (m, ds)" by (cases x)
    have tag: "node_tag (node_id n) = node_tag (node_id m) \<longleftrightarrow> node_id n = node_id m"
      using Cons.prems by (intro node_tag_inj) (auto simp: x)
    show ?case
    proof (cases "(n, cs) = x")
      case True
      have "(n, cs) \<notin> set xs" using Cons.prems(1) True by (force simp: x)
      moreover have "node_id n \<notin> (\<lambda>(n, cs). node_id n) ` set xs" using Cons.prems(1) True by (simp add: x)
      ultimately have "find (rule_matches hits (node_tag (node_id n)))
          [node_rule (node_id m) i. (m, ds) \<leftarrow> xs, i \<leftarrow> (case node_outbound m of None \<Rightarrow> [] | Some i \<Rightarrow> [i])] = None"
        using Cons by simp
      then show ?thesis using True by (cases "node_outbound n") (auto simp: x find_append)
    next
      case False
      have ne: "node_id n \<noteq> node_id m"
        using Cons.prems(1,4) False by (cases "(n, cs) \<in> set xs") (force simp: x)+
      then show ?thesis using Cons False tag by (cases "node_outbound m") (auto simp: x find_append)
    qed
  qed simp
  from this [of "enabled_items its"] assms show ?thesis by (auto simp: item_rules_def)
qed

definition ids_ok :: "node_item list \<Rightarrow> bool" where
  "ids_ok its \<longleftrightarrow> distinct (map (\<lambda>(n, cs). node_id n) (enabled_items its)) \<and>
     (\<forall>(n, cs)\<in>set (enabled_items its). int64 (node_id n))"

lemma generate_parts_Inr:
  assumes "generate_parts builtin its configured ai = Inr (inbounds, outs, rules)"
  obtains rules0 where "rules = rules0 @ item_rules configured its"
    "ai_head its ai rules0"
    "inbounds_built its inbounds"
    "outs = direct_outbound # map out_entry (used_outbounds its configured) @
       (case ai of None \<Rightarrow> [] | Some a \<Rightarrow> [ai_outbound a])"
    "outbounds_usable its configured"
proof -
  obtain rules0 where r0: "(case ai of None \<Rightarrow> Inr [] | Some a \<Rightarrow> ai_part builtin its a) = Inr rules0"
    "node_part configured its rules0 [] = Inr (rules, inbounds)"
    "outs = direct_outbound # map out_entry (used_outbounds its configured) @
       (case ai of None \<Rightarrow> [] | Some a \<Rightarrow> [ai_outbound a])"
    using assms by (auto simp: generate_parts_def Let_def split: sum.splits)
  have "ai_head its ai rules0"
    using r0(1) by (cases ai) (auto simp: ai_head_def elim: ai_part_Inr)
  moreover have "rules = rules0 @ item_rules configured its" "inbounds_built its inbounds"
    "outbounds_usable its configured"
    using node_part_Inr [OF r0(2)] by (auto simp: inbounds_built_def outbounds_usable_def)
  ultimately show thesis using r0(3) that by simp
qed

lemma enabled_unique:
  assumes "ids_ok its" and "(n, cs) \<in> set (enabled_items its)" and "(m, ds) \<in> set (enabled_items its)"
    and "node_id n = node_id m"
  shows "n = m"
  using assms unfolding ids_ok_def
  by (metis (no_types, lifting) Pair_inject case_prod_conv distinct_map inj_onD)

text \<open>C2: Under the generated rules the exit of every connection is decided by its node: a node bound to
  an outbound leaves through that outbound and no other, whatever the domain and whatever the AI
  routing, and a node without one that the AI routing does not list leaves directly.\<close>

theorem node_exit_isolated:
  assumes "generate_parts builtin its configured ai = Inr (inbounds, outs, rules)" and "ids_ok its"
    and "(n, cs) \<in> set its" and "node_enabled n"
    and "node_outbound n = None \<longrightarrow> (\<forall>a. ai = Some a \<longrightarrow> node_id n \<notin> set (InboundIDs a))"
  shows "exit_of rules hits (node_tag (node_id n))
    = (case node_outbound n of Some i \<Rightarrow> out_tag i | None \<Rightarrow> ''native'')"
proof -
  obtain rules0 where r: "rules = rules0 @ item_rules configured its"
    and r0: "ai_head its ai rules0" and "inbounds_built its inbounds"
    and "outs = direct_outbound # map out_entry (used_outbounds its configured) @
       (case ai of None \<Rightarrow> [] | Some a \<Rightarrow> [ai_outbound a])" and "outbounds_usable its configured"
    by (rule generate_parts_Inr [OF assms(1)])
  have e: "(n, cs) \<in> set (enabled_items its)" using assms(3,4) by (auto simp: enabled_items_def)
  have ids: "int64 (node_id n)" using e assms(2) by (auto simp: ids_ok_def)
  have skip: "find (rule_matches hits (node_tag (node_id n))) rules0 = None"
    using r0 unfolding ai_head_def
  proof
    assume "\<exists>a r. ai = Some a \<and> rules0 = ai_rules_for a r (map node_tag (InboundIDs a)) \<and>
        (\<forall>i\<in>set (InboundIDs a). eligible_native its i)"
    then obtain a q where a: "ai = Some a" "rules0 = ai_rules_for a q (map node_tag (InboundIDs a))"
      "\<forall>i\<in>set (InboundIDs a). eligible_native its i" by blast
    have "node_tag (node_id n) \<notin> set (map node_tag (InboundIDs a))"
    proof
      assume "node_tag (node_id n) \<in> set (map node_tag (InboundIDs a))"
      then obtain i where i: "i \<in> set (InboundIDs a)" "node_tag (node_id n) = node_tag i" by auto
      obtain m ds where m: "(m, ds) \<in> set its" "node_enabled m" "node_outbound m = None" "node_id m = i"
        using a(3) i(1) by (auto simp: eligible_native_def list_ex_iff)
      have me: "(m, ds) \<in> set (enabled_items its)" using m by (auto simp: enabled_items_def)
      have "int64 i" using me m(4) assms(2) by (auto simp: ids_ok_def)
      then have "node_id n = i" using i(2) ids by (simp add: node_tag_inj)
      then have "n = m" using enabled_unique [OF assms(2) e me] m(4) by simp
      then show False using assms(5) a(1) i(1) m(3,4) by auto
    qed
    then show ?thesis using a(2) by (simp add: ai_rules_skip)
  qed auto
  have "find (rule_matches hits (node_tag (node_id n))) (item_rules configured its)
      = map_option (node_rule (node_id n)) (node_outbound n)"
    using assms(2) e by (intro item_rules_find) (simp_all add: ids_ok_def)
  then show ?thesis using skip by (simp add: exit_of_def r find_append split: option.split)
qed

definition demo_sb_node :: "int \<Rightarrow> int option \<Rightarrow> node" where
  "demo_sb_node i o' = \<lparr>node_id = i, node_name = ''n'', protocol = ProtocolTrojanTLS, listen = ''::'', port = 443,
     node_enabled = True, public_host_override = [], node_outbound = o', settings = [], secret = [],
     node_status = [], node_created = 0, node_updated = 0\<rparr>"

definition demo_out :: outbound where
  "demo_out = \<lparr>out_id = 7, out_name = ''jp'', out_type = ''socks5'', out_server = ''10.0.0.2'', out_port = 1080,
     out_enabled = True, out_username = ''u'', out_password = ''p'', out_managed = [], out_status = [],
     out_observed = [], out_country = [], out_asn = [], out_error = [], out_checked = None,
     out_created = 0, out_updated = 0\<rparr>"

definition demo_ai :: ai_routing where
  "demo_ai = \<lparr>InboundIDs = [2], Base = Some \<lparr>ai_version = 1, ai_rules = [\<lparr>ai_domain = None,
       ai_suffix = Some [''openai.com''], ai_regex = None\<rparr>]\<rparr>, Server = ''s'', Port = 443, UUID = ''u'',
     ServerName = ''n'', PublicKey = ''k'', ShortID = ''i'', Flow = [], Include = [''a.com''], Exclude = [''b.com'']\<rparr>"

definition demo_its :: "node_item list" where
  "demo_its = [(demo_sb_node 1 (Some 7), []), (demo_sb_node 2 None, []), (demo_sb_node 3 None, [])]"

definition demo_parts :: "obj list \<times> obj list \<times> obj list" where
  "demo_parts = projr (generate_parts (Inl (Err ''unused'')) demo_its [demo_out] (Some demo_ai))"

lemma demo_generate:
  "generate_parts (Inl (Err ''unused'')) demo_its [demo_out] (Some demo_ai)
     = Inr (fst demo_parts, fst (snd demo_parts), snd (snd demo_parts))"
proof -
  have "(case generate_parts (Inl (Err ''unused'')) demo_its [demo_out] (Some demo_ai) of Inr _ \<Rightarrow> True | Inl _ \<Rightarrow> False)"
    by code_simp
  then show ?thesis by (auto simp: demo_parts_def split: sum.splits)
qed

lemma demo_ids: "ids_ok demo_its"
  by (simp add: ids_ok_def enabled_items_def demo_its_def demo_sb_node_def int64_def)

theorem node_exit_isolated_witness:
  "exit_of (snd (snd demo_parts)) (\<lambda>_. True) (node_tag 1) = ''outbound-7''"
proof -
  have 1: "(demo_sb_node 1 (Some 7), []) \<in> set demo_its" by (simp add: demo_its_def)
  have "out_tag 7 = ''outbound-7''" by code_simp
  then show ?thesis
    using node_exit_isolated [OF demo_generate demo_ids 1, of "\<lambda>_. True"] by (simp add: demo_sb_node_def)
qed

text \<open>No rule and no default sends traffic to an outbound that is not in the document: the exit of
  any connection of any inbound is one of the generated outbounds.\<close>

theorem exits_are_defined:
  assumes "generate_parts builtin its configured ai = Inr (inbounds, outs, rules)"
  shows "exit_of rules hits tag \<in> (\<lambda>ob. obj_string ob ''tag'') ` set outs"
proof -
  obtain rules0 where r: "rules = rules0 @ item_rules configured its"
    and r0: "ai_head its ai rules0" and "inbounds_built its inbounds"
    and outs: "outs = direct_outbound # map out_entry (used_outbounds its configured) @
       (case ai of None \<Rightarrow> [] | Some a \<Rightarrow> [ai_outbound a])"
    and av: "outbounds_usable its configured"
    by (rule generate_parts_Inr [OF assms(1)])
  have native: "''native'' \<in> (\<lambda>ob. obj_string ob ''tag'') ` set outs"
    by (simp add: outs direct_outbound_def obj_string_def)
  show ?thesis
  proof (cases "find (rule_matches hits tag) rules")
    case None
    then show ?thesis using native by (simp add: exit_of_def)
  next
    case (Some x)
    then have mem: "x \<in> set rules0 \<union> set (item_rules configured its)" "rule_matches hits tag x"
      using find_mem [OF Some] by (auto simp: r)
    have "obj_string x ''outbound'' \<in> (\<lambda>ob. obj_string ob ''tag'') ` set outs"
    proof (cases "x \<in> set rules0")
      case True
      then obtain a q where a: "ai = Some a" "x \<in> set (ai_rules_for a q (map node_tag (InboundIDs a)))"
        using r0 by (auto simp: ai_head_def)
      have "''ai-japan'' \<in> (\<lambda>ob. obj_string ob ''tag'') ` set outs"
        by (simp add: outs a(1) ai_outbound_def obj_string_def)
      with a(2) native mem(2) show ?thesis by (auto simp: ai_rules_for_def split: if_splits)
    next
      case False
      then obtain n cs i where n: "(n, cs) \<in> set (enabled_items its)" "node_outbound n = Some i"
        "x = node_rule (node_id n) i"
        using mem(1) item_rules_mem by blast
      then have "\<exists>ob. available configured i = Some ob \<and> out_enabled ob"
        using av by (force simp: outbounds_usable_def)
      then obtain ob where ob: "available configured i = Some ob" "out_enabled ob" by blast
      have "(n, cs) \<in> set its" "node_enabled n" using n(1) by (auto simp: enabled_items_def)
      then have "required its i" using n(2) by (auto simp: required_def list_ex_iff)
      then have "ob \<in> set (used_outbounds its configured)"
        using ob available_id [OF ob(1)] by (simp add: used_outbounds_def)
      moreover have "obj_string (out_entry ob) ''tag'' = out_tag i"
        using available_id [OF ob(1)] by (simp add: out_entry_def Let_def obj_string_def)
      ultimately show ?thesis using n(3) by (auto simp: outs image_iff intro!: bexI [of _ "out_entry ob"])
    qed
    then show ?thesis by (simp add: exit_of_def Some)
  qed
qed

theorem exits_are_defined_witness:
  "exit_of (snd (snd demo_parts)) (\<lambda>_. True) (node_tag 2) \<in> (\<lambda>ob. obj_string ob ''tag'') ` set (fst (snd demo_parts))"
  by (rule exits_are_defined [OF demo_generate])

text \<open>C38: A native node that the AI routing lists leaves directly when the domain is on the exclusion
  list, through the AI outbound when it is on the inclusion list or on the rule set and not excluded,
  and directly otherwise: exclusion wins over inclusion.\<close>

theorem ai_exit:
  assumes "generate_parts builtin its configured (Some a) = Inr (inbounds, outs, rules)"
    and "node_id n \<in> set (InboundIDs a)"
  shows "exit_of rules hits (node_tag (node_id n)) = (let tags = map node_tag (InboundIDs a) in
     if Exclude a \<noteq> [] \<and> hits (suffix_rule tags (Exclude a) ''native'') then ''native''
     else if Include a \<noteq> [] \<and> hits (suffix_rule tags (Include a) ''ai-japan'') then ''ai-japan''
     else if \<exists>r. list_rule tags r \<in> set rules \<and> hits (list_rule tags r) then ''ai-japan''
     else exit_of (item_rules configured its) hits (node_tag (node_id n)))"
proof -
  obtain rules0 where r: "rules = rules0 @ item_rules configured its"
    and r0: "ai_head its (Some a) rules0" and "inbounds_built its inbounds"
    and "outs = direct_outbound # map out_entry (used_outbounds its configured) @
       (case Some a of None \<Rightarrow> [] | Some a \<Rightarrow> [ai_outbound a])" and "outbounds_usable its configured"
    by (rule generate_parts_Inr [OF assms(1)])
  let ?tags = "map node_tag (InboundIDs a)" and ?tag = "node_tag (node_id n)"
  obtain q where q: "rules0 = ai_rules_for a q ?tags" using r0 by (auto simp: ai_head_def)
  have t: "?tag \<in> set ?tags" "?tags \<noteq> []" using assms(2) by auto
  have only: "list_rule ?tags r \<in> set rules \<longleftrightarrow> list_rule ?tags r = list_rule ?tags q" for r
  proof -
    have "list_rule ?tags r \<noteq> sniff_rule ?tags" "list_rule ?tags r \<noteq> suffix_rule ?tags d e"
      "list_rule ?tags r \<noteq> node_rule i j" for d e i j
      by (simp_all add: list_rule_def sniff_rule_def suffix_rule_def node_rule_def)
    then show ?thesis using t(2) by (auto simp: r q ai_rules_for_def item_rules_def split: option.splits)
  qed
  then have ex: "(\<exists>r. list_rule ?tags r \<in> set rules \<and> hits (list_rule ?tags r)) \<longleftrightarrow> hits (list_rule ?tags q)"
    by metis
  have ne: "InboundIDs a \<noteq> []" and mem: "?tag \<in> node_tag ` set (InboundIDs a)" using t by auto
  show ?thesis
    unfolding Let_def ex
    by (cases "Exclude a = []"; cases "Include a = []")
      (simp_all add: exit_of_def r q ai_rules_for_def find_append ne mem)
qed

theorem ai_exit_witness:
  "exit_of (snd (snd demo_parts)) (\<lambda>_. True) (node_tag 2) = ''native''"
proof -
  have "node_id (demo_sb_node 2 None) \<in> set (InboundIDs demo_ai)" by (simp add: demo_sb_node_def demo_ai_def)
  from ai_exit [OF demo_generate this, of "\<lambda>_. True"] show ?thesis
    by (simp add: demo_sb_node_def demo_ai_def)
qed

section \<open>Which inbounds there are\<close>

lemma obj_set_other: "k \<noteq> k' \<Longrightarrow> map_of (obj_set k v ob) k' = map_of ob k'"
  by simp

lemma inbound_fields:
  "inbound n cs = Inr ib \<Longrightarrow> obj_string ib ''tag'' = node_tag (node_id n) \<and>
     map_of ib ''listen_port'' = Some (JInt (port n)) \<and>
     (\<exists>us. map_of ib ''users'' = Some (JList us) \<and> length us = length (activeClients cs))"
  by (auto simp: inbound_def Let_def obj_string_def vlessUsers_def passwordUsers_def tuicUsers_def
      socksUsers_def split: if_splits)

text \<open>A generated document has one inbound for every enabled node, in order, on the node's port, with
  one user for every enabled client, and none for a disabled node.\<close>

theorem inbounds_exact:
  assumes "generate_parts builtin its configured ai = Inr (inbounds, outs, rules)"
  shows "list_all2 (\<lambda>(n, cs) ib. obj_string ib ''tag'' = node_tag (node_id n) \<and>
       map_of ib ''listen_port'' = Some (JInt (port n)) \<and>
       (\<exists>us. map_of ib ''users'' = Some (JList us) \<and> length us = length (activeClients cs)))
     (enabled_items its) inbounds"
proof -
  obtain rules0 where "rules = rules0 @ item_rules configured its"
    and "ai_head its ai rules0" and ib: "inbounds_built its inbounds"
    and "outs = direct_outbound # map out_entry (used_outbounds its configured) @
       (case ai of None \<Rightarrow> [] | Some a \<Rightarrow> [ai_outbound a])" and "outbounds_usable its configured"
    by (rule generate_parts_Inr [OF assms])
  show ?thesis
    using ib unfolding inbounds_built_def
    by (rule list_all2_mono) (auto dest: inbound_fields)
qed

theorem inbounds_exact_witness: "length (fst demo_parts) = 3"
proof -
  have "length (enabled_items demo_its) = 3"
    by (simp add: enabled_items_def demo_its_def demo_sb_node_def)
  then show ?thesis using list_all2_lengthD [OF inbounds_exact [OF demo_generate]] by simp
qed

end
