(* ===== verification/EngineApply.thy ===== *)
theory EngineApply
  imports GoJson GoFiles GoNet
begin

text \<open>
  \<open>internal/engine/engine.go\<close>: how a generated configuration becomes the running one. The candidate is
  validated, renamed over the live file, and the service reloaded; when anything after the rename
  fails, the previous file is restored and the service brought back to it. Commands are a parameter
  (\<open>engine_run\<close>), as are the injected listener checks. The pause after a reload (\<open>settle\<close>, given the time
  limit of its context) and what each \<open>select\<close> of the listener wait picks (\<open>wakes\<close>) are parameters, the
  latter a list whose end is the five second deadline. Durations are nanoseconds. The name
  \<open>os.CreateTemp\<close> draws is the stem followed by the random part with the suffix.
\<close>

section \<open>Data\<close>

record listener =
  Network :: string
  Host :: string
  LPort :: int

datatype wake = CtxDone | Deadline | Tick

record 'w engine_system =
  Binary :: string
  ConfigPath :: string
  ServiceUnit :: string
  StartIfInactive :: bool
  engine_run :: "'w runner"
  ListenerChecker :: "(listener list \<Rightarrow> ('w, unit) io) option"
  RollbackListenerChecker :: "(listener list \<Rightarrow> ('w, unit) io) option"
  CommitTimeout :: int
  RollbackTimeout :: int
  settle :: "int \<Rightarrow> ('w, unit) io"
  wakes :: "wake list"

definition serviceUnit :: string where "serviceUnit = ''j-ui-sing-box.service''"

definition unit_of :: "'w engine_system \<Rightarrow> string" where
  "unit_of s = (if trim_space (ServiceUnit s) \<noteq> [] then ServiceUnit s else serviceUnit)"

definition commitTimeout :: "'w engine_system \<Rightarrow> int" where
  "commitTimeout s = (if CommitTimeout s > 0 then CommitTimeout s else 30000000000)"

definition rollbackTimeout :: "'w engine_system \<Rightarrow> int" where
  "rollbackTimeout s = (if RollbackTimeout s > 0 then RollbackTimeout s else 30000000000)"

text \<open>The environment of a command: the panel's own with the C locale.\<close>

definition exec_env :: "string list \<Rightarrow> string list" where
  "exec_env environ = filter (\<lambda>entry. \<not> has_prefix entry ''LC_ALL='') environ @ [''LC_ALL=C'']"

section \<open>Which process listens where\<close>

lemma index_of_shorter: "index_of s sub = Some i \<Longrightarrow> i + length sub \<le> length s"
  using index_of_Some by fastforce

function socketOwnedByPID :: "string \<Rightarrow> int \<Rightarrow> bool" where
  "socketOwnedByPID line expected =
     (case index_of line ''pid='' of
        None \<Rightarrow> False
      | Some index \<Rightarrow>
          let rest = drop (index + 4) line; digits = takeWhile is_digit rest
          in if digits \<noteq> [] \<and> atoi digits = (expected, None) then True
             else socketOwnedByPID (dropWhile is_digit rest) expected)"
  by pat_completeness auto
termination
proof (relation "measure (\<lambda>(line, expected). length line)")
  fix line :: string and expected index x xa
  assume i: "index_of line ''pid='' = Some index" and x: "x = drop (index + 4) line"
  have "length (dropWhile is_digit x) \<le> length x" by (rule length_dropWhile_le)
  then show "((dropWhile is_digit x, expected), line, expected) \<in> measure (\<lambda>(line, expected). length line)"
    using index_of_shorter [OF i] by (simp add: x)
qed simp

declare socketOwnedByPID.simps [simp del]

definition socketPort :: "string \<Rightarrow> int" where
  "socketPort address = (case last_index_byte address CHR '':'' of
      None \<Rightarrow> 0
    | Some index \<Rightarrow> if index = length address - 1 then 0 else fst (atoi (drop (index + 1) address)))"

definition bracket :: "char \<Rightarrow> bool" where
  "bracket c \<longleftrightarrow> c = CHR ''['' \<or> c = CHR '']''"

definition without_zone :: "string \<Rightarrow> string" where
  "without_zone s = (case last_index_byte s CHR ''%'' of None \<Rightarrow> s | Some zone \<Rightarrow> take zone s)"

text \<open>An address as \<open>ss\<close> or a node writes it, without brackets and zone.\<close>

definition bare_host :: "string \<Rightarrow> string" where
  "bare_host s = without_zone (trim_both bracket (trim_space s))"

definition socketHostMatches :: "string \<Rightarrow> string \<Rightarrow> bool" where
  "socketHostMatches address expected0 =
     (case last_index_byte address CHR '':'' of
        None \<Rightarrow> False
      | Some index \<Rightarrow>
          let actual0 = bare_host (take index address);
              expected1 = bare_host expected0;
              expected = (if expected1 = [] then ''0.0.0.0'' else expected1);
              actual = (if actual0 = ''*'' then ''::'' else actual0)
          in (case (parse_ip actual, parse_ip expected) of
                (Some actualIP, Some expectedIP) \<Rightarrow>
                  if ip_unspecified actualIP
                  then (if ip_unspecified expectedIP
                        then (ip_to4 actualIP = None) = (ip_to4 expectedIP = None)
                        else (ip_to4 actualIP = None) = (ip_to4 expectedIP = None))
                  else actualIP = expectedIP
              | _ \<Rightarrow> actual = expected))"

definition socket_line :: "int \<Rightarrow> listener \<Rightarrow> string \<Rightarrow> bool" where
  "socket_line mainPID expected line =
     (let flds = str_fields line
      in \<not> (length flds < 5 \<or> flds ! 0 \<noteq> Network expected \<or>
            socketPort (flds ! 4) \<noteq> LPort expected \<or>
            \<not> socketHostMatches (flds ! 4) (Host expected) \<or>
            \<not> socketOwnedByPID line mainPID))"

definition ListenerStatuses :: "'w engine_system \<Rightarrow> listener list \<Rightarrow> ('w, bool list) io" where
  "ListenerStatuses s listeners =
     (if listeners = [] then io_return []
      else io_bind (must (engine_run s) ''resolve sing-box MainPID''
             [''systemctl'', ''show'', ''--property=MainPID'', ''--value'', unit_of s]) (\<lambda>pidOutput.
        case atoi (trim_space pidOutput) of (mainPID, err) \<Rightarrow>
          if err \<noteq> None \<or> mainPID < 1 then io_fail (Err ''resolve sing-box MainPID: invalid value'')
          else io_bind (must (engine_run s) ''inspect socket owners'' [''ss'', ''-H'', ''-ltnup'']) (\<lambda>out.
            io_return (map (\<lambda>expected. list_ex (socket_line mainPID expected) (split_char NL out)) listeners))))"

definition ListenersHealthy :: "'w engine_system \<Rightarrow> listener list \<Rightarrow> ('w, unit) io" where
  "ListenersHealthy s listeners = io_bind (ListenerStatuses s listeners) (\<lambda>statuses.
     if list_all (\<lambda>healthy. healthy) statuses then io_return ()
     else io_fail (Err ''port is not owned by sing-box''))"

definition Healthy :: "'w engine_system \<Rightarrow> ('w, bool) io" where
  "Healthy s = io_bind (exec (engine_run s) [''systemctl'', ''is-active'', ''--quiet'', unit_of s])
     (\<lambda>(out, err). io_return (err = None))"

definition firstLine :: "string \<Rightarrow> string" where
  "firstLine v = takeWhile (\<lambda>c. \<not> (c = NL \<or> c = CR)) v"

definition Version :: "'w engine_system \<Rightarrow> ('w, string) io" where
  "Version s = io_bind (exec (engine_run s) [Binary s, ''version''])
     (\<lambda>(out, err). io_return (if err \<noteq> None then ''unavailable'' else firstLine out))"

text \<open>The wait: check, then sleep until the context ends, the deadline passes, or the ticker ticks.\<close>

fun wait_loop :: "'w engine_system \<Rightarrow> listener list \<Rightarrow> wake list \<Rightarrow> ('w, unit) io" where
  "wait_loop s listeners [] = ListenersHealthy s listeners"
| "wait_loop s listeners (k # ks) = io_try (ListenersHealthy s listeners) (\<lambda>r. case r of
      Inr _ \<Rightarrow> io_return ()
    | Inl lastErr \<Rightarrow> (case k of
        CtxDone \<Rightarrow> io_fail (Err ''context deadline exceeded'')
      | Deadline \<Rightarrow> io_fail lastErr
      | Tick \<Rightarrow> wait_loop s listeners ks))"

definition waitForListeners :: "'w engine_system \<Rightarrow> listener list \<Rightarrow> ('w, unit) io" where
  "waitForListeners s listeners = wait_loop s listeners (wakes s)"

section \<open>The listeners of a configuration\<close>

definition inbound_network :: "string \<Rightarrow> string option" where
  "inbound_network t =
     (if t \<in> set [''vless'', ''trojan'', ''socks'', ''anytls''] then Some ''tcp''
      else if t \<in> set [''hysteria2'', ''tuic''] then Some ''udp'' else None)"

definition decode_inbound :: "json \<Rightarrow> error + string \<times> string \<times> int" where
  "decode_inbound j = (case j of
      JObj ob \<Rightarrow> (case (field_string ob ''type'', field_string ob ''listen'', field_int ob ''listen_port'') of
          (Inr t, Inr l, Inr p) \<Rightarrow> Inr (t, l, p)
        | _ \<Rightarrow> Inl (Err ''json: cannot unmarshal''))
    | JNull \<Rightarrow> Inr ([], [], 0)
    | _ \<Rightarrow> Inl (Err ''json: cannot unmarshal''))"

fun map_sums :: "('a \<Rightarrow> error + 'b) \<Rightarrow> 'a list \<Rightarrow> error + 'b list" where
  "map_sums f [] = Inr []"
| "map_sums f (x # xs) = (case f x of
      Inl e \<Rightarrow> Inl e
    | Inr y \<Rightarrow> (case map_sums f xs of Inl e \<Rightarrow> Inl e | Inr ys \<Rightarrow> Inr (y # ys)))"

definition decode_inbounds :: "string \<Rightarrow> error + (string \<times> string \<times> int) list" where
  "decode_inbounds config = (case json_parse config of
      Some (JObj ob) \<Rightarrow> (case json_member ob ''inbounds'' of
          JList vs \<Rightarrow> map_sums decode_inbound vs
        | JNull \<Rightarrow> Inr []
        | _ \<Rightarrow> Inl (Err ''json: cannot unmarshal''))
    | Some JNull \<Rightarrow> Inr []
    | _ \<Rightarrow> Inl (Err ''json: invalid document''))"

definition inbound_listener :: "string \<times> string \<times> int \<Rightarrow> error + listener" where
  "inbound_listener = (\<lambda>(t, host, portn). case inbound_network t of
      None \<Rightarrow> Inl (Err ''unsupported inbound type'')
    | Some net \<Rightarrow>
        if portn < 1 \<or> portn > 65535 \<or> parse_ip host = None then Inl (Err ''invalid listener'')
        else Inr \<lparr>Network = net, Host = host, LPort = portn\<rparr>)"

definition listenersFromConfiguration :: "string option \<Rightarrow> error + listener list" where
  "listenersFromConfiguration config = (case config of
      None \<Rightarrow> Inr []
    | Some c \<Rightarrow> (case decode_inbounds c of Inl e \<Rightarrow> Inl e | Inr ibs \<Rightarrow> map_sums inbound_listener ibs))"

section \<open>Binding a port to see whether it is taken\<close>

datatype bind_result = Bound | InUse | BindFailed error

definition healthCheckHost :: "string \<Rightarrow> string" where
  "healthCheckHost host =
     (if host = [] \<or> host = ''0.0.0.0'' then ''127.0.0.1''
      else if host = ''::'' then ''::1'' else host)"

fun listenersHealthy :: "(string \<Rightarrow> string \<Rightarrow> bind_result) \<Rightarrow> listener list \<Rightarrow> error option" where
  "listenersHealthy bind [] = None"
| "listenersHealthy bind (l # ls) =
     (let address = join_host_port (healthCheckHost (Host l)) (itoa (LPort l))
      in if Network l \<noteq> ''tcp'' \<and> Network l \<noteq> ''udp''
         then Some (Err ''unsupported listener network'')
         else case bind (Network l) address of
             Bound \<Rightarrow> Some (Err ''address is not bound'')
           | BindFailed e \<Rightarrow> Some (Wrap ''check address'' e)
           | InUse \<Rightarrow> listenersHealthy bind ls)"

section \<open>Restoring the previous configuration\<close>

definition syncDirectory :: "('a fs_scheme, unit) io" where
  "syncDirectory = io_bind fs_nop (\<lambda>_. fs_nop)"

definition atomicWrite :: "string \<Rightarrow> string \<Rightarrow> ('a fs_scheme, unit) io" where
  "atomicWrite p content =
     io_bind (fs_create_temp (path_join (path_dir p) ''.rollback-'')) (\<lambda>tmp.
       io_finally (io_bind (put_temp tmp p content) (\<lambda>_. syncDirectory)) (fs_remove tmp))"

definition restore_file :: "string \<Rightarrow> string option \<Rightarrow> ('a fs_scheme, unit) io" where
  "restore_file p previous = (case previous of
      Some content \<Rightarrow> atomicWrite p content
    | None \<Rightarrow> io_try (fs_remove p) (\<lambda>r. case r of
          Inr _ \<Rightarrow> io_return ()
        | Inl e \<Rightarrow> if e = ErrNotExist then io_return () else io_fail e))"

definition systemctl :: "string \<Rightarrow> 'w engine_system \<Rightarrow> string list" where
  "systemctl action s = [''systemctl'', action, unit_of s]"

definition check_with :: "'w engine_system \<Rightarrow> (listener list \<Rightarrow> ('w, unit) io) option \<Rightarrow> listener list \<Rightarrow> ('w, unit) io" where
  "check_with s checker listeners = (case checker of
      Some check \<Rightarrow> check listeners | None \<Rightarrow> waitForListeners s listeners)"

definition reload_previous :: "'w engine_system \<Rightarrow> ('w, unit) io" where
  "reload_previous s = io_bind (exec (engine_run s) (systemctl ''reload'' s)) (\<lambda>(out, err).
     case err of
       None \<Rightarrow> io_return ()
     | Some e \<Rightarrow> io_bind (exec (engine_run s) (systemctl ''restart'' s)) (\<lambda>(out2, err2).
         if err2 \<noteq> None then io_fail (Wrap ''restart fallback'' (Wrap ''reload previous configuration'' e))
         else io_return ()))"

definition verify_previous :: "'w engine_system \<Rightarrow> string option \<Rightarrow> ('w, unit) io" where
  "verify_previous s previous =
     io_bind (settle s (rollbackTimeout s)) (\<lambda>_.
     io_bind (Healthy s) (\<lambda>healthy.
       if \<not> healthy then io_fail (Err ''previous configuration restored but sing-box is unhealthy'')
       else case listenersFromConfiguration previous of
           Inl e \<Rightarrow> io_fail (Wrap ''previous configuration restored but listener metadata is invalid'' e)
         | Inr previousListeners \<Rightarrow>
             io_try (check_with s (RollbackListenerChecker s) previousListeners) (\<lambda>r. case r of
                 Inl e \<Rightarrow> io_fail (Wrap ''previous configuration restored but listener health failed'' e)
               | Inr _ \<Rightarrow> io_return ())))"

definition rollback :: "'a fs_scheme engine_system \<Rightarrow> string option \<Rightarrow> ('a fs_scheme, unit) io" where
  "rollback s previous = io_bind (restore_file (ConfigPath s) previous) (\<lambda>_.
     if previous = None \<and> StartIfInactive s
     then io_bind (exec (engine_run s) (systemctl ''stop'' s)) (\<lambda>_. io_return ())
     else io_bind (reload_previous s) (\<lambda>_. verify_previous s previous))"

section \<open>Applying a configuration\<close>

text \<open>The error of a failed step, after the attempt to roll back.\<close>

definition undo :: "'a fs_scheme engine_system \<Rightarrow> string option \<Rightarrow> string \<Rightarrow> string \<Rightarrow> error option \<Rightarrow> ('a fs_scheme, unit) io" where
  "undo s previous what rolled cause =
     (let failure = (\<lambda>outcome. case cause of
            None \<Rightarrow> Err (what @ outcome) | Some e \<Rightarrow> Wrap (what @ outcome) e)
      in io_try (rollback s previous) (\<lambda>r. case r of
           Inl _ \<Rightarrow> io_fail (failure ''; rollback failed'')
         | Inr _ \<Rightarrow> io_fail (failure rolled)))"

definition stage :: "string \<Rightarrow> string \<Rightarrow> ('a fs_scheme, unit) io" where
  "stage tmp candidate =
     io_bind fs_nop (\<lambda>_. io_bind (fs_write tmp candidate) (\<lambda>_. io_bind fs_nop (\<lambda>_. fs_nop)))"

text \<open>The file already holds the candidate: nothing to do for a healthy service, a restart otherwise.\<close>

definition reapply :: "'w engine_system \<Rightarrow> listener list \<Rightarrow> ('w, unit) io" where
  "reapply s listeners = io_bind (Healthy s) (\<lambda>healthy.
     io_try (if healthy then ListenersHealthy s listeners else io_fail (Err ''unhealthy'')) (\<lambda>r.
       case r of
         Inr _ \<Rightarrow> io_return ()
       | Inl _ \<Rightarrow>
           io_bind (must (engine_run s) ''restart unhealthy sing-box runtime'' (systemctl ''restart'' s)) (\<lambda>_.
           io_bind (Healthy s) (\<lambda>again.
             if \<not> again then io_fail (Err ''sing-box remained unhealthy after restart'')
             else io_try (check_with s (ListenerChecker s) listeners) (\<lambda>r2. case r2 of
                 Inl e \<Rightarrow> io_fail (Wrap ''sing-box listener health check after restart'' e)
               | Inr _ \<Rightarrow> io_return ())))))"

text \<open>After the reload or start: settle, then the two health checks.\<close>

definition check_started :: "'a fs_scheme engine_system \<Rightarrow> string option \<Rightarrow> string \<Rightarrow> listener list \<Rightarrow> ('a fs_scheme, unit) io" where
  "check_started s previous action listeners = io_bind (Healthy s) (\<lambda>healthy.
     if \<not> healthy
     then undo s previous (''sing-box unhealthy after '' @ action) ''; configuration rolled back'' None
     else io_try (check_with s (ListenerChecker s) listeners) (\<lambda>checked. case checked of
         Inl e \<Rightarrow> undo s previous (''sing-box listener health check failed after '' @ action)
                    ''; configuration rolled back'' (Some e)
       | Inr _ \<Rightarrow> io_return ()))"

definition settle_started :: "'a fs_scheme engine_system \<Rightarrow> string option \<Rightarrow> string \<Rightarrow> listener list \<Rightarrow> ('a fs_scheme, unit) io" where
  "settle_started s previous action listeners = io_try (settle s (commitTimeout s)) (\<lambda>settled. case settled of
      Inl e \<Rightarrow> undo s previous (''wait for '' @ action) ''; configuration rolled back'' (Some e)
    | Inr _ \<Rightarrow> check_started s previous action listeners)"

text \<open>After the directory is synced: a dedicated instance that is not running is started, others reload.\<close>

definition activate :: "'a fs_scheme engine_system \<Rightarrow> string option \<Rightarrow> listener list \<Rightarrow> ('a fs_scheme, unit) io" where
  "activate s previous listeners =
     io_bind (if StartIfInactive s then Healthy s else io_return True) (\<lambda>active.
     let action = (if active then ''reload'' else ''start'')
     in io_bind (exec (engine_run s) (systemctl action s)) (\<lambda>(out, err). case err of
          Some e \<Rightarrow> undo s previous (action @ '' failed'') '' and was rolled back'' (Some e)
        | None \<Rightarrow> settle_started s previous action listeners))"

definition install :: "'a fs_scheme engine_system \<Rightarrow> string \<Rightarrow> string option \<Rightarrow> listener list \<Rightarrow> ('a fs_scheme, unit) io" where
  "install s tmp previous listeners = io_bind (fs_rename tmp (ConfigPath s)) (\<lambda>_.
     io_try syncDirectory (\<lambda>synced. case synced of
         Inl e \<Rightarrow> undo s previous ''sync configuration directory'' ''; configuration rolled back'' (Some e)
       | Inr _ \<Rightarrow> activate s previous listeners))"

definition config_stem :: "'w engine_system \<Rightarrow> string" where
  "config_stem s = path_join (path_dir (ConfigPath s)) ''.sing-box-''"

definition apply_staged :: "'a fs_scheme engine_system \<Rightarrow> string \<Rightarrow> string \<Rightarrow> listener list \<Rightarrow> ('a fs_scheme, unit) io" where
  "apply_staged s tmp candidate listeners =
     io_bind (stage tmp candidate) (\<lambda>_.
     io_bind (must (engine_run s) ''sing-box validation failed'' [Binary s, ''check'', ''-c'', tmp]) (\<lambda>_.
     io_try (fs_read (ConfigPath s)) (\<lambda>previous. case previous of
         Inl e \<Rightarrow> if e = ErrNotExist then install s tmp None listeners else io_fail e
       | Inr content \<Rightarrow>
           if content = candidate then reapply s listeners
           else install s tmp (Some content) listeners)))"

definition Apply :: "'a fs_scheme engine_system \<Rightarrow> string \<Rightarrow> listener list \<Rightarrow> ('a fs_scheme, unit) io" where
  "Apply s candidate listeners =
     io_bind fs_nop (\<lambda>_. io_bind (fs_create_temp (config_stem s)) (\<lambda>tmp.
       io_finally (apply_staged s tmp candidate listeners) (fs_remove tmp)))"

section \<open>The mock\<close>

record mock_engine =
  Configuration :: string

definition Mock_Apply :: "string \<Rightarrow> listener list \<Rightarrow> (mock_engine, unit) io" where
  "Mock_Apply config listeners m = (Inr (), m\<lparr>Configuration := config\<rparr>)"

definition Mock_Healthy :: "(mock_engine, bool) io" where "Mock_Healthy = io_return True"

definition Mock_ListenerStatuses :: "listener list \<Rightarrow> (mock_engine, bool list) io" where
  "Mock_ListenerStatuses listeners = io_return (map (\<lambda>_. True) listeners)"

definition Mock_ListenersHealthy :: "listener list \<Rightarrow> (mock_engine, unit) io" where
  "Mock_ListenersHealthy listeners = io_return ()"

definition Mock_Version :: "(mock_engine, string) io" where "Mock_Version = io_return ''mock''"

section \<open>What a command leaves alone\<close>

text \<open>
  The commands are \<open>sing-box check\<close>, \<open>systemctl\<close> and \<open>ss\<close>, none of which writes the panel's files; the same
  is asked of the injected checks and of waiting.
\<close>

definition quiet :: "'a fs_scheme engine_system \<Rightarrow> bool" where
  "quiet s \<longleftrightarrow> (\<forall>args w. files (snd (engine_run s args w)) = files w) \<and>
     (\<forall>t w. files (snd (settle s t w)) = files w) \<and>
     (\<forall>check ls w. ListenerChecker s = Some check \<or> RollbackListenerChecker s = Some check \<longrightarrow>
        files (snd (check ls w)) = files w)"

definition plain_path :: "'w engine_system \<Rightarrow> bool" where
  "plain_path s \<longleftrightarrow> \<not> has_prefix (ConfigPath s) (config_stem s) \<and>
     \<not> has_prefix (ConfigPath s) (path_join (path_dir (ConfigPath s)) ''.rollback-'')"

text \<open>No file that was there changes, apart from the given ones.\<close>

definition spares :: "string set \<Rightarrow> 'a fs_scheme \<Rightarrow> 'a fs_scheme \<Rightarrow> bool" where
  "spares P w w' \<longleftrightarrow> (\<forall>q. q \<notin> P \<and> files w q \<noteq> None \<longrightarrow> files w' q = files w q)"

text \<open>The content of a file after a replacement: the new one when it succeeded, else the old or the new one.\<close>

definition replaced :: "error + 'b \<Rightarrow> string option \<Rightarrow> string option \<Rightarrow> string option \<Rightarrow> bool" where
  "replaced r old new now \<longleftrightarrow> (if isl r then now = old \<or> now = new else now = new)"

abbreviation holds_files :: "(string \<Rightarrow> string option) \<Rightarrow> 'a fs_scheme \<Rightarrow> bool" where
  "holds_files F w \<equiv> files w = F"

lemmas keeps_steps = keeps_return keeps_fail keeps_bind keeps_try

lemma keeps_files: "keeps (holds_files (files w)) m \<Longrightarrow> m w = (r, w') \<Longrightarrow> files w' = files w"
  using keepsD [of "holds_files (files w)" m w] by simp

lemma quiet_exec: "quiet s \<Longrightarrow> keeps (holds_files F) (exec (engine_run s) args)"
  by (rule keeps_exec) (simp add: quiet_def)

lemma quiet_must: "quiet s \<Longrightarrow> keeps (holds_files F) (must (engine_run s) msg args)"
  by (rule keeps_must) (simp add: quiet_def)

lemma quiet_settle: "quiet s \<Longrightarrow> keeps (holds_files F) (settle s t)"
  by (rule keepsI) (simp add: quiet_def)

lemma quiet_Healthy: "quiet s \<Longrightarrow> keeps (holds_files F) (Healthy s)"
  unfolding Healthy_def by (auto intro!: keeps_steps quiet_exec split: prod.splits)

lemma quiet_ListenersHealthy: "quiet s \<Longrightarrow> keeps (holds_files F) (ListenersHealthy s ls)"
  unfolding ListenersHealthy_def ListenerStatuses_def
  by (auto intro!: keeps_steps quiet_must split: prod.splits)

lemma quiet_wait: "quiet s \<Longrightarrow> keeps (holds_files F) (wait_loop s ls ks)"
  by (induction ks) (auto intro!: keeps_try quiet_ListenersHealthy split: sum.splits wake.splits)

lemma quiet_check:
  "quiet s \<Longrightarrow> checker = ListenerChecker s \<or> checker = RollbackListenerChecker s \<Longrightarrow>
     keeps (holds_files F) (check_with s checker ls)"
  unfolding check_with_def waitForListeners_def
  by (cases checker) (auto intro: quiet_wait keepsI simp: quiet_def)

lemmas quiet_steps = quiet_exec quiet_must quiet_settle quiet_Healthy quiet_ListenersHealthy quiet_check

lemma quiet_reload: "quiet s \<Longrightarrow> keeps (holds_files F) (reload_previous s)"
  unfolding reload_previous_def by (auto intro!: keeps_steps quiet_steps split: option.splits)

lemma quiet_verify: "quiet s \<Longrightarrow> keeps (holds_files F) (verify_previous s previous)"
  unfolding verify_previous_def by (auto intro!: keeps_steps quiet_steps split: sum.splits)

lemma quiet_reapply: "quiet s \<Longrightarrow> keeps (holds_files F) (reapply s ls)"
  unfolding reapply_def by (auto intro!: keeps_steps quiet_steps split: sum.splits)

lemma sync_files: "keeps (holds_files F) syncDirectory"
  unfolding syncDirectory_def by (intro keeps_bind keepsI) simp_all

section \<open>Files after a rollback\<close>

lemma spares_refl [simp]: "spares P w w"
  by (simp add: spares_def)

lemma spares_trans: "spares P w w1 \<Longrightarrow> spares P w1 w2 \<Longrightarrow> spares P w w2"
  by (simp add: spares_def)

lemma spares_same: "files w' = files w \<Longrightarrow> spares P w w'"
  by (simp add: spares_def)

lemma spares_mono: "spares P w w' \<Longrightarrow> P \<subseteq> Q \<Longrightarrow> spares Q w w'"
  by (auto simp: spares_def)

lemma put_temp_outcome:
  assumes "put_temp tmp p c w = (r, w')" and "files w tmp = Some []" and "tmp \<noteq> p"
  shows "(\<forall>q. q \<noteq> tmp \<and> q \<noteq> p \<longrightarrow> files w' q = files w q) \<and>
     files w' p = (if isl r then files w p else Some c)"
proof (cases r)
  case (Inl e)
  then show ?thesis using put_temp_Inl [of tmp p c w e w'] assms by auto
next
  case (Inr u)
  then show ?thesis using put_temp_Inr [of tmp p c w u w'] assms by auto
qed

lemma atomicWrite_outcome:
  assumes "atomicWrite p c w = (r, w')" and "\<not> has_prefix p (path_join (path_dir p) ''.rollback-'')"
  shows "spares {p} w w' \<and> replaced r (files w p) (Some c) (files w' p)"
proof -
  let ?stem = "path_join (path_dir p) ''.rollback-''"
  obtain r1 w1 where c: "fs_create_temp ?stem w = (r1, w1)" by (cases "fs_create_temp ?stem w")
  show ?thesis
  proof (cases r1)
    case (Inl e)
    then have "files w1 = files w" using c fs_create_temp_Inl by blast
    then show ?thesis using assms(1) c Inl by (auto simp: atomicWrite_def io_bind_def spares_def replaced_def)
  next
    case (Inr tmp)
    have t: "files w tmp = None" "has_prefix tmp ?stem" "files w1 = (files w)(tmp \<mapsto> [])"
      using fs_create_temp_Inr c Inr by blast+
    have ne: "tmp \<noteq> p" using t(2) assms(2) by blast
    obtain r2 w2 where p: "put_temp tmp p c w1 = (r2, w2)" by (cases "put_temp tmp p c w1")
    note o2 = put_temp_outcome [OF p _ ne]
    obtain r3 w3 where f: "io_bind (put_temp tmp p c) (\<lambda>_. syncDirectory) w1 = (r3, w3)"
      by (cases "io_bind (put_temp tmp p c) (\<lambda>_. syncDirectory) w1")
    have w3: "files w3 = files w2" and r3: "\<not> isl r3 \<longrightarrow> \<not> isl r2"
      using f p keeps_files [OF sync_files] by (auto simp: io_bind_def split: sum.splits)
    have w': "w' = snd (fs_remove tmp w3)" "r = r3"
      using assms(1) c Inr f by (auto simp: atomicWrite_def io_finally_def)
    have other: "files w' q = files w2 q" if "q \<noteq> tmp" for q
      using fs_remove_other [OF that, of w3] w' w3 by simp
    have o: "\<forall>q. q \<noteq> tmp \<and> q \<noteq> p \<longrightarrow> files w2 q = files w1 q"
      "files w2 p = (if isl r2 then files w1 p else Some c)"
      using o2 t(3) by simp_all
    have "spares {p} w w'" unfolding spares_def
    proof (intro allI impI)
      fix q assume q: "q \<notin> {p} \<and> files w q \<noteq> None"
      then have "q \<noteq> tmp" using t(1) by auto
      then show "files w' q = files w q" using other o(1) t(3) q by simp
    qed
    moreover have "replaced r (files w p) (Some c) (files w' p)"
      using other [OF ne [symmetric]] o(2) r3 w'(2) t(3) ne by (auto simp: replaced_def)
    ultimately show ?thesis ..
  qed
qed

lemma restore_outcome:
  assumes "restore_file p previous w = (r, w')" and "\<not> has_prefix p (path_join (path_dir p) ''.rollback-'')"
  shows "spares {p} w w' \<and> replaced r (files w p) previous (files w' p)"
proof (cases previous)
  case (Some c)
  then show ?thesis using atomicWrite_outcome [OF _ assms(2), of c w r w'] assms(1) by (simp add: restore_file_def)
next
  case None
  obtain r1 w1 where "fs_remove p w = (r1, w1)" by (cases "fs_remove p w")
  then show ?thesis using assms(1) None
    by (auto simp: restore_file_def fs_remove_def attempt_def spares_def replaced_def ErrNotExist_def ErrIO_def
        split: if_splits option.splits)
qed

lemma rollback_outcome:
  assumes "rollback s previous w = (r, w')" and "quiet s" and "plain_path s"
  shows "spares {ConfigPath s} w w' \<and>
     replaced r (files w (ConfigPath s)) previous (files w' (ConfigPath s))"
proof -
  obtain r1 w1 where r1: "restore_file (ConfigPath s) previous w = (r1, w1)"
    by (cases "restore_file (ConfigPath s) previous w")
  have o1: "spares {ConfigPath s} w w1 \<and> 
      replaced r1 (files w (ConfigPath s)) previous (files w1 (ConfigPath s))"
    using restore_outcome [OF r1] assms(3) by (simp add: plain_path_def)
  have rest: "keeps (holds_files F) (if previous = None \<and> StartIfInactive s
     then io_bind (exec (engine_run s) (systemctl ''stop'' s)) (\<lambda>_. io_return ())
     else io_bind (reload_previous s) (\<lambda>_. verify_previous s previous))" for F
    using assms(2) by (auto intro!: keeps_steps quiet_exec quiet_reload quiet_verify)
  show ?thesis
  proof (cases r1)
    case (Inl e)
    then show ?thesis using assms(1) r1 o1 by (auto simp: rollback_def io_bind_def replaced_def)
  next
    case (Inr u)
    then have "files w' = files w1"
      using assms(1) r1 keeps_files [OF rest, of w1 r w'] by (simp add: rollback_def io_bind_def)
    then show ?thesis using o1 Inr by (auto simp: spares_def replaced_def)
  qed
qed

section \<open>All or nothing\<close>

text \<open>The error of a step whose rollback failed as well.\<close>

fun rollback_failed :: "error \<Rightarrow> bool" where
  "rollback_failed (Err m) = has_suffix m ''; rollback failed''"
| "rollback_failed (Wrap m e) = has_suffix m ''; rollback failed''"
| "rollback_failed _ = False"

text \<open>After the rename: success keeps the file, an error restores it or says that it could not.\<close>

definition settled :: "'a fs_scheme engine_system \<Rightarrow> string option \<Rightarrow> 'a fs_scheme \<Rightarrow> error + unit \<Rightarrow> 'a fs_scheme \<Rightarrow> bool" where
  "settled s previous w r w' \<longleftrightarrow> spares {ConfigPath s} w w' \<and>
     (case r of Inr _ \<Rightarrow> files w' (ConfigPath s) = files w (ConfigPath s)
      | Inl e \<Rightarrow> files w' (ConfigPath s) = previous \<or>
          (rollback_failed e \<and> files w' (ConfigPath s) = files w (ConfigPath s)))"

definition safe :: "'a fs_scheme engine_system \<Rightarrow> string option \<Rightarrow> ('a fs_scheme, unit) io \<Rightarrow> bool" where
  "safe s previous m \<longleftrightarrow> (\<forall>w. settled s previous w (fst (m w)) (snd (m w)))"

lemma safeD: "safe s previous m \<Longrightarrow> m w = (r, w') \<Longrightarrow> settled s previous w r w'"
  unfolding safe_def by (metis fst_conv snd_conv)

lemma settled_after: "files w1 = files w \<Longrightarrow> settled s previous w1 r w' \<Longrightarrow> settled s previous w r w'"
  by (cases r) (simp_all add: settled_def spares_def)

lemma safe_return: "safe s previous (io_return ())"
  by (simp add: safe_def settled_def)

lemma safe_try:
  assumes "\<And>F. keeps (holds_files F) m" and "\<And>r. safe s previous (f r)"
  shows "safe s previous (io_try m f)"
  unfolding safe_def
proof
  fix w
  obtain r w1 where m: "m w = (r, w1)" by (cases "m w")
  have "files w1 = files w" by (rule keeps_files [OF assms(1) m])
  moreover have "settled s previous w1 (fst (f r w1)) (snd (f r w1))"
    using assms(2) [of r] by (simp add: safe_def)
  ultimately show "settled s previous w (fst (io_try m f w)) (snd (io_try m f w))"
    using settled_after by (simp add: io_try_def m)
qed

lemma safe_bind:
  assumes "\<And>F. keeps (holds_files F) m" and "total m" and "\<And>x. safe s previous (f x)"
  shows "safe s previous (io_bind m f)"
  unfolding safe_def
proof
  fix w
  obtain r w1 where m: "m w = (r, w1)" by (cases "m w")
  obtain x where x: "r = Inr x" using assms(2) m unfolding total_def by (metis fst_conv sum.disc(1) sum.exhaust)
  have "files w1 = files w" by (rule keeps_files [OF assms(1) m])
  moreover have "settled s previous w1 (fst (f x w1)) (snd (f x w1))"
    using assms(3) [of x] by (simp add: safe_def)
  ultimately show "settled s previous w (fst (io_bind m f w)) (snd (io_bind m f w))"
    using settled_after by (simp add: io_bind_def m x)
qed

lemma safe_undo:
  assumes "quiet s" and "plain_path s"
  shows "safe s previous (undo s previous what rolled cause)"
  unfolding safe_def
proof
  fix w
  obtain r w' where r: "rollback s previous w = (r, w')" by (cases "rollback s previous w")
  have "has_suffix (what @ ''; rollback failed'') ''; rollback failed''" by (simp add: has_suffix_iff)
  then show "settled s previous w (fst (undo s previous what rolled cause w)) (snd (undo s previous what rolled cause w))"
    using rollback_outcome [OF r assms]
    by (cases r; cases cause) (auto simp: undo_def Let_def io_try_def r settled_def replaced_def)
qed

lemma total_Healthy: "total (Healthy s)"
  by (simp add: total_def Healthy_def io_bind_def split: prod.splits)

lemma safe_activate:
  assumes "quiet s" and "plain_path s"
  shows "safe s previous (activate s previous ls)"
proof -
  note undo = safe_undo [OF assms]
  have checked: "safe s previous (case r of
         Inl e \<Rightarrow> undo s previous a b (Some e) | Inr _ \<Rightarrow> io_return ())" for r :: "error + unit" and a b
    by (cases r) (simp_all only: sum.case undo safe_return)
  have health: "safe s previous (check_started s previous act ls)" for act
    unfolding check_started_def
    by (rule safe_bind [OF quiet_Healthy [OF assms(1)] total_Healthy])
      (simp only: if_splits undo safe_try [OF quiet_check checked] assms(1) simp_thms)
  have wait: "safe s previous (settle_started s previous act ls)" for act
    unfolding settle_started_def
    by (rule safe_try [OF quiet_settle [OF assms(1)]]) (simp split: sum.split add: undo health)
  have start: "keeps (holds_files F) (if StartIfInactive s then Healthy s else io_return True)"
    "total (if StartIfInactive s then Healthy s else io_return True)" for F
    using quiet_Healthy [OF assms(1)] by (auto intro: keeps_return total_Healthy total_return)
  show ?thesis
    unfolding activate_def Let_def
    by (rule safe_bind [OF start], rule safe_bind [OF quiet_exec [OF assms(1)] total_exec])
      (simp split: prod.split option.split add: undo wait)
qed

lemma install_outcome:
  assumes "install s tmp previous ls w = (r, w')" and "quiet s" and "plain_path s"
    and "files w tmp = Some cand" and "tmp \<noteq> ConfigPath s" and "files w (ConfigPath s) = previous"
  shows "spares {ConfigPath s, tmp} w w' \<and>
    (case r of Inr _ \<Rightarrow> files w' (ConfigPath s) = Some cand
     | Inl e \<Rightarrow> files w' (ConfigPath s) = previous \<or> (rollback_failed e \<and> files w' (ConfigPath s) = Some cand))"
proof -
  obtain r1 w1 where rn: "fs_rename tmp (ConfigPath s) w = (r1, w1)" by (cases "fs_rename tmp (ConfigPath s) w")
  show ?thesis
  proof (cases r1)
    case (Inl e)
    then have "files w1 = files w" using rn fs_rename_Inl by blast
    then show ?thesis using assms(1,6) rn Inl by (auto simp: install_def io_bind_def spares_same)
  next
    case (Inr u)
    have f: "files w1 = (files w)(tmp := None, ConfigPath s \<mapsto> cand)"
      using fs_rename_Inr [of tmp "ConfigPath s" w u w1] rn Inr assms(4) by auto
    have "safe s previous (io_try syncDirectory (\<lambda>synced. case synced of
         Inl e \<Rightarrow> undo s previous ''sync configuration directory'' ''; configuration rolled back'' (Some e)
       | Inr _ \<Rightarrow> activate s previous ls))"
      by (rule safe_try [OF sync_files])
        (simp split: sum.split add: safe_undo safe_activate assms(2,3))
    then have st: "settled s previous w1 r w'"
      by (rule safeD) (use assms(1) rn Inr in \<open>simp add: install_def io_bind_def\<close>)
    have "spares {ConfigPath s, tmp} w w1" by (auto simp: spares_def f)
    moreover have "spares {ConfigPath s, tmp} w1 w'" using st by (auto simp: settled_def elim: spares_mono)
    ultimately show ?thesis using st f spares_trans by (fastforce simp: settled_def split: sum.splits)
  qed
qed

lemma stage_outcome:
  assumes "stage tmp c w = (r, w')" and "files w tmp = Some []"
  shows "(\<forall>q. q \<noteq> tmp \<longrightarrow> files w' q = files w q) \<and> (\<not> isl r \<longrightarrow> files w' tmp = Some c)"
proof -
  obtain r1 w1 where s1: "fs_nop w = (r1, w1)" by (cases "fs_nop w")
  obtain r2 w2 where s2: "fs_write tmp c w1 = (r2, w2)" by (cases "fs_write tmp c w1")
  obtain r3 w3 where s3: "io_bind fs_nop (\<lambda>_. fs_nop) w2 = (r3, w3)" by (cases "io_bind fs_nop (\<lambda>_. fs_nop) w2")
  have f1: "files w1 = files w" using s1 by (metis fs_nop_files snd_conv)
  have "keeps (holds_files F) (io_bind fs_nop (\<lambda>_. fs_nop))" for F
    by (intro keeps_bind keepsI) simp_all
  then have f3: "files w3 = files w2" using s3 keeps_files by blast
  have other: "files w2 q = files w q" if "q \<noteq> tmp" for q
    using fs_write_other [OF that, of c w1] s2 f1 by simp
  have full: "r2 = Inr u \<Longrightarrow> files w2 tmp = Some c" for u
    using fs_write_Inr [of tmp c w1 u w2] s2 f1 assms(2) by simp
  consider "w' = w1" "isl r" | "w' = w2" "isl r" | u where "w' = w3" "r2 = Inr u"
    using assms(1) s1 s2 s3 by (auto simp: stage_def io_bind_def split: sum.splits)
  then show ?thesis using other full f1 f3 by cases auto
qed

lemma fs_read_Inl: "fs_read p w = (Inl e, w') \<Longrightarrow> files w' = files w \<and> (e = ErrNotExist \<longrightarrow> files w p = None)"
  by (auto simp: fs_read_def attempt_def ErrNotExist_def ErrIO_def split: if_splits option.splits)

lemma staged_outcome:
  assumes "apply_staged s tmp cand ls w = (r, w')" and "quiet s" and "plain_path s"
    and "files w tmp = Some []" and "tmp \<noteq> ConfigPath s"
  shows "spares {ConfigPath s, tmp} w w' \<and>
    (case r of Inr _ \<Rightarrow> files w' (ConfigPath s) = Some cand
     | Inl e \<Rightarrow> files w' (ConfigPath s) = files w (ConfigPath s) \<or>
         (rollback_failed e \<and> files w' (ConfigPath s) = Some cand))"
proof -
  let ?p = "ConfigPath s" and ?check = "must (engine_run s) ''sing-box validation failed'' [Binary s, ''check'', ''-c'', tmp]"
  obtain r1 w1 where s1: "stage tmp cand w = (r1, w1)" by (cases "stage tmp cand w")
  note o1 = stage_outcome [OF s1 assms(4)]
  obtain r2 w2 where s2: "?check w1 = (r2, w2)" by (cases "?check w1")
  have f2: "files w2 = files w1" by (rule keeps_files [OF quiet_must [OF assms(2)] s2])
  obtain r3 w3 where s3: "fs_read ?p w2 = (r3, w3)" by (cases "fs_read ?p w2")
  have f3: "files w3 = files w2" using s3 by (metis fs_read_files snd_conv)
  have same: "files w3 ?p = files w ?p" "files w1 ?p = files w ?p" using o1 f2 f3 assms(5) by simp_all
  have sp: "spares {?p, tmp} w w1" using o1 by (simp add: spares_def)
  have sp3: "spares {?p, tmp} w w3" using sp f2 f3 by (simp add: spares_def)
  consider (fail) e where "r = Inl e" "w' = w1 \<or> w' = w2 \<or> w' = w3"
    | (same) "\<not> isl r1" "r3 = Inr cand" "reapply s ls w3 = (r, w')"
    | (new) prev where "\<not> isl r1" "install s tmp prev ls w3 = (r, w')" "files w ?p = prev"
    using assms(1) s1 s2 s3 fs_read_Inl [of ?p w2 _ w3] fs_read_Inr [of ?p w2 _ w3] f2 o1 assms(5)
    by (auto simp: apply_staged_def io_bind_def split: sum.splits if_splits)
  then show ?thesis
  proof cases
    case fail
    then have "files w' ?p = files w ?p" "spares {?p, tmp} w w'" using sp same f2 f3 by (auto simp: spares_def)
    then show ?thesis using fail(1) by simp
  next
    case same
    have f: "files w' = files w3" by (rule keeps_files [OF quiet_reapply [OF assms(2)] same(3)])
    have "files w3 ?p = Some cand" using fs_read_Inr [of ?p w2 cand w3] s3 same(2) f3 by simp
    then show ?thesis using f sp3 \<open>files w3 ?p = files w ?p\<close> by (cases r) (auto simp: spares_def)
  next
    case new
    have "files w3 tmp = Some cand" using o1 new(1) f2 f3 by simp
    from install_outcome [OF new(2) assms(2,3) this assms(5)] new(3) same(1)
    show ?thesis using spares_trans [OF sp3] by (auto split: sum.splits)
  qed
qed

lemma apply_outcome:
  assumes "Apply s cand ls w = (r, w')" and "quiet s" and "plain_path s"
  shows "spares {ConfigPath s} w w' \<and>
    (case r of Inr _ \<Rightarrow> files w' (ConfigPath s) = Some cand
     | Inl e \<Rightarrow> files w' (ConfigPath s) = files w (ConfigPath s) \<or>
         (rollback_failed e \<and> files w' (ConfigPath s) = Some cand))"
proof -
  let ?p = "ConfigPath s"
  define good where "good = (\<lambda>(r :: error + unit) now. case r of Inr _ \<Rightarrow> now = Some cand
     | Inl e \<Rightarrow> now = files w ?p \<or> (rollback_failed e \<and> now = Some cand))"
  have bad: "good (Inl e) (files w ?p)" for e :: error by (simp add: good_def)
  obtain r0 w0 where n: "fs_nop w = (r0, w0)" by (cases "fs_nop w")
  have w0: "files w0 = files w" using n by (metis fs_nop_files snd_conv)
  obtain r1 w1 where c: "fs_create_temp (config_stem s) w0 = (r1, w1)" by (cases "fs_create_temp (config_stem s) w0")
  have "spares {?p} w w' \<and> good r (files w' ?p)"
  proof (cases "isl r0 \<or> isl r1")
    case True
    then have "files w' = files w" "isl r"
      using assms(1) n c w0 fs_create_temp_Inl [of "config_stem s" w0 _ w1]
      by (auto simp: Apply_def io_bind_def split: sum.splits)
    then show ?thesis using bad by (cases r) (auto simp: spares_same)
  next
    case False
    then obtain tmp where t0: "r1 = Inr tmp" by (cases r1) auto
    have t: "files w tmp = None" "has_prefix tmp (config_stem s)" "files w1 = (files w)(tmp \<mapsto> [])"
      using fs_create_temp_Inr [of "config_stem s" w0 tmp w1] c t0 w0 by auto
    have ne: "tmp \<noteq> ?p" using t(2) assms(3) by (auto simp: plain_path_def)
    obtain r2 w2 where a: "apply_staged s tmp cand ls w1 = (r2, w2)" by (cases "apply_staged s tmp cand ls w1")
    have w': "r = r2" "w' = snd (fs_remove tmp w2)"
      using assms(1) n c t0 a False by (cases r0; auto simp: Apply_def io_finally_def)+
    have "spares {?p, tmp} w1 w2 \<and> good r2 (files w2 ?p)"
      using staged_outcome [OF a assms(2,3) _ ne] t ne by (cases r2) (simp_all add: good_def)
    then have s2: "spares {?p, tmp} w1 w2" and g2: "good r2 (files w2 ?p)" by simp_all
    have "files w' q = files w2 q" if "q \<noteq> tmp" for q using fs_remove_other [OF that, of w2] w' by simp
    then have now: "files w' q = (if q = tmp then files w' q else files w2 q)" for q by simp
    have "spares {?p} w w'"
      unfolding spares_def
    proof (intro allI impI)
      fix q assume q: "q \<notin> {?p} \<and> files w q \<noteq> None"
      then have "q \<noteq> tmp" using t(1) by auto
      then show "files w' q = files w q" using s2 q t(3) now [of q] by (simp add: spares_def)
    qed
    then show ?thesis using g2 ne w' now [of ?p] by simp
  qed
  then show ?thesis by (simp add: good_def)
qed

text \<open>C1: Applying a configuration is all or nothing on the live file, whatever call fails: after success it
  holds the candidate, after an error its old content, unless the error says that the rollback failed
  and the candidate is still there; and no other file that existed is changed.\<close>

theorem apply_all_or_nothing:
  assumes "Apply s cand ls w = (r, w')" and "quiet s" and "plain_path s"
  shows "spares {ConfigPath s} w w' \<and>
    (case r of Inr _ \<Rightarrow> files w' (ConfigPath s) = Some cand
     | Inl e \<Rightarrow> files w' (ConfigPath s) = files w (ConfigPath s) \<or>
         (rollback_failed e \<and> files w' (ConfigPath s) = Some cand))"
  by (rule apply_outcome [OF assms])

text \<open>A reload that fails on every configuration, with a restart that works.\<close>

definition demo_engine :: "fs engine_system" where
  "demo_engine = \<lparr>Binary = ''sing-box'', ConfigPath = ''/etc/j-ui/c.json'', ServiceUnit = [], StartIfInactive = False,
     engine_run = (\<lambda>args w. (([], if args = [''systemctl'', ''reload'', ''j-ui-sing-box.service'']
       then Some (Err ''exit status 1'') else None), w)),
     ListenerChecker = Some (\<lambda>_. io_return ()), RollbackListenerChecker = Some (\<lambda>_. io_return ()),
     CommitTimeout = 0, RollbackTimeout = 0, settle = (\<lambda>_. io_return ()), wakes = []\<rparr>"

definition demo_engine_fs :: fs where
  "demo_engine_fs = \<lparr>files = [''/etc/j-ui/c.json'' \<mapsto> ''{}''], faulty = (\<lambda>_. False), torn = (\<lambda>_. 0),
     calls = 0, random = [''1.json'', ''2'']\<rparr>"

lemma demo_engine_quiet: "quiet demo_engine" and demo_engine_plain: "plain_path demo_engine"
proof -
  show "quiet demo_engine" by (auto simp: quiet_def demo_engine_def)
  show "plain_path demo_engine" by code_simp
qed

theorem apply_all_or_nothing_witness:
  "files (snd (Apply demo_engine ''{ }'' [] demo_engine_fs)) ''/etc/j-ui/c.json'' = Some ''{}''"
proof -
  let ?a = "Apply demo_engine ''{ }'' [] demo_engine_fs"
  have e: "(case fst ?a of Inl e \<Rightarrow> \<not> rollback_failed e | Inr _ \<Rightarrow> False)" by code_simp
  have c: "ConfigPath demo_engine = ''/etc/j-ui/c.json''" "files demo_engine_fs ''/etc/j-ui/c.json'' = Some ''{}''"
    by (simp_all add: demo_engine_def demo_engine_fs_def)
  show ?thesis
    using apply_all_or_nothing [of demo_engine "''{ }''" "[]" demo_engine_fs "fst ?a" "snd ?a",
        OF _ demo_engine_quiet demo_engine_plain] e
    by (auto simp: c split: sum.splits)
qed

section \<open>What was verified\<close>

text \<open>What a successful call has seen: a healthy service, then healthy listeners.\<close>

definition saw_healthy :: "'w engine_system \<Rightarrow> listener list \<Rightarrow> 'w \<Rightarrow> bool" where
  "saw_healthy s ls w' \<longleftrightarrow> (\<exists>w1 w2. Healthy s w1 = (Inr True, w2) \<and>
     (check_with s (ListenerChecker s) ls w2 = (Inr (), w') \<or> ListenersHealthy s ls w2 = (Inr (), w')))"

lemma check_started_Inr:
  "check_started s previous act ls w = (Inr u, w') \<Longrightarrow>
     saw_healthy s ls w'"
  unfolding saw_healthy_def
  by (auto simp: check_started_def undo_def Let_def io_try_def elim!: io_bind_InrE
      split: if_splits prod.splits sum.splits option.splits) blast+

lemma undo_Inl: "undo s previous what rolled cause w \<noteq> (Inr u, w')"
  by (auto simp: undo_def Let_def io_try_def split: prod.splits sum.splits option.splits)

lemma install_Inr: "install s tmp previous ls w = (Inr u, w') \<Longrightarrow> saw_healthy s ls w'"
  unfolding install_def activate_def settle_started_def Let_def
  by (auto elim!: io_bind_InrE simp: undo_Inl io_try_def
      split: prod.splits sum.splits option.splits) (rule check_started_Inr, assumption)

lemma reapply_Inr: "reapply s ls w = (Inr u, w') \<Longrightarrow> saw_healthy s ls w'"
  unfolding reapply_def saw_healthy_def
  by (auto elim!: io_bind_InrE simp: io_try_def split: prod.splits sum.splits if_splits) blast+

text \<open>A configuration is reported as applied only after the service was seen active and every listener was
  seen bound by it, and nothing but the removal of the temporary file happens after that.\<close>

theorem apply_success_verified:
  assumes "Apply s cand ls w = (Inr u, w')"
  shows "\<exists>tmp w1. saw_healthy s ls w1 \<and> w' = snd (fs_remove tmp w1)"
proof -
  obtain tmp w0 w1 where "apply_staged s tmp cand ls w0 = (Inr u, w1)" "w' = snd (fs_remove tmp w1)"
    using assms by (auto simp: Apply_def io_finally_def elim!: io_bind_InrE split: prod.splits)
  moreover from this(1) have "saw_healthy s ls w1"
    unfolding apply_staged_def
    by (auto elim!: io_bind_InrE intro: install_Inr reapply_Inr simp: io_try_def split: prod.splits sum.splits if_splits)
  ultimately show ?thesis by blast
qed

text \<open>C33: A rollback to an earlier configuration is reported as successful only when the old file is back,
  the service runs, and the listeners that the old file itself declares were all checked.\<close>

theorem rollback_verified:
  assumes "rollback s (Some old) w = (Inr u, w')" and "quiet s" and "plain_path s"
  shows "files w' (ConfigPath s) = Some old \<and>
    (\<exists>ls w1 w2. listenersFromConfiguration (Some old) = Inr ls \<and> Healthy s w1 = (Inr True, w2) \<and>
       check_with s (RollbackListenerChecker s) ls w2 = (Inr (), w'))"
proof -
  have "files w' (ConfigPath s) = Some old"
    using rollback_outcome [OF assms] by (simp add: replaced_def)
  moreover obtain w0 where "verify_previous s (Some old) w0 = (Inr u, w')"
    using assms(1) by (auto simp: rollback_def elim!: io_bind_InrE)
  then have "\<exists>ls w1 w2. listenersFromConfiguration (Some old) = Inr ls \<and> Healthy s w1 = (Inr True, w2) \<and>
       check_with s (RollbackListenerChecker s) ls w2 = (Inr (), w')"
    unfolding verify_previous_def
    by (auto elim!: io_bind_InrE simp: io_try_def split: prod.splits sum.splits if_splits) blast+
  ultimately show ?thesis ..
qed

text \<open>The same host where the reload works.\<close>

definition demo_engine_ok :: "fs engine_system" where
  "demo_engine_ok = demo_engine\<lparr>engine_run := (\<lambda>args w. (([], None), w))\<rparr>"

lemma demo_engine_ok_quiet: "quiet demo_engine_ok" and demo_engine_ok_plain: "plain_path demo_engine_ok"
proof -
  show "quiet demo_engine_ok" by (auto simp: quiet_def demo_engine_ok_def demo_engine_def)
  show "plain_path demo_engine_ok" by code_simp
qed

theorem apply_success_verified_witness:
  "\<exists>tmp w1. saw_healthy demo_engine_ok [] w1 \<and>
     snd (Apply demo_engine_ok ''{ }'' [] demo_engine_fs) = snd (fs_remove tmp w1)"
proof -
  have "fst (Apply demo_engine_ok ''{ }'' [] demo_engine_fs) = Inr ()" by code_simp
  then have "Apply demo_engine_ok ''{ }'' [] demo_engine_fs = (Inr (), snd (Apply demo_engine_ok ''{ }'' [] demo_engine_fs))"
    by (simp add: prod_eq_iff)
  from apply_success_verified [OF this] show ?thesis .
qed

theorem rollback_verified_witness:
  "files (snd (rollback demo_engine_ok (Some ''{}'') demo_engine_fs)) ''/etc/j-ui/c.json'' = Some ''{}''"
proof -
  have "fst (rollback demo_engine_ok (Some ''{}'') demo_engine_fs) = Inr ()" by code_simp
  then have "rollback demo_engine_ok (Some ''{}'') demo_engine_fs = (Inr (), snd (rollback demo_engine_ok (Some ''{}'') demo_engine_fs))"
    by (simp add: prod_eq_iff)
  moreover have "ConfigPath demo_engine_ok = ''/etc/j-ui/c.json''" by (simp add: demo_engine_ok_def demo_engine_def)
  ultimately show ?thesis using rollback_verified [OF _ demo_engine_ok_quiet demo_engine_ok_plain] by metis
qed

section \<open>The owner of a socket\<close>

lemma index_of_least: "index_of s sub = Some i \<Longrightarrow> s = a @ sub @ b \<Longrightarrow> i \<le> length a"
proof (induction a arbitrary: s i)
  case Nil
  then have pre: "has_prefix s sub" by simp
  show ?case
  proof (cases s)
    case (Cons c t)
    then show ?thesis using pre Nil.prems(1) by simp
  qed (use Nil in auto)
next
  case (Cons x a)
  then show ?case by (auto split: if_splits)
qed

text \<open>A process id in a line of \<open>ss\<close>: a maximal run of digits after \<open>pid=\<close>.\<close>

definition pid_at :: "string \<Rightarrow> string \<Rightarrow> int \<Rightarrow> bool" where
  "pid_at before rest expected \<longleftrightarrow> (\<exists>ds r. rest = ds @ r \<and> ds \<noteq> [] \<and> list_all is_digit ds \<and>
     (r = [] \<or> \<not> is_digit (hd r)) \<and> atoi ds = (expected, None))"

lemma pid_at_head:
  "pid_at a rest p \<longleftrightarrow> takeWhile is_digit rest \<noteq> [] \<and> atoi (takeWhile is_digit rest) = (p, None)"
proof
  assume "pid_at a rest p"
  then obtain ds r where d: "rest = ds @ r" "ds \<noteq> []" "list_all is_digit ds" "r = [] \<or> \<not> is_digit (hd r)" "atoi ds = (p, None)"
    by (auto simp: pid_at_def)
  have "takeWhile is_digit rest = ds"
    using d(1,3,4) by (cases r) (simp_all add: takeWhile_append2 list_all_iff)
  then show "takeWhile is_digit rest \<noteq> [] \<and> atoi (takeWhile is_digit rest) = (p, None)" using d by simp
next
  assume h: "takeWhile is_digit rest \<noteq> [] \<and> atoi (takeWhile is_digit rest) = (p, None)"
  have "dropWhile is_digit rest = [] \<or> \<not> is_digit (hd (dropWhile is_digit rest))" using hd_dropWhile by blast
  with h show "pid_at a rest p"
    unfolding pid_at_def
    by (intro exI [of _ "takeWhile is_digit rest"] exI [of _ "dropWhile is_digit rest"])
      (auto simp: list_all_iff dest: set_takeWhileD)
qed

text \<open>The scan of a line of \<open>ss\<close> finds exactly the process ids in it: it says yes when and only when
  \<open>pid=\<close> followed by the number, and by no further digit, stands somewhere in the line.\<close>

theorem socketOwnedByPID_exact:
  "socketOwnedByPID line expected \<longleftrightarrow> (\<exists>before rest. line = before @ ''pid='' @ rest \<and> pid_at before rest expected)"
proof (induction line expected rule: socketOwnedByPID.induct)
  case (1 line expected)
  show ?case
  proof (cases "index_of line ''pid=''")
    case None
    then have "\<not> contains line ''pid=''" by (simp add: contains_def)
    then show ?thesis using None by (auto simp: socketOwnedByPID.simps [of line] contains_iff)
  next
    case (Some i)
    obtain a0 rest where l: "line = a0 @ ''pid='' @ rest" "length a0 = i" using index_of_Some [OF Some] by blast
    have rest: "drop (i + 4) line = rest" using l by simp
    let ?after = "dropWhile is_digit rest"
    have step: "socketOwnedByPID line expected \<longleftrightarrow> pid_at a0 rest expected \<or> socketOwnedByPID ?after expected"
      by (simp add: socketOwnedByPID.simps [of line] Some rest Let_def pid_at_head)
    have IH: "\<not> pid_at a0 rest expected \<Longrightarrow> socketOwnedByPID ?after expected \<longleftrightarrow>
        (\<exists>before r. ?after = before @ ''pid='' @ r \<and> pid_at before r expected)"
      using 1 [OF Some refl refl] rest by (simp add: pid_at_head)
    show ?thesis
    proof
      assume "socketOwnedByPID line expected"
      then consider "pid_at a0 rest expected"
        | b r where "?after = b @ ''pid='' @ r" "pid_at b r expected" using step IH by blast
      then show "\<exists>before rest. line = before @ ''pid='' @ rest \<and> pid_at before rest expected"
      proof cases
        case 1
        then show ?thesis using l by blast
      next
        case (2 b r)
        have "line = (a0 @ ''pid='' @ takeWhile is_digit rest @ b) @ ''pid='' @ r"
          using l 2(1) takeWhile_dropWhile_id [of is_digit rest] by (metis append.assoc)
        moreover have "pid_at (a0 @ ''pid='' @ takeWhile is_digit rest @ b) r expected" using 2(2) by (simp add: pid_at_def)
        ultimately show ?thesis by blast
      qed
    next
      assume "\<exists>before rest. line = before @ ''pid='' @ rest \<and> pid_at before rest expected"
      then obtain a r where a: "line = a @ ''pid='' @ r" "pid_at a r expected" by blast
      have "length a0 \<le> length a" using index_of_least [OF Some a(1)] l(2) by simp
      then obtain us where us: "a = a0 @ us" using a(1) l(1) by (metis append_eq_append_conv_if append_take_drop_id)
      have eq: "''pid='' @ rest = us @ ''pid='' @ r" using a(1) l(1) us by simp
      show "socketOwnedByPID line expected"
      proof (cases us)
        case Nil
        then show ?thesis using a(2) eq step by (simp add: pid_at_def)
      next
        case (Cons x xs)
        then obtain vs where v: "rest = vs @ ''pid='' @ r" using eq by (auto simp: Cons_eq_append_conv)
        have "\<not> is_digit (CHR ''p'')" by code_simp
        then have "?after = dropWhile is_digit vs @ ''pid='' @ r" by (simp add: v dropWhile_append)
        then show ?thesis using a(2) step IH by (auto simp: pid_at_def)
      qed
    qed
  qed
qed

section \<open>Waiting for the listeners\<close>

fun checked_times :: "'w engine_system \<Rightarrow> listener list \<Rightarrow> nat \<Rightarrow> 'w \<Rightarrow> 'w" where
  "checked_times s ls 0 w = w"
| "checked_times s ls (Suc n) w = checked_times s ls n (snd (ListenersHealthy s ls w))"

text \<open>The wait returns successfully as soon as one check succeeds: when the first \<open>n\<close> wake-ups are ticks and
  the check after them finds the listeners healthy, the wait reports success, whatever came before.\<close>

theorem wait_reports_recovery:
  assumes "n \<le> length ks" and "list_all (\<lambda>k. k = Tick) (take n ks)"
    and "fst (ListenersHealthy s ls (checked_times s ls n w)) = Inr ()"
  shows "fst (wait_loop s ls ks w) = Inr ()"
  using assms
proof (induction n arbitrary: ks w)
  case 0
  then show ?case by (cases ks) (auto simp: io_try_def split: prod.splits)
next
  case (Suc n)
  then obtain ks' where ks: "ks = Tick # ks'" by (cases ks) auto
  obtain r w1 where c: "ListenersHealthy s ls w = (r, w1)" by (cases "ListenersHealthy s ls w")
  have "fst (wait_loop s ls ks' w1) = Inr ()" using Suc.prems ks c by (intro Suc.IH) auto
  then show ?case by (cases r) (simp_all add: ks c io_try_def)
qed

text \<open>A service whose socket shows up in the second listing.\<close>

definition demo_wait :: "nat engine_system" where
  "demo_wait = \<lparr>Binary = ''sing-box'', ConfigPath = ''c'', ServiceUnit = [], StartIfInactive = False,
     engine_run = (\<lambda>args n. (if args = [''ss'', ''-H'', ''-ltnup'']
       then (if n < 3 then [] else ''tcp LISTEN 0 9 10.0.0.1:443 0.0.0.0:* pid=12'', None) else (''12'', None), Suc n)),
     ListenerChecker = None, RollbackListenerChecker = None, CommitTimeout = 0, RollbackTimeout = 0,
     settle = (\<lambda>_. io_return ()), wakes = [Tick, Tick, Deadline]\<rparr>"

theorem wait_reports_recovery_witness:
  "fst (wait_loop demo_wait [\<lparr>Network = ''tcp'', Host = ''10.0.0.1'', LPort = 443\<rparr>] [Tick, Tick, Deadline] 0) = Inr ()"
  by (rule wait_reports_recovery [of 1]) code_simp+

section \<open>The interface of an engine\<close>

text \<open>
  What the panel relies on: a configuration that is accepted is the live one, and a refused one leaves
  the live one or itself. \<open>sound\<close> is what the environment must provide.
\<close>

locale engine =
  fixes sound :: bool
    and apply_config :: "string \<Rightarrow> listener list \<Rightarrow> ('w, unit) io"
    and live :: "'w \<Rightarrow> string option"
  assumes applied: "sound \<Longrightarrow> apply_config c ls w = (Inr u, w') \<Longrightarrow> live w' = Some c"
    and refused: "sound \<Longrightarrow> apply_config c ls w = (Inl e, w') \<Longrightarrow> live w' = live w \<or> live w' = Some c"
begin

lemma live_after:
  assumes sound
  shows "live (snd (io_each (\<lambda>(c, ls). apply_config c ls) cs w)) \<in> insert (live w) ((\<lambda>(c, ls). Some c) ` set cs)"
proof (induction cs arbitrary: w)
  case (Cons x cs)
  obtain c ls where x: "x = (c, ls)" by (cases x)
  obtain r w1 where a: "apply_config c ls w = (r, w1)" by (cases "apply_config c ls w")
  show ?case
  proof (cases r)
    case (Inl e)
    then show ?thesis using refused [OF assms, of c ls w e w1] a by (auto simp: x)
  next
    case (Inr u)
    then show ?thesis using applied [OF assms, of c ls w u w1] a Cons.IH [of w1] by (auto simp: x)
  qed
qed simp

lemma last_applied:
  assumes sound and "io_each (\<lambda>(c, ls). apply_config c ls) (cs @ [(c, ls)]) w = (Inr u, w')"
  shows "live w' = Some c"
  using assms(2)
proof (induction cs arbitrary: w)
  case Nil
  then show ?case using applied [OF assms(1)] by (auto elim!: io_bind_InrE)
next
  case (Cons x cs)
  then show ?case by (auto elim!: io_bind_InrE)
qed

end

interpretation system_engine: engine "quiet s \<and> plain_path s" "Apply s" "\<lambda>w. files w (ConfigPath s)"
  for s :: "'a fs_scheme engine_system"
proof
  fix c ls w u w'
  assume s: "quiet s \<and> plain_path s" and a: "Apply s c ls w = (Inr u, w')"
  show "files w' (ConfigPath s) = Some c" using apply_outcome [OF a] s by simp
next
  fix c ls w e w'
  assume s: "quiet s \<and> plain_path s" and a: "Apply s c ls w = (Inl e, w')"
  show "files w' (ConfigPath s) = files w (ConfigPath s) \<or> files w' (ConfigPath s) = Some c"
    using apply_outcome [OF a] s by auto
qed

interpretation mock_engine: engine True Mock_Apply "\<lambda>m. Some (Configuration m)"
  by unfold_locales (auto simp: Mock_Apply_def)

text \<open>Through any sequence of applications, with failures wherever they occur, the live configuration is the
  initial one or one of the generated candidates in full: never a truncated or foreign file.\<close>

theorem live_configuration_known:
  assumes "quiet s" and "plain_path s"
  shows "files (snd (io_each (\<lambda>(c, ls). Apply s c ls) cs w)) (ConfigPath s)
    \<in> insert (files w (ConfigPath s)) ((\<lambda>(c, ls). Some c) ` set cs)"
  using system_engine.live_after assms by blast

theorem live_configuration_known_witness:
  "files (snd (io_each (\<lambda>(c, ls). Apply demo_engine c ls) [(''{ }'', []), (''[]'', [])] demo_engine_fs)) ''/etc/j-ui/c.json''
     \<in> {Some ''{}'', Some ''{ }'', Some ''[]''}"
  using live_configuration_known [OF demo_engine_quiet demo_engine_plain, of "[(''{ }'', []), (''[]'', [])]" demo_engine_fs]
  by (simp add: demo_engine_def demo_engine_fs_def)

end
