(* ===== verification/SocksBridge.thy ===== *)
theory SocksBridge
  imports GoJson GoFiles GoNet
begin

text \<open>
  \<open>internal/socksbridge/server.go\<close>: the SOCKS5 server through which a node reaches a VPNGate exit. A
  connection is the bytes the client sends, the writes made to it, which of them fail, and the
  targets dialed; what follows a successful reply, the two copies of the byte stream, is not modelled.
  The resolver and the dialer are parameters. The accept loop with its limit and shutdown is a transition
  system whose steps are the code's critical sections. Bytes are characters, as in a Go string.
\<close>

section \<open>Configuration file\<close>

record bridge_config =
  Listen :: string
  Username :: string
  Password :: string
  MaxConnections :: int

definition encode_bridge :: "bridge_config \<Rightarrow> string" where
  "encode_bridge c = json_print (JObj [(''listen'', JStr (Listen c)), (''username'', JStr (Username c)),
     (''password'', JStr (Password c)), (''maxConnections'', JInt (MaxConnections c))])"

definition decode_bridge :: "string \<Rightarrow> error + bridge_config" where
  "decode_bridge content = (case json_parse content of
      Some (JObj ob) \<Rightarrow>
        (case (field_string ob ''listen'', field_string ob ''username'', field_string ob ''password'',
               field_int ob ''maxConnections'') of
           (Inr l, Inr u, Inr p, Inr m) \<Rightarrow>
             Inr \<lparr>Listen = l, Username = u, Password = p, MaxConnections = m\<rparr>
         | _ \<Rightarrow> Inl (Err ''json: cannot unmarshal''))
    | Some JNull \<Rightarrow> Inr \<lparr>Listen = [], Username = [], Password = [], MaxConnections = 0\<rparr>
    | _ \<Rightarrow> Inl (Err ''json: invalid document''))"

definition check_config :: "bridge_config \<Rightarrow> error + bridge_config" where
  "check_config c = (case split_host_port (Listen c) of
      None \<Rightarrow> Inl (Err ''SOCKS bridge listen address must use IPv4 and include a port'')
    | Some (host, portText) \<Rightarrow>
        if \<not> is_ipv4 host then Inl (Err ''SOCKS bridge listen address must use IPv4 and include a port'')
        else (case atoi portText of (portn, err) \<Rightarrow>
          if err \<noteq> None \<or> portn < 1 \<or> portn > 65535 then Inl (Err ''SOCKS bridge listen port is invalid'')
          else if Username c = [] \<or> Password c = [] \<or> length (Username c) > 255 \<or> length (Password c) > 255
          then Inl (Err ''SOCKS bridge requires valid username and password'')
          else Inr (if MaxConnections c < 1 \<or> MaxConnections c > 4096
                    then c\<lparr>MaxConnections := 128\<rparr> else c)))"

text \<open>\<open>stat\<close> is the result of \<open>os.Stat\<close>: the permission bits or an error.\<close>

definition LoadConfig :: "error + nat \<Rightarrow> string \<Rightarrow> ('a fs_scheme, bridge_config) io" where
  "LoadConfig stat p = (case stat of
      Inl e \<Rightarrow> io_fail e
    | Inr mode \<Rightarrow>
        if mode mod 64 \<noteq> 0
        then io_fail (Err ''SOCKS bridge config must not be accessible by group or other users'')
        else io_bind (fs_read p) (\<lambda>content. case decode_bridge content of
            Inl e \<Rightarrow> io_fail e
          | Inr c \<Rightarrow> (case check_config c of Inl e \<Rightarrow> io_fail e | Inr c' \<Rightarrow> io_return c')))"

definition WriteConfig :: "string \<Rightarrow> bridge_config \<Rightarrow> ('a fs_scheme, unit) io" where
  "WriteConfig p c =
     io_bind (fs_write_file (p @ ''.tmp'') (encode_bridge c)) (\<lambda>_.
     io_bind fs_nop (\<lambda>_.
     io_try (fs_rename (p @ ''.tmp'') p) (\<lambda>r. case r of
         Inl e \<Rightarrow> io_fail (Wrap ''activate SOCKS bridge config'' e)
       | Inr _ \<Rightarrow> io_return ())))"

section \<open>A connection\<close>

record conn =
  incoming :: string
  sent :: "string list"
  down :: "nat \<Rightarrow> bool"
  dialed :: "string list"

text \<open>\<open>io.ReadFull\<close>: all the bytes or an error, with what was there consumed. A write may fail.\<close>

definition read_full :: "nat \<Rightarrow> (conn, string) io" where
  "read_full n c = (if length (incoming c) < n then (Inl (Err ''unexpected EOF''), c\<lparr>incoming := []\<rparr>)
     else (Inr (take n (incoming c)), c\<lparr>incoming := drop n (incoming c)\<rparr>))"

definition send :: "string \<Rightarrow> (conn, unit) io" where
  "send bs c = (if down c (length (sent c)) then (Inl (Err ''broken pipe''), c\<lparr>sent := sent c @ [[]]\<rparr>)
     else (Inr (), c\<lparr>sent := sent c @ [bs]\<rparr>))"

definition socksReply :: "nat \<Rightarrow> string" where
  "socksReply code = map byte_of [5, code, 0, 1, 0, 0, 0, 0, 0, 0]"

text \<open>Read or fail with a given message.\<close>

definition read_or :: "nat \<Rightarrow> (string \<Rightarrow> bool) \<Rightarrow> string \<Rightarrow> (conn, string) io" where
  "read_or n good msg = io_try (read_full n) (\<lambda>r. case r of
      Inr bs \<Rightarrow> if good bs then io_return bs else io_fail (Err msg)
    | Inl e \<Rightarrow> io_fail (Err msg))"

definition authenticate :: "bridge_config \<Rightarrow> (conn, unit) io" where
  "authenticate cfg =
     io_bind (read_or 2 (\<lambda>h. byte (h ! 0) = 1) ''invalid RFC 1929 authentication request'') (\<lambda>header.
     io_bind (read_full (byte (header ! 1))) (\<lambda>username.
     io_bind (read_full 1) (\<lambda>len.
     io_bind (read_full (byte (len ! 0))) (\<lambda>password.
       if username = Username cfg \<and> password = Password cfg then io_return ()
       else io_fail (Err ''SOCKS5 credentials rejected'')))))"

definition read_port :: "string \<Rightarrow> (conn, string) io" where
  "read_port host = io_bind (read_full 2) (\<lambda>bs.
     let portn = 256 * byte (bs ! 0) + byte (bs ! 1)
     in if portn = 0 then io_fail (Err ''invalid target port'')
        else io_return (join_host_port host (itoa (int portn))))"

definition readTarget :: "(string \<Rightarrow> error + string list) \<Rightarrow> (conn, string) io" where
  "readTarget lookup = io_bind (read_full 4) (\<lambda>header.
     if byte (header ! 0) \<noteq> 5 \<or> byte (header ! 1) \<noteq> 1
     then io_fail (Err ''only SOCKS5 CONNECT is supported'')
     else if byte (header ! 3) = 1
     then io_bind (read_full 4) (\<lambda>address. read_port (dotted (map byte address)))
     else if byte (header ! 3) = 3
     then io_bind (read_or 1 (\<lambda>l. byte (l ! 0) \<noteq> 0) ''invalid SOCKS5 hostname'') (\<lambda>len.
          io_bind (read_full (byte (len ! 0))) (\<lambda>name.
            case lookup name of
              Inl e \<Rightarrow> io_fail (Err ''SOCKS5 hostname has no IPv4 address'')
            | Inr [] \<Rightarrow> io_fail (Err ''SOCKS5 hostname has no IPv4 address'')
            | Inr (a # _) \<Rightarrow> read_port a))
     else if byte (header ! 3) = 4
     then io_fail (Err ''IPv6 targets are blocked by the VPNGate bridge'')
     else io_fail (Err ''invalid SOCKS5 address type''))"

text \<open>On an error, one best-effort write, then the error.\<close>

definition refuse :: "string \<Rightarrow> error \<Rightarrow> (conn, 'a) io" where
  "refuse reply e = io_try (send reply) (\<lambda>_. io_fail e)"

definition dial_target :: "(string \<Rightarrow> error option) \<Rightarrow> string \<Rightarrow> (conn, unit) io" where
  "dial_target dial target c =
     (case dial target of None \<Rightarrow> Inr () | Some e \<Rightarrow> Inl e, c\<lparr>dialed := dialed c @ [target]\<rparr>)"

definition connect_phase :: "(string \<Rightarrow> error + string list) \<Rightarrow> (string \<Rightarrow> error option) \<Rightarrow> (conn, unit) io" where
  "connect_phase lookup dial =
     io_try (readTarget lookup) (\<lambda>r. case r of
       Inl e \<Rightarrow> refuse (socksReply 8) e
     | Inr target \<Rightarrow> io_try (dial_target dial target) (\<lambda>up. case up of
         Inl e \<Rightarrow> refuse (socksReply 5) e
       | Inr _ \<Rightarrow> send (socksReply 0)))"

definition auth_phase :: "bridge_config \<Rightarrow> (conn, unit) io" where
  "auth_phase cfg =
     io_bind (read_or 2 (\<lambda>h. byte (h ! 0) = 5 \<and> byte (h ! 1) \<noteq> 0) ''invalid SOCKS5 greeting'') (\<lambda>header.
     io_bind (read_full (byte (header ! 1))) (\<lambda>methods.
       if byte_of 2 \<notin> set methods
       then refuse (map byte_of [5, 255]) (Err ''SOCKS5 client did not offer username/password authentication'')
       else io_bind (send (map byte_of [5, 2])) (\<lambda>_.
            io_try (authenticate cfg) (\<lambda>r. case r of
              Inl e \<Rightarrow> refuse (map byte_of [1, 1]) e
            | Inr _ \<Rightarrow> send (map byte_of [1, 0])))))"

definition handle :: "bridge_config \<Rightarrow> (string \<Rightarrow> error + string list) \<Rightarrow> (string \<Rightarrow> error option) \<Rightarrow> (conn, unit) io" where
  "handle cfg lookup dial = io_bind (auth_phase cfg) (\<lambda>_. connect_phase lookup dial)"

section \<open>Accepting connections\<close>

text \<open>
  \<open>pending\<close> is the connection between the two halves of a round of the accept loop: registered, not yet
  admitted. \<open>slots\<close> are the handlers holding a place in the channel, \<open>conns\<close> the registered
  connections, \<open>shut\<close> those that were closed. The steps \<open>shutdown_conns\<close> and \<open>registered\<close> hold the mutex.
\<close>

record server =
  next_id :: nat
  cancelled :: bool
  swept :: bool
  stopped :: bool
  pending :: "nat option"
  conns :: "nat list"
  slots :: "nat list"
  shut :: "nat list"

definition server_start :: "server \<Rightarrow> bool" where
  "server_start s \<longleftrightarrow> \<not> cancelled s \<and> \<not> swept s \<and> \<not> stopped s \<and> pending s = None \<and>
     conns s = [] \<and> slots s = [] \<and> shut s = []"

inductive serve_step :: "int \<Rightarrow> server \<Rightarrow> server \<Rightarrow> bool" for limit where
  cancel: "serve_step limit s (s\<lparr>cancelled := True\<rparr>)"
| sweep: "cancelled s \<Longrightarrow> \<not> swept s \<Longrightarrow> serve_step limit s (s\<lparr>swept := True, shut := conns s @ shut s\<rparr>)"
| accept_late: "\<not> stopped s \<Longrightarrow> pending s = None \<Longrightarrow> cancelled s \<Longrightarrow>
     serve_step limit s (s\<lparr>next_id := Suc (next_id s), stopped := True, shut := next_id s # shut s\<rparr>)"
| accept_failed: "\<not> stopped s \<Longrightarrow> pending s = None \<Longrightarrow> serve_step limit s (s\<lparr>stopped := True\<rparr>)"
| registered: "\<not> stopped s \<Longrightarrow> pending s = None \<Longrightarrow> \<not> cancelled s \<Longrightarrow>
     serve_step limit s (s\<lparr>next_id := Suc (next_id s), pending := Some (next_id s), conns := next_id s # conns s\<rparr>)"
| admitted: "pending s = Some i \<Longrightarrow> int (length (slots s)) < limit \<Longrightarrow>
     serve_step limit s (s\<lparr>pending := None, slots := i # slots s\<rparr>)"
| rejected: "pending s = Some i \<Longrightarrow> \<not> int (length (slots s)) < limit \<Longrightarrow>
     serve_step limit s (s\<lparr>pending := None, conns := remove1 i (conns s), shut := i # shut s\<rparr>)"
| handler_closed: "i \<in> set (slots s) \<Longrightarrow> i \<in> set (conns s) \<Longrightarrow>
     serve_step limit s (s\<lparr>conns := remove1 i (conns s), shut := i # shut s\<rparr>)"
| handler_released: "i \<in> set (slots s) \<Longrightarrow> i \<notin> set (conns s) \<Longrightarrow>
     serve_step limit s (s\<lparr>slots := remove1 i (slots s)\<rparr>)"

definition server_ok :: "int \<Rightarrow> server \<Rightarrow> bool" where
  "server_ok limit s \<longleftrightarrow> int (length (slots s)) \<le> max 0 limit \<and> distinct (conns s) \<and>
     (\<forall>i\<in>set (conns s) \<union> set_option (pending s). i < next_id s) \<and>
     set (conns s) \<subseteq> set (slots s) \<union> set_option (pending s) \<and>
     (swept s \<longrightarrow> cancelled s \<and> set (conns s) \<subseteq> set (shut s))"

section \<open>Only authenticated clients reach a dialer\<close>

lemma read_full_Inr:
  "read_full n c = (Inr bs, c') \<Longrightarrow> incoming c = bs @ incoming c' \<and> length bs = n \<and> dialed c' = dialed c"
  by (auto simp: read_full_def split: if_splits)

lemma read_or_Inr:
  "read_or n good msg c = (Inr bs, c') \<Longrightarrow>
     incoming c = bs @ incoming c' \<and> length bs = n \<and> dialed c' = dialed c \<and> good bs"
  by (auto simp: read_or_def io_try_def dest: read_full_Inr split: prod.splits sum.splits if_splits)

abbreviation same_dials :: "string list \<Rightarrow> conn \<Rightarrow> bool" where
  "same_dials D c \<equiv> dialed c = D"

lemma keeps_read [intro!]: "keeps (same_dials D) (read_full n)"
  by (simp add: keeps_def read_full_def)

lemma keeps_send [intro!]: "keeps (same_dials D) (send bs)"
  by (simp add: keeps_def send_def)

lemma keeps_read_or [intro!]: "keeps (same_dials D) (read_or n good msg)"
  unfolding read_or_def by (rule keeps_try) (auto intro: keeps_return keeps_fail split: sum.split)

lemma keeps_refuse [intro!]: "keeps (same_dials D) (refuse reply e)"
  unfolding refuse_def by (rule keeps_try) (auto intro: keeps_fail)

lemma keeps_authenticate: "keeps (same_dials D) (authenticate cfg)"
  unfolding authenticate_def
  by (rule keeps_bind keeps_read_or keeps_read)+ (auto intro: keeps_return keeps_fail)

lemma keeps_auth_phase: "keeps (same_dials D) (auth_phase cfg)"
  unfolding auth_phase_def
  by (rule keeps_bind keeps_read_or keeps_read)+
    (auto intro!: keeps_bind keeps_try keeps_authenticate split: sum.split)

text \<open>What a client must have sent: a greeting that offers passwords, and the configured credentials.\<close>

definition hello :: "string \<Rightarrow> string \<Rightarrow> string \<Rightarrow> string" where
  "hello methods user password =
     [byte_of 5, byte_of (length methods)] @ methods @
     [byte_of 1, byte_of (length user)] @ user @ [byte_of (length password)] @ password"

lemma list2: "length xs = 2 \<Longrightarrow> xs = [xs ! 0, xs ! 1]"
  by (auto simp: numeral_2_eq_2 length_Suc_conv)

lemma list1: "length xs = 1 \<Longrightarrow> xs = [xs ! 0]"
  by (auto simp: length_Suc_conv)

lemma authenticate_Inr:
  assumes "authenticate cfg c = (Inr u, c')"
  shows "incoming c = [byte_of 1, byte_of (length (Username cfg))] @ Username cfg @
    [byte_of (length (Password cfg))] @ Password cfg @ incoming c'"
proof -
  obtain h c1 us c2 l c3 ps c4 where
    h: "read_or 2 (\<lambda>h. byte (h ! 0) = 1) ''invalid RFC 1929 authentication request'' c = (Inr h, c1)"
    and us: "read_full (byte (h ! 1)) c1 = (Inr us, c2)" and l: "read_full 1 c2 = (Inr l, c3)"
    and ps: "read_full (byte (l ! 0)) c3 = (Inr ps, c4)"
    and eq: "us = Username cfg \<and> ps = Password cfg" "c' = c4"
    using assms unfolding authenticate_def by (auto elim!: io_bind_InrE split: if_splits)
  have hh: "incoming c = h @ incoming c1" "length h = 2" "h ! 0 = byte_of 1"
    using read_or_Inr [OF h] by (auto intro: byte_eq)
  have "h = [byte_of 1, byte_of (length us)]"
    using list2 [OF hh(2)] hh(3) read_full_Inr [OF us] by (metis byte_of_byte)
  moreover have "l = [byte_of (length ps)]"
    using list1 [of l] read_full_Inr [OF l] read_full_Inr [OF ps] by (metis byte_of_byte)
  ultimately show ?thesis
    using hh(1) read_full_Inr [OF us] read_full_Inr [OF l] read_full_Inr [OF ps] eq by simp
qed

lemma refuse_not_Inr [simp]: "refuse reply e c = (Inr u, c') \<longleftrightarrow> False"
  by (simp add: refuse_def io_try_def split: prod.splits)

lemma auth_phase_Inr:
  assumes "auth_phase cfg c = (Inr u, c')"
  shows "\<exists>methods. byte_of 2 \<in> set methods \<and> methods \<noteq> [] \<and>
    incoming c = hello methods (Username cfg) (Password cfg) @ incoming c'"
proof -
  obtain h c1 ms c2 where
    h: "read_or 2 (\<lambda>h. byte (h ! 0) = 5 \<and> byte (h ! 1) \<noteq> 0) ''invalid SOCKS5 greeting'' c = (Inr h, c1)"
    and ms: "read_full (byte (h ! 1)) c1 = (Inr ms, c2)"
    and rest: "(if byte_of 2 \<notin> set ms
       then refuse (map byte_of [5, 255]) (Err ''SOCKS5 client did not offer username/password authentication'')
       else io_bind (send (map byte_of [5, 2])) (\<lambda>_.
            io_try (authenticate cfg) (\<lambda>r. case r of
              Inl e \<Rightarrow> refuse (map byte_of [1, 1]) e
            | Inr _ \<Rightarrow> send (map byte_of [1, 0])))) c2 = (Inr u, c')"
    using assms unfolding auth_phase_def by (auto elim!: io_bind_InrE)
  have m: "byte_of 2 \<in> set ms" using rest by (auto split: if_splits)
  obtain c3 c4 where s: "send (map byte_of [5, 2]) c2 = (Inr (), c3)" and a: "authenticate cfg c3 = (Inr (), c4)"
    and f: "send (map byte_of [1, 0]) c4 = (Inr u, c')"
    using rest m by (auto simp: io_try_def elim!: io_bind_InrE split: prod.splits sum.splits)
  have i: "incoming c3 = incoming c2" "incoming c' = incoming c4"
    using s f by (auto simp: send_def split: if_splits)
  have hh: "incoming c = h @ incoming c1" "length h = 2" "h ! 0 = byte_of 5"
    using read_or_Inr [OF h] by (auto intro: byte_eq)
  have "h = [byte_of 5, byte_of (length ms)]"
    using list2 [OF hh(2)] hh(3) read_full_Inr [OF ms] by (metis byte_of_byte)
  then have "incoming c = hello ms (Username cfg) (Password cfg) @ incoming c'"
    using hh(1) read_full_Inr [OF ms] authenticate_Inr [OF a] i by (simp add: hello_def)
  then show ?thesis using m by auto
qed

text \<open>C29: The bridge dials nothing for a client that has not authenticated: whenever a target was dialed, the
  bytes received begin with a greeting that offers password authentication and exactly the configured
  username and password.\<close>

theorem dial_needs_credentials:
  assumes "dialed (snd (handle cfg lookup dial c)) \<noteq> dialed c"
  shows "\<exists>methods rest. byte_of 2 \<in> set methods \<and>
    incoming c = hello methods (Username cfg) (Password cfg) @ rest"
proof -
  obtain r c1 where a: "auth_phase cfg c = (r, c1)" by (cases "auth_phase cfg c")
  show ?thesis
  proof (cases r)
    case (Inl e)
    then have "snd (handle cfg lookup dial c) = c1" by (simp add: handle_def io_bind_def a)
    moreover have "dialed c1 = dialed c" using keepsD [OF keeps_auth_phase [of "dialed c" cfg], of c] a by simp
    ultimately show ?thesis using assms by simp
  next
    case (Inr u)
    then show ?thesis using auth_phase_Inr a by blast
  qed
qed

section \<open>What is dialed\<close>

lemma read_port_Inr:
  assumes "read_port host c = (Inr target, c')"
  shows "\<exists>n. 1 \<le> n \<and> n \<le> 65535 \<and> target = join_host_port host (itoa n)"
proof -
  obtain bs where b: "256 * byte (bs ! 0) + byte (bs ! 1) \<noteq> 0"
    "target = join_host_port host (itoa (int (256 * byte (bs ! 0) + byte (bs ! 1))))"
    using assms unfolding read_port_def Let_def by (auto elim!: io_bind_InrE split: if_splits)
  have "byte (bs ! 0) < 256" "byte (bs ! 1) < 256" by simp_all
  then have "256 * byte (bs ! 0) + byte (bs ! 1) \<le> 65535" by linarith
  then show ?thesis
    using b by (intro exI [of _ "int (256 * byte (bs ! 0) + byte (bs ! 1))"]) auto
qed

lemma readTarget_Inr:
  assumes "readTarget lookup c = (Inr target, c')"
  shows "\<exists>host n. 1 \<le> n \<and> n \<le> 65535 \<and> target = join_host_port host (itoa n) \<and>
    (is_ipv4 host \<or> (\<exists>name a as. lookup name = Inr (a # as) \<and> host = a))"
proof -
  have four: "is_ipv4 (dotted (map byte bs))" if "length bs = 4" for bs
  proof (rule is_ipv4_dotted)
    have "byte b \<le> 255" for b
    proof -
      have "byte b < 256" by simp
      then show ?thesis by linarith
    qed
    then show "\<forall>v\<in>set (map byte bs). v \<le> 255" by simp
  qed (simp add: that)
  have "(\<exists>bs c1. length bs = 4 \<and> read_port (dotted (map byte bs)) c1 = (Inr target, c')) \<or>
      (\<exists>name a as c1. lookup name = Inr (a # as) \<and> read_port a c1 = (Inr target, c'))"
    using assms unfolding readTarget_def
    by (auto elim!: io_bind_InrE split: if_splits sum.splits list.splits) (blast dest: read_full_Inr)+
  then show ?thesis using four read_port_Inr by metis
qed

lemma refuse_dials [simp]: "dialed (snd (refuse reply e c)) = dialed c"
  using keepsD [OF keeps_refuse [of "dialed c" reply e], of c] by simp

lemma connect_phase_dials:
  "dialed (snd (connect_phase lookup dial c)) = dialed c \<or>
    (\<exists>target c'. readTarget lookup c = (Inr target, c') \<and> dialed (snd (connect_phase lookup dial c)) = dialed c @ [target])"
proof -
  obtain r c1 where t: "readTarget lookup c = (r, c1)" by (cases "readTarget lookup c")
  have ks: "dialed (snd (send bs c')) = dialed c'" for bs c' by (simp add: send_def)
  have "keeps (same_dials (dialed c)) (readTarget lookup)"
    unfolding readTarget_def read_port_def Let_def
    by (auto intro!: keeps_bind keeps_return keeps_fail split: sum.split list.split)
  then have d1: "dialed c1 = dialed c" using keepsD t by fastforce
  show ?thesis
  proof (cases r)
    case (Inl e)
    then show ?thesis using d1 by (simp add: connect_phase_def io_try_def t)
  next
    case (Inr target)
    then have "dialed (snd (connect_phase lookup dial c)) = dialed c @ [target]"
      using d1 ks by (cases "dial target") (simp_all add: connect_phase_def io_try_def t dial_target_def)
    then show ?thesis using t Inr by blast
  qed
qed

text \<open>Whatever a client sends, at most one target is dialed for it, and its host is an IPv4 address or what the
  resolver returned as the IPv4 address of a name, its port between 1 and 65535: never an IPv6 target.\<close>

theorem dialed_is_ipv4:
  "dialed (snd (handle cfg lookup dial c)) = dialed c \<or>
    (\<exists>host n. dialed (snd (handle cfg lookup dial c)) = dialed c @ [join_host_port host (itoa n)] \<and>
       1 \<le> n \<and> n \<le> 65535 \<and> (is_ipv4 host \<or> (\<exists>name as. lookup name = Inr (host # as))))"
proof -
  obtain r c1 where a: "auth_phase cfg c = (r, c1)" by (cases "auth_phase cfg c")
  have d1: "dialed c1 = dialed c" using keepsD [OF keeps_auth_phase [of "dialed c" cfg], of c] a by simp
  show ?thesis
  proof (cases r)
    case (Inl e)
    then show ?thesis using d1 by (simp add: handle_def io_bind_def a)
  next
    case (Inr u)
    then have h: "snd (handle cfg lookup dial c) = snd (connect_phase lookup dial c1)"
      by (simp add: handle_def io_bind_def a)
    then show ?thesis
      using connect_phase_dials [of lookup dial c1] readTarget_Inr d1 by metis
  qed
qed

section \<open>A correct client gets through\<close>

lemma read_full_append [simp]:
  "length bs = n \<Longrightarrow> incoming c = bs @ rest \<Longrightarrow> read_full n c = (Inr bs, c\<lparr>incoming := rest\<rparr>)"
  by (simp add: read_full_def)

lemma send_up [simp]: "\<not> down c (length (sent c)) \<Longrightarrow> send bs c = (Inr (), c\<lparr>sent := sent c @ [bs]\<rparr>)"
  by (simp add: send_def)

lemma read_or_append:
  "length bs = n \<Longrightarrow> incoming c = bs @ rest \<Longrightarrow> good bs \<Longrightarrow>
     read_or n good msg c = (Inr bs, c\<lparr>incoming := rest\<rparr>)"
  by (simp add: read_or_def)

lemma authenticate_ok:
  assumes "incoming c = [byte_of 1, byte_of (length (Username cfg))] @ Username cfg @
      [byte_of (length (Password cfg))] @ Password cfg @ rest"
    and "length (Username cfg) < 256" and "length (Password cfg) < 256"
  shows "authenticate cfg c = (Inr (), c\<lparr>incoming := rest\<rparr>)"
proof -
  let ?u = "Username cfg" and ?p = "Password cfg"
  let ?r1 = "?u @ [byte_of (length ?p)] @ ?p @ rest"
  have 1: "read_or 2 (\<lambda>h. byte (h ! 0) = 1) ''invalid RFC 1929 authentication request'' c
      = (Inr [byte_of 1, byte_of (length ?u)], c\<lparr>incoming := ?r1\<rparr>)"
    by (rule read_or_append) (use assms(1) in simp_all)
  have 2: "read_full (length ?u) (c\<lparr>incoming := ?r1\<rparr>) = (Inr ?u, c\<lparr>incoming := [byte_of (length ?p)] @ ?p @ rest\<rparr>)"
    by simp
  have 3: "read_full 1 (c\<lparr>incoming := [byte_of (length ?p)] @ ?p @ rest\<rparr>)
      = (Inr [byte_of (length ?p)], c\<lparr>incoming := ?p @ rest\<rparr>)"
    by (rule read_full_append [THEN trans]) simp_all
  have 4: "read_full (length ?p) (c\<lparr>incoming := ?p @ rest\<rparr>) = (Inr ?p, c\<lparr>incoming := rest\<rparr>)" by simp
  show ?thesis
    using 2 [simplified] 3 [simplified] 4 assms(2,3) by (simp add: authenticate_def io_bind_def 1 [simplified])
qed

definition connect_request :: "nat list \<Rightarrow> nat \<Rightarrow> string" where
  "connect_request address portn =
     map byte_of [5, 1, 0, 1] @ map byte_of address @ [byte_of (portn div 256), byte_of (portn mod 256)]"

lemma readTarget_ok:
  assumes "incoming c = connect_request address portn @ rest" and "length address = 4" "\<forall>a\<in>set address. a < 256"
    and "1 \<le> portn" "portn \<le> 65535"
  shows "readTarget lookup c = (Inr (join_host_port (dotted address) (itoa (int portn))), c\<lparr>incoming := rest\<rparr>)"
proof -
  let ?pb = "[byte_of (portn div 256), byte_of (portn mod 256)]"
  let ?r1 = "map byte_of address @ ?pb @ rest"
  have 1: "read_full 4 c = (Inr (map byte_of [5, 1, 0, 1]), c\<lparr>incoming := ?r1\<rparr>)"
    by (rule read_full_append) (simp_all add: assms(1) connect_request_def)
  have 2: "read_full 4 (c\<lparr>incoming := ?r1\<rparr>) = (Inr (map byte_of address), c\<lparr>incoming := ?pb @ rest\<rparr>)"
    by (rule read_full_append [THEN trans]) (simp_all add: assms(2))
  have 3: "read_full 2 (c\<lparr>incoming := ?pb @ rest\<rparr>) = (Inr ?pb, c\<lparr>incoming := rest\<rparr>)"
    by (rule read_full_append [THEN trans]) simp_all
  have a: "map (byte \<circ> byte_of) address = address" using assms(3) by (intro map_idI) simp
  have "256 * (portn div 256) + portn mod 256 = portn" "portn div 256 < 256"
    "0 < portn div 256 \<or> 0 < portn mod 256"
    using assms(4,5) mult_div_mod_eq [of 256 portn] by (simp_all, linarith)
  then show ?thesis
    using assms(4) 2 [simplified] 3 [simplified]
    by (simp add: readTarget_def io_bind_def 1 [simplified] read_port_def a)
qed

text \<open>A client that offers password authentication, sends the configured credentials and asks for an IPv4 target
  is answered 5 2, 1 0 and the success reply, exactly that target is dialed, and the bytes after the
  request are left to be relayed.\<close>

theorem correct_client_connects:
  assumes "incoming c = hello methods (Username cfg) (Password cfg) @ connect_request address portn @ rest"
    and "byte_of 2 \<in> set methods" and "length methods < 256"
    and "length (Username cfg) < 256" and "length (Password cfg) < 256"
    and "length address = 4" and "\<forall>a\<in>set address. a < 256" and "1 \<le> portn" and "portn \<le> 65535"
    and "\<forall>n. \<not> down c n" and "dial (join_host_port (dotted address) (itoa (int portn))) = None"
  shows "handle cfg lookup dial c = (Inr (), c\<lparr>incoming := rest,
     sent := sent c @ [map byte_of [5, 2], map byte_of [1, 0], socksReply 0],
     dialed := dialed c @ [join_host_port (dotted address) (itoa (int portn))]\<rparr>)"
proof -
  let ?req = "connect_request address portn @ rest"
  let ?login = "[byte_of 1, byte_of (length (Username cfg))] @ Username cfg @
      [byte_of (length (Password cfg))] @ Password cfg @ ?req"
  have m: "methods \<noteq> []" using assms(2) by auto
  have 1: "read_or 2 (\<lambda>h. byte (h ! 0) = 5 \<and> byte (h ! 1) \<noteq> 0) ''invalid SOCKS5 greeting'' c
      = (Inr [byte_of 5, byte_of (length methods)], c\<lparr>incoming := methods @ ?login\<rparr>)"
    by (rule read_or_append) (use assms(1,3) m in \<open>simp_all add: hello_def\<close>)
  have 2: "read_full (length methods) (c\<lparr>incoming := methods @ ?login\<rparr>) = (Inr methods, c\<lparr>incoming := ?login\<rparr>)"
    by simp
  have 3: "send (map byte_of [5, 2]) (c\<lparr>incoming := ?login\<rparr>)
      = (Inr (), c\<lparr>incoming := ?login, sent := sent c @ [map byte_of [5, 2]]\<rparr>)"
    using assms(10) by simp
  have 4: "authenticate cfg (c\<lparr>incoming := ?login, sent := sent c @ [map byte_of [5, 2]]\<rparr>)
      = (Inr (), c\<lparr>incoming := ?req, sent := sent c @ [map byte_of [5, 2]]\<rparr>)"
    using authenticate_ok [of "c\<lparr>incoming := ?login, sent := sent c @ [map byte_of [5, 2]]\<rparr>" cfg ?req] assms(4,5)
    by simp
  have phase1: "auth_phase cfg c = (Inr (), c\<lparr>incoming := ?req, sent := sent c @ [map byte_of [5, 2], map byte_of [1, 0]]\<rparr>)"
    using 2 [simplified] 3 [simplified] 4 [simplified] assms(2,3,10)
    by (simp add: auth_phase_def io_bind_def io_try_def 1 [simplified])
  have 5: "readTarget lookup (c\<lparr>incoming := ?req, sent := sent c @ [map byte_of [5, 2], map byte_of [1, 0]]\<rparr>)
      = (Inr (join_host_port (dotted address) (itoa (int portn))),
         c\<lparr>incoming := rest, sent := sent c @ [map byte_of [5, 2], map byte_of [1, 0]]\<rparr>)"
    using readTarget_ok [of "c\<lparr>incoming := ?req, sent := sent c @ [map byte_of [5, 2], map byte_of [1, 0]]\<rparr>"] assms(6-9)
    by simp
  show ?thesis
    using 5 [simplified] assms(10,11)
    by (simp add: handle_def io_bind_def phase1 [simplified] connect_phase_def dial_target_def io_try_def)
qed

text \<open>A client with the name \<open>u\<close> and the password \<open>p\<close> asks for 10.0.0.1 at port 443.\<close>

definition demo_bridge :: bridge_config where
  "demo_bridge = \<lparr>Listen = ''10.254.1.2:1080'', Username = ''u'', Password = ''p'', MaxConnections = 128\<rparr>"

definition demo_conn :: conn where
  "demo_conn = \<lparr>incoming = hello [byte_of 0, byte_of 2] ''u'' ''p'' @ connect_request [10, 0, 0, 1] 443 @ ''x'',
     sent = [], down = (\<lambda>_. False), dialed = []\<rparr>"

theorem correct_client_connects_witness:
  "dialed (snd (handle demo_bridge (\<lambda>_. Inr []) (\<lambda>_. None) demo_conn)) = [''10.0.0.1:443'']"
proof -
  have t: "join_host_port (dotted [10, 0, 0, 1]) (itoa (int 443)) = ''10.0.0.1:443''" by code_simp
  have "handle demo_bridge (\<lambda>_. Inr []) (\<lambda>_. None) demo_conn = (Inr (), demo_conn\<lparr>incoming := ''x'',
     sent := sent demo_conn @ [map byte_of [5, 2], map byte_of [1, 0], socksReply 0],
     dialed := dialed demo_conn @ [join_host_port (dotted [10, 0, 0, 1]) (itoa (int 443))]\<rparr>)"
    by (rule correct_client_connects [where methods = "[byte_of 0, byte_of 2]"])
      (simp_all add: demo_conn_def demo_bridge_def)
  from this [unfolded t] show ?thesis by (simp add: demo_conn_def)
qed

theorem dial_needs_credentials_witness:
  "\<exists>methods rest. byte_of 2 \<in> set methods \<and> incoming demo_conn = hello methods ''u'' ''p'' @ rest"
proof -
  have "dialed (snd (handle demo_bridge (\<lambda>_. Inr []) (\<lambda>_. None) demo_conn)) \<noteq> dialed demo_conn" by code_simp
  from dial_needs_credentials [OF this] show ?thesis by (simp add: demo_bridge_def)
qed

section \<open>The connection limit and the shutdown\<close>

lemma server_ok_start: "server_start s \<Longrightarrow> server_ok limit s"
  by (simp add: server_start_def server_ok_def)

lemma server_ok_step:
  assumes "server_ok limit s" and "serve_step limit s t"
  shows "server_ok limit t"
  using assms(2)
proof cases
  case (rejected i)
  then show ?thesis using assms(1) by (auto simp: server_ok_def dest: notin_set_remove1)
next
  case (handler_closed i)
  then show ?thesis using assms(1) by (auto simp: server_ok_def dest: notin_set_remove1)
next
  case (handler_released i)
  then have "set (slots s) \<subseteq> insert i (set (remove1 i (slots s)))" by (metis in_set_remove1 insertCI subsetI)
  then show ?thesis using handler_released assms(1) by (auto simp: server_ok_def length_remove1)
qed (use assms(1) in \<open>auto simp: server_ok_def\<close>)

interpretation bridge_server: transition_system server_start "serve_step limit" "server_ok limit" for limit
  by unfold_locales (blast intro: server_ok_start server_ok_step)+

text \<open>C31: In every reachable interleaving of the accept loop, the handlers, and the shutdown, at most the configured
  number of handlers run, every registered connection has a handler or is the one being admitted, and
  once the shutdown has swept, no connection that is still registered is open and none is added.\<close>

theorem bridge_limit_and_shutdown:
  assumes "server_start s0" and "(serve_step limit)\<^sup>*\<^sup>* s0 s" and "0 \<le> limit"
  shows "int (length (slots s)) \<le> limit \<and> set (conns s) \<subseteq> set (slots s) \<union> set_option (pending s) \<and>
    (swept s \<longrightarrow> set (conns s) \<subseteq> set (shut s) \<and> (\<forall>t. serve_step limit s t \<longrightarrow> set (conns t) \<subseteq> set (conns s)))"
proof -
  have ok: "server_ok limit s" using bridge_server.inv_reachable [OF assms(1,2)] .
  have "set (conns t) \<subseteq> set (conns s)" if "swept s" "serve_step limit s t" for t
    using that(2) ok that(1)
    by cases (auto simp: server_ok_def dest: notin_set_remove1)
  then show ?thesis using ok assms(3) by (auto simp: server_ok_def max_def)
qed

definition demo_server :: server where
  "demo_server = \<lparr>next_id = 0, cancelled = False, swept = False, stopped = False, pending = None, conns = [], slots = [], shut = []\<rparr>"

theorem bridge_limit_and_shutdown_witness:
  "int (length (slots (demo_server\<lparr>next_id := 1, conns := [0], slots := [0]\<rparr>))) \<le> 1"
proof -
  have 1: "serve_step 1 demo_server (demo_server\<lparr>next_id := Suc (next_id demo_server), pending := Some (next_id demo_server),
      conns := next_id demo_server # conns demo_server\<rparr>)"
    by (rule registered) (simp_all add: demo_server_def)
  let ?s = "demo_server\<lparr>next_id := 1, pending := Some 0, conns := [0]\<rparr>"
  have 2: "serve_step 1 ?s (?s\<lparr>pending := None, slots := 0 # slots ?s\<rparr>)"
    by (rule admitted) (simp_all add: demo_server_def)
  have "(serve_step 1)\<^sup>*\<^sup>* demo_server (demo_server\<lparr>next_id := 1, conns := [0], slots := [0]\<rparr>)"
    using 1 2 by (auto simp: demo_server_def)
  from bridge_limit_and_shutdown [OF _ this] show ?thesis by (simp add: server_start_def demo_server_def)
qed

section \<open>The configuration file is read back\<close>

lemma decode_encode_bridge: "int64 (MaxConnections c) \<Longrightarrow> decode_bridge (encode_bridge c) = Inr c"
proof -
  assume i: "int64 (MaxConnections c)"
  let ?ob = "[(''listen'', JStr (Listen c)), (''username'', JStr (Username c)),
     (''password'', JStr (Password c)), (''maxConnections'', JInt (MaxConnections c))]"
  have p: "json_parse (encode_bridge c) = Some (JObj ?ob)"
    unfolding encode_bridge_def by (rule json_roundtrip) (use i in simp)
  have m: "json_member ?ob ''listen'' = JStr (Listen c)" "json_member ?ob ''username'' = JStr (Username c)"
    "json_member ?ob ''password'' = JStr (Password c)" "json_member ?ob ''maxConnections'' = JInt (MaxConnections c)"
    by (simp_all add: json_member_def equal_fold_def to_lower_def lower_char_def is_upper_def)
  show ?thesis by (simp add: decode_bridge_def p field_string_def field_int_def m)
qed

interpretation bridge_file: checked_codec encode_bridge "\<lambda>t. case decode_bridge t of Inr c \<Rightarrow> Some c | Inl _ \<Rightarrow> None"
  "\<lambda>c. int64 (MaxConnections c)"
  by unfold_locales (simp add: decode_encode_bridge)

text \<open>A bridge configuration that the checks accept is read back unchanged: after \<open>WriteConfig\<close> succeeds, \<open>LoadConfig\<close> on
  the private file returns exactly what was written.\<close>

theorem bridge_config_roundtrip:
  assumes "check_config c = Inr c" and "WriteConfig p c w = (Inr u, w1)" and "LoadConfig (Inr mode) p w1 = (Inr c', w2)"
  shows "c' = c"
proof -
  have "files w1 p = Some (encode_bridge c)"
  proof -
    obtain v1 v2 where "fs_write_file (p @ ''.tmp'') (encode_bridge c) w = (Inr (), v1)" "fs_nop v1 = (Inr (), v2)"
      "fs_rename (p @ ''.tmp'') p v2 = (Inr (), w1)"
      using assms(2) unfolding WriteConfig_def
      by (auto elim!: io_bind_InrE simp: io_try_def split: prod.splits sum.splits)
    then have "fs_swap p (encode_bridge c) w = (Inr (), w1)" by (simp add: fs_swap_def)
    then show ?thesis using fs_swap_Inr by fastforce
  qed
  moreover have "int64 (MaxConnections c)"
    using assms(1) by (auto simp: check_config_def int64_def dest: arg_cong [of _ _ MaxConnections]
        split: option.splits prod.splits if_splits)
  ultimately show ?thesis
    using assms(1,3) decode_encode_bridge [of c] unfolding LoadConfig_def
    by (auto elim!: io_bind_InrE dest!: fs_read_Inr split: if_splits sum.splits)
qed

definition demo_disk :: fs where
  "demo_disk = \<lparr>files = (\<lambda>_. None), faulty = (\<lambda>_. False), torn = (\<lambda>_. 0), calls = 0, random = []\<rparr>"

theorem bridge_config_roundtrip_witness:
  "fst (LoadConfig (Inr 384) ''b'' (snd (WriteConfig ''b'' demo_bridge demo_disk))) = Inr demo_bridge"
proof -
  let ?w = "snd (WriteConfig ''b'' demo_bridge demo_disk)"
  have "fst (WriteConfig ''b'' demo_bridge demo_disk) = Inr ()" by code_simp
  then have w: "WriteConfig ''b'' demo_bridge demo_disk = (Inr (), ?w)" by (simp add: prod_eq_iff)
  have c: "check_config demo_bridge = Inr demo_bridge" by code_simp
  have "(case fst (LoadConfig (Inr 384) ''b'' ?w) of Inr _ \<Rightarrow> True | Inl _ \<Rightarrow> False)" by code_simp
  then obtain c' w2 where l: "LoadConfig (Inr 384) ''b'' ?w = (Inr c', w2)"
    by (cases "LoadConfig (Inr 384) ''b'' ?w") (auto split: sum.splits)
  show ?thesis unfolding l using bridge_config_roundtrip [OF c w l] by simp
qed

end
