(* ===== verification/NetnsManager.thy ===== *)
theory NetnsManager
  imports Firewall SocksBridge
begin

text \<open>
  \<open>internal/netns/manager.go\<close>: a VPNGate exit in a network namespace of its own: the names and addresses
  of a slot, the commands that build and take down the namespace, its firewall on both sides, the
  OpenVPN and bridge units, and the check of the exit address. Commands are a parameter; each privileged one
  goes through \<open>systemd-run\<close>. The polls for the tunnel are a list that says, after each failed poll, whether the context has ended;
  its end is the 25 second deadline.
\<close>

section \<open>Commands\<close>

definition allowed_commands :: "string list" where
  "allowed_commands = [''ip'', ''nft'', ''sysctl'', ''systemctl'', ''systemd-run'', ''journalctl'']"

definition SystemRunner :: "'w runner \<Rightarrow> 'w runner" where
  "SystemRunner run args w =
     (if hd args \<notin> set allowed_commands
      then (([], Some (Err (''privileged command '' @ hd args @ '' is not allowlisted''))), w)
      else case run args w of
          ((out, None), w') \<Rightarrow> ((out, None), w')
        | ((out, Some e), w') \<Rightarrow>
            ((out, Some (Wrap (hd args @ '' failed'') (Wrap (error_text e) (Err (trim_space out))))), w'))"

definition privileged :: "string list \<Rightarrow> string list" where
  "privileged command = [''systemd-run'', ''--wait'', ''--pipe'', ''--collect'', ''--quiet'', ''--property=Type=oneshot'',
     ''--property=CapabilityBoundingSet=CAP_NET_ADMIN CAP_SYS_ADMIN'',
     ''--property=DeviceAllow=/dev/net/tun rw'', ''--''] @ command"

text \<open>A command whose error is returned as it is.\<close>

definition run_io :: "'w runner \<Rightarrow> string list \<Rightarrow> ('w, string) io" where
  "run_io run args = io_bind (exec run args) (\<lambda>(out, err). case err of Some e \<Rightarrow> io_fail e | None \<Rightarrow> io_return out)"

definition runPrivileged :: "'w runner \<Rightarrow> string list \<Rightarrow> ('w, string) io" where
  "runPrivileged run command =
     (if command = [] then io_fail (Err ''empty privileged command'') else run_io run (privileged command))"

definition run_all :: "'w runner \<Rightarrow> string list list \<Rightarrow> ('w, unit) io" where
  "run_all run = io_each (\<lambda>command. io_bind (runPrivileged run command) (\<lambda>_. io_return ()))"

section \<open>Slots\<close>

record slot_spec =
  ns_name :: string
  hostVeth :: string
  peerVeth :: string
  hostTable :: string
  subnetCIDR :: string
  hostCIDR :: string
  peerCIDR :: string
  hostAddress :: string
  peerAddress :: string

definition slotSpec :: "int \<Rightarrow> error + slot_spec" where
  "slotSpec sl =
     (if sl < 1 \<or> sl > 5 then Inl (Err ''VPNGate slot must be between 1 and 5'')
      else let stem = ''10.254.'' @ itoa sl
        in Inr \<lparr>ns_name = ''jui-vpn-'' @ itoa sl, hostVeth = ''jvh'' @ itoa sl, peerVeth = ''jvn'' @ itoa sl,
             hostTable = ''jui_vpn_'' @ itoa sl, subnetCIDR = stem @ ''.0/30'', hostCIDR = stem @ ''.1/30'',
             peerCIDR = stem @ ''.2/30'', hostAddress = stem @ ''.1'', peerAddress = stem @ ''.2''\<rparr>)"

definition openVPNUnit :: "int \<Rightarrow> string" where
  "openVPNUnit sl = ''jui-vpngate-'' @ itoa sl @ ''-openvpn.service''"

definition bridgeUnit :: "int \<Rightarrow> string" where
  "bridgeUnit sl = ''jui-vpngate-'' @ itoa sl @ ''-bridge.service''"

definition slot_directory :: "string \<Rightarrow> int \<Rightarrow> string" where
  "slot_directory dataDir sl = path_join (path_join dataDir ''vpngate'') (''slot-'' @ itoa sl)"

section \<open>The firewalls\<close>

definition LB :: string where "LB = [CHR 0x7B]"
definition RB :: string where "RB = [CHR 0x7D]"

definition base_chain :: "string \<Rightarrow> string \<Rightarrow> string \<Rightarrow> string \<Rightarrow> string list" where
  "base_chain kind hook prio verdict =
     [LB, ''type'', kind, ''hook'', hook, ''priority'', prio, '';'', ''policy'', verdict, '';'', RB]"

definition host_firewall :: "slot_spec \<Rightarrow> string \<Rightarrow> string \<Rightarrow> int \<Rightarrow> string list list" where
  "host_firewall spec remoteIP proto portn =
     [[''nft'', ''add'', ''table'', ''ip'', hostTable spec],
      [''nft'', ''add'', ''chain'', ''ip'', hostTable spec, ''forward''] @ base_chain ''filter'' ''forward'' ''-5'' ''accept'',
      [''nft'', ''add'', ''rule'', ''ip'', hostTable spec, ''forward'',
       ''iifname'', hostVeth spec, ''ip'', ''daddr'', remoteIP, proto, ''dport'', itoa portn, ''accept''],
      [''nft'', ''add'', ''rule'', ''ip'', hostTable spec, ''forward'',
       ''oifname'', hostVeth spec, ''ct'', ''state'', ''established,related'', ''accept''],
      [''nft'', ''add'', ''rule'', ''ip'', hostTable spec, ''forward'', ''iifname'', hostVeth spec, ''reject''],
      [''nft'', ''add'', ''chain'', ''ip'', hostTable spec, ''postrouting''] @ base_chain ''nat'' ''postrouting'' ''srcnat'' ''accept'',
      [''nft'', ''add'', ''rule'', ''ip'', hostTable spec, ''postrouting'',
       ''ip'', ''saddr'', subnetCIDR spec, ''ip'', ''daddr'', remoteIP, ''masquerade'']]"

definition installHostFirewall :: "'w runner \<Rightarrow> slot_spec \<Rightarrow> string \<Rightarrow> string \<Rightarrow> int \<Rightarrow> ('w, unit) io" where
  "installHostFirewall run spec remoteIP proto portn = run_all run (host_firewall spec remoteIP proto portn)"

definition nftRules :: "'w runner \<Rightarrow> ('w, nft_object list) io" where
  "nftRules run = io_bind (run_io run [''nft'', ''-j'', ''list'', ''ruleset'']) (\<lambda>out.
     if trim_space out = [] then io_return []
     else case decode_ruleset out of
         Inl e \<Rightarrow> io_fail (Wrap ''decode nftables ruleset'' e) | Inr rs \<Rightarrow> io_return rs)"

definition forwardComment :: "slot_spec \<Rightarrow> string \<Rightarrow> string" where
  "forwardComment spec direction = ns_name spec @ ''-forward-'' @ direction"

text \<open>The commands for one object of the ruleset: two rules for a forward chain of another table that drops.\<close>

definition forward_commands :: "slot_spec \<Rightarrow> string \<Rightarrow> string \<Rightarrow> int \<Rightarrow> nft_object \<Rightarrow> string list list" where
  "forward_commands spec remoteIP proto portn ob = (case fst ob of
      None \<Rightarrow> []
    | Some chain \<Rightarrow>
        if ch_hook chain \<noteq> ''forward'' \<or> ch_policy chain \<noteq> ''drop'' \<or>
           (ch_family chain \<noteq> ''ip'' \<and> ch_family chain \<noteq> ''inet'') \<or> ch_table chain = hostTable spec then []
        else [[''nft'', ''insert'', ''rule'', ch_family chain, ch_table chain, ch_name chain,
               ''iifname'', hostVeth spec, ''ip'', ''daddr'', remoteIP, proto, ''dport'', itoa portn,
               ''accept'', ''comment'', forwardComment spec ''out''],
              [''nft'', ''insert'', ''rule'', ch_family chain, ch_table chain, ch_name chain,
               ''oifname'', hostVeth spec, ''ct'', ''state'', ''established,related'',
               ''accept'', ''comment'', forwardComment spec ''in'']])"

definition installHostForwardCompatibility ::
    "'w runner \<Rightarrow> slot_spec \<Rightarrow> string \<Rightarrow> string \<Rightarrow> int \<Rightarrow> ('w, unit) io" where
  "installHostForwardCompatibility run spec remoteIP proto portn = io_bind (nftRules run) (\<lambda>ruleset.
     run_all run (concat (map (forward_commands spec remoteIP proto portn) ruleset)))"

definition missing_fragments :: "string list" where
  "missing_fragments = [''not loaded'', ''not found'', ''no such file'', ''cannot find device'', ''does not exist'']"

definition cleanupTargetMissing :: "error \<Rightarrow> bool" where
  "cleanupTargetMissing e \<longleftrightarrow> list_ex (contains (to_lower (error_text e))) missing_fragments"

text \<open>Run every action; the errors are collected, those of targets that are gone are not.\<close>

fun collect :: "('x \<Rightarrow> ('w, string) io) \<Rightarrow> 'x list \<Rightarrow> error list \<Rightarrow> ('w, error list) io" where
  "collect f [] failures = io_return failures"
| "collect f (x # xs) failures = io_try (f x) (\<lambda>r. case r of
      Inr _ \<Rightarrow> collect f xs failures
    | Inl e \<Rightarrow> collect f xs (if cleanupTargetMissing e then failures else failures @ [e]))"

definition joined :: "error list \<Rightarrow> ('w, unit) io" where
  "joined failures = (if failures = [] then io_return () else io_fail (Join failures))"

definition own_rule :: "slot_spec \<Rightarrow> nft_object \<Rightarrow> nft_rule option" where
  "own_rule spec ob = (case snd ob of
      None \<Rightarrow> None
    | Some r \<Rightarrow> if ru_comment r \<noteq> forwardComment spec ''out'' \<and> ru_comment r \<noteq> forwardComment spec ''in''
                then None else Some r)"

definition delete_rule :: "nft_rule \<Rightarrow> string list" where
  "delete_rule r = [''nft'', ''delete'', ''rule'', ru_family r, ru_table r, ru_chain r, ''handle'', itoa (ru_handle r)]"

definition removeHostForwardCompatibility :: "'w runner \<Rightarrow> slot_spec \<Rightarrow> ('w, unit) io" where
  "removeHostForwardCompatibility run spec = io_bind (nftRules run) (\<lambda>ruleset.
     io_bind (collect (\<lambda>r. runPrivileged run (delete_rule r)) (List.map_filter (own_rule spec) ruleset) []) joined)"

definition namespace_firewall :: "slot_spec \<Rightarrow> string \<Rightarrow> string \<Rightarrow> int \<Rightarrow> string list list" where
  "namespace_firewall spec remoteIP proto portn =
     [[''add'', ''table'', ''inet'', ''jui''],
      [''add'', ''chain'', ''inet'', ''jui'', ''input''] @ base_chain ''filter'' ''input'' ''-100'' ''drop'',
      [''add'', ''rule'', ''inet'', ''jui'', ''input'', ''iifname'', ''lo'', ''accept''],
      [''add'', ''rule'', ''inet'', ''jui'', ''input'', ''ct'', ''state'', ''established,related'', ''accept''],
      [''add'', ''rule'', ''inet'', ''jui'', ''input'', ''iifname'', peerVeth spec,
       ''ip'', ''saddr'', hostAddress spec, ''tcp'', ''dport'', ''1080'', ''accept''],
      [''add'', ''chain'', ''inet'', ''jui'', ''output''] @ base_chain ''filter'' ''output'' ''-100'' ''drop'',
      [''add'', ''rule'', ''inet'', ''jui'', ''output'', ''oifname'', ''lo'', ''accept''],
      [''add'', ''rule'', ''inet'', ''jui'', ''output'', ''ct'', ''state'', ''established,related'', ''accept''],
      [''add'', ''rule'', ''inet'', ''jui'', ''output'', ''oifname'', ''tun0'', ''accept''],
      [''add'', ''rule'', ''inet'', ''jui'', ''output'', ''oifname'', peerVeth spec,
       ''ip'', ''daddr'', hostAddress spec, ''accept''],
      [''add'', ''rule'', ''inet'', ''jui'', ''output'', ''oifname'', peerVeth spec,
       ''ip'', ''daddr'', remoteIP, proto, ''dport'', itoa portn, ''accept'']]"

definition in_namespace :: "slot_spec \<Rightarrow> string list \<Rightarrow> string list" where
  "in_namespace spec command = [''ip'', ''netns'', ''exec'', ns_name spec] @ command"

definition installNamespaceFirewall :: "'w runner \<Rightarrow> slot_spec \<Rightarrow> string \<Rightarrow> string \<Rightarrow> int \<Rightarrow> ('w, unit) io" where
  "installNamespaceFirewall run spec remoteIP proto portn =
     run_all run (map (\<lambda>command. in_namespace spec (''nft'' # command)) (namespace_firewall spec remoteIP proto portn))"

section \<open>Units, the tunnel, and the exit address\<close>

definition unit_arguments :: "string \<Rightarrow> string list \<Rightarrow> string list" where
  "unit_arguments unitn command = [''systemd-run'', ''--unit='' @ unitn, ''--collect'', ''--property=Type=simple'',
     ''--property=Restart=on-failure'', ''--property=RestartSec=3s'', ''--property=PrivateTmp=yes'',
     ''--property=ProtectSystem=strict'', ''--property=ProtectHome=yes'', ''--property=NoNewPrivileges=yes'',
     ''--property=CapabilityBoundingSet=CAP_NET_ADMIN CAP_SYS_ADMIN'',
     ''--property=DeviceAllow=/dev/net/tun rw'', ''--''] @ command"

definition startUnit :: "'w runner \<Rightarrow> string \<Rightarrow> string list \<Rightarrow> ('w, unit) io" where
  "startUnit run unitn command = io_bind (exec run [''systemctl'', ''stop'', unitn]) (\<lambda>_.
     io_bind (run_io run (unit_arguments unitn command)) (\<lambda>_. io_return ()))"

definition unitDiagnostics :: "'w runner \<Rightarrow> string \<Rightarrow> ('w, string) io" where
  "unitDiagnostics run unitn =
     io_bind (exec run [''journalctl'', ''--unit'', unitn, ''--no-pager'', ''--lines=20'']) (\<lambda>(out, err).
       io_return (if err \<noteq> None \<and> out = [] then [] else trim_space out))"

definition tunnel_up :: "string \<Rightarrow> string list" where
  "tunnel_up ns = [''ip'', ''netns'', ''exec'', ns, ''ip'', ''link'', ''show'', ''dev'', ''tun0'']"

fun tunnel_loop :: "'w runner \<Rightarrow> string \<Rightarrow> string \<Rightarrow> bool list \<Rightarrow> ('w, unit) io" where
  "tunnel_loop run ns unitn [] = io_bind (unitDiagnostics run unitn) (\<lambda>diagnostics.
     io_fail (if diagnostics = [] then Err ''OpenVPN did not create tun0 within 25 seconds''
              else Wrap ''OpenVPN did not create tun0 within 25 seconds'' (Err diagnostics)))"
| "tunnel_loop run ns unitn (done # polls) = io_try (runPrivileged run (tunnel_up ns)) (\<lambda>r. case r of
      Inr _ \<Rightarrow> io_return ()
    | Inl _ \<Rightarrow> if done then io_fail (Err ''context canceled'') else tunnel_loop run ns unitn polls)"

definition decode_probe :: "string \<Rightarrow> error + string" where
  "decode_probe out =
     (let bad = Inl (Err ''exit identity service returned an invalid response'')
      in case json_parse out of
           Some (JObj ob) \<Rightarrow> (case field_string ob ''ip'' of
               Inr ip \<Rightarrow> if parse_ip ip = None then bad else Inr ip
             | Inl _ \<Rightarrow> bad)
         | _ \<Rightarrow> bad)"

definition probeEndpoint :: "'w runner \<Rightarrow> string \<Rightarrow> string \<Rightarrow> string \<Rightarrow> ('w, string) io" where
  "probeEndpoint run executable ns endpoint =
     io_bind (runPrivileged run [''ip'', ''netns'', ''exec'', ns, executable, ''internal-probe'', endpoint]) (\<lambda>out.
       case decode_probe out of Inl e \<Rightarrow> io_fail e | Inr ip \<Rightarrow> io_return ip)"

definition endpoints :: "string list" where
  "endpoints = [''https://api64.ipify.org?format=json'', ''https://ifconfig.co/json'']"

fun probe_loop :: "(string \<Rightarrow> ('w, string) io) \<Rightarrow> string list \<Rightarrow> string \<Rightarrow> ('w, string) io" where
  "probe_loop ask [] observed = io_return observed"
| "probe_loop ask (e # es) observed = io_bind (ask e) (\<lambda>current.
     if observed \<noteq> [] \<and> observed \<noteq> current
     then io_fail (Err ''exit identity services returned different IP addresses'')
     else probe_loop ask es current)"

definition probe :: "'w runner \<Rightarrow> string \<Rightarrow> string \<Rightarrow> ('w, string) io" where
  "probe run executable ns = probe_loop (probeEndpoint run executable ns) endpoints []"

section \<open>The manager\<close>

record 'w netns_manager =
  net_run :: "'w runner"
  DataDir :: string
  Executable :: string
  polls :: "bool list"

text \<open>\<open>Stop\<close>: every step is tried, whatever fails before it.\<close>

definition stop_units :: "'w runner \<Rightarrow> string list \<Rightarrow> error list \<Rightarrow> ('w, error list) io" where
  "stop_units run = collect (\<lambda>unitn. io_try (run_io run [''systemctl'', ''stop'', unitn]) (\<lambda>r.
     io_bind (exec run [''systemctl'', ''reset-failed'', unitn]) (\<lambda>_.
       case r of Inl e \<Rightarrow> io_fail e | Inr out \<Rightarrow> io_return out)))"

definition teardown :: "slot_spec \<Rightarrow> string list list" where
  "teardown spec = [[''ip'', ''netns'', ''delete'', ns_name spec], [''ip'', ''link'', ''delete'', hostVeth spec],
     [''nft'', ''delete'', ''table'', ''ip'', hostTable spec]]"

definition Stop :: "'a fs_scheme netns_manager \<Rightarrow> vpn_exit \<Rightarrow> ('a fs_scheme, unit) io" where
  "Stop m exit = (case slotSpec (slot exit) of
      Inl e \<Rightarrow> io_fail e
    | Inr spec \<Rightarrow>
        io_try (removeHostForwardCompatibility (net_run m) spec) (\<lambda>r0.
        let f0 = (case r0 of Inl e \<Rightarrow> [e] | Inr _ \<Rightarrow> [])
        in io_bind (stop_units (net_run m) [bridgeUnit (slot exit), openVPNUnit (slot exit)] f0) (\<lambda>f1.
           io_bind (collect (runPrivileged (net_run m)) (teardown spec) f1) (\<lambda>f2.
           io_try (fs_remove_all (slot_directory (DataDir m) (slot exit))) (\<lambda>r3.
             joined (case r3 of Inl e \<Rightarrow> f2 @ [e] | Inr _ \<Rightarrow> f2))))))"

definition setup_commands :: "slot_spec \<Rightarrow> string list list" where
  "setup_commands spec =
     [[''sysctl'', ''-w'', ''net.ipv4.ip_forward=1''],
      [''ip'', ''netns'', ''add'', ns_name spec],
      [''ip'', ''link'', ''add'', hostVeth spec, ''type'', ''veth'', ''peer'', ''name'', peerVeth spec],
      [''ip'', ''link'', ''set'', peerVeth spec, ''netns'', ns_name spec],
      [''ip'', ''addr'', ''add'', hostCIDR spec, ''dev'', hostVeth spec],
      [''ip'', ''link'', ''set'', hostVeth spec, ''up''],
      in_namespace spec [''ip'', ''link'', ''set'', ''lo'', ''up''],
      in_namespace spec [''ip'', ''addr'', ''add'', peerCIDR spec, ''dev'', peerVeth spec],
      in_namespace spec [''ip'', ''link'', ''set'', peerVeth spec, ''up''],
      in_namespace spec [''ip'', ''route'', ''add'', ''default'', ''via'', hostAddress spec, ''dev'', peerVeth spec]]"

text \<open>From the first command to the observed address: what a failure rolls back.\<close>

definition bring_up :: "'a fs_scheme netns_manager \<Rightarrow> vpn_exit \<Rightarrow> string \<Rightarrow> slot_spec \<Rightarrow> ('a fs_scheme, string) io" where
  "bring_up m exit candidateIP spec =
     (let run = net_run m; sl = slot exit; directory = slot_directory (DataDir m) sl;
          proto = (if remote_protocol exit = ''tcp-client'' then ''tcp'' else ''udp'')
      in io_bind (run_all run (setup_commands spec)) (\<lambda>_.
         io_bind (installHostFirewall run spec candidateIP proto (remote_port exit)) (\<lambda>_.
         io_bind (installHostForwardCompatibility run spec candidateIP proto (remote_port exit)) (\<lambda>_.
         io_bind (installNamespaceFirewall run spec candidateIP proto (remote_port exit)) (\<lambda>_.
         io_bind (startUnit run (openVPNUnit sl) (in_namespace spec [''openvpn'', ''--config'',
             path_join directory ''client.ovpn'', ''--auth-nocache'', ''--script-security'', ''1''])) (\<lambda>_.
         io_bind (tunnel_loop run (ns_name spec) (openVPNUnit sl) (polls m)) (\<lambda>_.
         io_bind (startUnit run (bridgeUnit sl) (in_namespace spec [Executable m,
             ''internal-socks-bridge'', path_join directory ''bridge.json''])) (\<lambda>_.
         probe run (Executable m) (ns_name spec)))))))))"

definition write_slot_files :: "'w netns_manager \<Rightarrow> int \<Rightarrow> slot_spec \<Rightarrow> string \<Rightarrow> string \<Rightarrow> string \<Rightarrow> ('a fs_scheme, unit) io" where
  "write_slot_files m sl spec sanitizedConfig username password =
     (let directory = slot_directory (DataDir m) sl
      in io_bind fs_nop (\<lambda>_. io_bind fs_nop (\<lambda>_.
         io_bind (fs_swap (path_join directory ''client.ovpn'') sanitizedConfig) (\<lambda>_.
         WriteConfig (path_join directory ''bridge.json'')
           \<lparr>Listen = join_host_port (peerAddress spec) ''1080'', Username = username, Password = password,
            MaxConnections = 128\<rparr>))))"

definition Provision ::
    "'a fs_scheme netns_manager \<Rightarrow> vpn_exit \<Rightarrow> candidate \<Rightarrow> string \<Rightarrow> string \<Rightarrow> string \<Rightarrow> ('a fs_scheme, string) io" where
  "Provision m exit cand sanitizedConfig username password = (case slotSpec (slot exit) of
      Inl e \<Rightarrow> io_fail e
    | Inr spec \<Rightarrow>
        if namespace exit \<noteq> ns_name spec \<or> local_address exit \<noteq> peerAddress spec \<or>
           local_port exit \<noteq> 1080 \<or> cand_ip cand \<noteq> exit_ip exit
        then io_fail (Err ''VPNGate slot metadata is inconsistent'')
        else if username = [] \<or> password = [] then io_fail (Err ''VPNGate bridge credentials are required'')
        else io_try (Stop m exit) (\<lambda>stopped. case stopped of
            Inl e \<Rightarrow> io_fail (Wrap ''clean previous VPNGate slot state'' e)
          | Inr _ \<Rightarrow>
              io_bind (write_slot_files m (slot exit) spec sanitizedConfig username password) (\<lambda>_.
              io_try (bring_up m exit (cand_ip cand) spec) (\<lambda>r. case r of
                  Inr ip \<Rightarrow> io_return ip
                | Inl primary \<Rightarrow> io_try (Stop m exit) (\<lambda>cleanup. io_fail (Join
                    (case cleanup of Inl e \<Rightarrow> [primary, e] | Inr _ \<Rightarrow> [primary])))))))"

text \<open>The health check; the two second limit of its probe is the runner's.\<close>

definition Exit_Healthy :: "'w netns_manager \<Rightarrow> vpn_exit \<Rightarrow> ('w, bool) io" where
  "Exit_Healthy m exit =
     (if exit_status exit \<noteq> ''running'' then io_return False
      else io_bind (exec (net_run m) [''systemctl'', ''is-active'', ''--quiet'', openVPNUnit (slot exit)]) (\<lambda>(_, e1).
        if e1 \<noteq> None then io_return False
        else io_bind (exec (net_run m) [''systemctl'', ''is-active'', ''--quiet'', bridgeUnit (slot exit)]) (\<lambda>(_, e2).
          if e2 \<noteq> None then io_return False
          else io_try (runPrivileged (net_run m) (tunnel_up (namespace exit))) (\<lambda>t.
            if isl t then io_return False
            else io_try (probeEndpoint (net_run m) (Executable m) (namespace exit) ''https://api64.ipify.org?format=json'')
              (\<lambda>r. case r of Inl _ \<Rightarrow> io_return False | Inr seen \<Rightarrow> io_return (seen = exit_observed exit))))))"

definition Mock_Provision :: "vpn_exit \<Rightarrow> candidate \<Rightarrow> ('w, string) io" where
  "Mock_Provision exit cand = io_return (cand_ip cand)"

definition Mock_Stop :: "vpn_exit \<Rightarrow> ('w, unit) io" where "Mock_Stop exit = io_return ()"

definition Mock_Exit_Healthy :: "vpn_exit \<Rightarrow> ('w, bool) io" where "Mock_Exit_Healthy exit = io_return True"

section \<open>Slots are disjoint\<close>

text \<open>The exits are numbered 1 to 5, and two different slots share no namespace, interface, table, subnet, address,
  service unit or directory name.\<close>

theorem slots_disjoint:
  assumes "slotSpec a = Inr s" and "slotSpec b = Inr t" and "a \<noteq> b"
  shows "ns_name s \<noteq> ns_name t \<and> hostVeth s \<noteq> hostVeth t \<and> peerVeth s \<noteq> peerVeth t \<and>
    hostTable s \<noteq> hostTable t \<and> subnetCIDR s \<noteq> subnetCIDR t \<and> hostAddress s \<noteq> hostAddress t \<and>
    peerAddress s \<noteq> peerAddress t \<and> openVPNUnit a \<noteq> openVPNUnit b \<and> bridgeUnit a \<noteq> bridgeUnit b"
proof -
  have r: "1 \<le> a" "a \<le> 5" "1 \<le> b" "b \<le> 5"
    using assms(1,2) by (auto simp: slotSpec_def split: if_splits)
  have "itoa a \<noteq> itoa b" using itoa_inj [of a b] assms(3) r by (simp add: int64_def)
  then show ?thesis
    using assms(1,2) r by (auto simp: slotSpec_def openVPNUnit_def bridgeUnit_def Let_def)
qed

theorem slots_disjoint_witness: "openVPNUnit 1 \<noteq> openVPNUnit 2"
proof -
  obtain s t where "slotSpec 1 = Inr s" "slotSpec 2 = Inr t" by (simp add: slotSpec_def Let_def)
  from slots_disjoint [OF this] show ?thesis by simp
qed

section \<open>What the firewalls let through\<close>

text \<open>
  A reading of the nft commands, as the nftables manual describes their effect: the first rule of a
  chain whose conditions all hold decides, else the policy of the chain. \<open>p_established\<close> says that connection
  tracking counts the packet to an established or related flow, in whichever of its two directions it travels.
\<close>

record packet =
  p_in :: string
  p_out :: string
  p_src :: string
  p_dst :: string
  p_proto :: string
  p_dport :: string
  p_established :: bool

fun rule_fires :: "string list \<Rightarrow> packet \<Rightarrow> string option" where
  "rule_fires [] p = None"
| "rule_fires [v] p = Some v"
| "rule_fires [k, a] p = None"
| "rule_fires (k # a # b # r) p =
     (if k = ''iifname'' then (if p_in p = a then rule_fires (b # r) p else None)
      else if k = ''oifname'' then (if p_out p = a then rule_fires (b # r) p else None)
      else if k = ''ip''
      then (if (a = ''saddr'' \<and> p_src p = b) \<or> (a = ''daddr'' \<and> p_dst p = b) then rule_fires r p else None)
      else if k = ''ct'' then (if p_established p then rule_fires r p else None)
      else if a = ''dport'' \<and> p_proto p = k \<and> p_dport p = b then rule_fires r p else None)"

definition after :: "string list \<Rightarrow> string list list \<Rightarrow> string list list" where
  "after start commands =
     map (drop (length start)) (filter (\<lambda>c. take (length start) c = start) commands)"

definition policy_of :: "string list \<Rightarrow> string" where
  "policy_of chain = (case dropWhile (\<lambda>t. t \<noteq> ''policy'') chain of _ # v # _ \<Rightarrow> v | _ \<Rightarrow> ''accept'')"

definition verdict :: "string list \<Rightarrow> string list list \<Rightarrow> packet \<Rightarrow> string" where
  "verdict chain commands p =
     (case List.map_filter (\<lambda>r. rule_fires r p) (after ([''add'', ''rule''] @ chain) commands) of
        v # _ \<Rightarrow> v
      | [] \<Rightarrow> (case after ([''add'', ''chain''] @ chain) commands of c # _ \<Rightarrow> policy_of c | [] \<Rightarrow> ''accept''))"

lemma namespace_output:
  "proto \<noteq> ''iifname'' \<Longrightarrow> proto \<noteq> ''oifname'' \<Longrightarrow> proto \<noteq> ''ip'' \<Longrightarrow> proto \<noteq> ''ct'' \<Longrightarrow>
   verdict [''inet'', ''jui'', ''output''] (namespace_firewall spec remoteIP proto portn) p =
     (if p_out p = ''lo'' \<or> p_established p \<or> p_out p = ''tun0'' \<or>
         (p_out p = peerVeth spec \<and> (p_dst p = hostAddress spec \<or>
           (p_dst p = remoteIP \<and> p_proto p = proto \<and> p_dport p = itoa portn)))
      then ''accept'' else ''drop'')"
  by (simp add: verdict_def namespace_firewall_def after_def base_chain_def policy_of_def List.map_filter_simps LB_def)

lemma namespace_input:
  "verdict [''inet'', ''jui'', ''input''] (namespace_firewall spec remoteIP proto portn) p =
     (if p_in p = ''lo'' \<or> p_established p \<or>
         (p_in p = peerVeth spec \<and> p_src p = hostAddress spec \<and> p_proto p = ''tcp'' \<and> p_dport p = ''1080'')
      then ''accept'' else ''drop'')"
  by (simp add: verdict_def namespace_firewall_def after_def base_chain_def policy_of_def List.map_filter_simps LB_def)

lemma host_forward:
  "proto \<noteq> ''iifname'' \<Longrightarrow> proto \<noteq> ''oifname'' \<Longrightarrow> proto \<noteq> ''ip'' \<Longrightarrow> proto \<noteq> ''ct'' \<Longrightarrow>
   verdict [''ip'', hostTable spec, ''forward''] (map tl (host_firewall spec remoteIP proto portn)) p =
     (if p_in p = hostVeth spec \<and> p_dst p = remoteIP \<and> p_proto p = proto \<and> p_dport p = itoa portn then ''accept''
      else if p_out p = hostVeth spec \<and> p_established p then ''accept''
      else if p_in p = hostVeth spec then ''reject'' else ''accept'')"
  by (simp add: verdict_def host_firewall_def after_def base_chain_def policy_of_def List.map_filter_simps LB_def)

text \<open>C27: The kill switch, on both sides of the link. The output chain of the namespace lets a packet leave exactly
  through the loopback or the tunnel, over the link to the host when it goes to the host itself or is the VPN
  connection to its server, or when it belongs to a flow that is established already, in either direction. The
  forward chain on the host accepts, of the packets that come over the link and leave by another interface, exactly
  those of the VPN connection, whether their flow is established or not: so no packet but the VPN's own is forwarded
  past the tunnel, also when the tunnel goes away under established flows.\<close>

theorem namespace_kill_switch:
  fixes t :: bool and remoteIP :: string and portn :: int
  defines "proto \<equiv> if t then ''tcp'' else ''udp''"
  defines "vpn \<equiv> \<lambda>p. p_dst p = remoteIP \<and> p_proto p = proto \<and> p_dport p = itoa portn"
  shows "(verdict [''inet'', ''jui'', ''output''] (namespace_firewall spec remoteIP proto portn) p = ''accept'' \<longleftrightarrow>
      p_out p = ''lo'' \<or> p_out p = ''tun0'' \<or> p_out p = peerVeth spec \<and> (p_dst p = hostAddress spec \<or> vpn p) \<or> p_established p) \<and>
    (p_in h = hostVeth spec \<and> p_out h \<noteq> hostVeth spec \<longrightarrow>
      (verdict [''ip'', hostTable spec, ''forward''] (map tl (host_firewall spec remoteIP proto portn)) h = ''accept'' \<longleftrightarrow> vpn h))"
  unfolding proto_def vpn_def by (cases t) (auto simp: namespace_output host_forward)

definition demo_spec :: slot_spec where
  "demo_spec = projr (slotSpec 1)"

theorem namespace_kill_switch_witness:
  "\<forall>established. verdict [''ip'', hostTable demo_spec, ''forward''] (map tl (host_firewall demo_spec ''9.9.9.9'' ''udp'' 1194))
     \<lparr>p_in = hostVeth demo_spec, p_out = ''eth0'', p_src = ''10.254.1.2'', p_dst = ''8.8.8.8'', p_proto = ''udp'',
       p_dport = ''53'', p_established = established\<rparr> \<noteq> ''accept''"
proof
  fix established
  let ?p = "\<lparr>p_in = hostVeth demo_spec, p_out = ''eth0'', p_src = ''10.254.1.2'', p_dst = ''8.8.8.8'', p_proto = ''udp'',
     p_dport = ''53'', p_established = established\<rparr>"
  have n: "p_in ?p = hostVeth demo_spec \<and> p_out ?p \<noteq> hostVeth demo_spec" by code_simp
  show "verdict [''ip'', hostTable demo_spec, ''forward''] (map tl (host_firewall demo_spec ''9.9.9.9'' ''udp'' 1194)) ?p \<noteq> ''accept''"
    using namespace_kill_switch [where t = False and spec = demo_spec and remoteIP = "''9.9.9.9''" and portn = 1194 and p = ?p and h = ?p] n
    by simp
qed

text \<open>On the host, a packet that comes from the exit's namespace is forwarded only to the VPN server on its
  protocol and port; every other one that leaves by another interface is rejected.\<close>

theorem host_forwards_only_vpn:
  assumes "p_in p = hostVeth spec" and "p_out p \<noteq> hostVeth spec"
  shows "verdict [''ip'', hostTable spec, ''forward''] (map tl (host_firewall spec remoteIP (if t then ''tcp'' else ''udp'') portn)) p =
    (if p_dst p = remoteIP \<and> p_proto p = (if t then ''tcp'' else ''udp'') \<and> p_dport p = itoa portn
     then ''accept'' else ''reject'')"
  using assms by (cases t) (simp_all add: host_forward)

theorem host_forwards_only_vpn_witness:
  "verdict [''ip'', hostTable demo_spec, ''forward''] (map tl (host_firewall demo_spec ''9.9.9.9'' (if False then ''tcp'' else ''udp'') 1194))
     \<lparr>p_in = hostVeth demo_spec, p_out = ''eth0'', p_src = [], p_dst = ''8.8.8.8'', p_proto = ''udp'', p_dport = ''53'', p_established = False\<rparr>
   = ''reject''"
proof -
  let ?p = "\<lparr>p_in = hostVeth demo_spec, p_out = ''eth0'', p_src = [], p_dst = ''8.8.8.8'', p_proto = ''udp'',
     p_dport = ''53'', p_established = False\<rparr>"
  have n: "p_in ?p = hostVeth demo_spec" "p_out ?p \<noteq> hostVeth demo_spec" by code_simp+
  show ?thesis using host_forwards_only_vpn [OF n, of "''9.9.9.9''" False 1194] by simp
qed

section \<open>Taking an exit down\<close>

text \<open>
  The commands a computation runs, in a world whose extension is the log of commands. \<open>logging\<close> is a runner that
  records each command, whatever it returns and does to the files.
\<close>

definition logging :: "(string list list) fs_scheme runner \<Rightarrow> bool" where
  "logging run \<longleftrightarrow> (\<forall>args w. fs.more (snd (run args w)) = fs.more w @ [args])"

definition logs :: "((string list list) fs_scheme, 'a) io \<Rightarrow> string list list \<Rightarrow> bool" where
  "logs m L \<longleftrightarrow> (\<forall>w. fs.more (snd (m w)) = fs.more w @ L)"

lemma logs_return: "logs (io_return x) []"
  by (simp add: logs_def)

lemma logs_fail: "logs (io_fail e) []"
  by (simp add: logs_def)

lemma logs_exec: "logging run \<Longrightarrow> logs (exec run args) [args]"
  by (simp add: logs_def logging_def)

lemma logs_try: "logs m L \<Longrightarrow> (\<And>r. logs (f r) K) \<Longrightarrow> logs (io_try m f) (L @ K)"
  by (simp add: logs_def io_try_def split: prod.split) (metis snd_conv append_assoc)

lemma logs_bind_total:
  assumes "logs m L" and "total m" and "\<And>x. logs (f x) K"
  shows "logs (io_bind m f) (L @ K)"
  unfolding logs_def
proof
  fix w
  obtain r w1 where m: "m w = (r, w1)" by (cases "m w")
  obtain x where "r = Inr x" using assms(2) m unfolding total_def by (metis fst_conv sum.disc(1) sum.exhaust)
  then show "fs.more (snd (io_bind m f w)) = fs.more w @ L @ K"
    using assms(1) [unfolded logs_def, rule_format, of w] assms(3) [unfolded logs_def, rule_format, of x w1] m
    by (simp add: io_bind_def)
qed

lemma logs_run_io: "logging run \<Longrightarrow> logs (run_io run args) [args]"
  using logs_bind_total [OF logs_exec [of run args] total_exec, of "\<lambda>(out, err). case err of Some e \<Rightarrow> io_fail e | None \<Rightarrow> io_return out" "[]"]
  by (auto simp: run_io_def logs_return logs_fail split: prod.splits option.splits)

lemma logs_privileged: "logging run \<Longrightarrow> command \<noteq> [] \<Longrightarrow> logs (runPrivileged run command) [privileged command]"
  by (simp add: runPrivileged_def logs_run_io)

lemma total_collect: "total (collect f xs failures)"
proof (induction xs arbitrary: failures)
  case (Cons x xs)
  then show ?case by (auto simp: total_def io_try_def split: prod.split sum.split)
qed (simp add: total_def)

lemma logs_collect:
  "(\<And>x. x \<in> set xs \<Longrightarrow> logs (f x) (L x)) \<Longrightarrow> logs (collect f xs failures) (concat (map L xs))"
proof (induction xs arbitrary: failures)
  case Nil
  show ?case by (simp only: collect.simps concat.simps list.map logs_return)
next
  case (Cons x xs)
  have r: "logs (case r of Inr _ \<Rightarrow> collect f xs failures
      | Inl e \<Rightarrow> collect f xs (if cleanupTargetMissing e then failures else failures @ [e])) (concat (map L xs))" for r
    using Cons by (cases r) auto
  have x: "logs (f x) (L x)" using Cons.prems by simp
  show ?case unfolding collect.simps list.map concat.simps by (rule logs_try [OF x r])
qed

lemma logs_stop_units:
  assumes "logging run"
  shows "logs (stop_units run us failures) (concat (map (\<lambda>u. [[''systemctl'', ''stop'', u], [''systemctl'', ''reset-failed'', u]]) us))"
proof -
  have t: "logs (io_bind (exec run [''systemctl'', ''reset-failed'', u]) (\<lambda>_. case r of Inl e \<Rightarrow> io_fail e | Inr out \<Rightarrow> io_return out))
      [[''systemctl'', ''reset-failed'', u]]" for u and r :: "error + string"
    using logs_bind_total [OF logs_exec [OF assms, of "[''systemctl'', ''reset-failed'', u]"] total_exec,
        of "\<lambda>_. case r of Inl e \<Rightarrow> io_fail e | Inr out \<Rightarrow> io_return out" "[]"]
    by (cases r) (simp_all add: logs_return logs_fail)
  show ?thesis
    unfolding stop_units_def
    using logs_try [OF logs_run_io [OF assms] t] by (intro logs_collect) simp
qed

lemma logs_joined: "logs (joined failures) []"
  by (simp add: joined_def logs_return logs_fail)

lemma logs_remove_all: "logs (fs_remove_all d) []"
  by (simp add: logs_def fs_remove_all_def attempt_def ticked_def)

text \<open>The tail of the log of \<open>Stop\<close>: everything that belongs to the slot is asked to go away.\<close>

definition takedown :: "int \<Rightarrow> slot_spec \<Rightarrow> string list list" where
  "takedown sl spec =
     concat (map (\<lambda>u. [[''systemctl'', ''stop'', u], [''systemctl'', ''reset-failed'', u]]) [bridgeUnit sl, openVPNUnit sl]) @
     map privileged (teardown spec)"

text \<open>What takes the rules of the slot out of the forward chains of other tables.\<close>

definition removal_commands :: "string list set" where
  "removal_commands = insert [''nft'', ''-j'', ''list'', ''ruleset''] (range (\<lambda>r. privileged (delete_rule r)))"

text \<open>Stopping an exit tries everything, whatever fails on the way: after the forward rules, both units are stopped and
  reset, and the namespace, the link and the table are deleted, in this order and without omission.\<close>

theorem stop_tries_everything:
  assumes "logging (net_run m)" and "slotSpec (slot exit) = Inr spec"
  shows "\<exists>rules. fs.more (snd (Stop m exit w)) = fs.more w @ rules @ takedown (slot exit) spec \<and> set rules \<subseteq> removal_commands"
proof -
  let ?run = "net_run m"
  define rest where "rest = (\<lambda>f0. io_bind (stop_units ?run [bridgeUnit (slot exit), openVPNUnit (slot exit)] f0) (\<lambda>f1.
           io_bind (collect (runPrivileged ?run) (teardown spec) f1) (\<lambda>f2.
           io_try (fs_remove_all (slot_directory (DataDir m) (slot exit))) (\<lambda>r3.
             joined (case r3 of Inl e \<Rightarrow> f2 @ [e] | Inr _ \<Rightarrow> f2)))))"
  have units: "logs (stop_units ?run us f0) (concat (map (\<lambda>u. [[''systemctl'', ''stop'', u], [''systemctl'', ''reset-failed'', u]]) us))"
    "total (stop_units ?run us f0)" for us f0
    using logs_stop_units [OF assms(1)] total_collect by (auto simp: stop_units_def)
  have "\<forall>x\<in>set (teardown spec). x \<noteq> []" by (simp add: teardown_def)
  then have down: "logs (collect (runPrivileged ?run) (teardown spec) f1) (map privileged (teardown spec))" for f1
    using logs_collect [of "teardown spec" "runPrivileged ?run" "\<lambda>x. [privileged x]" f1] logs_privileged [OF assms(1)]
    by simp
  have dir: "logs (io_try (fs_remove_all d) (\<lambda>r3. joined (g r3))) []" for d and g :: "error + unit \<Rightarrow> error list"
    using logs_try [OF logs_remove_all logs_joined, of d g] by simp
  have rest: "logs (rest f0) (takedown (slot exit) spec)" for f0
    unfolding rest_def takedown_def
    using logs_bind_total [OF units logs_bind_total [OF down total_collect dir], of "[bridgeUnit (slot exit), openVPNUnit (slot exit)]" f0]
    by (simp add: teardown_def)
  obtain r0 w1 where r0: "removeHostForwardCompatibility ?run spec w = (r0, w1)"
    by (cases "removeHostForwardCompatibility ?run spec w")
  define grown where "grown = (\<lambda>v. \<exists>K. fs.more v = fs.more w @ K \<and> set K \<subseteq> removal_commands)"
  have e: "keeps grown (exec ?run args)" if "args \<in> removal_commands" for args
  proof (rule keepsI)
    fix v
    assume "grown v"
    then obtain K where "fs.more v = fs.more w @ K" "set K \<subseteq> removal_commands" unfolding grown_def by blast
    then have "fs.more (snd (exec ?run args v)) = fs.more w @ K @ [args] \<and> set (K @ [args]) \<subseteq> removal_commands"
      using that logs_exec [OF assms(1), of args] by (simp add: logs_def)
    then show "grown (snd (exec ?run args v))" unfolding grown_def by blast
  qed
  have r: "keeps grown (run_io ?run args)" if "args \<in> removal_commands" for args
    unfolding run_io_def by (rule keeps_bind [OF e [OF that]]) (auto intro: keeps_return keeps_fail split: prod.split option.split)
  have p: "keeps grown (runPrivileged ?run (delete_rule q))" for q
    unfolding runPrivileged_def by (auto intro: keeps_fail r simp: removal_commands_def)
  have c: "keeps grown (collect (\<lambda>r. runPrivileged ?run (delete_rule r)) rs fl)" for rs fl
    by (induction rs arbitrary: fl) (auto intro!: keeps_try p keeps_return split: sum.split)
  have "keeps grown (removeHostForwardCompatibility ?run spec)"
    unfolding removeHostForwardCompatibility_def nftRules_def joined_def
    by (intro keeps_bind r c) (auto intro: keeps_return keeps_fail split: sum.split simp: removal_commands_def)
  then have "grown w1" using r0 by (auto dest: keepsD [of _ _ w] simp: grown_def)
  then obtain K where K: "fs.more w1 = fs.more w @ K" "set K \<subseteq> removal_commands" unfolding grown_def by blast
  have "Stop m exit w = rest (case r0 of Inl e \<Rightarrow> [e] | Inr _ \<Rightarrow> []) w1"
    by (simp add: Stop_def assms(2) io_try_def r0 rest_def Let_def)
  then have "fs.more (snd (Stop m exit w)) = fs.more w @ K @ takedown (slot exit) spec"
    using rest K(1) by (simp add: logs_def)
  then show ?thesis using K(2) by blast
qed

section \<open>The address of an exit\<close>

lemma probe_loop_two:
  "probe_loop ask [e1, e2] [] w = (Inr ip, w') \<Longrightarrow>
     \<exists>a w1 b. ask e1 w = (Inr a, w1) \<and> ask e2 w1 = (Inr b, w') \<and> (a = [] \<or> a = b) \<and> ip = b"
  by (auto elim!: io_bind_InrE split: if_splits)

lemma endpoints_two: "endpoints = [endpoints ! 0, endpoints ! 1]"
  by (simp add: endpoints_def)

lemma probe_agreed:
  assumes "probe run executable ns w = (Inr ip, w')"
  shows "parse_ip ip \<noteq> None \<and> (\<exists>w1. probeEndpoint run executable ns (endpoints ! 0) w = (Inr ip, w1) \<and>
    probeEndpoint run executable ns (endpoints ! 1) w1 = (Inr ip, w'))"
proof -
  obtain a w1 b where a: "probeEndpoint run executable ns (endpoints ! 0) w = (Inr a, w1)"
    and b: "probeEndpoint run executable ns (endpoints ! 1) w1 = (Inr b, w')" and eq: "a = [] \<or> a = b" "ip = b"
    using probe_loop_two assms endpoints_two unfolding probe_def by metis
  have "decode_probe out = Inr v \<Longrightarrow> parse_ip v \<noteq> None" for out v
    by (auto simp: decode_probe_def Let_def split: option.splits json.splits sum.splits if_splits)
  then have v: "parse_ip v \<noteq> None" if "probeEndpoint run executable ns e x = (Inr v, y)" for e x v y
    using that by (auto simp: probeEndpoint_def elim!: io_bind_InrE split: sum.splits)
  have "parse_ip [] = None" by code_simp
  then have "a \<noteq> []" using v [OF a] by auto
  then show ?thesis using a b eq v [OF b] by simp
qed

text \<open>An exit is only reported as provisioned with an address that both identity services returned from inside the namespace.\<close>

theorem provision_address_agreed:
  assumes "Provision m exit cand config u p w = (Inr ip, w')"
  shows "parse_ip ip \<noteq> None \<and> (\<exists>w1 w2. probeEndpoint (net_run m) (Executable m) (namespace exit) (endpoints ! 0) w1 = (Inr ip, w2) \<and>
    probeEndpoint (net_run m) (Executable m) (namespace exit) (endpoints ! 1) w2 = (Inr ip, w'))"
proof -
  obtain spec w2 where s: "namespace exit = ns_name spec" and b: "bring_up m exit (cand_ip cand) spec w2 = (Inr ip, w')"
    using assms by (auto simp: Provision_def io_try_def elim!: io_bind_InrE split: sum.splits if_splits prod.splits)
  obtain w3 where "probe (net_run m) (Executable m) (ns_name spec) w3 = (Inr ip, w')"
    using b by (auto simp: bring_up_def Let_def elim!: io_bind_InrE)
  then show ?thesis using probe_agreed s by metis
qed

text \<open>Two hosts: every command succeeds and the identity services answer 198.51.100.7; OpenVPN does not start.\<close>

definition demo_log_run :: "bool \<Rightarrow> (string list list) fs_scheme runner" where
  "demo_log_run broken args w =
     ((if last args \<in> set endpoints then json_print (JObj [(''ip'', JStr ''198.51.100.7'')]) else [],
       if broken \<and> ''--auth-nocache'' \<in> set args then Some (Err ''exit status 1'') else None),
      fs.more_update (\<lambda>l. l @ [args]) w)"

definition demo_manager :: "bool \<Rightarrow> (string list list) fs_scheme netns_manager" where
  "demo_manager broken = \<lparr>net_run = demo_log_run broken, DataDir = ''/var/lib/j-ui'', Executable = ''/usr/bin/j-ui'',
     polls = [False]\<rparr>"

definition demo_exit :: vpn_exit where
  "demo_exit = \<lparr>exit_id = 1, exit_outbound = 1, slot = 1, exit_name = [], exit_country = [], exit_host = [],
     exit_ip = ''9.9.9.9'', remote_protocol = ''udp'', remote_port = 1194, namespace = ''jui-vpn-1'',
     local_address = ''10.254.1.2'', local_port = 1080, exit_status = [], exit_observed = [], exit_error = [],
     failure_policy = [], permanent = False, expires_at = None, exit_checked = None, exit_created = 0, exit_updated = 0\<rparr>"

definition demo_cand :: candidate where
  "demo_cand = \<lparr>host_name = [], cand_ip = ''9.9.9.9'', score = 0, ping = 0, speed = 0, country_long = [],
     country_short = [], num_sessions = 0, uptime = 0, openvpn_config = [], fetched_at = 0\<rparr>"

definition demo_net_disk :: "(string list list) fs_scheme" where
  "demo_net_disk = fs.extend demo_disk []"

lemma demo_logging: "logging (net_run (demo_manager b))"
  by (simp add: logging_def demo_manager_def demo_log_run_def)

lemma demo_slot: "slotSpec (slot demo_exit) = Inr demo_spec"
  by code_simp

theorem stop_tries_everything_witness:
  "\<exists>rules. fs.more (snd (Stop (demo_manager True) demo_exit demo_net_disk)) = rules @ takedown 1 demo_spec"
  using stop_tries_everything [OF demo_logging [of True] demo_slot, of demo_net_disk]
  by (auto simp: demo_net_disk_def demo_disk_def fs.extend_def demo_exit_def)

lemma Inr_pair: "fst x = Inr () \<Longrightarrow> x = (Inr (), snd x)"
  by (simp add: prod_eq_iff)

theorem provision_address_agreed_witness:
  "fst (Provision (demo_manager False) demo_exit demo_cand ''c'' ''u'' ''p'' demo_net_disk) = Inr ''198.51.100.7'' \<and>
     parse_ip ''198.51.100.7'' \<noteq> None"
proof -
  let ?r = "Provision (demo_manager False) demo_exit demo_cand ''c'' ''u'' ''p'' demo_net_disk"
  have r: "fst ?r = Inr ''198.51.100.7''" by code_simp
  then have "?r = (Inr ''198.51.100.7'', snd ?r)" by (simp add: prod_eq_iff)
  from provision_address_agreed [OF this] r show ?thesis by blast
qed

end
