(* ===== verification/Secure.thy ===== *)
theory Secure
  imports GoFiles GoJson
begin

text \<open>
  \<open>internal/secure/secure.go\<close>: the instance key file, the sealer that encrypts what the database
  holds, and the random tokens. Sealing is AES-GCM; the mode of operation of \<open>crypto/cipher\<close> is
  defined here, over the block function that AES has under the instance key, which is the type
  \<open>sealer\<close>; AES itself and SHA-256 are parameters. A \<open>host\<close> is a file system with a random device
  and a clock.
\<close>

section \<open>The host\<close>

record host = fs +
  entropy :: "nat \<Rightarrow> char"
  drawn :: nat
  clock_at :: "nat \<Rightarrow> int"

text \<open>\<open>io.ReadFull(rand.Reader, buf)\<close> for a buffer of \<open>n\<close> bytes; \<open>time.Now()\<close> in nanoseconds, and its
  \<open>Unix()\<close> in seconds.\<close>

definition rand_read :: "nat \<Rightarrow> ('a host_scheme, string) io" where
  "rand_read n = attempt (\<lambda>w. (Inr (map (entropy w) [drawn w..<drawn w + n]), w\<lparr>drawn := drawn w + n\<rparr>))"

definition time_now :: "('a host_scheme, int) io" where
  "time_now w = (Inr (clock_at w (calls w)), ticked w)"

definition unix_seconds :: "int \<Rightarrow> int" where
  "unix_seconds t = t div 1000000000"

definition unix_now :: "('a host_scheme, int) io" where
  "unix_now w = (Inr (unix_seconds (clock_at w (calls w))), ticked w)"

section \<open>Galois/counter mode\<close>

fun xor_char :: "char \<Rightarrow> char \<Rightarrow> char" where
  "xor_char (Char a0 a1 a2 a3 a4 a5 a6 a7) (Char b0 b1 b2 b3 b4 b5 b6 b7) =
     Char (a0 \<noteq> b0) (a1 \<noteq> b1) (a2 \<noteq> b2) (a3 \<noteq> b3) (a4 \<noteq> b4) (a5 \<noteq> b5) (a6 \<noteq> b6) (a7 \<noteq> b7)"

definition xor_bytes :: "string \<Rightarrow> string \<Rightarrow> string" where
  "xor_bytes = map2 xor_char"

text \<open>The bits of a byte string, the most significant bit of each byte first.\<close>

fun byte_bits :: "char \<Rightarrow> bool list" where
  "byte_bits (Char b0 b1 b2 b3 b4 b5 b6 b7) = [b7, b6, b5, b4, b3, b2, b1, b0]"

definition bits_of :: "string \<Rightarrow> bool list" where
  "bits_of s = concat (map byte_bits s)"

fun bytes_of :: "bool list \<Rightarrow> string" where
  "bytes_of (b7 # b6 # b5 # b4 # b3 # b2 # b1 # b0 # bs) = Char b0 b1 b2 b3 b4 b5 b6 b7 # bytes_of bs"
| "bytes_of bs = []"

definition xor_bits :: "bool list \<Rightarrow> bool list \<Rightarrow> bool list" where
  "xor_bits = map2 (\<noteq>)"

definition gcm_poly :: "bool list" where
  "gcm_poly = [True, True, True, False, False, False, False, True] @ replicate 120 False"

definition gf_step :: "bool \<Rightarrow> bool list \<times> bool list \<Rightarrow> bool list \<times> bool list" where
  "gf_step x zv = (case zv of (z, v) \<Rightarrow>
     (if x then xor_bits z v else z,
      if last v then xor_bits gcm_poly (False # butlast v) else False # butlast v))"

definition gf_mult :: "bool list \<Rightarrow> bool list \<Rightarrow> bool list" where
  "gf_mult x y = fst (fold gf_step x (replicate 128 False, y))"

fun in_blocks :: "nat \<Rightarrow> string \<Rightarrow> string list" where
  "in_blocks 0 s = []"
| "in_blocks (Suc k) s = (if s = [] then [] else take 16 s # in_blocks k (drop 16 s))"

definition zero_byte :: char where "zero_byte = byte_of 0"

definition pad_block :: "string \<Rightarrow> string" where
  "pad_block s = s @ replicate ((16 - length s mod 16) mod 16) zero_byte"

definition big_endian :: "nat \<Rightarrow> nat \<Rightarrow> string" where
  "big_endian k n = map (\<lambda>i. byte_of (n div 256 ^ (k - 1 - i) mod 256)) [0..<k]"

definition big_endian_value :: "string \<Rightarrow> nat" where
  "big_endian_value s = foldl (\<lambda>v c. 256 * v + byte c) 0 s"

definition ghash :: "string \<Rightarrow> string \<Rightarrow> string" where
  "ghash h data = bytes_of (fold (\<lambda>b y. gf_mult (xor_bits y (bits_of b)) (bits_of h))
      (in_blocks (length data) data) (replicate 128 False))"

text \<open>The sixteen bytes that the cipher writes for a block.\<close>

type_synonym sealer = "string \<Rightarrow> string"

definition cipher_block :: "sealer \<Rightarrow> string \<Rightarrow> string" where
  "cipher_block blk b = take 16 (blk b @ replicate 16 zero_byte)"

definition inc32 :: "string \<Rightarrow> string" where
  "inc32 b = take 12 b @ big_endian 4 (Suc (big_endian_value (drop 12 b)) mod 2 ^ 32)"

function gctr :: "sealer \<Rightarrow> string \<Rightarrow> string \<Rightarrow> string" where
  "gctr blk ctr p =
     (if p = [] then []
      else xor_bytes (take 16 p) (cipher_block blk ctr) @ gctr blk (inc32 ctr) (drop 16 p))"
  by pat_completeness auto
termination by (relation "measure (\<lambda>(blk, ctr, p). length p)") auto

declare gctr.simps [simp del]

definition first_counter :: "string \<Rightarrow> string" where
  "first_counter nonce = nonce @ big_endian 4 1"

definition gcm_tag :: "sealer \<Rightarrow> string \<Rightarrow> string \<Rightarrow> string" where
  "gcm_tag blk nonce c =
     xor_bytes (ghash (cipher_block blk (replicate 16 zero_byte))
         (pad_block c @ big_endian 8 0 @ big_endian 8 (8 * length c)))
       (cipher_block blk (first_counter nonce))"

text \<open>\<open>aead.Seal\<close> and \<open>aead.Open\<close> with no additional data.\<close>

definition gcm_seal :: "sealer \<Rightarrow> string \<Rightarrow> string \<Rightarrow> string" where
  "gcm_seal blk nonce p = (let c = gctr blk (inc32 (first_counter nonce)) p in c @ gcm_tag blk nonce c)"

definition gcm_open :: "sealer \<Rightarrow> string \<Rightarrow> string \<Rightarrow> error + string" where
  "gcm_open blk nonce payload =
     (if length payload < 16 then Inl (Err ''cipher: message authentication failed'')
      else let c = take (length payload - 16) payload; tag = drop (length payload - 16) payload
           in if tag = gcm_tag blk nonce c then Inr (gctr blk (inc32 (first_counter nonce)) c)
              else Inl (Err ''cipher: message authentication failed''))"

section \<open>Sealing\<close>

definition nonce_size :: nat where "nonce_size = 12"

definition NewSealer :: "(string \<Rightarrow> sealer) \<Rightarrow> string \<Rightarrow> error + sealer" where
  "NewSealer aes key =
     (if length key \<in> {16, 24, 32} then Inr (aes key) else Inl (Err ''crypto/aes: invalid key size''))"

definition Seal :: "sealer \<Rightarrow> string \<Rightarrow> ('a host_scheme, string) io" where
  "Seal blk plain = io_bind (rand_read nonce_size) (\<lambda>nonce.
     io_return (raw_url_encode (nonce @ gcm_seal blk nonce plain)))"

definition Open :: "sealer \<Rightarrow> string \<Rightarrow> error + string" where
  "Open blk encoded = (case raw_url_decode encoded of
      None \<Rightarrow> Inl (Err ''illegal base64 data'')
    | Some payload \<Rightarrow>
        if length payload < nonce_size then Inl (Err ''encrypted payload is truncated'')
        else gcm_open blk (take nonce_size payload) (drop nonce_size payload))"

section \<open>Tokens\<close>

definition hex_encode :: "string \<Rightarrow> string" where
  "hex_encode s = concat (map hex_pair s)"

definition RandomToken :: "nat \<Rightarrow> ('a host_scheme, string) io" where
  "RandomToken n = io_bind (rand_read n) (\<lambda>v. io_return (raw_url_encode v))"

definition RandomHex :: "nat \<Rightarrow> ('a host_scheme, string) io" where
  "RandomHex n = io_bind (rand_read n) (\<lambda>v. io_return (hex_encode v))"

unbundle bit_operations_syntax

definition uuid_stamp :: "string \<Rightarrow> string" where
  "uuid_stamp value = value[6 := byte_of ((byte (value ! 6) AND 0x0f) OR 0x40),
     8 := byte_of ((byte (value ! 8) AND 0x3f) OR 0x80)]"

definition uuid_text :: "string \<Rightarrow> string" where
  "uuid_text value =
     (let v = uuid_stamp value
      in hex_encode (take 4 v) @ ''-'' @ hex_encode (take 2 (drop 4 v)) @ ''-'' @ hex_encode (take 2 (drop 6 v)) @
         ''-'' @ hex_encode (take 2 (drop 8 v)) @ ''-'' @ hex_encode (drop 10 v))"


definition UUID :: "('a host_scheme, string) io" where
  "UUID = io_bind (rand_read 16) (\<lambda>value. io_return (uuid_text value))"

definition HashToken :: "(string \<Rightarrow> string) \<Rightarrow> string \<Rightarrow> string" where
  "HashToken sha256 token = hex_encode (sha256 token)"

section \<open>The instance key\<close>

definition ErrExist :: error where "ErrExist = Err ''file already exists''"

definition fs_create_new :: "string \<Rightarrow> ('a fs_scheme, unit) io" where
  "fs_create_new p = attempt (\<lambda>w. case files w p of
      Some _ \<Rightarrow> (Inl ErrExist, w) | None \<Rightarrow> (Inr (), put_file p (Some []) w))"

text \<open>A failure after the file was created removes it, and is returned whatever the removal does.\<close>

definition or_remove :: "string \<Rightarrow> ('a fs_scheme, unit) io \<Rightarrow> ('a fs_scheme, 'b) io \<Rightarrow> ('a fs_scheme, 'b) io" where
  "or_remove p m next = io_try m (\<lambda>r. case r of
      Inr _ \<Rightarrow> next
    | Inl e \<Rightarrow> io_try (fs_remove p) (\<lambda>_. io_fail e))"

definition fill_key :: "string \<Rightarrow> string \<Rightarrow> ('a fs_scheme, string) io" where
  "fill_key p key = or_remove p (fs_write p key) (or_remove p fs_nop (or_remove p fs_nop (io_return key)))"

text \<open>
  Another process may run between the failed read and the exclusive creation; \<open>others\<close> holds what
  it does there, once per round, and does nothing from then on, so that the call has an end.
\<close>

definition use_key :: "string \<Rightarrow> string \<Rightarrow> ('a fs_scheme, string) io" where
  "use_key p key =
     (if length key \<noteq> 32 then io_fail (Err ''instance key must be 32 bytes'')
      else io_try fs_nop (\<lambda>r. case r of
          Inl e \<Rightarrow> io_fail (Wrap ''restrict instance key permissions'' e)
        | Inr _ \<Rightarrow> io_return key))"

definition create_key :: "('a host_scheme \<Rightarrow> 'a host_scheme) \<Rightarrow> ('a host_scheme, string) io \<Rightarrow> string \<Rightarrow> ('a host_scheme, string) io" where
  "create_key other retry p = io_bind (rand_read 32) (\<lambda>key w.
     io_try (fs_create_new p) (\<lambda>created. case created of
         Inr _ \<Rightarrow> fill_key p key
       | Inl e \<Rightarrow> if e = ErrExist then retry else io_fail e) (other w))"

fun LoadOrCreateKey :: "('a host_scheme \<Rightarrow> 'a host_scheme) list \<Rightarrow> string \<Rightarrow> ('a host_scheme, string) io" where
  "LoadOrCreateKey [] p = io_try (fs_read p) (\<lambda>r. case r of
      Inr key \<Rightarrow> use_key p key
    | Inl e \<Rightarrow> if e = ErrNotExist then create_key (\<lambda>w. w) (io_fail ErrExist) p else io_fail e)"
| "LoadOrCreateKey (other # others) p = io_try (fs_read p) (\<lambda>r. case r of
      Inr key \<Rightarrow> use_key p key
    | Inl e \<Rightarrow> if e = ErrNotExist then create_key other (LoadOrCreateKey others p) p else io_fail e)"

section \<open>What is sealed is opened\<close>

lemma xor_char_twice [simp]: "xor_char (xor_char a b) b = a"
  by (cases a; cases b) auto

lemma xor_bytes_twice: "length a \<le> length b \<Longrightarrow> xor_bytes (xor_bytes a b) b = a"
  unfolding xor_bytes_def by (induction a b rule: list_induct2') auto

lemma length_xor_bytes [simp]: "length (xor_bytes a b) = min (length a) (length b)"
  by (simp add: xor_bytes_def)

lemma length_cipher_block [simp]: "length (cipher_block blk b) = 16"
  by (simp add: cipher_block_def)

lemma length_gctr [simp]: "length (gctr blk ctr p) = length p"
proof (induction blk ctr p rule: gctr.induct)
  case (1 blk ctr p)
  then show ?case by (subst gctr.simps) auto
qed

lemma gctr_twice: "gctr blk ctr (gctr blk ctr p) = p"
proof (induction blk ctr p rule: gctr.induct)
  case (1 blk ctr p)
  show ?case
  proof (cases "p = []")
    case True
    then show ?thesis by (simp add: gctr.simps)
  next
    case False
    let ?x = "xor_bytes (take 16 p) (cipher_block blk ctr)"
    have g: "gctr blk ctr p = ?x @ gctr blk (inc32 ctr) (drop 16 p)"
      using False by (subst gctr.simps) simp
    have x: "xor_bytes ?x (cipher_block blk ctr) = take 16 p" by (rule xor_bytes_twice) simp
    have ne: "gctr blk ctr p \<noteq> []" using False length_gctr [of blk ctr p] by force
    have "take 16 (gctr blk ctr p) = ?x"
      unfolding g by (cases "length p \<le> 16") (auto simp: gctr.simps)
    moreover have "drop 16 (gctr blk ctr p) = gctr blk (inc32 ctr) (drop 16 p)"
      unfolding g by (cases "length p \<le> 16") (auto simp: gctr.simps)
    ultimately show ?thesis
      using 1 [OF False] ne x by (subst gctr.simps) simp
  qed
qed

lemma length_byte_bits [simp]: "length (byte_bits c) = 8"
  by (cases c) auto

lemma length_bits_of [simp]: "length (bits_of s) = 8 * length s"
  by (simp add: bits_of_def length_concat comp_def sum_list_triv)

lemma length_bytes_of: "length (bytes_of bs) = length bs div 8"
  by (induction bs rule: bytes_of.induct) auto

lemma length_xor_bits [simp]: "length (xor_bits a b) = min (length a) (length b)"
  by (simp add: xor_bits_def)

lemma gf_step_length:
  "length (fst zv) = 128 \<and> length (snd zv) = 128 \<Longrightarrow>
     length (fst (gf_step x zv)) = 128 \<and> length (snd (gf_step x zv)) = 128"
  by (cases zv) (simp add: gf_step_def gcm_poly_def)

lemma length_gf_mult: "length y = 128 \<Longrightarrow> length (gf_mult x y) = 128"
proof -
  have "length (fst zv) = 128 \<and> length (snd zv) = 128 \<Longrightarrow>
      length (fst (fold gf_step x zv)) = 128 \<and> length (snd (fold gf_step x zv)) = 128" for zv
    by (induction x arbitrary: zv) (use gf_step_length in force)+
  from this [of "(replicate 128 False, y)"] show "length y = 128 \<Longrightarrow> length (gf_mult x y) = 128"
    by (simp add: gf_mult_def)
qed

lemma length_ghash: "length h = 16 \<Longrightarrow> length (ghash h s) = 16"
proof -
  assume h: "length h = 16"
  have "length y = 128 \<Longrightarrow>
      length (fold (\<lambda>b y. gf_mult (xor_bits y (bits_of b)) (bits_of h)) bs y) = 128" for y bs
    by (induction bs arbitrary: y) (auto simp: length_gf_mult h)
  then show ?thesis by (simp add: ghash_def length_bytes_of)
qed

lemma length_gcm_tag [simp]: "length (gcm_tag blk nonce c) = 16"
  by (simp add: gcm_tag_def length_ghash)

lemma gcm_roundtrip: "gcm_open blk nonce (gcm_seal blk nonce p) = Inr p"
  by (simp add: gcm_open_def gcm_seal_def Let_def gctr_twice)

lemma length_gcm_seal: "length (gcm_seal blk nonce p) = length p + 16"
  by (simp add: gcm_seal_def Let_def)

lemma rand_read_Inr:
  "rand_read n w = (Inr v, w') \<Longrightarrow> length v = n \<and> files w' = files w"
  by (auto simp: rand_read_def attempt_def split: if_splits)

lemma Seal_Inr:
  assumes "Seal blk p w = (Inr t, w')"
  shows "\<exists>nonce. length nonce = nonce_size \<and> t = raw_url_encode (nonce @ gcm_seal blk nonce p)"
  using assms rand_read_Inr by (fastforce simp: Seal_def elim!: io_bind_InrE)

lemma Open_sealed:
  "length nonce = nonce_size \<Longrightarrow> Open blk (raw_url_encode (nonce @ gcm_seal blk nonce p)) = Inr p"
  by (simp add: Open_def rawurl64.dec_enc gcm_roundtrip)

text \<open>The interface of a sealer, for the components that store sealed text.\<close>

locale sealing =
  fixes sl :: "'k \<Rightarrow> string \<Rightarrow> ('a host_scheme, string) io"
    and op :: "'k \<Rightarrow> string \<Rightarrow> error + string"
  assumes open_seal: "sl k p w = (Inr t, w') \<Longrightarrow> op k t = Inr p"
    and seal_files: "files (snd (sl k p w)) = files w"
begin

lemma sealed_json:
  "\<lbrakk>sl k (json_print v) w = (Inr t, w'); json_ok v\<rbrakk> \<Longrightarrow> \<exists>s. op k t = Inr s \<and> json_parse s = Some v"
  using open_seal json_roundtrip by blast

lemma sealed_distinct:
  "\<lbrakk>sl k p w = (Inr t, w'); sl k q v = (Inr t, v')\<rbrakk> \<Longrightarrow> p = q"
  using open_seal [of k p w t w'] open_seal [of k q v t v'] by simp

end

lemma rand_read_files [simp]: "files (snd (rand_read n w)) = files w"
  by (simp add: rand_read_def attempt_def)

lemma Seal_files: "files (snd (Seal blk p w)) = files w"
  by (simp add: Seal_def io_bind_def rand_read_def attempt_def)

interpretation sealer: sealing Seal Open
proof
  fix k p t and w w' :: "'a host_scheme"
  assume "Seal k p w = (Inr t, w')"
  then show "Open k t = Inr p" using Seal_Inr Open_sealed by blast
qed (rule Seal_files)

section \<open>The instance key is complete, and never replaced\<close>

lemma use_key_Inr: "use_key p key w = (Inr k, w') \<Longrightarrow> k = key \<and> length key = 32 \<and> files w' = files w"
  by (auto simp: use_key_def io_try_def fs_nop_def attempt_def split: if_splits)

lemma use_key_files: "files (snd (use_key p key w)) = files w"
  by (simp add: use_key_def io_try_def fs_nop_def attempt_def)

lemma fs_create_new_Inr: "fs_create_new p w = (Inr u, w') \<Longrightarrow> files w' = (files w)(p \<mapsto> [])"
  by (auto simp: fs_create_new_def attempt_def split: if_splits option.splits)

lemma or_remove_Inr:
  assumes "or_remove p m next w = (Inr x, w')"
  obtains u w1 where "m w = (Inr u, w1)" and "next w1 = (Inr x, w')"
  using assms by (auto simp: or_remove_def io_try_def split: prod.splits sum.splits)

lemma fill_key_Inr:
  assumes "fill_key p key w = (Inr k, w')" and "files w p = Some []"
  shows "k = key \<and> files w' p = Some key"
proof -
  obtain u1 w1 where 1: "fs_write p key w = (Inr u1, w1)"
    and "or_remove p fs_nop (or_remove p fs_nop (io_return key)) w1 = (Inr k, w')"
    using assms(1) unfolding fill_key_def by (rule or_remove_Inr)
  then obtain u2 w2 where 2: "fs_nop w1 = (Inr u2, w2)" and "or_remove p fs_nop (io_return key) w2 = (Inr k, w')"
    using or_remove_Inr by metis
  then obtain u3 where 3: "fs_nop w2 = (Inr u3, w')" and "k = key"
    by (auto elim: or_remove_Inr)
  have "files w1 p = Some key" using fs_write_Inr [OF 1] assms(2) by simp
  moreover have "files w' = files w1" using fs_nop_files [of w1] fs_nop_files [of w2] 2 3 by simp
  ultimately show ?thesis using \<open>k = key\<close> by simp
qed

lemma create_key_Inr:
  assumes "create_key other retry p w = (Inr k, w')"
    and "\<And>v. retry v = (Inr k, w') \<Longrightarrow> length k = 32 \<and> files w' p = Some k"
  shows "length k = 32 \<and> files w' p = Some k"
proof -
  obtain key w1 where 1: "rand_read 32 w = (Inr key, w1)"
    and 2: "io_try (fs_create_new p) (\<lambda>created. case created of
         Inr _ \<Rightarrow> fill_key p key
       | Inl e \<Rightarrow> if e = ErrExist then retry else io_fail e) (other w1) = (Inr k, w')"
    using assms(1) unfolding create_key_def by (rule io_bind_InrE)
  obtain r w2 where c: "fs_create_new p (other w1) = (r, w2)" by (cases "fs_create_new p (other w1)")
  show ?thesis
  proof (cases r)
    case (Inl e)
    then show ?thesis using 2 c assms(2) by (auto split: if_splits)
  next
    case (Inr u)
    then have "fill_key p key w2 = (Inr k, w')" using 2 c by simp
    moreover have "files w2 p = Some []" using fs_create_new_Inr c Inr by fastforce
    ultimately show ?thesis using fill_key_Inr rand_read_Inr [OF 1] by blast
  qed
qed

text \<open>C37: Whoever creates the key file first, and whichever write is torn, the key that is returned has 32 bytes
  and is the content of the file.\<close>

theorem key_complete:
  "LoadOrCreateKey others p w = (Inr k, w') \<Longrightarrow> length k = 32 \<and> files w' p = Some k"
proof (induction others p arbitrary: w w' rule: LoadOrCreateKey.induct)
  case (1 p)
  then show ?case
    using create_key_Inr [of "\<lambda>w. w" "io_fail ErrExist" p _ k w'] use_key_Inr fs_read_Inr
    by (fastforce simp: io_try_def split: prod.splits sum.splits if_splits)
next
  case (2 other others p)
  obtain r w1 where r: "fs_read p w = (r, w1)" by (cases "fs_read p w")
  show ?case
  proof (cases r)
    case (Inr key)
    then have "use_key p key w1 = (Inr k, w')" using 2(2) r by simp
    then show ?thesis using use_key_Inr fs_read_Inr r Inr by fastforce
  next
    case (Inl e)
    then have e: "e = ErrNotExist" and "create_key other (LoadOrCreateKey others p) p w1 = (Inr k, w')"
      using 2(2) r by (auto split: if_splits)
    then show ?thesis using create_key_Inr [of other "LoadOrCreateKey others p" p w1 k w'] 2(1) [OF e] by blast
  qed
qed

theorem key_never_replaced:
  assumes "files w p = Some c"
  shows "files (snd (LoadOrCreateKey others p w)) = files w"
proof -
  obtain r w1 where r: "fs_read p w = (r, w1)" by (cases "fs_read p w")
  have "files w1 = files w" using r fs_read_files [of p w] by simp
  moreover have "e \<noteq> ErrNotExist" if "r = Inl e" for e
    using r that assms by (auto simp: fs_read_def attempt_def ErrIO_def ErrNotExist_def split: if_splits)
  ultimately show ?thesis
    by (cases others; cases r) (use use_key_files [of p _ w1] r in auto)
qed

section \<open>UUIDs\<close>

definition lower_hex :: "char \<Rightarrow> bool" where
  "lower_hex c \<longleftrightarrow> c \<in> set ''0123456789abcdef''"

lemma hex_pair_lower: "list_all lower_hex (hex_pair c)"
proof -
  have "list_all (\<lambda>n. lower_hex (lower_char (hex_digit n))) [0..<16]" by code_simp
  then have "n < 16 \<Longrightarrow> lower_hex (lower_char (hex_digit n))" for n by (simp add: list_all_iff)
  then show ?thesis by (simp add: hex_pair_def byte_div16)
qed

lemma hex_encode_lower: "list_all lower_hex (hex_encode s)"
  unfolding hex_encode_def using hex_pair_lower by (induction s) auto

lemma length_hex_encode [simp]: "length (hex_encode s) = 2 * length s"
  by (simp add: hex_encode_def length_concat comp_def hex_pair_def sum_list_triv)

lemma hex_encode_Cons: "hex_encode (c # s) = hex_pair c @ hex_encode s"
  by (simp add: hex_encode_def)


lemma and_15: "n AND 0x0f = n mod (16 :: nat)"
  using take_bit_eq_mask [of 4 n] by (simp add: take_bit_eq_mod mask_eq_exp_minus_1)

lemma and_63: "n AND 0x3f = n mod (64 :: nat)"
  using take_bit_eq_mask [of 6 n] by (simp add: take_bit_eq_mod mask_eq_exp_minus_1)

lemma or_low: "m < 2 ^ k \<Longrightarrow> m OR 2 ^ k = m + (2 ^ k :: nat)"
proof (rule disjunctive_add [symmetric])
  assume "m < 2 ^ k"
  then have "bit m n \<Longrightarrow> n < k" for n
    by (metis bit_take_bit_iff take_bit_nat_eq_self)
  then show "\<not> bit m n \<or> \<not> bit (2 ^ k :: nat) n" for n by (auto simp: bit_exp_iff)
qed

lemma version_nibble: "hd (hex_pair (byte_of ((n AND 0x0f) OR 0x40))) = CHR ''4''"
proof -
  have "(n mod 16) OR 64 = n mod 16 + 64" using or_low [of "n mod 16" 6] by simp
  moreover have "(n mod 16 + 64) div 16 = 4" by presburger
  moreover have "lower_char (hex_digit 4) = CHR ''4''" by code_simp
  ultimately show ?thesis by (simp add: and_15 hex_pair_def)
qed

lemma eight_to_eleven: "8 \<le> q \<Longrightarrow> q < 12 \<Longrightarrow> q \<in> {8, 9, 10, 11 :: nat}"
  by auto

lemma variant_nibble: "hd (hex_pair (byte_of ((n AND 0x3f) OR 0x80))) \<in> set ''89ab''"
proof -
  let ?q = "(n mod 64 + 128) div 16"
  have o: "(n mod 64) OR 128 = n mod 64 + 128" using or_low [of "n mod 64" 7] by simp
  have "8 \<le> ?q" "?q < 12"
    using div_le_mono [of 128 "n mod 64 + 128" 16] div_le_mono [of "n mod 64 + 128" 191 16]
      mod_less_divisor [of 64 n] by simp_all
  then have q: "?q \<in> {8, 9, 10, 11}" by (rule eight_to_eleven)
  have "\<forall>i\<in>{8, 9, 10, 11}. lower_char (hex_digit i) \<in> set ''89ab''" by code_simp
  from bspec [OF this q] show ?thesis by (simp only: and_63 o hex_pair_def) simp
qed


lemma hd_hex_encode: "hd (hex_encode (c # s)) = hd (hex_pair c)"
  by (simp add: hex_encode_Cons hex_pair_def)

definition uuid_groups :: "string list \<Rightarrow> bool" where
  "uuid_groups gs \<longleftrightarrow> map length gs = [8, 4, 4, 4, 12] \<and> list_all (list_all lower_hex) gs \<and>
     hd (gs ! 2) = CHR ''4'' \<and> hd (gs ! 3) \<in> set ''89ab''"

lemma uuid_text_shape:
  assumes "length v = 16"
  shows "\<exists>gs. uuid_text v = join ''-'' gs \<and> uuid_groups gs"
proof -
  define v' where "v' = uuid_stamp v"
  have l: "length v' = 16" using assms by (simp add: v'_def uuid_stamp_def)
  have n6: "hd (hex_pair (v' ! 6)) = CHR ''4''" using assms by (simp add: v'_def uuid_stamp_def version_nibble)
  have n8: "hd (hex_pair (v' ! 8)) \<in> set ''89ab''"
    using assms variant_nibble [of "byte (v ! 8)"] by (simp add: v'_def uuid_stamp_def)
  have t: "uuid_text v = join ''-'' [hex_encode (take 4 v'), hex_encode (take 2 (drop 4 v')),
      hex_encode (take 2 (drop 6 v')), hex_encode (take 2 (drop 8 v')), hex_encode (drop 10 v')]"
    by (simp add: uuid_text_def v'_def Let_def join_Cons)
  have "take 2 (drop k v') = [v' ! k, v' ! Suc k]" if "k < 14" for k
    using that l by (simp add: take_Suc_conv_app_nth numeral_2_eq_2 hd_drop_conv_nth take_Suc Cons_nth_drop_Suc [symmetric])
  then have "uuid_groups [hex_encode (take 4 v'), hex_encode (take 2 (drop 4 v')),
      hex_encode (take 2 (drop 6 v')), hex_encode (take 2 (drop 8 v')), hex_encode (drop 10 v')]"
    using l n6 n8 by (simp add: uuid_groups_def hex_encode_lower hd_hex_encode)
  then show ?thesis using t by blast
qed

theorem UUID_shape: "UUID w = (Inr u, w') \<Longrightarrow> \<exists>gs. u = join ''-'' gs \<and> uuid_groups gs"
  using uuid_text_shape rand_read_Inr by (fastforce simp: UUID_def elim!: io_bind_InrE)

section \<open>A concrete host\<close>

definition demo_host :: host where
  "demo_host = \<lparr>files = \<lambda>_. None, faulty = \<lambda>_. False, torn = \<lambda>_. 0, calls = 0, random = [],
     entropy = \<lambda>n. byte_of n, drawn = 0, clock_at = \<lambda>n. int n\<rparr>"

theorem key_complete_witness:
  "\<exists>k. fst (LoadOrCreateKey [] ''/key'' demo_host) = Inr k \<and> length k = 32"
proof -
  obtain r w' where r: "LoadOrCreateKey [] ''/key'' demo_host = (r, w')" by (cases "LoadOrCreateKey [] ''/key'' demo_host")
  have "case LoadOrCreateKey [] ''/key'' demo_host of (r, _) \<Rightarrow> \<not> isl r" by code_simp
  then obtain k where "r = Inr k" using r by (cases r) auto
  then show ?thesis using key_complete [of "[]" "''/key''" demo_host k w'] r by simp
qed

end
