(* ===== verification/Store.thy ===== *)
theory Store
  imports Secure
begin

text \<open>
  \<open>internal/database/store.go\<close>: the database. A row is a record of the columns of its table, with
  flags held as the integers 0 and 1 and secrets as sealed text; an exit has no such column and is
  the record of the model. The tables are lists in the order of insertion. A statement computes new
  tables; it fails as a whole when the device fails or when the result violates a constraint of the
  schema. A transaction that fails, or that is not committed, restores the tables it began with.
\<close>

section \<open>Tables\<close>

record administrator_row =
  adm_id :: int
  adm_name :: string
  adm_hash :: string
  adm_created :: int
  adm_updated :: int

record session_row =
  ses_hash :: string
  ses_csrf :: string
  ses_ip :: string
  ses_expires :: int
  ses_created :: int

record user_row =
  usr_id :: int
  usr_name :: string
  usr_hash :: string
  usr_enc :: string
  usr_enabled :: int
  usr_created :: int

record node_row =
  nr_id :: int
  nr_name :: string
  nr_protocol :: string
  nr_listen :: string
  nr_port :: int
  nr_enabled :: int
  nr_host :: string
  nr_settings :: string
  nr_secret :: string
  nr_status :: string
  nr_created :: int
  nr_updated :: int
  nr_outbound :: "int option"

record client_row =
  cr_id :: int
  cr_node :: int
  cr_user :: int
  cr_name :: string
  cr_credential :: string
  cr_enabled :: int
  cr_created :: int

record setting_row =
  set_key :: string
  set_value :: string
  set_updated :: int

record version_row =
  ver_id :: int
  ver_config :: string
  ver_healthy :: int
  ver_created :: int

record event_row =
  ev_id :: int
  ev_level :: string
  ev_code :: string
  ev_message :: string
  ev_created :: int

record firewall_row =
  fw_protocol :: string
  fw_port :: int
  fw_created :: int
  fw_ownership :: string
  fw_backend :: string

record outbound_row =
  or_id :: int
  or_name :: string
  or_type :: string
  or_server :: string
  or_port :: int
  or_enabled :: int
  or_credential :: string
  or_managed :: string
  or_status :: string
  or_observed :: string
  or_country :: string
  or_asn :: string
  or_error :: string
  or_checked :: "int option"
  or_created :: int
  or_updated :: int

record candidate_row =
  ca_host :: string
  ca_ip :: string
  ca_score :: int
  ca_ping :: int
  ca_speed :: int
  ca_country_long :: string
  ca_country_short :: string
  ca_sessions :: int
  ca_uptime :: int
  ca_config :: string
  ca_fetched :: int

record tables =
  administrators :: "administrator_row list"
  sessions :: "session_row list"
  users :: "user_row list"
  nodes :: "node_row list"
  node_clients :: "client_row list"
  system_settings :: "setting_row list"
  config_versions :: "version_row list"
  system_events :: "event_row list"
  managed_firewall_rules :: "firewall_row list"
  outbounds :: "outbound_row list"
  vpngate_candidates :: "candidate_row list"
  vpngate_exits :: "vpn_exit list"
  user_version :: nat

record db = host +
  tables :: tables

section \<open>The schema\<close>

definition FirewallPending :: string where "FirewallPending = ''pending''"
definition FirewallOwned :: string where "FirewallOwned = ''owned''"
definition FirewallBorrowed :: string where "FirewallBorrowed = ''borrowed''"
definition FirewallUnknown :: string where "FirewallUnknown = ''unknown''"
definition FirewallFirewalld :: string where "FirewallFirewalld = ''firewalld''"
definition FirewallUFW :: string where "FirewallUFW = ''ufw''"
definition FirewallNFTables :: string where "FirewallNFTables = ''nftables''"

lemmas ownership_defs = FirewallPending_def FirewallOwned_def FirewallBorrowed_def FirewallUnknown_def
  FirewallFirewalld_def FirewallUFW_def FirewallNFTables_def

text \<open>The \<open>CHECK\<close> constraints.\<close>

definition checks :: "tables \<Rightarrow> bool" where
  "checks t \<longleftrightarrow> list_all (\<lambda>r. adm_id r = 1) (administrators t) \<and>
     list_all (\<lambda>r. fw_protocol r \<in> {''tcp'', ''udp''} \<and> 1 \<le> fw_port r \<and> fw_port r \<le> 65535 \<and>
        fw_ownership r \<in> {FirewallPending, FirewallOwned, FirewallBorrowed} \<and>
        fw_backend r \<in> {FirewallUnknown, FirewallFirewalld, FirewallUFW, FirewallNFTables})
       (managed_firewall_rules t) \<and>
     list_all (\<lambda>r. or_type r \<in> {''socks5'', ''http''} \<and> 1 \<le> or_port r \<and> or_port r \<le> 65535 \<and>
        or_managed r \<in> {''manual'', ''vpngate''}) (outbounds t) \<and>
     list_all (\<lambda>r. 1 \<le> slot r \<and> slot r \<le> 5 \<and> failure_policy r \<in> {''block'', ''auto_swap''}) (vpngate_exits t)"

text \<open>The primary keys and the \<open>UNIQUE\<close> constraints.\<close>

definition endpoint :: "node_row \<Rightarrow> string \<times> int" where
  "endpoint r = (nr_listen r, nr_port r)"

definition rule_key :: "firewall_row \<Rightarrow> string \<times> int" where
  "rule_key r = (fw_protocol r, fw_port r)"

definition uniques :: "tables \<Rightarrow> bool" where
  "uniques t \<longleftrightarrow>
     distinct (map adm_id (administrators t)) \<and> distinct (map adm_name (administrators t)) \<and>
     distinct (map ses_hash (sessions t)) \<and>
     distinct (map usr_id (users t)) \<and> distinct (map usr_hash (users t)) \<and>
     distinct (map nr_id (nodes t)) \<and> distinct (map endpoint (nodes t)) \<and>
     distinct (map cr_id (node_clients t)) \<and>
     distinct (map set_key (system_settings t)) \<and>
     distinct (map ver_id (config_versions t)) \<and>
     distinct (map ev_id (system_events t)) \<and>
     distinct (map rule_key (managed_firewall_rules t)) \<and>
     distinct (map or_id (outbounds t)) \<and>
     distinct (map ca_host (vpngate_candidates t)) \<and>
     distinct (map exit_id (vpngate_exits t)) \<and> distinct (map exit_outbound (vpngate_exits t)) \<and>
     distinct (map slot (vpngate_exits t))"

text \<open>The foreign keys. Deleting a row that a node refers to by \<open>outbound_id\<close> is refused; the other
  references are deleted with it, which the deleting statements below do.\<close>

definition references :: "tables \<Rightarrow> bool" where
  "references t \<longleftrightarrow>
     list_all (\<lambda>r. case nr_outbound r of None \<Rightarrow> True | Some i \<Rightarrow> i \<in> or_id ` set (outbounds t)) (nodes t) \<and>
     list_all (\<lambda>r. cr_node r \<in> nr_id ` set (nodes t) \<and> cr_user r \<in> usr_id ` set (users t)) (node_clients t) \<and>
     list_all (\<lambda>r. exit_outbound r \<in> or_id ` set (outbounds t)) (vpngate_exits t)"

definition check_failed :: error where "check_failed = Err ''CHECK constraint failed''"
definition unique_failed :: error where "unique_failed = Err ''UNIQUE constraint failed''"
definition foreign_key_failed :: error where "foreign_key_failed = Err ''FOREIGN KEY constraint failed''"

definition violation :: "tables \<Rightarrow> error option" where
  "violation t = (if \<not> checks t then Some check_failed
     else if \<not> uniques t then Some unique_failed
     else if \<not> references t then Some foreign_key_failed else None)"

definition consistent :: "tables \<Rightarrow> bool" where
  "consistent t \<longleftrightarrow> checks t \<and> uniques t \<and> references t"

lemma violation_None [simp]: "violation t = None \<longleftrightarrow> consistent t"
  by (simp add: violation_def consistent_def)

text \<open>An \<open>INTEGER PRIMARY KEY\<close> that is not given is one more than the largest.\<close>

definition next_rowid :: "int list \<Rightarrow> int" where
  "next_rowid ids = (case ids of [] \<Rightarrow> 1 | i # is \<Rightarrow> foldl max i is + 1)"

section \<open>Statements and transactions\<close>

definition ErrNoRows :: error where "ErrNoRows = Err ''sql: no rows in result set''"
definition ErrConflict :: error where "ErrConflict = Err ''database conflict''"

definition IsConflict :: "error \<Rightarrow> bool" where
  "IsConflict e \<longleftrightarrow> error_is ErrConflict e"

definition IsNotFound :: "error \<Rightarrow> bool" where
  "IsNotFound e \<longleftrightarrow> error_is ErrNoRows e"

definition normalizeWriteError :: "error \<Rightarrow> error" where
  "normalizeWriteError e =
     (if contains (to_lower (error_text e)) ''unique constraint failed''
      then Wrap (error_text e) ErrConflict else e)"

text \<open>A failed call with its error translated.\<close>

definition io_map_error :: "(error \<Rightarrow> error) \<Rightarrow> ('w, 'a) io \<Rightarrow> ('w, 'a) io" where
  "io_map_error f m = io_try m (\<lambda>r. case r of Inl e \<Rightarrow> io_fail (f e) | Inr x \<Rightarrow> io_return x)"

definition io_of :: "error + 'a \<Rightarrow> ('w, 'a) io" where
  "io_of r = (case r of Inl e \<Rightarrow> io_fail e | Inr x \<Rightarrow> io_return x)"

definition statement :: "(tables \<Rightarrow> 'r \<times> tables) \<Rightarrow> ('a db_scheme, 'r) io" where
  "statement f = attempt (\<lambda>w. case f (tables w) of (r, t) \<Rightarrow>
     (case violation t of Some e \<Rightarrow> (Inl e, w) | None \<Rightarrow> (Inr r, w\<lparr>tables := t\<rparr>)))"

definition query :: "(tables \<Rightarrow> 'r) \<Rightarrow> ('a db_scheme, 'r) io" where
  "query f = attempt (\<lambda>w. (Inr (f (tables w)), w))"

definition query_row :: "(tables \<Rightarrow> 'r list) \<Rightarrow> ('a db_scheme, 'r) io" where
  "query_row f = io_bind (query f) (\<lambda>rows. case rows of [] \<Rightarrow> io_fail ErrNoRows | r # _ \<Rightarrow> io_return r)"

fun scan_all :: "('r \<Rightarrow> error + 'x) \<Rightarrow> 'r list \<Rightarrow> error + 'x list" where
  "scan_all f [] = Inr []"
| "scan_all f (r # rs) = (case f r of Inl e \<Rightarrow> Inl e | Inr x \<Rightarrow>
     (case scan_all f rs of Inl e \<Rightarrow> Inl e | Inr xs \<Rightarrow> Inr (x # xs)))"

definition query_rows :: "(tables \<Rightarrow> 'r list) \<Rightarrow> ('r \<Rightarrow> error + 'x) \<Rightarrow> ('a db_scheme, 'x list) io" where
  "query_rows f scan = io_bind (query f) (\<lambda>rows. io_bind (io_of (scan_all scan rows)) (\<lambda>xs.
     io_bind fs_nop (\<lambda>_. io_return xs)))"

text \<open>\<open>BeginTx\<close>, the body, and \<open>Commit\<close>; the deferred \<open>Rollback\<close> undoes what was not committed. The
  body tells whether it commits.\<close>

definition transaction :: "('a db_scheme, bool \<times> 'b) io \<Rightarrow> ('a db_scheme, 'b) io" where
  "transaction body = io_bind fs_nop (\<lambda>_ w0. case body w0 of
      (Inl e, w) \<Rightarrow> (Inl e, w\<lparr>tables := tables w0\<rparr>)
    | (Inr (commit, x), w) \<Rightarrow>
        if \<not> commit then (Inr x, w\<lparr>tables := tables w0\<rparr>)
        else (case fs_nop w of
            (Inl e, w') \<Rightarrow> (Inl e, w'\<lparr>tables := tables w0\<rparr>)
          | (Inr _, w') \<Rightarrow> (Inr x, w')))"

text \<open>A body whose last line is \<open>return tx.Commit()\<close>.\<close>

definition committed :: "('w, 'b) io \<Rightarrow> ('w, bool \<times> 'b) io" where
  "committed m = io_bind m (\<lambda>x. io_return (True, x))"

definition boolInt :: "bool \<Rightarrow> int" where
  "boolInt value = (if value then 1 else 0)"

definition defaultManagedKind :: "string \<Rightarrow> string" where
  "defaultManagedKind value = (if value = [] then ''manual'' else value)"

text \<open>\<open>json.Marshal\<close> of a map, and \<open>json.Unmarshal\<close> into one.\<close>

definition marshal_map :: "obj \<Rightarrow> string" where
  "marshal_map v = json_print (json_sorted (JObj v))"

definition encryptJSON :: "sealer \<Rightarrow> obj \<Rightarrow> ('a host_scheme, string) io" where
  "encryptJSON blk v = Seal blk (marshal_map v)"

definition unmarshal_map :: "string \<Rightarrow> error + obj" where
  "unmarshal_map s = (case json_parse s of
      Some (JObj kvs) \<Rightarrow> Inr (foldl (\<lambda>m (k, v). obj_set k v m) [] kvs)
    | Some JNull \<Rightarrow> Inr []
    | _ \<Rightarrow> Inl (Err ''json: cannot unmarshal into map''))"

text \<open>\<open>UPDATE ... WHERE\<close> on the rows of one table; it answers how many rows matched.\<close>

definition update_rows :: "('r \<Rightarrow> bool) \<Rightarrow> ('r \<Rightarrow> 'r) \<Rightarrow> 'r list \<Rightarrow> nat \<times> 'r list" where
  "update_rows P f rs = (length (filter P rs), map (\<lambda>r. if P r then f r else r) rs)"

definition affected_row :: "error \<Rightarrow> nat \<Rightarrow> ('w, unit) io" where
  "affected_row e n = (if n = 0 then io_fail e else io_return ())"

section \<open>Migrations\<close>

text \<open>
  The statements of each schema version as what they do to the rows; those that only create tables,
  columns and indexes leave them as they are (a table that does not exist yet has no rows, a column
  that does not exist yet is held with its default).
\<close>

definition ddl :: "int \<Rightarrow> tables \<Rightarrow> tables" where
  "ddl now t = t"

definition clear_versions :: "int \<Rightarrow> tables \<Rightarrow> tables" where
  "clear_versions now t = t\<lparr>config_versions := []\<rparr>"

definition insert_event :: "string \<Rightarrow> string \<Rightarrow> string \<Rightarrow> int \<Rightarrow> tables \<Rightarrow> tables" where
  "insert_event level code message now t = t\<lparr>system_events := system_events t @
     [\<lparr>ev_id = next_rowid (map ev_id (system_events t)), ev_level = level, ev_code = code,
       ev_message = message, ev_created = now\<rparr>]\<rparr>"

definition note_removed :: "string \<Rightarrow> string \<Rightarrow> string \<Rightarrow> int \<Rightarrow> tables \<Rightarrow> tables" where
  "note_removed proto code message now t =
     (if list_ex (\<lambda>r. nr_protocol r = proto) (nodes t) then insert_event ''info'' code message now t else t)"

text \<open>Deleting nodes deletes their clients, by the foreign key.\<close>

definition delete_nodes :: "(node_row \<Rightarrow> bool) \<Rightarrow> tables \<Rightarrow> tables" where
  "delete_nodes P t = t\<lparr>nodes := filter (\<lambda>r. \<not> P r) (nodes t),
     node_clients := filter (\<lambda>c. cr_node c \<notin> nr_id ` set (filter P (nodes t))) (node_clients t)\<rparr>"

definition migrations :: "(int \<Rightarrow> tables \<Rightarrow> tables) list list" where
  "migrations = [replicate 9 ddl, replicate 2 ddl, [ddl], [ddl], [ddl],
     [ddl, clear_versions], replicate 3 ddl, replicate 5 ddl,
     [note_removed ''vless_h2_reality'' ''deprecated_protocol_removed'' ''H2+Reality removed'',
      \<lambda>now. delete_nodes (\<lambda>r. nr_protocol r = ''vless_h2_reality'')],
     [note_removed ''naive'' ''naive_protocol_removed'' ''Naive removed'',
      \<lambda>now. delete_nodes (\<lambda>r. nr_protocol r = ''naive'')]]"

definition migration_step :: "(int \<Rightarrow> tables \<Rightarrow> tables) \<Rightarrow> ('a db_scheme, unit) io" where
  "migration_step f = io_bind unix_now (\<lambda>now. statement (\<lambda>t. ((), f now t)))"

definition apply_migration :: "nat \<Rightarrow> (int \<Rightarrow> tables \<Rightarrow> tables) list \<Rightarrow> ('a db_scheme, unit) io" where
  "apply_migration index statements =
     io_map_error (Wrap ''database migration'') (transaction (committed
       (io_bind (io_each migration_step statements) (\<lambda>_.
        statement (\<lambda>t. ((), t\<lparr>user_version := Suc index\<rparr>))))))"

fun migrate_from :: "nat \<Rightarrow> (int \<Rightarrow> tables \<Rightarrow> tables) list list \<Rightarrow> ('a db_scheme, unit) io" where
  "migrate_from index [] = io_return ()"
| "migrate_from index (m # ms) = io_bind (apply_migration index m) (\<lambda>_. migrate_from (Suc index) ms)"

definition migrate :: "('a db_scheme, unit) io" where
  "migrate = io_bind (io_map_error (Wrap ''read database schema version'') (query user_version)) (\<lambda>current.
     if length migrations < current
     then io_fail (Err ''database schema version is newer than the supported version'')
     else migrate_from current (drop current migrations))"

text \<open>Opening: the migrations, a checkpoint, and the modes of the three files; an absent journal is no error.\<close>

definition chmod_related :: "string \<Rightarrow> ('a fs_scheme, unit) io" where
  "chmod_related p = attempt (\<lambda>w. (if files w p = None then Inl ErrNotExist else Inr (), w))"

definition ignore_missing :: "('w, unit) io \<Rightarrow> ('w, unit) io" where
  "ignore_missing m = io_try m (\<lambda>r. case r of
      Inl e \<Rightarrow> if error_is ErrNotExist e then io_return () else io_fail e | Inr _ \<Rightarrow> io_return ())"

definition Store_Open :: "string \<Rightarrow> ('a db_scheme, unit) io" where
  "Store_Open path = io_bind migrate (\<lambda>_.
     io_bind (io_map_error (Wrap ''checkpoint database migrations'') (query (\<lambda>_. ()))) (\<lambda>_.
     io_bind fs_nop (\<lambda>_.
       io_each (\<lambda>related. ignore_missing (chmod_related related)) [path @ ''-wal'', path @ ''-shm''])))"

section \<open>The administrator, sessions and settings\<close>

record bootstrap =
  AdminPasswordHash :: string
  AdminPath :: string
  TokenHash :: string
  TokenEncrypted :: string
  NodeStartPort :: int

definition Initialized :: "('a db_scheme, bool) io" where
  "Initialized = io_bind (query (\<lambda>t. length (administrators t))) (\<lambda>admins.
     io_bind (query (\<lambda>t. length (users t))) (\<lambda>us.
     io_bind (query (\<lambda>t. length (filter (\<lambda>r. set_key r = ''admin_path'' \<and> set_value r \<noteq> []) (system_settings t)))) (\<lambda>adminPath.
     io_return (admins = 1 \<and> 1 \<le> us \<and> adminPath = 1))))"

definition insert_setting :: "string \<Rightarrow> string \<Rightarrow> int \<Rightarrow> tables \<Rightarrow> tables" where
  "insert_setting k v now t = t\<lparr>system_settings := system_settings t @ [\<lparr>set_key = k, set_value = v, set_updated = now\<rparr>]\<rparr>"

definition bootstrap_rows :: "bootstrap \<Rightarrow> int \<Rightarrow> ('a db_scheme, unit) io" where
  "bootstrap_rows b now =
     io_bind (statement (\<lambda>t. ((), t\<lparr>administrators := administrators t @
        [\<lparr>adm_id = 1, adm_name = ''admin'', adm_hash = AdminPasswordHash b, adm_created = now, adm_updated = now\<rparr>]\<rparr>))) (\<lambda>_.
     io_bind (statement (\<lambda>t. ((), t\<lparr>users := users t @
        [\<lparr>usr_id = 1, usr_name = ''default'', usr_hash = TokenHash b, usr_enc = TokenEncrypted b,
          usr_enabled = 1, usr_created = now\<rparr>]\<rparr>))) (\<lambda>_.
     io_bind (statement (\<lambda>t. ((), insert_setting ''admin_path'' (AdminPath b) now t))) (\<lambda>_.
     statement (\<lambda>t. ((), insert_setting ''node_start_port'' (itoa (NodeStartPort b)) now t)))))"

definition Store_Bootstrap :: "bootstrap \<Rightarrow> ('a db_scheme, bool) io" where
  "Store_Bootstrap b0 =
     (let b = (if NodeStartPort b0 < 1 \<or> 65535 < NodeStartPort b0 then b0\<lparr>NodeStartPort := 8881\<rparr> else b0)
      in transaction (io_bind (query (\<lambda>t. length (administrators t))) (\<lambda>n.
           if n \<noteq> 0 then io_return (False, False)
           else io_bind unix_now (\<lambda>now. io_bind (bootstrap_rows b now) (\<lambda>_. io_return (True, True))))))"

definition PasswordHash :: "string \<Rightarrow> ('a db_scheme, string) io" where
  "PasswordHash username = query_row (\<lambda>t. map adm_hash (filter (\<lambda>r. adm_name r = username) (administrators t)))"

definition AdministratorUsername :: "('a db_scheme, string) io" where
  "AdministratorUsername = query_row (\<lambda>t. map adm_name (filter (\<lambda>r. adm_id r = 1) (administrators t)))"

definition update_administrator :: "(administrator_row \<Rightarrow> administrator_row) \<Rightarrow> tables \<Rightarrow> nat \<times> tables" where
  "update_administrator f t = (case update_rows (\<lambda>r. adm_id r = 1) f (administrators t) of
      (n, rs) \<Rightarrow> (n, t\<lparr>administrators := rs\<rparr>))"

definition delete_sessions :: "(session_row \<Rightarrow> bool) \<Rightarrow> tables \<Rightarrow> tables" where
  "delete_sessions P t = t\<lparr>sessions := filter (\<lambda>r. \<not> P r) (sessions t)\<rparr>"

definition Store_ChangePassword :: "string \<Rightarrow> ('a db_scheme, unit) io" where
  "Store_ChangePassword hash = transaction (committed (io_bind unix_now (\<lambda>now.
     io_bind (statement (update_administrator (\<lambda>r. r\<lparr>adm_hash := hash, adm_updated := now\<rparr>))) (\<lambda>_.
     statement (\<lambda>t. ((), delete_sessions (\<lambda>_. True) t))))))"

definition ChangeAdministrator :: "string \<Rightarrow> string \<Rightarrow> ('a db_scheme, unit) io" where
  "ChangeAdministrator username hash = transaction (committed (io_bind unix_now (\<lambda>now.
     io_bind (io_map_error normalizeWriteError (statement (update_administrator
        (\<lambda>r. r\<lparr>adm_name := username, adm_hash := hash, adm_updated := now\<rparr>)))) (\<lambda>n.
     if n \<noteq> 1 then io_fail (Err ''administrator account does not exist'')
     else statement (\<lambda>t. ((), delete_sessions (\<lambda>_. True) t))))))"

definition CreateSession :: "session \<Rightarrow> string \<Rightarrow> ('a db_scheme, unit) io" where
  "CreateSession ses sourceIP = transaction (committed (io_bind unix_now (\<lambda>now.
     io_bind (statement (\<lambda>t. ((), delete_sessions (\<lambda>r. ses_expires r \<le> now) t))) (\<lambda>_.
     io_bind unix_now (\<lambda>created. statement (\<lambda>t. ((), t\<lparr>sessions := sessions t @
       [\<lparr>ses_hash = token_hash ses, ses_csrf = csrf_token ses, ses_ip = sourceIP,
         ses_expires = session_expires ses, ses_created = created\<rparr>]\<rparr>)))))))"

definition Store_Session :: "string \<Rightarrow> ('a db_scheme, session) io" where
  "Store_Session tokenHash = io_bind unix_now (\<lambda>now. query_row (\<lambda>t.
     map (\<lambda>r. \<lparr>token_hash = ses_hash r, csrf_token = ses_csrf r, session_expires = ses_expires r\<rparr>)
       (filter (\<lambda>r. ses_hash r = tokenHash \<and> now < ses_expires r) (sessions t))))"

definition DeleteSession :: "string \<Rightarrow> ('a db_scheme, unit) io" where
  "DeleteSession tokenHash = statement (\<lambda>t. ((), delete_sessions (\<lambda>r. ses_hash r = tokenHash) t))"

definition Setting :: "string \<Rightarrow> ('a db_scheme, string) io" where
  "Setting k = query_row (\<lambda>t. map set_value (filter (\<lambda>r. set_key r = k) (system_settings t)))"

text \<open>\<open>INSERT ... ON CONFLICT(key) DO UPDATE\<close>.\<close>

definition upsert_setting :: "string \<Rightarrow> string \<Rightarrow> int \<Rightarrow> tables \<Rightarrow> tables" where
  "upsert_setting k v now t =
     (if k \<in> set_key ` set (system_settings t)
      then t\<lparr>system_settings := map (\<lambda>r. if set_key r = k then r\<lparr>set_value := v, set_updated := now\<rparr> else r) (system_settings t)\<rparr>
      else insert_setting k v now t)"

definition SetSetting :: "string \<Rightarrow> string \<Rightarrow> ('a db_scheme, unit) io" where
  "SetSetting k v = io_bind unix_now (\<lambda>now. statement (\<lambda>t. ((), upsert_setting k v now t)))"

definition SecretSetting :: "sealer \<Rightarrow> string \<Rightarrow> ('a db_scheme, string) io" where
  "SecretSetting blk k = io_bind (Setting k) (\<lambda>v. io_of (Open blk v))"

definition SetSecretSetting :: "sealer \<Rightarrow> string \<Rightarrow> string \<Rightarrow> ('a db_scheme, unit) io" where
  "SetSecretSetting blk k v = io_bind (Seal blk v) (\<lambda>sealed. SetSetting k sealed)"

definition DeleteSetting :: "string \<Rightarrow> ('a db_scheme, unit) io" where
  "DeleteSetting k = statement (\<lambda>t. ((), t\<lparr>system_settings := filter (\<lambda>r. set_key r \<noteq> k) (system_settings t)\<rparr>))"

section \<open>Users\<close>

definition user_of :: "user_row \<Rightarrow> user" where
  "user_of r = \<lparr>user_id = usr_id r, user_name = usr_name r, sub_token_hash = usr_hash r, sub_token_enc = usr_enc r\<rparr>"

definition DefaultUser :: "('a db_scheme, user) io" where
  "DefaultUser = query_row (\<lambda>t. map user_of (filter (\<lambda>r. usr_id r = 1) (users t)))"

definition UserByTokenHash :: "string \<Rightarrow> ('a db_scheme, user) io" where
  "UserByTokenHash hash = query_row (\<lambda>t. map user_of (filter (\<lambda>r. usr_hash r = hash \<and> usr_enabled r = 1) (users t)))"

definition ResetSubscriptionToken :: "string \<Rightarrow> string \<Rightarrow> ('a db_scheme, unit) io" where
  "ResetSubscriptionToken hash encrypted = statement (\<lambda>t. ((), t\<lparr>users :=
     map (\<lambda>r. if usr_id r = 1 then r\<lparr>usr_hash := hash, usr_enc := encrypted\<rparr> else r) (users t)\<rparr>))"

definition SubscriptionToken :: "sealer \<Rightarrow> ('a db_scheme, string) io" where
  "SubscriptionToken blk = io_bind DefaultUser (\<lambda>u. io_of (Open blk (sub_token_enc u)))"

section \<open>Outbounds\<close>

definition unmarshal_credential :: "string \<Rightarrow> error + string \<times> string" where
  "unmarshal_credential s = (case json_parse s of
      Some (JObj kvs) \<Rightarrow> (case (field_string kvs ''username'', field_string kvs ''password'') of
          (Inr u, Inr p) \<Rightarrow> Inr (u, p) | (Inl e, _) \<Rightarrow> Inl e | (_, Inl e) \<Rightarrow> Inl e)
    | Some JNull \<Rightarrow> Inr ([], [])
    | _ \<Rightarrow> Inl (Err ''json: cannot unmarshal into struct''))"

definition scanOutbound :: "sealer \<Rightarrow> outbound_row \<Rightarrow> error + outbound" where
  "scanOutbound blk r = (case Open blk (or_credential r) of
      Inl e \<Rightarrow> Inl e
    | Inr plain \<Rightarrow> (case unmarshal_credential plain of
          Inl e \<Rightarrow> Inl e
        | Inr (username, password) \<Rightarrow> Inr \<lparr>out_id = or_id r, out_name = or_name r, out_type = or_type r,
            out_server = or_server r, out_port = or_port r, out_enabled = (or_enabled r = 1),
            out_username = username, out_password = password, out_managed = defaultManagedKind (or_managed r),
            out_status = or_status r, out_observed = or_observed r, out_country = or_country r,
            out_asn = or_asn r, out_error = or_error r, out_checked = or_checked r,
            out_created = or_created r, out_updated = or_updated r\<rparr>))"

definition ListOutbounds :: "sealer \<Rightarrow> ('a db_scheme, outbound list) io" where
  "ListOutbounds blk = query_rows (\<lambda>t. sort_key or_id (outbounds t)) (scanOutbound blk)"

definition Store_Outbound :: "sealer \<Rightarrow> int \<Rightarrow> ('a db_scheme, outbound) io" where
  "Store_Outbound blk i = io_bind (query_row (\<lambda>t. filter (\<lambda>r. or_id r = i) (outbounds t))) (\<lambda>r. io_of (scanOutbound blk r))"

definition credential_obj :: "outbound \<Rightarrow> obj" where
  "credential_obj ob = [(''username'', JStr (out_username ob)), (''password'', JStr (out_password ob))]"

definition insert_outbound :: "outbound_row \<Rightarrow> tables \<Rightarrow> int \<times> tables" where
  "insert_outbound r t = (or_id r, t\<lparr>outbounds := outbounds t @ [r]\<rparr>)"

definition new_outbound_row :: "outbound \<Rightarrow> string \<Rightarrow> int \<Rightarrow> tables \<Rightarrow> outbound_row" where
  "new_outbound_row ob encrypted now t = \<lparr>or_id = next_rowid (map or_id (outbounds t)), or_name = out_name ob,
     or_type = out_type ob, or_server = out_server ob, or_port = out_port ob, or_enabled = boolInt (out_enabled ob),
     or_credential = encrypted, or_managed = defaultManagedKind (out_managed ob), or_status = out_status ob,
     or_observed = [], or_country = [], or_asn = [], or_error = [], or_checked = None,
     or_created = now, or_updated = now\<rparr>"

definition CreateOutbound :: "sealer \<Rightarrow> outbound \<Rightarrow> ('a db_scheme, outbound) io" where
  "CreateOutbound blk ob = io_bind (encryptJSON blk (credential_obj ob)) (\<lambda>encrypted.
     io_bind unix_now (\<lambda>now.
     io_bind (io_map_error normalizeWriteError (statement (\<lambda>t. insert_outbound (new_outbound_row ob encrypted now t) t))) (\<lambda>i.
     Store_Outbound blk i)))"

definition set_outbound :: "outbound \<Rightarrow> string \<Rightarrow> int \<Rightarrow> outbound_row \<Rightarrow> outbound_row" where
  "set_outbound ob encrypted now r = r\<lparr>or_name := out_name ob, or_type := out_type ob, or_server := out_server ob,
     or_port := out_port ob, or_enabled := boolInt (out_enabled ob), or_credential := encrypted,
     or_managed := defaultManagedKind (out_managed ob), or_status := out_status ob, or_observed := out_observed ob,
     or_country := out_country ob, or_asn := out_asn ob, or_error := out_error ob, or_checked := out_checked ob,
     or_updated := now\<rparr>"

definition update_outbounds :: "int \<Rightarrow> (outbound_row \<Rightarrow> outbound_row) \<Rightarrow> tables \<Rightarrow> nat \<times> tables" where
  "update_outbounds i f t = (case update_rows (\<lambda>r. or_id r = i) f (outbounds t) of
      (n, rs) \<Rightarrow> (n, t\<lparr>outbounds := rs\<rparr>))"

definition UpdateOutbound :: "sealer \<Rightarrow> outbound \<Rightarrow> ('a db_scheme, unit) io" where
  "UpdateOutbound blk ob = io_bind (encryptJSON blk (credential_obj ob)) (\<lambda>encrypted. io_bind unix_now (\<lambda>now.
     io_bind (io_map_error normalizeWriteError (statement (update_outbounds (out_id ob) (set_outbound ob encrypted now))))
       (affected_row ErrNoRows)))"

text \<open>Deleting an outbound deletes its exit; a node that uses it makes the statement fail.\<close>

definition delete_outbound :: "int \<Rightarrow> tables \<Rightarrow> nat \<times> tables" where
  "delete_outbound i t = (length (filter (\<lambda>r. or_id r = i) (outbounds t)),
     t\<lparr>outbounds := filter (\<lambda>r. or_id r \<noteq> i) (outbounds t),
       vpngate_exits := filter (\<lambda>r. exit_outbound r \<noteq> i) (vpngate_exits t)\<rparr>)"

definition in_use :: "string \<Rightarrow> error \<Rightarrow> error" where
  "in_use what e = (if contains (to_lower (error_text e)) ''foreign key constraint''
     then Wrap what ErrConflict else e)"

definition DeleteOutbound :: "int \<Rightarrow> ('a db_scheme, unit) io" where
  "DeleteOutbound i = io_bind (io_map_error (in_use ''outbound is in use'') (statement (delete_outbound i)))
     (affected_row ErrNoRows)"

definition RestoreOutbound :: "sealer \<Rightarrow> outbound \<Rightarrow> ('a db_scheme, unit) io" where
  "RestoreOutbound blk ob = io_bind (encryptJSON blk (credential_obj ob)) (\<lambda>encrypted.
     io_bind (io_map_error normalizeWriteError (statement (insert_outbound
       \<lparr>or_id = out_id ob, or_name = out_name ob, or_type = out_type ob, or_server = out_server ob,
        or_port = out_port ob, or_enabled = boolInt (out_enabled ob), or_credential = encrypted,
        or_managed = defaultManagedKind (out_managed ob), or_status = out_status ob, or_observed = out_observed ob,
        or_country = out_country ob, or_asn = out_asn ob, or_error = out_error ob, or_checked = out_checked ob,
        or_created = out_created ob, or_updated = out_updated ob\<rparr>))) (\<lambda>_. io_return ()))"

section \<open>VPNGate candidates and exits\<close>

definition candidate_row_of :: "candidate \<Rightarrow> string \<Rightarrow> candidate_row" where
  "candidate_row_of c encrypted = \<lparr>ca_host = host_name c, ca_ip = cand_ip c, ca_score = score c, ca_ping = ping c,
     ca_speed = speed c, ca_country_long = country_long c, ca_country_short = country_short c,
     ca_sessions = num_sessions c, ca_uptime = uptime c, ca_config = encrypted, ca_fetched = fetched_at c\<rparr>"

definition insert_candidate :: "sealer \<Rightarrow> candidate \<Rightarrow> ('a db_scheme, unit) io" where
  "insert_candidate blk c = io_bind (Seal blk (openvpn_config c)) (\<lambda>encrypted.
     statement (\<lambda>t. ((), t\<lparr>vpngate_candidates := vpngate_candidates t @ [candidate_row_of c encrypted]\<rparr>)))"

definition ReplaceVPNGateCandidates :: "sealer \<Rightarrow> candidate list \<Rightarrow> ('a db_scheme, unit) io" where
  "ReplaceVPNGateCandidates blk cs = transaction (committed (
     io_bind (statement (\<lambda>t. ((), t\<lparr>vpngate_candidates := []\<rparr>))) (\<lambda>_. io_each (insert_candidate blk) cs)))"

definition scanVPNGateCandidate :: "sealer \<Rightarrow> candidate_row \<Rightarrow> error + candidate" where
  "scanVPNGateCandidate blk r = (case Open blk (ca_config r) of
      Inl e \<Rightarrow> Inl e
    | Inr plain \<Rightarrow> Inr \<lparr>host_name = ca_host r, cand_ip = ca_ip r, score = ca_score r, ping = ca_ping r,
        speed = ca_speed r, country_long = ca_country_long r, country_short = ca_country_short r,
        num_sessions = ca_sessions r, uptime = ca_uptime r, openvpn_config = plain, fetched_at = ca_fetched r\<rparr>)"

text \<open>\<open>ORDER BY score DESC, speed DESC\<close>.\<close>

definition ListVPNGateCandidates :: "sealer \<Rightarrow> ('a db_scheme, candidate list) io" where
  "ListVPNGateCandidates blk = query_rows
     (\<lambda>t. sort_key (\<lambda>r. - ca_score r) (sort_key (\<lambda>r. - ca_speed r) (vpngate_candidates t)))
     (scanVPNGateCandidate blk)"

definition Store_VPNGateCandidate :: "sealer \<Rightarrow> string \<Rightarrow> ('a db_scheme, candidate) io" where
  "Store_VPNGateCandidate blk hostName = io_bind (query_row (\<lambda>t. filter (\<lambda>r. ca_host r = hostName) (vpngate_candidates t)))
     (\<lambda>r. io_of (scanVPNGateCandidate blk r))"

definition Store_VPNGateExit :: "int \<Rightarrow> ('a db_scheme, vpn_exit) io" where
  "Store_VPNGateExit i = query_row (\<lambda>t. filter (\<lambda>r. exit_id r = i) (vpngate_exits t))"

definition ListVPNGateExits :: "('a db_scheme, vpn_exit list) io" where
  "ListVPNGateExits = query_rows (\<lambda>t. sort_key slot (vpngate_exits t)) Inr"

definition exit_outbound_row :: "outbound \<Rightarrow> string \<Rightarrow> int \<Rightarrow> tables \<Rightarrow> outbound_row" where
  "exit_outbound_row ob encrypted now t = \<lparr>or_id = next_rowid (map or_id (outbounds t)), or_name = out_name ob,
     or_type = ''socks5'', or_server = out_server ob, or_port = out_port ob, or_enabled = 1,
     or_credential = encrypted, or_managed = ''vpngate'', or_status = ''unchecked'',
     or_observed = [], or_country = out_country ob, or_asn = [], or_error = [], or_checked = None,
     or_created = now, or_updated = now\<rparr>"

definition insert_exit :: "vpn_exit \<Rightarrow> int \<Rightarrow> int \<Rightarrow> tables \<Rightarrow> int \<times> tables" where
  "insert_exit ex outboundID now t = (let i = next_rowid (map exit_id (vpngate_exits t))
     in (i, t\<lparr>vpngate_exits := vpngate_exits t @
          [ex\<lparr>exit_id := i, exit_outbound := outboundID, exit_created := now, exit_updated := now\<rparr>]\<rparr>))"

definition CreateVPNGateExit :: "sealer \<Rightarrow> outbound \<Rightarrow> vpn_exit \<Rightarrow> ('a db_scheme, vpn_exit) io" where
  "CreateVPNGateExit blk ob ex = io_bind (encryptJSON blk (credential_obj ob)) (\<lambda>encrypted.
     io_bind (transaction (committed (io_bind unix_now (\<lambda>now.
       io_bind (io_map_error normalizeWriteError
         (statement (\<lambda>t. insert_outbound (exit_outbound_row ob encrypted now t) t))) (\<lambda>outboundID.
       io_map_error normalizeWriteError (statement (insert_exit ex outboundID now))))))) Store_VPNGateExit)"

definition set_exit :: "vpn_exit \<Rightarrow> int \<Rightarrow> vpn_exit \<Rightarrow> vpn_exit" where
  "set_exit ex now r = r\<lparr>exit_name := exit_name ex, exit_country := exit_country ex, exit_host := exit_host ex,
     exit_ip := exit_ip ex, remote_protocol := remote_protocol ex, remote_port := remote_port ex,
     exit_status := exit_status ex, exit_observed := exit_observed ex, exit_error := exit_error ex,
     failure_policy := failure_policy ex, permanent := permanent ex, expires_at := expires_at ex,
     exit_checked := exit_checked ex, exit_updated := now\<rparr>"

definition update_exits :: "int \<Rightarrow> (vpn_exit \<Rightarrow> vpn_exit) \<Rightarrow> tables \<Rightarrow> nat \<times> tables" where
  "update_exits i f t = (case update_rows (\<lambda>r. exit_id r = i) f (vpngate_exits t) of
      (n, rs) \<Rightarrow> (n, t\<lparr>vpngate_exits := rs\<rparr>))"

definition UpdateVPNGateExit :: "vpn_exit \<Rightarrow> ('a db_scheme, unit) io" where
  "UpdateVPNGateExit ex = io_bind unix_now (\<lambda>now.
     io_bind (io_map_error normalizeWriteError (statement (update_exits (exit_id ex) (set_exit ex now))))
       (affected_row ErrNoRows))"

definition set_health :: "vpn_exit \<Rightarrow> bool \<Rightarrow> int \<Rightarrow> outbound_row \<Rightarrow> outbound_row" where
  "set_health ex healthy now r = r\<lparr>or_status := (if healthy then ''healthy'' else ''unhealthy''),
     or_observed := (if healthy then exit_observed ex else []), or_country := exit_country ex,
     or_error := (if healthy then [] else exit_error ex), or_checked := exit_checked ex, or_updated := now\<rparr>"

definition UpdateVPNGateExitAndHealth :: "vpn_exit \<Rightarrow> bool \<Rightarrow> ('a db_scheme, unit) io" where
  "UpdateVPNGateExitAndHealth ex healthy = transaction (committed (io_bind unix_now (\<lambda>now.
     io_bind (io_map_error normalizeWriteError (statement (update_exits (exit_id ex) (set_exit ex now)))) (\<lambda>n.
     io_bind (affected_row ErrNoRows n) (\<lambda>_.
     io_bind (io_map_error normalizeWriteError (statement (update_outbounds (exit_outbound ex) (set_health ex healthy now))))
       (affected_row ErrNoRows))))))"

definition DeleteVPNGateExit :: "int \<Rightarrow> ('a db_scheme, unit) io" where
  "DeleteVPNGateExit i = io_bind (Store_VPNGateExit i) (\<lambda>ex.
     io_bind (io_map_error (in_use ''VPNGate outbound is in use'') (statement (delete_outbound (exit_outbound ex))))
       (affected_row ErrNoRows))"

section \<open>Nodes and their clients\<close>

definition encodeNode :: "sealer \<Rightarrow> node \<Rightarrow> ('a host_scheme, string \<times> string) io" where
  "encodeNode blk n = io_bind (encryptJSON blk (secret n)) (\<lambda>secretEncrypted.
     io_return (marshal_map (settings n), secretEncrypted))"

definition scanNode :: "sealer \<Rightarrow> node_row \<Rightarrow> error + node" where
  "scanNode blk r = (case unmarshal_map (nr_settings r) of
      Inl e \<Rightarrow> Inl e
    | Inr stngs \<Rightarrow> (case Open blk (nr_secret r) of
          Inl e \<Rightarrow> Inl e
        | Inr secretJSON \<Rightarrow> (case unmarshal_map secretJSON of
              Inl e \<Rightarrow> Inl e
            | Inr scrt \<Rightarrow> Inr \<lparr>node_id = nr_id r, node_name = nr_name r, protocol = nr_protocol r,
                listen = nr_listen r, port = nr_port r, node_enabled = (nr_enabled r = 1),
                public_host_override = nr_host r, node_outbound = nr_outbound r, settings = stngs,
                secret = scrt, node_status = nr_status r, node_created = nr_created r,
                node_updated = nr_updated r\<rparr>)))"

definition ListNodes :: "sealer \<Rightarrow> ('a db_scheme, node list) io" where
  "ListNodes blk = query_rows (\<lambda>t. sort_key nr_id (nodes t)) (scanNode blk)"

definition Store_Node :: "sealer \<Rightarrow> int \<Rightarrow> ('a db_scheme, node) io" where
  "Store_Node blk i = io_bind (query_row (\<lambda>t. filter (\<lambda>r. nr_id r = i) (nodes t))) (\<lambda>r. io_of (scanNode blk r))"

definition node_row_of :: "node \<Rightarrow> string \<Rightarrow> string \<Rightarrow> int \<Rightarrow> int \<Rightarrow> int \<Rightarrow> node_row" where
  "node_row_of n settingsJSON secretEncrypted i created updated = \<lparr>nr_id = i, nr_name = node_name n,
     nr_protocol = protocol n, nr_listen = listen n, nr_port = port n, nr_enabled = boolInt (node_enabled n),
     nr_host = public_host_override n, nr_settings = settingsJSON, nr_secret = secretEncrypted,
     nr_status = node_status n, nr_created = created, nr_updated = updated, nr_outbound = node_outbound n\<rparr>"

definition insert_node :: "node_row \<Rightarrow> tables \<Rightarrow> int \<times> tables" where
  "insert_node r t = (nr_id r, t\<lparr>nodes := nodes t @ [r]\<rparr>)"

definition insert_client :: "client_row \<Rightarrow> tables \<Rightarrow> int \<times> tables" where
  "insert_client r t = (cr_id r, t\<lparr>node_clients := node_clients t @ [r]\<rparr>)"

text \<open>A new client belongs to the user 1 and is enabled.\<close>

definition new_client_row :: "int \<Rightarrow> string \<Rightarrow> string \<Rightarrow> int \<Rightarrow> tables \<Rightarrow> client_row" where
  "new_client_row nodeID namestr encrypted now t = \<lparr>cr_id = next_rowid (map cr_id (node_clients t)), cr_node = nodeID,
     cr_user = 1, cr_name = namestr, cr_credential = encrypted, cr_enabled = 1, cr_created = now\<rparr>"

definition add_node :: "node \<Rightarrow> string \<Rightarrow> string \<Rightarrow> string \<Rightarrow> string \<Rightarrow> ('a db_scheme, node) io" where
  "add_node n settingsJSON secretEncrypted clientName credentialEncrypted = io_bind unix_now (\<lambda>now.
     io_bind (io_map_error normalizeWriteError (statement (\<lambda>t. insert_node
       (node_row_of n settingsJSON secretEncrypted (next_rowid (map nr_id (nodes t))) now now) t))) (\<lambda>i.
     io_bind (io_map_error normalizeWriteError (statement (\<lambda>t. insert_client
       (new_client_row i clientName credentialEncrypted now t) t))) (\<lambda>_.
     io_return (n\<lparr>node_id := i, node_created := now, node_updated := now\<rparr>))))"

definition CreateNode :: "sealer \<Rightarrow> node \<Rightarrow> client \<Rightarrow> ('a db_scheme, node) io" where
  "CreateNode blk n c = io_bind (encodeNode blk n) (\<lambda>(settingsJSON, secretEncrypted).
     io_bind (encryptJSON blk (credential c)) (\<lambda>credentialEncrypted.
     transaction (committed (add_node n settingsJSON secretEncrypted (client_name c) credentialEncrypted))))"

definition set_node :: "node \<Rightarrow> string \<Rightarrow> string \<Rightarrow> int \<Rightarrow> node_row \<Rightarrow> node_row" where
  "set_node n settingsJSON secretEncrypted now r = r\<lparr>nr_name := node_name n, nr_listen := listen n, nr_port := port n,
     nr_enabled := boolInt (node_enabled n), nr_host := public_host_override n, nr_settings := settingsJSON,
     nr_secret := secretEncrypted, nr_status := node_status n, nr_updated := now, nr_outbound := node_outbound n\<rparr>"

definition update_nodes :: "int \<Rightarrow> (node_row \<Rightarrow> node_row) \<Rightarrow> tables \<Rightarrow> nat \<times> tables" where
  "update_nodes i f t = (case update_rows (\<lambda>r. nr_id r = i) f (nodes t) of (n, rs) \<Rightarrow> (n, t\<lparr>nodes := rs\<rparr>))"

definition UpdateNode :: "sealer \<Rightarrow> node \<Rightarrow> ('a db_scheme, unit) io" where
  "UpdateNode blk n = io_bind (encodeNode blk n) (\<lambda>(settingsJSON, secretEncrypted). io_bind unix_now (\<lambda>now.
     io_bind (io_map_error normalizeWriteError (statement (update_nodes (node_id n) (set_node n settingsJSON secretEncrypted now))))
       (affected_row ErrNoRows)))"

definition delete_node :: "int \<Rightarrow> tables \<Rightarrow> nat \<times> tables" where
  "delete_node i t = (length (filter (\<lambda>r. nr_id r = i) (nodes t)), delete_nodes (\<lambda>r. nr_id r = i) t)"

definition DeleteNode :: "int \<Rightarrow> ('a db_scheme, unit) io" where
  "DeleteNode i = io_bind (statement (delete_node i)) (affected_row ErrNoRows)"

definition restored_client_row :: "int \<Rightarrow> client \<Rightarrow> string \<Rightarrow> client_row" where
  "restored_client_row nodeID c encrypted = \<lparr>cr_id = client_id c, cr_node = nodeID, cr_user = client_user c,
     cr_name = client_name c, cr_credential = encrypted, cr_enabled = boolInt (client_enabled c),
     cr_created = client_created c\<rparr>"

definition restore_client :: "sealer \<Rightarrow> int \<Rightarrow> client \<Rightarrow> ('a db_scheme, unit) io" where
  "restore_client blk nodeID c = io_bind (encryptJSON blk (credential c)) (\<lambda>encrypted.
     io_bind (statement (insert_client (restored_client_row nodeID c encrypted))) (\<lambda>_. io_return ()))"

definition RestoreNode :: "sealer \<Rightarrow> node \<Rightarrow> client list \<Rightarrow> ('a db_scheme, unit) io" where
  "RestoreNode blk n cs = io_bind (encodeNode blk n) (\<lambda>(settingsJSON, secretEncrypted).
     transaction (committed (
       io_bind (statement (insert_node (node_row_of n settingsJSON secretEncrypted (node_id n) (node_created n) (node_updated n)))) (\<lambda>_.
       io_each (restore_client blk (node_id n)) cs))))"

definition scan_client :: "sealer \<Rightarrow> client_row \<Rightarrow> error + client" where
  "scan_client blk r = (case Open blk (cr_credential r) of
      Inl e \<Rightarrow> Inl e
    | Inr plain \<Rightarrow> (case unmarshal_map plain of
          Inl e \<Rightarrow> Inl e
        | Inr cred \<Rightarrow> Inr \<lparr>client_id = cr_id r, client_node = cr_node r, client_user = cr_user r,
            client_name = cr_name r, client_enabled = (cr_enabled r = 1), credential = cred,
            client_created = cr_created r\<rparr>))"

definition Clients :: "sealer \<Rightarrow> int \<Rightarrow> ('a db_scheme, client list) io" where
  "Clients blk nodeID = query_rows
     (\<lambda>t. sort_key cr_id (filter (\<lambda>r. cr_node r = nodeID) (node_clients t))) (scan_client blk)"

definition CreateClient :: "sealer \<Rightarrow> client \<Rightarrow> ('a db_scheme, client) io" where
  "CreateClient blk c = io_bind (encryptJSON blk (credential c)) (\<lambda>encrypted. io_bind unix_now (\<lambda>now.
     io_bind (statement (\<lambda>t. insert_client (new_client_row (client_node c) (client_name c) encrypted now t) t)) (\<lambda>i.
     io_return (c\<lparr>client_id := i, client_created := now\<rparr>))))"

definition RestoreClient :: "sealer \<Rightarrow> client \<Rightarrow> ('a db_scheme, unit) io" where
  "RestoreClient blk c = restore_client blk (client_node c) c"

definition update_clients :: "(client_row \<Rightarrow> bool) \<Rightarrow> (client_row \<Rightarrow> client_row) \<Rightarrow> tables \<Rightarrow> nat \<times> tables" where
  "update_clients P f t = (case update_rows P f (node_clients t) of (n, rs) \<Rightarrow> (n, t\<lparr>node_clients := rs\<rparr>))"

definition UpdateClient :: "sealer \<Rightarrow> client \<Rightarrow> ('a db_scheme, unit) io" where
  "UpdateClient blk c = io_bind (encryptJSON blk (credential c)) (\<lambda>encrypted.
     io_bind (statement (update_clients (\<lambda>r. cr_id r = client_id c \<and> cr_node r = client_node c)
        (\<lambda>r. r\<lparr>cr_name := client_name c, cr_credential := encrypted, cr_enabled := boolInt (client_enabled c)\<rparr>)))
       (affected_row ErrNoRows))"

definition DeleteClient :: "int \<Rightarrow> int \<Rightarrow> ('a db_scheme, unit) io" where
  "DeleteClient nodeID clientID =
     (let P = (\<lambda>r. cr_id r = clientID \<and> cr_node r = nodeID)
      in io_bind (statement (\<lambda>t. (length (filter P (node_clients t)),
             t\<lparr>node_clients := filter (\<lambda>r. \<not> P r) (node_clients t)\<rparr>))) (affected_row ErrNoRows))"

text \<open>The ports of several nodes and the start of their range, in one transaction: every node first
  moves to minus its id, so that nodes may exchange their ports.\<close>

definition park_node :: "int \<Rightarrow> node \<Rightarrow> ('a db_scheme, unit) io" where
  "park_node now n = io_bind (io_map_error normalizeWriteError (statement (update_nodes (node_id n)
     (\<lambda>r. r\<lparr>nr_port := - node_id n, nr_updated := now\<rparr>)))) (\<lambda>_. io_return ())"

definition place_node :: "int \<Rightarrow> node \<Rightarrow> ('a db_scheme, unit) io" where
  "place_node now n = io_bind (io_map_error normalizeWriteError (statement (update_nodes (node_id n)
     (\<lambda>r. r\<lparr>nr_name := node_name n, nr_port := port n, nr_status := node_status n, nr_updated := now\<rparr>))))
     (affected_row ErrNoRows)"

definition SetNodePortsAndStart :: "int \<Rightarrow> node list \<Rightarrow> ('a db_scheme, unit) io" where
  "SetNodePortsAndStart startPort ns = transaction (committed (io_bind unix_now (\<lambda>now.
     io_bind (io_each (park_node now) ns) (\<lambda>_.
     io_bind (io_each (place_node now) ns) (\<lambda>_.
     statement (\<lambda>t. ((), upsert_setting ''node_start_port'' (itoa startPort) now t)))))))"

section \<open>Configuration versions and events\<close>

text \<open>\<open>DELETE ... WHERE id NOT IN (SELECT id ... ORDER BY id DESC LIMIT k)\<close>: the largest ids stay.\<close>

definition latest_ids :: "nat \<Rightarrow> int list \<Rightarrow> int list" where
  "latest_ids k ids = take k (rev (sort ids))"

definition latest_version :: "tables \<Rightarrow> version_row list" where
  "latest_version t = take 1 (rev (sort_key ver_id (config_versions t)))"

definition same_version :: "sealer \<Rightarrow> string \<Rightarrow> bool \<Rightarrow> version_row list \<Rightarrow> error + bool" where
  "same_version blk config healthy rows = (case rows of
      [] \<Rightarrow> Inr False
    | r # _ \<Rightarrow> (case Open blk (ver_config r) of
          Inl e \<Rightarrow> Inl (Wrap ''decrypt latest configuration version'' e)
        | Inr latest \<Rightarrow> Inr (latest = config \<and> ver_healthy r = boolInt healthy)))"

definition insert_version :: "string \<Rightarrow> bool \<Rightarrow> int \<Rightarrow> tables \<Rightarrow> tables" where
  "insert_version encrypted healthy now t = t\<lparr>config_versions := config_versions t @
     [\<lparr>ver_id = next_rowid (map ver_id (config_versions t)), ver_config = encrypted,
       ver_healthy = boolInt healthy, ver_created = now\<rparr>]\<rparr>"

definition prune_versions :: "tables \<Rightarrow> tables" where
  "prune_versions t = t\<lparr>config_versions :=
     filter (\<lambda>r. ver_id r \<in> set (latest_ids 10 (map ver_id (config_versions t)))) (config_versions t)\<rparr>"

definition add_version :: "sealer \<Rightarrow> string \<Rightarrow> bool \<Rightarrow> ('a db_scheme, unit) io" where
  "add_version blk config healthy = io_bind (Seal blk config) (\<lambda>encrypted. io_bind unix_now (\<lambda>now.
     io_bind (statement (\<lambda>t. ((), insert_version encrypted healthy now t))) (\<lambda>_.
     statement (\<lambda>t. ((), prune_versions t)))))"

definition SaveConfigVersion :: "sealer \<Rightarrow> string \<Rightarrow> bool \<Rightarrow> ('a db_scheme, unit) io" where
  "SaveConfigVersion blk config healthy = transaction (
     io_bind (query latest_version) (\<lambda>rows.
     io_bind (io_of (same_version blk config healthy rows)) (\<lambda>same.
     if same then io_return (False, ()) else committed (add_version blk config healthy))))"

definition LatestConfigVersion :: "('a db_scheme, int) io" where
  "LatestConfigVersion = query (\<lambda>t. case map ver_id (config_versions t) of [] \<Rightarrow> 0 | i # is \<Rightarrow> foldl max i is)"

definition RecordEvent :: "string \<Rightarrow> string \<Rightarrow> string \<Rightarrow> ('a db_scheme, unit) io" where
  "RecordEvent level code message =
     (if level \<notin> {''info'', ''warning'', ''error''} then io_fail (Err ''unsupported event level'')
      else if code = [] \<or> message = [] then io_fail (Err ''event code and message are required'')
      else io_bind unix_now (\<lambda>now.
        io_bind (statement (\<lambda>t. ((), insert_event level code message now t))) (\<lambda>_.
        statement (\<lambda>t. ((), t\<lparr>system_events :=
          filter (\<lambda>r. ev_id r \<in> set (latest_ids 200 (map ev_id (system_events t)))) (system_events t)\<rparr>)))))"

definition RecentEvents :: "int \<Rightarrow> ('a db_scheme, event_row list) io" where
  "RecentEvents limit = query_rows (\<lambda>t. take (nat (if limit < 1 \<or> 100 < limit then 10 else limit))
     (rev (sort_key ev_id (system_events t)))) Inr"

section \<open>The firewall rules the panel tracks\<close>

record managed_rule =
  rule_protocol :: string
  rule_port :: int
  rule_ownership :: string
  rule_backend :: string

definition ManagedFirewallRules :: "('a db_scheme, managed_rule list) io" where
  "ManagedFirewallRules = query_rows (\<lambda>t. sort_key fw_protocol (sort_key fw_port (managed_firewall_rules t)))
     (\<lambda>r. Inr \<lparr>rule_protocol = fw_protocol r, rule_port = fw_port r, rule_ownership = fw_ownership r,
        rule_backend = fw_backend r\<rparr>)"

definition SetFirewallRuleOwnership :: "string \<Rightarrow> int \<Rightarrow> string \<Rightarrow> string \<Rightarrow> ('a db_scheme, unit) io" where
  "SetFirewallRuleOwnership proto portn ownership backend =
     (if ownership \<noteq> FirewallOwned \<and> ownership \<noteq> FirewallBorrowed then io_fail (Err ''invalid firewall ownership'')
      else if backend \<noteq> FirewallFirewalld \<and> backend \<noteq> FirewallUFW \<and> backend \<noteq> FirewallNFTables
      then io_fail (Err ''invalid firewall backend'')
      else io_bind (statement (\<lambda>t. case update_rows (\<lambda>r. rule_key r = (proto, portn))
             (\<lambda>r. r\<lparr>fw_ownership := ownership, fw_backend := backend\<rparr>) (managed_firewall_rules t) of
               (n, rs) \<Rightarrow> (n, t\<lparr>managed_firewall_rules := rs\<rparr>))) (\<lambda>changed.
        if changed \<noteq> 1 then io_fail (Err ''managed firewall rule disappeared while recording ownership'')
        else io_return ()))"

definition insert_rule :: "managed_rule \<Rightarrow> int \<Rightarrow> tables \<Rightarrow> tables" where
  "insert_rule r now t = t\<lparr>managed_firewall_rules := managed_firewall_rules t @
     [\<lparr>fw_protocol = rule_protocol r, fw_port = rule_port r, fw_created = now,
       fw_ownership = rule_ownership r, fw_backend = rule_backend r\<rparr>]\<rparr>"

definition tracked :: "string \<Rightarrow> int \<Rightarrow> tables \<Rightarrow> bool" where
  "tracked proto portn t \<longleftrightarrow> (proto, portn) \<in> rule_key ` set (managed_firewall_rules t)"

definition TrackFirewallRule :: "string \<Rightarrow> int \<Rightarrow> ('a db_scheme, unit) io" where
  "TrackFirewallRule proto portn = io_bind unix_now (\<lambda>now. statement (\<lambda>t. ((),
     if tracked proto portn t then t
     else insert_rule \<lparr>rule_protocol = proto, rule_port = portn, rule_ownership = FirewallPending,
            rule_backend = FirewallUnknown\<rparr> now t)))"

definition ForgetFirewallRule :: "string \<Rightarrow> int \<Rightarrow> ('a db_scheme, unit) io" where
  "ForgetFirewallRule proto portn = statement (\<lambda>t. ((), t\<lparr>managed_firewall_rules :=
     filter (\<lambda>r. rule_key r \<noteq> (proto, portn)) (managed_firewall_rules t)\<rparr>))"

definition merged_rule :: "managed_rule \<Rightarrow> firewall_row \<Rightarrow> firewall_row" where
  "merged_rule rule r = (if fw_ownership r = FirewallBorrowed then r
     else r\<lparr>fw_ownership := rule_ownership rule, fw_backend := rule_backend rule\<rparr>)"

definition merge_rule :: "managed_rule \<Rightarrow> int \<Rightarrow> tables \<Rightarrow> tables" where
  "merge_rule rule now t =
     (if tracked (rule_protocol rule) (rule_port rule) t
      then t\<lparr>managed_firewall_rules := map (\<lambda>r. if rule_key r = (rule_protocol rule, rule_port rule)
               then merged_rule rule r else r) (managed_firewall_rules t)\<rparr>
      else insert_rule rule now t)"

definition merge_checked :: "managed_rule \<Rightarrow> ('a db_scheme, unit) io" where
  "merge_checked rule =
     (if rule_protocol rule \<noteq> ''tcp'' \<and> rule_protocol rule \<noteq> ''udp'' then io_fail (Err ''invalid recovery firewall protocol'')
      else if rule_port rule < 1 \<or> 65535 < rule_port rule then io_fail (Err ''invalid recovery firewall port'')
      else if rule_ownership rule \<noteq> FirewallPending \<and> rule_ownership rule \<noteq> FirewallOwned then io_return ()
      else if rule_backend rule \<notin> {FirewallUnknown, FirewallFirewalld, FirewallUFW, FirewallNFTables}
      then io_fail (Err ''invalid recovery firewall backend'')
      else io_bind unix_now (\<lambda>now. statement (\<lambda>t. ((), merge_rule rule now t))))"

definition MergeFirewallRecoveryRules :: "managed_rule list \<Rightarrow> ('a db_scheme, unit) io" where
  "MergeFirewallRecoveryRules rules = (if rules = [] then io_return ()
     else transaction (committed (io_each merge_checked rules)))"

section \<open>Maintenance\<close>

text \<open>\<open>PRAGMA integrity_check\<close> answers \<open>ok\<close> when no row violates a \<open>CHECK\<close> or \<open>UNIQUE\<close> constraint (it does
  not look at foreign keys); a damaged file is a failing device here. \<open>VACUUM INTO\<close> writes an image of the tables.\<close>

definition IntegrityCheck :: "('a db_scheme, unit) io" where
  "IntegrityCheck = io_bind (query (\<lambda>t. if checks t \<and> uniques t then ''ok'' else ''damaged'')) (\<lambda>result.
     if result \<noteq> ''ok'' then io_fail (Err ''database integrity check failed'') else io_return ())"

definition Checkpoint :: "('a db_scheme, unit) io" where
  "Checkpoint = query (\<lambda>_. ())"

definition fs_stat :: "string \<Rightarrow> ('a fs_scheme, unit) io" where
  "fs_stat p = attempt (\<lambda>w. (if files w p = None then Inl ErrNotExist else Inr (), w))"

definition vacuum_into :: "(tables \<Rightarrow> string) \<Rightarrow> string \<Rightarrow> ('a db_scheme, unit) io" where
  "vacuum_into img p = attempt (\<lambda>w. (Inr (), put_file p (Some (img (tables w))) w))"

definition Snapshot :: "(tables \<Rightarrow> string) \<Rightarrow> string \<Rightarrow> ('a db_scheme, unit) io" where
  "Snapshot img destination =
     (if \<not> has_prefix destination ''/'' then io_fail (Err ''database snapshot destination must be absolute'')
      else io_try (fs_stat destination) (\<lambda>r. case r of
          Inr _ \<Rightarrow> io_fail (Err ''database snapshot destination already exists'')
        | Inl e \<Rightarrow> if \<not> error_is ErrNotExist e then io_fail e
            else io_bind (io_map_error (Wrap ''create consistent SQLite snapshot'') (vacuum_into img destination)) (\<lambda>_.
              io_try fs_nop (\<lambda>r. case r of
                  Inl e \<Rightarrow> io_try (fs_remove destination) (\<lambda>_. io_fail e)
                | Inr _ \<Rightarrow> io_return ()))))"

section \<open>A concrete database\<close>

definition empty_tables :: tables where
  "empty_tables = \<lparr>administrators = [], sessions = [], users = [], nodes = [], node_clients = [], system_settings = [],
     config_versions = [], system_events = [], managed_firewall_rules = [], outbounds = [], vpngate_candidates = [],
     vpngate_exits = [], user_version = 0\<rparr>"

definition demo_row :: "int \<Rightarrow> int \<Rightarrow> string \<Rightarrow> int option \<Rightarrow> node_row" where
  "demo_row i p proto ob = \<lparr>nr_id = i, nr_name = ''n'', nr_protocol = proto, nr_listen = ''::'', nr_port = p, nr_enabled = 1,
     nr_host = [], nr_settings = ''{}'', nr_secret = [], nr_status = ''applied'', nr_created = 0, nr_updated = 0, nr_outbound = ob\<rparr>"

definition demo_rows :: tables where
  "demo_rows = empty_tables\<lparr>users := [\<lparr>usr_id = 1, usr_name = ''default'', usr_hash = ''h'', usr_enc = ''e'', usr_enabled = 1, usr_created = 0\<rparr>],
     nodes := [demo_row 1 8881 ''trojan_tls'' (Some 7), demo_row 2 8882 ''naive'' None],
     outbounds := [\<lparr>or_id = 7, or_name = ''o'', or_type = ''socks5'', or_server = ''192.0.2.1'', or_port = 1080, or_enabled = 1,
       or_credential = [], or_managed = ''manual'', or_status = [], or_observed = [], or_country = [], or_asn = [], or_error = [],
       or_checked = None, or_created = 0, or_updated = 0\<rparr>],
     managed_firewall_rules := [\<lparr>fw_protocol = ''tcp'', fw_port = 8881, fw_created = 0, fw_ownership = ''borrowed'', fw_backend = ''ufw''\<rparr>],
     user_version := 8\<rparr>"

definition demo_world :: "tables \<Rightarrow> db" where
  "demo_world t = host.extend demo_host \<lparr>tables = t\<rparr>"

lemma demo_world_simps [simp]: "tables (demo_world t) = t" "faulty (demo_world t) = (\<lambda>_. False)" "calls (demo_world t) = 0"
  by (simp_all add: demo_world_def host.defs demo_host_def)

lemma demo_rows_consistent: "consistent demo_rows"
  unfolding consistent_def by (intro conjI; code_simp)

end
