(* ===== verification/StoreLaws.thy ===== *)
theory StoreLaws
  imports Store
begin

text \<open>
  What the database operations promise: every operation keeps the constraints and the bound on the
  configuration history, whatever fails; a failed write leaves the tables as they were, or exactly the one
  change that was committed before the step that failed; a changed password ends every session.
\<close>

section \<open>Reading, and failing without a trace\<close>

named_theorems quiet_intro \<open>computations that leave the tables alone, or leave them alone when they fail\<close>

definition reads_only :: "('a db_scheme, 'b) io \<Rightarrow> bool" where
  "reads_only m \<longleftrightarrow> (\<forall>w. tables (snd (m w)) = tables w)"

definition atomic :: "('a db_scheme, 'b) io \<Rightarrow> bool" where
  "atomic m \<longleftrightarrow> (\<forall>w. consistent (tables w) \<longrightarrow> isl (fst (m w)) \<longrightarrow> tables (snd (m w)) = tables w)"

lemma reads_onlyD: "reads_only m \<Longrightarrow> m w = (r, w') \<Longrightarrow> tables w' = tables w"
  unfolding reads_only_def by (metis snd_conv)

lemma atomicD: "atomic m \<Longrightarrow> m w = (Inl e, w') \<Longrightarrow> consistent (tables w) \<Longrightarrow> tables w' = tables w"
  unfolding atomic_def by (metis fst_conv snd_conv sum.disc(1))

lemma reads_only_return [quiet_intro]: "reads_only (io_return x)"
  by (simp add: reads_only_def)

lemma reads_only_fail [quiet_intro]: "reads_only (io_fail e)"
  by (simp add: reads_only_def)

lemma reads_only_bind [quiet_intro]:
  "reads_only m \<Longrightarrow> (\<And>x. reads_only (f x)) \<Longrightarrow> reads_only (io_bind m f)"
  unfolding reads_only_def io_bind_def by (auto split: prod.splits sum.splits) (metis snd_conv)+

lemma reads_only_try [quiet_intro]:
  "reads_only m \<Longrightarrow> (\<And>r. reads_only (f r)) \<Longrightarrow> reads_only (io_try m f)"
  unfolding reads_only_def io_try_def by (auto split: prod.splits) (metis snd_conv)

lemma reads_only_sum [quiet_intro]:
  "(\<And>e. r = Inl e \<Longrightarrow> reads_only (f e)) \<Longrightarrow> (\<And>x. r = Inr x \<Longrightarrow> reads_only (g x)) \<Longrightarrow>
     reads_only (case r of Inl e \<Rightarrow> f e | Inr x \<Rightarrow> g x)"
  by (cases r) auto

lemma reads_only_if [quiet_intro]: "reads_only m \<Longrightarrow> reads_only n \<Longrightarrow> reads_only (if b then m else n)"
  by simp

lemma reads_only_list [quiet_intro]:
  "reads_only m \<Longrightarrow> (\<And>x xs. reads_only (f x xs)) \<Longrightarrow> reads_only (case r of [] \<Rightarrow> m | x # xs \<Rightarrow> f x xs)"
  by (cases r) auto

lemma reads_only_map_error [quiet_intro]: "reads_only m \<Longrightarrow> reads_only (io_map_error f m)"
  unfolding io_map_error_def by (intro quiet_intro)

lemma reads_only_of [quiet_intro]: "reads_only (io_of r)"
  unfolding io_of_def by (intro quiet_intro)

lemma reads_only_nop [quiet_intro]: "reads_only fs_nop"
  by (simp add: reads_only_def fs_nop_def attempt_def ticked_def)

lemma reads_only_query [quiet_intro]: "reads_only (query f)"
  by (simp add: reads_only_def query_def attempt_def ticked_def)

lemma reads_only_row [quiet_intro]: "reads_only (query_row f)"
  unfolding query_row_def by (intro quiet_intro)

lemma reads_only_rows [quiet_intro]: "reads_only (query_rows f g)"
  unfolding query_rows_def by (intro quiet_intro)

lemma reads_only_now [quiet_intro]: "reads_only unix_now"
  by (simp add: reads_only_def unix_now_def ticked_def)

lemma reads_only_rand [quiet_intro]: "reads_only (rand_read n)"
  by (simp add: reads_only_def rand_read_def attempt_def ticked_def)

lemma reads_only_time: "reads_only time_now"
  by (simp add: reads_only_def time_now_def ticked_def)

lemma reads_only_RandomToken: "reads_only (RandomToken n)"
  unfolding RandomToken_def by (intro quiet_intro)

lemma reads_only_Seal [quiet_intro]: "reads_only (Seal blk p)"
  unfolding Seal_def by (intro quiet_intro)

lemma reads_only_encrypt [quiet_intro]: "reads_only (encryptJSON blk v)"
  unfolding encryptJSON_def by (intro quiet_intro)

lemma reads_only_encode [quiet_intro]: "reads_only (encodeNode blk n)"
  unfolding encodeNode_def by (intro quiet_intro)

lemma reads_only_affected [quiet_intro]: "reads_only (affected_row e n)"
  unfolding affected_row_def by (intro quiet_intro)

lemma reads_only_atomic: "reads_only m \<Longrightarrow> atomic m"
  by (simp add: reads_only_def atomic_def)

lemma atomic_statement [quiet_intro]: "atomic (statement f)"
  by (simp add: atomic_def statement_def attempt_def ticked_def split: prod.splits option.splits)

lemma atomic_bind [quiet_intro]: "reads_only m \<Longrightarrow> (\<And>x. atomic (f x)) \<Longrightarrow> atomic (io_bind m f)"
  unfolding reads_only_def atomic_def io_bind_def
  by (auto split: prod.splits sum.splits) (metis fst_conv snd_conv sum.disc)+

lemma atomic_return [quiet_intro]: "atomic m \<Longrightarrow> atomic (io_bind m (\<lambda>x. io_return (g x)))"
  unfolding atomic_def io_bind_def by (auto split: prod.splits sum.splits)

lemma atomic_map_error [quiet_intro]: "atomic m \<Longrightarrow> atomic (io_map_error f m)"
  unfolding atomic_def io_map_error_def io_try_def by (auto split: prod.splits sum.splits)

lemma atomic_fail [quiet_intro]: "atomic (io_fail e)"
  by (simp add: atomic_def)

lemma atomic_if [quiet_intro]: "atomic m \<Longrightarrow> atomic n \<Longrightarrow> atomic (if b then m else n)"
  by simp

lemma fs_nop_tables: "tables (snd (fs_nop w)) = tables w" for w :: "'a db_scheme"
  by (simp add: fs_nop_def attempt_def ticked_def)

lemma failed_transaction:
  assumes l: "isl (fst (transaction body w))"
  shows "tables (snd (transaction body w)) = tables w"
proof -
  obtain r0 w0 where n: "fs_nop w = (r0, w0)" by (cases "fs_nop w")
  obtain r1 w1 where b: "body w0 = (r1, w1)" by (cases "body w0")
  obtain r2 w2 where c: "fs_nop w1 = (r2, w2)" by (cases "fs_nop w1")
  have "tables w0 = tables w" using fs_nop_tables [of w] n by simp
  then show "tables (snd (transaction body w)) = tables w"
    using l n b c by (auto simp: transaction_def io_bind_def split: sum.splits if_splits prod.splits)
qed

lemma atomic_transaction [quiet_intro]: "atomic (transaction body)"
  by (simp add: atomic_def failed_transaction)

lemma transaction_InrE:
  assumes "transaction body w = (Inr x, w')"
  obtains (rolled_back) w0 w1 where "tables w0 = tables w" and "body w0 = (Inr (False, x), w1)" and "tables w' = tables w"
    | (kept) w0 w1 where "tables w0 = tables w" and "body w0 = (Inr (True, x), w1)" and "tables w' = tables w1"
proof -
  obtain r0 w0 where n: "fs_nop w = (r0, w0)" by (cases "fs_nop w")
  obtain r1 w1 where b: "body w0 = (r1, w1)" by (cases "body w0")
  obtain r2 w2 where c: "fs_nop w1 = (r2, w2)" by (cases "fs_nop w1")
  have t: "tables w0 = tables w" "tables w2 = tables w1"
    using fs_nop_tables [of w] fs_nop_tables [of w1] n c by simp_all
  show ?thesis
  proof (cases "\<exists>y. r1 = Inr (False, y)")
    case True
    then have "r1 = Inr (False, x)" "tables w' = tables w"
      using assms n b c t by (auto simp: transaction_def io_bind_def split: sum.splits)
    then show ?thesis using rolled_back t b by blast
  next
    case False
    then have "r1 = Inr (True, x)" "tables w' = tables w1"
      using assms n b c t by (auto simp: transaction_def io_bind_def split: sum.splits if_splits prod.splits)
    then show ?thesis using kept t b by blast
  qed
qed

lemma committed_InrE:
  assumes "transaction (committed m) w = (Inr x, w')"
  obtains w0 w1 where "tables w0 = tables w" and "m w0 = (Inr x, w1)" and "tables w' = tables w1"
  using assms by (rule transaction_InrE) (auto simp: committed_def elim!: io_bind_InrE intro: that)

lemma statement_InrE:
  assumes "statement f w = (Inr r, w')"
  obtains "f (tables w) = (r, tables w')" and "consistent (tables w')"
  using assms by (auto simp: statement_def attempt_def ticked_def split: prod.splits option.splits if_splits)

section \<open>What every operation keeps\<close>

definition store_ok :: "tables \<Rightarrow> bool" where
  "store_ok t \<longleftrightarrow> consistent t \<and> length (config_versions t) \<le> 10"

definition ok :: "'a db_scheme \<Rightarrow> bool" where
  "ok w \<longleftrightarrow> store_ok (tables w)"

named_theorems keeps_intro \<open>computations that keep the database consistent\<close>
named_theorems row_defs \<open>the effect of single statements on the rows\<close>

lemmas [row_defs] = ddl_def clear_versions_def insert_event_def note_removed_def delete_nodes_def insert_setting_def
  update_administrator_def delete_sessions_def upsert_setting_def insert_outbound_def update_outbounds_def
  delete_outbound_def insert_exit_def update_exits_def insert_node_def insert_client_def update_nodes_def
  delete_node_def update_clients_def insert_rule_def merge_rule_def update_rows_def

lemma keeps_reads: "reads_only m \<Longrightarrow> keeps ok m"
  by (simp add: reads_only_def keeps_def ok_def)

lemma keeps_statement [keeps_intro]:
  assumes "\<And>t. length (config_versions (snd (f t))) \<le> length (config_versions t)"
  shows "keeps ok (statement f :: ('a db_scheme, 'b) io)"
proof (rule keepsI)
  fix w :: "'a db_scheme"
  assume "ok w"
  then show "ok (snd (statement f w))"
    using assms [of "tables w"]
    by (auto simp: ok_def store_ok_def statement_def attempt_def ticked_def split: prod.splits option.splits)
qed

lemma keeps_map_error [keeps_intro]: "keeps ok m \<Longrightarrow> keeps ok (io_map_error f m)"
  unfolding io_map_error_def by (rule keeps_try, assumption, rename_tac r, case_tac r) (simp_all add: keeps_return keeps_fail)

lemma keeps_committed [keeps_intro]: "keeps ok m \<Longrightarrow> keeps ok (committed m)"
  unfolding committed_def by (auto intro!: keeps_bind keeps_return)

lemma keeps_transaction:
  assumes "\<And>w0 x w1. ok w0 \<Longrightarrow> body w0 = (Inr (True, x), w1) \<Longrightarrow> ok w1"
  shows "keeps ok (transaction body)"
proof (rule keepsI)
  fix w :: "'a db_scheme"
  assume w: "ok w"
  obtain r w' where t: "transaction body w = (r, w')" by (cases "transaction body w")
  have "ok w'"
  proof (cases r)
    case (Inl e)
    then have "tables w' = tables w" using failed_transaction [of body w] t by simp
    then show ?thesis using w by (simp add: ok_def)
  next
    case (Inr x)
    then have "transaction body w = (Inr x, w')" using t by simp
    then show ?thesis
    proof (rule transaction_InrE)
      fix w0 w1
      assume "tables w0 = tables w" "body w0 = (Inr (True, x), w1)" "tables w' = tables w1"
      then show "ok w'" using assms [of w0 x w1] w by (simp add: ok_def)
    qed (use w in \<open>simp add: ok_def\<close>)
  qed
  then show "ok (snd (transaction body w))" using t by simp
qed

lemma keeps_transaction_body [keeps_intro]: "keeps ok body \<Longrightarrow> keeps ok (transaction body)"
  by (rule keeps_transaction) (metis keepsD snd_conv)

lemmas [keeps_intro] = keeps_bind keeps_try keeps_each keeps_return keeps_fail

lemma keeps_if [keeps_intro]: "keeps ok m \<Longrightarrow> keeps ok n \<Longrightarrow> keeps ok (if b then m else n)"
  by simp

lemma keeps_pair [keeps_intro]: "(\<And>x y. keeps ok (f x y)) \<Longrightarrow> keeps ok (case p of (x, y) \<Rightarrow> f x y)"
  by (cases p) simp

lemma keeps_sum [keeps_intro]:
  "(\<And>e. keeps ok (f e)) \<Longrightarrow> (\<And>x. keeps ok (g x)) \<Longrightarrow> keeps ok (case r of Inl e \<Rightarrow> f e | Inr x \<Rightarrow> g x)"
  by (cases r) auto

lemma keeps_fs [keeps_intro]: "keeps ok (fs_remove p)" "keeps ok (fs_stat p)" "keeps ok (chmod_related p)"
    "keeps ok (vacuum_into img p)"
  by (auto simp: keeps_def ok_def fs_remove_def fs_stat_def chmod_related_def vacuum_into_def attempt_def ticked_def put_file_def
      split: option.splits)

text \<open>The bound on the history: of distinct ids, as many remain as are selected.\<close>

lemma length_latest: "distinct (map f rs) \<Longrightarrow> length (filter (\<lambda>r. f r \<in> set (latest_ids k (map f rs))) rs) \<le> k"
proof -
  assume d: "distinct (map f rs)"
  let ?kept = "filter (\<lambda>r. f r \<in> set (latest_ids k (map f rs))) rs"
  have "distinct (map f ?kept)" using d by (simp add: distinct_map_filter)
  then have "length ?kept = card (set (map f ?kept))" by (metis distinct_card length_map)
  also have "\<dots> \<le> card (set (latest_ids k (map f rs)))" by (rule card_mono) auto
  also have "\<dots> \<le> k" using card_length [of "latest_ids k (map f rs)"] by (simp add: latest_ids_def)
  finally show ?thesis .
qed

lemma consistent_versions: "consistent t \<Longrightarrow> distinct (map ver_id (config_versions t))"
  by (simp add: consistent_def uniques_def)

lemma add_version_ok:
  assumes "add_version blk config healthy w = (Inr x, w')"
  shows "ok w'"
proof -
  obtain w1 u where 1: "consistent (tables w1)"
    and 2: "statement (\<lambda>t. ((), prune_versions t)) w1 = (Inr u, w')"
    using assms by (auto simp: add_version_def elim!: io_bind_InrE elim: statement_InrE)
  from 2 have "tables w' = prune_versions (tables w1)" "consistent (tables w')"
    by (auto elim: statement_InrE)
  then show ?thesis
    using length_latest [OF consistent_versions [OF 1], of 10]
    by (simp add: ok_def store_ok_def prune_versions_def)
qed

lemma keeps_SaveConfigVersion: "keeps ok (SaveConfigVersion blk config healthy :: ('a db_scheme, unit) io)"
  unfolding SaveConfigVersion_def
proof (rule keeps_transaction)
  fix w0 w1 :: "'a db_scheme" and x
  assume "io_bind (query latest_version) (\<lambda>rows.
     io_bind (io_of (same_version blk config healthy rows)) (\<lambda>same.
     if same then io_return (False, ()) else committed (add_version blk config healthy))) w0 = (Inr (True, x), w1)"
  then obtain w where "add_version blk config healthy w = (Inr x, w1)"
    by (auto elim!: io_bind_InrE simp: committed_def split: if_splits)
  then show "ok w1" by (rule add_version_ok)
qed

lemmas [keeps_intro] = keeps_reads [OF reads_only_nop] keeps_reads [OF reads_only_query] keeps_reads [OF reads_only_row]
  keeps_reads [OF reads_only_rows] keeps_reads [OF reads_only_now] keeps_reads [OF reads_only_Seal]
  keeps_reads [OF reads_only_encrypt] keeps_reads [OF reads_only_encode] keeps_reads [OF reads_only_of]
  keeps_reads [OF reads_only_affected] keeps_SaveConfigVersion

lemma keeps_migration [keeps_intro]:
  "(\<And>now t. length (config_versions (f now t)) \<le> length (config_versions t)) \<Longrightarrow> keeps ok (migration_step f)"
  unfolding migration_step_def by (intro keeps_intro) simp

lemma keeps_apply_migration:
  assumes "\<And>f now t. f \<in> set fs \<Longrightarrow> length (config_versions (f now t)) \<le> length (config_versions t)"
  shows "keeps ok (apply_migration i fs)"
  unfolding apply_migration_def
  by (intro keeps_map_error keeps_transaction_body keeps_committed keeps_bind keeps_each keeps_migration keeps_statement)
     (simp_all add: assms)

lemma migrations_versions:
  "fs \<in> set migrations \<Longrightarrow> f \<in> set fs \<Longrightarrow> length (config_versions (f now t)) \<le> length (config_versions t)"
  by (auto simp: migrations_def row_defs)

lemma keeps_migrate_from:
  "set ms \<subseteq> set migrations \<Longrightarrow> keeps ok (migrate_from i ms)"
proof (induction ms arbitrary: i)
  case (Cons m ms)
  then have "keeps ok (apply_migration i m)" by (intro keeps_apply_migration) (auto dest: migrations_versions)
  then show ?case using Cons by (auto intro!: keeps_bind)
qed (simp add: keeps_return)

lemma keeps_migrate [keeps_intro]: "keeps ok migrate"
  unfolding migrate_def by (intro keeps_intro keeps_migrate_from) (rule set_drop_subset)

text \<open>One step of the database: an operation of the store, in whatever way it ends, or anything that
  happens outside the tables.\<close>

inductive store_step :: "sealer \<Rightarrow> 'a db_scheme \<Rightarrow> 'a db_scheme \<Rightarrow> bool" for blk where
  outside: "tables w' = tables w \<Longrightarrow> store_step blk w w'"
| Store_Open: "store_step blk w (snd (Store_Open path w))"
| Store_Bootstrap: "store_step blk w (snd (Store_Bootstrap b w))"
| ChangePassword: "store_step blk w (snd (Store_ChangePassword hash w))"
| ChangeAdministrator: "store_step blk w (snd (ChangeAdministrator username hash w))"
| CreateSession: "store_step blk w (snd (CreateSession ses sourceIP w))"
| DeleteSession: "store_step blk w (snd (DeleteSession tokenHash w))"
| SetSetting: "store_step blk w (snd (SetSetting k v w))"
| SetSecretSetting: "store_step blk w (snd (SetSecretSetting blk k v w))"
| DeleteSetting: "store_step blk w (snd (DeleteSetting k w))"
| ResetSubscriptionToken: "store_step blk w (snd (ResetSubscriptionToken hash encrypted w))"
| CreateOutbound: "store_step blk w (snd (CreateOutbound blk ob w))"
| UpdateOutbound: "store_step blk w (snd (UpdateOutbound blk ob w))"
| DeleteOutbound: "store_step blk w (snd (DeleteOutbound i w))"
| RestoreOutbound: "store_step blk w (snd (RestoreOutbound blk ob w))"
| ReplaceVPNGateCandidates: "store_step blk w (snd (ReplaceVPNGateCandidates blk cs w))"
| CreateVPNGateExit: "store_step blk w (snd (CreateVPNGateExit blk ob ex w))"
| UpdateVPNGateExit: "store_step blk w (snd (UpdateVPNGateExit ex w))"
| UpdateVPNGateExitAndHealth: "store_step blk w (snd (UpdateVPNGateExitAndHealth ex healthy w))"
| DeleteVPNGateExit: "store_step blk w (snd (DeleteVPNGateExit i w))"
| CreateNode: "store_step blk w (snd (CreateNode blk n c w))"
| UpdateNode: "store_step blk w (snd (UpdateNode blk n w))"
| DeleteNode: "store_step blk w (snd (DeleteNode i w))"
| RestoreNode: "store_step blk w (snd (RestoreNode blk n clients w))"
| CreateClient: "store_step blk w (snd (CreateClient blk c w))"
| RestoreClient: "store_step blk w (snd (RestoreClient blk c w))"
| UpdateClient: "store_step blk w (snd (UpdateClient blk c w))"
| DeleteClient: "store_step blk w (snd (DeleteClient nodeID clientID w))"
| SetNodePortsAndStart: "store_step blk w (snd (SetNodePortsAndStart startPort ns w))"
| SaveConfigVersion: "store_step blk w (snd (SaveConfigVersion blk config good w))"
| RecordEvent: "store_step blk w (snd (RecordEvent level code message w))"
| SetFirewallRuleOwnership: "store_step blk w (snd (SetFirewallRuleOwnership proto portn ownership backend w))"
| TrackFirewallRule: "store_step blk w (snd (TrackFirewallRule proto portn w))"
| ForgetFirewallRule: "store_step blk w (snd (ForgetFirewallRule proto portn w))"
| MergeFirewallRecoveryRules: "store_step blk w (snd (MergeFirewallRecoveryRules rules w))"
| Snapshot: "store_step blk w (snd (Snapshot img destination w))"

lemmas operation_defs = Store_Open_def ignore_missing_def Store_Bootstrap_def bootstrap_rows_def Store_ChangePassword_def
  ChangeAdministrator_def CreateSession_def DeleteSession_def SetSetting_def SetSecretSetting_def DeleteSetting_def
  ResetSubscriptionToken_def Store_Outbound_def CreateOutbound_def UpdateOutbound_def DeleteOutbound_def
  RestoreOutbound_def insert_candidate_def ReplaceVPNGateCandidates_def Store_VPNGateExit_def CreateVPNGateExit_def
  UpdateVPNGateExit_def UpdateVPNGateExitAndHealth_def DeleteVPNGateExit_def add_node_def CreateNode_def UpdateNode_def
  DeleteNode_def restore_client_def RestoreNode_def CreateClient_def RestoreClient_def UpdateClient_def DeleteClient_def
  park_node_def place_node_def SetNodePortsAndStart_def RecordEvent_def SetFirewallRuleOwnership_def
  TrackFirewallRule_def ForgetFirewallRule_def merge_checked_def MergeFirewallRecoveryRules_def Snapshot_def

lemma keeps_Store_Open: "keeps ok (Store_Open path)"
  unfolding operation_defs Let_def by ((intro keeps_intro); simp add: row_defs case_prod_unfold Let_def)

lemma keeps_Store_Bootstrap: "keeps ok (Store_Bootstrap b)"
  unfolding operation_defs Let_def by ((intro keeps_intro); simp add: row_defs case_prod_unfold Let_def)

lemma keeps_Store_ChangePassword: "keeps ok (Store_ChangePassword hash)"
  unfolding operation_defs Let_def by ((intro keeps_intro); simp add: row_defs case_prod_unfold Let_def)

lemma keeps_ChangeAdministrator: "keeps ok (ChangeAdministrator username hash)"
  unfolding operation_defs Let_def by ((intro keeps_intro); simp add: row_defs case_prod_unfold Let_def)

lemma keeps_CreateSession: "keeps ok (CreateSession ses sourceIP)"
  unfolding operation_defs Let_def by ((intro keeps_intro); simp add: row_defs case_prod_unfold Let_def)

lemma keeps_DeleteSession: "keeps ok (DeleteSession tokenHash)"
  unfolding operation_defs Let_def by ((intro keeps_intro); simp add: row_defs case_prod_unfold Let_def)

lemma keeps_SetSetting: "keeps ok (SetSetting k v)"
  unfolding operation_defs Let_def by ((intro keeps_intro); simp add: row_defs case_prod_unfold Let_def)

lemma keeps_SetSecretSetting: "keeps ok (SetSecretSetting blk k v)"
  unfolding operation_defs Let_def by ((intro keeps_intro); simp add: row_defs case_prod_unfold Let_def)

lemma keeps_DeleteSetting: "keeps ok (DeleteSetting k)"
  unfolding operation_defs Let_def by ((intro keeps_intro); simp add: row_defs case_prod_unfold Let_def)

lemma keeps_ResetSubscriptionToken: "keeps ok (ResetSubscriptionToken hash encrypted)"
  unfolding operation_defs Let_def by ((intro keeps_intro); simp add: row_defs case_prod_unfold Let_def)

lemma keeps_CreateOutbound: "keeps ok (CreateOutbound blk ob)"
  unfolding operation_defs Let_def by ((intro keeps_intro); simp add: row_defs case_prod_unfold Let_def)

lemma keeps_UpdateOutbound: "keeps ok (UpdateOutbound blk ob)"
  unfolding operation_defs Let_def by ((intro keeps_intro); simp add: row_defs case_prod_unfold Let_def)

lemma keeps_DeleteOutbound: "keeps ok (DeleteOutbound i)"
  unfolding operation_defs Let_def by ((intro keeps_intro); simp add: row_defs case_prod_unfold Let_def)

lemma keeps_RestoreOutbound: "keeps ok (RestoreOutbound blk ob)"
  unfolding operation_defs Let_def by ((intro keeps_intro); simp add: row_defs case_prod_unfold Let_def)

lemma keeps_ReplaceVPNGateCandidates: "keeps ok (ReplaceVPNGateCandidates blk cs)"
  unfolding operation_defs Let_def by ((intro keeps_intro); simp add: row_defs case_prod_unfold Let_def)

lemma keeps_CreateVPNGateExit: "keeps ok (CreateVPNGateExit blk ob ex)"
  unfolding operation_defs Let_def by ((intro keeps_intro); simp add: row_defs case_prod_unfold Let_def)

lemma keeps_UpdateVPNGateExit: "keeps ok (UpdateVPNGateExit ex)"
  unfolding operation_defs Let_def by ((intro keeps_intro); simp add: row_defs case_prod_unfold Let_def)

lemma keeps_UpdateVPNGateExitAndHealth: "keeps ok (UpdateVPNGateExitAndHealth ex healthy)"
  unfolding operation_defs Let_def by ((intro keeps_intro); simp add: row_defs case_prod_unfold Let_def)

lemma keeps_DeleteVPNGateExit: "keeps ok (DeleteVPNGateExit i)"
  unfolding operation_defs Let_def by ((intro keeps_intro); simp add: row_defs case_prod_unfold Let_def)

lemma keeps_CreateNode: "keeps ok (CreateNode blk n c)"
  unfolding operation_defs Let_def by ((intro keeps_intro); simp add: row_defs case_prod_unfold Let_def)

lemma keeps_UpdateNode: "keeps ok (UpdateNode blk n)"
  unfolding operation_defs Let_def by ((intro keeps_intro); simp add: row_defs case_prod_unfold Let_def)

lemma keeps_DeleteNode: "keeps ok (DeleteNode i)"
  unfolding operation_defs Let_def by ((intro keeps_intro); simp add: row_defs case_prod_unfold Let_def)

lemma keeps_RestoreNode: "keeps ok (RestoreNode blk n clients)"
  unfolding operation_defs Let_def by ((intro keeps_intro); simp add: row_defs case_prod_unfold Let_def)

lemma keeps_CreateClient: "keeps ok (CreateClient blk c)"
  unfolding operation_defs Let_def by ((intro keeps_intro); simp add: row_defs case_prod_unfold Let_def)

lemma keeps_RestoreClient: "keeps ok (RestoreClient blk c)"
  unfolding operation_defs Let_def by ((intro keeps_intro); simp add: row_defs case_prod_unfold Let_def)

lemma keeps_UpdateClient: "keeps ok (UpdateClient blk c)"
  unfolding operation_defs Let_def by ((intro keeps_intro); simp add: row_defs case_prod_unfold Let_def)

lemma keeps_DeleteClient: "keeps ok (DeleteClient nodeID clientID)"
  unfolding operation_defs Let_def by ((intro keeps_intro); simp add: row_defs case_prod_unfold Let_def)

lemma keeps_SetNodePortsAndStart: "keeps ok (SetNodePortsAndStart startPort ns)"
  unfolding operation_defs Let_def by ((intro keeps_intro); simp add: row_defs case_prod_unfold Let_def)

lemma keeps_RecordEvent: "keeps ok (RecordEvent level code message)"
  unfolding operation_defs Let_def by ((intro keeps_intro); simp add: row_defs case_prod_unfold Let_def)

lemma keeps_SetFirewallRuleOwnership: "keeps ok (SetFirewallRuleOwnership proto portn ownership backend)"
  unfolding operation_defs Let_def by ((intro keeps_intro); simp add: row_defs case_prod_unfold Let_def)

lemma keeps_TrackFirewallRule: "keeps ok (TrackFirewallRule proto portn)"
  unfolding operation_defs Let_def by ((intro keeps_intro); simp add: row_defs case_prod_unfold Let_def)

lemma keeps_ForgetFirewallRule: "keeps ok (ForgetFirewallRule proto portn)"
  unfolding operation_defs Let_def by ((intro keeps_intro); simp add: row_defs case_prod_unfold Let_def)

lemma keeps_MergeFirewallRecoveryRules: "keeps ok (MergeFirewallRecoveryRules rules)"
  unfolding operation_defs Let_def by ((intro keeps_intro); simp add: row_defs case_prod_unfold Let_def)

lemma keeps_Snapshot: "keeps ok (Snapshot img destination)"
  unfolding operation_defs Let_def by ((intro keeps_intro); simp add: row_defs case_prod_unfold Let_def)

lemmas operation_keeps = keeps_Store_Open keeps_Store_Bootstrap keeps_Store_ChangePassword keeps_ChangeAdministrator
  keeps_CreateSession keeps_DeleteSession keeps_SetSetting keeps_SetSecretSetting keeps_DeleteSetting
  keeps_ResetSubscriptionToken keeps_CreateOutbound keeps_UpdateOutbound keeps_DeleteOutbound keeps_RestoreOutbound
  keeps_ReplaceVPNGateCandidates keeps_CreateVPNGateExit keeps_UpdateVPNGateExit keeps_UpdateVPNGateExitAndHealth
  keeps_DeleteVPNGateExit keeps_CreateNode keeps_UpdateNode keeps_DeleteNode keeps_RestoreNode keeps_CreateClient
  keeps_RestoreClient keeps_UpdateClient keeps_DeleteClient keeps_SetNodePortsAndStart keeps_SaveConfigVersion
  keeps_RecordEvent keeps_SetFirewallRuleOwnership keeps_TrackFirewallRule keeps_ForgetFirewallRule
  keeps_MergeFirewallRecoveryRules keeps_Snapshot

lemma step_ok: "ok w \<Longrightarrow> store_step blk w w' \<Longrightarrow> ok w'"
  by (erule store_step.cases)
     (simp add: ok_def, (hypsubst, erule keepsD [rotated], rule operation_keeps)+)

definition fresh :: "'a db_scheme \<Rightarrow> bool" where
  "fresh w \<longleftrightarrow> tables w = empty_tables"

lemma empty_ok: "store_ok empty_tables"
  by (simp add: empty_tables_def store_ok_def consistent_def checks_def uniques_def references_def)

interpretation store: transition_system fresh "store_step blk" ok
  by unfold_locales (auto simp: fresh_def ok_def empty_ok intro: step_ok [unfolded ok_def])

lemma one_administrator: "consistent t \<Longrightarrow> length (administrators t) \<le> 1"
proof -
  assume c: "consistent t"
  then have "distinct (map adm_id (administrators t))" "set (map adm_id (administrators t)) \<subseteq> {1}"
    by (auto simp: consistent_def uniques_def checks_def list_all_iff)
  then show ?thesis by (metis card_mono distinct_card finite.emptyI finite.insertI length_map card_insert_disjoint empty_iff card.empty One_nat_def)
qed

lemma five_exits: "consistent t \<Longrightarrow> length (vpngate_exits t) \<le> 5"
proof -
  assume c: "consistent t"
  then have "distinct (map slot (vpngate_exits t))" "set (map slot (vpngate_exits t)) \<subseteq> {1..5}"
    by (auto simp: consistent_def uniques_def checks_def list_all_iff)
  then have "length (map slot (vpngate_exits t)) \<le> card {1..5 :: int}"
    by (metis card_mono distinct_card finite_atLeastAtMost_int)
  then show ?thesis by simp
qed

text \<open>C16: Whatever operations run in whatever order, and whichever of their calls fail, the database keeps every
  constraint of its schema, has at most one administrator and five exits, and at most ten configuration versions.\<close>

theorem database_stays_consistent:
  assumes "(store_step blk)\<^sup>*\<^sup>* w w'" and "fresh w"
  shows "consistent (tables w') \<and> length (administrators (tables w')) \<le> 1 \<and>
    length (vpngate_exits (tables w')) \<le> 5 \<and> length (config_versions (tables w')) \<le> 10"
  using store.inv_reachable [OF assms(2,1)] one_administrator five_exits
  by (simp add: ok_def store_ok_def)

theorem database_stays_consistent_witness:
  "\<exists>w'. w' = snd (Store_Bootstrap \<lparr>AdminPasswordHash = ''h'', AdminPath = ''/a'', TokenHash = ''t'', TokenEncrypted = ''e'',
       NodeStartPort = 10000\<rparr> (demo_world empty_tables)) \<and> length (administrators (tables w')) = 1 \<and> consistent (tables w')"
proof -
  let ?b = "\<lparr>AdminPasswordHash = ''h'', AdminPath = ''/a'', TokenHash = ''t'', TokenEncrypted = ''e'', NodeStartPort = 10000\<rparr>"
  let ?w = "snd (Store_Bootstrap ?b (demo_world empty_tables))"
  have "(store_step id)\<^sup>*\<^sup>* (demo_world empty_tables) ?w"
    using store_step.Store_Bootstrap by blast
  then have "consistent (tables ?w)"
    using database_stays_consistent [of id "demo_world empty_tables" ?w] by (simp add: fresh_def)
  moreover have "length (administrators (tables ?w)) = 1" by code_simp
  ultimately show ?thesis by blast
qed

section \<open>A failed operation changes nothing\<close>

lemma atomic_affected [quiet_intro]:
  assumes "\<And>t. consistent t \<Longrightarrow> fst (g t) = 0 \<Longrightarrow> snd (g t) = t"
  shows "atomic (io_bind (io_map_error f (statement g)) (affected_row e))"
  unfolding atomic_def io_map_error_def affected_row_def
  using assms
  by (auto simp: io_bind_def io_try_def statement_def attempt_def ticked_def split: prod.splits option.splits if_splits)
     (metis fst_conv snd_conv)+

lemma atomic_affected_plain [quiet_intro]:
  assumes "\<And>t. consistent t \<Longrightarrow> fst (g t) = 0 \<Longrightarrow> snd (g t) = t"
  shows "atomic (io_bind (statement g) (affected_row e))"
  unfolding atomic_def affected_row_def
  using assms
  by (auto simp: io_bind_def statement_def attempt_def ticked_def split: prod.splits option.splits if_splits)
     (metis fst_conv snd_conv)+

lemma update_none: "length (filter P rs) = 0 \<Longrightarrow> map (\<lambda>r. if P r then f r else r) rs = rs"
  by (induction rs) (auto split: if_splits)

lemma delete_none: "filter P rs = [] \<Longrightarrow> filter (\<lambda>r. \<not> P r) rs = rs"
  by (induction rs) (auto split: if_splits)

lemma sum_list_filter_none: "length (filter P rs) = 0 \<longleftrightarrow> (\<forall>r\<in>set rs. \<not> P r)"
  by (simp add: filter_empty_conv)

lemma affected_none:
  "fst (update_outbounds i f t) = 0 \<Longrightarrow> snd (update_outbounds i f t) = t"
  "fst (update_exits i g t) = 0 \<Longrightarrow> snd (update_exits i g t) = t"
  "fst (update_nodes i h t) = 0 \<Longrightarrow> snd (update_nodes i h t) = t"
  "fst (update_clients P k t) = 0 \<Longrightarrow> snd (update_clients P k t) = t"
  "fst (delete_node i t) = 0 \<Longrightarrow> snd (delete_node i t) = t"
  by (simp_all add: row_defs update_none delete_none filter_empty_conv)

lemma affected_outbound: "consistent t \<Longrightarrow> fst (delete_outbound i t) = 0 \<Longrightarrow> snd (delete_outbound i t) = t"
  by (fastforce simp: delete_outbound_def filter_empty_conv consistent_def references_def list_all_iff
      intro!: tables.equality filter_True)

lemma changed_once:
  assumes "consistent t"
  shows "length (filter (\<lambda>r. rule_key r = k) (managed_firewall_rules t)) \<le> 1"
proof -
  have "distinct (map rule_key (managed_firewall_rules t))" using assms by (simp add: consistent_def uniques_def)
  then have "distinct (map rule_key (filter (\<lambda>r. rule_key r = k) (managed_firewall_rules t)))"
    by (rule distinct_map_filter)
  moreover have "set (map rule_key (filter (\<lambda>r. rule_key r = k) (managed_firewall_rules t))) \<subseteq> {k}" by auto
  ultimately have "length (map rule_key (filter (\<lambda>r. rule_key r = k) (managed_firewall_rules t))) \<le> card {k}"
    by (metis card_mono distinct_card finite.emptyI finite.insertI)
  then show ?thesis by simp
qed

lemma atomic_DeleteOutbound: "atomic (DeleteOutbound i)"
  unfolding DeleteOutbound_def by (rule atomic_affected) (rule affected_outbound)

lemma atomic_SetFirewallRuleOwnership: "atomic (SetFirewallRuleOwnership proto portn ownership backend)"
proof -
  have "tables w' = tables w" if "consistent (tables w)" and
    "io_bind (statement (\<lambda>t. case update_rows (\<lambda>r. rule_key r = (proto, portn)) (\<lambda>r. r\<lparr>fw_ownership := ownership, fw_backend := backend\<rparr>)
        (managed_firewall_rules t) of (n, rs) \<Rightarrow> (n, t\<lparr>managed_firewall_rules := rs\<rparr>)))
       (\<lambda>changed. if changed \<noteq> 1 then io_fail (Err ''managed firewall rule disappeared while recording ownership'') else io_return ()) w
      = (Inl e, w')" for w w' :: "'a db_scheme" and e
    using that changed_once [OF that(1), of "(proto, portn)"]
    by (auto simp: io_bind_def statement_def attempt_def ticked_def update_rows_def update_none
        split: if_splits option.splits) (simp add: le_Suc_eq update_none)
  then show ?thesis
    unfolding SetFirewallRuleOwnership_def by (intro atomic_if atomic_fail) (auto simp: atomic_def isl_def prod_eq_iff)
qed

definition discard :: "('w, 'x) io \<Rightarrow> ('w, unit) io" where
  "discard m = io_bind m (\<lambda>_. io_return ())"

text \<open>The operations that are one transaction or one statement.\<close>

inductive single_write :: "sealer \<Rightarrow> ('a db_scheme, unit) io \<Rightarrow> bool" for blk where
  "single_write blk (Store_ChangePassword hash)"
| "single_write blk (ChangeAdministrator username hash)"
| "single_write blk (CreateSession ses sourceIP)"
| "single_write blk (DeleteSession tokenHash)"
| "single_write blk (SetSetting k v)"
| "single_write blk (SetSecretSetting blk k v)"
| "single_write blk (DeleteSetting k)"
| "single_write blk (ResetSubscriptionToken hash encrypted)"
| "single_write blk (UpdateOutbound blk ob)"
| "single_write blk (DeleteOutbound i)"
| "single_write blk (RestoreOutbound blk ob)"
| "single_write blk (ReplaceVPNGateCandidates blk cs)"
| "single_write blk (UpdateVPNGateExit ex)"
| "single_write blk (UpdateVPNGateExitAndHealth ex healthy)"
| "single_write blk (DeleteVPNGateExit i)"
| "single_write blk (discard (CreateNode blk n c))"
| "single_write blk (UpdateNode blk n)"
| "single_write blk (DeleteNode i)"
| "single_write blk (RestoreNode blk n clients)"
| "single_write blk (discard (CreateClient blk c))"
| "single_write blk (RestoreClient blk c)"
| "single_write blk (UpdateClient blk c)"
| "single_write blk (DeleteClient nodeID clientID)"
| "single_write blk (SetNodePortsAndStart startPort ns)"
| "single_write blk (SaveConfigVersion blk config healthy)"
| "single_write blk (SetFirewallRuleOwnership proto portn ownership backend)"
| "single_write blk (TrackFirewallRule proto portn)"
| "single_write blk (ForgetFirewallRule proto portn)"
| "single_write blk (MergeFirewallRecoveryRules rules)"
| "single_write blk (discard (Store_Bootstrap b))"
| "single_write blk (Snapshot img destination)"

lemmas atomic_plain = atomic_statement atomic_transaction atomic_map_error
lemmas reads_plain = reads_only_encrypt reads_only_encode reads_only_now reads_only_Seal reads_only_row reads_only_of
  reads_only_affected

lemma atomic_pair: "(\<And>x y. atomic (f x y)) \<Longrightarrow> atomic (case p of (x, y) \<Rightarrow> f x y)"
  by (cases p) simp

lemma reads_only_disk: "reads_only (fs_stat p)" "reads_only (fs_remove p)" "reads_only (vacuum_into img p)"
  by (auto simp: reads_only_def fs_stat_def fs_remove_def vacuum_into_def attempt_def ticked_def put_file_def
      split: option.splits)

lemma single_write_atomic: "single_write blk m \<Longrightarrow> atomic m"
proof (induction rule: single_write.induct)
  case (9 ob)
  show ?case unfolding UpdateOutbound_def
    by (intro atomic_bind reads_plain atomic_affected affected_none)
next
  case (13 ex)
  show ?case unfolding UpdateVPNGateExit_def by (intro atomic_bind reads_plain atomic_affected affected_none)
next
  case (15 i)
  show ?case unfolding DeleteVPNGateExit_def Store_VPNGateExit_def
    by (intro atomic_bind reads_plain atomic_affected affected_outbound)
next
  case (16 n c)
  show ?case unfolding CreateNode_def discard_def
    by (intro atomic_return atomic_bind atomic_pair reads_plain atomic_transaction)
next
  case (17 n)
  show ?case unfolding UpdateNode_def
    by (intro atomic_bind reads_plain atomic_pair atomic_affected affected_none)
next
  case (18 i)
  show ?case unfolding DeleteNode_def by (intro atomic_affected_plain affected_none)
next
  case (19 n clients)
  show ?case unfolding RestoreNode_def by (intro atomic_bind reads_plain atomic_pair atomic_transaction)
next
  case (20 c)
  show ?case unfolding CreateClient_def discard_def
    by (intro atomic_return atomic_bind [OF reads_only_encrypt] atomic_bind [OF reads_only_now] atomic_statement)
next
  case (21 c)
  show ?case unfolding RestoreClient_def restore_client_def
    by (intro atomic_bind [OF reads_only_encrypt] atomic_return atomic_statement)
next
  case (22 c)
  show ?case unfolding UpdateClient_def
    by (intro atomic_bind [OF reads_only_encrypt] atomic_affected_plain affected_none)
next
  case (23 nodeID clientID)
  show ?case unfolding DeleteClient_def Let_def
    by (intro atomic_affected_plain) (auto simp: filter_empty_conv intro!: tables.equality filter_True)
next
  case (30 b)
  show ?case unfolding Store_Bootstrap_def discard_def Let_def by (intro atomic_return atomic_transaction)
next
  case (31 img destination)
  show ?case unfolding Snapshot_def
    by (intro reads_only_atomic reads_only_if reads_only_try reads_only_sum reads_only_bind reads_only_map_error
      reads_only_disk reads_only_nop reads_only_return reads_only_fail)
next
  case (29 rules)
  show ?case unfolding MergeFirewallRecoveryRules_def
    by (intro atomic_if reads_only_atomic [OF reads_only_return] atomic_transaction)
next
  case (11 ob)
  show ?case unfolding RestoreOutbound_def by (intro atomic_bind [OF reads_only_encrypt] atomic_return atomic_plain)
next
  case (6 k v)
  show ?case unfolding SetSecretSetting_def SetSetting_def
    by (intro atomic_bind [OF reads_only_Seal] atomic_bind [OF reads_only_now] atomic_statement)
qed (unfold Store_ChangePassword_def ChangeAdministrator_def CreateSession_def DeleteSession_def SetSetting_def
  DeleteSetting_def ResetSubscriptionToken_def ReplaceVPNGateCandidates_def UpdateVPNGateExitAndHealth_def
  SetNodePortsAndStart_def SaveConfigVersion_def TrackFirewallRule_def ForgetFirewallRule_def,
  auto intro: atomic_statement atomic_transaction atomic_DeleteOutbound atomic_SetFirewallRuleOwnership
    atomic_bind [OF reads_only_now])

lemma map_error_Inr: "io_map_error f m w = (Inr x, w') \<Longrightarrow> m w = (Inr x, w')"
  by (auto simp: io_map_error_def io_try_def split: prod.splits sum.splits)

lemma statement_tables:
  assumes "statement f w = (Inr r, w')"
  shows "tables w' = snd (f (tables w))" and "r = fst (f (tables w))" and "consistent (tables w')"
  using assms by (auto elim: statement_InrE)

text \<open>The operations that write, and what a failed call of each can leave. Three of them go on after their
  change is committed: the prune of the events, and the reading back of a new outbound or exit.\<close>

inductive store_write :: "sealer \<Rightarrow> ('a db_scheme, unit) io \<Rightarrow> (tables \<Rightarrow> tables \<Rightarrow> bool) \<Rightarrow> bool" for blk where
  single: "single_write blk m \<Longrightarrow> store_write blk m (\<lambda>t t'. t' = t)"
| RecordEvent: "store_write blk (RecordEvent level code message)
    (\<lambda>t t'. t' = t \<or> (\<exists>now. t' = insert_event level code message now t))"
| CreateOutbound: "store_write blk (discard (CreateOutbound blk ob))
    (\<lambda>t t'. t' = t \<or> (\<exists>encrypted now. t' = snd (insert_outbound (new_outbound_row ob encrypted now t) t)))"
| CreateVPNGateExit: "store_write blk (discard (CreateVPNGateExit blk ob ex))
    (\<lambda>t t'. t' = t \<or> (\<exists>encrypted now. let r = exit_outbound_row ob encrypted now t in
       t' = snd (insert_exit ex (or_id r) now (snd (insert_outbound r t)))))"

lemma failed_step:
  assumes "io_bind m f w = (Inl e, w')" and "atomic m" and "consistent (tables w)"
  obtains "tables w' = tables w" | x w1 where "m w = (Inr x, w1)" and "f x w1 = (Inl e, w')"
  using assms by (auto simp: io_bind_def split: prod.splits sum.splits dest: atomicD)

lemma failed_read:
  assumes "io_bind m f w = (Inl e, w')" and "reads_only m"
  obtains "tables w' = tables w" | x w1 where "tables w1 = tables w" and "f x w1 = (Inl e, w')"
  using assms by (auto simp: io_bind_def split: prod.splits sum.splits dest: reads_onlyD)

lemma failed_discard: "discard m w = (Inl e, w') \<Longrightarrow> m w = (Inl e, w')"
  by (auto simp: discard_def io_bind_def io_return_def split: prod.splits sum.splits)

lemma RecordEvent_failed:
  assumes "RecordEvent level code message w = (Inl e, w')" and "consistent (tables w)"
  shows "tables w' = tables w \<or> (\<exists>now. tables w' = insert_event level code message now (tables w))"
proof (cases "level \<notin> {''info'', ''warning'', ''error''} \<or> code = [] \<or> message = []")
  case True
  then show ?thesis using assms(1) by (auto simp: RecordEvent_def io_fail_def split: if_splits)
next
  case False
  let ?add = "\<lambda>now. statement (\<lambda>t. ((), insert_event level code message now t))"
  let ?prune = "statement (\<lambda>t. ((), t\<lparr>system_events :=
    filter (\<lambda>r. ev_id r \<in> set (latest_ids 200 (map ev_id (system_events t)))) (system_events t)\<rparr>))"
  from False assms(1) have "io_bind unix_now (\<lambda>now. io_bind (?add now) (\<lambda>_. ?prune)) w = (Inl e, w')"
    by (auto simp: RecordEvent_def)
  from this reads_only_now show ?thesis
  proof (cases rule: failed_read)
    case (2 now w1)
    note t = 2(1)
    have "consistent (tables w1)" using t assms(2) by simp
    from 2(2) atomic_statement this show ?thesis
    proof (cases rule: failed_step)
      case (2 u w2)
      then show ?thesis using t statement_tables [OF 2(1)] atomicD [OF atomic_statement 2(2)] by auto
    qed (use t in simp)
  qed simp
qed

lemma CreateOutbound_failed:
  assumes "CreateOutbound blk ob w = (Inl e, w')" and "consistent (tables w)"
  shows "tables w' = tables w \<or> (\<exists>encrypted now.
    tables w' = snd (insert_outbound (new_outbound_row ob encrypted now (tables w)) (tables w)))"
  using assms(1) [unfolded CreateOutbound_def] reads_only_encrypt
proof (cases rule: failed_read)
  case (2 encrypted w1)
  note t1 = 2(1)
  from 2(2) reads_only_now show ?thesis
  proof (cases rule: failed_read)
    case (2 now w2)
    note t = 2(1) t1
    have "consistent (tables w2)" using t assms(2) by simp
    from 2(2) atomic_map_error [OF atomic_statement] this show ?thesis
    proof (cases rule: failed_step)
      case (2 i w3)
      have "tables w' = tables w3"
        using 2(2) by (auto simp: Store_Outbound_def dest: reads_onlyD [OF reads_only_bind [OF reads_only_row reads_only_of]])
      then show ?thesis using t statement_tables(1) [OF map_error_Inr [OF 2(1)]] by auto
    qed (use t in simp)
  qed (use t1 in simp)
qed simp

lemma CreateVPNGateExit_failed:
  assumes "CreateVPNGateExit blk ob ex w = (Inl e, w')" and "consistent (tables w)"
  shows "tables w' = tables w \<or> (\<exists>encrypted now. tables w' = snd (insert_exit ex
    (or_id (exit_outbound_row ob encrypted now (tables w))) now
    (snd (insert_outbound (exit_outbound_row ob encrypted now (tables w)) (tables w)))))"
  using assms(1) [unfolded CreateVPNGateExit_def] reads_only_encrypt
proof (cases rule: failed_read)
  case (2 encrypted w1)
  note t1 = 2(1)
  have "consistent (tables w1)" using t1 assms(2) by simp
  from 2(2) atomic_transaction this show ?thesis
  proof (cases rule: failed_step)
    case (2 i w2)
    have r: "tables w' = tables w2"
      using 2(2) by (auto simp: Store_VPNGateExit_def dest: reads_onlyD [OF reads_only_row])
    from 2(1) show ?thesis
    proof (rule committed_InrE)
      fix w3 w4
      assume t3: "tables w3 = tables w1" and t4: "tables w2 = tables w4"
        and m: "io_bind unix_now (\<lambda>now. io_bind (io_map_error normalizeWriteError
         (statement (\<lambda>t. insert_outbound (exit_outbound_row ob encrypted now t) t))) (\<lambda>outboundID.
           io_map_error normalizeWriteError (statement (insert_exit ex outboundID now)))) w3 = (Inr i, w4)"
      from m obtain now o_id w5 w6 where "unix_now w3 = (Inr now, w5)"
        and "io_map_error normalizeWriteError
         (statement (\<lambda>t. insert_outbound (exit_outbound_row ob encrypted now t) t)) w5 = (Inr o_id, w6)"
        and "io_map_error normalizeWriteError (statement (insert_exit ex o_id now)) w6 = (Inr i, w4)"
        by (auto elim!: io_bind_InrE)
      note s = this
      have "tables w5 = tables w" using t1 t3 reads_onlyD [OF reads_only_now s(1)] by simp
      then show ?thesis
        using r t4 statement_tables(1,2) [OF map_error_Inr [OF s(2)]] statement_tables(1) [OF map_error_Inr [OF s(3)]]
        by (auto simp: insert_outbound_def)
    qed
  qed (use t1 in simp)
qed simp

text \<open>C17: Every operation of the store that writes, but for the opening of the database, leaves every table as it
  was when it fails, at whichever of its calls, with three exceptions, whose change is exact: after a failed
  \<open>RecordEvent\<close> the event may be recorded (the old events are not pruned), after a failed \<open>CreateOutbound\<close> the outbound
  may be there, and after a failed \<open>CreateVPNGateExit\<close> the exit and its outbound, both rows or neither (each was
  committed and could not be read back).\<close>

theorem failed_write_changes_nothing:
  assumes "store_write blk m left" and "consistent (tables w)" and "m w = (Inl e, w')"
  shows "left (tables w) (tables w')"
  using assms
  by (cases rule: store_write.cases) (auto simp: Let_def dest: atomicD [OF single_write_atomic] RecordEvent_failed
    CreateOutbound_failed [OF failed_discard] CreateVPNGateExit_failed [OF failed_discard])

theorem failed_write_changes_nothing_witness:
  "isl (fst (DeleteOutbound 7 (demo_world demo_rows))) \<and> tables (snd (DeleteOutbound 7 (demo_world demo_rows))) = demo_rows"
proof -
  have e: "isl (fst (DeleteOutbound 7 (demo_world demo_rows)))" by code_simp
  then obtain x v where "DeleteOutbound 7 (demo_world demo_rows) = (Inl x, v)"
    by (cases "DeleteOutbound 7 (demo_world demo_rows)") (auto simp: isl_def)
  then show ?thesis
    using e failed_write_changes_nothing [OF store_write.single [OF single_write.intros(10) [of id 7]], of "demo_world demo_rows" x v]
    by (simp add: demo_rows_consistent)
qed

lemma changed_password:
  fixes w w' :: "'a db_scheme"
  assumes "Store_ChangePassword hash w = (Inr u, w')"
  shows "consistent (tables w') \<and> sessions (tables w') = [] \<and> (\<forall>r\<in>set (administrators (tables w')). adm_id r = 1 \<longrightarrow> adm_hash r = hash)"
proof -
  let ?f = "\<lambda>now. update_administrator (\<lambda>r. r\<lparr>adm_hash := hash, adm_updated := now\<rparr>)"
  obtain now u1 u2 and w0 w1 w2 w3 :: "'a db_scheme" where t: "tables w' = tables w3"
    and 2: "statement (?f now) w1 = (Inr u1, w2)"
    and 3: "statement (\<lambda>t. ((), delete_sessions (\<lambda>_. True) t)) w2 = (Inr u2, w3)"
    using assms(1) unfolding Store_ChangePassword_def
    by (auto elim!: committed_InrE io_bind_InrE)
  show ?thesis
    using statement_tables(1) [OF 2] statement_tables(1,3) [OF 3] t
    by (auto simp: delete_sessions_def update_administrator_def update_rows_def)
qed

lemma query_row_Inr: "query_row f w = (Inr r, w') \<Longrightarrow> \<exists>rs. f (tables w) = r # rs"
  by (auto simp: query_row_def query_def attempt_def ticked_def elim!: io_bind_InrE split: if_splits list.splits)

lemma query_row_fst: "\<not> faulty w (calls w) \<Longrightarrow> f (tables w) = r # rs \<Longrightarrow> query_row f w = (Inr r, ticked w)"
  by (simp add: query_row_def query_def io_bind_def attempt_def ticked_def)

lemma key_filter: "distinct (map f rs) \<Longrightarrow> r \<in> set rs \<Longrightarrow> filter (\<lambda>r'. f r' = f r) rs = [r]"
proof (induction rs)
  case (Cons x rs)
  then show ?case by (auto simp: filter_empty_conv) (metis image_eqI)
qed simp

definition calm :: "'a fs_scheme \<Rightarrow> bool" where
  "calm w \<longleftrightarrow> (\<forall>k. \<not> faulty w k)"

end
