(* ===== verification/Password.thy ===== *)
theory Password
  imports Secure
begin

text \<open>
  \<open>internal/auth/password.go\<close> and \<open>username.go\<close>: the encoded Argon2id hash of the administrator
  password, its parser, and the pattern of the administrator name. Argon2 is a parameter; the only
  thing the code relies on is the documented length of the key it returns.
\<close>

type_synonym argon2 = "string \<Rightarrow> string \<Rightarrow> nat \<Rightarrow> nat \<Rightarrow> nat \<Rightarrow> nat \<Rightarrow> string"

definition argonMemory :: nat where "argonMemory = 32768"
definition argonIterations :: nat where "argonIterations = 3"
definition argonParallelism :: nat where "argonParallelism = 2"
definition argonKeyLength :: nat where "argonKeyLength = 32"
definition minimumPasswordLength :: nat where "minimumPasswordLength = 4"

lemmas argon_defs = argonMemory_def argonIterations_def argonParallelism_def argonKeyLength_def

section \<open>Scanning the cost parameters\<close>

text \<open>
  \<open>fmt.Sscanf\<close> with \<open>%d\<close> into an unsigned integer of \<open>n\<close> bits: blanks but no newline are skipped,
  then comes a decimal that must fit. What follows the last verb is not looked at.
\<close>

fun skip_blanks :: "string \<Rightarrow> string option" where
  "skip_blanks [] = Some []"
| "skip_blanks (c # s) = (if c = NL then None else if is_space c then skip_blanks s else Some (c # s))"

definition scan_uint :: "nat \<Rightarrow> string \<Rightarrow> (nat \<times> string) option" where
  "scan_uint n s = (case skip_blanks s of None \<Rightarrow> None | Some r \<Rightarrow>
     let ds = takeWhile is_digit r; v = foldl (\<lambda>v c. 10 * v + (byte c - 48)) 0 ds
     in if ds = [] \<or> 2 ^ n \<le> v then None else Some (v, dropWhile is_digit r))"

definition scan_literal :: "string \<Rightarrow> string \<Rightarrow> string option" where
  "scan_literal lit s = (if has_prefix s lit then Some (drop (length lit) s) else None)"

definition scan_costs :: "string \<Rightarrow> (nat \<times> nat \<times> nat) option" where
  "scan_costs s =
     Option.bind (Option.bind (scan_literal ''m='' s) (scan_uint 32)) (\<lambda>(memory, s1).
     Option.bind (Option.bind (scan_literal '',t='' s1) (scan_uint 32)) (\<lambda>(iterations, s2).
     Option.bind (Option.bind (scan_literal '',p='' s2) (scan_uint 8)) (\<lambda>(parallelism, s3).
       Some (memory, iterations, parallelism))))"

section \<open>Hashes\<close>

definition password_hash_text :: "string \<Rightarrow> string \<Rightarrow> string" where
  "password_hash_text salt hash =
     ''$argon2id$v=19$m='' @ nat_dec argonMemory @ '',t='' @ nat_dec argonIterations @ '',p='' @
     nat_dec argonParallelism @ ''$'' @ raw_std_encode salt @ ''$'' @ raw_std_encode hash"

definition HashPassword :: "argon2 \<Rightarrow> string \<Rightarrow> ('a host_scheme, string) io" where
  "HashPassword IDKey password =
     (if length password < minimumPasswordLength
      then io_fail (Err ''password must be at least 4 characters'')
      else io_bind (rand_read 16) (\<lambda>salt. io_return (password_hash_text salt
             (IDKey password salt argonIterations argonMemory argonParallelism argonKeyLength))))"

definition parsePasswordHash :: "string \<Rightarrow> (nat \<times> nat \<times> nat \<times> string \<times> string) option" where
  "parsePasswordHash encoded =
     (let parts = split_char CHR ''$'' encoded
      in if length parts \<noteq> 6 \<or> parts ! 1 \<noteq> ''argon2id'' \<or> parts ! 2 \<noteq> ''v=19'' then None
         else case scan_costs (parts ! 3) of
             None \<Rightarrow> None
           | Some (memory, iterations, parallelism) \<Rightarrow>
               if memory \<noteq> argonMemory \<or> iterations \<noteq> argonIterations \<or> parallelism \<noteq> argonParallelism then None
               else case raw_std_decode (parts ! 4) of
                   None \<Rightarrow> None
                 | Some salt \<Rightarrow> if length salt \<noteq> 16 then None
                     else case raw_std_decode (parts ! 5) of
                         None \<Rightarrow> None
                       | Some expected \<Rightarrow> if length expected \<noteq> argonKeyLength then None
                           else Some (memory, iterations, parallelism, salt, expected))"

definition VerifyPassword :: "argon2 \<Rightarrow> string \<Rightarrow> string \<Rightarrow> bool" where
  "VerifyPassword IDKey encoded password = (case parsePasswordHash encoded of
      None \<Rightarrow> False
    | Some (memory, iterations, parallelism, salt, expected) \<Rightarrow>
        IDKey password salt iterations memory parallelism (length expected) = expected)"

definition ValidPasswordHash :: "string \<Rightarrow> bool" where
  "ValidPasswordHash encoded \<longleftrightarrow> parsePasswordHash encoded \<noteq> None"

section \<open>Names\<close>

definition ValidAdministratorUsername :: "string \<Rightarrow> bool" where
  "ValidAdministratorUsername username \<longleftrightarrow> username \<noteq> [] \<and> is_alnum (hd username) \<and>
     list_all (\<lambda>c. is_alnum c \<or> c \<in> set ''_.-'') (tl username) \<and>
     2 \<le> length (tl username) \<and> length (tl username) \<le> 31"

section \<open>A password is verified by its own hash\<close>

definition argon_documented :: "argon2 \<Rightarrow> bool" where
  "argon_documented IDKey \<longleftrightarrow> (\<forall>p s t m l k. length (IDKey p s t m l k) = k)"

lemma raw_std_chars: "c \<in> set (raw_std_encode s) \<Longrightarrow> c \<noteq> CHR ''$''"
  using b64_encode_raw_chars [OF good_std_alphabet, of c s]
  by (auto simp: raw_std_encode_def std_alphabet_def)

lemma parse_parts:
  assumes "split_char CHR ''$'' encoded = [a, ''argon2id'', ''v=19'', t, x, y]"
    and "scan_costs t = Some (argonMemory, argonIterations, argonParallelism)"
    and "raw_std_decode x = Some salt" and "length salt = 16"
    and "raw_std_decode y = Some hash" and "length hash = argonKeyLength"
  shows "parsePasswordHash encoded = Some (argonMemory, argonIterations, argonParallelism, salt, hash)"
  using assms by (simp add: parsePasswordHash_def)

lemma parse_hash_text:
  assumes "length salt = 16" and "length hash = argonKeyLength"
  shows "parsePasswordHash (password_hash_text salt hash) =
    Some (argonMemory, argonIterations, argonParallelism, salt, hash)"
proof -
  define costs where
    "costs = ''m='' @ nat_dec argonMemory @ '',t='' @ nat_dec argonIterations @ '',p='' @ nat_dec argonParallelism"
  have c: "scan_costs costs = Some (argonMemory, argonIterations, argonParallelism)"
    unfolding costs_def by code_simp
  have n: "CHR ''$'' \<notin> set costs" unfolding costs_def by code_simp
  define x y where "x = raw_std_encode salt" and "y = raw_std_encode hash"
  have t: "password_hash_text salt hash = join ''$'' [[], ''argon2id'', ''v=19'', costs, x, y]"
    by (simp add: password_hash_text_def join_Cons costs_def x_def y_def)
  have "CHR ''$'' \<notin> set x" "CHR ''$'' \<notin> set y" using raw_std_chars by (auto simp: x_def y_def)
  then have "split_char CHR ''$'' (password_hash_text salt hash) = [[], ''argon2id'', ''v=19'', costs, x, y]"
    unfolding t using n by (intro split_join) simp_all
  from parse_parts [OF this c _ assms(1) _ assms(2)] show ?thesis
    by (simp add: x_def y_def rawstd64.dec_enc)
qed

text \<open>C36: A hash that \<open>HashPassword\<close> returns is valid, and a password verifies against it exactly when Argon2
  gives it the key of the original password under the same salt.\<close>

theorem password_verifies:
  assumes "HashPassword IDKey password w = (Inr encoded, w')" and "argon_documented IDKey"
  shows "ValidPasswordHash encoded \<and> (\<exists>salt. VerifyPassword IDKey encoded =
    (\<lambda>other. IDKey other salt argonIterations argonMemory argonParallelism argonKeyLength =
             IDKey password salt argonIterations argonMemory argonParallelism argonKeyLength))"
proof -
  obtain salt where s: "length salt = 16" "encoded = password_hash_text salt
      (IDKey password salt argonIterations argonMemory argonParallelism argonKeyLength)"
    using assms(1) rand_read_Inr
    by (fastforce simp: HashPassword_def elim!: io_bind_InrE split: if_splits)
  have "length (IDKey password salt argonIterations argonMemory argonParallelism argonKeyLength) = argonKeyLength"
    using assms(2) by (simp add: argon_documented_def)
  from parse_hash_text [OF s(1) this] this show ?thesis
    by (simp add: s(2) ValidPasswordHash_def VerifyPassword_def fun_eq_iff) blast
qed

definition demo_argon :: argon2 where
  "demo_argon password salt iterations memory parallelism keylen = take keylen (password @ salt @ replicate keylen CHR ''.'')"

theorem password_verifies_witness:
  "\<exists>encoded. fst (HashPassword demo_argon ''secret'' demo_host) = Inr encoded \<and> ValidPasswordHash encoded"
proof -
  obtain encoded w' where h: "HashPassword demo_argon ''secret'' demo_host = (Inr encoded, w')"
    by (simp add: HashPassword_def minimumPasswordLength_def io_bind_def rand_read_def attempt_def demo_host_def)
  have "argon_documented demo_argon" by (auto simp: argon_documented_def demo_argon_def min_def)
  from password_verifies [OF h this] show ?thesis by (simp add: h)
qed

end
