(* ===== verification/StoreData.thy ===== *)
theory StoreData
  imports StoreLaws Password
begin

text \<open>
  What the database operations compute: a node is read back as it was written, a set of nodes can
  exchange their ports, new credentials end every session, recovered firewall rules never take over
  a borrowed one, and a migration deletes exactly the nodes of the protocols retired since its version.
\<close>

section \<open>A node is read back as it was written\<close>

lemma foldl_obj_set:
  "distinct (map fst kvs) \<Longrightarrow> set (map fst kvs) \<inter> set (map fst m) = {} \<Longrightarrow>
     foldl (\<lambda>m (k, v). obj_set k v m) m kvs = m @ kvs"
proof (induction kvs arbitrary: m)
  case (Cons p kvs)
  obtain k v where p: "p = (k, v)" by (cases p)
  have "obj_set k v m = m @ [(k, v)]"
    using Cons.prems(2) unfolding obj_set_def p by (induction m) auto
  moreover have "foldl (\<lambda>m (k, v). obj_set k v m) (m @ [(k, v)]) kvs = (m @ [(k, v)]) @ kvs"
    by (rule Cons.IH) (use Cons.prems in \<open>auto simp: p\<close>)
  ultimately show ?case by (simp add: p)
qed simp

definition map_ok :: "obj \<Rightarrow> bool" where
  "map_ok ob \<longleftrightarrow> distinct (map fst ob) \<and> json_ok (JObj ob)"

lemma unmarshal_marshal: "map_ok ob \<Longrightarrow> unmarshal_map (marshal_map ob) = Inr (sorted_map ob)"
proof -
  assume ok: "map_ok ob"
  then have "json_ok (json_sorted (JObj ob))" by (simp only: json_ok_sorted map_ok_def)
  then have "json_parse (json_print (json_sorted (JObj ob))) = Some (JObj (sorted_map ob))"
    using json_roundtrip json_sorted_obj by metis
  moreover have "foldl (\<lambda>m (k, v). obj_set k v m) [] (sorted_map ob) = sorted_map ob"
    using foldl_obj_set [of "sorted_map ob" "[]"] distinct_sorted_map ok by (simp add: map_ok_def)
  ultimately show ?thesis by (simp add: unmarshal_map_def marshal_map_def)
qed

text \<open>The node as it comes back: the two maps are sorted by key, which is the same map.\<close>

definition as_stored :: "node \<Rightarrow> node" where
  "as_stored n = n\<lparr>settings := sorted_map (settings n), secret := sorted_map (secret n)\<rparr>"

lemma Open_encrypted:
  assumes "encryptJSON blk ob w = (Inr t, w')"
  shows "Open blk t = Inr (marshal_map ob)"
  using sealer.open_seal assms unfolding encryptJSON_def by blast

lemma encodeNode_Inr:
  assumes "encodeNode blk n w = (Inr (sj, se), w')"
  shows "sj = marshal_map (settings n) \<and> Open blk se = Inr (marshal_map (secret n))"
  using assms Open_encrypted by (fastforce simp: encodeNode_def elim!: io_bind_InrE)

lemma scan_encoded:
  assumes "sj = marshal_map (settings n)"
    and "Open blk se = Inr (marshal_map (secret n))"
    and "map_ok (settings n)" and "map_ok (secret n)"
  shows "scanNode blk (node_row_of n sj se i created updated)
    = Inr (as_stored (n\<lparr>node_id := i, node_created := created, node_updated := updated\<rparr>))"
  using assms by (simp add: scanNode_def node_row_of_def unmarshal_marshal as_stored_def boolInt_def)

lemma consistent_ids: "consistent t \<Longrightarrow> distinct (map nr_id (nodes t))"
  by (simp add: consistent_def uniques_def)

lemma Store_Node_row:
  assumes "consistent (tables w)" and "r \<in> set (nodes (tables w))" and "\<not> faulty w (calls w)"
    and "scanNode blk r = Inr n"
  shows "fst (Store_Node blk (nr_id r) w) = Inr n"
  using query_row_fst [OF assms(3), of "\<lambda>t. filter (\<lambda>r'. nr_id r' = nr_id r) (nodes t)" r "[]"]
    key_filter [OF consistent_ids [OF assms(1)] assms(2)] assms(4)
  by (simp add: Store_Node_def io_bind_def io_of_def)

lemma add_node_Inr:
  assumes "add_node n sj se cn ce w = (Inr n', w')"
  shows "\<exists>now. n' = n\<lparr>node_id := node_id n', node_created := now, node_updated := now\<rparr> \<and>
    nodes (tables w') = nodes (tables w) @ [node_row_of n sj se (node_id n') now now] \<and> consistent (tables w')"
proof -
  obtain now w1 i w2 u where 1: "unix_now w = (Inr now, w1)"
    and 2: "statement (\<lambda>t. insert_node (node_row_of n sj se (next_rowid (map nr_id (nodes t))) now now) t) w1 = (Inr i, w2)"
    and 3: "statement (\<lambda>t. insert_client (new_client_row i cn ce now t) t) w2 = (Inr u, w')"
    and n': "n' = n\<lparr>node_id := i, node_created := now, node_updated := now\<rparr>"
    using assms by (auto simp: add_node_def elim!: io_bind_InrE dest!: map_error_Inr)
  have "nodes (tables w2) = nodes (tables w1) @ [node_row_of n sj se i now now]"
    using statement_tables(1,2) [OF 2] by (simp add: insert_node_def node_row_of_def)
  moreover have "nodes (tables w') = nodes (tables w2)"
    using statement_tables(1) [OF 3] by (simp add: insert_client_def)
  moreover note statement_tables(3) [OF 3]
  ultimately show ?thesis using n' reads_onlyD [OF reads_only_now 1] by (intro exI [of _ now]) simp
qed

lemma CreateNode_rows:
  fixes w w' :: "'a db_scheme"
  assumes "CreateNode blk n c w = (Inr n', w')"
  shows "\<exists>sj se now. sj = marshal_map (settings n) \<and> Open blk se = Inr (marshal_map (secret n)) \<and>
    n' = n\<lparr>node_id := node_id n', node_created := now, node_updated := now\<rparr> \<and>
    nodes (tables w') = nodes (tables w) @ [node_row_of n sj se (node_id n') now now] \<and> consistent (tables w')"
proof -
  obtain sj se ce and w1 w2 :: "'a db_scheme" where 1: "encodeNode blk n w = (Inr (sj, se), w1)" "encryptJSON blk (credential c) w1 = (Inr ce, w2)"
    and t: "transaction (committed (add_node n sj se (client_name c) ce)) w2 = (Inr n', w')"
    using assms unfolding CreateNode_def by (auto elim!: io_bind_InrE)
  from t obtain w3 w4 :: "'a db_scheme" where "tables w3 = tables w2" "add_node n sj se (client_name c) ce w3 = (Inr n', w4)" "tables w' = tables w4"
    by (rule committed_InrE)
  then show ?thesis
    using add_node_Inr [of n sj se "client_name c" ce w3 n' w4] encodeNode_Inr [OF 1(1)]
      reads_onlyD [OF reads_only_encode 1(1)] reads_onlyD [OF reads_only_encrypt 1(2)] by fastforce
qed

text \<open>C20: A created node is read back, at any later time at which the tables are the same, as it was written.\<close>

theorem node_roundtrip:
  assumes "CreateNode blk n c w = (Inr n', w')" and "map_ok (settings n)" and "map_ok (secret n)"
    and "tables w'' = tables w'" and "\<not> faulty w'' (calls w'')"
  shows "fst (Store_Node blk (node_id n') w'') = Inr (as_stored n')"
proof -
  obtain sj se now where r: "sj = marshal_map (settings n)" "Open blk se = Inr (marshal_map (secret n))"
    and n': "n' = n\<lparr>node_id := node_id n', node_created := now, node_updated := now\<rparr>"
    and rows: "nodes (tables w') = nodes (tables w) @ [node_row_of n sj se (node_id n') now now]"
    and c: "consistent (tables w')"
    using CreateNode_rows [OF assms(1)] by blast
  let ?r = "node_row_of n sj se (node_id n') now now"
  have "scanNode blk ?r = Inr (as_stored n')"
    using scan_encoded [OF r assms(2,3), of "node_id n'" now now] n' by simp
  moreover have "?r \<in> set (nodes (tables w''))" by (simp add: assms(4) rows)
  moreover have "nr_id ?r = node_id n'" by (simp add: node_row_of_def)
  ultimately show ?thesis using Store_Node_row [of w'' ?r blk] c assms(4,5) by simp
qed

section \<open>Nodes exchange their ports\<close>

definition with_nodes :: "(node_row \<Rightarrow> node_row) \<Rightarrow> tables \<Rightarrow> tables" where
  "with_nodes f t = t\<lparr>nodes := map f (nodes t)\<rparr>"

definition parked_row :: "int \<Rightarrow> node list \<Rightarrow> node_row \<Rightarrow> node_row" where
  "parked_row now ns r = (if nr_id r \<in> node_id ` set ns then r\<lparr>nr_port := - nr_id r, nr_updated := now\<rparr> else r)"

definition placed_row :: "int \<Rightarrow> node list \<Rightarrow> node_row \<Rightarrow> node_row" where
  "placed_row now ns r = (case find (\<lambda>n. node_id n = nr_id r) ns of
      None \<Rightarrow> r
    | Some n \<Rightarrow> r\<lparr>nr_name := node_name n, nr_port := port n, nr_status := node_status n, nr_updated := now\<rparr>)"

definition moving_row :: "int \<Rightarrow> node list \<Rightarrow> node list \<Rightarrow> node_row \<Rightarrow> node_row" where
  "moving_row now ps ns r = placed_row now ps (parked_row now ns r)"

lemma update_with_nodes:
  "snd (update_nodes i g (with_nodes f t)) = with_nodes (\<lambda>r. if nr_id (f r) = i then g (f r) else f r) t"
  by (simp add: update_nodes_def update_rows_def with_nodes_def comp_def)

lemma fst_update_nodes: "fst (update_nodes i g t) = 0 \<longleftrightarrow> i \<notin> nr_id ` set (nodes t)"
  by (auto simp: update_nodes_def update_rows_def filter_empty_conv)

lemma parked_same [simp]: "nr_id (parked_row now ns r) = nr_id r" "nr_listen (parked_row now ns r) = nr_listen r"
    "nr_outbound (parked_row now ns r) = nr_outbound r"
  by (simp_all add: parked_row_def)

lemma placed_same [simp]: "nr_id (placed_row now ns r) = nr_id r" "nr_listen (placed_row now ns r) = nr_listen r"
    "nr_outbound (placed_row now ns r) = nr_outbound r"
  by (simp_all add: placed_row_def split: option.splits)

lemma moving_same [simp]: "nr_id (moving_row now ps ns r) = nr_id r" "nr_listen (moving_row now ps ns r) = nr_listen r"
    "nr_outbound (moving_row now ps ns r) = nr_outbound r"
  by (simp_all add: moving_row_def)

lemma find_app: "find P (xs @ ys) = (case find P xs of None \<Rightarrow> find P ys | Some x \<Rightarrow> Some x)"
  by (induction xs) auto

lemma find_id: "distinct (map node_id ns) \<Longrightarrow> n \<in> set ns \<Longrightarrow> find (\<lambda>m. node_id m = node_id n) ns = Some n"
  by (induction ns) auto

lemma find_id_None: "find (\<lambda>m. node_id m = i) ns = None \<longleftrightarrow> i \<notin> node_id ` set ns"
  by (auto simp: find_None_iff)

lemma parked_snoc: "parked_row now (ps @ [n]) r = (if nr_id (parked_row now ps r) = node_id n
    then (parked_row now ps r)\<lparr>nr_port := - node_id n, nr_updated := now\<rparr> else parked_row now ps r)"
  by (auto simp: parked_row_def)

lemma placed_snoc:
  "node_id n \<notin> node_id ` set ps \<Longrightarrow> placed_row now (ps @ [n]) r = (if nr_id (placed_row now ps r) = node_id n
    then (placed_row now ps r)\<lparr>nr_name := node_name n, nr_port := port n, nr_status := node_status n, nr_updated := now\<rparr>
    else placed_row now ps r)"
  by (auto simp: placed_row_def find_app find_id_None [symmetric] split: option.splits)

text \<open>Placing forgets the parking.\<close>

lemma moving_all: "moving_row now ns ns r = placed_row now ns r"
proof (cases "find (\<lambda>n. node_id n = nr_id r) ns")
  case None
  then show ?thesis by (simp add: moving_row_def placed_row_def parked_row_def find_id_None)
next
  case (Some n)
  then show ?thesis by (simp add: moving_row_def placed_row_def parked_row_def)
qed

lemma moving_all_eq: "moving_row now ns ns = placed_row now ns"
  by (rule ext) (rule moving_all)

text \<open>What the two loops do when they succeed.\<close>

lemma park_loop:
  "io_each (park_node now) ns w = (Inr u, w') \<Longrightarrow> tables w = with_nodes (parked_row now ps) t \<Longrightarrow>
     tables w' = with_nodes (parked_row now (ps @ ns)) t"
proof (induction ns arbitrary: w ps)
  case (Cons n ns)
  obtain w1 where 1: "park_node now n w = (Inr (), w1)" and 2: "io_each (park_node now) ns w1 = (Inr u, w')"
    using Cons.prems(1) by (auto elim!: io_bind_InrE)
  obtain k where "statement (update_nodes (node_id n) (\<lambda>r. r\<lparr>nr_port := - node_id n, nr_updated := now\<rparr>)) w = (Inr k, w1)"
    using 1 by (auto simp: park_node_def elim!: io_bind_InrE dest!: map_error_Inr)
  from statement_tables(1) [OF this] have "tables w1 = with_nodes (parked_row now (ps @ [n])) t"
    using Cons.prems(2) by (simp add: update_with_nodes parked_snoc [abs_def])
  from Cons.IH [OF 2 this] show ?case by simp
qed simp

lemma place_loop:
  "io_each (place_node now) qs w = (Inr u, w') \<Longrightarrow> tables w = with_nodes (moving_row now ps ns) t \<Longrightarrow>
     distinct (map node_id (ps @ qs)) \<Longrightarrow> tables w' = with_nodes (moving_row now (ps @ qs) ns) t"
proof (induction qs arbitrary: w ps)
  case (Cons n qs)
  obtain w1 where 1: "place_node now n w = (Inr (), w1)" and 2: "io_each (place_node now) qs w1 = (Inr u, w')"
    using Cons.prems(1) by (auto elim!: io_bind_InrE)
  obtain k where "statement (update_nodes (node_id n)
      (\<lambda>r. r\<lparr>nr_name := node_name n, nr_port := port n, nr_status := node_status n, nr_updated := now\<rparr>)) w = (Inr k, w1)"
    using 1 by (auto simp: place_node_def affected_row_def elim!: io_bind_InrE dest!: map_error_Inr split: if_splits)
  from statement_tables(1) [OF this] have "tables w1 = with_nodes (moving_row now (ps @ [n]) ns) t"
    using Cons.prems(2,3) by (simp add: update_with_nodes moving_row_def [abs_def] placed_snoc)
  from Cons.IH [OF 2 this] show ?case using Cons.prems(3) by simp
qed simp

lemma ports_placed:
  fixes w w' :: "'a db_scheme"
  assumes "SetNodePortsAndStart startPort ns w = (Inr u, w')" and "distinct (map node_id ns)"
  shows "\<exists>now. tables w' = upsert_setting ''node_start_port'' (itoa startPort) now (with_nodes (placed_row now ns) (tables w))"
proof -
  obtain w0 w1 w2 w3 w4 :: "'a db_scheme" and now u1 u2 where t: "tables w0 = tables w" "tables w' = tables w4"
    and 1: "unix_now w0 = (Inr now, w1)" "io_each (park_node now) ns w1 = (Inr u1, w2)"
    and 3: "io_each (place_node now) ns w2 = (Inr u2, w3)"
    and 4: "statement (\<lambda>t. ((), upsert_setting ''node_start_port'' (itoa startPort) now t)) w3 = (Inr u, w4)"
    using assms(1) unfolding SetNodePortsAndStart_def
    by (auto elim!: committed_InrE io_bind_InrE)
  have "tables w1 = with_nodes (parked_row now []) (tables w)"
    using reads_onlyD [OF reads_only_now 1(1)] t by (simp add: with_nodes_def parked_row_def [abs_def])
  from park_loop [OF 1(2) this] have "tables w2 = with_nodes (moving_row now [] ns) (tables w)"
    by (simp add: moving_row_def [abs_def] placed_row_def [abs_def])
  from place_loop [OF 3 this] have "tables w3 = with_nodes (placed_row now ns) (tables w)"
    using assms(2) by (simp add: moving_all_eq)
  then show ?thesis using statement_tables(1) [OF 4] t by auto
qed

text \<open>C18: When the ports are set, exactly the listed nodes carry their new name, port and status, all other nodes
  are as before, and the start of the range is recorded, in one step.\<close>

theorem ports_set_exactly:
  fixes w w' :: "'a db_scheme"
  assumes "SetNodePortsAndStart startPort ns w = (Inr u, w')" and "distinct (map node_id ns)"
  shows "\<exists>now. tables w' = upsert_setting ''node_start_port'' (itoa startPort) now (with_nodes (placed_row now ns) (tables w))"
  using ports_placed [OF assms] .

text \<open>Without a fault the moves go through whenever their outcome is allowed, whatever the old ports are:
  a parked node collides with nothing.\<close>

lemma statement_calm:
  assumes "calm w" and "consistent (snd (f (tables w)))"
  shows "\<exists>w'. statement f w = (Inr (fst (f (tables w))), w') \<and> calm w' \<and> tables w' = snd (f (tables w))"
proof -
  have "violation t = None" if "consistent t" for t using that by simp
  then show ?thesis
    using assms by (cases "f (tables w)") (simp add: calm_def statement_def attempt_def ticked_def del: violation_None)
qed

lemma with_nodes_consistent:
  assumes "consistent t" and "\<And>r. nr_id (f r) = nr_id r \<and> nr_outbound (f r) = nr_outbound r"
    and "distinct (map (\<lambda>r. endpoint (f r)) (nodes t))"
  shows "consistent (with_nodes f t)"
  using assms by (simp add: consistent_def with_nodes_def checks_def uniques_def references_def comp_def image_image list_all_iff
      cong: option.case_cong)

lemma distinct_moving:
  assumes "distinct (map nr_id rows)"
    and "\<forall>r\<in>set rows. 0 < nr_id r \<and> nr_listen (f r) = nr_listen r"
    and "\<forall>r\<in>set rows. P r \<longrightarrow> nr_port (f r) = - nr_id r"
    and "\<forall>r\<in>set rows. \<not> P r \<longrightarrow> 0 < nr_port (f r) \<and> endpoint (f r) = endpoint (g r)"
    and "distinct (map (\<lambda>r. endpoint (g r)) rows)"
  shows "distinct (map (\<lambda>r. endpoint (f r)) rows)"
proof -
  have inj: "inj_on nr_id (set rows)" "inj_on (\<lambda>r. endpoint (g r)) (set rows)" "distinct rows"
    using assms(1,5) by (simp_all add: distinct_map)
  have "inj_on (\<lambda>r. endpoint (f r)) (set rows)"
  proof (rule inj_onI)
    fix r q
    assume r: "r \<in> set rows" and q: "q \<in> set rows" and e: "endpoint (f r) = endpoint (f q)"
    then have pe: "nr_port (f r) = nr_port (f q)" by (simp add: endpoint_def)
    show "r = q"
    proof (cases "P r")
      case True
      then have n: "nr_port (f r) = - nr_id r" "0 < nr_id r" using assms(2,3) r by auto
      then have "P q" using pe assms(4) q by fastforce
      then have "nr_id r = nr_id q" using n pe assms(3) q by simp
      then show ?thesis using inj(1) r q by (simp add: inj_on_def)
    next
      case False
      then have n: "0 < nr_port (f r)" "endpoint (f r) = endpoint (g r)" using assms(4) r by auto
      have "\<not> P q"
      proof
        assume "P q"
        then have "nr_port (f q) < 0" using assms(2,3) q by auto
        then show False using n pe by simp
      qed
      then have "endpoint (g r) = endpoint (g q)" using e n assms(4) q by simp
      then show ?thesis using inj(2) r q by (simp add: inj_on_def)
    qed
  qed
  then show ?thesis using inj(3) by (simp add: distinct_map)
qed

definition movable :: "node list \<Rightarrow> tables \<Rightarrow> bool" where
  "movable ns t \<longleftrightarrow> distinct (map node_id ns) \<and> node_id ` set ns \<subseteq> nr_id ` set (nodes t) \<and>
     (\<forall>n\<in>set ns. 0 < port n) \<and> (\<forall>r\<in>set (nodes t). 0 < nr_id r \<and> 0 < nr_port r) \<and>
     distinct (map (\<lambda>r. endpoint (placed_row 0 ns r)) (nodes t))"

lemma endpoint_placed: "endpoint (placed_row now ns r) = endpoint (placed_row 0 ns r)"
  by (simp add: placed_row_def endpoint_def split: option.splits)

lemma parked_consistent:
  assumes "consistent t" and "movable ns t" and "set qs \<subseteq> set ns"
  shows "consistent (with_nodes (parked_row now qs) t)"
proof (rule with_nodes_consistent [OF assms(1)])
  have "distinct (map (\<lambda>r. endpoint r) (nodes t))" using assms(1) by (simp add: consistent_def uniques_def)
  then show "distinct (map (\<lambda>r. endpoint (parked_row now qs r)) (nodes t))"
    by (rule distinct_moving [where P = "\<lambda>r. nr_id r \<in> node_id ` set qs", rotated 4])
       (use assms in \<open>auto simp: movable_def parked_row_def consistent_ids\<close>)
qed simp

lemma moving_consistent:
  assumes "consistent t" and "movable ns t" and "set ps \<subseteq> set ns"
  shows "consistent (with_nodes (moving_row now ps ns) t)"
proof (rule with_nodes_consistent [OF assms(1)])
  have d: "distinct (map node_id ns)" using assms(2) by (simp add: movable_def)
  have sub: "find (\<lambda>n. node_id n = nr_id r) ps = find (\<lambda>n. node_id n = nr_id r) ns" if i: "nr_id r \<in> node_id ` set ps" for r
  proof -
    obtain m where m: "find (\<lambda>n. node_id n = nr_id r) ps = Some m"
      using i find_id_None [of "nr_id r" ps] by (cases "find (\<lambda>n. node_id n = nr_id r) ps") auto
    then have "m \<in> set ps" "node_id m = nr_id r" by (auto simp: find_Some_iff)
    then show ?thesis using m find_id [OF d, of m] assms(3) by auto
  qed
  have "distinct (map (\<lambda>r. endpoint (placed_row 0 ns r)) (nodes t))" using assms(2) by (simp add: movable_def)
  then show "distinct (map (\<lambda>r. endpoint (moving_row now ps ns r)) (nodes t))"
  proof (rule distinct_moving [where P = "\<lambda>r. nr_id r \<in> node_id ` set ns - node_id ` set ps", rotated 4])
    show "\<forall>r\<in>set (nodes t). nr_id r \<in> node_id ` set ns - node_id ` set ps \<longrightarrow> nr_port (moving_row now ps ns r) = - nr_id r"
    proof (intro ballI impI)
      fix r :: node_row
      assume "nr_id r \<in> node_id ` set ns - node_id ` set ps"
      then show "nr_port (moving_row now ps ns r) = - nr_id r"
        using find_id_None [of "nr_id r" ps] by (simp add: moving_row_def placed_row_def parked_row_def)
    qed
    show "\<forall>r\<in>set (nodes t). nr_id r \<notin> node_id ` set ns - node_id ` set ps \<longrightarrow>
        0 < nr_port (moving_row now ps ns r) \<and> endpoint (moving_row now ps ns r) = endpoint (placed_row 0 ns r)"
    proof (intro ballI impI)
      fix r
      assume r: "r \<in> set (nodes t)" and nr: "nr_id r \<notin> node_id ` set ns - node_id ` set ps"
      show "0 < nr_port (moving_row now ps ns r) \<and> endpoint (moving_row now ps ns r) = endpoint (placed_row 0 ns r)"
      proof (cases "nr_id r \<in> node_id ` set ps")
        case True
        then have "nr_id r \<in> node_id ` set ns" using assms(3) by auto
        then obtain n where "find (\<lambda>n. node_id n = nr_id r) ns = Some n" "n \<in> set ns"
          using find_id [OF d] by (metis imageE)
        then show ?thesis using sub [OF True] assms(2)
          by (simp add: moving_row_def placed_row_def endpoint_def movable_def)
      next
        case False
        then have "nr_id r \<notin> node_id ` set ns" using nr by blast
        then have "find (\<lambda>n. node_id n = nr_id r) ns = None" "find (\<lambda>n. node_id n = nr_id r) ps = None"
          using False find_id_None by blast+
        then show ?thesis using \<open>nr_id r \<notin> node_id ` set ns\<close> assms(2) r
          by (simp add: moving_row_def placed_row_def parked_row_def movable_def)
      qed
    qed
  qed (use assms in \<open>auto simp: movable_def consistent_ids\<close>)
qed simp

lemma map_error_calm:
  "m w = (Inr x, w') \<Longrightarrow> io_map_error f m w = (Inr x, w')"
  by (simp add: io_map_error_def)

lemma park_loop_calm:
  "\<lbrakk>calm w; tables w = with_nodes (parked_row now ps) t; consistent t; movable ms t; set (ps @ ns) \<subseteq> set ms\<rbrakk> \<Longrightarrow>
     \<exists>w'. io_each (park_node now) ns w = (Inr (), w') \<and> calm w'"
proof (induction ns arbitrary: w ps)
  case (Cons n ns)
  let ?f = "update_nodes (node_id n) (\<lambda>r. r\<lparr>nr_port := - node_id n, nr_updated := now\<rparr>)"
  have s: "snd (?f (tables w)) = with_nodes (parked_row now (ps @ [n])) t"
    using Cons.prems(2) by (simp add: update_with_nodes parked_snoc [abs_def])
  have "consistent (snd (?f (tables w)))"
    unfolding s by (rule parked_consistent [OF Cons.prems(3,4)]) (use Cons.prems(5) in simp)
  from statement_calm [of w ?f, OF Cons.prems(1) this] obtain w1 where 1: "statement ?f w = (Inr (fst (?f (tables w))), w1)"
    "calm w1" "tables w1 = with_nodes (parked_row now (ps @ [n])) t" using s by auto
  have "park_node now n w = (Inr (), w1)" using map_error_calm [of "statement ?f" w, OF 1(1)] by (simp add: park_node_def)
  moreover obtain w' where "io_each (park_node now) ns w1 = (Inr (), w')" "calm w'"
    using Cons.IH [OF 1(2,3) Cons.prems(3,4)] Cons.prems(5) by auto
  ultimately show ?case by auto
qed auto

lemma place_loop_calm:
  "\<lbrakk>calm w; tables w = with_nodes (moving_row now ps ns) t; consistent t; movable ns t; ns = ps @ qs\<rbrakk> \<Longrightarrow>
     \<exists>w'. io_each (place_node now) qs w = (Inr (), w') \<and> calm w'"
proof (induction qs arbitrary: w ps)
  case (Cons n qs)
  let ?f = "update_nodes (node_id n)
     (\<lambda>r. r\<lparr>nr_name := node_name n, nr_port := port n, nr_status := node_status n, nr_updated := now\<rparr>)"
  have n: "node_id n \<notin> node_id ` set ps" "node_id n \<in> nr_id ` set (nodes t)"
    using Cons.prems(4,5) by (auto simp: movable_def)
  have s: "snd (?f (tables w)) = with_nodes (moving_row now (ps @ [n]) ns) t"
    using Cons.prems(2) n by (simp add: update_with_nodes moving_row_def [abs_def] placed_snoc)
  have "consistent (snd (?f (tables w)))"
    unfolding s by (rule moving_consistent [OF Cons.prems(3,4)]) (use Cons.prems(5) in auto)
  from statement_calm [of w ?f, OF Cons.prems(1) this] obtain w1 where 1: "statement ?f w = (Inr (fst (?f (tables w))), w1)"
    "calm w1" "tables w1 = with_nodes (moving_row now (ps @ [n]) ns) t" using s by auto
  have "fst (?f (tables w)) \<noteq> 0"
    using n(2) Cons.prems(2) by (simp add: fst_update_nodes with_nodes_def image_image)
  then have "place_node now n w = (Inr (), w1)"
    using map_error_calm [of "statement ?f" w, OF 1(1)] by (simp add: place_node_def affected_row_def)
  moreover obtain w' where "io_each (place_node now) qs w1 = (Inr (), w')" "calm w'"
    using Cons.IH [OF 1(2,3) Cons.prems(3,4)] Cons.prems(5) by auto
  ultimately show ?case by auto
qed auto

lemma upsert_keys: "map set_key (map (\<lambda>r. if set_key r = k then r\<lparr>set_value := v, set_updated := now\<rparr> else r) rs) = map set_key rs"
  by (induction rs) auto

lemma upsert_consistent:
  assumes "consistent t"
  shows "consistent (upsert_setting k v now t)"
proof (cases "k \<in> set_key ` set (system_settings t)")
  case True
  have "distinct (map set_key (map (\<lambda>r. if set_key r = k then r\<lparr>set_value := v, set_updated := now\<rparr> else r) (system_settings t)))"
    unfolding upsert_keys using assms by (simp add: consistent_def uniques_def)
  then show ?thesis
    using assms True by (simp add: upsert_setting_def consistent_def checks_def uniques_def references_def
        list_all_iff del: map_map cong: option.case_cong)
next
  case False
  then show ?thesis
    using assms by (simp add: upsert_setting_def insert_setting_def consistent_def checks_def uniques_def references_def
        list_all_iff cong: option.case_cong)
qed

lemma transaction_calm:
  assumes "calm w" and "\<And>w0. calm w0 \<Longrightarrow> tables w0 = tables w \<Longrightarrow> \<exists>x w1. m w0 = (Inr x, w1) \<and> calm w1"
  shows "\<exists>x w'. transaction (committed m) w = (Inr x, w')"
proof -
  have nop: "fs_nop v = (Inr (), ticked v)" if "calm v" for v :: "'a db_scheme"
    using that by (simp add: calm_def fs_nop_def attempt_def)
  have "calm (ticked w)" "tables (ticked w) = tables w" using assms(1) by (simp_all add: calm_def ticked_def)
  from assms(2) [OF this] obtain x w1 where "m (ticked w) = (Inr x, w1)" "calm w1" by blast
  then show ?thesis using nop assms(1) by (simp add: transaction_def committed_def io_bind_def)
qed

text \<open>C19: Whenever the nodes, once moved, would listen on distinct endpoints, the transaction goes through: the nodes
  may exchange their ports in any way.\<close>

theorem ports_can_be_exchanged:
  assumes "calm w" and "consistent (tables w)" and "movable ns (tables w)"
  shows "fst (SetNodePortsAndStart startPort ns w) = Inr ()"
proof -
  have "\<exists>x w'. SetNodePortsAndStart startPort ns w = (Inr x, w')"
    unfolding SetNodePortsAndStart_def
  proof (rule transaction_calm [OF assms(1)])
    fix w0 :: "'a db_scheme"
    assume w0: "calm w0" "tables w0 = tables w"
    define now where "now = unix_seconds (clock_at w0 (calls w0))"
    let ?w1 = "ticked w0"
    have n: "unix_now w0 = (Inr now, ?w1)" by (simp add: unix_now_def now_def)
    have 1: "calm ?w1" "tables ?w1 = with_nodes (parked_row now []) (tables w)"
      using w0 by (simp_all add: calm_def ticked_def with_nodes_def parked_row_def [abs_def])
    obtain w2 where 2: "io_each (park_node now) ns ?w1 = (Inr (), w2)" "calm w2"
      using park_loop_calm [OF 1 assms(2,3), of ns] by auto
    have t2: "tables w2 = with_nodes (moving_row now [] ns) (tables w)"
      using park_loop [OF 2(1) 1(2)] by (simp add: moving_row_def [abs_def] placed_row_def [abs_def])
    obtain w3 where 3: "io_each (place_node now) ns w2 = (Inr (), w3)" "calm w3"
      using place_loop_calm [OF 2(2) t2 assms(2,3), of ns] by auto
    have "tables w3 = with_nodes (moving_row now ns ns) (tables w)"
      using place_loop [OF 3(1) t2] assms(3) by (simp add: movable_def)
    then have "consistent (tables w3)" using moving_consistent [OF assms(2,3), of ns] by simp
    then obtain w4 where "statement (\<lambda>t. ((), upsert_setting ''node_start_port'' (itoa startPort) now t)) w3 = (Inr (), w4)" "calm w4"
      using statement_calm [OF 3(2), of "\<lambda>t. ((), upsert_setting ''node_start_port'' (itoa startPort) now t)"]
        upsert_consistent by fastforce
    then show "\<exists>x w1. io_bind unix_now (\<lambda>now. io_bind (io_each (park_node now) ns) (\<lambda>_.
       io_bind (io_each (place_node now) ns) (\<lambda>_.
       statement (\<lambda>t. ((), upsert_setting ''node_start_port'' (itoa startPort) now t))))) w0 = (Inr x, w1) \<and> calm w1"
      using n 2(1) 3(1) by simp
  qed
  then show ?thesis by auto
qed

section \<open>New credentials end every session\<close>

lemma single_row:
  assumes "consistent t" and "length (filter (\<lambda>r. adm_id r = 1) (administrators t)) = 1"
  shows "\<exists>r. administrators t = [r] \<and> adm_id r = 1"
proof -
  have "filter (\<lambda>r. adm_id r = 1) (administrators t) = administrators t"
    using assms(1) by (auto simp: consistent_def checks_def list_all_iff)
  then have "length (administrators t) = 1" using assms(2) by simp
  then obtain r where "administrators t = [r]" by (auto simp: length_Suc_conv)
  then show ?thesis using assms(1) by (simp add: consistent_def checks_def)
qed

text \<open>After the administrator was changed there is the one account with the new name and hash, and no session.\<close>

theorem changed_administrator:
  fixes w w' :: "'a db_scheme"
  assumes "ChangeAdministrator username hash w = (Inr u, w')" and "consistent (tables w)"
  shows "map (\<lambda>r. (adm_name r, adm_hash r)) (administrators (tables w')) = [(username, hash)] \<and> sessions (tables w') = []"
proof -
  let ?f = "\<lambda>now. update_administrator (\<lambda>r. r\<lparr>adm_name := username, adm_hash := hash, adm_updated := now\<rparr>)"
  obtain now u2 and w0 w1 w2 w3 :: "'a db_scheme" where t: "tables w0 = tables w" "tables w' = tables w3"
    and 1: "unix_now w0 = (Inr now, w1)" and 2: "statement (?f now) w1 = (Inr 1, w2)"
    and 3: "statement (\<lambda>t. ((), delete_sessions (\<lambda>_. True) t)) w2 = (Inr u2, w3)"
    using assms(1) unfolding ChangeAdministrator_def
    by (auto elim!: committed_InrE io_bind_InrE dest!: map_error_Inr split: if_splits)
  have w1: "tables w1 = tables w" using reads_onlyD [OF reads_only_now 1] t by simp
  have "length (filter (\<lambda>r. adm_id r = 1) (administrators (tables w))) = 1"
    using statement_tables(2) [OF 2] by (simp add: update_administrator_def update_rows_def w1)
  from single_row [OF assms(2) this] obtain r where r: "administrators (tables w) = [r]" "adm_id r = 1" by blast
  have "administrators (tables w2) = [r\<lparr>adm_name := username, adm_hash := hash, adm_updated := now\<rparr>]"
    using statement_tables(1) [OF 2] r by (simp add: update_administrator_def update_rows_def w1)
  then show ?thesis using statement_tables(1) [OF 3] t by (simp add: delete_sessions_def)
qed

section \<open>Recovered firewall rules\<close>

definition borrowed_rows :: "tables \<Rightarrow> firewall_row list" where
  "borrowed_rows t = filter (\<lambda>r. fw_ownership r = FirewallBorrowed) (managed_firewall_rules t)"

definition recoverable :: "managed_rule \<Rightarrow> bool" where
  "recoverable rule \<longleftrightarrow> rule_ownership rule = FirewallPending \<or> rule_ownership rule = FirewallOwned"

lemma merge_rule_borrowed: "recoverable rule \<Longrightarrow> borrowed_rows (merge_rule rule now t) = borrowed_rows t"
proof -
  assume "recoverable rule"
  then have n: "rule_ownership rule \<noteq> FirewallBorrowed" by (auto simp: recoverable_def ownership_defs)
  have "filter (\<lambda>r. fw_ownership r = FirewallBorrowed)
      (map (\<lambda>r. if rule_key r = k then merged_rule rule r else r) rs) = filter (\<lambda>r. fw_ownership r = FirewallBorrowed) rs" for k rs
    using n by (induction rs) (auto simp: merged_rule_def)
  then show ?thesis using n by (simp add: borrowed_rows_def merge_rule_def insert_rule_def)
qed

lemma rule_key_merged [simp]: "rule_key (merged_rule rule r) = rule_key r"
  by (simp add: merged_rule_def rule_key_def)

lemma merged_keys: "map rule_key (map (\<lambda>r. if rule_key r = k then merged_rule rule r else r) rs) = map rule_key rs"
  by (induction rs) auto

lemma merge_rule_keys: "rule_key ` set (managed_firewall_rules (merge_rule rule now t))
    = insert (rule_protocol rule, rule_port rule) (rule_key ` set (managed_firewall_rules t))"
proof (cases "tracked (rule_protocol rule) (rule_port rule) t")
  case True
  have "rule_key ` set (map (\<lambda>r. if rule_key r = k then merged_rule rule r else r) rs) = rule_key ` set rs" for k rs
    using arg_cong [OF merged_keys, of set k rule rs] by (simp only: set_map)
  then show ?thesis using True by (auto simp: merge_rule_def tracked_def simp del: set_map)
qed (simp add: merge_rule_def insert_rule_def rule_key_def)

lemma merge_loop:
  "io_each merge_checked rules w = (Inr u, w') \<Longrightarrow> borrowed_rows (tables w') = borrowed_rows (tables w) \<and>
     rule_key ` set (managed_firewall_rules (tables w')) =
       (\<lambda>r. (rule_protocol r, rule_port r)) ` {r \<in> set rules. recoverable r} \<union> rule_key ` set (managed_firewall_rules (tables w))"
proof (induction rules arbitrary: w)
  case (Cons rule rules)
  obtain w1 where 1: "merge_checked rule w = (Inr (), w1)" and 2: "io_each merge_checked rules w1 = (Inr u, w')"
    using Cons.prems by (auto elim!: io_bind_InrE)
  have "borrowed_rows (tables w1) = borrowed_rows (tables w) \<and> rule_key ` set (managed_firewall_rules (tables w1)) =
      (if recoverable rule then {(rule_protocol rule, rule_port rule)} else {}) \<union> rule_key ` set (managed_firewall_rules (tables w))"
  proof (cases "recoverable rule")
    case False
    then show ?thesis using 1 by (auto simp: merge_checked_def recoverable_def split: if_splits)
  next
    case True
    then obtain now v where v: "unix_now w = (Inr now, v)" "statement (\<lambda>t. ((), merge_rule rule now t)) v = (Inr (), w1)"
      using 1 by (auto simp: merge_checked_def recoverable_def elim!: io_bind_InrE split: if_splits)
    have "tables w1 = merge_rule rule now (tables w)"
      using statement_tables(1) [OF v(2)] reads_onlyD [OF reads_only_now v(1)] by simp
    then show ?thesis using merge_rule_borrowed [OF True] merge_rule_keys [of rule now "tables w"] True by simp
  qed
  then show ?case using Cons.IH [OF 2] by auto
qed simp

text \<open>C34: Merging the rules of a recovery file leaves every borrowed rule as it is, and tracks exactly the rules that
  were tracked or that the file holds as pending or owned.\<close>

theorem recovery_keeps_borrowed:
  fixes w w' :: "'a db_scheme"
  assumes "MergeFirewallRecoveryRules rules w = (Inr u, w')"
  shows "borrowed_rows (tables w') = borrowed_rows (tables w) \<and>
    rule_key ` set (managed_firewall_rules (tables w')) =
      (\<lambda>r. (rule_protocol r, rule_port r)) ` {r \<in> set rules. recoverable r} \<union> rule_key ` set (managed_firewall_rules (tables w))"
proof (cases "rules = []")
  case True
  then show ?thesis using assms by (simp add: MergeFirewallRecoveryRules_def)
next
  case False
  then obtain w0 w1 :: "'a db_scheme" where "tables w0 = tables w" "io_each merge_checked rules w0 = (Inr u, w1)" "tables w' = tables w1"
    using assms by (auto simp: MergeFirewallRecoveryRules_def elim: committed_InrE)
  then show ?thesis using merge_loop [of rules w0 u w1] by simp
qed

section \<open>Outbounds in use\<close>

text \<open>An outbound that a node uses is not deleted; without a fault the refusal is a conflict.\<close>

theorem used_outbound_stays:
  assumes "r \<in> set (nodes (tables w))" and "nr_outbound r = Some i" and "consistent (tables w)" and "calm w"
  shows "\<exists>e w'. DeleteOutbound i w = (Inl e, w') \<and> IsConflict e \<and> tables w' = tables w"
proof -
  let ?t = "snd (delete_outbound i (tables w))"
  have "checks (tables w)" "uniques (tables w)" using assms(3) by (simp_all add: consistent_def)
  then have "checks ?t" "uniques ?t"
    by (simp_all add: delete_outbound_def checks_def uniques_def list_all_iff distinct_map_filter)
  moreover have "\<not> references ?t"
  proof -
    have "\<not> (case nr_outbound r of None \<Rightarrow> True | Some j \<Rightarrow> j \<in> or_id ` set (outbounds ?t))"
      by (auto simp: assms(2) delete_outbound_def)
    moreover have "r \<in> set (nodes ?t)" using assms(1) by (simp add: delete_outbound_def)
    ultimately show ?thesis unfolding references_def list_all_iff by blast
  qed
  ultimately have v: "violation ?t = Some foreign_key_failed" by (simp add: violation_def)
  have "in_use ''outbound is in use'' foreign_key_failed = Wrap ''outbound is in use'' ErrConflict" by code_simp
  moreover have "statement (delete_outbound i) w = (Inl foreign_key_failed, ticked w)"
    using v assms(4) by (cases "delete_outbound i (tables w)") (simp add: statement_def attempt_def calm_def ticked_def)
  ultimately have "DeleteOutbound i w = (Inl (Wrap ''outbound is in use'' ErrConflict), ticked w)"
    by (simp add: DeleteOutbound_def io_map_error_def io_bind_def)
  then show ?thesis by (simp add: IsConflict_def ticked_def)
qed

section \<open>Migrations\<close>

text \<open>The nodes that the migrations from version \<open>v\<close> on delete.\<close>

definition retired_since :: "nat \<Rightarrow> node_row \<Rightarrow> bool" where
  "retired_since v r \<longleftrightarrow> v \<le> 8 \<and> nr_protocol r = ''vless_h2_reality'' \<or> v \<le> 9 \<and> nr_protocol r = ''naive''"

text \<open>The tables but for the two that any migration may write and the version.\<close>

definition lasting :: "tables \<Rightarrow> tables" where
  "lasting t = t\<lparr>user_version := 0, config_versions := [], system_events := []\<rparr>"

definition deletes_exactly :: "(node_row \<Rightarrow> bool) \<Rightarrow> tables \<Rightarrow> tables \<Rightarrow> bool" where
  "deletes_exactly P t t' \<longleftrightarrow> lasting t' = delete_nodes P (lasting t)"

lemma deletes_none: "deletes_exactly (\<lambda>_. False) t t' \<longleftrightarrow> lasting t' = lasting t"
  by (simp add: deletes_exactly_def delete_nodes_def lasting_def)

lemma delete_nodes_twice: "delete_nodes P (delete_nodes Q t) = delete_nodes (\<lambda>r. P r \<or> Q r) t"
proof -
  have "nr_id ` set (filter (\<lambda>r. P r \<or> Q r) ns) =
      nr_id ` set (filter Q ns) \<union> nr_id ` set (filter P (filter (\<lambda>r. \<not> Q r) ns))" for ns
    by auto
  then show ?thesis unfolding delete_nodes_def by (simp add: filter_filter conj_commute del: set_filter)
qed

lemma deletes_trans:
  "deletes_exactly Q t u \<Longrightarrow> deletes_exactly P u v \<Longrightarrow> (\<And>r. R r \<longleftrightarrow> P r \<or> Q r) \<Longrightarrow> deletes_exactly R t v"
  by (simp add: deletes_exactly_def delete_nodes_twice) presburger

lemma migration_loop:
  assumes "io_each migration_step fs w = (Inr u, w')"
    and "list_all2 (\<lambda>f P. \<forall>now t. deletes_exactly P t (f now t)) fs Ps"
  shows "deletes_exactly (\<lambda>r. list_ex (\<lambda>P. P r) Ps) (tables w) (tables w')"
  using assms(2,1)
proof (induction fs Ps arbitrary: w rule: list_all2_induct)
  case Nil
  then show ?case by (simp add: deletes_none)
next
  case (Cons f fs P Ps)
  obtain w1 where 1: "migration_step f w = (Inr (), w1)" and 2: "io_each migration_step fs w1 = (Inr u, w')"
    using Cons.prems by (auto elim!: io_bind_InrE)
  obtain now v where v: "unix_now w = (Inr now, v)" "statement (\<lambda>t. ((), f now t)) v = (Inr (), w1)"
    using 1 by (auto simp: migration_step_def elim!: io_bind_InrE)
  have "tables w1 = f now (tables w)"
    using statement_tables(1) [OF v(2)] reads_onlyD [OF reads_only_now v(1)] by simp
  then have "deletes_exactly P (tables w) (tables w1)" using Cons.hyps(1) by simp
  then show ?case by (rule deletes_trans [OF _ Cons.IH [OF 2]]) auto
qed

lemma apply_migration_Inr:
  fixes w w' :: "'a db_scheme"
  assumes "apply_migration i fs w = (Inr u, w')"
  obtains w0 w1 :: "'a db_scheme" where "tables w0 = tables w" and "io_each migration_step fs w0 = (Inr (), w1)"
    and "tables w' = (tables w1)\<lparr>user_version := Suc i\<rparr>"
proof -
  from assms have "transaction (committed (io_bind (io_each migration_step fs) (\<lambda>_.
        statement (\<lambda>t. ((), t\<lparr>user_version := Suc i\<rparr>))))) w = (Inr u, w')"
    unfolding apply_migration_def by (rule map_error_Inr)
  then obtain w0 w1 w2 :: "'a db_scheme" and v where "tables w0 = tables w" "io_each migration_step fs w0 = (Inr (), w1)"
    "statement (\<lambda>t. ((), t\<lparr>user_version := Suc i\<rparr>)) w1 = (Inr v, w2)" "tables w' = tables w2"
    by (auto elim!: committed_InrE io_bind_InrE)
  then show ?thesis using that statement_tables(1) by fastforce
qed

lemma lasting_statements:
  "deletes_exactly (\<lambda>_. False) t (ddl now t)" "deletes_exactly (\<lambda>_. False) t (clear_versions now t)"
  "deletes_exactly (\<lambda>_. False) t (note_removed p code message now t)"
  "deletes_exactly P t (delete_nodes P t)"
  by (simp_all add: deletes_none) (simp_all add: deletes_exactly_def lasting_def row_defs)

text \<open>What the statements of migration \<open>i\<close> delete.\<close>

definition deleted_by :: "nat \<Rightarrow> (node_row \<Rightarrow> bool) list" where
  "deleted_by i = (if i = 8 then [\<lambda>_. False, \<lambda>r. nr_protocol r = ''vless_h2_reality'']
     else if i = 9 then [\<lambda>_. False, \<lambda>r. nr_protocol r = ''naive''] else map (\<lambda>_ _. False) (migrations ! i))"

lemma deleted_by_migrations:
  "i < 10 \<Longrightarrow> list_all2 (\<lambda>f P. \<forall>now t. deletes_exactly P t (f now t)) (migrations ! i) (deleted_by i)"
proof -
  assume "i < 10"
  then consider "i < 8" | "i = 8" | "i = 9" by linarith
  then show ?thesis
  proof cases
    case 1
    have "\<forall>fs\<in>set (take 8 migrations). \<forall>f\<in>set fs. f = ddl \<or> f = clear_versions" by (simp add: migrations_def)
    moreover have "length migrations = 10" by (simp add: migrations_def)
    then have "migrations ! i \<in> set (take 8 migrations)"
      using 1 nth_mem [of i "take 8 migrations"] by simp
    ultimately have "\<forall>f\<in>set (migrations ! i). f = ddl \<or> f = clear_versions" by blast
    then show ?thesis using 1 by (auto simp: deleted_by_def list_all2_map2 list_all2_same lasting_statements)
  qed (simp_all add: migrations_def deleted_by_def lasting_statements)
qed

lemma retired_from: "i < 10 \<Longrightarrow> retired_since i r \<longleftrightarrow> retired_since (Suc i) r \<or> list_ex (\<lambda>P. P r) (deleted_by i)"
  by (auto simp: retired_since_def deleted_by_def list_ex_iff)

lemma migrate_from_Inr:
  "migrate_from i (drop i migrations) w = (Inr u, w') \<Longrightarrow> i \<le> 10 \<Longrightarrow>
     deletes_exactly (retired_since i) (tables w) (tables w') \<and>
     (i < 10 \<longrightarrow> user_version (tables w') = 10) \<and> (i = 10 \<longrightarrow> tables w' = tables w)"
proof (induction "10 - i" arbitrary: i w)
  case 0
  then show ?case by (simp add: migrations_def deletes_none retired_since_def)
next
  case (Suc k)
  then have i: "i < 10" by simp
  have len: "length migrations = 10" by (simp add: migrations_def)
  have d: "drop i migrations = migrations ! i # drop (Suc i) migrations"
    using i len by (simp add: Cons_nth_drop_Suc)
  obtain w1 where 1: "apply_migration i (migrations ! i) w = (Inr (), w1)"
    and 2: "migrate_from (Suc i) (drop (Suc i) migrations) w1 = (Inr u, w')"
    using Suc.prems(1) unfolding d by (auto elim!: io_bind_InrE)
  have one: "deletes_exactly (\<lambda>r. list_ex (\<lambda>P. P r) (deleted_by i)) (tables w) (tables w1) \<and> user_version (tables w1) = Suc i"
    using 1
  proof (rule apply_migration_Inr)
    fix u1 u2 :: "'a db_scheme"
    assume "tables u1 = tables w" "io_each migration_step (migrations ! i) u1 = (Inr (), u2)"
      "tables w1 = (tables u2)\<lparr>user_version := Suc i\<rparr>"
    then show ?thesis
      using migration_loop [OF _ deleted_by_migrations [OF i], of u1 "()" u2] by (simp add: deletes_exactly_def lasting_def)
  qed
  have IH: "deletes_exactly (retired_since (Suc i)) (tables w1) (tables w') \<and>
     (Suc i < 10 \<longrightarrow> user_version (tables w') = 10) \<and> (Suc i = 10 \<longrightarrow> tables w' = tables w1)"
    by (rule Suc.hyps(1) [OF _ 2]) (use Suc.hyps(2) i in auto)
  have "deletes_exactly (retired_since i) (tables w) (tables w')"
    by (rule deletes_trans [OF one [THEN conjunct1] IH [THEN conjunct1] retired_from [OF i]])
  moreover have "user_version (tables w') = 10" using IH one i by (cases "Suc i = 10") auto
  ultimately show ?case using i by simp
qed

text \<open>C35: A migration that succeeds, from whatever version the database has, ends at the newest schema version. It
  deletes exactly the nodes of a protocol that was retired since that version (\<open>vless_h2_reality\<close> by the ninth
  migration, \<open>naive\<close> by the tenth) and their clients; every other node, client, outbound, exit, setting, session,
  user and firewall rule stays as it is. At the newest version nothing changes.\<close>

theorem migration_retires:
  fixes w w' :: "'a db_scheme"
  assumes "migrate w = (Inr u, w')"
  defines "v \<equiv> user_version (tables w)"
  defines "gone \<equiv> \<lambda>r. v \<le> 8 \<and> nr_protocol r = ''vless_h2_reality'' \<or> v \<le> 9 \<and> nr_protocol r = ''naive''"
  shows "user_version (tables w') = length migrations \<and>
    nodes (tables w') = filter (\<lambda>r. \<not> gone r) (nodes (tables w)) \<and>
    node_clients (tables w') = filter (\<lambda>c. cr_node c \<notin> nr_id ` set (filter gone (nodes (tables w)))) (node_clients (tables w)) \<and>
    (tables w')\<lparr>nodes := [], node_clients := [], config_versions := [], system_events := [], user_version := 0\<rparr> =
      (tables w)\<lparr>nodes := [], node_clients := [], config_versions := [], system_events := [], user_version := 0\<rparr> \<and>
    (v = length migrations \<longrightarrow> tables w' = tables w)"
proof -
  have len: "length migrations = 10" by (simp add: migrations_def)
  have m: "v \<le> 10 \<and> migrate_from v (drop v migrations) (ticked w) = (Inr u, w')"
    using assms(1) len unfolding v_def
    by (auto simp: migrate_def query_def attempt_def ticked_def elim!: io_bind_InrE dest!: map_error_Inr split: if_splits)
  have t: "tables (ticked w) = tables w" by (simp add: ticked_def)
  have r: "deletes_exactly (retired_since v) (tables w) (tables w')" "v < 10 \<longrightarrow> user_version (tables w') = 10"
    "v = 10 \<longrightarrow> tables w' = tables w"
    using migrate_from_Inr [of v "ticked w" u w'] m t by simp_all
  have "gone = retired_since v" by (simp add: gone_def retired_since_def fun_eq_iff)
  then have del: "lasting (tables w') = delete_nodes gone (lasting (tables w))"
    using r(1) by (simp add: deletes_exactly_def)
  have "user_version (tables w') = 10" using r m v_def by (cases "v = 10") auto
  moreover have "nodes (tables w') = filter (\<lambda>r. \<not> gone r) (nodes (tables w))"
    "node_clients (tables w') = filter (\<lambda>c. cr_node c \<notin> nr_id ` set (filter gone (nodes (tables w)))) (node_clients (tables w))"
    using arg_cong [OF del, of nodes] arg_cong [OF del, of node_clients] by (simp_all add: lasting_def delete_nodes_def)
  moreover have "(tables w')\<lparr>nodes := [], node_clients := [], config_versions := [], system_events := [], user_version := 0\<rparr> =
      (tables w)\<lparr>nodes := [], node_clients := [], config_versions := [], system_events := [], user_version := 0\<rparr>"
    using arg_cong [OF del, of "\<lambda>t. t\<lparr>nodes := [], node_clients := []\<rparr>"]
    by (cases "tables w'", cases "tables w") (simp add: lasting_def delete_nodes_def)
  ultimately show ?thesis using r(3) len by simp
qed

section \<open>A node is created whenever its place is free\<close>

lemma Seal_calm: "calm w \<Longrightarrow> \<exists>t w'. Seal blk p w = (Inr t, w') \<and> calm w' \<and> tables w' = tables w" for w :: "'a db_scheme"
  by (simp add: Seal_def rand_read_def attempt_def calm_def ticked_def io_bind_def)

lemma foldl_max_start: "(i :: int) \<le> foldl max i is"
  by (induction "is" arbitrary: i) (auto intro: order_trans [OF max.cobounded1])

lemma foldl_max_ge: "(x :: int) \<in> set (i # is) \<Longrightarrow> x \<le> foldl max i is"
proof (induction "is" arbitrary: i)
  case (Cons j js)
  then show ?case
    using foldl_max_start [of "max i j" js] by (auto intro: order_trans [OF max.cobounded1] order_trans [OF max.cobounded2])
qed simp

lemma next_rowid_fresh: "next_rowid ids \<notin> set ids"
proof (cases ids)
  case (Cons i js)
  then show ?thesis using foldl_max_ge [of _ i js] by (fastforce simp: next_rowid_def)
qed simp

definition place_free :: "node \<Rightarrow> tables \<Rightarrow> bool" where
  "place_free n t \<longleftrightarrow> (listen n, port n) \<notin> endpoint ` set (nodes t) \<and> 1 \<in> usr_id ` set (users t) \<and>
     set_option (node_outbound n) \<subseteq> or_id ` set (outbounds t)"

lemma insert_node_consistent:
  assumes "consistent t" and "place_free n t"
  shows "consistent (snd (insert_node (node_row_of n sj se (next_rowid (map nr_id (nodes t))) c u) t))"
proof -
  let ?r = "node_row_of n sj se (next_rowid (map nr_id (nodes t))) c u"
  have "nr_id ?r \<notin> nr_id ` set (nodes t)" using next_rowid_fresh [of "map nr_id (nodes t)"] by (simp add: node_row_of_def)
  moreover have "endpoint ?r \<notin> endpoint ` set (nodes t)" using assms(2) by (simp add: place_free_def endpoint_def node_row_of_def)
  moreover have "case nr_outbound ?r of None \<Rightarrow> True | Some i \<Rightarrow> i \<in> or_id ` set (outbounds t)"
    using assms(2) by (cases "node_outbound n") (simp_all add: place_free_def node_row_of_def)
  ultimately show ?thesis
    using assms(1) by (simp add: insert_node_def consistent_def checks_def uniques_def references_def list_all_iff cong: option.case_cong)
qed

lemma insert_client_consistent:
  assumes "consistent t" and "i \<in> nr_id ` set (nodes t)" and "1 \<in> usr_id ` set (users t)"
  shows "consistent (snd (insert_client (new_client_row i cn ce now t) t))"
proof -
  let ?r = "new_client_row i cn ce now t"
  have "cr_id ?r \<notin> cr_id ` set (node_clients t)"
    using next_rowid_fresh [of "map cr_id (node_clients t)"] by (simp add: new_client_row_def)
  moreover have "cr_node ?r = i" "cr_user ?r = 1" by (simp_all add: new_client_row_def)
  ultimately show ?thesis
    using assms by (simp add: insert_client_def consistent_def checks_def uniques_def references_def list_all_iff cong: option.case_cong)
qed

lemma add_node_calm:
  fixes w :: "'a db_scheme"
  assumes "calm w" and "consistent (tables w)" and "place_free n (tables w)"
  shows "\<exists>n' w'. add_node n sj se cn ce w = (Inr n', w') \<and> calm w'"
proof -
  define now where "now = unix_seconds (clock_at w (calls w))"
  have n: "unix_now w = (Inr now, ticked w)" by (simp add: unix_now_def now_def)
  have w1: "calm (ticked w)" "tables (ticked w) = tables w" using assms(1) by (simp_all add: calm_def ticked_def)
  let ?f = "\<lambda>t. insert_node (node_row_of n sj se (next_rowid (map nr_id (nodes t))) now now) t"
  have "consistent (snd (?f (tables (ticked w))))" unfolding w1(2) by (rule insert_node_consistent [OF assms(2,3)])
  from statement_calm [of "ticked w" ?f, OF w1(1) this] obtain w2 where w2: "statement ?f (ticked w) = (Inr (fst (?f (tables w))), w2)"
    "calm w2" "tables w2 = snd (?f (tables w))" unfolding w1(2) by blast
  define i where "i = fst (?f (tables w))"
  have mem: "i \<in> nr_id ` set (nodes (tables w2))" "1 \<in> usr_id ` set (users (tables w2))"
    using assms(3) by (simp_all add: w2(3) i_def insert_node_def place_free_def)
  have "consistent (tables w2)" unfolding w2(3) by (rule insert_node_consistent [OF assms(2,3)])
  let ?g = "\<lambda>t. insert_client (new_client_row i cn ce now t) t"
  have "consistent (snd (?g (tables w2)))" by (rule insert_client_consistent [OF \<open>consistent (tables w2)\<close> mem])
  from statement_calm [of w2 ?g, OF w2(2) this] obtain w3 where w3: "statement ?g w2 = (Inr (fst (?g (tables w2))), w3)" "calm w3"
    by blast
  have "add_node n sj se cn ce w = (Inr (n\<lparr>node_id := i, node_created := now, node_updated := now\<rparr>), w3)"
    using n map_error_calm [of "statement ?f" "ticked w", OF w2(1)] map_error_calm [of "statement ?g" w2, OF w3(1)]
    by (simp add: add_node_def i_def)
  then show ?thesis using w3(2) by blast
qed

lemma created_node:
  fixes w :: "'a db_scheme"
  assumes "calm w" and "consistent (tables w)" and "place_free n (tables w)"
  shows "\<exists>n' w'. CreateNode blk n c w = (Inr n', w')"
proof -
  obtain se w1 where 1: "encryptJSON blk (secret n) w = (Inr se, w1)" "calm w1" "tables w1 = tables w"
    using Seal_calm [OF assms(1), of blk] unfolding encryptJSON_def by blast
  obtain ce w2 where 2: "encryptJSON blk (credential c) w1 = (Inr ce, w2)" "calm w2" "tables w2 = tables w"
    using Seal_calm [OF 1(2), of blk] 1(3) unfolding encryptJSON_def by metis
  have "\<exists>x w'. transaction (committed (add_node n (marshal_map (settings n)) se (client_name c) ce)) w2 = (Inr x, w')"
  proof (rule transaction_calm [OF 2(2)])
    fix w0 :: "'a db_scheme"
    assume "calm w0" "tables w0 = tables w2"
    then show "\<exists>x w1. add_node n (marshal_map (settings n)) se (client_name c) ce w0 = (Inr x, w1) \<and> calm w1"
      using add_node_calm [of w0 n "marshal_map (settings n)" se "client_name c" ce] assms(2,3) 2(3) by simp
  qed
  then show ?thesis using 1(1) 2(1) by (simp add: CreateNode_def encodeNode_def)
qed

text \<open>Without a fault a node is created whenever its endpoint is free and its outbound exists.\<close>

theorem node_created:
  fixes w :: "'a db_scheme"
  assumes "calm w" and "consistent (tables w)" and "place_free n (tables w)"
  shows "\<exists>n' w'. CreateNode blk n c w = (Inr n', w')"
  using created_node [OF assms] .

section \<open>The theorems at a concrete database\<close>

definition demo_node :: "int \<Rightarrow> int \<Rightarrow> node" where
  "demo_node i p = \<lparr>node_id = i, node_name = ''n'', protocol = ''trojan_tls'', listen = ''::'', port = p, node_enabled = True,
     public_host_override = [], node_outbound = Some 7, settings = [(''tls'', JBool True)], secret = [(''password'', JStr ''p'')],
     node_status = ''pending'', node_created = 0, node_updated = 0\<rparr>"

definition demo_client :: client where
  "demo_client = \<lparr>client_id = 0, client_node = 0, client_user = 1, client_name = ''c'', client_enabled = True,
     credential = [], client_created = 0\<rparr>"

lemma unit_result: "\<not> isl (fst r) \<Longrightarrow> \<exists>w. r = (Inr (), w)"
  by (cases r; cases "fst r") auto

lemma demo_calm: "calm (demo_world t)"
  by (simp add: calm_def)

lemma demo_place: "place_free (demo_node 0 9000) demo_rows"
  by code_simp

theorem node_created_witness:
  "\<exists>n' w'. CreateNode id (demo_node 0 9000) demo_client (demo_world demo_rows) = (Inr n', w')"
  using node_created [OF demo_calm [of demo_rows]] by (simp add: demo_rows_consistent demo_place)

theorem node_roundtrip_witness:
  "\<exists>n' w'. CreateNode id (demo_node 0 9000) demo_client (demo_world demo_rows) = (Inr n', w') \<and>
     fst (Store_Node id (node_id n') (demo_world (tables w'))) = Inr (as_stored n')"
proof -
  obtain n' w' where c: "CreateNode id (demo_node 0 9000) demo_client (demo_world demo_rows) = (Inr n', w')"
    using created_node [OF demo_calm [of demo_rows]] demo_rows_consistent demo_place by fastforce
  have "map_ok (settings (demo_node 0 9000))" "map_ok (secret (demo_node 0 9000))" by (simp_all add: map_ok_def demo_node_def)
  from node_roundtrip [OF c this, of "demo_world (tables w')"] c show ?thesis by auto
qed

theorem ports_can_be_exchanged_witness:
  "fst (SetNodePortsAndStart 9000 [demo_node 1 8882, demo_node 2 8881] (demo_world demo_rows)) = Inr ()"
proof (rule ports_can_be_exchanged)
  show "movable [demo_node 1 8882, demo_node 2 8881] (tables (demo_world demo_rows))"
    unfolding movable_def demo_world_simps by (intro conjI; code_simp)
qed (simp_all add: demo_calm demo_rows_consistent)

theorem ports_set_exactly_witness:
  "\<exists>w' now. SetNodePortsAndStart 9000 [demo_node 1 8882, demo_node 2 8881] (demo_world demo_rows) = (Inr (), w') \<and>
     tables w' = upsert_setting ''node_start_port'' (itoa 9000) now
       (with_nodes (placed_row now [demo_node 1 8882, demo_node 2 8881]) demo_rows)"
proof -
  have "\<not> isl (fst (SetNodePortsAndStart 9000 [demo_node 1 8882, demo_node 2 8881] (demo_world demo_rows)))" by code_simp
  then obtain w' where m: "SetNodePortsAndStart 9000 [demo_node 1 8882, demo_node 2 8881] (demo_world demo_rows) = (Inr (), w')"
    using unit_result by blast
  have "distinct (map node_id [demo_node 1 8882, demo_node 2 8881])" by (simp add: demo_node_def)
  from ports_set_exactly [OF m this] m show ?thesis by auto
qed

theorem recovery_keeps_borrowed_witness:
  "\<exists>w'. MergeFirewallRecoveryRules [\<lparr>rule_protocol = ''tcp'', rule_port = 8881, rule_ownership = FirewallOwned,
       rule_backend = FirewallUFW\<rparr>] (demo_world demo_rows) = (Inr (), w') \<and> borrowed_rows (tables w') = borrowed_rows demo_rows"
proof -
  let ?rs = "[\<lparr>rule_protocol = ''tcp'', rule_port = 8881, rule_ownership = FirewallOwned, rule_backend = FirewallUFW\<rparr>]"
  have "\<not> isl (fst (MergeFirewallRecoveryRules ?rs (demo_world demo_rows)))" by code_simp
  then obtain w' where m: "MergeFirewallRecoveryRules ?rs (demo_world demo_rows) = (Inr (), w')" using unit_result by blast
  from recovery_keeps_borrowed [OF this] m show ?thesis by auto
qed

theorem used_outbound_stays_witness:
  "\<exists>e w'. DeleteOutbound 7 (demo_world demo_rows) = (Inl e, w') \<and> IsConflict e \<and> tables w' = demo_rows"
  using used_outbound_stays [of "demo_row 1 8881 ''trojan_tls'' (Some 7)" "demo_world demo_rows" 7] demo_rows_consistent demo_calm
  by (simp add: demo_rows_def demo_row_def)

theorem migration_retires_witness:
  "\<exists>w'. migrate (demo_world (demo_rows\<lparr>user_version := 9\<rparr>)) = (Inr (), w') \<and> user_version (tables w') = length migrations \<and>
     nodes (tables w') = filter (\<lambda>r. nr_protocol r \<noteq> ''naive'') (nodes demo_rows)"
proof -
  let ?w = "demo_world (demo_rows\<lparr>user_version := 9\<rparr>)"
  have "\<not> isl (fst (migrate ?w))" by code_simp
  then obtain w' where m: "migrate ?w = (Inr (), w')" using unit_result by blast
  from migration_retires [OF this] m show ?thesis by simp
qed

end
