(* ===== verification/StoreFrames.thy ===== *)
theory StoreFrames
  imports StoreData
begin

text \<open>
  What the operations of the database leave alone, whatever fails: a relation between the tables before and after
  that is reflexive and transitive goes through every handler (the locale \<open>frame\<close>). Two relations are used: the
  tables of the administrator's configuration stay as they are, and the rows of every other node do.
\<close>

section \<open>Frames\<close>

definition within :: "(tables \<Rightarrow> tables \<Rightarrow> bool) \<Rightarrow> ('a db_scheme, 'b) io \<Rightarrow> bool" where
  "within R m \<longleftrightarrow> (\<forall>w. R (tables w) (tables (snd (m w))))"

named_theorems frame_intro \<open>computations within a frame\<close>

lemma withinD: "within R m \<Longrightarrow> m w = (r, w') \<Longrightarrow> R (tables w) (tables w')"
  unfolding within_def by (metis snd_conv)

lemma withinI: "(\<And>w r w'. m w = (r, w') \<Longrightarrow> R (tables w) (tables w')) \<Longrightarrow> within R m"
  unfolding within_def by (metis prod.collapse)

lemma within_if [frame_intro]: "(b \<Longrightarrow> within R m) \<Longrightarrow> (\<not> b \<Longrightarrow> within R n) \<Longrightarrow> within R (if b then m else n)"
  by simp

lemma within_pair [frame_intro]: "(\<And>x y. p = (x, y) \<Longrightarrow> within R (f x y)) \<Longrightarrow> within R (case p of (x, y) \<Rightarrow> f x y)"
  by (cases p) simp

lemma within_sum [frame_intro]:
  "(\<And>e. r = Inl e \<Longrightarrow> within R (f e)) \<Longrightarrow> (\<And>x. r = Inr x \<Longrightarrow> within R (g x)) \<Longrightarrow>
     within R (case r of Inl e \<Rightarrow> f e | Inr x \<Rightarrow> g x)"
  by (cases r) auto

lemma within_option [frame_intro]:
  "(r = None \<Longrightarrow> within R m) \<Longrightarrow> (\<And>x. r = Some x \<Longrightarrow> within R (f x)) \<Longrightarrow>
     within R (case r of None \<Rightarrow> m | Some x \<Rightarrow> f x)"
  by (cases r) auto

locale frame =
  fixes R :: "tables \<Rightarrow> tables \<Rightarrow> bool"
  assumes frame_refl: "R t t"
    and frame_trans: "R t u \<Longrightarrow> R u v \<Longrightarrow> R t v"
begin

lemma reads: "reads_only m \<Longrightarrow> within R m"
  unfolding within_def reads_only_def by (simp add: frame_refl)

lemma return_in [frame_intro]: "within R (io_return x)"
  by (simp add: within_def frame_refl)

lemma fail_in [frame_intro]: "within R (io_fail e)"
  by (simp add: within_def frame_refl)

lemma bind_in [frame_intro]:
  assumes "within R m" and "\<And>x w w'. m w = (Inr x, w') \<Longrightarrow> within R (f x)"
  shows "within R (io_bind m f)"
proof (rule withinI)
  fix w r w'
  assume e: "io_bind m f w = (r, w')"
  obtain r1 w1 where m: "m w = (r1, w1)" by (cases "m w")
  have 1: "R (tables w) (tables w1)" using withinD [OF assms(1) m] .
  show "R (tables w) (tables w')"
  proof (cases r1)
    case (Inl x)
    then show ?thesis using e m 1 by simp
  next
    case (Inr x)
    then have "f x w1 = (r, w')" using e m by simp
    from withinD [OF assms(2) [OF m [unfolded Inr]] this] show ?thesis using 1 frame_trans by blast
  qed
qed

lemma try_in [frame_intro]:
  assumes "within R m" and "\<And>r w w'. m w = (r, w') \<Longrightarrow> within R (f r)"
  shows "within R (io_try m f)"
proof (rule withinI)
  fix w r w'
  assume e: "io_try m f w = (r, w')"
  obtain r1 w1 where m: "m w = (r1, w1)" by (cases "m w")
  then have "f r1 w1 = (r, w')" using e by simp
  from withinD [OF assms(2) [OF m] this] withinD [OF assms(1) m] show "R (tables w) (tables w')"
    using frame_trans by blast
qed

lemma map_error_in [frame_intro]: "within R m \<Longrightarrow> within R (io_map_error g m)"
  unfolding io_map_error_def by (intro frame_intro)

lemma each_in [frame_intro]: "(\<And>x. x \<in> set xs \<Longrightarrow> within R (f x)) \<Longrightarrow> within R (io_each f xs)"
  by (induction xs) (auto intro!: return_in bind_in)

lemma statement_in [frame_intro]: "(\<And>t. R t (snd (f t))) \<Longrightarrow> within R (statement f)"
  by (auto simp: within_def statement_def attempt_def ticked_def frame_refl split: prod.splits option.splits)
    (metis snd_conv)

lemma transaction_in [frame_intro]:
  assumes "within R body"
  shows "within R (transaction body)"
proof (rule withinI)
  fix w r w'
  assume e: "transaction body w = (r, w')"
  show "R (tables w) (tables w')"
  proof (cases r)
    case (Inl x)
    then have "tables w' = tables w" using failed_transaction [of body w] e by (simp add: isl_def)
    then show ?thesis by (simp add: frame_refl)
  next
    case (Inr x)
    from e [unfolded this] show ?thesis
      by (rule transaction_InrE) (auto simp: frame_refl dest: withinD [OF assms])
  qed
qed

lemmas [frame_intro] = reads [OF reads_only_nop] reads [OF reads_only_query] reads [OF reads_only_row]
  reads [OF reads_only_rows] reads [OF reads_only_now] reads [OF reads_only_rand] reads [OF reads_only_Seal]
  reads [OF reads_only_encrypt] reads [OF reads_only_encode] reads [OF reads_only_affected] reads [OF reads_only_of]

lemma committed_in [frame_intro]: "within R m \<Longrightarrow> within R (committed m)"
  unfolding committed_def by (intro frame_intro)

end

section \<open>The administrator's configuration\<close>

text \<open>Everything but the journal: the configuration history, the events and the tracked firewall rules.\<close>

definition durable :: "tables \<Rightarrow> tables" where
  "durable t = t\<lparr>config_versions := [], system_events := [], managed_firewall_rules := []\<rparr>"

definition same_config :: "tables \<Rightarrow> tables \<Rightarrow> bool" where
  "same_config t u \<longleftrightarrow> durable u = durable t"

interpretation config: frame same_config
  by unfold_locales (simp_all add: same_config_def)

lemma same_config_journal [simp]:
  "same_config t (t\<lparr>config_versions := vs\<rparr>)" "same_config t (t\<lparr>system_events := es\<rparr>)"
  "same_config t (t\<lparr>managed_firewall_rules := rs\<rparr>)"
  by (simp_all add: same_config_def durable_def)

lemma config_RecordEvent [frame_intro]: "within same_config (RecordEvent level code message)"
  unfolding RecordEvent_def insert_event_def by (intro frame_intro) simp_all

lemma config_SaveConfigVersion [frame_intro]: "within same_config (SaveConfigVersion blk config healthy)"
  unfolding SaveConfigVersion_def add_version_def insert_version_def prune_versions_def
  by (intro frame_intro) simp_all

lemma config_TrackFirewallRule [frame_intro]: "within same_config (TrackFirewallRule p n)"
  unfolding TrackFirewallRule_def insert_rule_def by (intro frame_intro) (simp add: config.frame_refl)

lemma config_ForgetFirewallRule [frame_intro]: "within same_config (ForgetFirewallRule p n)"
  unfolding ForgetFirewallRule_def by (intro frame_intro) simp

lemma config_SetFirewallRuleOwnership [frame_intro]: "within same_config (SetFirewallRuleOwnership p n ownership backend)"
  unfolding SetFirewallRuleOwnership_def by (intro frame_intro) (simp add: update_rows_def)

section \<open>The rows of the other nodes\<close>

definition beside :: "int \<Rightarrow> tables \<Rightarrow> tables" where
  "beside i t = (durable t)\<lparr>nodes := filter (\<lambda>r. nr_id r \<noteq> i) (nodes t),
     node_clients := filter (\<lambda>r. cr_node r \<noteq> i) (node_clients t)\<rparr>"

definition same_beside :: "int \<Rightarrow> tables \<Rightarrow> tables \<Rightarrow> bool" where
  "same_beside i t u \<longleftrightarrow> beside i u = beside i t"

interpretation beside: frame "same_beside i" for i
  by unfold_locales (simp_all add: same_beside_def)

lemma same_config_beside: "same_config t u \<Longrightarrow> same_beside i t u"
  unfolding same_config_def same_beside_def beside_def durable_def
  by (cases t; cases u) (simp add: tables.defs)

lemma within_config_beside: "within same_config m \<Longrightarrow> within (same_beside i) m"
  unfolding within_def by (blast intro: same_config_beside)

lemma beside_nodes [simp]:
  "same_beside i t (t\<lparr>nodes := rs\<rparr>) \<longleftrightarrow> filter (\<lambda>r. nr_id r \<noteq> i) rs = filter (\<lambda>r. nr_id r \<noteq> i) (nodes t)"
  by (auto simp: same_beside_def beside_def durable_def dest: arg_cong [of _ _ nodes])

lemma beside_clients [simp]:
  "same_beside i t (t\<lparr>node_clients := rs\<rparr>) \<longleftrightarrow>
     filter (\<lambda>r. cr_node r \<noteq> i) rs = filter (\<lambda>r. cr_node r \<noteq> i) (node_clients t)"
  by (auto simp: same_beside_def beside_def durable_def dest: arg_cong [of _ _ node_clients])

lemma filter_map_other:
  "(\<And>r. P r \<Longrightarrow> \<not> Q r \<and> \<not> Q (f r)) \<Longrightarrow> filter Q (map (\<lambda>r. if P r then f r else r) rs) = filter Q rs"
  by (induction rs) auto

lemma beside_UpdateNode [frame_intro]: "node_id n = i \<Longrightarrow> within (same_beside i) (UpdateNode blk n)"
  unfolding UpdateNode_def update_nodes_def update_rows_def
  by (intro frame_intro) (simp add: filter_map_other set_node_def)

lemma beside_DeleteNode [frame_intro]: "within (same_beside i) (DeleteNode i)"
proof -
  have "same_beside i t (snd (delete_node i t))" for t
  proof -
    have "cr_node c \<notin> nr_id ` set (filter (\<lambda>r. nr_id r = i) (nodes t))" if "cr_node c \<noteq> i" for c :: client_row
      using that by auto
    then have "filter (\<lambda>r. cr_node r \<noteq> i) (filter (\<lambda>c. cr_node c \<notin> nr_id ` set (filter (\<lambda>r. nr_id r = i) (nodes t))) (node_clients t))
        = filter (\<lambda>r. cr_node r \<noteq> i) (node_clients t)"
      unfolding filter_filter by (intro filter_cong) auto
    then show ?thesis by (simp add: same_beside_def beside_def durable_def delete_node_def delete_nodes_def)
  qed
  then show ?thesis unfolding DeleteNode_def by (intro frame_intro)
qed

lemma beside_restore_client [frame_intro]: "within (same_beside i) (restore_client blk i c)"
  unfolding restore_client_def insert_client_def restored_client_row_def by (intro frame_intro) simp

lemma beside_RestoreNode [frame_intro]: "node_id n = i \<Longrightarrow> within (same_beside i) (RestoreNode blk n cs)"
  unfolding RestoreNode_def insert_node_def node_row_of_def by (intro frame_intro) (simp_all add: frame_intro)

lemma beside_CreateClient [frame_intro]: "client_node c = i \<Longrightarrow> within (same_beside i) (CreateClient blk c)"
  unfolding CreateClient_def insert_client_def new_client_row_def by (intro frame_intro) simp

lemma beside_RestoreClient [frame_intro]: "client_node c = i \<Longrightarrow> within (same_beside i) (RestoreClient blk c)"
  unfolding RestoreClient_def by (simp add: frame_intro)

lemma beside_UpdateClient [frame_intro]: "client_node c = i \<Longrightarrow> within (same_beside i) (UpdateClient blk c)"
  unfolding UpdateClient_def update_clients_def update_rows_def
  by (intro frame_intro) (auto intro!: filter_map_other)

lemma beside_DeleteClient [frame_intro]: "within (same_beside i) (DeleteClient i j)"
proof -
  have "filter (\<lambda>r. cr_node r \<noteq> i) (filter (\<lambda>r. \<not> (cr_id r = j \<and> cr_node r = i)) rs) = filter (\<lambda>r. cr_node r \<noteq> i) rs" for rs
    unfolding filter_filter by (intro filter_cong) auto
  then show ?thesis unfolding DeleteClient_def Let_def by (intro frame_intro) simp
qed

lemma Store_Node_id: "Store_Node blk i w = (Inr n, w') \<Longrightarrow> node_id n = i"
  unfolding Store_Node_def
  by (auto elim!: io_bind_InrE dest!: query_row_Inr simp: io_of_def scanNode_def filter_eq_Cons_iff split: sum.splits)

lemma scan_all_Inr: "scan_all f rs = Inr xs \<Longrightarrow> list_all2 (\<lambda>r x. f r = Inr x) rs xs"
  by (induction rs arbitrary: xs) (auto split: sum.splits)

lemma list_all2_in: "list_all2 P xs ys \<Longrightarrow> y \<in> set ys \<Longrightarrow> \<exists>x\<in>set xs. P x y"
  by (induction rule: list_all2_induct) auto

lemma query_rows_Inr:
  "query_rows f g w = (Inr xs, w') \<Longrightarrow> scan_all g (f (tables w)) = Inr xs"
  unfolding query_rows_def
  by (auto elim!: io_bind_InrE simp: io_of_def query_def attempt_def ticked_def split: sum.splits if_splits)

lemma Clients_node: "Clients blk i w = (Inr cs, w') \<Longrightarrow> c \<in> set cs \<Longrightarrow> client_node c = i"
proof -
  assume a: "Clients blk i w = (Inr cs, w')" and c: "c \<in> set cs"
  have "list_all2 (\<lambda>r x. scan_client blk r = Inr x) (sort_key cr_id (filter (\<lambda>r. cr_node r = i) (node_clients (tables w)))) cs"
    using scan_all_Inr [OF query_rows_Inr [OF a [unfolded Clients_def]]] .
  then have "\<exists>r\<in>set (sort_key cr_id (filter (\<lambda>r. cr_node r = i) (node_clients (tables w)))). scan_client blk r = Inr c"
    using c by (rule list_all2_in)
  then obtain r where "cr_node r = i" "scan_client blk r = Inr c" by auto
  then show ?thesis by (auto simp: scan_client_def split: sum.split_asm)
qed

end
