(* ===== verification/VpnService.thy ===== *)
theory VpnService
  imports VpnCatalog VpnSanitize StoreData
begin

text \<open>
  \<open>internal/vpngate/service.go\<close> and \<open>countries.go\<close>: the VPNGate exits of the panel. An exit is a row of the
  database with a managed outbound; its tunnel is brought up and down by the orchestrator of the network
  namespaces, an interface of the code and a record of operations here. The mutex makes a handler one step;
  \<open>Reconcile\<close> asks for the health of the exits outside of it, so other handlers may run in between. Messages
  are abbreviated; deadlines are not modelled (a call that runs out of time is a call that fails).
\<close>

section \<open>Country names\<close>

definition countryNamesZh :: "(string \<times> nat list) list" where
  "countryNamesZh =
    [(''AR'', [0xE9, 0x98, 0xBF, 0xE6, 0xA0, 0xB9, 0xE5, 0xBB, 0xB7]),
     (''AU'', [0xE6, 0xBE, 0xB3, 0xE5, 0xA4, 0xA7, 0xE5, 0x88, 0xA9, 0xE4, 0xBA, 0x9A]),
     (''AT'', [0xE5, 0xA5, 0xA5, 0xE5, 0x9C, 0xB0, 0xE5, 0x88, 0xA9]),
     (''BE'', [0xE6, 0xAF, 0x94, 0xE5, 0x88, 0xA9, 0xE6, 0x97, 0xB6]),
     (''BR'', [0xE5, 0xB7, 0xB4, 0xE8, 0xA5, 0xBF]),
     (''CA'', [0xE5, 0x8A, 0xA0, 0xE6, 0x8B, 0xBF, 0xE5, 0xA4, 0xA7]),
     (''CL'', [0xE6, 0x99, 0xBA, 0xE5, 0x88, 0xA9]),
     (''CN'', [0xE4, 0xB8, 0xAD, 0xE5, 0x9B, 0xBD]),
     (''CO'', [0xE5, 0x93, 0xA5, 0xE4, 0xBC, 0xA6, 0xE6, 0xAF, 0x94, 0xE4, 0xBA, 0x9A]),
     (''CZ'', [0xE6, 0x8D, 0xB7, 0xE5, 0x85, 0x8B]),
     (''DK'', [0xE4, 0xB8, 0xB9, 0xE9, 0xBA, 0xA6]),
     (''EE'', [0xE7, 0x88, 0xB1, 0xE6, 0xB2, 0x99, 0xE5, 0xB0, 0xBC, 0xE4, 0xBA, 0x9A]),
     (''FI'', [0xE8, 0x8A, 0xAC, 0xE5, 0x85, 0xB0]),
     (''FR'', [0xE6, 0xB3, 0x95, 0xE5, 0x9B, 0xBD]),
     (''DE'', [0xE5, 0xBE, 0xB7, 0xE5, 0x9B, 0xBD]),
     (''GR'', [0xE5, 0xB8, 0x8C, 0xE8, 0x85, 0x8A]),
     (''HK'', [0xE4, 0xB8, 0xAD, 0xE5, 0x9B, 0xBD, 0xE9, 0xA6, 0x99, 0xE6, 0xB8, 0xAF]),
     (''HU'', [0xE5, 0x8C, 0x88, 0xE7, 0x89, 0x99, 0xE5, 0x88, 0xA9]),
     (''IN'', [0xE5, 0x8D, 0xB0, 0xE5, 0xBA, 0xA6]),
     (''ID'', [0xE5, 0x8D, 0xB0, 0xE5, 0xBA, 0xA6, 0xE5, 0xB0, 0xBC, 0xE8, 0xA5, 0xBF, 0xE4, 0xBA, 0x9A]),
     (''IE'', [0xE7, 0x88, 0xB1, 0xE5, 0xB0, 0x94, 0xE5, 0x85, 0xB0]),
     (''IL'', [0xE4, 0xBB, 0xA5, 0xE8, 0x89, 0xB2, 0xE5, 0x88, 0x97]),
     (''IT'', [0xE6, 0x84, 0x8F, 0xE5, 0xA4, 0xA7, 0xE5, 0x88, 0xA9]),
     (''JP'', [0xE6, 0x97, 0xA5, 0xE6, 0x9C, 0xAC]),
     (''KR'', [0xE9, 0x9F, 0xA9, 0xE5, 0x9B, 0xBD]),
     (''MY'', [0xE9, 0xA9, 0xAC, 0xE6, 0x9D, 0xA5, 0xE8, 0xA5, 0xBF, 0xE4, 0xBA, 0x9A]),
     (''MX'', [0xE5, 0xA2, 0xA8, 0xE8, 0xA5, 0xBF, 0xE5, 0x93, 0xA5]),
     (''NL'', [0xE8, 0x8D, 0xB7, 0xE5, 0x85, 0xB0]),
     (''NZ'', [0xE6, 0x96, 0xB0, 0xE8, 0xA5, 0xBF, 0xE5, 0x85, 0xB0]),
     (''NO'', [0xE6, 0x8C, 0xAA, 0xE5, 0xA8, 0x81]),
     (''PE'', [0xE7, 0xA7, 0x98, 0xE9, 0xB2, 0x81]),
     (''PH'', [0xE8, 0x8F, 0xB2, 0xE5, 0xBE, 0x8B, 0xE5, 0xAE, 0xBE]),
     (''PL'', [0xE6, 0xB3, 0xA2, 0xE5, 0x85, 0xB0]),
     (''PT'', [0xE8, 0x91, 0xA1, 0xE8, 0x90, 0x84, 0xE7, 0x89, 0x99]),
     (''PY'', [0xE5, 0xB7, 0xB4, 0xE6, 0x8B, 0x89, 0xE5, 0x9C, 0xAD]),
     (''RO'', [0xE7, 0xBD, 0x97, 0xE9, 0xA9, 0xAC, 0xE5, 0xB0, 0xBC, 0xE4, 0xBA, 0x9A]),
     (''RU'', [0xE4, 0xBF, 0x84, 0xE7, 0xBD, 0x97, 0xE6, 0x96, 0xAF]),
     (''SG'', [0xE6, 0x96, 0xB0, 0xE5, 0x8A, 0xA0, 0xE5, 0x9D, 0xA1]),
     (''SK'', [0xE6, 0x96, 0xAF, 0xE6, 0xB4, 0x9B, 0xE4, 0xBC, 0x90, 0xE5, 0x85, 0x8B]),
     (''ZA'', [0xE5, 0x8D, 0x97, 0xE9, 0x9D, 0x9E]),
     (''ES'', [0xE8, 0xA5, 0xBF, 0xE7, 0x8F, 0xAD, 0xE7, 0x89, 0x99]),
     (''SE'', [0xE7, 0x91, 0x9E, 0xE5, 0x85, 0xB8]),
     (''CH'', [0xE7, 0x91, 0x9E, 0xE5, 0xA3, 0xAB]),
     (''TW'', [0xE4, 0xB8, 0xAD, 0xE5, 0x9B, 0xBD, 0xE5, 0x8F, 0xB0, 0xE6, 0xB9, 0xBE]),
     (''TH'', [0xE6, 0xB3, 0xB0, 0xE5, 0x9B, 0xBD]),
     (''TR'', [0xE5, 0x9C, 0x9F, 0xE8, 0x80, 0xB3, 0xE5, 0x85, 0xB6]),
     (''UA'', [0xE4, 0xB9, 0x8C, 0xE5, 0x85, 0x8B, 0xE5, 0x85, 0xB0]),
     (''AE'', [0xE9, 0x98, 0xBF, 0xE8, 0x81, 0x94, 0xE9, 0x85, 0x8B]),
     (''GB'', [0xE8, 0x8B, 0xB1, 0xE5, 0x9B, 0xBD]),
     (''US'', [0xE7, 0xBE, 0x8E, 0xE5, 0x9B, 0xBD]),
     (''VN'', [0xE8, 0xB6, 0x8A, 0xE5, 0x8D, 0x97])]"

definition countryNameZh :: "string \<Rightarrow> string" where
  "countryNameZh code = (case map_of countryNamesZh code of None \<Rightarrow> [] | Some bytes \<Rightarrow> map byte_of bytes)"

section \<open>The service\<close>

record 'w orchestrator =
  orc_provision :: "vpn_exit \<Rightarrow> candidate \<Rightarrow> string \<Rightarrow> string \<Rightarrow> string \<Rightarrow> ('w, string) io"
  orc_stop :: "vpn_exit \<Rightarrow> ('w, unit) io"
  orc_healthy :: "vpn_exit \<Rightarrow> ('w, bool) io"

text \<open>The consecutive failed health checks of each exit; an exit the map does not hold has none.\<close>

record vpn_world = db +
  healthFailures :: "int \<Rightarrow> nat"

record vpngate_report =
  vr_score :: int
  vr_ping :: int
  vr_speed :: int
  vr_sessions :: int
  vr_uptime :: int
  vr_fetched :: int

text \<open>What the lookup service answers stays the type \<open>'l\<close>.\<close>

record 'l ip_inspection =
  ii_host :: string
  ii_ip :: string
  ii_report :: vpngate_report
  ii_lookup :: 'l
  ii_provider :: string
  ii_checked :: int

record ('w, 'l) vpn_service =
  vpn_sealer :: sealer
  vpn_orchestrator :: "'w orchestrator"
  vpn_mirrors :: "('w, unit) io option"
  vpn_fetch :: "('w, candidate list) io"
  vpn_max :: int
  vpn_inspector :: "(candidate \<Rightarrow> ('w, 'l ip_inspection) io) option"

text \<open>\<open>NewService\<close>: the number of exits is bounded by five.\<close>

definition exits_limit :: "int \<Rightarrow> int" where
  "exits_limit maxExits = (if maxExits < 1 \<or> 5 < maxExits then 5 else maxExits)"

definition vpn_invalid :: "string \<Rightarrow> error" where
  "vpn_invalid message = problem_New Validation ''validation_failed'' (Some (Err message))"

definition vpn_conflict :: "string \<Rightarrow> error" where
  "vpn_conflict message = problem_New Conflict ''resource_conflict'' (Some (Err message))"

definition recordEvent :: "string \<Rightarrow> string \<Rightarrow> string \<Rightarrow> ('a db_scheme, unit) io" where
  "recordEvent level code message = io_try (RecordEvent level code message) (\<lambda>_. io_return ())"

definition ignore :: "('w, unit) io \<Rightarrow> ('w, unit) io" where
  "ignore m = io_try m (\<lambda>_. io_return ())"

section \<open>The catalog\<close>

definition Refresh :: "('a db_scheme, 'l) vpn_service \<Rightarrow> ('a db_scheme, candidate list \<times> error option) io" where
  "Refresh s =
     io_bind (case vpn_mirrors s of
         Some refresh \<Rightarrow> io_try refresh (\<lambda>r. if isl r then recordEvent ''warning'' ''vpngate_mirror_refresh_failed'' ''mirrors not updated'' else io_return ())
       | None \<Rightarrow> io_return ()) (\<lambda>_.
     io_try (vpn_fetch s) (\<lambda>r. case r of
         Inl e \<Rightarrow> io_try (ListVPNGateCandidates (vpn_sealer s)) (\<lambda>cached. case cached of
             Inr (c # cs) \<Rightarrow> io_return (c # cs, Some (problem_New Unavailable ''vpngate_refresh_failed'' (Some e)))
           | _ \<Rightarrow> io_fail (problem_New Unavailable ''vpngate_unavailable'' (Some e)))
       | Inr cs \<Rightarrow> io_bind (ReplaceVPNGateCandidates (vpn_sealer s) cs) (\<lambda>_.
           io_bind (recordEvent ''info'' ''vpngate_catalog_refreshed'' ''catalog refreshed'') (\<lambda>_. io_return (cs, None)))))"

definition Candidates :: "('a db_scheme, 'l) vpn_service \<Rightarrow> string \<Rightarrow> ('a db_scheme, candidate list) io" where
  "Candidates s country = io_bind (ListVPNGateCandidates (vpn_sealer s)) (\<lambda>cs. io_return (FilterAndRank cs country []))"

definition inspectionForCandidate :: "'l \<Rightarrow> candidate \<Rightarrow> 'l ip_inspection" where
  "inspectionForCandidate none c = \<lparr>ii_host = host_name c, ii_ip = cand_ip c,
     ii_report = \<lparr>vr_score = score c, vr_ping = ping c, vr_speed = speed c, vr_sessions = num_sessions c, vr_uptime = uptime c,
       vr_fetched = fetched_at c\<rparr>, ii_lookup = none, ii_provider = [], ii_checked = 0\<rparr>"

definition Service_Inspect :: "('a db_scheme, 'l) vpn_service \<Rightarrow> string \<Rightarrow> ('a db_scheme, 'l ip_inspection) io" where
  "Service_Inspect s hostName = io_bind (Store_VPNGateCandidate (vpn_sealer s) (trim_space hostName)) (\<lambda>c.
     case vpn_inspector s of
       None \<Rightarrow> io_fail (Err ''IP inspection is not initialised'')
     | Some inspect \<Rightarrow> io_bind (inspect c) (\<lambda>found. let base = inspectionForCandidate (ii_lookup found) c in
         io_return (found\<lparr>ii_host := ii_host base, ii_ip := ii_ip base, ii_report := ii_report base\<rparr>)))"

record region =
  rg_code :: string
  rg_name :: string
  rg_count :: int
  rg_available :: int
  rg_zh :: "string option"

definition region_of :: "candidate list \<Rightarrow> candidate list \<Rightarrow> string \<Rightarrow> region" where
  "region_of cs usable code = (let own = filter (\<lambda>c. country_short c = code) cs in
     \<lparr>rg_code = code, rg_name = country_long (last own), rg_count = int (length own),
      rg_available = int (length (filter (\<lambda>c. country_short c = code) usable)),
      rg_zh = (if countryNameZh code \<noteq> [] then Some (countryNameZh code) else None)\<rparr>)"

text \<open>\<open>shuffle\<close> is the order in which the iteration over the map of regions gives their codes.\<close>

definition Regions :: "('a db_scheme, 'l) vpn_service \<Rightarrow> (string list \<Rightarrow> string list) \<Rightarrow> ('a db_scheme, region list) io" where
  "Regions s shuffle = io_bind (ListVPNGateCandidates (vpn_sealer s)) (\<lambda>cs.
     io_return (swap_sort (\<lambda>a b. rg_code a < rg_code b)
       (map (region_of cs (FilterAndRank cs [] [])) (shuffle (remdups (map country_short cs))))))"

definition Exits :: "('a db_scheme, vpn_exit list) io" where
  "Exits = ListVPNGateExits"

definition cachedCandidates :: "('a db_scheme, 'l) vpn_service \<Rightarrow> ('a db_scheme, candidate list) io" where
  "cachedCandidates s = io_bind (ListVPNGateCandidates (vpn_sealer s)) (\<lambda>cs. io_bind time_now (\<lambda>now.
     if cs \<noteq> [] \<and> now - 1000000000 * fetched_at (hd cs) < 900000000000 then io_return cs
     else io_try (vpn_fetch s) (\<lambda>r. case r of
         Inr refreshed \<Rightarrow> io_bind (ReplaceVPNGateCandidates (vpn_sealer s) refreshed) (\<lambda>_. io_return refreshed)
       | Inl e \<Rightarrow> if cs \<noteq> [] then io_return cs else io_fail (problem_New Unavailable ''vpngate_unavailable'' (Some e)))))"

section \<open>Bringing a tunnel up\<close>

record vpn_input =
  vi_name :: string
  vi_country :: string
  vi_host :: string
  vi_minutes :: int
  vi_permanent :: bool
  vi_policy :: string

definition duration_ok :: "bool \<Rightarrow> int \<Rightarrow> bool" where
  "duration_ok perm minutes \<longleftrightarrow> perm \<or> (5 \<le> minutes \<and> minutes \<le> 24 * 60)"

definition validateCreateInput :: "vpn_input \<Rightarrow> error + vpn_input" where
  "validateCreateInput i =
     (let i = i\<lparr>vi_name := trim_space (vi_name i), vi_country := to_upper (trim_space (vi_country i)), vi_host := trim_space (vi_host i)\<rparr>
      in if vi_name i = [] then Inl (Err ''the exit needs a name'')
         else if length (vi_country i) \<noteq> 2 \<or> \<not> list_all (\<lambda>c. CHR ''A'' \<le> c \<and> c \<le> CHR ''Z'') (vi_country i)
         then Inl (Err ''the country code has two letters'')
         else if \<not> duration_ok (vi_permanent i) (vi_minutes i) then Inl (Err ''between 5 minutes and 24 hours'')
         else let i = (if vi_policy i = [] then i\<lparr>vi_policy := ''auto_swap''\<rparr> else i)
              in if vi_policy i \<noteq> ''block'' \<and> vi_policy i \<noteq> ''auto_swap'' then Inl (Err ''unknown failure policy'') else Inr i)"

definition availableSlot :: "vpn_exit list \<Rightarrow> int \<Rightarrow> int" where
  "availableSlot exits maximum = (case find (\<lambda>i. i \<notin> slot ` set exits) [1..maximum] of Some i \<Rightarrow> i | None \<Rightarrow> 0)"

definition activeCandidates :: "vpn_exit list \<Rightarrow> int \<Rightarrow> string list" where
  "activeCandidates exits ignoreID = map exit_host (filter (\<lambda>x. exit_id x \<noteq> ignoreID \<and> exit_host x \<noteq> [] \<and>
     exit_status x \<noteq> ''stopped'' \<and> exit_status x \<noteq> ''expired'') exits)"

definition updateOutboundHealth :: "('a db_scheme, 'l) vpn_service \<Rightarrow> vpn_exit \<Rightarrow> bool \<Rightarrow> ('a db_scheme, unit) io" where
  "updateOutboundHealth s x healthy = io_bind (Store_Outbound (vpn_sealer s) (exit_outbound x)) (\<lambda>ob. io_bind time_now (\<lambda>now.
     UpdateOutbound (vpn_sealer s) (if healthy
       then ob\<lparr>out_checked := Some (unix_seconds now), out_country := exit_country x, out_status := ''healthy'',
              out_observed := exit_observed x, out_error := []\<rparr>
       else ob\<lparr>out_checked := Some (unix_seconds now), out_country := exit_country x, out_status := ''unhealthy'',
              out_observed := [], out_error := exit_error x\<rparr>)))"

text \<open>The candidates are tried in order; the exit that comes back names the last one tried.\<close>

fun tryCandidates :: "('a db_scheme, 'l) vpn_service \<Rightarrow> string \<Rightarrow> string \<Rightarrow> vpn_exit \<Rightarrow> error list \<Rightarrow> candidate list \<Rightarrow>
    ('a db_scheme, vpn_exit \<times> (error option + string)) io" where
  "tryCandidates s username password x failures [] = io_return (x, Inl (errors_Join (map Some failures)))"
| "tryCandidates s username password x failures (c # cs) = (case SanitizeOpenVPN (openvpn_config c) (cand_ip c) of
      Inl e \<Rightarrow> tryCandidates s username password x (failures @ [Wrap (host_name c) e]) cs
    | Inr (config, remote) \<Rightarrow>
        (let x = x\<lparr>exit_host := host_name c, exit_ip := cand_ip c, remote_protocol := rem_protocol remote, remote_port := rem_port remote\<rparr>
         in io_try (UpdateVPNGateExit x) (\<lambda>r. case r of
              Inl e \<Rightarrow> io_return (x, Inl (Some e))
            | Inr _ \<Rightarrow> io_try (orc_provision (vpn_orchestrator s) x c config username password) (\<lambda>r. case r of
                  Inr observed \<Rightarrow> io_return (x, Inr observed)
                | Inl e \<Rightarrow> tryCandidates s username password x (failures @ [Wrap (host_name c) e]) cs))))"

text \<open>A state that cannot be written takes the tunnel down again.\<close>

definition error_of :: "error + 'a \<Rightarrow> error option" where
  "error_of r = (case r of Inl e \<Rightarrow> Some e | Inr _ \<Rightarrow> None)"

definition persistRunning :: "('a db_scheme, 'l) vpn_service \<Rightarrow> vpn_exit \<Rightarrow> ('a db_scheme, unit) io" where
  "persistRunning s x = io_try (UpdateVPNGateExitAndHealth x True) (\<lambda>r. case r of
      Inr _ \<Rightarrow> io_return ()
    | Inl e \<Rightarrow> io_try (orc_stop (vpn_orchestrator s) x) (\<lambda>stopped.
        let x = x\<lparr>exit_status := ''faulted'', exit_observed := [], exit_error := ''state not saved, tunnel stopped'', exit_checked := None\<rparr>
        in io_try (UpdateVPNGateExit x) (\<lambda>saved. io_try (updateOutboundHealth s x False) (\<lambda>health.
           io_bind (recordEvent ''error'' ''vpngate_state_commit_failed'' ''state not saved'') (\<lambda>_.
           case errors_Join [Some e, error_of stopped, error_of saved, error_of health] of
             Some joined \<Rightarrow> io_fail joined | None \<Rightarrow> io_return ())))))"

text \<open>What follows the candidates: the exit is faulted with what failed, or running with the address observed.
  A list of candidates that are all unusable joins no error when it is empty, which the callers exclude.\<close>

definition faulted :: "('a db_scheme, 'l) vpn_service \<Rightarrow> string \<Rightarrow> vpn_exit \<Rightarrow> error \<Rightarrow> ('a db_scheme, 'b) io" where
  "faulted s code x e = (let x = x\<lparr>exit_status := ''faulted'', exit_error := error_text e, exit_observed := []\<rparr> in
     io_bind (ignore (UpdateVPNGateExit x)) (\<lambda>_. io_bind (ignore (updateOutboundHealth s x False)) (\<lambda>_.
     io_bind (recordEvent ''error'' code (exit_name x)) (\<lambda>_. io_fail (problem_New Unavailable code (Some e))))))"

definition settle :: "('a db_scheme, 'l) vpn_service \<Rightarrow> string \<Rightarrow> string \<Rightarrow> vpn_exit \<times> (error option + string) \<Rightarrow>
    ('a db_scheme, vpn_exit) io" where
  "settle s failed settled outcome = (case outcome of
      (x, Inl (Some e)) \<Rightarrow> faulted s failed x e
    | (x, r) \<Rightarrow> io_bind time_now (\<lambda>now.
        io_bind (persistRunning s (x\<lparr>exit_status := ''running'', exit_observed := (case r of Inr observed \<Rightarrow> observed | Inl _ \<Rightarrow> []),
          exit_checked := Some (unix_seconds now), exit_error := []\<rparr>)) (\<lambda>_.
        io_bind (Store_VPNGateExit (exit_id x)) (\<lambda>stored.
        io_bind (recordEvent ''info'' settled (exit_name stored)) (\<lambda>_. io_return stored)))))"

section \<open>The handlers\<close>

definition preferred :: "vpn_input \<Rightarrow> candidate list \<Rightarrow> candidate list" where
  "preferred i ranked = (if vi_host i = [] then ranked
     else case find (\<lambda>c. host_name c = vi_host i) ranked of
         None \<Rightarrow> []
       | Some c \<Rightarrow> if vi_policy i = ''auto_swap''
           then c # (takeWhile (\<lambda>c. host_name c \<noteq> vi_host i) ranked @ tl (dropWhile (\<lambda>c. host_name c \<noteq> vi_host i) ranked))
           else [c])"

definition slot_text :: "int \<Rightarrow> string" where
  "slot_text = itoa"

definition exit_of_input :: "vpn_input \<Rightarrow> int \<Rightarrow> candidate \<Rightarrow> int \<Rightarrow> vpn_exit" where
  "exit_of_input i slt best now = \<lparr>exit_id = 0, exit_outbound = 0, slot = slt, exit_name = vi_name i, exit_country = vi_country i,
     exit_host = host_name best, exit_ip = cand_ip best, remote_protocol = [], remote_port = 0,
     namespace = ''jui-vpn-'' @ itoa slt, local_address = ''10.254.'' @ itoa slt @ ''.2'', local_port = 1080,
     exit_status = ''provisioning'', exit_observed = [], exit_error = [], failure_policy = vi_policy i, permanent = vi_permanent i,
     expires_at = (if vi_permanent i then None else Some (unix_seconds (now + 60000000000 * vi_minutes i))),
     exit_checked = None, exit_created = unix_seconds now, exit_updated = unix_seconds now\<rparr>"

definition exit_outbound_of :: "vpn_exit \<Rightarrow> string \<Rightarrow> string \<Rightarrow> outbound" where
  "exit_outbound_of x username password = \<lparr>out_id = 0, out_name = exit_name x, out_type = OutboundSOCKS5, out_server = local_address x,
     out_port = local_port x, out_enabled = True, out_username = username, out_password = password, out_managed = ''vpngate'',
     out_status = ''unchecked'', out_observed = [], out_country = exit_country x, out_asn = [], out_error = [], out_checked = None,
     out_created = 0, out_updated = 0\<rparr>"

definition Create_exit :: "('a db_scheme, 'l) vpn_service \<Rightarrow> vpn_input \<Rightarrow> ('a db_scheme, vpn_exit) io" where
  "Create_exit s input = io_bind (io_map_error (\<lambda>e. problem_New Validation ''validation_failed'' (Some e)) (io_of (validateCreateInput input))) (\<lambda>i.
     io_bind ListVPNGateExits (\<lambda>exits.
     if availableSlot exits (vpn_max s) = 0 then io_fail (vpn_conflict ''all VPNGate exits are in use'')
     else io_bind (cachedCandidates s) (\<lambda>cs.
       case take 6 (preferred i (FilterAndRank cs (vi_country i) (activeCandidates exits 0))) of
         [] \<Rightarrow> io_fail (vpn_conflict ''no VPNGate candidate matches'')
       | best # others \<Rightarrow>
           io_bind (RandomToken 12) (\<lambda>username. io_bind (RandomToken 24) (\<lambda>password. io_bind time_now (\<lambda>now.
           let x = exit_of_input i (availableSlot exits (vpn_max s)) best now
           in io_bind (CreateVPNGateExit (vpn_sealer s) (exit_outbound_of x username password) x) (\<lambda>x.
              io_bind (tryCandidates s username password x [] (best # others))
                (settle s ''vpngate_connect_failed'' ''vpngate_exit_created''))))))))"

definition swapLocked :: "('a db_scheme, 'l) vpn_service \<Rightarrow> int \<Rightarrow> ('a db_scheme, vpn_exit) io" where
  "swapLocked s i = io_bind (Store_VPNGateExit i) (\<lambda>x. io_bind (Store_Outbound (vpn_sealer s) (exit_outbound x)) (\<lambda>ob.
     io_bind ListVPNGateExits (\<lambda>exits. io_bind (cachedCandidates s) (\<lambda>cs.
     case take 6 (FilterAndRank cs (exit_country x) (exit_host x # activeCandidates exits (exit_id x))) of
       [] \<Rightarrow> io_fail (vpn_conflict ''no other VPNGate candidate in the country'')
     | c # others \<Rightarrow> io_try (orc_stop (vpn_orchestrator s) x) (\<lambda>r. case r of
           Inl e \<Rightarrow> (let y = x\<lparr>exit_status := ''faulted'', exit_observed := [], exit_error := ''old exit not cleaned up: '' @ error_text e\<rparr> in
             io_bind (ignore (UpdateVPNGateExit y)) (\<lambda>_. io_bind (ignore (updateOutboundHealth s y False)) (\<lambda>_.
             io_bind (recordEvent ''error'' ''vpngate_cleanup_failed'' (exit_name x)) (\<lambda>_.
             io_fail (problem_New Unavailable ''vpngate_cleanup_failed'' (Some e))))))
         | Inr _ \<Rightarrow> (let y = x\<lparr>exit_status := ''swapping'', exit_observed := [], exit_error := []\<rparr> in
             io_bind (UpdateVPNGateExit y) (\<lambda>_.
             io_bind (tryCandidates s (out_username ob) (out_password ob) y [] (c # others))
               (settle s ''vpngate_swap_failed'' ''vpngate_exit_swapped''))))))))"

definition Swap :: "('a db_scheme, 'l) vpn_service \<Rightarrow> int \<Rightarrow> ('a db_scheme, vpn_exit) io" where
  "Swap s i = swapLocked s i"

definition Extend :: "int \<Rightarrow> int \<Rightarrow> bool \<Rightarrow> ('a db_scheme, vpn_exit) io" where
  "Extend i minutes perm = io_bind (Store_VPNGateExit i) (\<lambda>x.
     if \<not> duration_ok perm minutes then io_fail (vpn_invalid ''between 5 minutes and 24 hours'')
     else io_bind (if perm then io_return None else io_bind time_now (\<lambda>now. io_return (Some (unix_seconds (now + 60000000000 * minutes))))) (\<lambda>expiry.
       io_bind (UpdateVPNGateExit (x\<lparr>permanent := perm, expires_at := expiry\<rparr>)) (\<lambda>_.
       io_bind (Store_VPNGateExit i) (\<lambda>stored.
       io_bind (recordEvent ''info'' ''vpngate_exit_extended'' (exit_name stored)) (\<lambda>_. io_return stored)))))"

definition forget_failures :: "int \<Rightarrow> ('a vpn_world_scheme, unit) io" where
  "forget_failures i w = (Inr (), w\<lparr>healthFailures := (healthFailures w)(i := 0)\<rparr>)"

definition Delete_exit :: "('a vpn_world_scheme, 'l) vpn_service \<Rightarrow> int \<Rightarrow> ('a vpn_world_scheme, unit) io" where
  "Delete_exit s i = io_bind (Store_VPNGateExit i) (\<lambda>x. io_bind (ListNodes (vpn_sealer s)) (\<lambda>ns.
     if list_ex (\<lambda>n. node_outbound n = Some (exit_outbound x)) ns then io_fail (vpn_conflict ''the exit is used by a node'')
     else io_bind (orc_stop (vpn_orchestrator s) x) (\<lambda>_. io_bind (DeleteVPNGateExit i) (\<lambda>_. io_bind (forget_failures i) (\<lambda>_.
       recordEvent ''info'' ''vpngate_exit_deleted'' (exit_name x))))))"

section \<open>Reconciling\<close>

record health_result =
  hr_exit :: vpn_exit
  hr_healthy :: bool

definition health_matches :: "health_result \<Rightarrow> vpn_exit \<Rightarrow> bool" where
  "health_matches r x \<longleftrightarrow> (let y = hr_exit r in exit_updated y = exit_updated x \<and> exit_host y = exit_host x \<and> exit_ip y = exit_ip x \<and>
     exit_observed y = exit_observed x \<and> remote_protocol y = remote_protocol x \<and> remote_port y = remote_port x \<and>
     namespace y = namespace x)"

definition past :: "vpn_exit \<Rightarrow> int \<Rightarrow> bool" where
  "past x now \<longleftrightarrow> (case expires_at x of None \<Rightarrow> False | Some t \<Rightarrow> 1000000000 * t < now)"

text \<open>The checks run at the same time; their results are a map from the id of the exit.\<close>

fun health_checks :: "('a db_scheme, 'l) vpn_service \<Rightarrow> vpn_exit list \<Rightarrow> ('a db_scheme, (int \<times> health_result) list) io" where
  "health_checks s [] = io_return []"
| "health_checks s (x # xs) =
     io_bind (if exit_status x \<noteq> ''running'' then io_return False
       else if expires_at x = None then io_return True
       else io_bind time_now (\<lambda>now. io_return (\<not> past x now))) (\<lambda>due.
     if \<not> due then health_checks s xs
     else io_bind (orc_healthy (vpn_orchestrator s) x) (\<lambda>healthy. io_bind (health_checks s xs) (\<lambda>rest.
       io_return ((exit_id x, \<lparr>hr_exit = x, hr_healthy = healthy\<rparr>) # rest))))"

definition expire :: "('a vpn_world_scheme, 'l) vpn_service \<Rightarrow> vpn_exit \<Rightarrow> ('a vpn_world_scheme, unit) io" where
  "expire s x0 = (let x = x0\<lparr>exit_status := ''expired'', exit_error := ''expired'', exit_observed := []\<rparr> in
     io_try (orc_stop (vpn_orchestrator s) x) (\<lambda>r. case r of
       Inl e \<Rightarrow> (let y = x\<lparr>exit_error := ''expiry cleanup incomplete: '' @ error_text e\<rparr> in
         io_try (UpdateVPNGateExit y) (\<lambda>u. case u of
             Inl e' \<Rightarrow> io_fail (Join [e, e'])
           | Inr _ \<Rightarrow> io_bind (ignore (updateOutboundHealth s y False)) (\<lambda>_. io_fail e)))
     | Inr _ \<Rightarrow> io_try (DeleteVPNGateExit (exit_id x)) (\<lambda>d. case d of
         Inl e \<Rightarrow> io_try (UpdateVPNGateExit x) (\<lambda>u. case u of
             Inl e' \<Rightarrow> io_fail (Join [e, e'])
           | Inr _ \<Rightarrow> io_try (updateOutboundHealth s x False) (\<lambda>h. case h of
               Inl e' \<Rightarrow> io_fail (Join [e, e'])
             | Inr _ \<Rightarrow> if IsConflict e then io_return () else io_fail e))
       | Inr _ \<Rightarrow> io_bind (forget_failures (exit_id x)) (\<lambda>_. recordEvent ''info'' ''vpngate_exit_expired'' (exit_name x)))))"

definition block :: "('a db_scheme, 'l) vpn_service \<Rightarrow> vpn_exit \<Rightarrow> string \<Rightarrow> ('a db_scheme, unit) io" where
  "block s x message = (let x = x\<lparr>exit_status := ''faulted'', exit_error := message, exit_observed := []\<rparr> in
     io_try (orc_stop (vpn_orchestrator s) x) (\<lambda>r.
     let x = (case r of Inl e \<Rightarrow> x\<lparr>exit_error := exit_error x @ '';cleanup incomplete: '' @ error_text e\<rparr> | Inr _ \<Rightarrow> x)
     in io_bind (UpdateVPNGateExit x) (\<lambda>_. io_bind (updateOutboundHealth s x False) (\<lambda>_.
        recordEvent ''error'' ''vpngate_exit_blocked'' (exit_name x)))))"

definition restoreCurrentLocked :: "('a db_scheme, 'l) vpn_service \<Rightarrow> vpn_exit \<Rightarrow> ('a db_scheme, unit) io" where
  "restoreCurrentLocked s x =
     (if exit_host x = [] \<or> exit_ip x = [] then io_fail (Err ''VPNGate exit has no previous candidate'')
      else io_bind (Store_VPNGateCandidate (vpn_sealer s) (exit_host x)) (\<lambda>c.
        if cand_ip c \<noteq> exit_ip x then io_fail (Err ''VPNGate candidate endpoint changed'')
        else io_bind (Store_Outbound (vpn_sealer s) (exit_outbound x)) (\<lambda>ob.
          io_bind (io_of (SanitizeOpenVPN (openvpn_config c) (cand_ip c))) (\<lambda>(config, remote).
          let x = x\<lparr>exit_status := ''provisioning'', exit_observed := [], exit_error := [], remote_protocol := rem_protocol remote,
                remote_port := rem_port remote\<rparr>
          in io_bind (UpdateVPNGateExit x) (\<lambda>_.
             io_bind (orc_provision (vpn_orchestrator s) x c config (out_username ob) (out_password ob)) (\<lambda>observed.
             io_bind time_now (\<lambda>now.
             io_bind (persistRunning s (x\<lparr>exit_status := ''running'', exit_observed := observed, exit_checked := Some (unix_seconds now)\<rparr>)) (\<lambda>_.
             recordEvent ''info'' ''vpngate_exit_restored'' (exit_name x)))))))))"

definition swapped :: "('a db_scheme, 'l) vpn_service \<Rightarrow> vpn_exit \<Rightarrow> ('a db_scheme, bool) io" where
  "swapped s x = (if failure_policy x \<noteq> ''auto_swap'' then io_return False
     else io_try (swapLocked s (exit_id x)) (\<lambda>r. io_return (\<not> isl r)))"

definition repair :: "('a vpn_world_scheme, 'l) vpn_service \<Rightarrow> vpn_exit \<Rightarrow> ('a vpn_world_scheme, unit) io" where
  "repair s x = io_bind (forget_failures (exit_id x)) (\<lambda>_.
     if exit_status x \<in> {''running'', ''provisioning'', ''swapping''}
     then io_try (restoreCurrentLocked s x) (\<lambda>r. if \<not> isl r then io_return ()
       else io_bind (swapped s x) (\<lambda>ok. if ok then io_return () else block s x ''tunnel not restored''))
     else if exit_status x = ''faulted'' then io_bind (swapped s x) (\<lambda>_. io_return ())
     else io_return ())"

definition count_failure :: "int \<Rightarrow> ('a vpn_world_scheme, nat) io" where
  "count_failure i w = (let n = Suc (healthFailures w i) in (Inr n, w\<lparr>healthFailures := (healthFailures w)(i := n)\<rparr>))"

definition reconcile_exit :: "('a vpn_world_scheme, 'l) vpn_service \<Rightarrow> (int \<times> health_result) list \<Rightarrow> vpn_exit \<Rightarrow>
    ('a vpn_world_scheme, unit) io" where
  "reconcile_exit s health x = io_bind (if expires_at x = None then io_return False
       else io_bind time_now (\<lambda>now. io_return (past x now))) (\<lambda>over.
     if over then expire s x
     else if exit_status x = ''running'' then (case map_of health (exit_id x) of
         None \<Rightarrow> io_return ()
       | Some r \<Rightarrow> if \<not> health_matches r x then io_return ()
           else if hr_healthy r then forget_failures (exit_id x)
           else io_bind (count_failure (exit_id x)) (\<lambda>n. if n < 2 then io_return () else repair s x))
     else repair s x)"

definition reconcileLocked :: "('a vpn_world_scheme, 'l) vpn_service \<Rightarrow> (int \<times> health_result) list \<Rightarrow> ('a vpn_world_scheme, unit) io" where
  "reconcileLocked s health = io_bind ListVPNGateExits (io_each (reconcile_exit s health))"

text \<open>\<open>others\<close> is what other handlers do between the health checks and the second lock.\<close>

definition Reconcile_exits :: "('a vpn_world_scheme, 'l) vpn_service \<Rightarrow> ('a vpn_world_scheme \<Rightarrow> 'a vpn_world_scheme) \<Rightarrow>
    ('a vpn_world_scheme, unit) io" where
  "Reconcile_exits s others = io_bind ListVPNGateExits (\<lambda>snapshot. io_bind (health_checks s snapshot) (\<lambda>health.
     io_bind (\<lambda>w. (Inr (), others w)) (\<lambda>_. reconcileLocked s health)))"

end
