(* ===== verification/VpnProbe.thy ===== *)
theory VpnProbe
  imports VpnCatalog VpnSanitize Secure
begin

text \<open>
  \<open>internal/vpngate/probe.go\<close>: the OpenVPN reset exchange that tells a responsive candidate from a dead one. The
  connection is an interface: its reads and writes are operations of a record.
\<close>

section \<open>The exchange\<close>

text \<open>
  \<open>con_write\<close> copies all bytes; \<open>con_full n\<close> is \<open>io.ReadFull\<close> of \<open>n\<close> bytes; \<open>con_read n\<close> is one \<open>Read\<close> into
  \<open>n\<close> bytes; \<open>con_deadline half\<close> sets the read deadline, halfway to the end of the probe or at it.
\<close>

record 'w connection =
  con_write :: "string \<Rightarrow> ('w, unit) io"
  con_full :: "nat \<Rightarrow> ('w, string) io"
  con_read :: "nat \<Rightarrow> ('w, string) io"
  con_deadline :: "bool \<Rightarrow> ('w, unit) io"
  con_timeout :: "error \<Rightarrow> bool"

definition reset_packet :: "string \<Rightarrow> string" where
  "reset_packet sid = byte_of (7 * 8) # sid @ replicate 5 (byte_of 0)"

definition wire :: "bool \<Rightarrow> string \<Rightarrow> string" where
  "wire tcp packet = (if tcp then byte_of 0 # byte_of (length packet) # packet else packet)"

definition validResetResponse :: "string \<Rightarrow> string \<Rightarrow> bool" where
  "validResetResponse packet sid =
     (if length packet < 10 \<or> packet ! 0 \<noteq> byte_of (8 * 8) then False
      else let count = byte (packet ! 9); offset = 10 + count * 4
        in if count = 0 \<or> length packet < offset + 12 then False
           else if take 8 (drop offset packet) \<noteq> sid then False
           else list_ex (\<lambda>i. big_endian_value (take 4 (drop (10 + i * 4) packet)) = 0) [0..<count])"

text \<open>
  One attempt on a TCP connection, two on UDP. Only the errors of the last read reach the test for a timeout: a
  failing length prefix or an oversized packet returns at once.
\<close>

datatype answer = Packet string | ReadError error | Fatal error

definition answer_of :: "'w connection \<Rightarrow> bool \<Rightarrow> ('w, answer) io" where
  "answer_of con tcp =
     (if tcp then io_try (con_full con 2) (\<lambda>r. case r of
          Inl e \<Rightarrow> io_return (Fatal e)
        | Inr prefixed \<Rightarrow> if 2048 < big_endian_value prefixed then io_return (Fatal (Err ''oversized OpenVPN reset response''))
            else io_try (con_full con (big_endian_value prefixed)) (\<lambda>r. io_return (case r of Inl e \<Rightarrow> ReadError e | Inr p \<Rightarrow> Packet p)))
      else io_try (con_read con 2048) (\<lambda>r. io_return (case r of Inl e \<Rightarrow> ReadError e | Inr p \<Rightarrow> Packet p)))"

fun probe_attempts :: "'w connection \<Rightarrow> bool \<Rightarrow> string \<Rightarrow> nat \<Rightarrow> bool \<Rightarrow> ('w, unit) io" where
  "probe_attempts con tcp sid 0 first = io_fail (Err ''no OpenVPN reset response'')"
| "probe_attempts con tcp sid (Suc left) first =
     io_bind (con_write con (wire tcp (reset_packet sid))) (\<lambda>_.
     io_bind (con_deadline con (\<not> tcp \<and> first)) (\<lambda>_.
     io_bind (answer_of con tcp) (\<lambda>a. case a of
         Fatal e \<Rightarrow> io_fail e
       | ReadError e \<Rightarrow> if con_timeout con e \<and> 0 < left then probe_attempts con tcp sid left False else io_fail e
       | Packet p \<Rightarrow> if validResetResponse p sid then io_return ()
           else io_fail (Err ''invalid OpenVPN server reset response''))))"

definition probeOpenVPN :: "('a host_scheme) connection \<Rightarrow> bool \<Rightarrow> ('a host_scheme, unit) io" where
  "probeOpenVPN con tcp = io_bind (rand_read 8) (\<lambda>sid. probe_attempts con tcp sid (if tcp then 1 else 2) True)"

text \<open>\<open>dial\<close> opens a connection on a network to an address and gives it with its \<open>Close\<close>.\<close>

definition probeCandidate :: "(string \<Rightarrow> string \<Rightarrow> ('a host_scheme, 'a host_scheme connection \<times> ('a host_scheme, unit) io) io) \<Rightarrow>
    (('a host_scheme, unit) io) \<Rightarrow> candidate \<Rightarrow> ('a host_scheme, unit) io" where
  "probeCandidate dial set_deadline c =
     (if \<not> isPublicIP (cand_ip c) then io_fail (Err ''candidate endpoint is not public'')
      else case SanitizeOpenVPN (openvpn_config c) (cand_ip c) of
          Inl e \<Rightarrow> io_fail e
        | Inr (config, remote) \<Rightarrow>
            if contains config ''<tls-auth>'' \<or> contains config ''<tls-crypt>''
            then io_fail (Err ''authenticated control packets require full tunnel verification'')
            else let network = (if rem_protocol remote = ''tcp-client'' then ''tcp4'' else ''udp4'')
              in io_bind (dial network (join_host_port (rem_ip remote) (itoa (rem_port remote)))) (\<lambda>(con, close).
                 io_finally (io_bind set_deadline (\<lambda>_. probeOpenVPN con (network = ''tcp4''))) close))"

section \<open>What an accepted answer is\<close>

text \<open>A server reset: the opcode, the server's session, the acknowledged packets, the client's session, its own packet id.\<close>

definition server_reset :: "string \<Rightarrow> string list \<Rightarrow> string \<Rightarrow> string \<Rightarrow> string" where
  "server_reset own acks sid rest = byte_of 64 # own @ byte_of (length acks) # concat acks @ sid @ rest"

definition well_formed_acks :: "string list \<Rightarrow> bool" where
  "well_formed_acks acks \<longleftrightarrow> acks \<noteq> [] \<and> length acks < 256 \<and> list_all (\<lambda>a. length a = 4) acks"

lemma big_endian_zero_start: "foldl (\<lambda>v c. 256 * v + byte c) v s = 0 \<longleftrightarrow> v = 0 \<and> list_all (\<lambda>c. byte c = 0) s"
  by (induction s arbitrary: v) auto

lemma big_endian_zero: "big_endian_value s = 0 \<longleftrightarrow> s = replicate (length s) zero_byte"
proof -
  have "list_all (\<lambda>c. byte c = 0) s \<longleftrightarrow> s = replicate (length s) zero_byte"
    by (induction s) (auto simp: zero_byte_def dest: byte_eq)
  then show ?thesis by (simp add: big_endian_value_def big_endian_zero_start)
qed

text \<open>Chunks of four bytes.\<close>

definition chunks4 :: "nat \<Rightarrow> string \<Rightarrow> string list" where
  "chunks4 k s = map (\<lambda>i. take 4 (drop (i * 4) s)) [0..<k]"

lemma chunks4_Suc: "chunks4 (Suc k) s = take 4 s # chunks4 k (drop 4 s)"
  unfolding chunks4_def by (subst upt_conv_Cons) (simp_all add: map_Suc_upt [symmetric] comp_def add.commute del: upt_Suc)

lemma concat_chunks4: "4 * k \<le> length s \<Longrightarrow> concat (chunks4 k s) = take (4 * k) s"
proof (induction k arbitrary: s)
  case 0
  then show ?case by (simp add: chunks4_def)
next
  case (Suc k)
  have "take (4 * Suc k) s = take 4 s @ take (4 * k) (drop 4 s)"
    using take_add [of 4 "4 * k" s] by simp
  then show ?case using Suc.IH [of "drop 4 s"] Suc.prems by (simp add: chunks4_Suc)
qed

lemma chunks4_concat: "list_all (\<lambda>a. length a = 4) acks \<Longrightarrow> chunks4 (length acks) (concat acks @ s) = acks"
proof (induction acks)
  case Nil
  then show ?case by (simp add: chunks4_def)
next
  case (Cons a acks)
  then show ?case by (simp add: chunks4_Suc)
qed

lemma length_concat4: "list_all (\<lambda>a. length a = 4) acks \<Longrightarrow> length (concat acks) = 4 * length acks"
  by (induction acks) auto

lemma validResetResponse_chunks:
  "validResetResponse p sid \<longleftrightarrow> 10 \<le> length p \<and> p ! 0 = byte_of 64 \<and>
     (let k = byte (p ! 9) in 0 < k \<and> 22 + 4 * k \<le> length p \<and> take 8 (drop (10 + 4 * k) p) = sid \<and>
       replicate 4 zero_byte \<in> set (chunks4 k (drop 10 p)))"
proof -
  define k where "k = byte (p ! 9)"
  have "list_ex (\<lambda>i. big_endian_value (take 4 (drop (10 + i * 4) p)) = 0) [0..<k]
      \<longleftrightarrow> replicate 4 zero_byte \<in> set (chunks4 k (drop 10 p))" if "22 + 4 * k \<le> length p"
  proof -
    have "big_endian_value (take 4 (drop (10 + i * 4) p)) = 0 \<longleftrightarrow> take 4 (drop (i * 4) (drop 10 p)) = replicate 4 zero_byte" if "i < k" for i
    proof -
      have "length (take 4 (drop (10 + i * 4) p)) = 4" using that \<open>22 + 4 * k \<le> length p\<close> by simp
      then show ?thesis by (simp add: big_endian_zero add.commute)
    qed
    then show ?thesis unfolding chunks4_def list_ex_iff set_map image_iff by (metis atLeastLessThan_iff atLeastLessThan_upt set_upt)
  qed
  then show ?thesis unfolding validResetResponse_def Let_def k_def [symmetric]
    by (auto simp: mult.commute [of _ 4] not_less)
qed

text \<open>C26: The probe accepts exactly the server resets that echo its session and acknowledge its packet zero.\<close>

theorem accepted_resets:
  assumes "length sid = 8"
  shows "validResetResponse p sid \<longleftrightarrow> (\<exists>own acks rest. p = server_reset own acks sid rest \<and> length own = 8 \<and>
     well_formed_acks acks \<and> replicate 4 zero_byte \<in> set acks \<and> 4 \<le> length rest)"
proof
  assume "validResetResponse p sid"
  define k where "k = byte (p ! 9)"
  have p: "10 \<le> length p" "p ! 0 = byte_of 64" "0 < k" "22 + 4 * k \<le> length p" "take 8 (drop (10 + 4 * k) p) = sid"
    "replicate 4 zero_byte \<in> set (chunks4 k (drop 10 p))"
    using \<open>validResetResponse p sid\<close> by (simp_all add: validResetResponse_chunks Let_def k_def)
  define own where "own = take 8 (drop 1 p)"
  define acks where "acks = chunks4 k (drop 10 p)"
  define rest where "rest = drop (18 + 4 * k) p"
  have l: "length acks = k" by (simp add: acks_def chunks4_def)
  have "k < 256" by (simp add: k_def)
  have 4: "list_all (\<lambda>a. length a = 4) acks" using p(4) by (auto simp: acks_def chunks4_def list_all_iff)
  have "p = p ! 0 # drop 1 p" using p(1) by (metis Cons_nth_drop_Suc One_nat_def drop0 gr0I not_numeral_le_zero length_0_conv list.size(3))
  moreover have "drop 1 p = own @ drop 9 p" using append_take_drop_id [of 8 "drop 1 p"] by (simp add: own_def)
  moreover have "drop 9 p = p ! 9 # drop 10 p" using p(1) Cons_nth_drop_Suc [of 9 p] by simp
  moreover have "drop 10 p = concat acks @ drop (10 + 4 * k) p"
    using p(4) concat_chunks4 [of k "drop 10 p"] append_take_drop_id [of "4 * k" "drop 10 p"] by (simp add: acks_def add.commute)
  moreover have "drop (10 + 4 * k) p = sid @ rest"
    using p(5) append_take_drop_id [of 8 "drop (10 + 4 * k) p"] by (simp add: rest_def add.commute)
  moreover have "p ! 9 = byte_of (length acks)" using l by (simp add: k_def byte_eq)
  ultimately have "p = server_reset own acks sid rest" using p(2) unfolding server_reset_def by metis
  moreover have "length own = 8" "4 \<le> length rest" using p(1,4) by (simp_all add: own_def rest_def)
  moreover have "well_formed_acks acks" using 4 l \<open>k < 256\<close> p(3) by (auto simp: well_formed_acks_def)
  ultimately show "\<exists>own acks rest. p = server_reset own acks sid rest \<and> length own = 8 \<and>
     well_formed_acks acks \<and> replicate 4 zero_byte \<in> set acks \<and> 4 \<le> length rest"
    using p(6) by (auto simp: acks_def)
next
  assume "\<exists>own acks rest. p = server_reset own acks sid rest \<and> length own = 8 \<and>
     well_formed_acks acks \<and> replicate 4 zero_byte \<in> set acks \<and> 4 \<le> length rest"
  then obtain own acks rest where e: "p = server_reset own acks sid rest" and o8: "length own = 8"
    and w: "well_formed_acks acks" and z: "replicate 4 zero_byte \<in> set acks" and r: "4 \<le> length rest" by blast
  have 4: "list_all (\<lambda>a. length a = 4) acks" and k: "0 < length acks" "length acks < 256"
    using w by (auto simp: well_formed_acks_def)
  have 9: "p ! 9 = byte_of (length acks)" using o8 by (simp add: e server_reset_def nth_append)
  then have b: "byte (p ! 9) = length acks" using k by simp
  have d: "drop 10 p = concat acks @ sid @ rest" using o8 by (simp add: e server_reset_def)
  have "drop (10 + 4 * length acks) p = sid @ rest"
    using d length_concat4 [OF 4] drop_drop [of "4 * length acks" 10 p] by (simp add: add.commute del: drop_drop)
  then have "take 8 (drop (10 + 4 * length acks) p) = sid" using assms by simp
  moreover have "replicate 4 zero_byte \<in> set (chunks4 (length acks) (drop 10 p))"
    using z chunks4_concat [OF 4] by (simp add: d)
  moreover have "22 + 4 * length acks \<le> length p" using o8 r assms length_concat4 [OF 4] by (simp add: e server_reset_def)
  ultimately show "validResetResponse p sid"
    using b k by (simp add: validResetResponse_chunks e server_reset_def)
qed

theorem accepted_resets_witness:
  "validResetResponse (server_reset ''serversn'' [''aaaa'', replicate 4 zero_byte] ''clientsn'' ''0001'') ''clientsn''"
proof -
  have "length ''clientsn'' = 8" "length ''serversn'' = 8" "well_formed_acks [''aaaa'', replicate 4 zero_byte]" "4 \<le> length ''0001''"
    by code_simp+
  then show ?thesis using accepted_resets [of "''clientsn''"] by (metis list.set_intros)
qed

end
