(* ===== verification/AuthService.thy ===== *)
theory AuthService
  imports AuthLimiter Password StoreLaws
begin

text \<open>
  The operations of \<open>internal/auth/service.go\<close> over the database, the limiter and the host: \<open>Login\<close>,
  \<open>Authenticate\<close>, \<open>Logout\<close> and \<open>ChangePassword\<close>, and the interleavings of concurrent logins with a
  change of the password under the read-write lock.
\<close>

section \<open>The operations\<close>

record auth_world = db +
  attempts :: limiter

definition ErrInvalidCredentials :: error where "ErrInvalidCredentials = Err ''invalid username or password''"
definition ErrLoginLimited :: error where "ErrLoginLimited = Err ''too many login attempts''"

text \<open>\<open>err != nil || !VerifyPassword(hash, password)\<close>.\<close>

definition check_credentials :: "argon2 \<Rightarrow> string \<Rightarrow> string \<Rightarrow> ('a db_scheme, bool) io" where
  "check_credentials IDKey username password = io_try (PasswordHash username) (\<lambda>r. case r of
      Inl _ \<Rightarrow> io_return False
    | Inr hash \<Rightarrow> io_return (VerifyPassword IDKey hash password))"

definition open_session :: "(string \<Rightarrow> string) \<Rightarrow> int \<Rightarrow> string \<Rightarrow> ('a db_scheme, string \<times> session) io" where
  "open_session sha256 ttl sourceIP =
     io_bind (RandomToken 32) (\<lambda>token. io_bind (RandomToken 24) (\<lambda>csrf. io_bind time_now (\<lambda>now.
     let ses = \<lparr>token_hash = HashToken sha256 token, csrf_token = csrf, session_expires = unix_seconds (now + ttl)\<rparr>
     in io_bind (CreateSession ses sourceIP) (\<lambda>_. io_return (token, ses)))))"

text \<open>The deferred \<open>finishAttempt\<close>, which reads the clock only for a rejection.\<close>

definition finish_login :: "string \<Rightarrow> outcome \<Rightarrow> error + 'x \<Rightarrow> ('a auth_world_scheme, 'x) io" where
  "finish_login sourceIP outcome r =
     io_bind (case outcome of Rejected \<Rightarrow> time_now | _ \<Rightarrow> io_return 0) (\<lambda>now w.
       (r, w\<lparr>attempts := finishAttempt sourceIP outcome now (attempts w)\<rparr>))"

definition Login :: "(string \<Rightarrow> string) \<Rightarrow> argon2 \<Rightarrow> int \<Rightarrow> string \<Rightarrow> string \<Rightarrow> string \<Rightarrow> ('a auth_world_scheme, string \<times> session) io" where
  "Login sha256 IDKey ttl username password sourceIP = io_bind time_now (\<lambda>now w.
     case reserveAttempt sourceIP now (attempts w) of (granted, l) \<Rightarrow>
       if \<not> granted then (Inl ErrLoginLimited, w\<lparr>attempts := l\<rparr>)
       else io_bind (check_credentials IDKey username password) (\<lambda>good.
         io_try (if good then open_session sha256 ttl sourceIP else io_fail ErrInvalidCredentials) (\<lambda>r.
           finish_login sourceIP (if \<not> good then Rejected else if isl r then Errored else Accepted) r))
         (w\<lparr>attempts := l\<rparr>))"

definition Authenticate :: "(string \<Rightarrow> string) \<Rightarrow> string \<Rightarrow> ('a db_scheme, session) io" where
  "Authenticate sha256 token = (if token = [] then io_fail ErrInvalidCredentials
     else Store_Session (HashToken sha256 token))"

definition Logout :: "(string \<Rightarrow> string) \<Rightarrow> string \<Rightarrow> ('a db_scheme, unit) io" where
  "Logout sha256 token = (if token = [] then io_return () else DeleteSession (HashToken sha256 token))"

definition ChangePassword :: "argon2 \<Rightarrow> string \<Rightarrow> string \<Rightarrow> ('a db_scheme, unit) io" where
  "ChangePassword IDKey current replacement = io_try AdministratorUsername (\<lambda>r. case r of
      Inl _ \<Rightarrow> io_fail ErrInvalidCredentials
    | Inr username \<Rightarrow> io_bind (check_credentials IDKey username current) (\<lambda>good.
        if \<not> good then io_fail ErrInvalidCredentials
        else io_bind (HashPassword IDKey replacement) Store_ChangePassword))"

definition Service_Limited :: "string \<Rightarrow> ('a auth_world_scheme, bool) io" where
  "Service_Limited sourceIP = io_bind time_now (\<lambda>now w. case Limited sourceIP now (attempts w) of
      (b, l) \<Rightarrow> (Inr b, w\<lparr>attempts := l\<rparr>))"

section \<open>Concurrent logins and a change of the password\<close>

text \<open>
  The lock: logins hold it for reading from before they read the stored hash until their session is
  in the table; a change of the password holds it for writing. A reader is a login, with the hash it
  has verified once it has done so. \<open>opened\<close> records for each session the hash it was opened under.
\<close>

record authority =
  world :: auth_world
  readers :: "(nat \<times> string option) list"
  writing :: bool
  opened :: "(string \<times> string) list"

inductive auth_step :: "(string \<Rightarrow> string) \<Rightarrow> argon2 \<Rightarrow> int \<Rightarrow> authority \<Rightarrow> authority \<Rightarrow> bool" for sha256 IDKey ttl where
  read_lock: "\<not> writing s \<Longrightarrow> auth_step sha256 IDKey ttl s (s\<lparr>readers := (i, None) # readers s\<rparr>)"
| verified: "(i, None) \<in> set (readers s) \<Longrightarrow> PasswordHash username (world s) = (Inr hash, w) \<Longrightarrow>
    VerifyPassword IDKey hash password \<Longrightarrow>
    auth_step sha256 IDKey ttl s (s\<lparr>world := w, readers := (i, Some hash) # remove1 (i, None) (readers s)\<rparr>)"
| rejected: "(i, None) \<in> set (readers s) \<Longrightarrow> check_credentials IDKey username password (world s) = (Inr False, w) \<Longrightarrow>
    auth_step sha256 IDKey ttl s (s\<lparr>world := w, readers := remove1 (i, None) (readers s)\<rparr>)"
| session: "(i, Some hash) \<in> set (readers s) \<Longrightarrow> open_session sha256 ttl ip (world s) = (Inr (token, ses), w) \<Longrightarrow>
    auth_step sha256 IDKey ttl s (s\<lparr>world := w, readers := remove1 (i, Some hash) (readers s),
      opened := (token_hash ses, hash) # opened s\<rparr>)"
| session_failed: "(i, Some hash) \<in> set (readers s) \<Longrightarrow> open_session sha256 ttl ip (world s) = (Inl e, w) \<Longrightarrow>
    auth_step sha256 IDKey ttl s (s\<lparr>world := w, readers := remove1 (i, Some hash) (readers s)\<rparr>)"
| write_lock: "\<not> writing s \<Longrightarrow> readers s = [] \<Longrightarrow> auth_step sha256 IDKey ttl s (s\<lparr>writing := True\<rparr>)"
| changed: "writing s \<Longrightarrow> ChangePassword IDKey current replacement (world s) = (r, w) \<Longrightarrow>
    auth_step sha256 IDKey ttl s (s\<lparr>world := w, writing := False\<rparr>)"
| logout: "Logout sha256 token (world s) = (r, w) \<Longrightarrow> auth_step sha256 IDKey ttl s (s\<lparr>world := w\<rparr>)"
| authenticate: "Authenticate sha256 token (world s) = (r, w) \<Longrightarrow> auth_step sha256 IDKey ttl s (s\<lparr>world := w\<rparr>)"

text \<open>The hash that is stored for the one administrator.\<close>

definition current_hash :: "auth_world \<Rightarrow> string \<Rightarrow> bool" where
  "current_hash w hash \<longleftrightarrow> map adm_hash (administrators (tables w)) = [hash]"

definition authority_ok :: "authority \<Rightarrow> bool" where
  "authority_ok s \<longleftrightarrow> consistent (tables (world s)) \<and> (writing s \<longrightarrow> readers s = []) \<and>
     (\<forall>i hash. (i, Some hash) \<in> set (readers s) \<longrightarrow> current_hash (world s) hash) \<and>
     (\<forall>r\<in>set (sessions (tables (world s))). \<exists>hash. (ses_hash r, hash) \<in> set (opened s) \<and> current_hash (world s) hash)"

definition no_sessions :: "authority \<Rightarrow> bool" where
  "no_sessions s \<longleftrightarrow> consistent (tables (world s)) \<and> sessions (tables (world s)) = [] \<and> readers s = [] \<and> \<not> writing s"

lemma reads_only_PasswordHash: "reads_only (PasswordHash username)"
  unfolding PasswordHash_def by (intro quiet_intro)

lemma reads_only_password_check: "reads_only (check_credentials IDKey username password)"
  unfolding check_credentials_def by (intro quiet_intro reads_only_PasswordHash)

lemma reads_only_HashPassword: "reads_only (HashPassword IDKey p)"
  unfolding HashPassword_def by (intro quiet_intro)

lemma reads_only_Authenticate: "reads_only (Authenticate sha256 token)"
  unfolding Authenticate_def Store_Session_def by (intro quiet_intro)

lemma session_tables:
  fixes w w' :: "'a db_scheme"
  assumes "CreateSession ses ip w = (Inr u, w')"
  shows "administrators (tables w') = administrators (tables w) \<and> consistent (tables w') \<and>
    ses_hash ` set (sessions (tables w')) \<subseteq> insert (token_hash ses) (ses_hash ` set (sessions (tables w))) \<and>
    (\<exists>created. \<lparr>ses_hash = token_hash ses, ses_csrf = csrf_token ses, ses_ip = ip,
       ses_expires = session_expires ses, ses_created = created\<rparr> \<in> set (sessions (tables w')))"
proof -
  obtain now created and w0 w1 w2 w3 w4 :: "'a db_scheme" where t: "tables w0 = tables w" "tables w' = tables w4"
    and 1: "unix_now w0 = (Inr now, w1)" "statement (\<lambda>t. ((), delete_sessions (\<lambda>r. ses_expires r \<le> now) t)) w1 = (Inr (), w2)"
    and 3: "unix_now w2 = (Inr created, w3)"
    and 4: "statement (\<lambda>t. ((), t\<lparr>sessions := sessions t @ [\<lparr>ses_hash = token_hash ses, ses_csrf = csrf_token ses, ses_ip = ip,
         ses_expires = session_expires ses, ses_created = created\<rparr>]\<rparr>)) w3 = (Inr u, w4)"
    using assms unfolding CreateSession_def by (auto elim!: committed_InrE io_bind_InrE)
  have "tables w1 = tables w" "tables w3 = tables w2"
    using reads_onlyD [OF reads_only_now 1(1)] reads_onlyD [OF reads_only_now 3] t by simp_all
  moreover have "tables w2 = delete_sessions (\<lambda>r. ses_expires r \<le> now) (tables w1)"
    using 1(2) by (auto elim: statement_InrE)
  moreover have "tables w4 = (tables w3)\<lparr>sessions := sessions (tables w3) @ [\<lparr>ses_hash = token_hash ses, ses_csrf = csrf_token ses, ses_ip = ip,
         ses_expires = session_expires ses, ses_created = created\<rparr>]\<rparr>" "consistent (tables w4)"
    using 4 by (auto elim: statement_InrE)
  ultimately show ?thesis using t by (auto simp: delete_sessions_def)
qed

lemma open_session_Inr:
  fixes w w' :: "'a db_scheme"
  assumes "open_session sha256 ttl ip w = (Inr (token, ses), w')"
  obtains w0 :: "'a db_scheme" and v where "tables w0 = tables w" and "CreateSession ses ip w0 = (Inr (), w')"
    and "token_hash ses = HashToken sha256 token" and "token = raw_url_encode v" and "length v = 32"
proof -
  obtain csrf now and w1 w2 w3 :: "'a db_scheme" where 1: "RandomToken 32 w = (Inr token, w1)" "RandomToken 24 w1 = (Inr csrf, w2)"
    "time_now w2 = (Inr now, w3)"
    and c: "CreateSession ses ip w3 = (Inr (), w')" and h: "token_hash ses = HashToken sha256 token"
    using assms unfolding open_session_def by (auto simp: Let_def elim!: io_bind_InrE)
  have "tables w3 = tables w"
    using reads_onlyD [OF reads_only_RandomToken 1(1)] reads_onlyD [OF reads_only_RandomToken 1(2)]
      reads_onlyD [OF reads_only_time 1(3)] by simp
  moreover obtain v where "token = raw_url_encode v" "length v = 32"
    using 1(1) by (auto simp: RandomToken_def elim!: io_bind_InrE dest!: rand_read_Inr)
  ultimately show ?thesis using that c h by blast
qed

lemma atomic_open_session: "atomic (open_session sha256 ttl ip)"
  unfolding open_session_def Let_def CreateSession_def
  by (intro atomic_bind [OF reads_only_RandomToken] atomic_bind [OF reads_only_time] atomic_return atomic_transaction)

lemma stored_hash:
  assumes "PasswordHash username w = (Inr hash, w')" and "consistent (tables w)"
  shows "current_hash w hash"
proof -
  have "length (administrators (tables w)) \<le> 1" using one_administrator [OF assms(2)] .
  moreover obtain rs where "map adm_hash (filter (\<lambda>r. adm_name r = username) (administrators (tables w))) = hash # rs"
    using query_row_Inr [OF assms(1) [unfolded PasswordHash_def]] by (elim exE)
  ultimately show ?thesis
    unfolding current_hash_def by (cases "administrators (tables w)") (auto split: if_splits)
qed

lemma change_tables:
  fixes w w' :: "'a db_scheme"
  assumes "ChangePassword IDKey current replacement w = (r, w')" and "consistent (tables w)"
  shows "consistent (tables w') \<and> (tables w' = tables w \<or> sessions (tables w') = [])"
proof -
  obtain r1 and w1 :: "'a db_scheme" where 1: "AdministratorUsername w = (r1, w1)" by (cases "AdministratorUsername w")
  have "reads_only (AdministratorUsername :: ('a db_scheme, string) io)"
    unfolding AdministratorUsername_def by (intro quiet_intro)
  from reads_onlyD [OF this 1] have t1: "tables w1 = tables w" .
  show ?thesis
  proof (cases r1)
    case (Inl e)
    then show ?thesis using assms 1 t1 by (simp add: ChangePassword_def)
  next
    case (Inr username)
    obtain r2 and w2 :: "'a db_scheme" where 2: "check_credentials IDKey username current w1 = (r2, w2)"
      by (cases "check_credentials IDKey username current w1")
    have t2: "tables w2 = tables w" using reads_onlyD [OF reads_only_password_check 2] t1 by simp
    obtain r3 and w3 :: "'a db_scheme" where 3: "HashPassword IDKey replacement w2 = (r3, w3)"
      by (cases "HashPassword IDKey replacement w2")
    have t3: "tables w3 = tables w" using reads_onlyD [OF reads_only_HashPassword 3] t2 by simp
    show ?thesis
    proof (cases "r2 = Inr True \<and> \<not> isl r3")
      case False
      then have "tables w' = tables w"
        using assms(1) 1 2 3 Inr t2 t3 by (auto simp: ChangePassword_def io_bind_def split: sum.splits if_splits)
      then show ?thesis using assms(2) by simp
    next
      case True
      then obtain h where "r3 = Inr h" by (cases r3) auto
      then have c: "Store_ChangePassword h w3 = (r, w')"
        using assms(1) 1 2 3 Inr True by (simp add: ChangePassword_def io_bind_def)
      show ?thesis
      proof (cases r)
        case (Inl e)
        then have "tables w' = tables w3"
          using atomicD [OF single_write_atomic [OF single_write.intros(1)], of h w3 e w'] c t3 assms(2) by simp
        then show ?thesis using t3 assms(2) by simp
      next
        case (Inr u)
        then show ?thesis using c changed_password [of h w3 u w'] by simp
      qed
    qed
  qed
qed

lemma remove1_mem: "x \<in> set (remove1 y xs) \<Longrightarrow> x \<in> set xs"
  by (meson notin_set_remove1)

lemma ok_readers_sub:
  "authority_ok s \<Longrightarrow> tables w = tables (world s) \<Longrightarrow> set rd \<subseteq> set (readers s) \<Longrightarrow>
     authority_ok (s\<lparr>world := w, readers := rd\<rparr>)"
  by (auto simp: authority_ok_def current_hash_def)

lemma authority_step: "authority_ok s \<Longrightarrow> auth_step sha256 IDKey ttl s s' \<Longrightarrow> authority_ok s'"
proof (erule auth_step.cases)
  fix t i
  assume "authority_ok s" "s = t" "s' = t\<lparr>readers := (i, None) # readers t\<rparr>" "\<not> writing t"
  then show ?thesis by (simp add: authority_ok_def)
next
  fix i t username hash w password
  assume a: "authority_ok s" "s = t" "s' = t\<lparr>world := w, readers := (i, Some hash) # remove1 (i, None) (readers t)\<rparr>"
    "(i, None) \<in> set (readers t)" "PasswordHash username (world t) = (Inr hash, w)"
  have "tables w = tables (world t)" using reads_onlyD [OF reads_only_PasswordHash a(5)] .
  moreover have "current_hash (world t) hash" using stored_hash [OF a(5)] a(1,2) by (simp add: authority_ok_def)
  moreover have "\<not> writing t" using a(1,2,4) by (auto simp: authority_ok_def)
  ultimately show ?thesis using a(1-3)
    by (auto simp: authority_ok_def current_hash_def dest: remove1_mem)
next
  fix i t username password w
  assume a: "authority_ok s" "s = t" "s' = t\<lparr>world := w, readers := remove1 (i, None) (readers t)\<rparr>"
    "check_credentials IDKey username password (world t) = (Inr False, w)"
  show ?thesis unfolding a(3) using a(1,2) reads_onlyD [OF reads_only_password_check a(4)]
    by (intro ok_readers_sub) (auto dest: remove1_mem)
next
  fix i hash t ip token ses w
  assume a: "authority_ok s" "s = t" "(i, Some hash) \<in> set (readers t)"
    "s' = t\<lparr>world := w, readers := remove1 (i, Some hash) (readers t), opened := (token_hash ses, hash) # opened t\<rparr>"
    "open_session sha256 ttl ip (world t) = (Inr (token, ses), w)"
  obtain w0 where w0: "tables w0 = tables (world t)" "CreateSession ses ip w0 = (Inr (), w)"
    using a(5) by (rule open_session_Inr)
  have c: "administrators (tables w) = administrators (tables (world t))" "consistent (tables w)"
    "ses_hash ` set (sessions (tables w)) \<subseteq> insert (token_hash ses) (ses_hash ` set (sessions (tables (world t))))"
    using session_tables [OF w0(2)] w0(1) by auto
  have cur: "current_hash w = current_hash (world t)" by (simp add: current_hash_def c(1) fun_eq_iff)
  have h: "current_hash (world t) hash" using a(1,2,3) by (auto simp: authority_ok_def)
  have "\<exists>hash'. (ses_hash r, hash') \<in> set ((token_hash ses, hash) # opened t) \<and> current_hash (world t) hash'"
    if "r \<in> set (sessions (tables w))" for r
  proof -
    have "ses_hash r \<in> insert (token_hash ses) (ses_hash ` set (sessions (tables (world t))))" using c(3) that by blast
    then show ?thesis using h a(1,2) by (fastforce simp: authority_ok_def)
  qed
  moreover have "current_hash (world t) h'" if "(j, Some h') \<in> set (remove1 (i, Some hash) (readers t))" for j h'
    using a(1,2) that by (auto simp: authority_ok_def dest: remove1_mem)
  ultimately show ?thesis using a(1,2,4) c(2) cur by (auto simp: authority_ok_def)
next
  fix i hash t ip e w
  assume a: "authority_ok s" "s = t" "s' = t\<lparr>world := w, readers := remove1 (i, Some hash) (readers t)\<rparr>"
    "open_session sha256 ttl ip (world t) = (Inl e, w)"
  have "tables w = tables (world t)"
    using atomicD [OF atomic_open_session a(4)] a(1,2) by (simp add: authority_ok_def)
  then show ?thesis unfolding a(3) using a(1,2) by (intro ok_readers_sub) (auto dest: remove1_mem)
next
  fix t
  assume "authority_ok s" "s = t" "s' = t\<lparr>writing := True\<rparr>" "readers t = []"
  then show ?thesis by (simp add: authority_ok_def)
next
  fix t current replacement r w
  assume a: "authority_ok s" "s = t" "writing t" "s' = t\<lparr>world := w, writing := False\<rparr>"
    "ChangePassword IDKey current replacement (world t) = (r, w)"
  have "consistent (tables w)" "tables w = tables (world t) \<or> sessions (tables w) = []"
    using change_tables [OF a(5)] a(1,2) by (auto simp: authority_ok_def)
  then show ?thesis using a(1) [unfolded a(2)] a(3,4) by (auto simp: authority_ok_def current_hash_def)
next
  fix token t r w
  assume a: "authority_ok s" "s = t" "s' = t\<lparr>world := w\<rparr>" "Logout sha256 token (world t) = (r, w)"
  have "administrators (tables w) = administrators (tables (world t)) \<and> set (sessions (tables w)) \<subseteq> set (sessions (tables (world t)))
      \<and> consistent (tables w)"
    using a(1,2,4)
    by (auto simp: Logout_def DeleteSession_def statement_def attempt_def ticked_def delete_sessions_def authority_ok_def
        split: if_splits option.splits prod.splits)
  then show ?thesis using a(1-3) by (auto simp: authority_ok_def current_hash_def)
next
  fix token t r w
  assume a: "authority_ok s" "s = t" "s' = t\<lparr>world := w\<rparr>" "Authenticate sha256 token (world t) = (r, w)"
  show ?thesis using reads_onlyD [OF reads_only_Authenticate a(4)] a(1-3) by (auto simp: authority_ok_def current_hash_def)
qed

interpretation auth: transition_system no_sessions "auth_step sha256 IDKey ttl" authority_ok
proof
  show "no_sessions s \<Longrightarrow> authority_ok s" for s by (simp add: no_sessions_def authority_ok_def)
qed (rule authority_step)

text \<open>C23: However logins, logouts and changes of the password interleave, every session in the table was opened
  by a login that verified the password hash that is stored now.\<close>

theorem sessions_under_current_password:
  assumes "(auth_step sha256 IDKey ttl)\<^sup>*\<^sup>* s s'" and "no_sessions s"
  shows "\<forall>r\<in>set (sessions (tables (world s'))). \<exists>hash. (ses_hash r, hash) \<in> set (opened s') \<and> current_hash (world s') hash"
  using auth.inv_reachable [OF assms(2,1)] by (simp add: authority_ok_def)

section \<open>A login opens a session\<close>

lemma open_session_authenticates:
  fixes w w' :: "'a db_scheme" and v :: "'b db_scheme"
  assumes "open_session sha256 ttl ip w = (Inr (token, ses), w')" and "tables v = tables w'" and "\<not> faulty v (Suc (calls v))"
    and "unix_seconds (clock_at v (calls v)) < session_expires ses"
  shows "fst (Authenticate sha256 token v) = Inr ses"
proof -
  obtain w0 :: "'a db_scheme" and rs where c: "CreateSession ses ip w0 = (Inr (), w')"
    and h: "token_hash ses = HashToken sha256 token" and rs: "token = raw_url_encode rs" "length rs = 32"
    using assms(1) by (rule open_session_Inr)
  obtain created where row: "\<lparr>ses_hash = token_hash ses, ses_csrf = csrf_token ses, ses_ip = ip,
       ses_expires = session_expires ses, ses_created = created\<rparr> \<in> set (sessions (tables v))" and k: "consistent (tables v)"
    using session_tables [OF c] assms(2) by auto
  let ?row = "\<lparr>ses_hash = token_hash ses, ses_csrf = csrf_token ses, ses_ip = ip,
       ses_expires = session_expires ses, ses_created = created\<rparr>"
  let ?now = "unix_seconds (clock_at v (calls v))"
  have "token \<noteq> []"
  proof
    assume "token = []"
    moreover have "raw_url_decode (raw_url_encode rs) = Some rs" by (rule rawurl64.dec_enc)
    moreover have "raw_url_decode [] = Some []" by code_simp
    ultimately show False using rs by simp
  qed
  have d: "distinct (map ses_hash (sessions (tables v)))" using k by (simp add: consistent_def uniques_def)
  have "filter (\<lambda>r. ses_hash r = HashToken sha256 token \<and> ?now < ses_expires r) (sessions (tables v))
      = filter (\<lambda>r. ?now < ses_expires r) (filter (\<lambda>r. ses_hash r = ses_hash ?row) (sessions (tables v)))"
    by (simp add: h conj_commute)
  also have "\<dots> = [?row]" using key_filter [OF d row] assms(4) by simp
  finally have f: "filter (\<lambda>r. ses_hash r = HashToken sha256 token \<and> ?now < ses_expires r) (sessions (tables (ticked v))) = [?row]"
    by (simp add: ticked_def)
  have "unix_now v = (Inr ?now, ticked v)" by (simp add: unix_now_def)
  moreover have "\<not> faulty (ticked v) (calls (ticked v))" using assms(3) by (simp add: ticked_def)
  ultimately show ?thesis
    using query_row_fst [of "ticked v" "\<lambda>t. map (\<lambda>r. \<lparr>token_hash = ses_hash r, csrf_token = ses_csrf r, session_expires = ses_expires r\<rparr>)
       (filter (\<lambda>r. ses_hash r = HashToken sha256 token \<and> ?now < ses_expires r) (sessions t))"] f \<open>token \<noteq> []\<close>
    by (simp add: Authenticate_def Store_Session_def)
qed

text \<open>The token of a successful login authenticates as its session until the session expires, unless the
  query itself fails.\<close>

theorem login_authenticates:
  fixes w w' :: "'a auth_world_scheme" and v :: "'b db_scheme"
  assumes "Login sha256 IDKey ttl username password ip w = (Inr (token, ses), w')" and "tables v = tables w'"
    and "\<not> faulty v (Suc (calls v))" and "unix_seconds (clock_at v (calls v)) < session_expires ses"
  shows "fst (Authenticate sha256 token v) = Inr ses"
proof -
  obtain u u' :: "'a auth_world_scheme" where o': "open_session sha256 ttl ip u = (Inr (token, ses), u')"
    and f: "finish_login ip Accepted (Inr (token, ses)) u' = (Inr (token, ses), w')"
    using assms(1)
    by (auto simp: Login_def finish_login_def time_now_def io_try_def io_bind_def split: prod.splits sum.splits if_splits)
  have "tables w' = tables u'" using f by (auto simp: finish_login_def io_bind_def)
  then show ?thesis using open_session_authenticates [OF o' _ assms(3,4)] assms(2) by simp
qed

section \<open>A concrete panel\<close>

definition demo_tables :: tables where
  "demo_tables = empty_tables\<lparr>administrators := [\<lparr>adm_id = 1, adm_name = ''admin'',
     adm_hash = password_hash_text (replicate 16 CHR ''s'') (demo_argon ''secret'' (replicate 16 CHR ''s'') 3 32768 2 32),
     adm_created = 0, adm_updated = 0\<rparr>]\<rparr>"

definition demo_auth :: auth_world where
  "demo_auth = \<lparr>files = \<lambda>_. None, faulty = \<lambda>_. False, torn = \<lambda>_. 0, calls = 0, random = [],
     entropy = \<lambda>n. byte_of n, drawn = 0, clock_at = \<lambda>n. 0, tables = demo_tables, attempts = new_limiter\<rparr>"

definition demo_authority :: authority where
  "demo_authority = \<lparr>world = demo_auth, readers = [], writing = False, opened = []\<rparr>"

lemma demo_consistent: "consistent demo_tables"
  by (simp add: demo_tables_def empty_tables_def consistent_def checks_def uniques_def references_def)

theorem sessions_under_current_password_witness:
  "authority_ok (demo_authority\<lparr>readers := [(0, None)]\<rparr>) \<and> sessions (tables (world (demo_authority\<lparr>readers := [(0, None)]\<rparr>))) = []"
proof -
  have n: "no_sessions demo_authority"
    using demo_consistent by (simp add: no_sessions_def demo_authority_def demo_auth_def demo_tables_def empty_tables_def)
  have "auth_step id demo_argon 0 demo_authority (demo_authority\<lparr>readers := [(0, None)]\<rparr>)"
    using auth_step.read_lock [of demo_authority id demo_argon 0 0] by (simp add: demo_authority_def)
  then have r: "(auth_step id demo_argon 0)\<^sup>*\<^sup>* demo_authority (demo_authority\<lparr>readers := [(0, None)]\<rparr>)" by blast
  have "authority_ok (demo_authority\<lparr>readers := [(0, None)]\<rparr>)" by (rule auth.inv_reachable [OF n r])
  then show ?thesis using sessions_under_current_password [OF r n]
    by (simp add: demo_authority_def demo_auth_def demo_tables_def empty_tables_def)
qed

definition demo_login :: "(error + string \<times> session) \<times> auth_world" where
  "demo_login = Login id demo_argon 3600000000000 ''admin'' ''secret'' ''192.0.2.1'' demo_auth"

theorem login_authenticates_witness:
  "\<exists>token ses. fst demo_login = Inr (token, ses) \<and> fst (Authenticate id token (snd demo_login)) = Inr ses"
proof -
  have e: "case demo_login of (r, v) \<Rightarrow> \<not> isl r \<and> \<not> faulty v (Suc (calls v)) \<and>
      unix_seconds (clock_at v (calls v)) < session_expires (snd (projr r))"
    unfolding demo_login_def by code_simp
  obtain r v where d: "demo_login = (r, v)" by (cases demo_login)
  note e' = e [unfolded d prod.case]
  obtain token ses where r: "r = Inr (token, ses)" using e' by (cases r) auto
  have "Login id demo_argon 3600000000000 ''admin'' ''secret'' ''192.0.2.1'' demo_auth = (Inr (token, ses), v)"
    using d r by (simp add: demo_login_def)
  then have "fst (Authenticate id token v) = Inr ses"
    by (rule login_authenticates [OF _ refl]) (use e' r in simp_all)
  then show ?thesis by (intro exI [of _ token] exI [of _ ses]) (simp add: d r)
qed

end
