(* ===== verification/GoTime.thy ===== *)
theory GoTime
  imports GoText
begin

text \<open>
  The part of the \<open>time\<close> package the panel prints and reads dates with: instants are nanoseconds since
  1970 in UTC, from the year 1 on, as the zero \<open>time.Time\<close> is; the civil date of a day, \<open>Format\<close> and
  \<open>Parse\<close> with \<open>time.RFC3339\<close>, and \<open>AddDate(1, 0, 0)\<close>.
\<close>

section \<open>Civil dates\<close>

definition leap :: "nat \<Rightarrow> bool" where
  "leap y \<longleftrightarrow> y mod 4 = 0 \<and> (y mod 100 \<noteq> 0 \<or> y mod 400 = 0)"

definition year_days :: "nat \<Rightarrow> nat" where
  "year_days y = (if leap y then 366 else 365)"

definition month_days :: "nat \<Rightarrow> nat list" where
  "month_days y = [31, if leap y then 29 else 28, 31, 30, 31, 30, 31, 31, 30, 31, 30, 31]"

text \<open>The year and the day in it, of the \<open>d\<close>-th day after the start of year \<open>y\<close>; the same for months.\<close>

function find_year :: "nat \<Rightarrow> nat \<Rightarrow> nat \<times> nat" where
  "find_year y d = (if d < year_days y then (y, d) else find_year (Suc y) (d - year_days y))"
  by pat_completeness auto
termination by (relation "measure snd") (auto simp: year_days_def split: if_splits)

declare find_year.simps [simp del]

fun find_month :: "nat \<Rightarrow> nat list \<Rightarrow> nat \<Rightarrow> nat \<times> nat" where
  "find_month m [] d = (m, d)"
| "find_month m (l # ls) d = (if d < l then (m, d) else find_month (Suc m) ls (d - l))"

text \<open>Four centuries have 146097 days whichever year they begin with.\<close>

definition civil :: "nat \<Rightarrow> nat \<times> nat \<times> nat" where
  "civil days = (case find_year 1 (days mod 146097) of (y, d) \<Rightarrow>
     case find_month 1 (month_days y) d of (m, dd) \<Rightarrow> (y + 400 * (days div 146097), m, dd + 1))"

definition days_before_year :: "nat \<Rightarrow> nat" where
  "days_before_year y = (y - 1) * 365 + (y - 1) div 4 - (y - 1) div 100 + (y - 1) div 400"

definition day_number :: "nat \<Rightarrow> nat \<Rightarrow> nat \<Rightarrow> nat" where
  "day_number y m d = days_before_year y + sum_list (take (m - 1) (month_days y)) + (d - 1)"

text \<open>Days from the first day of year 1 to 1970.\<close>

definition epoch_days :: nat where "epoch_days = 719162"

section \<open>RFC 3339\<close>

definition dec2 :: "nat \<Rightarrow> string" where
  "dec2 n = [digit_char (n div 10 mod 10), digit_char (n mod 10)]"

definition dec4 :: "nat \<Rightarrow> string" where
  "dec4 n = dec2 (n div 100) @ dec2 (n mod 100)"

text \<open>\<open>t.UTC().Format(time.RFC3339)\<close>, for an instant in the years 1 to 9999.\<close>

definition format_rfc3339 :: "int \<Rightarrow> string" where
  "format_rfc3339 t =
     (let s = nat (t div 1000000000 + int epoch_days * 86400); r = s mod 86400
      in case civil (s div 86400) of (y, m, d) \<Rightarrow>
           dec4 y @ ''-'' @ dec2 m @ ''-'' @ dec2 d @ ''T'' @ dec2 (r div 3600) @ '':'' @
           dec2 (r div 60 mod 60) @ '':'' @ dec2 (r mod 60) @ ''Z'')"

text \<open>Fixed-width numbers, a literal character, and the hour, which may have one digit.\<close>

definition digits2 :: "string \<Rightarrow> (nat \<times> string) option" where
  "digits2 s = (case s of a # b # r \<Rightarrow> if is_digit a \<and> is_digit b
     then Some (10 * (byte a - 48) + (byte b - 48), r) else None | _ \<Rightarrow> None)"

definition digits4 :: "string \<Rightarrow> (nat \<times> string) option" where
  "digits4 s = Option.bind (digits2 s) (\<lambda>(h, r). Option.bind (digits2 r) (\<lambda>(l, r'). Some (100 * h + l, r')))"

definition hour_digits :: "string \<Rightarrow> (nat \<times> string) option" where
  "hour_digits s = (case digits2 s of Some x \<Rightarrow> Some x | None \<Rightarrow>
     (case s of a # r \<Rightarrow> if is_digit a then Some (byte a - 48, r) else None | [] \<Rightarrow> None))"

definition mark :: "char \<Rightarrow> string \<Rightarrow> string option" where
  "mark c s = (case s of x # r \<Rightarrow> if x = c then Some r else None | [] \<Rightarrow> None)"

text \<open>A fraction of the second, of which nine digits count; then \<open>Z\<close> or an offset.\<close>

definition fraction :: "string \<Rightarrow> nat \<times> string" where
  "fraction s = (case s of
      p # a # r \<Rightarrow> if p \<in> set ''.,'' \<and> is_digit a
        then (let ds = takeWhile is_digit (a # r); n9 = take 9 ds
              in (foldl (\<lambda>v c. 10 * v + (byte c - 48)) 0 n9 * 10 ^ (9 - length n9), dropWhile is_digit (a # r)))
        else (0, s)
    | _ \<Rightarrow> (0, s))"

definition zone :: "string \<Rightarrow> int option" where
  "zone s = (if s = ''Z'' then Some 0 else case s of
      sg # r \<Rightarrow> if sg \<notin> set ''+-'' then None
        else Option.bind (digits2 r) (\<lambda>(h, r1). Option.bind (mark CHR '':'' r1) (\<lambda>r2.
             Option.bind (digits2 r2) (\<lambda>(m, r3).
             if r3 \<noteq> [] \<or> 24 < h \<or> 60 < m then None
             else Some ((if sg = CHR ''-'' then -1 else 1) * (int h * 3600 + int m * 60)))))
    | [] \<Rightarrow> None)"

definition parse_date :: "string \<Rightarrow> ((nat \<times> nat \<times> nat) \<times> string) option" where
  "parse_date s = Option.bind (digits4 s) (\<lambda>(y, r). Option.bind (mark CHR ''-'' r) (\<lambda>r.
     Option.bind (digits2 r) (\<lambda>(m, r). Option.bind (mark CHR ''-'' r) (\<lambda>r.
     Option.bind (digits2 r) (\<lambda>(d, r). Some ((y, m, d), r))))))"

definition parse_clock :: "string \<Rightarrow> ((nat \<times> nat \<times> nat) \<times> string) option" where
  "parse_clock s = Option.bind (hour_digits s) (\<lambda>(h, r). Option.bind (mark CHR '':'' r) (\<lambda>r.
     Option.bind (digits2 r) (\<lambda>(mi, r). Option.bind (mark CHR '':'' r) (\<lambda>r.
     Option.bind (digits2 r) (\<lambda>(sec, r). Some ((h, mi, sec), r))))))"

text \<open>The year 0 is before the instants that are modelled: it is read as the year 1.\<close>

definition instant :: "nat \<times> nat \<times> nat \<Rightarrow> nat \<times> nat \<times> nat \<Rightarrow> nat \<Rightarrow> int \<Rightarrow> int" where
  "instant = (\<lambda>(y, m, d) (h, mi, sec) ns z.
     ((int (day_number y m d) - int epoch_days) * 86400 + int h * 3600 + int mi * 60 + int sec - z) * 1000000000 + int ns)"

definition parse_rfc3339 :: "string \<Rightarrow> int option" where
  "parse_rfc3339 s = Option.bind (parse_date s) (\<lambda>((y, m, d), r). Option.bind (mark CHR ''T'' r) (\<lambda>r.
     Option.bind (parse_clock r) (\<lambda>((h, mi, sec), r). case fraction r of (ns, r) \<Rightarrow>
     Option.bind (zone r) (\<lambda>z.
       if m < 1 \<or> 12 < m \<or> d < 1 \<or> month_days y ! (m - 1) < d \<or> 23 < h \<or> 59 < mi \<or> 59 < sec then None
       else Some (instant (y, m, d) (h, mi, sec) ns z)))))"

text \<open>\<open>AddDate(1, 0, 0)\<close>: the same day of the next year, the first of March after a leap day.\<close>

definition add_year :: "int \<Rightarrow> int" where
  "add_year t =
     (let s = t + int epoch_days * 86400000000000; days = nat (s div 86400000000000)
      in case civil days of (y, m, d) \<Rightarrow>
           t + int (day_number (Suc y) m 1 + (d - 1) - days) * 86400000000000)"

section \<open>Reading back what was printed\<close>

lemma find_year_fst: "find_year y d = (y', d') \<Longrightarrow> y \<le> y' \<and> d' < year_days y'"
proof (induction y d arbitrary: y' d' rule: find_year.induct)
  case (1 y d)
  then show ?case
    by (cases "d < year_days y") (fastforce simp: find_year.simps [of y d])+
qed

lemma find_month_range:
  "d < sum_list ls \<Longrightarrow> find_month m ls d = (m', d') \<Longrightarrow>
     m \<le> m' \<and> m' < m + length ls \<and> d' < ls ! (m' - m) \<and> d = sum_list (take (m' - m) ls) + d'"
proof (induction m ls d rule: find_month.induct)
  case (2 m l ls d)
  show ?case
  proof (cases "d < l")
    case True
    then show ?thesis using 2(3) by simp
  next
    case False
    then have "Suc m \<le> m' \<and> m' < Suc m + length ls \<and> d' < ls ! (m' - Suc m) \<and> d - l = sum_list (take (m' - Suc m) ls) + d'"
      using 2 by simp
    moreover from this have "m' - m = Suc (m' - Suc m)" by linarith
    ultimately show ?thesis using False by auto
  qed
qed simp

lemma sum_month_days: "sum_list (month_days y) = year_days y"
  by (simp add: month_days_def year_days_def)

lemma year_step: "b \<le> a \<Longrightarrow> j \<le> i \<Longrightarrow>
    Suc k * 365 + (a + i) - (b + j) + (c + l) = k * 365 + a - b + c + (365 + i - j + l :: nat)"
  by simp

lemma days_before_Suc: "1 \<le> y \<Longrightarrow> days_before_year (Suc y) = days_before_year y + year_days y"
proof -
  assume "1 \<le> y"
  then obtain k where y: "y = Suc k" by (cases y) auto
  define i j l :: nat where "i = (if Suc k mod 4 = 0 then 1 else 0)" and "j = (if Suc k mod 100 = 0 then 1 else 0)"
    and "l = (if Suc k mod 400 = 0 then 1 else 0)"
  note ijl = i_def j_def l_def
  have a: "Suc k div 4 = k div 4 + i" "Suc k div 100 = k div 100 + j" "Suc k div 400 = k div 400 + l"
    unfolding ijl using div_Suc [of k] by simp_all
  have d: "Suc k mod 400 = 0 \<Longrightarrow> Suc k mod 100 = 0" "Suc k mod 100 = 0 \<Longrightarrow> Suc k mod 4 = 0"
    using dvd_trans [of 100 400 "Suc k"] dvd_trans [of 4 100 "Suc k"] by (auto simp: mod_eq_0_iff_dvd)
  have yd: "year_days y = 365 + i - j + l"
  proof (cases "Suc k mod 4 = 0")
    case True
    then show ?thesis
      using d unfolding y year_days_def leap_def ijl by (cases "Suc k mod 100 = 0"; cases "Suc k mod 400 = 0") (simp_all only:, simp_all)
  next
    case False
    then have "Suc k mod 100 \<noteq> 0" "Suc k mod 400 \<noteq> 0" using d by metis+
    then show ?thesis using False unfolding y year_days_def leap_def ijl by (simp only:) simp
  qed
  have "j \<le> i" using d unfolding ijl by (cases "Suc k mod 100 = 0") (simp_all only:, simp_all)
  moreover have "k div 100 \<le> k div 4" by (simp add: div_le_mono2)
  ultimately show ?thesis
    unfolding yd unfolding y days_before_year_def diff_Suc_1 a by (rule year_step [rotated])
qed

lemma find_year_days:
  "1 \<le> y \<Longrightarrow> find_year y d = (y', d') \<Longrightarrow> days_before_year y + d = days_before_year y' + d'"
proof (induction y d arbitrary: y' d' rule: find_year.induct)
  case (1 y d)
  show ?case
  proof (cases "d < year_days y")
    case True
    then show ?thesis using 1(3) by (simp add: find_year.simps [of y d])
  next
    case False
    then have "find_year (Suc y) (d - year_days y) = (y', d')" using 1(3) by (simp add: find_year.simps [of y d])
    from 1(1) [OF False _ this] show ?thesis using False 1(2) by (simp add: days_before_Suc)
  qed
qed

lemma days_before_cycle: "1 \<le> y \<Longrightarrow> days_before_year (y + 400 * q) = days_before_year y + 146097 * q"
proof -
  assume "1 \<le> y"
  then obtain k where y: "y = Suc k" by (cases y) auto
  have "(k + 400 * q) div 4 = k div 4 + 100 * q" "(k + 400 * q) div 100 = k div 100 + 4 * q" "(k + 400 * q) div 400 = k div 400 + q"
    using div_mult_self2 [of 4 k "100 * q"] div_mult_self2 [of 100 k "4 * q"] div_mult_self2 [of 400 k q] by simp_all
  moreover have "k div 100 \<le> k div 4" by (simp add: div_le_mono2)
  ultimately show ?thesis by (simp add: y days_before_year_def ac_simps)
qed

lemma leap_cycle: "leap (y + 400 * q) = leap y"
proof -
  have "(y + 400 * q) mod 4 = y mod 4" "(y + 400 * q) mod 100 = y mod 100" "(y + 400 * q) mod 400 = y mod 400"
    using mod_mult_self2 [of y 4 "100 * q"] mod_mult_self2 [of y 100 "4 * q"] mod_mult_self2 [of y 400 q] by simp_all
  then show ?thesis by (simp add: leap_def)
qed

lemma civil_range:
  assumes "civil days = (y, m, d)"
  shows "1 \<le> y \<and> 1 \<le> m \<and> m \<le> 12 \<and> 1 \<le> d \<and> d \<le> month_days y ! (m - 1) \<and> day_number y m d = days"
proof -
  let ?q = "days div 146097" and ?r = "days mod 146097"
  obtain y0 d0 where 1: "find_year 1 ?r = (y0, d0)" by (cases "find_year 1 ?r")
  obtain dd where 2: "find_month 1 (month_days y0) d0 = (m, dd)" and y: "y = y0 + 400 * ?q" and d: "d = Suc dd"
    using assms by (auto simp: civil_def 1 [simplified] split: prod.splits)
  have y0: "1 \<le> y0" "d0 < year_days y0" using find_year_fst [OF 1] by simp_all
  have len: "length (month_days y0) = 12" by (simp add: month_days_def)
  have mm: "1 \<le> m" "m < 13" "dd < month_days y0 ! (m - 1)" "d0 = sum_list (take (m - 1) (month_days y0)) + dd"
    using find_month_range [OF _ 2] y0(2) len by (simp_all add: sum_month_days)
  have same: "month_days y = month_days y0" by (simp add: y month_days_def leap_cycle)
  have "days_before_year 1 + ?r = days_before_year y0 + d0" using find_year_days [OF _ 1] by simp
  moreover have "days_before_year 1 = 0" by (simp add: days_before_year_def)
  ultimately have "?r = days_before_year y0 + d0" by simp
  moreover have "days_before_year y = days_before_year y0 + 146097 * ?q" using days_before_cycle [OF y0(1)] by (simp add: y)
  ultimately have "day_number y m d = ?r + 146097 * ?q" using mm(4) by (simp add: day_number_def same d)
  then show ?thesis using y0(1) mm by (simp add: y d same [unfolded y])
qed

lemma byte_digit: "n < 10 \<Longrightarrow> byte (digit_char n) - 48 = n \<and> is_digit (digit_char n)"
  by (simp add: byte_digit_char)

lemma digits2_dec2: "n < 100 \<Longrightarrow> digits2 (dec2 n @ r) = Some (n, r)"
  by (simp add: digits2_def dec2_def byte_digit)

lemma digits4_dec4: "n < 10000 \<Longrightarrow> digits4 (dec4 n @ r) = Some (n, r)"
proof -
  assume "n < 10000"
  then have "n div 100 < 100" by auto
  then show ?thesis by (simp add: digits4_def dec4_def digits2_dec2)
qed

theorem rfc3339_roundtrip:
  assumes "int epoch_days * -86400000000000 \<le> t" and "t < 253402300800000000000"
  shows "parse_rfc3339 (format_rfc3339 t) = Some (t div 1000000000 * 1000000000)"
proof -
  define s where "s = nat (t div 1000000000 + int epoch_days * 86400)"
  have s: "int s = t div 1000000000 + int epoch_days * 86400"
    using assms(1) by (simp add: s_def epoch_days_def)
  obtain y m d where c: "civil (s div 86400) = (y, m, d)" by (cases "civil (s div 86400)")
  note r = civil_range [OF c]
  have "s < 315537897600" using s assms(2) by (simp add: epoch_days_def)
  then have "s div 86400 < 3652059" by simp
  then have y: "y < 10000"
  proof -
    have "days_before_year y \<le> s div 86400" using r by (simp add: day_number_def)
    moreover have "3652059 \<le> days_before_year y" if "10000 \<le> y"
      using that by (simp add: days_before_year_def)
    ultimately show ?thesis using \<open>s div 86400 < 3652059\<close> by (meson leD leI order_trans)
  qed
  have "month_days y ! (m - 1) \<in> set (month_days y)" using r by (intro nth_mem) (auto simp: month_days_def)
  then have md: "month_days y ! (m - 1) \<le> 31" by (auto simp: month_days_def split: if_splits)
  let ?r = "s mod 86400"
  define hh mi sec where "hh = ?r div 3600" and "mi = ?r div 60 mod 60" and "sec = ?r mod 60"
  have rr: "hh < 24" "mi < 60" "sec < 60"
    using mod_less_divisor [of 86400 s] by (simp_all add: div_less_iff_less_mult hh_def mi_def sec_def)
  have h: "hour_digits (dec2 n @ x) = Some (n, x)" if "n < 100" for n x using digits2_dec2 [OF that] by (simp add: hour_digits_def)
  have "format_rfc3339 t = dec4 y @ ''-'' @ dec2 m @ ''-'' @ dec2 d @ ''T'' @ dec2 hh @ '':'' @ dec2 mi @ '':'' @ dec2 sec @ ''Z''"
    by (simp add: format_rfc3339_def Let_def c hh_def mi_def sec_def flip: s_def)
  then have "parse_rfc3339 (format_rfc3339 t) = Some (instant (y, m, d) (hh, mi, sec) 0 0)"
    using r md y rr
    by (simp add: parse_rfc3339_def parse_date_def parse_clock_def digits4_dec4 digits2_dec2 h mark_def fraction_def zone_def)
  moreover have "instant (y, m, d) (hh, mi, sec) 0 0 = t div 1000000000 * 1000000000"
  proof -
    have "?r div 60 div 60 = hh" by (simp add: hh_def flip: div_mult2_eq)
    then have e: "?r = (hh * 60 + mi) * 60 + sec"
      using div_mult_mod_eq [of ?r 60] div_mult_mod_eq [of "?r div 60" 60] by (simp add: mi_def sec_def)
    define D where "D = s div 86400"
    have "s = D * 86400 + hh * 3600 + mi * 60 + sec"
      using div_mult_mod_eq [of s 86400] unfolding e D_def [symmetric] by simp
    then have "int s = int D * 86400 + int hh * 3600 + int mi * 60 + int sec" by simp
    then have "(int D - int epoch_days) * 86400 + int hh * 3600 + int mi * 60 + int sec = t div 1000000000"
      using s by (simp only: left_diff_distrib)
    then show ?thesis using r unfolding instant_def D_def by simp
  qed
  ultimately show ?thesis by simp
qed

end
