(* ===== verification/NodeInput.thy ===== *)
theory NodeInput
  imports StoreLaws GoTime
begin

text \<open>
  \<open>internal/node/service.go\<close>, the checks of what the administrator enters: addresses, ports, settings,
  credentials and certificates. The world of the node service is the database, with the modes of the
  files and the flag \<open>firewallVerified\<close> of the service. X.509, PEM and the generation of a key
  pair are parameters, collected in the record \<open>tls_library\<close>.
\<close>

section \<open>Settings\<close>

record node_world = db +
  modes :: "string \<Rightarrow> bool \<times> nat"
  firewallVerified :: bool

definition mapString :: "obj \<Rightarrow> string \<Rightarrow> string" where
  "mapString ob k = trim_space (obj_string ob k)"

definition mapNumber :: "obj \<Rightarrow> string \<Rightarrow> int" where
  "mapNumber ob k = (case map_of ob k of Some (JInt n) \<Rightarrow> n | _ \<Rightarrow> 0)"

definition set_string :: "string \<Rightarrow> string \<Rightarrow> obj \<Rightarrow> obj" where
  "set_string k v ob = obj_set k (JStr v) ob"

definition validationError :: "error \<Rightarrow> error" where
  "validationError e = problem_New Validation ''validation_failed'' (Some e)"

definition conflictError :: "error \<Rightarrow> error" where
  "conflictError e = problem_New Conflict ''resource_conflict'' (Some e)"

definition notFoundError :: "error \<Rightarrow> error" where
  "notFoundError e = problem_New NotFound ''not_found'' (Some e)"

section \<open>Addresses and ports\<close>

definition defaultListen :: "string \<Rightarrow> string" where
  "defaultListen v = (if trim_space v = [] then ''0.0.0.0'' else trim_space v)"

definition localListen :: "string \<Rightarrow> bool" where
  "localListen v = (case parse_ip v of Some ip \<Rightarrow> ip_loopback ip | None \<Rightarrow> False)"

definition host_char :: "char \<Rightarrow> bool" where
  "host_char c \<longleftrightarrow> is_lower c \<or> is_upper c \<or> is_digit c \<or> c = CHR ''-''"

definition host_label :: "string \<Rightarrow> bool" where
  "host_label l \<longleftrightarrow> l \<noteq> [] \<and> length l \<le> 63 \<and> \<not> has_prefix l ''-'' \<and> \<not> has_suffix l ''-'' \<and> list_all host_char l"

definition contains_any :: "string \<Rightarrow> string \<Rightarrow> bool" where
  "contains_any s cs \<longleftrightarrow> list_ex (\<lambda>c. c \<in> set cs) s"

definition validateHostOverride :: "string \<Rightarrow> error + string" where
  "validateHostOverride v =
     (let v = trim_space v
      in if v = [] then Inr []
         else if contains v ''://'' \<or> contains_any v ''/?#@'' then Inl (Err ''public host override must be a hostname or IP'')
         else let v = trim_prefix (trim_suffix v '']'') ''[''
              in if parse_ip v \<noteq> None then Inr v
                 else if contains v '':'' then Inl (Err ''public host override must not include a port'')
                 else if 253 < length v then Inl (Err ''public host override is too long'')
                 else if \<not> list_all host_label (split_char CHR ''.'' v) then Inl (Err ''public host override is invalid'')
                 else Inr (to_lower v))"

definition validateEndpointHost :: "string \<Rightarrow> error + string" where
  "validateEndpointHost v = (case validateHostOverride v of
      Inl e \<Rightarrow> Inl e
    | Inr host \<Rightarrow> if host = [] then Inl (Err ''hostname or IP is required'') else Inr host)"

text \<open>A setting holds whole numbers only as \<open>JInt\<close>; every other value is not an integer.\<close>

definition validateSettingPort :: "json \<Rightarrow> error + int" where
  "validateSettingPort v = (case v of
      JInt n \<Rightarrow> if n < 1 \<or> 65535 < n then Inl (Err ''must be between 1 and 65535'') else Inr n
    | _ \<Rightarrow> Inl (Err ''must be an integer''))"

definition validateOutboundEndpoint :: "string \<Rightarrow> int \<Rightarrow> error + string \<times> int" where
  "validateOutboundEndpoint v fallbackPort =
     (let v = trim_space v
      in case split_host_port v of
           Some (host, portText) \<Rightarrow>
             (case atoi portText of (p, err) \<Rightarrow>
                if err \<noteq> None \<or> p < 1 \<or> 65535 < p then Inl (Err ''invalid port'')
                else case validateEndpointHost host of
                    Inl _ \<Rightarrow> Inl (Err ''must contain a valid domain or IP'')
                  | Inr normalized \<Rightarrow> Inr (normalized, p))
         | None \<Rightarrow>
             (case validateEndpointHost v of
                Inl _ \<Rightarrow> Inl (Err ''must be a domain or IP, optionally with :port'')
              | Inr normalized \<Rightarrow> Inr (normalized, fallbackPort)))"

record outbound_input =
  oi_name :: string
  oi_type :: string
  oi_server :: string
  oi_port :: int
  oi_enabled :: bool
  oi_username :: string
  oi_password :: string
  CredentialMode :: string

definition validateOutboundInput :: "outbound_input \<Rightarrow> error + outbound" where
  "validateOutboundInput i =
     (let name = trim_space (oi_name i); endpoint = validateOutboundEndpoint (oi_server i) (oi_port i)
      in if name = [] then Inl (Err ''name is required'')
         else if \<not> SupportedOutbound (oi_type i) then Inl (Err ''type must be socks5 or http'')
         else case endpoint of
             Inl e \<Rightarrow> Inl (Wrap ''proxy address'' e)
           | Inr (server, p) \<Rightarrow>
               if p < 1 \<or> 65535 < p then Inl (Err ''port must be between 1 and 65535'')
               else if CredentialMode i \<noteq> ''keep'' \<and> CredentialMode i \<noteq> ''clear'' \<and> oi_password i \<noteq> [] \<and> oi_username i = []
               then Inl (Err ''username is required when password is set'')
               else Inr \<lparr>out_id = 0, out_name = name, out_type = oi_type i, out_server = server, out_port = p,
                      out_enabled = oi_enabled i, out_username = oi_username i, out_password = oi_password i,
                      out_managed = [], out_status = ''unchecked'', out_observed = [], out_country = [], out_asn = [],
                      out_error = [], out_checked = None, out_created = 0, out_updated = 0\<rparr>)"

section \<open>Protocols\<close>

definition protocolRequiresCertificate :: "string \<Rightarrow> bool" where
  "protocolRequiresCertificate p \<longleftrightarrow>
     p \<in> {ProtocolVLESSWSTLS, ProtocolTrojanTLS, ProtocolHysteria2, ProtocolTUIC, ProtocolAnyTLS}"

definition protocolUsesReality :: "string \<Rightarrow> bool" where
  "protocolUsesReality p \<longleftrightarrow>
     p \<in> {ProtocolVLESSReality, ProtocolVLESSH2Reality, ProtocolVLESSGRPCReality, ProtocolAnyTLSReality}"

definition firewallProtocols :: "string \<Rightarrow> string list" where
  "firewallProtocols p = (if p \<in> {ProtocolHysteria2, ProtocolTUIC} then [''udp''] else [''tcp''])"

definition validatePathSetting :: "obj \<Rightarrow> string \<Rightarrow> error option" where
  "validatePathSetting st k =
     (let path = mapString st k
      in if path = [] \<or> \<not> has_prefix path ''/'' \<or> contains_any path (''?#'' @ [CR, NL, TAB])
         then Some (Err ''path must start with / and must not contain a query, fragment, or control characters'') else None)"

definition protocolHostOverride :: "string \<Rightarrow> string \<Rightarrow> obj \<Rightarrow> error + string" where
  "protocolHostOverride p host st =
     (if p \<noteq> ProtocolVLESSArgo then Inr host
      else let argoHost = mapString st ''server_name''
           in if host = [] then Inr argoHost
              else if \<not> equal_fold host argoHost then Inl (Err ''VLESS Argo external address must match the Argo domain'')
              else Inr host)"

section \<open>Certificates\<close>

record certificate =
  not_before :: int
  not_after :: int
  verify_hostname :: "string \<Rightarrow> error option"
  public_key :: "error + string"

text \<open>What \<open>x509.CreateCertificate\<close> is asked for; names are one IP address or one DNS name.\<close>

record cert_template =
  tpl_name :: string
  tpl_is_ip :: bool
  tpl_not_before :: int
  tpl_not_after :: int

text \<open>
  \<open>pem.Decode\<close> gives the bytes of the first block; the key parsers give the \<open>MarshalPKIXPublicKey\<close>
  outcome of the public key, \<open>parse_pkcs8\<close> nothing when the key is no signer; \<open>make_pair\<close> generates
  an RSA key and a certificate by the template and gives both encoded.
\<close>

record 'w tls_library =
  pem_decode :: "string \<Rightarrow> string option"
  pem_encode :: "string \<Rightarrow> string \<Rightarrow> string"
  parse_certificate :: "string \<Rightarrow> error + certificate"
  parse_pkcs8 :: "string \<Rightarrow> error + (error + string) option"
  parse_pkcs1 :: "string \<Rightarrow> error + (error + string)"
  parse_ec :: "string \<Rightarrow> error + (error + string)"
  make_pair :: "cert_template \<Rightarrow> ('w, string \<times> string) io"
  file_digest :: "string \<Rightarrow> string"

definition os_stat :: "string \<Rightarrow> ('a node_world_scheme, bool \<times> nat) io" where
  "os_stat p = attempt (\<lambda>w. if files w p = None then (Inl ErrNotExist, w) else (Inr (modes w p), w))"

definition regularFile :: "string \<Rightarrow> ('a node_world_scheme, bool) io" where
  "regularFile p = io_try (os_stat p) (\<lambda>r. io_return (case r of Inr (regular, _) \<Rightarrow> regular | Inl _ \<Rightarrow> False))"

definition parsePrivateKey :: "'w tls_library \<Rightarrow> string \<Rightarrow> error + (error + string)" where
  "parsePrivateKey lib der = (case parse_pkcs8 lib der of
      Inr (Some signer) \<Rightarrow> Inr signer
    | Inr None \<Rightarrow> Inl (Err ''private key type is not supported'')
    | Inl _ \<Rightarrow> (case parse_pkcs1 lib der of
        Inr signer \<Rightarrow> Inr signer
      | Inl _ \<Rightarrow> (case parse_ec lib der of
          Inr signer \<Rightarrow> Inr signer
        | Inl _ \<Rightarrow> Inl (Err ''private key format is not supported''))))"

definition must_hold :: "bool \<Rightarrow> string \<Rightarrow> ('w, unit) io" where
  "must_hold b msg = (if b then io_return () else io_fail (Err msg))"

definition load_certificate :: "'w tls_library \<Rightarrow> string \<Rightarrow> ('a node_world_scheme, certificate) io" where
  "load_certificate lib path =
     io_bind (io_map_error (Wrap ''read certificate'') (fs_read path)) (\<lambda>pem. case pem_decode lib pem of
         None \<Rightarrow> io_fail (Err ''certificate is not valid PEM'')
       | Some der \<Rightarrow> io_of (parse_certificate lib der))"

definition check_certificate :: "'w tls_library \<Rightarrow> string \<Rightarrow> string \<Rightarrow> ('a node_world_scheme, certificate) io" where
  "check_certificate lib serverName path =
     io_bind (io_map_error (Wrap ''read certificate metadata'') (os_stat path)) (\<lambda>(regular, perm).
     io_bind (must_hold (regular \<and> perm div 16 mod 2 = 0 \<and> perm div 2 mod 2 = 0)
       ''certificate must be a regular file not writable by group or others'') (\<lambda>_.
     io_bind (load_certificate lib path) (\<lambda>cert. io_bind time_now (\<lambda>now.
     io_bind (must_hold (not_before cert \<le> now) ''certificate is not valid yet'') (\<lambda>_.
     io_bind (must_hold (now \<le> not_after cert) ''certificate has expired'') (\<lambda>_.
     case verify_hostname cert serverName of
       Some e \<Rightarrow> io_fail (Wrap ''certificate does not match server_name'' e)
     | None \<Rightarrow> io_return cert))))))"

definition check_key :: "'w tls_library \<Rightarrow> certificate \<Rightarrow> string \<Rightarrow> ('a node_world_scheme, unit) io" where
  "check_key lib cert path =
     io_bind (io_map_error (Wrap ''read private key metadata'') (os_stat path)) (\<lambda>(regular, perm).
     io_bind (must_hold (regular \<and> perm mod 64 = 0) ''private key must be a regular file inaccessible to group and others'') (\<lambda>_.
     io_bind (io_map_error (Wrap ''read private key'') (fs_read path)) (\<lambda>pem. case pem_decode lib pem of
         None \<Rightarrow> io_fail (Err ''private key is not valid PEM'')
       | Some der \<Rightarrow> io_bind (io_of (parsePrivateKey lib der)) (\<lambda>signer.
           io_bind (io_map_error (Wrap ''encode certificate public key'') (io_of (public_key cert))) (\<lambda>a.
           io_bind (io_map_error (Wrap ''encode private key public key'') (io_of signer)) (\<lambda>b.
           must_hold (a = b) ''private key does not match certificate''))))))"

definition validateCertificateSettings :: "'w tls_library \<Rightarrow> obj \<Rightarrow> ('a node_world_scheme, unit) io" where
  "validateCertificateSettings lib st =
     (let serverName = mapString st ''server_name''; certificatePath = mapString st ''certificate_path'';
          keyPath = mapString st ''key_path''
      in if serverName = [] \<or> \<not> has_prefix certificatePath ''/'' \<or> \<not> has_prefix keyPath ''/''
         then io_fail (Err ''server_name and absolute certificate/key paths are required'')
         else if certificatePath = keyPath then io_fail (Err ''certificate and private key paths must be different'')
         else io_bind (check_certificate lib serverName certificatePath) (\<lambda>cert. check_key lib cert keyPath))"

definition certificateExpiration :: "'w tls_library \<Rightarrow> obj \<Rightarrow> ('a node_world_scheme, int) io" where
  "certificateExpiration lib st =
     io_bind (load_certificate lib (mapString st ''certificate_path'')) (\<lambda>cert. io_return (not_after cert))"

text \<open>\<open>writeFileAtomic\<close>: the temporary file gets its mode before it is filled, and takes it along.\<close>

definition set_mode :: "string \<Rightarrow> nat \<Rightarrow> ('a node_world_scheme, unit) io" where
  "set_mode p mode = attempt (\<lambda>w. (Inr (), w\<lparr>modes := (modes w)(p := (True, mode))\<rparr>))"

definition rename_moded :: "string \<Rightarrow> string \<Rightarrow> ('a node_world_scheme, unit) io" where
  "rename_moded a b w = (case fs_rename a b w of
      (Inl e, w') \<Rightarrow> (Inl e, w')
    | (Inr u, w') \<Rightarrow> (Inr u, w'\<lparr>modes := (modes w')(b := modes w' a)\<rparr>))"

definition writeFileAtomic :: "string \<Rightarrow> string \<Rightarrow> nat \<Rightarrow> ('a node_world_scheme, unit) io" where
  "writeFileAtomic path content mode =
     io_bind (fs_create_temp (path_join (path_dir path) ''.jui-certificate-'')) (\<lambda>tmp.
     io_try (io_bind (set_mode tmp mode) (\<lambda>_. io_bind (fs_write tmp content) (\<lambda>_. io_bind fs_nop (\<lambda>_.
       io_bind fs_nop (\<lambda>_. rename_moded tmp path))))) (\<lambda>r. case r of
         Inl e \<Rightarrow> io_try (fs_remove tmp) (\<lambda>_. io_fail e)
       | Inr _ \<Rightarrow> io_return ()))"

definition ensureDemoCertificate :: "'a node_world_scheme tls_library \<Rightarrow> string \<Rightarrow> string \<Rightarrow> ('a node_world_scheme, string \<times> string) io" where
  "ensureDemoCertificate lib dir serverName =
     (let base = ''demo-'' @ hex_encode (take 8 (file_digest lib (to_lower serverName)));
          certificatePath = path_join dir (base @ ''.crt''); keyPath = path_join dir (base @ ''.key'');
          st = [(''server_name'', JStr serverName), (''certificate_path'', JStr certificatePath), (''key_path'', JStr keyPath)]
      in io_try (validateCertificateSettings lib st) (\<lambda>r. case r of
           Inr _ \<Rightarrow> io_return (certificatePath, keyPath)
         | Inl _ \<Rightarrow>
             io_bind fs_nop (\<lambda>_. io_bind fs_nop (\<lambda>_. io_bind time_now (\<lambda>now.
             io_bind (make_pair lib \<lparr>tpl_name = serverName, tpl_is_ip = parse_ip serverName \<noteq> None,
                tpl_not_before = now - 300000000000, tpl_not_after = add_year now\<rparr>) (\<lambda>(certDER, keyDER).
             io_bind (writeFileAtomic certificatePath (pem_encode lib ''CERTIFICATE'' certDER) 0x1A4) (\<lambda>_.
             io_bind (writeFileAtomic keyPath (pem_encode lib ''PRIVATE KEY'' keyDER) 0x180) (\<lambda>_.
             io_bind (validateCertificateSettings lib st) (\<lambda>_. io_return (certificatePath, keyPath))))))))))"

text \<open>The deployment: the directory of generated certificates and whether they are allowed.\<close>

record 'w certificates =
  tls :: "'w tls_library"
  certificateDir :: string
  allowSelfSigned :: bool

definition issued_pair :: "string \<Rightarrow> obj \<Rightarrow> obj" where
  "issued_pair serverName st =
     set_string ''key_path'' (''/etc/letsencrypt/live/'' @ serverName @ ''/privkey.pem'')
       (set_string ''certificate_path'' (''/etc/letsencrypt/live/'' @ serverName @ ''/fullchain.pem'') st)"

definition issued_usable :: "'w tls_library \<Rightarrow> string \<Rightarrow> obj \<Rightarrow> ('a node_world_scheme, bool) io" where
  "issued_usable lib serverName st =
     io_bind (regularFile (''/etc/letsencrypt/live/'' @ serverName @ ''/fullchain.pem'')) (\<lambda>a. if \<not> a then io_return False else
     io_bind (regularFile (''/etc/letsencrypt/live/'' @ serverName @ ''/privkey.pem'')) (\<lambda>b. if \<not> b then io_return False else
     io_try (validateCertificateSettings lib (issued_pair serverName st)) (\<lambda>r. io_return (\<not> isl r))))"

definition prepareAutomaticCertificate ::
    "'a node_world_scheme certificates \<Rightarrow> string \<Rightarrow> obj \<Rightarrow> ('a node_world_scheme, obj) io" where
  "prepareAutomaticCertificate c proto st =
     (if \<not> protocolRequiresCertificate proto \<or> mapString st ''certificate_mode'' \<noteq> ''auto'' then io_return st
      else case validateEndpointHost (mapString st ''server_name'') of
          Inl e \<Rightarrow> io_fail (Wrap ''server_name'' e)
        | Inr serverName \<Rightarrow>
            (let st = set_string ''server_name'' serverName st
             in io_bind (issued_usable (tls c) serverName st) (\<lambda>usable.
                if usable then io_return (issued_pair serverName st)
                else if \<not> allowSelfSigned c then io_fail (Err ''no valid certificate found'')
                else if trim_space (certificateDir c) = [] then io_fail (Err ''automatic certificate directory is not configured'')
                else io_bind (io_map_error (Wrap ''generate demo certificate'')
                       (ensureDemoCertificate (tls c) (certificateDir c) serverName)) (\<lambda>(certificatePath, keyPath).
                     io_return (set_string ''key_path'' keyPath (set_string ''certificate_path'' certificatePath st))))))"

section \<open>What a node is created from\<close>

definition reality_settings :: "string \<Rightarrow> obj \<Rightarrow> error option" where
  "reality_settings proto st =
     (let server = mapString st ''handshake_server''; serverName = mapString st ''server_name''
      in case (if server \<noteq> [] then validateEndpointHost server else Inr []) of
           Inl e \<Rightarrow> Some (Wrap ''handshake_server'' e)
         | Inr _ \<Rightarrow>
           (case (case map_of st ''handshake_port'' of Some v \<Rightarrow> validateSettingPort v | None \<Rightarrow> Inr 0) of
              Inl e \<Rightarrow> Some (Wrap ''handshake_port'' e)
            | Inr _ \<Rightarrow>
              (case (if serverName \<noteq> [] then validateEndpointHost serverName else Inr []) of
                 Inl e \<Rightarrow> Some (Wrap ''server_name'' e)
               | Inr _ \<Rightarrow>
                   if proto = ProtocolVLESSH2Reality then validatePathSetting st ''transport_path''
                   else if proto = ProtocolVLESSGRPCReality \<and>
                     (let serviceName = mapString st ''service_name''
                      in serviceName = [] \<or> contains_any serviceName (''?#/'' @ [CHR 0x5C, CR, NL, TAB]))
                   then Some (Err ''service_name is required and must not contain separators or control characters'')
                   else None)))"

definition argo_settings :: "string \<Rightarrow> obj \<Rightarrow> error option" where
  "argo_settings listenAt st =
     (if \<not> localListen listenAt then Some (Err ''VLESS Argo must listen on a loopback address'')
      else if mapString st ''server_name'' = [] then Some (Err ''Argo domain is required'')
      else case validateEndpointHost (mapString st ''server_name'') of
          Inl e \<Rightarrow> Some (Wrap ''server_name'' e)
        | Inr _ \<Rightarrow> validatePathSetting st ''ws_path'')"

definition io_check :: "error option \<Rightarrow> ('w, unit) io" where
  "io_check r = (case r of Some e \<Rightarrow> io_fail e | None \<Rightarrow> io_return ())"

definition validateInput :: "'w tls_library \<Rightarrow> string \<Rightarrow> string \<Rightarrow> int \<Rightarrow> obj \<Rightarrow> bool \<Rightarrow> ('a node_world_scheme, unit) io" where
  "validateInput lib proto listenAt p st confirmPublicSOCKS =
     (let listenAt' = defaultListen listenAt
      in if \<not> SupportedProtocol proto then io_fail (Err ''unsupported protocol'')
         else if p < 1 \<or> 65535 < p then io_fail (Err ''port must be between 1 and 65535'')
         else if proto = ProtocolVLESSWSTLS \<and> \<not> CloudflareHTTPSPort p
         then io_fail (Err ''VLESS-WS port must be a Cloudflare-supported HTTPS port'')
         else if parse_ip listenAt' = None then io_fail (Err ''listen must be an IP address'')
         else if proto = ProtocolSOCKS5 \<and> \<not> localListen listenAt' \<and> \<not> confirmPublicSOCKS
         then io_fail (Err ''public SOCKS5 listening requires explicit confirmation'')
         else if protocolUsesReality proto then io_check (reality_settings proto st)
         else if proto = ProtocolVLESSArgo then io_check (argo_settings listenAt' st)
         else if proto \<noteq> ProtocolSOCKS5
         then io_bind (validateCertificateSettings lib st) (\<lambda>_.
                if proto = ProtocolVLESSWSTLS then io_check (validatePathSetting st ''ws_path'') else io_return ())
         else io_return ())"

section \<open>Credentials\<close>

definition credential_of :: "(string \<times> string) list \<Rightarrow> obj" where
  "credential_of = map (\<lambda>(k, v). (k, JStr v))"

definition generatedCredential :: "string \<Rightarrow> ('a host_scheme, obj) io" where
  "generatedCredential proto =
     (if proto = ProtocolVLESSReality then
        io_bind UUID (\<lambda>u. io_return (credential_of [(''uuid'', u), (''flow'', ''xtls-rprx-vision'')]))
      else if proto \<in> {ProtocolVLESSH2Reality, ProtocolVLESSGRPCReality, ProtocolVLESSWSTLS, ProtocolVLESSArgo} then
        io_bind UUID (\<lambda>u. io_return (credential_of [(''uuid'', u)]))
      else if proto \<in> {ProtocolTrojanTLS, ProtocolHysteria2, ProtocolAnyTLS, ProtocolAnyTLSReality} then
        io_bind (RandomToken 24) (\<lambda>password. io_return (credential_of [(''password'', password)]))
      else if proto = ProtocolTUIC then
        io_bind UUID (\<lambda>u. io_bind (RandomToken 18) (\<lambda>password.
          io_return (credential_of [(''uuid'', u), (''password'', password)])))
      else if proto = ProtocolSOCKS5 then
        io_bind (RandomHex 6) (\<lambda>username. io_bind (RandomToken 18) (\<lambda>password.
          io_return (credential_of [(''username'', ''jui-'' @ username), (''password'', password)])))
      else io_fail (Err ''unsupported protocol''))"

text \<open>\<open>credentialUUIDPattern\<close> and \<open>credentialUserPattern\<close>.\<close>

definition is_uuid :: "string \<Rightarrow> bool" where
  "is_uuid s \<longleftrightarrow> map length (split_char CHR ''-'' s) = [8, 4, 4, 4, 12] \<and> list_all (list_all is_hex) (split_char CHR ''-'' s)"

definition is_credential_user :: "string \<Rightarrow> bool" where
  "is_credential_user s \<longleftrightarrow> 1 \<le> length s \<and> length s \<le> 64 \<and> list_all (\<lambda>c. is_alnum c \<or> c \<in> set ''._-'') s"

definition credential_keys :: "string \<Rightarrow> string list option" where
  "credential_keys proto =
     (if proto \<in> {ProtocolVLESSReality, ProtocolVLESSH2Reality, ProtocolVLESSGRPCReality, ProtocolVLESSWSTLS, ProtocolVLESSArgo}
      then Some [''uuid'']
      else if proto \<in> {ProtocolTrojanTLS, ProtocolHysteria2, ProtocolAnyTLS, ProtocolAnyTLSReality} then Some [''password'']
      else if proto = ProtocolTUIC then Some [''uuid'', ''password'']
      else if proto = ProtocolSOCKS5 then Some [''username'', ''password'']
      else None)"

text \<open>The loop over the custom map, in whatever order the map gives its entries.\<close>

fun custom_loop :: "string list \<Rightarrow> obj \<Rightarrow> obj \<Rightarrow> error + obj" where
  "custom_loop allowed [] cred = Inr cred"
| "custom_loop allowed ((k, raw) # kvs) cred =
     (if k \<notin> set allowed then Inl (Err ''credential is not supported by the protocol'')
      else case raw of
          JStr v \<Rightarrow> custom_loop allowed kvs (set_string k (if k \<noteq> ''password'' then trim_space v else v) cred)
        | _ \<Rightarrow> Inl (Err ''credential must be a string''))"

definition credential_check :: "string list \<Rightarrow> obj \<Rightarrow> error option" where
  "credential_check allowed cred =
     (if ''uuid'' \<in> set allowed \<and> \<not> is_uuid (mapString cred ''uuid'') then Some (Err ''credential uuid must be a valid UUID'')
      else if ''username'' \<in> set allowed \<and> \<not> is_credential_user (mapString cred ''username'')
      then Some (Err ''credential username may contain only letters, numbers, dot, underscore, or dash'')
      else if ''password'' \<in> set allowed \<and> (length (mapString cred ''password'') < 8 \<or> 256 < length (mapString cred ''password''))
      then Some (Err ''credential password must be between 8 and 256 characters'')
      else None)"

definition applyCustomCredential :: "string \<Rightarrow> obj \<Rightarrow> obj \<Rightarrow> error + obj" where
  "applyCustomCredential proto generated custom =
     (if custom = [] then Inr generated
      else case credential_keys proto of
          None \<Rightarrow> Inl (Err ''unsupported protocol'')
        | Some allowed \<Rightarrow> (case custom_loop allowed custom generated of
            Inl e \<Rightarrow> Inl e
          | Inr cred \<Rightarrow> (case credential_check allowed cred of Some e \<Rightarrow> Inl e | None \<Rightarrow> Inr cred)))"

text \<open>The Reality key pair: \<open>x25519\<close> gives the public key of the 32 random bytes of a private key.\<close>

definition reality_defaults :: "obj \<Rightarrow> obj" where
  "reality_defaults st =
     (let st = (if trim_space (mapString st ''handshake_server'') = [] then set_string ''handshake_server'' ''www.visa.com.sg'' st else st);
          st = (if mapNumber st ''handshake_port'' = 0 then obj_set ''handshake_port'' (JInt 443) st else st)
      in if trim_space (mapString st ''server_name'') = [] then set_string ''server_name'' (mapString st ''handshake_server'') st else st)"

definition generatedValues :: "(string \<Rightarrow> string) \<Rightarrow> string \<Rightarrow> obj \<Rightarrow> ('a host_scheme, obj \<times> obj \<times> obj) io" where
  "generatedValues x25519 proto input =
     io_bind (if protocolUsesReality proto then
        (let st = reality_defaults input
         in io_bind (rand_read 32) (\<lambda>privateKey. io_bind (RandomHex 8) (\<lambda>shortID.
            io_return ([(''private_key'', JStr (raw_url_encode privateKey))],
              set_string ''short_id'' shortID (set_string ''public_key'' (raw_url_encode (x25519 privateKey)) st)))))
      else io_return ([], input)) (\<lambda>(sec, st).
     io_bind (generatedCredential proto) (\<lambda>cred. io_return (sec, st, cred)))"

end
