(* ===== verification/TemporaryRuntime.thy ===== *)
theory TemporaryRuntime
  imports EngineApply SingBoxConfig NodeInput
begin

text \<open>
  \<open>internal/node/temporary_runtime.go\<close>: residential nodes, each in a sing-box process and a unit of its
  own. The engine of \<open>internal/engine\<close> applies the configuration of one node; units of nodes that are
  gone are stopped and their configuration is removed.
\<close>

section \<open>Temporary nodes\<close>

definition TemporarySourceSetting :: string where "TemporarySourceSetting = ''jui_temporary_source''"
definition TemporaryExpirySetting :: string where "TemporaryExpirySetting = ''jui_temporary_expires_at''"
definition TemporaryCountrySetting :: string where "TemporaryCountrySetting = ''jui_temporary_country''"

definition TemporarySource :: "node \<Rightarrow> string" where
  "TemporarySource n = trim_space (mapString (settings n) TemporarySourceSetting)"

definition TemporaryExpiry :: "node \<Rightarrow> int option" where
  "TemporaryExpiry n =
     (let v = trim_space (mapString (settings n) TemporaryExpirySetting)
      in if v = [] \<or> TemporarySource n = [] then None else parse_rfc3339 v)"

definition listenersForNode :: "node \<Rightarrow> listener list" where
  "listenersForNode n = map (\<lambda>network. \<lparr>Network = network, Host = defaultListen (listen n), LPort = port n\<rparr>)
     (firewallProtocols (protocol n))"

record temporary_node =
  tn_node :: node
  tn_clients :: "client list"
  tn_outbound :: outbound

definition zero_outbound :: outbound where
  "zero_outbound = \<lparr>out_id = 0, out_name = [], out_type = [], out_server = [], out_port = 0, out_enabled = False,
     out_username = [], out_password = [], out_managed = [], out_status = [], out_observed = [], out_country = [],
     out_asn = [], out_error = [], out_checked = None, out_created = 0, out_updated = 0\<rparr>"

section \<open>Units\<close>

definition unit_prefix :: string where "unit_prefix = ''j-ui-residential@''"
definition unit_suffix :: string where "unit_suffix = ''.service''"

definition temporaryUnit :: "int \<Rightarrow> string" where
  "temporaryUnit i = unit_prefix @ itoa i @ unit_suffix"

definition residentialUnitID :: "string \<Rightarrow> int option" where
  "residentialUnitID u =
     (if \<not> has_prefix u unit_prefix \<or> \<not> has_suffix u unit_suffix then None
      else case parse_int (trim_suffix (trim_prefix u unit_prefix) unit_suffix) of
          (i, None) \<Rightarrow> if 0 < i then Some i else None
        | _ \<Rightarrow> None)"

definition missingUnit :: "error \<Rightarrow> bool" where
  "missingUnit e \<longleftrightarrow> list_ex (contains (to_lower (error_text e)))
     [''not loaded'', ''not found'', ''no such file'', ''does not exist'']"

text \<open>The runtime; the pause after a reload and the wake-ups of the wait are those of its engine systems, which
  have no injected checks and the default timeouts. \<open>builtin\<close> is the embedded rule set of the generator.\<close>

record 'w temporary_runtime =
  tr_binary :: string
  ConfigDir :: string
  tr_run :: "'w runner"
  tr_settle :: "int \<Rightarrow> ('w, unit) io"
  tr_wakes :: "wake list"

definition node_config :: "'w temporary_runtime \<Rightarrow> int \<Rightarrow> string" where
  "node_config r i = path_join (ConfigDir r) (itoa i @ ''.json'')"

definition runtime_system :: "'w temporary_runtime \<Rightarrow> int \<Rightarrow> 'w engine_system" where
  "runtime_system r i = \<lparr>Binary = tr_binary r, ConfigPath = node_config r i, ServiceUnit = temporaryUnit i,
     StartIfInactive = False, engine_run = tr_run r, ListenerChecker = None, RollbackListenerChecker = None,
     CommitTimeout = 0, RollbackTimeout = 0, settle = tr_settle r, wakes = tr_wakes r\<rparr>"

definition runtime_healthy :: "'a fs_scheme temporary_runtime \<Rightarrow> int \<Rightarrow> ('a fs_scheme, bool) io" where
  "runtime_healthy r i = Healthy (runtime_system r i)"

definition runtime_listeners :: "'a fs_scheme temporary_runtime \<Rightarrow> node \<Rightarrow> ('a fs_scheme, unit) io" where
  "runtime_listeners r n = ListenersHealthy (runtime_system r (node_id n)) (listenersForNode n)"

definition apply_node :: "error + ai_domains \<Rightarrow> 'a fs_scheme temporary_runtime \<Rightarrow> temporary_node \<Rightarrow> ('a fs_scheme, unit) io" where
  "apply_node builtin r item = io_bind (io_of (GenerateWithOutbounds builtin [(tn_node item, tn_clients item)] [tn_outbound item]))
     (\<lambda>config. Apply ((runtime_system r (node_id (tn_node item)))\<lparr>StartIfInactive := True\<rparr>) config
        (listenersForNode (tn_node item)))"

definition stop_node :: "'a fs_scheme temporary_runtime \<Rightarrow> int \<Rightarrow> ('a fs_scheme, unit) io" where
  "stop_node r i =
     io_bind (exec (tr_run r) [''systemctl'', ''disable'', ''--now'', temporaryUnit i]) (\<lambda>(_, err).
     case (case err of None \<Rightarrow> None | Some e \<Rightarrow> if missingUnit e then None else Some e) of
       Some e \<Rightarrow> io_fail (Wrap ''stop'' e)
     | None \<Rightarrow> io_bind (exec (tr_run r) [''systemctl'', ''reset-failed'', temporaryUnit i]) (\<lambda>_.
         io_try (fs_remove (node_config r i)) (\<lambda>removed. case removed of
             Inl e \<Rightarrow> if error_is ErrNotExist e then io_return () else io_fail (Wrap ''remove configuration'' e)
           | Inr _ \<Rightarrow> io_return ())))"

definition listed_ids :: "string \<Rightarrow> int list" where
  "listed_ids out = List.map_filter (\<lambda>line. case str_fields line of [] \<Rightarrow> None | u # _ \<Rightarrow> residentialUnitID u)
     (split_char NL out)"

definition prune_units :: "'a fs_scheme temporary_runtime \<Rightarrow> int list \<Rightarrow> ('a fs_scheme, unit) io" where
  "prune_units r keep =
     io_bind (exec (tr_run r) [''systemctl'', ''list-units'', ''--all'', ''--plain'', ''--no-legend'', ''j-ui-residential@*.service''])
       (\<lambda>(out, err). case err of
           Some e \<Rightarrow> io_fail e
         | None \<Rightarrow> io_each (\<lambda>i. if i \<in> set keep then io_return () else stop_node r i) (listed_ids out))"

fun apply_nodes :: "error + ai_domains \<Rightarrow> 'a fs_scheme temporary_runtime \<Rightarrow> temporary_node list \<Rightarrow> int list \<Rightarrow> ('a fs_scheme, int list) io" where
  "apply_nodes builtin r [] keep = io_return keep"
| "apply_nodes builtin r (item # items) keep =
     (let n = tn_node item
      in if TemporarySource n = [] \<or> \<not> node_enabled n then apply_nodes builtin r items keep
         else if node_id n < 1 then io_fail (Err ''temporary node has invalid ID'')
         else if node_outbound n \<noteq> Some (out_id (tn_outbound item)) then io_fail (Err ''temporary node has an inconsistent outbound'')
         else io_bind (io_map_error (Wrap ''apply temporary node'') (apply_node builtin r item)) (\<lambda>_.
           apply_nodes builtin r items (node_id n # keep)))"

definition runtime_Reconcile :: "error + ai_domains \<Rightarrow> 'a fs_scheme temporary_runtime \<Rightarrow> temporary_node list \<Rightarrow> ('a fs_scheme, unit) io" where
  "runtime_Reconcile builtin r items =
     (if trim_space (tr_binary r) = [] then io_fail (Err ''temporary sing-box runtime has no binary'')
      else io_bind fs_nop (\<lambda>_. io_bind fs_nop (\<lambda>_.
        io_bind (apply_nodes builtin r items []) (\<lambda>keep.
        io_map_error (Wrap ''prune temporary sing-box runtimes'') (prune_units r keep)))))"

section \<open>Units name their node\<close>

lemma itoa_pos_parse: "0 < i \<Longrightarrow> i < 2 ^ 63 \<Longrightarrow> parse_int (itoa i) = (i, None)"
  using atoi_itoa [of i] by (simp add: atoi_def int64_def)

lemma trim_prefix_append [simp]: "trim_prefix (p @ s) p = s"
  by (simp add: trim_prefix_def has_prefix_def)

lemma trim_suffix_append [simp]: "trim_suffix (s @ p) p = s"
  by (simp add: trim_suffix_def has_suffix_def has_prefix_def)

theorem unit_roundtrip:
  assumes "0 < i" and "i < 2 ^ 63"
  shows "residentialUnitID (temporaryUnit i) = Some i"
proof -
  have "has_prefix (temporaryUnit i) unit_prefix" "has_suffix (temporaryUnit i) unit_suffix"
    by (simp_all add: temporaryUnit_def has_prefix_def has_suffix_def)
  then show ?thesis
    using itoa_pos_parse [OF assms] assms(1) by (simp add: residentialUnitID_def temporaryUnit_def)
qed

end
