(* ===== verification/GoUrl.thy ===== *)
theory GoUrl
  imports GoEncoding GoNet
begin

text \<open>
  The part of \<open>net/url\<close> that takes an address apart: \<open>Parse\<close> up to the fields that are read (scheme,
  user information, host, path and query), \<open>Hostname\<close>, \<open>Port\<close> and \<open>Query\<close>.
\<close>

record url =
  Scheme :: string
  User :: "(string \<times> string option) option"
  URL_Host :: string
  Path :: string
  PathText :: string
  RawQuery :: string
  Fragment :: string

fun scheme_split :: "nat \<Rightarrow> string \<Rightarrow> string \<Rightarrow> (string \<times> string) option" where
  "scheme_split i whole [] = Some ([], whole)"
| "scheme_split i whole (c # s) =
     (if is_lower c \<or> is_upper c then scheme_split (Suc i) whole s
      else if is_digit c \<or> c \<in> set ''+-.'' then (if i = 0 then Some ([], whole) else scheme_split (Suc i) whole s)
      else if c = CHR '':'' then (if i = 0 then None else Some (take i whole, s))
      else Some ([], whole))"

text \<open>A host keeps the marks that RFC 3986 allows in it; only \<open>%25\<close> and bytes above ASCII may be escaped.\<close>

definition host_mark :: "char \<Rightarrow> bool" where
  "host_mark c \<longleftrightarrow> unreserved c \<or> c \<in> set ''!$&()*+,;=:[]<>'' \<or> c = SQ \<or> c = DQ"

fun unescape_host :: "bool \<Rightarrow> string \<Rightarrow> string option" where
  "unescape_host in_zone [] = Some []"
| "unescape_host in_zone (c # s) =
     (if c = CHR ''%'' then
        (case s of
           h # l # r \<Rightarrow>
             (case (unhex h, unhex l) of
                (Some a, Some b) \<Rightarrow>
                  if \<not> in_zone \<and> a < 8 \<and> [h, l] \<noteq> ''25'' then None
                  else if in_zone \<and> [h, l] \<noteq> ''25'' \<and> a * 16 + b \<noteq> 32 \<and> a * 16 + b < 128 \<and> \<not> host_mark (byte_of (a * 16 + b)) then None
                  else map_option (Cons (byte_of (a * 16 + b))) (unescape_host in_zone r)
              | _ \<Rightarrow> None)
         | _ \<Rightarrow> None)
      else if byte c < 128 \<and> \<not> host_mark c then None
      else map_option (Cons c) (unescape_host in_zone s))"

definition valid_optional_port :: "string \<Rightarrow> bool" where
  "valid_optional_port p \<longleftrightarrow> p = [] \<or> (hd p = CHR '':'' \<and> list_all is_digit (tl p))"

definition parse_host :: "string \<Rightarrow> string option" where
  "parse_host h =
     (if has_prefix h ''['' then
        (case last_index_byte h CHR '']'' of
           None \<Rightarrow> None
         | Some i \<Rightarrow>
             if \<not> valid_optional_port (drop (i + 1) h) then None
             else (case index_of (take i h) ''%25'' of
                 None \<Rightarrow> unescape_host False h
               | Some z \<Rightarrow> (case (unescape_host False (take z h), unescape_host True (drop z (take i h)), unescape_host False (drop i h)) of
                   (Some a, Some b, Some c) \<Rightarrow> Some (a @ b @ c) | _ \<Rightarrow> None)))
      else (case last_index_byte h CHR '':'' of
          Some i \<Rightarrow> if \<not> valid_optional_port (drop i h) then None else unescape_host False h
        | None \<Rightarrow> unescape_host False h))"

definition user_char :: "char \<Rightarrow> bool" where
  "user_char c \<longleftrightarrow> is_alnum c \<or> c \<in> set ''-._:~!$&()*+,;=%@'' \<or> c = SQ"

definition parse_user :: "string \<Rightarrow> (string \<times> string option) option" where
  "parse_user s =
     (if \<not> list_all user_char s then None
      else case cut s CHR '':'' of (name, password, found) \<Rightarrow>
        (if \<not> found then map_option (\<lambda>n. (n, None)) (path_unescape name)
         else case (path_unescape name, path_unescape password) of
             (Some n, Some p) \<Rightarrow> Some (n, Some p) | _ \<Rightarrow> None))"

definition parse_authority :: "string \<Rightarrow> ((string \<times> string option) option \<times> string) option" where
  "parse_authority a = (case last_index_byte a CHR ''@'' of
      None \<Rightarrow> map_option (Pair None) (parse_host a)
    | Some i \<Rightarrow> (case parse_host (drop (i + 1) a) of
        None \<Rightarrow> None
      | Some h \<Rightarrow> map_option (\<lambda>u. (Some u, h)) (parse_user (take i a))))"

definition split_query :: "string \<Rightarrow> string \<times> string" where
  "split_query s = (case cut s CHR ''?'' of (rest, q, _) \<Rightarrow> (rest, q))"

text \<open>Without a scheme, a first path segment must not contain a colon; with one, a rest that does not
  begin with a slash is opaque, and has no host and no path.\<close>

definition parse_rest :: "string \<Rightarrow> string \<Rightarrow> string \<Rightarrow> string \<Rightarrow> url option" where
  "parse_rest scheme rest q frag =
     (if \<not> has_prefix rest ''/'' then
        (if scheme \<noteq> [] then Some \<lparr>Scheme = scheme, User = None, URL_Host = [], Path = [], PathText = [], RawQuery = q, Fragment = frag\<rparr>
         else if CHR '':'' \<in> set (takeWhile (\<lambda>c. c \<noteq> CHR ''/'') rest) then None
         else map_option (\<lambda>p. \<lparr>Scheme = [], User = None, URL_Host = [], Path = p, PathText = rest, RawQuery = q, Fragment = frag\<rparr>) (path_unescape rest))
      else if (scheme \<noteq> [] \<or> \<not> has_prefix rest ''///'') \<and> has_prefix rest ''//'' then
        (let a = takeWhile (\<lambda>c. c \<noteq> CHR ''/'') (drop 2 rest); path = drop (length a) (drop 2 rest)
         in Option.bind (parse_authority a) (\<lambda>(u, h). map_option (\<lambda>p.
              \<lparr>Scheme = scheme, User = u, URL_Host = h, Path = p, PathText = path, RawQuery = q, Fragment = frag\<rparr>)
              (path_unescape path)))
      else map_option (\<lambda>p. \<lparr>Scheme = scheme, User = None, URL_Host = [], Path = p, PathText = rest, RawQuery = q, Fragment = frag\<rparr>) (path_unescape rest))"

definition url_Parse :: "string \<Rightarrow> url option" where
  "url_Parse raw = (case cut raw CHR ''#'' of (u, frag, _) \<Rightarrow>
     if list_ex (\<lambda>c. byte c < 32 \<or> byte c = 127) u then None
     else if u = ''*'' then Option.bind (path_unescape frag) (\<lambda>f. Some \<lparr>Scheme = [], User = None, URL_Host = [], Path = u, PathText = u, RawQuery = [], Fragment = f\<rparr>)
     else Option.bind (scheme_split 0 u u) (\<lambda>(scheme, rest). case split_query rest of (rest, q) \<Rightarrow>
       Option.bind (path_unescape frag) (parse_rest (to_lower scheme) rest q)))"

text \<open>\<open>u.EscapedPath()\<close>: the text of the path when it is a valid encoding, and the path escaped otherwise.\<close>

definition path_mark :: "char \<Rightarrow> bool" where
  "path_mark c \<longleftrightarrow> unreserved c \<or> c \<in> set ''$&+,/:;=@''"

definition valid_encoded :: "string \<Rightarrow> bool" where
  "valid_encoded s \<longleftrightarrow> list_all (\<lambda>c. path_mark c \<or> c \<in> set ''!()*[]%'' \<or> c = SQ) s"

definition EscapedPath :: "url \<Rightarrow> string" where
  "EscapedPath u = (if PathText u \<noteq> escape path_mark False (Path u) \<and> valid_encoded (PathText u) then PathText u
     else if Path u = ''*'' then ''*'' else escape path_mark False (Path u))"

text \<open>\<open>u.Hostname()\<close> and \<open>u.Port()\<close>.\<close>

definition host_port :: "string \<Rightarrow> string \<times> string" where
  "host_port hp =
     (let (h, p) = (case last_index_byte hp CHR '':'' of
            Some i \<Rightarrow> if valid_optional_port (drop i hp) then (take i hp, drop (i + 1) hp) else (hp, [])
          | None \<Rightarrow> (hp, []))
      in (if has_prefix h ''['' \<and> has_suffix h '']'' then take (length h - 2) (drop 1 h) else h, p))"

definition Hostname :: "url \<Rightarrow> string" where "Hostname u = fst (host_port (URL_Host u))"
definition URL_Port :: "url \<Rightarrow> string" where "URL_Port u = snd (host_port (URL_Host u))"

text \<open>\<open>u.Query()\<close> drops the pairs that are malformed, those with a semicolon among them; \<open>Get\<close> reads the first value.\<close>

definition url_Query :: "url \<Rightarrow> query" where
  "url_Query u = List.map_filter (\<lambda>w. if w = [] \<or> CHR '';'' \<in> set w then None else decode_pair w) (split_char CHR ''&'' (RawQuery u))"

definition query_get :: "query \<Rightarrow> string \<Rightarrow> string" where
  "query_get q k = (case map_of q k of Some v \<Rightarrow> v | None \<Rightarrow> [])"

end
