(* ===== verification/Landing.thy ===== *)
theory Landing
  imports GoUrl SingBoxConfig NodeInput
begin

text \<open>
  \<open>internal/node/landing.go\<close> and \<open>landing_rules_source.go\<close>: the exit of the AI routing, entered as six
  connection details, kept as a VLESS address in a sealed setting, and its domain rules.
\<close>

section \<open>The stored setting\<close>

record landing_config =
  lc_enabled :: bool
  lc_inbound :: int
  lc_uri :: string
  lc_include :: "string list option"
  lc_exclude :: "string list option"
  lc_source :: string
  lc_base :: "ai_domains option"
  lc_hash :: string
  lc_updated :: string

definition empty_landing :: landing_config where
  "empty_landing = \<lparr>lc_enabled = False, lc_inbound = 0, lc_uri = [], lc_include = None, lc_exclude = None,
     lc_source = [], lc_base = None, lc_hash = [], lc_updated = []\<rparr>"

definition landingSetting :: string where "landingSetting = ''ai_landing_v1''"

text \<open>A nil slice is written as \<open>null\<close>; \<open>omitempty\<close> leaves a zero field out.\<close>

definition encode_strings :: "string list option \<Rightarrow> json" where
  "encode_strings xs = (case xs of None \<Rightarrow> JNull | Some ss \<Rightarrow> JList (map JStr ss))"

definition omit_empty :: "string \<Rightarrow> bool \<Rightarrow> json \<Rightarrow> obj" where
  "omit_empty k absent v = (if absent then [] else [(k, v)])"

definition encode_rule :: "ai_rule \<Rightarrow> json" where
  "encode_rule r = JObj [(''domain'', encode_strings (ai_domain r)), (''domain_suffix'', encode_strings (ai_suffix r)),
     (''domain_regex'', encode_strings (ai_regex r))]"

definition encode_domains :: "ai_domains \<Rightarrow> json" where
  "encode_domains d = JObj [(''version'', JInt (ai_version d)), (''rules'', JList (map encode_rule (ai_rules d)))]"

definition encode_landing :: "landing_config \<Rightarrow> json" where
  "encode_landing c = JObj ([(''enabled'', JBool (lc_enabled c))] @ omit_empty ''inboundId'' (lc_inbound c = 0) (JInt (lc_inbound c)) @
     [(''uri'', JStr (lc_uri c)), (''include'', encode_strings (lc_include c)), (''exclude'', encode_strings (lc_exclude c))] @
     omit_empty ''ruleSource'' (lc_source c = []) (JStr (lc_source c)) @
     (case lc_base c of None \<Rightarrow> [] | Some d \<Rightarrow> [(''ruleBase'', encode_domains d)]) @
     omit_empty ''ruleHash'' (lc_hash c = []) (JStr (lc_hash c)) @
     omit_empty ''ruleUpdatedAt'' (lc_updated c = []) (JStr (lc_updated c)))"

definition unmarshal_error :: error where "unmarshal_error = Err ''json: cannot unmarshal''"

definition sum_bind :: "error + 'a \<Rightarrow> ('a \<Rightarrow> error + 'b) \<Rightarrow> error + 'b" where
  "sum_bind r f = (case r of Inl e \<Rightarrow> Inl e | Inr x \<Rightarrow> f x)"

fun decode_all :: "(json \<Rightarrow> error + 'a) \<Rightarrow> json list \<Rightarrow> error + 'a list" where
  "decode_all f [] = Inr []"
| "decode_all f (v # vs) = sum_bind (f v) (\<lambda>x. sum_bind (decode_all f vs) (\<lambda>xs. Inr (x # xs)))"

definition decode_string :: "json \<Rightarrow> error + string" where
  "decode_string v = (case v of JStr s \<Rightarrow> Inr s | JNull \<Rightarrow> Inr [] | _ \<Rightarrow> Inl unmarshal_error)"

definition decode_strings :: "json \<Rightarrow> error + string list option" where
  "decode_strings v = (case v of JNull \<Rightarrow> Inr None
     | JList vs \<Rightarrow> sum_bind (decode_all decode_string vs) (\<lambda>xs. Inr (Some xs)) | _ \<Rightarrow> Inl unmarshal_error)"

definition decode_rule :: "json \<Rightarrow> error + ai_rule" where
  "decode_rule v = (case v of
      JObj ob \<Rightarrow> sum_bind (decode_strings (json_member ob ''domain'')) (\<lambda>d.
        sum_bind (decode_strings (json_member ob ''domain_suffix'')) (\<lambda>s.
        sum_bind (decode_strings (json_member ob ''domain_regex'')) (\<lambda>x.
        Inr \<lparr>ai_domain = d, ai_suffix = s, ai_regex = x\<rparr>)))
    | JNull \<Rightarrow> Inr \<lparr>ai_domain = None, ai_suffix = None, ai_regex = None\<rparr>
    | _ \<Rightarrow> Inl unmarshal_error)"

definition decode_domains :: "json \<Rightarrow> error + ai_domains option" where
  "decode_domains v = (case v of
      JObj ob \<Rightarrow> sum_bind (field_int ob ''version'') (\<lambda>n.
        sum_bind (case json_member ob ''rules'' of JNull \<Rightarrow> Inr [] | JList vs \<Rightarrow> decode_all decode_rule vs | _ \<Rightarrow> Inl unmarshal_error) (\<lambda>rs.
        Inr (Some \<lparr>ai_version = n, ai_rules = rs\<rparr>)))
    | JNull \<Rightarrow> Inr None
    | _ \<Rightarrow> Inl unmarshal_error)"

definition field_bool :: "obj \<Rightarrow> string \<Rightarrow> error + bool" where
  "field_bool ob name = (case json_member ob name of JBool b \<Rightarrow> Inr b | JNull \<Rightarrow> Inr False | _ \<Rightarrow> Inl unmarshal_error)"

definition decode_landing :: "string \<Rightarrow> error + landing_config" where
  "decode_landing text0 = (case json_parse text0 of
      Some (JObj ob) \<Rightarrow>
        sum_bind (field_bool ob ''enabled'') (\<lambda>en. sum_bind (field_int ob ''inboundId'') (\<lambda>inb.
        sum_bind (field_string ob ''uri'') (\<lambda>uri. sum_bind (decode_strings (json_member ob ''include'')) (\<lambda>inc.
        sum_bind (decode_strings (json_member ob ''exclude'')) (\<lambda>exc. sum_bind (field_string ob ''ruleSource'') (\<lambda>src.
        sum_bind (decode_domains (json_member ob ''ruleBase'')) (\<lambda>base. sum_bind (field_string ob ''ruleHash'') (\<lambda>h.
        sum_bind (field_string ob ''ruleUpdatedAt'') (\<lambda>up.
        Inr \<lparr>lc_enabled = en, lc_inbound = inb, lc_uri = uri, lc_include = inc, lc_exclude = exc,
          lc_source = src, lc_base = base, lc_hash = h, lc_updated = up\<rparr>)))))))))
    | Some JNull \<Rightarrow> Inr empty_landing
    | _ \<Rightarrow> Inl unmarshal_error)"

definition loadLanding :: "sealer \<Rightarrow> ('a db_scheme, landing_config \<times> bool) io" where
  "loadLanding blk = io_try (SecretSetting blk landingSetting) (\<lambda>r. case r of
      Inl e \<Rightarrow> if error_is ErrNoRows e then io_return (empty_landing, False) else io_fail e
    | Inr v \<Rightarrow> io_bind (io_of (decode_landing v)) (\<lambda>c. io_return (c, True)))"

definition saveLanding :: "sealer \<Rightarrow> landing_config \<Rightarrow> ('a db_scheme, unit) io" where
  "saveLanding blk c = SetSecretSetting blk landingSetting (json_print (encode_landing c))"

definition restoreLanding :: "sealer \<Rightarrow> landing_config \<Rightarrow> bool \<Rightarrow> ('a db_scheme, unit) io" where
  "restoreLanding blk previous existed = (if \<not> existed then DeleteSetting landingSetting else saveLanding blk previous)"

section \<open>Connection details\<close>

definition short_id :: "string \<Rightarrow> bool" where
  "short_id s \<longleftrightarrow> length s \<le> 16 \<and> even (length s) \<and> list_all is_hex s"

definition uri_endpoint :: "url \<Rightarrow> error + string \<times> string \<times> int" where
  "uri_endpoint u = (case User u of
      None \<Rightarrow> Inl (Err ''landing node must be a VLESS Reality URI'')
    | Some (uuid, password) \<Rightarrow>
        if Scheme u \<noteq> ''vless'' \<or> uuid = [] then Inl (Err ''landing node must be a VLESS Reality URI'')
        else if password \<noteq> None \<or> \<not> is_uuid uuid then Inl (Err ''invalid VLESS UUID'')
        else case validateEndpointHost (Hostname u) of
            Inl _ \<Rightarrow> Inl (Err ''invalid landing server'')
          | Inr server \<Rightarrow> (case atoi (URL_Port u) of (p, err) \<Rightarrow>
              if err \<noteq> None \<or> p < 1 \<or> 65535 < p then Inl (Err ''invalid landing port'') else Inr (uuid, server, p)))"

definition one_of :: "query \<Rightarrow> string \<Rightarrow> string list \<Rightarrow> bool" where
  "one_of q k vs \<longleftrightarrow> query_get q k = [] \<or> query_get q k \<in> set vs"

definition uri_reality :: "query \<Rightarrow> error + string \<times> string \<times> string \<times> string" where
  "uri_reality q =
     (if query_get q ''security'' \<noteq> ''reality'' \<or> \<not> one_of q ''type'' [''tcp''] \<or> \<not> one_of q ''encryption'' [''none''] \<or>
         \<not> one_of q ''fp'' [''chrome'']
      then Inl (Err ''only VLESS Reality over TCP with chrome fingerprint is supported'')
      else if \<not> one_of q ''flow'' [''xtls-rprx-vision''] then Inl (Err ''unsupported VLESS flow'')
      else case validateEndpointHost (query_get q ''sni'') of
          Inl _ \<Rightarrow> Inl (Err ''Reality server name is required'')
        | Inr serverName \<Rightarrow>
            (case raw_url_decode (query_get q ''pbk'') of
               None \<Rightarrow> Inl (Err ''invalid Reality public key'')
             | Some key \<Rightarrow>
                 if length key \<noteq> 32 then Inl (Err ''invalid Reality public key'')
                 else if \<not> short_id (query_get q ''sid'') then Inl (Err ''invalid Reality short ID'')
                 else Inr (serverName, query_get q ''pbk'', query_get q ''sid'', query_get q ''flow'')))"

definition parseLandingURI :: "string \<Rightarrow> error + ai_routing" where
  "parseLandingURI raw = (case url_Parse raw of
      None \<Rightarrow> Inl (Err ''landing node must be a VLESS Reality URI'')
    | Some u \<Rightarrow> sum_bind (uri_endpoint u) (\<lambda>(uuid, server, p). sum_bind (uri_reality (url_Query u)) (\<lambda>(serverName, key, sid, flow).
        Inr \<lparr>InboundIDs = [], Base = None, Server = server, Port = p, UUID = uuid, ServerName = serverName,
          PublicKey = key, ShortID = sid, Flow = flow, Include = [], Exclude = []\<rparr>)))"

definition detail_names :: "string list" where
  "detail_names = [''ADDR'', ''PORT'', ''UUID'', ''PUB'', ''SID'', ''SNI'']"

definition details_error :: error where
  "details_error = Err ''landing connection details must contain six unique fields: ADDR, PORT, UUID, PUB, SID and SNI''"

text \<open>A line is a legacy one when its key is one of the six with the prefix \<open>JP_\<close>; all must be of one format.\<close>

definition detail_key :: "string \<Rightarrow> string \<times> bool" where
  "detail_key k = (if has_prefix k ''JP_'' \<and> drop 3 k \<in> set detail_names then (drop 3 k, True) else (k, False))"

fun detail_lines :: "bool option \<Rightarrow> (string \<times> string) list \<Rightarrow> string list \<Rightarrow> error + (string \<times> string) list" where
  "detail_lines format flds [] = Inr flds"
| "detail_lines format flds (l # ls) =
     (let line = trim_space l
      in if line = [] then detail_lines format flds ls
         else case cut line CHR ''='' of (k, v, found) \<Rightarrow> case detail_key k of (name, legacy) \<Rightarrow>
           if \<not> found \<or> name \<notin> set detail_names \<or> name \<in> fst ` set flds \<or> trim_space v \<noteq> v \<or> v = [] \<or>
              (format \<noteq> None \<and> format \<noteq> Some legacy)
           then Inl details_error
           else detail_lines (Some legacy) (flds @ [(name, v)]) ls)"

definition detail :: "(string \<times> string) list \<Rightarrow> string \<Rightarrow> string" where
  "detail flds k = (case map_of flds k of Some v \<Rightarrow> v | None \<Rightarrow> [])"

definition detail_query :: "(string \<times> string) list \<Rightarrow> query" where
  "detail_query flds = [(''security'', ''reality''), (''type'', ''tcp''), (''encryption'', ''none''), (''sni'', detail flds ''SNI''),
     (''pbk'', detail flds ''PUB''), (''sid'', detail flds ''SID''), (''flow'', ''xtls-rprx-vision''), (''fp'', ''chrome'')]"

definition detail_uri :: "(string \<times> string) list \<Rightarrow> int \<Rightarrow> string" where
  "detail_uri flds p = ''vless://'' @ detail flds ''UUID'' @ ''@'' @ detail flds ''ADDR'' @ '':'' @ itoa p @ ''?'' @
     query_encode (detail_query flds)"

definition landingDetailsURI :: "string \<Rightarrow> error + string" where
  "landingDetailsURI raw =
     (if 2048 < length raw then Inl (Err ''landing connection details are too long'')
      else sum_bind (detail_lines None [] (split_char NL (trim_space raw))) (\<lambda>flds.
        if length flds \<noteq> length detail_names then Inl details_error
        else case atoi (detail flds ''PORT'') of (p, err) \<Rightarrow>
          if err \<noteq> None \<or> p < 1 \<or> 65535 < p then Inl (Err ''invalid landing port'')
          else sum_bind (parseLandingURI (detail_uri flds p)) (\<lambda>_. Inr (detail_uri flds p))))"

section \<open>Domain rules\<close>

definition domain_char :: "char \<Rightarrow> bool" where
  "domain_char c \<longleftrightarrow> is_lower c \<or> is_digit c \<or> c = CHR ''-''"

text \<open>\<open>strings.Trim(label, set) != ""\<close> holds when the first and last characters outside the set remain: some
  character is outside it.\<close>

definition domain_label :: "string \<Rightarrow> bool" where
  "domain_label l \<longleftrightarrow> 1 \<le> length l \<and> length l \<le> 63 \<and> hd l \<noteq> CHR ''-'' \<and> last l \<noteq> CHR ''-'' \<and>
     trim_both domain_char l = []"

fun landing_domains :: "string list \<Rightarrow> string list \<Rightarrow> error + string list" where
  "landing_domains seen [] = Inr []"
| "landing_domains seen (raw # rest) =
     (let v = to_lower (trim_space raw)
      in if 253 < length v \<or> CHR ''.'' \<notin> set v \<or> has_prefix v ''.'' \<or> has_suffix v ''.'' \<or>
            \<not> list_all domain_label (split_char CHR ''.'' v)
         then Inl (Err ''invalid domain suffix'')
         else sum_bind (landing_domains (if v \<in> set seen then seen else v # seen) rest)
           (\<lambda>vs. Inr (if v \<in> set seen then vs else v # vs)))"

definition normalizeLandingDomains :: "string list \<Rightarrow> error + string list" where
  "normalizeLandingDomains vs =
     (if 256 < length vs then Inl (Err ''at most 256 custom domains are allowed'')
      else sum_bind (landing_domains [] vs) (\<lambda>ds. Inr (sort ds)))"

section \<open>The rule source\<close>

definition bad_segment :: "string \<Rightarrow> bool" where
  "bad_segment part \<longleftrightarrow> part = [] \<or> part = ''.'' \<or> part = ''..'' \<or> CHR 0x5C \<in> set part"

definition validateAIRulesURL :: "string \<Rightarrow> error option" where
  "validateAIRulesURL raw = (case url_Parse raw of
      None \<Rightarrow> Some (Err ''rule source must be an HTTPS GitHub Raw JSON URL'')
    | Some u \<Rightarrow>
        (let segments = split_char CHR ''/'' (trim_prefix (Path u) ''/''); escaped = to_lower (EscapedPath u)
         in if Scheme u \<noteq> ''https'' \<or> URL_Host u \<noteq> ''raw.githubusercontent.com'' \<or> User u \<noteq> None \<or>
               RawQuery u \<noteq> [] \<or> Fragment u \<noteq> [] \<or> 512 < length raw
            then Some (Err ''rule source must be an HTTPS GitHub Raw JSON URL'')
            else if contains escaped ''%2f'' \<or> contains escaped ''%2e'' \<or> contains escaped ''%5c''
            then Some (Err ''invalid rule source path'')
            else if length segments < 4 \<or> \<not> has_suffix (last segments) ''.json''
            then Some (Err ''rule source must point to a GitHub Raw JSON file'')
            else if list_ex bad_segment segments then Some (Err ''invalid rule source path'') else None))"

text \<open>The strict decoding of the payload: a member of another name is an error.\<close>

definition only_fields :: "string list \<Rightarrow> obj \<Rightarrow> bool" where
  "only_fields names ob \<longleftrightarrow> list_all (\<lambda>(k, v). list_ex (equal_fold k) names) ob"

definition decode_regex :: "json \<Rightarrow> error + string list option" where
  "decode_regex v = (case v of JStr one \<Rightarrow> Inr (Some [one]) | _ \<Rightarrow> decode_strings v)"

definition strict_rule :: "json \<Rightarrow> error + ai_rule" where
  "strict_rule v = (case v of
      JObj ob \<Rightarrow>
        if \<not> only_fields [''domain'', ''domain_suffix'', ''domain_regex''] ob then Inl (Err ''json: unknown field'')
        else sum_bind (decode_strings (json_member ob ''domain'')) (\<lambda>d.
          sum_bind (decode_strings (json_member ob ''domain_suffix'')) (\<lambda>s.
          sum_bind (decode_regex (json_member ob ''domain_regex'')) (\<lambda>x.
          Inr \<lparr>ai_domain = d, ai_suffix = s, ai_regex = x\<rparr>)))
    | JNull \<Rightarrow> Inr \<lparr>ai_domain = None, ai_suffix = None, ai_regex = None\<rparr>
    | _ \<Rightarrow> Inl unmarshal_error)"

definition strict_rules :: "json \<Rightarrow> error + int \<times> ai_rule list" where
  "strict_rules v = (case v of
      JObj ob \<Rightarrow>
        if \<not> only_fields [''version'', ''rules''] ob then Inl (Err ''json: unknown field'')
        else sum_bind (field_int ob ''version'') (\<lambda>n.
          sum_bind (case json_member ob ''rules'' of JNull \<Rightarrow> Inr [] | JList vs \<Rightarrow> decode_all strict_rule vs | _ \<Rightarrow> Inl unmarshal_error) (\<lambda>rs.
          Inr (n, rs)))
    | JNull \<Rightarrow> Inr (0, [])
    | _ \<Rightarrow> Inl unmarshal_error)"

definition validRuleDomain :: "string \<Rightarrow> bool" where
  "validRuleDomain d \<longleftrightarrow> CHR ''.'' \<in> set d \<and> list_all domain_label (split_char CHR ''.'' d)"

definition rule_domain :: "string \<Rightarrow> bool" where
  "rule_domain d \<longleftrightarrow> \<not> (253 < length d \<or> d = [] \<or> d \<noteq> to_lower d \<or> contains_any d (''/* '' @ [CHR 0x5C]) \<or> \<not> validRuleDomain d)"

definition strings_of :: "string list option \<Rightarrow> string list" where
  "strings_of xs = (case xs of None \<Rightarrow> [] | Some ss \<Rightarrow> ss)"

definition parseAIRules :: "(string \<Rightarrow> bool) \<Rightarrow> string \<Rightarrow> error + ai_domains" where
  "parseAIRules compiles data =
     (if data = [] \<or> 1024 * 1024 < length data then Inl (Err ''rule set must be between 1 byte and 1 MiB'')
      else case json_parse data of
          None \<Rightarrow> Inl (Err ''invalid sing-box rule set'')
        | Some doc \<Rightarrow> sum_bind (strict_rules doc) (\<lambda>(version, rules). case rules of
            [rule] \<Rightarrow>
              if version \<noteq> 1 \<and> version \<noteq> 2 then Inl (Err ''rule set requires version 1 or 2 and exactly one domain rule'')
              else (let domains = strings_of (ai_domain rule) @ strings_of (ai_suffix rule); regexes = strings_of (ai_regex rule);
                        count = length domains + length regexes
                    in if count = 0 \<or> 20000 < count then Inl (Err ''rule set must contain 1 to 20000 domains'')
                       else if \<not> list_all rule_domain domains then Inl (Err ''rule set contains an invalid domain'')
                       else if \<not> list_all (\<lambda>p. length p \<le> 512 \<and> compiles p) regexes
                       then Inl (Err ''rule set contains an invalid regular expression'')
                       else Inr \<lparr>ai_version = version, ai_rules = [rule]\<rparr>)
          | _ \<Rightarrow> Inl (Err ''rule set requires version 1 or 2 and exactly one domain rule'')))"

text \<open>The download: \<open>get\<close> is one request without redirects, its status and at most 1 MiB and a byte of its body.\<close>

definition fetchAIRules :: "(string \<Rightarrow> bool) \<Rightarrow> (string \<Rightarrow> string) \<Rightarrow> (string \<Rightarrow> ('w, int \<times> string) io) \<Rightarrow> string \<Rightarrow>
    ('w, ai_domains \<times> string) io" where
  "fetchAIRules compiles sha256 get source = (case validateAIRulesURL source of
      Some e \<Rightarrow> io_fail e
    | None \<Rightarrow> io_bind (io_map_error (Wrap ''rule source download failed'') (get source)) (\<lambda>(status, body).
        if status \<noteq> 200 then io_fail (Err ''rule source returned an HTTP error'')
        else (let data = take (1024 * 1024 + 1) body
              in io_bind (io_of (parseAIRules compiles data)) (\<lambda>base. io_return (base, hex_encode (sha256 data))))))"

end
