(* ===== verification/NodeService.thy ===== *)
theory NodeService
  imports TemporaryRuntime Landing Firewall StoreData
begin

text \<open>
  \<open>internal/node/service.go\<close> and the handlers of \<open>landing.go\<close>: every change of a node, a client, an outbound,
  the ports or the AI landing is one store operation followed by \<open>reconcile\<close>, which brings the firewall, the
  engine and the residential runtime to what the store says; when that fails the change is compensated. The
  mutex makes a handler one step. Deadlines are not modelled: a call that runs out of time is a call that fails.
  The engine and the residential runtime are the interfaces of the code, as records of operations.
\<close>

section \<open>The service\<close>

record 'w engine_ifc =
  eng_apply :: "string \<Rightarrow> listener list \<Rightarrow> ('w, unit) io"
  eng_healthy :: "('w, bool) io"
  eng_listeners :: "listener list \<Rightarrow> ('w, unit) io"
  eng_bulk :: "(listener list \<Rightarrow> ('w, bool list) io) option"

record 'w temporary_ifc =
  tmp_reconcile :: "temporary_node list \<Rightarrow> ('w, unit) io"
  tmp_healthy :: "int \<Rightarrow> ('w, bool) io"
  tmp_listeners :: "node \<Rightarrow> ('w, unit) io"

record check_result =
  chk_ip :: string
  chk_country :: string
  chk_asn :: string

text \<open>\<open>svc_bind\<close> is \<open>net.Listen\<close> or \<open>net.ListenPacket\<close> on a network and an address, closed again.\<close>

record 'w node_service =
  svc_sealer :: sealer
  svc_engine :: "'w engine_ifc"
  svc_firewall :: "'w manager"
  svc_temporary :: "'w temporary_ifc option"
  svc_checker :: "outbound \<Rightarrow> ('w, check_result) io"
  svc_certs :: "'w certificates"
  svc_bind :: "string \<Rightarrow> string \<Rightarrow> ('w, unit) io"
  svc_builtin :: "error + ai_domains"
  svc_x25519 :: "string \<Rightarrow> string"

definition usesTemporaryRuntime :: "'w node_service \<Rightarrow> node \<Rightarrow> bool" where
  "usesTemporaryRuntime s n \<longleftrightarrow> svc_temporary s \<noteq> None \<and> TemporarySource n \<noteq> []"

definition noted :: "string \<Rightarrow> string \<Rightarrow> string \<Rightarrow> ('a db_scheme, 'b) io \<Rightarrow> ('a db_scheme, 'b) io" where
  "noted level code message k = io_try (RecordEvent level code message) (\<lambda>_. k)"

section \<open>The firewall\<close>

definition firewallRuleKey :: "string \<Rightarrow> int \<Rightarrow> string" where
  "firewallRuleKey proto p = proto @ ''/'' @ itoa p"

definition node_rules :: "node \<Rightarrow> (string \<times> int) list" where
  "node_rules n = (if \<not> node_enabled n \<or> localListen (listen n) then []
     else map (\<lambda>proto. (proto, port n)) (firewallProtocols (protocol n)))"

definition desired_rules :: "node list \<Rightarrow> (string \<times> int) list" where
  "desired_rules ns = sort_key (\<lambda>(proto, p). firewallRuleKey proto p) (remdups (concat (map node_rules ns)))"

definition tracked_rule :: "managed_rule list \<Rightarrow> string \<times> int \<Rightarrow> managed_rule option" where
  "tracked_rule rules = (\<lambda>(proto, p). find (\<lambda>r. rule_protocol r = proto \<and> rule_port r = p) rules)"

definition close_stale :: "'a node_world_scheme node_service \<Rightarrow> (string \<times> int) list \<Rightarrow> managed_rule \<Rightarrow> ('a node_world_scheme, unit) io" where
  "close_stale s desired r =
     (if (rule_protocol r, rule_port r) \<in> set desired then io_return ()
      else io_bind (if rule_ownership r \<noteq> FirewallBorrowed
          then io_map_error (Wrap ''remove stale firewall rule'') (mgr_close (svc_firewall s) (rule_protocol r) (rule_port r) (rule_backend r))
          else io_return ()) (\<lambda>_.
        io_map_error (Wrap ''forget stale firewall rule'') (ForgetFirewallRule (rule_protocol r) (rule_port r))))"

definition leave_backend :: "'a node_world_scheme node_service \<Rightarrow> managed_rule option \<Rightarrow> string \<times> int \<Rightarrow> string \<Rightarrow> ('a node_world_scheme, unit) io" where
  "leave_backend s known rule active = (case rule of (proto, p) \<Rightarrow> (case known of
      Some r \<Rightarrow>
        if rule_ownership r = FirewallOwned \<and> rule_backend r \<noteq> FirewallUnknown \<and> rule_backend r \<noteq> active
        then io_map_error (Wrap ''remove firewall rule from previous backend'') (mgr_close (svc_firewall s) proto p (rule_backend r))
        else io_return ()
    | None \<Rightarrow> io_return ()))"

definition record_ensured :: "'a node_world_scheme node_service \<Rightarrow> string \<times> int \<Rightarrow> string \<Rightarrow> fw_result \<Rightarrow> ('a node_world_scheme, unit) io" where
  "record_ensured s rule active result = (case rule of (proto, p) \<Rightarrow>
     if Ownership result \<noteq> FirewallOwned \<and> Ownership result \<noteq> FirewallBorrowed
     then io_fail (Err ''firewall returned invalid ownership'')
     else if Backend result \<notin> {BackendFirewalld, BackendUFW, BackendNFTables}
     then io_fail (Err ''firewall returned invalid backend'')
     else if Backend result \<noteq> active
     then io_try (if Ownership result = FirewallOwned then mgr_close (svc_firewall s) proto p (Backend result) else io_return ())
       (\<lambda>_. io_fail (Err ''firewall backend changed while reconciling''))
     else io_map_error (Wrap ''record firewall ownership'') (SetFirewallRuleOwnership proto p (Ownership result) (Backend result)))"

definition read_verified :: "('a node_world_scheme, bool) io" where
  "read_verified w = (Inr (firewallVerified w), w)"

definition ensure_rule :: "'a node_world_scheme node_service \<Rightarrow> managed_rule list \<Rightarrow> string \<times> int \<Rightarrow> ('a node_world_scheme, unit) io" where
  "ensure_rule s known rule = io_bind read_verified (\<lambda>verified.
     if tracked_rule known rule \<noteq> None \<and> verified then io_return ()
     else io_bind (io_map_error (Wrap ''track firewall rule'') (TrackFirewallRule (fst rule) (snd rule))) (\<lambda>_.
       io_bind (io_map_error (Wrap ''select firewall backend'') (mgr_backend (svc_firewall s))) (\<lambda>active.
       io_bind (leave_backend s (tracked_rule known rule) rule active) (\<lambda>_.
       io_bind (io_map_error (Wrap ''restore firewall rule'') (mgr_ensure (svc_firewall s) (fst rule) (snd rule)))
         (record_ensured s rule active)))))"

definition mark_verified :: "('a node_world_scheme, unit) io" where
  "mark_verified w = (Inr (), w\<lparr>firewallVerified := True\<rparr>)"

definition syncFirewall :: "'a node_world_scheme node_service \<Rightarrow> node list \<Rightarrow> ('a node_world_scheme, unit) io" where
  "syncFirewall s ns = io_bind ManagedFirewallRules (\<lambda>known.
     io_bind (io_each (close_stale s (desired_rules ns)) known) (\<lambda>_.
     io_bind (io_each (ensure_rule s known) (desired_rules ns)) (\<lambda>_. mark_verified)))"

text \<open>\<open>CleanupFirewall\<close>: the rules of the map, in the order \<open>shuffle\<close> that its iteration picks; every failure is kept.\<close>

definition untracked_rules :: "managed_rule list \<Rightarrow> node list \<Rightarrow> managed_rule list" where
  "untracked_rules rules ns = map (\<lambda>(proto, p). \<lparr>rule_protocol = proto, rule_port = p, rule_ownership = [], rule_backend = []\<rparr>)
     (filter (\<lambda>key. tracked_rule rules key = None) (remdups (concat (map node_rules ns))))"

definition cleanup_rule :: "'a node_world_scheme node_service \<Rightarrow> managed_rule \<Rightarrow> ('a node_world_scheme, unit) io" where
  "cleanup_rule s r = io_bind (if rule_ownership r \<noteq> FirewallBorrowed
       then io_map_error (Wrap ''close'') (mgr_close (svc_firewall s) (rule_protocol r) (rule_port r) (rule_backend r))
       else io_return ()) (\<lambda>_.
     io_map_error (Wrap ''forget'') (ForgetFirewallRule (rule_protocol r) (rule_port r)))"

fun try_all :: "('w, unit) io list \<Rightarrow> ('w, error list) io" where
  "try_all [] = io_return []"
| "try_all (m # ms) = io_try m (\<lambda>r. io_bind (try_all ms) (\<lambda>es.
     io_return (case r of Inl e \<Rightarrow> e # es | Inr _ \<Rightarrow> es)))"

definition CleanupFirewall :: "'a node_world_scheme node_service \<Rightarrow> (managed_rule list \<Rightarrow> managed_rule list) \<Rightarrow> ('a node_world_scheme, unit) io" where
  "CleanupFirewall s shuffle = io_bind (ListNodes (svc_sealer s)) (\<lambda>ns. io_bind ManagedFirewallRules (\<lambda>rules.
     io_bind (try_all (map (cleanup_rule s) (shuffle (rules @ untracked_rules rules ns)))) (\<lambda>failures.
     io_check (errors_Join (map Some failures)))))"

section \<open>Reconciling\<close>

fun runtime_items :: "'w node_service \<Rightarrow> outbound list \<Rightarrow> node list \<Rightarrow> ('a db_scheme, node_item list \<times> temporary_node list) io" where
  "runtime_items s obs [] = io_return ([], [])"
| "runtime_items s obs (n # ns) = io_bind (Clients (svc_sealer s) (node_id n)) (\<lambda>cs.
     io_bind (runtime_items s obs ns) (\<lambda>(its, temps).
       if usesTemporaryRuntime s n
       then io_return (its, \<lparr>tn_node = n, tn_clients = cs,
              tn_outbound = (case node_outbound n of None \<Rightarrow> zero_outbound
                | Some i \<Rightarrow> (case find (\<lambda>ob. out_id ob = i) obs of Some ob \<Rightarrow> ob | None \<Rightarrow> zero_outbound))\<rparr> # temps)
       else io_return ((n, cs) # its, temps)))"

definition landing_scope :: "landing_config \<Rightarrow> node_item list \<Rightarrow> int list" where
  "landing_scope c its = map (node_id \<circ> fst) (filter (\<lambda>(n, _). node_enabled n \<and> node_outbound n = None \<and> TemporarySource n = [] \<and>
     (lc_inbound c = 0 \<or> lc_inbound c = node_id n)) its)"

definition landing_ai :: "landing_config \<Rightarrow> node_item list \<Rightarrow> error + ai_routing option" where
  "landing_ai c its =
     (if \<not> lc_enabled c then Inr None
      else sum_bind (parseLandingURI (lc_uri c)) (\<lambda>ai.
        if lc_inbound c \<noteq> 0 \<and> landing_scope c its = [] then Inl (Err ''legacy AI inbound is no longer available'')
        else Inr (Some (ai\<lparr>Include := strings_of (lc_include c), Exclude := strings_of (lc_exclude c), Base := lc_base c,
                   InboundIDs := landing_scope c its\<rparr>))))"

definition item_listeners :: "node_item list \<Rightarrow> listener list" where
  "item_listeners its = concat (map (\<lambda>(n, _). if node_enabled n then listenersForNode n else []) its)"

definition deploy :: "'a node_world_scheme node_service \<Rightarrow> string \<Rightarrow> node_item list \<Rightarrow> temporary_node list \<Rightarrow> ('a node_world_scheme, unit) io" where
  "deploy s config its temps =
     io_try (eng_apply (svc_engine s) config (item_listeners its)) (\<lambda>r. case r of
         Inl e \<Rightarrow> noted ''error'' ''config_apply_failed'' ''sing-box configuration not deployed'' (io_fail e)
       | Inr _ \<Rightarrow> io_try (case svc_temporary s of None \<Rightarrow> io_return () | Some t \<Rightarrow> tmp_reconcile t temps) (\<lambda>r. case r of
             Inl e \<Rightarrow> noted ''error'' ''temporary_config_apply_failed'' ''residential configuration not deployed'' (io_fail e)
           | Inr _ \<Rightarrow> io_try (SaveConfigVersion (svc_sealer s) config True) (\<lambda>r. case r of
                 Inl e \<Rightarrow> noted ''error'' ''config_version_failed'' ''configuration version not written'' (io_fail e)
               | Inr _ \<Rightarrow> noted ''info'' ''config_applied'' ''sing-box configuration applied'' (io_return ()))))"

definition reconcile :: "'a node_world_scheme node_service \<Rightarrow> ('a node_world_scheme, unit) io" where
  "reconcile s =
     io_bind (ListNodes (svc_sealer s)) (\<lambda>ns.
     io_bind (syncFirewall s ns) (\<lambda>_.
     io_bind (ListOutbounds (svc_sealer s)) (\<lambda>obs.
     io_bind (runtime_items s obs ns) (\<lambda>(its, temps).
     io_bind (loadLanding (svc_sealer s)) (\<lambda>(landing, _).
     io_bind (io_of (landing_ai landing its)) (\<lambda>ai.
     case GenerateWithAIRouting (svc_builtin s) its obs ai of
       Inl e \<Rightarrow> noted ''error'' ''config_generation_failed'' ''node configuration not generated'' (io_fail e)
     | Inr config \<Rightarrow> deploy s config its temps))))))"

section \<open>Compensation\<close>

fun run_steps :: "(string \<times> ('w, unit) io) list \<Rightarrow> ('w, error list) io" where
  "run_steps [] = io_return []"
| "run_steps ((what, step) # steps) = io_try step (\<lambda>r. io_bind (run_steps steps) (\<lambda>failures.
     io_return (case r of Inl e \<Rightarrow> Wrap what e # failures | Inr _ \<Rightarrow> failures)))"

definition compensate :: "error \<Rightarrow> (string \<times> ('a db_scheme, unit) io) list \<Rightarrow> ('a db_scheme, 'b) io" where
  "compensate primary steps = io_bind (run_steps steps) (\<lambda>failures.
     if failures = [] then io_fail primary
     else noted ''error'' ''rollback_incomplete'' ''automatic rollback did not complete'' (io_fail (Join (primary # failures))))"

definition reconciled :: "'a node_world_scheme node_service \<Rightarrow> string \<Rightarrow> ('a node_world_scheme, unit) io \<Rightarrow> ('a node_world_scheme, 'b) io \<Rightarrow>
    ('a node_world_scheme, 'b) io" where
  "reconciled s what restore k = io_try (reconcile s) (\<lambda>r. case r of
      Inl e \<Rightarrow> compensate e [(what, restore), (''restore previous sing-box configuration'', reconcile s)]
    | Inr _ \<Rightarrow> k)"

definition Reconcile :: "'a node_world_scheme node_service \<Rightarrow> ('a node_world_scheme, unit) io" where
  "Reconcile s = reconcile s"

section \<open>Ports\<close>

definition DefaultStartPort :: int where "DefaultStartPort = 8881"

definition startPort :: "('a db_scheme, int) io" where
  "startPort = io_try (Setting ''node_start_port'') (\<lambda>r. case r of
      Inl e \<Rightarrow> if IsNotFound e then io_return DefaultStartPort else io_fail e
    | Inr raw \<Rightarrow> (case atoi raw of (p, err) \<Rightarrow>
        if err \<noteq> None \<or> p < 1 \<or> 65535 < p then io_fail (Err ''stored node start port is invalid'') else io_return p))"

definition nextConfiguredPort :: "int \<Rightarrow> node list \<Rightarrow> error + int" where
  "nextConfiguredPort start ns = (case find (\<lambda>p. p \<notin> port ` set ns) [start..65535] of
      Some p \<Rightarrow> Inr p | None \<Rightarrow> Inl (Err ''no available node port remains''))"

fun first_free_port :: "int list \<Rightarrow> (int \<Rightarrow> ('w, bool) io) \<Rightarrow> int list \<Rightarrow> ('w, int) io" where
  "first_free_port used usable [] = io_fail (Err ''no available node port remains'')"
| "first_free_port used usable (p # ps) =
     (if p \<in> set used then first_free_port used usable ps
      else io_bind (usable p) (\<lambda>ok. if ok then io_return p else first_free_port used usable ps))"

definition nextProtocolPort :: "int \<Rightarrow> string \<Rightarrow> int list \<Rightarrow> (int \<Rightarrow> ('w, bool) io) \<Rightarrow> ('w, int) io" where
  "nextProtocolPort start proto used usable =
     first_free_port used usable (if proto = ProtocolVLESSWSTLS then CloudflareHTTPSPorts else [start..65535])"

definition checkNetworkPort :: "'w node_service \<Rightarrow> string \<Rightarrow> string \<Rightarrow> int \<Rightarrow> ('w, unit) io" where
  "checkNetworkPort s network listenAt p =
     io_map_error (Wrap (network @ '' port conflict'')) (svc_bind s network (join_host_port (defaultListen listenAt) (itoa p)))"

definition checkPort :: "'w node_service \<Rightarrow> string \<Rightarrow> string \<Rightarrow> int \<Rightarrow> ('w, unit) io" where
  "checkPort s proto listenAt p = io_each (\<lambda>network. checkNetworkPort s network listenAt p) (firewallProtocols proto)"

definition succeeds :: "('w, unit) io \<Rightarrow> ('w, bool) io" where
  "succeeds m = io_try m (\<lambda>r. io_return (\<not> isl r))"

definition nextAvailablePort :: "'a node_world_scheme node_service \<Rightarrow> string \<Rightarrow> string \<Rightarrow> ('a node_world_scheme, int) io" where
  "nextAvailablePort s proto listenAt = io_bind startPort (\<lambda>start. io_bind (ListNodes (svc_sealer s)) (\<lambda>ns.
     io_map_error conflictError (nextProtocolPort start proto (map port ns) (\<lambda>p. succeeds (checkPort s proto listenAt p)))))"

record port_settings =
  StartPort :: int
  NextPort :: int

definition PortSettings :: "'a node_world_scheme node_service \<Rightarrow> ('a node_world_scheme, port_settings) io" where
  "PortSettings s = io_bind startPort (\<lambda>start. io_bind (ListNodes (svc_sealer s)) (\<lambda>ns.
     io_bind (io_map_error conflictError (io_of (nextConfiguredPort start ns))) (\<lambda>next_port.
     io_return \<lparr>StartPort = start, NextPort = next_port\<rparr>)))"

text \<open>A listener the panel manages is free for another of its nodes; the rest must be bindable.\<close>

definition managed_listeners :: "node list \<Rightarrow> (string \<times> int) list" where
  "managed_listeners ns = concat (map (\<lambda>n. if node_enabled n then map (\<lambda>network. (network, port n)) (firewallProtocols (protocol n)) else []) ns)"

fun networks_free :: "'w node_service \<Rightarrow> (string \<times> int) list \<Rightarrow> string \<Rightarrow> int \<Rightarrow> string list \<Rightarrow> ('w, bool) io" where
  "networks_free s managed listenAt p [] = io_return True"
| "networks_free s managed listenAt p (network # rest) =
     (if (network, p) \<in> set managed then networks_free s managed listenAt p rest
      else io_bind (succeeds (checkNetworkPort s network listenAt p)) (\<lambda>ok.
        if ok then networks_free s managed listenAt p rest else io_return False))"

fun reserve_argo :: "int list \<Rightarrow> node list \<Rightarrow> error + int list" where
  "reserve_argo used [] = Inr used"
| "reserve_argo used (n # ns) =
     (if protocol n = ProtocolVLESSArgo
      then (if port n \<in> set used then Inl (conflictError (Err ''Argo origin port conflicts with another node''))
            else reserve_argo (port n # used) ns)
      else reserve_argo used ns)"

definition renamed :: "string \<Rightarrow> int \<Rightarrow> int \<Rightarrow> string" where
  "renamed name old new = (if has_suffix name (''_'' @ itoa old) then trim_suffix name (''_'' @ itoa old) @ ''_'' @ itoa new else name)"

definition moved_node :: "int \<Rightarrow> node \<Rightarrow> node" where
  "moved_node p n = n\<lparr>node_name := renamed (node_name n) (port n) p, port := p, node_status := ''pending''\<rparr>"

fun assign_ports :: "'w node_service \<Rightarrow> int \<Rightarrow> (string \<times> int) list \<Rightarrow> int list \<Rightarrow> node list \<Rightarrow> ('w, node list) io" where
  "assign_ports s start managed used [] = io_return []"
| "assign_ports s start managed used (n # ns) =
     io_bind (if protocol n = ProtocolVLESSArgo then io_return (port n)
       else io_map_error conflictError (nextProtocolPort start (protocol n) used
              (\<lambda>p. networks_free s managed (listen n) p (firewallProtocols (protocol n))))) (\<lambda>p.
     io_bind (assign_ports s start managed (p # used) ns) (\<lambda>rest. io_return (moved_node p n # rest)))"

definition as_conflict :: "error \<Rightarrow> error" where
  "as_conflict e = (if IsConflict e then conflictError e else e)"

definition SetStartPort :: "'a node_world_scheme node_service \<Rightarrow> int \<Rightarrow> ('a node_world_scheme, port_settings) io" where
  "SetStartPort s start =
     (if start < 1 \<or> 65535 < start then io_fail (validationError (Err ''start port must be between 1 and 65535''))
      else io_bind startPort (\<lambda>previousStart. io_bind (ListNodes (svc_sealer s)) (\<lambda>previous.
        io_bind (io_of (reserve_argo [] previous)) (\<lambda>used.
        io_bind (assign_ports s start (managed_listeners previous) used previous) (\<lambda>candidates.
        io_bind (io_map_error as_conflict (SetNodePortsAndStart start candidates)) (\<lambda>_.
        reconciled s ''restore previous node ports and start port'' (SetNodePortsAndStart previousStart previous)
          (io_return \<lparr>StartPort = start, NextPort = start + int (length candidates)\<rparr>)))))))"

end
