(* ===== verification/NodeHandlers.thy ===== *)
theory NodeHandlers
  imports NodeService
begin

text \<open>
  The handlers of \<open>internal/node/service.go\<close> and \<open>landing.go\<close> over the reconciliation: reading nodes with their
  live status, and every change with the steps that compensate it.
\<close>

section \<open>Reading nodes\<close>

record node_view = node +
  ExternalAddress :: string
  CurrentOutbound :: string
  ListenerStatus :: string
  PublicConnectivity :: string
  Transport :: string

definition liveStatus :: "bool \<Rightarrow> bool \<Rightarrow> string" where
  "liveStatus enabled healthy = (if \<not> enabled then ''disabled'' else if healthy then ''running'' else ''faulted'')"

definition transport_of :: "string \<Rightarrow> string" where
  "transport_of proto =
     (if proto = ProtocolVLESSH2Reality then ''http2'' else if proto = ProtocolVLESSGRPCReality then ''grpc''
      else if proto \<in> {ProtocolVLESSWSTLS, ProtocolVLESSArgo} then ''websocket''
      else if proto \<in> {ProtocolHysteria2, ProtocolTUIC} then ''quic''
      else if proto = ProtocolSOCKS5 then ''socks''
      else if proto \<in> {ProtocolAnyTLS, ProtocolAnyTLSReality} then ''anytls'' else ''tcp'')"

definition decorateNode :: "string \<Rightarrow> node \<Rightarrow> node_view" where
  "decorateNode publicHost n = node.extend n
     \<lparr>ExternalAddress = (if public_host_override n = [] then publicHost else public_host_override n),
      CurrentOutbound = (case node_outbound n of None \<Rightarrow> ''native'' | Some i \<Rightarrow> ''outbound-'' @ itoa i),
      ListenerStatus = (if node_status n = ''running'' then ''listening'' else if node_status n = ''faulted'' then ''faulted'' else ''stopped''),
      PublicConnectivity = (if node_status n \<in> {''running'', ''faulted''} then ''unknown'' else ''not-applicable''),
      Transport = transport_of (protocol n)\<rparr>"

definition read_host :: "('a db_scheme, string) io" where
  "read_host = io_try (Setting ''public_host'') (\<lambda>r. io_return (case r of Inl _ \<Rightarrow> [] | Inr v \<Rightarrow> v))"

text \<open>The health of one node: of its own runtime, or of the engine and its listeners.\<close>

definition node_healthy :: "'w node_service \<Rightarrow> bool \<Rightarrow> node \<Rightarrow> ('w, bool) io" where
  "node_healthy s engineHealthy n = (case (usesTemporaryRuntime s n, svc_temporary s) of
      (True, Some t) \<Rightarrow> io_bind (tmp_healthy t (node_id n)) (\<lambda>healthy.
        if node_enabled n \<and> healthy then succeeds (tmp_listeners t n) else io_return healthy)
    | _ \<Rightarrow> if node_enabled n \<and> engineHealthy then succeeds (eng_listeners (svc_engine s) (listenersForNode n))
           else io_return engineHealthy)"

definition Get :: "'a node_world_scheme node_service \<Rightarrow> int \<Rightarrow> ('a node_world_scheme, node_view) io" where
  "Get s i = io_bind (Store_Node (svc_sealer s) i) (\<lambda>n. io_bind (eng_healthy (svc_engine s)) (\<lambda>engineHealthy.
     io_bind (node_healthy s engineHealthy n) (\<lambda>healthy. io_bind read_host (\<lambda>publicHost.
     io_return (decorateNode publicHost (n\<lparr>node_status := liveStatus (node_enabled n) healthy\<rparr>))))))"

text \<open>\<open>List\<close> asks a bulk checker once for the listeners of all nodes and cuts its answer at the offsets.\<close>

definition bulk_listeners :: "'w node_service \<Rightarrow> node \<Rightarrow> listener list" where
  "bulk_listeners s n = (if node_enabled n \<and> \<not> usesTemporaryRuntime s n then listenersForNode n else [])"

definition offsets_of :: "'w node_service \<Rightarrow> node list \<Rightarrow> nat list" where
  "offsets_of s ns = map (\<lambda>i. length (concat (map (bulk_listeners s) (take i ns)))) [0..<Suc (length ns)]"

definition bulk_statuses :: "'w node_service \<Rightarrow> bool \<Rightarrow> node list \<Rightarrow> ('w, bool list option) io" where
  "bulk_statuses s engineHealthy ns = (let all = concat (map (bulk_listeners s) ns) in
     case eng_bulk (svc_engine s) of
       Some bulk \<Rightarrow> if engineHealthy \<and> all \<noteq> []
         then io_try (bulk all) (\<lambda>r. io_return (case r of Inl _ \<Rightarrow> None | Inr statuses \<Rightarrow> Some statuses))
         else io_return None
     | None \<Rightarrow> io_return None)"

definition listed_healthy :: "'w node_service \<Rightarrow> bool \<Rightarrow> bool list option \<Rightarrow> nat list \<Rightarrow> nat \<Rightarrow> node \<Rightarrow> ('w, bool) io" where
  "listed_healthy s engineHealthy statuses offsets index n =
     (if \<not> usesTemporaryRuntime s n \<and> node_enabled n \<and> engineHealthy \<and> eng_bulk (svc_engine s) \<noteq> None
      then io_return (case statuses of None \<Rightarrow> False
        | Some sts \<Rightarrow> list_all (\<lambda>healthy. healthy) (take (offsets ! Suc index - offsets ! index) (drop (offsets ! index) sts)))
      else node_healthy s engineHealthy n)"

fun list_loop :: "'w node_service \<Rightarrow> bool \<Rightarrow> string \<Rightarrow> bool list option \<Rightarrow> nat list \<Rightarrow> nat \<Rightarrow> node list \<Rightarrow> ('w, node_view list) io" where
  "list_loop s engineHealthy publicHost statuses offsets index [] = io_return []"
| "list_loop s engineHealthy publicHost statuses offsets index (n # ns) =
     io_bind (listed_healthy s engineHealthy statuses offsets index n) (\<lambda>healthy.
     io_bind (list_loop s engineHealthy publicHost statuses offsets (Suc index) ns) (\<lambda>rest.
     io_return (decorateNode publicHost (n\<lparr>node_status := liveStatus (node_enabled n) healthy\<rparr>) # rest)))"

definition List_nodes :: "'a node_world_scheme node_service \<Rightarrow> ('a node_world_scheme, node_view list) io" where
  "List_nodes s = io_bind (ListNodes (svc_sealer s)) (\<lambda>ns. io_bind (eng_healthy (svc_engine s)) (\<lambda>engineHealthy.
     io_bind read_host (\<lambda>publicHost. io_bind (bulk_statuses s engineHealthy ns) (\<lambda>statuses.
     list_loop s engineHealthy publicHost statuses (offsets_of s ns) 0 ns))))"

section \<open>Outbounds\<close>

definition Service_CreateOutbound :: "'a node_world_scheme node_service \<Rightarrow> outbound_input \<Rightarrow> ('a node_world_scheme, outbound) io" where
  "Service_CreateOutbound s i = io_bind (io_map_error validationError (io_of (validateOutboundInput i))) (\<lambda>ob.
     let ob = (if CredentialMode i = ''clear'' then ob\<lparr>out_username := [], out_password := []\<rparr> else ob)
     in io_bind (CreateOutbound (svc_sealer s) ob) (\<lambda>created.
        reconciled s ''delete candidate outbound'' (DeleteOutbound (out_id created))
          (Store_Outbound (svc_sealer s) (out_id created))))"

definition manual_outbound :: "outbound \<Rightarrow> bool" where
  "manual_outbound ob \<longleftrightarrow> out_managed ob = [] \<or> out_managed ob = ''manual''"

definition outbound_credential :: "string \<Rightarrow> outbound \<Rightarrow> outbound \<Rightarrow> error + outbound" where
  "outbound_credential mode previous candidate =
     (if mode = [] \<or> mode = ''keep''
      then Inr (candidate\<lparr>out_username := out_username previous, out_password := out_password previous\<rparr>)
      else if mode = ''replace'' then Inr candidate
      else if mode = ''clear'' then Inr (candidate\<lparr>out_username := [], out_password := []\<rparr>)
      else Inl (validationError (Err ''credentialMode must be keep, replace, or clear'')))"

definition Service_UpdateOutbound :: "'a node_world_scheme node_service \<Rightarrow> int \<Rightarrow> outbound_input \<Rightarrow> ('a node_world_scheme, outbound) io" where
  "Service_UpdateOutbound s i input = io_bind (Store_Outbound (svc_sealer s) i) (\<lambda>previous.
     if \<not> manual_outbound previous then io_fail (conflictError (Err ''managed outbound must be changed from its provider page''))
     else io_bind (io_map_error validationError (io_of (validateOutboundInput input))) (\<lambda>candidate.
       io_bind (io_of (outbound_credential (CredentialMode input) previous
         (candidate\<lparr>out_id := i, out_created := out_created previous, out_status := ''unchecked''\<rparr>))) (\<lambda>candidate.
       if out_password candidate \<noteq> [] \<and> out_username candidate = []
       then io_fail (validationError (Err ''username is required when password is set''))
       else io_bind (UpdateOutbound (svc_sealer s) candidate) (\<lambda>_.
         reconciled s ''restore previous outbound'' (UpdateOutbound (svc_sealer s) previous)
           (Store_Outbound (svc_sealer s) i)))))"

definition Service_DeleteOutbound :: "'a node_world_scheme node_service \<Rightarrow> int \<Rightarrow> ('a node_world_scheme, unit) io" where
  "Service_DeleteOutbound s i = io_bind (Store_Outbound (svc_sealer s) i) (\<lambda>previous.
     if \<not> manual_outbound previous then io_fail (conflictError (Err ''managed outbound must be removed from its provider page''))
     else io_bind (io_map_error (\<lambda>e. if IsConflict e then conflictError (Err ''outbound is still used by a node'') else e)
         (DeleteOutbound i)) (\<lambda>_.
       reconciled s ''restore deleted outbound'' (RestoreOutbound (svc_sealer s) previous) (io_return ())))"

definition outboundCheckMessage :: "error \<Rightarrow> string" where
  "outboundCheckMessage e = (let message = to_lower (error_text e); has = contains message in
     if has ''authentication'' \<or> has ''username or password'' \<or> has ''status 407'' then ''upstream proxy authentication failed''
     else if has ''connection refused'' then ''upstream proxy refused the connection''
     else if has ''timeout'' \<or> has ''deadline exceeded'' then ''connecting to the upstream proxy timed out''
     else ''the internet is not reachable through the upstream proxy'')"

definition checked_outbound :: "outbound \<Rightarrow> int \<Rightarrow> error + check_result \<Rightarrow> outbound" where
  "checked_outbound ob now r = (case r of
      Inl e \<Rightarrow> ob\<lparr>out_checked := Some (unix_seconds now), out_status := ''unhealthy'', out_error := error_text e, out_observed := [],
        out_country := [], out_asn := []\<rparr>
    | Inr c \<Rightarrow> ob\<lparr>out_checked := Some (unix_seconds now), out_status := ''healthy'', out_observed := chk_ip c, out_country := chk_country c,
        out_asn := chk_asn c, out_error := []\<rparr>)"

definition CheckOutbound :: "'a node_world_scheme node_service \<Rightarrow> int \<Rightarrow> ('a node_world_scheme, outbound) io" where
  "CheckOutbound s i = io_bind (Store_Outbound (svc_sealer s) i) (\<lambda>ob. io_bind time_now (\<lambda>now.
     io_try (svc_checker s ob) (\<lambda>r.
     io_bind (UpdateOutbound (svc_sealer s) (checked_outbound ob now r)) (\<lambda>_.
     io_bind (Store_Outbound (svc_sealer s) i) (\<lambda>sanitized. case r of
         Inl e \<Rightarrow> io_fail (problem_New Unavailable ''outbound_check_failed'' (Some e))
       | Inr _ \<Rightarrow> io_return sanitized)))))"

definition validateOutboundBinding :: "'a node_world_scheme node_service \<Rightarrow> int option \<Rightarrow> bool \<Rightarrow> ('a node_world_scheme, unit) io" where
  "validateOutboundBinding s binding nodeEnabled = (case binding of
      None \<Rightarrow> io_return ()
    | Some i \<Rightarrow> io_bind (io_map_error (\<lambda>e. if IsNotFound e then validationError (Err ''selected outbound does not exist'') else e)
          (Store_Outbound (svc_sealer s) i)) (\<lambda>ob.
        if nodeEnabled \<and> \<not> out_enabled ob then io_fail (conflictError (Err ''selected outbound is disabled'')) else io_return ()))"

section \<open>Nodes\<close>

record create_input =
  ci_name :: string
  ci_protocol :: string
  ci_listen :: string
  ci_port :: int
  ci_enabled :: bool
  ci_client :: string
  ci_credential :: obj
  ci_host :: string
  ci_settings :: obj
  ci_confirm :: bool
  ci_outbound :: "int option"

record update_input =
  ui_name :: string
  ui_listen :: string
  ui_port :: int
  ui_enabled :: bool
  ui_host :: string
  ui_settings :: obj
  ui_confirm :: bool
  ui_outbound :: "int option"

text \<open>A port of 0, or a WebSocket port that is taken, is replaced by the next one, also in the name.\<close>

definition choose_port :: "'a node_world_scheme node_service \<Rightarrow> create_input \<Rightarrow> ('a node_world_scheme, create_input) io" where
  "choose_port s i =
     io_bind (if ci_port i = 0 then io_return True
       else if ci_protocol i = ProtocolVLESSWSTLS
       then io_bind (succeeds (checkPort s (ci_protocol i) (ci_listen i) (ci_port i))) (\<lambda>ok. io_return (\<not> ok))
       else io_return False) (\<lambda>again.
     if \<not> again then io_return i
     else io_bind (nextAvailablePort s (ci_protocol i) (ci_listen i)) (\<lambda>p.
       io_return (i\<lparr>ci_port := p, ci_name := renamed (ci_name i) (ci_port i) p\<rparr>)))"

definition host_of_input :: "string \<Rightarrow> string \<Rightarrow> obj \<Rightarrow> error + string" where
  "host_of_input proto host st = (case validateHostOverride host of
      Inl e \<Rightarrow> Inl e | Inr h \<Rightarrow> protocolHostOverride proto h st)"

definition with_expiry :: "'a node_world_scheme node_service \<Rightarrow> string \<Rightarrow> obj \<Rightarrow> ('a node_world_scheme, obj) io" where
  "with_expiry s proto st =
     (if protocolRequiresCertificate proto
      then io_bind (io_map_error validationError (certificateExpiration (tls (svc_certs s)) st)) (\<lambda>expiry.
        io_return (set_string ''certificate_not_after'' (format_rfc3339 expiry) st))
      else io_return st)"

text \<open>What \<open>Create\<close> checks and generates before it writes: the node and the credential of its client.\<close>

definition prepared_node :: "'a node_world_scheme node_service \<Rightarrow> create_input \<Rightarrow> ('a node_world_scheme, node \<times> client) io" where
  "prepared_node s i =
     io_bind (io_map_error validationError (prepareAutomaticCertificate (svc_certs s) (ci_protocol i) (ci_settings i))) (\<lambda>st.
     io_bind (io_map_error validationError (validateInput (tls (svc_certs s)) (ci_protocol i) (ci_listen i) (ci_port i) st (ci_confirm i))) (\<lambda>_.
     io_bind (io_map_error validationError (io_of (host_of_input (ci_protocol i) (ci_host i) st))) (\<lambda>host.
     io_bind (io_map_error conflictError (checkPort s (ci_protocol i) (ci_listen i) (ci_port i))) (\<lambda>_.
     io_bind (with_expiry s (ci_protocol i) st) (\<lambda>st.
     io_bind (generatedValues (svc_x25519 s) (ci_protocol i) st) (\<lambda>(sec, st, generated).
     io_bind (io_map_error validationError (io_of (applyCustomCredential (ci_protocol i) generated (ci_credential i)))) (\<lambda>cred.
     let n = \<lparr>node_id = 0, node_name = trim_space (ci_name i), protocol = ci_protocol i, listen = defaultListen (ci_listen i),
           port = ci_port i, node_enabled = ci_enabled i, public_host_override = host, node_outbound = ci_outbound i,
           settings = st, secret = sec, node_status = ''pending'', node_created = 0, node_updated = 0\<rparr>;
         clientName = (if trim_space (ci_client i) = [] then ''default'' else trim_space (ci_client i))
     in io_bind (validateOutboundBinding s (node_outbound n) (node_enabled n)) (\<lambda>_.
        if node_name n = [] then io_fail (validationError (Err ''name is required''))
        else io_return (n, \<lparr>client_id = 0, client_node = 0, client_user = 0, client_name = clientName, client_enabled = False,
               credential = cred, client_created = 0\<rparr>)))))))))"

definition Create :: "'a node_world_scheme node_service \<Rightarrow> create_input \<Rightarrow> ('a node_world_scheme, node_view) io" where
  "Create s i = io_bind (choose_port s i) (\<lambda>i. io_bind (prepared_node s i) (\<lambda>(n, c).
     io_bind (io_map_error as_conflict (CreateNode (svc_sealer s) n c)) (\<lambda>created.
     reconciled s ''delete candidate node'' (DeleteNode (node_id created)) (Get s (node_id created)))))"

definition keep_reality :: "node \<Rightarrow> obj \<Rightarrow> obj" where
  "keep_reality previous st = (if protocolUsesReality (protocol previous)
     then obj_set ''short_id'' (obj_any (settings previous) ''short_id'')
       (obj_set ''public_key'' (obj_any (settings previous) ''public_key'') st) else st)"

definition changed_node :: "'a node_world_scheme node_service \<Rightarrow> node \<Rightarrow> update_input \<Rightarrow> ('a node_world_scheme, node) io" where
  "changed_node s previous i =
     io_bind (io_map_error validationError (prepareAutomaticCertificate (svc_certs s) (protocol previous) (ui_settings i))) (\<lambda>st.
     io_bind (io_map_error validationError (validateInput (tls (svc_certs s)) (protocol previous) (ui_listen i) (ui_port i) st (ui_confirm i))) (\<lambda>_.
     io_bind (io_map_error validationError (io_of (host_of_input (protocol previous) (ui_host i) st))) (\<lambda>host.
     let listenAt = defaultListen (ui_listen i)
     in io_bind (if ui_port i \<noteq> port previous \<or> listenAt \<noteq> listen previous \<or> (\<not> node_enabled previous \<and> ui_enabled i)
          then io_map_error conflictError (checkPort s (protocol previous) listenAt (ui_port i)) else io_return ()) (\<lambda>_.
        io_bind (with_expiry s (protocol previous) (keep_reality previous st)) (\<lambda>st.
        let candidate = previous\<lparr>node_name := trim_space (ui_name i), listen := listenAt, port := ui_port i, node_enabled := ui_enabled i,
              public_host_override := host, node_outbound := ui_outbound i, settings := st, node_status := ''pending''\<rparr>
        in if node_name candidate = [] then io_fail (validationError (Err ''name is required''))
           else io_bind (validateOutboundBinding s (node_outbound candidate) (node_enabled candidate)) (\<lambda>_. io_return candidate))))))"

definition updateLocked :: "'a node_world_scheme node_service \<Rightarrow> int \<Rightarrow> update_input \<Rightarrow> ('a node_world_scheme, node_view) io" where
  "updateLocked s i input = io_bind (Store_Node (svc_sealer s) i) (\<lambda>previous.
     io_bind (changed_node s previous input) (\<lambda>candidate.
     io_bind (io_map_error as_conflict (UpdateNode (svc_sealer s) candidate)) (\<lambda>_.
     reconciled s ''restore previous database node'' (UpdateNode (svc_sealer s) previous) (Get s i))))"

definition Update :: "'a node_world_scheme node_service \<Rightarrow> int \<Rightarrow> update_input \<Rightarrow> ('a node_world_scheme, node_view) io" where
  "Update s i input = updateLocked s i input"

definition Delete :: "'a node_world_scheme node_service \<Rightarrow> int \<Rightarrow> ('a node_world_scheme, unit) io" where
  "Delete s i = io_bind (Store_Node (svc_sealer s) i) (\<lambda>previous. io_bind (Clients (svc_sealer s) i) (\<lambda>cs.
     io_bind (DeleteNode i) (\<lambda>_.
     reconciled s ''restore deleted database node'' (RestoreNode (svc_sealer s) previous cs) (io_return ()))))"

definition confirms_public :: "node \<Rightarrow> bool" where
  "confirms_public n \<longleftrightarrow> protocol n = ProtocolSOCKS5 \<and> \<not> localListen (listen n)"

definition same_input :: "node \<Rightarrow> update_input" where
  "same_input n = \<lparr>ui_name = node_name n, ui_listen = listen n, ui_port = port n, ui_enabled = node_enabled n,
     ui_host = public_host_override n, ui_settings = settings n, ui_confirm = confirms_public n, ui_outbound = node_outbound n\<rparr>"

definition SetEnabled :: "'a node_world_scheme node_service \<Rightarrow> int \<Rightarrow> bool \<Rightarrow> ('a node_world_scheme, node_view) io" where
  "SetEnabled s i enabled = io_bind (Store_Node (svc_sealer s) i) (\<lambda>n. updateLocked s i ((same_input n)\<lparr>ui_enabled := enabled\<rparr>))"

definition Clone :: "'a node_world_scheme node_service \<Rightarrow> int \<Rightarrow> ('a node_world_scheme, node_view) io" where
  "Clone s i = io_bind (Store_Node (svc_sealer s) i) (\<lambda>n. Create s
     \<lparr>ci_name = node_name n @ '' copy'', ci_protocol = protocol n, ci_listen = listen n, ci_port = 0, ci_enabled = False,
      ci_client = [], ci_credential = [], ci_host = public_host_override n, ci_settings = settings n,
      ci_confirm = confirms_public n, ci_outbound = node_outbound n\<rparr>)"

definition temporary_settings :: "obj \<Rightarrow> string \<Rightarrow> int option \<Rightarrow> string \<Rightarrow> obj" where
  "temporary_settings st source expiry country =
     (let st = AList.delete TemporaryExpirySetting (set_string TemporarySourceSetting source st);
          st = (case expiry of None \<Rightarrow> st | Some t \<Rightarrow> set_string TemporaryExpirySetting (format_rfc3339 t) st);
          code = to_upper (trim_space country)
      in if code \<noteq> [] then set_string TemporaryCountrySetting code st else st)"

definition CloneTemporary :: "'a node_world_scheme node_service \<Rightarrow> int \<Rightarrow> string \<Rightarrow> int \<Rightarrow> int option \<Rightarrow> string \<Rightarrow> string \<Rightarrow>
    ('a node_world_scheme, node_view) io" where
  "CloneTemporary s i name outboundID expiry source country = io_bind (Store_Node (svc_sealer s) i) (\<lambda>n.
     let source = trim_space source
     in if source \<noteq> ''vpngate'' \<and> source \<noteq> ''manual'' then io_fail (validationError (Err ''temporary source must be vpngate or manual''))
        else io_bind (case expiry of None \<Rightarrow> io_return True | Some t \<Rightarrow> io_bind time_now (\<lambda>now. io_return (now < t))) (\<lambda>future.
          if \<not> future then io_fail (validationError (Err ''temporary node expiry must be in the future''))
          else Create s \<lparr>ci_name = name, ci_protocol = protocol n, ci_listen = listen n, ci_port = 0, ci_enabled = True,
             ci_client = ''default'', ci_credential = [], ci_host = public_host_override n,
             ci_settings = temporary_settings (settings n) source expiry country,
             ci_confirm = confirms_public n, ci_outbound = Some outboundID\<rparr>))"

definition expired :: "int \<Rightarrow> node \<Rightarrow> bool" where
  "expired now n \<longleftrightarrow> (case TemporaryExpiry n of None \<Rightarrow> False | Some t \<Rightarrow> TemporarySource n = ''vpngate'' \<and> t \<le> now)"

definition ExpireTemporary :: "'a node_world_scheme node_service \<Rightarrow> ('a node_world_scheme, unit) io" where
  "ExpireTemporary s = io_bind (ListNodes (svc_sealer s)) (\<lambda>ns. io_bind time_now (\<lambda>now.
     io_each (\<lambda>n. if \<not> expired now n then io_return ()
       else io_bind (Delete s (node_id n)) (\<lambda>_.
         noted ''info'' ''temporary_node_expired'' (node_name n) (io_return ()))) ns))"

fun normalize_loop :: "'a node_world_scheme node_service \<Rightarrow> int list \<Rightarrow> node list \<Rightarrow> ('a node_world_scheme, unit) io" where
  "normalize_loop s used [] = io_return ()"
| "normalize_loop s used (n # ns) =
     (if protocol n \<noteq> ProtocolVLESSWSTLS \<or> CloudflareHTTPSPort (port n) then normalize_loop s used ns
      else let used = removeAll (port n) used
           in io_bind (nextProtocolPort DefaultStartPort (protocol n) used (\<lambda>p. succeeds (checkPort s (protocol n) (listen n) p))) (\<lambda>p.
              io_bind (Update s (node_id n) ((same_input n)\<lparr>ui_name := renamed (node_name n) (port n) p, ui_port := p, ui_confirm := False\<rparr>)) (\<lambda>_.
              noted ''info'' ''websocket_port_migrated'' (renamed (node_name n) (port n) p) (normalize_loop s (p # used) ns))))"

definition NormalizeProtocolPorts :: "'a node_world_scheme node_service \<Rightarrow> ('a node_world_scheme, unit) io" where
  "NormalizeProtocolPorts s = io_bind (ListNodes (svc_sealer s)) (\<lambda>ns. normalize_loop s (map port ns) ns)"

section \<open>Clients\<close>

definition Service_Clients :: "'a node_world_scheme node_service \<Rightarrow> int \<Rightarrow> ('a node_world_scheme, client list) io" where
  "Service_Clients s i = io_bind (Store_Node (svc_sealer s) i) (\<lambda>_. Clients (svc_sealer s) i)"

definition AddClient :: "'a node_world_scheme node_service \<Rightarrow> int \<Rightarrow> string \<Rightarrow> ('a node_world_scheme, client) io" where
  "AddClient s i name = io_bind (Store_Node (svc_sealer s) i) (\<lambda>n.
     if trim_space name = [] then io_fail (validationError (Err ''client name is required''))
     else io_bind (generatedCredential (protocol n)) (\<lambda>cred.
       io_bind (CreateClient (svc_sealer s) \<lparr>client_id = 0, client_node = i, client_user = 1, client_name = trim_space name,
         client_enabled = True, credential = cred, client_created = 0\<rparr>) (\<lambda>c.
       reconciled s ''delete candidate client'' (DeleteClient i (client_id c)) (io_return c))))"

definition Service_UpdateClient :: "'a node_world_scheme node_service \<Rightarrow> int \<Rightarrow> int \<Rightarrow> string \<Rightarrow> bool \<Rightarrow> bool \<Rightarrow> ('a node_world_scheme, unit) io" where
  "Service_UpdateClient s i clientID name enabled reset = io_bind (Store_Node (svc_sealer s) i) (\<lambda>n.
     io_bind (Clients (svc_sealer s) i) (\<lambda>cs. case find (\<lambda>c. client_id c = clientID) cs of
         None \<Rightarrow> io_fail (notFoundError (Err ''client not found''))
       | Some previous \<Rightarrow>
           if trim_space name = [] then io_fail (validationError (Err ''client name is required''))
           else io_bind (if reset then generatedCredential (protocol n) else io_return (credential previous)) (\<lambda>cred.
             io_bind (UpdateClient (svc_sealer s) (previous\<lparr>client_name := trim_space name, client_enabled := enabled, credential := cred\<rparr>)) (\<lambda>_.
             reconciled s ''restore previous client'' (UpdateClient (svc_sealer s) previous) (io_return ())))))"

text \<open>The last client with the id is the one that is restored; an id of 0 counts as none.\<close>

definition Service_DeleteClient :: "'a node_world_scheme node_service \<Rightarrow> int \<Rightarrow> int \<Rightarrow> ('a node_world_scheme, unit) io" where
  "Service_DeleteClient s i clientID = io_bind (Clients (svc_sealer s) i) (\<lambda>cs.
     if length cs \<le> 1 then io_fail (problem_New Conflict ''last_client'' None)
     else case find (\<lambda>c. client_id c = clientID) (rev cs) of
         None \<Rightarrow> io_fail (notFoundError (Err ''client not found''))
       | Some previous \<Rightarrow> if client_id previous = 0 then io_fail (notFoundError (Err ''client not found''))
           else io_bind (DeleteClient i clientID) (\<lambda>_.
             reconciled s ''restore deleted client'' (RestoreClient (svc_sealer s) previous) (io_return ())))"

section \<open>The AI landing\<close>

record landing_input =
  li_enabled :: bool
  li_inbound :: int
  li_details :: string

record landing_view =
  lv_enabled :: bool
  lv_inbound :: int
  lv_configured :: bool

definition Landing_view :: "'a node_world_scheme node_service \<Rightarrow> ('a node_world_scheme, landing_view) io" where
  "Landing_view s = io_bind (loadLanding (svc_sealer s)) (\<lambda>(c, _).
     io_return \<lparr>lv_enabled = lc_enabled c, lv_inbound = lc_inbound c, lv_configured = (lc_uri c \<noteq> [])\<rparr>)"

text \<open>Saving a changed landing, with the restoration of the previous one.\<close>

definition change_landing :: "'a node_world_scheme node_service \<Rightarrow> string \<Rightarrow> landing_config \<times> bool \<Rightarrow> landing_config \<Rightarrow>
    ('a node_world_scheme, 'b) io \<Rightarrow> ('a node_world_scheme, 'b) io" where
  "change_landing s what old current k = io_bind (saveLanding (svc_sealer s) current) (\<lambda>_.
     reconciled s what (restoreLanding (svc_sealer s) (fst old) (snd old)) k)"

definition SetLanding :: "'a node_world_scheme node_service \<Rightarrow> landing_input \<Rightarrow> ('a node_world_scheme, landing_view) io" where
  "SetLanding s i = io_bind (loadLanding (svc_sealer s)) (\<lambda>old.
     if li_inbound i \<noteq> 0 then io_fail (validationError (Err ''reload the landing page to apply routing to all regular inbounds''))
     else io_bind (if trim_space (li_details i) \<noteq> [] then io_map_error validationError (io_of (landingDetailsURI (li_details i)))
         else io_return (lc_uri (fst old))) (\<lambda>uri.
       if li_enabled i \<and> uri = [] then io_fail (validationError (Err ''enabled landing requires six connection details''))
       else change_landing s ''restore previous landing'' old ((fst old)\<lparr>lc_enabled := li_enabled i, lc_inbound := 0, lc_uri := uri\<rparr>)
         (Landing_view s)))"

record rules_view =
  rv_source :: string
  rv_url :: string
  rv_updated :: string
  rv_base :: ai_domains
  rv_include :: "string list"
  rv_exclude :: "string list"

definition bundled_source :: string where
  "bundled_source = ''v2fly/domain-list-community category-ai-!cn @ bcea25493ed28c387660fe49ce1ceb242d2efca0 (bundled)''"

definition LandingRules :: "'a node_world_scheme node_service \<Rightarrow> ('a node_world_scheme, rules_view) io" where
  "LandingRules s = io_bind (loadLanding (svc_sealer s)) (\<lambda>(c, _). io_bind (io_of (svc_builtin s)) (\<lambda>builtin.
     io_return \<lparr>rv_source = (case lc_base c of None \<Rightarrow> bundled_source | Some _ \<Rightarrow> lc_hash c), rv_url = lc_source c,
       rv_updated = lc_updated c, rv_base = (case lc_base c of None \<Rightarrow> builtin | Some b \<Rightarrow> b),
       rv_include = strings_of (lc_include c), rv_exclude = strings_of (lc_exclude c)\<rparr>))"

definition UpdateLandingRuleSource :: "'a node_world_scheme node_service \<Rightarrow> (string \<Rightarrow> ('a node_world_scheme, ai_domains \<times> string) io) \<Rightarrow> string \<Rightarrow>
    ('a node_world_scheme, rules_view) io" where
  "UpdateLandingRuleSource s fetch sourceURL = (let source = trim_space sourceURL in
     io_bind (if source = [] then io_return (None, [], [])
       else io_bind (io_map_error validationError (fetch source)) (\<lambda>(base, digest). io_bind time_now (\<lambda>now.
         io_return (Some base, digest, format_rfc3339 now)))) (\<lambda>(base, h, updated).
     io_bind (loadLanding (svc_sealer s)) (\<lambda>old.
     change_landing s ''restore previous AI rule source'' old
       ((fst old)\<lparr>lc_source := source, lc_base := base, lc_hash := h, lc_updated := updated\<rparr>) (LandingRules s))))"

definition SetLandingRules :: "'a node_world_scheme node_service \<Rightarrow> string list \<Rightarrow> string list \<Rightarrow> ('a node_world_scheme, rules_view) io" where
  "SetLandingRules s include exclude =
     io_bind (io_map_error validationError (io_of (normalizeLandingDomains include))) (\<lambda>inc.
     io_bind (io_map_error validationError (io_of (normalizeLandingDomains exclude))) (\<lambda>exc.
     io_bind (loadLanding (svc_sealer s)) (\<lambda>old.
     change_landing s ''restore previous AI rules'' old ((fst old)\<lparr>lc_include := Some inc, lc_exclude := Some exc\<rparr>) (LandingRules s))))"

end
