(* ===== verification/NodeLaws.thy ===== *)
theory NodeLaws
  imports NodeHandlers StoreFrames
begin

text \<open>
  What the handlers of the node service promise over the database, the firewall, the engine and the residential
  runtime: a change of one node touches no other, and only expired nodes are removed.
\<close>

section \<open>Collaborators that leave the database alone\<close>

definition apart_manager :: "'a node_world_scheme manager \<Rightarrow> bool" where
  "apart_manager m \<longleftrightarrow> reads_only (mgr_backend m) \<and> (\<forall>p n. reads_only (mgr_ensure m p n)) \<and>
     (\<forall>p n b. reads_only (mgr_close m p n b))"

definition apart_engine :: "'a node_world_scheme engine_ifc \<Rightarrow> bool" where
  "apart_engine e \<longleftrightarrow> (\<forall>c ls. reads_only (eng_apply e c ls)) \<and> reads_only (eng_healthy e) \<and>
     (\<forall>ls. reads_only (eng_listeners e ls)) \<and> (\<forall>bulk ls. eng_bulk e = Some bulk \<longrightarrow> reads_only (bulk ls))"

definition apart_temporary :: "'a node_world_scheme temporary_ifc option \<Rightarrow> bool" where
  "apart_temporary o' \<longleftrightarrow> (\<forall>t. o' = Some t \<longrightarrow> (\<forall>ns. reads_only (tmp_reconcile t ns)) \<and> (\<forall>i. reads_only (tmp_healthy t i)) \<and>
     (\<forall>n. reads_only (tmp_listeners t n)))"

definition apart :: "'a node_world_scheme node_service \<Rightarrow> bool" where
  "apart s \<longleftrightarrow> apart_manager (svc_firewall s) \<and> apart_engine (svc_engine s) \<and> apart_temporary (svc_temporary s) \<and>
     (\<forall>ob. reads_only (svc_checker s ob)) \<and> (\<forall>network address. reads_only (svc_bind s network address)) \<and>
     (\<forall>t. reads_only (make_pair (tls (svc_certs s)) t))"

lemma apartD:
  assumes "apart s"
  shows "reads_only (mgr_backend (svc_firewall s))" "reads_only (mgr_ensure (svc_firewall s) p n)"
    "reads_only (mgr_close (svc_firewall s) p n b)" "reads_only (eng_apply (svc_engine s) c ls)"
    "reads_only (eng_healthy (svc_engine s))" "reads_only (eng_listeners (svc_engine s) ls)"
    "svc_temporary s = Some t \<Longrightarrow> reads_only (tmp_reconcile t ns)" "svc_temporary s = Some t \<Longrightarrow> reads_only (tmp_healthy t i)"
    "svc_temporary s = Some t \<Longrightarrow> reads_only (tmp_listeners t m)" "reads_only (svc_bind s network address)"
    "reads_only (make_pair (tls (svc_certs s)) tpl)" "reads_only (svc_checker s ob)"
  using assms unfolding apart_def apart_manager_def apart_engine_def apart_temporary_def by auto

lemma keeps_tables: "(\<And>w. tables (snd (m w)) = tables w) \<Longrightarrow> reads_only m"
  by (simp add: reads_only_def)

lemma attempt_reads: "(\<And>w. tables (snd (m w)) = tables w) \<Longrightarrow> reads_only (attempt m)"
  by (simp add: reads_only_def attempt_def ticked_def)

lemma put_file_tables [simp]: "tables (put_file p c w) = tables w"
  by (simp add: put_file_def)

lemma ticked_tables [simp]: "tables (ticked w) = tables w"
  by (simp add: ticked_def)

lemma reads_only_files [quiet_intro]:
  "reads_only (fs_read p)" "reads_only (fs_write p c)" "reads_only (fs_remove p)" "reads_only (fs_rename a b)"
  "reads_only (fs_create_temp stem)"
proof -
  show "reads_only (fs_read p)" unfolding fs_read_def by (rule attempt_reads) (simp split: option.split)
  show "reads_only (fs_write p c)" by (rule keeps_tables) (simp add: fs_write_def Let_def)
  show "reads_only (fs_remove p)" unfolding fs_remove_def by (rule attempt_reads) (simp split: option.split)
  show "reads_only (fs_rename a b)" unfolding fs_rename_def by (rule attempt_reads) (simp split: option.split)
  show "reads_only (fs_create_temp stem)" unfolding fs_create_temp_def by (rule attempt_reads) (simp split: option.split prod.split)
qed

lemma reads_only_node_files [quiet_intro]:
  "reads_only (set_mode p mode)" "reads_only (rename_moded a b :: ('a node_world_scheme, unit) io)" "reads_only (os_stat p)" "reads_only time_now"
proof -
  show "reads_only (set_mode p mode)" unfolding set_mode_def by (rule attempt_reads) simp
  show "reads_only (os_stat p)" unfolding os_stat_def by (rule attempt_reads) simp
  show "reads_only time_now" by (rule keeps_tables) (simp add: time_now_def)
  have "tables (snd (fs_rename a b w)) = tables w" for w :: "'a node_world_scheme"
    using reads_only_files(4) unfolding reads_only_def by blast
  then show "reads_only (rename_moded a b :: ('a node_world_scheme, unit) io)"
    by (intro keeps_tables) (auto simp: rename_moded_def split: prod.splits sum.splits dest!: arg_cong [of _ _ "tables \<circ> snd"])
qed

lemma reads_only_option [quiet_intro]:
  "(r = None \<Longrightarrow> reads_only m) \<Longrightarrow> (\<And>x. r = Some x \<Longrightarrow> reads_only (f x)) \<Longrightarrow>
     reads_only (case r of None \<Rightarrow> m | Some x \<Rightarrow> f x)"
  by (cases r) auto

lemma reads_only_pair [quiet_intro]: "(\<And>x y. p = (x, y) \<Longrightarrow> reads_only (f x y)) \<Longrightarrow> reads_only (case p of (x, y) \<Rightarrow> f x y)"
  by (cases p) simp

lemma reads_only_check [quiet_intro]: "reads_only (io_check r)" "reads_only (must_hold b e)"
  unfolding io_check_def must_hold_def by (intro quiet_intro)+

lemma reads_only_validate [quiet_intro]: "reads_only (validateCertificateSettings lib st)"
  unfolding validateCertificateSettings_def check_certificate_def check_key_def load_certificate_def Let_def
  by (intro quiet_intro)

lemma reads_only_auto [quiet_intro]: "apart s \<Longrightarrow> reads_only (prepareAutomaticCertificate (svc_certs s) proto st)"
  unfolding prepareAutomaticCertificate_def issued_usable_def regularFile_def ensureDemoCertificate_def writeFileAtomic_def
    Let_def
  by (intro quiet_intro) (auto simp: apartD)

lemma reads_only_inputs [quiet_intro]:
  "reads_only (validateInput lib proto l p st c)" "reads_only (certificateExpiration lib st)"
  unfolding validateInput_def certificateExpiration_def load_certificate_def Let_def by (intro quiet_intro)+

lemma reads_only_secrets [quiet_intro]:
  "reads_only (generatedCredential proto)" "reads_only (generatedValues x proto st)"
  unfolding generatedValues_def generatedCredential_def Secure.UUID_def RandomToken_def RandomHex_def Let_def
  by (intro quiet_intro)+

lemma reads_only_store [quiet_intro]:
  "reads_only (ListNodes blk)" "reads_only (ListOutbounds blk)" "reads_only (Clients blk i)" "reads_only (Store_Node blk i)"
  "reads_only (Store_Outbound blk i)" "reads_only ManagedFirewallRules" "reads_only (Setting k)" "reads_only (SecretSetting blk k)"
  "reads_only (loadLanding blk)" "reads_only startPort"
  unfolding ListNodes_def ListOutbounds_def Clients_def Store_Node_def Store_Outbound_def ManagedFirewallRules_def Setting_def
    SecretSetting_def loadLanding_def startPort_def
  by (intro quiet_intro)+

lemma reads_only_status [quiet_intro]: "apart s \<Longrightarrow> reads_only (Get s i)"
  unfolding Get_def node_healthy_def succeeds_def read_host_def
  by (intro quiet_intro) (auto simp: apartD split: option.splits bool.splits intro!: quiet_intro)

lemma reads_only_each [quiet_intro]: "(\<And>x. reads_only (f x)) \<Longrightarrow> reads_only (io_each f xs)"
  by (induction xs) (auto intro!: quiet_intro)

lemma reads_only_succeeds [quiet_intro]: "reads_only m \<Longrightarrow> reads_only (succeeds m)"
  unfolding succeeds_def by (intro quiet_intro)

lemma reads_only_port [quiet_intro]: "apart s \<Longrightarrow> reads_only (checkPort s proto l p)"
  unfolding checkPort_def checkNetworkPort_def by (intro quiet_intro) (auto simp: apartD)

lemma reads_only_free [quiet_intro]: "(\<And>p. reads_only (usable p)) \<Longrightarrow> reads_only (first_free_port used usable ps)"
  by (induction ps) (auto intro!: quiet_intro)

lemma reads_only_next [quiet_intro]:
  "(\<And>p. reads_only (usable p)) \<Longrightarrow> reads_only (nextProtocolPort start proto used usable)"
  "apart s \<Longrightarrow> reads_only (nextAvailablePort s proto l)"
  unfolding nextAvailablePort_def nextProtocolPort_def by (intro quiet_intro; assumption)+

lemma reads_only_choose [quiet_intro]: "apart s \<Longrightarrow> reads_only (choose_port s i)"
  unfolding choose_port_def by (intro quiet_intro)

lemma reads_only_binding [quiet_intro]: "reads_only (validateOutboundBinding s b e)"
  unfolding validateOutboundBinding_def by (intro quiet_intro)

lemma reads_only_expiry [quiet_intro]: "reads_only (with_expiry s proto st)"
  unfolding with_expiry_def by (intro quiet_intro)

lemma reads_only_prepared [quiet_intro]: "apart s \<Longrightarrow> reads_only (prepared_node s i)"
  unfolding prepared_node_def Let_def by (intro quiet_intro)

lemma reads_only_changed [quiet_intro]: "apart s \<Longrightarrow> reads_only (changed_node s previous i)"
  unfolding changed_node_def Let_def by (intro quiet_intro)

section \<open>Reconciling keeps the configuration\<close>

lemmas [frame_intro] = config.reads [OF reads_only_store(1)] config.reads [OF reads_only_store(2)]
  config.reads [OF reads_only_store(3)] config.reads [OF reads_only_store(6)] config.reads [OF reads_only_store(9)]

lemma config_noted [frame_intro]: "within same_config k \<Longrightarrow> within same_config (noted level code message k)"
  unfolding noted_def by (intro frame_intro)

lemma config_mark [frame_intro]: "within same_config mark_verified" "within same_config read_verified"
  by (simp_all add: within_def mark_verified_def read_verified_def config.frame_refl)

lemma config_syncFirewall [frame_intro]: "apart s \<Longrightarrow> within same_config (syncFirewall s ns)"
  unfolding syncFirewall_def close_stale_def ensure_rule_def leave_backend_def record_ensured_def
  by (intro frame_intro) (auto intro: config.reads apartD)

lemma config_runtime_items [frame_intro]: "within same_config (runtime_items s obs ns)"
  by (induction ns) (simp_all only: runtime_items.simps, (intro frame_intro; assumption)+)

lemma config_deploy [frame_intro]: "apart s \<Longrightarrow> within same_config (deploy s config its temps)"
  unfolding deploy_def by (intro frame_intro) (auto intro: config.reads apartD)

lemma config_reconcile [frame_intro]: "apart s \<Longrightarrow> within same_config (reconcile s)"
  unfolding reconcile_def by (intro frame_intro)

section \<open>Compensation within a frame\<close>

context frame
begin

lemma run_steps_in: "(\<And>what m. (what, m) \<in> set steps \<Longrightarrow> within R m) \<Longrightarrow> within R (run_steps steps)"
  by (induction steps rule: run_steps.induct) (auto intro!: return_in bind_in try_in)

lemma compensate_in:
  fixes steps :: "(string \<times> ('a db_scheme, unit) io) list"
  assumes "\<And>what m. (what, m) \<in> set steps \<Longrightarrow> within R m"
    and "\<And>level code message. within R (RecordEvent level code message :: ('a db_scheme, unit) io)"
  shows "within R (compensate e steps)"
  unfolding compensate_def noted_def
  by (intro bind_in within_if try_in return_in fail_in run_steps_in) (auto intro: assms)

lemma reconciled_in:
  fixes s :: "'a node_world_scheme node_service"
  assumes "within R (reconcile s)" and "within R restore" and "within R k"
    and "\<And>level code message. within R (RecordEvent level code message :: ('a node_world_scheme, unit) io)"
  shows "within R (reconciled s what restore k)"
  unfolding reconciled_def
  by (intro try_in within_sum compensate_in assms) (use assms in auto)

end

section \<open>A change of one node\<close>

lemma beside_reconciled [frame_intro]:
  assumes "apart s" and "within (same_beside i) restore" and "within (same_beside i) k"
  shows "within (same_beside i) (reconciled s what restore k)"
  by (rule beside.reconciled_in)
    (use assms in \<open>auto intro: within_config_beside config_reconcile config_RecordEvent\<close>)

lemmas [frame_intro] = beside.reads [OF reads_only_store(4)] beside.reads [OF reads_only_store(3)]

text \<open>The handlers that change the node \<open>i\<close> or one of its clients.\<close>

inductive node_change :: "'a node_world_scheme node_service \<Rightarrow> int \<Rightarrow> ('a node_world_scheme, unit) io \<Rightarrow> bool" for s i where
  "node_change s i (discard (Update s i input))"
| "node_change s i (discard (SetEnabled s i enabled))"
| "node_change s i (Delete s i)"
| "node_change s i (discard (AddClient s i name))"
| "node_change s i (Service_UpdateClient s i clientID name enabled reset)"
| "node_change s i (Service_DeleteClient s i clientID)"

lemma changed_node_id: "changed_node s previous input w = (Inr n, w') \<Longrightarrow> node_id n = node_id previous"
  unfolding changed_node_def Let_def by (auto elim!: io_bind_InrE split: if_splits)

lemma beside_updateLocked [frame_intro]: "apart s \<Longrightarrow> within (same_beside i) (updateLocked s i input)"
  unfolding updateLocked_def
  by (intro beside.bind_in beside.map_error_in beside_UpdateNode beside_reconciled beside.reads quiet_intro)
    (auto dest: Store_Node_id changed_node_id)

lemma find_Some_in: "find P xs = Some x \<Longrightarrow> x \<in> set xs"
  by (auto simp: find_Some_iff)

lemma node_change_beside: "node_change s i m \<Longrightarrow> apart s \<Longrightarrow> within (same_beside i) m"
proof (induction rule: node_change.induct)
  case (1 input)
  then show ?case unfolding discard_def Update_def by (intro frame_intro)
next
  case (2 enabled)
  then show ?case unfolding discard_def SetEnabled_def by (intro frame_intro)
next
  case 3
  then show ?case unfolding Delete_def
    by (intro beside.bind_in beside_reconciled frame_intro) (auto dest: Store_Node_id)
next
  case (4 name)
  then show ?case unfolding discard_def AddClient_def
    by (intro frame_intro) (auto intro: beside.reads quiet_intro)
next
  case (5 clientID name enabled reset)
  then show ?case unfolding Service_UpdateClient_def
    by (intro frame_intro) (auto intro: beside.reads quiet_intro dest: Clients_node find_Some_in)
next
  case (6 clientID)
  then show ?case unfolding Service_DeleteClient_def
    by (intro frame_intro) (auto dest!: find_Some_in intro: Clients_node)
qed

text \<open>C4: Updating, enabling or deleting a node and changing its clients leaves the rows of every other node and its
  clients as they were, and every table but the journal, whatever fails and however the change is compensated.\<close>

theorem change_touches_one_node:
  assumes "apart s" and "node_change s i m"
  shows "beside i (tables (snd (m w))) = beside i (tables w)"
  using node_change_beside [OF assms(2,1)] unfolding within_def same_beside_def by blast

section \<open>Expiry\<close>

definition own :: "int \<Rightarrow> tables \<Rightarrow> node_row list \<times> client_row list" where
  "own i t = (filter (\<lambda>r. nr_id r = i) (nodes t), filter (\<lambda>r. cr_node r = i) (node_clients t))"

definition same_own :: "int \<Rightarrow> tables \<Rightarrow> tables \<Rightarrow> bool" where
  "same_own i t u \<longleftrightarrow> own i u = own i t"

interpretation own: frame "same_own i" for i
  by unfold_locales (simp_all add: same_own_def)

lemma same_beside_own: "same_beside j t u \<Longrightarrow> i \<noteq> j \<Longrightarrow> same_own i t u"
proof -
  assume a: "same_beside j t u" and "i \<noteq> j"
  then have f: "filter (\<lambda>r. nr_id r = i) rs = filter (\<lambda>r. nr_id r = i) (filter (\<lambda>r. nr_id r \<noteq> j) rs)"
    "filter (\<lambda>r. cr_node r = i) cs = filter (\<lambda>r. cr_node r = i) (filter (\<lambda>r. cr_node r \<noteq> j) cs)" for rs cs
    unfolding filter_filter by (auto intro!: filter_cong)
  have "filter (\<lambda>r. nr_id r \<noteq> j) (nodes u) = filter (\<lambda>r. nr_id r \<noteq> j) (nodes t)"
    "filter (\<lambda>r. cr_node r \<noteq> j) (node_clients u) = filter (\<lambda>r. cr_node r \<noteq> j) (node_clients t)"
    using arg_cong [OF a [unfolded same_beside_def beside_def], of nodes]
      arg_cong [OF a [unfolded same_beside_def beside_def], of node_clients] by simp_all
  then show "same_own i t u"
    unfolding same_own_def own_def f(1) [of "nodes u"] f(1) [of "nodes t"] f(2) [of "node_clients u"] f(2) [of "node_clients t"]
    by (simp only:)
qed

lemma own_Delete: "apart s \<Longrightarrow> i \<noteq> j \<Longrightarrow> within (same_own i) (Delete s j)"
  using node_change_beside [OF node_change.intros(3)] unfolding within_def by (blast intro: same_beside_own)

lemma own_noted: "within (same_own i) (noted level code message (io_return ()))"
proof -
  have "same_own i t u" if "same_config t u" for t u
    using same_beside_own [OF same_config_beside [OF that], of i "i + 1"] by simp
  moreover have "within same_config (noted level code message (io_return ()))" by (intro frame_intro)
  ultimately show ?thesis unfolding within_def by blast
qed

lemma consistent_node_ids: "consistent t \<Longrightarrow> distinct (map nr_id (nodes t))"
  by (simp add: consistent_def uniques_def)

lemma same_key: "distinct (map f xs) \<Longrightarrow> x \<in> set xs \<Longrightarrow> y \<in> set xs \<Longrightarrow> f x = f y \<Longrightarrow> x = y"
  by (auto simp: distinct_map dest: inj_onD)

lemma ListNodes_Inr:
  assumes "ListNodes blk w = (Inr ns, w')"
  shows "list_all2 (\<lambda>r n. scanNode blk r = Inr n) (sort_key nr_id (nodes (tables w))) ns"
  using scan_all_Inr [OF query_rows_Inr [OF assms [unfolded ListNodes_def]]] .

lemma scanNode_id: "scanNode blk r = Inr n \<Longrightarrow> node_id n = nr_id r"
  by (auto simp: scanNode_def split: sum.split_asm)

lemma ListNodes_clock: "clock_at (snd (ListNodes blk w)) = clock_at w"
  by (simp add: ListNodes_def query_rows_def query_def fs_nop_def attempt_def ticked_def io_bind_def io_of_def
      split: sum.splits prod.splits)

text \<open>C21: Expiry removes no node, and none of its clients, unless the settings of the node name VPNGate as its
  source and hold a time that is not after the clock: a node with any other source, without a time that can be read,
  or with a time that the clock has not reached yet keeps its row and its clients, whatever fails on the way.\<close>

theorem expiry_spares_current_nodes:
  fixes w :: "'a node_world_scheme"
  assumes "apart s" and "consistent (tables w)" and "r \<in> set (nodes (tables w))" and "scanNode (svc_sealer s) r = Inr n"
    and "\<And>t k. trim_space (mapString (settings n) ''jui_temporary_source'') = ''vpngate'' \<Longrightarrow>
       parse_rfc3339 (trim_space (mapString (settings n) ''jui_temporary_expires_at'')) = Some t \<Longrightarrow> clock_at w k < t"
  shows "own (nr_id r) (tables (snd (ExpireTemporary s w))) = own (nr_id r) (tables w)"
proof -
  have current: "\<not> expired (clock_at w k) n" for k
  proof
    assume "expired (clock_at w k) n"
    then obtain t where "TemporaryExpiry n = Some t" "TemporarySource n = ''vpngate''" "t \<le> clock_at w k"
      by (auto simp: expired_def split: option.splits)
    with assms(5) [of t k] show False
      by (simp add: TemporaryExpiry_def TemporarySource_def TemporarySourceSetting_def TemporaryExpirySetting_def Let_def
          split: if_splits)
  qed
  obtain ns w1 where l: "ListNodes (svc_sealer s) w = (Inr ns, w1) \<or> (\<exists>e. ListNodes (svc_sealer s) w = (Inl e, w1))"
    by (cases "ListNodes (svc_sealer s) w"; cases "fst (ListNodes (svc_sealer s) w)") auto
  have t1: "tables w1 = tables w" using l reads_onlyD [OF reads_only_store(1)] by blast
  show ?thesis
  proof (cases "\<exists>e. ListNodes (svc_sealer s) w = (Inl e, w1)")
    case True
    then show ?thesis using t1 by (auto simp: ExpireTemporary_def)
  next
    case False
    then have l: "ListNodes (svc_sealer s) w = (Inr ns, w1)" using l by blast
    have c: "clock_at w1 = clock_at w" using ListNodes_clock [of "svc_sealer s" w] l by simp
    have other: "node_id m \<noteq> nr_id r" if "m \<in> set ns" and "expired (clock_at w k) m" for m k
    proof
      assume "node_id m = nr_id r"
      have "\<exists>q\<in>set (nodes (tables w)). scanNode (svc_sealer s) q = Inr m"
        using list_all2_in [OF ListNodes_Inr [OF l] that(1)] by simp
      then obtain q where "q \<in> set (nodes (tables w))" "scanNode (svc_sealer s) q = Inr m" by blast
      moreover have "nr_id q = nr_id r" using scanNode_id [of "svc_sealer s" q m] \<open>node_id m = nr_id r\<close> calculation(2) by simp
      ultimately have "q = r" using same_key [of nr_id "nodes (tables w)"] assms(2,3) consistent_node_ids by blast
      with assms(4) current \<open>scanNode (svc_sealer s) q = Inr m\<close> that(2) show False by simp
    qed
    obtain now w2 where n: "time_now w1 = (Inr now, w2)" "now = clock_at w (calls w1)" "tables w2 = tables w"
      using c t1 by (simp add: time_now_def ticked_def)
    have "within (same_own (nr_id r)) (io_each (\<lambda>n. if \<not> expired now n then io_return ()
       else io_bind (Delete s (node_id n)) (\<lambda>_. noted ''info'' ''temporary_node_expired'' (node_name n) (io_return ()))) ns)"
    proof (rule own.each_in)
      fix m
      assume "m \<in> set ns"
      then show "within (same_own (nr_id r)) (if \<not> expired now m then io_return ()
         else io_bind (Delete s (node_id m)) (\<lambda>_. noted ''info'' ''temporary_node_expired'' (node_name m) (io_return ())))"
        using other [of m] n(2) by (auto intro!: own.return_in own.bind_in own_noted own_Delete [OF assms(1)])
    qed
    from withinD [OF this] show ?thesis
      using l n unfolding ExpireTemporary_def same_own_def by (simp add: prod_eq_iff)
  qed
qed

section \<open>A concrete service\<close>

definition demo_engine_ifc :: "'w engine_ifc" where
  "demo_engine_ifc = \<lparr>eng_apply = (\<lambda>_ _. io_return ()), eng_healthy = io_return True, eng_listeners = (\<lambda>_. io_return ()), eng_bulk = None\<rparr>"

definition demo_tls :: "'w tls_library" where
  "demo_tls = \<lparr>pem_decode = Some, pem_encode = (\<lambda>_ s. s), parse_certificate = (\<lambda>_. Inl (Err ''no'')), parse_pkcs8 = (\<lambda>_. Inr None),
     parse_pkcs1 = (\<lambda>_. Inl (Err ''no'')), parse_ec = (\<lambda>_. Inl (Err ''no'')), make_pair = (\<lambda>_. io_return ([], [])), file_digest = id\<rparr>"

definition demo_service :: "node_world node_service" where
  "demo_service = \<lparr>svc_sealer = id, svc_engine = demo_engine_ifc, svc_firewall = Mock, svc_temporary = None,
     svc_checker = (\<lambda>_. io_fail (Err ''unreachable'')), svc_certs = \<lparr>tls = demo_tls, certificateDir = [], allowSelfSigned = False\<rparr>,
     svc_bind = (\<lambda>_ _. io_return ()), svc_builtin = Inl (Err ''no rules''), svc_x25519 = id\<rparr>"

lemma demo_apart: "apart demo_service"
  by (simp add: apart_def apart_manager_def apart_engine_def apart_temporary_def demo_service_def demo_engine_ifc_def demo_tls_def
      Mock_def quiet_intro)

definition node_demo :: node_world where
  "node_demo = db.extend (demo_world demo_rows) \<lparr>modes = (\<lambda>_. (True, 0)), firewallVerified = False\<rparr>"

lemma node_demo_tables [simp]: "tables node_demo = demo_rows"
  by (simp add: node_demo_def db.defs demo_world_def host.defs)

theorem change_touches_one_node_witness:
  "beside 1 (tables (snd (Delete demo_service 1 node_demo))) = beside 1 demo_rows"
  using change_touches_one_node [OF demo_apart node_change.intros(3), of 1 node_demo] by simp

text \<open>A residential node that ends in 2030, at a time that stands still in 1970.\<close>

definition demo_sealed :: string where
  "demo_sealed = raw_url_encode (replicate 12 zero_byte @ gcm_seal id (replicate 12 zero_byte) ''{}'')"

definition rented_row :: node_row where
  "rented_row = (demo_row 3 9000 ''trojan_tls'' None)\<lparr>nr_secret := demo_sealed,
     nr_settings := ''{\"jui_temporary_expires_at\":\"2030-01-01T00:00:00Z\",\"jui_temporary_source\":\"vpngate\"}''\<rparr>"

definition rented_node :: node where
  "rented_node = \<lparr>node_id = 3, node_name = ''n'', protocol = ''trojan_tls'', listen = ''::'', port = 9000, node_enabled = True,
     public_host_override = [], node_outbound = None, settings = [(''jui_temporary_expires_at'', JStr ''2030-01-01T00:00:00Z''),
       (''jui_temporary_source'', JStr ''vpngate'')], secret = [], node_status = ''applied'', node_created = 0, node_updated = 0\<rparr>"

definition rented_demo :: node_world where
  "rented_demo = node_demo\<lparr>tables := empty_tables\<lparr>nodes := [rented_row]\<rparr>, clock_at := (\<lambda>_. 0)\<rparr>"

lemma rented_scan: "scanNode id rented_row = Inr rented_node"
proof -
  have "Open id demo_sealed = Inr ''{}''" unfolding demo_sealed_def by (rule Open_sealed) (simp add: nonce_size_def)
  moreover have "unmarshal_map ''{}'' = Inr []" by code_simp
  moreover have "unmarshal_map (nr_settings rented_row) = Inr (settings rented_node)"
    unfolding rented_row_def rented_node_def by (simp only: node_row.simps node.simps) code_simp
  ultimately show ?thesis by (simp add: scanNode_def rented_row_def rented_node_def demo_row_def)
qed

lemma rented_consistent: "consistent (empty_tables\<lparr>nodes := [rented_row]\<rparr>)"
  by (simp add: consistent_def checks_def uniques_def references_def empty_tables_def rented_row_def demo_row_def)

theorem expiry_spares_current_nodes_witness:
  "own 3 (tables (snd (ExpireTemporary demo_service rented_demo))) = ([rented_row], [])"
proof -
  have t: "tables rented_demo = empty_tables\<lparr>nodes := [rented_row]\<rparr>" "clock_at rented_demo = (\<lambda>_. 0)"
    by (simp_all add: rented_demo_def)
  have e: "parse_rfc3339 (trim_space (mapString (settings rented_node) ''jui_temporary_expires_at'')) = Some 1893456000000000000"
    by code_simp
  have "own (nr_id rented_row) (tables (snd (ExpireTemporary demo_service rented_demo))) = own (nr_id rented_row) (tables rented_demo)"
  proof (rule expiry_spares_current_nodes [OF demo_apart])
    fix x k
    assume "parse_rfc3339 (trim_space (mapString (settings rented_node) ''jui_temporary_expires_at'')) = Some x"
    then show "clock_at rented_demo k < x" unfolding e t by simp
  qed (simp_all add: t rented_consistent demo_service_def rented_scan)
  moreover have "nr_id rented_row = 3" by (simp add: rented_row_def demo_row_def)
  ultimately show ?thesis by (simp add: t own_def empty_tables_def)
qed

end
