(* ===== verification/NodeRollback.thy ===== *)
theory NodeRollback
  imports NodeLaws
begin

text \<open>
  What a failed handler leaves behind: a node or a client whose creation fails is gone again, unless the
  compensation itself failed (and says so) or the creation succeeded and only reading it back failed.
\<close>

section \<open>Compensation that undoes\<close>

definition rollback_incomplete :: "error \<Rightarrow> bool" where
  "rollback_incomplete e \<longleftrightarrow> (case e of Join (_ # Wrap _ _ # _) \<Rightarrow> True | _ \<Rightarrow> False)"

lemma compensate_Inl:
  assumes "compensate x [(a, m1), (b, m2)] v = (Inl e, w')"
  shows "rollback_incomplete e \<or> (\<exists>v1. m1 v = (Inr (), v1) \<and> m2 v1 = (Inr (), w') \<and> e = x)"
proof -
  obtain r1 v1 where 1: "m1 v = (r1, v1)" by (cases "m1 v")
  obtain r2 v2 where 2: "m2 v1 = (r2, v2)" by (cases "m2 v1")
  show ?thesis using assms 1 2
    by (cases r1; cases r2) (auto simp: compensate_def noted_def io_bind_def io_try_def rollback_incomplete_def split: prod.splits)
qed

lemma reconciled_undone:
  fixes s :: "'a node_world_scheme node_service" and k :: "('a node_world_scheme, 'b) io"
  assumes "apart s" and e: "reconciled s what restore k w = (Inl e, w')"
    and undo: "\<And>v v'. durable (tables v) = durable (tables w) \<Longrightarrow> restore v = (Inr (), v') \<Longrightarrow> durable (tables v') = D"
  shows "durable (tables w') = D \<or> rollback_incomplete e \<or> (\<exists>v. reconcile s w = (Inr (), v) \<and> k v = (Inl e, w'))"
proof -
  have keep: "durable (tables v') = durable (tables v)" if "reconcile s v = (r, v')" for v v' r
    using withinD [OF config_reconcile [OF assms(1)] that] by (simp add: same_config_def)
  obtain r v where rec: "reconcile s w = (r, v)" by (cases "reconcile s w")
  show ?thesis
  proof (cases r)
    case (Inr u)
    then show ?thesis using rec e by (simp add: reconciled_def)
  next
    case (Inl x)
    then have "compensate x [(what, restore), (''restore previous sing-box configuration'', reconcile s)] v = (Inl e :: error + 'b, w')"
      using rec e by (simp add: reconciled_def)
    then consider "rollback_incomplete e" | v1 where "restore v = (Inr (), v1)" "reconcile s v1 = (Inr (), w')"
      using compensate_Inl by blast
    then show ?thesis
    proof cases
      case (2 v1)
      then have "durable (tables v1) = D" using undo keep [OF rec] by blast
      then show ?thesis using keep [OF 2(2)] by simp
    qed blast
  qed
qed

section \<open>Creating and deleting\<close>

lemma CreateNode_tables:
  fixes w w' :: "'a db_scheme"
  assumes "CreateNode blk n c w = (Inr n', w')"
  shows "\<exists>r q. tables w' = (tables w)\<lparr>nodes := nodes (tables w) @ [r], node_clients := node_clients (tables w) @ [q]\<rparr> \<and>
    nr_id r = node_id n' \<and> cr_node q = node_id n' \<and> node_id n' \<notin> nr_id ` set (nodes (tables w))"
proof -
  obtain sj se ce and w1 w2 :: "'a db_scheme" where 1: "encodeNode blk n w = (Inr (sj, se), w1)" "encryptJSON blk (credential c) w1 = (Inr ce, w2)"
    and t: "transaction (committed (add_node n sj se (client_name c) ce)) w2 = (Inr n', w')"
    using assms unfolding CreateNode_def by (auto elim!: io_bind_InrE)
  from t obtain w3 w4 :: "'a db_scheme" where e: "tables w3 = tables w2" "add_node n sj se (client_name c) ce w3 = (Inr n', w4)" "tables w' = tables w4"
    by (rule committed_InrE)
  from e(2) obtain now w5 i w6 u where a: "unix_now w3 = (Inr now, w5)"
    and b: "statement (\<lambda>t. insert_node (node_row_of n sj se (next_rowid (map nr_id (nodes t))) now now) t) w5 = (Inr i, w6)"
    and d: "statement (\<lambda>t. insert_client (new_client_row i (client_name c) ce now t) t) w6 = (Inr u, w4)"
    and n': "n' = n\<lparr>node_id := i, node_created := now, node_updated := now\<rparr>"
    by (auto simp: add_node_def elim!: io_bind_InrE dest!: map_error_Inr)
  have t5: "tables w5 = tables w"
    using reads_onlyD [OF reads_only_now a] e(1) reads_onlyD [OF reads_only_encode 1(1)] reads_onlyD [OF reads_only_encrypt 1(2)] by simp
  define i0 where "i0 = next_rowid (map nr_id (nodes (tables w)))"
  have i: "i = i0" and t6: "tables w6 = (tables w)\<lparr>nodes := nodes (tables w) @ [node_row_of n sj se i0 now now]\<rparr>"
    using statement_tables(1,2) [OF b] t5 by (simp_all add: insert_node_def node_row_of_def i0_def)
  have "tables w' = (tables w6)\<lparr>node_clients := node_clients (tables w6) @ [new_client_row i (client_name c) ce now (tables w6)]\<rparr>"
    using statement_tables(1) [OF d] e(3) by (simp add: insert_client_def)
  moreover have "i0 \<notin> nr_id ` set (nodes (tables w))" using next_rowid_fresh [of "map nr_id (nodes (tables w))"] by (simp add: i0_def)
  ultimately show ?thesis using t6 i n'
    by (intro exI [of _ "node_row_of n sj se i0 now now"] exI [of _ "new_client_row i (client_name c) ce now (tables w6)"])
      (simp add: node_row_of_def new_client_row_def)
qed

lemma durable_delete: "durable (snd (delete_node i t)) = snd (delete_node i (durable t))"
  by (simp add: durable_def delete_node_def delete_nodes_def)

lemma DeleteNode_durable:
  "DeleteNode i v = (Inr (), v') \<Longrightarrow> durable (tables v') = snd (delete_node i (durable (tables v)))"
  by (auto simp: DeleteNode_def affected_row_def durable_delete [symmetric] elim!: io_bind_InrE dest!: statement_tables(1) split: if_splits)

lemma filter_fresh: "i \<notin> f ` set xs \<Longrightarrow> filter (\<lambda>x. f x \<noteq> i) xs = xs" "i \<notin> f ` set xs \<Longrightarrow> filter (\<lambda>x. f x = i) xs = []"
  by (auto intro!: filter_True simp: filter_empty_conv)

lemma delete_created:
  assumes "references t" and "i \<notin> nr_id ` set (nodes t)" and "nr_id r = i" and "cr_node q = i"
  shows "snd (delete_node i (durable (t\<lparr>nodes := nodes t @ [r], node_clients := node_clients t @ [q]\<rparr>))) = durable t"
proof -
  have "i \<notin> cr_node ` set (node_clients t)" using assms(1,2) by (auto simp: references_def list_all_iff)
  then show ?thesis using assms
    by (simp add: delete_node_def delete_nodes_def durable_def filter_fresh)
qed

section \<open>A failed creation leaves no trace\<close>

inductive creation :: "'a node_world_scheme node_service \<Rightarrow> ('a node_world_scheme, unit) io \<Rightarrow> bool" for s where
  "creation s (discard (Create s input))"
| "creation s (discard (AddClient s i name))"

text \<open>The reconciliation went through and the node could not be read back.\<close>

definition created_but_unread :: "'a node_world_scheme node_service \<Rightarrow> error \<Rightarrow> 'a node_world_scheme \<Rightarrow> bool" where
  "created_but_unread s e w' \<longleftrightarrow> (\<exists>j v0 v. reconcile s v0 = (Inr (), v) \<and> Get s j v = (Inl e, w'))"

lemma io_bind_InlE:
  assumes "io_bind m f w = (Inl e, w'')"
  obtains "m w = (Inl e, w'')" | x w' where "m w = (Inr x, w')" and "f x w' = (Inl e, w'')"
  using assms by (auto simp: io_bind_def split: prod.splits sum.splits)

lemma map_error_Inl: "io_map_error g m w = (Inl e, w') \<Longrightarrow> \<exists>e'. m w = (Inl e', w')"
  by (auto simp: io_map_error_def io_try_def split: prod.splits sum.splits)

lemma failed_Create:
  fixes w :: "'a node_world_scheme"
  assumes "apart s" and "consistent (tables w)" and "Create s input w = (Inl e, w')"
  shows "durable (tables w') = durable (tables w) \<or> rollback_incomplete e \<or> created_but_unread s e w'"
proof -
  note choose = reads_onlyD [OF reads_only_choose [OF assms(1)]] and prepare = reads_onlyD [OF reads_only_prepared [OF assms(1)]]
  from assms(3) consider (chosen) "choose_port s input w = (Inl e, w')"
    | (prepared) i w1 where "choose_port s input w = (Inr i, w1)" "prepared_node s i w1 = (Inl e, w')"
    | (refused) i w1 n c w2 where "choose_port s input w = (Inr i, w1)" "prepared_node s i w1 = (Inr (n, c), w2)"
      "io_map_error as_conflict (CreateNode (svc_sealer s) n c) w2 = (Inl e, w')"
    | (made) i w1 n c w2 created w3 where "choose_port s input w = (Inr i, w1)" "prepared_node s i w1 = (Inr (n, c), w2)"
      "io_map_error as_conflict (CreateNode (svc_sealer s) n c) w2 = (Inr created, w3)"
      "reconciled s ''delete candidate node'' (DeleteNode (node_id created)) (Get s (node_id created)) w3 = (Inl e, w')"
    unfolding Create_def by (auto elim!: io_bind_InlE)
  then show ?thesis
  proof cases
    case chosen
    then show ?thesis using choose by metis
  next
    case prepared
    then show ?thesis using choose prepare by metis
  next
    case (refused i w1 n c w2)
    have 2: "tables w2 = tables w" using choose [OF refused(1)] prepare [OF refused(2)] by simp
    obtain e' where "CreateNode (svc_sealer s) n c w2 = (Inl e', w')" using map_error_Inl [OF refused(3)] by auto
    then have "discard (CreateNode (svc_sealer s) n c) w2 = (Inl e', w')" by (simp add: discard_def)
    then have "tables w' = tables w2"
      using atomicD [OF single_write_atomic [OF single_write.intros(16)]] assms(2) 2 by metis
    then show ?thesis using 2 by simp
  next
    case (made i w1 n c w2 created w3)
    have 3: "tables w2 = tables w" using choose [OF made(1)] prepare [OF made(2)] by simp
    obtain r q where t: "tables w3 = (tables w2)\<lparr>nodes := nodes (tables w2) @ [r], node_clients := node_clients (tables w2) @ [q]\<rparr>"
      "nr_id r = node_id created" "cr_node q = node_id created" "node_id created \<notin> nr_id ` set (nodes (tables w2))"
      using CreateNode_tables [OF map_error_Inr [OF made(3)]] by blast
    have "references (tables w2)" using assms(2) 3 by (simp add: consistent_def)
    from delete_created [OF this t(4,2,3)]
    have undo: "durable (tables v') = durable (tables w)"
      if "durable (tables v) = durable (tables w3)" "DeleteNode (node_id created) v = (Inr (), v')" for v v' :: "'a node_world_scheme"
      using DeleteNode_durable [OF that(2)] that(1) t(1) 3 by simp
    have "durable (tables w') = durable (tables w) \<or> rollback_incomplete e \<or>
        (\<exists>v. reconcile s w3 = (Inr (), v) \<and> Get s (node_id created) v = (Inl e, w'))"
      by (rule reconciled_undone [OF assms(1) made(4)]) (rule undo)
    then show ?thesis unfolding created_but_unread_def by blast
  qed
qed

lemma CreateClient_tables:
  fixes w w' :: "'a db_scheme"
  assumes "CreateClient blk c w = (Inr c', w')"
  shows "\<exists>q. tables w' = (tables w)\<lparr>node_clients := node_clients (tables w) @ [q]\<rparr> \<and> cr_id q = client_id c' \<and>
    cr_node q = client_node c \<and> client_id c' \<notin> cr_id ` set (node_clients (tables w))"
proof -
  obtain ce now i and w1 w2 :: "'a db_scheme" where 1: "encryptJSON blk (credential c) w = (Inr ce, w1)" "unix_now w1 = (Inr now, w2)"
    and b: "statement (\<lambda>t. insert_client (new_client_row (client_node c) (client_name c) ce now t) t) w2 = (Inr i, w')"
    and c': "c' = c\<lparr>client_id := i, client_created := now\<rparr>"
    using assms unfolding CreateClient_def by (auto elim!: io_bind_InrE)
  have t: "tables w2 = tables w" using reads_onlyD [OF reads_only_encrypt 1(1)] reads_onlyD [OF reads_only_now 1(2)] by simp
  show ?thesis
    using statement_tables(1,2) [OF b] t c' next_rowid_fresh [of "map cr_id (node_clients (tables w))"]
    by (intro exI [of _ "new_client_row (client_node c) (client_name c) ce now (tables w)"])
      (simp add: insert_client_def new_client_row_def)
qed

lemma DeleteClient_durable:
  "DeleteClient i j v = (Inr (), v') \<Longrightarrow> durable (tables v') = (durable (tables v))\<lparr>node_clients :=
     filter (\<lambda>r. \<not> (cr_id r = j \<and> cr_node r = i)) (node_clients (durable (tables v)))\<rparr>"
  by (auto simp: DeleteClient_def Let_def affected_row_def durable_def elim!: io_bind_InrE dest!: statement_tables(1) split: if_splits)

lemma failed_AddClient:
  fixes w :: "'a node_world_scheme"
  assumes "apart s" and "consistent (tables w)" and "AddClient s i name w = (Inl e, w')"
  shows "durable (tables w') = durable (tables w) \<or> rollback_incomplete e"
proof -
  note node = reads_onlyD [OF reads_only_store(4)] and cred = reads_onlyD [OF reads_only_secrets(1)]
  let ?c = "\<lambda>cred. \<lparr>client_id = 0, client_node = i, client_user = 1, client_name = trim_space name, client_enabled = True,
    credential = cred, client_created = 0\<rparr>"
  from assms(3) consider (unread) "Store_Node (svc_sealer s) i w = (Inl e, w')" | (unnamed) n where "Store_Node (svc_sealer s) i w = (Inr n, w')"
    | (drawn) n w1 where "Store_Node (svc_sealer s) i w = (Inr n, w1)" "generatedCredential (protocol n) w1 = (Inl e, w')"
    | (denied) n w1 cr w2 where "Store_Node (svc_sealer s) i w = (Inr n, w1)" "generatedCredential (protocol n) w1 = (Inr cr, w2)"
      "CreateClient (svc_sealer s) (?c cr) w2 = (Inl e, w')"
    | (added) n w1 cr w2 created w3 where "Store_Node (svc_sealer s) i w = (Inr n, w1)" "generatedCredential (protocol n) w1 = (Inr cr, w2)"
      "CreateClient (svc_sealer s) (?c cr) w2 = (Inr created, w3)"
      "reconciled s ''delete candidate client'' (DeleteClient i (client_id created)) (io_return created) w3 = (Inl e, w')"
    unfolding AddClient_def by (auto elim!: io_bind_InlE split: if_splits)
  then consider (unread) "tables w' = tables w"
    | (refused) c w2 where "tables w2 = tables w" "CreateClient (svc_sealer s) c w2 = (Inl e, w')"
    | (made) c w2 created w3 where "tables w2 = tables w" "client_node c = i" "CreateClient (svc_sealer s) c w2 = (Inr created, w3)"
      "reconciled s ''delete candidate client'' (DeleteClient i (client_id created)) (io_return created) w3 = (Inl e, w')"
  proof cases
    case (denied n w1 cr w2)
    have "tables w2 = tables w" using node [OF denied(1)] cred [OF denied(2)] by simp
    with denied(3) show ?thesis by (rule that(2) [rotated])
  next
    case (added n w1 cr w2 created w3)
    have "tables w2 = tables w" using node [OF added(1)] cred [OF added(2)] by simp
    from that(3) [OF this _ added(3,4)] show ?thesis by simp
  next
    case (drawn n w1)
    have "tables w' = tables w" using node [OF drawn(1)] cred [OF drawn(2)] by simp
    then show ?thesis by (rule that(1))
  qed (auto dest: node intro: that(1))
  then show ?thesis
  proof cases
    case (refused c w2)
    then have "discard (CreateClient (svc_sealer s) c) w2 = (Inl e, w')" by (simp add: discard_def)
    then have "tables w' = tables w2"
      using atomicD [OF single_write_atomic [OF single_write.intros(20)]] assms(2) refused(1) by metis
    then show ?thesis using refused(1) by simp
  next
    case (made c w2 created w3)
    obtain q where t: "tables w3 = (tables w2)\<lparr>node_clients := node_clients (tables w2) @ [q]\<rparr>" "cr_id q = client_id created"
      "cr_node q = i" "client_id created \<notin> cr_id ` set (node_clients (tables w2))"
      using CreateClient_tables [OF made(3)] made(2) by auto
    have F: "filter (\<lambda>r. cr_id r = client_id created \<longrightarrow> cr_node r \<noteq> i) (node_clients (tables w) @ [q]) = node_clients (tables w)"
      using t(2,3,4) made(1) by (auto intro!: filter_True) (metis imageI)
    have D: "durable (tables w3) = (durable (tables w))\<lparr>node_clients := node_clients (tables w2) @ [q]\<rparr>"
      using t(1) made(1) by (simp add: durable_def)
    have undo: "durable (tables v') = durable (tables w)"
      if "durable (tables v) = durable (tables w3)" "DeleteClient i (client_id created) v = (Inr (), v')" for v v' :: "'a node_world_scheme"
      using DeleteClient_durable [OF that(2)] unfolding that(1) D
      by (simp add: F made(1) durable_def del: filter_append)
    have "durable (tables w') = durable (tables w) \<or> rollback_incomplete e \<or>
        (\<exists>v. reconcile s w3 = (Inr (), v) \<and> io_return created v = (Inl e :: error + client, w'))"
      by (rule reconciled_undone [OF assms(1) made(4)]) (rule undo)
    then show ?thesis by simp
  qed simp
qed

text \<open>C3: A node or a client whose creation is reported as failed is gone from the database with everything that
  belongs to it, unless the error names the steps of the compensation that failed, or the creation was applied
  and only reading the node back failed.\<close>

theorem failed_creation_leaves_no_trace:
  fixes w :: "'a node_world_scheme"
  assumes "apart s" and "consistent (tables w)" and "creation s m" and "m w = (Inl e, w')"
  shows "durable (tables w') = durable (tables w) \<or> rollback_incomplete e \<or> created_but_unread s e w'"
  using assms(3)
proof cases
  case (1 input)
  then have "Create s input w = (Inl e, w')" using failed_discard [of "Create s input" w e w'] assms(4) by simp
  then show ?thesis using failed_Create [OF assms(1,2)] by simp
next
  case (2 i name)
  then have "AddClient s i name w = (Inl e, w')" using failed_discard [of "AddClient s i name" w e w'] assms(4) by simp
  then show ?thesis using failed_AddClient [OF assms(1,2), of i name e w'] by blast
qed

text \<open>An engine that refuses every configuration.\<close>

definition broken_service :: "node_world node_service" where
  "broken_service = demo_service\<lparr>svc_engine := demo_engine_ifc\<lparr>eng_apply := (\<lambda>_ _. io_fail (Err ''refused''))\<rparr>\<rparr>"

lemma broken_apart: "apart broken_service"
  using demo_apart unfolding apart_def broken_service_def apart_engine_def by (simp add: demo_service_def demo_engine_ifc_def quiet_intro)

definition socks_input :: create_input where
  "socks_input = \<lparr>ci_name = ''n'', ci_protocol = ''socks5'', ci_listen = ''127.0.0.1'', ci_port = 9000, ci_enabled = False, ci_client = [],
     ci_credential = [], ci_host = [], ci_settings = [], ci_confirm = False, ci_outbound = None\<rparr>"

theorem failed_creation_leaves_no_trace_witness:
  "\<exists>e w'. discard (Create broken_service socks_input) node_demo = (Inl e, w') \<and>
     (durable (tables w') = durable demo_rows \<or> rollback_incomplete e \<or> created_but_unread broken_service e w')"
proof -
  have "\<not> SupportedProtocol ''socks5''" by code_simp
  then have "isl (fst (discard (Create broken_service socks_input) node_demo))"
    by (simp add: discard_def Create_def choose_port_def socks_input_def prepared_node_def prepareAutomaticCertificate_def
        protocolRequiresCertificate_def protocol_defs validateInput_def io_map_error_def io_try_def io_bind_def)
  then obtain e w' where c: "discard (Create broken_service socks_input) node_demo = (Inl e, w')"
    by (cases "discard (Create broken_service socks_input) node_demo") (auto simp: isl_def)
  from failed_creation_leaves_no_trace [OF broken_apart _ creation.intros(1) c] c show ?thesis
    by (simp add: demo_rows_consistent)
qed

end
