(* ===== verification/NodeDemo.thy ===== *)
theory NodeDemo
  imports NodeLaws
begin

text \<open>
  Without a fault the reconciliation of a service without nodes succeeds; the witnesses of the theorems about
  successful handlers run on such a service.
\<close>

section \<open>Reading without a fault\<close>

lemma calm_simps [simp]:
  "calm (ticked u) = calm u" "calm (w\<lparr>firewallVerified := b\<rparr>) = calm w" "calm (v\<lparr>tables := t\<rparr>) = calm v"
  by (simp_all add: calm_def ticked_def)

lemma query_calm: "calm w \<Longrightarrow> query f w = (Inr (f (tables w)), ticked w)"
  by (simp add: query_def attempt_def calm_def ticked_def)

lemma nop_calm: "calm w \<Longrightarrow> fs_nop w = (Inr (), ticked w)"
  by (simp add: fs_nop_def attempt_def calm_def)

lemma rows_calm: "calm w \<Longrightarrow> f (tables w) = [] \<Longrightarrow> query_rows f g w = (Inr [], ticked (ticked w))"
  by (simp add: query_rows_def query_calm nop_calm io_bind_def io_of_def)

lemma add_version_calm:
  fixes w :: "'a db_scheme"
  assumes "calm w" and "consistent (tables w)" and "config_versions (tables w) = []"
  shows "\<exists>w'. add_version blk config healthy w = (Inr (), w') \<and> calm w'"
proof -
  obtain t w1 where 1: "Seal blk config w = (Inr t, w1)" "calm w1" "tables w1 = tables w" using Seal_calm [OF assms(1)] by blast
  let ?now = "unix_seconds (clock_at w1 (calls w1))"
  have c2: "consistent (insert_version t healthy ?now (tables w))" and c3: "consistent (prune_versions (insert_version t healthy ?now (tables w)))"
    using assms(2,3) by (simp_all add: insert_version_def prune_versions_def consistent_def checks_def uniques_def references_def
        latest_ids_def boolInt_def cong: option.case_cong)
  obtain w2 where 2: "statement (\<lambda>t'. ((), insert_version t healthy ?now t')) (ticked w1) = (Inr (), w2)" "calm w2"
    "tables w2 = insert_version t healthy ?now (tables w)"
    using statement_calm [of "ticked w1" "\<lambda>t'. ((), insert_version t healthy ?now t')"] 1 c2 by auto
  obtain w3 where 3: "statement (\<lambda>t. ((), prune_versions t)) w2 = (Inr (), w3)" "calm w3"
    using statement_calm [of w2 "\<lambda>t. ((), prune_versions t)"] 2 c3 by auto
  show ?thesis using 1 2 3 by (simp add: add_version_def io_bind_def unix_now_def)
qed

lemma keeps_calm_statement: "keeps calm (statement f)"
  by (rule keepsI) (auto simp: statement_def attempt_def calm_def ticked_def split: prod.splits option.splits)

lemma keeps_calm_now: "keeps calm unix_now"
  by (rule keepsI) (simp add: unix_now_def)

lemma keeps_calm_event: "keeps calm (RecordEvent level code message)"
  unfolding RecordEvent_def by (auto intro!: keeps_bind keeps_return keeps_fail keeps_calm_statement keeps_calm_now)

lemma SaveConfigVersion_calm:
  fixes w :: "'a db_scheme"
  assumes "calm w" and "consistent (tables w)" and "config_versions (tables w) = []"
  shows "\<exists>w'. SaveConfigVersion blk config healthy w = (Inr (), w') \<and> calm w'"
proof -
  obtain w1 where "add_version blk config healthy (ticked (ticked w)) = (Inr (), w1)" "calm w1"
    using add_version_calm [of "ticked (ticked w)" blk config healthy] assms by auto
  moreover have "latest_version (tables w) = []" using assms(3) by (simp add: latest_version_def)
  ultimately show ?thesis
    using assms(1) by (simp add: SaveConfigVersion_def transaction_def committed_def io_bind_def nop_calm query_calm same_version_def io_of_def)
qed

section \<open>An empty service\<close>

definition no_nodes :: "tables \<Rightarrow> bool" where
  "no_nodes t \<longleftrightarrow> consistent t \<and> nodes t = [] \<and> outbounds t = [] \<and> managed_firewall_rules t = [] \<and> config_versions t = []"

lemma no_config: "\<exists>config. GenerateWithAIRouting (Inl (Err ''no rules'')) [] [] None = Inr config"
proof -
  have "\<not> isl (GenerateWithAIRouting (Inl (Err ''no rules'')) [] [] None)" by code_simp
  then show ?thesis by (cases "GenerateWithAIRouting (Inl (Err ''no rules'')) [] [] None") (auto simp: isl_def)
qed

lemma reconcile_empty:
  fixes w :: node_world
  assumes "calm w" and "no_nodes (tables w)"
    and landing: "\<And>v :: node_world. calm v \<Longrightarrow> tables v = tables w \<Longrightarrow>
      \<exists>c b v'. loadLanding id v = (Inr (c, b), v') \<and> \<not> lc_enabled c \<and> calm v' \<and> tables v' = tables w"
  shows "\<exists>w'. reconcile demo_service w = (Inr (), w') \<and> calm w'"
proof -
  have t: "consistent (tables w)" "nodes (tables w) = []" "outbounds (tables w) = []" "managed_firewall_rules (tables w) = []"
    "config_versions (tables w) = []" using assms(2) by (simp_all add: no_nodes_def)
  define w1 where "w1 = (ticked (ticked (ticked (ticked w))))\<lparr>firewallVerified := True\<rparr>"
  have w1: "calm w1" "tables w1 = tables w" using assms(1) by (simp_all add: w1_def)
  obtain c b w2 where l: "loadLanding id (ticked (ticked w1)) = (Inr (c, b), w2)" "\<not> lc_enabled c" "calm w2" "tables w2 = tables w"
    using landing [of "ticked (ticked w1)"] w1 by auto
  obtain config where g: "GenerateWithAIRouting (Inl (Err ''no rules'')) [] [] None = Inr config" using no_config by blast
  obtain w3 where sv: "SaveConfigVersion id config True w2 = (Inr (), w3)" "calm w3" using SaveConfigVersion_calm [of w2 id config True] l t by auto
  have 1: "ListNodes id w = (Inr [], ticked (ticked w))" using rows_calm [OF assms(1), of "\<lambda>t. sort_key nr_id (nodes t)"] t by (simp add: ListNodes_def)
  have "ManagedFirewallRules (ticked (ticked w)) = (Inr [], ticked (ticked (ticked (ticked w))))"
    using rows_calm [of "ticked (ticked w)" "\<lambda>t. sort_key fw_protocol (sort_key fw_port (managed_firewall_rules t))"] assms(1) t
    by (simp add: ManagedFirewallRules_def)
  then have 2: "syncFirewall demo_service [] (ticked (ticked w)) = (Inr (), w1)"
    by (simp add: syncFirewall_def desired_rules_def io_bind_def mark_verified_def w1_def)
  have 3: "ListOutbounds id w1 = (Inr [], ticked (ticked w1))" using rows_calm [OF w1(1), of "\<lambda>t. sort_key or_id (outbounds t)"] w1 t by (simp add: ListOutbounds_def)
  obtain r w5 where ev: "RecordEvent ''info'' ''config_applied'' ''sing-box configuration applied'' w3 = (r, w5)" "calm w5"
    using keepsD [OF keeps_calm_event sv(2)] by (metis prod.collapse)
  have 4: "deploy demo_service config [] [] w2 = (Inr (), w5)"
    using sv ev by (simp add: deploy_def demo_service_def demo_engine_ifc_def io_try_def noted_def)
  have s: "svc_sealer demo_service = id" "svc_builtin demo_service = Inl (Err ''no rules'')" by (simp_all add: demo_service_def)
  have "reconcile demo_service w = (Inr (), w5)"
    using 1 2 3 4 l g by (simp add: reconcile_def s io_bind_def landing_ai_def io_of_def)
  then show ?thesis using ev(2) by blast
qed

lemma no_landing:
  fixes v :: "'a db_scheme"
  assumes "calm v" and "landingSetting \<notin> set_key ` set (system_settings (tables v))"
  shows "\<exists>v'. loadLanding blk v = (Inr (empty_landing, False), v') \<and> calm v' \<and> tables v' = tables v"
proof -
  have "filter (\<lambda>r. set_key r = landingSetting) (system_settings (tables v)) = []" using assms(2) by (force simp: filter_empty_conv)
  then show ?thesis
    using assms(1) by (simp add: loadLanding_def SecretSetting_def Setting_def query_row_def query_calm io_bind_def io_try_def)
qed

definition bare_demo :: node_world where
  "bare_demo = node_demo\<lparr>tables := empty_tables\<rparr>"

lemma bare_calm: "calm bare_demo" "tables bare_demo = empty_tables"
  by (simp_all add: bare_demo_def node_demo_def db.defs demo_world_def host.defs demo_host_def calm_def)

end
