(* ===== verification/NodePorts.thy ===== *)
theory NodePorts
  imports NodeDemo
begin

text \<open>
  The ports of the nodes after a change of the start of their range: they are distinct, an Argo node keeps its own,
  a WebSocket node gets one that Cloudflare serves, every other node one from the range, and the database holds
  exactly this assignment when the change is reported as done.
\<close>

section \<open>One port\<close>

lemma first_free_port_Inr:
  "first_free_port used usable ps w = (Inr p, w') \<Longrightarrow> p \<in> set ps \<and> p \<notin> set used"
proof (induction ps arbitrary: w)
  case (Cons q ps)
  then show ?case by (cases "q \<in> set used") (force elim!: io_bind_InrE split: if_splits)+
qed simp

definition port_allowed :: "int \<Rightarrow> string \<Rightarrow> int \<Rightarrow> bool" where
  "port_allowed start proto p \<longleftrightarrow> (if proto = ProtocolVLESSWSTLS then CloudflareHTTPSPort p else start \<le> p \<and> p \<le> 65535)"

lemma nextProtocolPort_Inr:
  assumes "nextProtocolPort start proto used usable w = (Inr p, w')"
  shows "port_allowed start proto p \<and> p \<notin> set used"
  using first_free_port_Inr [OF assms [unfolded nextProtocolPort_def]]
  by (auto simp: port_allowed_def CloudflareHTTPSPorts_exact split: if_splits)

section \<open>The ports of all nodes\<close>

abbreviation is_argo :: "node \<Rightarrow> bool" where
  "is_argo n \<equiv> protocol n = ProtocolVLESSArgo"

definition argo_ports :: "node list \<Rightarrow> int list" where
  "argo_ports ns = map port (filter is_argo ns)"

lemma argo_ports_simps [simp]:
  "argo_ports [] = []" "argo_ports (n # ns) = (if is_argo n then port n # argo_ports ns else argo_ports ns)"
  by (simp_all add: argo_ports_def)

lemma reserve_argo_Inr:
  "reserve_argo used ns = Inr used' \<Longrightarrow> distinct used \<Longrightarrow>
     set used' = set used \<union> set (argo_ports ns) \<and> distinct (argo_ports ns) \<and> set (argo_ports ns) \<inter> set used = {}"
  by (induction used ns rule: reserve_argo.induct) (auto split: if_splits)

definition port_moved :: "int \<Rightarrow> node \<Rightarrow> node \<Rightarrow> bool" where
  "port_moved start n m \<longleftrightarrow> m = moved_node (port m) n \<and>
     (if is_argo n then port m = port n else port_allowed start (protocol n) (port m))"

lemma moved_same [simp]: "node_id (moved_node p n) = node_id n" "port (moved_node p n) = p" "protocol (moved_node p n) = protocol n"
  by (simp_all add: moved_node_def)

lemma assign_ports_Inr:
  "assign_ports s start managed used ns w = (Inr ms, w') \<Longrightarrow> set (argo_ports ns) \<subseteq> set used \<Longrightarrow> distinct (argo_ports ns) \<Longrightarrow>
     list_all2 (port_moved start) ns ms \<and> distinct (map port ms) \<and>
     (\<forall>m\<in>set ms. port m \<in> set (argo_ports ns) \<or> port m \<notin> set used)"
proof (induction ns arbitrary: used w ms)
  case (Cons n ns)
  from Cons.prems(1) obtain p w1 rest where
    p: "(if is_argo n then io_return (port n) else io_map_error conflictError (nextProtocolPort start (protocol n) used
       (\<lambda>p. networks_free s managed (listen n) p (firewallProtocols (protocol n))))) w = (Inr p, w1)"
    and r: "assign_ports s start managed (p # used) ns w1 = (Inr rest, w')" and ms: "ms = moved_node p n # rest"
    by (auto elim!: io_bind_InrE)
  have P: "if is_argo n then p = port n else port_allowed start (protocol n) p \<and> p \<notin> set used"
    using p by (auto dest!: map_error_Inr nextProtocolPort_Inr split: if_splits)
  have sub: "set (argo_ports ns) \<subseteq> set (p # used)" "distinct (argo_ports ns)" using Cons.prems(2,3) by (auto split: if_splits)
  note IH = Cons.IH [OF r this]
  have "p \<notin> set (argo_ports ns)" using P Cons.prems(2,3) by (auto split: if_splits)
  then have "p \<notin> port ` set rest" using IH by auto
  then have "distinct (map port ms)" using IH ms by auto
  moreover have "list_all2 (port_moved start) (n # ns) ms" using IH ms P port_moved_def [of start n "moved_node p n"] by (auto split: if_splits)
  moreover have "\<forall>m\<in>set ms. port m \<in> set (argo_ports (n # ns)) \<or> port m \<notin> set used" using IH ms P by (auto split: if_splits)
  ultimately show ?case by blast
qed simp

lemma moved_ids: "list_all2 (port_moved start) ns ms \<Longrightarrow> map node_id ms = map node_id ns"
  by (induction rule: list_all2_induct) (auto simp: port_moved_def, metis moved_same(1))

lemma scanned_ids: "list_all2 (\<lambda>r n. scanNode blk r = Inr n) rs ns \<Longrightarrow> map node_id ns = map nr_id rs"
  by (induction rule: list_all2_induct) (auto dest: scanNode_id)

section \<open>The change of the start port\<close>

text \<open>C5: When the change of the start port succeeds, the nodes that were stored have moved to ports that are distinct
  and allowed for their protocols, an Argo node staying where it is; exactly that and the new start are in the
  database, whatever the reconciliation wrote to the journal.\<close>

theorem start_port_assigns:
  fixes w w' :: "'a node_world_scheme"
  assumes "apart s" and "consistent (tables w)" and "SetStartPort s start w = (Inr view, w')"
  shows "\<exists>previous moved now.
     list_all2 (\<lambda>r n. scanNode (svc_sealer s) r = Inr n) (sort_key nr_id (nodes (tables w))) previous \<and>
     list_all2 (port_moved start) previous moved \<and> distinct (map port moved) \<and>
     durable (tables w') = durable (upsert_setting ''node_start_port'' (itoa start) now (with_nodes (placed_row now moved) (tables w)))"
proof -
  obtain old w1 previous w2 used moved w3 u w4 where 1: "startPort w = (Inr old, w1)" "ListNodes (svc_sealer s) w1 = (Inr previous, w2)"
    and 2: "reserve_argo [] previous = Inr used"
    and 3: "assign_ports s start (managed_listeners previous) used previous w2 = (Inr moved, w3)"
    and 4: "io_map_error as_conflict (SetNodePortsAndStart start moved) w3 = (Inr u, w4)"
    and 5: "reconciled s ''restore previous node ports and start port'' (SetNodePortsAndStart old previous)
      (io_return \<lparr>StartPort = start, NextPort = start + int (length moved)\<rparr>) w4 = (Inr view, w')"
    using assms(3) unfolding SetStartPort_def
    by (auto elim!: io_bind_InrE simp: io_of_def split: if_splits sum.split_asm)
  have t: "tables w1 = tables w" "tables w2 = tables w"
    using reads_onlyD [OF reads_only_store(10) 1(1)] reads_onlyD [OF reads_only_store(1) 1(2)] by simp_all
  have free: "reads_only (networks_free s managed l p nets)" for managed l p nets
  proof (induction nets)
    case (Cons x nets)
    then show ?case unfolding networks_free.simps checkNetworkPort_def by (intro quiet_intro apartD [OF assms(1)])
  qed (unfold networks_free.simps, intro quiet_intro)
  have "reads_only (assign_ports s start managed used ns)" for managed used ns
  proof (induction ns arbitrary: used)
    case (Cons n ns)
    then show ?case unfolding assign_ports.simps by (intro quiet_intro free)
  qed (unfold assign_ports.simps, intro quiet_intro)
  from reads_onlyD [OF this 3] have t3: "tables w3 = tables w" using t by simp
  have scanned: "list_all2 (\<lambda>r n. scanNode (svc_sealer s) r = Inr n) (sort_key nr_id (nodes (tables w))) previous"
    using ListNodes_Inr [OF 1(2)] t by simp
  have moved: "list_all2 (port_moved start) previous moved" "distinct (map port moved)"
    using assign_ports_Inr [OF 3] reserve_argo_Inr [OF 2] by auto
  have "distinct (map nr_id (sort_key nr_id (nodes (tables w))))"
    using consistent_node_ids [OF assms(2)] by (simp add: distinct_map)
  then have "distinct (map node_id moved)" using moved_ids [OF moved(1)] scanned_ids [OF scanned] by simp
  from ports_placed [OF map_error_Inr [OF 4] this] obtain now where
    placed: "tables w4 = upsert_setting ''node_start_port'' (itoa start) now (with_nodes (placed_row now moved) (tables w))"
    using t3 by auto
  obtain r v where rec: "reconcile s w4 = (r, v)" by (cases "reconcile s w4")
  have "\<not> isl r"
  proof
    assume "isl r"
    then obtain e where "r = Inl e" by (auto simp: isl_def)
    then show False using 5 rec by (auto simp: reconciled_def compensate_def noted_def io_bind_def io_try_def split: prod.splits sum.splits if_splits)
  qed
  then have "w' = v" using 5 rec by (cases r) (auto simp: reconciled_def)
  then have "durable (tables w') = durable (tables w4)"
    using withinD [OF config_reconcile [OF assms(1)] rec] by (simp add: same_config_def)
  with placed scanned moved show ?thesis
    by (intro exI [of _ previous] exI [of _ moved] exI [of _ now]) simp
qed

section \<open>The theorem on a service without nodes\<close>

lemma demo_start_port:
  "\<exists>view w'. SetStartPort demo_service 9000 bare_demo = (Inr view, w')"
proof -
  have s: "svc_sealer demo_service = id" by (simp add: demo_service_def)
  have 1: "startPort bare_demo = (Inr 8881, ticked bare_demo)"
    using bare_calm by (simp add: startPort_def Setting_def query_row_def query_calm io_bind_def io_try_def empty_tables_def DefaultStartPort_def IsNotFound_def ErrNoRows_def)
  have 2: "ListNodes id (ticked bare_demo) = (Inr [], ticked (ticked (ticked bare_demo)))"
    using rows_calm [of "ticked bare_demo" "\<lambda>t. sort_key nr_id (nodes t)"] bare_calm by (simp add: ListNodes_def empty_tables_def)
  let ?w = "ticked (ticked (ticked bare_demo))"
  define now where "now = unix_seconds (clock_at (ticked ?w) (calls (ticked ?w)))"
  let ?t = "upsert_setting ''node_start_port'' (itoa 9000) now empty_tables"
  have t: "no_nodes ?t"
    by (simp add: no_nodes_def upsert_setting_def insert_setting_def empty_tables_def consistent_def checks_def uniques_def references_def)
  obtain w2 where 3: "statement (\<lambda>t. ((), upsert_setting ''node_start_port'' (itoa 9000) now t)) (ticked (ticked ?w)) = (Inr (), w2)"
    "calm w2" "tables w2 = ?t"
    using statement_calm [of "ticked (ticked ?w)" "\<lambda>t. ((), upsert_setting ''node_start_port'' (itoa 9000) now t)"] bare_calm t by (auto simp: no_nodes_def)
  have 4: "SetNodePortsAndStart 9000 [] ?w = (Inr (), ticked w2)"
    using 3 bare_calm by (simp add: SetNodePortsAndStart_def transaction_def committed_def io_bind_def nop_calm unix_now_def now_def)
  have off: "landingSetting \<notin> set_key ` set (system_settings ?t)"
    by (simp add: upsert_setting_def insert_setting_def empty_tables_def landingSetting_def)
  have "\<exists>c b v'. loadLanding id v = (Inr (c, b), v') \<and> \<not> lc_enabled c \<and> calm v' \<and> tables v' = tables (ticked w2)"
    if "calm v" "tables v = tables (ticked w2)" for v :: node_world
    using no_landing [OF that(1), of id] that(2) off 3(3) by (force simp: empty_landing_def)
  from reconcile_empty [OF _ _ this] 3 t obtain w3 where "reconcile demo_service (ticked w2) = (Inr (), w3)" by auto
  then show ?thesis using 1 2 4
    by (simp add: SetStartPort_def s io_bind_def io_of_def io_map_error_def managed_listeners_def reconciled_def io_try_def)
qed

theorem start_port_assigns_witness:
  "\<exists>previous moved now view w'. SetStartPort demo_service 9000 bare_demo = (Inr view, w') \<and>
     list_all2 (port_moved 9000) previous moved \<and>
     durable (tables w') = durable (upsert_setting ''node_start_port'' (itoa 9000) now (with_nodes (placed_row now moved) empty_tables))"
proof -
  obtain view w' where w: "SetStartPort demo_service 9000 bare_demo = (Inr view, w')" using demo_start_port by blast
  have "consistent (tables bare_demo)" using bare_calm by (simp add: empty_tables_def consistent_def checks_def uniques_def references_def)
  from start_port_assigns [OF demo_apart this w] bare_calm w show ?thesis by metis
qed

end
