(* ===== verification/NodeViews.thy ===== *)
theory NodeViews
  imports NodeLaws EngineApply
begin

text \<open>
  Listing the nodes: with the engine's bulk query of the listeners the list is the one that asks for every node
  by itself. The engine enters by what the query and the check of its listeners have in common.
\<close>

section \<open>A bulk query and single checks\<close>

text \<open>A host whose answers to the reading commands stand still.\<close>

definition steady :: "(string list \<Rightarrow> string \<times> error option) \<Rightarrow> 'w runner \<Rightarrow> bool" where
  "steady answers run \<longleftrightarrow> (\<forall>args w. run args w = (answers args, w))"

locale bulk_checker =
  fixes sound :: bool
    and bulk :: "listener list \<Rightarrow> ('a node_world_scheme, bool list) io"
    and single :: "listener list \<Rightarrow> ('a node_world_scheme, unit) io"
    and up :: bool
    and alive :: "listener \<Rightarrow> bool"
  assumes bulk_up: "sound \<Longrightarrow> up \<Longrightarrow> ls \<noteq> [] \<Longrightarrow> bulk ls w = (Inr (map alive ls), w)"
    and bulk_down: "sound \<Longrightarrow> \<not> up \<Longrightarrow> ls \<noteq> [] \<Longrightarrow> \<exists>e. bulk ls w = (Inl e, w)"
    and single_alive: "sound \<Longrightarrow> up \<Longrightarrow> list_all alive ls \<Longrightarrow> single ls w = (Inr (), w)"
    and single_dead: "sound \<Longrightarrow> ls \<noteq> [] \<Longrightarrow> \<not> (up \<and> list_all alive ls) \<Longrightarrow> \<exists>e. single ls w = (Inl e, w)"
begin

lemma succeeds_single:
  "sound \<Longrightarrow> ls \<noteq> [] \<Longrightarrow> succeeds (single ls) w = (Inr (up \<and> list_all alive ls), w)"
  using single_alive [of ls w] single_dead [of ls w]
  by (cases "up \<and> list_all alive ls") (auto simp: succeeds_def io_try_def)

end

definition socket_alive :: "(string list \<Rightarrow> string \<times> error option) \<Rightarrow> 'w engine_system \<Rightarrow> listener \<Rightarrow> bool" where
  "socket_alive answers e expected = list_ex (socket_line
     (fst (atoi (trim_space (fst (answers [''systemctl'', ''show'', ''--property=MainPID'', ''--value'', unit_of e]))))) expected)
     (split_char NL (fst (answers [''ss'', ''-H'', ''-ltnup''])))"

definition sockets_known :: "(string list \<Rightarrow> string \<times> error option) \<Rightarrow> 'w engine_system \<Rightarrow> bool" where
  "sockets_known answers e \<longleftrightarrow> (let pid = answers [''systemctl'', ''show'', ''--property=MainPID'', ''--value'', unit_of e] in
     snd pid = None \<and> snd (atoi (trim_space (fst pid))) = None \<and> 1 \<le> fst (atoi (trim_space (fst pid))) \<and>
     snd (answers [''ss'', ''-H'', ''-ltnup'']) = None)"

lemma must_steady:
  "steady answers run \<Longrightarrow> must run msg args w =
     (case answers args of (out, None) \<Rightarrow> Inr out | (out, Some e) \<Rightarrow> Inl (Wrap msg e), w)"
  by (simp add: must_def steady_def exec_def io_bind_def split: prod.splits option.splits)

lemma ListenerStatuses_steady:
  assumes "steady answers (engine_run e)" and "ls \<noteq> []"
  shows "sockets_known answers e \<Longrightarrow> ListenerStatuses e ls w = (Inr (map (socket_alive answers e) ls), w)"
    and "\<not> sockets_known answers e \<Longrightarrow> \<exists>x. ListenerStatuses e ls w = (Inl x, w)"
  using assms(2)
  by (auto simp: ListenerStatuses_def io_bind_def must_steady [OF assms(1)] sockets_known_def socket_alive_def Let_def
      split: prod.splits option.splits)

interpretation system_checker: bulk_checker "steady answers (engine_run e)" "ListenerStatuses e" "ListenersHealthy e"
  "sockets_known answers e" "socket_alive answers e" for answers and e :: "'a node_world_scheme engine_system"
proof
  fix ls :: "listener list" and w :: "'a node_world_scheme"
  assume s: "steady answers (engine_run e)"
  note st = ListenerStatuses_steady [OF s, of ls]
  show "sockets_known answers e \<Longrightarrow> ls \<noteq> [] \<Longrightarrow> ListenerStatuses e ls w = (Inr (map (socket_alive answers e) ls), w)"
    using st by blast
  show "\<not> sockets_known answers e \<Longrightarrow> ls \<noteq> [] \<Longrightarrow> \<exists>x. ListenerStatuses e ls w = (Inl x, w)"
    using st by blast
  show "ListenersHealthy e ls w = (Inr (), w)" if "sockets_known answers e" "list_all (socket_alive answers e) ls"
    using st(1) [of w] that by (cases "ls = []") (auto simp: ListenersHealthy_def ListenerStatuses_def io_bind_def list_all_iff)
  show "\<exists>x. ListenersHealthy e ls w = (Inl x, w)"
    if "ls \<noteq> []" "\<not> (sockets_known answers e \<and> list_all (socket_alive answers e) ls)"
    using st [OF that(1), of w] that
    by (cases "sockets_known answers e") (auto simp: ListenersHealthy_def io_bind_def list_all_iff split: prod.splits)
qed

section \<open>The engine as the service sees it\<close>

definition system_ifc :: "'a fs_scheme engine_system \<Rightarrow> 'a fs_scheme engine_ifc" where
  "system_ifc e = \<lparr>eng_apply = Apply e, eng_healthy = Healthy e, eng_listeners = ListenersHealthy e, eng_bulk = Some (ListenerStatuses e)\<rparr>"

definition one_by_one :: "'w node_service \<Rightarrow> 'w node_service" where
  "one_by_one s = s\<lparr>svc_engine := (svc_engine s)\<lparr>eng_bulk := None\<rparr>\<rparr>"

lemma one_by_one_simps [simp]:
  "svc_sealer (one_by_one s) = svc_sealer s" "eng_healthy (svc_engine (one_by_one s)) = eng_healthy (svc_engine s)"
  "eng_bulk (svc_engine (one_by_one s)) = None" "usesTemporaryRuntime (one_by_one s) n = usesTemporaryRuntime s n"
  "svc_temporary (one_by_one s) = svc_temporary s" "eng_listeners (svc_engine (one_by_one s)) = eng_listeners (svc_engine s)"
  by (simp_all add: one_by_one_def usesTemporaryRuntime_def)

lemma node_healthy_single [simp]: "node_healthy (one_by_one s) b n = node_healthy s b n"
  by (auto simp: node_healthy_def split: bool.split option.split)

lemma bulk_statuses_single [simp]: "bulk_statuses (one_by_one s) b ns = io_return None"
  by (simp add: bulk_statuses_def Let_def)

lemma listed_single [simp]: "listed_healthy (one_by_one s) b sts offs k n = node_healthy s b n"
  by (simp add: listed_healthy_def)

lemma listeners_nonempty: "listenersForNode n \<noteq> []"
  by (simp add: listenersForNode_def firewallProtocols_def)

lemma offsets_at:
  "offsets_of s (pre @ n # suf) ! length pre = length (concat (map (bulk_listeners s) pre))"
  "offsets_of s (pre @ n # suf) ! Suc (length pre) = length (concat (map (bulk_listeners s) pre)) + length (bulk_listeners s n)"
  unfolding offsets_of_def by (subst nth_map; simp add: nth_append del: upt_Suc)+

lemma slice_at:
  "take (offsets_of s (pre @ n # suf) ! Suc (length pre) - offsets_of s (pre @ n # suf) ! length pre)
     (drop (offsets_of s (pre @ n # suf) ! length pre) (map f (concat (map (bulk_listeners s) (pre @ n # suf)))))
   = map f (bulk_listeners s n)"
  by (simp add: offsets_at)

context bulk_checker
begin

text \<open>One node of the list, from the slice of the bulk answer or by itself.\<close>

lemma listed_node:
  assumes sound and e: "eng_bulk (svc_engine s) = Some bulk" "eng_listeners (svc_engine s) = single"
    and sts: "h \<Longrightarrow> statuses = (if up then Some (map alive (concat (map (bulk_listeners s) (pre @ n # suf)))) else None) \<or>
      \<not> (node_enabled n \<and> \<not> usesTemporaryRuntime s n)"
  shows "listed_healthy s h statuses (offsets_of s (pre @ n # suf)) (length pre) n w = node_healthy s h n w"
proof (cases "\<not> usesTemporaryRuntime s n \<and> node_enabled n \<and> h")
  case True
  then have b: "bulk_listeners s n = listenersForNode n" by (simp add: bulk_listeners_def)
  have "node_healthy s h n w = (Inr (up \<and> list_all alive (listenersForNode n)), w)"
    using True succeeds_single [OF assms(1) listeners_nonempty] by (simp add: node_healthy_def e)
  then show ?thesis
    using True sts slice_at [of s pre n suf alive] by (cases up) (simp_all add: listed_healthy_def e b list.pred_map comp_def)
qed (auto simp: listed_healthy_def)

lemma list_loop_single:
  assumes sound and e: "eng_bulk (svc_engine s) = Some bulk" "eng_listeners (svc_engine s) = single"
    and sts: "h \<Longrightarrow> statuses = (if up then Some (map alive (concat (map (bulk_listeners s) (pre @ suf)))) else None) \<or>
      (\<forall>n\<in>set (pre @ suf). \<not> (node_enabled n \<and> \<not> usesTemporaryRuntime s n))"
  shows "list_loop s h host statuses (offsets_of s (pre @ suf)) (length pre) suf w
    = list_loop (one_by_one s) h host None (offsets_of (one_by_one s) (pre @ suf)) (length pre) suf w"
  using sts
proof (induction suf arbitrary: pre w)
  case (Cons n suf)
  have IH: "list_loop s h host statuses (offsets_of s (pre @ n # suf)) (Suc (length pre)) suf v
    = list_loop (one_by_one s) h host None (offsets_of (one_by_one s) (pre @ n # suf)) (Suc (length pre)) suf v" for v
  proof -
    have "(pre @ [n]) @ suf = pre @ n # suf" by simp
    from Cons.IH [of "pre @ [n]" v, unfolded this, OF Cons.prems] show ?thesis by simp
  qed
  have "listed_healthy s h statuses (offsets_of s (pre @ n # suf)) (length pre) n v = node_healthy s h n v" for v
    using Cons.prems by (intro listed_node [OF assms(1-3)]) auto
  then have "listed_healthy s h statuses (offsets_of s (pre @ n # suf)) (length pre) n
    = listed_healthy (one_by_one s) h None (offsets_of (one_by_one s) (pre @ n # suf)) (length pre) n" by (intro ext) simp
  moreover have "list_loop s h host statuses (offsets_of s (pre @ n # suf)) (Suc (length pre)) suf
    = list_loop (one_by_one s) h host None (offsets_of (one_by_one s) (pre @ n # suf)) (Suc (length pre)) suf" using IH by (intro ext)
  ultimately show ?case by (simp only: list_loop.simps)
qed simp

lemma bulk_outcome:
  assumes sound and e: "eng_bulk (svc_engine s) = Some bulk"
  shows "\<exists>statuses. bulk_statuses s h ns w = (Inr statuses, w) \<and>
    (h \<longrightarrow> statuses = (if up then Some (map alive (concat (map (bulk_listeners s) ns))) else None) \<or>
      (\<forall>n\<in>set ns. \<not> (node_enabled n \<and> \<not> usesTemporaryRuntime s n)))"
proof (cases "h \<and> concat (map (bulk_listeners s) ns) \<noteq> []")
  case True
  then show ?thesis
    using bulk_up [OF assms(1), of "concat (map (bulk_listeners s) ns)" w] bulk_down [OF assms(1), of "concat (map (bulk_listeners s) ns)" w]
    by (cases up) (auto simp: bulk_statuses_def e Let_def io_try_def)
next
  case False
  have "\<not> (node_enabled n \<and> \<not> usesTemporaryRuntime s n)" if "h" "n \<in> set ns" for n
  proof -
    have "bulk_listeners s n = []" using False that by auto
    then show ?thesis using listeners_nonempty [of n] by (auto simp: bulk_listeners_def split: if_splits)
  qed
  moreover have "bulk_statuses s h ns w = (Inr None, w)" using False by (auto simp: bulk_statuses_def e Let_def)
  ultimately show ?thesis by blast
qed

lemma List_single:
  assumes sound and "eng_bulk (svc_engine s) = Some bulk" and "eng_listeners (svc_engine s) = single"
  shows "List_nodes s w = List_nodes (one_by_one s) w"
proof -
  have at: "io_bind (bulk_statuses s h ns) (\<lambda>statuses. list_loop s h host statuses (offsets_of s ns) 0 ns) v
    = io_bind (bulk_statuses (one_by_one s) h ns) (\<lambda>statuses. list_loop (one_by_one s) h host statuses (offsets_of (one_by_one s) ns) 0 ns) v"
    for h ns host v
  proof -
    obtain statuses where st: "bulk_statuses s h ns v = (Inr statuses, v)"
      "h \<longrightarrow> statuses = (if up then Some (map alive (concat (map (bulk_listeners s) ns))) else None) \<or>
      (\<forall>n\<in>set ns. \<not> (node_enabled n \<and> \<not> usesTemporaryRuntime s n))"
      using bulk_outcome [OF assms(1,2)] by blast
    from st(2) have "list_loop s h host statuses (offsets_of s ([] @ ns)) (length ([] :: node list)) ns v
      = list_loop (one_by_one s) h host None (offsets_of (one_by_one s) ([] @ ns)) (length ([] :: node list)) ns v"
      by (intro list_loop_single [OF assms]) auto
    then show ?thesis using st(1) by simp
  qed
  have "io_bind (bulk_statuses s h ns) (\<lambda>statuses. list_loop s h host statuses (offsets_of s ns) 0 ns)
    = io_bind (bulk_statuses (one_by_one s) h ns) (\<lambda>statuses. list_loop (one_by_one s) h host statuses (offsets_of (one_by_one s) ns) 0 ns)"
    for h ns host using at by (rule ext)
  then show ?thesis unfolding List_nodes_def by (simp only: one_by_one_simps)
qed

end

text \<open>C39: Asking the engine once for the listeners of all nodes and cutting its answer at the offsets lists the same
  nodes with the same status as asking for every node by itself.\<close>

theorem bulk_listing_equivalent:
  assumes "steady answers (engine_run e)" and "svc_engine s = system_ifc e"
  shows "List_nodes s w = List_nodes (one_by_one s) w"
  by (rule system_checker.List_single [OF assms(1)]) (simp_all add: assms(2) system_ifc_def)

text \<open>A host on which sing-box owns no socket.\<close>

definition quiet_answers :: "string list \<Rightarrow> string \<times> error option" where
  "quiet_answers args = (if hd args = ''systemctl'' then (''77'', None) else ([], None))"

definition steady_engine :: "node_world engine_system" where
  "steady_engine = \<lparr>Binary = ''sing-box'', ConfigPath = ''/etc/j-ui/c.json'', ServiceUnit = [], StartIfInactive = False,
     engine_run = (\<lambda>args w. (quiet_answers args, w)), ListenerChecker = None, RollbackListenerChecker = None, CommitTimeout = 0,
     RollbackTimeout = 0, settle = (\<lambda>_. io_return ()), wakes = []\<rparr>"

theorem bulk_listing_equivalent_witness:
  "List_nodes (demo_service\<lparr>svc_engine := system_ifc steady_engine\<rparr>) node_demo
     = List_nodes (one_by_one (demo_service\<lparr>svc_engine := system_ifc steady_engine\<rparr>)) node_demo"
  by (rule bulk_listing_equivalent [of quiet_answers steady_engine]) (simp_all add: steady_def steady_engine_def)

end
