(* ===== verification/LandingLaws.thy ===== *)
theory LandingLaws
  imports NodeDemo
begin

text \<open>
  The AI landing is read back as it was saved: through the JSON document, the sealer and the settings table, also
  when the change goes through the whole handler with its reconciliation.
\<close>

section \<open>The document\<close>

definition domains_ok :: "ai_domains option \<Rightarrow> bool" where
  "domains_ok b = (case b of None \<Rightarrow> True | Some d \<Rightarrow> int64 (ai_version d))"

definition landing_ok :: "landing_config \<Rightarrow> bool" where
  "landing_ok c \<longleftrightarrow> int64 (lc_inbound c) \<and> domains_ok (lc_base c)"

lemma sum_bind_Inr [simp]: "sum_bind (Inr x) f = f x"
  by (simp add: sum_bind_def)

lemma decode_all_map: "(\<And>x. x \<in> set xs \<Longrightarrow> f (g x) = Inr x) \<Longrightarrow> decode_all f (map g xs) = Inr xs"
  by (induction xs) auto

lemma decode_encode_strings [simp]: "decode_strings (encode_strings xs) = Inr xs"
  by (cases xs) (simp_all add: encode_strings_def decode_strings_def decode_all_map decode_string_def)

lemma json_ok_strings [simp]: "json_ok (encode_strings xs)"
  by (cases xs) (simp_all add: encode_strings_def list_all_iff)

text \<open>The names of the members differ in more than their case.\<close>

definition landing_names :: "string list" where
  "landing_names = [''enabled'', ''inboundId'', ''uri'', ''include'', ''exclude'', ''ruleSource'', ''ruleBase'', ''ruleHash'', ''ruleUpdatedAt'',
     ''version'', ''rules'', ''domain'', ''domain_suffix'', ''domain_regex'']"

lemma landing_names_fold: "list_all (\<lambda>k. list_all (\<lambda>n. equal_fold k n \<longleftrightarrow> k = n) landing_names) landing_names"
  by code_simp

lemma landing_member:
  assumes "distinct (map fst ob)" and "fst ` set ob \<subseteq> set landing_names" and "n \<in> set landing_names"
  shows "json_member ob n = obj_any ob n"
  using assms landing_names_fold by (intro json_member_exact) (auto simp: list_all_iff)

lemma decode_encode_rule [simp]: "Landing.decode_rule (encode_rule r) = Inr r"
proof -
  define ob where "ob = [(''domain'', encode_strings (ai_domain r)), (''domain_suffix'', encode_strings (ai_suffix r)),
     (''domain_regex'', encode_strings (ai_regex r))]"
  have "json_member ob n = obj_any ob n" if "n \<in> set landing_names" for n
    using that by (intro landing_member) (simp_all add: ob_def landing_names_def)
  then show ?thesis
    by (simp add: Landing.decode_rule_def encode_rule_def flip: ob_def) (simp add: landing_names_def obj_any_def ob_def)
qed

lemma decode_encode_domains [simp]: "decode_domains (encode_domains d) = Inr (Some d)"
proof -
  define ob where "ob = [(''version'', JInt (ai_version d)), (''rules'', JList (map encode_rule (ai_rules d)))]"
  have "json_member ob n = obj_any ob n" if "n \<in> set landing_names" for n
    using that by (intro landing_member) (simp_all add: ob_def landing_names_def)
  then show ?thesis
    by (simp add: decode_domains_def encode_domains_def field_int_def flip: ob_def)
      (simp add: landing_names_def obj_any_def ob_def decode_all_map)
qed

lemma decode_no_domains [simp]: "decode_domains JNull = Inr None"
  by (simp add: decode_domains_def)

lemma json_ok_domains: "int64 (ai_version d) \<Longrightarrow> json_ok (encode_domains d)"
  by (simp add: encode_domains_def encode_rule_def list_all_iff)

lemma json_ok_landing: "landing_ok c \<Longrightarrow> json_ok (encode_landing c)"
  by (cases "lc_base c")
    (simp_all add: encode_landing_def landing_ok_def domains_ok_def omit_empty_def json_ok_domains)

text \<open>The members that may be left out.\<close>

lemma omit_empty_simps [simp]:
  "map_of (omit_empty k b v) = (\<lambda>n. if n = k \<and> \<not> b then Some v else None)"
  "set (omit_empty k b v) = (if b then {} else {(k, v)})"
  "map fst (omit_empty k b v) = (if b then [] else [k])"
  by (auto simp: omit_empty_def)

lemma distinct_optional [simp]:
  "distinct ((if b then [] else [k]) @ xs) \<longleftrightarrow> distinct xs \<and> (b \<or> k \<notin> set xs)"
  "distinct (if b then [] else [k])" "set (if b then [] else [k]) = (if b then {} else {k})"
  by simp_all

definition base_member :: "ai_domains option \<Rightarrow> obj" where
  "base_member b = (case b of None \<Rightarrow> [] | Some d \<Rightarrow> [(''ruleBase'', encode_domains d)])"

lemma base_member_simps [simp]:
  "map_of (base_member b) = (\<lambda>n. if n = ''ruleBase'' \<and> b \<noteq> None then Some (encode_domains (the b)) else None)"
  "set (base_member b) = (if b = None then {} else {(''ruleBase'', encode_domains (the b))})"
  "map fst (base_member b) = (if b = None then [] else [''ruleBase''])"
  by (cases b; auto simp: base_member_def)+

lemma decode_encode_landing:
  assumes "landing_ok c"
  shows "decode_landing (json_print (encode_landing c)) = Inr c"
proof -
  define ob where "ob = [(''enabled'', JBool (lc_enabled c))] @ omit_empty ''inboundId'' (lc_inbound c = 0) (JInt (lc_inbound c)) @
     [(''uri'', JStr (lc_uri c)), (''include'', encode_strings (lc_include c)), (''exclude'', encode_strings (lc_exclude c))] @
     omit_empty ''ruleSource'' (lc_source c = []) (JStr (lc_source c)) @ base_member (lc_base c) @
     omit_empty ''ruleHash'' (lc_hash c = []) (JStr (lc_hash c)) @ omit_empty ''ruleUpdatedAt'' (lc_updated c = []) (JStr (lc_updated c))"
  have e: "encode_landing c = JObj ob" by (simp add: encode_landing_def ob_def base_member_def)
  have "distinct (map fst ob)" by (simp add: ob_def)
  moreover have "fst ` set ob \<subseteq> set landing_names" by (simp add: ob_def landing_names_def image_Un)
  ultimately have m: "json_member ob n = obj_any ob n" if "n \<in> set landing_names" for n
    using that landing_member by blast
  have "json_member ob ''enabled'' = JBool (lc_enabled c)" "json_member ob ''uri'' = JStr (lc_uri c)"
    "json_member ob ''inboundId'' = (if lc_inbound c = 0 then JNull else JInt (lc_inbound c))"
    "json_member ob ''include'' = encode_strings (lc_include c)" "json_member ob ''exclude'' = encode_strings (lc_exclude c)"
    "json_member ob ''ruleSource'' = (if lc_source c = [] then JNull else JStr (lc_source c))"
    "json_member ob ''ruleBase'' = (case lc_base c of None \<Rightarrow> JNull | Some d \<Rightarrow> encode_domains d)"
    "json_member ob ''ruleHash'' = (if lc_hash c = [] then JNull else JStr (lc_hash c))"
    "json_member ob ''ruleUpdatedAt'' = (if lc_updated c = [] then JNull else JStr (lc_updated c))"
    by (simp_all add: m landing_names_def obj_any_def) (auto simp: ob_def map_add_def split: option.split)
  then have "field_bool ob ''enabled'' = Inr (lc_enabled c)" "field_int ob ''inboundId'' = Inr (lc_inbound c)"
    "field_string ob ''uri'' = Inr (lc_uri c)" "decode_strings (json_member ob ''include'') = Inr (lc_include c)"
    "decode_strings (json_member ob ''exclude'') = Inr (lc_exclude c)" "field_string ob ''ruleSource'' = Inr (lc_source c)"
    "decode_domains (json_member ob ''ruleBase'') = Inr (lc_base c)" "field_string ob ''ruleHash'' = Inr (lc_hash c)"
    "field_string ob ''ruleUpdatedAt'' = Inr (lc_updated c)"
    by (simp_all add: field_bool_def field_int_def field_string_def) (cases "lc_base c"; simp)
  moreover have "json_parse (json_print (encode_landing c)) = Some (JObj ob)"
    using json_roundtrip [OF json_ok_landing [OF assms]] e by simp
  ultimately show ?thesis by (simp add: decode_landing_def)
qed

section \<open>The settings table\<close>

lemma upsert_value:
  "\<exists>rest. map set_value (filter (\<lambda>r. set_key r = k) (system_settings (upsert_setting k v now t))) = v # rest"
proof (cases "k \<in> set_key ` set (system_settings t)")
  case True
  have "map set_value (filter (\<lambda>r. set_key r = k) (map (\<lambda>r. if set_key r = k then r\<lparr>set_value := v, set_updated := now\<rparr> else r) rs))
      = map (\<lambda>_. v) (filter (\<lambda>r. set_key r = k) rs)" for rs
    by (induction rs) auto
  note E = this [of "system_settings t"]
  have "filter (\<lambda>r. set_key r = k) (system_settings t) \<noteq> []" using True by (auto simp: filter_empty_conv)
  then obtain a rs where f: "filter (\<lambda>r. set_key r = k) (system_settings t) = a # rs" by (meson list.exhaust)
  have "system_settings (upsert_setting k v now t)
      = map (\<lambda>r. if set_key r = k then r\<lparr>set_value := v, set_updated := now\<rparr> else r) (system_settings t)"
    using True by (simp add: upsert_setting_def)
  then show ?thesis using E f by (simp only: list.map list.inject ex_simps) blast
next
  case False
  then have "filter (\<lambda>r. set_key r = k) (system_settings t) = []" by (auto simp: filter_empty_conv)
  then show ?thesis using False by (simp add: upsert_setting_def insert_setting_def)
qed

lemma SecretSetting_after:
  assumes "system_settings (tables v) = system_settings (upsert_setting k x now t)" and "\<not> faulty v (calls v)"
  shows "fst (SecretSetting blk k v) = Open blk x"
proof -
  obtain rest where "map set_value (filter (\<lambda>r. set_key r = k) (system_settings (tables v))) = x # rest"
    using upsert_value [of k x now t] assms(1) by auto
  from query_row_fst [OF assms(2), of "\<lambda>t. map set_value (filter (\<lambda>r. set_key r = k) (system_settings t))", OF this] show ?thesis
    by (simp add: SecretSetting_def Setting_def io_bind_def io_of_def split: sum.split)
qed

lemma saveLanding_Inr:
  fixes w w' :: "'a db_scheme"
  assumes "saveLanding blk c w = (Inr u, w')"
  shows "\<exists>x now. Open blk x = Inr (json_print (encode_landing c)) \<and> tables w' = upsert_setting landingSetting x now (tables w)"
proof -
  obtain x now and w1 w2 :: "'a db_scheme" where 1: "Seal blk (json_print (encode_landing c)) w = (Inr x, w1)" "unix_now w1 = (Inr now, w2)"
    "statement (\<lambda>t. ((), upsert_setting landingSetting x now t)) w2 = (Inr u, w')"
    using assms by (auto simp: saveLanding_def SetSecretSetting_def SetSetting_def elim!: io_bind_InrE)
  have "Open blk x = Inr (json_print (encode_landing c))" using Seal_Inr [OF 1(1)] Open_sealed by auto
  moreover have "tables w2 = tables w" using reads_onlyD [OF reads_only_Seal 1(1)] reads_onlyD [OF reads_only_now 1(2)] by simp
  ultimately show ?thesis using statement_tables(1) [OF 1(3)] by auto
qed

lemma load_saved:
  assumes "landing_ok c" and "Open blk x = Inr (json_print (encode_landing c))"
    and "system_settings (tables v) = system_settings (upsert_setting landingSetting x now t)" and "\<not> faulty v (calls v)"
  shows "fst (loadLanding blk v) = Inr (c, True)"
proof -
  have "fst (SecretSetting blk landingSetting v) = Inr (json_print (encode_landing c))"
    using SecretSetting_after [OF assms(3,4), of blk] assms(2) by simp
  then show ?thesis
    using decode_encode_landing [OF assms(1)]
    by (auto simp: loadLanding_def io_try_def io_bind_def io_of_def split: prod.splits)
qed

section \<open>The handler\<close>

lemma reconciled_Inr:
  fixes s :: "'a node_world_scheme node_service" and k :: "('a node_world_scheme, 'b) io"
  assumes "reconciled s what restore k w = (Inr x, w')"
  shows "\<exists>v. reconcile s w = (Inr (), v) \<and> k v = (Inr x, w')"
proof -
  obtain r v where rec: "reconcile s w = (r, v)" by (cases "reconcile s w")
  then show ?thesis
    using assms by (cases r) (auto simp: reconciled_def compensate_def noted_def io_bind_def io_try_def split: prod.splits sum.splits if_splits)
qed

lemma durable_settings: "durable t = durable u \<Longrightarrow> system_settings t = system_settings u"
  by (drule arg_cong [of _ _ system_settings]) (simp add: durable_def)

text \<open>C6: A landing that was saved is read back as the administrator left it: switched as asked, with the connection
  that was entered or the previous one, and with its rules as they were.\<close>

theorem landing_read_back:
  fixes w w' v :: "'a node_world_scheme"
  assumes "apart s" and "SetLanding s i w = (Inr view, w')" and "fst (loadLanding (svc_sealer s) w) = Inr (old, existed)"
    and "landing_ok old" and "tables v = tables w'" and "\<not> faulty v (calls v)"
  shows "\<exists>uri. fst (loadLanding (svc_sealer s) v) = Inr (old\<lparr>lc_enabled := li_enabled i, lc_inbound := 0, lc_uri := uri\<rparr>, True) \<and>
     (if trim_space (li_details i) = [] then uri = lc_uri old else landingDetailsURI (li_details i) = Inr uri) \<and>
     (li_enabled i \<longrightarrow> uri \<noteq> [])"
proof -
  obtain w1 where l: "loadLanding (svc_sealer s) w = (Inr (old, existed), w1)" using assms(3) by (metis prod.collapse)
  obtain uri w2 w3 u where d: "if trim_space (li_details i) = [] then uri = lc_uri old else landingDetailsURI (li_details i) = Inr uri"
    and n: "li_enabled i \<longrightarrow> uri \<noteq> []"
    and sv: "saveLanding (svc_sealer s) (old\<lparr>lc_enabled := li_enabled i, lc_inbound := 0, lc_uri := uri\<rparr>) w2 = (Inr u, w3)"
    and r: "reconciled s ''restore previous landing'' (restoreLanding (svc_sealer s) old existed) (Landing_view s) w3 = (Inr view, w')"
    using assms(2) l unfolding SetLanding_def change_landing_def
    by (auto elim!: io_bind_InrE simp: io_of_def split: if_splits sum.split_asm dest!: map_error_Inr)
  obtain x now where x: "Open (svc_sealer s) x = Inr (json_print (encode_landing (old\<lparr>lc_enabled := li_enabled i, lc_inbound := 0, lc_uri := uri\<rparr>)))"
    and t3: "tables w3 = upsert_setting landingSetting x now (tables w2)" using saveLanding_Inr [OF sv] by blast
  obtain w4 where 4: "reconcile s w3 = (Inr (), w4)" "Landing_view s w4 = (Inr view, w')" using reconciled_Inr [OF r] by blast
  have "durable (tables w4) = durable (tables w3)"
    using withinD [OF config_reconcile [OF assms(1)] 4(1)] by (simp add: same_config_def)
  moreover have "reads_only (Landing_view s)" unfolding Landing_view_def by (intro quiet_intro)
  from reads_onlyD [OF this 4(2)] have "tables w' = tables w4" .
  ultimately have "system_settings (tables v) = system_settings (upsert_setting landingSetting x now (tables w2))"
    using durable_settings t3 assms(5) by metis
  moreover have "landing_ok (old\<lparr>lc_enabled := li_enabled i, lc_inbound := 0, lc_uri := uri\<rparr>)"
    using assms(4) by (simp add: landing_ok_def int64_def)
  ultimately show ?thesis using load_saved [OF _ x] assms(6) d n by blast
qed

section \<open>The theorem on a service without nodes\<close>

lemma load_saved_calm:
  fixes v :: "'a db_scheme"
  assumes "landing_ok c" and "Open blk x = Inr (json_print (encode_landing c))"
    and "system_settings (tables v) = system_settings (upsert_setting landingSetting x now t)" and "calm v"
  shows "loadLanding blk v = (Inr (c, True), ticked v)"
proof -
  have f: "fst (loadLanding blk v) = Inr (c, True)" using load_saved [OF assms(1-3)] assms(4) by (simp add: calm_def)
  have "snd (loadLanding blk v) = ticked v"
    using assms(4) by (simp add: loadLanding_def SecretSetting_def Setting_def query_row_def query_calm io_bind_def io_try_def io_of_def
        split: list.split sum.split)
  with f show ?thesis by (simp add: prod_eq_iff)
qed

definition off_input :: landing_input where
  "off_input = \<lparr>li_enabled = False, li_inbound = 0, li_details = []\<rparr>"

lemma landing_off:
  "\<exists>view w'. SetLanding demo_service off_input bare_demo = (Inr view, w') \<and> calm w'"
proof -
  have s: "svc_sealer demo_service = id" by (simp add: demo_service_def)
  have l: "loadLanding id bare_demo = (Inr (empty_landing, False), ticked bare_demo)"
    using bare_calm by (simp add: loadLanding_def SecretSetting_def Setting_def query_row_def query_calm io_bind_def io_try_def empty_tables_def)
  obtain x w1 where 1: "Seal id (json_print (encode_landing empty_landing)) (ticked bare_demo) = (Inr x, w1)" "calm w1" "tables w1 = empty_tables"
    using Seal_calm [of "ticked bare_demo" id "json_print (encode_landing empty_landing)"] bare_calm by auto
  define now where "now = unix_seconds (clock_at w1 (calls w1))"
  have up: "no_nodes (upsert_setting landingSetting x now empty_tables)"
    by (simp add: no_nodes_def upsert_setting_def insert_setting_def empty_tables_def consistent_def checks_def uniques_def references_def)
  obtain w2 where 2: "statement (\<lambda>t. ((), upsert_setting landingSetting x now t)) (ticked w1) = (Inr (), w2)" "calm w2"
    "tables w2 = upsert_setting landingSetting x now empty_tables"
    using statement_calm [of "ticked w1" "\<lambda>t. ((), upsert_setting landingSetting x now t)"] 1 up by (auto simp: no_nodes_def)
  have sv: "saveLanding id empty_landing (ticked bare_demo) = (Inr (), w2)"
    using 1 2 by (simp add: saveLanding_def SetSecretSetting_def SetSetting_def io_bind_def unix_now_def now_def)
  have o': "Open id x = Inr (json_print (encode_landing empty_landing))" using Seal_Inr [OF 1(1)] Open_sealed by auto
  have ok: "landing_ok empty_landing" by (simp add: landing_ok_def empty_landing_def domains_ok_def int64_def)
  have load: "loadLanding id v = (Inr (empty_landing, True), ticked v)" if "calm v" "tables v = tables w2" for v :: node_world
    using load_saved_calm [OF ok o' _ that(1), of now empty_tables] that(2) 2(3) by simp
  obtain w3 where 3: "reconcile demo_service w2 = (Inr (), w3)" "calm w3"
    using reconcile_empty [of w2] 2 up load by (fastforce simp: empty_landing_def)
  have "system_settings (tables w3) = system_settings (tables w2)"
    using durable_settings withinD [OF config_reconcile [OF demo_apart] 3(1)] by (metis same_config_def)
  then have "loadLanding id w3 = (Inr (empty_landing, True), ticked w3)"
    using load_saved_calm [OF ok o' _ 3(2), of now empty_tables] 2(3) by simp
  then have "\<exists>view. Landing_view demo_service w3 = (Inr view, ticked w3)"
    by (simp add: Landing_view_def s io_bind_def)
  then obtain view where "Landing_view demo_service w3 = (Inr view, ticked w3)" by blast
  moreover have "empty_landing\<lparr>lc_enabled := False, lc_inbound := 0, lc_uri := []\<rparr> = empty_landing" by (simp add: empty_landing_def)
  moreover have "trim_space [] = []" by code_simp
  ultimately have "SetLanding demo_service off_input bare_demo = (Inr view, ticked w3)"
    using l sv 3(1) by (simp add: SetLanding_def change_landing_def off_input_def s io_bind_def reconciled_def io_try_def empty_landing_def)
  then show ?thesis using 3(2) by auto
qed

theorem landing_read_back_witness:
  "\<exists>view w'. SetLanding demo_service off_input bare_demo = (Inr view, w') \<and>
     fst (loadLanding id w') = Inr (empty_landing, True)"
proof -
  obtain view w' where w: "SetLanding demo_service off_input bare_demo = (Inr view, w')" "calm w'" using landing_off by blast
  have s: "svc_sealer demo_service = id" by (simp add: demo_service_def)
  have "fst (loadLanding id bare_demo) = Inr (empty_landing, False)"
    using bare_calm by (simp add: loadLanding_def SecretSetting_def Setting_def query_row_def query_calm io_bind_def io_try_def empty_tables_def)
  moreover have "landing_ok empty_landing" by (simp add: landing_ok_def empty_landing_def domains_ok_def int64_def)
  moreover have "trim_space [] = []" by code_simp
  ultimately show ?thesis
    using landing_read_back [OF demo_apart w(1), of empty_landing False w'] w
    by (auto simp: s calm_def off_input_def empty_landing_def)
qed

end
