(* ===== verification/GoDisk.thy ===== *)
theory GoDisk
  imports Secure "HOL-Library.AList"
begin

text \<open>
  The directory operations of \<open>os\<close> and \<open>path/filepath\<close> that the backup uses, over a disk of directories, regular
  files, symbolic links and sockets with their permissions. Any call may fail; a failing write leaves part of its
  bytes, a failing removal part of the tree. Links are entries of their own and are not followed.
\<close>

section \<open>Entries\<close>

datatype entry = Folder nat | Regular nat string | Link string | Socket

record disk = host +
  entries :: "(string \<times> entry) list"

definition at :: "'a disk_scheme \<Rightarrow> string \<Rightarrow> entry option" where
  "at w p = map_of (entries w) p"

definition put_entry :: "string \<Rightarrow> entry \<Rightarrow> 'a disk_scheme \<Rightarrow> 'a disk_scheme" where
  "put_entry p e w = w\<lparr>entries := AList.update p e (entries w)\<rparr>"

definition keep_entries :: "(string \<Rightarrow> bool) \<Rightarrow> 'a disk_scheme \<Rightarrow> 'a disk_scheme" where
  "keep_entries P w = w\<lparr>entries := filter (\<lambda>(q, _). P q) (entries w)\<rparr>"

text \<open>A path with its directories, the root left out.\<close>

definition ancestors :: "string \<Rightarrow> string list" where
  "ancestors p = (let ps = split_char CHR ''/'' p in map (\<lambda>k. join ''/'' (take k ps)) [2..<Suc (length ps)])"

definition folder_at :: "'a disk_scheme \<Rightarrow> string \<Rightarrow> bool" where
  "folder_at w p \<longleftrightarrow> p = ''/'' \<or> (case at w p of Some (Folder _) \<Rightarrow> True | _ \<Rightarrow> False)"

definition owner_bits :: "nat \<Rightarrow> nat" where
  "owner_bits mode = mode div 64 mod 8 * 64"

section \<open>Calls\<close>

definition ErrNotDir :: error where "ErrNotDir = Err ''not a directory''"

definition d_stat :: "string \<Rightarrow> ('a disk_scheme, entry) io" where
  "d_stat p = attempt (\<lambda>w. case at w p of None \<Rightarrow> (Inl ErrNotExist, w) | Some e \<Rightarrow> (Inr e, w))"

definition d_read :: "string \<Rightarrow> ('a disk_scheme, string) io" where
  "d_read p = attempt (\<lambda>w. case at w p of
      None \<Rightarrow> (Inl ErrNotExist, w) | Some (Regular _ c) \<Rightarrow> (Inr c, w) | Some _ \<Rightarrow> (Inl (Err ''not a regular file''), w))"

definition d_mkdir_all :: "string \<Rightarrow> nat \<Rightarrow> ('a disk_scheme, unit) io" where
  "d_mkdir_all p mode = attempt (\<lambda>w.
     if list_ex (\<lambda>a. at w a \<noteq> None \<and> \<not> folder_at w a) (ancestors p) then (Inl ErrNotDir, w)
     else (Inr (), foldl (\<lambda>w a. if at w a = None then put_entry a (Folder mode) w else w) w (ancestors p)))"

text \<open>\<open>os.OpenFile\<close> with \<open>O_CREATE|O_EXCL|O_WRONLY\<close>, and the writes on the handle.\<close>

definition d_open_new :: "string \<Rightarrow> nat \<Rightarrow> ('a disk_scheme, unit) io" where
  "d_open_new p mode = attempt (\<lambda>w. if at w p \<noteq> None then (Inl ErrExist, w)
     else if \<not> folder_at w (path_dir p) then (Inl ErrNotExist, w)
     else (Inr (), put_entry p (Regular mode []) w))"

definition d_write :: "string \<Rightarrow> string \<Rightarrow> ('a disk_scheme, unit) io" where
  "d_write p c w = (let bad = faulty w (calls w); bytes = (if bad then take (torn w (calls w)) c else c)
     in (if bad then Inl ErrIO else Inr (),
         case at w p of Some (Regular mode old) \<Rightarrow> put_entry p (Regular mode (old @ bytes)) (ticked w) | _ \<Rightarrow> ticked w))"

definition d_remove :: "string \<Rightarrow> ('a disk_scheme, unit) io" where
  "d_remove p = attempt (\<lambda>w. if at w p = None then (Inl ErrNotExist, w) else (Inr (), keep_entries (\<lambda>q. q \<noteq> p) w))"

text \<open>A directory is not renamed over anything, nor into itself.\<close>

definition moved_path :: "string \<Rightarrow> string \<Rightarrow> string \<Rightarrow> string" where
  "moved_path a b q = (if in_tree a q then b @ drop (length a) q else q)"

definition d_rename :: "string \<Rightarrow> string \<Rightarrow> ('a disk_scheme, unit) io" where
  "d_rename a b = attempt (\<lambda>w. if at w a = None then (Inl ErrNotExist, w)
     else if list_ex (\<lambda>(q, _). in_tree b q) (entries w) then (Inl ErrExist, w)
     else if \<not> folder_at w (path_dir b) then (Inl ErrNotExist, w)
     else if in_tree a b then (Inl (Err ''invalid argument''), w)
     else (Inr (), w\<lparr>entries := map (\<lambda>(q, e). (moved_path a b q, e)) (entries w)\<rparr>))"

definition d_remove_all :: "string \<Rightarrow> ('a disk_scheme, unit) io" where
  "d_remove_all p w = (if faulty w (calls w)
     then (Inl ErrIO, ticked w\<lparr>entries := filter (\<lambda>(q, _). \<not> in_tree p q) (entries w) @
            drop (torn w (calls w)) (filter (\<lambda>(q, _). in_tree p q) (entries w))\<rparr>)
     else (Inr (), keep_entries (\<lambda>q. \<not> in_tree p q) (ticked w)))"

text \<open>\<open>os.MkdirTemp\<close>: the random text takes the place of the \<open>*\<close>, here at the end of the pattern.\<close>

definition d_mkdir_temp :: "string \<Rightarrow> string \<Rightarrow> ('a disk_scheme, string) io" where
  "d_mkdir_temp dir stem = attempt (\<lambda>w. case first_free (\<lambda>q. map_option (\<lambda>_. []) (at w q)) (path_join dir stem) (random w) of
      None \<Rightarrow> (Inl ErrExist, w)
    | Some (p, rs) \<Rightarrow> if folder_at w dir then (Inr p, put_entry p (Folder 448) (w\<lparr>random := rs\<rparr>)) else (Inl ErrNotExist, w))"

text \<open>\<open>filepath.Walk\<close> visits a directory before what is in it, the names in order.\<close>

definition d_walk :: "string \<Rightarrow> ('a disk_scheme, (string \<times> entry) list) io" where
  "d_walk root = attempt (\<lambda>w. if at w root = None then (Inl ErrNotExist, w)
     else (Inr (sort_key (\<lambda>(q, _). split_char CHR ''/'' q) (filter (\<lambda>(q, _). in_tree root q) (entries w))), w))"

text \<open>\<open>filepath.Abs\<close> under a working directory, \<open>filepath.Rel\<close> of absolute paths.\<close>

definition path_abs :: "string \<Rightarrow> string \<Rightarrow> string" where
  "path_abs cwd p = (if has_prefix p ''/'' then path_clean p else path_join cwd p)"

fun strip_common :: "string list \<Rightarrow> string list \<Rightarrow> string list \<times> string list" where
  "strip_common (a # as) (b # bs) = (if a = b then strip_common as bs else (a # as, b # bs))"
| "strip_common as bs = (as, bs)"

definition path_rel :: "string \<Rightarrow> string \<Rightarrow> string" where
  "path_rel base target = (case strip_common (filter (\<lambda>p. p \<noteq> []) (split_char CHR ''/'' base)) (filter (\<lambda>p. p \<noteq> []) (split_char CHR ''/'' target)) of
     (up, down) \<Rightarrow> (let ps = replicate (length up) ''..'' @ down in if ps = [] then ''.'' else join ''/'' ps))"

section \<open>Paths and their directories\<close>

lemma split_char_sep: "split_char c (s @ c # t) = split_char c s @ split_char c t"
  unfolding split_char_def
proof (induction s)
  case Nil
  then show ?case using split_by_append [of "\<lambda>x. x = c" c "[]" t] by (simp add: split_by_all [of "[]"])
next
  case (Cons a s)
  obtain w ws where w: "split_by (\<lambda>x. x = c) s = w # ws"
    using join_split_char by (cases "split_by (\<lambda>x. x = c) s") auto
  with Cons show ?case by simp
qed

lemma join_append: "ws \<noteq> [] \<Longrightarrow> vs \<noteq> [] \<Longrightarrow> join sep (ws @ vs) = join sep ws @ sep @ join sep vs"
  by (induction ws rule: list_nonempty_induct) (auto simp: join_Cons)

lemma in_tree_iff: "in_tree p q \<longleftrightarrow> (\<exists>r. q = p @ r \<and> (r = [] \<or> hd r = CHR ''/''))"
proof
  assume "in_tree p q"
  then show "\<exists>r. q = p @ r \<and> (r = [] \<or> hd r = CHR ''/'')" by (auto simp: in_tree_def has_prefix_iff)
next
  assume "\<exists>r. q = p @ r \<and> (r = [] \<or> hd r = CHR ''/'')"
  then obtain r where r: "q = p @ r" "r = [] \<or> hd r = CHR ''/''" by blast
  then show "in_tree p q" by (cases r) (auto simp: in_tree_def has_prefix_iff)
qed

lemma in_tree_refl [simp]: "in_tree p p"
  by (simp add: in_tree_def)

lemma in_tree_trans: "in_tree a b \<Longrightarrow> in_tree b c \<Longrightarrow> in_tree a c"
  by (auto simp: in_tree_iff hd_append)

lemma in_tree_meet: "in_tree a x \<Longrightarrow> in_tree b x \<Longrightarrow> in_tree a b \<or> in_tree b a"
proof -
  assume "in_tree a x" "in_tree b x"
  then obtain r s where rs: "x = a @ r" "r = [] \<or> hd r = CHR ''/''" "x = b @ s" "s = [] \<or> hd s = CHR ''/''" unfolding in_tree_iff by blast
  then obtain us where "a = b @ us \<and> us @ r = s \<or> a @ us = b \<and> r = us @ s" using append_eq_append_conv2 [of a r b s] by auto
  then show ?thesis using rs by (auto simp: in_tree_iff hd_append split: if_splits)
qed

lemma ancestors_in_tree: "a \<in> set (ancestors p) \<Longrightarrow> in_tree a p"
proof -
  assume "a \<in> set (ancestors p)"
  then obtain k where k: "a = join ''/'' (take k (split_char CHR ''/'' p))" "2 \<le> k" "k \<le> length (split_char CHR ''/'' p)"
    by (auto simp: ancestors_def Let_def)
  let ?ps = "split_char CHR ''/'' p"
  have p: "join ''/'' (take k ?ps @ drop k ?ps) = p" using join_split_char [of "CHR ''/''" p] by simp
  show ?thesis
  proof (cases "drop k ?ps = []")
    case True
    then show ?thesis using p k by (simp add: in_tree_def)
  next
    case False
    have "take k ?ps \<noteq> []" using k by auto
    then have "p = a @ ''/'' @ join ''/'' (drop k ?ps)" using p join_append [OF _ False, of "take k ?ps" "''/''"] k by simp
    then show ?thesis by (auto simp: in_tree_iff)
  qed
qed

lemma ancestors_nonempty: "a \<in> set (ancestors p) \<Longrightarrow> a \<noteq> []"
proof -
  assume "a \<in> set (ancestors p)"
  then obtain k where k: "a = join ''/'' (take k (split_char CHR ''/'' p))" "2 \<le> k" "k \<le> length (split_char CHR ''/'' p)"
    by (auto simp: ancestors_def Let_def)
  then obtain x y zs where "take k (split_char CHR ''/'' p) = x # y # zs"
    by (metis length_take min.absorb2 Suc_le_length_iff numeral_2_eq_2)
  then show ?thesis using k(1) by simp
qed

lemma split_char_two: "c \<in> set s \<Longrightarrow> 2 \<le> length (split_char c s)"
proof -
  assume "c \<in> set s"
  then obtain u v where "s = u @ c # v" by (auto simp: in_set_conv_decomp)
  moreover have "split_char c t \<noteq> []" for t using join_split_char [of c t] by (cases t) (auto simp: split_char_def)
  ultimately show ?thesis by (simp add: split_char_sep) (metis Suc_1 add_le_mono length_greater_0_conv nat_1_add_1 Suc_leI One_nat_def)
qed

lemma ancestors_self: "CHR ''/'' \<in> set p \<Longrightarrow> p \<in> set (ancestors p)"
  using split_char_two [of "CHR ''/''" p] join_split_char [of "CHR ''/''" p]
  by (auto simp: ancestors_def Let_def image_iff intro!: bexI [of _ "length (split_char CHR ''/'' p)"])

text \<open>Clean absolute paths: the names of directories joined behind the root.\<close>

definition good_name :: "string \<Rightarrow> bool" where
  "good_name p \<longleftrightarrow> p \<noteq> [] \<and> p \<noteq> ''.'' \<and> p \<noteq> ''..'' \<and> CHR ''/'' \<notin> set p"

definition rooted_path :: "string list \<Rightarrow> string" where
  "rooted_path ps = CHR ''/'' # join ''/'' ps"

lemma clean_parts_good:
  "list_all good_name acc \<Longrightarrow> \<forall>p\<in>set ps. CHR ''/'' \<notin> set p \<Longrightarrow> list_all good_name (clean_parts True acc ps)"
proof (induction ps arbitrary: acc)
  case (Cons p ps)
  have "list_all good_name (tl acc)" using Cons.prems(1) by (cases acc) auto
  moreover have "list_all good_name (p # acc)" if "p \<noteq> []" "p \<noteq> ''.''" "p \<noteq> ''..''"
    using that Cons.prems good_name_def [of p] by simp
  ultimately show ?case using Cons by simp
qed simp

lemma clean_parts_id: "list_all good_name ps \<Longrightarrow> clean_parts True acc (ps @ rest) = clean_parts True (rev ps @ acc) rest"
  by (induction ps arbitrary: acc) (simp_all add: good_name_def)

lemma split_no_sep: "\<forall>p\<in>set (split_char c s). c \<notin> set p"
proof (induction s)
  case (Cons a s)
  then show ?case by (cases "split_char c s") (auto simp: split_char_def)
qed (simp add: split_char_def)

lemma split_rooted: "ps \<noteq> [] \<Longrightarrow> list_all good_name ps \<Longrightarrow> split_char CHR ''/'' (rooted_path ps) = [] # ps"
  using split_char_sep [of "CHR ''/''" "[]" "join ''/'' ps"] split_join [of ps "CHR ''/''"]
  by (auto simp: rooted_path_def list_all_iff good_name_def split_char_def)

lemma path_clean_rooted: "has_prefix s ''/'' \<Longrightarrow> \<exists>ps. list_all good_name ps \<and> path_clean s = rooted_path ps"
  using clean_parts_good [of "[]" "split_char CHR ''/'' s"] split_no_sep by (auto simp: path_clean_def rooted_path_def)

lemma path_clean_slash:
  assumes "list_all good_name ps"
  shows "path_clean (rooted_path ps @ ''/'') = rooted_path ps" "path_clean (rooted_path ps) = rooted_path ps"
proof -
  have e: "split_char CHR ''/'' [] = [[]]" by (simp add: split_char_def)
  have "clean_parts True [] (split_char CHR ''/'' (rooted_path ps)) = ps"
    using assms clean_parts_id [of ps "[]" "[]"] split_rooted [of ps] split_char_sep [of "CHR ''/''" "[]" "[]"]
    by (cases "ps = []") (auto simp: e rooted_path_def)
  moreover have "clean_parts True [] (split_char CHR ''/'' (rooted_path ps @ ''/'')) = ps"
    using assms clean_parts_id [of ps "[]" "[[]]"] split_rooted [of ps] split_char_sep [of "CHR ''/''" "rooted_path ps" "[]"]
      split_char_sep [of "CHR ''/''" "[]" "[]"]
    by (cases "ps = []") (auto simp: e rooted_path_def)
  ultimately show "path_clean (rooted_path ps @ ''/'') = rooted_path ps" "path_clean (rooted_path ps) = rooted_path ps"
    by (simp_all add: path_clean_def rooted_path_def has_prefix_def)
qed

lemma last_index_append: "c \<notin> set p \<Longrightarrow> last_index_byte (s @ c # p) c = Some (length s)"
  using index_byte_append [of c "rev p" "rev s"] by (simp add: last_index_byte_def)

lemma path_dir_append: "CHR ''/'' \<notin> set p \<Longrightarrow> path_dir (s @ CHR ''/'' # p) = path_clean (s @ ''/'')"
  using last_index_append [of "CHR ''/''" p s] by (simp add: path_dir_def)

lemma rooted_snoc: "rooted_path (ps @ [p]) = (if ps = [] then [] else rooted_path ps) @ CHR ''/'' # p"
  by (auto simp: rooted_path_def join_append)

lemma path_dir_rooted:
  assumes "list_all good_name (ps @ [p])"
  shows "path_dir (rooted_path (ps @ [p])) = rooted_path ps"
proof -
  have p: "CHR ''/'' \<notin> set p" "list_all good_name ps" using assms by (simp_all add: good_name_def)
  have "path_clean (CHR ''/'' # []) = rooted_path []" using path_clean_slash(2) [of "[]"] by (simp add: rooted_path_def)
  then show ?thesis using path_dir_append [OF p(1)] path_clean_slash(1) [OF p(2)] by (simp add: rooted_snoc)
qed

text \<open>A clean path below a clean directory: its own directory is there too.\<close>

lemma below_rooted:
  assumes "list_all good_name ss" and "list_all good_name ts" and "ss \<noteq> []" and "has_prefix (rooted_path ts) (rooted_path ss @ ''/'')"
  shows "\<exists>us u. ts = ss @ us @ [u]"
proof -
  obtain rest where r: "rooted_path ts = rooted_path ss @ CHR ''/'' # rest" using assms(4) by (auto simp: has_prefix_iff)
  have "ts \<noteq> []" using r by (auto simp: rooted_path_def)
  then have "[] # ts = ([] # ss) @ split_char CHR ''/'' rest"
    using r split_char_sep [of "CHR ''/''" "rooted_path ss" rest] split_rooted assms by metis
  moreover have "split_char CHR ''/'' rest \<noteq> []" by (simp add: split_char_def)
  ultimately show ?thesis by (metis append_Cons append_butlast_last_id list.inject)
qed

lemma in_tree_rooted: "ss \<noteq> [] \<Longrightarrow> in_tree (rooted_path ss) (rooted_path (ss @ us))"
  by (cases us) (auto simp: in_tree_iff rooted_path_def join_append)

lemma dir_below:
  assumes "list_all good_name ss" and "list_all good_name ts" and "ss \<noteq> []" and "has_prefix (rooted_path ts) (rooted_path ss @ ''/'')"
  shows "in_tree (rooted_path ss) (path_dir (rooted_path ts))" "in_tree (rooted_path ss) (rooted_path ts)"
proof -
  obtain us u where t: "ts = (ss @ us) @ [u]" using below_rooted [OF assms] by auto
  then show "in_tree (rooted_path ss) (path_dir (rooted_path ts))"
    using path_dir_rooted [of "ss @ us" u] assms(2,3) in_tree_rooted by simp
  show "in_tree (rooted_path ss) (rooted_path ts)" using t in_tree_rooted [OF assms(3), of "us @ [u]"] by simp
qed

end
