(* ===== verification/BackupState.thy ===== *)
theory BackupState
  imports GoDisk Store Password
begin

text \<open>
  The checks of \<open>internal/backup/backup.go\<close> on the database and the key of a backup before it replaces anything: the
  integrity of the image, that the key opens what the database seals, and the state of every table from which the
  panel starts. The tables in an image and the answer of SQLite's integrity check are parameters. Every query
  reads the image and may fail.
\<close>

record backup_checks =
  bc_tables :: "string \<Rightarrow> error + tables"
  bc_integrity :: "string \<Rightarrow> error + string"
  bc_aes :: "string \<Rightarrow> sealer"
  bc_sha256 :: "string \<Rightarrow> string"

definition image_query :: "backup_checks \<Rightarrow> string \<Rightarrow> (tables \<Rightarrow> error + 'r) \<Rightarrow> ('a disk_scheme, 'r) io" where
  "image_query bc path f = io_bind (d_read path) (\<lambda>image. io_of (case bc_tables bc image of Inl e \<Rightarrow> Inl e | Inr t \<Rightarrow> f t))"

definition image_rows :: "backup_checks \<Rightarrow> string \<Rightarrow> (tables \<Rightarrow> 'r list) \<Rightarrow> ('r \<Rightarrow> error option) \<Rightarrow> ('a disk_scheme, unit) io" where
  "image_rows bc path rows check = io_bind (image_query bc path (\<lambda>t. Inr (rows t))) (\<lambda>rs.
     case List.find (\<lambda>r. check r \<noteq> None) rs of Some r \<Rightarrow> io_fail (the (check r)) | None \<Rightarrow> io_return ())"

definition refuse :: "bool \<Rightarrow> string \<Rightarrow> error option" where
  "refuse good message = (if good then None else Some (Err message))"

definition json_valid :: "string \<Rightarrow> bool" where
  "json_valid s \<longleftrightarrow> json_parse s \<noteq> None"

section \<open>Protocol material\<close>

definition nonemptyString :: "obj \<Rightarrow> string \<Rightarrow> bool" where
  "nonemptyString values key \<longleftrightarrow> trim_space (obj_string values key) \<noteq> []"

definition validJSONPort :: "json \<Rightarrow> bool" where
  "validJSONPort v = (case v of JInt n \<Rightarrow> 1 \<le> n \<and> n \<le> 65535 | _ \<Rightarrow> False)"

definition hex_decodes :: "string \<Rightarrow> bool" where
  "hex_decodes s \<longleftrightarrow> even (length s) \<and> list_all is_hex s"

definition validUUIDString :: "json \<Rightarrow> bool" where
  "validUUIDString v = (case v of
      JStr s \<Rightarrow> length s = 36 \<and> s ! 8 = CHR ''-'' \<and> s ! 13 = CHR ''-'' \<and> s ! 18 = CHR ''-'' \<and> s ! 23 = CHR ''-'' \<and>
        hex_decodes (filter (\<lambda>c. c \<noteq> CHR ''-'') s)
    | _ \<Rightarrow> False)"

definition validTLSMaterial :: "obj \<Rightarrow> bool" where
  "validTLSMaterial st = (let certificate = obj_string st ''certificate_path''; key = obj_string st ''key_path''
     in nonemptyString st ''server_name'' \<and> has_prefix certificate ''/'' \<and> has_prefix key ''/'' \<and> certificate \<noteq> key)"

definition validNodeMaterial :: "string \<Rightarrow> obj \<Rightarrow> obj \<Rightarrow> bool" where
  "validNodeMaterial proto st sec =
     (if proto \<in> {ProtocolVLESSReality, ProtocolVLESSH2Reality, ProtocolVLESSGRPCReality, ProtocolAnyTLSReality} then
        nonemptyString sec ''private_key'' \<and> nonemptyString st ''public_key'' \<and> nonemptyString st ''short_id'' \<and>
        nonemptyString st ''handshake_server'' \<and> nonemptyString st ''server_name'' \<and> validJSONPort (obj_any st ''handshake_port'') \<and>
        (proto = ProtocolVLESSH2Reality \<longrightarrow> has_prefix (obj_string st ''transport_path'') ''/'') \<and>
        (proto = ProtocolVLESSGRPCReality \<longrightarrow> nonemptyString st ''service_name'')
      else if proto = ProtocolVLESSWSTLS then validTLSMaterial st \<and> has_prefix (obj_string st ''ws_path'') ''/''
      else if proto = ProtocolVLESSArgo then nonemptyString st ''server_name'' \<and> has_prefix (obj_string st ''ws_path'') ''/''
      else if proto \<in> {ProtocolTrojanTLS, ProtocolHysteria2, ProtocolTUIC, ProtocolAnyTLS} then validTLSMaterial st
      else proto = ProtocolSOCKS5)"

definition validCredential :: "string \<Rightarrow> obj \<Rightarrow> bool" where
  "validCredential proto cred =
     (if proto \<in> {ProtocolVLESSReality, ProtocolVLESSH2Reality, ProtocolVLESSGRPCReality, ProtocolVLESSWSTLS, ProtocolVLESSArgo}
      then validUUIDString (obj_any cred ''uuid'')
      else if proto \<in> {ProtocolTrojanTLS, ProtocolHysteria2, ProtocolAnyTLS, ProtocolAnyTLSReality} then nonemptyString cred ''password''
      else if proto = ProtocolTUIC then validUUIDString (obj_any cred ''uuid'') \<and> nonemptyString cred ''password''
      else if proto = ProtocolSOCKS5 then nonemptyString cred ''username'' \<and> nonemptyString cred ''password''
      else False)"

definition validVPNGateStatus :: "string \<Rightarrow> bool" where
  "validVPNGateStatus status \<longleftrightarrow> status \<in> {''provisioning'', ''running'', ''swapping'', ''faulted'', ''expired''}"

section \<open>The image and the key\<close>

definition validateDatabase :: "backup_checks \<Rightarrow> string \<Rightarrow> ('a disk_scheme, unit) io" where
  "validateDatabase bc path = io_bind (d_read path) (\<lambda>image. case bc_integrity bc image of
      Inl e \<Rightarrow> io_fail e
    | Inr result \<Rightarrow> if result \<noteq> ''ok'' then io_fail (Err ''backup database integrity check failed'') else io_return ())"

definition backup_sealer :: "backup_checks \<Rightarrow> string \<Rightarrow> ('a disk_scheme, sealer) io" where
  "backup_sealer bc keyPath = io_bind (d_read keyPath) (\<lambda>key.
     io_map_error (\<lambda>_. Err ''backup contains an invalid instance encryption key'') (io_of (NewSealer (bc_aes bc) key)))"

definition opens_json :: "sealer \<Rightarrow> string \<Rightarrow> bool" where
  "opens_json blk sealed = (case Open blk sealed of Inl _ \<Rightarrow> False | Inr plain \<Rightarrow> json_valid plain)"

definition validateEncryptionKey :: "backup_checks \<Rightarrow> string \<Rightarrow> string \<Rightarrow> ('a disk_scheme, unit) io" where
  "validateEncryptionKey bc databasePath keyPath = io_bind (backup_sealer bc keyPath) (\<lambda>blk.
     io_bind (image_query bc databasePath (\<lambda>t. case filter (\<lambda>u. usr_id u = 1) (users t) of [] \<Rightarrow> Inl ErrNoRows | u # _ \<Rightarrow> Inr (usr_enc u))) (\<lambda>sealed.
     if isl (Open blk sealed) then io_fail (Err ''backup encryption key does not match the database'')
     else io_bind (image_rows bc databasePath nodes (\<lambda>r. refuse (opens_json blk (nr_secret r)) ''backup contains an undecryptable node secret'')) (\<lambda>_.
       image_rows bc databasePath node_clients (\<lambda>r. refuse (opens_json blk (cr_credential r)) ''backup contains an undecryptable client credential''))))"

section \<open>The state\<close>

definition valid_administrators :: "administrator_row list \<Rightarrow> bool" where
  "valid_administrators rs = (case rs of [a] \<Rightarrow> adm_id a = 1 \<and> ValidAdministratorUsername (adm_name a) \<and> ValidPasswordHash (adm_hash a) | _ \<Rightarrow> False)"

definition valid_users :: "backup_checks \<Rightarrow> sealer \<Rightarrow> user_row list \<Rightarrow> bool" where
  "valid_users bc blk rs = (case rs of
      [u] \<Rightarrow> usr_id u = 1 \<and> usr_enabled u = 1 \<and> (case Open blk (usr_enc u) of
          Inl _ \<Rightarrow> False
        | Inr token \<Rightarrow> 32 \<le> length token \<and> usr_hash u = HashToken (bc_sha256 bc) token)
    | _ \<Rightarrow> False)"

definition valid_admin_path :: "string \<Rightarrow> bool" where
  "valid_admin_path path \<longleftrightarrow> has_prefix path ''manage-'' \<and> hex_decodes (trim_prefix path ''manage-'') \<and> length (trim_prefix path ''manage-'') = 24"

definition valid_node_row :: "tables \<Rightarrow> node_row \<Rightarrow> bool" where
  "valid_node_row t r = (let cs = filter (\<lambda>c. cr_node c = nr_id r) (node_clients t)
     in SupportedProtocol (nr_protocol r) \<and> parse_ip (nr_listen r) \<noteq> None \<and> 1 \<le> nr_port r \<and> nr_port r \<le> 65535 \<and>
        cs \<noteq> [] \<and> list_all (\<lambda>c. cr_user c = 1) cs)"

definition valid_node_material :: "sealer \<Rightarrow> node_row \<Rightarrow> bool" where
  "valid_node_material blk r = (case unmarshal_map (nr_settings r) of
      Inl _ \<Rightarrow> False
    | Inr st \<Rightarrow> (case Open blk (nr_secret r) of
        Inl _ \<Rightarrow> False
      | Inr plain \<Rightarrow> (case unmarshal_map plain of
          Inl _ \<Rightarrow> False | Inr sec \<Rightarrow> validNodeMaterial (nr_protocol r) st sec)))"

definition valid_client_row :: "sealer \<Rightarrow> string \<Rightarrow> client_row \<Rightarrow> bool" where
  "valid_client_row blk proto c = (case Open blk (cr_credential c) of
      Inl _ \<Rightarrow> False
    | Inr plain \<Rightarrow> (case unmarshal_map plain of Inl _ \<Rightarrow> False | Inr cred \<Rightarrow> validCredential proto cred))"

definition node_rows_check :: "backup_checks \<Rightarrow> string \<Rightarrow> sealer \<Rightarrow> tables \<times> node_row \<Rightarrow> ('a disk_scheme, unit) io" where
  "node_rows_check bc path blk = (\<lambda>(t, r).
     if \<not> valid_node_row t r then io_fail (Err ''backup contains an invalid node'')
     else if \<not> valid_node_material blk r then io_fail (Err ''backup contains invalid node protocol material'')
     else image_rows bc path (\<lambda>t. filter (\<lambda>c. cr_node c = nr_id r) (node_clients t))
            (\<lambda>c. refuse (valid_client_row blk (nr_protocol r) c) ''backup contains invalid client protocol material''))"

definition string_map :: "string \<Rightarrow> bool" where
  "string_map s = (case json_parse s of
      Some (JObj kvs) \<Rightarrow> list_all (\<lambda>(_, v). case v of JStr _ \<Rightarrow> True | JNull \<Rightarrow> True | _ \<Rightarrow> False) kvs
    | Some JNull \<Rightarrow> True
    | _ \<Rightarrow> False)"

definition valid_outbound_row :: "sealer \<Rightarrow> outbound_row \<Rightarrow> bool" where
  "valid_outbound_row blk r \<longleftrightarrow> SupportedOutbound (or_type r) \<and> trim_space (or_server r) \<noteq> [] \<and> \<not> contains (or_server r) ''://'' \<and>
     1 \<le> or_port r \<and> or_port r \<le> 65535 \<and> or_enabled r \<in> {0, 1} \<and>
     (case Open blk (or_credential r) of Inl _ \<Rightarrow> False | Inr plain \<Rightarrow> string_map plain)"

definition valid_candidate_row :: "sealer \<Rightarrow> candidate_row \<Rightarrow> bool" where
  "valid_candidate_row blk r \<longleftrightarrow> trim_space (ca_host r) \<noteq> [] \<and> is_ipv4 (ca_ip r) \<and> length (ca_country_short r) = 2 \<and>
     (case Open blk (ca_config r) of Inl _ \<Rightarrow> False | Inr config \<Rightarrow> config \<noteq> [])"

definition exit_check :: "vpn_exit \<times> outbound_row \<Rightarrow> error option" where
  "exit_check = (\<lambda>(x, o'). let expectedAddress = ''10.254.'' @ itoa (slot x) @ ''.2''
     in if slot x < 1 \<or> 5 < slot x \<or> namespace x \<noteq> ''jui-vpn-'' @ itoa (slot x) \<or> local_address x \<noteq> expectedAddress \<or>
           local_port x \<noteq> 1080 \<or> or_managed o' \<noteq> ''vpngate'' \<or> or_type o' \<noteq> OutboundSOCKS5 \<or> or_server o' \<noteq> expectedAddress \<or>
           or_port o' \<noteq> 1080 \<or> (failure_policy x \<noteq> ''block'' \<and> failure_policy x \<noteq> ''auto_swap'') \<or> \<not> validVPNGateStatus (exit_status x)
        then Some (Err ''backup contains invalid VPNGate exit metadata'')
        else if \<not> is_ipv4 (exit_ip x) then Some (Err ''backup contains an invalid VPNGate endpoint'')
        else refuse (exit_status x \<noteq> ''running'' \<or>
               (remote_protocol x \<in> {''udp'', ''tcp-client''} \<and> 1 \<le> remote_port x \<and> remote_port x \<le> 65535))
             ''backup contains an invalid running VPNGate transport'')"

definition exits_with_outbounds :: "tables \<Rightarrow> (vpn_exit \<times> outbound_row) list" where
  "exits_with_outbounds t = concat (map (\<lambda>x. map (Pair x) (filter (\<lambda>o'. or_id o' = exit_outbound x) (outbounds t))) (vpngate_exits t))"

text \<open>The tables that came with later versions of the schema are checked from their version on.\<close>

definition since :: "nat \<Rightarrow> nat \<Rightarrow> ('w, unit) io \<Rightarrow> ('w, unit) io" where
  "since first version m = (if first \<le> version then m else io_return ())"

definition valid_managed_kinds :: "tables \<Rightarrow> bool" where
  "valid_managed_kinds t \<longleftrightarrow> list_all (\<lambda>r. or_managed r \<in> {''manual'', ''vpngate''}) (outbounds t)"

definition validateLogicalState :: "backup_checks \<Rightarrow> string \<Rightarrow> string \<Rightarrow> ('a disk_scheme, unit) io" where
  "validateLogicalState bc databasePath keyPath = io_bind (backup_sealer bc keyPath) (\<lambda>blk.
     io_bind (image_query bc databasePath (\<lambda>t. if references t then Inr () else Inl (Err ''backup contains a foreign-key integrity violation''))) (\<lambda>_.
     io_bind (io_map_error (\<lambda>_. Err ''backup has unsupported schema version'') (image_query bc databasePath (\<lambda>t.
       if user_version t < 1 \<or> 10 < user_version t then Inl (Err ''version'') else Inr (user_version t)))) (\<lambda>version.
     io_bind (image_query bc databasePath (\<lambda>t. if valid_administrators (administrators t) then Inr ()
       else Inl (Err ''backup contains an invalid administrator account''))) (\<lambda>_.
     io_bind (image_query bc databasePath (\<lambda>t. if valid_users bc blk (users t) then Inr ()
       else Inl (Err ''backup contains an invalid default subscription user''))) (\<lambda>_.
     io_bind (io_map_error (\<lambda>_. Err ''backup does not contain a management path'') (image_query bc databasePath (\<lambda>t.
       case filter (\<lambda>r. set_key r = ''admin_path'') (system_settings t) of [] \<Rightarrow> Inl ErrNoRows | r # _ \<Rightarrow> Inr (set_value r)))) (\<lambda>adminPath.
     if \<not> valid_admin_path adminPath then io_fail (Err ''backup contains an invalid management path'')
     else io_bind (image_query bc databasePath (\<lambda>t. Inr (map (Pair t) (sort_key nr_id (nodes t))))) (\<lambda>rs.
       io_bind (io_each (node_rows_check bc databasePath blk) rs) (\<lambda>_.
       io_bind (since 7 version (image_rows bc databasePath outbounds (\<lambda>r. refuse (valid_outbound_row blk r) ''backup contains an invalid manual outbound''))) (\<lambda>_.
       io_bind (since 8 version (io_map_error (\<lambda>_. Err ''backup contains an invalid managed outbound type'')
         (image_query bc databasePath (\<lambda>t. if valid_managed_kinds t then Inr () else Inl (Err ''kind''))))) (\<lambda>_.
       io_bind (since 8 version (image_rows bc databasePath vpngate_candidates (\<lambda>r. refuse (valid_candidate_row blk r) ''backup contains an invalid VPNGate candidate''))) (\<lambda>_.
       io_bind (since 8 version (image_rows bc databasePath exits_with_outbounds exit_check)) (\<lambda>_.
       since 6 version (image_rows bc databasePath config_versions
         (\<lambda>r. refuse (opens_json blk (ver_config r)) ''backup contains an invalid encrypted configuration version''))))))))))))))"

end
