(* ===== verification/Backup.thy ===== *)
theory Backup
  imports GoDisk BackupState
begin

text \<open>
  \<open>internal/backup/backup.go\<close>: the archive of the data and the configuration directory, and the way back: the
  archive is extracted into a staging directory, checked, copied beside the live directories and put in their place
  by renames, which are undone when one fails. The tar and gzip formats are a parameter (a packer of entries and an
  unpacker that gives the entries up to the first damage), the image of a database file is one too. The compressed
  stream is written when it is closed.
\<close>

section \<open>The environment\<close>

datatype tar_type = TypeDir | TypeReg | TypeOther

record tar_header =
  th_name :: string
  th_type :: tar_type
  th_size :: int
  th_mode :: nat

type_synonym tar_entry = "tar_header \<times> string"

record backup_env =
  be_cwd :: string
  be_tmp :: string
  be_pack :: "tar_entry list \<Rightarrow> string"
  be_unpack :: "string \<Rightarrow> error + tar_entry list \<times> error option"
  be_checks :: backup_checks

text \<open>What is deferred runs last, and its failure is not reported.\<close>

definition deferred :: "('w, unit) io \<Rightarrow> ('w, 'a) io \<Rightarrow> ('w, 'a) io" where
  "deferred cleanup m = io_try m (\<lambda>r. io_try cleanup (\<lambda>_. io_of r))"

section \<open>Creating an archive\<close>

definition validateDestination :: "string \<Rightarrow> string \<Rightarrow> string list \<Rightarrow> error option" where
  "validateDestination cwd destination roots =
     (if list_ex (\<lambda>root. let relative = path_rel (path_abs cwd root) (path_abs cwd destination)
          in relative \<noteq> ''..'' \<and> \<not> has_prefix relative ''../'') roots
      then Some (Err ''backup destination must be outside J-UI data and configuration directories'') else None)"

definition tar_header_of :: "string \<Rightarrow> entry \<Rightarrow> error + tar_header" where
  "tar_header_of name info = (case info of
      Folder mode \<Rightarrow> Inr \<lparr>th_name = name, th_type = TypeDir, th_size = 0, th_mode = owner_bits mode\<rparr>
    | Regular mode c \<Rightarrow> Inr \<lparr>th_name = name, th_type = TypeReg, th_size = int (length c), th_mode = owner_bits mode\<rparr>
    | Link _ \<Rightarrow> Inr \<lparr>th_name = name, th_type = TypeOther, th_size = 0, th_mode = 448\<rparr>
    | Socket \<Rightarrow> Inl (Err ''archive/tar: sockets not supported''))"

definition add_entry :: "string \<Rightarrow> string \<Rightarrow> string \<Rightarrow> string \<times> entry \<Rightarrow> ('a disk_scheme, tar_entry list) io" where
  "add_entry root prfx databaseSnapshot = (\<lambda>(path, info). io_bind fs_nop (\<lambda>_.
     if has_suffix path ''-shm'' \<or> has_suffix path ''-wal'' then io_return []
     else let relative = path_rel root path; name = path_join prfx relative;
              snapshot = databaseSnapshot \<noteq> [] \<and> prfx = ''data'' \<and> relative = ''j-ui.db''
       in io_bind (if snapshot then d_stat databaseSnapshot else io_return info) (\<lambda>info.
          io_bind (io_of (tar_header_of name info)) (\<lambda>header. io_bind fs_nop (\<lambda>_.
          if th_type header \<noteq> TypeReg then io_return [(header, [])]
          else io_bind (d_read (if snapshot then databaseSnapshot else path)) (\<lambda>content.
               io_bind fs_nop (\<lambda>_. io_return [(header, content)])))))))"

fun add_entries :: "string \<Rightarrow> string \<Rightarrow> string \<Rightarrow> (string \<times> entry) list \<Rightarrow> ('a disk_scheme, tar_entry list) io" where
  "add_entries root prfx databaseSnapshot [] = io_return []"
| "add_entries root prfx databaseSnapshot (e # es) =
     io_bind (add_entry root prfx databaseSnapshot e) (\<lambda>written.
     io_bind (add_entries root prfx databaseSnapshot es) (\<lambda>rest. io_return (written @ rest)))"

definition addTree :: "string \<Rightarrow> string \<Rightarrow> string \<Rightarrow> ('a disk_scheme, tar_entry list) io" where
  "addTree root prfx databaseSnapshot = io_bind (d_walk root) (add_entries root prfx databaseSnapshot)"

definition create :: "backup_env \<Rightarrow> string \<Rightarrow> string \<Rightarrow> string \<Rightarrow> string \<Rightarrow> ('a disk_scheme, unit) io" where
  "create env destination dataDir configDir databaseSnapshot =
     (case validateDestination (be_cwd env) destination [dataDir, configDir] of
        Some e \<Rightarrow> io_fail e
      | None \<Rightarrow> io_bind (d_open_new destination 384) (\<lambda>_.
          io_try (io_bind (addTree dataDir ''data'' databaseSnapshot) (\<lambda>stored.
                  io_bind (addTree configDir ''config'' databaseSnapshot) (\<lambda>config.
                  io_bind (d_write destination (be_pack env (stored @ config))) (\<lambda>_. fs_nop)))) (\<lambda>r. case r of
              Inr _ \<Rightarrow> io_try fs_nop (\<lambda>_. io_return ())
            | Inl e \<Rightarrow> io_try fs_nop (\<lambda>_. io_try (d_remove destination) (\<lambda>_. io_fail e)))))"

definition Create_backup :: "backup_env \<Rightarrow> string \<Rightarrow> string \<Rightarrow> string \<Rightarrow> ('a disk_scheme, unit) io" where
  "Create_backup env destination dataDir configDir = create env destination dataDir configDir []"

definition CreateWithDatabaseSnapshot :: "backup_env \<Rightarrow> string \<Rightarrow> string \<Rightarrow> string \<Rightarrow> string \<Rightarrow> ('a disk_scheme, unit) io" where
  "CreateWithDatabaseSnapshot env destination dataDir configDir databaseSnapshot =
     (if \<not> has_prefix databaseSnapshot ''/'' then io_fail (Err ''database snapshot path must be absolute'')
      else create env destination dataDir configDir databaseSnapshot)"

section \<open>Extracting\<close>

definition maximumBackupBytes :: int where
  "maximumBackupBytes = 2 ^ 30"

text \<open>An entry of the archive; the number of bytes extracted so far goes along.\<close>

definition extract_entry :: "string \<Rightarrow> int \<Rightarrow> tar_entry \<Rightarrow> ('a disk_scheme, int) io" where
  "extract_entry staging extracted = (\<lambda>(header, content).
     let clean = path_clean (th_name header); target = path_join staging clean
     in if clean = ''.'' \<or> has_prefix clean ''/'' \<or> has_prefix clean ''../'' then io_fail (Err ''backup contains an unsafe path'')
        else if \<not> has_prefix target (staging @ ''/'') then io_fail (Err ''backup path escapes staging directory'')
        else case th_type header of
            TypeDir \<Rightarrow> io_bind (d_mkdir_all target 448) (\<lambda>_. io_return extracted)
          | TypeReg \<Rightarrow> if th_size header < 0 \<or> maximumBackupBytes - extracted < th_size header
              then io_fail (Err ''backup exceeds the 1 GiB extraction limit'')
              else io_bind (d_mkdir_all (path_dir target) 448) (\<lambda>_.
                io_bind (d_open_new target (owner_bits (th_mode header))) (\<lambda>_.
                io_try (io_bind (d_write target (take (nat (th_size header)) content)) (\<lambda>_.
                    if int (length content) < th_size header then io_fail (Err ''unexpected EOF'') else io_return ())) (\<lambda>r.
                io_try fs_nop (\<lambda>closed. case r of
                    Inl e \<Rightarrow> io_fail e
                  | Inr _ \<Rightarrow> (case closed of Inl e \<Rightarrow> io_fail e | Inr _ \<Rightarrow> io_return (extracted + th_size header))))))
          | TypeOther \<Rightarrow> io_fail (Err ''unsupported backup entry''))"

fun extract_entries :: "string \<Rightarrow> int \<Rightarrow> tar_entry list \<Rightarrow> error option \<Rightarrow> ('a disk_scheme, unit) io" where
  "extract_entries staging extracted [] damage = (case damage of Some e \<Rightarrow> io_fail e | None \<Rightarrow> io_return ())"
| "extract_entries staging extracted (e # es) damage =
     io_bind (extract_entry staging extracted e) (\<lambda>extracted. extract_entries staging extracted es damage)"

section \<open>Replacing the live directories\<close>

text \<open>\<open>rename\<close> and \<open>removeAll\<close> are arguments of the code's routine.\<close>

type_synonym 'w rename_op = "string \<Rightarrow> string \<Rightarrow> ('w, unit) io"
type_synonym 'w remove_op = "string \<Rightarrow> ('w, unit) io"

definition restoreTree :: "'w rename_op \<Rightarrow> string \<Rightarrow> string \<Rightarrow> bool \<Rightarrow> ('w, unit) io" where
  "restoreTree rename oldPath livePath existed =
     (if \<not> existed then io_return () else io_map_error (Wrap (''restore '' @ livePath)) (rename oldPath livePath))"

definition removeIfPresent :: "'w remove_op \<Rightarrow> string \<Rightarrow> bool \<Rightarrow> ('w, unit) io" where
  "removeIfPresent removal path present =
     (if \<not> present then io_return () else io_map_error (Wrap (''remove rollback tree '' @ path)) (removal path))"

definition joinRollback :: "error option \<Rightarrow> error option list \<Rightarrow> ('w, unit) io" where
  "joinRollback primary rollbackErrors = (case errors_Join (primary # rollbackErrors) of None \<Rightarrow> io_return () | Some e \<Rightarrow> io_fail e)"

text \<open>Run a step and go on with its error, if it had one.\<close>

definition with_error :: "('w, unit) io \<Rightarrow> (error option \<Rightarrow> ('w, 'b) io) \<Rightarrow> ('w, 'b) io" where
  "with_error m k = io_try m (\<lambda>r. k (case r of Inl e \<Rightarrow> Some e | Inr _ \<Rightarrow> None))"

definition move_aside :: "'w rename_op \<Rightarrow> string \<Rightarrow> string \<Rightarrow> ('w, bool) io" where
  "move_aside rename live old = io_try (rename live old) (\<lambda>r. case r of
      Inr _ \<Rightarrow> io_return True
    | Inl e \<Rightarrow> if error_is ErrNotExist e then io_return False else io_fail e)"

definition put_data :: "'w rename_op \<Rightarrow> string \<Rightarrow> string \<Rightarrow> string \<Rightarrow> string \<Rightarrow> string \<Rightarrow> bool \<Rightarrow> bool \<Rightarrow> ('w, unit) io" where
  "put_data rename stagedData dataDir oldData configDir oldConfig hadData hadConfig =
     io_try (rename stagedData dataDir) (\<lambda>r. case r of
       Inr _ \<Rightarrow> io_return ()
     | Inl e \<Rightarrow> with_error (restoreTree rename oldData dataDir hadData) (\<lambda>a.
                 with_error (restoreTree rename oldConfig configDir hadConfig) (\<lambda>b. joinRollback (Some e) [a, b])))"

definition put_config :: "'w rename_op \<Rightarrow> 'w remove_op \<Rightarrow> string \<Rightarrow> string \<Rightarrow> string \<Rightarrow> string \<Rightarrow> string \<Rightarrow> bool \<Rightarrow> bool \<Rightarrow>
    ('w, unit) io" where
  "put_config rename removal stagedConfig dataDir oldData configDir oldConfig hadData hadConfig =
     io_try (rename stagedConfig configDir) (\<lambda>r. case r of
       Inr _ \<Rightarrow> io_return ()
     | Inl e \<Rightarrow> with_error (removal dataDir) (\<lambda>removed.
                 with_error (if removed = None then restoreTree rename oldData dataDir hadData else io_return ()) (\<lambda>a.
                 with_error (restoreTree rename oldConfig configDir hadConfig) (\<lambda>b. joinRollback (Some e) [removed, a, b]))))"

definition swap_trees :: "'w rename_op \<Rightarrow> 'w remove_op \<Rightarrow> string \<Rightarrow> string \<Rightarrow> string \<Rightarrow> string \<Rightarrow> string \<Rightarrow> string \<Rightarrow> ('w, unit) io" where
  "swap_trees rename removal stagedData dataDir oldData stagedConfig configDir oldConfig =
     io_bind (move_aside rename dataDir oldData) (\<lambda>hadData.
     io_try (move_aside rename configDir oldConfig) (\<lambda>r. case r of
         Inl e \<Rightarrow> with_error (restoreTree rename oldData dataDir hadData) (\<lambda>a. joinRollback (Some e) [a])
       | Inr hadConfig \<Rightarrow>
           io_bind (put_data rename stagedData dataDir oldData configDir oldConfig hadData hadConfig) (\<lambda>_.
           io_bind (put_config rename removal stagedConfig dataDir oldData configDir oldConfig hadData hadConfig) (\<lambda>_.
           with_error (removeIfPresent removal oldData hadData) (\<lambda>a. with_error (removeIfPresent removal oldConfig hadConfig) (\<lambda>b.
             joinRollback None [a, b]))))))"

definition replaceTreeWithOps :: "string \<Rightarrow> string \<Rightarrow> string \<Rightarrow> string \<Rightarrow> ('a disk_scheme) rename_op \<Rightarrow> ('a disk_scheme) remove_op \<Rightarrow>
    ('a disk_scheme, unit) io" where
  "replaceTreeWithOps stagedData dataDir stagedConfig configDir rename removal =
     io_bind (d_mkdir_all (path_dir dataDir) 493) (\<lambda>_. io_bind (d_mkdir_all (path_dir configDir) 493) (\<lambda>_. io_bind time_now (\<lambda>now.
     swap_trees rename removal stagedData dataDir (dataDir @ ''.pre-restore-'' @ itoa now) stagedConfig configDir
       (configDir @ ''.pre-restore-'' @ itoa now))))"

definition replaceTree :: "string \<Rightarrow> string \<Rightarrow> string \<Rightarrow> string \<Rightarrow> ('a disk_scheme, unit) io" where
  "replaceTree stagedData dataDir stagedConfig configDir =
     replaceTreeWithOps stagedData dataDir stagedConfig configDir d_rename d_remove_all"

section \<open>Restoring\<close>

definition copy_entry :: "string \<Rightarrow> string \<Rightarrow> string \<times> entry \<Rightarrow> ('a disk_scheme, unit) io" where
  "copy_entry src destination = (\<lambda>(path, info). io_bind fs_nop (\<lambda>_.
     let target = path_join destination (path_rel src path)
     in case info of
          Folder mode \<Rightarrow> d_mkdir_all target (owner_bits mode)
        | Regular mode _ \<Rightarrow> io_bind (d_read path) (\<lambda>content. io_bind (d_open_new target (owner_bits mode)) (\<lambda>_.
            io_try (d_write target content) (\<lambda>r. io_try fs_nop (\<lambda>closed. case r of
                Inl e \<Rightarrow> io_fail e | Inr _ \<Rightarrow> io_of closed))))
        | _ \<Rightarrow> io_fail (Err ''unsupported staged file'')))"

definition copyTree :: "string \<Rightarrow> string \<Rightarrow> ('a disk_scheme, unit) io" where
  "copyTree src destination = io_bind (d_walk src) (io_each (copy_entry src destination))"

definition stageTree :: "string \<Rightarrow> string \<Rightarrow> string \<Rightarrow> ('a disk_scheme, string) io" where
  "stageTree src parent stem = io_bind (d_mkdir_all parent 493) (\<lambda>_. io_bind (d_mkdir_temp parent stem) (\<lambda>destination.
     io_try (copyTree src destination) (\<lambda>r. case r of
         Inl e \<Rightarrow> io_try (d_remove_all destination) (\<lambda>_. io_fail e)
       | Inr _ \<Rightarrow> io_return destination)))"

definition staged_checks :: "backup_checks \<Rightarrow> string \<Rightarrow> ('a disk_scheme, unit) io" where
  "staged_checks bc staging = (let databasePath = path_join staging ''data/j-ui.db''; keyPath = path_join staging ''config/secret.key''
     in io_try (d_stat databasePath) (\<lambda>r. if isl r then io_fail (Err ''backup does not contain j-ui.db'')
        else io_try (d_stat keyPath) (\<lambda>r. if isl r then io_fail (Err ''backup does not contain the instance encryption key'')
        else io_bind (validateDatabase bc databasePath) (\<lambda>_. io_bind (validateEncryptionKey bc databasePath keyPath) (\<lambda>_.
             validateLogicalState bc databasePath keyPath)))))"

definition Restore :: "backup_env \<Rightarrow> string \<Rightarrow> string \<Rightarrow> string \<Rightarrow> ('a disk_scheme, unit) io" where
  "Restore env archive dataDir configDir =
     io_bind (d_read archive) (\<lambda>bytes. io_bind (io_of (be_unpack env bytes)) (\<lambda>(es, damage).
     io_bind (d_mkdir_temp (be_tmp env) ''j-ui-restore-'') (\<lambda>staging. deferred (d_remove_all staging)
       (io_bind (extract_entries staging 0 es damage) (\<lambda>_. io_bind (staged_checks (be_checks env) staging) (\<lambda>_.
        io_bind (stageTree (path_join staging ''data'') (path_dir dataDir) ''.j-ui-data-restore-'') (\<lambda>stagedData. deferred (d_remove_all stagedData)
       (io_bind (stageTree (path_join staging ''config'') (path_dir configDir) ''.j-ui-config-restore-'') (\<lambda>stagedConfig. deferred (d_remove_all stagedConfig)
       (replaceTree stagedData dataDir stagedConfig configDir))))))))))"

end
