(* ===== verification/BackupLaws.thy ===== *)
theory BackupLaws
  imports Backup
begin

text \<open>
  Replacing the live directories by restored ones: whatever fails, both live trees are the old ones or both are the
  new ones, or the error says that the rollback failed too and the old trees are still where they were set aside.
\<close>

section \<open>Outcomes\<close>

text \<open>More errors than the one that started the rollback; a tree that is not lost.\<close>

definition rollback_reported :: "error \<Rightarrow> bool" where
  "rollback_reported e \<longleftrightarrow> (\<exists>a b es. e = Join (a # b # es))"

definition not_lost :: "('t \<Rightarrow> bool) \<Rightarrow> 't \<Rightarrow> (string \<Rightarrow> 't) \<Rightarrow> string \<Rightarrow> string \<Rightarrow> bool" where
  "not_lost absent t after live old \<longleftrightarrow> absent t \<or> after live = t \<or> after old = t"

lemma joinRollback_Inr: "joinRollback e es w = (Inr u, w') \<Longrightarrow> e = None \<and> set es \<subseteq> {None} \<and> w' = w"
  by (auto simp: joinRollback_def split: option.splits if_splits)

lemma joinRollback_Inl:
  "joinRollback (Some e) es w = (r, w') \<Longrightarrow> w' = w \<and> (\<exists>e'. r = Inl e' \<and> (set es \<subseteq> {None} \<or> rollback_reported e'))"
proof -
  assume j: "joinRollback (Some e) es w = (r, w')"
  have f: "errors_Join (Some e # es) = Some (Join (e # List.map_filter (\<lambda>e. e) es))"
    by (simp add: errors_Join_def map_filter_simps)
  have "set es \<subseteq> {None} \<or> rollback_reported (Join (e # List.map_filter (\<lambda>e. e) es))"
  proof (cases "List.map_filter (\<lambda>e. e) es")
    case Nil
    then show ?thesis by (induction es) (auto simp: map_filter_simps split: option.splits)
  qed (simp add: rollback_reported_def)
  then show ?thesis using j f by (auto simp: joinRollback_def)
qed

text \<open>A live tree \<open>t\<close> that was set aside, or was not there.\<close>

definition set_aside :: "'t \<Rightarrow> ('t \<Rightarrow> bool) \<Rightarrow> (string \<Rightarrow> 't) \<Rightarrow> bool \<Rightarrow> string \<Rightarrow> string \<Rightarrow> 't \<Rightarrow> bool" where
  "set_aside gone absent after had live old t \<longleftrightarrow> (if had then after live = gone \<and> after old = t else after live = t \<and> absent t)"

text \<open>After an error: both live trees are back, or the rollback failed, which is reported, and nothing is lost.\<close>

definition back_or_reported :: "('t \<Rightarrow> bool) \<Rightarrow> 't \<Rightarrow> 't \<Rightarrow> (string \<Rightarrow> 't) \<Rightarrow> string \<Rightarrow> string \<Rightarrow> string \<Rightarrow> string \<Rightarrow> error \<Rightarrow> bool" where
  "back_or_reported absent t u after d oldD c oldC e \<longleftrightarrow> after d = t \<and> after c = u \<or>
     rollback_reported e \<and> not_lost absent t after d oldD \<and> not_lost absent u after c oldC"

section \<open>Renaming trees\<close>

text \<open>
  What the routine relies on: a rename that succeeds moves a whole tree, one that fails moves nothing, and a removal
  touches one tree only. The paths in \<open>names\<close> do not lie inside each other.
\<close>

locale tree_swap =
  fixes tree :: "'w \<Rightarrow> string \<Rightarrow> 't" and gone :: 't and absent :: "'t \<Rightarrow> bool"
    and names :: "string set" and ready :: "'w \<Rightarrow> bool"
    and rename :: "string \<Rightarrow> string \<Rightarrow> ('w, unit) io" and removal :: "string \<Rightarrow> ('w, unit) io"
  assumes rename_Inr: "ready w \<Longrightarrow> a \<in> names \<Longrightarrow> b \<in> names \<Longrightarrow> a \<noteq> b \<Longrightarrow> rename a b w = (Inr (), w') \<Longrightarrow>
      ready w' \<and> tree w b = gone \<and> tree w' b = tree w a \<and> (\<forall>p\<in>names - {a, b}. tree w' p = tree w p) \<and> tree w' a = gone"
    and rename_Inl: "ready w \<Longrightarrow> a \<in> names \<Longrightarrow> b \<in> names \<Longrightarrow> a \<noteq> b \<Longrightarrow> rename a b w = (Inl e, w') \<Longrightarrow>
      ready w' \<and> (\<forall>p\<in>names. tree w' p = tree w p) \<and> (error_is ErrNotExist e \<longrightarrow> absent (tree w a))"
    and removal: "ready w \<Longrightarrow> a \<in> names \<Longrightarrow> removal a w = (r, w') \<Longrightarrow>
      ready w' \<and> (\<forall>p\<in>names - {a}. tree w' p = tree w p) \<and> (r = Inr () \<longrightarrow> tree w' a = gone)"
begin

lemma restore_step:
  assumes "ready w" and "restoreTree rename old live existed w = (r, w')" and "old \<in> names" and "live \<in> names" and "old \<noteq> live"
  shows "ready w' \<and> (\<forall>p\<in>names - {old, live}. tree w' p = tree w p) \<and>
    (case r of Inr _ \<Rightarrow> tree w' live = (if existed then tree w old else tree w live)
     | Inl _ \<Rightarrow> existed \<and> tree w' old = tree w old \<and> tree w' live = tree w live)"
proof (cases existed)
  case True
  obtain r1 w1 where 1: "rename old live w = (r1, w1)" by (cases "rename old live w")
  with True assms(2) have "w' = w1 \<and> (r1 = Inr () \<and> r = Inr () \<or> isl r1 \<and> isl r)"
    by (cases r1) (auto simp: restoreTree_def io_map_error_def io_try_def)
  then show ?thesis
    using rename_Inr [OF assms(1,3,4,5), of w1] rename_Inl [OF assms(1,3,4,5), of _ w1] 1 True assms(3,4)
    by (cases r1) (auto simp: isl_def)
next
  case False
  then show ?thesis using assms by (auto simp: restoreTree_def)
qed

lemma aside_step:
  assumes "ready w" and "move_aside rename live old w = (r, w')" and "old \<in> names" and "live \<in> names" and "old \<noteq> live"
  shows "ready w' \<and> (\<forall>p\<in>names - {old, live}. tree w' p = tree w p) \<and>
    (case r of Inr True \<Rightarrow> tree w' live = gone \<and> tree w' old = tree w live
     | Inr False \<Rightarrow> tree w' live = tree w live \<and> absent (tree w live)
     | Inl _ \<Rightarrow> tree w' live = tree w live)"
proof -
  obtain r1 w1 where 1: "rename live old w = (r1, w1)" by (cases "rename live old w")
  show ?thesis
  proof (cases r1)
    case (Inl e)
    then show ?thesis using rename_Inl [OF assms(1,4,3), of e w1] 1 assms
      by (auto simp: move_aside_def io_try_def split: if_splits)
  next
    case (Inr u)
    then show ?thesis using rename_Inr [OF assms(1,4,3), of w1] 1 assms by (auto simp: move_aside_def io_try_def)
  qed
qed

text \<open>Putting both back: the trees, or the errors of the rollback.\<close>

lemma restore_both:
  assumes "ready w" and "set_aside gone absent (tree w) hadD d oldD t" and "set_aside gone absent (tree w) hadC c oldC u"
    and "{d, oldD, c, oldC} \<subseteq> names" and "distinct [d, oldD, c, oldC]"
    and "with_error (restoreTree rename oldD d hadD) (\<lambda>a. with_error (restoreTree rename oldC c hadC) (\<lambda>b.
      joinRollback (Some e0) (xs @ [a, b]))) w = (r, w')"
  shows "\<exists>e. r = Inl e \<and> back_or_reported absent t u (tree w') d oldD c oldC e"
proof -
  obtain r1 w1 r2 w2 where 1: "restoreTree rename oldD d hadD w = (r1, w1)" and 2: "restoreTree rename oldC c hadC w1 = (r2, w2)"
    by (metis prod.exhaust)
  define err :: "error + unit \<Rightarrow> error option" where "err = (\<lambda>r. case r of Inl e \<Rightarrow> Some e | Inr _ \<Rightarrow> None)"
  have j: "joinRollback (Some e0) (xs @ [err r1, err r2]) w2 = (r, w')"
    using assms(6) 1 2 by (simp add: with_error_def io_try_def err_def)
  from joinRollback_Inl [OF this] obtain e where e: "w' = w2" "r = Inl e" "set (xs @ [err r1, err r2]) \<subseteq> {None} \<or> rollback_reported e" by blast
  have d1: "oldD \<noteq> d" "oldC \<noteq> c" and n: "d \<in> names" "oldD \<in> names" "c \<in> names" "oldC \<in> names" using assms(4,5) by auto
  note s1 = restore_step [OF assms(1) 1 n(2,1) d1(1)]
  note s2 = restore_step [OF s1 [THEN conjunct1] 2 n(4,3) d1(2)]
  have f1: "tree w1 p = tree w p" if "p \<in> {c, oldC}" for p using s1 that n assms(5) by auto
  have f2: "tree w2 p = tree w1 p" if "p \<in> {d, oldD}" for p using s2 that n assms(5) by auto
  have D: "if r1 = Inr () then tree w2 d = t else not_lost absent t (tree w2) d oldD"
    using s1 f2 assms(2) by (cases r1) (auto simp: set_aside_def not_lost_def split: if_splits)
  have C: "if r2 = Inr () then tree w2 c = u else not_lost absent u (tree w2) c oldC"
    using s2 f1 assms(3) by (cases r2) (auto simp: set_aside_def not_lost_def split: if_splits)
  have "r1 = Inr () \<and> r2 = Inr () \<or> rollback_reported e"
    using e(3) by (cases r1; cases r2) (auto simp: err_def)
  then show ?thesis using D C e(1,2) by (auto simp: not_lost_def back_or_reported_def split: if_splits)
qed

lemma put_data_step:
  assumes "ready w" and "set_aside gone absent (tree w) hadD d oldD t" and "set_aside gone absent (tree w) hadC c oldC u"
    and n: "{d, oldD, c, oldC, sd} \<subseteq> names" and di: "distinct [d, oldD, c, oldC, sd]"
    and "put_data rename sd d oldD c oldC hadD hadC w = (r, w')"
  shows "case r of Inr _ \<Rightarrow> ready w' \<and> tree w d = gone \<and> tree w' d = tree w sd \<and> (\<forall>p\<in>names - {sd, d}. tree w' p = tree w p)
    | Inl e \<Rightarrow> back_or_reported absent t u (tree w') d oldD c oldC e"
proof -
  obtain r1 w1 where 1: "rename sd d w = (r1, w1)" by (cases "rename sd d w")
  have n': "sd \<in> names" "d \<in> names" "sd \<noteq> d" "{d, oldD, c, oldC} \<subseteq> names" "distinct [d, oldD, c, oldC]" using n di by auto
  show ?thesis
  proof (cases r1)
    case (Inr v)
    then show ?thesis using rename_Inr [OF assms(1) n'(1-3), of w1] 1 assms(6) by (auto simp: put_data_def io_try_def)
  next
    case (Inl e0)
    note f = rename_Inl [OF assms(1) n'(1-3), of e0 w1] 1 Inl
    have p: "p \<in> {d, oldD, c, oldC} \<Longrightarrow> tree w1 p = tree w p" for p using f n by auto
    have a: "set_aside gone absent (tree w1) hadD d oldD t" "set_aside gone absent (tree w1) hadC c oldC u"
      using assms(2,3) p by (simp_all add: set_aside_def)
    have "with_error (restoreTree rename oldD d hadD) (\<lambda>a. with_error (restoreTree rename oldC c hadC) (\<lambda>b.
        joinRollback (Some e0) ([] @ [a, b]))) w1 = (r, w')"
      using assms(6) 1 Inl by (simp add: put_data_def io_try_def)
    from restore_both [OF _ a n'(4,5) this] f show ?thesis by (auto split: sum.split)
  qed
qed

lemma put_config_step:
  assumes "ready w" and "if hadD then tree w oldD = t else t = gone" and "set_aside gone absent (tree w) hadC c oldC u"
    and gone: "absent gone" and n: "{d, oldD, c, oldC, sc} \<subseteq> names" and di: "distinct [d, oldD, c, oldC, sc]"
    and "put_config rename removal sc d oldD c oldC hadD hadC w = (r, w')"
  shows "case r of Inr _ \<Rightarrow> ready w' \<and> tree w' c = tree w sc \<and> (\<forall>p\<in>names - {sc, c}. tree w' p = tree w p)
    | Inl e \<Rightarrow> back_or_reported absent t u (tree w') d oldD c oldC e"
proof -
  obtain r1 w1 where 1: "rename sc c w = (r1, w1)" by (cases "rename sc c w")
  have n': "sc \<in> names" "c \<in> names" "sc \<noteq> c" "{d, oldD, c, oldC} \<subseteq> names" "distinct [d, oldD, c, oldC]" "d \<in> names" using n di by auto
  show ?thesis
  proof (cases r1)
    case (Inr v)
    then show ?thesis using rename_Inr [OF assms(1) n'(1-3), of w1] 1 assms(7) by (auto simp: put_config_def io_try_def)
  next
    case (Inl e0)
    note f = rename_Inl [OF assms(1) n'(1-3), of e0 w1] 1 Inl
    have p: "p \<in> {d, oldD, c, oldC} \<Longrightarrow> tree w1 p = tree w p" for p using f n by auto
    obtain r2 w2 where 2: "removal d w1 = (r2, w2)" by (cases "removal d w1")
    note g = removal [OF _ n'(6) 2] f
    have q: "p \<in> {oldD, c, oldC} \<Longrightarrow> tree w2 p = tree w p" for p using f g p n di by auto
    have C: "set_aside gone absent (tree w2) hadC c oldC u" using assms(3) q by (simp add: set_aside_def)
    show ?thesis
    proof (cases r2)
      case (Inr v)
      have D: "set_aside gone absent (tree w2) hadD d oldD t"
        using assms(2) q g Inr gone by (auto simp: set_aside_def split: if_splits)
      have "with_error (restoreTree rename oldD d hadD) (\<lambda>a. with_error (restoreTree rename oldC c hadC) (\<lambda>b.
          joinRollback (Some e0) ([None] @ [a, b]))) w2 = (r, w')"
        using assms(7) 1 2 Inr \<open>r1 = Inl e0\<close> by (simp add: put_config_def with_error_def io_try_def)
      from restore_both [OF _ D C n'(4,5) this] g show ?thesis by (auto split: sum.split)
    next
      case (Inl e1)
      obtain r3 w3 where 3: "restoreTree rename oldC c hadC w2 = (r3, w3)" by (cases "restoreTree rename oldC c hadC w2")
      obtain x where "joinRollback (Some e0) [Some e1, None, x] w3 = (r, w')"
        using assms(7) 1 2 3 Inl \<open>r1 = Inl e0\<close> by (auto simp: put_config_def with_error_def io_try_def)
      from joinRollback_Inl [OF this] obtain e where e: "w' = w3" "r = Inl e" "rollback_reported e" by auto
      have "oldC \<in> names" "c \<in> names" "oldC \<noteq> c" using n di by auto
      from restore_step [OF _ 3 this] g have s: "tree w3 oldD = tree w2 oldD" "not_lost absent u (tree w3) c oldC"
        using n di C by (auto simp: set_aside_def not_lost_def split: sum.splits if_splits)
      have "not_lost absent t (tree w3) d oldD" using s(1) q assms(2) gone by (auto simp: not_lost_def split: if_splits)
      then show ?thesis using e s by (simp add: back_or_reported_def)
    qed
  qed
qed

lemma remove_step:
  assumes "ready w" and "removeIfPresent removal a present w = (r, w')" and "a \<in> names"
  shows "ready w' \<and> (\<forall>p\<in>names - {a}. tree w' p = tree w p)"
proof (cases present)
  case True
  obtain r1 w1 where 1: "removal a w = (r1, w1)" by (cases "removal a w")
  with True assms(2) have "w' = w1" by (cases r1) (auto simp: removeIfPresent_def io_map_error_def io_try_def)
  then show ?thesis using removal [OF assms(1,3) 1] by simp
next
  case False
  then show ?thesis using assms by (auto simp: removeIfPresent_def)
qed

lemma swap_outcome:
  assumes "ready w" and gone: "absent gone" and n: "{d, oldD, c, oldC, sd, sc} \<subseteq> names" and di: "distinct [d, oldD, c, oldC, sd, sc]"
    and s: "swap_trees rename removal sd d oldD sc c oldC w = (r, w')"
  shows "tree w' d = tree w sd \<and> tree w' c = tree w sc \<or>
    (\<exists>e. r = Inl e \<and> back_or_reported absent (tree w d) (tree w c) (tree w') d oldD c oldC e)"
proof -
  let ?t = "tree w d" and ?u = "tree w c"
  have n': "oldD \<in> names" "d \<in> names" "oldC \<in> names" "c \<in> names" "oldD \<noteq> d" "oldC \<noteq> c" using n di by auto
  obtain r1 w1 where 1: "move_aside rename d oldD w = (r1, w1)" by (cases "move_aside rename d oldD w")
  note f1 = aside_step [OF assms(1) 1 n'(1,2,5)]
  show ?thesis
  proof (cases r1)
    case (Inl e)
    then show ?thesis using f1 s 1 n di by (auto simp: swap_trees_def io_bind_def back_or_reported_def)
  next
    case (Inr hadD)
    have A1: "set_aside gone absent (tree w1) hadD d oldD ?t" using f1 Inr by (cases hadD) (auto simp: set_aside_def)
    obtain r2 w2 where 2: "move_aside rename c oldC w1 = (r2, w2)" by (cases "move_aside rename c oldC w1")
    note f2 = aside_step [OF f1 [THEN conjunct1] 2 n'(3,4,6)]
    have e1: "tree w1 p = tree w p" if "p \<in> {c, oldC, sd, sc}" for p using that f1 n di by auto
    have e2: "tree w2 p = tree w1 p" if "p \<in> {d, oldD, sd, sc}" for p using that f2 n di by auto
    have A2: "set_aside gone absent (tree w2) hadD d oldD ?t" using A1 e2 by (simp add: set_aside_def)
    show ?thesis
    proof (cases r2)
      case (Inl e)
      obtain r3 w3 where 3: "restoreTree rename oldD d hadD w2 = (r3, w3)" by (cases "restoreTree rename oldD d hadD w2")
      define x where "x = (case r3 of Inl e \<Rightarrow> Some e | Inr _ \<Rightarrow> None)"
      have "joinRollback (Some e) [x] w3 = (r, w')"
        using s 1 2 3 Inl Inr by (simp add: swap_trees_def io_bind_def io_try_def with_error_def x_def)
      from joinRollback_Inl [OF this] obtain e' where e: "w' = w3" "r = Inl e'" "x = None \<or> rollback_reported e'" by auto
      note f3 = restore_step [OF f2 [THEN conjunct1] 3 n'(1,2,5)]
      have "tree w3 c = ?u" using f3 f2 Inl e1 n di by auto
      moreover have "if x = None then tree w3 d = ?t else not_lost absent ?t (tree w3) d oldD"
        using f3 A2 by (cases r3) (auto simp: set_aside_def not_lost_def x_def split: if_splits)
      ultimately show ?thesis using e by (auto simp: back_or_reported_def not_lost_def split: if_splits)
    next
      case (Inr hadC)
      have C2: "set_aside gone absent (tree w2) hadC c oldC ?u"
        using f2 Inr e1 by (cases hadC) (auto simp: set_aside_def)
      obtain r3 w3 where 3: "put_data rename sd d oldD c oldC hadD hadC w2 = (r3, w3)"
        by (cases "put_data rename sd d oldD c oldC hadD hadC w2")
      have "{d, oldD, c, oldC, sd} \<subseteq> names" "distinct [d, oldD, c, oldC, sd]" using n di by auto
      note f3 = put_data_step [OF f2 [THEN conjunct1] A2 C2 this 3]
      show ?thesis
      proof (cases r3)
        case (Inl e)
        then show ?thesis using s 1 2 3 Inr f3 \<open>r1 = Inr hadD\<close> by (auto simp: swap_trees_def io_bind_def io_try_def)
      next
        case (Inr v)
        have e3: "tree w3 p = tree w2 p" if "p \<in> {oldD, c, oldC, sc}" for p using that f3 Inr n di by auto
        have D3: "if hadD then tree w3 oldD = ?t else ?t = gone"
          using A2 e3 f3 Inr by (auto simp: set_aside_def split: if_splits)
        have C3: "set_aside gone absent (tree w3) hadC c oldC ?u" using C2 e3 by (simp add: set_aside_def)
        obtain r4 w4 where 4: "put_config rename removal sc d oldD c oldC hadD hadC w3 = (r4, w4)"
          by (cases "put_config rename removal sc d oldD c oldC hadD hadC w3")
        have "{d, oldD, c, oldC, sc} \<subseteq> names" "distinct [d, oldD, c, oldC, sc]" "ready w3" using n di f3 Inr by auto
        note f4 = put_config_step [OF this(3) D3 C3 gone this(1,2) 4]
        show ?thesis
        proof (cases r4)
          case (Inl e)
          then show ?thesis using s 1 2 3 4 Inr f4 \<open>r1 = Inr hadD\<close> \<open>r2 = Inr hadC\<close> by (auto simp: swap_trees_def io_bind_def io_try_def)
        next
          case (Inr v')
          obtain r5 w5 r6 w6 where 5: "removeIfPresent removal oldD hadD w4 = (r5, w5)" and 6: "removeIfPresent removal oldC hadC w5 = (r6, w6)"
            by (metis prod.exhaust)
          have g4: "ready w4" using f4 Inr by simp
          note f5 = remove_step [OF g4 5 n'(1)]
          note f6 = remove_step [OF f5 [THEN conjunct1] 6 n'(3)]
          have "w' = w6" using s 1 2 3 4 5 6 Inr \<open>r1 = Inr hadD\<close> \<open>r2 = Inr hadC\<close> \<open>r3 = Inr v\<close>
            by (auto simp: swap_trees_def io_bind_def io_try_def with_error_def joinRollback_def split: option.splits)
          moreover have "tree w6 p = tree w4 p" if "p \<in> {d, c}" for p
            using f6 [THEN conjunct2, rule_format, of p] f5 [THEN conjunct2, rule_format, of p] that n di by auto
          moreover have "tree w4 c = tree w3 sc" "tree w4 d = tree w3 d" "tree w3 d = tree w2 sd"
            using f4 f3 Inr \<open>r3 = Inr v\<close> n di by simp_all
          moreover have "tree w3 sc = tree w sc" "tree w2 sd = tree w sd" using e1 e2 e3 by simp_all
          ultimately show ?thesis by simp
        qed
      qed
    qed
  qed
qed

end

end
