(* ===== verification/BackupExtract.thy ===== *)
theory BackupExtract
  imports Backup
begin

text \<open>
  The extraction of an archive, whatever it holds and whatever fails: what was on the disk stays as it is, what is new
  lies in the staging directory and is a directory or a regular file of the panel's own mode, and no more than one
  gibibyte is stored.
\<close>

section \<open>Growing\<close>


definition stored_bytes :: "'a disk_scheme \<Rightarrow> int" where
  "stored_bytes w = sum_list (map (\<lambda>(_, e). case e of Regular _ c \<Rightarrow> int (length c) | _ \<Rightarrow> 0) (entries w))"

definition panel_entry :: "entry \<Rightarrow> bool" where
  "panel_entry e \<longleftrightarrow> e = Folder 448 \<or> (\<exists>mode c. e = Regular (owner_bits mode) c)"

definition grown :: "string \<Rightarrow> 'a disk_scheme \<Rightarrow> 'a disk_scheme \<Rightarrow> bool" where
  "grown staging w w' \<longleftrightarrow> (\<forall>q e. at w q = Some e \<longrightarrow> at w' q = Some e) \<and>
     (\<forall>q e. at w q = None \<and> at w' q = Some e \<longrightarrow> in_tree staging q \<and> panel_entry e)"

lemma grown_refl [simp]: "grown staging w w"
  by (auto simp: grown_def)

lemma grown_trans: "grown staging u v \<Longrightarrow> grown staging v w \<Longrightarrow> grown staging u w"
  unfolding grown_def by (metis not_None_eq)

lemma at_put [simp]: "at (put_entry p e w) q = (if q = p then Some e else at w q)"
  by (simp add: at_def put_entry_def update_conv')

lemma stored_ticked [simp]: "stored_bytes (ticked w) = stored_bytes w"
  by (simp add: stored_bytes_def ticked_def)

lemma at_tick [simp]: "at (ticked w) p = at w p"
  by (simp add: at_def ticked_def)

lemma stored_put:
  "stored_bytes (put_entry p e w) = stored_bytes w + (case e of Regular _ c \<Rightarrow> int (length c) | _ \<Rightarrow> 0)
     - (case at w p of Some (Regular _ c) \<Rightarrow> int (length c) | _ \<Rightarrow> 0)"
proof -
  let ?s = "\<lambda>e. case e of Regular _ c \<Rightarrow> int (length c) | _ \<Rightarrow> 0"
  have "sum_list (map (\<lambda>(_, e). ?s e) (AList.update p e xs)) = sum_list (map (\<lambda>(_, e). ?s e) xs) + ?s e
     - (case map_of xs p of Some e \<Rightarrow> ?s e | None \<Rightarrow> 0)" for xs
    by (induction xs) auto
  then show ?thesis by (simp add: stored_bytes_def put_entry_def at_def split: option.split entry.split)
qed

section \<open>The calls\<close>

lemma mkdir_all_grown:
  assumes "d_mkdir_all p 448 w = (r, w')" and "\<And>a. a \<in> set (ancestors p) \<Longrightarrow> in_tree staging a \<or> at w a \<noteq> None"
  shows "grown staging w w' \<and> stored_bytes w' = stored_bytes w"
proof -
  let ?f = "\<lambda>w a. if at w a = None then put_entry a (Folder 448) w else w"
  have "grown staging w (foldl ?f w as) \<and> stored_bytes (foldl ?f w as) = stored_bytes w"
    if "\<And>a. a \<in> set as \<Longrightarrow> in_tree staging a \<or> at w a \<noteq> None" for as and w :: "'a disk_scheme"
    using that
  proof (induction as arbitrary: w)
    case (Cons a as)
    have 1: "grown staging w (?f w a)" "stored_bytes (?f w a) = stored_bytes w"
      using Cons.prems [of a] by (auto simp: grown_def panel_entry_def stored_put)
    have "in_tree staging b \<or> at (?f w a) b \<noteq> None" if "b \<in> set as" for b using Cons.prems [of b] that by auto
    from Cons.IH [OF this] 1 show ?case using grown_trans by auto
  qed simp
  from this [of "ancestors p" "ticked w"] assms show ?thesis
    by (auto simp: d_mkdir_all_def attempt_def grown_def split: if_splits)
qed

lemma write_new_grown:
  assumes "d_open_new p (owner_bits mode) w = (Inr (), w1)" and "d_write p c w1 = (r, w')" and "in_tree staging p"
  shows "grown staging w w' \<and> stored_bytes w' \<le> stored_bytes w + int (length c)"
proof -
  have p: "at w p = None" "w1 = put_entry p (Regular (owner_bits mode) []) (ticked w)"
    using assms(1) by (auto simp: d_open_new_def attempt_def split: if_splits)
  then obtain bytes where "w' = put_entry p (Regular (owner_bits mode) bytes) (ticked w1)" "length bytes \<le> length c"
    using assms(2) by (auto simp: d_write_def Let_def split: if_splits)
  then show ?thesis using p assms(3) by (auto simp: grown_def panel_entry_def stored_put)
qed

section \<open>The archive\<close>

text \<open>The staging directory and the ones it lies in are there, under a clean absolute name.\<close>

definition staging_ready :: "string \<Rightarrow> 'a disk_scheme \<Rightarrow> bool" where
  "staging_ready staging w \<longleftrightarrow> (\<forall>a. in_tree a staging \<and> a \<noteq> [] \<longrightarrow> at w a \<noteq> None)"

lemma staging_ready_grown: "staging_ready staging w \<Longrightarrow> grown staging' w w' \<Longrightarrow> staging_ready staging w'"
  unfolding staging_ready_def grown_def by (metis not_None_eq)

lemma ancestors_ready:
  "staging_ready staging w \<Longrightarrow> in_tree staging p \<Longrightarrow> a \<in> set (ancestors p) \<Longrightarrow> in_tree staging a \<or> at w a \<noteq> None"
  using in_tree_meet [OF ancestors_in_tree [of a p], of staging] ancestors_nonempty [of a p]
  unfolding staging_ready_def by blast

definition entry_bound :: "int \<Rightarrow> error + int \<Rightarrow> 'a disk_scheme \<Rightarrow> 'a disk_scheme \<Rightarrow> bool" where
  "entry_bound sofar r w w' \<longleftrightarrow> (case r of
      Inl _ \<Rightarrow> stored_bytes w' \<le> stored_bytes w + (maximumBackupBytes - sofar)
    | Inr t \<Rightarrow> sofar \<le> t \<and> t \<le> maximumBackupBytes \<and> stored_bytes w' \<le> stored_bytes w + (t - sofar))"

lemma extract_entry_grown:
  assumes staging: "staging = rooted_path ss" "list_all good_name ss" "ss \<noteq> []" and ready: "staging_ready staging w"
    and sofar: "sofar \<le> maximumBackupBytes" and e: "extract_entry staging sofar (h, content) w = (r, w')"
  shows "grown staging w w' \<and> entry_bound sofar r w w'"
proof -
  define clean where "clean = path_clean (th_name h)"
  define target where "target = path_join staging clean"
  consider "w' = w" "isl r" | "clean \<noteq> ''.''" "\<not> has_prefix clean ''/''" "\<not> has_prefix clean ''../''" "has_prefix target (staging @ ''/'')"
    using e by (auto simp: extract_entry_def Let_def clean_def target_def split: if_splits)
  then show ?thesis
  proof cases
    case 1
    then show ?thesis using sofar by (auto simp: entry_bound_def isl_def)
  next
    case 2
    have "has_prefix (staging @ ''/'' @ clean) ''/''" "has_prefix staging ''/''" "staging \<noteq> []"
      by (simp_all add: staging rooted_path_def has_prefix_def)
    then obtain ts where ts: "list_all good_name ts" "target = rooted_path ts"
      using path_clean_rooted [of "staging @ ''/'' @ clean"] path_clean_rooted [of staging]
      by (cases "clean = []") (auto simp: target_def path_join_def)
    have below: "in_tree staging (path_dir target)" "in_tree staging target"
      using dir_below [OF staging(2) ts(1) staging(3)] 2(4) ts(2) staging(1) by simp_all
    note up = ancestors_ready [OF ready]
    show ?thesis
    proof (cases "th_type h")
      case TypeDir
      obtain r1 w1 where 1: "d_mkdir_all target 448 w = (r1, w1)" by (cases "d_mkdir_all target 448 w")
      from mkdir_all_grown [OF 1 up [OF below(2)]] show ?thesis
        using e 2 TypeDir 1 sofar by (cases r1) (auto simp: extract_entry_def Let_def clean_def target_def entry_bound_def io_bind_def)
    next
      case TypeOther
      then show ?thesis using e 2 sofar by (auto simp: extract_entry_def Let_def clean_def target_def entry_bound_def)
    next
      case TypeReg
      show ?thesis
      proof (cases "th_size h < 0 \<or> maximumBackupBytes - sofar < th_size h")
        case True
        then show ?thesis using e 2 sofar TypeReg by (auto simp: extract_entry_def Let_def clean_def target_def entry_bound_def)
      next
        case False
        obtain r1 w1 where 1: "d_mkdir_all (path_dir target) 448 w = (r1, w1)" by (cases "d_mkdir_all (path_dir target) 448 w")
        from mkdir_all_grown [OF 1 up [OF below(1)]] have g1: "grown staging w w1" "stored_bytes w1 = stored_bytes w" by simp_all
        obtain r2 w2 where 2: "d_open_new target (owner_bits (th_mode h)) w1 = (r2, w2)" by (cases "d_open_new target (owner_bits (th_mode h)) w1")
        let ?bytes = "take (nat (th_size h)) content"
        obtain r3 w3 where 3: "d_write target ?bytes w2 = (r3, w3)" by (cases "d_write target ?bytes w2")
        have len: "int (length ?bytes) \<le> th_size h" using False by (auto simp: min_def)
        show ?thesis
        proof (cases "isl r1 \<or> isl r2")
          case True
          have "w2 = ticked w1" if "isl r2" using 2 that by (auto simp: d_open_new_def attempt_def isl_def split: if_splits)
          then show ?thesis
            using e \<open>clean \<noteq> ''.''\<close> \<open>\<not> has_prefix clean ''/''\<close> \<open>\<not> has_prefix clean ''../''\<close> \<open>has_prefix target (staging @ ''/'')\<close>
              TypeReg False 1 2 True g1 sofar
            by (cases r1; cases r2) (auto simp: extract_entry_def Let_def clean_def target_def entry_bound_def io_bind_def grown_def split: if_splits)
        next
          case False2: False
          then have o2: "d_open_new target (owner_bits (th_mode h)) w1 = (Inr (), w2)" using 2 by (cases r2) auto
          note g3 = write_new_grown [OF o2 3 below(2)]
          have g: "grown staging w w3" "stored_bytes w3 \<le> stored_bytes w + th_size h" using g1 g3 grown_trans len by auto
          have "(w' = w3 \<or> w' = ticked w3) \<and> (isl r \<or> r = Inr (sofar + th_size h))"
            using e \<open>clean \<noteq> ''.''\<close> \<open>\<not> has_prefix clean ''/''\<close> \<open>\<not> has_prefix clean ''../''\<close> \<open>has_prefix target (staging @ ''/'')\<close>
              TypeReg False 1 o2 3 False2
            by (cases r1; cases r3) (auto simp: extract_entry_def Let_def clean_def target_def io_bind_def io_try_def fs_nop_def attempt_def split: if_splits)
          then show ?thesis using g False by (cases r) (auto simp: entry_bound_def grown_def)
        qed
      qed
    qed
  qed
qed

lemma extract_grown:
  assumes "staging = rooted_path ss" and "list_all good_name ss" and "ss \<noteq> []"
  shows "staging_ready staging w \<Longrightarrow> sofar \<le> maximumBackupBytes \<Longrightarrow> extract_entries staging sofar es damage w = (r, w') \<Longrightarrow>
    grown staging w w' \<and> stored_bytes w' \<le> stored_bytes w + (maximumBackupBytes - sofar)"
proof (induction es arbitrary: w sofar)
  case Nil
  then show ?case by (auto split: option.splits)
next
  case (Cons e es)
  obtain h content where e: "e = (h, content)" by (cases e)
  obtain r1 w1 where 1: "extract_entry staging sofar (h, content) w = (r1, w1)" by (cases "extract_entry staging sofar (h, content) w")
  note g = extract_entry_grown [OF assms Cons.prems(1,2) 1]
  show ?case
  proof (cases r1)
    case (Inl x)
    then show ?thesis using Cons.prems(3) g 1 e by (auto simp: entry_bound_def io_bind_def)
  next
    case (Inr t)
    then have "extract_entries staging t es damage w1 = (r, w')" "t \<le> maximumBackupBytes"
      using Cons.prems(3) g 1 e by (auto simp: entry_bound_def io_bind_def)
    from Cons.IH [OF _ this(2,1)] g Cons.prems(1) Inr show ?thesis
      using staging_ready_grown grown_trans by (fastforce simp: entry_bound_def)
  qed
qed

text \<open>C9: Whatever the archive holds and whatever fails, its extraction changes and overwrites nothing that was on the
  disk; all it adds lies in the staging directory, is a directory or a regular file that only the panel's user may
  touch, and the files hold at most one gibibyte.\<close>

theorem extraction_confined:
  assumes "list_all good_name ss" and "ss \<noteq> []" and "staging_ready (rooted_path ss) w"
    and "extract_entries (rooted_path ss) 0 es damage w = (r, w')"
  shows "(\<forall>q e. at w q = Some e \<longrightarrow> at w' q = Some e) \<and>
    (\<forall>q e. at w q = None \<and> at w' q = Some e \<longrightarrow> in_tree (rooted_path ss) q \<and> panel_entry e) \<and>
    stored_bytes w' \<le> stored_bytes w + 2 ^ 30"
  using extract_grown [OF refl assms(1,2,3) _ assms(4)] by (simp add: grown_def maximumBackupBytes_def)

text \<open>An archive that climbs out of the staging directory is stopped at that entry.\<close>

definition demo_disk :: disk where
  "demo_disk = host.extend demo_host \<lparr>entries = [(''/tmp'', Folder 511), (''/tmp/s'', Folder 448)]\<rparr>"

definition demo_archive :: "tar_entry list" where
  "demo_archive = [(\<lparr>th_name = ''data/f'', th_type = TypeReg, th_size = 2, th_mode = 420\<rparr>, ''ok''),
     (\<lparr>th_name = ''../../etc/passwd'', th_type = TypeReg, th_size = 2, th_mode = 420\<rparr>, ''no'')]"

lemma demo_staging: "staging_ready ''/tmp/s'' demo_disk"
proof -
  have "a = ''/tmp/s'' \<or> a = ''/tmp''" if "in_tree a ''/tmp/s''" "a \<noteq> []" for a
  proof -
    obtain r where "''/tmp/s'' = a @ r" "r = [] \<or> hd r = CHR ''/''" using \<open>in_tree a _\<close> by (auto simp: in_tree_iff)
    then show ?thesis using that(2) by (auto simp: Cons_eq_append_conv)
  qed
  then show ?thesis by (auto simp: staging_ready_def demo_disk_def at_def host.extend_def)
qed

theorem extraction_confined_witness:
  "\<exists>r w'. extract_entries ''/tmp/s'' 0 demo_archive None demo_disk = (r, w') \<and> at w' ''/tmp/s/data/f'' = Some (Regular 384 ''ok'') \<and>
     (\<forall>q e. at demo_disk q = None \<and> at w' q = Some e \<longrightarrow> in_tree ''/tmp/s'' q)"
proof -
  have p: "rooted_path [''tmp'', ''s''] = ''/tmp/s''" "list_all good_name [''tmp'', ''s'']" by code_simp+
  obtain r w' where 1: "extract_entries ''/tmp/s'' 0 demo_archive None demo_disk = (r, w')"
    by (cases "extract_entries ''/tmp/s'' 0 demo_archive None demo_disk")
  have "map_of (entries (snd (extract_entries ''/tmp/s'' 0 demo_archive None demo_disk))) ''/tmp/s/data/f'' = Some (Regular 384 ''ok'')"
    by code_simp
  then have "at w' ''/tmp/s/data/f'' = Some (Regular 384 ''ok'')" using 1 by (simp add: at_def)
  moreover have "list_all good_name [''tmp'', ''s'']" by (rule p(2))
  ultimately show ?thesis using extraction_confined [OF p(2) _ _ 1 [folded p(1)]] demo_staging 1 p(1) by auto
qed

end
