(* ===== verification/BackupDisk.thy ===== *)
theory BackupDisk
  imports BackupLaws BackupExtract
begin

text \<open>
  The disk provides what the replacement relies on, and the whole \<open>Restore\<close>: extraction writes nothing outside its
  staging directory and overwrites nothing, and the live directories change only by the swap.
\<close>

section \<open>Trees of the disk\<close>

definition branch :: "'a disk_scheme \<Rightarrow> string \<Rightarrow> string \<Rightarrow> entry option" where
  "branch w p = (\<lambda>r. if r = [] \<or> hd r = CHR ''/'' then at w (p @ r) else None)"

definition missing :: "(string \<Rightarrow> entry option) \<Rightarrow> bool" where
  "missing t \<longleftrightarrow> t [] = None"

lemma branch_cong: "(\<And>q. in_tree p q \<Longrightarrow> at w' q = at w q) \<Longrightarrow> branch w' p = branch w p"
  by (rule ext) (auto simp: branch_def in_tree_iff)

lemma branch_ticked [simp]: "branch (ticked w) p = branch w p"
  by (rule branch_cong) simp

lemma at_moved:
  assumes "\<not> list_ex (\<lambda>(q, _). in_tree b q) (entries w)"
  shows "at (w\<lparr>entries := map (\<lambda>(q, e). (moved_path a b q, e)) (entries w)\<rparr>) q =
    (if in_tree b q then at w (a @ drop (length b) q) else if in_tree a q then None else at w q)"
proof -
  have "\<forall>(k, e)\<in>set xs. \<not> in_tree b k \<Longrightarrow> map_of (map (\<lambda>(q, e). (moved_path a b q, e)) xs) q =
     (if in_tree b q then map_of xs (a @ drop (length b) q) else if in_tree a q then None else map_of xs q)" for xs :: "(string \<times> entry) list"
  proof (induction xs)
    case (Cons x xs)
    obtain k e where x: "x = (k, e)" by (cases x)
    have nb: "\<not> in_tree b k" using Cons.prems x by simp
    show ?case
    proof (cases "in_tree a k")
      case True
      then obtain r where r: "k = a @ r" "r = [] \<or> hd r = CHR ''/''" by (auto simp: in_tree_iff)
      have m: "moved_path a b k = b @ r" "in_tree b (b @ r)" using r True by (auto simp: moved_path_def in_tree_iff)
      show ?thesis
      proof (cases "in_tree b q")
        case True
        then obtain s where "q = b @ s" by (auto simp: in_tree_iff)
        then show ?thesis using Cons x r(1) m True by simp
      next
        case False
        then have "q \<noteq> b @ r" "in_tree a q \<or> q \<noteq> k" using m \<open>in_tree a k\<close> by auto
        then show ?thesis using Cons x m False \<open>in_tree a k\<close> by auto
      qed
    next
      case False
      have "in_tree a (a @ drop (length b) q)" if "in_tree b q" using that by (auto simp: in_tree_iff)
      moreover have "moved_path a b k = k" using False by (simp add: moved_path_def)
      ultimately show ?thesis using Cons x nb False by (cases "q = k") auto
    qed
  qed simp
  then show ?thesis using assms by (simp add: at_def list_ex_iff case_prod_unfold Ball_def)
qed

text \<open>Paths that do not lie in each other, nor their directories in them.\<close>

definition separate :: "string set \<Rightarrow> bool" where
  "separate ps \<longleftrightarrow> (\<forall>p\<in>ps. \<forall>q\<in>ps. (p \<noteq> q \<longrightarrow> \<not> in_tree p q) \<and> \<not> in_tree p (path_dir q))"

definition parents_there :: "string set \<Rightarrow> 'a disk_scheme \<Rightarrow> bool" where
  "parents_there ps w \<longleftrightarrow> (\<forall>p\<in>ps. folder_at w (path_dir p))"

lemma folder_at_cong: "at w' p = at w p \<Longrightarrow> folder_at w' p = folder_at w p"
  by (simp add: folder_at_def)

lemma parents_there_cong:
  assumes "parents_there ps w" and "\<And>p. p \<in> ps \<Longrightarrow> at w' (path_dir p) = at w (path_dir p)"
  shows "parents_there ps w'"
  using assms by (auto simp: parents_there_def cong: folder_at_cong)

lemma separateD: "separate ps \<Longrightarrow> p \<in> ps \<Longrightarrow> q \<in> ps \<Longrightarrow> p \<noteq> q \<Longrightarrow> in_tree p x \<Longrightarrow> \<not> in_tree q x"
  using in_tree_meet [of p x q] by (simp add: separate_def) (metis (no_types))

lemma separate_dir: "separate ps \<Longrightarrow> p \<in> ps \<Longrightarrow> q \<in> ps \<Longrightarrow> \<not> in_tree p (path_dir q)"
  by (simp add: separate_def)

lemma moved_others:
  assumes "separate ps" and "a \<in> ps" and "b \<in> ps" and "a \<noteq> b" and "\<not> list_ex (\<lambda>(q, _). in_tree b q) (entries w)"
    and w': "w' = w\<lparr>entries := map (\<lambda>(q, e). (moved_path a b q, e)) (entries w)\<rparr>"
  shows "branch w' b = branch w a" "branch w' a = (\<lambda>_. None)" "branch w b = (\<lambda>_. None)"
    "p \<in> ps - {a, b} \<Longrightarrow> branch w' p = branch w p" "parents_there ps w \<Longrightarrow> parents_there ps w'"
proof -
  have at: "at w' q = (if in_tree b q then at w (a @ drop (length b) q) else if in_tree a q then None else at w q)" for q
    using at_moved [OF assms(5)] by (simp add: w')
  show "branch w' b = branch w a"
  proof (rule ext)
    fix r show "branch w' b r = branch w a r"
      by (cases "r = [] \<or> hd r = CHR ''/''") (simp_all add: branch_def at in_tree_iff)
  qed
  have ab: "\<not> (in_tree a q \<and> in_tree b q)" for q using separateD [OF assms(1-4)] by blast
  have "in_tree a (a @ r)" if "r = [] \<or> hd r = CHR ''/''" for r using that by (auto simp: in_tree_iff)
  then show "branch w' a = (\<lambda>_. None)" using ab by (intro ext) (simp add: branch_def at)
  have "at w q = None" if "in_tree b q" for q
    using that assms(5) by (auto simp: at_def map_of_eq_None_iff list_ex_iff)
  then show "branch w b = (\<lambda>_. None)" by (intro ext) (auto simp: branch_def in_tree_iff)
  show "branch w' p = branch w p" if "p \<in> ps - {a, b}"
  proof (rule branch_cong)
    fix q assume "in_tree p q"
    then have "\<not> in_tree a q" "\<not> in_tree b q"
      using separateD [OF assms(1), of p a q] separateD [OF assms(1), of p b q] that assms(2,3) by auto
    then show "at w' q = at w q" by (simp add: at)
  qed
  show "parents_there ps w'" if "parents_there ps w"
    using that separate_dir [OF assms(1) assms(2)] separate_dir [OF assms(1) assms(3)] by (rule_tac parents_there_cong) (simp_all add: at)
qed

lemma d_rename_cases:
  assumes "d_rename a b w = (r, w')"
  shows "(\<exists>e. r = Inl e \<and> w' = ticked w \<and> (error_is ErrNotExist e \<longrightarrow> at w a = None \<or> \<not> folder_at w (path_dir b))) \<or>
    r = Inr () \<and> at w a \<noteq> None \<and> \<not> list_ex (\<lambda>(q, _). in_tree b q) (entries w) \<and>
      w' = ticked w\<lparr>entries := map (\<lambda>(q, e). (moved_path a b q, e)) (entries w)\<rparr>"
  using assms unfolding d_rename_def attempt_def
  by (auto simp: ErrNotExist_def ErrIO_def ErrExist_def at_tick ticked_def at_def folder_at_def split: if_splits)

lemma removed_others:
  assumes "separate ps" and "a \<in> ps" and "d_remove_all a w = (r, w')"
  shows "p \<in> ps - {a} \<Longrightarrow> branch w' p = branch w p" "r = Inr () \<Longrightarrow> branch w' a = (\<lambda>_. None)"
    "parents_there ps w \<Longrightarrow> parents_there ps w'"
proof -
  have f: "map_of (filter (\<lambda>(q, _). P q) xs) q = (if P q then map_of xs q else None)" for P q and xs :: "(string \<times> entry) list"
    by (induction xs) auto
  have d: "\<not> P q \<Longrightarrow> map_of (drop n (filter (\<lambda>(q, _). P q) xs)) q = None" for P q n and xs :: "(string \<times> entry) list"
    by (auto simp: map_of_eq_None_iff dest: in_set_dropD)
  have at: "\<not> in_tree a q \<Longrightarrow> at w' q = at w q" for q
    using assms(3) d [of "in_tree a" q]
    by (auto simp: d_remove_all_def keep_entries_def at_def f map_add_def ticked_def split: if_splits option.split)
  show "branch w' p = branch w p" if "p \<in> ps - {a}"
    using that at separateD [OF assms(1), of p a] assms(2) by (intro branch_cong) auto
  show "branch w' a = (\<lambda>_. None)" if "r = Inr ()"
    using assms(3) that by (intro ext) (auto simp: d_remove_all_def keep_entries_def branch_def at_def f in_tree_iff split: if_splits)
  show "parents_there ps w'" if "parents_there ps w"
    using that separate_dir [OF assms(1,2)] by (rule_tac parents_there_cong) (simp_all add: at)
qed

interpretation disk_swap: tree_swap branch "\<lambda>_. None" missing ps "\<lambda>w. parents_there ps w \<and> separate ps" d_rename d_remove_all
  for ps
proof (unfold_locales, goal_cases)
  case (1 w a b w')
  then have s: "separate ps" by simp
  from d_rename_cases [OF 1(5)] have r: "\<not> list_ex (\<lambda>(q, _). in_tree b q) (entries (ticked w))"
    "w' = (ticked w)\<lparr>entries := map (\<lambda>(q, e). (moved_path a b q, e)) (entries (ticked w))\<rparr>"
    by (auto simp: ticked_def)
  note m = moved_others [OF s 1(2,3,4) r]
  have "parents_there ps (ticked w)" using 1(1) by (auto intro: parents_there_cong)
  then show ?case using m s by auto
next
  case (2 w a b e w')
  then have "w' = ticked w" "error_is ErrNotExist e \<Longrightarrow> at w a = None \<or> \<not> folder_at w (path_dir b)"
    using d_rename_cases [OF 2(5)] by auto
  moreover have "folder_at w (path_dir b)" using 2(1,3) by (simp add: parents_there_def)
  ultimately show ?case using 2(1) by (auto simp: missing_def branch_def intro: parents_there_cong)
next
  case (3 w a r w')
  then show ?case using removed_others [OF _ 3(2,3)] by auto
qed

section \<open>The replacement on the disk\<close>

lemma mkdir_all_cases:
  assumes "d_mkdir_all p mode w = (r, w')"
  shows "at w q = Some e \<Longrightarrow> at w' q = Some e" "q \<notin> set (ancestors p) \<Longrightarrow> at w' q = at w q"
    "r = Inr () \<Longrightarrow> CHR ''/'' \<in> set p \<Longrightarrow> folder_at w' p"
proof -
  let ?f = "\<lambda>w a. if at w a = None then put_entry a (Folder mode) w else w"
  have keep: "at w q = Some e \<Longrightarrow> at (foldl ?f w as) q = Some e" for q e as and w :: "'a disk_scheme"
  proof (induction as arbitrary: w)
    case (Cons a as)
    have "at (?f w a) q = Some e" using Cons.prems by auto
    from Cons.IH [OF this] show ?case by simp
  qed simp
  have other: "q \<notin> set as \<Longrightarrow> at (foldl ?f w as) q = at w q" for q as and w :: "'a disk_scheme"
    by (induction as arbitrary: w) auto
  have new: "q \<in> set as \<Longrightarrow> at w q = None \<Longrightarrow> at (foldl ?f w as) q = Some (Folder mode)" for q as and w :: "'a disk_scheme"
  proof (induction as arbitrary: w)
    case (Cons a as)
    then show ?case using keep [of "?f w a" q "Folder mode" as] by (cases "a = q") auto
  qed simp
  have c: "w' = ticked w \<or> (w' = foldl ?f (ticked w) (ancestors p) \<and> list_all (\<lambda>a. at w a = None \<or> folder_at w a) (ancestors p))"
    "r = Inr () \<Longrightarrow> w' = foldl ?f (ticked w) (ancestors p) \<and> list_all (\<lambda>a. at w a = None \<or> folder_at w a) (ancestors p)"
    using assms by (auto simp: d_mkdir_all_def attempt_def list_ex_iff list_all_iff folder_at_def split: if_splits)
  show "at w q = Some e \<Longrightarrow> at w' q = Some e" using c(1) keep [of "ticked w" q e] by auto
  show "q \<notin> set (ancestors p) \<Longrightarrow> at w' q = at w q" using c(1) other [of q "ancestors p" "ticked w"] by auto
  show "folder_at w' p" if "r = Inr ()" "CHR ''/'' \<in> set p"
  proof -
    have a: "p \<in> set (ancestors p)" using ancestors_self that(2) .
    have w': "w' = foldl ?f (ticked w) (ancestors p)" "at w p = None \<or> folder_at w p" using c(2) [OF that(1)] a by (auto simp: list_all_iff)
    show ?thesis
    proof (cases "at w p")
      case None
      then show ?thesis using new [OF a, of "ticked w"] w'(1) by (simp add: folder_at_def)
    next
      case (Some e)
      then show ?thesis using keep [of "ticked w" p e "ancestors p"] w' by (auto simp: folder_at_def)
    qed
  qed
qed

lemma mkdir_branch:
  assumes "d_mkdir_all p mode w = (r, w')" and "\<not> in_tree q p"
  shows "branch w' q = branch w q"
  using mkdir_all_cases(2) [OF assms(1)] ancestors_in_tree in_tree_trans assms(2) by (intro branch_cong) metis

lemma folder_kept: "d_mkdir_all p mode w = (r, w') \<Longrightarrow> folder_at w q \<Longrightarrow> folder_at w' q"
  using mkdir_all_cases(1) [of p mode w r w' q] by (auto simp: folder_at_def split: option.splits)

lemma itoa_no_slash: "CHR ''/'' \<notin> set (itoa n)"
  using nat_dec_digits by (fastforce simp: itoa_def is_digit_def split: if_splits)

definition old_path :: "string \<Rightarrow> int \<Rightarrow> string" where
  "old_path p now = p @ ''.pre-restore-'' @ itoa now"

lemma path_dir_old:
  assumes "has_prefix p ''/''"
  shows "path_dir (old_path p now) = path_dir p" "CHR ''/'' \<in> set (path_dir p)"
proof -
  have "CHR ''/'' \<in> set p" using assms by (auto simp: has_prefix_iff)
  then obtain u v where p: "p = u @ CHR ''/'' # v" "CHR ''/'' \<notin> set v" by (metis split_list_last)
  show "path_dir (old_path p now) = path_dir p"
    using path_dir_append [of v u] path_dir_append [of "v @ ''.pre-restore-'' @ itoa now" u] itoa_no_slash p by (simp add: old_path_def)
  have "has_prefix (u @ ''/'') ''/''" using assms p(1) by (cases u) (auto simp: has_prefix_def)
  from path_clean_rooted [OF this] show "CHR ''/'' \<in> set (path_dir p)" using path_dir_append [OF p(2), of u] by (auto simp: p rooted_path_def)
qed

text \<open>The paths of a replacement, at whatever time it runs.\<close>

definition swap_paths :: "string \<Rightarrow> string \<Rightarrow> string \<Rightarrow> string \<Rightarrow> int \<Rightarrow> string list" where
  "swap_paths sd d sc c now = [d, old_path d now, c, old_path c now, sd, sc]"

definition swap_ready :: "string \<Rightarrow> string \<Rightarrow> string \<Rightarrow> string \<Rightarrow> 'a disk_scheme \<Rightarrow> bool" where
  "swap_ready sd d sc c w \<longleftrightarrow> has_prefix d ''/'' \<and> has_prefix c ''/'' \<and> folder_at w (path_dir sd) \<and> folder_at w (path_dir sc) \<and>
     (\<forall>now. distinct (swap_paths sd d sc c now) \<and> separate (set (swap_paths sd d sc c now)))"

text \<open>C7: Replacing the live directories ends, whatever fails, with both restored trees in place, or with both old trees
  in place, or with an error that says the rollback failed and with every old tree in its place or where it was set
  aside.\<close>

theorem replaced_or_rolled_back:
  assumes "swap_ready sd d sc c w" and "replaceTree sd d sc c w = (r, w')"
  shows "branch w' d = branch w sd \<and> branch w' c = branch w sc \<or>
    (\<exists>e now. r = Inl e \<and> back_or_reported missing (branch w d) (branch w c) (branch w') d (old_path d now) c (old_path c now) e)"
proof -
  have s: "has_prefix d ''/''" "has_prefix c ''/''" "folder_at w (path_dir sd)" "folder_at w (path_dir sc)"
    and sep: "\<And>now. distinct (swap_paths sd d sc c now)" "\<And>now. separate (set (swap_paths sd d sc c now))"
    using assms(1) by (simp_all add: swap_ready_def)
  have apart: "\<not> in_tree p (path_dir q)" if "p \<in> {d, c, sd, sc}" "q \<in> {d, c}" for p q
    using separate_dir [OF sep(2) [of 0], of p q] that by (auto simp: swap_paths_def)
  obtain r1 w1 r2 w2 where 1: "d_mkdir_all (path_dir d) 493 w = (r1, w1)" and 2: "d_mkdir_all (path_dir c) 493 w1 = (r2, w2)"
    by (metis prod.exhaust)
  have b1: "branch w1 p = branch w p" if "p \<in> {d, c, sd, sc}" for p using mkdir_branch [OF 1 apart [OF that]] by simp
  have b2: "branch w2 p = branch w1 p" if "p \<in> {d, c, sd, sc}" for p using mkdir_branch [OF 2 apart [OF that]] by simp
  show ?thesis
  proof (cases "isl r1 \<or> isl r2")
    case True
    then obtain e where e: "r = Inl e" "w' = w1 \<or> w' = w2" using assms(2) 1 2
      by (cases r1; cases r2) (auto simp: replaceTree_def replaceTreeWithOps_def io_bind_def)
    have "branch w' p = branch w p" if "p \<in> {d, c, sd, sc}" for p using e(2) b1 [OF that] b2 [OF that] by metis
    then have "back_or_reported missing (branch w d) (branch w c) (branch w') d (old_path d 0) c (old_path c 0) e"
      unfolding back_or_reported_def by blast
    then show ?thesis using e(1) by blast
  next
    case False
    then have ok: "r1 = Inr ()" "r2 = Inr ()" by (cases r1; cases r2; simp)+
    define now where "now = clock_at w2 (calls w2)"
    let ?ps = "set (swap_paths sd d sc c now)"
    have run: "swap_trees d_rename d_remove_all sd d (old_path d now) sc c (old_path c now) (ticked w2) = (r, w')"
      using assms(2) 1 2 ok by (simp add: replaceTree_def replaceTreeWithOps_def io_bind_def time_now_def now_def old_path_def)
    have f: "folder_at w2 (path_dir d)" by (rule folder_kept [OF 2 mkdir_all_cases(3) [OF 1 ok(1) path_dir_old(2) [OF s(1)]]])
    moreover have "folder_at w2 (path_dir c)" by (rule mkdir_all_cases(3) [OF 2 ok(2) path_dir_old(2) [OF s(2)]])
    moreover have "folder_at w2 (path_dir sd)" "folder_at w2 (path_dir sc)"
      using folder_kept [OF 2 folder_kept [OF 1 s(3)]] folder_kept [OF 2 folder_kept [OF 1 s(4)]] by simp_all
    ultimately have ready: "parents_there ?ps (ticked w2) \<and> separate ?ps"
      using sep path_dir_old(1) s(1,2) by (simp add: parents_there_def swap_paths_def folder_at_def)
    have gone: "missing (\<lambda>_. None)" by (simp add: missing_def)
    have ps: "{d, old_path d now, c, old_path c now, sd, sc} \<subseteq> ?ps" "distinct [d, old_path d now, c, old_path c now, sd, sc]"
      using sep(1) [of now] by (simp_all add: swap_paths_def)
    have b: "branch (ticked w2) p = branch w p" if "p \<in> {d, c, sd, sc}" for p using b1 [OF that] b2 [OF that] by simp
    have "branch w' d = branch w sd \<and> branch w' c = branch w sc \<or>
      (\<exists>e. r = Inl e \<and> back_or_reported missing (branch w d) (branch w c) (branch w') d (old_path d now) c (old_path c now) e)"
      using disk_swap.swap_outcome [OF ready gone ps run] b by simp
    then show ?thesis by blast
  qed
qed

text \<open>A disk with both live directories and both staged ones.\<close>

definition swap_disk :: disk where
  "swap_disk = host.extend demo_host \<lparr>entries = [(''/d'', Folder 448), (''/d/f'', Regular 384 ''old''), (''/c'', Folder 448),
     (''/s'', Folder 448), (''/s/f'', Regular 384 ''new''), (''/t'', Folder 448)]\<rparr>"

lemma swap_disk_ready: "swap_ready ''/s'' ''/d'' ''/t'' ''/c'' swap_disk"
proof -
  have dirs: "path_dir ''/d'' = ''/''" "path_dir ''/c'' = ''/''" "path_dir ''/s'' = ''/''" "path_dir ''/t'' = ''/''" by code_simp+
  have abs: "has_prefix ''/d'' ''/''" "has_prefix ''/c'' ''/''" by code_simp+
  have old: "path_dir (old_path ''/d'' now) = ''/''" "path_dir (old_path ''/c'' now) = ''/''" for now
    using path_dir_old(1) [OF abs(1)] path_dir_old(1) [OF abs(2)] dirs by simp_all
  have "separate (set (swap_paths ''/s'' ''/d'' ''/t'' ''/c'' now))" for now
    by (simp add: separate_def swap_paths_def old dirs) (simp add: in_tree_def has_prefix_def old_path_def)
  moreover have "distinct (swap_paths ''/s'' ''/d'' ''/t'' ''/c'' now)" for now by (simp add: swap_paths_def old_path_def)
  ultimately show ?thesis using abs dirs by (simp add: swap_ready_def folder_at_def)
qed

theorem replaced_or_rolled_back_witness:
  "\<exists>w'. replaceTree ''/s'' ''/d'' ''/t'' ''/c'' swap_disk = (Inr (), w') \<and> branch w' ''/d'' = branch swap_disk ''/s'' \<and>
     branch swap_disk ''/s'' ''/f'' = Some (Regular 384 ''new'')"
proof -
  obtain r w' where 1: "replaceTree ''/s'' ''/d'' ''/t'' ''/c'' swap_disk = (r, w')" by (cases "replaceTree ''/s'' ''/d'' ''/t'' ''/c'' swap_disk")
  have "\<not> isl (fst (replaceTree ''/s'' ''/d'' ''/t'' ''/c'' swap_disk))" by code_simp
  then have r: "r = Inr ()" using 1 by (cases r) auto
  have "map_of (entries swap_disk) ''/s/f'' = Some (Regular 384 ''new'')" by code_simp
  then have "branch swap_disk ''/s'' ''/f'' = Some (Regular 384 ''new'')" by (simp add: branch_def at_def)
  then show ?thesis using replaced_or_rolled_back [OF swap_disk_ready 1] 1 r by auto
qed

end
