(* ===== verification/BackupNodes.thy ===== *)
theory BackupNodes
  imports BackupState NodeLaws
begin

text \<open>
  What the node service accepts against what a restore accepts: the material of every node that a creation prepares
  passes the checks on a backup, when the paths are entered without blanks in front of them. With such a blank the
  creation goes through and the backup is refused.
\<close>

section \<open>Text without blanks\<close>

abbreviation inked :: "string \<Rightarrow> bool" where
  "inked s \<equiv> s \<noteq> [] \<and> list_all (\<lambda>c. \<not> is_space c) s"

lemma inked_trim: "inked s \<Longrightarrow> trim_space s = s"
  by (simp add: trim_space_noop list_all_iff)

lemma inked_token: "v \<noteq> [] \<Longrightarrow> inked (raw_url_encode v)"
proof -
  assume "v \<noteq> []"
  moreover have "sextets xs = [] \<longleftrightarrow> xs = []" for xs by (cases xs rule: sextets.cases) simp_all
  ultimately have "raw_url_encode v \<noteq> []" by (simp add: raw_url_encode_def b64_encode_raw_def)
  moreover have "\<not> is_space c" if "c \<in> set (raw_url_encode v)" for c
  proof -
    have "c \<in> set url_alphabet" using b64_encode_raw_chars [OF good_url_alphabet] that by (simp add: raw_url_encode_def)
    moreover have "list_all (\<lambda>c. \<not> is_space c) url_alphabet" by code_simp
    ultimately show ?thesis by (simp add: list_all_iff)
  qed
  ultimately show ?thesis by (simp add: list_all_iff)
qed

lemma lower_hex_char: "lower_hex c \<Longrightarrow> \<not> is_space c \<and> is_hex c \<and> c \<noteq> CHR ''-''"
proof -
  have "list_all (\<lambda>c. \<not> is_space c \<and> is_hex c \<and> c \<noteq> CHR ''-'') ''0123456789abcdef''" by code_simp
  then show "lower_hex c \<Longrightarrow> ?thesis" by (auto simp: lower_hex_def list_all_iff)
qed

lemma inked_hex: "v \<noteq> [] \<Longrightarrow> inked (hex_encode v)"
  using list.pred_mono_strong [OF hex_encode_lower [of v], of "\<lambda>c. \<not> is_space c"] lower_hex_char length_hex_encode [of v]
  by (metis length_0_conv mult_eq_0_iff zero_neq_numeral)

text \<open>A UUID as the service checks it is one as the restore checks it.\<close>

lemma joined_groups:
  assumes "map length gs = [8, 4, 4, 4, 12]" and "list_all (list_all is_hex) gs" and "list_all (list_all (\<lambda>c. c \<noteq> CHR ''-'')) gs"
  shows "validUUIDString (JStr (join ''-'' gs))"
proof -
  obtain a b c d e where g: "gs = [a, b, c, d, e]" "length a = 8" "length b = 4" "length c = 4" "length d = 4" "length e = 12"
    using assms(1) by (auto simp: map_eq_Cons_conv)
  have f: "filter (\<lambda>c. c \<noteq> CHR ''-'') x = x" if "x \<in> set gs" for x using assms(3) that by (simp add: filter_id_conv list_all_iff)
  have "filter (\<lambda>c. c \<noteq> CHR ''-'') (join ''-'' gs) = a @ b @ c @ d @ e" using f g(1) by simp
  then show ?thesis using g assms(2) by (simp add: validUUIDString_def hex_decodes_def nth_append)
qed

lemma uuid_restorable: "is_uuid u \<Longrightarrow> validUUIDString (JStr u)"
proof -
  assume u: "is_uuid u"
  have "list_all (list_all (\<lambda>c. c \<noteq> CHR ''-'')) (split_char CHR ''-'' u)"
    using split_no_sep [of "CHR ''-''" u] unfolding list_all_iff by metis
  then show ?thesis using joined_groups [of "split_char CHR ''-'' u"] join_split_char [of "CHR ''-''" u] u by (simp add: is_uuid_def)
qed

lemma generated_uuid: "Secure.UUID w = (Inr u, w') \<Longrightarrow> inked u \<and> validUUIDString (JStr u)"
proof -
  assume "Secure.UUID w = (Inr u, w')"
  then obtain gs where g: "u = join ''-'' gs" "uuid_groups gs" using UUID_shape by blast
  have l: "list_all (list_all lower_hex) gs" "map length gs = [8, 4, 4, 4, 12]" using g(2) by (simp_all add: uuid_groups_def)
  then have "list_all (list_all is_hex) gs" "list_all (list_all (\<lambda>c. c \<noteq> CHR ''-'')) gs" "list_all (list_all (\<lambda>c. \<not> is_space c)) gs"
    using lower_hex_char by (auto simp: list_all_iff)
  moreover obtain a b c d e where "gs = [a, b, c, d, e]" "length a = 8" using l(2) by (auto simp: map_eq_Cons_conv)
  moreover have "\<not> is_space CHR ''-''" by code_simp
  ultimately show ?thesis using joined_groups [OF l(2)] g(1) by auto
qed

section \<open>Credentials\<close>

definition credential_ready :: "string \<Rightarrow> obj \<Rightarrow> bool" where
  "credential_ready proto cred \<longleftrightarrow> validCredential proto cred \<and> trim_space (obj_string cred ''uuid'') = obj_string cred ''uuid''"

lemma obj_any_string: "obj_string ob k \<noteq> [] \<Longrightarrow> obj_any ob k = JStr (obj_string ob k)"
  by (auto simp: obj_string_def obj_any_def split: option.splits json.splits)

lemma credential_of_simps [simp]:
  "obj_string (credential_of ((k, v) # kvs)) k' = (if k' = k then v else obj_string (credential_of kvs) k')"
  "obj_any (credential_of ((k, v) # kvs)) k' = (if k' = k then JStr v else obj_any (credential_of kvs) k')"
  "obj_string (credential_of []) k' = []"
  by (simp_all add: credential_of_def obj_string_def obj_any_def)

lemma RandomToken_Inr: "RandomToken (numeral n) w = (Inr v, w') \<Longrightarrow> trim_space v = v \<and> v \<noteq> []"
proof -
  assume "RandomToken (numeral n) w = (Inr v, w')"
  then obtain b where b: "v = raw_url_encode b" "length b = numeral n" by (auto simp: RandomToken_def elim!: io_bind_InrE dest!: rand_read_Inr)
  then have "b \<noteq> []" by auto
  then show ?thesis using inked_token [of b] inked_trim [of v] b by simp
qed

lemma generatedCredential_ready:
  assumes "generatedCredential proto w = (Inr cred, w')" and "SupportedProtocol proto"
  shows "credential_ready proto cred"
proof -
  have "proto \<noteq> ProtocolSOCKS5" using assms(2) by (auto simp: SupportedProtocol_def protocol_defs)
  then consider u k where "cred = credential_of ((''uuid'', u) # k)" "k = [] \<or> k = [(''flow'', ''xtls-rprx-vision'')]"
      "proto \<in> {ProtocolVLESSReality, ProtocolVLESSH2Reality, ProtocolVLESSGRPCReality, ProtocolVLESSWSTLS, ProtocolVLESSArgo}"
      "inked u \<and> validUUIDString (JStr u)"
    | v where "cred = credential_of [(''password'', v)]" "trim_space v = v \<and> v \<noteq> []"
      "proto \<in> {ProtocolTrojanTLS, ProtocolHysteria2, ProtocolAnyTLS, ProtocolAnyTLSReality}"
    | u v where "cred = credential_of [(''uuid'', u), (''password'', v)]" "inked u \<and> validUUIDString (JStr u)"
      "trim_space v = v \<and> v \<noteq> []" "proto = ProtocolTUIC"
    using assms(1) unfolding generatedCredential_def
    by (auto elim!: io_bind_InrE dest!: generated_uuid RandomToken_Inr split: if_splits)
  then show ?thesis
  proof cases
    case 1
    then show ?thesis using inked_trim [of u] by (auto simp: credential_ready_def validCredential_def)
  next
    case 2
    then have "trim_space [] = []" "nonemptyString cred ''password''" by (simp_all add: nonemptyString_def) code_simp
    then show ?thesis using 2 by (auto simp: credential_ready_def validCredential_def protocol_defs)
  next
    case 3
    then show ?thesis using inked_trim [of u] by (auto simp: credential_ready_def validCredential_def protocol_defs nonemptyString_def)
  qed
qed

lemma trim_twice: "trim_space (trim_space v) = trim_space v"
proof (cases "trim_space v = []")
  case False
  then obtain a s where a: "trim_space v = a # s" by (cases "trim_space v") auto
  then have "\<not> is_space a" "\<not> is_space (last (a # s))" using trim_space_ends [OF False] by simp_all
  then show ?thesis unfolding a
    by (simp add: trim_space_def trim_both_def trim_left_def trim_right_def) (cases "rev s"; auto split: if_splits)
next
  case True
  moreover have "trim_space [] = []" by code_simp
  ultimately show ?thesis by simp
qed

lemma custom_loop_uuid:
  "custom_loop allowed kvs cred = Inr cred' \<Longrightarrow> trim_space (obj_string cred ''uuid'') = obj_string cred ''uuid'' \<Longrightarrow>
     trim_space (obj_string cred' ''uuid'') = obj_string cred' ''uuid''"
proof (induction allowed kvs cred rule: custom_loop.induct)
  case (2 allowed k raw kvs cred)
  then obtain v where v: "raw = JStr v" "k \<in> set allowed"
    "custom_loop allowed kvs (set_string k (if k \<noteq> ''password'' then trim_space v else v) cred) = Inr cred'"
    by (auto split: if_splits json.splits)
  from "2.IH" [of v, OF _ v(1) v(3)] v(1,2) "2.prems"(2) show ?case by (simp add: set_string_def trim_twice)
qed simp

lemma applyCustomCredential_ready:
  assumes "applyCustomCredential proto generated custom = Inr cred" and "credential_ready proto generated"
  shows "validCredential proto cred"
proof (cases "custom = []")
  case True
  then show ?thesis using assms by (simp add: applyCustomCredential_def credential_ready_def)
next
  case False
  then obtain allowed where k: "credential_keys proto = Some allowed" "custom_loop allowed custom generated = Inr cred" "credential_check allowed cred = None"
    using assms(1) by (auto simp: applyCustomCredential_def split: option.splits sum.splits)
  have raw: "mapString cred ''uuid'' = obj_string cred ''uuid''"
    using custom_loop_uuid [OF k(2)] assms(2) by (simp add: credential_ready_def mapString_def)
  have uuid: "validUUIDString (obj_any cred ''uuid'')" if "''uuid'' \<in> set allowed"
  proof -
    have u: "is_uuid (obj_string cred ''uuid'')" using k(3) that raw by (auto simp: credential_check_def split: if_splits)
    then have "obj_string cred ''uuid'' \<noteq> []" by (auto simp: is_uuid_def split_char_def)
    then show ?thesis using uuid_restorable [OF u] obj_any_string by simp
  qed
  have password: "nonemptyString cred ''password''" if "''password'' \<in> set allowed"
    using k(3) that by (auto simp: credential_check_def nonemptyString_def mapString_def split: if_splits)
  have username: "nonemptyString cred ''username''" if "''username'' \<in> set allowed"
    using k(3) that by (auto simp: credential_check_def nonemptyString_def mapString_def is_credential_user_def split: if_splits)
  consider "proto \<in> {ProtocolVLESSReality, ProtocolVLESSH2Reality, ProtocolVLESSGRPCReality, ProtocolVLESSWSTLS, ProtocolVLESSArgo}" "allowed = [''uuid'']"
    | "proto \<in> {ProtocolTrojanTLS, ProtocolHysteria2, ProtocolAnyTLS, ProtocolAnyTLSReality}" "allowed = [''password'']"
    | "proto = ProtocolTUIC" "allowed = [''uuid'', ''password'']" | "proto = ProtocolSOCKS5" "allowed = [''username'', ''password'']"
    using k(1) by (auto simp: credential_keys_def split: if_splits)
  then show ?thesis
  proof cases
    case 1
    then show ?thesis using uuid by (simp add: validCredential_def)
  next
    case 2
    then show ?thesis using password by (auto simp: validCredential_def protocol_defs)
  next
    case 3
    then show ?thesis using uuid password by (simp add: validCredential_def protocol_defs)
  next
    case 4
    then show ?thesis using username password by (simp add: validCredential_def protocol_defs)
  qed
qed

section \<open>Settings\<close>

text \<open>A path that begins with a slash when it is trimmed begins with one as it was entered.\<close>

definition tidy :: "obj \<Rightarrow> bool" where
  "tidy st \<longleftrightarrow> (\<forall>k\<in>{''ws_path'', ''transport_path'', ''certificate_path'', ''key_path''}.
     has_prefix (mapString st k) ''/'' \<longrightarrow> has_prefix (obj_string st k) ''/'')"

lemma tidy_set: "tidy st \<Longrightarrow> k \<in> {''ws_path'', ''transport_path'', ''certificate_path'', ''key_path''} \<longrightarrow> has_prefix v ''/'' \<Longrightarrow> tidy (set_string k v st)"
  by (auto simp: tidy_def set_string_def mapString_def)

lemma path_join_rooted: "has_prefix dir ''/'' \<Longrightarrow> has_prefix (path_join dir name) ''/''"
proof -
  assume d: "has_prefix dir ''/''"
  then have "has_prefix (dir @ x) ''/''" "dir \<noteq> []" for x by (cases dir; auto simp: has_prefix_def)+
  then show ?thesis using path_clean_rooted [of "dir @ ''/'' @ name"] path_clean_rooted [OF d]
    by (auto simp: path_join_def rooted_path_def has_prefix_def)
qed

lemma automatic_tidy:
  assumes "prepareAutomaticCertificate c proto st w = (Inr st', w')" and "tidy st" and "has_prefix (certificateDir c) ''/''"
  shows "tidy st'"
proof -
  have "tidy (issued_pair n st)" if "tidy st" for n st
    unfolding issued_pair_def using that by (intro tidy_set) (simp_all add: has_prefix_def)
  moreover have "tidy (set_string ''server_name'' n st)" for n using assms(2) by (intro tidy_set) simp_all
  moreover have demo: "has_prefix a ''/'' \<and> has_prefix b ''/''" if "ensureDemoCertificate lib (certificateDir c) n v = (Inr (a, b), v')" for lib n v v' a b
    using that path_join_rooted [OF assms(3)]
    by (auto simp: ensureDemoCertificate_def Let_def io_try_def elim!: io_bind_InrE split: sum.splits prod.splits)
  ultimately show ?thesis using assms(1,2)
    by (auto simp: prepareAutomaticCertificate_def Let_def elim!: io_bind_InrE dest!: map_error_Inr demo intro!: tidy_set split: if_splits sum.splits)
qed

section \<open>The material of a node that is created\<close>

lemma validateInput_Inr:
  fixes w :: "'a node_world_scheme"
  assumes "validateInput lib proto listenAt p st confirm w = (Inr u, w')"
  shows "SupportedProtocol proto \<and> 1 \<le> p \<and> p \<le> 65535 \<and> parse_ip (defaultListen listenAt) \<noteq> None \<and>
    (protocolUsesReality proto \<longrightarrow> reality_settings proto st = None) \<and>
    (proto = ProtocolVLESSArgo \<longrightarrow> argo_settings (defaultListen listenAt) st = None) \<and>
    (protocolRequiresCertificate proto \<longrightarrow> mapString st ''server_name'' \<noteq> [] \<and> has_prefix (mapString st ''certificate_path'') ''/'' \<and>
       has_prefix (mapString st ''key_path'') ''/'' \<and> mapString st ''certificate_path'' \<noteq> mapString st ''key_path'') \<and>
    (proto = ProtocolVLESSWSTLS \<longrightarrow> validatePathSetting st ''ws_path'' = None)"
proof -
  have cert: "mapString st ''server_name'' \<noteq> [] \<and> has_prefix (mapString st ''certificate_path'') ''/'' \<and>
       has_prefix (mapString st ''key_path'') ''/'' \<and> mapString st ''certificate_path'' \<noteq> mapString st ''key_path''"
    if "validateCertificateSettings lib st v = (Inr y, v')" for y and v v' :: "'a node_world_scheme"
    using that by (auto simp: validateCertificateSettings_def Let_def split: if_splits)
  have check: "io_check r v = (Inr y, v') \<Longrightarrow> r = None" for r y and v v' :: "'a node_world_scheme"
    by (cases r) (auto simp: io_check_def)
  have r: "SupportedProtocol proto" "1 \<le> p" "p \<le> 65535" "parse_ip (defaultListen listenAt) \<noteq> None"
    using assms by (auto simp: validateInput_def Let_def split: if_splits)
  moreover have "reality_settings proto st = None" if "protocolUsesReality proto"
    using assms that check by (auto simp: validateInput_def Let_def split: if_splits)
  moreover have "argo_settings (defaultListen listenAt) st = None" if "proto = ProtocolVLESSArgo"
  proof -
    have "\<not> protocolUsesReality proto" "proto \<noteq> ProtocolSOCKS5" using that by (simp_all add: protocolUsesReality_def protocol_defs)
    then show ?thesis using assms that check by (auto simp: validateInput_def Let_def split: if_splits)
  qed
  moreover have "\<exists>(v :: 'a node_world_scheme) y v'. validateCertificateSettings lib st v = (Inr y, v') \<and> (proto = ProtocolVLESSWSTLS \<longrightarrow> validatePathSetting st ''ws_path'' = None)"
    if "protocolRequiresCertificate proto"
  proof -
    have "\<not> protocolUsesReality proto" "proto \<noteq> ProtocolSOCKS5" "proto \<noteq> ProtocolVLESSArgo"
      using that by (auto simp: protocolUsesReality_def protocolRequiresCertificate_def protocol_defs)
    moreover obtain r1 w1 where 1: "validateCertificateSettings lib st w = (r1, w1)" by (cases "validateCertificateSettings lib st w")
    ultimately have "\<not> isl r1 \<and> (proto = ProtocolVLESSWSTLS \<longrightarrow> validatePathSetting st ''ws_path'' = None)"
      using assms check [of "validatePathSetting st ''ws_path''" w1 u w']
      by (cases r1) (auto simp: validateInput_def Let_def io_bind_def split: if_splits)
    then obtain y where "r1 = Inr y" "proto = ProtocolVLESSWSTLS \<longrightarrow> validatePathSetting st ''ws_path'' = None" by (cases r1) auto
    then show ?thesis using 1 by blast
  qed
  ultimately show ?thesis using cert by (auto simp: protocolRequiresCertificate_def)
qed

lemma path_setting_Inr: "validatePathSetting st k = None \<Longrightarrow> has_prefix (mapString st k) ''/''"
  by (auto simp: validatePathSetting_def Let_def split: if_splits)

lemma mapString_set [simp]: "mapString (set_string k v st) k' = (if k' = k then trim_space v else mapString st k')"
  "mapString (obj_set k j st) k' = (if k' = k then trim_space (case j of JStr v \<Rightarrow> v | _ \<Rightarrow> []) else mapString st k')"
  by (auto simp: mapString_def set_string_def obj_string_def split: json.splits)

lemma obj_any_set [simp]: "obj_any (set_string k v st) k' = (if k' = k then JStr v else obj_any st k')"
  "obj_any (obj_set k j st) k' = (if k' = k then j else obj_any st k')"
  by (simp_all add: obj_any_def set_string_def)

lemma nonempty_mapString: "nonemptyString st k \<longleftrightarrow> mapString st k \<noteq> []"
  by (simp add: nonemptyString_def mapString_def)

lemma obj_string_json_set [simp]: "obj_string (obj_set k (JInt n) st) k' = (if k' = k then [] else obj_string st k')"
  by (simp add: obj_string_def)

lemma obj_string_set_string [simp]: "obj_string (set_string k v st) k' = (if k' = k then v else obj_string st k')"
  by (simp add: set_string_def)

lemma reality_defaults_facts:
  assumes "reality_settings proto st = None"
  shows "mapString (reality_defaults st) ''handshake_server'' \<noteq> []" "mapString (reality_defaults st) ''server_name'' \<noteq> []"
    "validJSONPort (obj_any (reality_defaults st) ''handshake_port'')"
    "k \<notin> {''handshake_server'', ''handshake_port'', ''server_name''} \<Longrightarrow> obj_string (reality_defaults st) k = obj_string st k"
proof -
  have t: "trim_space (mapString st k) = mapString st k" for k by (simp add: mapString_def trim_twice)
  have d: "trim_space ''www.visa.com.sg'' = ''www.visa.com.sg''" by code_simp
  define hs where "hs = (if mapString st ''handshake_server'' = [] then ''www.visa.com.sg'' else mapString st ''handshake_server'')"
  have hs: "hs \<noteq> []" "trim_space hs = hs" using t d by (auto simp: hs_def)
  show h: "mapString (reality_defaults st) ''handshake_server'' \<noteq> []" using t d by (auto simp: reality_defaults_def Let_def)
  show "mapString (reality_defaults st) ''server_name'' \<noteq> []" using t d by (auto simp: reality_defaults_def Let_def)
  have port: "mapNumber st ''handshake_port'' = 0 \<or> validJSONPort (obj_any st ''handshake_port'')"
    using assms by (auto simp: reality_settings_def Let_def mapNumber_def validJSONPort_def obj_any_def validateSettingPort_def
        split: option.splits sum.splits json.splits if_splits)
  have "mapNumber (set_string k v st) ''handshake_port'' = mapNumber st ''handshake_port''" if "k \<noteq> ''handshake_port''" for k v
    using that by (simp add: mapNumber_def set_string_def)
  then show "validJSONPort (obj_any (reality_defaults st) ''handshake_port'')"
    using port by (auto simp: reality_defaults_def Let_def) (auto simp: validJSONPort_def)
  show "obj_string (reality_defaults st) k = obj_string st k" if "k \<notin> {''handshake_server'', ''handshake_port'', ''server_name''}"
    using that by (auto simp: reality_defaults_def Let_def)
qed

lemma reality_restorable:
  assumes "reality_settings proto st = None" and "tidy st" and "protocolUsesReality proto"
    and "trim_space priv \<noteq> []" and "trim_space pub \<noteq> []" and "trim_space sid \<noteq> []"
  shows "validNodeMaterial proto (set_string ''short_id'' sid (set_string ''public_key'' pub (reality_defaults st))) [(''private_key'', JStr priv)]"
proof -
  note f = reality_defaults_facts [OF assms(1)]
  have priv: "nonemptyString [(''private_key'', JStr priv)] ''private_key''" using assms(4) by (simp add: nonemptyString_def obj_string_def)
  have path: "proto = ProtocolVLESSH2Reality \<Longrightarrow> has_prefix (obj_string st ''transport_path'') ''/''"
    and service: "proto = ProtocolVLESSGRPCReality \<Longrightarrow> mapString st ''service_name'' \<noteq> []"
    using assms(1,2) path_setting_Inr [of st "''transport_path''"]
    by (auto simp: reality_settings_def Let_def tidy_def protocol_defs split: sum.splits if_splits)
  have "mapString (reality_defaults st) ''service_name'' = mapString st ''service_name''" using f(4) by (simp add: mapString_def)
  then show ?thesis
    using f priv path service assms(3,5,6) by (auto simp: validNodeMaterial_def protocolUsesReality_def nonempty_mapString)
qed

lemma tls_restorable:
  assumes "mapString st ''server_name'' \<noteq> []" and "has_prefix (mapString st ''certificate_path'') ''/''" and "has_prefix (mapString st ''key_path'') ''/''"
    and "mapString st ''certificate_path'' \<noteq> mapString st ''key_path''" and "tidy st"
  shows "validTLSMaterial st"
  using assms by (auto simp: validTLSMaterial_def Let_def nonempty_mapString tidy_def mapString_def)

text \<open>C8: The material of every node and client that a creation prepares, and its protocol, address and port, pass the
  checks of a restore, provided that no path was entered with a blank in front of it.\<close>

theorem created_node_restorable:
  fixes w :: "'a node_world_scheme"
  assumes "prepared_node s i w = (Inr (n, c), w')" and "tidy (ci_settings i)"
    and "has_prefix (certificateDir (svc_certs s)) ''/''" and "\<And>k. length k = 32 \<Longrightarrow> length (svc_x25519 s k) = 32"
  shows "validNodeMaterial (protocol n) (settings n) (secret n) \<and> validCredential (protocol n) (credential c) \<and>
    SupportedProtocol (protocol n) \<and> parse_ip (listen n) \<noteq> None \<and> 1 \<le> port n \<and> port n \<le> 65535"
proof -
  let ?p = "ci_protocol i"
  obtain st w1 w2 u st1 w3 w4 sec st2 generated w5 where a: "prepareAutomaticCertificate (svc_certs s) ?p (ci_settings i) w = (Inr st, w1)"
    and v: "validateInput (tls (svc_certs s)) ?p (ci_listen i) (ci_port i) st (ci_confirm i) w1 = (Inr u, w2)"
    and x: "with_expiry s ?p st w3 = (Inr st1, w4)" and g: "generatedValues (svc_x25519 s) ?p st1 w4 = (Inr (sec, st2, generated), w5)"
    and cred: "applyCustomCredential ?p generated (ci_credential i) = Inr (credential c)"
    and n: "protocol n = ?p" "listen n = defaultListen (ci_listen i)" "port n = ci_port i" "settings n = st2" "secret n = sec"
    using assms(1) unfolding prepared_node_def
    by (auto simp: io_of_def Let_def elim!: io_bind_InrE dest!: map_error_Inr split: if_splits sum.split_asm)
  note V = validateInput_Inr [OF v]
  have st: "tidy st" by (rule automatic_tidy [OF a assms(2,3)])
  obtain e where st1: "st1 = (if protocolRequiresCertificate ?p then set_string ''certificate_not_after'' e st else st)"
    using x by (auto simp: with_expiry_def elim!: io_bind_InrE split: if_splits)
  have tidy1: "tidy st1" using st tidy_set by (simp add: st1)
  have gen: "\<exists>(v :: 'a node_world_scheme) v'. generatedCredential ?p v = (Inr generated, v')"
    using g unfolding generatedValues_def by (elim io_bind_InrE) (simp split: prod.splits, elim io_bind_InrE, auto)
  have C: "validCredential ?p (credential c)"
    using applyCustomCredential_ready [OF cred] generatedCredential_ready V gen by blast
  have "validNodeMaterial ?p st2 sec"
  proof (cases "protocolUsesReality ?p")
    case True
    then have "st1 = st" by (auto simp: st1 protocolUsesReality_def protocolRequiresCertificate_def protocol_defs)
    then obtain key hex where k: "length key = 32" "length hex = 8" "sec = [(''private_key'', JStr (raw_url_encode key))]"
      "st2 = set_string ''short_id'' (hex_encode hex) (set_string ''public_key'' (raw_url_encode (svc_x25519 s key)) (reality_defaults st))"
      using g True by (auto simp: generatedValues_def Let_def RandomHex_def elim!: io_bind_InrE dest!: rand_read_Inr)
    have ne: "key \<noteq> []" "hex \<noteq> []" "svc_x25519 s key \<noteq> []" using k assms(4) [OF k(1)] by auto
    show ?thesis unfolding k(3,4)
      by (rule reality_restorable [OF _ st True])
        (use V True ne inked_token inked_hex inked_trim in auto)
  next
    case False
    then have s2: "st2 = st1" "sec = []" using g by (auto simp: generatedValues_def elim!: io_bind_InrE)
    show ?thesis
    proof (cases "protocolRequiresCertificate ?p")
      case True
      then have "validTLSMaterial st1" "?p = ProtocolVLESSWSTLS \<Longrightarrow> has_prefix (obj_string st1 ''ws_path'') ''/''"
        using tls_restorable [OF _ _ _ _ tidy1] V st path_setting_Inr [of st "''ws_path''"] by (auto simp: st1 tidy_def)
      then show ?thesis using True s2 by (auto simp: validNodeMaterial_def protocolRequiresCertificate_def protocol_defs)
    next
      case F2: False
      then have p: "?p = ProtocolVLESSArgo" using False V by (auto simp: SupportedProtocol_def protocolUsesReality_def protocolRequiresCertificate_def)
      then have "mapString st ''server_name'' \<noteq> []" "has_prefix (mapString st ''ws_path'') ''/''"
        using V path_setting_Inr [of st "''ws_path''"] by (auto simp: argo_settings_def split: if_splits sum.splits)
      then show ?thesis using p s2 F2 st by (simp add: validNodeMaterial_def st1 nonempty_mapString tidy_def protocol_defs)
    qed
  qed
  with C V n show ?thesis by simp
qed

lemma prepared_cases: "\<not> isl (fst p) \<Longrightarrow> \<exists>n c w'. p = (Inr (n, c), w')"
  by (cases p; cases "fst p") auto

definition argo_input :: "string \<Rightarrow> create_input" where
  "argo_input path = \<lparr>ci_name = ''n'', ci_protocol = ProtocolVLESSArgo, ci_listen = ''127.0.0.1'', ci_port = 9000, ci_enabled = True, ci_client = [],
     ci_credential = [], ci_host = [], ci_settings = [(''server_name'', JStr ''a.example''), (''ws_path'', JStr path)], ci_confirm = False,
     ci_outbound = None\<rparr>"

definition restorable_service :: "node_world node_service" where
  "restorable_service = demo_service\<lparr>svc_certs := \<lparr>tls = demo_tls, certificateDir = ''/certs'', allowSelfSigned = False\<rparr>\<rparr>"

lemma argo_prepared:
  "\<not> isl (fst (prepared_node restorable_service (argo_input ''/ws'') node_demo))"
  "\<not> isl (fst (prepared_node restorable_service (argo_input '' /ws'') node_demo))"
  by code_simp+

theorem created_node_restorable_witness:
  "\<exists>n c w'. prepared_node restorable_service (argo_input ''/ws'') node_demo = (Inr (n, c), w') \<and>
     validNodeMaterial (protocol n) (settings n) (secret n) \<and> validCredential (protocol n) (credential c)"
proof -
  obtain n c w' where p: "prepared_node restorable_service (argo_input ''/ws'') node_demo = (Inr (n, c), w')"
    using prepared_cases [OF argo_prepared(1)] by blast
  have "tidy (ci_settings (argo_input ''/ws''))" "has_prefix ''/certs'' ''/''" by code_simp+
  then show ?thesis using created_node_restorable [OF p] p by (auto simp: restorable_service_def demo_service_def)
qed

text \<open>With a blank in front of the path the node is created all the same, and the restore refuses it.\<close>

theorem blank_before_path_not_restorable:
  "\<exists>n c w'. prepared_node restorable_service (argo_input '' /ws'') node_demo = (Inr (n, c), w') \<and>
     \<not> validNodeMaterial (protocol n) (settings n) (secret n)"
proof -
  obtain n c w' where p: "prepared_node restorable_service (argo_input '' /ws'') node_demo = (Inr (n, c), w')"
    using prepared_cases [OF argo_prepared(2)] by blast
  have "\<not> (case fst (prepared_node restorable_service (argo_input '' /ws'') node_demo) of
     Inr (n, c) \<Rightarrow> validNodeMaterial (protocol n) (settings n) (secret n) | Inl _ \<Rightarrow> True)" by code_simp
  then show ?thesis using p by auto
qed

end
