(* ===== verification/VpnServiceLaws.thy ===== *)
theory VpnServiceLaws
  imports VpnService NodeDemo
begin

text \<open>
  What a VPNGate exit is after it was created or swapped: the tunnel runs to a candidate of the catalog and of its
  country whose configuration the sanitizer let through, the row says so, and no other active exit uses that candidate.
\<close>

section \<open>The parts around the database\<close>

definition vpn_apart :: "('a db_scheme, 'l) vpn_service \<Rightarrow> bool" where
  "vpn_apart s \<longleftrightarrow> (\<forall>x c config u p. reads_only (orc_provision (vpn_orchestrator s) x c config u p)) \<and>
     (\<forall>x. reads_only (orc_stop (vpn_orchestrator s) x)) \<and> reads_only (vpn_fetch s)"

lemma vpn_apartD:
  assumes "vpn_apart s"
  shows "reads_only (orc_provision (vpn_orchestrator s) x c config u p)" "reads_only (orc_stop (vpn_orchestrator s) x)"
    "reads_only (vpn_fetch s)"
  using assms by (simp_all add: vpn_apart_def)

section \<open>The other exits\<close>

definition other_exits :: "int \<Rightarrow> tables \<Rightarrow> vpn_exit list" where
  "other_exits i t = filter (\<lambda>x. exit_id x \<noteq> i) (vpngate_exits t)"

definition same_others :: "int \<Rightarrow> tables \<Rightarrow> tables \<Rightarrow> bool" where
  "same_others i t u \<longleftrightarrow> other_exits i u = other_exits i t"

interpretation others: frame "same_others i" for i
  by unfold_locales (simp_all add: same_others_def)

lemma same_others_tables [simp]:
  "same_others i t (t\<lparr>outbounds := os\<rparr>)" "same_others i t (t\<lparr>system_events := es\<rparr>)" "same_others i t (t\<lparr>vpngate_candidates := cs\<rparr>)"
  by (simp_all add: same_others_def other_exits_def)

lemma update_exits_others:
  assumes "i = j"
  shows "same_others i t (snd (update_exits j (set_exit x now) t))"
proof -
  have "filter (\<lambda>x. exit_id x \<noteq> j) (map (\<lambda>r. if exit_id r = j then set_exit x now r else r) rs) = filter (\<lambda>x. exit_id x \<noteq> j) rs" for rs
    by (induction rs) (auto simp: set_exit_def)
  then show ?thesis using assms by (simp add: same_others_def other_exits_def update_exits_def update_rows_def)
qed

lemma update_others_in [frame_intro]: "within (same_others i) (UpdateOutbound blk ob)"
  unfolding UpdateOutbound_def update_outbounds_def by (intro frame_intro) (simp add: update_rows_def)

lemma event_others_in [frame_intro]: "within (same_others i) (RecordEvent level code message)"
  unfolding RecordEvent_def insert_event_def by (intro frame_intro) simp_all

lemma exit_others_in: "exit_id x = i \<Longrightarrow> within (same_others i) (UpdateVPNGateExit x)"
  unfolding UpdateVPNGateExit_def by (intro frame_intro update_exits_others) simp

lemma health_others_in: "exit_id x = i \<Longrightarrow> within (same_others i) (UpdateVPNGateExitAndHealth x healthy)"
  unfolding UpdateVPNGateExitAndHealth_def update_outbounds_def by (intro frame_intro update_exits_others) (simp_all add: update_rows_def)

lemma catalog_others_in [frame_intro]: "within (same_others i) (ReplaceVPNGateCandidates blk cs)"
  unfolding ReplaceVPNGateCandidates_def insert_candidate_def by (intro frame_intro) simp_all

lemma reads_only_exits [quiet_intro]: "reads_only (Store_VPNGateExit i)" "reads_only ListVPNGateExits" "reads_only (ListVPNGateCandidates blk)"
  unfolding Store_VPNGateExit_def ListVPNGateExits_def ListVPNGateCandidates_def by (intro quiet_intro)+

lemmas [frame_intro] = others.reads [OF reads_only_exits(1)] others.reads [OF reads_only_exits(2)] others.reads [OF reads_only_exits(3)]
  others.reads [OF reads_only_time] others.reads [OF reads_only_store(5)]

lemma recordEvent_others [frame_intro]: "within (same_others i) (recordEvent level code message)"
  unfolding recordEvent_def by (intro frame_intro)

lemma updateOutboundHealth_others [frame_intro]: "within (same_others i) (updateOutboundHealth s x healthy)"
  unfolding updateOutboundHealth_def by (intro frame_intro)

lemma cachedCandidates_others [frame_intro]: "vpn_apart s \<Longrightarrow> within (same_others i) (cachedCandidates s)"
  unfolding cachedCandidates_def by (intro frame_intro others.reads vpn_apartD)

definition same_rows :: "tables \<Rightarrow> tables \<Rightarrow> bool" where
  "same_rows t u \<longleftrightarrow> vpngate_exits u = vpngate_exits t"

interpretation rows: frame same_rows
  by unfold_locales (simp_all add: same_rows_def)

lemma recordEvent_rows: "within same_rows (recordEvent level code message)"
  unfolding recordEvent_def RecordEvent_def insert_event_def by (intro frame_intro) (simp_all add: same_rows_def)

lemma cachedCandidates_rows: "vpn_apart s \<Longrightarrow> within same_rows (cachedCandidates s)"
  unfolding cachedCandidates_def ReplaceVPNGateCandidates_def insert_candidate_def
  by (intro frame_intro rows.reads vpn_apartD reads_only_exits reads_only_time) (simp_all add: same_rows_def)

section \<open>Trying candidates\<close>

text \<open>The exit \<open>y\<close> runs over the candidate \<open>c\<close>: sanitized, provisioned, and recorded with the address observed.\<close>

definition runs_over :: "('a db_scheme, 'l) vpn_service \<Rightarrow> vpn_exit \<Rightarrow> candidate \<Rightarrow> bool" where
  "runs_over s y c \<longleftrightarrow> exit_host y = host_name c \<and> exit_ip y = cand_ip c \<and>
     (\<exists>config remote x u p v v'. SanitizeOpenVPN (openvpn_config c) (cand_ip c) = Inr (config, remote) \<and>
        remote_protocol y = rem_protocol remote \<and> remote_port y = rem_port remote \<and>
        orc_provision (vpn_orchestrator s) x c config u p v = (Inr (exit_observed y), v'))"

lemma tryCandidates_others: "exit_id x = i \<Longrightarrow> vpn_apart s \<Longrightarrow> within (same_others i) (tryCandidates s u p x failures cs)"
proof (induction s u p x failures cs rule: tryCandidates.induct)
  case (2 s u p x failures c cs)
  then show ?case
    by (auto simp: Let_def split: sum.split intro!: frame_intro exit_others_in others.reads [OF vpn_apartD(1)])
qed (simp add: frame_intro)

lemma tryCandidates_outcome:
  fixes s :: "('a db_scheme, 'l) vpn_service"
  shows "tryCandidates s u p x failures cs w = (Inr (x', r), w') \<Longrightarrow> exit_id x' = exit_id x \<and> exit_country x' = exit_country x \<and>
    (case r of Inr observed \<Rightarrow> \<exists>c\<in>set cs. runs_over s (x'\<lparr>exit_observed := observed\<rparr>) c
     | Inl None \<Rightarrow> failures = [] \<and> cs = [] | Inl (Some e) \<Rightarrow> True)"
proof (induction s u p x failures cs arbitrary: w rule: tryCandidates.induct)
  case (1 s u p x failures)
  then show ?case by (auto split: option.split)
next
  case (2 s u p x failures c cs)
  show ?case
  proof (cases "SanitizeOpenVPN (openvpn_config c) (cand_ip c)")
    case (Inl e)
    then have "tryCandidates s u p x (failures @ [Wrap (host_name c) e]) cs w = (Inr (x', r), w')" using "2.prems" by simp
    from "2.IH"(1) [OF Inl this] show ?thesis by (auto split: sum.splits option.splits)
  next
    case (Inr pair)
    obtain config remote where pair: "pair = (config, remote)" by (cases pair)
    let ?x = "x\<lparr>exit_host := host_name c, exit_ip := cand_ip c, remote_protocol := rem_protocol remote, remote_port := rem_port remote\<rparr>"
    obtain r1 w1 where 1: "UpdateVPNGateExit ?x w = (r1, w1)" by (cases "UpdateVPNGateExit ?x w")
    show ?thesis
    proof (cases r1)
      case (Inl e)
      then show ?thesis using "2.prems" Inr pair 1 by (auto simp: Let_def)
    next
      case (Inr v)
      obtain r2 w2 where 2: "orc_provision (vpn_orchestrator s) ?x c config u p w1 = (r2, w2)"
        by (cases "orc_provision (vpn_orchestrator s) ?x c config u p w1")
      show ?thesis
      proof (cases r2)
        case (Inr observed)
        then have "x' = ?x" "r = Inr observed" using "2.prems" \<open>SanitizeOpenVPN _ _ = Inr pair\<close> pair 1 \<open>r1 = Inr v\<close> 2 by (auto simp: Let_def)
        then have "runs_over s (x'\<lparr>exit_observed := observed\<rparr>) c"
          using \<open>SanitizeOpenVPN _ _ = Inr pair\<close> pair 2 [unfolded Inr] unfolding runs_over_def
            by (intro conjI exI [of _ config] exI [of _ remote] exI [of _ ?x] exI [of _ u] exI [of _ p] exI [of _ w1] exI [of _ w2]) auto
        then show ?thesis using \<open>x' = ?x\<close> \<open>r = Inr observed\<close> by auto
      next
        case (Inl e)
        then have t: "tryCandidates s u p ?x (failures @ [Wrap (host_name c) e]) cs w2 = (Inr (x', r), w')"
          using "2.prems" \<open>SanitizeOpenVPN _ _ = Inr pair\<close> pair 1 \<open>r1 = Inr v\<close> 2 by (simp add: Let_def)
        from "2.IH"(2) [OF \<open>SanitizeOpenVPN _ _ = Inr pair\<close> pair [symmetric] refl t] show ?thesis
          by (auto split: sum.splits option.splits)
      qed
    qed
  qed
qed

section \<open>The row of the exit\<close>

lemma UpdateVPNGateExitAndHealth_row:
  fixes w w' :: "'a db_scheme"
  assumes "UpdateVPNGateExitAndHealth x healthy w = (Inr u, w')" and "y \<in> set (vpngate_exits (tables w'))" and "exit_id y = exit_id x"
  shows "\<exists>now r. y = set_exit x now r"
proof -
  from assms(1) [unfolded UpdateVPNGateExitAndHealth_def] obtain w0 w1 :: "'a db_scheme" where b: "tables w' = tables w1"
    "io_bind unix_now (\<lambda>now. io_bind (io_map_error normalizeWriteError (statement (update_exits (exit_id x) (set_exit x now)))) (\<lambda>n.
       io_bind (affected_row ErrNoRows n) (\<lambda>_. io_bind (io_map_error normalizeWriteError (statement (update_outbounds (exit_outbound x) (set_health x healthy now))))
       (affected_row ErrNoRows)))) w0 = (Inr u, w1)" by (rule committed_InrE)
  then obtain now n m and w2 w3 w4 :: "'a db_scheme" where st: "statement (update_exits (exit_id x) (set_exit x now)) w2 = (Inr n, w3)"
    "statement (update_outbounds (exit_outbound x) (set_health x healthy now)) w3 = (Inr m, w4)" and e: "tables w1 = tables w4"
    by (auto simp: affected_row_def elim!: io_bind_InrE dest!: map_error_Inr split: if_splits)
  then have "vpngate_exits (tables w') = map (\<lambda>r. if exit_id r = exit_id x then set_exit x now r else r) (vpngate_exits (tables w2))"
    using b(1) e statement_tables(1) [OF st(1)] statement_tables(1) [OF st(2)] by (simp add: update_exits_def update_outbounds_def update_rows_def)
  then show ?thesis using assms(2,3) by (auto simp: set_exit_def split: if_splits)
qed

text \<open>What a successful settling stores, when the candidates were tried.\<close>

lemma settle_Inr:
  fixes w :: "'a db_scheme"
  assumes "VpnService.settle s failed okcode (x, r) w = (Inr y, w')" and "vpn_apart s"
  shows "same_others (exit_id x) (tables w) (tables w') \<and> exit_id y = exit_id x \<and> y \<in> set (vpngate_exits (tables w')) \<and>
    (\<forall>e. r \<noteq> Inl (Some e)) \<and> exit_status y = ''running'' \<and> exit_host y = exit_host x \<and> exit_ip y = exit_ip x \<and>
    exit_country y = exit_country x \<and> remote_protocol y = remote_protocol x \<and> remote_port y = remote_port x \<and>
    exit_observed y = (case r of Inr observed \<Rightarrow> observed | Inl _ \<Rightarrow> [])"
proof -
  have r: "\<forall>e. r \<noteq> Inl (Some e)" using assms(1) by (auto simp: VpnService.settle_def faulted_def Let_def elim!: io_bind_InrE)
  let ?x = "\<lambda>now. x\<lparr>exit_status := ''running'', exit_observed := (case r of Inr observed \<Rightarrow> observed | Inl _ \<Rightarrow> []),
          exit_checked := Some (unix_seconds now), exit_error := []\<rparr>"
  have st: "VpnService.settle s failed okcode (x, r) = io_bind time_now (\<lambda>now. io_bind (persistRunning s (?x now)) (\<lambda>_.
        io_bind (Store_VPNGateExit (exit_id x)) (\<lambda>stored. io_bind (recordEvent ''info'' okcode (exit_name stored)) (\<lambda>_. io_return stored))))"
    using r by (cases r) (auto simp: VpnService.settle_def split: option.splits)
  from assms(1) [unfolded st] obtain now u w1 w2 w3 w4 e where 1: "time_now w = (Inr now, w1)" "persistRunning s (?x now) w1 = (Inr u, w2)"
    "Store_VPNGateExit (exit_id x) w2 = (Inr y, w3)" "recordEvent ''info'' okcode (exit_name y) w3 = (Inr e, w')"
    by (auto elim!: io_bind_InrE)
  have p: "UpdateVPNGateExitAndHealth (?x now) True w1 = (Inr (), w2)"
    using 1(2) by (auto simp: persistRunning_def io_try_def Let_def errors_Join_def map_filter_simps elim!: io_bind_InrE split: prod.splits sum.splits)
  have t: "tables w1 = tables w" "tables w3 = tables w2"
    using reads_onlyD [OF reads_only_time 1(1)] reads_onlyD [OF reads_only_exits(1) 1(3)] by simp_all
  have ev: "vpngate_exits (tables w') = vpngate_exits (tables w3)"
    using withinD [OF recordEvent_rows 1(4)] by (simp add: same_rows_def)
  have y: "y \<in> set (vpngate_exits (tables w2))" "exit_id y = exit_id x"
    using 1(3) by (auto simp: Store_VPNGateExit_def query_row_def query_def attempt_def io_bind_def io_of_def split: if_splits list.splits dest: filter_eq_ConsD)
  obtain n q where "y = set_exit (?x now) n q" using UpdateVPNGateExitAndHealth_row [OF p y(1)] y(2) by auto
  moreover have "same_others (exit_id x) (tables w) (tables w2)"
    using withinD [OF health_others_in [of "?x now" "exit_id x" True] p] t(1) by simp
  moreover have "same_others (exit_id x) (tables w2) (tables w')"
    using withinD [OF recordEvent_others 1(4)] t(2) by metis
  ultimately show ?thesis using r y t ev others.frame_trans by (auto simp: set_exit_def)
qed

section \<open>Creating and swapping\<close>

definition in_country :: "vpn_exit \<Rightarrow> candidate \<Rightarrow> bool" where
  "in_country y c \<longleftrightarrow> to_upper (trim_space (exit_country y)) = [] \<or> country_short c = to_upper (trim_space (exit_country y))"

text \<open>No other exit that holds a candidate has this one.\<close>

definition sole_user :: "vpn_exit \<Rightarrow> tables \<Rightarrow> bool" where
  "sole_user y t \<longleftrightarrow> (\<forall>z\<in>set (other_exits (exit_id y) t). exit_id z \<noteq> 0 \<and> exit_host z \<noteq> [] \<and> exit_status z \<notin> {''stopped'', ''expired''} \<longrightarrow>
     exit_host z \<noteq> exit_host y)"

lemma active_candidates:
  "h \<in> set (activeCandidates exits j) \<longleftrightarrow> (\<exists>x\<in>set exits. exit_id x \<noteq> j \<and> exit_host x = h \<and> h \<noteq> [] \<and>
     exit_status x \<notin> {''stopped'', ''expired''})"
  by (auto simp: activeCandidates_def image_iff)

lemma ListVPNGateExits_Inr: "ListVPNGateExits w = (Inr xs, w') \<Longrightarrow> set xs = set (vpngate_exits (tables w))"
proof -
  have s: "scan_all Inr rs = Inr ys \<Longrightarrow> ys = rs" for rs ys :: "vpn_exit list" by (induction rs arbitrary: ys) (auto split: sum.splits)
  assume "ListVPNGateExits w = (Inr xs, w')"
  then have "scan_all Inr (sort_key slot (vpngate_exits (tables w))) = Inr xs"
    by (auto simp: ListVPNGateExits_def query_rows_def query_def attempt_def ticked_def io_of_def elim!: io_bind_InrE split: if_splits sum.splits)
  from s [OF this] show ?thesis by simp
qed

lemma preferred_subset: "d \<in> set (preferred j ranked) \<Longrightarrow> d \<in> set ranked"
proof -
  have t: "tl (dropWhile P xs) = [] \<or> set (tl (dropWhile P xs)) \<subseteq> set xs" for P and xs :: "candidate list"
    by (metis set_dropWhileD list.set_sel(2) subsetI tl_Nil)
  assume "d \<in> set (preferred j ranked)"
  then show ?thesis
    using t [of "\<lambda>c. host_name c \<noteq> vi_host j" ranked]
    by (cases "find (\<lambda>c. host_name c = vi_host j) ranked")
      (auto simp: preferred_def dest: set_takeWhileD find_Some_in split: if_splits)
qed

lemma CreateVPNGateExit_Inr:
  fixes w w' :: "'a db_scheme"
  assumes "CreateVPNGateExit blk ob ex w = (Inr x, w')"
  shows "exit_country x = exit_country ex \<and> other_exits (exit_id x) (tables w') = vpngate_exits (tables w)"
proof -
  from assms obtain encrypted i and w1 w2 :: "'a db_scheme" where 1: "encryptJSON blk (credential_obj ob) w = (Inr encrypted, w1)"
    and 2: "transaction (committed (io_bind unix_now (\<lambda>now.
       io_bind (io_map_error normalizeWriteError (statement (\<lambda>t. insert_outbound (exit_outbound_row ob encrypted now t) t))) (\<lambda>outboundID.
       io_map_error normalizeWriteError (statement (insert_exit ex outboundID now)))))) w1 = (Inr i, w2)" and 3: "Store_VPNGateExit i w2 = (Inr x, w')"
    unfolding CreateVPNGateExit_def by (auto elim!: io_bind_InrE)
  from 2 obtain u v :: "'a db_scheme" where b: "tables u = tables w1" "tables w2 = tables v" "io_bind unix_now (\<lambda>now.
       io_bind (io_map_error normalizeWriteError (statement (\<lambda>t. insert_outbound (exit_outbound_row ob encrypted now t) t))) (\<lambda>outboundID.
       io_map_error normalizeWriteError (statement (insert_exit ex outboundID now)))) u = (Inr i, v)" by (rule committed_InrE)
  from b(3) obtain now j and u1 u2 :: "'a db_scheme" where 4: "unix_now u = (Inr now, u1)"
    "statement (\<lambda>t. insert_outbound (exit_outbound_row ob encrypted now t) t) u1 = (Inr j, u2)" "statement (insert_exit ex j now) u2 = (Inr i, v)"
    by (auto elim!: io_bind_InrE dest!: map_error_Inr)
  let ?E = "vpngate_exits (tables w)"
  have "tables u1 = tables w" using reads_onlyD [OF reads_only_now 4(1)] b(1) reads_onlyD [OF reads_only_encrypt 1] by simp
  then have e2: "vpngate_exits (tables u2) = ?E" using statement_tables(1) [OF 4(2)] by (simp add: insert_outbound_def Let_def)
  have i: "i = next_rowid (map exit_id ?E)" using statement_tables(2) [OF 4(3)] e2 by (simp add: insert_exit_def Let_def)
  have v: "vpngate_exits (tables v) = ?E @ [ex\<lparr>exit_id := i, exit_outbound := j, exit_created := now, exit_updated := now\<rparr>]"
    using statement_tables(1) [OF 4(3)] e2 i by (simp add: insert_exit_def Let_def)
  have fresh: "exit_id z \<noteq> i" if "z \<in> set ?E" for z using next_rowid_fresh [of "map exit_id ?E"] i that by (metis image_eqI set_map)
  then have none: "filter (\<lambda>r. exit_id r = i) ?E = []" and all: "filter (\<lambda>r. exit_id r \<noteq> i) ?E = ?E" by (auto simp: filter_empty_conv filter_id_conv)
  have "x = ex\<lparr>exit_id := i, exit_outbound := j, exit_created := now, exit_updated := now\<rparr>"
    using 3 v none b(2) by (auto simp: Store_VPNGateExit_def query_row_def query_def attempt_def io_of_def ticked_def elim!: io_bind_InrE split: if_splits)
  moreover have "tables w' = tables v" using reads_onlyD [OF reads_only_exits(1) 3] b(2) by simp
  ultimately show ?thesis using v all by (simp add: other_exits_def)
qed

text \<open>What both handlers end with.\<close>

lemma settled_exit:
  fixes s :: "('a db_scheme, 'l) vpn_service"
  assumes "vpn_apart s" and "io_bind (tryCandidates s u p x [] (c # cs)) (VpnService.settle s failed okcode) w = (Inr y, w')"
  shows "\<exists>d\<in>set (c # cs). runs_over s y d \<and> exit_id y = exit_id x \<and> exit_country y = exit_country x \<and> exit_status y = ''running'' \<and>
    y \<in> set (vpngate_exits (tables w')) \<and> same_others (exit_id x) (tables w) (tables w')"
proof -
  from assms(2) obtain x' r w1 where 1: "tryCandidates s u p x [] (c # cs) w = (Inr (x', r), w1)"
    and 2: "VpnService.settle s failed okcode (x', r) w1 = (Inr y, w')" by (auto elim!: io_bind_InrE)
  note o = tryCandidates_outcome [OF 1]
  note t = settle_Inr [OF 2 assms(1)]
  from o t obtain observed d where r: "r = Inr observed" "d \<in> set (c # cs)" "runs_over s (x'\<lparr>exit_observed := observed\<rparr>) d"
    by (cases r) (auto split: option.splits)
  have "runs_over s y d" using r t unfolding runs_over_def by auto
  moreover have "same_others (exit_id x) (tables w) (tables w')"
    using withinD [OF tryCandidates_others [OF refl assms(1)] 1] t o others.frame_trans by metis
  ultimately show ?thesis using r(2) o t by auto
qed

text \<open>C10: An exit that was created or swapped is running, its row is stored, its tunnel leads to a candidate of the catalog and of
  its country whose configuration passed the sanitizer and with which the namespace was brought up, and no other
  exit that holds a candidate uses the same one.\<close>

theorem settled_exit_runs_over_candidate:
  fixes s :: "('a db_scheme, 'l) vpn_service"
  assumes "vpn_apart s" and "m = Swap s i \<or> m = Create_exit s input" and "m w = (Inr y, w')"
  shows "\<exists>c cs v v'. cachedCandidates s v = (Inr cs, v') \<and> c \<in> set cs \<and> in_country y c \<and> runs_over s y c \<and>
    exit_status y = ''running'' \<and> y \<in> set (vpngate_exits (tables w')) \<and> sole_user y (tables w')"
  using assms(2)
proof
  assume "m = Swap s i"
  then have "swapLocked s i w = (Inr y, w')" using assms(3) by (simp add: Swap_def)
  then obtain x ob exits cs c others u w1 w2 w3 w4 w5 w6 where 1: "Store_VPNGateExit i w = (Inr x, w1)" "Store_Outbound (vpn_sealer s) (exit_outbound x) w1 = (Inr ob, w2)"
    "ListVPNGateExits w2 = (Inr exits, w3)" "cachedCandidates s w3 = (Inr cs, w4)"
    and k: "take 6 (FilterAndRank cs (exit_country x) (exit_host x # activeCandidates exits (exit_id x))) = c # others"
    and st: "orc_stop (vpn_orchestrator s) x w4 = (Inr u, w5)" "UpdateVPNGateExit (x\<lparr>exit_status := ''swapping'', exit_observed := [], exit_error := []\<rparr>) w5 = (Inr (), w6)"
    and f: "io_bind (tryCandidates s (out_username ob) (out_password ob) (x\<lparr>exit_status := ''swapping'', exit_observed := [], exit_error := []\<rparr>) [] (c # others))
      (VpnService.settle s ''vpngate_swap_failed'' ''vpngate_exit_swapped'') w6 = (Inr y, w')"
    unfolding swapLocked_def
    by (auto simp: Let_def io_try_def elim!: io_bind_InrE split: list.splits prod.splits sum.splits)
  from settled_exit [OF assms(1) f] obtain d where d: "d \<in> set (c # others)" "runs_over s y d" "exit_id y = exit_id x"
    "exit_country y = exit_country x" "exit_status y = ''running''" "y \<in> set (vpngate_exits (tables w'))" "same_others (exit_id x) (tables w6) (tables w')"
    by auto
  have "d \<in> set (FilterAndRank cs (exit_country x) (exit_host x # activeCandidates exits (exit_id x)))" using d(1) k by (metis in_set_takeD)
  then have dk: "d \<in> set cs" "in_country y d" "host_name d \<notin> set (activeCandidates exits (exit_id x))"
    using d(4) by (auto simp: FilterAndRank_set in_country_def)
  have t: "tables w1 = tables w" "tables w2 = tables w1" "tables w3 = tables w2" "tables w5 = tables w4"
    using reads_onlyD [OF reads_only_exits(1) 1(1)] reads_onlyD [OF reads_only_store(5) 1(2)] reads_onlyD [OF reads_only_exits(2) 1(3)]
      reads_onlyD [OF vpn_apartD(2) [OF assms(1)] st(1)] by simp_all
  have "same_others (exit_id x) (tables w3) (tables w4)" by (rule withinD [OF cachedCandidates_others [OF assms(1)] 1(4)])
  moreover have "same_others (exit_id x) (tables w5) (tables w6)" by (rule withinD [OF exit_others_in st(2)]) simp
  ultimately have "other_exits (exit_id x) (tables w') = other_exits (exit_id x) (tables w)" using d(7) t by (simp add: same_others_def)
  moreover have "set exits = set (vpngate_exits (tables w))" using ListVPNGateExits_Inr [OF 1(3)] t by simp
  moreover have "exit_host y = host_name d" using d(2) by (simp add: runs_over_def)
  ultimately have "sole_user y (tables w')" using dk(3) d(3) by (fastforce simp: sole_user_def active_candidates other_exits_def)
  then show ?thesis using 1(4) dk d by blast
next
  assume "m = Create_exit s input"
  then have "Create_exit s input w = (Inr y, w')" using assms(3) by simp
  then obtain j exits cs c others username password now x w1 w2 w3 w4 w5 w6 where 1: "ListVPNGateExits w = (Inr exits, w1)" "cachedCandidates s w1 = (Inr cs, w2)"
    and k: "take 6 (preferred j (FilterAndRank cs (vi_country j) (activeCandidates exits 0))) = c # others"
    and r: "RandomToken 12 w2 = (Inr username, w3)" "RandomToken 24 w3 = (Inr password, w4)" "time_now w4 = (Inr now, w5)"
    and cr: "CreateVPNGateExit (vpn_sealer s) (exit_outbound_of (exit_of_input j (availableSlot exits (vpn_max s)) c now) username password)
       (exit_of_input j (availableSlot exits (vpn_max s)) c now) w5 = (Inr x, w6)"
    and f: "io_bind (tryCandidates s username password x [] (c # others)) (VpnService.settle s ''vpngate_connect_failed'' ''vpngate_exit_created'') w6 = (Inr y, w')"
    unfolding Create_exit_def
    by (auto simp: Let_def io_of_def elim!: io_bind_InrE dest!: map_error_Inr split: list.splits if_splits sum.splits)
  from settled_exit [OF assms(1) f] obtain d where d: "d \<in> set (c # others)" "runs_over s y d" "exit_id y = exit_id x"
    "exit_country y = exit_country x" "exit_status y = ''running''" "y \<in> set (vpngate_exits (tables w'))" "same_others (exit_id x) (tables w6) (tables w')"
    by auto
  note x = CreateVPNGateExit_Inr [OF cr]
  have "d \<in> set (FilterAndRank cs (vi_country j) (activeCandidates exits 0))" using d(1) k preferred_subset by (metis in_set_takeD)
  then have dk: "d \<in> set cs" "in_country y d" "host_name d \<notin> set (activeCandidates exits 0)"
    using d(4) x by (auto simp: FilterAndRank_set in_country_def exit_of_input_def)
  have "same_rows (tables w1) (tables w2)" by (rule withinD [OF cachedCandidates_rows [OF assms(1)] 1(2)])
  moreover have "tables w1 = tables w" "tables w5 = tables w2"
    using reads_onlyD [OF reads_only_exits(2) 1(1)] reads_onlyD [OF reads_only_time r(3)]
      reads_onlyD [OF reads_only_RandomToken r(1)] reads_onlyD [OF reads_only_RandomToken r(2)] by simp_all
  ultimately have "other_exits (exit_id x) (tables w') = vpngate_exits (tables w)"
    using d(7) x by (simp add: same_rows_def same_others_def)
  moreover have "set exits = set (vpngate_exits (tables w))" by (rule ListVPNGateExits_Inr [OF 1(1)])
  moreover have "exit_host y = host_name d" using d(2) by (simp add: runs_over_def)
  ultimately have "sole_user y (tables w')" using dk(3) d(3) by (fastforce simp: sole_user_def active_candidates)
  then show ?thesis using 1(2) dk d by blast
qed

section \<open>A concrete swap\<close>

definition swap_candidate :: candidate where
  "swap_candidate = \<lparr>host_name = ''vpn2'', cand_ip = ''1.2.3.4'', score = 1, ping = 1, speed = 1, country_long = ''Japan'',
     country_short = ''JP'', num_sessions = 1, uptime = 1, openvpn_config = demo_config, fetched_at = 0\<rparr>"

definition swap_exit :: vpn_exit where
  "swap_exit = \<lparr>exit_id = 1, exit_outbound = 7, slot = 1, exit_name = ''x'', exit_country = ''JP'', exit_host = ''vpn1'',
     exit_ip = ''1.2.3.3'', remote_protocol = ''udp'', remote_port = 1194, namespace = ''jui-vpn-1'', local_address = ''10.254.1.2'',
     local_port = 1080, exit_status = ''running'', exit_observed = ''9.9.9.9'', exit_error = [], failure_policy = ''block'',
     permanent = True, expires_at = None, exit_checked = None, exit_created = 0, exit_updated = 0\<rparr>"

definition swap_outbound :: "string \<Rightarrow> outbound_row" where
  "swap_outbound sec = \<lparr>or_id = 7, or_name = ''o'', or_type = ''socks5'', or_server = ''10.254.1.2'', or_port = 1080, or_enabled = 1,
     or_credential = sec, or_managed = ''vpngate'', or_status = [], or_observed = [], or_country = [], or_asn = [], or_error = [],
     or_checked = None, or_created = 0, or_updated = 0\<rparr>"

definition sealed_config :: string where
  "sealed_config = raw_url_encode (replicate 12 zero_byte @ gcm_seal id (replicate 12 zero_byte) demo_config)"

definition swap_tables :: tables where
  "swap_tables = empty_tables\<lparr>outbounds := [swap_outbound demo_sealed], vpngate_exits := [swap_exit],
     vpngate_candidates := [candidate_row_of swap_candidate sealed_config]\<rparr>"

definition swap_service :: "(db, unit) vpn_service" where
  "swap_service = \<lparr>vpn_sealer = id, vpn_orchestrator = \<lparr>orc_provision = (\<lambda>_ _ _ _ _. io_return ''5.6.7.8''), orc_stop = (\<lambda>_. io_return ()),
     orc_healthy = (\<lambda>_. io_return True)\<rparr>, vpn_mirrors = None, vpn_fetch = io_fail (Err ''unreachable''), vpn_max = 5, vpn_inspector = None\<rparr>"

text \<open>The one exit and its outbound.\<close>

definition lone :: "tables \<Rightarrow> bool" where
  "lone t \<longleftrightarrow> consistent t \<and> map exit_id (vpngate_exits t) = [1] \<and> map or_id (outbounds t) = [7]"

lemma lone_exit:
  assumes "lone t" and "failure_policy x \<in> {''block'', ''auto_swap''}"
  shows "lone (snd (update_exits 1 (set_exit x now) t)) \<and> fst (update_exits 1 (set_exit x now) t) = 1"
  using assms
  by (auto simp: lone_def update_exits_def update_rows_def set_exit_def consistent_def checks_def uniques_def references_def map_eq_Cons_conv
      cong: option.case_cong)

lemma lone_health:
  assumes "lone t"
  shows "lone (snd (update_outbounds 7 (set_health x b now) t)) \<and> fst (update_outbounds 7 (set_health x b now) t) = 1"
  using assms
  by (auto simp: lone_def update_outbounds_def update_rows_def set_health_def consistent_def checks_def uniques_def references_def map_eq_Cons_conv
      cong: option.case_cong)

lemma exit_calm:
  fixes w :: "'a db_scheme"
  assumes "calm w" and "lone (tables w)" and "exit_id x = 1" and "failure_policy x \<in> {''block'', ''auto_swap''}"
  shows "\<exists>w'. UpdateVPNGateExit x w = (Inr (), w') \<and> calm w' \<and> lone (tables w')"
proof -
  let ?now = "unix_seconds (clock_at w (calls w))"
  obtain w1 where "statement (update_exits 1 (set_exit x ?now)) (ticked w) = (Inr 1, w1)" "calm w1" "lone (tables w1)"
    using statement_calm [of "ticked w" "update_exits 1 (set_exit x ?now)"] lone_exit [OF assms(2,4), of ?now] assms(1)
    by (auto simp: lone_def)
  then show ?thesis using assms(3) by (simp add: UpdateVPNGateExit_def unix_now_def io_bind_def io_map_error_def io_try_def affected_row_def)
qed

lemma health_calm:
  fixes w :: "'a db_scheme"
  assumes "calm w" and "lone (tables w)" and "exit_id x = 1" and "exit_outbound x = 7" and "failure_policy x \<in> {''block'', ''auto_swap''}"
  shows "\<exists>w'. UpdateVPNGateExitAndHealth x b w = (Inr (), w') \<and> calm w' \<and> lone (tables w')"
proof -
  let ?v = "ticked w"
  let ?now = "unix_seconds (clock_at ?v (calls ?v))"
  obtain w1 where 1: "statement (update_exits 1 (set_exit x ?now)) (ticked ?v) = (Inr 1, w1)" "calm w1" "lone (tables w1)"
    using statement_calm [of "ticked ?v" "update_exits 1 (set_exit x ?now)"] lone_exit [OF assms(2,5), of ?now] assms(1)
    by (auto simp: lone_def)
  obtain w2 where 2: "statement (update_outbounds 7 (set_health x b ?now)) w1 = (Inr 1, w2)" "calm w2" "lone (tables w2)"
    using statement_calm [of w1 "update_outbounds 7 (set_health x b ?now)"] lone_health [OF 1(3), of x b ?now] 1(2)
    by (auto simp: lone_def)
  show ?thesis using 1 2 assms(1,3,4) nop_calm [OF assms(1)] nop_calm [OF 2(2)]
    by (simp add: UpdateVPNGateExitAndHealth_def transaction_def committed_def unix_now_def io_bind_def io_map_error_def io_try_def affected_row_def)
qed

lemma recordEvent_calm:
  fixes w :: "'a db_scheme"
  shows "calm w \<Longrightarrow> \<exists>w'. recordEvent level code message w = (Inr (), w') \<and> calm w'"
  using keepsD [OF keeps_calm_event, of w level code message]
  by (cases "RecordEvent level code message w") (simp add: recordEvent_def io_try_def)

lemma swap_rest_runs:
  assumes "calm w" and "lone (tables w)"
  shows "\<exists>y w'. io_bind (UpdateVPNGateExit (swap_exit\<lparr>exit_status := ''swapping'', exit_observed := [], exit_error := []\<rparr>)) (\<lambda>_.
     io_bind (tryCandidates swap_service u p (swap_exit\<lparr>exit_status := ''swapping'', exit_observed := [], exit_error := []\<rparr>) [] [swap_candidate])
       (VpnService.settle swap_service ''vpngate_swap_failed'' ''vpngate_exit_swapped'')) w = (Inr y, w')"
proof -
  let ?x = "swap_exit\<lparr>exit_status := ''swapping'', exit_observed := [], exit_error := []\<rparr>"
  let ?y = "?x\<lparr>exit_host := ''vpn2'', exit_ip := ''1.2.3.4'', remote_protocol := ''udp'', remote_port := 1194\<rparr>"
  obtain w1 where 1: "UpdateVPNGateExit ?x w = (Inr (), w1)" "calm w1" "lone (tables w1)"
    using exit_calm [OF assms, of ?x] by (auto simp: swap_exit_def)
  obtain w2 where 2: "UpdateVPNGateExit ?y w1 = (Inr (), w2)" "calm w2" "lone (tables w2)"
    using exit_calm [OF 1(2,3), of ?y] by (auto simp: swap_exit_def)
  have 3: "tryCandidates swap_service u p ?x [] [swap_candidate] w1 = (Inr (?y, Inr ''5.6.7.8''), w2)"
    using 2 demo_accepted by (simp add: swap_candidate_def demo_remote_def io_try_def swap_service_def Let_def)
  let ?z = "?y\<lparr>exit_status := ''running'', exit_observed := ''5.6.7.8'', exit_checked := Some (unix_seconds (clock_at w2 (calls w2))), exit_error := []\<rparr>"
  obtain w3 where 4: "UpdateVPNGateExitAndHealth ?z True (ticked w2) = (Inr (), w3)" "calm w3" "lone (tables w3)"
    using health_calm [of "ticked w2" ?z True] 2 by (auto simp: swap_exit_def)
  obtain y where y: "filter (\<lambda>r. exit_id r = 1) (vpngate_exits (tables w3)) = [y]"
    using 4(3) by (auto simp: lone_def map_eq_Cons_conv)
  obtain w4 where 5: "recordEvent ''info'' ''vpngate_exit_swapped'' (exit_name y) (ticked w3) = (Inr (), w4)"
    using recordEvent_calm [of "ticked w3" "''info''" "''vpngate_exit_swapped''" "exit_name y"] 4(2) by auto
  have i: "exit_id ?y = 1" by (simp add: swap_exit_def)
  have 6: "VpnService.settle swap_service ''vpngate_swap_failed'' ''vpngate_exit_swapped'' (?y, Inr ''5.6.7.8'') w2 = (Inr y, w4)"
    using 4 5 y query_calm [OF 4(2), of "\<lambda>t. filter (\<lambda>r. exit_id r = 1) (vpngate_exits t)"] i
    by (simp add: VpnService.settle_def time_now_def persistRunning_def io_try_def io_bind_def Store_VPNGateExit_def query_row_def)
  show ?thesis using 1 3 6 by (simp add: io_bind_def)
qed


lemma swap_catalog: "scanVPNGateCandidate id (candidate_row_of swap_candidate sealed_config) = Inr swap_candidate"
proof -
  have "Open id sealed_config = Inr demo_config" unfolding sealed_config_def by (rule Open_sealed) (simp add: nonce_size_def)
  then show ?thesis by (simp add: scanVPNGateCandidate_def candidate_row_of_def swap_candidate_def)
qed

lemma swap_scan: "\<exists>ob. scanOutbound id (swap_outbound demo_sealed) = Inr ob"
proof -
  have "Open id demo_sealed = Inr ''{}''" unfolding demo_sealed_def by (rule Open_sealed) (simp add: nonce_size_def)
  moreover have "unmarshal_credential ''{}'' = Inr ([], [])" by code_simp
  ultimately show ?thesis by (simp add: scanOutbound_def swap_outbound_def)
qed

lemma swap_lone: "lone swap_tables"
  by (simp add: lone_def swap_tables_def swap_outbound_def swap_exit_def consistent_def checks_def uniques_def references_def
      empty_tables_def)

lemma rows_of_calm: "calm w \<Longrightarrow> scan_all g (f (tables w)) = Inr xs \<Longrightarrow> query_rows f g w = (Inr xs, ticked (ticked w))"
  by (simp add: query_rows_def query_calm nop_calm io_bind_def io_of_def)

lemma swap_reads:
  fixes w :: db
  assumes "calm w" and "tables w = swap_tables"
  shows "Store_VPNGateExit 1 w = (Inr swap_exit, ticked w)"
    and "scanOutbound id (swap_outbound demo_sealed) = Inr ob \<Longrightarrow> Store_Outbound id 7 w = (Inr ob, ticked w)"
    and "ListVPNGateExits w = (Inr [swap_exit], ticked (ticked w))"
    and "ListVPNGateCandidates id w = (Inr [swap_candidate], ticked (ticked w))"
proof -
  have e: "vpngate_exits swap_tables = [swap_exit]" "outbounds swap_tables = [swap_outbound demo_sealed]"
    "vpngate_candidates swap_tables = [candidate_row_of swap_candidate sealed_config]" by (simp_all add: swap_tables_def)
  have i: "exit_id swap_exit = 1" "or_id (swap_outbound demo_sealed) = 7" by (simp_all add: swap_exit_def swap_outbound_def)
  note q = query_calm [OF assms(1)]
  show "Store_VPNGateExit 1 w = (Inr swap_exit, ticked w)"
    by (simp add: Store_VPNGateExit_def query_row_def io_bind_def q assms(2) e i)
  show "Store_Outbound id 7 w = (Inr ob, ticked w)" if "scanOutbound id (swap_outbound demo_sealed) = Inr ob"
    using that by (simp add: Store_Outbound_def query_row_def io_bind_def io_of_def q assms(2) e i)
  show "ListVPNGateExits w = (Inr [swap_exit], ticked (ticked w))"
    unfolding ListVPNGateExits_def by (rule rows_of_calm [OF assms(1)]) (simp add: assms(2) e)
  show "ListVPNGateCandidates id w = (Inr [swap_candidate], ticked (ticked w))"
    unfolding ListVPNGateCandidates_def by (rule rows_of_calm [OF assms(1)]) (simp add: assms(2) e swap_catalog)
qed

lemma swap_ranked: "take 6 (FilterAndRank [swap_candidate] (exit_country swap_exit) (exit_host swap_exit # activeCandidates [swap_exit] (exit_id swap_exit)))
  = [swap_candidate]"
  by code_simp

lemma swap_runs: "\<exists>y w'. Swap swap_service 1 (demo_world swap_tables) = (Inr y, w')"
proof -
  define w where "w = demo_world swap_tables"
  have w: "calm w" "tables w = swap_tables" "clock_at w = int" "calls w = 0"
    by (simp_all add: w_def demo_calm) (simp_all add: demo_world_def host.defs demo_host_def)
  obtain ob where ob: "scanOutbound id (swap_outbound demo_sealed) = Inr ob" using swap_scan by blast
  have s: "vpn_sealer swap_service = id" "orc_stop (vpn_orchestrator swap_service) x = io_return ()" for x
    by (simp_all add: swap_service_def)
  have f: "fetched_at swap_candidate = 0" "exit_outbound swap_exit = 7" by (simp_all add: swap_candidate_def swap_exit_def)
  define v where "v = ticked (ticked (ticked (ticked w)))"
  have v: "calm v" "tables v = swap_tables" "clock_at v = int" "calls v = 4" using w by (simp_all add: v_def) (simp_all add: ticked_def)
  define u where "u = ticked (ticked (ticked v))"
  have u: "calm u" "tables u = swap_tables" using v by (simp_all add: u_def)
  have 1: "cachedCandidates swap_service v = (Inr [swap_candidate], u)"
    using v swap_reads(4) [OF v(1,2)]
    by (simp add: cachedCandidates_def s io_bind_def time_now_def f u_def) (simp add: ticked_def)
  obtain y w' where 2: "io_bind (UpdateVPNGateExit (swap_exit\<lparr>exit_status := ''swapping'', exit_observed := [], exit_error := []\<rparr>)) (\<lambda>_.
     io_bind (tryCandidates swap_service (out_username ob) (out_password ob)
       (swap_exit\<lparr>exit_status := ''swapping'', exit_observed := [], exit_error := []\<rparr>) [] [swap_candidate])
       (VpnService.settle swap_service ''vpngate_swap_failed'' ''vpngate_exit_swapped'')) u = (Inr y, w')"
    using swap_rest_runs [OF u(1), of "out_username ob" "out_password ob"] u(2) swap_lone by auto
  have "Store_VPNGateExit 1 w = (Inr swap_exit, ticked w)" "Store_Outbound id 7 (ticked w) = (Inr ob, ticked (ticked w))"
    "ListVPNGateExits (ticked (ticked w)) = (Inr [swap_exit], v)"
    using swap_reads [of w] swap_reads [of "ticked w"] swap_reads [of "ticked (ticked w)"] w ob by (simp_all add: v_def)
  then have "Swap swap_service 1 w = (Inr y, w')"
    using 1 2 swap_ranked by (simp add: Swap_def swapLocked_def io_bind_def [of "Store_VPNGateExit _"] io_bind_def [of "Store_Outbound _ _"]
        io_bind_def [of ListVPNGateExits] io_bind_def [of "cachedCandidates _"] s f io_try_def Let_def)
  then show ?thesis by (auto simp: w_def)
qed

theorem settled_exit_runs_over_candidate_witness:
  "\<exists>y w'. Swap swap_service 1 (demo_world swap_tables) = (Inr y, w') \<and> exit_status y = ''running'' \<and> sole_user y (tables w')"
proof -
  have "vpn_apart swap_service" by (simp add: vpn_apart_def swap_service_def quiet_intro)
  moreover obtain y w' where "Swap swap_service 1 (demo_world swap_tables) = (Inr y, w')" using swap_runs by blast
  ultimately show ?thesis using settled_exit_runs_over_candidate [of swap_service "Swap swap_service 1" 1] by blast
qed

end
