(* ===== verification/ExitCheck.thy ===== *)
theory ExitCheck
  imports SocksBridge NodeService "HOL-Library.Word"
begin

text \<open>
  \<open>internal/exitcheck/checker.go\<close>: how the node service learns the public address of an outbound. A request is sent
  through the proxy, whose handshake is spoken here: SOCKS5 with an optional password, or HTTP CONNECT. A connection
  is that of \<open>SocksBridge\<close>, seen from the other end: \<open>incoming\<close> is what the proxy writes. Against the bridge of a
  VPNGate exit the two programs are put together: each reads what the other wrote.
\<close>

section \<open>The SOCKS5 client\<close>

definition offered :: "outbound \<Rightarrow> string" where
  "offered ob = byte_of 0 # (if out_username ob \<noteq> [] \<or> out_password ob \<noteq> [] then [byte_of 2] else [])"

definition credentials_message :: "outbound \<Rightarrow> string" where
  "credentials_message ob = [byte_of 1, byte_of (length (out_username ob))] @ out_username ob @
     [byte_of (length (out_password ob))] @ out_password ob"

definition client_login :: "outbound \<Rightarrow> (conn, unit) io" where
  "client_login ob = io_bind (send ([byte_of 5, byte_of (length (offered ob))] @ offered ob)) (\<lambda>_.
     io_bind (read_full 2) (\<lambda>reply.
     if byte (reply ! 0) \<noteq> 5 \<or> byte (reply ! 1) = 255 then io_fail (Err ''SOCKS5 proxy rejected authentication methods'')
     else if byte (reply ! 1) = 2
     then if 255 < length (out_username ob) \<or> 255 < length (out_password ob) then io_fail (Err ''SOCKS5 credentials are too long'')
          else io_bind (send (credentials_message ob)) (\<lambda>_. io_bind (read_full 2) (\<lambda>reply.
            if byte (reply ! 1) \<noteq> 0 then io_fail (Err ''SOCKS5 username or password was rejected'') else io_return ()))
     else if byte (reply ! 1) \<noteq> 0 then io_fail (Err ''SOCKS5 proxy selected unsupported method'')
     else io_return ()))"

text \<open>The address and the port, which is cut to 16 bits.\<close>

definition connect_message :: "string \<Rightarrow> error + string" where
  "connect_message target = (case split_host_port target of
      None \<Rightarrow> Inl (Err ''missing port in address'')
    | Some (host, portText) \<Rightarrow> (case atoi portText of
          (_, Some e) \<Rightarrow> Inl (Err ''invalid syntax'')
        | (portn, None) \<Rightarrow>
            (let pb = [byte_of (nat (portn mod 65536) div 256), byte_of (nat (portn mod 65536) mod 256)]
             in case parse_ip host of
                  Some ip \<Rightarrow> (case ip_to4 ip of
                      Some b \<Rightarrow> Inr (map byte_of [5, 1, 0, 1] @ map byte_of b @ pb)
                    | None \<Rightarrow> Inr (map byte_of [5, 1, 0, 4] @ map byte_of ip @ pb))
                | None \<Rightarrow> if 255 < length host then Inl (Err ''target hostname is too long'')
                    else Inr (map byte_of [5, 1, 0, 3] @ [byte_of (length host)] @ host @ pb))))"

definition client_reply :: "(conn, unit) io" where
  "client_reply = io_bind (read_full 4) (\<lambda>header.
     if byte (header ! 0) \<noteq> 5 \<or> byte (header ! 1) \<noteq> 0 then io_fail (Err ''SOCKS5 CONNECT failed'')
     else io_bind (if byte (header ! 3) = 1 then io_return 4
         else if byte (header ! 3) = 4 then io_return 16
         else if byte (header ! 3) = 3 then io_bind (read_full 1) (\<lambda>len. io_return (byte (len ! 0)))
         else io_fail (Err ''SOCKS5 proxy returned an invalid address type'')) (\<lambda>n.
       io_bind (read_full (n + 2)) (\<lambda>_. io_return ())))"

definition client_exchange :: "outbound \<Rightarrow> string \<Rightarrow> (conn, unit) io" where
  "client_exchange ob target = io_bind (client_login ob) (\<lambda>_. io_bind (io_of (connect_message target)) (\<lambda>message.
     io_bind (send message) (\<lambda>_. client_reply)))"

text \<open>\<open>tcp\<close> opens the connection to the proxy; on an error it is closed, on success it is handed on.\<close>

definition dial_result :: "(error + unit) \<times> conn \<Rightarrow> error + conn" where
  "dial_result r = (case r of (Inl e, _) \<Rightarrow> Inl e | (Inr _, c) \<Rightarrow> Inr c)"

definition proxy_address :: "outbound \<Rightarrow> string" where
  "proxy_address ob = join_host_port (out_server ob) (itoa (out_port ob))"

definition dialSOCKS5 :: "(string \<Rightarrow> error + conn) \<Rightarrow> outbound \<Rightarrow> string \<Rightarrow> error + conn" where
  "dialSOCKS5 tcp ob target = (case tcp (proxy_address ob) of
      Inl e \<Rightarrow> Inl e | Inr c \<Rightarrow> dial_result (client_exchange ob target c))"

section \<open>HTTP CONNECT\<close>

definition CRLF :: string where "CRLF = [CR, NL]"

definition connect_headers :: "outbound \<Rightarrow> string \<Rightarrow> string" where
  "connect_headers ob target = ''CONNECT '' @ target @ '' HTTP/1.1'' @ CRLF @ ''Host: '' @ target @ CRLF @
     (if out_username ob \<noteq> [] \<or> out_password ob \<noteq> []
      then ''Proxy-Authorization: Basic '' @ std_encode (out_username ob @ '':'' @ out_password ob) @ CRLF else [])"

text \<open>\<open>read_response\<close> is \<open>http.ReadResponse\<close>, of which the status code is used.\<close>

definition dialHTTPConnect :: "(conn, nat) io \<Rightarrow> (string \<Rightarrow> error + conn) \<Rightarrow> outbound \<Rightarrow> string \<Rightarrow> error + conn" where
  "dialHTTPConnect read_response tcp ob target = (case tcp (proxy_address ob) of
      Inl e \<Rightarrow> Inl e
    | Inr c \<Rightarrow> dial_result (io_bind (send (connect_headers ob target @ CRLF)) (\<lambda>_. io_bind read_response (\<lambda>status.
        if status \<noteq> 200 then io_fail (Err ''HTTP proxy CONNECT failed'') else io_return ())) c))"

section \<open>The check\<close>

definition dial_outbound :: "(conn, nat) io \<Rightarrow> (string \<Rightarrow> error + conn) \<Rightarrow> outbound \<Rightarrow> string \<Rightarrow> error + conn" where
  "dial_outbound read_response tcp ob address =
     (if out_type ob = OutboundSOCKS5 then dialSOCKS5 tcp ob address
      else if out_type ob = OutboundHTTP then dialHTTPConnect read_response tcp ob address
      else Inl (Err ''unsupported outbound type''))"

text \<open>The first value of a body of at most 64 KiB, decoded into a struct.\<close>

definition decode_object :: "string \<Rightarrow> obj option" where
  "decode_object body = (let s = take 65536 body in case parse_value (2 * length s) s of
      Some (JObj ob, _) \<Rightarrow> Some ob | Some (JNull, _) \<Rightarrow> Some [] | _ \<Rightarrow> None)"

definition geo_of :: "string \<Rightarrow> (string \<times> string) option" where
  "geo_of body = (case decode_object body of None \<Rightarrow> None | Some ob \<Rightarrow>
     (case (json_member ob ''success'', field_string ob ''country_code'', json_member ob ''connection'') of
        (JBool True, Inr country, JNull) \<Rightarrow> Some (country, [])
      | (JBool True, Inr country, JObj con) \<Rightarrow> (case (field_int con ''asn'', field_string con ''org'') of
            (Inr asn, Inr org) \<Rightarrow> Some (country, if asn = 0 then [] else ''AS'' @ itoa asn @ (if org = [] then [] else '' '' @ org))
          | _ \<Rightarrow> None)
      | _ \<Rightarrow> None))"

text \<open>\<open>fetch\<close> is a GET over connections that are dialed by the function given; \<open>direct\<close> is one without a proxy.\<close>

definition Check :: "((string \<Rightarrow> error + conn) \<Rightarrow> string \<Rightarrow> error + nat \<times> string) \<Rightarrow> (string \<Rightarrow> error + nat \<times> string) \<Rightarrow>
    (conn, nat) io \<Rightarrow> (string \<Rightarrow> error + conn) \<Rightarrow> string \<Rightarrow> string \<Rightarrow> outbound \<Rightarrow> error + check_result" where
  "Check fetch direct read_response tcp IPURL GeoURL ob = (case fetch (dial_outbound read_response tcp ob) IPURL of
      Inl e \<Rightarrow> Inl (Wrap ''query exit IP'' e)
    | Inr (status, body) \<Rightarrow>
        if status \<noteq> 200 then Inl (Err ''query exit IP: unexpected HTTP status'')
        else (case decode_object body of
            None \<Rightarrow> Inl (Wrap ''decode exit IP'' (Err ''json''))
          | Some doc \<Rightarrow> (case field_string doc ''ip'' of
                Inl e \<Rightarrow> Inl (Wrap ''decode exit IP'' e)
              | Inr text \<Rightarrow>
                  (let ip = trim_space text in
                   if parse_ip ip = None then Inl (Err ''exit service returned an invalid IP'')
                   else Inr (case direct (GeoURL @ path_escape ip @
                         ''?fields=success,message,country_code,connection.asn,connection.org'') of
                       Inl e \<Rightarrow> \<lparr>chk_ip = ip, chk_country = [], chk_asn = []\<rparr>
                     | Inr (code, geo) \<Rightarrow> (case (if code = 200 then geo_of geo else None) of
                           None \<Rightarrow> \<lparr>chk_ip = ip, chk_country = [], chk_asn = []\<rparr>
                         | Some (country, asn) \<Rightarrow> \<lparr>chk_ip = ip, chk_country = country, chk_asn = asn\<rparr>))))))"

section \<open>The resolver of the tunnel\<close>

text \<open>\<open>internal/tundns/resolver.go\<close>: names are asked of two public servers in turn, whatever server the system names;
  \<open>used\<close> is the atomic counter.\<close>

definition publicResolvers :: "string list" where
  "publicResolvers = [''1.1.1.1:53'', ''8.8.8.8:53'']"

definition resolver_dial :: "32 word \<Rightarrow> string \<Rightarrow> 32 word \<times> string \<times> string" where
  "resolver_dial used network = (let next = used + 1 in
     (next, if network = ''tcp'' \<or> network = ''tcp4'' then ''tcp4'' else ''udp4'',
      publicResolvers ! unat (next mod word_of_nat (length publicResolvers))))"

text \<open>Every question goes to one of the two servers over IPv4, and two questions in a row go to different ones, also
  when the counter wraps around.\<close>

lemma resolver_alternates:
  assumes "resolver_dial used network = (now1, family, server)" and "resolver_dial now1 network' = (now1', family', server')"
  shows "server \<in> set publicResolvers \<and> server' \<in> set publicResolvers \<and> server \<noteq> server' \<and> family \<in> {''tcp4'', ''udp4''}"
proof -
  have two: "unat (x mod 2) = unat x mod 2" for x :: "32 word" by (simp add: unat_mod_distrib)
  have s: "unat (x + 1) mod 2 \<noteq> unat x mod 2" for x :: "32 word"
  proof (cases "x + 1 = 0")
    case False
    then have "unat (x + 1) = unat x + 1" by (simp add: unatSuc add.commute)
    then show ?thesis by presburger
  next
    case True
    then have "x = 4294967295" by (simp add: eq_neg_iff_add_eq_0 [symmetric])
    then show ?thesis by simp
  qed
  have "server = publicResolvers ! (unat now1 mod 2)" "server' = publicResolvers ! (unat (now1 + 1) mod 2)"
    using assms by (auto simp: resolver_dial_def Let_def publicResolvers_def two)
  then show ?thesis using s [of now1] assms
    by (auto simp: resolver_dial_def Let_def publicResolvers_def nth_Cons' split: if_splits)
qed

end
