(* ===== verification/ExitCheckLaws.thy ===== *)
theory ExitCheckLaws
  imports ExitCheck
begin

text \<open>
  The check of an outbound against the bridge of a VPNGate exit: each program reads what the other writes. When the
  check gets its connection, the bridge has authenticated it and dialed the target; and with the right credentials it
  does get it.
\<close>

section \<open>The bytes of an address\<close>

lemma unhex_bound: "unhex c = Some d \<Longrightarrow> d < 16"
  by (auto simp: unhex_def is_digit_def less_eq_char_def split: if_splits)

lemma hex_value_bound: "hex_value ds < 16 ^ length ds"
proof (induction ds rule: rev_induct)
  case (snoc c ds)
  have "(case unhex c of Some d \<Rightarrow> d | None \<Rightarrow> 0) < 16" using unhex_bound by (auto split: option.split)
  moreover have "hex_value (ds @ [c]) = hex_value ds * 16 + (case unhex c of Some d \<Rightarrow> d | None \<Rightarrow> 0)"
    by (simp add: hex_value_def)
  ultimately show ?case using snoc by simp
qed (simp add: hex_value_def)

lemma group_bound: "length ds \<le> 4 \<Longrightarrow> hex_value ds div 256 \<le> 255"
proof -
  assume "length ds \<le> 4"
  then have "(16::nat) ^ length ds \<le> 16 ^ 4" by (rule power_increasing) simp
  then have "hex_value ds < 65536" using hex_value_bound [of ds] by simp
  then show ?thesis by simp
qed

lemma ipv6_groups_bound:
  "ipv6_groups n bs ell s = Some (bs', ell', s') \<Longrightarrow> \<forall>v\<in>set bs. v \<le> 255 \<Longrightarrow> \<forall>v\<in>set bs'. v \<le> 255"
proof (induction n bs ell s rule: ipv6_groups.induct)
  case (2 n bs ell s)
  let ?ds = "takeWhile is_hex s"
  have m: "hex_value ?ds mod 256 \<le> 255" using mod_less_divisor [of 256 "hex_value ?ds"] by linarith
  show ?case
  proof (cases "dropWhile is_hex s")
    case Nil
    then show ?thesis using 2(3,4) m group_bound [of ?ds] by (auto simp: Let_def simp del: dropWhile_eq_Nil_conv split: if_splits)
  next
    case (Cons c r)
    show ?thesis
    proof (cases "c = CHR ''.''")
      case True
      then show ?thesis using 2(3,4) Cons parse_ipv4_fields_bound by (auto simp: Let_def split: if_splits)
    next
      case False
      have l: "length ?ds \<le> 4" "?ds \<noteq> []" using 2(3) by (auto simp: Let_def split: if_splits)
      then have b: "\<forall>v\<in>set (bs @ [hex_value ?ds div 256, hex_value ?ds mod 256]). v \<le> 255" using 2(4) m group_bound by auto
      obtain d r' where r: "r = d # r'" and c: "c = CHR '':''" using 2(3) Cons False l by (cases r) (auto simp: Let_def split: if_splits)
      show ?thesis
      proof (cases "d = CHR '':'' \<and> r' = []")
        case True
        then show ?thesis using 2(3) b Cons False l r c by (auto simp: Let_def split: if_splits)
      next
        case o: False
        then show ?thesis
          using 2 b Cons False l r c by (simp add: Let_def del: dropWhile_eq_Nil_conv split: if_splits)
      qed
    qed
  qed
qed simp

lemma parse_ipv6_bytes:
  assumes "parse_ipv6 s = Some a" and "v \<in> set a"
  shows "v \<le> 255"
proof (cases "has_prefix s ''::'' \<and> length s = 2")
  case True
  then show ?thesis using assms by (auto simp: parse_ipv6_def)
next
  case False
  define ell where "ell = (if has_prefix s ''::'' then Some (0::nat) else None)"
  define t where "t = (if has_prefix s ''::'' then drop 2 s else s)"
  have p: "parse_ipv6 s = (case ipv6_groups 8 [] ell t of None \<Rightarrow> None | Some (bs, e, rest) \<Rightarrow>
      if rest \<noteq> [] then None
      else if length bs < 16 then (case e of None \<Rightarrow> None | Some k \<Rightarrow> Some (take k bs @ replicate (16 - length bs) 0 @ drop k bs))
      else if e \<noteq> None then None else Some bs)"
    unfolding parse_ipv6_def if_not_P [OF False] Let_def ell_def t_def ..
  then obtain bs e where g: "ipv6_groups 8 [] ell t = Some (bs, e, [])"
    using assms(1) by (cases "ipv6_groups 8 [] ell t") (auto split: if_splits)
  have b: "w \<le> 255" if "w \<in> set bs" for w using ipv6_groups_bound [OF g] that by simp
  show ?thesis
  proof (cases e)
    case None
    then show ?thesis using p g assms b by (auto split: if_splits)
  next
    case (Some k)
    then have "a = take k bs @ replicate (16 - length bs) 0 @ drop k bs" using p g assms(1) by (auto split: if_splits)
    then have "v = 0 \<or> v \<in> set bs" using assms(2) by (auto dest: in_set_takeD in_set_dropD)
    then show ?thesis using b by auto
  qed
qed

lemma parse_ip_bytes: "parse_ip s = Some a \<Longrightarrow> v \<in> set a \<Longrightarrow> v \<le> 255"
  using parse_ipv4_bytes [of s a] parse_ipv6_bytes [of s a v] by (auto simp: parse_ip_def split: list.splits if_splits)


section \<open>The bridge on what the client sends\<close>

definition fresh_conn :: "string \<Rightarrow> conn" where
  "fresh_conn bs = \<lparr>incoming = bs, sent = [], down = (\<lambda>_. False), dialed = []\<rparr>"

lemma fresh_conn_simps [simp]: "incoming (fresh_conn bs) = bs" "sent (fresh_conn bs) = []" "down (fresh_conn bs) n = False" "dialed (fresh_conn bs) = []"
  by (simp_all add: fresh_conn_def)

definition greeting :: "outbound \<Rightarrow> string" where
  "greeting ob = [byte_of 5, byte_of (length (offered ob))] @ offered ob"

lemma authenticate_on:
  assumes "incoming c = credentials_message ob @ rest" and "length (out_username ob) \<le> 255" and "length (out_password ob) \<le> 255"
  shows "authenticate cfg c = (if out_username ob = Username cfg \<and> out_password ob = Password cfg then Inr ()
     else Inl (Err ''SOCKS5 credentials rejected''), c\<lparr>incoming := rest\<rparr>)"
proof -
  let ?u = "out_username ob" and ?p = "out_password ob"
  let ?r1 = "?u @ [byte_of (length ?p)] @ ?p @ rest"
  have 1: "read_or 2 (\<lambda>h. byte (h ! 0) = 1) ''invalid RFC 1929 authentication request'' c
      = (Inr [byte_of 1, byte_of (length ?u)], c\<lparr>incoming := ?r1\<rparr>)"
    by (rule read_or_append) (use assms(1) in \<open>simp_all add: credentials_message_def\<close>)
  have 2: "read_full (length ?u) (c\<lparr>incoming := ?r1\<rparr>) = (Inr ?u, c\<lparr>incoming := [byte_of (length ?p)] @ ?p @ rest\<rparr>)"
    by simp
  have 3: "read_full 1 (c\<lparr>incoming := [byte_of (length ?p)] @ ?p @ rest\<rparr>)
      = (Inr [byte_of (length ?p)], c\<lparr>incoming := ?p @ rest\<rparr>)"
    by (rule read_full_append [THEN trans]) simp_all
  have 4: "read_full (length ?p) (c\<lparr>incoming := ?p @ rest\<rparr>) = (Inr ?p, c\<lparr>incoming := rest\<rparr>)" by simp
  show ?thesis
    using 2 [simplified] 3 [simplified] 4 assms(2,3) by (simp add: authenticate_def io_bind_def 1 [simplified])
qed

lemma greeting_read:
  assumes "incoming c = greeting ob @ rest" and "\<not> down c (length (sent c))"
  shows "auth_phase cfg c = (if out_username ob = [] \<and> out_password ob = []
     then refuse (map byte_of [5, 255]) (Err ''SOCKS5 client did not offer username/password authentication'') (c\<lparr>incoming := rest\<rparr>)
     else io_try (authenticate cfg) (\<lambda>r. case r of Inl e \<Rightarrow> refuse (map byte_of [1, 1]) e | Inr _ \<Rightarrow> send (map byte_of [1, 0]))
       (c\<lparr>incoming := rest, sent := sent c @ [map byte_of [5, 2]]\<rparr>))"
proof -
  have l: "length (offered ob) < 256" "length (offered ob) \<noteq> 0" by (simp_all add: offered_def)
  have 1: "read_or 2 (\<lambda>h. byte (h ! 0) = 5 \<and> byte (h ! 1) \<noteq> 0) ''invalid SOCKS5 greeting'' c
      = (Inr [byte_of 5, byte_of (length (offered ob))], c\<lparr>incoming := offered ob @ rest\<rparr>)"
    by (rule read_or_append) (use assms(1) l in \<open>simp_all add: greeting_def\<close>)
  have 2: "read_full (length (offered ob)) (c\<lparr>incoming := offered ob @ rest\<rparr>) = (Inr (offered ob), c\<lparr>incoming := rest\<rparr>)" by simp
  have m: "byte_of 2 \<in> set (offered ob) \<longleftrightarrow> \<not> (out_username ob = [] \<and> out_password ob = [])" by (auto simp: offered_def byte_of_def)
  show ?thesis
    using 2 [simplified] l assms(2) by (auto simp: auth_phase_def io_bind_def 1 [simplified] m)
qed

lemma greeting_accepted:
  assumes "out_username ob \<noteq> [] \<or> out_password ob \<noteq> []"
  shows "auth_phase cfg (fresh_conn (greeting ob @ rest)) = io_try (authenticate cfg) (\<lambda>r. case r of Inl e \<Rightarrow> refuse (map byte_of [1, 1]) e
      | Inr _ \<Rightarrow> send (map byte_of [1, 0])) (fresh_conn rest\<lparr>sent := [map byte_of [5, 2]]\<rparr>)"
proof -
  have e: "fresh_conn (greeting ob @ rest)\<lparr>incoming := rest, sent := sent (fresh_conn (greeting ob @ rest)) @ [map byte_of [5, 2]]\<rparr>
      = fresh_conn rest\<lparr>sent := [map byte_of [5, 2]]\<rparr>" by (simp add: fresh_conn_def)
  have n: "\<not> (out_username ob = [] \<and> out_password ob = [])" using assms by blast
  show ?thesis by (rule greeting_read [of "fresh_conn (greeting ob @ rest)" ob rest cfg, unfolded if_not_P [OF n] e]) simp_all
qed

lemma connect_phase_sends:
  assumes "\<not> down c (length (sent c))"
  shows "\<exists>code. sent (snd (connect_phase lookup dial c)) = sent c @ [socksReply code] \<and> code \<in> {0, 5, 8} \<and>
    (code = 0 \<longrightarrow> (\<exists>t c'. readTarget lookup c = (Inr t, c') \<and> dial t = None \<and> fst (connect_phase lookup dial c) = Inr () \<and>
       dialed (snd (connect_phase lookup dial c)) = dialed c' @ [t] \<and> incoming (snd (connect_phase lookup dial c)) = incoming c'))"
proof -
  obtain r c1 where t: "readTarget lookup c = (r, c1)" by (cases "readTarget lookup c")
  have "keeps (\<lambda>v. sent v = sent c \<and> down v = down c) (readTarget lookup)"
    unfolding readTarget_def read_port_def Let_def read_or_def
    by (auto intro!: keeps_bind keeps_try keeps_return keeps_fail simp: keeps_def [of _ "read_full _"] read_full_def split: sum.split list.split)
  then have k: "sent c1 = sent c" "down c1 = down c" using keepsD [of _ _ c] t by fastforce+
  show ?thesis
  proof (cases r)
    case (Inl e)
    then show ?thesis using t k assms by (intro exI [of _ 8]) (simp add: connect_phase_def io_try_def refuse_def)
  next
    case (Inr target)
    then show ?thesis using t k assms
      by (cases "dial target") (auto simp: connect_phase_def io_try_def refuse_def dial_target_def)
  qed
qed


text \<open>What the bridge dials for a target: an IPv4 address as it is, a name as the resolver answers, nothing for IPv6.\<close>

definition bridge_via :: "(string \<Rightarrow> error + string list) \<Rightarrow> string \<Rightarrow> string \<Rightarrow> bool" where
  "bridge_via lookup host address \<longleftrightarrow> (case parse_ip host of
      Some ip \<Rightarrow> map_option dotted (ip_to4 ip) = Some address
    | None \<Rightarrow> host \<noteq> [] \<and> (\<exists>more. lookup host = Inr (address # more)))"

definition bridge_target :: "(string \<Rightarrow> error + string list) \<Rightarrow> string \<Rightarrow> string \<Rightarrow> bool" where
  "bridge_target lookup target t \<longleftrightarrow> (\<exists>host portText n address. split_host_port target = Some (host, portText) \<and>
     atoi portText = (n, None) \<and> n mod 65536 \<noteq> 0 \<and> bridge_via lookup host address \<and> t = join_host_port address (itoa (n mod 65536)))"

lemma read_port_on:
  assumes "incoming c = [byte_of (nat (n mod 65536) div 256), byte_of (nat (n mod 65536) mod 256)] @ rest"
  shows "read_port host c = (if n mod 65536 = 0 then Inl (Err ''invalid target port'')
     else Inr (join_host_port host (itoa (n mod 65536))), c\<lparr>incoming := rest\<rparr>)"
proof -
  let ?p = "nat (n mod 65536)"
  have p: "?p div 256 < 256" "256 * (?p div 256) + ?p mod 256 = ?p" "int ?p = n mod 65536" "?p = 0 \<longleftrightarrow> n mod 65536 = 0"
    using mult_div_mod_eq [of 256 ?p] by (simp_all, linarith+)
  have z: "n mod 65536 = 0 \<longleftrightarrow> ?p div 256 = 0 \<and> ?p mod 256 = 0" using p(2,4) by linarith
  have "read_full 2 c = (Inr [byte_of (?p div 256), byte_of (?p mod 256)], c\<lparr>incoming := rest\<rparr>)"
    by (rule read_full_append) (simp_all add: assms)
  then show ?thesis using p(1-3) z by (simp add: read_port_def io_bind_def Let_def)
qed

lemma readTarget_on:
  assumes "split_host_port target = Some (host, portText)" and "atoi portText = (n, None)" and "connect_message target = Inr msg"
    and "incoming c = msg @ rest"
  shows "readTarget lookup c = (Inr t, c') \<longleftrightarrow>
    n mod 65536 \<noteq> 0 \<and> c' = c\<lparr>incoming := rest\<rparr> \<and> (\<exists>address. bridge_via lookup host address \<and> t = join_host_port address (itoa (n mod 65536)))"
proof -
  let ?pb = "[byte_of (nat (n mod 65536) div 256), byte_of (nat (n mod 65536) mod 256)]"
  show ?thesis
  proof (cases "parse_ip host")
    case (Some ip)
    show ?thesis
    proof (cases "ip_to4 ip")
      case None
      then have "msg = map byte_of [5, 1, 0, 4] @ map byte_of ip @ ?pb" using assms(1-3) Some by (simp add: connect_message_def Let_def)
      then have "read_full 4 c = (Inr (map byte_of [5, 1, 0, 4]), c\<lparr>incoming := map byte_of ip @ ?pb @ rest\<rparr>)"
        by (intro read_full_append) (simp_all add: assms(4))
      then show ?thesis using Some None by (auto simp: readTarget_def io_bind_def bridge_via_def)
    next
      case (Some b)
      have i: "parse_ip host = Some ip" by fact
      have b: "length b = 4" "\<forall>v\<in>set b. v \<le> 255"
        using Some parse_ip_bytes [OF i] by (auto simp: ip_to4_def split: if_splits dest: in_set_dropD)
      have "msg = map byte_of [5, 1, 0, 1] @ map byte_of b @ ?pb" using assms(1-3) i Some by (simp add: connect_message_def Let_def)
      then have 1: "read_full 4 c = (Inr (map byte_of [5, 1, 0, 1]), c\<lparr>incoming := map byte_of b @ ?pb @ rest\<rparr>)"
        by (intro read_full_append) (simp_all add: assms(4))
      have 2: "read_full 4 (c\<lparr>incoming := map byte_of b @ ?pb @ rest\<rparr>) = (Inr (map byte_of b), c\<lparr>incoming := ?pb @ rest\<rparr>)"
        by (rule read_full_append [THEN trans]) (simp_all add: b(1))
      have 3: "map (byte \<circ> byte_of) b = b" using b(2) by (intro map_idI) (simp add: le_less_trans [of _ 255])
      have 4: "read_port (dotted b) (c\<lparr>incoming := ?pb @ rest\<rparr>) = (if n mod 65536 = 0 then Inl (Err ''invalid target port'')
         else Inr (join_host_port (dotted b) (itoa (n mod 65536))), c\<lparr>incoming := rest\<rparr>)"
        using read_port_on [of "c\<lparr>incoming := ?pb @ rest\<rparr>" n rest "dotted b"] by simp
      have "readTarget lookup c = read_port (dotted b) (c\<lparr>incoming := ?pb @ rest\<rparr>)"
        using 2 3 by (simp add: readTarget_def io_bind_def 1)
      then show ?thesis unfolding 4 using i Some by (auto simp: bridge_via_def)
    qed
  next
    case None
    have l: "length host \<le> 255" and "msg = map byte_of [5, 1, 0, 3] @ [byte_of (length host)] @ host @ ?pb"
      using assms(1-3) None by (auto simp: connect_message_def Let_def split: if_splits)
    then have 1: "read_full 4 c = (Inr (map byte_of [5, 1, 0, 3]), c\<lparr>incoming := [byte_of (length host)] @ host @ ?pb @ rest\<rparr>)"
      by (intro read_full_append) (simp_all add: assms(4))
    have 2: "read_full 1 (c\<lparr>incoming := [byte_of (length host)] @ host @ ?pb @ rest\<rparr>) = (Inr [byte_of (length host)], c\<lparr>incoming := host @ ?pb @ rest\<rparr>)"
      by (rule read_full_append [THEN trans]) simp_all
    have 3: "read_full (length host) (c\<lparr>incoming := host @ ?pb @ rest\<rparr>) = (Inr host, c\<lparr>incoming := ?pb @ rest\<rparr>)" by simp
    have 4: "read_port a (c\<lparr>incoming := ?pb @ rest\<rparr>) = (if n mod 65536 = 0 then Inl (Err ''invalid target port'')
         else Inr (join_host_port a (itoa (n mod 65536))), c\<lparr>incoming := rest\<rparr>)" for a
      using read_port_on [of "c\<lparr>incoming := ?pb @ rest\<rparr>" n rest a] by simp
    show ?thesis
    proof (cases "host = []")
      case True
      then show ?thesis using 2 None by (auto simp: readTarget_def io_bind_def 1 read_or_def io_try_def bridge_via_def)
    next
      case False
      have "readTarget lookup c = (case lookup host of
              Inl e \<Rightarrow> io_fail (Err ''SOCKS5 hostname has no IPv4 address'')
            | Inr [] \<Rightarrow> io_fail (Err ''SOCKS5 hostname has no IPv4 address'')
            | Inr (a # _) \<Rightarrow> read_port a) (c\<lparr>incoming := ?pb @ rest\<rparr>)"
        using 2 3 l False by (simp add: readTarget_def io_bind_def 1 read_or_def io_try_def)
      then show ?thesis using None False 4 by (auto simp: bridge_via_def split: sum.splits list.splits)
    qed
  qed
qed


section \<open>Both together\<close>

abbreviation opens_with :: "string \<Rightarrow> conn \<Rightarrow> bool" where
  "opens_with bs v \<equiv> sent v \<noteq> [] \<and> hd (sent v) = bs"

lemma opens_read [intro!]: "keeps (opens_with bs) (read_full n)"
  by (simp add: keeps_def read_full_def)

lemma opens_send [intro!]: "keeps (opens_with bs) (send x)"
  by (simp add: keeps_def send_def)

lemma opens_read_or [intro!]: "keeps (opens_with bs) (read_or n good msg)"
  unfolding read_or_def by (rule keeps_try) (auto intro: keeps_return keeps_fail split: sum.split)

lemma opens_refuse [intro!]: "keeps (opens_with bs) (refuse reply e)"
  unfolding refuse_def by (rule keeps_try) (auto intro: keeps_fail)

lemma opens_dial [intro!]: "keeps (opens_with bs) (dial_target dial t)"
  by (simp add: keeps_def dial_target_def)

lemma opens_readTarget [intro!]: "keeps (opens_with bs) (readTarget lookup)"
  unfolding readTarget_def read_port_def Let_def
  by (auto intro!: keeps_bind keeps_return keeps_fail split: sum.split list.split)

lemma opens_connect [intro!]: "keeps (opens_with bs) (connect_phase lookup dial)"
  unfolding connect_phase_def by (auto intro!: keeps_try split: sum.split)

lemma opens_authenticate [intro!]: "keeps (opens_with bs) (authenticate cfg)"
  unfolding authenticate_def by (rule keeps_bind opens_read_or opens_read)+ (auto intro: keeps_return keeps_fail)

lemma handle_opens:
  assumes "out_username ob \<noteq> [] \<or> out_password ob \<noteq> []"
  shows "opens_with (map byte_of [5, 2]) (snd (handle cfg lookup dial (fresh_conn (greeting ob @ rest))))"
proof -
  note g = greeting_accepted [OF assms, of cfg rest]
  have "keeps (opens_with (map byte_of [5, 2])) (io_bind (io_try (authenticate cfg) (\<lambda>r. case r of Inl e \<Rightarrow> refuse (map byte_of [1, 1]) e
      | Inr _ \<Rightarrow> send (map byte_of [1, 0]))) (\<lambda>_. connect_phase lookup dial))"
    by (auto intro!: keeps_bind keeps_try split: sum.split)
  then have "opens_with (map byte_of [5, 2]) (snd (io_bind (io_try (authenticate cfg) (\<lambda>r. case r of Inl e \<Rightarrow> refuse (map byte_of [1, 1]) e
      | Inr _ \<Rightarrow> send (map byte_of [1, 0]))) (\<lambda>_. connect_phase lookup dial) (fresh_conn rest\<lparr>sent := [map byte_of [5, 2]]\<rparr>)))"
    by (rule keepsD) simp
  moreover have "handle cfg lookup dial (fresh_conn (greeting ob @ rest)) = io_bind (io_try (authenticate cfg) (\<lambda>r. case r of Inl e \<Rightarrow> refuse (map byte_of [1, 1]) e
      | Inr _ \<Rightarrow> send (map byte_of [1, 0]))) (\<lambda>_. connect_phase lookup dial) (fresh_conn rest\<lparr>sent := [map byte_of [5, 2]]\<rparr>)"
    by (simp only: handle_def io_bind_def g)
  ultimately show ?thesis by (simp only: simp_thms)
qed

lemma read_full_take: "read_full n c = (Inr bs, c') \<Longrightarrow> bs = take n (incoming c) \<and> c' = c\<lparr>incoming := drop n (incoming c)\<rparr> \<and> n \<le> length (incoming c)"
  by (auto simp: read_full_def split: if_splits)

lemma client_login_opens:
  assumes "client_login ob c = (Inr u, c')" and "\<forall>n. \<not> down c n" and "sent c = []"
  shows "opens_with (greeting ob) c'"
proof -
  let ?rest = "io_bind (read_full 2) (\<lambda>reply.
     if byte (reply ! 0) \<noteq> 5 \<or> byte (reply ! 1) = 255 then io_fail (Err ''SOCKS5 proxy rejected authentication methods'')
     else if byte (reply ! 1) = 2
     then if 255 < length (out_username ob) \<or> 255 < length (out_password ob) then io_fail (Err ''SOCKS5 credentials are too long'')
          else io_bind (send (credentials_message ob)) (\<lambda>_. io_bind (read_full 2) (\<lambda>reply.
            if byte (reply ! 1) \<noteq> 0 then io_fail (Err ''SOCKS5 username or password was rejected'') else io_return ()))
     else if byte (reply ! 1) \<noteq> 0 then io_fail (Err ''SOCKS5 proxy selected unsupported method'')
     else io_return ())"
  have k: "keeps (opens_with (greeting ob)) ?rest" by (auto intro!: keeps_bind keeps_return keeps_fail)
  obtain x c0 where 0: "send (greeting ob) c = (Inr x, c0)" "?rest c0 = (Inr u, c')"
    using assms(1) unfolding client_login_def greeting_def [symmetric] by (rule io_bind_InrE)
  have "opens_with (greeting ob) c0" using 0(1) assms(2,3) by auto
  from keepsD [OF k this] show ?thesis unfolding 0(2) by simp
qed

lemma client_login_Inr:
  assumes "client_login ob c = (Inr u, c')" and "\<forall>n. \<not> down c n" and "sent c = []"
  shows "byte (incoming c ! 0) = 5 \<and> 2 \<le> length (incoming c) \<and> (\<forall>n. \<not> down c' n) \<and>
    (byte (incoming c ! 1) = 2 \<and> 4 \<le> length (incoming c) \<and> byte (incoming c ! 3) = 0 \<and> incoming c' = drop 4 (incoming c) \<and>
       length (out_username ob) \<le> 255 \<and> length (out_password ob) \<le> 255 \<and> sent c' = [greeting ob, credentials_message ob] \<or>
     byte (incoming c ! 1) = 0)"
proof -
  from assms obtain c1 reply c2 where 1: "send (greeting ob) c = (Inr (), c1)" "read_full 2 c1 = (Inr reply, c2)" and k: "byte (reply ! 0) = 5" "byte (reply ! 1) \<noteq> 255"
    and r: "(if byte (reply ! 1) = 2
     then if 255 < length (out_username ob) \<or> 255 < length (out_password ob) then io_fail (Err ''SOCKS5 credentials are too long'')
          else io_bind (send (credentials_message ob)) (\<lambda>_. io_bind (read_full 2) (\<lambda>reply.
            if byte (reply ! 1) \<noteq> 0 then io_fail (Err ''SOCKS5 username or password was rejected'') else io_return ()))
     else if byte (reply ! 1) \<noteq> 0 then io_fail (Err ''SOCKS5 proxy selected unsupported method'')
     else io_return ()) c2 = (Inr u, c')"
    unfolding client_login_def greeting_def by (auto elim!: io_bind_InrE split: if_splits)
  have c1: "c1 = c\<lparr>sent := [greeting ob]\<rparr>" using 1(1) assms(2,3) by simp
  then have c2: "reply = take 2 (incoming c)" "c2 = c\<lparr>sent := [greeting ob], incoming := drop 2 (incoming c)\<rparr>" "2 \<le> length (incoming c)"
    using read_full_take [OF 1(2)] by simp_all
  have b: "byte (incoming c ! 0) = 5" "reply ! 1 = incoming c ! 1" using c2 k by simp_all
  show ?thesis
  proof (cases "byte (reply ! 1) = 2")
    case True
    then obtain c3 again where l: "length (out_username ob) \<le> 255" "length (out_password ob) \<le> 255"
      and 3: "send (credentials_message ob) c2 = (Inr (), c3)" "read_full 2 c3 = (Inr again, c')" "byte (again ! 1) = 0"
      using r by (auto elim!: io_bind_InrE split: if_splits)
    have "c3 = c2\<lparr>sent := [greeting ob, credentials_message ob]\<rparr>" using 3(1) assms(2) c2 by simp
    then show ?thesis using read_full_take [OF 3(2)] 3(3) c2 l True b assms(2) by auto
  next
    case False
    then show ?thesis using r c2 b assms(2) by (auto split: if_splits)
  qed
qed


lemma client_exchange_Inr:
  assumes "client_exchange ob target c = (Inr u, c')" and "\<forall>n. \<not> down c n" and "sent c = []"
  obtains c1 msg where "client_login ob c = (Inr (), c1)" and "connect_message target = Inr msg" and "sent c' = sent c1 @ [msg]"
    and "byte (incoming c1 ! 1) = 0" and "4 \<le> length (incoming c1)"
proof -
  obtain c1 msg c2 where 1: "client_login ob c = (Inr (), c1)" "connect_message target = Inr msg" "send msg c1 = (Inr (), c2)" "client_reply c2 = (Inr u, c')"
    using assms(1) unfolding client_exchange_def by (auto simp: io_of_def elim!: io_bind_InrE split: sum.splits)
  have d: "\<forall>n. \<not> down c1 n" using client_login_Inr [OF 1(1) assms(2,3)] by blast
  then have c2: "c2 = c1\<lparr>sent := sent c1 @ [msg]\<rparr>" using 1(3) by simp
  obtain header c3 where 2: "read_full 4 c2 = (Inr header, c3)" "byte (header ! 1) = 0"
    using 1(4) unfolding client_reply_def by (auto elim!: io_bind_InrE split: if_splits)
  have "keeps (\<lambda>v. sent v = sent c2) client_reply"
    unfolding client_reply_def
    by (auto intro!: keeps_bind keeps_return keeps_fail simp: keeps_def [of _ "read_full _"] read_full_def)
  then have "sent c' = sent c2" using keepsD [of _ _ c2] 1(4) by fastforce
  then show ?thesis using that [OF 1(1,2)] c2 read_full_take [OF 2(1)] 2(2) by auto
qed

text \<open>C14: When the check of an outbound gets its connection from the bridge, each reading what the other wrote, the
  bridge knows the outbound's credentials, has dialed the target of the check and nothing else, and relays what follows.\<close>

theorem check_through_bridge:
  assumes "client_exchange ob target (fresh_conn (concat (sent sv))) = (Inr (), cl)"
    and "handle cfg lookup dial (fresh_conn (concat (sent cl) @ after)) = (r, sv)"
  shows "out_username ob = Username cfg \<and> out_password ob = Password cfg \<and>
    r = Inr () \<and> incoming sv = after \<and> (\<exists>t. bridge_target lookup target t \<and> dialed sv = [t] \<and> dial t = None)"
proof -
  obtain c1 msg where 1: "client_login ob (fresh_conn (concat (sent sv))) = (Inr (), c1)" "connect_message target = Inr msg" "sent cl = sent c1 @ [msg]"
    and reply: "byte (incoming c1 ! 1) = 0" "4 \<le> length (incoming c1)"
    using client_exchange_Inr [OF assms(1)] by (auto simp: fresh_conn_def)
  define V where "V = concat (sent sv)"
  have login: "byte (V ! 0) = 5" "2 \<le> length V" "byte (V ! 1) = 0 \<or> byte (V ! 1) = 2 \<and> 4 \<le> length V \<and> byte (V ! 3) = 0 \<and> incoming c1 = drop 4 V \<and>
       length (out_username ob) \<le> 255 \<and> length (out_password ob) \<le> 255 \<and> sent c1 = [greeting ob, credentials_message ob]"
    using client_login_Inr [OF 1(1)] by (auto simp: V_def)
  obtain R where R: "concat (sent cl) @ after = greeting ob @ R"
  proof -
    have "opens_with (greeting ob) c1" by (rule client_login_opens [OF 1(1)]) simp_all
    then show ?thesis using that 1(3) by (cases "sent c1") auto
  qed
  have run: "handle cfg lookup dial (fresh_conn (greeting ob @ R)) = (r, sv)" using assms(2) R by simp
  have creds: "out_username ob \<noteq> [] \<or> out_password ob \<noteq> []"
  proof (rule ccontr)
    assume "\<not> ?thesis"
    then have "auth_phase cfg (fresh_conn (greeting ob @ R)) = refuse (map byte_of [5, 255]) (Err ''SOCKS5 client did not offer username/password authentication'') (fresh_conn R)"
      using greeting_read [of "fresh_conn (greeting ob @ R)" ob R cfg] by (simp add: fresh_conn_def)
    then have "sent sv = [map byte_of [5, 255]]" using run by (auto simp: handle_def io_bind_def refuse_def io_try_def)
    then show False using login(3) by (simp add: V_def)
  qed
  have "opens_with (map byte_of [5, 2]) sv" using handle_opens [OF creds, of cfg lookup dial R] run by simp
  then have "V ! 1 = byte_of 2" by (cases "sent sv") (simp_all add: V_def)
  then have v: "4 \<le> length V" "byte (V ! 3) = 0" "incoming c1 = drop 4 V" and len: "length (out_username ob) \<le> 255" "length (out_password ob) \<le> 255"
    and sent: "sent c1 = [greeting ob, credentials_message ob]" using login(3) by auto
  have R2: "R = credentials_message ob @ msg @ after" using R sent 1(3) by simp
  have auth: "authenticate cfg (fresh_conn R\<lparr>sent := [map byte_of [5, 2]]\<rparr>) = (if out_username ob = Username cfg \<and> out_password ob = Password cfg
     then Inr () else Inl (Err ''SOCKS5 credentials rejected''), fresh_conn (msg @ after)\<lparr>sent := [map byte_of [5, 2]]\<rparr>)"
    using authenticate_on [OF _ len, of "fresh_conn R\<lparr>sent := [map byte_of [5, 2]]\<rparr>" "msg @ after" cfg] R2 by (simp add: fresh_conn_def)
  note phase = greeting_accepted [OF creds, of cfg R]
  have match: "out_username ob = Username cfg \<and> out_password ob = Password cfg"
  proof (rule ccontr)
    assume "\<not> ?thesis"
    then have "sent sv = [map byte_of [5, 2], map byte_of [1, 1]]"
      using run phase auth by (auto simp: handle_def io_bind_def refuse_def io_try_def)
    then show False using v(2) by (simp add: V_def)
  qed
  define c2 where "c2 = fresh_conn (msg @ after)\<lparr>sent := [map byte_of [5, 2], map byte_of [1, 0]]\<rparr>"
  have c2: "incoming c2 = msg @ after" "sent c2 = [map byte_of [5, 2], map byte_of [1, 0]]" "\<not> down c2 n" "dialed c2 = []" for n by (simp_all add: c2_def)
  have "auth_phase cfg (fresh_conn (greeting ob @ R)) = (Inr (), c2)"
    using phase auth match by (simp add: io_try_def c2_def)
  then have cp: "connect_phase lookup dial c2 = (r, sv)" using run by (simp add: handle_def io_bind_def)
  from connect_phase_sends [of c2 lookup dial] c2(3) cp obtain code where code: "sent sv = sent c2 @ [socksReply code]" "code \<in> {0, 5, 8}"
    and ok: "code = 0 \<Longrightarrow> \<exists>t c'. readTarget lookup c2 = (Inr t, c') \<and> dial t = None \<and> r = Inr () \<and> dialed sv = dialed c' @ [t] \<and> incoming sv = incoming c'"
    by auto
  have "byte (byte_of code) = 0" using reply(1) v(3) code(1) c2(2) by (simp add: V_def socksReply_def)
  then have "code = 0" using code(2) by auto
  then obtain t c' where t: "readTarget lookup c2 = (Inr t, c')" "dial t = None" "r = Inr ()" "dialed sv = dialed c' @ [t]" "incoming sv = incoming c'"
    using ok by blast
  obtain host portText n where sp: "split_host_port target = Some (host, portText)" "atoi portText = (n, None)"
    using 1(2) by (auto simp: connect_message_def split: option.splits prod.splits)
  from readTarget_on [OF sp 1(2) c2(1), of lookup t c'] t(1) have "c' = c2\<lparr>incoming := after\<rparr>" "bridge_target lookup target t"
    using sp by (auto simp: bridge_target_def)
  then show ?thesis using match t c2(4) by auto
qed


text \<open>C15: With the credentials of the bridge and a target that it resolves and reaches, the check gets its connection.\<close>

theorem check_connects:
  assumes "out_username ob = Username cfg" and "out_password ob = Password cfg" and "Username cfg \<noteq> []"
    and "length (Username cfg) \<le> 255" and "length (Password cfg) \<le> 255"
    and "connect_message target = Inr msg" and "bridge_target lookup target t" and "dial t = None"
  shows "\<exists>cl sv. client_exchange ob target (fresh_conn (concat (sent sv))) = (Inr (), cl) \<and>
    handle cfg lookup dial (fresh_conn (concat (sent cl))) = (Inr (), sv) \<and> dialed sv = [t]"
proof -
  define sv where "sv = fresh_conn []\<lparr>sent := [map byte_of [5, 2], map byte_of [1, 0], socksReply 0], dialed := [t]\<rparr>"
  define cl where "cl = fresh_conn []\<lparr>sent := [greeting ob, credentials_message ob, msg]\<rparr>"
  let ?R = "credentials_message ob @ msg"
  have creds: "out_username ob \<noteq> []" using assms(1,3) by simp
  note phase = greeting_accepted [OF disjI1 [OF creds], of cfg ?R]
  have auth: "authenticate cfg (fresh_conn ?R\<lparr>sent := [map byte_of [5, 2]]\<rparr>) = (Inr (), fresh_conn msg\<lparr>sent := [map byte_of [5, 2]]\<rparr>)"
    using authenticate_on [of "fresh_conn ?R\<lparr>sent := [map byte_of [5, 2]]\<rparr>" ob msg cfg] assms(1-5) by (simp add: fresh_conn_def)
  let ?c = "fresh_conn msg\<lparr>sent := [map byte_of [5, 2], map byte_of [1, 0]]\<rparr>"
  have 1: "auth_phase cfg (fresh_conn (greeting ob @ ?R)) = (Inr (), ?c)" using phase auth by (simp add: io_try_def)
  obtain host portText n address where sp: "split_host_port target = Some (host, portText)" "atoi portText = (n, None)"
    and v: "n mod 65536 \<noteq> 0" "bridge_via lookup host address" "t = join_host_port address (itoa (n mod 65536))"
    using assms(7) by (auto simp: bridge_target_def)
  have i: "incoming ?c = msg @ []" by simp
  have 2: "readTarget lookup ?c = (Inr t, ?c\<lparr>incoming := []\<rparr>)"
    using readTarget_on [OF sp assms(6) i, of lookup t "?c\<lparr>incoming := []\<rparr>"] v by blast
  have h: "handle cfg lookup dial (fresh_conn (concat (sent cl))) = (Inr (), sv)"
    using 1 2 assms(8) by (simp add: handle_def io_bind_def cl_def connect_phase_def io_try_def dial_target_def sv_def fresh_conn_def)
  let ?reply = "map byte_of [1, 0] @ socksReply 0"
  have V: "concat (sent sv) = map byte_of [5, 2] @ ?reply" by (simp add: sv_def)
  have l: "client_login ob (fresh_conn (concat (sent sv))) = (Inr (), fresh_conn (socksReply 0)\<lparr>sent := [greeting ob, credentials_message ob]\<rparr>)"
    using assms(1-5) by (simp add: client_login_def greeting_def [symmetric] io_bind_def V read_full_def greeting_def fresh_conn_def)
  have "client_reply (fresh_conn (socksReply 0)\<lparr>sent := [greeting ob, credentials_message ob, msg]\<rparr>) = (Inr (), cl)"
    by (simp add: client_reply_def io_bind_def read_full_def socksReply_def cl_def fresh_conn_def)
  then have "client_exchange ob target (fresh_conn (concat (sent sv))) = (Inr (), cl)"
    using l assms(6) by (simp add: client_exchange_def io_bind_def io_of_def fresh_conn_def)
  then show ?thesis using h by (intro exI [of _ cl] exI [of _ sv]) (simp add: sv_def)
qed

section \<open>A concrete check\<close>

definition demo_exit_outbound :: outbound where
  "demo_exit_outbound = \<lparr>out_id = 7, out_name = ''o'', out_type = OutboundSOCKS5, out_server = ''10.254.1.2'', out_port = 1080,
     out_enabled = True, out_username = ''u'', out_password = ''p'', out_managed = ''vpngate'', out_status = [], out_observed = [],
     out_country = [], out_asn = [], out_error = [], out_checked = None, out_created = 0, out_updated = 0\<rparr>"

definition demo_lookup :: "string \<Rightarrow> error + string list" where
  "demo_lookup host = (if host = ''api64.ipify.org'' then Inr [''192.0.2.7''] else Inl (Err ''no such host''))"

lemma demo_target: "bridge_target demo_lookup ''api64.ipify.org:443'' ''192.0.2.7:443''"
proof -
  have "split_host_port ''api64.ipify.org:443'' = Some (''api64.ipify.org'', ''443'')" "atoi ''443'' = (443, None)"
    "parse_ip ''api64.ipify.org'' = None" "join_host_port ''192.0.2.7'' (itoa (443 mod 65536)) = ''192.0.2.7:443''" by code_simp+
  then show ?thesis by (auto simp: bridge_target_def bridge_via_def demo_lookup_def)
qed

theorem check_connects_witness:
  "\<exists>cl sv. client_exchange demo_exit_outbound ''api64.ipify.org:443'' (fresh_conn (concat (sent sv))) = (Inr (), cl) \<and>
    handle demo_bridge demo_lookup (\<lambda>_. None) (fresh_conn (concat (sent cl))) = (Inr (), sv) \<and> dialed sv = [''192.0.2.7:443'']"
proof -
  have "\<not> isl (connect_message ''api64.ipify.org:443'')" by code_simp
  then obtain msg where m: "connect_message ''api64.ipify.org:443'' = Inr msg" by (cases "connect_message ''api64.ipify.org:443''") auto
  show ?thesis
    by (rule check_connects [OF _ _ _ _ _ m demo_target]) (simp_all add: demo_exit_outbound_def demo_bridge_def)
qed

definition demo_client_end :: conn where
  "demo_client_end = snd (client_exchange demo_exit_outbound ''api64.ipify.org:443'' (fresh_conn (map byte_of [5, 2, 1, 0] @ socksReply 0)))"

definition demo_server_end :: conn where
  "demo_server_end = snd (handle demo_bridge demo_lookup (\<lambda>_. None) (fresh_conn (concat (sent demo_client_end) @ ''hello'')))"

theorem check_through_bridge_witness:
  "incoming demo_server_end = ''hello'' \<and> dialed demo_server_end \<noteq> []"
proof -
  have s: "concat (sent demo_server_end) = map byte_of [5, 2, 1, 0] @ socksReply 0" by code_simp
  have "\<not> isl (fst (client_exchange demo_exit_outbound ''api64.ipify.org:443'' (fresh_conn (map byte_of [5, 2, 1, 0] @ socksReply 0))))" by code_simp
  then have 1: "client_exchange demo_exit_outbound ''api64.ipify.org:443'' (fresh_conn (concat (sent demo_server_end))) = (Inr (), demo_client_end)"
    unfolding s demo_client_end_def using unit_result by fastforce
  have 2: "handle demo_bridge demo_lookup (\<lambda>_. None) (fresh_conn (concat (sent demo_client_end) @ ''hello'')) =
      (fst (handle demo_bridge demo_lookup (\<lambda>_. None) (fresh_conn (concat (sent demo_client_end) @ ''hello''))), demo_server_end)"
    by (simp add: demo_server_end_def)
  from check_through_bridge [OF 1 2] show ?thesis by auto
qed

end
