(* ===== verification/ApiRequest.thy ===== *)
theory ApiRequest
  imports AuthService GoUrl GoDisk
begin

text \<open>
  What \<open>internal/api/handler.go\<close> reads of a request: the address it comes from, its origin, the names and codes the
  settings accept. A header is the first value of its name, as \<open>Header.Get\<close> gives it, and empty when there is none.
\<close>

record request =
  req_method :: string
  req_escaped :: string
  req_host :: string
  RemoteAddr :: string
  req_tls :: bool
  hdr_origin :: string
  hdr_forwarded :: string
  hdr_csrf :: string
  req_cookie :: "string option"
  req_query :: query
  req_body :: string

text \<open>\<open>URL.Path\<close>; a server refuses a target with a broken escape before any handler sees it.\<close>

definition req_path :: "request \<Rightarrow> string" where
  "req_path r = (case path_unescape (req_escaped r) of Some p \<Rightarrow> p | None \<Rightarrow> [])"

section \<open>The text of an address\<close>

text \<open>\<open>net.IP.String\<close>: dotted, or the eight groups in hexadecimal with the first longest run of two or more zero
  groups abbreviated.\<close>

fun hex_groups :: "nat list \<Rightarrow> nat list" where
  "hex_groups (a # b # bs) = (256 * a + b) # hex_groups bs"
| "hex_groups bs = []"

fun hex_text :: "nat \<Rightarrow> string" where
  "hex_text n = (if n < 16 then [lower_char (hex_digit n)] else hex_text (n div 16) @ [lower_char (hex_digit (n mod 16))])"

declare hex_text.simps [simp del]

definition longer_run :: "nat list \<Rightarrow> nat \<times> nat \<Rightarrow> nat \<Rightarrow> nat \<times> nat" where
  "longer_run gs best i = (let l = length (takeWhile (\<lambda>g. g = 0) (drop i gs))
     in if 2 \<le> l \<and> snd best - fst best < l then (i, i + l) else best)"

definition ipv6_text :: "nat list \<Rightarrow> string" where
  "ipv6_text gs = (case foldl (longer_run gs) (0, 0) [0..<length gs] of (a, b) \<Rightarrow>
     if a = b then join '':'' (map hex_text gs)
     else join '':'' (map hex_text (take a gs)) @ ''::'' @ join '':'' (map hex_text (drop b gs)))"

definition ip_text :: "ip \<Rightarrow> string" where
  "ip_text a = (case ip_to4 a of Some b \<Rightarrow> dotted b | None \<Rightarrow> ipv6_text (hex_groups a))"

section \<open>Where a request comes from\<close>

definition normalizedForwardedIP :: "string \<Rightarrow> string" where
  "normalizedForwardedIP value = (let value = trim_both (\<lambda>c. c = DQ) (trim_space value) in
     if value = [] \<or> equal_fold value ''unknown'' \<or> has_prefix value ''_'' then []
     else if has_prefix value ''['' \<and> index_byte value CHR '']'' = None then []
     else let value = (if has_prefix value ''[''
                       then take (the (index_byte value CHR '']'') - 1) (drop 1 value)
                       else case split_host_port value of Some (host, _) \<Rightarrow> host | None \<Rightarrow> value)
          in case parse_ip value of Some ip \<Rightarrow> ip_text ip | None \<Rightarrow> [])"

definition loopback_text :: "string \<Rightarrow> bool" where
  "loopback_text s \<longleftrightarrow> (case parse_ip s of Some ip \<Rightarrow> ip_loopback ip | None \<Rightarrow> False)"

definition xForwardedForIP :: "string \<Rightarrow> string" where
  "xForwardedForIP value = (case find (\<lambda>candidate. candidate \<noteq> [] \<and> \<not> loopback_text candidate)
      (map normalizedForwardedIP (rev (split_char CHR '','' value))) of
     Some candidate \<Rightarrow> candidate | None \<Rightarrow> [])"

definition sourceIP :: "request \<Rightarrow> string" where
  "sourceIP r = (let host = (case split_host_port (RemoteAddr r) of Some (host, _) \<Rightarrow> host | None \<Rightarrow> RemoteAddr r) in
     if \<not> loopback_text (trim_space host) then host
     else let candidate = xForwardedForIP (hdr_forwarded r) in if candidate \<noteq> [] then candidate else host)"

definition sameOrigin :: "request \<Rightarrow> bool" where
  "sameOrigin r \<longleftrightarrow> hdr_origin r = [] \<or> hdr_origin r = ''http://'' @ req_host r \<or> hdr_origin r = ''https://'' @ req_host r"

definition unsafeMethod :: "string \<Rightarrow> bool" where
  "unsafeMethod verb \<longleftrightarrow> verb \<noteq> ''GET'' \<and> verb \<noteq> ''HEAD'' \<and> verb \<noteq> ''OPTIONS''"

section \<open>Names and codes of the settings\<close>

definition host_label :: "string \<Rightarrow> bool" where
  "host_label label \<longleftrightarrow> label \<noteq> [] \<and> length label \<le> 63 \<and> \<not> has_prefix label ''-'' \<and> \<not> has_suffix label ''-'' \<and>
     list_all (\<lambda>c. is_alnum c \<or> c = CHR ''-'') label"

definition normalizeHost :: "string \<Rightarrow> error + string" where
  "normalizeHost value = (let value = trim_space value in
     if value = [] \<or> contains value ''://'' \<or> set value \<inter> set ''/?#@'' \<noteq> {} then Inl (Err ''a host name or an address'')
     else let value = trim_prefix (trim_suffix value '']'') ''['' in
       case parse_ip value of
         Some ip \<Rightarrow> (if ip_to4 ip = None then Inl (Err ''IPv4 only'') else Inr (ip_text ip))
       | None \<Rightarrow> if 253 < length value \<or> CHR '':'' \<in> set value then Inl (Err ''invalid address'')
           else if list_all host_label (split_char CHR ''.'' value) then Inr (to_lower value)
           else Inl (Err ''invalid host name''))"

definition normalizeCountryCode :: "string \<Rightarrow> error + string" where
  "normalizeCountryCode value = (let code = to_upper (trim_space value) in
     if length code \<noteq> 2 \<or> \<not> list_all is_upper code then Inl (Err ''two letters'') else Inr code)"

section \<open>Nobody chooses the address that is counted\<close>

text \<open>A peer that is not the local proxy is counted under its own address, whatever it writes into the header.\<close>

lemma direct_peer_source:
  assumes "split_host_port (RemoteAddr r) = Some (host, p)" and "\<not> loopback_text (trim_space host)"
  shows "sourceIP (r\<lparr>hdr_forwarded := header\<rparr>) = host"
  using assms by (simp add: sourceIP_def)

lemma dotted_chars:
  assumes "length b = 4" and "\<forall>v\<in>set b. v \<le> 255" and "c \<in> set (dotted b)"
  shows "is_digit c \<or> c = CHR ''.''"
  using parse_ipv4_chars [OF parse_ipv4_fields_dotted [OF assms(1,2)] assms(3)] .

lemma dotted_value:
  assumes "length b = 4" and "\<forall>v\<in>set b. v \<le> 255"
  shows "normalizedForwardedIP ('' '' @ dotted b) = dotted b"
proof -
  have p: "parse_ip (dotted b) = Some (v4_prefix @ b)" by (rule parse_ip_dotted [OF assms])
  have c: "is_digit c \<or> c = CHR ''.''" if "c \<in> set (dotted b)" for c using dotted_chars [OF assms that] .
  have m: "x \<notin> set (dotted b)" if "\<not> is_digit x" "x \<noteq> CHR ''.''" for x using c that by blast
  have "\<not> is_space x" if "x \<in> set (dotted b)" for x using c [OF that] by (auto simp: is_digit_def is_space_def)
  then have 1: "trim_space ('' '' @ dotted b) = dotted b"
    using trim_space_noop [of "dotted b"] by (simp add: trim_space_def trim_both_def trim_left_def is_space_def)
  have 2: "trim_both (\<lambda>c. c = DQ) (dotted b) = dotted b" by (rule trim_both_noop) (use m [of DQ] in \<open>auto simp: is_digit_def DQ_def\<close>)
  have ne: "dotted b \<noteq> []" using p by (auto simp: parse_ip_def)
  have 3: "\<not> equal_fold (dotted b) ''unknown''"
  proof
    assume "equal_fold (dotted b) ''unknown''"
    then have "CHR ''u'' \<in> lower_char ` set (dotted b)" by (simp add: equal_fold_def to_lower_def flip: set_map)
        (simp add: lower_char_def is_upper_def)
    then obtain x where "x \<in> set (dotted b)" "lower_char x = CHR ''u''" by auto
    then show False using c [of x] by (auto simp: lower_char_def is_digit_def is_upper_def)
  qed
  have 4: "\<not> has_prefix (dotted b) ''_''" "\<not> has_prefix (dotted b) ''[''"
    using m [of "CHR ''_''"] m [of "CHR ''[''"] ne by (cases "dotted b"; auto simp: has_prefix_def is_digit_def)+
  have "index_byte s x = None" if "x \<notin> set s" for s x using that by (induction s) auto
  then have "last_index_byte (dotted b) CHR '':'' = None" using m [of "CHR '':''"] by (simp add: is_digit_def last_index_byte_def)
  then have 5: "split_host_port (dotted b) = None" by (simp add: split_host_port_def)
  have 6: "ip_text (v4_prefix @ b) = dotted b" using assms(1) by (simp add: ip_text_def ip_to4_def v4_prefix_def)
  show ?thesis using 1 2 3 4 5 6 p ne by (simp add: normalizedForwardedIP_def Let_def)
qed

text \<open>Behind the local proxy the last address that is not a loopback counts: the one the proxy appends, whatever the
  client claimed before it.\<close>

lemma proxied_peer_source:
  assumes "split_host_port (RemoteAddr r) = Some (host, p)" and "loopback_text (trim_space host)"
    and "length b = 4" and "\<forall>v\<in>set b. v \<le> 255" and "b ! 0 \<noteq> 127"
  shows "sourceIP (r\<lparr>hdr_forwarded := claimed @ '','' @ '' '' @ dotted b\<rparr>) = dotted b"
proof -
  have n: "CHR '','' \<notin> set ('' '' @ dotted b)" using dotted_chars [OF assms(3,4), of "CHR '',''"] by (auto simp: is_digit_def)
  have "split_char CHR '','' (claimed @ '','' @ '' '' @ dotted b) = split_char CHR '','' claimed @ ['' '' @ dotted b]"
  proof -
    have "\<forall>x\<in>set (dotted b). x \<noteq> CHR '',''" using n by auto
    from split_by_all [OF this] show ?thesis
      using split_char_sep [of "CHR '',''" claimed "'' '' @ dotted b"] by (simp add: split_char_def)
  qed
  moreover have "dotted b \<noteq> []" "\<not> loopback_text (dotted b)"
    using parse_ip_dotted [OF assms(3,4)] assms(3,5) by (auto simp: loopback_text_def ip_loopback_def ip_to4_def v4_prefix_def parse_ip_def)
  ultimately have "xForwardedForIP (claimed @ '','' @ '' '' @ dotted b) = dotted b"
    using dotted_value [OF assms(3,4)] by (simp add: xForwardedForIP_def)
  then show ?thesis using assms(1,2) \<open>dotted b \<noteq> []\<close> by (simp add: sourceIP_def)
qed

end
