(* ===== verification/ApiRoutes.thy ===== *)
theory ApiRoutes
  imports ApiRequest
begin

text \<open>
  The routing of \<open>internal/api/handler.go\<close>: the table of \<open>routes\<close>, the middleware around it, the check of the
  session and of the CSRF token. The handlers themselves are an argument, as \<open>http.Handler\<close> is one of the middleware:
  what is shown here holds whatever they do. A request body is read by them alone.
\<close>

section \<open>Responses and handlers\<close>

datatype 'b reply = Empty | Failure string | Value 'b

text \<open>The session cookie: HttpOnly and SameSite strict always; without an expiry it is removed.\<close>

record cookie =
  ck_value :: string
  ck_expires :: "int option"
  ck_secure :: bool

record 'b response =
  res_status :: nat
  res_reply :: "'b reply"
  res_headers :: "(string \<times> string) list"
  res_cookie :: "cookie option"

definition answer :: "nat \<Rightarrow> 'b reply \<Rightarrow> 'b response" where
  "answer status reply = \<lparr>res_status = status, res_reply = reply, res_headers = [], res_cookie = None\<rparr>"

text \<open>\<open>writeJSON\<close> and \<open>writeError\<close>; a failure is known by its code.\<close>

definition json_headers :: "(string \<times> string) list" where
  "json_headers = [(''Content-Type'', ''application/json''), (''Cache-Control'', ''no-store'')]"

definition written :: "nat \<Rightarrow> 'b reply \<Rightarrow> 'b response" where
  "written status reply = \<lparr>res_status = status, res_reply = reply,
     res_headers = json_headers, res_cookie = None\<rparr>"

definition writeError :: "nat \<Rightarrow> string \<Rightarrow> 'b response" where
  "writeError status code = written status (Failure code)"

text \<open>A handler gets the values of the path, and the token and CSRF token of the session when there is one.\<close>

type_synonym path_values = "(string \<times> string) list"
type_synonym ('w, 'b) handler = "path_values \<Rightarrow> (string \<times> string) option \<Rightarrow> request \<Rightarrow> ('w, 'b response) io"

section \<open>The routes\<close>

record route =
  rt_method :: string
  rt_pattern :: "string list"
  rt_guarded :: bool
  rt_handler :: string

text \<open>The segments of a pattern after the first slash; a pattern that ends with a slash has an empty last segment and
  matches everything below it.\<close>

definition route_of :: "string \<times> string \<times> bool \<times> string \<Rightarrow> route" where
  "route_of row = (case row of (verb, pattern, guarded, name) \<Rightarrow>
     \<lparr>rt_method = verb, rt_pattern = split_char CHR ''/'' (drop 1 pattern), rt_guarded = guarded, rt_handler = name\<rparr>)"

definition route_rows :: "(string \<times> string \<times> bool \<times> string) list" where
  "route_rows =
    [(''GET'', ''/api/v1/health'', False, ''health''),
     (''POST'', ''/api/v1/auth/login'', False, ''login''),
     (''GET'', ''/api/v1/auth/session'', True, ''session''),
     (''POST'', ''/api/v1/auth/logout'', True, ''logout''),
     (''POST'', ''/api/v1/auth/password'', True, ''changePassword''),
     (''GET'', ''/api/v1/settings/public-host'', True, ''getPublicHost''),
     (''PUT'', ''/api/v1/settings/public-host'', True, ''setPublicHost''),
     (''GET'', ''/api/v1/settings/server-name'', True, ''getServerName''),
     (''PUT'', ''/api/v1/settings/server-name'', True, ''setServerName''),
     (''GET'', ''/api/v1/settings/country'', True, ''getCountry''),
     (''PUT'', ''/api/v1/settings/country'', True, ''setCountry''),
     (''GET'', ''/api/v1/settings/language'', False, ''getLanguage''),
     (''PUT'', ''/api/v1/settings/language'', True, ''setLanguage''),
     (''GET'', ''/api/v1/settings/node-start-port'', True, ''getNodeStartPort''),
     (''PUT'', ''/api/v1/settings/node-start-port'', True, ''setNodeStartPort''),
     (''GET'', ''/api/v1/settings/protocol-prerequisites'', True, ''getProtocolPrerequisites''),
     (''PUT'', ''/api/v1/settings/protocol-prerequisites'', True, ''setProtocolPrerequisites''),
     (''GET'', ''/api/v1/nodes'', True, ''listNodes''),
     (''POST'', ''/api/v1/nodes'', True, ''createNode''),
     (''GET'', ''/api/v1/nodes/{id}'', True, ''getNode''),
     (''PUT'', ''/api/v1/nodes/{id}'', True, ''updateNode''),
     (''DELETE'', ''/api/v1/nodes/{id}'', True, ''deleteNode''),
     (''POST'', ''/api/v1/nodes/{id}/enable'', True, ''enableNode''),
     (''POST'', ''/api/v1/nodes/{id}/disable'', True, ''disableNode''),
     (''POST'', ''/api/v1/nodes/{id}/clone'', True, ''cloneNode''),
     (''GET'', ''/api/v1/nodes/{id}/export'', True, ''exportNode''),
     (''GET'', ''/api/v1/nodes/{id}/clients'', True, ''listClients''),
     (''POST'', ''/api/v1/nodes/{id}/clients'', True, ''createClient''),
     (''PUT'', ''/api/v1/nodes/{id}/clients/{clientId}'', True, ''updateClient''),
     (''DELETE'', ''/api/v1/nodes/{id}/clients/{clientId}'', True, ''deleteClient''),
     (''POST'', ''/api/v1/nodes/{id}/clients/{clientId}/reset'', True, ''resetClient''),
     (''GET'', ''/api/v1/nodes/{id}/clients/{clientId}/export'', True, ''exportClient''),
     (''GET'', ''/api/v1/outbounds'', True, ''listOutbounds''),
     (''POST'', ''/api/v1/outbounds'', True, ''createOutbound''),
     (''PUT'', ''/api/v1/outbounds/{id}'', True, ''updateOutbound''),
     (''DELETE'', ''/api/v1/outbounds/{id}'', True, ''deleteOutbound''),
     (''POST'', ''/api/v1/outbounds/{id}/check'', True, ''checkOutbound''),
     (''GET'', ''/api/v1/landing'', True, ''getLanding''),
     (''GET'', ''/api/v1/landing/script'', True, ''getLandingScript''),
     (''PUT'', ''/api/v1/landing'', True, ''setLanding''),
     (''GET'', ''/api/v1/landing/rules'', True, ''getLandingRules''),
     (''PUT'', ''/api/v1/landing/rules'', True, ''setLandingRules''),
     (''POST'', ''/api/v1/landing/rules/refresh'', True, ''refreshLandingRules''),
     (''GET'', ''/api/v1/vpngate/regions'', True, ''vpnGateRegions''),
     (''GET'', ''/api/v1/vpngate/nodes'', True, ''vpnGateNodes''),
     (''POST'', ''/api/v1/vpngate/inspect'', True, ''inspectVPNGateIP''),
     (''POST'', ''/api/v1/vpngate/refresh'', True, ''refreshVPNGate''),
     (''GET'', ''/api/v1/vpngate/outbounds'', True, ''listVPNGateExits''),
     (''POST'', ''/api/v1/vpngate/outbounds'', True, ''createVPNGateExit''),
     (''POST'', ''/api/v1/vpngate/outbounds/{id}/swap'', True, ''swapVPNGateExit''),
     (''POST'', ''/api/v1/vpngate/outbounds/{id}/extend'', True, ''extendVPNGateExit''),
     (''DELETE'', ''/api/v1/vpngate/outbounds/{id}'', True, ''deleteVPNGateExit''),
     (''POST'', ''/api/v1/residential-nodes/vpngate'', True, ''createVPNGateResidentialNode''),
     (''GET'', ''/api/v1/residential-nodes/jobs/{id}'', True, ''getResidentialNodeJob''),
     (''POST'', ''/api/v1/residential-nodes/manual'', True, ''createManualResidentialNode''),
     (''DELETE'', ''/api/v1/residential-nodes/{id}'', True, ''deleteResidentialNode''),
     (''GET'', ''/api/v1/subscription'', True, ''subscriptionInfo''),
     (''GET'', ''/api/v1/subscription/preview'', True, ''subscriptionPreview''),
     (''POST'', ''/api/v1/subscription/reset'', True, ''resetSubscription''),
     (''GET'', ''/sub/'', False, ''renderSubscription''),
     (''GET'', ''/api/v1/system/status'', True, ''systemStatus''),
     (''GET'', ''/api/v1/system/info'', True, ''systemInfo''),
     (''GET'', ''/api/v1/system/logs'', True, ''systemLogs''),
     (''POST'', ''/api/v1/system/backup'', True, ''systemBackup''),
     (''POST'', ''/api/v1/system/update'', True, ''update''),
     (''GET'', ''/api/v1/events'', True, ''events''),
     (''POST'', ''/api/v1/system/restart'', True, ''restart''),
     (''GET'', ''/'', False, ''frontendFile'')]"

definition routes :: "route list" where
  "routes = map route_of route_rows"

section \<open>The multiplexer\<close>

definition wildcard :: "string \<Rightarrow> string option" where
  "wildcard segment = (if has_prefix segment ''{'' then Some (take (length segment - 2) (drop 1 segment)) else None)"

text \<open>A wildcard does not match the empty segment that follows a trailing slash.\<close>

fun match_segments :: "string list \<Rightarrow> string list \<Rightarrow> path_values option" where
  "match_segments [] [] = Some []"
| "match_segments [[]] (x # xs) = Some []"
| "match_segments (p # ps) (x # xs) = (case wildcard p of
      Some name \<Rightarrow> if x = [] then None else map_option (Cons (name, x)) (match_segments ps xs)
    | None \<Rightarrow> if p = x then match_segments ps xs else None)"
| "match_segments _ _ = None"

text \<open>The search prefers a literal segment to a wildcard, and that to the rest of a subtree.\<close>

fun more_specific :: "string list \<Rightarrow> string list \<Rightarrow> bool" where
  "more_specific (p # ps) (q # qs) =
     (if p = q then more_specific ps qs
      else if q = [] \<and> qs = [] then True
      else if p = [] \<and> ps = [] then False
      else wildcard p = None \<and> wildcard q \<noteq> None)"
| "more_specific _ _ = False"

definition most_specific :: "(route \<times> path_values) list \<Rightarrow> (route \<times> path_values) option" where
  "most_specific found = (case found of [] \<Rightarrow> None
     | f # fs \<Rightarrow> Some (foldl (\<lambda>best g. if more_specific (rt_pattern (fst g)) (rt_pattern (fst best)) then g else best) f fs))"

definition matching :: "route list \<Rightarrow> (string \<Rightarrow> bool) \<Rightarrow> string list \<Rightarrow> (route \<times> path_values) list" where
  "matching table verb segments = List.map_filter (\<lambda>rt. if verb (rt_method rt)
     then map_option (Pair rt) (match_segments (rt_pattern rt) segments) else None) table"

definition serves :: "string \<Rightarrow> string \<Rightarrow> bool" where
  "serves asked verb \<longleftrightarrow> verb = asked \<or> asked = ''HEAD'' \<and> verb = ''GET''"

text \<open>\<open>cleanPath\<close>: a trailing slash is kept.\<close>

definition cleanPath :: "string \<Rightarrow> string" where
  "cleanPath p = (let p = (if has_prefix p ''/'' then p else CHR ''/'' # p); np = path_clean p
     in if has_suffix p ''/'' \<and> np \<noteq> ''/'' then np @ ''/'' else np)"

text \<open>The segments of an escaped path, each unescaped; a broken escape stays as it is.\<close>

definition path_segments :: "string \<Rightarrow> string list" where
  "path_segments p = map (\<lambda>s. case path_unescape s of Some u \<Rightarrow> u | None \<Rightarrow> s) (split_char CHR ''/'' (drop 1 p))"

datatype found = Routed route path_values | Redirected | OtherMethod | NoRoute

text \<open>A path without a trailing slash that only a subtree matches is redirected to the subtree of its own name.\<close>

definition subtree :: "route \<Rightarrow> bool" where
  "subtree rt \<longleftrightarrow> last (rt_pattern rt) = []"

definition exact :: "route \<times> path_values \<Rightarrow> string list \<Rightarrow> bool" where
  "exact found segments \<longleftrightarrow> \<not> subtree (fst found) \<or> last segments = [] \<and> length (rt_pattern (fst found)) = length segments"

definition mux_find :: "route list \<Rightarrow> request \<Rightarrow> found" where
  "mux_find table r = (let p = (if req_method r = ''CONNECT'' then req_escaped r else cleanPath (req_escaped r));
       segments = path_segments p; below = path_segments (p @ ''/'');
       search = (\<lambda>segments. most_specific (matching table (serves (req_method r)) segments))
     in if (case search segments of Some f \<Rightarrow> \<not> exact f segments | None \<Rightarrow> True) \<and> \<not> has_suffix p ''/'' \<and>
           (case search below of Some f \<Rightarrow> exact f below | None \<Rightarrow> False)
        then Redirected
        else if p \<noteq> req_escaped r then Redirected
        else case search segments of
            Some (rt, values) \<Rightarrow> Routed rt values
          | None \<Rightarrow> if matching table (\<lambda>_. True) segments = [] \<and> (has_suffix p ''/'' \<or> matching table (\<lambda>_. True) below = [])
              then NoRoute else OtherMethod)"

section \<open>The middleware\<close>

definition requireAuth :: "(string \<Rightarrow> string) \<Rightarrow> ('a db_scheme, 'b) handler \<Rightarrow> ('a db_scheme, 'b) handler" where
  "requireAuth sha256 handler values ses r = (case req_cookie r of
      None \<Rightarrow> io_return (writeError 401 ''unauthenticated'')
    | Some token \<Rightarrow> io_try (Authenticate sha256 token) (\<lambda>found. case found of
          Inl e \<Rightarrow> io_return (writeError 401 ''unauthenticated'')
        | Inr found \<Rightarrow>
            if unsafeMethod (req_method r) \<and> hdr_csrf r \<noteq> csrf_token found then io_return (writeError 403 ''csrf_rejected'')
            else handler values (Some (token, csrf_token found)) r))"

definition dispatch :: "route list \<Rightarrow> (string \<Rightarrow> string) \<Rightarrow> (string \<Rightarrow> ('a db_scheme, 'b) handler) \<Rightarrow> request \<Rightarrow>
    ('a db_scheme, 'b response) io" where
  "dispatch table sha256 handlers r = (case mux_find table r of
      Redirected \<Rightarrow> io_return (answer 301 Empty)
    | OtherMethod \<Rightarrow> io_return (answer 405 Empty)
    | NoRoute \<Rightarrow> io_return (answer 404 Empty)
    | Routed rt values \<Rightarrow> if rt_guarded rt then requireAuth sha256 (handlers (rt_handler rt)) values None r
        else handlers (rt_handler rt) values None r)"

definition trimmed_parts :: "string \<Rightarrow> string list" where
  "trimmed_parts p = split_char CHR ''/'' (trim_both (\<lambda>c. c = CHR ''/'') p)"

definition nth_part :: "string list \<Rightarrow> nat \<Rightarrow> string" where
  "nth_part parts i = (if i < length parts then parts ! i else [])"

definition has_path_ids :: "string \<Rightarrow> bool" where
  "has_path_ids p \<longleftrightarrow> has_prefix p ''/api/v1/nodes/'' \<or> has_prefix p ''/api/v1/outbounds/'' \<or> has_prefix p ''/api/v1/vpngate/outbounds/'' \<or>
     has_prefix p ''/api/v1/residential-nodes/'' \<and> p \<noteq> ''/api/v1/residential-nodes/vpngate'' \<and>
       p \<noteq> ''/api/v1/residential-nodes/manual'' \<and> \<not> has_prefix p ''/api/v1/residential-nodes/jobs/''"

definition id_indices :: "string list \<Rightarrow> nat list" where
  "id_indices parts = (if 3 < length parts \<and> nth_part parts 2 = ''vpngate'' then [4] else [3]) @
     (if 5 < length parts \<and> nth_part parts 4 = ''clients'' then [5] else [])"

definition positive_id :: "string \<Rightarrow> bool" where
  "positive_id s \<longleftrightarrow> (case parse_int s of (n, err) \<Rightarrow> err = None \<and> 1 \<le> n)"

definition validateAPIPathIDs :: "(request \<Rightarrow> ('w, 'b response) io) \<Rightarrow> request \<Rightarrow> ('w, 'b response) io" where
  "validateAPIPathIDs inner r = (let parts = trimmed_parts (req_path r) in
     if has_path_ids (req_path r) \<and> list_ex (\<lambda>i. i < length parts \<and> \<not> positive_id (parts ! i)) (id_indices parts)
     then io_return (writeError 400 ''invalid_id'')
     else inner r)"

definition static_methods :: "(string \<times> string list) list" where
  "static_methods =
    [(''/api/v1/health'', [''GET'']), (''/api/v1/auth/login'', [''POST'']), (''/api/v1/auth/session'', [''GET'']),
     (''/api/v1/auth/logout'', [''POST'']), (''/api/v1/auth/password'', [''POST'']),
     (''/api/v1/settings/public-host'', [''GET'', ''PUT'']), (''/api/v1/settings/server-name'', [''GET'', ''PUT'']),
     (''/api/v1/settings/country'', [''GET'', ''PUT'']), (''/api/v1/settings/language'', [''GET'', ''PUT'']),
     (''/api/v1/settings/node-start-port'', [''GET'', ''PUT'']), (''/api/v1/settings/protocol-prerequisites'', [''GET'', ''PUT'']),
     (''/api/v1/subscription'', [''GET'']), (''/api/v1/subscription/preview'', [''GET'']), (''/api/v1/subscription/reset'', [''POST'']),
     (''/api/v1/system/status'', [''GET'']), (''/api/v1/system/info'', [''GET'']), (''/api/v1/system/logs'', [''GET'']),
     (''/api/v1/system/backup'', [''POST'']), (''/api/v1/system/update'', [''POST'']), (''/api/v1/system/restart'', [''POST'']),
     (''/api/v1/events'', [''GET'']), (''/api/v1/residential-nodes/vpngate'', [''POST'']), (''/api/v1/residential-nodes/manual'', [''POST''])]"

text \<open>The methods of a path, when the panel knows it.\<close>

definition vpngate_methods :: "string list \<Rightarrow> string list option" where
  "vpngate_methods rest = (case rest of
      [a] \<Rightarrow> if a = ''regions'' \<or> a = ''nodes'' then Some [''GET'']
          else if a = ''inspect'' \<or> a = ''refresh'' then Some [''POST'']
          else if a = ''outbounds'' then Some [''GET'', ''POST''] else None
    | [a, i] \<Rightarrow> if a = ''outbounds'' then Some [''DELETE''] else None
    | [a, i, b] \<Rightarrow> if a = ''outbounds'' \<and> (b = ''swap'' \<or> b = ''extend'') then Some [''POST''] else None
    | _ \<Rightarrow> None)"

definition outbound_methods :: "string list \<Rightarrow> string list option" where
  "outbound_methods rest = (case rest of
      [] \<Rightarrow> Some [''GET'', ''POST'']
    | [i] \<Rightarrow> Some [''PUT'', ''DELETE'']
    | [i, a] \<Rightarrow> if a = ''check'' then Some [''POST''] else None
    | _ \<Rightarrow> None)"

definition node_methods :: "string list \<Rightarrow> string list option" where
  "node_methods rest = (case rest of
      [] \<Rightarrow> Some [''GET'', ''POST'']
    | [i] \<Rightarrow> Some [''GET'', ''PUT'', ''DELETE'']
    | [i, a] \<Rightarrow> if a \<in> {''enable'', ''disable'', ''clone''} then Some [''POST'']
        else if a = ''export'' then Some [''GET''] else if a = ''clients'' then Some [''GET'', ''POST''] else None
    | [i, a, j] \<Rightarrow> if a = ''clients'' then Some [''PUT'', ''DELETE''] else None
    | [i, a, j, b] \<Rightarrow> if a = ''clients'' then if b = ''reset'' then Some [''POST''] else if b = ''export'' then Some [''GET''] else None
        else None
    | _ \<Rightarrow> None)"

definition apiAllowedMethods :: "string \<Rightarrow> string list option" where
  "apiAllowedMethods p = (if has_prefix p ''/sub/'' then Some [''GET'']
     else case map_of static_methods p of
       Some verbs \<Rightarrow> Some verbs
     | None \<Rightarrow> (case trimmed_parts p of
           api # v1 # area # rest \<Rightarrow>
             if api \<noteq> ''api'' \<or> v1 \<noteq> ''v1'' then None
             else if area = ''residential-nodes'' \<and> length rest = 1 then Some [''DELETE'']
             else if area = ''residential-nodes'' \<and> length rest = 2 \<and> hd rest = ''jobs'' then Some [''GET'']
             else if area = ''vpngate'' then vpngate_methods rest
             else if area = ''outbounds'' then outbound_methods rest
             else if area = ''nodes'' then node_methods rest
             else None
         | _ \<Rightarrow> None))"

text \<open>\<open>methodErrorWriter\<close>: what is written with the status 404 or 405 is replaced.\<close>

definition replaced_by :: "string \<Rightarrow> 'b response \<Rightarrow> 'b response" where
  "replaced_by code res = res\<lparr>res_reply := Failure code,
     res_headers := json_headers @ filter (\<lambda>(k, _). k \<notin> fst ` set json_headers) (res_headers res)\<rparr>"

definition method_errors :: "'b response \<Rightarrow> 'b response" where
  "method_errors res = (if res_status res = 405 then replaced_by ''method_not_allowed'' res
     else if res_status res = 404 then replaced_by ''not_found'' res else res)"

definition jsonMethodErrors :: "(request \<Rightarrow> ('w, 'b response) io) \<Rightarrow> request \<Rightarrow> ('w, 'b response) io" where
  "jsonMethodErrors inner r =
     (if \<not> has_prefix (req_path r) ''/api/'' \<and> \<not> has_prefix (req_path r) ''/sub/'' then inner r
      else case apiAllowedMethods (req_path r) of
          Some verbs \<Rightarrow> if list_ex (serves (req_method r)) verbs then io_bind (inner r) (\<lambda>res. io_return (method_errors res))
            else io_return (writeError 405 ''method_not_allowed'')
        | None \<Rightarrow> io_bind (inner r) (\<lambda>res. io_return (method_errors res)))"

definition security_headers :: "(string \<times> string) list" where
  "security_headers = [(''Content-Security-Policy'', ''default-src 'self'; style-src 'self'; connect-src 'self'; img-src 'self' data:''),
     (''Referrer-Policy'', ''no-referrer''), (''X-Content-Type-Options'', ''nosniff''), (''X-Frame-Options'', ''DENY'')]"

definition securityHeaders :: "(request \<Rightarrow> ('w, 'b response) io) \<Rightarrow> request \<Rightarrow> ('w, 'b response) io" where
  "securityHeaders inner r = io_bind (inner r) (\<lambda>res. io_return (res\<lparr>res_headers := security_headers @ res_headers res\<rparr>))"

definition NewHandler :: "(string \<Rightarrow> string) \<Rightarrow> (string \<Rightarrow> ('a db_scheme, 'b) handler) \<Rightarrow> request \<Rightarrow> ('a db_scheme, 'b response) io" where
  "NewHandler sha256 handlers = securityHeaders (validateAPIPathIDs (jsonMethodErrors (dispatch routes sha256 handlers)))"

section \<open>Nothing behind a guard runs without a session\<close>

lemma most_specific_in:
  assumes "most_specific fs = Some f"
  shows "f \<in> set fs"
proof -
  have "foldl (\<lambda>best g. if more_specific (rt_pattern (fst g)) (rt_pattern (fst best)) then g else best) x xs \<in> set (x # xs)" for x xs
    by (induction xs arbitrary: x) (auto split: if_splits)
  moreover obtain x xs where "fs = x # xs" using assms by (cases fs) (simp_all add: most_specific_def)
  ultimately show ?thesis using assms by (simp only: most_specific_def list.case option.inject) blast
qed

lemma mux_found:
  assumes "mux_find table r = Routed rt values"
  shows "rt \<in> set table \<and> serves (req_method r) (rt_method rt) \<and> match_segments (rt_pattern rt) (path_segments (req_escaped r)) = Some values"
proof -
  have "most_specific (matching table (serves (req_method r)) (path_segments (req_escaped r))) = Some (rt, values)"
    using assms by (auto simp: mux_find_def Let_def split: if_splits option.splits)
  then have "(rt, values) \<in> set (matching table (serves (req_method r)) (path_segments (req_escaped r)))" by (rule most_specific_in)
  then show ?thesis by (auto simp: matching_def List.map_filter_def split: if_splits)
qed

definition public_handlers :: "string set" where
  "public_handlers = {''health'', ''login'', ''getLanguage'', ''renderSubscription'', ''frontendFile''}"

lemma public_routes: "rt \<in> set routes \<Longrightarrow> \<not> rt_guarded rt \<Longrightarrow> rt_handler rt \<in> public_handlers"
  by (auto simp: routes_def route_rows_def route_of_def public_handlers_def)

lemma public_unsafe_routes: "rt \<in> set routes \<Longrightarrow> \<not> rt_guarded rt \<Longrightarrow> unsafeMethod (rt_method rt) \<Longrightarrow> rt_handler rt = ''login''"
  by (auto simp: routes_def route_rows_def route_of_def unsafeMethod_def)

text \<open>The request carries the cookie of a session and, when its method is unsafe, that session's CSRF token.\<close>

definition admitted :: "(string \<Rightarrow> string) \<Rightarrow> request \<Rightarrow> 'a db_scheme \<Rightarrow> bool" where
  "admitted sha256 r w \<longleftrightarrow> (\<exists>token ses w'. req_cookie r = Some token \<and> Authenticate sha256 token w = (Inr ses, w') \<and>
     (unsafeMethod (req_method r) \<longrightarrow> hdr_csrf r = csrf_token ses))"

text \<open>The handlers that a request without a session can reach.\<close>

definition open_handlers :: "request \<Rightarrow> string set" where
  "open_handlers r = (if unsafeMethod (req_method r) then {''login''} else public_handlers)"

lemma guard_refuses:
  fixes w :: "'a db_scheme"
  assumes "\<not> admitted sha256 r w"
  shows "requireAuth sha256 h1 values ses r w = requireAuth sha256 h2 values ses r w"
  using assms by (cases "req_cookie r"; cases "Authenticate sha256 (the (req_cookie r)) w")
    (auto simp: requireAuth_def io_try_def admitted_def split: sum.split)

lemma dispatch_open:
  fixes w :: "'a db_scheme"
  assumes "\<not> admitted sha256 r w" and "\<And>name. name \<in> open_handlers r \<Longrightarrow> h1 name = h2 name"
  shows "dispatch routes sha256 h1 r w = dispatch routes sha256 h2 r w"
proof (cases "mux_find routes r")
  case (Routed rt vs)
  note f = mux_found [OF Routed]
  show ?thesis
  proof (cases "rt_guarded rt")
    case True
    then show ?thesis using guard_refuses [OF assms(1)] Routed by (simp add: dispatch_def)
  next
    case False
    have "rt_handler rt \<in> open_handlers r"
      using public_routes [of rt] public_unsafe_routes [of rt] f False by (auto simp: open_handlers_def serves_def unsafeMethod_def)
    then show ?thesis using assms(2) Routed False by (simp add: dispatch_def)
  qed
qed (simp_all add: dispatch_def)

lemma NewHandler_dispatch:
  fixes w :: "'a db_scheme"
  assumes "dispatch routes sha256 h1 r w = dispatch routes sha256 h2 r w"
  shows "NewHandler sha256 h1 r w = NewHandler sha256 h2 r w"
  using assms by (simp add: NewHandler_def securityHeaders_def validateAPIPathIDs_def jsonMethodErrors_def io_bind_def Let_def split: option.split)

text \<open>C22: A request without the cookie of a session, or with an unsafe method and without that session's CSRF token, is
  answered without any guarded handler: whatever they are replaced by, the answer and the state are the same. With an
  unsafe method only the login is left, otherwise the five public handlers.\<close>

theorem guarded_handlers_unreachable:
  fixes w :: "'a db_scheme"
  assumes "\<not> admitted sha256 r w" and "\<And>name. name \<in> open_handlers r \<Longrightarrow> h1 name = h2 name"
  shows "NewHandler sha256 h1 r w = NewHandler sha256 h2 r w"
  by (rule NewHandler_dispatch [OF dispatch_open [OF assms]])

section \<open>A concrete request\<close>

definition demo_request :: "string \<Rightarrow> string \<Rightarrow> string \<Rightarrow> request" where
  "demo_request verb path body = \<lparr>req_method = verb, req_escaped = path, req_host = ''panel.example'', RemoteAddr = ''192.0.2.1:40000'',
     req_tls = False, hdr_origin = [], hdr_forwarded = [], hdr_csrf = [], req_cookie = None, req_query = [], req_body = body\<rparr>"

definition demo_panel :: "nat \<Rightarrow> string \<Rightarrow> (auth_world, string) handler" where
  "demo_panel status name vs ses r = io_return (answer (if name \<in> public_handlers then 200 else status) Empty)"

theorem guarded_handlers_unreachable_witness:
  "NewHandler id (demo_panel 201) (demo_request ''POST'' ''/api/v1/nodes'' []) demo_auth =
   NewHandler id (demo_panel 500) (demo_request ''POST'' ''/api/v1/nodes'' []) demo_auth"
proof (rule guarded_handlers_unreachable)
  show "\<not> admitted id (demo_request ''POST'' ''/api/v1/nodes'' []) demo_auth" by (simp add: admitted_def demo_request_def)
  show "demo_panel 201 name = demo_panel 500 name" if "name \<in> open_handlers (demo_request ''POST'' ''/api/v1/nodes'' [])" for name
    using that by (auto simp: demo_panel_def open_handlers_def public_handlers_def fun_eq_iff split: if_splits)
qed

section \<open>One body for every 404\<close>

text \<open>Whatever a handler writes with the status 404 on a path of the API reaches the client as the code \<open>not_found\<close>.\<close>

theorem api_404_is_uniform:
  fixes w :: "'a db_scheme"
  assumes "has_prefix (req_path r) ''/api/''" and "NewHandler sha256 h r w = (Inr res, w')" and "res_status res = 404"
  shows "res_reply res = Failure ''not_found''"
  using assms
  by (auto simp: NewHandler_def securityHeaders_def validateAPIPathIDs_def jsonMethodErrors_def method_errors_def replaced_by_def Let_def
      writeError_def written_def elim!: io_bind_InrE split: if_splits option.splits)

end
