(* ===== verification/ApiHandlers.thy ===== *)
theory ApiHandlers
  imports ApiRoutes Subscription
begin

text \<open>
  The handlers of \<open>internal/api/handler.go\<close> that need the database, the authentication service and the subscription
  service: the login and what is open without one, the account, the plain settings, the subscription. A response
  body is a JSON value; the entry page and the other files of the frontend are what the file server gives for a path.
  Messages are left out, a failure is known by its code.
\<close>

section \<open>Errors of the services\<close>

definition kind_status :: "kind \<Rightarrow> nat" where
  "kind_status k = (case k of Validation \<Rightarrow> 400 | NotFound \<Rightarrow> 404 | Conflict \<Rightarrow> 409 | Unavailable \<Rightarrow> 502 | Internal \<Rightarrow> 500)"

definition writeInternal :: "'b response" where
  "writeInternal = writeError 500 ''internal_error''"

definition writeServiceError :: "error \<Rightarrow> 'b response" where
  "writeServiceError e = (case problem_As e of
      Some (k, code) \<Rightarrow> writeError (kind_status k) code
    | None \<Rightarrow> if IsConflict e then writeError 409 ''resource_conflict''
        else if IsNotFound e then writeError 404 ''not_found'' else writeInternal)"

section \<open>Request bodies\<close>

text \<open>One object of at most a mebibyte with known fields only, and nothing after it.\<close>

definition decodeJSON :: "string list \<Rightarrow> string \<Rightarrow> obj option" where
  "decodeJSON known body = (if 1048576 < length body then None
     else case parse_value (2 * length body) body of
         Some (JObj ob, rest) \<Rightarrow> if skip_ws rest = [] \<and> list_all (\<lambda>(k, _). list_ex (equal_fold k) known) ob then Some ob else None
       | Some (JNull, rest) \<Rightarrow> if skip_ws rest = [] then Some [] else None
       | _ \<Rightarrow> None)"

definition decode_strings :: "string list \<Rightarrow> string \<Rightarrow> string list option" where
  "decode_strings names body = (case decodeJSON names body of
      None \<Rightarrow> None
    | Some ob \<Rightarrow> those (map (\<lambda>name. case field_string ob name of Inr s \<Rightarrow> Some s | Inl _ \<Rightarrow> None) names))"

text \<open>What is done with one string field, or the refusal of the body.\<close>

definition with_string :: "string \<Rightarrow> request \<Rightarrow> (string \<Rightarrow> ('w, 'b response) io) \<Rightarrow> ('w, 'b response) io" where
  "with_string name r next = (case decode_strings [name] (req_body r) of
      Some [s] \<Rightarrow> next s | _ \<Rightarrow> io_return (writeError 400 ''invalid_json''))"

section \<open>Names of the server\<close>

text \<open>\<open>utf8.DecodeRune\<close>: the code point and its width; a byte that starts no valid sequence counts alone.\<close>

definition continues :: "char \<Rightarrow> bool" where
  "continues c \<longleftrightarrow> 128 \<le> byte c \<and> byte c \<le> 191"

definition decode_rune :: "string \<Rightarrow> nat \<times> nat" where
  "decode_rune s = (let b = (\<lambda>i. byte (s ! i)); x = b 0; c = (\<lambda>i. i < length s \<and> continues (s ! i)); v = (\<lambda>i. b i - 128);
       three = (x - 224) * 4096 + v 1 * 64 + v 2; four = (x - 240) * 262144 + v 1 * 4096 + v 2 * 64 + v 3
     in if x < 128 then (x, 1)
        else if 194 \<le> x \<and> x \<le> 223 \<and> c 1 then ((x - 192) * 64 + v 1, 2)
        else if 224 \<le> x \<and> x \<le> 239 \<and> c 1 \<and> c 2 \<and> 2048 \<le> three \<and> \<not> (55296 \<le> three \<and> three \<le> 57343) then (three, 3)
        else if 240 \<le> x \<and> x \<le> 244 \<and> c 1 \<and> c 2 \<and> c 3 \<and> 65536 \<le> four \<and> four \<le> 1114111 then (four, 4)
        else (65533, 1))"

function runes :: "string \<Rightarrow> nat list" where
  "runes s = (if s = [] then [] else fst (decode_rune s) # runes (drop (snd (decode_rune s)) s))"
  by pat_completeness auto
termination
  by (relation "measure length") (auto simp: decode_rune_def Let_def)

declare runes.simps [simp del]

definition is_control :: "nat \<Rightarrow> bool" where
  "is_control u \<longleftrightarrow> u < 32 \<or> 127 \<le> u \<and> u \<le> 159"

definition name_separator :: string where
  "name_separator = map byte_of [0xE4, 0xB8, 0xA8]"

definition normalizeServerName :: "string \<Rightarrow> error + string" where
  "normalizeServerName value = (let name = trim_space value in
     if name = [] then Inl (Err ''the server needs a name'')
     else if 64 < length (runes name) then Inl (Err ''at most 64 characters'')
     else if contains name name_separator then Inl (Err ''the separator of node names'')
     else if list_ex is_control (runes name) then Inl (Err ''control characters'')
     else Inr name)"

section \<open>The open handlers\<close>

text \<open>\<open>file_server\<close> answers with a file of the frontend for a path.\<close>

record api_deps =
  dep_sealer :: sealer
  dep_sha256 :: "string \<Rightarrow> string"
  dep_argon :: argon2
  dep_ttl :: int
  dep_yaml :: "json \<Rightarrow> error + string"
  dep_proxies :: "string \<Rightarrow> error + nat"
  dep_version :: string
  dep_started :: string
  file_server :: "string \<Rightarrow> json response"

definition subscriptions :: "api_deps \<Rightarrow> ('a db_scheme) sub_store" where
  "subscriptions d = \<lparr>st_token = SubscriptionToken (dep_sealer d), st_reset = ResetSubscriptionToken,
     st_node = Store_Node (dep_sealer d), st_setting = Setting, st_clients = Clients (dep_sealer d),
     st_nodes = ListNodes (dep_sealer d), st_user = UserByTokenHash\<rparr>"

definition ok_json :: "obj \<Rightarrow> json response" where
  "ok_json ob = written 200 (Value (JObj ob))"

text \<open>\<open>value, _ := h.deps.Store.Setting(...)\<close>.\<close>

definition value_or_empty :: "('w, string) io \<Rightarrow> ('w, string) io" where
  "value_or_empty m = io_try m (\<lambda>r. io_return (case r of Inr s \<Rightarrow> s | Inl _ \<Rightarrow> []))"

definition health :: "api_deps \<Rightarrow> ('w, json) handler" where
  "health d vs ses r = io_return (ok_json [(''status'', JStr ''ok''), (''version'', JStr (dep_version d)), (''startedAt'', JStr (dep_started d))])"

definition defaultCredentials :: "api_deps \<Rightarrow> ('a db_scheme, bool) io" where
  "defaultCredentials d = io_try AdministratorUsername (\<lambda>u. case u of
      Inl _ \<Rightarrow> io_return False
    | Inr username \<Rightarrow> if username \<noteq> ''admin'' then io_return False
        else io_try (PasswordHash username) (\<lambda>h. io_return (case h of Inr hash \<Rightarrow> VerifyPassword (dep_argon d) hash ''admin'' | Inl _ \<Rightarrow> False)))"

definition account_view :: "api_deps \<Rightarrow> string \<Rightarrow> obj \<Rightarrow> ('a db_scheme, json response) io" where
  "account_view d csrf extra = io_bind (value_or_empty (Setting ''admin_path'')) (\<lambda>adminPath.
     io_bind (value_or_empty (Setting ''public_host'')) (\<lambda>publicHost.
     io_bind (value_or_empty AdministratorUsername) (\<lambda>username.
     io_bind (defaultCredentials d) (\<lambda>def.
     io_return (ok_json ([(''username'', JStr username), (''csrfToken'', JStr csrf)] @ extra @
       [(''adminPath'', JStr adminPath), (''setupRequired'', JBool (publicHost = [])), (''defaultCredentials'', JBool def)]))))))"

definition api_login :: "api_deps \<Rightarrow> ('a auth_world_scheme, json) handler" where
  "api_login d vs ses r =
     (if \<not> sameOrigin r then io_return (writeError 403 ''origin_rejected'')
      else case decode_strings [''username'', ''password''] (req_body r) of
          Some [username, password] \<Rightarrow>
            io_try (Login (dep_sha256 d) (dep_argon d) (dep_ttl d) username password (sourceIP r)) (\<lambda>res. case res of
              Inl e \<Rightarrow> io_bind (if error_is ErrLoginLimited e then io_return (Inr True) else io_try (Service_Limited (sourceIP r)) io_return) (\<lambda>limited.
                io_return (if limited = Inr True then writeError 429 ''login_limited'' else writeError 401 ''invalid_credentials''))
            | Inr (token, session) \<Rightarrow>
                io_bind (account_view d (csrf_token session) [(''expiresAt'', JInt (session_expires session))]) (\<lambda>response.
                io_return (response\<lparr>res_cookie := Some \<lparr>ck_value = token, ck_expires = Some (session_expires session), ck_secure = req_tls r\<rparr>\<rparr>)))
        | _ \<Rightarrow> io_return (writeError 400 ''invalid_json''))"

definition getLanguage :: "('a db_scheme, json) handler" where
  "getLanguage vs ses r = io_bind (value_or_empty (Setting ''ui_language'')) (\<lambda>language.
     io_return (ok_json [(''language'', JStr (if language \<noteq> ''zh-CN'' \<and> language \<noteq> ''en'' then ''zh-CN'' else language))]))"

definition format_of :: "request \<Rightarrow> string" where
  "format_of r = query_get (req_query r) ''format''"

definition subscription_file :: "string \<Rightarrow> string" where
  "subscription_file format = (if format = ''clash'' then ''j-ui-subscription.yaml''
     else if format = ''singbox'' then ''j-ui-subscription.json''
     else if format = ''v2rayn'' \<or> format = ''shadowrocket'' then ''j-ui-'' @ format @ ''.txt''
     else ''j-ui-subscription.txt'')"

definition renderSubscription :: "api_deps \<Rightarrow> ('a db_scheme, json) handler" where
  "renderSubscription d vs ses r = (let token = trim_prefix (req_path r) ''/sub/'' in
     if token = [] \<or> CHR ''/'' \<in> set token then io_return (writeError 404 ''not_found'')
     else io_try (Render (subscriptions d) (HashToken (dep_sha256 d)) (dep_yaml d) token (format_of r)) (\<lambda>res. io_return (case res of
         Inl e \<Rightarrow> if IsNotFound e then writeError 404 ''not_found'' else writeServiceError e
       | Inr (body, contentType) \<Rightarrow> (answer 200 (Value (JStr body)))\<lparr>res_headers :=
           [(''Content-Type'', contentType),
            (''Content-Disposition'', ''attachment; filename='' @ [DQ] @ subscription_file (format_of r) @ [DQ]),
            (''Cache-Control'', ''no-store''), (''Profile-Update-Interval'', ''24'')]\<rparr>)))"

definition frontendFile :: "api_deps \<Rightarrow> ('a db_scheme, json) handler" where
  "frontendFile d vs ses r = io_try (Setting ''admin_path'') (\<lambda>res. io_return (case res of
      Inl e \<Rightarrow> answer 404 Empty
    | Inr adminPath \<Rightarrow>
        (let prefix = CHR ''/'' # adminPath; p = req_path r
         in if p = prefix then (answer 307 Empty)\<lparr>res_headers := [(''Location'', prefix @ ''/'')]\<rparr>
            else if \<not> has_prefix p (prefix @ ''/'') then answer 404 Empty
            else (let page = file_server d (drop (length prefix) p)
                  in if trim_prefix p (prefix @ ''/'') = ''index.html'' \<or> has_suffix p ''/''
                     then page\<lparr>res_headers := (''Cache-Control'', ''no-store, no-cache, must-revalidate'') # res_headers page\<rparr> else page))))"

section \<open>The account and the plain settings\<close>

definition removed_cookie :: "request \<Rightarrow> cookie" where
  "removed_cookie r = \<lparr>ck_value = [], ck_expires = None, ck_secure = req_tls r\<rparr>"

definition api_session :: "api_deps \<Rightarrow> ('a db_scheme, json) handler" where
  "api_session d vs ses r = account_view d (case ses of Some (_, csrf) \<Rightarrow> csrf | None \<Rightarrow> []) []"

definition api_logout :: "api_deps \<Rightarrow> ('a db_scheme, json) handler" where
  "api_logout d vs ses r = io_try (Logout (dep_sha256 d) (case ses of Some (token, _) \<Rightarrow> token | None \<Rightarrow> [])) (\<lambda>_.
     io_return ((answer 204 Empty)\<lparr>res_cookie := Some (removed_cookie r)\<rparr>))"

definition changePassword :: "api_deps \<Rightarrow> ('a db_scheme, json) handler" where
  "changePassword d vs ses r = (case decode_strings [''currentPassword'', ''newPassword''] (req_body r) of
      Some [current, replacement] \<Rightarrow> io_try (ChangePassword (dep_argon d) current replacement) (\<lambda>res. io_return (case res of
          Inl e \<Rightarrow> writeError 400 ''password_rejected''
        | Inr _ \<Rightarrow> (answer 204 Empty)\<lparr>res_cookie := Some (removed_cookie r)\<rparr>))
    | _ \<Rightarrow> io_return (writeError 400 ''invalid_json''))"

text \<open>A setting is normalized, stored and given back.\<close>

definition set_setting :: "string \<Rightarrow> string \<Rightarrow> string \<Rightarrow> (string \<Rightarrow> error + string) \<Rightarrow> ('a db_scheme, json) handler" where
  "set_setting field key refusal normal_form vs ses r = with_string field r (\<lambda>value. case normal_form value of
      Inl e \<Rightarrow> io_return (writeError 400 refusal)
    | Inr normal \<Rightarrow> io_try (SetSetting key normal) (\<lambda>res. io_return (case res of
          Inl e \<Rightarrow> writeError 500 ''setting_failed''
        | Inr _ \<Rightarrow> ok_json [(field, JStr normal)])))"

definition getPublicHost :: "('a db_scheme, json) handler" where
  "getPublicHost vs ses r = io_bind (value_or_empty (Setting ''public_host'')) (\<lambda>host. io_return (ok_json [(''publicHost'', JStr host)]))"

definition setPublicHost :: "('a db_scheme, json) handler" where
  "setPublicHost = set_setting ''publicHost'' ''public_host'' ''invalid_public_host'' normalizeHost"

definition serverName :: "('a db_scheme, string) io" where
  "serverName = io_try (Setting ''server_name'') (\<lambda>res. io_return (case res of
      Inr name \<Rightarrow> if trim_space name \<noteq> [] then trim_space name else ''J-UI'' | Inl _ \<Rightarrow> ''J-UI''))"

definition getServerName :: "('a db_scheme, json) handler" where
  "getServerName vs ses r = io_bind serverName (\<lambda>name. io_return (ok_json [(''serverName'', JStr name)]))"

definition setServerName :: "('a db_scheme, json) handler" where
  "setServerName = set_setting ''serverName'' ''server_name'' ''validation_failed'' normalizeServerName"

definition setCountry :: "('a db_scheme, json) handler" where
  "setCountry = set_setting ''countryCode'' ''country_code'' ''validation_failed'' normalizeCountryCode"

definition setLanguage :: "('a db_scheme, json) handler" where
  "setLanguage = set_setting ''language'' ''ui_language'' ''validation_failed''
     (\<lambda>language. if language \<noteq> ''zh-CN'' \<and> language \<noteq> ''en'' then Inl (Err ''zh-CN or en'') else Inr language)"

section \<open>The subscription\<close>

definition pathID :: "path_values \<Rightarrow> string \<Rightarrow> int" where
  "pathID vs name = fst (parse_int (case map_of vs name of Some s \<Rightarrow> s | None \<Rightarrow> []))"

definition uri_answer :: "error + string \<Rightarrow> json response" where
  "uri_answer res = (case res of Inl e \<Rightarrow> writeServiceError e | Inr uri \<Rightarrow> ok_json [(''uri'', JStr uri)])"

definition exportNode :: "api_deps \<Rightarrow> ('a db_scheme, json) handler" where
  "exportNode d vs ses r = io_try (NodeURI (subscriptions d) (pathID vs ''id'')) (\<lambda>res. io_return (uri_answer res))"

definition exportClient :: "api_deps \<Rightarrow> ('a db_scheme, json) handler" where
  "exportClient d vs ses r = io_try (ClientURI (subscriptions d) (pathID vs ''id'') (pathID vs ''clientId'')) (\<lambda>res. io_return (uri_answer res))"

definition subscriptionInfo :: "api_deps \<Rightarrow> ('a db_scheme, json) handler" where
  "subscriptionInfo d vs ses r = io_try (SubscriptionToken (dep_sealer d)) (\<lambda>res. io_return (case res of
      Inl e \<Rightarrow> writeInternal
    | Inr token \<Rightarrow> ok_json ((''token'', JStr token) # map (\<lambda>(name, format). (name, JStr (''/sub/'' @ token @ ''?format='' @ format)))
        [(''base64Path'', ''base64''), (''v2rayNPath'', ''v2rayn''), (''shadowrocketPath'', ''shadowrocket''), (''clashPath'', ''clash''),
         (''singBoxPath'', ''singbox'')])))"

definition resetSubscription :: "api_deps \<Rightarrow> ('a db_scheme, json) handler" where
  "resetSubscription d vs ses r = io_try (ResetToken (subscriptions d) (RandomToken 32) (Seal (dep_sealer d)) (HashToken (dep_sha256 d))) (\<lambda>res.
     io_return (case res of Inl e \<Rightarrow> writeInternal | Inr token \<Rightarrow> ok_json [(''token'', JStr token)]))"

definition subscriptionPreview :: "api_deps \<Rightarrow> ('a db_scheme, json) handler" where
  "subscriptionPreview d vs ses r = io_try (Preview (subscriptions d) (HashToken (dep_sha256 d)) (dep_yaml d) (dep_proxies d) (format_of r)) (\<lambda>res.
     io_return (case res of
       Inl e \<Rightarrow> writeServiceError e
     | Inr p \<Rightarrow> ok_json [(''format'', JStr (pv_format p)), (''valid'', JBool (pv_valid p)), (''items'', JInt (int (pv_items p))),
         (''content'', JStr (pv_content p))]))"

section \<open>All handlers\<close>

text \<open>The handlers of nodes, outbounds, exits and of the system are an argument.\<close>

definition api_handlers :: "api_deps \<Rightarrow> (string \<Rightarrow> ('a auth_world_scheme, json) handler) \<Rightarrow> string \<Rightarrow> ('a auth_world_scheme, json) handler" where
  "api_handlers d others name = (case map_of
     [(''health'', health d), (''login'', api_login d), (''getLanguage'', getLanguage), (''renderSubscription'', renderSubscription d),
      (''frontendFile'', frontendFile d), (''session'', api_session d), (''logout'', api_logout d), (''changePassword'', changePassword d),
      (''getPublicHost'', getPublicHost), (''setPublicHost'', setPublicHost), (''getServerName'', getServerName),
      (''setServerName'', setServerName), (''setCountry'', setCountry), (''setLanguage'', setLanguage), (''exportNode'', exportNode d),
      (''exportClient'', exportClient d), (''subscriptionInfo'', subscriptionInfo d), (''resetSubscription'', resetSubscription d),
      (''subscriptionPreview'', subscriptionPreview d)] name of
       Some handler \<Rightarrow> handler | None \<Rightarrow> others name)"

end
