(* ===== verification/ApiLaws.thy ===== *)
theory ApiLaws
  imports ApiHandlers
begin

text \<open>
  What the API promises to the other side: without a session and its CSRF token a request changes the database only by
  logging in with the password, and the answer of a login admits the requests that carry what it gave.
\<close>

section \<open>The open handlers but the login only read\<close>

lemma reads_only_of_result [quiet_intro]: "reads_only (of_result r)"
  by (cases r) (simp_all add: of_result_def reads_only_return reads_only_fail)

lemma reads_only_queries [quiet_intro]:
  "reads_only (Setting k)" "reads_only AdministratorUsername" "reads_only (PasswordHash username)" "reads_only (UserByTokenHash hash)"
  "reads_only (ListNodes blk)" "reads_only (Clients blk i)"
  unfolding Setting_def AdministratorUsername_def PasswordHash_def UserByTokenHash_def ListNodes_def Clients_def
  by (intro quiet_intro)+

lemma reads_only_items_loop:
  assumes "\<And>i. reads_only (st_clients st i)"
  shows "reads_only (items_loop st userID publicHost ns its)"
  using assms by (induction ns arbitrary: its) (auto intro!: quiet_intro)

lemma reads_only_Render:
  "reads_only (Render (subscriptions d) hash yaml token format)"
  unfolding Render_def subscription_items_def Let_def
  by (intro quiet_intro reads_only_items_loop) (simp_all add: subscriptions_def quiet_intro)

lemma reads_only_value_or_empty [quiet_intro]: "reads_only m \<Longrightarrow> reads_only (value_or_empty m)"
  unfolding value_or_empty_def by (intro quiet_intro)

lemma reads_only_defaultCredentials [quiet_intro]: "reads_only (defaultCredentials d)"
  unfolding defaultCredentials_def by (intro quiet_intro)

lemma reads_only_account_view [quiet_intro]: "reads_only (account_view d csrf extra)"
  unfolding account_view_def by (intro quiet_intro)

lemma reads_only_limited [quiet_intro]: "reads_only (Service_Limited ip)"
  by (simp add: reads_only_def Service_Limited_def time_now_def io_bind_def ticked_def split: prod.splits)

lemma open_handler [simp]:
  "api_handlers d others ''health'' = health d" "api_handlers d others ''login'' = api_login d"
  "api_handlers d others ''getLanguage'' = getLanguage" "api_handlers d others ''renderSubscription'' = renderSubscription d"
  "api_handlers d others ''frontendFile'' = frontendFile d"
  by (simp_all add: api_handlers_def)

lemma open_handlers_read:
  fixes others :: "string \<Rightarrow> ('a auth_world_scheme, json) handler"
  assumes "name \<in> public_handlers" and "name \<noteq> ''login''"
  shows "reads_only (api_handlers d others name vs ses r)"
proof -
  have "reads_only (health d vs ses r :: ('a auth_world_scheme, json response) io)" unfolding health_def by (intro quiet_intro)
  moreover have "reads_only (getLanguage vs ses r :: ('a auth_world_scheme, json response) io)"
    unfolding getLanguage_def by (intro quiet_intro)
  moreover have "reads_only (renderSubscription d vs ses r :: ('a auth_world_scheme, json response) io)"
    unfolding renderSubscription_def Let_def by (intro quiet_intro reads_only_Render)
  moreover have "reads_only (frontendFile d vs ses r :: ('a auth_world_scheme, json response) io)"
    unfolding frontendFile_def by (intro quiet_intro)
  moreover have "name = ''health'' \<or> name = ''getLanguage'' \<or> name = ''renderSubscription'' \<or> name = ''frontendFile''"
    using assms by (auto simp: public_handlers_def)
  ultimately show ?thesis by (elim disjE) (simp_all only: open_handler)
qed

section \<open>What a login can change\<close>

definition names_administrator :: "argon2 \<Rightarrow> tables \<Rightarrow> string \<Rightarrow> string \<Rightarrow> bool" where
  "names_administrator IDKey t username password \<longleftrightarrow>
     (\<exists>a\<in>set (administrators t). adm_name a = username \<and> VerifyPassword IDKey (adm_hash a) password)"

lemma good_credentials:
  fixes w w' :: "'a db_scheme"
  assumes "check_credentials IDKey username password w = (Inr True, w')"
  shows "names_administrator IDKey (tables w) username password"
proof -
  obtain hash and w1 :: "'a db_scheme" where p: "PasswordHash username w = (Inr hash, w1)" and v: "VerifyPassword IDKey hash password"
    using assms by (cases "PasswordHash username w") (auto simp: check_credentials_def io_try_def io_return_def split: sum.splits)
  obtain rs where "map adm_hash (filter (\<lambda>r. adm_name r = username) (administrators (tables w))) = hash # rs"
    using query_row_Inr [OF p [unfolded PasswordHash_def]] by (elim exE)
  then have "hash \<in> adm_hash ` set (filter (\<lambda>r. adm_name r = username) (administrators (tables w)))"
    by (metis list.set_intros(1) list.set_map)
  then show ?thesis using v by (auto simp: names_administrator_def)
qed

lemma open_session_administrators:
  fixes w w' :: "'a db_scheme"
  assumes "open_session sha256 ttl ip w = (r, w')" and "consistent (tables w)"
  shows "administrators (tables w') = administrators (tables w)"
proof (cases r)
  case (Inl e)
  then show ?thesis using atomicD [OF atomic_open_session, of sha256 ttl ip w e w'] assms by simp
next
  case (Inr s)
  obtain token ses where "s = (token, ses)" by (cases s)
  then obtain w0 :: "'a db_scheme" and v where "tables w0 = tables w" "CreateSession ses ip w0 = (Inr (), w')"
    using open_session_Inr [of sha256 ttl ip w token ses w'] assms(1) Inr by blast
  then show ?thesis using session_tables [of ses ip w0 "()" w'] by simp
qed

lemma Login_tables:
  fixes w w' :: "'a auth_world_scheme"
  assumes "Login sha256 IDKey ttl username password ip w = (r, w')" and "consistent (tables w)"
  shows "tables w' = tables w \<or>
    names_administrator IDKey (tables w) username password \<and> administrators (tables w') = administrators (tables w)"
proof -
  obtain now w0 where n: "time_now w = (Inr now, w0)" and t0: "tables w0 = tables w"
    using reads_onlyD [OF reads_only_time, of w "fst (time_now w)" "snd (time_now w)"]
    by (auto simp: time_now_def)
  obtain granted l where g: "reserveAttempt ip now (attempts w0) = (granted, l)" by (cases "reserveAttempt ip now (attempts w0)")
  define w1 where "w1 = w0\<lparr>attempts := l\<rparr>"
  have t1: "tables w1 = tables w" by (simp add: w1_def t0)
  obtain good w2 where c: "check_credentials IDKey username password w1 = (good, w2)"
    by (cases "check_credentials IDKey username password w1")
  have t2: "tables w2 = tables w" using reads_onlyD [OF reads_only_password_check c] t1 by simp
  obtain r3 w3 where o: "open_session sha256 ttl ip w2 = (r3, w3)" by (cases "open_session sha256 ttl ip w2")
  have fin: "finish_login ip out x v = (y, v') \<Longrightarrow> tables v' = tables v" for out x y and v v' :: "'a auth_world_scheme"
    by (cases out) (auto simp: finish_login_def io_bind_def time_now_def ticked_def)
  have run: "(if \<not> granted then (Inl ErrLoginLimited, w1)
       else io_bind (check_credentials IDKey username password) (\<lambda>good.
         io_try (if good then open_session sha256 ttl ip else io_fail ErrInvalidCredentials) (\<lambda>r.
           finish_login ip (if \<not> good then Rejected else if isl r then Errored else Accepted) r)) w1) = (r, w')"
    using assms(1) by (cases granted) (simp_all add: Login_def n g w1_def)
  show ?thesis
  proof (cases "granted \<and> good = Inr True")
    case True
    then have "tables w' = tables w3"
      using run c o by (auto simp: io_bind_def io_try_def dest!: fin)
    then show ?thesis
      using good_credentials [of IDKey username password w1 w2] open_session_administrators [OF o] c t1 t2 True assms(2) by simp
  next
    case False
    then consider "\<not> granted" | e where "granted" "good = Inl e" | "granted" "good = Inr False" by (cases good) auto
    then have "tables w' = tables w"
      using run c t1 t2 by cases (auto simp: io_bind_def io_try_def io_fail_def dest!: fin)
    then show ?thesis by simp
  qed
qed


text \<open>The sum of what the requests without a session can do.\<close>

definition signs_in :: "api_deps \<Rightarrow> request \<Rightarrow> tables \<Rightarrow> bool" where
  "signs_in d r t \<longleftrightarrow> req_method r = ''POST'' \<and> sameOrigin r \<and> (\<exists>username password.
     decode_strings [''username'', ''password''] (req_body r) = Some [username, password] \<and> names_administrator (dep_argon d) t username password)"

lemma login_changes:
  fixes w w' :: "'a auth_world_scheme"
  assumes "api_login d vs ses r w = (res, w')" and "consistent (tables w)"
  shows "tables w' = tables w \<or> administrators (tables w') = administrators (tables w) \<and> sameOrigin r \<and> (\<exists>username password.
     decode_strings [''username'', ''password''] (req_body r) = Some [username, password] \<and>
     names_administrator (dep_argon d) (tables w) username password)"
proof (cases "sameOrigin r \<and> (\<exists>username password. decode_strings [''username'', ''password''] (req_body r) = Some [username, password])")
  case False
  then have "tables w' = tables w"
    using assms(1) by (auto simp: api_login_def io_return_def split: if_splits option.splits list.splits)
  then show ?thesis by simp
next
  case True
  then obtain username password where b: "sameOrigin r" "decode_strings [''username'', ''password''] (req_body r) = Some [username, password]"
    by blast
  obtain out w1 where l: "Login (dep_sha256 d) (dep_argon d) (dep_ttl d) username password (sourceIP r) w = (out, w1)"
    by (cases "Login (dep_sha256 d) (dep_argon d) (dep_ttl d) username password (sourceIP r) w")
  have "tables w' = tables w1"
  proof (cases out)
    case (Inl e)
    let ?rest = "io_bind (if error_is ErrLoginLimited e then io_return (Inr True) else io_try (Service_Limited (sourceIP r)) io_return)
        (\<lambda>limited. io_return (if limited = Inr True then writeError 429 ''login_limited'' else writeError 401 ''invalid_credentials''))
        :: ('a auth_world_scheme, json response) io"
    have "reads_only ?rest" by (intro quiet_intro)
    moreover have "?rest w1 = (res, w')" using assms(1) b l Inl by (simp add: api_login_def io_try_def)
    ultimately show ?thesis by (rule reads_onlyD)
  next
    case (Inr p)
    obtain token session where p: "p = (token, session)" by (cases p)
    let ?rest = "io_bind (account_view d (csrf_token session) [(''expiresAt'', JInt (session_expires session))]) (\<lambda>response.
        io_return (response\<lparr>res_cookie := Some \<lparr>ck_value = token, ck_expires = Some (session_expires session), ck_secure = req_tls r\<rparr>\<rparr>))
        :: ('a auth_world_scheme, json response) io"
    have "reads_only ?rest" by (intro quiet_intro)
    moreover have "?rest w1 = (res, w')" using assms(1) b l Inr p by (simp add: api_login_def io_try_def)
    ultimately show ?thesis by (rule reads_onlyD)
  qed
  then show ?thesis using Login_tables [OF l assms(2)] b by auto
qed

lemma middleware_tables:
  fixes w w' :: "'a db_scheme"
  assumes "NewHandler sha256 h r w = (res, w')" and "tables w' \<noteq> tables w"
  obtains out where "dispatch routes sha256 h r w = (out, w')"
proof -
  obtain out v where d: "dispatch routes sha256 h r w = (out, v)" by (cases "dispatch routes sha256 h r w")
  have "v = w' \<or> w' = w"
    using assms(1) d
    by (auto simp: NewHandler_def securityHeaders_def validateAPIPathIDs_def jsonMethodErrors_def io_bind_def io_return_def Let_def
        split: if_splits option.splits sum.splits)
  then show ?thesis using that d assms(2) by auto
qed

text \<open>C12: Whatever the other handlers do, a request without the cookie of a session, or with an unsafe method and without that
  session's CSRF token, leaves the database alone, unless it is a POST from the panel's own origin whose body names the
  administrator and a password that verifies against the stored hash; even then the administrator stays as it was.\<close>

theorem anonymous_change_is_login:
  fixes w w' :: "'a auth_world_scheme"
  assumes "\<not> admitted (dep_sha256 d) r w" and "consistent (tables w)" and "NewHandler (dep_sha256 d) (api_handlers d others) r w = (res, w')"
  shows "tables w' = tables w \<or> signs_in d r (tables w) \<and> administrators (tables w') = administrators (tables w)"
proof (cases "tables w' = tables w")
  case False
  then obtain out where o: "dispatch routes (dep_sha256 d) (api_handlers d others) r w = (out, w')"
    using middleware_tables [OF assms(3)] by blast
  obtain rt vs where f: "mux_find routes r = Routed rt vs"
    using o False by (cases "mux_find routes r") (auto simp: dispatch_def io_return_def)
  note found = mux_found [OF f]
  show ?thesis
  proof (cases "rt_guarded rt")
    case True
    have "requireAuth (dep_sha256 d) (api_handlers d others (rt_handler rt)) vs None r w =
        requireAuth (dep_sha256 d) (\<lambda>_ _ _. io_return (answer 200 Empty)) vs None r w"
      by (rule guard_refuses [OF assms(1)])
    moreover have "reads_only (requireAuth (dep_sha256 d) (\<lambda>_ _ _. io_return (answer 200 Empty)) vs None r
        :: ('a auth_world_scheme, json response) io)"
      unfolding requireAuth_def by (cases "req_cookie r") (auto intro!: quiet_intro reads_only_Authenticate)
    ultimately show ?thesis using reads_onlyD o f True False by (fastforce simp: dispatch_def)
  next
    case False
    then have p: "rt_handler rt \<in> public_handlers" using public_routes found by blast
    have h: "api_handlers d others (rt_handler rt) vs None r w = (out, w')" using o f False by (simp add: dispatch_def)
    have login: "rt_handler rt = ''login''" using reads_onlyD [OF open_handlers_read [OF p] h] \<open>tables w' \<noteq> tables w\<close> by blast
    then have "rt_method rt = ''POST''"
      using found by (auto simp: routes_def route_rows_def route_of_def)
    then have "req_method r = ''POST''" using found by (simp add: serves_def)
    then show ?thesis
      using login_changes [of d vs None r w out w'] h login assms(2) by (auto simp: signs_in_def)
  qed
qed simp


section \<open>A login admits the requests that follow\<close>

lemma mux_find_request: "req_method r = req_method q \<Longrightarrow> req_escaped r = req_escaped q \<Longrightarrow> mux_find table r = mux_find table q"
  by (simp only: mux_find_def)

definition login_path :: string where
  "login_path = ''/api/v1/auth/login''"

lemma login_path_text: "path_unescape login_path = Some login_path"
  unfolding login_path_def by code_simp

lemma login_found:
  assumes "req_method r = ''POST''" and "req_escaped r = login_path"
  shows "mux_find routes r = Routed (route_of (''POST'', login_path, False, ''login'')) []"
proof -
  have "mux_find routes (demo_request ''POST'' login_path []) = Routed (route_of (''POST'', login_path, False, ''login'')) []"
    unfolding login_path_def by code_simp
  then show ?thesis using mux_find_request [of r "demo_request ''POST'' login_path []"] assms by (simp add: demo_request_def)
qed

lemma login_through_middleware:
  fixes w w' :: "'a auth_world_scheme"
  assumes "NewHandler sha256 (api_handlers d others) r w = (Inr res, w')" and "req_method r = ''POST''" and "req_escaped r = login_path"
    and "res_status res = 200"
  obtains out where "api_login d [] None r w = (Inr out, w')" and "res_status out = 200" and "res_reply res = res_reply out"
    and "res_cookie res = res_cookie out"
proof -
  have p: "req_path r = login_path" using assms(3) login_path_text by (simp add: req_path_def)
  have m: "apiAllowedMethods login_path = Some [''POST'']" "has_prefix login_path ''/api/''" "\<not> has_path_ids login_path"
    unfolding login_path_def by code_simp+
  have "dispatch routes sha256 (api_handlers d others) r = api_login d [] None r"
    using login_found [OF assms(2,3)] by (simp add: dispatch_def route_of_def)
  then obtain out where "api_login d [] None r w = (Inr out, w')" "res = (method_errors out)\<lparr>res_headers := security_headers @ res_headers (method_errors out)\<rparr>"
    using assms(1,2) p m
    by (auto simp: NewHandler_def securityHeaders_def validateAPIPathIDs_def jsonMethodErrors_def serves_def Let_def elim!: io_bind_InrE)
  moreover then have "method_errors out = out" using assms(4) by (auto simp: method_errors_def replaced_by_def split: if_splits)
  ultimately show ?thesis using that assms(4) by simp
qed

lemma account_view_csrf:
  assumes "account_view d csrf extra w = (Inr out, w')"
  shows "\<exists>ob. res_reply out = Value (JObj ob) \<and> map_of ob ''csrfToken'' = Some (JStr csrf) \<and> res_status out = 200"
  using assms
  by (auto simp: account_view_def ok_json_def written_def io_return_def elim!: io_bind_InrE)

lemma login_answer:
  fixes w w' :: "'a auth_world_scheme"
  assumes "api_login d vs ses r w = (Inr out, w')" and "res_status out = 200"
    and "res_cookie out = Some \<lparr>ck_value = token, ck_expires = Some expires, ck_secure = secure\<rparr>" and "res_reply out = Value (JObj ob)"
  shows "\<exists>username password session w1. tables w' = tables w1 \<and> expires = session_expires session \<and>
    Login (dep_sha256 d) (dep_argon d) (dep_ttl d) username password (sourceIP r) w = (Inr (token, session), w1) \<and>
    map_of ob ''csrfToken'' = Some (JStr (csrf_token session))"
proof -
  obtain username password where b: "sameOrigin r" "decode_strings [''username'', ''password''] (req_body r) = Some [username, password]"
    using assms(1,2) by (auto simp: api_login_def writeError_def written_def io_return_def split: if_splits option.splits list.splits)
  obtain x w1 where l: "Login (dep_sha256 d) (dep_argon d) (dep_ttl d) username password (sourceIP r) w = (x, w1)"
    by (cases "Login (dep_sha256 d) (dep_argon d) (dep_ttl d) username password (sourceIP r) w")
  have "\<exists>p. x = Inr p"
  proof (cases x)
    case (Inl e)
    then have False using assms(1,2) b l
      by (auto simp: api_login_def io_try_def writeError_def written_def io_return_def elim!: io_bind_InrE split: if_splits)
    then show ?thesis ..
  qed blast
  then obtain t session where x: "x = Inr (t, session)" by auto
  then obtain out0 where a: "account_view d (csrf_token session) [(''expiresAt'', JInt (session_expires session))] w1 = (Inr out0, w')"
    and o: "out = out0\<lparr>res_cookie := Some \<lparr>ck_value = t, ck_expires = Some (session_expires session), ck_secure = req_tls r\<rparr>\<rparr>"
    using assms(1) b l by (auto simp: api_login_def io_try_def io_return_def elim!: io_bind_InrE)
  have "tables w' = tables w1" using reads_onlyD [OF reads_only_account_view a] .
  then show ?thesis using account_view_csrf [OF a] o assms(3,4) l x by auto
qed

text \<open>C13: A login that is answered with 200 gives a cookie and a CSRF token with which, until the cookie expires and unless the
  query itself fails, a request reaches every guarded handler.\<close>

theorem login_admits:
  fixes w w' :: "'a auth_world_scheme" and v :: "'b db_scheme" and handler :: "('b db_scheme, 'c) handler"
  assumes "NewHandler (dep_sha256 d) (api_handlers d others) r w = (Inr res, w')" and "req_method r = ''POST''"
    and "req_escaped r = ''/api/v1/auth/login''" and "res_status res = 200"
    and "res_cookie res = Some \<lparr>ck_value = token, ck_expires = Some expires, ck_secure = secure\<rparr>"
    and "req_cookie q = Some token" and "res_reply res = Value (JObj ob)" and "map_of ob ''csrfToken'' = Some (JStr (hdr_csrf q))"
    and "tables v = tables w'" and "\<not> faulty v (Suc (calls v))" and "unix_seconds (clock_at v (calls v)) < expires"
  shows "\<exists>v'. tables v' = tables v \<and> requireAuth (dep_sha256 d) handler vs None q v = handler vs (Some (token, hdr_csrf q)) q v'"
proof -
  obtain out where l: "api_login d [] None r w = (Inr out, w')" and s: "res_status out = 200"
    and c: "res_cookie out = Some \<lparr>ck_value = token, ck_expires = Some expires, ck_secure = secure\<rparr>"
    and b: "res_reply out = Value (JObj ob)"
    using login_through_middleware [OF assms(1,2) assms(3) [folded login_path_def] assms(4)] assms(5,7) by metis
  obtain username password session w1 where L: "Login (dep_sha256 d) (dep_argon d) (dep_ttl d) username password (sourceIP r) w = (Inr (token, session), w1)"
    and t: "tables w' = tables w1" and e: "expires = session_expires session" and k: "map_of ob ''csrfToken'' = Some (JStr (csrf_token session))"
    using login_answer [OF l s c b] by blast
  have "fst (Authenticate (dep_sha256 d) token v) = Inr session"
    using login_authenticates [OF L _ assms(10)] assms(9,11) t e by simp
  then obtain v' where a: "Authenticate (dep_sha256 d) token v = (Inr session, v')" by (metis prod.collapse)
  moreover have "tables v' = tables v" using reads_onlyD [OF reads_only_Authenticate a] .
  moreover have "hdr_csrf q = csrf_token session" using assms(8) k by simp
  ultimately show ?thesis using assms(6) by (auto simp: requireAuth_def io_try_def)
qed


section \<open>A concrete panel\<close>

definition demo_deps :: api_deps where
  "demo_deps = \<lparr>dep_sealer = id, dep_sha256 = id, dep_argon = demo_argon, dep_ttl = 3600000000000, dep_yaml = (\<lambda>_. Inr []),
     dep_proxies = (\<lambda>_. Inr 0), dep_version = ''1.0.0'', dep_started = ''now'', file_server = (\<lambda>_. answer 404 Empty)\<rparr>"

definition demo_others :: "string \<Rightarrow> (auth_world, json) handler" where
  "demo_others name vs ses r = io_return (answer 204 Empty)"

definition demo_login_request :: "string \<Rightarrow> request" where
  "demo_login_request password = demo_request ''POST'' ''/api/v1/auth/login''
     (map (\<lambda>c. if c = CHR ''^'' then DQ else c) (''{^username^:^admin^,^password^:^'' @ password @ ''^}''))"

definition demo_signed_in :: "(error + json response) \<times> auth_world" where
  "demo_signed_in = NewHandler id (api_handlers demo_deps demo_others) (demo_login_request ''secret'') demo_auth"

text \<open>The next request of that client.\<close>

definition demo_follow :: "json response \<Rightarrow> request" where
  "demo_follow res = (demo_request ''POST'' ''/api/v1/nodes'' [])\<lparr>
     req_cookie := map_option ck_value (res_cookie res),
     hdr_csrf := (case res_reply res of Value (JObj ob) \<Rightarrow> (case map_of ob ''csrfToken'' of Some (JStr s) \<Rightarrow> s | _ \<Rightarrow> []) | _ \<Rightarrow> [])\<rparr>"

theorem anonymous_change_is_login_witness:
  "tables (snd (NewHandler id (api_handlers demo_deps demo_others) (demo_login_request ''guess'') demo_auth)) = demo_tables"
proof -
  have "req_cookie (demo_login_request ''guess'') = None" by (simp add: demo_login_request_def demo_request_def)
  then have a: "\<not> admitted (dep_sha256 demo_deps) (demo_login_request ''guess'') demo_auth" by (simp add: admitted_def)
  have t: "tables demo_auth = demo_tables" by (simp add: demo_auth_def)
  have "decode_strings [''username'', ''password''] (req_body (demo_login_request ''guess'')) = Some [''admin'', ''guess'']" by code_simp
  moreover have "\<not> names_administrator (dep_argon demo_deps) demo_tables ''admin'' ''guess''" by code_simp
  ultimately have "\<not> signs_in demo_deps (demo_login_request ''guess'') demo_tables" by (simp add: signs_in_def)
  moreover have "dep_sha256 demo_deps = id" by (simp add: demo_deps_def)
  ultimately show ?thesis
    using anonymous_change_is_login [OF a _ prod.collapse [symmetric]] demo_consistent by (simp add: t)
qed

theorem login_admits_witness:
  "\<exists>res v. demo_signed_in = (Inr res, v) \<and>
     fst (requireAuth id (demo_others ''createNode'') [] None (demo_follow res) v) = Inr (answer 204 Empty)"
proof -
  have e: "case demo_signed_in of (r, v) \<Rightarrow> \<not> isl r \<and> \<not> faulty v (Suc (calls v)) \<and> unix_seconds (clock_at v (calls v)) < 3600 \<and>
      res_status (projr r) = 200 \<and>
      (case res_cookie (projr r) of Some ck \<Rightarrow> ck_expires ck = Some 3600 | None \<Rightarrow> False) \<and>
      (case res_reply (projr r) of Value (JObj ob) \<Rightarrow>
         (case map_of ob ''csrfToken'' of Some (JStr s) \<Rightarrow> hdr_csrf (demo_follow (projr r)) = s | _ \<Rightarrow> False) | _ \<Rightarrow> False)"
    unfolding demo_signed_in_def by code_simp
  obtain r v where d: "demo_signed_in = (r, v)" by (cases demo_signed_in)
  note e' = e [unfolded d prod.case]
  obtain res where r: "r = Inr res" using e' by (cases r) auto
  obtain ck where c: "res_cookie res = Some ck" "ck_expires ck = Some 3600" using e' r by (cases "res_cookie res") auto
  obtain ob where b: "res_reply res = Value (JObj ob)" "map_of ob ''csrfToken'' = Some (JStr (hdr_csrf (demo_follow res)))"
    using e' r by (auto split: reply.splits json.splits option.splits)
  have s: "NewHandler (dep_sha256 demo_deps) (api_handlers demo_deps demo_others) (demo_login_request ''secret'') demo_auth = (Inr res, v)"
    using d r by (simp add: demo_signed_in_def demo_deps_def)
  have q: "req_method (demo_login_request ''secret'') = ''POST''" "req_escaped (demo_login_request ''secret'') = ''/api/v1/auth/login''"
    by (simp_all add: demo_login_request_def demo_request_def)
  have ck: "res_cookie res = Some \<lparr>ck_value = ck_value ck, ck_expires = Some 3600, ck_secure = ck_secure ck\<rparr>" using c by simp
  have f: "req_cookie (demo_follow res) = Some (ck_value ck)" using c by (simp add: demo_follow_def)
  obtain v' :: auth_world where "requireAuth (dep_sha256 demo_deps) (demo_others ''createNode'') [] None (demo_follow res) v =
      demo_others ''createNode'' [] (Some (ck_value ck, hdr_csrf (demo_follow res))) (demo_follow res) v'"
    using login_admits [OF s q _ ck f b refl, of "demo_others ''createNode''" "[]"] e' r by auto
  then show ?thesis using d r by (intro exI [of _ res] exI [of _ v]) (simp add: demo_others_def demo_deps_def io_return_def)
qed

end
