(* ===== verification/ApiNodes.thy ===== *)
theory ApiNodes
  imports ApiHandlers NodeHandlers
begin

text \<open>
  The node handlers of \<open>internal/api/handler.go\<close> with the gate in front of them: a VLESS-WS node needs a verified
  HTTPS entry, an Argo node a verified Cloudflare Tunnel. Both verifiers are functions the installation provides; the
  certificate check is the one of the node service. What \<open>writeJSON\<close> is given is kept as the value it is.
\<close>

section \<open>The record of what was verified\<close>

record prerequisites =
  https_enabled :: bool
  https_domain :: string
  https_verified :: string
  https_simulated :: bool
  tunnel_enabled :: bool
  tunnel_domain :: string
  tunnel_port :: int
  tunnel_verified :: string
  tunnel_simulated :: bool
  cert_mode :: string
  cert_path :: string
  cert_key :: string
  cert_ready :: bool
  cert_name :: string

definition no_prerequisites :: prerequisites where
  "no_prerequisites = \<lparr>https_enabled = False, https_domain = [], https_verified = [], https_simulated = False, tunnel_enabled = False,
     tunnel_domain = [], tunnel_port = 0, tunnel_verified = [], tunnel_simulated = False, cert_mode = [], cert_path = [], cert_key = [],
     cert_ready = False, cert_name = []\<rparr>"

text \<open>The fields in their order, with the condition under which \<open>omitempty\<close> keeps them.\<close>

definition prerequisite_fields :: "prerequisites \<Rightarrow> (bool \<times> string \<times> json) list" where
  "prerequisite_fields p =
     [(True, ''httpsIngressEnabled'', JBool (https_enabled p)), (True, ''httpsIngressDomain'', JStr (https_domain p)),
      (https_verified p \<noteq> [], ''httpsIngressVerifiedAt'', JStr (https_verified p)),
      (https_simulated p, ''httpsIngressSimulated'', JBool True),
      (True, ''cloudflareTunnelEnabled'', JBool (tunnel_enabled p)), (True, ''cloudflareTunnelDomain'', JStr (tunnel_domain p)),
      (tunnel_port p \<noteq> 0, ''cloudflareTunnelOriginPort'', JInt (tunnel_port p)),
      (tunnel_verified p \<noteq> [], ''cloudflareTunnelVerifiedAt'', JStr (tunnel_verified p)),
      (tunnel_simulated p, ''cloudflareTunnelSimulated'', JBool True),
      (True, ''certificateMode'', JStr (cert_mode p)),
      (cert_path p \<noteq> [], ''certificatePath'', JStr (cert_path p)), (cert_key p \<noteq> [], ''certificateKeyPath'', JStr (cert_key p)),
      (True, ''certificateReady'', JBool (cert_ready p)), (cert_name p \<noteq> [], ''certificateServerName'', JStr (cert_name p))]"

definition kept_fields :: "(bool \<times> string \<times> json) list \<Rightarrow> obj" where
  "kept_fields fs = map snd (filter fst fs)"

definition prerequisites_obj :: "prerequisites \<Rightarrow> obj" where
  "prerequisites_obj p = kept_fields (prerequisite_fields p)"

definition prerequisites_of :: "obj \<Rightarrow> error + prerequisites" where
  "prerequisites_of ob =
     sum_bind (field_bool ob ''httpsIngressEnabled'') (\<lambda>he. sum_bind (field_string ob ''httpsIngressDomain'') (\<lambda>hd.
     sum_bind (field_string ob ''httpsIngressVerifiedAt'') (\<lambda>hv. sum_bind (field_bool ob ''httpsIngressSimulated'') (\<lambda>hs.
     sum_bind (field_bool ob ''cloudflareTunnelEnabled'') (\<lambda>te. sum_bind (field_string ob ''cloudflareTunnelDomain'') (\<lambda>td.
     sum_bind (field_int ob ''cloudflareTunnelOriginPort'') (\<lambda>tp. sum_bind (field_string ob ''cloudflareTunnelVerifiedAt'') (\<lambda>tv.
     sum_bind (field_bool ob ''cloudflareTunnelSimulated'') (\<lambda>ts. sum_bind (field_string ob ''certificateMode'') (\<lambda>cm.
     sum_bind (field_string ob ''certificatePath'') (\<lambda>cp. sum_bind (field_string ob ''certificateKeyPath'') (\<lambda>ck.
     sum_bind (field_bool ob ''certificateReady'') (\<lambda>cr. sum_bind (field_string ob ''certificateServerName'') (\<lambda>cn.
     Inr \<lparr>https_enabled = he, https_domain = hd, https_verified = hv, https_simulated = hs, tunnel_enabled = te,
       tunnel_domain = td, tunnel_port = tp, tunnel_verified = tv, tunnel_simulated = ts, cert_mode = cm, cert_path = cp, cert_key = ck,
       cert_ready = cr, cert_name = cn\<rparr>))))))))))))))"

definition decode_prerequisites :: "string \<Rightarrow> error + prerequisites" where
  "decode_prerequisites s = (if s = [] then Inr no_prerequisites
     else case json_parse s of
         Some JNull \<Rightarrow> Inr no_prerequisites
       | Some (JObj ob) \<Rightarrow> prerequisites_of ob
       | _ \<Rightarrow> Inl unmarshal_error)"

text \<open>The mode, the certificate and the key of \<open>certificate_defaults\<close>; what cannot be read is passed over.\<close>

definition decode_defaults :: "string \<Rightarrow> (string \<times> string \<times> string) option" where
  "decode_defaults s = (case json_parse s of
      Some JNull \<Rightarrow> Some ([], [], [])
    | Some (JObj ob) \<Rightarrow> (case (field_string ob ''mode'', field_string ob ''certificatePath'', field_string ob ''keyPath'') of
          (Inr mode, Inr certificate, Inr key) \<Rightarrow> Some (mode, certificate, key) | _ \<Rightarrow> None)
    | _ \<Rightarrow> None)"

definition with_defaults :: "error + string \<Rightarrow> prerequisites \<Rightarrow> prerequisites" where
  "with_defaults stored p =
     (let p = (case stored of Inl _ \<Rightarrow> p | Inr s \<Rightarrow> (case decode_defaults s of
                  None \<Rightarrow> p | Some (mode, certificate, key) \<Rightarrow> p\<lparr>cert_mode := mode, cert_path := certificate, cert_key := key\<rparr>))
      in if cert_mode p \<noteq> ''manual'' then p\<lparr>cert_mode := ''auto'', cert_path := [], cert_key := []\<rparr> else p)"

section \<open>The gate\<close>

record 'w node_gate =
  gate_mock :: bool
  gate_https :: "(string \<Rightarrow> ('w, unit) io) option"
  gate_tunnel :: "(string \<Rightarrow> int \<Rightarrow> ('w, int) io) option"
  gate_nodes :: "'w node_service"

definition VerifyAutomaticCertificate :: "'a node_world_scheme node_service \<Rightarrow> string \<Rightarrow> ('a node_world_scheme, unit) io" where
  "VerifyAutomaticCertificate s host = io_bind (prepareAutomaticCertificate (svc_certs s) ProtocolVLESSWSTLS
     [(''server_name'', JStr host), (''certificate_mode'', JStr ''auto'')]) (\<lambda>_. io_return ())"

definition VerifyCertificate :: "'a node_world_scheme node_service \<Rightarrow> string \<Rightarrow> string \<Rightarrow> string \<Rightarrow> ('a node_world_scheme, unit) io" where
  "VerifyCertificate s host certificate key = validateCertificateSettings (tls (svc_certs s))
     [(''server_name'', JStr host), (''certificate_path'', JStr certificate), (''key_path'', JStr key)]"

definition certificate_host :: "prerequisites \<Rightarrow> ('a db_scheme, string) io" where
  "certificate_host p = io_bind (value_or_empty (Setting ''management_host'')) (\<lambda>host.
     if host \<noteq> [] then io_return host
     else if https_domain p \<noteq> [] then io_return (https_domain p)
     else value_or_empty (Setting ''public_host''))"

definition with_certificate :: "'a node_world_scheme node_service \<Rightarrow> string \<Rightarrow> prerequisites \<Rightarrow> ('a node_world_scheme, prerequisites) io" where
  "with_certificate s host p = (if host = [] then io_return p
     else io_bind (succeeds (if cert_mode p = ''auto'' then VerifyAutomaticCertificate s host
         else VerifyCertificate s host (cert_path p) (cert_key p))) (\<lambda>ready.
       io_return (p\<lparr>cert_ready := ready, cert_name := (if ready then host else cert_name p)\<rparr>)))"

text \<open>What was only ticked in an older release, or verified by the mock, unlocks nothing.\<close>

definition only_verified :: "bool \<Rightarrow> prerequisites \<Rightarrow> prerequisites" where
  "only_verified mock p =
     p\<lparr>https_enabled := https_enabled p \<and> \<not> (https_verified p = [] \<or> \<not> mock \<and> https_simulated p),
       tunnel_enabled := tunnel_enabled p \<and> \<not> (tunnel_verified p = [] \<or> \<not> mock \<and> tunnel_simulated p)\<rparr>"

definition protocolPrerequisites :: "'a node_world_scheme node_gate \<Rightarrow> ('a node_world_scheme, prerequisites) io" where
  "protocolPrerequisites g = io_try (Setting ''protocol_prerequisites'') (\<lambda>r.
     io_bind (case r of
         Inl e \<Rightarrow> if error_is Store.ErrNoRows e then io_return no_prerequisites else io_fail e
       | Inr s \<Rightarrow> io_of (decode_prerequisites s)) (\<lambda>p.
     io_try (Setting ''certificate_defaults'') (\<lambda>stored.
     let p = with_defaults stored p
     in io_bind (certificate_host p) (\<lambda>host. io_bind (with_certificate (gate_nodes g) host p) (\<lambda>p.
        io_return (only_verified (gate_mock g) p))))))"

definition gated :: "string \<Rightarrow> bool" where
  "gated proto \<longleftrightarrow> proto = ProtocolVLESSWSTLS \<or> proto = ProtocolVLESSArgo"

definition expected_domain :: "string \<Rightarrow> prerequisites \<Rightarrow> string" where
  "expected_domain proto p = (if proto = ProtocolVLESSArgo then tunnel_domain p else https_domain p)"

definition unlocked :: "string \<Rightarrow> prerequisites \<Rightarrow> bool" where
  "unlocked proto p \<longleftrightarrow> (if proto = ProtocolVLESSArgo then tunnel_enabled p else https_enabled p)"

definition revoked :: "string \<Rightarrow> prerequisites \<Rightarrow> prerequisites" where
  "revoked proto p = (if proto = ProtocolVLESSArgo then p\<lparr>tunnel_enabled := False, tunnel_port := 0, tunnel_verified := []\<rparr>
     else p\<lparr>https_enabled := False, https_verified := []\<rparr>)"

definition store_prerequisites :: "prerequisites \<Rightarrow> ('a db_scheme, unit) io" where
  "store_prerequisites p = SetSetting ''protocol_prerequisites'' (json_print (JObj (prerequisites_obj p)))"

text \<open>The verifier of the protocol, asked now: the port of the tunnel, or nothing of interest.\<close>

definition verify_now :: "'w node_gate \<Rightarrow> string \<Rightarrow> prerequisites \<Rightarrow> ('w, int option) io option" where
  "verify_now g proto p = (if proto = ProtocolVLESSArgo
     then map_option (\<lambda>v. io_bind (v (tunnel_domain p) (tunnel_port p)) (\<lambda>origin. io_return (Some origin))) (gate_tunnel g)
     else map_option (\<lambda>v. io_bind (v (https_domain p)) (\<lambda>_. io_return None)) (gate_https g))"

definition gate_conflict :: "string \<Rightarrow> error" where
  "gate_conflict code = problem_New Conflict code None"

definition checkProtocolPrerequisite ::
    "'a node_world_scheme node_gate \<Rightarrow> string \<Rightarrow> string \<Rightarrow> int \<Rightarrow> ('a node_world_scheme, unit) io" where
  "checkProtocolPrerequisite g proto name nodePort =
     (if gate_mock g \<or> \<not> gated proto then io_return ()
      else if proto = ProtocolVLESSWSTLS \<and> \<not> CloudflareHTTPSPort nodePort then io_fail (gate_conflict ''unsupported_websocket_port'')
      else io_bind (io_map_error (\<lambda>e. problem_New Internal ''setting_failed'' (Some e)) (protocolPrerequisites g)) (\<lambda>p.
        if \<not> unlocked proto p \<or> expected_domain proto p = [] then io_fail (gate_conflict ''protocol_prerequisite_missing'')
        else if \<not> equal_fold (trim_space name) (expected_domain proto p) then io_fail (gate_conflict ''protocol_domain_mismatch'')
        else case verify_now g proto p of
            None \<Rightarrow> io_fail (problem_New Internal ''prerequisite_check_unavailable'' None)
          | Some verify \<Rightarrow> io_try verify (\<lambda>r. case r of
                Inr (Some origin) \<Rightarrow> if origin \<noteq> nodePort then io_fail (gate_conflict ''tunnel_origin_mismatch'') else io_return ()
              | Inr None \<Rightarrow> io_return ()
              | Inl e \<Rightarrow> io_try (store_prerequisites (revoked proto p)) (\<lambda>_.
                  io_fail (problem_New Conflict ''prerequisite_check_failed'' (Some e))))))"

definition protocolPrerequisiteInUse :: "'a node_world_scheme node_gate \<Rightarrow> string \<Rightarrow> ('a node_world_scheme, bool) io" where
  "protocolPrerequisiteInUse g target = io_bind (List_nodes (gate_nodes g)) (\<lambda>ns.
     io_return (list_ex (\<lambda>n. node_enabled n \<and> protocol n = (if target = ''https'' then ProtocolVLESSWSTLS else ProtocolVLESSArgo)) ns))"

definition nodeServerName :: "obj \<Rightarrow> string" where
  "nodeServerName st = trim_space (case map_of st ''server_name'' of Some (JStr s) \<Rightarrow> s | _ \<Rightarrow> [])"


section \<open>Bodies and answers\<close>

datatype api_body = Document obj | NodeBody node_view | NodesBody "node_view list" | OutboundBody outbound | OutboundsBody "outbound list"
  | ClientBody client | ClientsBody "client list" | PortsBody port_settings | LandingBody landing_view | RulesBody rules_view
  | PrerequisitesBody prerequisites

definition answered :: "nat \<Rightarrow> ('x \<Rightarrow> api_body) \<Rightarrow> ('w, 'x) io \<Rightarrow> ('w, api_body response) io" where
  "answered status body m = io_try m (\<lambda>r. io_return (case r of
      Inl e \<Rightarrow> writeServiceError e | Inr x \<Rightarrow> written status (Value (body x))))"

definition listed :: "('x \<Rightarrow> api_body) \<Rightarrow> ('w, 'x) io \<Rightarrow> ('w, api_body response) io" where
  "listed body m = io_try m (\<lambda>r. io_return (case r of Inl e \<Rightarrow> writeInternal | Inr x \<Rightarrow> written 200 (Value (body x))))"

definition removed :: "('w, unit) io \<Rightarrow> ('w, api_body response) io" where
  "removed m = io_try m (\<lambda>r. io_return (case r of Inl e \<Rightarrow> writeServiceError e | Inr _ \<Rightarrow> answer 204 Empty))"

definition with_body :: "(string \<Rightarrow> 'x option) \<Rightarrow> request \<Rightarrow> ('x \<Rightarrow> ('w, 'b response) io) \<Rightarrow> ('w, 'b response) io" where
  "with_body decode r k = (case decode (req_body r) of None \<Rightarrow> io_return (writeError 400 ''invalid_json'') | Some x \<Rightarrow> k x)"

definition field_object :: "obj \<Rightarrow> string \<Rightarrow> error + obj" where
  "field_object ob name = (case json_member ob name of
      JObj kvs \<Rightarrow> Inr (foldl (\<lambda>m (k, v). obj_set k v m) [] kvs) | JNull \<Rightarrow> Inr [] | _ \<Rightarrow> Inl unmarshal_error)"

definition field_reference :: "obj \<Rightarrow> string \<Rightarrow> error + int option" where
  "field_reference ob name = (case json_member ob name of
      JInt n \<Rightarrow> Inr (Some n) | JNull \<Rightarrow> Inr None | _ \<Rightarrow> Inl unmarshal_error)"

definition field_strings :: "obj \<Rightarrow> string \<Rightarrow> error + string list" where
  "field_strings ob name = (case json_member ob name of
      JList vs \<Rightarrow> decode_all decode_string vs | JNull \<Rightarrow> Inr [] | _ \<Rightarrow> Inl unmarshal_error)"

definition decoded :: "string list \<Rightarrow> (obj \<Rightarrow> error + 'x) \<Rightarrow> string \<Rightarrow> 'x option" where
  "decoded names decode body = (case decodeJSON names body of None \<Rightarrow> None
     | Some ob \<Rightarrow> (case decode ob of Inl e \<Rightarrow> None | Inr x \<Rightarrow> Some x))"

definition decode_create :: "string \<Rightarrow> create_input option" where
  "decode_create = decoded [''name'', ''protocol'', ''listen'', ''port'', ''enabled'', ''clientName'', ''credential'', ''publicHostOverride'',
       ''settings'', ''confirmPublicSocks'', ''outboundId''] (\<lambda>ob.
     sum_bind (field_string ob ''name'') (\<lambda>name. sum_bind (field_string ob ''protocol'') (\<lambda>proto.
     sum_bind (field_string ob ''listen'') (\<lambda>listenAt. sum_bind (field_int ob ''port'') (\<lambda>p.
     sum_bind (field_bool ob ''enabled'') (\<lambda>enabled. sum_bind (field_string ob ''clientName'') (\<lambda>clientName.
     sum_bind (field_object ob ''credential'') (\<lambda>cred. sum_bind (field_string ob ''publicHostOverride'') (\<lambda>host.
     sum_bind (field_object ob ''settings'') (\<lambda>st. sum_bind (field_bool ob ''confirmPublicSocks'') (\<lambda>confirm.
     sum_bind (field_reference ob ''outboundId'') (\<lambda>out.
     Inr \<lparr>ci_name = name, ci_protocol = proto, ci_listen = listenAt, ci_port = p, ci_enabled = enabled, ci_client = clientName,
       ci_credential = cred, ci_host = host, ci_settings = st, ci_confirm = confirm, ci_outbound = out\<rparr>))))))))))))"

definition decode_update :: "string \<Rightarrow> update_input option" where
  "decode_update = decoded [''name'', ''listen'', ''port'', ''enabled'', ''publicHostOverride'', ''settings'', ''confirmPublicSocks'', ''outboundId''] (\<lambda>ob.
     sum_bind (field_string ob ''name'') (\<lambda>name. sum_bind (field_string ob ''listen'') (\<lambda>listenAt.
     sum_bind (field_int ob ''port'') (\<lambda>p. sum_bind (field_bool ob ''enabled'') (\<lambda>enabled.
     sum_bind (field_string ob ''publicHostOverride'') (\<lambda>host. sum_bind (field_object ob ''settings'') (\<lambda>st.
     sum_bind (field_bool ob ''confirmPublicSocks'') (\<lambda>confirm. sum_bind (field_reference ob ''outboundId'') (\<lambda>out.
     Inr \<lparr>ui_name = name, ui_listen = listenAt, ui_port = p, ui_enabled = enabled, ui_host = host, ui_settings = st,
       ui_confirm = confirm, ui_outbound = out\<rparr>)))))))))"

definition decode_outbound :: "string \<Rightarrow> outbound_input option" where
  "decode_outbound = decoded [''name'', ''type'', ''server'', ''port'', ''enabled'', ''username'', ''password'', ''credentialMode''] (\<lambda>ob.
     sum_bind (field_string ob ''name'') (\<lambda>name. sum_bind (field_string ob ''type'') (\<lambda>kind.
     sum_bind (field_string ob ''server'') (\<lambda>server. sum_bind (field_int ob ''port'') (\<lambda>p.
     sum_bind (field_bool ob ''enabled'') (\<lambda>enabled. sum_bind (field_string ob ''username'') (\<lambda>username.
     sum_bind (field_string ob ''password'') (\<lambda>password. sum_bind (field_string ob ''credentialMode'') (\<lambda>mode.
     Inr \<lparr>oi_name = name, oi_type = kind, oi_server = server, oi_port = p, oi_enabled = enabled, oi_username = username,
       oi_password = password, CredentialMode = mode\<rparr>)))))))))"

section \<open>The handlers\<close>

definition getProtocolPrerequisites :: "'a node_world_scheme node_gate \<Rightarrow> ('a node_world_scheme, api_body) handler" where
  "getProtocolPrerequisites g vs ses r = io_try (protocolPrerequisites g) (\<lambda>res. io_return (case res of
      Inl e \<Rightarrow> writeError 500 ''setting_failed'' | Inr p \<Rightarrow> written 200 (Value (PrerequisitesBody p))))"

record prerequisite_update =
  pu_target :: string
  pu_action :: string
  pu_domain :: string
  pu_port :: int

definition decode_prerequisite_update :: "string \<Rightarrow> prerequisite_update option" where
  "decode_prerequisite_update = decoded [''target'', ''action'', ''domain'', ''originPort''] (\<lambda>ob.
     sum_bind (field_string ob ''target'') (\<lambda>target. sum_bind (field_string ob ''action'') (\<lambda>action.
     sum_bind (field_string ob ''domain'') (\<lambda>domain. sum_bind (field_int ob ''originPort'') (\<lambda>p.
     Inr \<lparr>pu_target = target, pu_action = action, pu_domain = domain, pu_port = p\<rparr>)))))"

definition cleared_prerequisites :: "string \<Rightarrow> prerequisites \<Rightarrow> prerequisites" where
  "cleared_prerequisites target p = (if target = ''https''
     then p\<lparr>https_enabled := False, https_domain := [], https_verified := [], https_simulated := False\<rparr>
     else p\<lparr>tunnel_enabled := False, tunnel_domain := [], tunnel_port := 0, tunnel_verified := [], tunnel_simulated := False\<rparr>)"

definition verified_prerequisites :: "bool \<Rightarrow> string \<Rightarrow> string \<Rightarrow> int \<Rightarrow> string \<Rightarrow> prerequisites \<Rightarrow> prerequisites" where
  "verified_prerequisites mock target domain origin verifiedAt p = (if target = ''https''
     then p\<lparr>https_enabled := True, https_domain := domain, https_verified := verifiedAt, https_simulated := mock\<rparr>
     else p\<lparr>tunnel_enabled := True, tunnel_domain := domain, tunnel_port := origin, tunnel_verified := verifiedAt, tunnel_simulated := mock\<rparr>)"

text \<open>The verifier for a target: it answers the port of the tunnel, the mock the one that was entered.\<close>

definition target_verifier :: "'w node_gate \<Rightarrow> string \<Rightarrow> string \<Rightarrow> int \<Rightarrow> ('w, int) io option" where
  "target_verifier g target domain p = (if gate_mock g then Some (io_return p)
     else if target = ''https'' then map_option (\<lambda>v. io_bind (v domain) (\<lambda>_. io_return p)) (gate_https g)
     else map_option (\<lambda>v. v domain p) (gate_tunnel g))"

definition save_prerequisites :: "prerequisites \<Rightarrow> ('a db_scheme, api_body response) io" where
  "save_prerequisites p = io_try (store_prerequisites p) (\<lambda>res. io_return (case res of
      Inl e \<Rightarrow> writeError 500 ''setting_failed'' | Inr _ \<Rightarrow> written 200 (Value (PrerequisitesBody p))))"

text \<open>What no enabled node of the target's protocol depends on may be changed.\<close>

definition unless_in_use :: "'a node_world_scheme node_gate \<Rightarrow> string \<Rightarrow> ('a node_world_scheme, api_body response) io \<Rightarrow>
    ('a node_world_scheme, api_body response) io" where
  "unless_in_use g target k = io_try (protocolPrerequisiteInUse g target) (\<lambda>res. case res of
      Inl e \<Rightarrow> io_return (writeServiceError e)
    | Inr used \<Rightarrow> if used then io_return (writeError 409 ''prerequisite_in_use'') else k)"

definition verify_prerequisite :: "'a node_world_scheme node_gate \<Rightarrow> prerequisite_update \<Rightarrow> prerequisites \<Rightarrow>
    ('a node_world_scheme, api_body response) io" where
  "verify_prerequisite g u p = (case normalizeHost (pu_domain u) of
      Inl e \<Rightarrow> io_return (writeError 400 ''invalid_prerequisite_domain'')
    | Inr domain \<Rightarrow>
        if parse_ip domain \<noteq> None \<or> CHR ''.'' \<notin> set domain then io_return (writeError 400 ''invalid_prerequisite_domain'')
        else if pu_target u = ''cloudflare'' \<and> pu_port u \<noteq> 0 \<and> (pu_port u < 1 \<or> 65535 < pu_port u)
        then io_return (writeError 400 ''invalid_origin_port'')
        else (let current = (if pu_target u = ''https'' then https_domain p else tunnel_domain p);
             check = (case target_verifier g (pu_target u) domain (pu_port u) of
                 None \<Rightarrow> io_return (writeError 500 ''prerequisite_check_unavailable'')
               | Some verify \<Rightarrow> io_try verify (\<lambda>res. case res of
                     Inl e \<Rightarrow> io_return (writeError 409 ''prerequisite_check_failed'')
                   | Inr origin \<Rightarrow> io_bind time_now (\<lambda>now.
                       save_prerequisites (verified_prerequisites (gate_mock g) (pu_target u) domain origin (format_rfc3339 now) p))))
           in if current \<noteq> [] \<and> \<not> equal_fold current domain then unless_in_use g (pu_target u) check else check))"

definition setProtocolPrerequisites :: "'a node_world_scheme node_gate \<Rightarrow> ('a node_world_scheme, api_body) handler" where
  "setProtocolPrerequisites g vs ses r = with_body decode_prerequisite_update r (\<lambda>u.
     if pu_target u \<noteq> ''https'' \<and> pu_target u \<noteq> ''cloudflare'' then io_return (writeError 400 ''invalid_prerequisite_target'')
     else io_try (protocolPrerequisites g) (\<lambda>res. case res of
         Inl e \<Rightarrow> io_return (writeError 500 ''setting_failed'')
       | Inr p \<Rightarrow>
           if pu_action u = ''clear'' then unless_in_use g (pu_target u) (save_prerequisites (cleared_prerequisites (pu_target u) p))
           else if pu_action u = ''verify'' then verify_prerequisite g u p
           else io_return (writeError 400 ''invalid_prerequisite_action'')))"

text \<open>\<open>requireProtocolPrerequisite\<close>.\<close>

definition behind_gate :: "'a node_world_scheme node_gate \<Rightarrow> string \<Rightarrow> obj \<Rightarrow> int \<Rightarrow> ('a node_world_scheme, api_body response) io \<Rightarrow>
    ('a node_world_scheme, api_body response) io" where
  "behind_gate g proto st p k = io_try (checkProtocolPrerequisite g proto (nodeServerName st) p) (\<lambda>res. case res of
      Inl e \<Rightarrow> io_return (writeServiceError e) | Inr _ \<Rightarrow> k)"

definition createNode :: "'a node_world_scheme node_gate \<Rightarrow> ('a node_world_scheme, api_body) handler" where
  "createNode g vs ses r = with_body decode_create r (\<lambda>i. behind_gate g (ci_protocol i) (ci_settings i) (ci_port i)
     (answered 201 NodeBody (Create (gate_nodes g) i)))"

definition getNode :: "'a node_world_scheme node_gate \<Rightarrow> ('a node_world_scheme, api_body) handler" where
  "getNode g vs ses r = answered 200 NodeBody (Get (gate_nodes g) (pathID vs ''id''))"

definition updateNode :: "'a node_world_scheme node_gate \<Rightarrow> ('a node_world_scheme, api_body) handler" where
  "updateNode g vs ses r = with_body decode_update r (\<lambda>i.
     let change = answered 200 NodeBody (Update (gate_nodes g) (pathID vs ''id'') i)
     in if \<not> ui_enabled i then change
        else io_try (Get (gate_nodes g) (pathID vs ''id'')) (\<lambda>res. case res of
            Inl e \<Rightarrow> io_return (writeServiceError e)
          | Inr current \<Rightarrow> behind_gate g (protocol current) (ui_settings i) (ui_port i) change))"

definition deleteNode :: "'a node_world_scheme node_gate \<Rightarrow> ('a node_world_scheme, api_body) handler" where
  "deleteNode g vs ses r = removed (Delete (gate_nodes g) (pathID vs ''id''))"

definition setNodeEnabled :: "'a node_world_scheme node_gate \<Rightarrow> bool \<Rightarrow> ('a node_world_scheme, api_body) handler" where
  "setNodeEnabled g enabled vs ses r =
     (let change = answered 200 NodeBody (SetEnabled (gate_nodes g) (pathID vs ''id'') enabled)
      in if \<not> enabled then change
         else io_try (Get (gate_nodes g) (pathID vs ''id'')) (\<lambda>res. case res of
             Inl e \<Rightarrow> io_return (writeServiceError e)
           | Inr current \<Rightarrow> behind_gate g (protocol current) (settings current) (port current) change))"

definition cloneNode :: "'a node_world_scheme node_gate \<Rightarrow> ('a node_world_scheme, api_body) handler" where
  "cloneNode g vs ses r = answered 201 NodeBody (Clone (gate_nodes g) (pathID vs ''id''))"

definition listNodes :: "'a node_world_scheme node_gate \<Rightarrow> ('a node_world_scheme, api_body) handler" where
  "listNodes g vs ses r = listed NodesBody (List_nodes (gate_nodes g))"

definition getNodeStartPort :: "'a node_world_scheme node_gate \<Rightarrow> ('a node_world_scheme, api_body) handler" where
  "getNodeStartPort g vs ses r = answered 200 PortsBody (PortSettings (gate_nodes g))"

definition setNodeStartPort :: "'a node_world_scheme node_gate \<Rightarrow> ('a node_world_scheme, api_body) handler" where
  "setNodeStartPort g vs ses r = with_body (decoded [''startPort''] (\<lambda>ob. field_int ob ''startPort'')) r (\<lambda>p.
     answered 200 PortsBody (SetStartPort (gate_nodes g) p))"

definition listOutbounds :: "'a node_world_scheme node_gate \<Rightarrow> ('a node_world_scheme, api_body) handler" where
  "listOutbounds g vs ses r = listed OutboundsBody (ListOutbounds (svc_sealer (gate_nodes g)))"

definition createOutbound :: "'a node_world_scheme node_gate \<Rightarrow> ('a node_world_scheme, api_body) handler" where
  "createOutbound g vs ses r = with_body decode_outbound r (\<lambda>i. answered 201 OutboundBody (Service_CreateOutbound (gate_nodes g) i))"

definition updateOutbound :: "'a node_world_scheme node_gate \<Rightarrow> ('a node_world_scheme, api_body) handler" where
  "updateOutbound g vs ses r = with_body decode_outbound r (\<lambda>i.
     answered 200 OutboundBody (Service_UpdateOutbound (gate_nodes g) (pathID vs ''id'') i))"

definition deleteOutbound :: "'a node_world_scheme node_gate \<Rightarrow> ('a node_world_scheme, api_body) handler" where
  "deleteOutbound g vs ses r = removed (Service_DeleteOutbound (gate_nodes g) (pathID vs ''id''))"

definition checkOutbound :: "'a node_world_scheme node_gate \<Rightarrow> ('a node_world_scheme, api_body) handler" where
  "checkOutbound g vs ses r = answered 200 OutboundBody (CheckOutbound (gate_nodes g) (pathID vs ''id''))"

definition listClients :: "'a node_world_scheme node_gate \<Rightarrow> ('a node_world_scheme, api_body) handler" where
  "listClients g vs ses r = answered 200 ClientsBody (Service_Clients (gate_nodes g) (pathID vs ''id''))"

definition createClient :: "'a node_world_scheme node_gate \<Rightarrow> ('a node_world_scheme, api_body) handler" where
  "createClient g vs ses r = with_body (decoded [''name''] (\<lambda>ob. field_string ob ''name'')) r (\<lambda>name.
     answered 201 ClientBody (AddClient (gate_nodes g) (pathID vs ''id'') name))"

definition updateClient :: "'a node_world_scheme node_gate \<Rightarrow> ('a node_world_scheme, api_body) handler" where
  "updateClient g vs ses r = with_body (decoded [''name'', ''enabled''] (\<lambda>ob. sum_bind (field_string ob ''name'') (\<lambda>name.
       sum_bind (field_bool ob ''enabled'') (\<lambda>enabled. Inr (name, enabled))))) r (\<lambda>(name, enabled).
     removed (Service_UpdateClient (gate_nodes g) (pathID vs ''id'') (pathID vs ''clientId'') name enabled False))"

definition deleteClient :: "'a node_world_scheme node_gate \<Rightarrow> ('a node_world_scheme, api_body) handler" where
  "deleteClient g vs ses r = removed (Service_DeleteClient (gate_nodes g) (pathID vs ''id'') (pathID vs ''clientId''))"

text \<open>\<open>subs\<close> is the store of the subscription service.\<close>

definition resetClient :: "'a node_world_scheme node_gate \<Rightarrow> ('a node_world_scheme) sub_store \<Rightarrow> ('a node_world_scheme, api_body) handler" where
  "resetClient g subs vs ses r = io_try (Service_Clients (gate_nodes g) (pathID vs ''id'')) (\<lambda>res. case res of
      Inl e \<Rightarrow> io_return (writeServiceError e)
    | Inr cs \<Rightarrow> (case find (\<lambda>c. client_id c = pathID vs ''clientId'') cs of
          None \<Rightarrow> io_return (writeError 404 ''not_found'')
        | Some c \<Rightarrow> answered 200 (\<lambda>uri. Document [(''uri'', JStr uri)])
            (io_bind (Service_UpdateClient (gate_nodes g) (client_node c) (client_id c) (client_name c) (client_enabled c) True) (\<lambda>_.
             ClientURI subs (client_node c) (client_id c)))))"

definition getLanding :: "'a node_world_scheme node_gate \<Rightarrow> ('a node_world_scheme, api_body) handler" where
  "getLanding g vs ses r = listed LandingBody (Landing_view (gate_nodes g))"

definition setLanding :: "'a node_world_scheme node_gate \<Rightarrow> ('a node_world_scheme, api_body) handler" where
  "setLanding g vs ses r = with_body (decoded [''enabled'', ''inboundId'', ''details''] (\<lambda>ob. sum_bind (field_bool ob ''enabled'') (\<lambda>enabled.
       sum_bind (field_int ob ''inboundId'') (\<lambda>inbound. sum_bind (field_string ob ''details'') (\<lambda>details.
       Inr \<lparr>li_enabled = enabled, li_inbound = inbound, li_details = details\<rparr>))))) r (\<lambda>i.
     answered 200 LandingBody (SetLanding (gate_nodes g) i))"

definition getLandingRules :: "'a node_world_scheme node_gate \<Rightarrow> ('a node_world_scheme, api_body) handler" where
  "getLandingRules g vs ses r = listed RulesBody (LandingRules (gate_nodes g))"

definition setLandingRules :: "'a node_world_scheme node_gate \<Rightarrow> ('a node_world_scheme, api_body) handler" where
  "setLandingRules g vs ses r = with_body (decoded [''include'', ''exclude''] (\<lambda>ob. sum_bind (field_strings ob ''include'') (\<lambda>include.
       sum_bind (field_strings ob ''exclude'') (\<lambda>exclude. Inr (include, exclude))))) r (\<lambda>(include, exclude).
     answered 200 RulesBody (SetLandingRules (gate_nodes g) include exclude))"

definition refreshLandingRules :: "'a node_world_scheme node_gate \<Rightarrow> (string \<Rightarrow> ('a node_world_scheme, ai_domains \<times> string) io) \<Rightarrow>
    ('a node_world_scheme, api_body) handler" where
  "refreshLandingRules g fetch vs ses r = with_body (decoded [''sourceUrl''] (\<lambda>ob. field_string ob ''sourceUrl'')) r (\<lambda>url.
     answered 200 RulesBody (UpdateLandingRuleSource (gate_nodes g) fetch url))"

end
