(* ===== verification/ApiNodeLaws.thy ===== *)
theory ApiNodeLaws
  imports ApiNodes NodeDemo
begin

text \<open>
  The gate in front of the node handlers: without a verification that succeeds in the same request, no VLESS-WS and no
  Argo node is created or enabled.
\<close>

section \<open>The rows of nodes and clients\<close>

definition same_nodes :: "tables \<Rightarrow> tables \<Rightarrow> bool" where
  "same_nodes t u \<longleftrightarrow> nodes u = nodes t \<and> node_clients u = node_clients t"

interpretation entry: frame same_nodes
  by unfold_locales (simp_all add: same_nodes_def)

definition apart_gate :: "'a node_world_scheme node_gate \<Rightarrow> bool" where
  "apart_gate g \<longleftrightarrow> apart (gate_nodes g) \<and> (\<forall>v d. gate_https g = Some v \<longrightarrow> within same_nodes (v d)) \<and>
     (\<forall>v d p. gate_tunnel g = Some v \<longrightarrow> within same_nodes (v d p))"

lemma setting_in: "within same_nodes (SetSetting k v)"
  unfolding SetSetting_def
  by (intro frame_intro) (simp add: same_nodes_def upsert_setting_def insert_setting_def)

lemma reads_only_empty: "reads_only m \<Longrightarrow> reads_only (value_or_empty m)"
  unfolding value_or_empty_def by (intro quiet_intro)

lemma reads_only_prerequisites:
  assumes "apart (gate_nodes g)"
  shows "reads_only (protocolPrerequisites g)"
  unfolding protocolPrerequisites_def certificate_host_def with_certificate_def VerifyAutomaticCertificate_def VerifyCertificate_def Let_def
  by (intro quiet_intro reads_only_empty reads_only_succeeds assms)

lemma verify_in: "apart_gate g \<Longrightarrow> verify_now g proto p = Some m \<Longrightarrow> within same_nodes m"
  by (auto simp: verify_now_def apart_gate_def split: if_splits intro!: frame_intro)

lemma gate_in:
  assumes "apart_gate g"
  shows "within same_nodes (checkProtocolPrerequisite g proto name p)"
proof -
  have "apart (gate_nodes g)" using assms by (simp add: apart_gate_def)
  then show ?thesis
    unfolding checkProtocolPrerequisite_def store_prerequisites_def
    by (intro frame_intro entry.reads [OF reads_only_prerequisites] verify_in [OF assms] setting_in) simp_all
qed

section \<open>What passes the gate\<close>

text \<open>In \<open>w\<close> the installation has a verified domain, it is the one of the node, and its verifier agrees again: with the
  port of the node, for a tunnel.\<close>

definition verified_for :: "'a node_world_scheme node_gate \<Rightarrow> string \<Rightarrow> string \<Rightarrow> int \<Rightarrow> 'a node_world_scheme \<Rightarrow> bool" where
  "verified_for g proto name p w \<longleftrightarrow> (\<exists>st w1 verify out w2. protocolPrerequisites g w = (Inr st, w1) \<and>
     unlocked proto st \<and> expected_domain proto st \<noteq> [] \<and> equal_fold (trim_space name) (expected_domain proto st) \<and>
     verify_now g proto st = Some verify \<and> verify w1 = (Inr out, w2) \<and>
     (if proto = ProtocolVLESSArgo then out = Some p else CloudflareHTTPSPort p))"

lemma verify_now_answer: "verify_now g proto st = Some verify \<Longrightarrow> verify w = (Inr out, w') \<Longrightarrow> (out = None) = (proto \<noteq> ProtocolVLESSArgo)"
  by (auto simp: verify_now_def split: if_splits elim!: io_bind_InrE)

lemma gate_passed:
  assumes "checkProtocolPrerequisite g proto name p w = (Inr u, w')" and "gated proto" and "\<not> gate_mock g"
  shows "verified_for g proto name p w"
proof -
  obtain st w1 where s: "protocolPrerequisites g w = (Inr st, w1)"
    and k: "(if \<not> unlocked proto st \<or> expected_domain proto st = [] then io_fail (gate_conflict ''protocol_prerequisite_missing'')
        else if \<not> equal_fold (trim_space name) (expected_domain proto st) then io_fail (gate_conflict ''protocol_domain_mismatch'')
        else case verify_now g proto st of
            None \<Rightarrow> io_fail (problem_New Internal ''prerequisite_check_unavailable'' None)
          | Some verify \<Rightarrow> io_try verify (\<lambda>r. case r of
                Inr (Some origin) \<Rightarrow> if origin \<noteq> p then io_fail (gate_conflict ''tunnel_origin_mismatch'') else io_return ()
              | Inr None \<Rightarrow> io_return ()
              | Inl e \<Rightarrow> io_try (store_prerequisites (revoked proto st)) (\<lambda>_.
                  io_fail (problem_New Conflict ''prerequisite_check_failed'' (Some e))))) w1 = (Inr u, w')"
    and port: "proto = ProtocolVLESSWSTLS \<longrightarrow> CloudflareHTTPSPort p"
    using assms by (auto simp: checkProtocolPrerequisite_def io_map_error_def io_try_def io_fail_def elim!: io_bind_InrE split: if_splits prod.splits sum.splits)
  have d: "unlocked proto st" "expected_domain proto st \<noteq> []" "equal_fold (trim_space name) (expected_domain proto st)"
    using k by (auto simp: io_fail_def split: if_splits)
  then obtain verify where v: "verify_now g proto st = Some verify" using k by (cases "verify_now g proto st") (auto simp: io_fail_def)
  obtain r w2 where r: "verify w1 = (r, w2)" by (cases "verify w1")
  then obtain out where a: "r = Inr out"
    using k d v by (cases r) (auto simp: io_try_def io_fail_def split: prod.splits)
  have "if proto = ProtocolVLESSArgo then out = Some p else CloudflareHTTPSPort p"
    using verify_now_answer [OF v r [unfolded a]] k d v r a port assms(2)
    by (auto simp: io_try_def io_fail_def gated_def split: if_splits option.splits)
  then show ?thesis using s d v r a unfolding verified_for_def by blast
qed

lemma behind_gate_run:
  assumes "apart_gate g" and "gated proto" and "\<not> gate_mock g" and "behind_gate g proto st p k w = (res, w')"
  shows "same_nodes (tables w) (tables w') \<or> verified_for g proto (nodeServerName st) p w"
proof (cases "checkProtocolPrerequisite g proto (nodeServerName st) p w")
  case (Pair r w1)
  show ?thesis
  proof (cases r)
    case (Inl e)
    then have "w' = w1" using assms(4) Pair by (simp add: behind_gate_def io_try_def io_return_def)
    then show ?thesis using withinD [OF gate_in [OF assms(1)] Pair] by simp
  next
    case (Inr u)
    then show ?thesis using gate_passed [OF Pair [unfolded Inr] assms(2,3)] by simp
  qed
qed

text \<open>C11: A request for a VLESS-WS or an Argo node changes no row of a node or client unless the entry of the panel is
  verified in that request: its domain is the server name of the node, the verifier of the installation confirms it again
  now, and the port is one Cloudflare serves or, for Argo, the one the tunnel leads to.\<close>

theorem gated_node_verified:
  fixes w w' :: "'a node_world_scheme"
  assumes "apart_gate g" and "\<not> gate_mock g" and "decode_create (req_body r) = Some i" and "gated (ci_protocol i)"
    and "createNode g vs ses r w = (res, w')"
  shows "same_nodes (tables w) (tables w') \<or> verified_for g (ci_protocol i) (nodeServerName (ci_settings i)) (ci_port i) w"
  using behind_gate_run [OF assms(1,4,2)] assms(3,5) by (simp add: createNode_def with_body_def)

text \<open>The same for enabling a node, with what is stored, and for a change that leaves it enabled, with what is entered.\<close>

lemma enabled_node_verified:
  fixes w w' :: "'a node_world_scheme"
  assumes "apart_gate g" and "\<not> gate_mock g" and "Get (gate_nodes g) (pathID vs ''id'') w = (Inr n, w1)" and "gated (protocol n)"
    and "setNodeEnabled g True vs ses r w = (res, w')"
  shows "same_nodes (tables w) (tables w') \<or> verified_for g (protocol n) (nodeServerName (settings n)) (port n) w1"
proof -
  have "apart (gate_nodes g)" using assms(1) by (simp add: apart_gate_def)
  from reads_onlyD [OF reads_only_status [OF this] assms(3)] have t: "tables w1 = tables w" .
  obtain k where "behind_gate g (protocol n) (settings n) (port n) k w1 = (res, w')"
    using assms(3,5) by (simp add: setNodeEnabled_def Let_def io_try_def)
  from behind_gate_run [OF assms(1,4,2) this] show ?thesis by (simp add: t)
qed

lemma updated_node_verified:
  fixes w w' :: "'a node_world_scheme"
  assumes "apart_gate g" and "\<not> gate_mock g" and "Get (gate_nodes g) (pathID vs ''id'') w = (Inr n, w1)" and "gated (protocol n)"
    and "decode_update (req_body r) = Some i" and "ui_enabled i" and "updateNode g vs ses r w = (res, w')"
  shows "same_nodes (tables w) (tables w') \<or> verified_for g (protocol n) (nodeServerName (ui_settings i)) (ui_port i) w1"
proof -
  have "apart (gate_nodes g)" using assms(1) by (simp add: apart_gate_def)
  from reads_onlyD [OF reads_only_status [OF this] assms(3)] have t: "tables w1 = tables w" .
  obtain k where "behind_gate g (protocol n) (ui_settings i) (ui_port i) k w1 = (res, w')"
    using assms(3,5,6,7) by (simp add: updateNode_def with_body_def Let_def io_try_def)
  from behind_gate_run [OF assms(1,4,2) this] show ?thesis by (simp add: t)
qed


section \<open>What is stored is read back\<close>

lemma member_none: "\<forall>(k, v)\<in>set ob. \<not> equal_fold k name \<Longrightarrow> json_member ob name = JNull"
proof -
  assume "\<forall>(k, v)\<in>set ob. \<not> equal_fold k name"
  then have "find (\<lambda>(k, v). equal_fold k name) (rev ob) = None" by (auto simp: find_None_iff)
  then show ?thesis by (simp add: json_member_def)
qed

lemma member_kept:
  assumes "distinct (map (\<lambda>(b, k, v). to_lower k) fs)" and "(b, k, v) \<in> set fs"
  shows "json_member (kept_fields fs) k = (if b then v else JNull)"
proof -
  have only: "(b', k', v') = (b, k, v)" if "(b', k', v') \<in> set fs" "equal_fold k' k" for b' k' v'
    using assms that inj_onD [of "\<lambda>(b, k, v). to_lower k" "set fs" "(b', k', v')" "(b, k, v)"]
    by (simp add: distinct_map equal_fold_def)
  show ?thesis
  proof (cases b)
    case True
    then have "(k, v) \<in> set (rev (kept_fields fs)) \<and> equal_fold k k" using assms(2) by (force simp: kept_fields_def equal_fold_def)
    then obtain x where x: "find (\<lambda>(k', v'). equal_fold k' k) (rev (kept_fields fs)) = Some x"
      by (cases "find (\<lambda>(k', v'). equal_fold k' k) (rev (kept_fields fs))") (auto simp: find_None_iff)
    then have "x \<in> set (rev (kept_fields fs)) \<and> (case x of (k', v') \<Rightarrow> equal_fold k' k)" by (metis find_Some_iff nth_mem)
    then have "x \<in> set (kept_fields fs)" "equal_fold (fst x) k" by auto
    then obtain b' where "(b', fst x, snd x) \<in> set fs" by (auto simp: kept_fields_def)
    then have "snd x = v" using only \<open>equal_fold (fst x) k\<close> by blast
    then show ?thesis using x True by (simp add: json_member_def case_prod_beta)
  next
    case False
    have "\<forall>(k', v')\<in>set (kept_fields fs). \<not> equal_fold k' k"
    proof clarify
      fix k' v' assume "(k', v') \<in> set (kept_fields fs)" "equal_fold k' k"
      then have "(True, k', v') \<in> set fs" by (auto simp: kept_fields_def)
      then show False using only [of True k' v'] \<open>equal_fold k' k\<close> False by simp
    qed
    then show ?thesis using member_none False by simp
  qed
qed

lemma prerequisite_names: "distinct (map (\<lambda>(b, k, v). to_lower k) (prerequisite_fields p))"
proof -
  have "map (\<lambda>(b, k, v). to_lower k) (prerequisite_fields p) = map (\<lambda>(b, k, v). to_lower k) (prerequisite_fields no_prerequisites)"
    by (simp add: prerequisite_fields_def)
  moreover have "distinct (map (\<lambda>(b, k, v). to_lower k) (prerequisite_fields no_prerequisites))" by code_simp
  ultimately show ?thesis by (simp only:)
qed

lemmas field_kept = member_kept [OF prerequisite_names, folded prerequisites_obj_def]

lemma prerequisites_members:
  "json_member (prerequisites_obj p) ''httpsIngressEnabled'' = JBool (https_enabled p)"
  "json_member (prerequisites_obj p) ''httpsIngressDomain'' = JStr (https_domain p)"
  "json_member (prerequisites_obj p) ''httpsIngressVerifiedAt'' = (if https_verified p \<noteq> [] then JStr (https_verified p) else JNull)"
  "json_member (prerequisites_obj p) ''httpsIngressSimulated'' = (if https_simulated p then JBool True else JNull)"
  "json_member (prerequisites_obj p) ''cloudflareTunnelEnabled'' = JBool (tunnel_enabled p)"
  "json_member (prerequisites_obj p) ''cloudflareTunnelDomain'' = JStr (tunnel_domain p)"
  "json_member (prerequisites_obj p) ''cloudflareTunnelOriginPort'' = (if tunnel_port p \<noteq> 0 then JInt (tunnel_port p) else JNull)"
  "json_member (prerequisites_obj p) ''cloudflareTunnelVerifiedAt'' = (if tunnel_verified p \<noteq> [] then JStr (tunnel_verified p) else JNull)"
  "json_member (prerequisites_obj p) ''cloudflareTunnelSimulated'' = (if tunnel_simulated p then JBool True else JNull)"
  "json_member (prerequisites_obj p) ''certificateMode'' = JStr (cert_mode p)"
  "json_member (prerequisites_obj p) ''certificatePath'' = (if cert_path p \<noteq> [] then JStr (cert_path p) else JNull)"
  "json_member (prerequisites_obj p) ''certificateKeyPath'' = (if cert_key p \<noteq> [] then JStr (cert_key p) else JNull)"
  "json_member (prerequisites_obj p) ''certificateReady'' = JBool (cert_ready p)"
  "json_member (prerequisites_obj p) ''certificateServerName'' = (if cert_name p \<noteq> [] then JStr (cert_name p) else JNull)"
  by (rule field_kept [THEN trans], force simp: prerequisite_fields_def, simp)+

lemma prerequisites_of_obj: "prerequisites_of (prerequisites_obj p) = Inr p"
  by (simp add: prerequisites_of_def prerequisites_members field_string_def field_bool_def field_int_def sum_bind_def)

lemma prerequisites_text:
  assumes "int64 (tunnel_port p)"
  shows "decode_prerequisites (json_print (JObj (prerequisites_obj p))) = Inr p"
proof -
  have "json_parse (json_print (JObj (prerequisites_obj p))) = Some (JObj (prerequisites_obj p))"
    by (rule json_roundtrip) (use assms in \<open>simp add: prerequisites_obj_def kept_fields_def prerequisite_fields_def\<close>)
  moreover have "json_print (JObj ob) \<noteq> []" for ob by (simp add: json_print_def)
  ultimately show ?thesis by (simp add: decode_prerequisites_def prerequisites_of_obj)
qed

section \<open>A concrete gate\<close>

definition demo_gate :: "node_world node_gate" where
  "demo_gate = \<lparr>gate_mock = False, gate_https = Some (\<lambda>_. io_return ()), gate_tunnel = None, gate_nodes = demo_service\<rparr>"

definition gated_request :: request where
  "gated_request = demo_request ''POST'' ''/api/v1/nodes''
     (map (\<lambda>c. if c = CHR ''^'' then DQ else c)
       ''{^name^:^ws^,^protocol^:^vless_ws_tls^,^port^:443,^enabled^:true,^settings^:{^server_name^:^node.example^}}'')"

text \<open>Without a verified entry the request adds no row.\<close>

theorem gated_node_verified_witness:
  "nodes (tables (snd (createNode demo_gate [] None gated_request bare_demo))) = []"
proof -
  have "case decode_create (req_body gated_request) of Some i \<Rightarrow> ci_protocol i = ''vless_ws_tls'' | None \<Rightarrow> False" by code_simp
  then obtain i where i: "decode_create (req_body gated_request) = Some i" "gated (ci_protocol i)"
    by (auto simp: gated_def ProtocolVLESSWSTLS_def split: option.splits)
  have a: "apart_gate demo_gate"
    using demo_apart by (simp add: apart_gate_def demo_gate_def) (simp add: within_def same_nodes_def)
  have m: "\<not> gate_mock demo_gate" by (simp add: demo_gate_def)
  have "case fst (protocolPrerequisites demo_gate bare_demo) of Inr st \<Rightarrow> \<not> https_enabled st \<and> \<not> tunnel_enabled st | Inl e \<Rightarrow> True" by code_simp
  then have "\<not> verified_for demo_gate (ci_protocol i) (nodeServerName (ci_settings i)) (ci_port i) bare_demo"
    by (auto simp: verified_for_def unlocked_def split: if_splits)
  then have "same_nodes (tables bare_demo) (tables (snd (createNode demo_gate [] None gated_request bare_demo)))"
    using gated_node_verified [OF a m i prod.collapse [symmetric], where vs = "[]" and ses = None and w = bare_demo] by blast
  then show ?thesis using bare_calm(2) by (simp add: same_nodes_def empty_tables_def)
qed

end
