(* ===== verification/NetnsLaws.thy ===== *)
theory NetnsLaws
  imports NetnsManager
begin

text \<open>
  What \<open>Provision\<close> of \<open>internal/netns/manager.go\<close> runs, in which order, and what it takes back when it fails. The
  log of a computation is described by a predicate on its result and its commands, which composes along the
  monad; the theorem reads off it that no unit starts before both firewalls are in, and which commands end a
  failed start.
\<close>

section \<open>Logs that depend on the result\<close>

type_synonym log_world = "(string list list) fs_scheme"

definition emits :: "(log_world, 'x) io \<Rightarrow> (error + 'x \<Rightarrow> string list list \<Rightarrow> bool) \<Rightarrow> bool" where
  "emits m P \<longleftrightarrow> (\<forall>w. \<exists>L. fs.more (snd (m w)) = fs.more w @ L \<and> P (fst (m w)) L)"

lemma emitsE:
  assumes "emits m P" and "m w = (r, w')"
  obtains L where "fs.more w' = fs.more w @ L" and "P r L"
  using assms unfolding emits_def by (metis fst_conv snd_conv)

lemma emits_mono: "emits m P \<Longrightarrow> (\<And>r L. P r L \<Longrightarrow> Q r L) \<Longrightarrow> emits m Q"
  unfolding emits_def by blast

lemma emits_logs: "logs m L \<Longrightarrow> P = (\<lambda>_ K. K = L) \<Longrightarrow> emits m P"
  by (simp add: emits_def logs_def)

lemma emits_return: "P (Inr x) [] \<Longrightarrow> emits (io_return x) P"
  by (simp add: emits_def)

lemma emits_fail: "P (Inl e) [] \<Longrightarrow> emits (io_fail e) P"
  by (simp add: emits_def)

lemma emits_bind:
  assumes "emits m P" and "\<And>x. emits (f x) (Q x)"
    and "\<And>e L. P (Inl e) L \<Longrightarrow> R (Inl e) L" and "\<And>x r L K. P (Inr x) L \<Longrightarrow> Q x r K \<Longrightarrow> R r (L @ K)"
  shows "emits (io_bind m f) R"
  unfolding emits_def
proof
  fix w
  obtain r w1 where m: "m w = (r, w1)" by (cases "m w")
  obtain L where L: "fs.more w1 = fs.more w @ L" "P r L" using emitsE [OF assms(1) m] .
  show "\<exists>L. fs.more (snd (io_bind m f w)) = fs.more w @ L \<and> R (fst (io_bind m f w)) L"
  proof (cases r)
    case (Inl e)
    then show ?thesis using m L assms(3) by (simp add: io_bind_def)
  next
    case (Inr x)
    obtain r2 w2 where f: "f x w1 = (r2, w2)" by (cases "f x w1")
    obtain K where K: "fs.more w2 = fs.more w1 @ K" "Q x r2 K" using emitsE [OF assms(2) f] .
    show ?thesis using m f Inr L K assms(4) [of x L r2 K] by (simp add: io_bind_def)
  qed
qed

lemma emits_try:
  assumes "emits m P" and "\<And>r. emits (f r) (Q r)" and "\<And>r0 r L K. P r0 L \<Longrightarrow> Q r0 r K \<Longrightarrow> R r (L @ K)"
  shows "emits (io_try m f) R"
  unfolding emits_def
proof
  fix w
  obtain r w1 where m: "m w = (r, w1)" by (cases "m w")
  obtain L where L: "fs.more w1 = fs.more w @ L" "P r L" using emitsE [OF assms(1) m] .
  obtain r2 w2 where f: "f r w1 = (r2, w2)" by (cases "f r w1")
  obtain K where K: "fs.more w2 = fs.more w1 @ K" "Q r r2 K" using emitsE [OF assms(2) f] .
  show "\<exists>L. fs.more (snd (io_try m f w)) = fs.more w @ L \<and> R (fst (io_try m f w)) L"
    using m f L K assms(3) [of r L r2 K] by (simp add: io_try_def)
qed

section \<open>The steps of a start\<close>

text \<open>A command that starts a unit, and a log without one.\<close>

definition quiet :: "string list list \<Rightarrow> bool" where
  "quiet L \<longleftrightarrow> (\<forall>x\<in>set L. \<forall>u c. x \<noteq> unit_arguments u c)"

lemma quiet_simps [simp]: "quiet []" "quiet (L @ K) \<longleftrightarrow> quiet L \<and> quiet K"
  "quiet (privileged c # L) \<longleftrightarrow> quiet L" "quiet ([''nft'', a] # L) \<longleftrightarrow> quiet L" "quiet ((''nft'' # as) # L) \<longleftrightarrow> quiet L"
  "quiet ((''systemctl'' # as) # L) \<longleftrightarrow> quiet L" "quiet ((''journalctl'' # as) # L) \<longleftrightarrow> quiet L"
  by (auto simp: quiet_def privileged_def unit_arguments_def)

lemma emits_run_io: "logging run \<Longrightarrow> emits (run_io run args) (\<lambda>_ L. L = [args])"
  by (rule emits_logs [OF logs_run_io refl])

lemma emits_exec: "logging run \<Longrightarrow> emits (exec run args) (\<lambda>r L. \<not> isl r \<and> L = [args])"
  using logs_exec [of run args] total_exec [of run args] by (simp add: emits_def logs_def total_def)

lemma emits_privileged: "logging run \<Longrightarrow> emits (runPrivileged run c) (\<lambda>r L. quiet L \<and> (\<forall>out. r = Inr out \<longrightarrow> L = [privileged c]))"
  unfolding runPrivileged_def
  by (cases "c = []") (auto intro!: emits_fail emits_mono [OF emits_run_io])

lemma emits_run_all:
  "logging run \<Longrightarrow> emits (run_all run cs) (\<lambda>r L. quiet L \<and> set L \<subseteq> privileged ` set cs \<and> (\<forall>u. r = Inr u \<longrightarrow> L = map privileged cs))"
proof (induction cs)
  case Nil
  then show ?case by (simp add: run_all_def emits_def)
next
  case (Cons c cs)
  have p: "emits (runPrivileged run c) (\<lambda>r L. (L = [privileged c] \<or> L = []) \<and> (\<forall>x. r = Inr x \<longrightarrow> L = [privileged c]))"
    using Cons.prems unfolding runPrivileged_def by (cases "c = []") (auto intro!: emits_fail emits_mono [OF emits_run_io])
  have "emits (io_bind (runPrivileged run c) (\<lambda>_. io_return ()))
      (\<lambda>r L. (L = [privileged c] \<or> L = []) \<and> (\<forall>u. r = Inr u \<longrightarrow> L = [privileged c]))"
    by (rule emits_bind [OF p emits_return [of "\<lambda>r L. L = []"]]) auto
  then show ?case
    unfolding run_all_def io_each.simps
    by (rule emits_bind [OF _ Cons.IH [OF Cons.prems, unfolded run_all_def]]) auto
qed

text \<open>The commands that open the forward chains of other tables for the slot.\<close>

definition opening_commands :: "string list set" where
  "opening_commands = insert [''nft'', ''-j'', ''list'', ''ruleset''] (range (\<lambda>as. privileged (''nft'' # ''insert'' # as)))"

lemma quiet_opening: "set L \<subseteq> opening_commands \<Longrightarrow> quiet L"
  by (auto simp: quiet_def opening_commands_def privileged_def unit_arguments_def)

lemma forward_opening: "c \<in> set (forward_commands spec ip proto portn ob) \<Longrightarrow> privileged c \<in> opening_commands"
  by (auto simp: forward_commands_def opening_commands_def split: option.splits if_splits)

lemma emits_opening:
  assumes "logging run"
  shows "emits (installHostForwardCompatibility run spec ip proto portn) (\<lambda>_ L. set L \<subseteq> opening_commands)"
proof -
  have l: "emits (nftRules run) (\<lambda>_ L. set L \<subseteq> opening_commands)"
    unfolding nftRules_def
    by (rule emits_bind [OF emits_run_io [OF assms], where Q = "\<lambda>_ _ L. L = []"])
      (auto intro!: emits_return emits_fail simp: opening_commands_def split: sum.split)
  show ?thesis
    unfolding installHostForwardCompatibility_def
    by (rule emits_bind [OF l emits_run_all [OF assms]]) (auto dest!: subsetD intro: forward_opening)
qed

lemma emits_startUnit:
  assumes "logging run"
  shows "emits (startUnit run u c) (\<lambda>_ L. L = [[''systemctl'', ''stop'', u], unit_arguments u c])"
  unfolding startUnit_def
proof (rule emits_bind [OF emits_exec [OF assms]])
  show "emits (io_bind (run_io run (unit_arguments u c)) (\<lambda>_. io_return ())) (\<lambda>_ L. L = [unit_arguments u c])" for x :: "string \<times> error option"
    by (rule emits_bind [OF emits_run_io [OF assms] emits_return [of "\<lambda>_ L. L = []"]]) auto
qed auto

lemma emits_diagnostics:
  assumes "logging run"
  shows "emits (unitDiagnostics run u) (\<lambda>_. quiet)"
  unfolding unitDiagnostics_def
proof (rule emits_bind [OF emits_exec [OF assms]])
  show "emits ((\<lambda>(out, err). io_return (if err \<noteq> None \<and> out = [] then [] else trim_space out)) x) (\<lambda>_ L. L = [])"
    for x :: "string \<times> error option"
    by (cases x) (simp add: emits_def)
qed auto

lemma emits_tunnel: "logging run \<Longrightarrow> emits (tunnel_loop run ns u ps) (\<lambda>_. quiet)"
proof (induction ps)
  case Nil
  then show ?case
    unfolding tunnel_loop.simps
    by (intro emits_bind [OF emits_diagnostics, where Q = "\<lambda>_ _ L. L = []"] emits_fail) auto
next
  case (Cons d ps)
  show ?case
    unfolding tunnel_loop.simps
    by (rule emits_try [OF emits_privileged [OF Cons.prems], where Q = "\<lambda>_ _. quiet"])
      (auto intro!: emits_return emits_fail Cons.IH Cons.prems split: sum.split)
qed

lemma emits_probe:
  assumes "logging run"
  shows "emits (probe run executable ns) (\<lambda>_. quiet)"
proof -
  have e: "emits (probeEndpoint run executable ns e) (\<lambda>_. quiet)" for e
    unfolding probeEndpoint_def
    by (rule emits_bind [OF emits_privileged [OF assms], where Q = "\<lambda>_ _ L. L = []"])
      (auto intro!: emits_return emits_fail split: sum.split)
  have "emits (probe_loop (probeEndpoint run executable ns) es seen) (\<lambda>_. quiet)" for es seen
  proof (induction es arbitrary: seen)
    case Nil
    show ?case unfolding probe_loop.simps by (rule emits_return) simp
  next
    case (Cons x es)
    show ?case
      unfolding probe_loop.simps
      by (rule emits_bind [OF e, where Q = "\<lambda>_ _. quiet"]) (auto intro!: emits_fail Cons.IH)
  qed
  then show ?thesis by (simp add: probe_def)
qed

section \<open>No unit starts before both firewalls are in\<close>

text \<open>Every start of a unit comes after all of \<open>first\<close>, commands that open forward chains, and all of \<open>second\<close>.\<close>

definition starts_after :: "string list list \<Rightarrow> string list list \<Rightarrow> string list list \<Rightarrow> bool" where
  "starts_after first second L \<longleftrightarrow> (\<forall>before u c rest. L = before @ unit_arguments u c # rest \<longrightarrow>
     (\<exists>opened more. before = first @ opened @ second @ more \<and> set opened \<subseteq> opening_commands))"

lemma start_found:
  assumes "quiet K" and "K @ J = before @ unit_arguments u c # rest"
  shows "\<exists>between. before = K @ between"
proof -
  obtain us where "K = before @ us \<and> us @ J = unit_arguments u c # rest \<or> K @ us = before"
    using assms(2) by (auto simp: append_eq_append_conv2)
  then show ?thesis
  proof
    assume a: "K = before @ us \<and> us @ J = unit_arguments u c # rest"
    have "us = []"
      using a assms(1) by (cases us) (auto simp: quiet_def)
    then show ?thesis using a by auto
  qed auto
qed

lemma starts_quiet: "quiet L \<Longrightarrow> starts_after first second L"
  unfolding starts_after_def quiet_def by (metis in_set_conv_decomp)

lemma starts_done:
  assumes "quiet first" and "quiet second" and "set opened \<subseteq> opening_commands"
  shows "starts_after first second ((first @ opened @ second) @ J)"
  unfolding starts_after_def
  using start_found [of "first @ opened @ second" J] assms quiet_opening [OF assms(3)] by fastforce

text \<open>The commands of a start: the namespace, the link and the firewall of the host; the firewall of the namespace;
  the two units.\<close>

definition outer_commands :: "slot_spec \<Rightarrow> string \<Rightarrow> string \<Rightarrow> int \<Rightarrow> string list list" where
  "outer_commands spec ip proto portn = map privileged (setup_commands spec @ host_firewall spec ip proto portn)"

definition inner_commands :: "slot_spec \<Rightarrow> string \<Rightarrow> string \<Rightarrow> int \<Rightarrow> string list list" where
  "inner_commands spec ip proto portn =
     map (\<lambda>c. privileged (in_namespace spec (''nft'' # c))) (namespace_firewall spec ip proto portn)"

definition unit_commands :: "'w netns_manager \<Rightarrow> int \<Rightarrow> slot_spec \<Rightarrow> string list list" where
  "unit_commands m sl spec = (let directory = slot_directory (DataDir m) sl in
     [unit_arguments (openVPNUnit sl) (in_namespace spec [''openvpn'', ''--config'', path_join directory ''client.ovpn'',
        ''--auth-nocache'', ''--script-security'', ''1'']),
      unit_arguments (bridgeUnit sl) (in_namespace spec [Executable m, ''internal-socks-bridge'', path_join directory ''bridge.json''])])"

lemma quiet_privileged: "quiet (map privileged cs)" "quiet (map (\<lambda>c. privileged (f c)) ds)"
  by (induction cs) (simp_all, induction ds, simp_all)

lemma emits_units:
  assumes "logging run"
  shows "emits (io_bind (startUnit run u1 c1) (\<lambda>_. io_bind (tunnel_loop run ns u ps) (\<lambda>_.
      io_bind (startUnit run u2 c2) (\<lambda>_. probe run executable ns))))
    (\<lambda>r L. \<not> isl r \<longrightarrow> {unit_arguments u1 c1, unit_arguments u2 c2} \<subseteq> set L)"
proof -
  have "emits (io_bind (startUnit run u2 c2) (\<lambda>_. probe run executable ns)) (\<lambda>r L. \<not> isl r \<longrightarrow> unit_arguments u2 c2 \<in> set L)"
    by (rule emits_bind [OF emits_startUnit [OF assms] emits_probe [OF assms]]) auto
  then have "emits (io_bind (tunnel_loop run ns u ps) (\<lambda>_. io_bind (startUnit run u2 c2) (\<lambda>_. probe run executable ns)))
      (\<lambda>r L. \<not> isl r \<longrightarrow> unit_arguments u2 c2 \<in> set L)"
    by (rule emits_bind [OF emits_tunnel [OF assms]]) auto
  then show ?thesis
    by (rule emits_bind [OF emits_startUnit [OF assms]]) auto
qed

lemma emits_bring_up:
  fixes ex :: vpn_exit
  assumes "logging (net_run m)"
  defines "proto \<equiv> if remote_protocol ex = ''tcp-client'' then ''tcp'' else ''udp''"
  shows "emits (bring_up m ex ip spec) (\<lambda>r L.
    starts_after (outer_commands spec ip proto (remote_port ex)) (inner_commands spec ip proto (remote_port ex)) L \<and>
    (\<not> isl r \<longrightarrow> set (unit_commands m (slot ex) spec) \<subseteq> set L))"
proof -
  let ?run = "net_run m" and ?n = "remote_port ex" and ?sl = "slot ex"
  let ?inner = "inner_commands spec ip proto ?n" and ?host = "map privileged (host_firewall spec ip proto ?n)"
  let ?good = "\<lambda>r J. \<not> isl r \<longrightarrow> set (unit_commands m ?sl spec) \<subseteq> set J"
  define E where "E = (\<lambda>_ :: unit. io_bind (startUnit ?run (openVPNUnit ?sl) (in_namespace spec [''openvpn'', ''--config'',
      path_join (slot_directory (DataDir m) ?sl) ''client.ovpn'', ''--auth-nocache'', ''--script-security'', ''1''])) (\<lambda>_.
    io_bind (tunnel_loop ?run (ns_name spec) (openVPNUnit ?sl) (polls m)) (\<lambda>_.
    io_bind (startUnit ?run (bridgeUnit ?sl) (in_namespace spec [Executable m, ''internal-socks-bridge'',
      path_join (slot_directory (DataDir m) ?sl) ''bridge.json''])) (\<lambda>_. probe ?run (Executable m) (ns_name spec)))))"
  define Q where "Q K r L \<longleftrightarrow> quiet L \<and> isl r \<or>
    (\<exists>opened J. set opened \<subseteq> opening_commands \<and> L = K @ opened @ ?inner @ J \<and> ?good r J)"
    for K :: "string list list" and r :: "error + string" and L
  have E: "emits (E x) ?good" for x
    unfolding E_def by (rule emits_mono [OF emits_units [OF assms(1)]]) (simp add: unit_commands_def Let_def)
  have D: "emits (io_bind (installNamespaceFirewall ?run spec ip proto ?n) E)
      (\<lambda>r L. quiet L \<and> isl r \<or> (\<exists>J. L = ?inner @ J \<and> ?good r J))"
    unfolding installNamespaceFirewall_def
    by (rule emits_bind [OF emits_run_all [OF assms(1)] E]) (auto simp: inner_commands_def comp_def)
  have C: "emits (io_bind (installHostForwardCompatibility ?run spec ip proto ?n)
      (\<lambda>_. io_bind (installNamespaceFirewall ?run spec ip proto ?n) E)) (Q [])"
    by (rule emits_bind [OF emits_opening [OF assms(1)] D]) (fastforce simp: Q_def dest: quiet_opening)+
  have B: "emits (io_bind (installHostFirewall ?run spec ip proto ?n) (\<lambda>_. io_bind (installHostForwardCompatibility ?run spec ip proto ?n)
      (\<lambda>_. io_bind (installNamespaceFirewall ?run spec ip proto ?n) E))) (Q ?host)"
    unfolding installHostFirewall_def
    by (rule emits_bind [OF emits_run_all [OF assms(1)] C]) (auto simp: Q_def)
  have A: "emits (bring_up m ex ip spec) (Q (map privileged (setup_commands spec) @ ?host))"
    unfolding bring_up_def Let_def proto_def [symmetric]
    by (rule emits_bind [OF emits_run_all [OF assms(1)] B [unfolded E_def]]) (auto simp: Q_def)
  show ?thesis
  proof (rule emits_mono [OF A])
    fix r L
    assume "Q (map privileged (setup_commands spec) @ ?host) r L"
    then consider "quiet L" "isl r" | opened J where "set opened \<subseteq> opening_commands"
      "L = (outer_commands spec ip proto ?n @ opened @ ?inner) @ J" "?good r J"
      by (auto simp: Q_def outer_commands_def)
    then show "starts_after (outer_commands spec ip proto ?n) ?inner L \<and> (\<not> isl r \<longrightarrow> set (unit_commands m ?sl spec) \<subseteq> set L)"
    proof cases
      case 1
      then show ?thesis by (simp add: starts_quiet)
    next
      case (2 opened J)
      then show ?thesis
        using starts_done [of "outer_commands spec ip proto ?n" ?inner opened J]
        by (auto simp: outer_commands_def inner_commands_def quiet_privileged)
    qed
  qed
qed

section \<open>A failed start is taken back\<close>

text \<open>Stopping reports success only when the directory of the slot is gone.\<close>

lemma stopped_directory_gone:
  assumes "slotSpec (slot ex) = Inr spec" and "Stop m ex w = (Inr u, w')" and "in_tree (slot_directory (DataDir m) (slot ex)) f"
  shows "files w' f = None"
proof -
  obtain g w1 where "io_try (fs_remove_all (slot_directory (DataDir m) (slot ex))) (\<lambda>r3. joined (case r3 of Inl e \<Rightarrow> g @ [e] | Inr _ \<Rightarrow> g)) w1
      = (Inr u, w')"
    using assms(1,2) by (auto simp: Stop_def Let_def io_try_def elim!: io_bind_InrE split: prod.splits)
  then show ?thesis
    using assms(3) by (auto simp: io_try_def fs_remove_all_def attempt_def ticked_def joined_def io_fail_def split: if_splits)
qed

text \<open>C40: A provisioning whose slot was cleaned and whose files were written ends as follows. No unit is started before
  the namespace and its link are set up and both firewalls are in, that of the host and that of the namespace,
  completely and in this order. If it returns an address, the OpenVPN and the bridge unit were started. If it fails, at
  whichever of its commands, the last commands are, without omission, those that stop and reset both units and delete
  the namespace, the link and the table of the host; the error is the one of the start, followed by that of the
  cleanup if there was any; and if there was none, the directory with the configuration and the credentials is gone.\<close>

theorem provision_rolls_back:
  fixes ex :: vpn_exit
  assumes "logging (net_run m)" and "slotSpec (slot ex) = Inr spec" and "namespace ex = ns_name spec"
    and "local_address ex = peerAddress spec" and "local_port ex = 1080" and "cand_ip cand = exit_ip ex"
    and "u \<noteq> []" and "p \<noteq> []"
    and "Stop m ex w = (Inr (), w1)" and "write_slot_files m (slot ex) spec config u p w1 = (Inr (), w2)"
    and "Provision m ex cand config u p w = (r, w')"
  defines "proto \<equiv> if remote_protocol ex = ''tcp-client'' then ''tcp'' else ''udp''"
  defines "first \<equiv> map privileged (setup_commands spec @ host_firewall spec (exit_ip ex) proto (remote_port ex))"
  defines "second \<equiv> map (\<lambda>c. privileged (in_namespace spec (''nft'' # c))) (namespace_firewall spec (exit_ip ex) proto (remote_port ex))"
  defines "clearing \<equiv> [[''systemctl'', ''stop'', bridgeUnit (slot ex)], [''systemctl'', ''reset-failed'', bridgeUnit (slot ex)],
     [''systemctl'', ''stop'', openVPNUnit (slot ex)], [''systemctl'', ''reset-failed'', openVPNUnit (slot ex)],
     privileged [''ip'', ''netns'', ''delete'', ns_name spec], privileged [''ip'', ''link'', ''delete'', hostVeth spec],
     privileged [''nft'', ''delete'', ''table'', ''ip'', hostTable spec]]"
  shows "\<exists>steps back. fs.more w' = fs.more w2 @ steps @ back \<and>
    (\<forall>before unitn command rest. steps = before @ unit_arguments unitn command # rest \<longrightarrow>
      (\<exists>opened more. before = first @ opened @ second @ more \<and> set opened \<subseteq> opening_commands)) \<and>
    (case r of
       Inr _ \<Rightarrow> back = [] \<and> set (unit_commands m (slot ex) spec) \<subseteq> set steps
     | Inl e \<Rightarrow> (\<exists>rules primary cleanup. back = rules @ clearing \<and> set rules \<subseteq> removal_commands \<and>
         fst (bring_up m ex (exit_ip ex) spec w2) = Inl primary \<and> e = Join (primary # cleanup) \<and>
         (cleanup = [] \<longrightarrow> (\<forall>f. in_tree (slot_directory (DataDir m) (slot ex)) f \<longrightarrow> files w' f = None))))"
proof -
  obtain b w3 where b: "bring_up m ex (exit_ip ex) spec w2 = (b, w3)" by (cases "bring_up m ex (exit_ip ex) spec w2")
  obtain steps where steps: "fs.more w3 = fs.more w2 @ steps" "starts_after first second steps"
    "\<not> isl b \<longrightarrow> set (unit_commands m (slot ex) spec) \<subseteq> set steps"
    using emitsE [OF emits_bring_up [OF assms(1)] b]
    unfolding proto_def first_def second_def outer_commands_def inner_commands_def by blast
  have clearing: "takedown (slot ex) spec = clearing" by (simp add: takedown_def teardown_def clearing_def)
  have prov: "Provision m ex cand config u p w = (case b of Inr ip \<Rightarrow> (Inr ip, w3)
    | Inl primary \<Rightarrow> (Inl (Join (primary # (case fst (Stop m ex w3) of Inl e \<Rightarrow> [e] | Inr _ \<Rightarrow> []))), snd (Stop m ex w3)))"
    using assms(2-10) b by (simp add: Provision_def io_try_def io_bind_def split: prod.split sum.split)
  show ?thesis
  proof (cases b)
    case (Inr ip)
    then have "r = Inr ip" "w' = w3" using prov assms(11) by simp_all
    then show ?thesis
      using steps Inr unfolding starts_after_def by (intro exI [of _ steps] exI [of _ "[]"]) simp
  next
    case (Inl primary)
    obtain rules where rules: "fs.more (snd (Stop m ex w3)) = fs.more w3 @ rules @ clearing" "set rules \<subseteq> removal_commands"
      using stop_tries_everything [OF assms(1,2), of w3] clearing by auto
    let ?cleanup = "case fst (Stop m ex w3) of Inl e \<Rightarrow> [e] | Inr _ \<Rightarrow> []"
    have r: "r = Inl (Join (primary # ?cleanup))" "w' = snd (Stop m ex w3)" using prov Inl assms(11) by simp_all
    have "files w' f = None" if "?cleanup = []" "in_tree (slot_directory (DataDir m) (slot ex)) f" for f
      using stopped_directory_gone [OF assms(2), of m w3 _ w' f] that r(2)
      by (cases "Stop m ex w3") (auto split: sum.splits)
    then show ?thesis
      using steps rules b Inl r unfolding starts_after_def
      by (intro exI [of _ steps] exI [of _ "rules @ clearing"]) auto
  qed
qed

lemma demo_prepared:
  defines "m \<equiv> demo_manager True"
  shows "\<exists>w1 w2. Stop m demo_exit demo_net_disk = (Inr (), w1) \<and>
    write_slot_files m (slot demo_exit) demo_spec ''c'' ''u'' ''p'' w1 = (Inr (), w2)"
proof -
  have "fst (Stop m demo_exit demo_net_disk) = Inr ()" unfolding m_def by code_simp
  moreover have "fst (write_slot_files m (slot demo_exit) demo_spec ''c'' ''u'' ''p'' (snd (Stop m demo_exit demo_net_disk))) = Inr ()"
    unfolding m_def by code_simp
  ultimately show ?thesis by (blast dest: Inr_pair)
qed

text \<open>OpenVPN does not start: the slot is taken down again and its files are gone.\<close>

theorem provision_rolls_back_witness:
  "\<exists>e w' front. Provision (demo_manager True) demo_exit demo_cand ''c'' ''u'' ''p'' demo_net_disk = (Inl (Join [e]), w') \<and>
     fs.more w' = front @ [[''systemctl'', ''stop'', ''jui-vpngate-1-bridge.service''],
       [''systemctl'', ''reset-failed'', ''jui-vpngate-1-bridge.service''],
       [''systemctl'', ''stop'', ''jui-vpngate-1-openvpn.service''], [''systemctl'', ''reset-failed'', ''jui-vpngate-1-openvpn.service''],
       privileged [''ip'', ''netns'', ''delete'', ''jui-vpn-1''], privileged [''ip'', ''link'', ''delete'', ''jvh1''],
       privileged [''nft'', ''delete'', ''table'', ''ip'', ''jui_vpn_1'']] \<and>
     files w' ''/var/lib/j-ui/vpngate/slot-1/bridge.json'' = None"
proof -
  let ?m = "demo_manager True"
  obtain w1 w2 where s: "Stop ?m demo_exit demo_net_disk = (Inr (), w1)"
    and f: "write_slot_files ?m (slot demo_exit) demo_spec ''c'' ''u'' ''p'' w1 = (Inr (), w2)"
    using demo_prepared by blast
  obtain r w' where p: "Provision ?m demo_exit demo_cand ''c'' ''u'' ''p'' demo_net_disk = (r, w')" by (rule prod.exhaust)
  have "case fst (Provision ?m demo_exit demo_cand ''c'' ''u'' ''p'' demo_net_disk) of Inl (Join [e]) \<Rightarrow> True | _ \<Rightarrow> False"
    by code_simp
  then obtain e where r: "r = Inl (Join [e])" unfolding p fst_conv
    by (auto split: sum.splits error.splits list.splits)
  have fields: "namespace demo_exit = ns_name demo_spec" "local_address demo_exit = peerAddress demo_spec"
    "local_port demo_exit = 1080" "cand_ip demo_cand = exit_ip demo_exit" by code_simp+
  have names: "bridgeUnit (slot demo_exit) = ''jui-vpngate-1-bridge.service''" "openVPNUnit (slot demo_exit) = ''jui-vpngate-1-openvpn.service''"
    "ns_name demo_spec = ''jui-vpn-1''" "hostVeth demo_spec = ''jvh1''" "hostTable demo_spec = ''jui_vpn_1''" by code_simp+
  have tree: "in_tree (slot_directory (DataDir ?m) (slot demo_exit)) ''/var/lib/j-ui/vpngate/slot-1/bridge.json''" by code_simp
  from provision_rolls_back [OF demo_logging demo_slot fields _ _ s f p] r p tree show ?thesis
    unfolding names by fastforce
qed

end
