(* ===== verification/Spec2Isabelle.thy ===== *)
theory Spec2Isabelle
  imports AuthLimiter VpnSanitize VpnCatalog ConfigFile Firewall Subscription SingBoxConfig EngineApply SocksBridge
    NetnsManager StoreFrames VpnService VpnProbe AuthService NodeRollback NodePorts NodeViews LandingLaws
    BackupDisk BackupNodes VpnServiceLaws ExitCheckLaws ApiLaws ApiNodeLaws NetnsLaws
begin

text \<open>
  J-UI is a panel, written in Go, that manages the proxy nodes of one host. The administrator creates nodes
  (inbounds of a sing-box engine), the clients of a node, the outbounds a node may leave through, and VPNGate exits
  (outbounds that run in a network namespace behind a volunteer's OpenVPN server). Every change goes to an SQLite
  database and is then \<^emph>\<open>reconciled\<close>: the firewall is opened and closed, the engine configuration is generated,
  validated, installed and checked, and when a step fails the change is compensated. This development models the
  packages under \<open>src/internal\<close> that decide what happens, and proves what they promise.

  \<^bold>\<open>The libraries the code calls.\<close> \<open>JPrelude\<close> has the error values with their chain (\<open>problem/problem.go\<close>,
  \<open>errors.Is\<close>), the computations \<open>('w, 'a) io\<close> from a state to an error or a value and a state, and the shared
  interfaces (a codec, a strict weak order with the sorting loop, a transition system with an invariant). \<open>GoText\<close>,
  \<open>GoEncoding\<close>, \<open>GoNet\<close>, \<open>GoUrl\<close>, \<open>GoJson\<close>, \<open>GoTime\<close> and \<open>GoFiles\<close> model what the sources use of Go's library: strings
  are byte lists; a JSON number is an integer (the panel writes no other); a file system is a map from paths to
  contents in which any call may fail. Faults are a parameter of the state: the \<open>n\<close>-th call fails when \<open>faulty n\<close>
  says so, so a theorem over every state is a theorem over every pattern of failures. A deadline that passes is such
  a failing call.

  \<^bold>\<open>The database.\<close> \<open>JModel\<close> holds the records of \<open>model/model.go\<close>. \<open>Store\<close> is \<open>database/store.go\<close>: a table is a list
  of rows in the order of their row identifiers, a statement is a function on the tables that is refused when the
  result violates a CHECK, UNIQUE or FOREIGN KEY constraint, a transaction restores the tables when it fails.
  \<open>StoreLaws\<close> shows that every operation keeps the constraints and what a failed write leaves, whatever
  fails (nothing, but for three operations whose second step can fail after the first is committed); \<open>StoreData\<close> what the operations compute (a node is read back as it was written, the two passes of the port
  transaction refine the simultaneous assignment, recovered firewall rules never take over a borrowed one, a
  migration from any version deletes exactly the nodes of the protocols retired since); \<open>StoreFrames\<close> has the locale \<open>frame\<close> of relations between the
  tables before and after that every handler keeps, with its two instances. \<open>Secure\<close> is \<open>secure/secure.go\<close>: the
  instance key file under concurrent creators, AES-GCM over a block function, tokens and UUIDs.

  \<^bold>\<open>Authentication.\<close> \<open>Password\<close> (\<open>auth/password.go\<close>, \<open>username.go\<close>) is the encoded Argon2id hash, \<open>AuthLimiter\<close> and
  \<open>AuthService\<close> (\<open>auth/service.go\<close>) are the login limiter, as a transition system of concurrent logins, and the
  operations on administrators and sessions under the lock of the service.

  \<^bold>\<open>Configuration and engine.\<close> \<open>ConfigFile\<close> is \<open>config/config.go\<close>; \<open>SingBoxConfig\<close> generates the engine's document
  (\<open>engine/singbox/config.go\<close>); \<open>EngineApply\<close> is \<open>engine/engine.go\<close>, the installation of a document with its
  activation, checks and rollback; \<open>Firewall\<close> is \<open>firewall/firewall.go\<close> with the three backends and the file that
  remembers who owns the management rule. A routing decision of the generated document is \<open>exit_of\<close>, the first rule
  that matches; the theorems on isolation speak of every connection of a node.

  \<^bold>\<open>The node service.\<close> \<open>NodeInput\<close> checks and completes what the administrator enters, \<open>Landing\<close> the landing of
  the AI routing and its rule set (\<open>node/landing.go\<close>, \<open>landing_rules_source.go\<close>), \<open>TemporaryRuntime\<close> is
  \<open>node/temporary_runtime.go\<close>, \<open>NodeService\<close> the reconciliation, the compensation and the choice of ports,
  \<open>NodeHandlers\<close> every handler (\<open>node/service.go\<close>). The engine, the firewall and the residential runtime are
  records of operations (the interfaces of the source); the theorems assume of them only that they leave the
  database alone (\<open>apart\<close>). \<open>NodeLaws\<close>: a change of one node touches no other, expiry spares the
  nodes whose stored time the clock has not reached.
  \<open>NodeRollback\<close>: a failed creation leaves no trace. \<open>NodePorts\<close>: the ports after a change of the start port.
  \<open>NodeViews\<close>: the bulk query of the listeners is equivalent to single checks, over the model of the engine.
  \<open>LandingLaws\<close>: the landing is read back as it was saved. \<open>NodeDemo\<close> is the state the witnesses run on.
  \<open>Subscription\<close> (\<open>subscription/service.go\<close>) renders the links and documents the clients load.

  \<^bold>\<open>VPNGate.\<close> \<open>VpnSanitize\<close> (\<open>vpngate/sanitize.go\<close>) is the filter of volunteers' configurations, \<open>VpnCatalog\<close>
  (\<open>catalog.go\<close>) the catalog with its mirrors, \<open>VpnProbe\<close> (\<open>probe.go\<close>) the reset exchange, \<open>VpnService\<close>
  (\<open>service.go\<close>, \<open>countries.go\<close>, parts of \<open>inspect.go\<close>) the exits and their health reconciliation, \<open>VpnServiceLaws\<close> what holds of an exit that was
  created or swapped (it runs over a sanitized candidate of its country that no other exit uses), \<open>NetnsManager\<close>
  (\<open>netns/manager.go\<close>) the namespace of an exit with its firewalls and what they let through on both sides of the
  link, \<open>NetnsLaws\<close> the commands of a start in their order (no unit before both firewalls) and how a failed one is
  taken back, \<open>SocksBridge\<close> (\<open>socksbridge/server.go\<close>) the
  SOCKS5 server inside it, with its accept loop as a step relation. \<open>ExitCheck\<close> (\<open>exitcheck/checker.go\<close>, \<open>tundns/resolver.go\<close>)
  is its client: how the address of an outbound is learnt through SOCKS5 or HTTP CONNECT. \<open>ExitCheckLaws\<close> runs the two
  programs against each other, each reading what the other wrote.

  \<^bold>\<open>The HTTP API.\<close> \<open>ApiRequest\<close>, \<open>ApiRoutes\<close> and \<open>ApiHandlers\<close> are \<open>api/handler.go\<close>: what is read of a request (the
  address it comes from behind a local proxy, its origin), the table of routes under the multiplexer and the
  middleware, and the handlers of the login, the account, the plain settings and the subscription over the database
  and the services above. A failure is known by its status and code. \<open>ApiRoutes\<close> shows that without a session and its CSRF
  token no guarded handler has an influence on anything; \<open>ApiLaws\<close> that the database then changes only by a login with
  the right password, and that what the login answers admits the requests that follow. \<open>ApiNodes\<close> has the handlers of
  nodes, clients, outbounds and the AI landing with the gate in front of them, which keeps what entries of the host
  were verified; \<open>ApiNodeLaws\<close>: what passes the gate was verified again in the same request, and the record is read
  back as it was stored.

  \<^bold>\<open>Backups.\<close> \<open>GoDisk\<close> has the directory operations of \<open>os\<close> over a disk of entries, and what is known of clean paths.
  \<open>BackupState\<close> and \<open>Backup\<close> are \<open>backup/backup.go\<close>: the checks on a database and its key before a restore, and the
  archive, its extraction and the replacement of the live directories. \<open>BackupExtract\<close>: an archive, whatever it holds,
  stays in the staging directory and within one gibibyte. \<open>BackupLaws\<close> proves over the interface \<open>tree_swap\<close> (a rename
  moves a whole tree or nothing, a removal touches one tree) that the live directories are replaced or rolled back, and
  \<open>BackupDisk\<close> interprets it on the disk. \<open>BackupNodes\<close>: what the node service creates, a restore accepts.

  \<^bold>\<open>Parameters.\<close> Code that is not under \<open>src\<close>, or that the sources use only through its documented behaviour, is an
  argument of the definitions: the AES block function, SHA-256, Argon2id, X.509, PEM and X25519, the HTTP client,
  regular expressions, the runner of commands, the image that VACUUM INTO writes, the listener that tests a port, the
  embedded rule set, the YAML encoder. Hypotheses on them state documented behaviour (a checksum has 32 bytes, a
  status command prints its documented listing) and have a witness.

  \<^bold>\<open>Bounds.\<close> The JSON parser's fuel is the length of the document: every nested call consumes a character. The
  search of a year takes a bound on the days that are left. All other loops are structural, or over an explicit
  list of events (wake-ups of a wait, attempts of a probe, answers of a race).

  \<^bold>\<open>Not modelled.\<close> The handlers of the VPNGate exits, the residential jobs and the system in \<open>api\<close>, the encoding of the
  records a handler answers with, the command line (\<open>cmd/j-ui\<close>), the wiring and the timers (\<open>application\<close>,
  \<open>Start\<close> of the VPNGate service), the counters of the operating system (\<open>monitor\<close>) and the HTTP client of
  \<open>inspect.go\<close> are input and output around the modelled services. The relay of the two byte streams of the SOCKS
  bridge after the handshake is
  left out. In the store, messages are abbreviated, the schema statements act as the identity on rows, and a
  floating point value in a settings document is not representable. In \<open>List\<close> of the node service the bulk
  answer has one status per listener, as the engine's has.
\<close>

end
